(* ===== verification/AtlasPrelude.thy ===== *)
theory AtlasPrelude
  imports Main "HOL-Library.Sublist"
begin

text \<open>
  Shared vocabulary of the development: the part of Python's \<open>str\<close> that the Atlas sources
  use, association-list dictionaries, zero-padded decimal identifiers and generic list facts.
  Source text is modelled as \<open>string\<close>, a list of characters in the ASCII range, so
  \<open>isspace\<close>, \<open>isalpha\<close>, \<open>upper\<close> and their relatives are the ASCII restrictions of
  Python's Unicode methods. Every operation is named after the Python method with the prefix
  \<open>py_\<close>. The collection \<open>py_simps\<close> holds the equations that unfold the string
  methods, \<open>atlas_simps\<close> the facts the component proofs rewrite with.
\<close>

named_theorems py_simps
named_theorems atlas_simps

section \<open>Characters\<close>

definition code_of :: "char \<Rightarrow> nat" where
  "code_of c = of_char c"

definition is_space :: "char \<Rightarrow> bool" where
  "is_space c = (let n = code_of c in (9 \<le> n \<and> n \<le> 13) \<or> (28 \<le> n \<and> n \<le> 32))"

definition is_lower :: "char \<Rightarrow> bool" where
  "is_lower c = (let n = code_of c in 97 \<le> n \<and> n \<le> 122)"

definition is_upper :: "char \<Rightarrow> bool" where
  "is_upper c = (let n = code_of c in 65 \<le> n \<and> n \<le> 90)"

definition is_digit :: "char \<Rightarrow> bool" where
  "is_digit c = (let n = code_of c in 48 \<le> n \<and> n \<le> 57)"

definition is_alpha :: "char \<Rightarrow> bool" where
  "is_alpha c = (is_lower c \<or> is_upper c)"

definition is_alnum :: "char \<Rightarrow> bool" where
  "is_alnum c = (is_alpha c \<or> is_digit c)"

text \<open>Bit 5 of an ASCII letter is its case.\<close>

fun with_bit5 :: "bool \<Rightarrow> char \<Rightarrow> char" where
  "with_bit5 b (Char b0 b1 b2 b3 b4 b5 b6 b7) = Char b0 b1 b2 b3 b4 b b6 b7"

definition upper_char :: "char \<Rightarrow> char" where
  "upper_char c = (if is_lower c then with_bit5 False c else c)"

definition lower_char :: "char \<Rightarrow> char" where
  "lower_char c = (if is_upper c then with_bit5 True c else c)"

abbreviation (input) nl :: char where "nl \<equiv> CHR 0x0A"
abbreviation (input) cr :: char where "cr \<equiv> CHR 0x0D"
abbreviation (input) squote :: char where "squote \<equiv> CHR 0x27"
abbreviation (input) dquote :: char where "dquote \<equiv> CHR 0x22"
abbreviation (input) bquote :: char where "bquote \<equiv> CHR 0x60"
abbreviation (input) spc :: char where "spc \<equiv> CHR 0x20"

text \<open>The character classes on the bits of a character, for evaluation.\<close>

lemma is_lower_code [code]:
  "is_lower (Char b0 b1 b2 b3 b4 b5 b6 b7) =
     (if b7 then False else if b6 then if b5 then
        (if b4 then if b3 then if b2 then False else if b1 then \<not> b0 else True else True
         else if b3 then True else if b2 then True else if b1 then True else b0)
      else False else False)"
  by (cases b0; cases b1; cases b2; cases b3; cases b4; cases b5; cases b6; cases b7)
    (simp_all add: is_lower_def code_of_def)

lemma is_upper_code [code]:
  "is_upper (Char b0 b1 b2 b3 b4 b5 b6 b7) =
     (if b7 then False else if b6 then if b5 then False else
        (if b4 then if b3 then if b2 then False else if b1 then \<not> b0 else True else True
         else if b3 then True else if b2 then True else if b1 then True else b0)
      else False)"
  by (cases b0; cases b1; cases b2; cases b3; cases b4; cases b5; cases b6; cases b7)
    (simp_all add: is_upper_def code_of_def)

lemma is_digit_code [code]:
  "is_digit (Char b0 b1 b2 b3 b4 b5 b6 b7) =
     (if b7 then False else if b6 then False else if b5 then if b4 then
        (if b3 then if b2 then False else \<not> b1 else True) else False else False)"
  by (cases b0; cases b1; cases b2; cases b3; cases b4; cases b5; cases b6; cases b7)
    (simp_all add: is_digit_def code_of_def)

lemma is_space_code [code]:
  "is_space (Char b0 b1 b2 b3 b4 b5 b6 b7) =
     (if b7 then False else if b6 then False else if b5 then
        (if b4 then False else if b3 then False else if b2 then False else if b1 then False else \<not> b0)
      else if b4 then (if b3 then b2 else False)
      else if b3 then (if b2 then \<not> b1 else if b1 then True else b0) else False)"
  by (cases b0; cases b1; cases b2; cases b3; cases b4; cases b5; cases b6; cases b7)
    (simp_all add: is_space_def code_of_def)

section \<open>Python string methods\<close>

definition py_upper :: "string \<Rightarrow> string" where
  "py_upper = map upper_char"

definition py_lower :: "string \<Rightarrow> string" where
  "py_lower = map lower_char"

definition py_lstrip_of :: "(char \<Rightarrow> bool) \<Rightarrow> string \<Rightarrow> string" where
  "py_lstrip_of p s = dropWhile p s"

definition py_rstrip_of :: "(char \<Rightarrow> bool) \<Rightarrow> string \<Rightarrow> string" where
  "py_rstrip_of p s = rev (dropWhile p (rev s))"

definition py_strip_of :: "(char \<Rightarrow> bool) \<Rightarrow> string \<Rightarrow> string" where
  "py_strip_of p s = py_rstrip_of p (py_lstrip_of p s)"

abbreviation py_strip :: "string \<Rightarrow> string" where
  "py_strip \<equiv> py_strip_of is_space"

abbreviation py_rstrip :: "string \<Rightarrow> string" where
  "py_rstrip \<equiv> py_rstrip_of is_space"

abbreviation py_lstrip :: "string \<Rightarrow> string" where
  "py_lstrip \<equiv> py_lstrip_of is_space"

text \<open>\<open>s.rstrip(chars)\<close> and its relatives with an explicit character set.\<close>

definition in_chars :: "string \<Rightarrow> char \<Rightarrow> bool" where
  "in_chars cs c = (c \<in> set cs)"

definition py_startswith :: "string \<Rightarrow> string \<Rightarrow> bool" where
  "py_startswith s p = (take (length p) s = p)"

definition py_startswith_any :: "string \<Rightarrow> string list \<Rightarrow> bool" where
  "py_startswith_any s ps = list_ex (py_startswith s) ps"

definition py_endswith :: "string \<Rightarrow> string \<Rightarrow> bool" where
  "py_endswith s p = (length p \<le> length s \<and> drop (length s - length p) s = p)"

definition py_endswith_any :: "string \<Rightarrow> string list \<Rightarrow> bool" where
  "py_endswith_any s ps = list_ex (py_endswith s) ps"

text \<open>\<open>s.find(sub)\<close>: the least offset of an occurrence, \<open>None\<close> for Python's \<open>-1\<close>.\<close>

fun py_find :: "string \<Rightarrow> string \<Rightarrow> nat option" where
  "py_find [] sub = (if sub = [] then Some 0 else None)"
| "py_find (c # s) sub =
     (if py_startswith (c # s) sub then Some 0 else map_option Suc (py_find s sub))"

definition py_in :: "string \<Rightarrow> string \<Rightarrow> bool" where
  "py_in sub s = (py_find s sub \<noteq> None)"

text \<open>\<open>sep.join(parts)\<close>.\<close>

fun py_join :: "string \<Rightarrow> string list \<Rightarrow> string" where
  "py_join sep [] = []"
| "py_join sep [x] = x"
| "py_join sep (x # y # zs) = x @ sep @ py_join sep (y # zs)"

text \<open>\<open>re.sub(r"\s+", " ", s)\<close>: every maximal run of white space becomes one space.\<close>

fun squash_from :: "bool \<Rightarrow> string \<Rightarrow> string" where
  "squash_from b [] = []"
| "squash_from b (c # s) =
     (if is_space c then (if b then squash_from True s else spc # squash_from True s)
      else c # squash_from False s)"

definition squash_ws :: "string \<Rightarrow> string" where
  "squash_ws s = squash_from False s"

text \<open>\<open>s.split()\<close>: the maximal runs of non-space characters.\<close>

fun py_split_acc :: "string \<Rightarrow> string \<Rightarrow> string list" where
  "py_split_acc cur [] = (if cur = [] then [] else [cur])"
| "py_split_acc cur (c # s) =
     (if is_space c then (if cur = [] then [] else [cur]) @ py_split_acc [] s
      else py_split_acc (cur @ [c]) s)"

definition py_split :: "string \<Rightarrow> string list" where
  "py_split s = py_split_acc [] s"

text \<open>
  \<open>s.splitlines(keepends=True)\<close>: the line boundaries of the ASCII range are line feed,
  carriage return (with an immediately following line feed), vertical tab, form feed and the
  three separators 28, 29 and 30.
\<close>

definition is_linebreak :: "char \<Rightarrow> bool" where
  "is_linebreak c = (let n = code_of c in (10 \<le> n \<and> n \<le> 13) \<or> (28 \<le> n \<and> n \<le> 30))"

fun splitlines_acc :: "string \<Rightarrow> string \<Rightarrow> string list" where
  "splitlines_acc cur [] = (if cur = [] then [] else [cur])"
| "splitlines_acc cur [c] = [cur @ [c]]"
| "splitlines_acc cur (c # d # s) =
     (if c = cr \<and> d = nl then (cur @ [c, d]) # splitlines_acc [] s
      else if is_linebreak c then (cur @ [c]) # splitlines_acc [] (d # s)
      else splitlines_acc (cur @ [c]) (d # s))"

definition py_splitlines :: "string \<Rightarrow> string list" where
  "py_splitlines s = splitlines_acc [] s"

definition py_slice :: "string \<Rightarrow> nat \<Rightarrow> nat \<Rightarrow> string" where
  "py_slice s i j = take (j - i) (drop i s)"

text \<open>\<open>s.count(ch, 0, n)\<close> and \<open>s.rfind(ch, 0, n)\<close> for a single character.\<close>

definition py_count :: "string \<Rightarrow> char \<Rightarrow> nat \<Rightarrow> nat" where
  "py_count s c n = count_list (take n s) c"

fun py_rfind_from :: "nat \<Rightarrow> int \<Rightarrow> string \<Rightarrow> char \<Rightarrow> int" where
  "py_rfind_from i r [] c = r"
| "py_rfind_from i r (d # s) c = py_rfind_from (Suc i) (if d = c then int i else r) s c"

definition py_rfind :: "string \<Rightarrow> char \<Rightarrow> nat \<Rightarrow> int" where
  "py_rfind s c n = py_rfind_from 0 (-1) (take n s) c"

text \<open>\<open>s.replace(old, new)\<close> for a non-empty \<open>old\<close>.\<close>

fun py_replace_fuel :: "nat \<Rightarrow> string \<Rightarrow> string \<Rightarrow> string \<Rightarrow> string" where
  "py_replace_fuel 0 old new s = s"
| "py_replace_fuel (Suc n) old new [] = []"
| "py_replace_fuel (Suc n) old new (c # s) =
     (if py_startswith (c # s) old
      then new @ py_replace_fuel n old new (drop (length old) (c # s))
      else c # py_replace_fuel n old new s)"

definition py_replace :: "string \<Rightarrow> string \<Rightarrow> string \<Rightarrow> string" where
  "py_replace s old new = py_replace_fuel (length s) old new s"

section \<open>Decimal text\<close>

text \<open>\<open>str(n)\<close> and \<open>f"{n:04d}"\<close>.\<close>

definition digit_char :: "nat \<Rightarrow> char" where
  "digit_char d = char_of (48 + d)"

fun nat_dec :: "nat \<Rightarrow> string" where
  "nat_dec n = (if n < 10 then [digit_char n] else nat_dec (n div 10) @ [digit_char (n mod 10)])"

declare nat_dec.simps [simp del]

definition pad4 :: "nat \<Rightarrow> string" where
  "pad4 n = replicate (4 - length (nat_dec n)) (CHR ''0'') @ nat_dec n"

definition dec_value :: "string \<Rightarrow> nat" where
  "dec_value s = foldl (\<lambda>v c. 10 * v + (code_of c - 48)) 0 s"

definition str_nat :: "string \<Rightarrow> nat \<Rightarrow> string" where
  "str_nat pre n = pre @ pad4 n"

text \<open>\<open>repr\<close> of a string: quotes, backslashes and non-printing characters escaped.\<close>

definition hex_digit :: "nat \<Rightarrow> char" where
  "hex_digit d = (if d < 10 then digit_char d else char_of (87 + d))"

definition repr_char :: "char \<Rightarrow> char \<Rightarrow> string" where
  "repr_char q c =
     (if c = q \<or> c = CHR 0x5C then [CHR 0x5C, c]
      else if c = nl then [CHR 0x5C, CHR ''n'']
      else if c = cr then [CHR 0x5C, CHR ''r'']
      else if c = CHR 0x09 then [CHR 0x5C, CHR ''t'']
      else if code_of c < 32 \<or> code_of c = 127 then
        [CHR 0x5C, CHR ''x'', hex_digit (code_of c div 16), hex_digit (code_of c mod 16)]
      else [c])"

definition py_repr_str :: "string \<Rightarrow> string" where
  "py_repr_str s =
     (let q = (if squote \<in> set s \<and> dquote \<notin> set s then dquote else squote)
      in [q] @ concat (map (repr_char q) s) @ [q])"

section \<open>Dictionaries\<close>

text \<open>
  A Python dictionary whose order is observable is an association list. \<open>dict_set\<close>
  replaces the value of an existing key in place and appends a new key, as assignment does.
\<close>

fun dict_set :: "'k \<Rightarrow> 'v \<Rightarrow> ('k \<times> 'v) list \<Rightarrow> ('k \<times> 'v) list" where
  "dict_set k v [] = [(k, v)]"
| "dict_set k v ((k', v') # d) = (if k = k' then (k, v) # d else (k', v') # dict_set k v d)"

definition dict_update :: "('k \<times> 'v) list \<Rightarrow> ('k \<times> 'v) list \<Rightarrow> ('k \<times> 'v) list" where
  "dict_update d e = foldl (\<lambda>d kv. dict_set (fst kv) (snd kv) d) d e"

text \<open>\<open>max(candidates, key=...)\<close> returns the first of the maximal elements.\<close>

fun first_max :: "('a \<Rightarrow> nat) \<Rightarrow> 'a \<Rightarrow> 'a list \<Rightarrow> 'a" where
  "first_max f b [] = b"
| "first_max f b (x # xs) = first_max f (if f b < f x then x else b) xs"

text \<open>\<open>if x not in xs: xs.append(x)\<close>, the ordered-set idiom of the sources.\<close>

definition append_new :: "'a list \<Rightarrow> 'a \<Rightarrow> 'a list" where
  "append_new xs x = (if x \<in> set xs then xs else xs @ [x])"

section \<open>Facts about strings\<close>

lemma length_py_upper [simp]: "length (py_upper s) = length s"
  by (simp add: py_upper_def)

lemma length_py_lower [simp]: "length (py_lower s) = length s"
  by (simp add: py_lower_def)

lemma py_startswith_iff: "py_startswith s p \<longleftrightarrow> (\<exists>t. s = p @ t)"
  by (metis append_eq_conv_conj append_take_drop_id py_startswith_def)

lemma py_startswith_Nil [simp]: "py_startswith s []"
  by (simp add: py_startswith_def)

lemma py_startswith_append [simp]: "py_startswith (p @ s) p"
  by (simp add: py_startswith_def)

lemma py_startswith_length: "py_startswith s p \<Longrightarrow> length p \<le> length s"
  by (auto simp: py_startswith_iff)

lemma py_startswith_trans: "py_startswith s p \<Longrightarrow> py_startswith p q \<Longrightarrow> py_startswith s q"
  by (auto simp: py_startswith_iff)

lemma py_startswith_clash:
  "py_startswith s p \<Longrightarrow> py_startswith s q \<Longrightarrow> take (min (length p) (length q)) p = take (min (length p) (length q)) q"
  by (auto simp: py_startswith_def min_def) (metis take_take min.absorb2 min.absorb1 nat_le_linear)+

lemma rev_dropWhile_rev: "\<exists>t. s = rev (dropWhile p (rev s)) @ t \<and> (\<forall>c \<in> set t. p c)"
proof -
  have "s = rev (takeWhile p (rev s) @ dropWhile p (rev s))" by simp
  then have "s = rev (dropWhile p (rev s)) @ rev (takeWhile p (rev s))"
    by (metis rev_append)
  moreover have "\<forall>c \<in> set (rev (takeWhile p (rev s))). p c"
    by (auto dest: set_takeWhileD)
  ultimately show ?thesis by blast
qed

lemma py_rstrip_split: obtains t where "s = py_rstrip_of p s @ t" "\<forall>c \<in> set t. p c"
  using rev_dropWhile_rev [of s p] by (auto simp: py_rstrip_of_def)

lemma py_strip_split:
  obtains a b where "s = a @ py_strip_of p s @ b" "\<forall>c \<in> set a. p c" "\<forall>c \<in> set b. p c"
proof -
  obtain b where b: "dropWhile p s = py_rstrip_of p (dropWhile p s) @ b" "\<forall>c \<in> set b. p c"
    by (rule py_rstrip_split)
  have "s = takeWhile p s @ py_strip_of p s @ b"
    using b(1) by (metis py_lstrip_of_def py_strip_of_def takeWhile_dropWhile_id)
  then show thesis using b(2) that by (metis set_takeWhileD)
qed

lemma length_py_strip_le: "length (py_strip_of p s) \<le> length s"
  by (metis py_strip_split length_append trans_le_add1 trans_le_add2 order_refl)

lemma py_strip_Nil_iff: "py_strip_of p s = [] \<longleftrightarrow> (\<forall>c \<in> set s. p c)"
  by (auto simp: py_strip_of_def py_rstrip_of_def py_lstrip_of_def)
    (metis dropWhile_eq_Nil_conv hd_dropWhile list.set_sel(1) set_dropWhileD rev_is_Nil_conv)+

lemma py_strip_idem [simp]: "py_strip_of p (py_strip_of p s) = py_strip_of p s"
proof (cases "py_strip_of p s = []")
  case True
  moreover have "py_strip_of p [] = []"
    by (simp add: py_strip_of_def py_lstrip_of_def py_rstrip_of_def)
  ultimately show ?thesis by simp
next
  case False
  let ?u = "py_lstrip_of p s"
  let ?t = "py_strip_of p s"
  obtain w where w: "?u = ?t @ w" by (metis py_rstrip_split py_strip_of_def)
  have u: "?u \<noteq> []" using False by (auto simp: py_strip_of_def py_rstrip_of_def)
  then have "\<not> p (hd ?u)" unfolding py_lstrip_of_def by (rule hd_dropWhile)
  then have hd: "\<not> p (hd ?t)" using w False by simp
  then have l: "py_lstrip_of p ?t = ?t"
    using False by (cases ?t) (auto simp: py_lstrip_of_def)
  have d: "dropWhile p (rev ?u) \<noteq> []"
    using False by (simp add: py_strip_of_def py_rstrip_of_def)
  have "rev ?t = dropWhile p (rev ?u)" by (simp add: py_strip_of_def py_rstrip_of_def)
  then have "py_rstrip_of p ?t = ?t" by (simp add: py_rstrip_of_def) (metis rev_rev_ident)
  then show ?thesis using l by (simp add: py_strip_of_def)
qed

lemma py_join_Cons: "xs \<noteq> [] \<Longrightarrow> py_join sep (x # xs) = x @ sep @ py_join sep xs"
  by (cases xs) auto

lemma py_find_Some: "py_find s sub = Some i \<Longrightarrow> i + length sub \<le> length s \<and> py_startswith (drop i s) sub"
proof (induction s sub arbitrary: i rule: py_find.induct)
  case (1 sub)
  then show ?case by (auto split: if_splits)
next
  case (2 c s sub)
  then show ?case by (auto split: if_splits dest: py_startswith_length)
qed

lemma py_in_within: "py_in sub (a @ sub @ b)"
proof (induction a)
  case Nil
  then show ?case by (cases "sub @ b") (auto simp: py_in_def py_startswith_def, metis append_eq_conv_conj)
next
  case (Cons c a)
  then show ?case by (auto simp: py_in_def)
qed

lemma py_in_parts: "py_in sub s \<longleftrightarrow> (\<exists>a b. s = a @ sub @ b)"
proof
  assume "py_in sub s"
  then obtain i where "py_find s sub = Some i" by (auto simp: py_in_def)
  then have "take (length sub) (drop i s) = sub" using py_find_Some by (auto simp: py_startswith_def)
  then have "s = take i s @ sub @ drop (length sub) (drop i s)" by (metis append_take_drop_id)
  then show "\<exists>a b. s = a @ sub @ b" by blast
qed (auto simp: py_in_within)

lemma py_find_None: "py_find s sub = None \<Longrightarrow> \<not> py_startswith (drop i s) sub \<or> length s < i"
proof (induction s sub arbitrary: i rule: py_find.induct)
  case (1 sub)
  then show ?case by (auto simp: py_startswith_def split: if_splits)
next
  case (2 c s sub)
  then show ?case by (cases i) (auto split: if_splits)
qed

lemma py_count_le: "py_count s c n \<le> length s"
  by (metis count_le_length le_trans length_take min.cobounded1 py_count_def)

lemma py_rfind_from_bounds:
  "-1 \<le> r \<Longrightarrow> r < int i \<Longrightarrow> -1 \<le> py_rfind_from i r s c \<and> py_rfind_from i r s c < int (i + length s)"
proof (induction s arbitrary: i r)
  case Nil
  then show ?case by simp
next
  case (Cons d s)
  have "-1 \<le> (if d = c then int i else r)" "(if d = c then int i else r) < int (Suc i)"
    using Cons.prems by auto
  from Cons.IH [OF this] show ?case by simp
qed

lemma py_rfind_bounds: "-1 \<le> py_rfind s c n \<and> py_rfind s c n < int (min (length s) n) + (if min (length s) n = 0 then 1 else 0)"
  using py_rfind_from_bounds [of "-1" 0 "take n s" c] by (auto simp: py_rfind_def min_def)

lemma py_rfind_less: "py_rfind s c n + 1 \<le> int n"
proof -
  have "py_rfind s c n < int (length (take n s)) \<or> py_rfind s c n = -1"
    using py_rfind_from_bounds [of "-1" 0 "take n s" c] by (auto simp: py_rfind_def)
  then show ?thesis by auto
qed

lemma py_rfind_ge: "-1 \<le> py_rfind s c n"
  using py_rfind_from_bounds [of "-1" 0 "take n s" c] by (simp add: py_rfind_def)

lemma concat_splitlines_acc: "concat (splitlines_acc cur s) = cur @ s"
  by (induction cur s rule: splitlines_acc.induct) auto

lemma concat_py_splitlines [simp]: "concat (py_splitlines s) = s"
  by (simp add: py_splitlines_def concat_splitlines_acc)

lemma splitlines_acc_nonempty: "l \<in> set (splitlines_acc cur s) \<Longrightarrow> l \<noteq> []"
  by (induction cur s rule: splitlines_acc.induct) (auto split: if_splits)

lemma py_splitlines_nonempty: "l \<in> set (py_splitlines s) \<Longrightarrow> l \<noteq> []"
  by (simp add: py_splitlines_def splitlines_acc_nonempty)

section \<open>Facts about decimal text\<close>

lemma code_of_digit_char: "d < 10 \<Longrightarrow> code_of (digit_char d) = 48 + d"
  by (simp add: code_of_def digit_char_def)

lemma dec_value_append: "dec_value (s @ [c]) = 10 * dec_value s + (code_of c - 48)"
  by (simp add: dec_value_def)

lemma dec_value_nat_dec [simp]: "dec_value (nat_dec n) = n"
proof (induction n rule: nat_dec.induct)
  case (1 n)
  show ?case
  proof (cases "n < 10")
    case True
    then show ?thesis by (simp add: nat_dec.simps [of n] dec_value_def code_of_digit_char)
  next
    case False
    with 1 have "dec_value (nat_dec (n div 10)) = n div 10" by simp
    moreover have "n mod 10 < 10" by simp
    ultimately show ?thesis
      using False by (simp add: nat_dec.simps [of n] dec_value_append code_of_digit_char)
  qed
qed

lemma dec_value_zeros: "dec_value (replicate k (CHR ''0'') @ s) = dec_value s"
proof -
  have "foldl (\<lambda>v c. 10 * v + (code_of c - 48)) 0 (replicate k (CHR ''0'')) = 0"
    by (induction k) (auto simp: code_of_def)
  then show ?thesis by (simp add: dec_value_def)
qed

lemma dec_value_pad4 [simp]: "dec_value (pad4 n) = n"
  by (simp add: pad4_def dec_value_zeros)

lemma pad4_inject [simp]: "pad4 m = pad4 n \<longleftrightarrow> m = n"
  by (metis dec_value_pad4)

lemma str_nat_inject [simp]: "str_nat p m = str_nat p n \<longleftrightarrow> m = n"
  by (simp add: str_nat_def)

lemma nat_dec_digits: "c \<in> set (nat_dec n) \<Longrightarrow> is_digit c"
proof (induction n rule: nat_dec.induct)
  case (1 n)
  have d: "d < 10 \<Longrightarrow> is_digit (digit_char d)" for d
    by (simp add: is_digit_def code_of_digit_char)
  show ?case
    using 1 d [of n] d [of "n mod 10"]
    by (auto simp: nat_dec.simps [of n] split: if_splits)
qed

lemma pad4_digits: "c \<in> set (pad4 n) \<Longrightarrow> is_digit c"
  by (auto simp: pad4_def dest: nat_dec_digits) (simp add: is_digit_def code_of_def)

lemma pad4_length: "4 \<le> length (pad4 n)"
  by (simp add: pad4_def)

section \<open>Facts about dictionaries and ordered sets\<close>

lemma map_of_dict_set [simp]: "map_of (dict_set k v d) = (map_of d)(k \<mapsto> v)"
  by (induction k v d rule: dict_set.induct) auto

lemma keys_dict_set: "fst ` set (dict_set k v d) = insert k (fst ` set d)"
  by (induction k v d rule: dict_set.induct) auto

lemma set_dict_set_subset: "set (dict_set k v d) \<subseteq> insert (k, v) (set d)"
  by (induction k v d rule: dict_set.induct) auto

lemma distinct_dict_set: "distinct (map fst d) \<Longrightarrow> distinct (map fst (dict_set k v d))"
  by (induction k v d rule: dict_set.induct) (auto simp: keys_dict_set)

lemma map_of_dict_update: "map_of (dict_update d e) = map_of d ++ map_of (rev e)"
  by (induction e arbitrary: d) (auto simp: dict_update_def map_add_def fun_eq_iff split: option.splits)

lemma first_max_mem: "first_max f b xs = b \<or> first_max f b xs \<in> set xs"
  by (induction f b xs rule: first_max.induct) (auto split: if_splits)

lemma first_max_ge: "f b \<le> f (first_max f b xs) \<and> (\<forall>x \<in> set xs. f x \<le> f (first_max f b xs)) \<and> first_max f b xs \<in> insert b (set xs)"
  by (induction f b xs rule: first_max.induct) (auto intro: order_trans)

lemma set_append_new [simp]: "set (append_new xs x) = insert x (set xs)"
  by (auto simp: append_new_def)

lemma distinct_append_new [simp]: "distinct xs \<Longrightarrow> distinct (append_new xs x)"
  by (auto simp: append_new_def)

lemma foldl_append_new_set: "set (foldl append_new xs ys) = set xs \<union> set ys"
  by (induction ys arbitrary: xs) auto

lemma foldl_append_new_distinct: "distinct xs \<Longrightarrow> distinct (foldl append_new xs ys)"
  by (induction ys arbitrary: xs) auto

lemma list_ex_py_startswith: "py_startswith_any s ps \<longleftrightarrow> (\<exists>p \<in> set ps. py_startswith s p)"
  by (simp add: py_startswith_any_def list_ex_iff)

lemma find_Some_mem: "List.find P xs = Some x \<Longrightarrow> x \<in> set xs \<and> P x"
  by (induction xs) (auto split: if_splits)

lemma find_None_iff': "List.find P xs = None \<longleftrightarrow> (\<forall>x \<in> set xs. \<not> P x)"
  by (induction xs) auto

end
