(* ===== verification/AtlasModels.thy ===== *)
theory AtlasModels
  imports AtlasPrelude
begin

text \<open>
  The database-neutral intermediate representation of \<open>atlas/core/models.py\<close>. Each enum is
  a datatype with the source's members (a member that clashes with a HOL or sibling name carries
  a suffix), each pydantic model a record whose fields are the model's fields with a prefix for
  the model. The dictionaries \<open>attributes\<close> and \<open>routine_attributes\<close> are association
  lists from keys to values of type \<open>attr\<close>. Field constraints and validators are the
  predicates \<open>span_ok\<close> and \<open>validate_references\<close>, whose failure is the
  \<open>ValueError\<close> the model raises.
\<close>

section \<open>Enumerations\<close>

datatype DialectId =
    DB2_SQL_PL | ORACLE_PLSQL | SQLSERVER_TSQL | POSTGRESQL_PLPGSQL | MYSQL_STORED_PROGRAM

datatype RoutineKind = PROCEDURE | FUNCTION | TRIGGER | PACKAGE_ROUTINE

datatype SemanticNodeKind =
    ENTRY | EXIT | BLOCK | DECLARE_K | ASSIGNMENT | CONDITION | CASE_K | LOOP | LOOP_CONTROL
  | QUERY | SELECT_INTO | RESULT_SET | INSERT | UPDATE | DELETE | MERGE | UPSERT | CALL
  | DYNAMIC_SQL | CURSOR_DECLARE | CURSOR_OPEN | CURSOR_FETCH | CURSOR_CLOSE | ERROR_RAISE
  | ERROR_HANDLER | DIAGNOSTICS | TRANSACTION_BEGIN | COMMIT | ROLLBACK | SAVEPOINT | RETURN
  | TEMP_OBJECT | SECURITY_CONTEXT | CONDITION_DECLARE | PRAGMA | ASSERT | BULK_OPERATION
  | LABEL | GOTO | LOCK | TRANSACTION_SETTING | MESSAGE | TRUNCATE | DDL | CALL_TARGET | OPAQUE

datatype EdgeKind =
    NEXT | TRUE_E | FALSE_E | BRANCH | LOOP_BODY | LOOP_BACK | EXCEPTION | CALLS | DATA_DEPENDENCY

datatype EffectModality = MUST | MAY | CONDITIONAL | UNKNOWN

datatype ParameterMode = MODE_IN | MODE_OUT | MODE_INOUT | MODE_VARIADIC | MODE_RETURN

datatype Severity = SEV_INFO | SEV_WARNING | SEV_ERROR

datatype ParseStatus = STATUS_COMPLETE | STATUS_PARTIAL | STATUS_BLOCKED

text \<open>The string values of the \<open>StrEnum\<close> members that the sources print.\<close>

fun dialect_value :: "DialectId \<Rightarrow> string" where
  "dialect_value DB2_SQL_PL = ''DB2_SQL_PL''"
| "dialect_value ORACLE_PLSQL = ''ORACLE_PLSQL''"
| "dialect_value SQLSERVER_TSQL = ''SQLSERVER_TSQL''"
| "dialect_value POSTGRESQL_PLPGSQL = ''POSTGRESQL_PLPGSQL''"
| "dialect_value MYSQL_STORED_PROGRAM = ''MYSQL_STORED_PROGRAM''"

fun routine_kind_value :: "RoutineKind \<Rightarrow> string" where
  "routine_kind_value PROCEDURE = ''PROCEDURE''"
| "routine_kind_value FUNCTION = ''FUNCTION''"
| "routine_kind_value TRIGGER = ''TRIGGER''"
| "routine_kind_value PACKAGE_ROUTINE = ''PACKAGE_ROUTINE''"

fun node_kind_value :: "SemanticNodeKind \<Rightarrow> string" where
  "node_kind_value ENTRY = ''ENTRY''"
| "node_kind_value EXIT = ''EXIT''"
| "node_kind_value BLOCK = ''BLOCK''"
| "node_kind_value DECLARE_K = ''DECLARE''"
| "node_kind_value ASSIGNMENT = ''ASSIGNMENT''"
| "node_kind_value CONDITION = ''CONDITION''"
| "node_kind_value CASE_K = ''CASE''"
| "node_kind_value LOOP = ''LOOP''"
| "node_kind_value LOOP_CONTROL = ''LOOP_CONTROL''"
| "node_kind_value QUERY = ''QUERY''"
| "node_kind_value SELECT_INTO = ''SELECT_INTO''"
| "node_kind_value RESULT_SET = ''RESULT_SET''"
| "node_kind_value INSERT = ''INSERT''"
| "node_kind_value UPDATE = ''UPDATE''"
| "node_kind_value DELETE = ''DELETE''"
| "node_kind_value MERGE = ''MERGE''"
| "node_kind_value UPSERT = ''UPSERT''"
| "node_kind_value CALL = ''CALL''"
| "node_kind_value DYNAMIC_SQL = ''DYNAMIC_SQL''"
| "node_kind_value CURSOR_DECLARE = ''CURSOR_DECLARE''"
| "node_kind_value CURSOR_OPEN = ''CURSOR_OPEN''"
| "node_kind_value CURSOR_FETCH = ''CURSOR_FETCH''"
| "node_kind_value CURSOR_CLOSE = ''CURSOR_CLOSE''"
| "node_kind_value ERROR_RAISE = ''ERROR_RAISE''"
| "node_kind_value ERROR_HANDLER = ''ERROR_HANDLER''"
| "node_kind_value DIAGNOSTICS = ''DIAGNOSTICS''"
| "node_kind_value TRANSACTION_BEGIN = ''TRANSACTION_BEGIN''"
| "node_kind_value COMMIT = ''COMMIT''"
| "node_kind_value ROLLBACK = ''ROLLBACK''"
| "node_kind_value SAVEPOINT = ''SAVEPOINT''"
| "node_kind_value RETURN = ''RETURN''"
| "node_kind_value TEMP_OBJECT = ''TEMP_OBJECT''"
| "node_kind_value SECURITY_CONTEXT = ''SECURITY_CONTEXT''"
| "node_kind_value CONDITION_DECLARE = ''CONDITION_DECLARE''"
| "node_kind_value PRAGMA = ''PRAGMA''"
| "node_kind_value ASSERT = ''ASSERT''"
| "node_kind_value BULK_OPERATION = ''BULK_OPERATION''"
| "node_kind_value LABEL = ''LABEL''"
| "node_kind_value GOTO = ''GOTO''"
| "node_kind_value LOCK = ''LOCK''"
| "node_kind_value TRANSACTION_SETTING = ''TRANSACTION_SETTING''"
| "node_kind_value MESSAGE = ''MESSAGE''"
| "node_kind_value TRUNCATE = ''TRUNCATE''"
| "node_kind_value DDL = ''DDL''"
| "node_kind_value CALL_TARGET = ''CALL_TARGET''"
| "node_kind_value OPAQUE = ''OPAQUE''"

fun edge_kind_value :: "EdgeKind \<Rightarrow> string" where
  "edge_kind_value NEXT = ''NEXT''"
| "edge_kind_value TRUE_E = ''TRUE''"
| "edge_kind_value FALSE_E = ''FALSE''"
| "edge_kind_value BRANCH = ''BRANCH''"
| "edge_kind_value LOOP_BODY = ''LOOP_BODY''"
| "edge_kind_value LOOP_BACK = ''LOOP_BACK''"
| "edge_kind_value EXCEPTION = ''EXCEPTION''"
| "edge_kind_value CALLS = ''CALLS''"
| "edge_kind_value DATA_DEPENDENCY = ''DATA_DEPENDENCY''"

fun mode_value :: "ParameterMode \<Rightarrow> string" where
  "mode_value MODE_IN = ''IN''"
| "mode_value MODE_OUT = ''OUT''"
| "mode_value MODE_INOUT = ''INOUT''"
| "mode_value MODE_VARIADIC = ''VARIADIC''"
| "mode_value MODE_RETURN = ''RETURN''"

section \<open>Attribute dictionaries\<close>

datatype attr = ANone | AStr string | ABool bool | AInt int | AStrs "string list" | APairs "(string \<times> string) list"

type_synonym attrs = "(string \<times> attr) list"

text \<open>\<open>str(value)\<close> of the attribute values, whose sequences are tuples, and their truth value.\<close>

definition tuple_repr :: "string list \<Rightarrow> string" where
  "tuple_repr items = ''('' @ py_join '', '' items @ (if length items = 1 then '','' else []) @ '')''"

fun attr_str :: "attr \<Rightarrow> string" where
  "attr_str ANone = ''None''"
| "attr_str (AStr s) = s"
| "attr_str (ABool b) = (if b then ''True'' else ''False'')"
| "attr_str (AInt n) = (if n < 0 then ''-'' else []) @ nat_dec (nat \<bar>n\<bar>)"
| "attr_str (AStrs xs) = tuple_repr (map py_repr_str xs)"
| "attr_str (APairs ps) = tuple_repr (map (\<lambda>(a, b). tuple_repr [py_repr_str a, py_repr_str b]) ps)"

fun attr_truthy :: "attr \<Rightarrow> bool" where
  "attr_truthy ANone = False"
| "attr_truthy (AStr s) = (s \<noteq> [])"
| "attr_truthy (ABool b) = b"
| "attr_truthy (AInt n) = (n \<noteq> 0)"
| "attr_truthy (AStrs xs) = (xs \<noteq> [])"
| "attr_truthy (APairs ps) = (ps \<noteq> [])"

definition attr_flag :: "attrs \<Rightarrow> string \<Rightarrow> bool" where
  "attr_flag a key = (case map_of a key of None \<Rightarrow> False | Some v \<Rightarrow> attr_truthy v)"

text \<open>\<open>bool(attrs.get(key))\<close> is \<open>attr_flag\<close>; \<open>attrs.get(key, "")\<close> through \<open>str\<close>, and the \<open>isinstance(..., str)\<close> idiom.\<close>

definition attr_get_str :: "attrs \<Rightarrow> string \<Rightarrow> string" where
  "attr_get_str a key = (case map_of a key of None \<Rightarrow> [] | Some v \<Rightarrow> attr_str v)"

definition attr_string :: "attrs \<Rightarrow> string \<Rightarrow> string option" where
  "attr_string a key = (case map_of a key of Some (AStr s) \<Rightarrow> Some s | _ \<Rightarrow> None)"

definition opt_attr :: "string option \<Rightarrow> attr" where
  "opt_attr v = (case v of None \<Rightarrow> ANone | Some s \<Rightarrow> AStr s)"

text \<open>Python truthiness of an optional string, and \<open>value or default\<close>.\<close>

definition truthy :: "string option \<Rightarrow> bool" where
  "truthy v = (case v of None \<Rightarrow> False | Some s \<Rightarrow> s \<noteq> [])"

definition or_str :: "string option \<Rightarrow> string \<Rightarrow> string" where
  "or_str v d = (case v of None \<Rightarrow> d | Some s \<Rightarrow> if s = [] then d else s)"

definition or_opt :: "string option \<Rightarrow> string option \<Rightarrow> string option" where
  "or_opt v d = (if truthy v then v else d)"

section \<open>Models\<close>

record SourceSpan =
  span_start_line :: int
  span_start_column :: int
  span_end_line :: int
  span_end_column :: int
  span_start_offset :: int
  span_end_offset :: int

definition span_ok :: "SourceSpan \<Rightarrow> bool" where
  "span_ok s \<longleftrightarrow> span_start_line s \<ge> 1 \<and> span_start_column s \<ge> 1 \<and> span_end_line s \<ge> 1 \<and>
     span_end_column s \<ge> 1 \<and> span_start_offset s \<ge> 0 \<and> span_end_offset s \<ge> 0"

record RoutineParameter =
  param_name :: string
  param_mode :: ParameterMode
  param_type_text :: string
  param_default_text :: "string option"

record SemanticNode =
  node_id :: string
  node_kind :: SemanticNodeKind
  node_text :: string
  node_source_span :: SourceSpan
  node_parent_ref :: "string option"
  node_condition_text :: "string option"
  node_target_name :: "string option"
  node_expression_text :: "string option"
  node_relation_refs :: "string list"
  node_variable_reads :: "string list"
  node_variable_writes :: "string list"
  node_call_target :: "string option"
  node_cursor_name :: "string option"
  node_error_code :: "string option"
  node_modality :: EffectModality
  node_attributes :: attrs

record SemanticEdge =
  edge_id :: string
  edge_source_ref :: string
  edge_target_ref :: string
  edge_kind :: EdgeKind
  edge_condition_text :: "string option"

record SemanticFinding =
  finding_code :: string
  finding_severity :: Severity
  finding_message :: string
  finding_source_span :: "SourceSpan option"
  finding_consequence :: string

record RoutineIR =
  ir_atlas_version :: string
  ir_dialect :: DialectId
  ir_adapter_id :: string
  ir_routine_kind :: RoutineKind
  ir_schema_name :: "string option"
  ir_routine_name :: string
  ir_parameters :: "RoutineParameter list"
  ir_routine_attributes :: attrs
  ir_source_name :: string
  ir_source_digest :: string
  ir_body_digest :: string
  ir_nodes :: "SemanticNode list"
  ir_edges :: "SemanticEdge list"
  ir_findings :: "SemanticFinding list"
  ir_entry_node_ref :: string
  ir_exit_node_ref :: string
  ir_content_digest :: string

record DecisionArm =
  arm_id :: string
  arm_precedence :: nat
  arm_predicate_node_ref :: string
  arm_condition_text :: string
  arm_effect_node_refs :: "string list"
  arm_terminal :: bool

record EffectSummary =
  effect_id :: string
  effect_node_ref :: string
  effect_kind :: SemanticNodeKind
  effect_target :: "string option"
  effect_expression :: "string option"
  effect_modality :: EffectModality
  effect_condition_refs :: "string list"
  effect_relation_refs :: "string list"

record RoutineSemanticReport =
  rep_atlas_version :: string
  rep_dialect :: DialectId
  rep_routine_ref :: string
  rep_routine_ir_digest :: string
  rep_parse_status :: ParseStatus
  rep_decision_arms :: "DecisionArm list"
  rep_effects :: "EffectSummary list"
  rep_call_targets :: "string list"
  rep_relation_refs :: "string list"
  rep_dynamic_sql_node_refs :: "string list"
  rep_result_set_node_refs :: "string list"
  rep_transaction_node_refs :: "string list"
  rep_handler_node_refs :: "string list"
  rep_opaque_node_refs :: "string list"
  rep_finding_counts :: "(string \<times> nat) list"
  rep_content_digest :: string

record ScenarioCandidate =
  scn_scenario_id :: string
  scn_name :: string
  scn_given :: "string list"
  scn_when :: string
  scn_then :: "string list"
  scn_evidence_refs :: "string list"

record ScenarioCandidateBatch =
  batch_routine_ref :: string
  batch_dialect :: DialectId
  batch_scenarios :: "ScenarioCandidate list"
  batch_source_ir_digest :: string
  batch_content_digest :: string

record RoutineAnalysisBundle =
  bundle_routine_ref :: string
  bundle_routine_ir :: RoutineIR
  bundle_semantic_report :: RoutineSemanticReport
  bundle_scenario_candidates :: ScenarioCandidateBatch
  bundle_content_digest :: string

record SourceUnitAnalysis =
  unit_atlas_version :: string
  unit_dialect :: DialectId
  unit_source_name :: string
  unit_source_digest :: string
  unit_routines :: "RoutineAnalysisBundle list"
  unit_discovery_findings :: "SemanticFinding list"
  unit_content_digest :: string

section \<open>The validator of \<open>RoutineIR\<close>\<close>

text \<open>
  \<open>validate_references\<close> raises when the entry or exit reference or an end of an edge
  does not name a node; \<open>None\<close> is the model accepted, \<open>Some msg\<close> the \<open>ValueError\<close>.
\<close>

definition validate_edges :: "string list \<Rightarrow> SemanticEdge list \<Rightarrow> string option" where
  "validate_edges ids es =
     (case List.find (\<lambda>e. edge_source_ref e \<notin> set ids \<or> edge_target_ref e \<notin> set ids) es of
        None \<Rightarrow> None
      | Some e \<Rightarrow> Some (''Unresolved edge '' @ edge_id e))"

definition validate_references :: "RoutineIR \<Rightarrow> string option" where
  "validate_references ir =
     (let ids = map node_id (ir_nodes ir)
      in if ir_entry_node_ref ir \<notin> set ids \<or> ir_exit_node_ref ir \<notin> set ids
         then Some ''Entry and exit references must resolve.''
         else validate_edges ids (ir_edges ir))"

definition edges_resolve :: "string set \<Rightarrow> SemanticEdge list \<Rightarrow> bool" where
  "edges_resolve ids es \<longleftrightarrow> (\<forall>e \<in> set es. edge_source_ref e \<in> ids \<and> edge_target_ref e \<in> ids)"

lemma validate_edges_None: "validate_edges ids es = None \<longleftrightarrow> edges_resolve (set ids) es"
  by (auto simp: validate_edges_def edges_resolve_def find_None_iff' split: option.splits
      dest: find_Some_mem)

lemma validate_references_None:
  "validate_references ir = None \<longleftrightarrow>
     ir_entry_node_ref ir \<in> node_id ` set (ir_nodes ir) \<and>
     ir_exit_node_ref ir \<in> node_id ` set (ir_nodes ir) \<and>
     edges_resolve (node_id ` set (ir_nodes ir)) (ir_edges ir)"
  by (auto simp: validate_references_def Let_def validate_edges_None)

lemma edges_resolve_append [simp]:
  "edges_resolve ids (es @ fs) \<longleftrightarrow> edges_resolve ids es \<and> edges_resolve ids fs"
  by (auto simp: edges_resolve_def)

lemma edges_resolve_Nil [simp]: "edges_resolve ids []"
  by (simp add: edges_resolve_def)

lemma edges_resolve_Cons [simp]:
  "edges_resolve ids (e # es) \<longleftrightarrow>
     edge_source_ref e \<in> ids \<and> edge_target_ref e \<in> ids \<and> edges_resolve ids es"
  by (auto simp: edges_resolve_def)

lemma edges_resolve_mono: "edges_resolve ids es \<Longrightarrow> ids \<subseteq> ids' \<Longrightarrow> edges_resolve ids' es"
  by (auto simp: edges_resolve_def)

text \<open>Two dialect identifiers are ordered by their string value, as the registry sorts them.\<close>

fun dialect_rank :: "DialectId \<Rightarrow> nat" where
  "dialect_rank DB2_SQL_PL = 0"
| "dialect_rank MYSQL_STORED_PROGRAM = 1"
| "dialect_rank ORACLE_PLSQL = 2"
| "dialect_rank POSTGRESQL_PLPGSQL = 3"
| "dialect_rank SQLSERVER_TSQL = 4"

lemma dialect_rank_inject: "dialect_rank a = dialect_rank b \<longleftrightarrow> a = b"
  by (cases a; cases b) auto

instantiation DialectId :: linorder
begin

definition less_eq_DialectId :: "DialectId \<Rightarrow> DialectId \<Rightarrow> bool" where
  "less_eq_DialectId a b \<longleftrightarrow> dialect_rank a \<le> dialect_rank b"

definition less_DialectId :: "DialectId \<Rightarrow> DialectId \<Rightarrow> bool" where
  "less_DialectId a b \<longleftrightarrow> dialect_rank a < dialect_rank b"

instance
  by standard (auto simp: less_eq_DialectId_def less_DialectId_def dialect_rank_inject)

end

end
