(* ===== verification/PyRegex.thy ===== *)
theory PyRegex
  imports AtlasPrelude
begin

text \<open>
  The part of Python's \<open>re\<close> module that the Atlas sources use, as a backtracking matcher.
  A pattern is a value of type \<open>rx\<close>; alternatives are tried in order, \<open>RStar\<close> and
  \<open>ROpt\<close> are greedy, \<open>RLazy\<close> and \<open>ROptL\<close> are the lazy forms \<open>*?\<close> and \<open>??\<close>.
  A matching state is the previous character, the offset and the remaining input; captured
  groups are kept newest first. An iteration of a repetition must consume input, so a
  repetition runs at most once per remaining character and the bound handed to
  \<open>star_run\<close> and \<open>lazy_run\<close> (the remaining input itself, one character per
  iteration) is never what ends it. Patterns are written with the combinators of this theory, one per construct of the
  source's pattern string; the flag \<open>(?i)\<close> selects the case-insensitive combinators
  \<open>kw\<close> and \<open>icls\<close>, \<open>(?s)\<close> selects \<open>any\<close> over \<open>dot\<close>, and \<open>(?m)\<close> selects
  \<open>RBol\<close>/\<open>REol\<close> over \<open>RBos\<close>/\<open>REos\<close>.
\<close>

datatype rx =
    REmpty
  | RChr "char \<Rightarrow> bool"
  | RSeq rx rx
  | RAlt rx rx
  | RStar rx
  | RLazy rx
  | ROpt rx
  | ROptL rx
  | RGroup nat rx
  | RBos
  | REos
  | RBol
  | REol
  | RWordB
  | RLook rx
  | RNotLook rx

type_synonym mst = "char option \<times> nat \<times> string"
type_synonym caps = "(nat \<times> string) list"
type_synonym mcont = "mst \<Rightarrow> caps \<Rightarrow> (mst \<times> caps) option"
type_synonym mfun = "mst \<Rightarrow> caps \<Rightarrow> mcont \<Rightarrow> (mst \<times> caps) option"

abbreviation st_pos :: "mst \<Rightarrow> nat" where "st_pos st \<equiv> fst (snd st)"
abbreviation st_rest :: "mst \<Rightarrow> string" where "st_rest st \<equiv> snd (snd st)"

definition is_word :: "char \<Rightarrow> bool" where
  "is_word c = (is_alnum c \<or> c = CHR ''_'')"

definition at_word_boundary :: "mst \<Rightarrow> bool" where
  "at_word_boundary st =
     ((case fst st of None \<Rightarrow> False | Some c \<Rightarrow> is_word c) \<noteq>
      (case st_rest st of [] \<Rightarrow> False | c # _ \<Rightarrow> is_word c))"

primrec star_run :: "string \<Rightarrow> mfun \<Rightarrow> mst \<Rightarrow> caps \<Rightarrow> mcont \<Rightarrow> (mst \<times> caps) option" where
  "star_run [] m st cs k = k st cs"
| "star_run (c # n) m st cs k =
     (case m st cs (\<lambda>st' cs'. if st_pos st < st_pos st' then star_run n m st' cs' k else None) of
        Some r \<Rightarrow> Some r
      | None \<Rightarrow> k st cs)"

primrec lazy_run :: "string \<Rightarrow> mfun \<Rightarrow> mst \<Rightarrow> caps \<Rightarrow> mcont \<Rightarrow> (mst \<times> caps) option" where
  "lazy_run [] m st cs k = k st cs"
| "lazy_run (c # n) m st cs k =
     (case k st cs of
        Some r \<Rightarrow> Some r
      | None \<Rightarrow> m st cs (\<lambda>st' cs'. if st_pos st < st_pos st' then lazy_run n m st' cs' k else None))"

primrec rx_run :: "rx \<Rightarrow> mfun" where
  "rx_run REmpty st cs k = k st cs"
| "rx_run (RChr p) st cs k =
     (case st_rest st of [] \<Rightarrow> None | c # s \<Rightarrow> if p c then k (Some c, Suc (st_pos st), s) cs else None)"
| "rx_run (RSeq a b) st cs k = rx_run a st cs (\<lambda>st' cs'. rx_run b st' cs' k)"
| "rx_run (RAlt a b) st cs k =
     (case rx_run a st cs k of Some r \<Rightarrow> Some r | None \<Rightarrow> rx_run b st cs k)"
| "rx_run (RStar a) st cs k = star_run (st_rest st) (rx_run a) st cs k"
| "rx_run (RLazy a) st cs k = lazy_run (st_rest st) (rx_run a) st cs k"
| "rx_run (ROpt a) st cs k =
     (case rx_run a st cs k of Some r \<Rightarrow> Some r | None \<Rightarrow> k st cs)"
| "rx_run (ROptL a) st cs k =
     (case k st cs of Some r \<Rightarrow> Some r | None \<Rightarrow> rx_run a st cs k)"
| "rx_run (RGroup i a) st cs k =
     rx_run a st cs (\<lambda>st' cs'. k st' ((i, take (st_pos st' - st_pos st) (st_rest st)) # cs'))"
| "rx_run RBos st cs k = (if st_pos st = 0 then k st cs else None)"
| "rx_run REos st cs k = (if st_rest st = [] \<or> st_rest st = [nl] then k st cs else None)"
| "rx_run RBol st cs k = (if st_pos st = 0 \<or> fst st = Some nl then k st cs else None)"
| "rx_run REol st cs k =
     (case st_rest st of [] \<Rightarrow> k st cs | c # _ \<Rightarrow> if c = nl then k st cs else None)"
| "rx_run RWordB st cs k = (if at_word_boundary st then k st cs else None)"
| "rx_run (RLook a) st cs k =
     (case rx_run a st cs (\<lambda>st' cs'. Some (st', cs')) of Some r \<Rightarrow> k st (snd r) | None \<Rightarrow> None)"
| "rx_run (RNotLook a) st cs k =
     (case rx_run a st cs (\<lambda>st' cs'. Some (st', cs')) of Some _ \<Rightarrow> None | None \<Rightarrow> k st cs)"

text \<open>
  The same equations on an explicit state, for evaluation: a continuation is not unfolded
  before the state it is applied to is known.
\<close>

lemma star_run_code [code]:
  "star_run [] m (p, i, s) cs k = k (p, i, s) cs"
  "star_run (c # n) m (p, i, s) cs k =
     (case m (p, i, s) cs (\<lambda>st' cs'. if i < st_pos st' then star_run n m st' cs' k else None) of
        Some r \<Rightarrow> Some r
      | None \<Rightarrow> k (p, i, s) cs)"
  by (simp_all cong: option.case_cong)

lemma lazy_run_code [code]:
  "lazy_run [] m (p, i, s) cs k = k (p, i, s) cs"
  "lazy_run (c # n) m (p, i, s) cs k =
     (case k (p, i, s) cs of
        Some r \<Rightarrow> Some r
      | None \<Rightarrow> m (p, i, s) cs (\<lambda>st' cs'. if i < st_pos st' then lazy_run n m st' cs' k else None))"
  by (simp_all cong: option.case_cong)

lemma rx_run_code [code]:
  "rx_run REmpty (p, i, s) cs k = k (p, i, s) cs"
  "rx_run (RChr f) (p, i, []) cs k = None"
  "rx_run (RChr f) (p, i, c # s) cs k = (if f c then k (Some c, Suc i, s) cs else None)"
  "rx_run (RSeq a b) (p, i, s) cs k = rx_run a (p, i, s) cs (\<lambda>st' cs'. rx_run b st' cs' k)"
  "rx_run (RAlt a b) (p, i, s) cs k =
     (case rx_run a (p, i, s) cs k of Some r \<Rightarrow> Some r | None \<Rightarrow> rx_run b (p, i, s) cs k)"
  "rx_run (RStar a) (p, i, s) cs k = star_run s (rx_run a) (p, i, s) cs k"
  "rx_run (RLazy a) (p, i, s) cs k = lazy_run s (rx_run a) (p, i, s) cs k"
  "rx_run (ROpt a) (p, i, s) cs k =
     (case rx_run a (p, i, s) cs k of Some r \<Rightarrow> Some r | None \<Rightarrow> k (p, i, s) cs)"
  "rx_run (ROptL a) (p, i, s) cs k =
     (case k (p, i, s) cs of Some r \<Rightarrow> Some r | None \<Rightarrow> rx_run a (p, i, s) cs k)"
  "rx_run (RGroup g a) (p, i, s) cs k =
     rx_run a (p, i, s) cs (\<lambda>st' cs'. k st' ((g, take (st_pos st' - i) s) # cs'))"
  "rx_run RBos (p, i, s) cs k = (if i = 0 then k (p, i, s) cs else None)"
  "rx_run REos (p, i, s) cs k =
     (case s of [] \<Rightarrow> k (p, i, s) cs
      | c # s' \<Rightarrow> if c = nl then if s' = [] then k (p, i, s) cs else None else None)"
  "rx_run RBol (p, i, s) cs k = (if i = 0 \<or> p = Some nl then k (p, i, s) cs else None)"
  "rx_run REol (p, i, s) cs k =
     (case s of [] \<Rightarrow> k (p, i, s) cs | c # _ \<Rightarrow> if c = nl then k (p, i, s) cs else None)"
  "rx_run RWordB (p, i, s) cs k = (if at_word_boundary (p, i, s) then k (p, i, s) cs else None)"
  "rx_run (RLook a) (p, i, s) cs k =
     (case rx_run a (p, i, s) cs (\<lambda>st' cs'. Some (st', cs')) of
        Some r \<Rightarrow> k (p, i, s) (snd r) | None \<Rightarrow> None)"
  "rx_run (RNotLook a) (p, i, s) cs k =
     (case rx_run a (p, i, s) cs (\<lambda>st' cs'. Some (st', cs')) of
        Some _ \<Rightarrow> None | None \<Rightarrow> k (p, i, s) cs)"
  by (simp_all cong: option.case_cong split: list.splits)

section \<open>Pattern combinators\<close>

fun rseqs :: "rx list \<Rightarrow> rx" where
  "rseqs [] = REmpty"
| "rseqs [r] = r"
| "rseqs (r # s # rs) = RSeq r (rseqs (s # rs))"

fun ralts :: "rx list \<Rightarrow> rx" where
  "ralts [] = RChr (\<lambda>_. False)"
| "ralts [r] = r"
| "ralts (r # s # rs) = RAlt r (ralts (s # rs))"

definition same_ci :: "char \<Rightarrow> char \<Rightarrow> bool" where
  "same_ci a c = (upper_char a = upper_char c)"

fun kw :: "string \<Rightarrow> rx" where
  "kw [] = REmpty"
| "kw [c] = RChr (same_ci c)"
| "kw (c # d # cs) = RSeq (RChr (same_ci c)) (kw (d # cs))"

fun lit :: "string \<Rightarrow> rx" where
  "lit [] = REmpty"
| "lit [c] = RChr (\<lambda>d. d = c)"
| "lit (c # d # cs) = RSeq (RChr (\<lambda>e. e = c)) (lit (d # cs))"

definition in_class :: "(char \<times> char) list \<Rightarrow> string \<Rightarrow> char \<Rightarrow> bool" where
  "in_class rs cs c =
     (list_ex (\<lambda>r. code_of (fst r) \<le> code_of c \<and> code_of c \<le> code_of (snd r)) rs \<or> c \<in> set cs)"

text \<open>\<open>[...]\<close> with and without \<open>(?i)\<close>, and their complements \<open>[^...]\<close>.\<close>

definition icls :: "(char \<times> char) list \<Rightarrow> string \<Rightarrow> rx" where
  "icls rs cs = RChr (\<lambda>c. in_class rs cs (upper_char c) \<or> in_class rs cs (lower_char c))"

definition ccls :: "(char \<times> char) list \<Rightarrow> string \<Rightarrow> rx" where
  "ccls rs cs = RChr (in_class rs cs)"

definition ncls :: "string \<Rightarrow> rx" where
  "ncls cs = RChr (\<lambda>c. c \<notin> set cs)"

definition any :: rx where "any = RChr (\<lambda>_. True)"
definition dot :: rx where "dot = RChr (\<lambda>c. c \<noteq> nl)"
definition sp :: rx where "sp = RChr is_space"
definition nsp :: rx where "nsp = RChr (\<lambda>c. \<not> is_space c)"
definition wd :: rx where "wd = RChr is_word"
definition dg :: rx where "dg = RChr is_digit"
definition rplus :: "rx \<Rightarrow> rx" where "rplus r = RSeq r (RStar r)"
definition rplus_lazy :: "rx \<Rightarrow> rx" where "rplus_lazy r = RSeq r (RLazy r)"
definition ws0 :: rx where "ws0 = RStar sp"
definition ws1 :: rx where "ws1 = rplus sp"

abbreviation (input) AZ :: "char \<times> char" where "AZ \<equiv> (CHR ''A'', CHR ''Z'')"
abbreviation (input) az :: "char \<times> char" where "az \<equiv> (CHR ''a'', CHR ''z'')"
abbreviation (input) D09 :: "char \<times> char" where "D09 \<equiv> (CHR ''0'', CHR ''9'')"

section \<open>The functions of the module \<open>re\<close>\<close>

text \<open>A match object: start and end offset, the matched text, and the groups.\<close>

record rmatch =
  m_start :: nat
  m_end :: nat
  m_text :: string
  m_caps :: caps

definition m_group :: "rmatch \<Rightarrow> nat \<Rightarrow> string option" where
  "m_group m i = map_of (m_caps m) i"

text \<open>\<open>match.group(i)\<close> where the group takes part in every match of its pattern.\<close>

definition m_str :: "rmatch \<Rightarrow> nat \<Rightarrow> string" where
  "m_str m i = (case m_group m i of Some s \<Rightarrow> s | None \<Rightarrow> [])"

definition match_at :: "rx \<Rightarrow> mst \<Rightarrow> rmatch option" where
  "match_at r st =
     map_option (\<lambda>(st', cs). \<lparr>m_start = st_pos st, m_end = st_pos st',
        m_text = take (st_pos st' - st_pos st) (st_rest st), m_caps = cs\<rparr>)
       (rx_run r st [] (\<lambda>st' cs. Some (st', cs)))"

definition re_match :: "rx \<Rightarrow> string \<Rightarrow> rmatch option" where
  "re_match r s = match_at r (None, 0, s)"

definition re_fullmatch :: "rx \<Rightarrow> string \<Rightarrow> bool" where
  "re_fullmatch r s =
     (rx_run r (None, 0, s) [] (\<lambda>st cs. if st_rest st = [] then Some (st, cs) else None) \<noteq> None)"

fun search_from :: "rx \<Rightarrow> char option \<Rightarrow> nat \<Rightarrow> string \<Rightarrow> rmatch option" where
  "search_from r p n [] = match_at r (p, n, [])"
| "search_from r p n (c # s) =
     (case match_at r (p, n, c # s) of
        Some m \<Rightarrow> Some m
      | None \<Rightarrow> search_from r (Some c) (Suc n) s)"

definition re_search :: "rx \<Rightarrow> string \<Rightarrow> rmatch option" where
  "re_search r s = search_from r None 0 s"

text \<open>
  \<open>re.finditer\<close>: the non-overlapping matches from left to right. The patterns the sources
  iterate over never match the empty string; an empty match would be skipped by one character.
\<close>

fun finditer_from :: "nat \<Rightarrow> rx \<Rightarrow> char option \<Rightarrow> nat \<Rightarrow> string \<Rightarrow> rmatch list" where
  "finditer_from 0 r p n s = []"
| "finditer_from (Suc f) r p n s =
     (case match_at r (p, n, s) of
        Some m \<Rightarrow>
          (if n < m_end m
           then m # finditer_from f r (Some (last (m_text m))) (m_end m) (drop (m_end m - n) s)
           else (case s of [] \<Rightarrow> [m] | c # s' \<Rightarrow> m # finditer_from f r (Some c) (Suc n) s'))
      | None \<Rightarrow> (case s of [] \<Rightarrow> [] | c # s' \<Rightarrow> finditer_from f r (Some c) (Suc n) s'))"

definition re_finditer :: "rx \<Rightarrow> string \<Rightarrow> rmatch list" where
  "re_finditer r s = finditer_from (Suc (length s)) r None 0 s"

text \<open>\<open>re.sub(pattern, repl, s)\<close> with a constant replacement, over the same matches.\<close>

fun sub_pieces :: "string \<Rightarrow> nat \<Rightarrow> string \<Rightarrow> rmatch list \<Rightarrow> string" where
  "sub_pieces repl n s [] = s"
| "sub_pieces repl n s (m # ms) =
     take (m_start m - n) s @ repl @ sub_pieces repl (m_end m) (drop (m_end m - n) s) ms"

definition re_sub :: "rx \<Rightarrow> string \<Rightarrow> string \<Rightarrow> string" where
  "re_sub r repl s = sub_pieces repl 0 s (re_finditer r s)"

definition is_match :: "rx \<Rightarrow> string \<Rightarrow> bool" where
  "is_match r s = (re_match r s \<noteq> None)"

definition is_search :: "rx \<Rightarrow> string \<Rightarrow> bool" where
  "is_search r s = (re_search r s \<noteq> None)"

section \<open>What a match is\<close>

text \<open>\<open>st_ext st st'\<close>: the state \<open>st'\<close> is further along the same text.\<close>

definition st_ext :: "mst \<Rightarrow> mst \<Rightarrow> bool" where
  "st_ext st st' = (\<exists>u. st_rest st = u @ st_rest st' \<and> st_pos st' = st_pos st + length u)"

lemma st_ext_refl [simp, intro]: "st_ext st st"
  by (auto simp: st_ext_def)

lemma st_ext_trans [trans]: "st_ext a b \<Longrightarrow> st_ext b c \<Longrightarrow> st_ext a c"
  by (fastforce simp: st_ext_def)

lemma st_ext_take: "st_ext st st' \<Longrightarrow> st_rest st = take (st_pos st' - st_pos st) (st_rest st) @ st_rest st'"
  by (auto simp: st_ext_def)

text \<open>
  The contract of a matcher: a result comes from the continuation, called at a later state
  whose new groups are factors of the text still to be read.
\<close>

definition caps_ext :: "mst \<Rightarrow> caps \<Rightarrow> caps \<Rightarrow> bool" where
  "caps_ext st cs cs' = (\<forall>(i, t) \<in> set cs'. (i, t) \<in> set cs \<or> sublist t (st_rest st))"

definition run_ok :: "mfun \<Rightarrow> bool" where
  "run_ok m = (\<forall>st cs k r. m st cs k = Some r \<longrightarrow>
     (\<exists>st' cs'. k st' cs' = Some r \<and> st_ext st st' \<and> caps_ext st cs cs'))"

lemma caps_ext_refl [simp, intro]: "caps_ext st cs cs"
  by (auto simp: caps_ext_def)

lemma st_ext_sublist: "st_ext st st' \<Longrightarrow> sublist t (st_rest st') \<Longrightarrow> sublist t (st_rest st)"
  by (auto simp: st_ext_def sublist_def) (metis append_assoc)

lemma caps_ext_trans: "st_ext st st' \<Longrightarrow> caps_ext st cs cs' \<Longrightarrow> caps_ext st' cs' cs'' \<Longrightarrow> caps_ext st cs cs''"
  unfolding caps_ext_def by (blast dest: st_ext_sublist)

lemma run_okD:
  assumes "run_ok m" and "m st cs k = Some r"
  obtains st' cs' where "k st' cs' = Some r" "st_ext st st'" "caps_ext st cs cs'"
  using assms unfolding run_ok_def by blast

lemma run_okI:
  assumes "\<And>st cs k r. m st cs k = Some r \<Longrightarrow>
    \<exists>st' cs'. k st' cs' = Some r \<and> st_ext st st' \<and> caps_ext st cs cs'"
  shows "run_ok m"
  using assms unfolding run_ok_def by blast

lemma run_here:
  "k st cs = Some r \<Longrightarrow> \<exists>st' cs'. k st' cs' = Some r \<and> st_ext st st' \<and> caps_ext st cs cs'"
  by blast

lemma run_ok_then:
  assumes a: "run_ok m" and r: "m st cs f = Some r"
    and f: "\<And>st' cs'. f st' cs' = Some r \<Longrightarrow>
      \<exists>st'' cs''. k st'' cs'' = Some r \<and> st_ext st' st'' \<and> caps_ext st' cs' cs''"
  shows "\<exists>st' cs'. k st' cs' = Some r \<and> st_ext st st' \<and> caps_ext st cs cs'"
proof -
  obtain st1 cs1 where 1: "f st1 cs1 = Some r" "st_ext st st1" "caps_ext st cs cs1"
    using a r by (rule run_okD)
  obtain st2 cs2 where "k st2 cs2 = Some r" "st_ext st1 st2" "caps_ext st1 cs1 cs2"
    using f [OF 1(1)] by blast
  with 1 show ?thesis by (blast intro: st_ext_trans caps_ext_trans)
qed

lemma star_run_ok:
  assumes m: "run_ok m"
  shows "star_run n m st cs k = Some r \<Longrightarrow>
    \<exists>st' cs'. k st' cs' = Some r \<and> st_ext st st' \<and> caps_ext st cs cs'"
proof (induction n arbitrary: st cs)
  case Nil
  then have "k st cs = Some r" by simp
  then show ?case by (rule run_here)
next
  case (Cons c n)
  let ?f = "\<lambda>st' cs'. if st_pos st < st_pos st' then star_run n m st' cs' k else None"
  show ?case
  proof (cases "m st cs ?f")
    case None
    with Cons.prems have "k st cs = Some r" by simp
    then show ?thesis by (rule run_here)
  next
    case (Some r')
    with Cons.prems have "m st cs ?f = Some r" by simp
    then show ?thesis
      by (rule run_ok_then [OF m]) (rule Cons.IH, simp split: if_splits)
  qed
qed

lemma lazy_run_ok:
  assumes m: "run_ok m"
  shows "lazy_run n m st cs k = Some r \<Longrightarrow>
    \<exists>st' cs'. k st' cs' = Some r \<and> st_ext st st' \<and> caps_ext st cs cs'"
proof (induction n arbitrary: st cs)
  case Nil
  then have "k st cs = Some r" by simp
  then show ?case by (rule run_here)
next
  case (Cons c n)
  let ?f = "\<lambda>st' cs'. if st_pos st < st_pos st' then lazy_run n m st' cs' k else None"
  show ?case
  proof (cases "k st cs")
    case None
    with Cons.prems have "m st cs ?f = Some r" by simp
    then show ?thesis
      by (rule run_ok_then [OF m]) (rule Cons.IH, simp split: if_splits)
  next
    case (Some r')
    with Cons.prems have "k st cs = Some r" by simp
    then show ?thesis by (rule run_here)
  qed
qed

lemma group_caps_ext:
  assumes "st_ext st st'" and "caps_ext st cs cs'"
  shows "caps_ext st cs ((i, take (st_pos st' - st_pos st) (st_rest st)) # cs')"
  using assms by (auto simp: caps_ext_def)

lemma rx_run_ok: "run_ok (rx_run r)"
proof (induction r)
  case (RChr p)
  show ?case
    by (rule run_okI) (force simp: st_ext_def split: list.splits if_splits)
next
  case (RSeq a b)
  show ?case
  proof (rule run_okI)
    fix st cs k r
    assume "rx_run (RSeq a b) st cs k = Some r"
    then have "rx_run a st cs (\<lambda>st' cs'. rx_run b st' cs' k) = Some r" by simp
    then show "\<exists>st' cs'. k st' cs' = Some r \<and> st_ext st st' \<and> caps_ext st cs cs'"
      by (rule run_ok_then [OF RSeq.IH(1)]) (blast elim: run_okD [OF RSeq.IH(2)])
  qed
next
  case (RGroup i a)
  show ?case
  proof (rule run_okI)
    fix st cs k r
    assume "rx_run (RGroup i a) st cs k = Some r"
    then obtain st' cs' where
      "k st' ((i, take (st_pos st' - st_pos st) (st_rest st)) # cs') = Some r"
      "st_ext st st'" "caps_ext st cs cs'"
      by (auto elim: run_okD [OF RGroup.IH])
    then show "\<exists>st' cs'. k st' cs' = Some r \<and> st_ext st st' \<and> caps_ext st cs cs'"
      by (blast intro: group_caps_ext)
  qed
next
  case (RLook a)
  show ?case
  proof (rule run_okI)
    fix st cs k r
    assume "rx_run (RLook a) st cs k = Some r"
    then obtain x where x: "rx_run a st cs (\<lambda>st' cs'. Some (st', cs')) = Some x"
      and k: "k st (snd x) = Some r"
      by (auto split: option.splits)
    from RLook.IH x obtain st' cs' where "Some (st', cs') = Some x" "caps_ext st cs cs'"
      by (rule run_okD)
    with k have "k st cs' = Some r" "caps_ext st cs cs'" by auto
    then show "\<exists>st' cs'. k st' cs' = Some r \<and> st_ext st st' \<and> caps_ext st cs cs'"
      by blast
  qed
next
  case (RStar a)
  show ?case by (rule run_okI) (simp only: rx_run.simps, erule star_run_ok [OF RStar.IH])
next
  case (RLazy a)
  show ?case by (rule run_okI) (simp only: rx_run.simps, erule lazy_run_ok [OF RLazy.IH])
qed (rule run_okI; force split: option.splits list.splits if_splits elim: run_okD)+

text \<open>The facts about match objects the components use.\<close>

lemma match_at_Some:
  assumes "match_at r st = Some m"
  shows "m_start m = st_pos st" and "m_start m \<le> m_end m"
    and "m_end m \<le> st_pos st + length (st_rest st)"
    and "m_text m = take (m_end m - m_start m) (st_rest st)"
    and "(i, t) \<in> set (m_caps m) \<Longrightarrow> sublist t (st_rest st)"
proof -
  obtain st' cs where run: "rx_run r st [] (\<lambda>st' cs. Some (st', cs)) = Some (st', cs)"
    and m: "m = \<lparr>m_start = st_pos st, m_end = st_pos st',
        m_text = take (st_pos st' - st_pos st) (st_rest st), m_caps = cs\<rparr>"
    using assms by (auto simp: match_at_def)
  obtain st1 cs1 where "Some (st1, cs1) = Some (st', cs)" "st_ext st st1" "caps_ext st [] cs1"
    using rx_run_ok run by (rule run_okD)
  then have "st_ext st st'" "caps_ext st [] cs" by simp_all
  then show "m_start m = st_pos st" "m_start m \<le> m_end m"
    "m_end m \<le> st_pos st + length (st_rest st)"
    "m_text m = take (m_end m - m_start m) (st_rest st)"
    "(i, t) \<in> set (m_caps m) \<Longrightarrow> sublist t (st_rest st)"
    by (auto simp: m st_ext_def caps_ext_def)
qed

lemma match_at_consumes:
  assumes "match_at (RSeq (RChr p) r) st = Some m"
  shows "m_start m < m_end m" and "m_text m \<noteq> []"
proof -
  obtain c s where s: "st_rest st = c # s"
    using assms by (cases "st_rest st") (auto simp: match_at_def)
  then obtain st' cs where run: "rx_run r (Some c, Suc (st_pos st), s) [] (\<lambda>st' cs. Some (st', cs)) = Some (st', cs)"
    and m: "m_start m = st_pos st" "m_end m = st_pos st'"
    using assms by (auto simp: match_at_def split: if_splits)
  obtain st1 cs1 where "Some (st1, cs1) = Some (st', cs)" "st_ext (Some c, Suc (st_pos st), s) st1"
    using rx_run_ok run by (rule run_okD)
  then show less: "m_start m < m_end m" by (auto simp: m st_ext_def)
  show "m_text m \<noteq> []" using match_at_Some(4) [OF assms] less s by simp
qed

lemma re_match_Some:
  assumes "re_match r s = Some m"
  shows "m_start m = 0" and "m_end m \<le> length s" and "m_text m = take (m_end m) s"
    and "m_group m i = Some t \<Longrightarrow> sublist t s"
  using match_at_Some [of r "(None, 0, s)" m] assms
  by (auto simp: re_match_def m_group_def dest: map_of_SomeD)

lemma search_from_Some:
  "search_from r p n s = Some m \<Longrightarrow>
    n \<le> m_start m \<and> m_start m \<le> m_end m \<and> m_end m \<le> n + length s \<and>
    m_text m = take (m_end m - m_start m) (drop (m_start m - n) s) \<and>
    (\<forall>i t. m_group m i = Some t \<longrightarrow> sublist t s)"
proof (induction r p n s rule: search_from.induct)
  case (1 r p n)
  then show ?case
    using match_at_Some [of r "(p, n, [])" m] by (auto simp: m_group_def dest: map_of_SomeD)
next
  case (2 r p n c s)
  show ?case
  proof (cases "match_at r (p, n, c # s)")
    case None
    with 2 have ih: "Suc n \<le> m_start m" "m_start m \<le> m_end m" "m_end m \<le> Suc n + length s"
      "m_text m = take (m_end m - m_start m) (drop (m_start m - Suc n) s)"
      "\<forall>i t. m_group m i = Some t \<longrightarrow> sublist t s"
      by auto
    have "drop (m_start m - n) (c # s) = drop (m_start m - Suc n) s"
      using ih(1) by (simp add: drop_Cons' )
    then show ?thesis using ih by (auto intro: sublist_Cons_right [THEN iffD2])
  next
    case (Some m')
    with 2(2) have "match_at r (p, n, c # s) = Some m" by simp
    then show ?thesis
      using match_at_Some [of r "(p, n, c # s)" m] by (auto simp: m_group_def dest: map_of_SomeD)
  qed
qed

lemma re_search_Some:
  assumes "re_search r s = Some m"
  shows "m_start m \<le> m_end m" and "m_end m \<le> length s"
    and "m_text m = take (m_end m - m_start m) (drop (m_start m) s)"
    and "m_group m i = Some t \<Longrightarrow> sublist t s"
  using search_from_Some [of r None 0 s m] assms by (auto simp: re_search_def)

end
