(* ===== verification/Scanner.thy ===== *)
theory Scanner
  imports AtlasModels PyRegex "HOL-Library.Sublist"
begin

text \<open>
  The statement scanner of \<open>atlas/dialects/scanner.py\<close>: comment masking, splitting of
  physical lines at semicolons, assembly of logical statements with their source offsets, the
  expansion of inline control statements and the conversion of offsets to source spans. A
  \<open>while\<close> loop over an index is a recursion over the text still to be read; the local
  variables the loop carries are its arguments. The lemmas show that masking changes nothing
  but characters inside comments and keeps the layout of the text, that no character of a line
  is lost by splitting, that the statements are in source order inside the body and carry
  exactly text of their own source range, and that expansion tiles the range of a statement.
\<close>

section \<open>Patterns\<close>

definition rx_starters :: rx where
  "rx_starters =
     rseqs [RBos, ralts [rseqs [kw ''BEGIN'', ROpt (rseqs [ws1, ralts [kw ''TRY'', kw ''CATCH'',
     kw ''TRAN'', kw ''TRANSACTION'']])], rseqs [kw ''END'', ROpt (rseqs [ws1, ralts [kw ''IF'',
     kw ''LOOP'', kw ''CASE'', kw ''TRY'', kw ''CATCH'', kw ''WHILE'', kw ''REPEAT'']])], rseqs
     [kw ''IF'', RWordB], rseqs [kw ''ELSIF'', RWordB], rseqs [kw ''ELSEIF'', RWordB], rseqs [kw
     ''ELSE'', RWordB], rseqs [kw ''CASE'', RWordB], rseqs [kw ''WHEN'', RWordB], rseqs [kw
     ''EXCEPTION'', RWordB], rseqs [kw ''WHILE'', RWordB], rseqs [kw ''LOOP'', RWordB], rseqs
     [kw ''FOR'', RWordB], rseqs [kw ''FOREACH'', RWordB], rseqs [kw ''REPEAT'', RWordB], rseqs
     [kw ''UNTIL'', RWordB], rseqs [kw ''DECLARE'', RWordB], rseqs [kw ''SET'', RWordB], rseqs
     [kw ''SELECT'', RWordB], rseqs [kw ''WITH'', RWordB], rseqs [kw ''INSERT'', RWordB], rseqs
     [kw ''UPDATE'', RWordB], rseqs [kw ''DELETE'', RWordB], rseqs [kw ''MERGE'', RWordB], rseqs
     [kw ''CALL'', RWordB], rseqs [kw ''EXEC'', RWordB], rseqs [kw ''EXECUTE'', RWordB], rseqs
     [kw ''PREPARE'', RWordB], rseqs [kw ''OPEN'', RWordB], rseqs [kw ''FETCH'', RWordB], rseqs
     [kw ''CLOSE'', RWordB], rseqs [kw ''DEALLOCATE'', RWordB], rseqs [kw ''RETURN'', RWordB],
     rseqs [kw ''RAISE'', RWordB], rseqs [kw ''SIGNAL'', RWordB], rseqs [kw ''RESIGNAL'',
     RWordB], rseqs [kw ''THROW'', RWordB], rseqs [kw ''RAISERROR'', RWordB], rseqs [kw ''GET'',
     RWordB], rseqs [kw ''COMMIT'', RWordB], rseqs [kw ''ROLLBACK'', RWordB], rseqs [kw
     ''SAVEPOINT'', RWordB], rseqs [kw ''START'', ws1, kw ''TRANSACTION'', RWordB], rseqs [kw
     ''PERFORM'', RWordB], rseqs [kw ''EXIT'', RWordB], rseqs [kw ''CONTINUE'', RWordB], rseqs
     [kw ''LEAVE'', RWordB], rseqs [kw ''ITERATE'', RWordB], rseqs [kw ''CREATE'', ws1, ralts
     [kw ''TEMP'', kw ''TEMPORARY'', rseqs [kw ''GLOBAL'', ws1, kw ''TEMPORARY'']], RWordB],
     rseqs [kw ''ALTER'', ws1, kw ''SESSION'', RWordB], rseqs [kw ''EXECUTE'', ws1, kw ''AS'',
     RWordB], rseqs [kw ''REVERT'', RWordB], rseqs [kw ''PRAGMA'', RWordB], rseqs [kw
     ''ASSERT'', RWordB], rseqs [kw ''FORALL'', RWordB], rseqs [kw ''GOTO'', RWordB], rseqs [kw
     ''LOCK'', RWordB], rseqs [kw ''TRUNCATE'', RWordB], rseqs [kw ''PRINT'', RWordB], rseqs [kw
     ''DBMS_OUTPUT'', RWordB], rseqs [kw ''DO'', RWordB], rseqs [kw ''SET'', ws1, kw
     ''TRANSACTION'', RWordB], rseqs [kw ''SET'', ws1, kw ''XACT_ABORT'', RWordB], rseqs [kw
     ''SET'', ws1, kw ''TRANSACTION'', ws1, kw ''ISOLATION'', RWordB], rseqs [kw ''<<'', rplus
     (ncls ''>''), kw ''>>''], rseqs [icls [AZ] ''_$#'', RStar (icls [AZ, D09] ''_$#''), kw
     '':'', ws0, REos]]]"

definition rx_dollar_tag :: rx where
  "rx_dollar_tag =
     rseqs [lit ''$'', RStar (ccls [AZ, az, D09] ''_''), lit ''$'']"

definition rx_word_case :: rx where
  "rx_word_case =
     rseqs [RWordB, lit ''CASE'', RWordB]"

definition rx_word_end :: rx where
  "rx_word_end =
     rseqs [RWordB, lit ''END'', RWordB]"

definition rx_separator_line :: rx where
  "rx_separator_line =
     rseqs [RBos, ws0, ralts [rseqs [kw ''DELIMITER'', ws1, rplus nsp], kw ''GO'', kw ''/''],
     ws0, REos]"

definition rx_control_boundary :: rx where
  "rx_control_boundary =
     rseqs [RBos, ralts [kw ''ELSE'', kw ''ELSIF'', kw ''ELSEIF'', kw ''WHEN'', kw
     ''EXCEPTION'', rseqs [kw ''END'', RWordB], rseqs [kw ''BEGIN'', ws1, kw ''CATCH''], rseqs
     [kw ''END'', ws1, kw ''TRY'']]]"

definition rx_immediate_boundary :: rx where
  "rx_immediate_boundary =
     rseqs [RBos, ws0, ralts [kw ''BEGIN'', kw ''ELSE'', rseqs [kw ''ELSIF'', RWordB, RStar any,
     kw ''THEN''], rseqs [kw ''ELSEIF'', RWordB, RStar any, kw ''THEN''], kw ''EXCEPTION'',
     rseqs [kw ''END'', ws1, ralts [kw ''TRY'', kw ''CATCH'']]], ws0, ROpt (kw '';''), ws0,
     REos]"

definition rx_x_db2_block :: rx where
  "rx_x_db2_block =
     rseqs [RBos, RGroup 1 (rseqs [kw ''BEGIN'', ws1, ralts [kw ''ATOMIC'', rseqs [kw ''NOT'',
     ws1, kw ''ATOMIC'']]]), ws1, RGroup 2 (rplus any), REos]"

definition rx_x_until :: rx where
  "rx_x_until =
     rseqs [RBos, RGroup 1 (rseqs [kw ''UNTIL'', ws1, rplus_lazy any]), RGroup 2 (rseqs [kw
     ''END'', ws1, kw ''REPEAT'', ws0, ROpt (kw '';'')]), REos]"

definition rx_x_if_then :: rx where
  "rx_x_if_then =
     rseqs [RBos, RGroup 1 (rseqs [kw ''IF'', ws1, rplus_lazy any, ws1, kw ''THEN'']), ws1,
     RGroup 2 (rplus any), REos]"

definition rx_x_while :: rx where
  "rx_x_while =
     rseqs [RBos, RGroup 1 (rseqs [kw ''WHILE'', ws1, rplus_lazy any, ws1, ralts [kw ''DO'', kw
     ''LOOP'']]), ws1, RGroup 2 (rplus any), REos]"

definition rx_x_for_loop :: rx where
  "rx_x_for_loop =
     rseqs [RBos, RGroup 1 (rseqs [ralts [kw ''FOR'', kw ''FOREACH''], ws1, rplus_lazy any, ws1,
     kw ''LOOP'']), ws1, RGroup 2 (rplus any), REos]"

definition rx_x_loop :: rx where
  "rx_x_loop =
     rseqs [RBos, RGroup 1 (kw ''LOOP''), ws1, RGroup 2 (rplus any), REos]"

definition rx_x_elsif :: rx where
  "rx_x_elsif =
     rseqs [RBos, RGroup 1 (rseqs [ralts [kw ''ELSIF'', kw ''ELSEIF'', rseqs [kw ''ELSE'', ws1,
     kw ''IF'']], ws1, rplus_lazy any, ws1, kw ''THEN'']), ws1, RGroup 2 (rplus any), REos]"

definition rx_x_when :: rx where
  "rx_x_when =
     rseqs [RBos, RGroup 1 (rseqs [kw ''WHEN'', ws1, rplus_lazy any, ws1, kw ''THEN'']), ws1,
     RGroup 2 (rplus any), REos]"

definition rx_x_else :: rx where
  "rx_x_else =
     rseqs [RBos, RGroup 1 (kw ''ELSE''), RNotLook (rseqs [ws1, kw ''IF'', RWordB]), ws1, RGroup
     2 (rplus any), REos]"

definition rx_x_label :: rx where
  "rx_x_label =
     rseqs [RBos, RGroup 1 (ralts [rseqs [kw ''<<'', rplus (ncls ''>''), kw ''>>''], rseqs [icls
     [AZ] ''_$#'', RStar (icls [AZ, D09] ''_$#''), kw '':'']]), ws1, RGroup 2 (rplus any), REos]"

definition rx_x_begin :: rx where
  "rx_x_begin =
     rseqs [RBos, RGroup 1 (kw ''BEGIN''), RNotLook (rseqs [ws1, ralts [kw ''TRY'', kw
     ''CATCH'', kw ''TRAN'', kw ''TRANSACTION'', kw ''ATOMIC'', rseqs [kw ''NOT'', ws1, kw
     ''ATOMIC'']], RWordB]), ws1, RGroup 2 (rplus any), REos]"

definition rx_x_tsql_if :: rx where
  "rx_x_tsql_if =
     rseqs [RBos, RGroup 1 (rseqs [kw ''IF'', ws1, rplus_lazy any]), ws1, RGroup 2 (ralts [kw
     ''BREAK'', kw ''CONTINUE'', kw ''RETURN'', rseqs [kw ''GOTO'', ws1, icls [AZ] ''_$#'',
     RStar (icls [AZ, D09] ''_$#'')], rseqs [kw ''THROW'', ROpt (rseqs [ws1, rplus any])], rseqs
     [kw ''RAISERROR'', ws0, kw ''('', rplus any], rseqs [kw ''ROLLBACK'', ROpt (rseqs [ws1, kw
     ''TRANSACTION''])], rseqs [kw ''COMMIT'', ROpt (rseqs [ws1, kw ''TRANSACTION''])], rseqs
     [kw ''SET'', ws1, rplus any], rseqs [kw ''EXEC'', ROpt (kw ''UTE''), ws1, rplus any]]),
     REos]"

definition rx_x_tsql_else_if :: rx where
  "rx_x_tsql_else_if =
     rseqs [RBos, RGroup 1 (rseqs [ROpt (rseqs [kw ''ELSE'', ws1]), kw ''IF'', ws1, rplus_lazy
     any]), ws1, RGroup 2 (ralts [kw ''BREAK'', kw ''CONTINUE'', kw ''RETURN'', rseqs [kw
     ''GOTO'', ws1, icls [AZ] ''_$#'', RStar (icls [AZ, D09] ''_$#'')], rseqs [kw ''THROW'',
     ROpt (rseqs [ws1, rplus any])], rseqs [kw ''RAISERROR'', ws0, kw ''('', rplus any], rseqs
     [kw ''ROLLBACK'', ROpt (rseqs [ws1, kw ''TRANSACTION''])], rseqs [kw ''COMMIT'', ROpt
     (rseqs [ws1, kw ''TRANSACTION''])], rseqs [kw ''SET'', ws1, rplus any]]), REos]"

section \<open>Comment masking\<close>

text \<open>The body of a block comment, from its opening slash; the rest starts after the close.\<close>

fun mask_block :: "string \<Rightarrow> string \<times> string" where
  "mask_block (a # b # s) =
     (if a = CHR ''*'' \<and> b = CHR ''/'' then ([spc, spc], s)
      else (let mr = mask_block (b # s)
            in ((if a = nl then nl else spc) # fst mr, snd mr)))"
| "mask_block s = ([], s)"

definition is_quote :: "char \<Rightarrow> bool" where
  "is_quote c = (c = squote \<or> c = dquote \<or> c = bquote)"

text \<open>
  \<open>mask_step quote dollar c s\<close> is one iteration of the loop of \<open>_mask_comments\<close> at the
  suffix \<open>c # s\<close>: the characters it leaves behind, the new \<open>quote\<close> and \<open>dollar\<close>
  and the suffix the next iteration starts at. \<open>dollar\<close> is the open dollar-quote tag, the
  empty string for \<open>None\<close>.
\<close>

definition mask_step ::
  "char option \<Rightarrow> string \<Rightarrow> char \<Rightarrow> string \<Rightarrow> string \<times> char option \<times> string \<times> string" where
  "mask_step quote dollar c s =
     (if dollar \<noteq> [] then
        (if py_startswith (c # s) dollar then (dollar, quote, [], drop (length dollar) (c # s))
         else ([c], quote, dollar, s))
      else case quote of
        Some q \<Rightarrow>
          (if c = q then
             (case s of
                d # s' \<Rightarrow> if d = q then ([c, d], quote, dollar, s') else ([c], None, dollar, s)
              | [] \<Rightarrow> ([c], None, dollar, s))
           else ([c], quote, dollar, s))
      | None \<Rightarrow>
          (if is_quote c then ([c], Some c, dollar, s)
           else case (if c = CHR ''$'' then re_match rx_dollar_tag (c # s) else None) of
             Some m \<Rightarrow> (m_text m, quote, m_text m, drop (length (m_text m)) (c # s))
           | None \<Rightarrow>
               (if c = CHR ''-'' \<and> py_startswith s ''-'' then
                  (replicate (length (takeWhile (\<lambda>x. x \<noteq> nl) (c # s))) spc, quote, dollar,
                   dropWhile (\<lambda>x. x \<noteq> nl) (c # s))
                else if c = CHR ''/'' \<and> py_startswith s ''*'' then
                  (fst (mask_block (c # s)), quote, dollar, snd (mask_block (c # s)))
                else ([c], quote, dollar, s))))"

text \<open>
  \<open>masked_char m c\<close>: the masked text may show \<open>m\<close> where the source has \<open>c\<close>, that is
  the same character, or a blank in place of one that is not a line feed.
\<close>

definition masked_char :: "char \<Rightarrow> char \<Rightarrow> bool" where
  "masked_char m c \<longleftrightarrow> m = c \<or> (m = spc \<and> c \<noteq> nl)"

lemma masked_char_refl [simp]: "masked_char c c"
  by (simp add: masked_char_def)

lemma masked_char_space [simp]: "c \<noteq> nl \<Longrightarrow> masked_char spc c"
  by (simp add: masked_char_def)

lemma masked_refl [simp]: "list_all2 masked_char s s"
  by (simp add: list.rel_refl)

text \<open>\<open>masks out s rest\<close>: \<open>out\<close> is a masked form of the part of \<open>s\<close> before \<open>rest\<close>.\<close>

definition masks :: "string \<Rightarrow> string \<Rightarrow> string \<Rightarrow> bool" where
  "masks out s rest \<longleftrightarrow> (\<exists>u. s = u @ rest \<and> u \<noteq> [] \<and> list_all2 masked_char out u)"

lemma masksI: "s = u @ rest \<Longrightarrow> u \<noteq> [] \<Longrightarrow> list_all2 masked_char out u \<Longrightarrow> masks out s rest"
  by (auto simp: masks_def)

lemma masks_same [simp]: "masks [c] (c # s) s" "masks [c, d] (c # d # s) s"
  by (auto intro: masksI [of _ "[c]"] masksI [of _ "[c, d]"])

lemma masks_prefix: "py_startswith s p \<Longrightarrow> p \<noteq> [] \<Longrightarrow> masks p s (drop (length p) s)"
  by (auto simp: py_startswith_iff intro: masksI)

lemma masks_less: "masks out s rest \<Longrightarrow> length rest < length s"
  by (auto simp: masks_def)

lemma masks_block: "masks (fst (mask_block (a # b # s))) (a # b # s) (snd (mask_block (a # b # s)))"
proof (induction s arbitrary: a b)
  case Nil
  show ?case by (auto simp: Let_def intro: masksI [of _ "[a, b]"] masksI [of _ "[a]"])
next
  case (Cons c s)
  obtain u where u: "b # c # s = u @ snd (mask_block (b # c # s))" "u \<noteq> []"
    "list_all2 masked_char (fst (mask_block (b # c # s))) u"
    using Cons.IH [of b c] by (auto simp: masks_def simp del: mask_block.simps)
  show ?case
  proof (cases "a = CHR ''*'' \<and> b = CHR ''/''")
    case True
    then show ?thesis by (auto intro: masksI [of _ "[a, b]"])
  next
    case False
    then have eq: "mask_block (a # b # c # s) =
        ((if a = nl then nl else spc) # fst (mask_block (b # c # s)), snd (mask_block (b # c # s)))"
      by (simp only: mask_block.simps(1) [of a b "c # s"] False if_False Let_def)
    show ?thesis unfolding eq using u by (auto intro: masksI [of _ "a # u"] simp del: mask_block.simps)
  qed
qed

lemma masked_blank: "\<forall>c \<in> set t. c \<noteq> nl \<Longrightarrow> list_all2 masked_char (replicate (length t) spc) t"
  by (induction t) auto

lemma masks_line:
  assumes "c \<noteq> nl"
  shows "masks (replicate (length (takeWhile (\<lambda>x. x \<noteq> nl) (c # s))) spc) (c # s) (dropWhile (\<lambda>x. x \<noteq> nl) (c # s))"
proof (rule masksI)
  show "c # s = takeWhile (\<lambda>x. x \<noteq> nl) (c # s) @ dropWhile (\<lambda>x. x \<noteq> nl) (c # s)" by simp
  show "takeWhile (\<lambda>x. x \<noteq> nl) (c # s) \<noteq> []" using assms by simp
  show "list_all2 masked_char (replicate (length (takeWhile (\<lambda>x. x \<noteq> nl) (c # s))) spc)
      (takeWhile (\<lambda>x. x \<noteq> nl) (c # s))"
    by (rule masked_blank) (auto dest: set_takeWhileD)
qed

lemma dollar_tag_start:
  assumes "re_match rx_dollar_tag t = Some m"
  shows "py_startswith t (m_text m)" and "m_text m \<noteq> []"
proof -
  show "py_startswith t (m_text m)"
    using re_match_Some(2,3) [OF assms] by (auto simp: py_startswith_def)
  show "m_text m \<noteq> []"
    by (rule match_at_consumes(2)) (use assms in \<open>simp add: re_match_def rx_dollar_tag_def\<close>)
qed

lemma mask_step_masks:
  assumes "mask_step quote dollar c s = (out, quote', dollar', rest)"
  shows "masks out (c # s) rest"
proof -
  have block: "masks (fst (mask_block (c # s))) (c # s) (snd (mask_block (c # s)))"
    if "py_startswith s ''*''"
    using that masks_block by (cases s) (auto simp: py_startswith_def simp del: mask_block.simps)
  have tag: "masks (m_text m) (c # s) (drop (length (m_text m)) (c # s))"
    if "(if c = CHR ''$'' then re_match rx_dollar_tag (c # s) else None) = Some m" for m
    using that by (intro masks_prefix dollar_tag_start) (auto split: if_splits)
  show ?thesis
    using assms masks_prefix [of "c # s" dollar] block tag masks_line [of c s]
    unfolding mask_step_def
    by (auto split: if_split_asm option.split_asm list.split_asm simp del: mask_block.simps
        takeWhile.simps dropWhile.simps drop_Cons')
qed

function mask_go :: "char option \<Rightarrow> string \<Rightarrow> string \<Rightarrow> string" where
  "mask_go quote dollar [] = []"
| "mask_go quote dollar (c # s) =
     (case mask_step quote dollar c s of
        (out, quote', dollar', rest) \<Rightarrow> out @ mask_go quote' dollar' rest)"
  by pat_completeness auto

termination mask_go
  by (relation "measure (\<lambda>(quote, dollar, s). length s)")
    (auto dest!: sym [THEN mask_step_masks] masks_less)

definition mask_comments :: "string \<Rightarrow> string" where
  "mask_comments s = mask_go None [] s"

lemma mask_go_masked: "list_all2 masked_char (mask_go quote dollar s) s"
proof (induction quote dollar s rule: mask_go.induct)
  case (2 quote dollar c s)
  obtain out quote' dollar' rest where step: "mask_step quote dollar c s = (out, quote', dollar', rest)"
    by (metis prod_cases4)
  then obtain u where "c # s = u @ rest" "list_all2 masked_char out u"
    using mask_step_masks unfolding masks_def by blast
  then have "list_all2 masked_char (out @ mask_go quote' dollar' rest) (c # s)"
    using 2 [OF step [symmetric] refl refl] by (simp only: list_all2_appendI)
  with step show ?case by simp
qed simp

section \<open>Splitting a line at semicolons\<close>

text \<open>
  The quoting part that \<open>_split_semicolon_pieces\<close>, \<open>_split_csv\<close> and
  \<open>_matching_paren\<close> share: inside a quote or a bracket, and at a character that opens one,
  the loop only updates \<open>quote\<close> and \<open>bracket\<close> and moves on by one character, or by two
  over a doubled quote. \<open>None\<close> is every other character.
\<close>

definition lex_skip :: "char option \<Rightarrow> bool \<Rightarrow> char \<Rightarrow> string \<Rightarrow> (char option \<times> bool \<times> nat) option" where
  "lex_skip quote bracket c s =
     (case quote of
        Some q \<Rightarrow>
          Some (if c = q then (if py_startswith s [q] then (quote, bracket, 2) else (None, bracket, 1))
                else (quote, bracket, 1))
      | None \<Rightarrow>
          (if bracket then Some (None, c \<noteq> CHR '']'', 1)
           else if c = CHR ''['' then Some (None, True, 1)
           else if is_quote c then Some (Some c, bracket, 1)
           else None))"

lemma lex_skip_pos: "lex_skip quote bracket c s = Some (quote', bracket', n) \<Longrightarrow> 0 < n"
  by (auto simp: lex_skip_def split: option.splits if_splits)

text \<open>\<open>cur\<close> is \<open>line[start:i]\<close>: the piece being read.\<close>

function split_go :: "char option \<Rightarrow> bool \<Rightarrow> nat \<Rightarrow> string \<Rightarrow> string \<Rightarrow> string list" where
  "split_go quote bracket depth cur [] = (if py_strip cur \<noteq> [] then [cur] else [])"
| "split_go quote bracket depth cur (c # s) =
     (case lex_skip quote bracket c s of
        Some (quote', bracket', n) \<Rightarrow>
          split_go quote' bracket' depth (cur @ take n (c # s)) (drop n (c # s))
      | None \<Rightarrow>
          (if c = CHR ''('' then split_go quote bracket (depth + 1) (cur @ [c]) s
           else if c = CHR '')'' then split_go quote bracket (depth - 1) (cur @ [c]) s
           else if c = CHR '';'' \<and> depth = 0 then
             (if py_strip (cur @ [c]) \<noteq> [] then [cur @ [c]] else [])
               @ split_go quote bracket depth [] s
           else split_go quote bracket depth (cur @ [c]) s))"
  by pat_completeness auto

termination split_go
  by (relation "measure (\<lambda>(quote, bracket, depth, cur, s). length s)")
    (auto dest: lex_skip_pos)

definition split_semicolon_pieces :: "string \<Rightarrow> string list" where
  "split_semicolon_pieces line = split_go None False 0 [] line"

section \<open>Statement boundaries\<close>

definition norm_upper :: "string \<Rightarrow> string" where
  "norm_upper s = squash_ws (py_upper (py_strip s))"

definition has_unclosed_expression_case :: "string \<Rightarrow> bool" where
  "has_unclosed_expression_case text =
     (let normalized = norm_upper text
      in if py_startswith normalized ''CASE '' \<or> normalized = ''CASE'' then False
         else length (re_finditer rx_word_case normalized) > length (re_finditer rx_word_end normalized))"

definition expression_case_continuation :: "string \<Rightarrow> string \<Rightarrow> bool" where
  "expression_case_continuation previous current =
     (has_unclosed_expression_case previous \<and>
      py_startswith_any (norm_upper current) [''CASE'', ''WHEN '', ''ELSE'', ''END''])"

definition continues_statement :: "string \<Rightarrow> string \<Rightarrow> bool" where
  "continues_statement previous current =
     (let prev = norm_upper previous; cur = norm_upper current in
      if py_endswith_any (py_rstrip previous)
           ['','', ''('', ''='', ''+'', ''-'', ''*'', ''/'', ''||''] then True
      else if py_startswith prev ''UPDATE '' \<and>
           py_startswith_any cur [''SET '', ''OUTPUT '', ''FROM '', ''WHERE '', ''OPTION ''] then True
      else if py_startswith prev ''DELETE '' \<and>
           py_startswith_any cur [''OUTPUT '', ''FROM '', ''WHERE '', ''OPTION ''] then True
      else if py_startswith prev ''INSERT '' \<and>
           py_startswith_any cur [''VALUES '', ''SELECT '', ''OUTPUT '', ''RETURNING '',
             ''ON CONFLICT '', ''ON DUPLICATE ''] then True
      else if py_startswith prev ''MERGE '' \<and>
           py_startswith_any cur [''USING '', ''ON '', ''WHEN '', ''OUTPUT ''] then True
      else if py_startswith prev ''WITH '' \<and>
           py_startswith_any cur [''SELECT '', ''INSERT '', ''UPDATE '', ''DELETE '', ''MERGE ''] then True
      else if py_startswith prev ''SELECT '' \<and>
           py_startswith_any cur [''FROM '', ''WHERE '', ''GROUP '', ''HAVING '', ''ORDER '',
             ''UNION '', ''INTO '', ''FOR '', ''OPTION ''] then True
      else if py_startswith_any prev [''SIGNAL '', ''RESIGNAL ''] \<and> py_startswith cur ''SET '' then True
      else if py_startswith prev ''EXEC '' \<or> py_startswith prev ''EXECUTE '' then
           py_startswith_any cur [''USING '', ''INTO '', ''OUTPUT '']
      else False)"

section \<open>Logical statements\<close>

record Statement =
  stmt_text :: string
  stmt_start_line :: nat
  stmt_end_line :: nat
  stmt_start_offset :: nat
  stmt_end_offset :: nat

text \<open>The variables of \<open>_logical_statements\<close> that its loops and \<open>flush\<close> assign.\<close>

record lstate =
  ls_statements :: "Statement list"
  ls_buffer :: "string list"
  ls_start_line :: nat
  ls_start_local_offset :: nat
  ls_local_offset :: nat

definition flush :: "nat \<Rightarrow> nat \<Rightarrow> nat \<Rightarrow> lstate \<Rightarrow> lstate" where
  "flush absolute_start end_line end_local_offset st =
     (let text = py_strip (concat (ls_buffer st)) in
      (if text \<noteq> [] \<and> py_strip (py_strip_of (\<lambda>c. c = CHR '';'') text) \<noteq> []
       then st\<lparr>ls_statements := ls_statements st @
              [\<lparr>stmt_text = text, stmt_start_line = ls_start_line st, stmt_end_line = end_line,
                stmt_start_offset = absolute_start + ls_start_local_offset st,
                stmt_end_offset = absolute_start + end_local_offset\<rparr>]\<rparr>
       else st)\<lparr>ls_buffer := []\<rparr>)"

text \<open>One iteration of the loop over the pieces of a line; \<open>clean\<close> is its stripped mask.\<close>

definition piece_starts :: "nat \<Rightarrow> nat \<Rightarrow> string \<Rightarrow> lstate \<Rightarrow> lstate" where
  "piece_starts absolute_start index clean st =
     (if ls_buffer st \<noteq> [] \<and> is_match rx_starters clean then
        (let previous = py_rstrip (concat (ls_buffer st));
             continuation = continues_statement previous clean;
             control_boundary = is_match rx_control_boundary clean;
             expression_case = expression_case_continuation previous clean
         in if \<not> expression_case \<and> (control_boundary \<or> \<not> continuation)
            then flush absolute_start (if index > ls_start_line st then index - 1 else index)
                   (ls_local_offset st) st
            else st)
      else st)"

definition piece_append :: "nat \<Rightarrow> string \<Rightarrow> lstate \<Rightarrow> lstate" where
  "piece_append index piece st =
     (if ls_buffer st = []
      then st\<lparr>ls_start_line := index, ls_start_local_offset := ls_local_offset st, ls_buffer := [piece]\<rparr>
      else st\<lparr>ls_buffer := ls_buffer st @ [piece]\<rparr>)"

definition piece_ends :: "nat \<Rightarrow> nat \<Rightarrow> string \<Rightarrow> string \<Rightarrow> lstate \<Rightarrow> lstate" where
  "piece_ends absolute_start index piece clean st =
     (let immediate_boundary = is_match rx_immediate_boundary clean in
      if py_endswith (py_rstrip piece) '';'' \<or>
         (immediate_boundary \<and> \<not> has_unclosed_expression_case (concat (ls_buffer st)))
      then flush absolute_start index (ls_local_offset st + length piece) st
      else st)"

definition piece_step :: "nat \<Rightarrow> nat \<Rightarrow> string \<Rightarrow> string \<Rightarrow> lstate \<Rightarrow> lstate" where
  "piece_step absolute_start index piece piece_mask st =
     (let clean = py_strip piece_mask;
          st' = (if clean = [] then st
                 else piece_ends absolute_start index piece clean
                        (piece_append index piece (piece_starts absolute_start index clean st)))
      in st'\<lparr>ls_local_offset := ls_local_offset st' + length piece\<rparr>)"

text \<open>
  The mask of the piece with number \<open>piece_cursor\<close>: the piece of the masked line with the same
  number, its last piece when there are fewer, the whole masked line when there is none.
\<close>

definition piece_mask :: "string list \<Rightarrow> string \<Rightarrow> nat \<Rightarrow> string" where
  "piece_mask masked_pieces masked_line piece_cursor =
     (if masked_pieces = [] then masked_line
      else masked_pieces ! min piece_cursor (length masked_pieces - 1))"

fun pieces_loop :: "nat \<Rightarrow> nat \<Rightarrow> string \<Rightarrow> nat \<Rightarrow> string list \<Rightarrow> lstate \<Rightarrow> lstate" where
  "pieces_loop absolute_start index masked_line piece_cursor [] st = st"
| "pieces_loop absolute_start index masked_line piece_cursor (piece # pieces) st =
     pieces_loop absolute_start index masked_line (Suc piece_cursor) pieces
       (piece_step absolute_start index piece
          (piece_mask (split_semicolon_pieces masked_line) masked_line piece_cursor) st)"

definition line_step :: "nat \<Rightarrow> nat \<Rightarrow> string \<Rightarrow> string \<Rightarrow> lstate \<Rightarrow> lstate" where
  "line_step absolute_start index raw_line masked_line st =
     (if is_match rx_separator_line masked_line
      then st\<lparr>ls_local_offset := ls_local_offset st + length raw_line\<rparr>
      else
        (let pieces = split_semicolon_pieces raw_line;
             st' = pieces_loop absolute_start index masked_line 0 pieces st;
             consumed = sum_list (map length pieces)
         in if consumed < length raw_line
            then st'\<lparr>ls_local_offset := ls_local_offset st' + (length raw_line - consumed)\<rparr>
            else st'))"

fun lines_loop :: "nat \<Rightarrow> nat \<Rightarrow> (string \<times> string) list \<Rightarrow> lstate \<Rightarrow> lstate" where
  "lines_loop absolute_start index [] st = st"
| "lines_loop absolute_start index ((raw_line, masked_line) # ls) st =
     lines_loop absolute_start (Suc index) ls (line_step absolute_start index raw_line masked_line st)"

definition lstate_init :: lstate where
  "lstate_init = \<lparr>ls_statements = [], ls_buffer = [], ls_start_line = 1,
     ls_start_local_offset = 0, ls_local_offset = 0\<rparr>"

definition logical_statements :: "string \<Rightarrow> nat \<Rightarrow> Statement list" where
  "logical_statements body absolute_start =
     (let masked = mask_comments body;
          lines = py_splitlines body;
          masked_lines = py_splitlines masked;
          st = lines_loop absolute_start 1 (zip lines masked_lines) lstate_init
      in ls_statements
           (if ls_buffer st \<noteq> []
            then flush absolute_start (if length lines = 0 then 1 else length lines) (length body) st
            else st))"

section \<open>Expansion of inline control statements\<close>

definition expand_patterns :: "DialectId \<Rightarrow> rx list" where
  "expand_patterns dialect =
     [rx_x_db2_block, rx_x_until, rx_x_if_then, rx_x_while, rx_x_for_loop, rx_x_loop, rx_x_elsif,
      rx_x_when, rx_x_else, rx_x_label, rx_x_begin] @
     (if dialect = SQLSERVER_TSQL then [rx_x_tsql_if, rx_x_tsql_else_if] else [])"

text \<open>The head and tail of the first pattern that matches with a non-blank tail.\<close>

fun expand_match :: "rx list \<Rightarrow> string \<Rightarrow> (string \<times> string) option" where
  "expand_match [] t = None"
| "expand_match (r # rs) t =
     (case re_match r t of
        None \<Rightarrow> expand_match rs t
      | Some m \<Rightarrow>
          (if py_strip (m_str m 2) = [] then expand_match rs t
           else Some (py_strip (m_str m 1), py_strip (m_str m 2))))"

definition expand_statement :: "DialectId \<Rightarrow> Statement \<Rightarrow> Statement list \<times> bool" where
  "expand_statement dialect statement =
     (let text = py_strip (stmt_text statement) in
      case expand_match (expand_patterns dialect) (py_rstrip_of (\<lambda>c. c = CHR '';'') text) of
        None \<Rightarrow> ([statement], False)
      | Some (head, tail) \<Rightarrow>
          (let split_at = (case py_find (py_upper (stmt_text statement)) (py_upper tail) of
                             None \<Rightarrow> length head | Some i \<Rightarrow> i);
               head_end = stmt_start_offset statement + split_at;
               semi = (if py_endswith (py_rstrip (stmt_text statement)) '';'' \<and>
                          \<not> py_endswith tail '';'' then '';'' else [])
           in ([\<lparr>stmt_text = head, stmt_start_line = stmt_start_line statement,
                 stmt_end_line = stmt_start_line statement,
                 stmt_start_offset = stmt_start_offset statement, stmt_end_offset = head_end\<rparr>,
                \<lparr>stmt_text = tail @ semi, stmt_start_line = stmt_start_line statement,
                 stmt_end_line = stmt_end_line statement,
                 stmt_start_offset = head_end, stmt_end_offset = stmt_end_offset statement\<rparr>], True)))"

definition expand_round :: "DialectId \<Rightarrow> Statement list \<Rightarrow> Statement list \<times> bool" where
  "expand_round dialect current =
     (let results = map (expand_statement dialect) current
      in (concat (map fst results), list_ex snd results))"

fun expand_rounds :: "nat \<Rightarrow> DialectId \<Rightarrow> Statement list \<Rightarrow> Statement list" where
  "expand_rounds 0 dialect current = current"
| "expand_rounds (Suc n) dialect current =
     (case expand_round dialect current of
        (expanded, changed) \<Rightarrow> if changed then expand_rounds n dialect expanded else expanded)"

definition expand_inline_control_statements :: "Statement list \<Rightarrow> DialectId \<Rightarrow> Statement list" where
  "expand_inline_control_statements statements dialect = expand_rounds 12 dialect statements"

section \<open>Source spans\<close>

definition span_of :: "Statement \<Rightarrow> string \<Rightarrow> SourceSpan" where
  "span_of statement full_text =
     (let start_line_offset = py_rfind full_text nl (stmt_start_offset statement) + 1;
          end_line_offset = py_rfind full_text nl (stmt_end_offset statement) + 1
      in \<lparr>span_start_line = int (py_count full_text nl (stmt_start_offset statement)) + 1,
          span_start_column = int (stmt_start_offset statement) - start_line_offset + 1,
          span_end_line = int (py_count full_text nl (stmt_end_offset statement)) + 1,
          span_end_column = max 1 (int (stmt_end_offset statement) - end_line_offset + 1),
          span_start_offset = int (stmt_start_offset statement),
          span_end_offset = int (stmt_end_offset statement)\<rparr>)"

section \<open>No character of a line is lost\<close>

lemma split_go_concat: "\<exists>t. cur @ s = concat (split_go quote bracket depth cur s) @ t \<and> py_strip t = []"
proof (induction quote bracket depth cur s rule: split_go.induct)
  case (1 quote bracket depth cur)
  then show ?case by (auto simp: py_strip_Nil_iff)
next
  case (2 quote bracket depth cur c s)
  show ?case
  proof (cases "lex_skip quote bracket c s")
    case None
    have semi: "py_strip (cur @ '';'') \<noteq> []"
      by (simp add: py_strip_Nil_iff is_space_def code_of_def)
    show ?thesis using None 2(1-4) semi by auto
  next
    case (Some r)
    then obtain quote' bracket' n where r: "r = (quote', bracket', n)" by (metis prod_cases3)
    have "\<exists>t. (cur @ take n (c # s)) @ drop n (c # s) =
        concat (split_go quote' bracket' depth (cur @ take n (c # s)) (drop n (c # s))) @ t \<and> py_strip t = []"
      using 2(5) Some r by blast
    then show ?thesis using Some r by simp
  qed
qed

lemma split_semicolon_pieces_concat:
  obtains t where "line = concat (split_semicolon_pieces line) @ t" "py_strip t = []"
  using split_go_concat [of "[]" line None False 0] by (auto simp: split_semicolon_pieces_def)

section \<open>Statements are located in the source\<close>

text \<open>
  \<open>located A body st\<close>: the range of a statement lies in the body, which starts at offset
  \<open>A\<close>, and its text is what remains of that range when skipped lines and blanks are removed.
\<close>

definition located :: "nat \<Rightarrow> string \<Rightarrow> Statement \<Rightarrow> bool" where
  "located A body st \<longleftrightarrow>
     A \<le> stmt_start_offset st \<and> stmt_start_offset st \<le> stmt_end_offset st \<and>
     stmt_end_offset st \<le> A + length body \<and>
     subseq (stmt_text st) (py_slice body (stmt_start_offset st - A) (stmt_end_offset st - A)) \<and>
     py_strip (stmt_text st) = stmt_text st \<and> stmt_text st \<noteq> []"

definition stmt_before :: "Statement \<Rightarrow> Statement \<Rightarrow> bool" where
  "stmt_before a b \<longleftrightarrow> stmt_end_offset a \<le> stmt_start_offset b"

definition sinv :: "nat \<Rightarrow> string \<Rightarrow> lstate \<Rightarrow> bool" where
  "sinv A tx st \<longleftrightarrow>
     (\<forall>x \<in> set (ls_statements st). located A tx x \<and>
        stmt_end_offset x \<le> A + (if ls_buffer st = [] then length tx else ls_start_local_offset st)) \<and>
     sorted_wrt stmt_before (ls_statements st) \<and>
     (ls_buffer st \<noteq> [] \<longrightarrow> ls_start_local_offset st \<le> length tx \<and>
        subseq (concat (ls_buffer st)) (drop (ls_start_local_offset st) tx))"

lemma located_mono: "located A tx x \<Longrightarrow> located A (tx @ u) x"
proof -
  assume l: "located A tx x"
  then have "stmt_end_offset x - A \<le> length tx" by (auto simp: located_def)
  then have "py_slice (tx @ u) (stmt_start_offset x - A) (stmt_end_offset x - A) =
      py_slice tx (stmt_start_offset x - A) (stmt_end_offset x - A)"
    using l by (auto simp: py_slice_def located_def)
  with l show ?thesis by (auto simp: located_def)
qed

lemma sinv_mono: "sinv A tx st \<Longrightarrow> sinv A (tx @ u) st"
  unfolding sinv_def by (auto intro: located_mono list_emb_append2 split: if_splits)

lemma subseq_strip: "subseq (py_strip_of p s) s"
proof -
  obtain a b where "s = a @ py_strip_of p s @ b" by (rule py_strip_split)
  then show ?thesis by (metis list_emb_append2 list_emb_prefix subseq_order.order_refl)
qed

lemma sinv_flush:
  assumes "sinv A tx st"
  shows "sinv A tx (flush A el (length tx) st)" and "ls_buffer (flush A el (length tx) st) = []"
proof -
  show "ls_buffer (flush A el (length tx) st) = []" by (simp add: flush_def Let_def)
  show "sinv A tx (flush A el (length tx) st)"
  proof (cases "ls_buffer st = []")
    case True
    then show ?thesis
      using assms by (simp add: flush_def Let_def sinv_def py_strip_of_def py_lstrip_of_def py_rstrip_of_def)
  next
    case False
    let ?t = "py_strip (concat (ls_buffer st))"
    have "subseq ?t (drop (ls_start_local_offset st) tx)"
      using assms False subseq_strip subseq_order.order_trans unfolding sinv_def by metis
    then show ?thesis
      using assms False
      by (auto simp: sinv_def flush_def Let_def located_def stmt_before_def sorted_wrt_append py_slice_def)
  qed
qed

lemma sinv_append:
  assumes "sinv A tx st" and "ls_local_offset st = length tx"
  shows "sinv A (tx @ piece) (piece_append index piece st)"
proof (cases "ls_buffer st = []")
  case True
  then show ?thesis
    using assms located_mono by (auto simp: sinv_def piece_append_def)
next
  case False
  have "subseq (concat (ls_buffer st) @ piece) (drop (ls_start_local_offset st) (tx @ piece))"
    using assms False by (auto simp: sinv_def list_emb_append_mono)
  then show ?thesis
    using assms False located_mono by (auto simp: sinv_def piece_append_def)
qed

lemma flush_local [simp]: "ls_local_offset (flush A el e st) = ls_local_offset st"
  by (simp add: flush_def Let_def)

lemma piece_append_local [simp]: "ls_local_offset (piece_append index piece st) = ls_local_offset st"
  by (simp add: piece_append_def)

lemma piece_starts_sinv:
  assumes "sinv A tx st" and "ls_local_offset st = length tx"
  shows "sinv A tx (piece_starts A index clean st)"
    and "ls_local_offset (piece_starts A index clean st) = length tx"
  using assms sinv_flush by (auto simp: piece_starts_def Let_def)

lemma piece_ends_sinv:
  assumes "sinv A (tx @ piece) st" and "ls_local_offset st = length tx"
  shows "sinv A (tx @ piece) (piece_ends A index piece clean st)"
    and "ls_local_offset (piece_ends A index piece clean st) = length tx"
  using assms sinv_flush(1) [OF assms(1), of index] by (auto simp: piece_ends_def Let_def)

definition linv :: "nat \<Rightarrow> string \<Rightarrow> lstate \<Rightarrow> bool" where
  "linv A tx st \<longleftrightarrow> sinv A tx st \<and> ls_local_offset st = length tx"

lemma sinv_local [simp]: "sinv A tx (st\<lparr>ls_local_offset := n\<rparr>) = sinv A tx st"
  by (simp add: sinv_def)

lemma piece_step_linv: "linv A tx st \<Longrightarrow> linv A (tx @ piece) (piece_step A index piece pm st)"
  unfolding linv_def piece_step_def Let_def
  by (auto simp: sinv_mono piece_ends_sinv sinv_append piece_starts_sinv)

lemma pieces_loop_linv:
  "linv A tx st \<Longrightarrow> linv A (tx @ concat pieces) (pieces_loop A index masked_line k pieces st)"
proof (induction pieces arbitrary: tx k st)
  case (Cons piece pieces)
  then show ?case using piece_step_linv [OF Cons.prems] Cons.IH by fastforce
qed simp

lemma line_step_linv: "linv A tx st \<Longrightarrow> linv A (tx @ raw_line) (line_step A index raw_line masked_line st)"
proof -
  assume st: "linv A tx st"
  let ?p = "split_semicolon_pieces raw_line"
  obtain t where t: "raw_line = concat ?p @ t" by (rule split_semicolon_pieces_concat)
  have "linv A (tx @ concat ?p) (pieces_loop A index masked_line 0 ?p st)"
    using st by (rule pieces_loop_linv)
  moreover from this have "sinv A (tx @ raw_line) (pieces_loop A index masked_line 0 ?p st)"
    using sinv_mono [of A "tx @ concat ?p" _ t] t by (simp add: linv_def)
  moreover have "length raw_line = sum_list (map length ?p) + length t"
    using t by (metis length_append length_concat)
  ultimately have "linv A (tx @ raw_line)
      (let st' = pieces_loop A index masked_line 0 ?p st; consumed = sum_list (map length ?p)
       in if consumed < length raw_line
          then st'\<lparr>ls_local_offset := ls_local_offset st' + (length raw_line - consumed)\<rparr> else st')"
    by (auto simp: linv_def Let_def length_concat)
  then show ?thesis
    using st by (auto simp: line_step_def linv_def Let_def sinv_mono)
qed

lemma lines_loop_linv: "linv A tx st \<Longrightarrow> linv A (tx @ concat (map fst ls)) (lines_loop A index ls st)"
proof (induction ls arbitrary: tx index st)
  case (Cons l ls)
  then show ?case using line_step_linv [OF Cons.prems] Cons.IH by (cases l) fastforce
qed simp

lemma linv_init: "linv A [] lstate_init"
  by (simp add: linv_def sinv_def lstate_init_def)

lemma logical_statements_sinv:
  obtains st where "sinv A body st" "ls_statements st = logical_statements body A"
proof -
  let ?z = "zip (py_splitlines body) (py_splitlines (mask_comments body))"
  let ?st = "lines_loop A 1 ?z lstate_init"
  have "concat (take (length ?z) (py_splitlines body)) @ concat (drop (length ?z) (py_splitlines body)) = body"
    by (metis append_take_drop_id concat_append concat_py_splitlines)
  moreover have "map fst ?z = take (length ?z) (py_splitlines body)"
    by (simp add: map_fst_zip_take)
  ultimately obtain u where u: "body = concat (map fst ?z) @ u" by metis
  have "sinv A (concat (map fst ?z)) ?st"
    using lines_loop_linv [OF linv_init, of A ?z 1] by (simp add: linv_def)
  then have inv: "sinv A body ?st" using sinv_mono u by metis
  show thesis
  proof (cases "ls_buffer ?st = []")
    case True
    then show thesis using inv that [of ?st] by (simp add: logical_statements_def Let_def)
  next
    case False
    then show thesis
      by (intro that [OF sinv_flush(1) [OF inv]]) (simp add: logical_statements_def Let_def)
  qed
qed

section \<open>Expansion tiles the range of a statement\<close>

fun tile :: "nat \<Rightarrow> Statement list \<Rightarrow> nat \<Rightarrow> bool" where
  "tile a [] b \<longleftrightarrow> a = b"
| "tile a (x # xs) b \<longleftrightarrow> stmt_start_offset x = a \<and> tile (stmt_end_offset x) xs b"

definition expands :: "Statement list \<Rightarrow> Statement \<Rightarrow> bool" where
  "expands xs st \<longleftrightarrow> xs \<noteq> [] \<and> tile (stmt_start_offset st) xs (stmt_end_offset st)"

lemma tile_append: "tile a xs b \<Longrightarrow> tile b ys c \<Longrightarrow> tile a (xs @ ys) c"
  by (induction xs arbitrary: a) auto

lemma expands_refl [simp]: "expands [st] st"
  by (simp add: expands_def)

lemma expands_statement: "expands (fst (expand_statement dialect st)) st"
  by (auto simp: expand_statement_def expands_def Let_def split: option.splits prod.splits)

lemma tile_concat: "list_all2 expands gs xs \<Longrightarrow> tile a xs b \<Longrightarrow> tile a (concat gs) b"
  by (induction gs xs arbitrary: a rule: list_all2_induct) (auto simp: expands_def intro: tile_append)

lemma expands_concat: "list_all2 expands gs xs \<Longrightarrow> expands xs st \<Longrightarrow> expands (concat gs) st"
proof -
  assume gs: "list_all2 expands gs xs" and xs: "expands xs st"
  then have "concat gs \<noteq> []"
    by (cases gs; cases xs) (auto simp: expands_def)
  with gs xs show ?thesis using tile_concat unfolding expands_def by blast
qed

lemma expands_map_concat:
  "list_all2 (list_all2 expands) ks hs \<Longrightarrow> list_all2 expands hs xs \<Longrightarrow> list_all2 expands (map concat ks) xs"
  by (induction ks hs arbitrary: xs rule: list_all2_induct) (auto simp: list_all2_Cons1 intro: expands_concat)

text \<open>\<open>refines xs sts\<close>: \<open>xs\<close> replaces every statement of \<open>sts\<close> by an expansion of it.\<close>

definition refines :: "Statement list \<Rightarrow> Statement list \<Rightarrow> bool" where
  "refines xs sts \<longleftrightarrow> (\<exists>gs. xs = concat gs \<and> list_all2 expands gs sts)"

lemma refines_refl: "refines sts sts"
proof -
  have "concat (map (\<lambda>x. [x]) sts) = sts" by simp
  moreover have "list_all2 expands (map (\<lambda>x. [x]) sts) sts"
    by (simp add: list_all2_conv_all_nth)
  ultimately show ?thesis unfolding refines_def by metis
qed

lemma list_all2_concat_split:
  "list_all2 P xs (concat gs) \<Longrightarrow> \<exists>hs. xs = concat hs \<and> list_all2 (list_all2 P) hs gs"
proof (induction gs arbitrary: xs)
  case (Cons g gs)
  then obtain us vs where "xs = us @ vs" "list_all2 P us g" "list_all2 P vs (concat gs)"
    by (auto simp: list_all2_append2)
  with Cons.IH [of vs] show ?case
    by (metis concat.simps(2) list_all2_Cons2)
qed simp

lemma refines_trans: "refines zs ys \<Longrightarrow> refines ys xs \<Longrightarrow> refines zs xs"
proof -
  assume "refines zs ys" "refines ys xs"
  then obtain gs hs where gs: "zs = concat gs" "list_all2 expands gs (concat hs)"
    and hs: "list_all2 expands hs xs"
    by (auto simp: refines_def)
  obtain ks where ks: "gs = concat ks" "list_all2 (list_all2 expands) ks hs"
    using list_all2_concat_split [OF gs(2)] by blast
  have "list_all2 expands (map concat ks) xs"
    using ks(2) hs by (rule expands_map_concat)
  moreover have "concat (map concat ks) = concat (concat ks)" by (induction ks) auto
  ultimately show ?thesis unfolding refines_def gs(1) ks(1) by metis
qed

lemma expand_round_refines: "refines (fst (expand_round dialect sts)) sts"
  unfolding refines_def expand_round_def Let_def
  by (intro exI [of _ "map (fst \<circ> expand_statement dialect) sts"])
    (auto simp: list_all2_conv_all_nth expands_statement)

lemma expand_rounds_refines: "refines (expand_rounds n dialect sts) sts"
proof (induction n arbitrary: sts)
  case 0
  then show ?case by (simp add: refines_refl)
next
  case (Suc n)
  have "refines (fst (expand_round dialect sts)) sts" by (rule expand_round_refines)
  then show ?case
    using Suc [of "fst (expand_round dialect sts)"]
    by (cases "expand_round dialect sts") (auto intro: refines_trans)
qed

lemma span_of_ok: "span_ok (span_of st full_text)"
  using py_rfind_less [of full_text nl "stmt_start_offset st"]
  by (simp add: span_ok_def span_of_def Let_def)

section \<open>Properties of the scanner\<close>

text \<open>
  Masking keeps the layout. The masked text has the length of the source, every character of
  it is the character of the source at the same place or a blank in place of a character other than
  a newline, so offsets and newline counts computed on the masked text are those of the source.
\<close>

theorem mask_keeps_layout:
  "list_all2 masked_char (mask_comments txt) txt \<and> length (mask_comments txt) = length txt \<and>
   (\<forall>i. i < length txt \<longrightarrow> (mask_comments txt ! i = nl) = (txt ! i = nl))"
proof -
  have m: "list_all2 masked_char (mask_comments txt) txt"
    unfolding mask_comments_def by (rule mask_go_masked)
  have "(mask_comments txt ! i = nl) = (txt ! i = nl)" if "i < length txt" for i
    using list_all2_nthD2 [OF m that] by (auto simp: masked_char_def)
  then show ?thesis using m list_all2_lengthD by blast
qed

theorem mask_keeps_layout_witness:
  "(mask_comments ''a--b'' ! 3 = nl) = (''a--b'' ! 3 = nl)"
proof -
  have "3 < length ''a--b''" by simp
  then show ?thesis using mask_keeps_layout [of "''a--b''"] by blast
qed

text \<open>
  C40: logical statements are located and ordered. Every statement of a body that starts at offset
  \<open>A\<close> has a non-empty, stripped text that is a subsequence of the slice of the body its offsets
  name, the offsets stay inside the body, and each statement ends before the next one starts.
\<close>

theorem statements_located:
  "list_all (located A body) (logical_statements body A) \<and> sorted_wrt stmt_before (logical_statements body A)"
proof -
  obtain st where st: "sinv A body st" "ls_statements st = logical_statements body A"
    by (rule logical_statements_sinv)
  then show ?thesis unfolding st(2) [symmetric] sinv_def list_all_iff by blast
qed

text \<open>
  Splitting a line at its top-level semicolons loses nothing but trailing blanks: the pieces
  concatenated are a prefix of the line, and what follows it is blank.
\<close>

theorem semicolon_pieces_cover_line:
  "take (length (concat (split_semicolon_pieces line))) line = concat (split_semicolon_pieces line) \<and>
   py_strip (drop (length (concat (split_semicolon_pieces line))) line) = []"
proof -
  obtain t where t: "line = concat (split_semicolon_pieces line) @ t" "py_strip t = []"
    by (rule split_semicolon_pieces_concat)
  have "take (length (concat (split_semicolon_pieces line))) (concat (split_semicolon_pieces line) @ t) =
      concat (split_semicolon_pieces line)"
    and "drop (length (concat (split_semicolon_pieces line))) (concat (split_semicolon_pieces line) @ t) = t"
    by simp_all
  then show ?thesis using t by metis
qed

text \<open>
  Expanding inline control statements splits, and never drops, source. The expanded list is the
  concatenation of one non-empty group per statement, and the ranges of a group tile the range of
  the statement it replaces without gap or overlap.
\<close>

theorem expansion_tiles_statements:
  "\<exists>groups. expand_inline_control_statements sts dialect = concat groups \<and> list_all2 expands groups sts"
  unfolding expand_inline_control_statements_def refines_def [symmetric] by (rule expand_rounds_refines)

end
