(* ===== verification/Syntax.thy ===== *)
theory Syntax
  imports Normalization
begin

text \<open>
  Routine headers, parameters and bodies: \<open>atlas/dialects/syntax.py\<close>, the profile type of
  \<open>base.py\<close> and \<open>vendor_support.py\<close>. A \<open>raise\<close> is the left value of a sum. A pattern's
  named groups are numbered in the order of the pattern, which in every profile is
  \<open>name\<close>, \<open>params\<close>, \<open>return_type\<close>. The lemmas show that splitting a parameter list
  loses nothing, that the parenthesis found closes the one opened, and that the body of a routine
  is the text between the delimiters or the tail of the source without separator lines.
\<close>

datatype adapter_error =
    DialectAdapterError string
  | ValidationError string
  | IndexError string

text \<open>The fields of a profile that the code reads; the remaining ones are keyword lists kept as documentation.\<close>

record Profile =
  pf_dialect :: DialectId
  pf_adapter_id :: string
  pf_header_patterns :: "rx list"
  pf_function_patterns :: "rx list"
  pf_trigger_patterns :: "rx list"
  pf_package_procedure_patterns :: "rx list"
  pf_package_function_patterns :: "rx list"
  pf_body_style :: string
  pf_identifier_quotes :: "(string \<times> string) list"
  pf_parameter_parser :: "(string \<Rightarrow> string option \<Rightarrow> adapter_error + RoutineParameter list) option"
  pf_attribute_extractor :: "(string \<Rightarrow> rmatch \<Rightarrow> RoutineKind \<Rightarrow> attrs) option"
  pf_initial_declare_section :: bool

record Header =
  hd_match :: rmatch
  hd_routine_kind :: RoutineKind
  hd_schema_name :: "string option"
  hd_routine_name :: string
  hd_parameters :: "RoutineParameter list"
  hd_return_type :: "string option"
  hd_routine_attributes :: attrs

section \<open>Identifiers\<close>

definition strip_identifier :: "string \<Rightarrow> string" where
  "strip_identifier value =
     (let v = py_strip_of (in_chars [bquote, dquote]) (py_strip value)
      in if py_startswith v ''['' \<and> py_endswith v '']'' then butlast (tl v) else v)"

definition qualified_name :: "Normalizer \<Rightarrow> string \<Rightarrow> adapter_error + (string option \<times> string)" where
  "qualified_name nz value =
     (let parts = filter (\<lambda>part. part \<noteq> []) (split_qualified (normalize_identifier nz value))
      in if parts = [] then Inl (DialectAdapterError ''UNSUPPORTED_SYNTAX: routine identifier was empty.'')
         else Inr (if 1 < length parts then Some (parts ! (length parts - 2)) else None, last parts))"

section \<open>Parameter lists\<close>

text \<open>
  The loop of \<open>_split_csv\<close> as the list of raw pieces between the top-level commas; the
  pieces are stripped, and a blank last piece is dropped, by \<open>split_csv\<close>.
\<close>

definition opens_quote :: "char \<Rightarrow> bool" where
  "opens_quote c = (c = squote \<or> c = dquote \<or> c = bquote)"

fun csv_cut :: "string \<Rightarrow> nat \<Rightarrow> char option \<Rightarrow> bool \<Rightarrow> string \<Rightarrow> string list" where
  "csv_cut cur depth quote bracket [] = [cur]"
| "csv_cut cur depth (Some q) bracket [c] =
     csv_cut (cur @ [c]) depth (if c = q then None else Some q) bracket []"
| "csv_cut cur depth (Some q) bracket (c # n # cs) =
     (if c = q \<and> n = q then csv_cut (cur @ [c, n]) depth (Some q) bracket cs
      else csv_cut (cur @ [c]) depth (if c = q then None else Some q) bracket (n # cs))"
| "csv_cut cur depth None bracket (c # cs) =
     (if bracket then csv_cut (cur @ [c]) depth None (c \<noteq> CHR '']'') cs
      else if c = CHR ''['' then csv_cut (cur @ [c]) depth None True cs
      else if opens_quote c then csv_cut (cur @ [c]) depth (Some c) False cs
      else if c = CHR ''('' then csv_cut (cur @ [c]) (depth + 1) None False cs
      else if c = CHR '')'' then csv_cut (cur @ [c]) (depth - 1) None False cs
      else if c = CHR '','' \<and> depth = 0 then cur # csv_cut [] depth None False cs
      else csv_cut (cur @ [c]) depth None False cs)"

definition split_csv :: "string \<Rightarrow> string list" where
  "split_csv raw =
     (let pieces = csv_cut [] 0 None False raw; tail = py_strip (last pieces)
      in map py_strip (butlast pieces) @ (if tail = [] then [] else [tail]))"

definition enum1 :: "'a list \<Rightarrow> (nat \<times> 'a) list" where
  "enum1 xs = zip [1..<Suc (length xs)] xs"

text \<open>A loop that raises, skips or appends one value per item.\<close>

fun collect_params :: "(adapter_error + 'a option) list \<Rightarrow> adapter_error + 'a list" where
  "collect_params [] = Inr []"
| "collect_params (Inl e # rs) = Inl e"
| "collect_params (Inr None # rs) = collect_params rs"
| "collect_params (Inr (Some v) # rs) = (case collect_params rs of Inl e \<Rightarrow> Inl e | Inr vs \<Rightarrow> Inr (v # vs))"

fun mode_of :: "string \<Rightarrow> ParameterMode option" where
  "mode_of s = (if s = ''IN'' then Some MODE_IN else if s = ''OUT'' then Some MODE_OUT
     else if s = ''INOUT'' then Some MODE_INOUT else if s = ''VARIADIC'' then Some MODE_VARIADIC
     else if s = ''RETURN'' then Some MODE_RETURN else None)"

definition mk_parameter :: "string \<Rightarrow> string \<Rightarrow> string \<Rightarrow> string option \<Rightarrow> adapter_error + RoutineParameter option" where
  "mk_parameter name mode type_text default_text =
     (case mode_of mode of
        Some m \<Rightarrow> Inr (Some \<lparr>param_name = name, param_mode = m, param_type_text = type_text,
                            param_default_text = default_text\<rparr>)
      | None \<Rightarrow> Inl (ValidationError ''RoutineParameter.mode''))"

definition return_parameters :: "string option \<Rightarrow> RoutineParameter list" where
  "return_parameters return_type =
     (if truthy return_type then
        [\<lparr>param_name = ''RETURN_VALUE'', param_mode = MODE_RETURN,
          param_type_text = py_strip (or_str return_type []), param_default_text = None\<rparr>] else [])"

definition or_unknown :: "string \<Rightarrow> string" where
  "or_unknown s = (if s = [] then ''UNKNOWN'' else s)"

definition rx_param_default :: rx where
  "rx_param_default =
     rseqs [ws1, ralts [kw ''DEFAULT'', kw '':='', kw ''=''], ws1, RGroup 1 (rplus any), REos]"

text \<open>The default clause split off an item: the item without it and the default's text.\<close>

definition split_default :: "rx \<Rightarrow> string \<Rightarrow> string \<times> string option" where
  "split_default r clean =
     (case re_search r clean of
        Some m \<Rightarrow> (py_strip (take (m_start m) clean), Some (py_strip (m_str m 1)))
      | None \<Rightarrow> (clean, None))"

definition pop_mode :: "string list \<Rightarrow> string \<Rightarrow> string list \<Rightarrow> string \<times> string list" where
  "pop_mode allowed mode tokens =
     (case tokens of t # ts \<Rightarrow> if py_upper t \<in> set allowed then (py_upper t, ts) else (mode, tokens)
      | [] \<Rightarrow> (mode, tokens))"

definition pop_name :: "string \<Rightarrow> nat \<Rightarrow> string list \<Rightarrow> string \<times> string list" where
  "pop_name leading index tokens =
     (case tokens of t # ts \<Rightarrow> (py_lstrip_of (in_chars leading) t, ts)
      | [] \<Rightarrow> (''ARG_'' @ nat_dec index, []))"

definition standard_parameter ::
  "string \<Rightarrow> string \<Rightarrow> string list \<Rightarrow> nat \<times> string \<Rightarrow> adapter_error + RoutineParameter option" where
  "standard_parameter leading default_mode allowed it =
     (case it of (index, item) \<Rightarrow>
       let clean = squash_ws (py_strip item) in
       if clean = [] then Inr None
       else
         (let (clean, default_text) = split_default rx_param_default clean;
              (mode, tokens) = pop_mode allowed default_mode (py_split clean);
              (name, tokens) = pop_name leading index tokens;
              (mode, tokens) = pop_mode allowed mode tokens
          in mk_parameter name mode (or_unknown (py_join '' '' tokens)) default_text))"

definition tsql_plain_parameter :: "nat \<times> string \<Rightarrow> adapter_error + RoutineParameter option" where
  "tsql_plain_parameter it =
     (case it of (index, item) \<Rightarrow>
       let clean = squash_ws (py_strip item) in
       if clean = [] then Inr None
       else
         (let (clean, default_text) = split_default rx_param_default clean; tokens = py_split clean in
          if tokens = [] then Inl (IndexError ''list index out of range'')
          else
            (let name = py_lstrip_of (in_chars ''@'') (hd tokens);
                 out = (py_upper (last tokens) \<in> set [''OUT'', ''OUTPUT'']);
                 tokens = (if out then butlast tokens else tokens)
             in mk_parameter name (if out then ''OUT'' else ''IN'') (or_unknown (py_join '' '' (tl tokens))) default_text)))"

definition append_return :: "string option \<Rightarrow> adapter_error + RoutineParameter list \<Rightarrow> adapter_error + RoutineParameter list" where
  "append_return return_type r =
     (case r of Inl e \<Rightarrow> Inl e | Inr vs \<Rightarrow> Inr (vs @ return_parameters return_type))"

definition parse_parameters :: "string \<Rightarrow> Profile \<Rightarrow> string option \<Rightarrow> adapter_error + RoutineParameter list" where
  "parse_parameters raw profile return_type =
     (case pf_parameter_parser profile of
        Some parser \<Rightarrow> parser raw return_type
      | None \<Rightarrow>
          append_return return_type (collect_params (map
            (if pf_dialect profile = SQLSERVER_TSQL then tsql_plain_parameter
             else standard_parameter '':'' ''IN'' [''IN'', ''OUT'', ''INOUT'']) (enum1 (split_csv raw)))))"

definition rx_arg_name :: rx where
  "rx_arg_name =
     rseqs [lit ''ARG_'', rplus dg]"

definition normalize_parameters :: "Normalizer \<Rightarrow> RoutineParameter list \<Rightarrow> RoutineParameter list" where
  "normalize_parameters nz ps =
     map (\<lambda>p. p\<lparr>param_name := (if param_mode p = MODE_RETURN \<or> re_fullmatch rx_arg_name (param_name p)
                 then param_name p else normalize_variable nz (param_name p)),
              param_type_text := normalize_type nz (param_type_text p)\<rparr>) ps"

definition routine_attributes :: "string \<Rightarrow> rmatch \<Rightarrow> Profile \<Rightarrow> RoutineKind \<Rightarrow> attrs" where
  "routine_attributes txt m profile kind =
     (case pf_attribute_extractor profile of
        Some extract \<Rightarrow> extract txt m kind
      | None \<Rightarrow> [(''routine_kind'', AStr (routine_kind_value kind))])"

fun paren_go :: "nat \<Rightarrow> int \<Rightarrow> char option \<Rightarrow> bool \<Rightarrow> string \<Rightarrow> nat option" where
  "paren_go i depth quote bracket [] = None"
| "paren_go i depth (Some q) bracket [c] = None"
| "paren_go i depth (Some q) bracket (c # n # cs) =
     (if c = q \<and> n = q then paren_go (i + 2) depth (Some q) bracket cs
      else paren_go (i + 1) depth (if c = q then None else Some q) bracket (n # cs))"
| "paren_go i depth None bracket (c # cs) =
     (if bracket then paren_go (i + 1) depth None (c \<noteq> CHR '']'') cs
      else if c = CHR ''['' then paren_go (i + 1) depth None True cs
      else if opens_quote c then paren_go (i + 1) depth (Some c) False cs
      else if c = CHR ''('' then paren_go (i + 1) (depth + 1) None False cs
      else if c = CHR '')'' then
        (if depth - 1 = 0 then Some i else paren_go (i + 1) (depth - 1) None False cs)
      else paren_go (i + 1) depth None False cs)"

definition matching_paren :: "string \<Rightarrow> nat \<Rightarrow> adapter_error + nat" where
  "matching_paren txt open_at =
     (case paren_go open_at 0 None False (drop open_at txt) of
        Some i \<Rightarrow> Inr i
      | None \<Rightarrow> Inl (DialectAdapterError ''UNSUPPORTED_SYNTAX: unclosed routine parameter list.''))"

section \<open>Headers\<close>

definition err :: "string \<Rightarrow> adapter_error + 'a" where
  "err msg = Inl (DialectAdapterError (''UNSUPPORTED_SYNTAX: '' @ msg))"

definition rx_pg_option :: rx where
  "rx_pg_option =
     rseqs [ws1, RLook (ralts [rseqs [kw ''LANGUAGE'', RWordB], rseqs [kw ''TRANSFORM'',
     RWordB], rseqs [kw ''WINDOW'', RWordB], rseqs [kw ''IMMUTABLE'', RWordB], rseqs [kw
     ''STABLE'', RWordB], rseqs [kw ''VOLATILE'', RWordB], rseqs [kw ''LEAKPROOF'', RWordB],
     rseqs [kw ''CALLED'', ws1, kw ''ON'', ws1, kw ''NULL'', ws1, kw ''INPUT'', RWordB], rseqs
     [kw ''RETURNS'', ws1, kw ''NULL'', ws1, kw ''ON'', ws1, kw ''NULL'', ws1, kw ''INPUT'',
     RWordB], rseqs [kw ''STRICT'', RWordB], rseqs [kw ''SECURITY'', ws1, ralts [kw ''INVOKER'',
     kw ''DEFINER''], RWordB], rseqs [kw ''PARALLEL'', RWordB], rseqs [kw ''COST'', RWordB],
     rseqs [kw ''ROWS'', RWordB], rseqs [kw ''SUPPORT'', RWordB], rseqs [kw ''SET'', RWordB],
     rseqs [kw ''AS'', ws1, ralts [rseqs [kw ''$'', RStar (icls [AZ, az, D09] ''_''), kw ''$''],
     rseqs [ROpt (kw ''E''), kw [CHR 0x27]], kw [CHR 0x27]]]])]"

definition rx_pg_create :: rx where
  "rx_pg_create =
     rseqs [kw ''CREATE'', ws1, ROpt (rseqs [kw ''OR'', ws1, kw ''REPLACE'', ws1]), RGroup 1
     (ralts [kw ''FUNCTION'', kw ''PROCEDURE'']), ws1, RGroup 2 (rseqs [ralts [rseqs [kw [CHR
     0x22], rplus (ncls [CHR 0x22]), kw [CHR 0x22]], rseqs [icls [AZ] ''_'', RStar (icls [AZ,
     D09] ''_$'')]], ROpt (rseqs [kw ''.'', ralts [rseqs [kw [CHR 0x22], rplus (ncls [CHR
     0x22]), kw [CHR 0x22]], rseqs [icls [AZ] ''_'', RStar (icls [AZ, D09] ''_$'')]]])]), ws0,
     kw ''('']"

definition rx_pg_returns :: rx where
  "rx_pg_returns =
     rseqs [ws0, kw ''RETURNS'', ws1]"

definition rx_pg_language :: rx where
  "rx_pg_language =
     rseqs [RWordB, kw ''LANGUAGE'', ws1, kw ''PLPGSQL'', RWordB]"

definition pg_return_type :: "string \<Rightarrow> adapter_error + string" where
  "pg_return_type tail =
     (case re_match rx_pg_returns tail of
        None \<Rightarrow> err ''PostgreSQL function has no RETURNS clause.''
      | Some returns \<Rightarrow>
          (let remainder = drop (m_end returns) tail;
               return_type = py_strip (case re_search rx_pg_option remainder of
                  Some boundary \<Rightarrow> take (m_start boundary) remainder | None \<Rightarrow> remainder)
           in if return_type = [] then err ''PostgreSQL function return type was empty.'' else Inr return_type))"

definition header_of ::
  "string \<Rightarrow> Profile \<Rightarrow> Normalizer \<Rightarrow> rmatch \<Rightarrow> RoutineKind \<Rightarrow> string \<Rightarrow> string \<Rightarrow> string option \<Rightarrow> string option \<Rightarrow>
   adapter_error + Header" where
  "header_of txt profile nz m kind raw_name params parse_return return_type =
     (case qualified_name nz raw_name of
        Inl e \<Rightarrow> Inl e
      | Inr (schema, name) \<Rightarrow>
          (case parse_parameters params profile parse_return of
             Inl e \<Rightarrow> Inl e
           | Inr ps \<Rightarrow>
               Inr \<lparr>hd_match = m, hd_routine_kind = kind, hd_schema_name = schema, hd_routine_name = name,
                 hd_parameters = normalize_parameters nz ps, hd_return_type = return_type,
                 hd_routine_attributes = routine_attributes txt m profile kind\<rparr>))"

definition extract_postgresql_header :: "string \<Rightarrow> Profile \<Rightarrow> Normalizer \<Rightarrow> adapter_error + Header" where
  "extract_postgresql_header txt profile nz =
     (case re_search rx_pg_create txt of
        None \<Rightarrow> err ''no POSTGRESQL_PLPGSQL routine header was recognized.''
      | Some create \<Rightarrow>
          (let open_at = m_end create - 1 in
           case matching_paren txt open_at of
             Inl e \<Rightarrow> Inl e
           | Inr close_at \<Rightarrow>
               (let params_raw = py_slice txt (open_at + 1) close_at;
                    tail = drop (close_at + 1) txt;
                    is_function = (py_upper (m_str create 1) = ''FUNCTION'')
                in case (if is_function then map_sum id Some (pg_return_type tail) else Inr None) of
                     Inl e \<Rightarrow> Inl e
                   | Inr return_type \<Rightarrow>
                       (let normalized = map_option (normalize_type nz) return_type;
                            kind = (if \<not> is_function then PROCEDURE
                                    else if normalized \<in> set [Some ''TRIGGER'', Some ''EVENT_TRIGGER''] then TRIGGER
                                    else FUNCTION)
                        in if \<not> is_search rx_pg_language txt then
                             err ''PostgreSQL routine is not declared LANGUAGE plpgsql.''
                           else header_of txt profile nz create kind (m_str create 2) params_raw return_type normalized))))"

definition header_candidates :: "Profile \<Rightarrow> (rx \<times> RoutineKind) list" where
  "header_candidates profile =
     map (\<lambda>p. (p, PROCEDURE)) (pf_header_patterns profile) @
     map (\<lambda>p. (p, TRIGGER)) (pf_trigger_patterns profile) @
     map (\<lambda>p. (p, FUNCTION)) (pf_function_patterns profile) @
     map (\<lambda>p. (p, PACKAGE_ROUTINE)) (pf_package_procedure_patterns profile) @
     map (\<lambda>p. (p, PACKAGE_ROUTINE)) (pf_package_function_patterns profile)"

fun first_header :: "string \<Rightarrow> Profile \<Rightarrow> Normalizer \<Rightarrow> (rx \<times> RoutineKind) list \<Rightarrow> adapter_error + Header" where
  "first_header txt profile nz [] =
     err (''no '' @ dialect_value (pf_dialect profile) @ '' routine header was recognized.'')"
| "first_header txt profile nz ((pattern, kind) # rest) =
     (case re_search pattern txt of
        None \<Rightarrow> first_header txt profile nz rest
      | Some m \<Rightarrow>
          (let return_type = (if truthy (m_group m 3) then map_option (normalize_type nz) (m_group m 3) else None)
           in header_of txt profile nz m kind (m_str m 1) (or_str (m_group m 2) []) return_type return_type))"

definition extract_header :: "string \<Rightarrow> Profile \<Rightarrow> Normalizer \<Rightarrow> adapter_error + Header" where
  "extract_header txt profile nz =
     (if pf_dialect profile = POSTGRESQL_PLPGSQL then extract_postgresql_header txt profile nz
      else first_header txt profile nz (header_candidates profile))"

section \<open>Bodies\<close>

definition rx_body_opener :: rx where
  "rx_body_opener =
     rseqs [lit ''$'', RStar (ccls [AZ, az, D09] ''_''), lit ''$'']"

definition rx_separator_in_body :: rx where
  "rx_separator_in_body =
     rseqs [RBol, ws0, ralts [kw ''GO'', kw ''/'', rseqs [kw ''DELIMITER'', ws1, rplus nsp]],
     ws0, REol]"

definition rx_trailing_slash :: rx where
  "rx_trailing_slash =
     rseqs [ws0, lit ''/'', ws0, REos]"

definition dollar_body :: "string \<Rightarrow> nat \<Rightarrow> (string \<times> nat) option" where
  "dollar_body txt from_at =
     (case re_search rx_body_opener (drop from_at txt) of
        None \<Rightarrow> None
      | Some opener \<Rightarrow>
          (let token = m_text opener; body_start = from_at + m_start opener + length token
           in case py_find (drop body_start txt) token of
                Some k \<Rightarrow> Some (py_slice txt body_start (body_start + k), body_start)
              | None \<Rightarrow> None))"

definition extract_body :: "string \<Rightarrow> Header \<Rightarrow> Profile \<Rightarrow> adapter_error + (string \<times> nat)" where
  "extract_body txt header profile =
     (if pf_body_style profile = ''POSTGRES_DOLLAR_BODY'' then
        (case dollar_body txt (m_start (hd_match header)) of
           Some r \<Rightarrow> Inr r
         | None \<Rightarrow> err ''PostgreSQL plpgsql body requires a bounded dollar-quoted body.'')
      else
        (let body_start = m_end (hd_match header);
             body = re_sub rx_separator_in_body [] (drop body_start txt)
         in Inr (re_sub rx_trailing_slash [] body, body_start)))"

section \<open>Vendor support\<close>

definition normalized_header_window :: "string \<Rightarrow> rmatch \<Rightarrow> nat \<Rightarrow> string" where
  "normalized_header_window txt m width =
     py_upper (squash_ws (py_slice txt (m_start m) (min (length txt) (m_end m + width))))"

definition parse_standard_parameters :: "string \<Rightarrow> string option \<Rightarrow> adapter_error + RoutineParameter list" where
  "parse_standard_parameters raw return_type =
     append_return return_type
       (collect_params (map (standard_parameter '':@'' ''IN'' [''IN'', ''OUT'', ''INOUT'']) (enum1 (split_csv raw))))"

definition rx_tsql_default :: rx where
  "rx_tsql_default =
     rseqs [ws0, kw ''='', ws1, RGroup 1 (rplus_lazy any), RLook (ralts [rseqs [ws1, ralts [kw
     ''OUT'', kw ''OUTPUT''], ws0, REos], REos])]"

definition tsql_parameter :: "nat \<times> string \<Rightarrow> adapter_error + RoutineParameter option" where
  "tsql_parameter it =
     (case it of (index, item) \<Rightarrow>
       let clean = squash_ws (py_strip item) in
       if clean = [] then Inr None
       else
         (let (clean, default_text) =
                (case re_search rx_tsql_default clean of
                   Some m \<Rightarrow> (py_strip (take (m_start m) clean @ drop (m_end m) clean), Some (py_strip (m_str m 1)))
                 | None \<Rightarrow> (clean, None))
          in case py_split clean of
               [] \<Rightarrow> Inr None
             | t # ts \<Rightarrow>
                 (let stripped = py_lstrip_of (in_chars ''@'') t;
                      name = (if stripped = [] then ''ARG_'' @ nat_dec index else stripped);
                      out = (ts \<noteq> [] \<and> py_upper (last ts) \<in> set [''OUT'', ''OUTPUT''])
                  in mk_parameter name (if out then ''OUT'' else ''IN'')
                       (or_unknown (py_join '' '' (if out then butlast ts else ts))) default_text)))"

definition parse_sqlserver_parameters :: "string \<Rightarrow> string option \<Rightarrow> adapter_error + RoutineParameter list" where
  "parse_sqlserver_parameters raw return_type =
     append_return return_type (collect_params (map tsql_parameter (enum1 (split_csv raw))))"

definition routine_kind_attributes :: "RoutineKind \<Rightarrow> attrs" where
  "routine_kind_attributes kind = [(''routine_kind'', AStr (routine_kind_value kind))]"

section \<open>Facts\<close>

lemma csv_cut_nonempty: "csv_cut cur d q b s \<noteq> []"
  by (induction cur d q b s rule: csv_cut.induct) auto

lemma csv_cut_join: "py_join '','' (csv_cut cur d q b s) = cur @ s"
  by (induction cur d q b s rule: csv_cut.induct) (auto simp: csv_cut_nonempty py_join_Cons)

text \<open>
  Splitting a parameter list at its top-level commas loses nothing, and the values returned
  are the pieces without surrounding blanks, a blank last piece dropped.
\<close>

theorem split_csv_pieces:
  "\<exists>pieces. py_join '','' pieces = raw \<and> pieces \<noteq> [] \<and>
     (split_csv raw = map py_strip pieces \<or> split_csv raw = map py_strip (butlast pieces) \<and> py_strip (last pieces) = [])"
proof (intro exI conjI)
  let ?p = "csv_cut [] 0 None False raw"
  show "py_join '','' ?p = raw" by (simp add: csv_cut_join)
  show ne: "?p \<noteq> []" by (rule csv_cut_nonempty)
  have "map py_strip ?p = map py_strip (butlast ?p) @ [py_strip (last ?p)]"
    using append_butlast_last_id [OF ne] by (metis map_append list.map)
  then show "split_csv raw = map py_strip ?p \<or> split_csv raw = map py_strip (butlast ?p) \<and> py_strip (last ?p) = []"
    by (simp add: split_csv_def Let_def)
qed

text \<open>Parsing parameters does not raise: every mode the loop can produce is one of the literals.\<close>

lemma pop_mode_allowed: "mode \<in> set allowed \<Longrightarrow> fst (pop_mode allowed mode ts) \<in> set allowed"
  by (auto simp: pop_mode_def split: list.splits)

lemma mode_of_allowed: "mode \<in> set [''IN'', ''OUT'', ''INOUT''] \<Longrightarrow> \<exists>m. mode_of mode = Some m"
  by auto

lemma standard_parameter_Inr:
  "\<exists>r. standard_parameter leading ''IN'' [''IN'', ''OUT'', ''INOUT''] it = Inr r"
proof -
  obtain index item where it: "it = (index, item)" by (cases it)
  let ?a = "[''IN'', ''OUT'', ''INOUT'']"
  obtain clean dflt where d: "split_default rx_param_default (squash_ws (py_strip item)) = (clean, dflt)" by fastforce
  obtain mode ts where m: "pop_mode ?a ''IN'' (py_split clean) = (mode, ts)" by fastforce
  obtain name us where n: "pop_name leading index ts = (name, us)" by fastforce
  obtain mode' vs where m': "pop_mode ?a mode us = (mode', vs)" by fastforce
  have "mode \<in> set ?a" using pop_mode_allowed [of "''IN''" ?a "py_split clean"] m by simp
  then have "mode' \<in> set ?a" using pop_mode_allowed [of mode ?a us] m' by (metis fst_conv)
  then obtain pm where "mode_of mode' = Some pm" using mode_of_allowed by blast
  then show ?thesis
    by (simp add: standard_parameter_def it d m n m' Let_def mk_parameter_def del: mode_of.simps)
qed

lemma tsql_parameter_Inr: "\<exists>r. tsql_parameter it = Inr r"
  by (cases it) (auto simp: tsql_parameter_def mk_parameter_def Let_def split: prod.splits list.splits option.splits)

lemma collect_params_Inr: "(\<forall>r \<in> set rs. \<exists>v. r = Inr v) \<Longrightarrow> \<exists>vs. collect_params rs = Inr vs \<and> length vs \<le> length rs"
  by (induction rs rule: collect_params.induct) (auto split: sum.splits)

text \<open>
  The vendor parameter parsers are total: for every text they return a parameter list, with
  at most one parameter per item of the list and the return value as one more.
\<close>

theorem vendor_parameters_total:
  "(\<exists>ps. parse_standard_parameters raw return_type = Inr ps \<and> length ps \<le> Suc (length (split_csv raw))) \<and>
   (\<exists>ps. parse_sqlserver_parameters raw return_type = Inr ps \<and> length ps \<le> Suc (length (split_csv raw)))"
proof -
  have len: "length (return_parameters return_type) \<le> 1" by (simp add: return_parameters_def)
  have "\<exists>ps. append_return return_type (collect_params (map f (enum1 (split_csv raw)))) = Inr ps \<and>
      length ps \<le> Suc (length (split_csv raw))" if f: "\<And>it. \<exists>r. f it = Inr r" for f
  proof -
    have "\<forall>r \<in> set (map f (enum1 (split_csv raw))). \<exists>v. r = Inr v" using f by auto
    from collect_params_Inr [OF this] obtain vs
      where "collect_params (map f (enum1 (split_csv raw))) = Inr vs" "length vs \<le> length (split_csv raw)"
      by (auto simp: enum1_def)
    then show ?thesis using len by (simp add: append_return_def)
  qed
  then show ?thesis using standard_parameter_Inr tsql_parameter_Inr
    unfolding parse_standard_parameters_def parse_sqlserver_parameters_def by blast
qed

lemma paren_go_Some:
  "paren_go i d q b s = Some j \<Longrightarrow> i \<le> j \<and> j < i + length s \<and> s ! (j - i) = CHR '')''"
proof (induction i d q b s rule: paren_go.induct)
  case (4 i depth bracket c cs)
  have step: "i \<le> j \<and> j < i + length (c # cs) \<and> (c # cs) ! (j - i) = CHR '')''"
    if "i + 1 \<le> j \<and> j < i + 1 + length cs \<and> cs ! (j - (i + 1)) = CHR '')''"
    using that by (simp add: nth_Cons')
  show ?case using 4 step by (auto split: if_splits)
next
  case (3 i depth q bracket c n cs)
  then show ?case by (auto simp: nth_Cons' split: if_splits)
qed auto

text \<open>
  The parameter list of a PostgreSQL header is closed by a parenthesis of the text at or
  after the one that opens it; without one the adapter error is raised.
\<close>

theorem matching_paren_closes:
  "case matching_paren txt open_at of
     Inr i \<Rightarrow> open_at \<le> i \<and> i < length txt \<and> txt ! i = CHR '')''
   | Inl e \<Rightarrow> e = DialectAdapterError ''UNSUPPORTED_SYNTAX: unclosed routine parameter list.''"
  using paren_go_Some [of open_at 0 None False "drop open_at txt"]
  by (auto simp: matching_paren_def split: option.split)

lemma py_find_first: "py_find s sub = Some k \<Longrightarrow> i < k \<Longrightarrow> \<not> py_startswith (drop i s) sub"
proof (induction s sub arbitrary: i k rule: py_find.induct)
  case (2 c s sub)
  then show ?case by (cases i) (auto split: if_splits)
qed (auto split: if_splits)

text \<open>
  A dollar-quoted body is the text between an opening tag and the next occurrence of the same
  tag: the source splits into a prefix, the tag, the body, the tag and a rest, the body starts at
  the offset returned, and the tag does not occur in the body followed by its closing tag any earlier.
\<close>

theorem dollar_body_delimited:
  assumes "dollar_body txt from_at = Some (body, body_start)" "from_at \<le> length txt"
  shows "\<exists>tag pre post. txt = pre @ tag @ body @ tag @ post \<and> length (pre @ tag) = body_start \<and> from_at \<le> length pre \<and>
    (\<forall>i < length body. \<not> py_startswith (drop i (body @ tag @ post)) tag)"
proof -
  obtain m k where m: "re_search rx_body_opener (drop from_at txt) = Some m"
    and s: "body_start = from_at + m_start m + length (m_text m)"
    and k: "py_find (drop body_start txt) (m_text m) = Some k" and b: "body = py_slice txt body_start (body_start + k)"
    using assms(1) by (auto simp: dollar_body_def Let_def split: option.splits)
  let ?tag = "m_text m" and ?rest = "drop body_start txt"
  let ?pre = "take (from_at + m_start m) txt"
  have ms: "m_start m \<le> m_end m" "m_end m \<le> length (drop from_at txt)"
    "?tag = py_slice (drop from_at txt) (m_start m) (m_end m)"
    using re_search_Some [OF m] by (auto simp: py_slice_def)
  have len: "length ?tag = m_end m - m_start m" using ms by (simp add: py_slice_def)
  have pre: "length ?pre = from_at + m_start m" using ms assms(2) by simp
  have t: "take (length ?tag) (drop (from_at + m_start m) txt) = ?tag"
    using ms(3) len by (simp add: py_slice_def add.commute)
  have "txt = ?pre @ ?tag @ ?rest"
    by (metis t s drop_drop add.commute append_take_drop_id)
  moreover obtain post where post: "drop k ?rest = ?tag @ post" "k + length ?tag \<le> length ?rest"
    using py_find_Some [OF k] by (auto simp: py_startswith_iff)
  moreover have bk: "body = take k ?rest" by (simp add: b py_slice_def)
  moreover have body: "?rest = body @ drop k ?rest" "length body = k"
    using post(2) unfolding bk by (simp_all only: append_take_drop_id) simp
  moreover have "\<forall>i < k. \<not> py_startswith (drop i ?rest) ?tag" using py_find_first [OF k] by blast
  ultimately show ?thesis using pre s
    by (intro exI [of _ ?tag] exI [of _ ?pre] exI [of _ post]) (auto simp: add.assoc)
qed

theorem dollar_body_delimited_witness:
  "\<exists>tag pre post. ''AS $q$SET;$q$ x'' = pre @ tag @ ''SET;'' @ tag @ post \<and> length (pre @ tag) = 6 \<and> 0 \<le> length pre \<and>
    (\<forall>i < length ''SET;''. \<not> py_startswith (drop i (''SET;'' @ tag @ post)) tag)"
proof -
  have "dollar_body ''AS $q$SET;$q$ x'' 0 = Some (''SET;'', 6)" by code_simp
  from dollar_body_delimited [OF this] show ?thesis by simp
qed

end
