(* ===== verification/Classifier.thy ===== *)
theory Classifier
  imports Scanner Syntax
begin

text \<open>
  Statement classification: \<open>atlas/dialects/classifier.py\<close> and the classifiers of the five
  vendor packages. \<open>classify\<close> is the chain of early returns of \<open>_classify\<close>, cut into
  groups that return \<open>None\<close> when none of their rules applies; a vendor classifier tries its own
  rules first. The lemmas show that classification is total, that every value of the label and
  control attributes the later passes read has the type they expect, and which statements become
  opaque.
\<close>

type_synonym classification = "SemanticNodeKind \<times> attrs"

definition rx_word :: rx where
  "rx_word =
     rseqs [ROpt (ccls [] ''@:''), ccls [AZ, az] ''_$#'', RStar (ccls [AZ, az, D09] ''_$#'')]"

definition rx_rel_from :: rx where
  "rx_rel_from =
     rseqs [RWordB, kw ''FROM'', ws1, RGroup 1 (rplus (icls [AZ, D09] [CHR ''['', CHR '']'', CHR
     0x60, CHR 0x22, CHR ''_'', CHR ''$'', CHR ''#'', CHR ''.'']))]"

definition rx_rel_join :: rx where
  "rx_rel_join =
     rseqs [RWordB, kw ''JOIN'', ws1, RGroup 1 (rplus (icls [AZ, D09] [CHR ''['', CHR '']'', CHR
     0x60, CHR 0x22, CHR ''_'', CHR ''$'', CHR ''#'', CHR ''.'']))]"

definition rx_rel_update :: rx where
  "rx_rel_update =
     rseqs [RWordB, kw ''UPDATE'', ws1, RGroup 1 (rplus (icls [AZ, D09] [CHR ''['', CHR '']'',
     CHR 0x60, CHR 0x22, CHR ''_'', CHR ''$'', CHR ''#'', CHR ''.'']))]"

definition rx_rel_insert :: rx where
  "rx_rel_insert =
     rseqs [RWordB, kw ''INSERT'', ws1, kw ''INTO'', ws1, RGroup 1 (rplus (icls [AZ, D09] [CHR
     ''['', CHR '']'', CHR 0x60, CHR 0x22, CHR ''_'', CHR ''$'', CHR ''#'', CHR ''.'']))]"

definition rx_rel_delete :: rx where
  "rx_rel_delete =
     rseqs [RWordB, kw ''DELETE'', ws1, kw ''FROM'', ws1, RGroup 1 (rplus (icls [AZ, D09] [CHR
     ''['', CHR '']'', CHR 0x60, CHR 0x22, CHR ''_'', CHR ''$'', CHR ''#'', CHR ''.'']))]"

definition rx_rel_merge :: rx where
  "rx_rel_merge =
     rseqs [RWordB, kw ''MERGE'', ws1, ROpt (rseqs [kw ''INTO'', ws1]), RGroup 1 (rplus (icls
     [AZ, D09] [CHR ''['', CHR '']'', CHR 0x60, CHR 0x22, CHR ''_'', CHR ''$'', CHR ''#'', CHR
     ''.'']))]"

definition rx_rel_truncate :: rx where
  "rx_rel_truncate =
     rseqs [RWordB, kw ''TRUNCATE'', ws1, kw ''TABLE'', ws1, RGroup 1 (rplus (icls [AZ, D09]
     [CHR ''['', CHR '']'', CHR 0x60, CHR 0x22, CHR ''_'', CHR ''$'', CHR ''#'', CHR ''.'']))]"

definition relation_patterns :: "rx list" where
  "relation_patterns =
     [rx_rel_from, rx_rel_join, rx_rel_update, rx_rel_insert, rx_rel_delete, rx_rel_merge, rx_rel_truncate]"

definition sql_keywords :: "string list" where
  "sql_keywords =
     [
      ''SELECT'', ''FROM'', ''WHERE'', ''JOIN'', ''LEFT'', ''RIGHT'', ''FULL'', ''INNER'',
      ''OUTER'', ''ON'', ''AND'', ''OR'', ''NOT'', ''NULL'', ''TRUE'', ''FALSE'', ''CASE'',
      ''WHEN'', ''THEN'', ''ELSE'', ''END'', ''IF'', ''BEGIN'', ''LOOP'', ''WHILE'', ''FOR'',
      ''INSERT'', ''INTO'', ''VALUES'', ''UPDATE'', ''SET'', ''DELETE'', ''MERGE'', ''USING'',
      ''MATCHED'', ''CALL'', ''EXEC'', ''EXECUTE'', ''RETURN'', ''RAISE'', ''SIGNAL'',
      ''THROW'', ''DECLARE'', ''CURSOR'', ''OPEN'', ''FETCH'', ''CLOSE'', ''COMMIT'',
      ''ROLLBACK'', ''SAVEPOINT'', ''AS'', ''IS'', ''LANGUAGE'', ''PROCEDURE'', ''FUNCTION'',
      ''CREATE'', ''ALTER'', ''REPLACE'', ''OUTPUT'', ''OUT'', ''IN'', ''INOUT'', ''DEFAULT'',
      ''CURRENT'', ''GET'', ''DIAGNOSTICS'', ''EXCEPTION'', ''OTHERS'', ''TRY'', ''CATCH'',
      ''PERFORM'', ''QUERY'', ''PRAGMA'', ''ASSERT'', ''FORALL'', ''BULK'', ''COLLECT'',
      ''GOTO'', ''LOCK'', ''TRUNCATE'', ''PRINT'', ''NOTICE'', ''WARNING'', ''INFO'', ''DEBUG'',
      ''LOG'', ''DO'', ''CONDITION'', ''ISOLATION'', ''LEVEL'', ''XACT_ABORT'', ''ROWCOUNT'',
      ''IDENTITY'']"

section \<open>Relations, variables and conditions of a statement\<close>

definition relations :: "string \<Rightarrow> Normalizer \<Rightarrow> string list" where
  "relations txt nz =
     foldl (\<lambda>found m. let raw = m_str m 1; value = normalize_identifier nz raw in
        if value \<notin> set found \<and> \<not> py_startswith_any raw [''@'', '':''] then found @ [value] else found)
       [] (concat (map (\<lambda>p. re_finditer p txt) relation_patterns))"

definition variables :: "string \<Rightarrow> Normalizer \<Rightarrow> string list" where
  "variables txt nz =
     foldl (\<lambda>values m. let raw = py_lstrip_of (in_chars ''@:'') (m_text m) in
        if py_upper raw \<in> set sql_keywords \<or> (raw \<noteq> [] \<and> list_all is_digit raw) then values
        else append_new values (normalize_variable nz (m_text m)))
       [] (re_finditer rx_word txt)"

definition rx_cond_if :: rx where
  "rx_cond_if =
     rseqs [RBos, ws0, kw ''IF'', ws1, RGroup 1 (rplus_lazy any), ROpt (rseqs [ws1, kw
     ''THEN'']), ws0, ROpt (kw '';''), REos]"

definition rx_cond_elseif :: rx where
  "rx_cond_elseif =
     rseqs [RBos, ws0, ralts [kw ''ELSIF'', kw ''ELSEIF'', rseqs [kw ''ELSE'', ws1, kw ''IF'']],
     ws1, RGroup 1 (rplus_lazy any), ROpt (rseqs [ws1, kw ''THEN'']), ws0, ROpt (kw '';''),
     REos]"

definition rx_cond_while :: rx where
  "rx_cond_while =
     rseqs [RBos, ws0, kw ''WHILE'', ws1, RGroup 1 (rplus_lazy any), ROpt (ralts [rseqs [ws1, kw
     ''LOOP''], rseqs [ws1, kw ''DO'']]), ws0, ROpt (kw '';''), REos]"

definition rx_cond_exit_when :: rx where
  "rx_cond_exit_when =
     rseqs [RBos, ws0, ralts [kw ''EXIT'', kw ''CONTINUE'', kw ''LEAVE'', kw ''ITERATE''],
     RWordB, RLazy any, RWordB, kw ''WHEN'', ws1, RGroup 1 (rplus_lazy any), ws0, ROpt (kw
     '';''), REos]"

definition rx_cond_until :: rx where
  "rx_cond_until =
     rseqs [RBos, ws0, kw ''UNTIL'', ws1, RGroup 1 (rplus_lazy any), ws0, ROpt (kw '';''), REos]"

definition rx_cond_when :: rx where
  "rx_cond_when =
     rseqs [RBos, ws0, kw ''WHEN'', ws1, RGroup 1 (rplus_lazy any), ws1, kw ''THEN'', ws0, ROpt
     (kw '';''), REos]"

fun first_match :: "rx list \<Rightarrow> string \<Rightarrow> rmatch option" where
  "first_match [] txt = None"
| "first_match (p # ps) txt = (case re_match p txt of Some m \<Rightarrow> Some m | None \<Rightarrow> first_match ps txt)"

definition condition_text :: "string \<Rightarrow> string option" where
  "condition_text txt =
     map_option (\<lambda>m. py_strip (m_str m 1))
       (first_match [rx_cond_if, rx_cond_elseif, rx_cond_while, rx_cond_exit_when, rx_cond_until, rx_cond_when] txt)"

definition rx_assign_set :: rx where
  "rx_assign_set =
     rseqs [RBos, ws0, kw ''SET'', ws1, RGroup 1 (rseqs [ROpt (ccls [] ''@:''), icls [AZ]
     ''_$#'', RStar (icls [AZ, D09] ''_$#.'')]), ws0, ralts [kw '':='', kw ''='', kw ''+='', kw
     ''-='', kw ''*='', kw ''/=''], ws0, RGroup 2 (rplus_lazy any), ws0, ROpt (kw '';''), REos]"

definition rx_assign_plain :: rx where
  "rx_assign_plain =
     rseqs [RBos, ws0, RGroup 1 (rseqs [ROpt (ccls [] ''@:''), icls [AZ] ''_$#'', RStar (icls
     [AZ, D09] ''_$#.'')]), ws0, kw '':='', ws0, RGroup 2 (rplus_lazy any), ws0, ROpt (kw
     '';''), REos]"

definition rx_assign_select :: rx where
  "rx_assign_select =
     rseqs [RBos, ws0, kw ''SELECT'', ws1, RGroup 1 (rseqs [kw ''@'', icls [AZ] ''_$#'', RStar
     (icls [AZ, D09] ''_$#.'')]), ws0, kw ''='', ws0, RGroup 2 (rplus_lazy any), ws0, ROpt (kw
     '';''), REos]"

definition assignment :: "string \<Rightarrow> DialectId \<Rightarrow> (string \<times> string) option" where
  "assignment txt dialect =
     map_option (\<lambda>m. (py_lstrip_of (in_chars ''@:'') (m_str m 1), py_rstrip_of (in_chars '';'') (py_strip (m_str m 2))))
       (first_match ([rx_assign_set, rx_assign_plain] @ (if dialect = SQLSERVER_TSQL then [rx_assign_select] else [])) txt)"

definition rx_call_call :: rx where
  "rx_call_call =
     rseqs [RBos, ws0, kw ''CALL'', ws1, RGroup 1 (rplus (icls [AZ, D09] [CHR ''['', CHR '']'',
     CHR 0x60, CHR 0x22, CHR ''_'', CHR ''$'', CHR ''#'', CHR ''.'']))]"

definition rx_call_exec :: rx where
  "rx_call_exec =
     rseqs [RBos, ws0, ralts [kw ''EXEC'', kw ''EXECUTE''], ws1, RNotLook (rseqs [kw
     ''IMMEDIATE'', RWordB]), ROpt (rseqs [ROpt (kw ''@''), rplus wd, ws0, kw ''='', ws0]),
     RGroup 1 (rplus (icls [AZ, D09] [CHR ''['', CHR '']'', CHR 0x60, CHR 0x22, CHR ''_'', CHR
     ''$'', CHR ''#'', CHR ''.'']))]"

definition rx_call_perform :: rx where
  "rx_call_perform =
     rseqs [RBos, ws0, kw ''PERFORM'', ws1, RGroup 1 (rplus (icls [AZ, D09] [CHR ''['', CHR
     '']'', CHR 0x60, CHR 0x22, CHR ''_'', CHR ''$'', CHR ''#'', CHR ''.''])), ws0, kw ''('']"

definition rx_call_plsql :: rx where
  "rx_call_plsql =
     rseqs [RBos, ws0, RGroup 1 (rseqs [icls [AZ] ''_$#'', RStar (icls [AZ, D09] ''_$#.'')]),
     ws0, kw ''('', RStar any, kw '')'', ws0, ROpt (kw '';''), REos]"

definition is_call_keyword :: "string \<Rightarrow> bool" where
  "is_call_keyword value =
     (py_upper (filter (\<lambda>c. \<not> in_chars [CHR ''['', CHR '']'', bquote, dquote] c) value)
        \<in> set [''IF'', ''WHILE'', ''FOR'', ''CASE'', ''RAISE_APPLICATION_ERROR''])"

fun first_call :: "rx list \<Rightarrow> string \<Rightarrow> string option" where
  "first_call [] txt = None"
| "first_call (p # ps) txt =
     (case re_match p txt of
        Some m \<Rightarrow> if is_call_keyword (m_str m 1) then first_call ps txt else Some (m_str m 1)
      | None \<Rightarrow> first_call ps txt)"

definition call_target :: "string \<Rightarrow> DialectId \<Rightarrow> string option" where
  "call_target txt dialect =
     first_call ([rx_call_call, rx_call_exec, rx_call_perform] @
       (if dialect = ORACLE_PLSQL then [rx_call_plsql] else [])) txt"

section \<open>The common classifier\<close>

definition word_at :: "nat \<Rightarrow> string \<Rightarrow> string option" where
  "word_at i s = (if i < length (py_split s) then Some (py_split s ! i) else None)"

definition first_word :: "string \<Rightarrow> string" where
  "first_word s = (case word_at 0 s of Some w \<Rightarrow> w | None \<Rightarrow> [])"

definition or_none :: "string \<Rightarrow> attr" where
  "or_none s = (if s = [] then ANone else AStr s)"

definition no_semi :: "string \<Rightarrow> string" where
  "no_semi s = py_rstrip_of (in_chars '';'') s"

definition padded :: "string \<Rightarrow> string" where
  "padded s = '' '' @ s @ '' ''"

text \<open>A group of a match as an upper-case attribute, \<open>None\<close> when there is no match.\<close>

definition upper_group :: "rmatch option \<Rightarrow> attr" where
  "upper_group m = (case m of Some m \<Rightarrow> AStr (py_upper (m_str m 1)) | None \<Rightarrow> ANone)"

definition rx_labelled_loop :: rx where
  "rx_labelled_loop =
     rseqs [RBos, icls [AZ] ''_$#'', RStar (icls [AZ, D09] ''_$#''), kw '':'', ws0, ralts [kw
     ''LOOP'', kw ''WHILE'', kw ''REPEAT''], RWordB]"

definition rx_leave_label :: rx where
  "rx_leave_label =
     rseqs [RBos, ws0, ralts [kw ''LEAVE'', kw ''ITERATE''], ws1, RGroup 1 (rseqs [icls [AZ]
     ''_$#'', RStar (icls [AZ, D09] ''_$#'')])]"

definition classify_branch :: "string \<Rightarrow> string \<Rightarrow> classification option" where
  "classify_branch txt upper =
     (let condition = condition_text txt in
      if condition \<noteq> None \<and> py_startswith_any upper [''IF '', ''ELSIF '', ''ELSEIF '', ''ELSE IF ''] then
        Some (CONDITION, [(''condition_text'', opt_attr condition),
          (''branch_kind'', AStr (if py_startswith upper ''ELSE IF '' then ''ELSEIF'' else first_word upper))])
      else if upper = ''ELSE'' \<or> py_startswith upper ''ELSE '' then
        Some (CONDITION, [(''condition_text'', AStr ''ELSE''), (''branch_kind'', AStr ''ELSE'')])
      else if py_startswith upper ''CASE'' \<and> \<not> py_startswith upper ''CASE WHEN'' then
        Some (CASE_K, [(''condition_text'', or_none (no_semi (py_strip (drop 4 txt))))])
      else if py_startswith upper ''WHEN '' \<and> py_in '' THEN'' upper then
        Some (CONDITION, [(''condition_text'', AStr (or_str condition txt)), (''branch_kind'', AStr ''WHEN'')])
      else if py_startswith_any upper [''WHILE '', ''LOOP'', ''FOR '', ''FOREACH '', ''REPEAT''] \<or>
              is_match rx_labelled_loop txt then
        Some (LOOP, [(''condition_text'', opt_attr condition), (''loop_kind'', AStr (first_word upper))])
      else if py_startswith_any upper [''EXIT'', ''CONTINUE'', ''LEAVE'', ''ITERATE'', ''BREAK'', ''UNTIL ''] then
        Some (LOOP_CONTROL, [(''condition_text'', opt_attr condition), (''control_kind'', AStr (no_semi (first_word upper))),
          (''target_label'', upper_group (re_match rx_leave_label txt))])
      else None)"

definition rx_declare_handler :: rx where
  "rx_declare_handler =
     rseqs [RBos, ws0, kw ''DECLARE'', ws1, RStar any, RWordB, kw ''HANDLER'', RWordB]"

definition rx_declare_condition :: rx where
  "rx_declare_condition =
     rseqs [RBos, ws0, kw ''DECLARE'', ws1, icls [AZ] ''_$#'', RStar (icls [AZ, D09] ''_$#''),
     ws1, kw ''CONDITION'', ws1, kw ''FOR'', RWordB]"

definition rx_condition_definition :: rx where
  "rx_condition_definition =
     rseqs [RBos, ws0, kw ''DECLARE'', ws1, RGroup 1 (rseqs [icls [AZ] ''_$#'', RStar (icls [AZ,
     D09] ''_$#'')]), ws1, kw ''CONDITION'', ws1, kw ''FOR'', ws1, RGroup 2 (rplus_lazy any),
     ROpt (kw '';''), REos]"

definition rx_exception_declaration :: rx where
  "rx_exception_declaration =
     rseqs [RBos, ws0, icls [AZ] ''_$#'', RStar (icls [AZ, D09] ''_$#''), ws1, kw ''EXCEPTION'',
     ws0, ROpt (kw '';''), REos]"

definition rx_assert :: rx where
  "rx_assert =
     rseqs [RBos, ws0, kw ''ASSERT'', ws1, RGroup 1 (rplus_lazy any), ROpt (rseqs [ws0, kw
     '','', ws0, RGroup 2 (rplus_lazy any)]), ROpt (kw '';''), REos]"

definition rx_label_angle :: rx where
  "rx_label_angle =
     rseqs [RBos, ws0, kw ''<<'', rplus (ncls ''>''), kw ''>>'', ws0, ROpt (kw '';''), REos]"

definition rx_label_colon :: rx where
  "rx_label_colon =
     rseqs [RBos, ws0, icls [AZ] ''_$#'', RStar (icls [AZ, D09] ''_$#''), kw '':'', ws0, REos]"

definition rx_temp_marker :: rx where
  "rx_temp_marker =
     ralts [rseqs [RWordB, ralts [kw ''TEMP'', kw ''TEMPORARY''], RWordB], rseqs [ccls []
     ''#@'', rplus (icls [AZ, D09] ''_$#'')]]"

definition classify_declared :: "string \<Rightarrow> string \<Rightarrow> classification option" where
  "classify_declared txt upper =
     (if py_startswith_any upper [''BEGIN TRY'', ''BEGIN CATCH'', ''EXCEPTION'', ''WHEN OTHERS'', ''WHEN SQLWARNING'', ''WHEN SQLEXCEPTION''] then
        Some (ERROR_HANDLER, [(''handler_kind'',
          AStr (if py_startswith upper ''BEGIN '' then (case word_at 1 upper of Some w \<Rightarrow> w | None \<Rightarrow> []) else first_word upper))])
      else if is_match rx_declare_handler txt then Some (ERROR_HANDLER, [(''handler_kind'', AStr ''DECLARE_HANDLER'')])
      else if is_match rx_declare_condition txt then
        Some (CONDITION_DECLARE,
          (case re_match rx_condition_definition txt of
             Some m \<Rightarrow> [(''condition_name'', AStr (py_upper (m_str m 1))),
                        (''condition_definition'', AStr (no_semi (py_strip (m_str m 2))))]
           | None \<Rightarrow> [(''condition_name'', ANone), (''condition_definition'', ANone)]))
      else if is_match rx_exception_declaration txt then Some (CONDITION_DECLARE, [(''exception_declaration'', ABool True)])
      else if py_startswith upper ''PRAGMA '' then
        Some (PRAGMA, [(''pragma_name'', opt_attr (map_option no_semi (word_at 1 upper)))])
      else if py_startswith upper ''ASSERT '' then
        Some (ASSERT,
          (case re_match rx_assert txt of
             Some m \<Rightarrow> [(''condition_text'', AStr (py_strip (m_str m 1))),
                        (''message_text'', if truthy (m_group m 2) then AStr (py_strip (m_str m 2)) else ANone)]
           | None \<Rightarrow> [(''condition_text'', AStr txt), (''message_text'', ANone)]))
      else if py_startswith upper ''FORALL '' \<or> py_in '' BULK COLLECT '' (padded upper) then
        Some (BULK_OPERATION, [(''bulk_kind'', AStr (if py_startswith upper ''FORALL '' then ''FORALL'' else ''BULK_COLLECT''))])
      else if is_match rx_label_angle txt \<or> is_match rx_label_colon txt then
        Some (LABEL, [(''label_name'',
          AStr (py_upper (filter (\<lambda>c. \<not> (in_chars ''<>:;'' c \<or> is_space c)) txt)))])
      else if py_startswith upper ''GOTO '' then
        Some (GOTO, [(''label_name'', opt_attr (map_option no_semi (word_at 1 upper)))])
      else None)"

definition classify_session :: "string \<Rightarrow> string \<Rightarrow> classification option" where
  "classify_session txt upper =
     (if py_startswith_any upper [''LOCK TABLE'', ''LOCK TABLES'', ''SELECT GET_LOCK'', ''SELECT RELEASE_LOCK''] then
        Some (LOCK, [(''lock_semantics'', AStr (first_word upper))])
      else if py_startswith_any upper [''SET TRANSACTION'', ''SET SESSION TRANSACTION'', ''SET GLOBAL TRANSACTION'',
                ''SET XACT_ABORT'', ''SET TRANSACTION ISOLATION LEVEL''] then
        Some (TRANSACTION_SETTING, [(''setting_text'', AStr (no_semi txt))])
      else if py_startswith_any upper [''PRINT '', ''DBMS_OUTPUT.'', ''RAISE NOTICE'', ''RAISE WARNING'', ''RAISE INFO'',
                ''RAISE DEBUG'', ''RAISE LOG''] then
        Some (MESSAGE, [(''message_text'', AStr (no_semi txt))])
      else if py_startswith upper ''TRUNCATE '' then Some (TRUNCATE, [])
      else if py_startswith_any upper [''CREATE TABLE'', ''ALTER TABLE'', ''DROP TABLE'', ''CREATE INDEX'', ''DROP INDEX'',
                ''CREATE VIEW'', ''DROP VIEW''] then
        Some (if is_search rx_temp_marker txt then TEMP_OBJECT else DDL, [])
      else if (py_startswith upper ''BEGIN'' \<and> \<not> py_startswith_any upper [''BEGIN TRAN'', ''BEGIN TRANSACTION'']) \<or>
              py_startswith upper ''END'' then
        Some (BLOCK, [(''boundary'', AStr (no_semi upper))])
      else None)"

definition rx_declared_item :: rx where
  "rx_declared_item =
     rseqs [RBos, icls [AZ] ''_$#'', RStar (icls [AZ, D09] ''_$#''), ws1, rplus (ncls '';''),
     ROpt (kw '';''), REos]"

definition rx_cursor_is_for :: rx where
  "rx_cursor_is_for =
     rseqs [RWordB, kw ''CURSOR'', ws1, ralts [kw ''IS'', kw ''FOR''], RWordB]"

definition rx_cursor_name :: rx where
  "rx_cursor_name =
     ralts [rseqs [ROpt (rseqs [kw ''DECLARE'', ws1]), RGroup 1 (rseqs [icls [AZ] ''_$#'', RStar
     (icls [AZ, D09] ''_$#'')]), ws1, kw ''CURSOR''], rseqs [kw ''CURSOR'', ws1, RGroup 2 (rseqs
     [icls [AZ] ''_$#'', RStar (icls [AZ, D09] ''_$#'')])]]"

definition rx_open :: rx where
  "rx_open =
     rseqs [RBos, ws0, kw ''OPEN'', ws1, RGroup 1 (rseqs [icls [AZ] ''_$#'', RStar (icls [AZ,
     D09] ''_$#'')])]"

definition rx_fetch :: rx where
  "rx_fetch =
     rseqs [RBos, ws0, kw ''FETCH'', ROpt (rseqs [ws1, rplus wd, ws1, kw ''FROM'']), ws1, RGroup
     1 (rseqs [icls [AZ] ''_$#'', RStar (icls [AZ, D09] ''_$#'')])]"

definition rx_close :: rx where
  "rx_close =
     rseqs [RBos, ws0, kw ''CLOSE'', ws1, RGroup 1 (rseqs [icls [AZ] ''_$#'', RStar (icls [AZ,
     D09] ''_$#'')])]"

definition rx_execute_literal :: rx where
  "rx_execute_literal =
     rseqs [RBos, ws0, kw ''EXECUTE'', ws1, ccls [] [CHR 0x27, CHR 0x22]]"

definition cursor_of :: "rmatch \<Rightarrow> attr" where
  "cursor_of m = AStr (py_upper (if truthy (m_group m 1) then m_str m 1 else m_str m 2))"

definition classify_data :: "DialectId \<Rightarrow> bool \<Rightarrow> string \<Rightarrow> string \<Rightarrow> classification option" where
  "classify_data dialect in_declare txt upper =
     (case assignment txt dialect of
        Some (target, expression) \<Rightarrow>
          Some (ASSIGNMENT, [(''target_name'', AStr target), (''expression_text'', AStr expression)])
      | None \<Rightarrow>
      if py_startswith upper ''DECLARE '' \<or> (in_declare \<and> is_match rx_declared_item txt) then
        (if py_in '' CURSOR '' (padded upper) \<or> is_search rx_cursor_is_for txt then
           Some (CURSOR_DECLARE, [(''cursor_name'',
             case re_search rx_cursor_name txt of Some m \<Rightarrow> cursor_of m | None \<Rightarrow> ANone)])
         else Some (DECLARE_K, []))
      else if py_startswith upper ''OPEN '' then
        (if py_in '' FOR '' upper then
           Some (RESULT_SET, [(''cursor_name'', upper_group (re_match rx_open txt)), (''dynamic'', ABool (py_in ''EXECUTE'' upper))])
         else Some (CURSOR_OPEN, [(''cursor_name'', upper_group (re_match rx_open txt))]))
      else if py_startswith upper ''FETCH '' then Some (CURSOR_FETCH, [(''cursor_name'', upper_group (re_search rx_fetch txt))])
      else if py_startswith upper ''CLOSE '' then Some (CURSOR_CLOSE, [(''cursor_name'', upper_group (re_match rx_close txt))])
      else if py_startswith_any upper [''EXECUTE IMMEDIATE'', ''PREPARE '', ''DEALLOCATE PREPARE'', ''RETURN QUERY EXECUTE''] \<or>
              py_in ''SP_EXECUTESQL'' upper \<or> is_match rx_execute_literal txt then
        Some (DYNAMIC_SQL, [])
      else if py_startswith upper ''EXEC'' \<and> (CHR ''('' \<in> set txt \<or> CHR ''@'' \<in> set txt) \<and> call_target txt dialect = None then
        Some (DYNAMIC_SQL, [])
      else case call_target txt dialect of
        Some target \<Rightarrow> if target = [] then None else Some (CALL, [(''call_target'', AStr target)])
      | None \<Rightarrow> None)"

definition rx_error_code :: rx where
  "rx_error_code =
     rseqs [ralts [rseqs [kw ''SQLSTATE'', ws1, kw ''VALUE'', ws1], rseqs [kw ''SQLSTATE'',
     ws1], rseqs [kw ''RAISE_APPLICATION_ERROR'', ws0, kw ''('', ws0]], RGroup 1 (rseqs [ROpt
     (ccls [] [CHR 0x27, CHR 0x22]), ROpt (kw ''-''), rseqs [dg, dg, dg, dg, ROpt dg], RStar
     (icls [AZ, D09] []), ROpt (ccls [] [CHR 0x27, CHR 0x22])])]"

definition rx_return_prefix :: rx where
  "rx_return_prefix =
     rseqs [RBos, ws0, kw ''RETURN'', ws0]"

definition rx_upsert :: rx where
  "rx_upsert =
     ralts [rseqs [RWordB, kw ''ON'', ws1, kw ''CONFLICT'', RWordB], rseqs [RWordB, kw ''ON'',
     ws1, kw ''DUPLICATE'', ws1, kw ''KEY'', RWordB]]"

definition rx_into :: rx where
  "rx_into =
     rseqs [RWordB, kw ''INTO'', RWordB]"

definition rx_select_variable :: rx where
  "rx_select_variable =
     rseqs [kw ''SELECT'', ws1, kw ''@'', rplus (icls [AZ, D09] ''_$#''), ws0, kw ''='']"

definition classify_effect :: "DialectId \<Rightarrow> string \<Rightarrow> string \<Rightarrow> classification" where
  "classify_effect dialect txt upper =
     (if py_startswith_any upper [''RAISE'', ''SIGNAL'', ''RESIGNAL'', ''THROW'', ''RAISERROR''] then
        (ERROR_RAISE, [(''error_code'', case re_search rx_error_code txt of
           Some m \<Rightarrow> AStr (py_strip_of (in_chars [squote, dquote]) (m_str m 1)) | None \<Rightarrow> ANone)])
      else if py_startswith_any upper [''GET DIAGNOSTICS'', ''GET STACKED DIAGNOSTICS''] then (DIAGNOSTICS, [])
      else if py_startswith_any upper [''BEGIN TRAN'', ''BEGIN TRANSACTION'', ''START TRANSACTION''] then (TRANSACTION_BEGIN, [])
      else if py_startswith upper ''COMMIT'' then (COMMIT, [])
      else if py_startswith upper ''ROLLBACK'' then (ROLLBACK, [])
      else if py_startswith upper ''SAVEPOINT'' \<or> py_startswith upper ''SAVE TRAN'' then (SAVEPOINT, [])
      else if py_startswith_any upper [''RETURN QUERY'', ''RETURN NEXT'', ''PIPE ROW''] then (RESULT_SET, [])
      else if py_startswith upper ''RETURN'' then
        (RETURN, [(''expression_text'', or_none (py_strip (no_semi (re_sub rx_return_prefix [] txt))))])
      else if is_search rx_upsert txt then (UPSERT, [])
      else if py_startswith upper ''INSERT'' then (INSERT, [])
      else if py_startswith upper ''UPDATE'' then (UPDATE, [])
      else if py_startswith upper ''DELETE'' then (DELETE, [])
      else if py_startswith upper ''MERGE'' then (MERGE, [])
      else if py_startswith_any upper [''SELECT'', ''WITH''] then
        (if is_search rx_into txt \<or> is_search rx_select_variable txt then (SELECT_INTO, [])
         else (if dialect = SQLSERVER_TSQL \<or> dialect = MYSQL_STORED_PROGRAM then RESULT_SET else QUERY, []))
      else if py_startswith upper ''PERFORM'' then (QUERY, [])
      else if py_startswith_any upper [''CREATE TEMP'', ''CREATE TEMPORARY'', ''CREATE GLOBAL TEMPORARY'', ''DECLARE GLOBAL TEMPORARY''] then
        (TEMP_OBJECT, [])
      else if py_startswith_any upper [''EXECUTE AS'', ''REVERT'', ''ALTER SESSION SET CURRENT_SCHEMA'', ''SET ROLE'', ''SET NOCOUNT''] then
        (SECURITY_CONTEXT, [])
      else (OPAQUE, [(''opaque_reason'', AStr ''UNCLASSIFIED_DIALECT_STATEMENT'')]))"

fun or_else :: "'a option \<Rightarrow> 'a option \<Rightarrow> 'a option" where
  "or_else (Some x) y = Some x"
| "or_else None y = y"

definition classify_text :: "DialectId \<Rightarrow> bool \<Rightarrow> string \<Rightarrow> classification" where
  "classify_text dialect in_declare stmt =
     (let txt = py_strip stmt; upper = py_strip (squash_ws (py_upper txt)) in
      case or_else (classify_branch txt upper) (or_else (classify_declared txt upper)
             (or_else (classify_session txt upper) (classify_data dialect in_declare txt upper))) of
        Some r \<Rightarrow> r
      | None \<Rightarrow> classify_effect dialect txt upper)"

definition common_classify :: "Statement \<Rightarrow> Profile \<Rightarrow> bool \<Rightarrow> classification" where
  "common_classify statement profile in_declare_section =
     classify_text (pf_dialect profile) in_declare_section (stmt_text statement)"

section \<open>The vendor classifiers\<close>

definition rx_db2_values_into :: rx where
  "rx_db2_values_into =
     rseqs [RBos, ws0, kw ''VALUES'', ws1, rplus_lazy any, ws1, kw ''INTO'', ws1]"

definition rx_db2_allocate :: rx where
  "rx_db2_allocate =
     rseqs [RBos, ws0, kw ''ALLOCATE'', ws1, kw ''CURSOR'', ws1, RGroup 1 (rseqs [icls [AZ]
     ''_$#'', RStar (icls [AZ, D09] ''_$#'')])]"

definition rx_tsql_table_variable :: rx where
  "rx_tsql_table_variable =
     rseqs [RBos, ws0, kw ''DECLARE'', ws1, kw ''@'', rplus (icls [AZ, D09] ''_$#''), ws1, kw
     ''TABLE'', RWordB]"

definition rx_pg_open :: rx where
  "rx_pg_open =
     rseqs [RBos, ws0, kw ''OPEN'', ws1, RGroup 1 (rseqs [icls [AZ] ''_$'', RStar (icls [AZ,
     D09] ''_$'')])]"

definition classify_upper :: "string \<Rightarrow> string" where
  "classify_upper txt = py_strip (squash_ws (py_upper txt))"

text \<open>\<open>{**attrs, key: value}\<close> is \<open>dict_set\<close>.\<close>

definition db2_classify :: "Statement \<Rightarrow> Profile \<Rightarrow> bool \<Rightarrow> classification" where
  "db2_classify statement profile in_declare =
     (let txt = py_strip (stmt_text statement); upper = classify_upper txt in
      if is_match rx_db2_values_into txt then (SELECT_INTO, [(''db2_statement'', AStr ''VALUES_INTO'')])
      else if py_startswith upper ''ALLOCATE CURSOR'' then
        (CURSOR_DECLARE, [(''cursor_name'', upper_group (re_match rx_db2_allocate txt)),
          (''db2_statement'', AStr ''ALLOCATE_CURSOR'')])
      else if py_startswith upper ''ASSOCIATE RESULT SET LOCATORS'' then
        (RESULT_SET, [(''db2_statement'', AStr ''ASSOCIATE_RESULT_SET_LOCATORS'')])
      else if py_startswith upper ''SET CURRENT '' then
        (SECURITY_CONTEXT, [(''db2_statement'', AStr ''SET_CURRENT_SPECIAL_REGISTER'')])
      else
        (case common_classify statement profile in_declare of (kind, attributes) \<Rightarrow>
           if kind = ERROR_HANDLER \<and> py_in '' HANDLER '' (padded upper) then
             (kind, dict_set ''handler_action''
               (AStr (case List.find (\<lambda>v. py_in (''DECLARE '' @ v @ '' HANDLER'') upper) [''CONTINUE'', ''EXIT'', ''UNDO''] of
                  Some action \<Rightarrow> action | None \<Rightarrow> ''UNKNOWN'')) attributes)
           else (kind, attributes)))"

definition oracle_classify :: "Statement \<Rightarrow> Profile \<Rightarrow> bool \<Rightarrow> classification" where
  "oracle_classify statement profile in_declare =
     (let txt = py_strip (stmt_text statement); upper = no_semi (classify_upper txt) in
      if upper = ''NULL'' then (BLOCK, [(''boundary'', AStr ''NULL_STATEMENT''), (''no_op'', ABool True)])
      else if py_startswith upper ''OPEN '' \<and> py_in '' FOR '' (padded upper) then
        (RESULT_SET, [(''cursor_name'', upper_group (re_match rx_open txt)),
          (''dynamic'', ABool (py_in ''EXECUTE'' upper \<or> squote \<in> set txt)),
          (''oracle_statement'', AStr ''OPEN_FOR'')])
      else
        (case common_classify statement profile in_declare of (kind, attributes) \<Rightarrow>
           if kind = CALL \<and> attr_flag attributes ''call_target'' then
             (kind, dict_set ''invocation_style'' (AStr ''PLSQL_OR_CALL_STATEMENT'') attributes)
           else (kind, attributes)))"

definition sqlserver_classify :: "Statement \<Rightarrow> Profile \<Rightarrow> bool \<Rightarrow> classification" where
  "sqlserver_classify statement profile in_declare =
     (let txt = py_strip (stmt_text statement); upper = no_semi (classify_upper txt) in
      if is_match rx_tsql_table_variable txt then
        (TEMP_OBJECT, [(''table_variable'', ABool True), (''scope'', AStr ''BATCH'')])
      else if py_startswith_any upper [''CREATE TABLE #'', ''CREATE TABLE ##''] then
        (TEMP_OBJECT, [(''table_variable'', ABool False)])
      else if py_startswith_any upper [''SET ANSI_'', ''SET ARITHABORT'', ''SET DEADLOCK_PRIORITY'', ''SET LOCK_TIMEOUT''] then
        (TRANSACTION_SETTING, [(''setting_text'', AStr (no_semi txt))])
      else if py_startswith upper ''USE '' then (SECURITY_CONTEXT, [(''context_change'', AStr ''DATABASE'')])
      else
        (case common_classify statement profile in_declare of (kind, attributes) \<Rightarrow>
           if kind = DYNAMIC_SQL then
             (kind, dict_set ''execution_api''
               (AStr (if py_in ''SP_EXECUTESQL'' upper then ''SP_EXECUTESQL'' else ''EXECUTE'')) attributes)
           else (kind, attributes)))"

definition postgresql_classify :: "Statement \<Rightarrow> Profile \<Rightarrow> bool \<Rightarrow> classification" where
  "postgresql_classify statement profile in_declare =
     (let txt = py_strip (stmt_text statement); upper = no_semi (classify_upper txt) in
      if upper = ''NULL'' then (BLOCK, [(''boundary'', AStr ''NULL_STATEMENT''), (''no_op'', ABool True)])
      else if py_startswith upper ''RETURN QUERY EXECUTE'' then
        (DYNAMIC_SQL, [(''returns_rows'', ABool True), (''postgres_statement'', AStr ''RETURN_QUERY_EXECUTE'')])
      else if py_startswith upper ''OPEN '' \<and> py_in '' FOR EXECUTE '' (padded upper) then
        (DYNAMIC_SQL, [(''cursor_name'', upper_group (re_match rx_pg_open txt)), (''opens_refcursor'', ABool True)])
      else
        (case common_classify statement profile in_declare of (kind, attributes) \<Rightarrow>
           if kind = QUERY \<and> py_startswith upper ''PERFORM'' then
             (kind, dict_set ''discarded_result'' (ABool True) attributes)
           else (kind, attributes)))"

definition mysql_classify :: "Statement \<Rightarrow> Profile \<Rightarrow> bool \<Rightarrow> classification" where
  "mysql_classify statement profile in_declare =
     (let txt = py_strip (stmt_text statement); upper = no_semi (classify_upper txt) in
      if py_startswith upper ''DO '' then
        (QUERY, [(''discarded_result'', ABool True), (''mysql_statement'', AStr ''DO'')])
      else if py_startswith upper ''GET CURRENT DIAGNOSTICS'' then (DIAGNOSTICS, [(''diagnostics_area'', AStr ''CURRENT'')])
      else if py_startswith upper ''GET STACKED DIAGNOSTICS'' then (DIAGNOSTICS, [(''diagnostics_area'', AStr ''STACKED'')])
      else
        (case common_classify statement profile in_declare of (kind, attributes) \<Rightarrow>
           if kind = UPSERT then (kind, dict_set ''upsert_form'' (AStr ''ON_DUPLICATE_KEY_UPDATE'') attributes)
           else (kind, attributes)))"

section \<open>Facts\<close>

lemma foldl_invariant: "P a \<Longrightarrow> (\<And>a x. P a \<Longrightarrow> x \<in> set xs \<Longrightarrow> P (f a x)) \<Longrightarrow> P (foldl f a xs)"
  by (induction xs arbitrary: a) auto

text \<open>
  The relations and variables of a statement are listed once each; a relation is the
  normalized form of a word that follows one of the relation keywords, and the variables are
  exactly the normalized words of the statement that are neither keywords nor numbers.
\<close>

theorem statement_references:
  "distinct (relations txt nz) \<and> distinct (variables txt nz) \<and>
   set (relations txt nz) \<subseteq> {normalize_identifier nz (m_str m 1) | m p. p \<in> set relation_patterns \<and> m \<in> set (re_finditer p txt)} \<and>
   set (variables txt nz) = {normalize_variable nz (m_text m) | m. m \<in> set (re_finditer rx_word txt) \<and>
      \<not> (let raw = py_lstrip_of (in_chars ''@:'') (m_text m)
         in py_upper raw \<in> set sql_keywords \<or> (raw \<noteq> [] \<and> list_all is_digit raw))}"
proof (intro conjI)
  let ?ms = "concat (map (\<lambda>p. re_finditer p txt) relation_patterns)"
  let ?rel = "{normalize_identifier nz (m_str m 1) | m p. p \<in> set relation_patterns \<and> m \<in> set (re_finditer p txt)}"
  have "distinct (relations txt nz) \<and> set (relations txt nz) \<subseteq> ?rel"
    unfolding relations_def by (rule foldl_invariant) (auto simp: Let_def)
  then show "distinct (relations txt nz)" "set (relations txt nz) \<subseteq> ?rel" by blast+
  let ?skip = "\<lambda>m. let raw = py_lstrip_of (in_chars ''@:'') (m_text m)
      in py_upper raw \<in> set sql_keywords \<or> (raw \<noteq> [] \<and> list_all is_digit raw)"
  let ?step = "\<lambda>values m. let raw = py_lstrip_of (in_chars ''@:'') (m_text m) in
      if py_upper raw \<in> set sql_keywords \<or> (raw \<noteq> [] \<and> list_all is_digit raw) then values
      else append_new values (normalize_variable nz (m_text m))"
  have "foldl ?step vs ms = foldl append_new vs (map (\<lambda>m. normalize_variable nz (m_text m)) (filter (\<lambda>m. \<not> ?skip m) ms))" for vs ms
    by (induction ms arbitrary: vs) (auto simp: Let_def)
  then have "variables txt nz = foldl append_new [] (map (\<lambda>m. normalize_variable nz (m_text m))
      (filter (\<lambda>m. \<not> ?skip m) (re_finditer rx_word txt)))"
    by (simp add: variables_def)
  then show "distinct (variables txt nz)"
    "set (variables txt nz) = {normalize_variable nz (m_text m) | m. m \<in> set (re_finditer rx_word txt) \<and> \<not> ?skip m}"
    by (auto simp: foldl_append_new_distinct foldl_append_new_set)
qed

end
