(* ===== verification/Vendors.thy ===== *)
theory Vendors
  imports Classifier
begin

text \<open>
  The profiles of the five vendor packages, \<open>atlas/dialects/<vendor>/profile.py\<close>: header,
  function, trigger and package patterns, parameter parsers and the extraction of routine
  attributes from the header window.
\<close>

text \<open>\<open>next((v for v in values if v in header), default)\<close>.\<close>

definition first_in :: "string list \<Rightarrow> string \<Rightarrow> string \<Rightarrow> string" where
  "first_in values header dflt = (case List.find (\<lambda>v. py_in v header) values of Some v \<Rightarrow> v | None \<Rightarrow> dflt)"

definition group_or :: "rx \<Rightarrow> string \<Rightarrow> string \<Rightarrow> string" where
  "group_or r header dflt = (case re_search r header of Some m \<Rightarrow> m_str m 1 | None \<Rightarrow> dflt)"

definition data_access_values :: "string list" where
  "data_access_values = [''NO SQL'', ''CONTAINS SQL'', ''READS SQL DATA'', ''MODIFIES SQL DATA'']"

section \<open>Db2\<close>

definition rx_sql_security :: rx where
  "rx_sql_security =
     rseqs [RWordB, lit ''SQL'', ws1, lit ''SECURITY'', ws1, RGroup 1 (ralts [lit ''DEFINER'',
     lit ''INVOKER'']), RWordB]"

definition rx_dynamic_sets :: rx where
  "rx_dynamic_sets =
     rseqs [RWordB, lit ''DYNAMIC'', ws1, lit ''RESULT'', ws1, lit ''SETS'', ws1, RGroup 1
     (rplus dg), RWordB]"

definition rx_parameter_style :: rx where
  "rx_parameter_style =
     rseqs [RWordB, lit ''PARAMETER'', ws1, lit ''STYLE'', ws1, RGroup 1 (rplus (ccls [AZ, D09]
     ''_''))]"

definition db2_parse_parameters :: "string \<Rightarrow> string option \<Rightarrow> adapter_error + RoutineParameter list" where
  "db2_parse_parameters raw return_type = parse_standard_parameters raw return_type"

definition db2_routine_attributes :: "string \<Rightarrow> rmatch \<Rightarrow> RoutineKind \<Rightarrow> attrs" where
  "db2_routine_attributes txt m kind =
     (let header = normalized_header_window txt m 1800 in
      dict_update (routine_kind_attributes kind)
        [(''security_mode'', AStr (group_or rx_sql_security header ''DATABASE_DEFAULT'')),
         (''deterministic'', ABool (py_in '' DETERMINISTIC'' header \<and> \<not> py_in ''NOT DETERMINISTIC'' header)),
         (''external_action'', ABool (py_in ''EXTERNAL ACTION'' header \<and> \<not> py_in ''NO EXTERNAL ACTION'' header)),
         (''data_access'', AStr (first_in data_access_values header ''DATABASE_DEFAULT'')),
         (''called_on_null_input'', ABool (py_in ''CALLED ON NULL INPUT'' header)),
         (''commit_on_return'', ABool (py_in ''COMMIT ON RETURN YES'' header)),
         (''dynamic_result_sets'', AInt (case re_search rx_dynamic_sets header of
            Some d \<Rightarrow> int (dec_value (m_str d 1)) | None \<Rightarrow> 0)),
         (''language'', AStr (if py_in ''LANGUAGE SQL'' header then ''SQL'' else ''SQL_DEFAULT'')),
         (''parameter_style'', AStr (group_or rx_parameter_style header ''SQL_DEFAULT''))])"

definition rx_db2_header :: rx where
  "rx_db2_header =
     rseqs [kw ''CREATE'', ws1, ROpt (rseqs [kw ''OR'', ws1, kw ''REPLACE'', ws1]), kw
     ''PROCEDURE'', ws1, RGroup 1 (rseqs [ralts [rseqs [kw [CHR 0x22], rplus (ncls [CHR 0x22]),
     kw [CHR 0x22]], rplus (icls [AZ, D09] ''_$#'')], ROpt (rseqs [kw ''.'', ralts [rseqs [kw
     [CHR 0x22], rplus (ncls [CHR 0x22]), kw [CHR 0x22]], rplus (icls [AZ, D09] ''_$#'')]])]),
     ws0, kw ''('', RGroup 2 (RLazy any), kw '')'', RLazy any, RLook (rseqs [ROpt (rseqs [icls
     [AZ] ''_$#'', RStar (icls [AZ, D09] ''_$#''), ws0, kw '':'', ws0]), RWordB, kw ''BEGIN'',
     ROpt (rseqs [ws1, ralts [kw ''ATOMIC'', rseqs [kw ''NOT'', ws1, kw ''ATOMIC'']]]),
     RWordB])]"

definition rx_db2_function :: rx where
  "rx_db2_function =
     rseqs [kw ''CREATE'', ws1, ROpt (rseqs [kw ''OR'', ws1, kw ''REPLACE'', ws1]), kw
     ''FUNCTION'', ws1, RGroup 1 (rseqs [ralts [rseqs [kw [CHR 0x22], rplus (ncls [CHR 0x22]),
     kw [CHR 0x22]], rplus (icls [AZ, D09] ''_$#'')], ROpt (rseqs [kw ''.'', ralts [rseqs [kw
     [CHR 0x22], rplus (ncls [CHR 0x22]), kw [CHR 0x22]], rplus (icls [AZ, D09] ''_$#'')]])]),
     ws0, kw ''('', RGroup 2 (RLazy any), kw '')'', RLazy any, kw ''RETURNS'', ws1, RGroup 3
     (rplus_lazy any), RLook (rseqs [ws1, ralts [kw ''LANGUAGE'', kw ''SPECIFIC'', kw
     ''DETERMINISTIC'', rseqs [kw ''NOT'', ws1, kw ''DETERMINISTIC''], rseqs [kw ''NO'', ws1, kw
     ''SQL''], rseqs [kw ''CONTAINS'', ws1, kw ''SQL''], rseqs [kw ''READS'', ws1, kw ''SQL'',
     ws1, kw ''DATA''], rseqs [kw ''MODIFIES'', ws1, kw ''SQL'', ws1, kw ''DATA''], rseqs [kw
     ''CALLED'', ws1, kw ''ON'', ws1, kw ''NULL'', ws1, kw ''INPUT''], rseqs [kw ''RETURNS'',
     ws1, kw ''NULL'', ws1, kw ''ON'', ws1, kw ''NULL'', ws1, kw ''INPUT''], rseqs [kw ''SQL'',
     ws1, kw ''SECURITY''], rseqs [kw ''BEGIN'', ROpt (rseqs [ws1, ralts [kw ''ATOMIC'', rseqs
     [kw ''NOT'', ws1, kw ''ATOMIC'']]]), RWordB]]]), RLazy any, RLook (rseqs [ROpt (rseqs [icls
     [AZ] ''_$#'', RStar (icls [AZ, D09] ''_$#''), ws0, kw '':'', ws0]), RWordB, kw ''BEGIN'',
     ROpt (rseqs [ws1, ralts [kw ''ATOMIC'', rseqs [kw ''NOT'', ws1, kw ''ATOMIC'']]]),
     RWordB])]"

definition rx_db2_trigger :: rx where
  "rx_db2_trigger =
     rseqs [kw ''CREATE'', ws1, ROpt (rseqs [kw ''OR'', ws1, kw ''REPLACE'', ws1]), kw
     ''TRIGGER'', ws1, RGroup 1 (rseqs [ralts [rseqs [kw [CHR 0x22], rplus (ncls [CHR 0x22]), kw
     [CHR 0x22]], rplus (icls [AZ, D09] ''_$#'')], ROpt (rseqs [kw ''.'', ralts [rseqs [kw [CHR
     0x22], rplus (ncls [CHR 0x22]), kw [CHR 0x22]], rplus (icls [AZ, D09] ''_$#'')]])]), RLazy
     any, RLook (rseqs [ROpt (rseqs [icls [AZ] ''_$#'', RStar (icls [AZ, D09] ''_$#''), ws0, kw
     '':'', ws0]), RWordB, kw ''BEGIN'', ROpt (rseqs [ws1, ralts [kw ''ATOMIC'', rseqs [kw
     ''NOT'', ws1, kw ''ATOMIC'']]]), RWordB])]"

definition db2_profile :: Profile where
  "db2_profile =
     \<lparr>pf_dialect = DB2_SQL_PL, pf_adapter_id = ''atlas-db2-sqlpl-2.2'',
      pf_header_patterns = [rx_db2_header], pf_function_patterns = [rx_db2_function],
      pf_trigger_patterns = [rx_db2_trigger], pf_package_procedure_patterns = [],
      pf_package_function_patterns = [],
      pf_body_style = ''DB2_BLOCK'', pf_identifier_quotes = [([dquote], [dquote])],
      pf_parameter_parser = Some db2_parse_parameters, pf_attribute_extractor = Some db2_routine_attributes,
      pf_initial_declare_section = False\<rparr>"
section \<open>Oracle\<close>

definition rx_authid :: rx where
  "rx_authid =
     rseqs [RWordB, lit ''AUTHID'', ws1, RGroup 1 (ralts [lit ''DEFINER'', lit
     ''CURRENT_USER'']), RWordB]"

definition rx_autonomous :: rx where
  "rx_autonomous =
     rseqs [RWordB, kw ''PRAGMA'', ws1, kw ''AUTONOMOUS_TRANSACTION'', RWordB]"

definition oracle_parse_parameters :: "string \<Rightarrow> string option \<Rightarrow> adapter_error + RoutineParameter list" where
  "oracle_parse_parameters raw return_type = parse_standard_parameters raw return_type"

definition oracle_routine_attributes :: "string \<Rightarrow> rmatch \<Rightarrow> RoutineKind \<Rightarrow> attrs" where
  "oracle_routine_attributes txt m kind =
     (let header = normalized_header_window txt m 1600 in
      dict_update (routine_kind_attributes kind)
        [(''security_mode'', AStr (group_or rx_authid header ''DEFINER_DEFAULT'')),
         (''autonomous_transaction_declared'', ABool (is_search rx_autonomous (drop (m_end m) txt))),
         (''pipelined'', ABool (py_in '' PIPELINED'' header)),
         (''parallel_enable'', ABool (py_in '' PARALLEL_ENABLE'' header)),
         (''result_cache'', ABool (py_in '' RESULT_CACHE'' header)),
         (''deterministic'', ABool (py_in '' DETERMINISTIC'' header)),
         (''editionable'', ABool (\<not> py_in '' NONEDITIONABLE'' header))])"

definition rx_oracle_header :: rx where
  "rx_oracle_header =
     rseqs [kw ''CREATE'', ws1, ROpt (rseqs [kw ''OR'', ws1, kw ''REPLACE'', ws1]), kw
     ''PROCEDURE'', ws1, RGroup 1 (rseqs [ralts [rseqs [kw [CHR 0x22], rplus (ncls [CHR 0x22]),
     kw [CHR 0x22]], rplus (icls [AZ, D09] ''_$#'')], ROpt (rseqs [kw ''.'', ralts [rseqs [kw
     [CHR 0x22], rplus (ncls [CHR 0x22]), kw [CHR 0x22]], rplus (icls [AZ, D09] ''_$#'')]])]),
     ws0, ROpt (rseqs [kw ''('', RGroup 2 (RLazy any), kw '')'']), ws0, ROpt (rseqs [kw
     ''AUTHID'', ws1, rplus wd, ws0]), ralts [kw ''IS'', kw ''AS''], RWordB]"

definition rx_oracle_function :: rx where
  "rx_oracle_function =
     rseqs [kw ''CREATE'', ws1, ROpt (rseqs [kw ''OR'', ws1, kw ''REPLACE'', ws1]), kw
     ''FUNCTION'', ws1, RGroup 1 (rseqs [ralts [rseqs [kw [CHR 0x22], rplus (ncls [CHR 0x22]),
     kw [CHR 0x22]], rplus (icls [AZ, D09] ''_$#'')], ROpt (rseqs [kw ''.'', ralts [rseqs [kw
     [CHR 0x22], rplus (ncls [CHR 0x22]), kw [CHR 0x22]], rplus (icls [AZ, D09] ''_$#'')]])]),
     ws0, ROpt (rseqs [kw ''('', RGroup 2 (RLazy any), kw '')'']), ws0, kw ''RETURN'', ws1,
     RGroup 3 (rplus_lazy any), ws0, ROpt (rseqs [kw ''AUTHID'', ws1, rplus wd, ws0]), ralts [kw
     ''IS'', kw ''AS''], RWordB]"

definition rx_oracle_trigger :: rx where
  "rx_oracle_trigger =
     rseqs [kw ''CREATE'', ws1, ROpt (rseqs [kw ''OR'', ws1, kw ''REPLACE'', ws1]), kw
     ''TRIGGER'', ws1, RGroup 1 (rseqs [ralts [rseqs [kw [CHR 0x22], rplus (ncls [CHR 0x22]), kw
     [CHR 0x22]], rplus (icls [AZ, D09] ''_$#'')], ROpt (rseqs [kw ''.'', ralts [rseqs [kw [CHR
     0x22], rplus (ncls [CHR 0x22]), kw [CHR 0x22]], rplus (icls [AZ, D09] ''_$#'')]])]), RLazy
     any, ralts [rseqs [kw ''DECLARE'', RWordB], rseqs [kw ''BEGIN'', RWordB]]]"

definition rx_oracle_package_procedure :: rx where
  "rx_oracle_package_procedure =
     rseqs [RWordB, kw ''PROCEDURE'', ws1, RGroup 1 (rplus (icls [AZ, D09] ''_$#'')), ws0, ROpt
     (rseqs [kw ''('', RGroup 2 (RLazy any), kw '')'']), ws0, ralts [kw ''IS'', kw ''AS''],
     RWordB]"

definition rx_oracle_package_function :: rx where
  "rx_oracle_package_function =
     rseqs [RWordB, kw ''FUNCTION'', ws1, RGroup 1 (rplus (icls [AZ, D09] ''_$#'')), ws0, ROpt
     (rseqs [kw ''('', RGroup 2 (RLazy any), kw '')'']), ws0, kw ''RETURN'', ws1, RGroup 3
     (rplus_lazy any), ws0, ralts [kw ''IS'', kw ''AS''], RWordB]"

definition oracle_profile :: Profile where
  "oracle_profile =
     \<lparr>pf_dialect = ORACLE_PLSQL, pf_adapter_id = ''atlas-oracle-plsql-2.2'',
      pf_header_patterns = [rx_oracle_header], pf_function_patterns = [rx_oracle_function],
      pf_trigger_patterns = [rx_oracle_trigger], pf_package_procedure_patterns = [rx_oracle_package_procedure],
      pf_package_function_patterns = [rx_oracle_package_function],
      pf_body_style = ''ORACLE_BLOCK'', pf_identifier_quotes = [([dquote], [dquote])],
      pf_parameter_parser = Some oracle_parse_parameters, pf_attribute_extractor = Some oracle_routine_attributes,
      pf_initial_declare_section = True\<rparr>"
section \<open>SQL Server\<close>

definition rx_execute_as :: rx where
  "rx_execute_as =
     rseqs [RWordB, lit ''EXECUTE'', ws1, lit ''AS'', ws1, RGroup 1 (ralts [lit ''CALLER'', lit
     ''SELF'', lit ''OWNER'', rseqs [lit [CHR 0x27], rplus (ncls [CHR 0x27]), lit [CHR 0x27]],
     rseqs [lit ''['', rplus (ncls '']''), lit '']''], rplus (ccls [AZ, D09] ''_$#'')])]"

definition sqlserver_parse_parameters :: "string \<Rightarrow> string option \<Rightarrow> adapter_error + RoutineParameter list" where
  "sqlserver_parse_parameters raw return_type = parse_sqlserver_parameters raw return_type"

definition sqlserver_routine_attributes :: "string \<Rightarrow> rmatch \<Rightarrow> RoutineKind \<Rightarrow> attrs" where
  "sqlserver_routine_attributes txt m kind =
     (let header = normalized_header_window txt m 1600;
          execute_as = group_or rx_execute_as header ''CALLER_DEFAULT'' in
      dict_update (routine_kind_attributes kind)
        [(''execute_as'', AStr execute_as),
         (''security_mode'', AStr execute_as),
         (''schemabinding'', ABool (py_in ''SCHEMABINDING'' header)),
         (''native_compilation'', ABool (py_in ''NATIVE_COMPILATION'' header)),
         (''recompile'', ABool (py_in ''RECOMPILE'' header)),
         (''encrypted_definition'', ABool (py_in ''ENCRYPTION'' header)),
         (''null_input_behavior'', AStr (if py_in ''RETURNS NULL ON NULL INPUT'' header
            then ''RETURNS NULL ON NULL INPUT'' else ''CALLED ON NULL INPUT''))])"

definition rx_sqlserver_header_1 :: rx where
  "rx_sqlserver_header_1 =
     rseqs [kw ''CREATE'', ws1, ROpt (rseqs [kw ''OR'', ws1, kw ''ALTER'', ws1]), ralts [kw
     ''PROC'', kw ''PROCEDURE''], ws1, RGroup 1 (rseqs [ralts [rseqs [kw ''['', rplus (ncls
     '']''), kw '']''], rplus (icls [AZ, D09] ''_$#'')], ROpt (rseqs [kw ''.'', ralts [rseqs [kw
     ''['', rplus (ncls '']''), kw '']''], rplus (icls [AZ, D09] ''_$#'')]])]), ws0, RGroup 2
     (RLazy any), RWordB, kw ''AS'', RWordB, RLook (rseqs [ws0, ralts [kw ''BEGIN'', kw ''SET'',
     kw ''DECLARE'', kw ''SELECT'', kw ''WITH'', kw ''INSERT'', kw ''UPDATE'', kw ''DELETE'', kw
     ''MERGE'', kw ''EXEC'', kw ''IF'', kw ''WHILE'', kw ''RETURN'', kw ''THROW'', kw
     ''RAISERROR'']])]"

definition rx_sqlserver_header_2 :: rx where
  "rx_sqlserver_header_2 =
     rseqs [kw ''ALTER'', ws1, ralts [kw ''PROC'', kw ''PROCEDURE''], ws1, RGroup 1 (rseqs
     [ralts [rseqs [kw ''['', rplus (ncls '']''), kw '']''], rplus (icls [AZ, D09] ''_$#'')],
     ROpt (rseqs [kw ''.'', ralts [rseqs [kw ''['', rplus (ncls '']''), kw '']''], rplus (icls
     [AZ, D09] ''_$#'')]])]), ws0, RGroup 2 (RLazy any), RWordB, kw ''AS'', RWordB, RLook (rseqs
     [ws0, ralts [kw ''BEGIN'', kw ''SET'', kw ''DECLARE'', kw ''SELECT'', kw ''WITH'', kw
     ''INSERT'', kw ''UPDATE'', kw ''DELETE'', kw ''MERGE'', kw ''EXEC'', kw ''IF'', kw
     ''WHILE'', kw ''RETURN'', kw ''THROW'', kw ''RAISERROR'']])]"

definition rx_sqlserver_function :: rx where
  "rx_sqlserver_function =
     rseqs [kw ''CREATE'', ws1, ROpt (rseqs [kw ''OR'', ws1, kw ''ALTER'', ws1]), kw
     ''FUNCTION'', ws1, RGroup 1 (rseqs [ralts [rseqs [kw ''['', rplus (ncls '']''), kw '']''],
     rplus (icls [AZ, D09] ''_$#'')], ROpt (rseqs [kw ''.'', ralts [rseqs [kw ''['', rplus (ncls
     '']''), kw '']''], rplus (icls [AZ, D09] ''_$#'')]])]), ws0, kw ''('', RGroup 2 (RLazy
     any), kw '')'', ws1, kw ''RETURNS'', ws1, RGroup 3 (rplus_lazy any), ws1, ROpt (rseqs [kw
     ''WITH'', ws1, rplus_lazy any, ws1]), kw ''AS'', RWordB]"

definition rx_sqlserver_trigger :: rx where
  "rx_sqlserver_trigger =
     rseqs [kw ''CREATE'', ws1, ROpt (rseqs [kw ''OR'', ws1, kw ''ALTER'', ws1]), kw
     ''TRIGGER'', ws1, RGroup 1 (rseqs [ralts [rseqs [kw ''['', rplus (ncls '']''), kw '']''],
     rplus (icls [AZ, D09] ''_$#'')], ROpt (rseqs [kw ''.'', ralts [rseqs [kw ''['', rplus (ncls
     '']''), kw '']''], rplus (icls [AZ, D09] ''_$#'')]])]), RLazy any, RWordB, kw ''AS'',
     RWordB]"

definition sqlserver_profile :: Profile where
  "sqlserver_profile =
     \<lparr>pf_dialect = SQLSERVER_TSQL, pf_adapter_id = ''atlas-sqlserver-tsql-2.2'',
      pf_header_patterns = [rx_sqlserver_header_1, rx_sqlserver_header_2], pf_function_patterns = [rx_sqlserver_function],
      pf_trigger_patterns = [rx_sqlserver_trigger], pf_package_procedure_patterns = [],
      pf_package_function_patterns = [],
      pf_body_style = ''TSQL_BATCH'', pf_identifier_quotes = [(''['', '']''), ([dquote], [dquote])],
      pf_parameter_parser = Some sqlserver_parse_parameters, pf_attribute_extractor = Some sqlserver_routine_attributes,
      pf_initial_declare_section = False\<rparr>"
section \<open>PostgreSQL\<close>

definition rx_pg_default :: rx where
  "rx_pg_default =
     rseqs [ws1, ralts [kw ''DEFAULT'', kw ''=''], ws1, RGroup 1 (rplus any), REos]"

definition rx_pg_parallel :: rx where
  "rx_pg_parallel =
     rseqs [RWordB, lit ''PARALLEL'', ws1, RGroup 1 (ralts [lit ''UNSAFE'', lit ''RESTRICTED'',
     lit ''SAFE'']), RWordB]"

definition rx_pg_set :: rx where
  "rx_pg_set =
     rseqs [RWordB, lit ''SET'', ws1, RGroup 1 (rplus (ccls [AZ, D09] ''_.'')), ws1, ralts [lit
     ''TO'', lit ''=''], ws1, RGroup 2 (rplus (RChr (\<lambda>c. \<not> (is_space c \<or> c
     \<in> set '',''))))]"

definition pg_type_starters :: "string list" where
  "pg_type_starters =
     [''BIGINT'', ''BIGSERIAL'', ''BIT'', ''BOOLEAN'', ''BOOL'', ''BYTEA'', ''CHAR'', ''CHARACTER'',
      ''DATE'', ''DEC'', ''DECIMAL'', ''DOUBLE'', ''EVENT_TRIGGER'', ''INET'', ''INT'', ''INT2'', ''INT4'',
      ''INT8'', ''INTEGER'', ''INTERVAL'', ''JSON'', ''JSONB'', ''MONEY'', ''NUMERIC'', ''REAL'', ''RECORD'',
      ''SETOF'', ''SMALLINT'', ''SMALLSERIAL'', ''TEXT'', ''TIME'', ''TIMESTAMP'', ''TRIGGER'', ''UUID'',
      ''VARBIT'', ''VARCHAR'', ''VOID'', ''XML'']"

definition pg_parameter :: "nat \<times> string \<Rightarrow> adapter_error + RoutineParameter option" where
  "pg_parameter it =
     (case it of (index, item) \<Rightarrow>
       let clean = squash_ws (py_strip item) in
       if clean = [] then Inr None
       else
         (let (clean, default_text) = split_default rx_pg_default clean;
              (mode, tokens) = pop_mode [''IN'', ''OUT'', ''INOUT'', ''VARIADIC''] ''IN'' (py_split clean)
          in case tokens of
               [] \<Rightarrow> Inr None
             | first # rest \<Rightarrow>
                 (let unnamed = (length tokens = 1 \<or> py_upper (strip_identifier first) \<in> set pg_type_starters \<or>
                        py_in ''.'' first \<or> py_in ''['' first \<or> py_in ''('' first \<or>
                        (py_startswith first [dquote] \<and> length tokens = 1))
                  in if unnamed then mk_parameter (''ARG_'' @ nat_dec index) mode (py_join '' '' tokens) default_text
                     else mk_parameter (py_lstrip_of (in_chars '':@'') first) mode
                            (or_unknown (py_join '' '' rest)) default_text)))"

definition postgresql_parse_parameters :: "string \<Rightarrow> string option \<Rightarrow> adapter_error + RoutineParameter list" where
  "postgresql_parse_parameters raw return_type =
     append_return return_type (collect_params (map pg_parameter (enum1 (split_csv raw))))"

definition postgresql_routine_attributes :: "string \<Rightarrow> rmatch \<Rightarrow> RoutineKind \<Rightarrow> attrs" where
  "postgresql_routine_attributes txt m kind =
     (let header = normalized_header_window txt m 1800 in
      dict_update (routine_kind_attributes kind)
        [(''security_mode'', AStr (if py_in ''SECURITY DEFINER'' header then ''DEFINER'' else ''INVOKER'')),
         (''volatility'', AStr (case List.find (\<lambda>v. py_in ('' '' @ v) header) [''IMMUTABLE'', ''STABLE'', ''VOLATILE''] of
            Some v \<Rightarrow> v | None \<Rightarrow> ''VOLATILE_DEFAULT'')),
         (''parallel_safety'', AStr (group_or rx_pg_parallel header ''UNSAFE_DEFAULT'')),
         (''strict'', ABool (py_in '' STRICT'' header \<or> py_in ''RETURNS NULL ON NULL INPUT'' header)),
         (''leakproof'', ABool (py_in '' LEAKPROOF'' header)),
         (''set_configuration'', APairs (map (\<lambda>s. (m_str s 1, m_str s 2)) (re_finditer rx_pg_set header)))])"

definition rx_postgresql_header :: rx where
  "rx_postgresql_header =
     rseqs [kw ''CREATE'', ws1, ROpt (rseqs [kw ''OR'', ws1, kw ''REPLACE'', ws1]), kw
     ''PROCEDURE'', ws1, RGroup 1 (rseqs [ralts [rseqs [kw [CHR 0x22], rplus (ncls [CHR 0x22]),
     kw [CHR 0x22]], rseqs [icls [AZ] ''_'', RStar (icls [AZ, D09] ''_$'')]], ROpt (rseqs [kw
     ''.'', ralts [rseqs [kw [CHR 0x22], rplus (ncls [CHR 0x22]), kw [CHR 0x22]], rseqs [icls
     [AZ] ''_'', RStar (icls [AZ, D09] ''_$'')]]])]), ws0, kw ''('']"

definition rx_postgresql_function :: rx where
  "rx_postgresql_function =
     rseqs [kw ''CREATE'', ws1, ROpt (rseqs [kw ''OR'', ws1, kw ''REPLACE'', ws1]), kw
     ''FUNCTION'', ws1, RGroup 1 (rseqs [ralts [rseqs [kw [CHR 0x22], rplus (ncls [CHR 0x22]),
     kw [CHR 0x22]], rseqs [icls [AZ] ''_'', RStar (icls [AZ, D09] ''_$'')]], ROpt (rseqs [kw
     ''.'', ralts [rseqs [kw [CHR 0x22], rplus (ncls [CHR 0x22]), kw [CHR 0x22]], rseqs [icls
     [AZ] ''_'', RStar (icls [AZ, D09] ''_$'')]]])]), ws0, kw ''('']"

definition postgresql_profile :: Profile where
  "postgresql_profile =
     \<lparr>pf_dialect = POSTGRESQL_PLPGSQL, pf_adapter_id = ''atlas-postgresql-plpgsql-2.2'',
      pf_header_patterns = [rx_postgresql_header], pf_function_patterns = [rx_postgresql_function],
      pf_trigger_patterns = [], pf_package_procedure_patterns = [],
      pf_package_function_patterns = [],
      pf_body_style = ''POSTGRES_DOLLAR_BODY'', pf_identifier_quotes = [([dquote], [dquote])],
      pf_parameter_parser = Some postgresql_parse_parameters, pf_attribute_extractor = Some postgresql_routine_attributes,
      pf_initial_declare_section = True\<rparr>"
section \<open>MySQL\<close>

definition rx_mysql_definer :: rx where
  "rx_mysql_definer =
     rseqs [RWordB, lit ''DEFINER'', ws0, lit ''='', ws0, RGroup 1 (rplus (RChr (\<lambda>c.
     \<not> (is_space c))))]"

definition mysql_parse_parameters :: "string \<Rightarrow> string option \<Rightarrow> adapter_error + RoutineParameter list" where
  "mysql_parse_parameters raw return_type = parse_standard_parameters raw return_type"

definition mysql_routine_attributes :: "string \<Rightarrow> rmatch \<Rightarrow> RoutineKind \<Rightarrow> attrs" where
  "mysql_routine_attributes txt m kind =
     (let header = normalized_header_window txt m 1700;
          data_access = first_in data_access_values header ''CONTAINS SQL DEFAULT'' in
      dict_update (routine_kind_attributes kind)
        [(''security_mode'', AStr (group_or rx_sql_security header ''DEFINER_DEFAULT'')),
         (''definer'', case re_search rx_mysql_definer header of Some d \<Rightarrow> AStr (m_str d 1) | None \<Rightarrow> ANone),
         (''deterministic'', ABool (py_in '' DETERMINISTIC'' header \<and> \<not> py_in ''NOT DETERMINISTIC'' header)),
         (''data_access'', AStr data_access),
         (''sql_data_access'', AStr data_access),
         (''comment_declared'', ABool (py_in '' COMMENT '' header))])"

definition rx_mysql_header :: rx where
  "rx_mysql_header =
     rseqs [kw ''CREATE'', ws1, ROpt (rseqs [kw ''DEFINER'', ws0, kw ''='', ws0, rplus (RChr
     (\<lambda>c. \<not> (is_space c))), ws1]), kw ''PROCEDURE'', ws1, RGroup 1 (rseqs [ralts
     [rseqs [kw [CHR 0x60], rplus (ncls [CHR 0x60]), kw [CHR 0x60]], rplus (icls [AZ, D09]
     ''_$'')], ROpt (rseqs [kw ''.'', ralts [rseqs [kw [CHR 0x60], rplus (ncls [CHR 0x60]), kw
     [CHR 0x60]], rplus (icls [AZ, D09] ''_$'')]])]), ws0, kw ''('', RGroup 2 (RLazy any), kw
     '')'', ws0, RStar (rseqs [ralts [rseqs [kw ''COMMENT'', ws1, kw [CHR 0x27], RLazy any, kw
     [CHR 0x27]], rseqs [kw ''LANGUAGE'', ws1, kw ''SQL''], rseqs [kw ''NOT'', ws1, kw
     ''DETERMINISTIC''], kw ''DETERMINISTIC'', rseqs [kw ''CONTAINS'', ws1, kw ''SQL''], rseqs
     [kw ''NO'', ws1, kw ''SQL''], rseqs [kw ''READS'', ws1, kw ''SQL'', ws1, kw ''DATA''],
     rseqs [kw ''MODIFIES'', ws1, kw ''SQL'', ws1, kw ''DATA''], rseqs [kw ''SQL'', ws1, kw
     ''SECURITY'', ws1, rplus wd]], ws0]), RLook (ralts [rseqs [kw ''BEGIN'', RWordB], rseqs [kw
     ''RETURN'', RWordB], rseqs [kw ''SET'', RWordB], rseqs [kw ''SELECT'', RWordB], rseqs [kw
     ''INSERT'', RWordB], rseqs [kw ''UPDATE'', RWordB], rseqs [kw ''DELETE'', RWordB], rseqs
     [kw ''CALL'', RWordB], rseqs [kw ''SIGNAL'', RWordB], rseqs [kw ''RESIGNAL'', RWordB],
     rseqs [kw ''DO'', RWordB]])]"

definition rx_mysql_function :: rx where
  "rx_mysql_function =
     rseqs [kw ''CREATE'', ws1, ROpt (rseqs [kw ''DEFINER'', ws0, kw ''='', ws0, rplus (RChr
     (\<lambda>c. \<not> (is_space c))), ws1]), kw ''FUNCTION'', ws1, RGroup 1 (rseqs [ralts
     [rseqs [kw [CHR 0x60], rplus (ncls [CHR 0x60]), kw [CHR 0x60]], rplus (icls [AZ, D09]
     ''_$'')], ROpt (rseqs [kw ''.'', ralts [rseqs [kw [CHR 0x60], rplus (ncls [CHR 0x60]), kw
     [CHR 0x60]], rplus (icls [AZ, D09] ''_$'')]])]), ws0, kw ''('', RGroup 2 (RLazy any), kw
     '')'', ws1, kw ''RETURNS'', ws1, RGroup 3 (rplus_lazy any), RLook (rseqs [ws1, ralts [rseqs
     [kw ''COMMENT'', ws1, kw [CHR 0x27]], rseqs [kw ''LANGUAGE'', ws1, kw ''SQL'', RWordB],
     rseqs [kw ''NOT'', ws1, kw ''DETERMINISTIC'', RWordB], rseqs [kw ''DETERMINISTIC'',
     RWordB], rseqs [kw ''CONTAINS'', ws1, kw ''SQL'', RWordB], rseqs [kw ''NO'', ws1, kw
     ''SQL'', RWordB], rseqs [kw ''READS'', ws1, kw ''SQL'', ws1, kw ''DATA'', RWordB], rseqs
     [kw ''MODIFIES'', ws1, kw ''SQL'', ws1, kw ''DATA'', RWordB], rseqs [kw ''SQL'', ws1, kw
     ''SECURITY'', ws1, rplus wd, RWordB], rseqs [kw ''BEGIN'', RWordB], rseqs [kw ''RETURN'',
     RWordB], rseqs [kw ''SET'', RWordB], rseqs [kw ''SELECT'', RWordB], rseqs [kw ''INSERT'',
     RWordB], rseqs [kw ''UPDATE'', RWordB], rseqs [kw ''DELETE'', RWordB], rseqs [kw ''CALL'',
     RWordB], rseqs [kw ''SIGNAL'', RWordB], rseqs [kw ''RESIGNAL'', RWordB]]]), ws0, RStar
     (rseqs [ralts [rseqs [kw ''COMMENT'', ws1, kw [CHR 0x27], RLazy any, kw [CHR 0x27]], rseqs
     [kw ''LANGUAGE'', ws1, kw ''SQL''], rseqs [kw ''NOT'', ws1, kw ''DETERMINISTIC''], kw
     ''DETERMINISTIC'', rseqs [kw ''CONTAINS'', ws1, kw ''SQL''], rseqs [kw ''NO'', ws1, kw
     ''SQL''], rseqs [kw ''READS'', ws1, kw ''SQL'', ws1, kw ''DATA''], rseqs [kw ''MODIFIES'',
     ws1, kw ''SQL'', ws1, kw ''DATA''], rseqs [kw ''SQL'', ws1, kw ''SECURITY'', ws1, rplus
     wd]], ws0]), RLook (ralts [rseqs [kw ''BEGIN'', RWordB], rseqs [kw ''RETURN'', RWordB],
     rseqs [kw ''SET'', RWordB], rseqs [kw ''SELECT'', RWordB], rseqs [kw ''INSERT'', RWordB],
     rseqs [kw ''UPDATE'', RWordB], rseqs [kw ''DELETE'', RWordB], rseqs [kw ''CALL'', RWordB],
     rseqs [kw ''SIGNAL'', RWordB], rseqs [kw ''RESIGNAL'', RWordB]])]"

definition rx_mysql_trigger :: rx where
  "rx_mysql_trigger =
     rseqs [kw ''CREATE'', ws1, ROpt (rseqs [kw ''DEFINER'', ws0, kw ''='', ws0, rplus (RChr
     (\<lambda>c. \<not> (is_space c))), ws1]), kw ''TRIGGER'', ws1, RGroup 1 (rseqs [ralts
     [rseqs [kw [CHR 0x60], rplus (ncls [CHR 0x60]), kw [CHR 0x60]], rplus (icls [AZ, D09]
     ''_$'')], ROpt (rseqs [kw ''.'', ralts [rseqs [kw [CHR 0x60], rplus (ncls [CHR 0x60]), kw
     [CHR 0x60]], rplus (icls [AZ, D09] ''_$'')]])]), RLazy any, kw ''FOR'', ws1, kw ''EACH'',
     ws1, kw ''ROW'', ws1, RLook (ralts [rseqs [kw ''BEGIN'', RWordB], rseqs [kw ''SET'',
     RWordB], rseqs [kw ''INSERT'', RWordB], rseqs [kw ''UPDATE'', RWordB], rseqs [kw
     ''DELETE'', RWordB], rseqs [kw ''CALL'', RWordB], rseqs [kw ''SIGNAL'', RWordB], rseqs [kw
     ''RESIGNAL'', RWordB]])]"

definition mysql_profile :: Profile where
  "mysql_profile =
     \<lparr>pf_dialect = MYSQL_STORED_PROGRAM, pf_adapter_id = ''atlas-mysql-stored-program-2.2'',
      pf_header_patterns = [rx_mysql_header], pf_function_patterns = [rx_mysql_function],
      pf_trigger_patterns = [rx_mysql_trigger], pf_package_procedure_patterns = [],
      pf_package_function_patterns = [],
      pf_body_style = ''MYSQL_BODY'', pf_identifier_quotes = [([bquote], [bquote])],
      pf_parameter_parser = Some mysql_parse_parameters, pf_attribute_extractor = Some mysql_routine_attributes,
      pf_initial_declare_section = False\<rparr>"
definition all_profiles :: "Profile list" where
  "all_profiles = [db2_profile, oracle_profile, sqlserver_profile, postgresql_profile, mysql_profile]"

end
