(* ===== verification/ControlFlow.thy ===== *)
theory ControlFlow
  imports AtlasModels PyRegex
begin

text \<open>
  The control-flow refinement of \<open>atlas/dialects/control_flow.py\<close>. The local functions of
  \<open>refine_control_flow\<close> close over the list of source nodes; here that list is their first
  argument. Each loop of the pass that calls \<open>add_edge\<close> is a function from nodes to the list
  of calls it makes (\<open>edge_req\<close>), in order; none of the loops reads the edge list, so
  performing the calls one after the other on the edges kept from the parser
  (\<open>control_edges\<close>) is the pass. The lemmas show that every edge of the result joins nodes
  of the result, that a transfer keeps no fall-through, that the handlers of a statement are
  the innermost enclosing ones, that data dependencies lead from the last writer, and that a
  node is marked unknown exactly when no control edge path leads to it from the entry.
\<close>

definition terminal_kinds :: "SemanticNodeKind list" where
  "terminal_kinds = [RETURN, ERROR_RAISE, GOTO]"

definition potentially_failing :: "SemanticNodeKind list" where
  "potentially_failing =
     [QUERY, SELECT_INTO, RESULT_SET, INSERT, UPDATE, DELETE, MERGE, UPSERT, CALL, DYNAMIC_SQL,
      CURSOR_OPEN, CURSOR_FETCH, CURSOR_CLOSE, ERROR_RAISE, DDL, TRUNCATE, LOCK, BULK_OPERATION]"

type_synonym nodes = "SemanticNode list"
type_synonym edge_req = "string \<times> string \<times> EdgeKind \<times> string option"

section \<open>Lookup tables\<close>

definition source_nodes :: "nodes \<Rightarrow> nodes" where
  "source_nodes nodes = filter (\<lambda>n. node_kind n \<noteq> CALL_TARGET) nodes"

text \<open>A dictionary comprehension keeps the last value of a repeated key.\<close>

definition by_id :: "nodes \<Rightarrow> string \<Rightarrow> SemanticNode option" where
  "by_id ns i = map_of (rev (map (\<lambda>n. (node_id n, n)) ns)) i"

text \<open>The table is read at ids of source nodes only, where it is defined (\<open>position_nth\<close>).\<close>

definition position :: "nodes \<Rightarrow> string \<Rightarrow> nat" where
  "position ns i =
     (case map_of (rev (zip (map node_id ns) [0..<length ns])) i of Some p \<Rightarrow> p | None \<Rightarrow> length ns)"

definition kind_of :: "nodes \<Rightarrow> string \<Rightarrow> SemanticNodeKind option" where
  "kind_of ns i = map_option node_kind (by_id ns i)"

definition node_upper :: "SemanticNode \<Rightarrow> string" where
  "node_upper n = py_upper (py_strip (node_text n))"

text \<open>
  \<open>ancestors\<close> follows parent references until one is missing, empty or seen before;
  \<open>acc\<close> is \<open>result\<close>, whose elements are the set \<open>seen\<close>.
\<close>

definition parent_of :: "nodes \<Rightarrow> string \<Rightarrow> string option" where
  "parent_of ns i = (case by_id ns i of None \<Rightarrow> None | Some p \<Rightarrow> node_parent_ref p)"

lemma by_id_Some: "by_id ns i = Some n \<Longrightarrow> n \<in> set ns \<and> node_id n = i"
  unfolding by_id_def by (drule map_of_SomeD) auto

function anc_loop :: "nodes \<Rightarrow> string option \<Rightarrow> string list \<Rightarrow> string list" where
  "anc_loop ns None acc = acc"
| "anc_loop ns (Some c) acc =
     (if c = [] \<or> c \<in> set acc then acc else anc_loop ns (parent_of ns c) (acc @ [c]))"
  by pat_completeness auto

lemma anc_measure:
  assumes "c \<notin> set acc"
  shows "2 * card (node_id ` set ns - insert c (set acc)) + (if parent_of ns c = None then 0 else 1) <
    Suc (2 * card (node_id ` set ns - set acc))"
proof (cases "c \<in> node_id ` set ns")
  case True
  then have "card (node_id ` set ns - insert c (set acc)) < card (node_id ` set ns - set acc)"
    using assms by (intro psubset_card_mono) auto
  then show ?thesis by simp
next
  case False
  then have "by_id ns c = None" using by_id_Some by (cases "by_id ns c") (auto simp: image_iff)
  moreover have "node_id ` set ns - insert c (set acc) = node_id ` set ns - set acc" using False by auto
  ultimately show ?thesis by (simp add: parent_of_def)
qed

termination anc_loop
  by (relation "measure (\<lambda>(ns, cur, acc). 2 * card (node_id ` set ns - set acc) + (if cur = None then 0 else 1))")
    (use anc_measure in auto)

definition ancestors :: "nodes \<Rightarrow> SemanticNode \<Rightarrow> string list" where
  "ancestors ns node = anc_loop ns (node_parent_ref node) []"

definition ancestry :: "nodes \<Rightarrow> string \<Rightarrow> string list" where
  "ancestry ns i = (case by_id ns i of None \<Rightarrow> [] | Some n \<Rightarrow> ancestors ns n)"

definition is_descendant :: "nodes \<Rightarrow> string \<Rightarrow> string \<Rightarrow> bool" where
  "is_descendant ns i anc = (anc \<in> set (ancestry ns i))"

definition labels :: "nodes \<Rightarrow> string \<Rightarrow> string option" where
  "labels ns name =
     map_of (rev (concat (map (\<lambda>n. if node_kind n = LABEL then
                (case attr_string (node_attributes n) ''label_name'' of
                   Some l \<Rightarrow> [(py_upper l, node_id n)] | None \<Rightarrow> []) else []) ns))) name"

definition first_after :: "nodes \<Rightarrow> string \<Rightarrow> nat \<Rightarrow> string" where
  "first_after ns exit_id i = (if i + 1 < length ns then node_id (ns ! (i + 1)) else exit_id)"

definition enclosing_loop :: "nodes \<Rightarrow> SemanticNode \<Rightarrow> SemanticNode option" where
  "enclosing_loop ns node =
     (case List.find (\<lambda>ref. kind_of ns ref = Some LOOP) (ancestry ns (node_id node)) of
        Some ref \<Rightarrow> by_id ns ref | None \<Rightarrow> None)"

definition leaves_region :: "nodes \<Rightarrow> SemanticNode \<Rightarrow> SemanticNode \<Rightarrow> bool" where
  "leaves_region ns loop candidate =
     (let k = position ns (node_id candidate)
      in if k + 1 < length ns then \<not> is_descendant ns (node_id (ns ! (k + 1))) (node_id loop) else True)"

definition ends_loop :: "nodes \<Rightarrow> SemanticNode \<Rightarrow> SemanticNode \<Rightarrow> bool" where
  "ends_loop ns loop candidate =
     (node_kind candidate = BLOCK \<and> py_startswith (node_upper candidate) ''END'' \<and>
      (node_parent_ref candidate = Some (node_id loop) \<or>
         is_descendant ns (node_id candidate) (node_id loop)) \<and>
      (py_startswith_any (node_upper candidate) [''END LOOP'', ''END WHILE'', ''END REPEAT''] \<or>
         leaves_region ns loop candidate))"

definition loop_end :: "nodes \<Rightarrow> SemanticNode \<Rightarrow> SemanticNode option" where
  "loop_end ns loop = List.find (ends_loop ns loop) (drop (position ns (node_id loop) + 1) ns)"

definition loop_exit :: "nodes \<Rightarrow> string \<Rightarrow> SemanticNode \<Rightarrow> string" where
  "loop_exit ns exit_id loop =
     (case loop_end ns loop of
        Some e \<Rightarrow> first_after ns exit_id (position ns (node_id e)) | None \<Rightarrow> exit_id)"

section \<open>Edges kept from the parser\<close>

definition keeps_edge :: "nodes \<Rightarrow> SemanticEdge \<Rightarrow> bool" where
  "keeps_edge ns edge =
     (case by_id ns (edge_source_ref edge) of
        None \<Rightarrow> False
      | Some source \<Rightarrow>
          (if node_kind source \<in> set terminal_kinds then False
           else if node_kind source = LOOP_CONTROL then False
           else case by_id ns (edge_target_ref edge) of
             Some target \<Rightarrow>
               \<not> (node_kind target = ERROR_HANDLER \<and> edge_kind edge = NEXT \<and>
                  py_startswith_any (node_upper target) [''BEGIN CATCH'', ''EXCEPTION'', ''WHEN ''])
           | None \<Rightarrow> True))"

definition edge_key :: "SemanticEdge \<Rightarrow> edge_req" where
  "edge_key e = (edge_source_ref e, edge_target_ref e, edge_kind e, edge_condition_text e)"

definition mk_edge :: "string \<Rightarrow> edge_req \<Rightarrow> SemanticEdge" where
  "mk_edge eid r = (case r of (s, t, k, c) \<Rightarrow>
     \<lparr>edge_id = eid, edge_source_ref = s, edge_target_ref = t, edge_kind = k, edge_condition_text = c\<rparr>)"

definition add_edge :: "SemanticEdge list \<Rightarrow> edge_req \<Rightarrow> SemanticEdge list" where
  "add_edge es r =
     (case r of (s, t, k, c) \<Rightarrow>
        if s = t \<and> k \<noteq> LOOP_BACK then es
        else if list_ex (\<lambda>e. edge_key e = r) es then es
        else es @ [mk_edge ''pending'' r])"

section \<open>Handlers\<close>

definition is_begin_block :: "SemanticNode \<Rightarrow> bool" where
  "is_begin_block n = (node_kind n = BLOCK \<and> py_startswith (node_upper n) ''BEGIN'')"

definition is_end_block :: "SemanticNode \<Rightarrow> bool" where
  "is_end_block n = (node_kind n = BLOCK \<and> py_startswith (node_upper n) ''END'')"

definition handlers :: "nodes \<Rightarrow> nodes" where
  "handlers ns = filter (\<lambda>n. node_kind n = ERROR_HANDLER) ns"

definition handler_scope :: "nodes \<Rightarrow> SemanticNode \<Rightarrow> string option" where
  "handler_scope ns handler =
     (case List.find (\<lambda>ref. case by_id ns ref of Some c \<Rightarrow> is_begin_block c | None \<Rightarrow> False)
             (ancestry ns (node_id handler)) of
        Some ref \<Rightarrow> Some ref
      | None \<Rightarrow> node_parent_ref handler)"

definition rx_named_raise :: rx where
  "rx_named_raise =
     rseqs [RBos, lit ''RAISE'', ws1, RGroup 1 (rseqs [ccls [AZ] ''_$#'', RStar (ccls [AZ, D09] ''_$#'')]),
     ws0, ROpt (lit '';''), REos]"

definition exception_keys :: "SemanticNode \<Rightarrow> string list" where
  "exception_keys node =
     (let upper = node_upper node in
      (if truthy (node_error_code node) then [py_upper (or_str (node_error_code node) [])] else []) @
      (case re_match rx_named_raise upper of Some m \<Rightarrow> [m_str m 1] | None \<Rightarrow> []) @
      (if node_kind node = SELECT_INTO then
         [''NO_DATA_FOUND'', ''NOT FOUND''] @
         (if py_in ''STRICT'' upper \<or> py_in ''SELECT'' upper then [''TOO_MANY_ROWS''] else [])
       else []) @
      (if node_kind node = CURSOR_FETCH then [''NO_DATA_FOUND'', ''NOT FOUND''] else []))"

type_synonym candidate = "nat \<times> nat \<times> SemanticNode"

text \<open>The specificity of a handler for a node, \<open>None\<close> when the loop passes over it.\<close>

definition specificity :: "SemanticNode \<Rightarrow> bool \<Rightarrow> SemanticNode \<Rightarrow> nat option" where
  "specificity node conservative handler =
     (let upper = node_upper handler;
          condition = py_upper (or_str (node_condition_text handler) upper) in
      if list_ex (\<lambda>key. py_in key condition) (exception_keys node) then Some 6
      else if py_in ''NOT FOUND'' upper \<or> py_in ''NO_DATA_FOUND'' upper then
        (if node_kind node \<in> set [CURSOR_FETCH, SELECT_INTO, QUERY] then Some 5 else None)
      else if list_ex (\<lambda>marker. py_in marker upper) [''SQLEXCEPTION'', ''OTHERS'', ''BEGIN CATCH''] then Some 2
      else if upper = ''EXCEPTION'' \<or> py_startswith upper ''EXCEPTION '' then None
      else if py_startswith upper ''WHEN '' then (if conservative then Some 3 else None)
      else Some 1)"

definition in_scope :: "nodes \<Rightarrow> SemanticNode \<Rightarrow> SemanticNode \<Rightarrow> bool" where
  "in_scope ns node handler =
     (case handler_scope ns handler of
        None \<Rightarrow> False
      | Some scope \<Rightarrow>
          (Some scope = node_parent_ref node \<or> scope \<in> set (ancestry ns (node_id node))) \<and>
          node_id handler \<notin> set (ancestry ns (node_id node)) \<and> node_id node \<noteq> node_id handler)"

definition scope_candidates :: "nodes \<Rightarrow> SemanticNode \<Rightarrow> bool \<Rightarrow> candidate list" where
  "scope_candidates ns node conservative =
     concat (map (\<lambda>handler.
       if in_scope ns node handler then
         (case specificity node conservative handler of
            Some lvl \<Rightarrow> [(length (ancestry ns (node_id handler)), lvl, handler)]
          | None \<Rightarrow> [])
       else []) (handlers ns))"

definition inside_handler :: "nodes \<Rightarrow> SemanticNode \<Rightarrow> bool" where
  "inside_handler ns node = list_ex (\<lambda>ref. kind_of ns ref = Some ERROR_HANDLER) (ancestry ns (node_id node))"

definition handler_candidates :: "nodes \<Rightarrow> SemanticNode \<Rightarrow> bool \<Rightarrow> candidate list" where
  "handler_candidates ns node conservative =
     (if inside_handler ns node then []
      else
        (let candidates = scope_candidates ns node conservative
         in if candidates = [] then []
            else (let nearest_depth = Max (set (map fst candidates))
                  in filter (\<lambda>item. fst item = nearest_depth) candidates)))"

definition applicable_handler :: "nodes \<Rightarrow> SemanticNode \<Rightarrow> SemanticNode option" where
  "applicable_handler ns node =
     (case handler_candidates ns node False of
        [] \<Rightarrow> None
      | c # cs \<Rightarrow> Some (snd (snd (first_max (\<lambda>item. fst (snd item)) c cs))))"

section \<open>Calls of \<open>add_edge\<close>\<close>

text \<open>Normal control skips handler bodies.\<close>

definition declare_requests :: "nodes \<Rightarrow> string \<Rightarrow> SemanticNode \<Rightarrow> edge_req list" where
  "declare_requests ns exit_id handler =
     (let k = position ns (node_id handler) in
      if k + 1 < length ns then
        (let begin_n = ns ! (k + 1) in
         if is_begin_block begin_n \<and> node_parent_ref begin_n = Some (node_id handler) then
           (case List.find (\<lambda>c. is_end_block c \<and>
                   (node_parent_ref c = Some (node_id begin_n) \<or>
                    node_id begin_n \<in> set (ancestry ns (node_id c)))) (drop (k + 2) ns) of
              Some e \<Rightarrow> [(node_id handler, first_after ns exit_id (position ns (node_id e)), NEXT,
                          Some ''HANDLER_DECLARATION'')]
            | None \<Rightarrow> [])
         else [])
      else [])"

definition try_requests :: "nodes \<Rightarrow> string \<Rightarrow> SemanticNode \<Rightarrow> edge_req list" where
  "try_requests ns exit_id handler =
     (let k = position ns (node_id handler) in
      case (List.find (\<lambda>c. node_kind c = BLOCK \<and> py_startswith (node_upper c) ''END TRY'') (drop (k + 1) ns),
            List.find (\<lambda>c. node_kind c = ERROR_HANDLER \<and> py_startswith (node_upper c) ''BEGIN CATCH'')
              (drop (k + 1) ns)) of
        (Some end_try, Some begin_catch) \<Rightarrow>
          (case List.find (\<lambda>c. node_kind c = BLOCK \<and> py_startswith (node_upper c) ''END CATCH'')
                  (drop (position ns (node_id begin_catch) + 1) ns) of
             Some end_catch \<Rightarrow>
               [(node_id end_try, first_after ns exit_id (position ns (node_id end_catch)), NEXT,
                 Some ''TRY_SUCCESS'')]
           | None \<Rightarrow> [])
      | _ \<Rightarrow> [])"

definition exception_section_requests :: "nodes \<Rightarrow> SemanticNode \<Rightarrow> edge_req list" where
  "exception_section_requests ns handler =
     (let k = position ns (node_id handler);
          previous = (if 0 < k \<and> k - 1 < length ns then Some (ns ! (k - 1)) else None);
          end_n = List.find (\<lambda>c. is_end_block c \<and>
             (node_parent_ref handler = node_parent_ref c \<or>
              (case node_parent_ref handler of Some p \<Rightarrow> p \<in> set (ancestry ns (node_id c)) | None \<Rightarrow> False)))
             (drop (k + 1) ns)
      in case (previous, end_n) of
           (Some p, Some e) \<Rightarrow>
             (if node_kind p \<in> set terminal_kinds then []
              else [(node_id p, node_id e, NEXT, Some ''NO_EXCEPTION'')])
         | _ \<Rightarrow> [])"

definition handler_requests :: "nodes \<Rightarrow> string \<Rightarrow> SemanticNode \<Rightarrow> edge_req list" where
  "handler_requests ns exit_id handler =
     (let upper = node_upper handler in
      if py_startswith upper ''DECLARE '' \<and> position ns (node_id handler) + 1 < length ns then
        declare_requests ns exit_id handler
      else if py_startswith upper ''BEGIN TRY'' then try_requests ns exit_id handler
      else if py_startswith upper ''EXCEPTION'' then exception_section_requests ns handler
      else [])"

text \<open>Explicit transfers.\<close>

definition goto_label :: "SemanticNode \<Rightarrow> attr" where
  "goto_label node = (case map_of (node_attributes node) ''label_name'' of Some v \<Rightarrow> v | None \<Rightarrow> ANone)"

definition goto_target :: "nodes \<Rightarrow> SemanticNode \<Rightarrow> string option" where
  "goto_target ns node =
     (if attr_truthy (goto_label node) then labels ns (py_upper (attr_str (goto_label node))) else None)"

definition loop_control_kind :: "SemanticNode \<Rightarrow> string" where
  "loop_control_kind node =
     py_rstrip_of (in_chars '';'') (py_upper (attr_get_str (node_attributes node) ''control_kind''))"

definition labelled_requests :: "nodes \<Rightarrow> string \<Rightarrow> SemanticNode \<Rightarrow> string \<Rightarrow> edge_req list" where
  "labelled_requests ns exit_id node target_label =
     (let control = loop_control_kind node in
      case labels ns (py_upper target_label) of
        None \<Rightarrow> []
      | Some label_ref \<Rightarrow> if label_ref = [] then [] else
          (let after = drop (position ns label_ref + 1) ns;
               labelled_loop = (if control = ''ITERATE'' then
                  List.find (\<lambda>c. node_kind c = LOOP \<and>
                     (node_parent_ref c = Some label_ref \<or> label_ref \<in> set (ancestry ns (node_id c)))) after
                  else None)
           in case labelled_loop of
                Some l \<Rightarrow> [(node_id node, node_id l, LOOP_BACK, Some (''ITERATE '' @ target_label))]
              | None \<Rightarrow>
                  (case List.find (\<lambda>c. node_kind c = BLOCK \<and>
                          py_startswith (py_rstrip_of (in_chars '';$'') (node_upper c))
                            (''END '' @ py_upper target_label)) after of
                     Some e \<Rightarrow> [(node_id node, first_after ns exit_id (position ns (node_id e)), BRANCH,
                                 Some (control @ '' '' @ target_label))]
                   | None \<Rightarrow> [])))"

definition target_label_of :: "SemanticNode \<Rightarrow> string option" where
  "target_label_of node =
     (case attr_string (node_attributes node) ''target_label'' of
        Some l \<Rightarrow> if l = [] then None else Some l | None \<Rightarrow> None)"

definition labelled_or_nil :: "nodes \<Rightarrow> string \<Rightarrow> SemanticNode \<Rightarrow> edge_req list" where
  "labelled_or_nil ns exit_id node =
     (case target_label_of node of Some l \<Rightarrow> labelled_requests ns exit_id node l | None \<Rightarrow> [])"

definition loop_control_requests :: "nodes \<Rightarrow> string \<Rightarrow> SemanticNode \<Rightarrow> edge_req list" where
  "loop_control_requests ns exit_id node =
     (let labelled = labelled_or_nil ns exit_id node; control = loop_control_kind node in
      if labelled \<noteq> [] then labelled
      else case enclosing_loop ns node of
        None \<Rightarrow> []
      | Some loop \<Rightarrow>
          (if control \<in> set [''CONTINUE'', ''ITERATE'']
           then [(node_id node, node_id loop, LOOP_BACK, Some control)]
           else [(node_id node, loop_exit ns exit_id loop, BRANCH,
                  Some (if control = [] then ''LOOP_EXIT'' else control))]))"

definition transfer_requests :: "nodes \<Rightarrow> string \<Rightarrow> SemanticNode \<Rightarrow> edge_req list" where
  "transfer_requests ns exit_id node =
     (if node_kind node = RETURN then [(node_id node, exit_id, BRANCH, Some ''RETURN'')]
      else if node_kind node = ERROR_RAISE then
        [(node_id node, (case applicable_handler ns node of Some h \<Rightarrow> node_id h | None \<Rightarrow> exit_id),
          EXCEPTION, Some (or_str (node_error_code node) ''RAISE''))]
      else if node_kind node = GOTO then
        (case goto_target ns node of
           Some target \<Rightarrow>
             (if target = [] then []
              else [(node_id node, target, BRANCH, Some (''GOTO '' @ attr_str (goto_label node)))])
         | None \<Rightarrow> [])
      else if node_kind node = LOOP_CONTROL then loop_control_requests ns exit_id node
      else [])"

definition attr_repr :: "attr \<Rightarrow> string" where
  "attr_repr v = (case v of AStr s \<Rightarrow> py_repr_str s | _ \<Rightarrow> attr_str v)"

definition mk_finding :: "string \<Rightarrow> Severity \<Rightarrow> string \<Rightarrow> SourceSpan option \<Rightarrow> string \<Rightarrow> SemanticFinding" where
  "mk_finding code sev msg span cons =
     \<lparr>finding_code = code, finding_severity = sev, finding_message = msg,
      finding_source_span = span, finding_consequence = cons\<rparr>"

definition transfer_findings :: "nodes \<Rightarrow> string \<Rightarrow> SemanticNode \<Rightarrow> SemanticFinding list" where
  "transfer_findings ns exit_id node =
     (if node_kind node = GOTO \<and> \<not> truthy (goto_target ns node) then
        [mk_finding ''UNRESOLVED_GOTO_LABEL'' SEV_ERROR
           (''GOTO target '' @ attr_repr (goto_label node) @ '' did not resolve to a local label.'')
           (Some (node_source_span node)) ''Control-flow completeness is partial.'']
      else if node_kind node = LOOP_CONTROL \<and> labelled_or_nil ns exit_id node = [] \<and>
              enclosing_loop ns node = None then
        [mk_finding ''LOOP_CONTROL_TARGET_UNRESOLVED'' SEV_ERROR
           ((if loop_control_kind node = [] then ''Loop control'' else loop_control_kind node) @
              '' target could not be resolved.'')
           (Some (node_source_span node)) ''The transfer target is unresolved.'']
      else [])"

definition loop_exit_requests :: "nodes \<Rightarrow> string \<Rightarrow> SemanticNode \<Rightarrow> edge_req list" where
  "loop_exit_requests ns exit_id loop =
     (if node_kind loop = LOOP then
        [(node_id loop, loop_exit ns exit_id loop, FALSE_E,
          Some (or_str (node_condition_text loop) ''LOOP_EXIT''))]
      else [])"

text \<open>Joins of IF and CASE branches.\<close>

definition branch_kind_of :: "SemanticNode \<Rightarrow> string" where
  "branch_kind_of n = attr_get_str (node_attributes n) ''branch_kind''"

definition is_branch_arm :: "SemanticNode \<Rightarrow> bool" where
  "is_branch_arm n =
     (node_kind n = CONDITION \<and> branch_kind_of n \<in> set [''ELSE'', ''ELSIF'', ''ELSEIF'', ''WHEN''])"

definition is_branch_root :: "SemanticNode \<Rightarrow> bool" where
  "is_branch_root n = ((node_kind n = CONDITION \<or> node_kind n = CASE_K) \<and> \<not> is_branch_arm n)"

definition subtree_indices :: "nodes \<Rightarrow> SemanticNode \<Rightarrow> nat list" where
  "subtree_indices ns root =
     map (\<lambda>n. position ns (node_id n))
       (filter (\<lambda>n. is_descendant ns (node_id n) (node_id root)) (drop (position ns (node_id root) + 1) ns))"

definition nodes_between :: "nodes \<Rightarrow> nat \<Rightarrow> nat \<Rightarrow> nodes" where
  "nodes_between ns i j = take (j - i) (drop i ns)"

definition branch_nodes :: "nodes \<Rightarrow> SemanticNode \<Rightarrow> nat \<Rightarrow> nodes" where
  "branch_nodes ns root last_index =
     root # filter (\<lambda>n. is_branch_arm n \<and> node_parent_ref n = Some (node_id root))
              (nodes_between ns (position ns (node_id root) + 1) (last_index + 1))"

fun arm_joins :: "nodes \<Rightarrow> string \<Rightarrow> nat \<Rightarrow> nodes \<Rightarrow> edge_req list" where
  "arm_joins ns join_target last_index [] = []"
| "arm_joins ns join_target last_index (branch # rest) =
     (let begin_i = position ns (node_id branch) + 1;
          stop_i = (case rest of [] \<Rightarrow> last_index + 1 | b # _ \<Rightarrow> position ns (node_id b));
          body = filter (\<lambda>n. is_descendant ns (node_id n) (node_id branch) \<and> node_kind n \<noteq> BLOCK)
                   (nodes_between ns begin_i stop_i)
      in (if body = [] then []
          else if node_kind (last body) \<in> set terminal_kinds \<or> node_kind (last body) = LOOP_CONTROL then []
          else [(node_id (last body), join_target, BRANCH, Some ''JOIN'')]) @
         arm_joins ns join_target last_index rest)"

definition join_requests :: "nodes \<Rightarrow> string \<Rightarrow> SemanticNode \<Rightarrow> edge_req list" where
  "join_requests ns exit_id root =
     (if \<not> is_branch_root root \<or> subtree_indices ns root = [] then []
      else
        (let last_index = Max (set (subtree_indices ns root));
             join_target = first_after ns exit_id last_index;
             branches = branch_nodes ns root last_index
         in arm_joins ns join_target last_index branches @
            (if node_kind root = CONDITION \<and> \<not> list_ex (\<lambda>b. branch_kind_of b = ''ELSE'') branches
             then [(node_id root, join_target, FALSE_E, node_condition_text root)] else []) @
            (if node_kind root = CASE_K then [(node_id root, join_target, BRANCH, Some ''NO_MATCH'')] else [])))"

definition exception_requests :: "nodes \<Rightarrow> SemanticNode \<Rightarrow> edge_req list" where
  "exception_requests ns node =
     (if node_kind node \<notin> set potentially_failing \<or> node_kind node \<in> set [ERROR_HANDLER, ERROR_RAISE] then []
      else map (\<lambda>(depth, lvl, handler).
             (node_id node, node_id handler, EXCEPTION,
              Some (or_str (node_condition_text handler) (py_strip (node_text handler)))))
           (handler_candidates ns node True))"

text \<open>
  External call targets. The state is the dictionary from call targets to node ids, in
  insertion order, the nodes added and the calls made.
\<close>

definition is_call :: "SemanticNode \<Rightarrow> bool" where
  "is_call node = (node_kind node = CALL \<and> truthy (node_call_target node))"

definition call_target_node :: "string \<Rightarrow> string \<Rightarrow> SemanticNode \<Rightarrow> SemanticNode" where
  "call_target_node target_id target node =
     \<lparr>node_id = target_id, node_kind = CALL_TARGET, node_text = ''EXTERNAL ROUTINE '' @ target,
      node_source_span = node_source_span node, node_parent_ref = None, node_condition_text = None,
      node_target_name = Some target, node_expression_text = None, node_relation_refs = [],
      node_variable_reads = [], node_variable_writes = [], node_call_target = None,
      node_cursor_name = None, node_error_code = None, node_modality = MAY,
      node_attributes = [(''external'', ABool True)]\<rparr>"

type_synonym call_state = "(string \<times> string) list \<times> nodes \<times> edge_req list"

definition call_step :: "call_state \<Rightarrow> SemanticNode \<Rightarrow> call_state" where
  "call_step st node =
     (case st of (targets, added, reqs) \<Rightarrow>
        (if \<not> is_call node then st
         else
           (let target = or_str (node_call_target node) [] in
            case map_of targets target of
              Some target_id \<Rightarrow> (targets, added, reqs @ [(node_id node, target_id, CALLS, Some target)])
            | None \<Rightarrow>
                (let target_id = str_nat ''call-target-'' (length targets + 1)
                 in (targets @ [(target, target_id)], added @ [call_target_node target_id target node],
                     reqs @ [(node_id node, target_id, CALLS, Some target)])))))"

definition call_pass :: "nodes \<Rightarrow> call_state" where
  "call_pass ns = foldl call_step ([], [], []) ns"

text \<open>Last-writer dependencies.\<close>

definition read_requests :: "(string \<rightharpoonup> string) \<Rightarrow> SemanticNode \<Rightarrow> edge_req list" where
  "read_requests last_writer node =
     concat (map (\<lambda>v. case last_writer v of
         Some writer \<Rightarrow>
           (if writer \<noteq> [] \<and> writer \<noteq> node_id node then [(writer, node_id node, DATA_DEPENDENCY, Some v)] else [])
       | None \<Rightarrow> []) (node_variable_reads node))"

definition write_update :: "(string \<rightharpoonup> string) \<Rightarrow> SemanticNode \<Rightarrow> (string \<rightharpoonup> string)" where
  "write_update last_writer node = foldl (\<lambda>m v. m(v \<mapsto> node_id node)) last_writer (node_variable_writes node)"

fun data_requests :: "(string \<rightharpoonup> string) \<Rightarrow> nodes \<Rightarrow> edge_req list" where
  "data_requests last_writer [] = []"
| "data_requests last_writer (node # ns) =
     read_requests last_writer node @ data_requests (write_update last_writer node) ns"

section \<open>Renumbering\<close>

fun renumber :: "nat \<Rightarrow> edge_req list \<Rightarrow> SemanticEdge list \<Rightarrow> SemanticEdge list" where
  "renumber n seen [] = []"
| "renumber n seen (e # es) =
     (if edge_key e \<in> set seen then renumber n seen es
      else e\<lparr>edge_id := str_nat ''edge-'' (n + 1)\<rparr> # renumber (n + 1) (edge_key e # seen) es)"

section \<open>Reachability\<close>

definition is_control_edge :: "SemanticEdge \<Rightarrow> bool" where
  "is_control_edge e = (edge_kind e \<noteq> CALLS \<and> edge_kind e \<noteq> DATA_DEPENDENCY)"

definition successors :: "SemanticEdge list \<Rightarrow> string \<Rightarrow> string list" where
  "successors es s = map edge_target_ref (filter (\<lambda>e. is_control_edge e \<and> edge_source_ref e = s) es)"

text \<open>The inner loop: the targets appended to the queue, which are those new to \<open>reachable\<close>.\<close>

fun discover :: "string list \<Rightarrow> string list \<Rightarrow> string list" where
  "discover reachable [] = []"
| "discover reachable (t # ts) =
     (if t \<in> set reachable then discover reachable ts else t # discover (reachable @ [t]) ts)"

lemma discover_set: "set (discover reachable ts) = set ts - set reachable"
  by (induction reachable ts rule: discover.induct) auto

function bfs :: "SemanticEdge list \<Rightarrow> string list \<Rightarrow> string list \<Rightarrow> string list" where
  "bfs es [] reachable = reachable"
| "bfs es (s # queue) reachable =
     (let found = discover reachable (successors es s) in bfs es (queue @ found) (reachable @ found))"
  by pat_completeness auto

lemma successors_subset: "set (successors es s) \<subseteq> edge_target_ref ` set es"
  by (auto simp: successors_def)

lemma bfs_measure:
  assumes "found = discover reachable (successors es s)"
  shows "card (edge_target_ref ` set es - set (reachable @ found)) < card (edge_target_ref ` set es - set reachable) \<or>
    card (edge_target_ref ` set es - set (reachable @ found)) = card (edge_target_ref ` set es - set reachable) \<and>
    length (queue @ found) < length (s # queue)"
proof (cases "found = []")
  case False
  then obtain t where "t \<in> set found" by (cases found) auto
  then have "t \<in> edge_target_ref ` set es" "t \<notin> set reachable"
    using assms discover_set subsetD [OF successors_subset] by auto
  with \<open>t \<in> set found\<close> have
    "edge_target_ref ` set es - set (reachable @ found) \<subset> edge_target_ref ` set es - set reachable"
    by auto
  then show ?thesis by (simp add: psubset_card_mono)
qed simp

termination bfs
  by (relation "inv_image (less_than <*lex*> less_than)
      (\<lambda>(es, queue, reachable). (card (edge_target_ref ` set es - set reachable), length queue))")
    (use bfs_measure in \<open>auto\<close>)

definition mark_handlers :: "nodes \<Rightarrow> string list \<Rightarrow> string list" where
  "mark_handlers ns reachable =
     foldl (\<lambda>r node.
        if node_kind node = ERROR_HANDLER \<and>
           list_ex (\<lambda>c. node_id c \<in> set r \<and> is_descendant ns (node_id c) (node_id node)) ns
        then append_new r (node_id node) else r) reachable ns"

definition stays_as_is :: "string list \<Rightarrow> SemanticNode \<Rightarrow> bool" where
  "stays_as_is reachable node = (node_kind node \<in> set [ENTRY, EXIT, CALL_TARGET] \<or> node_id node \<in> set reachable)"

definition adjust_node :: "string list \<Rightarrow> SemanticNode \<Rightarrow> SemanticNode" where
  "adjust_node reachable node =
     (if stays_as_is reachable node then node else node\<lparr>node_modality := UNKNOWN\<rparr>)"

definition reported_offsets :: "SemanticFinding list \<Rightarrow> int list" where
  "reported_offsets findings =
     concat (map (\<lambda>f. if finding_code f = ''UNREACHABLE_STATEMENT'' then
        (case finding_source_span f of Some s \<Rightarrow> [span_start_offset s] | None \<Rightarrow> []) else []) findings)"

definition unreachable_finding :: "SemanticNode \<Rightarrow> SemanticFinding" where
  "unreachable_finding node =
     mk_finding ''UNREACHABLE_STATEMENT'' SEV_WARNING
       ''A statement has no reachable control-flow predecessor.'' (Some (node_source_span node))
       ''Its effects are retained as evidence but cannot be classified as executed on a reachable path.''"

definition unreachable_findings :: "SemanticFinding list \<Rightarrow> string list \<Rightarrow> nodes \<Rightarrow> SemanticFinding list" where
  "unreachable_findings findings reachable ns =
     map unreachable_finding
       (filter (\<lambda>node. \<not> stays_as_is reachable node \<and> node_kind node \<notin> set [BLOCK, ERROR_HANDLER] \<and>
          span_start_offset (node_source_span node) \<notin> set (reported_offsets findings)) ns)"

section \<open>The pass\<close>

definition all_requests :: "nodes \<Rightarrow> string \<Rightarrow> edge_req list" where
  "all_requests ns exit_id =
     concat (map (handler_requests ns exit_id) (handlers ns)) @
     concat (map (transfer_requests ns exit_id) ns) @
     concat (map (loop_exit_requests ns exit_id) ns) @
     concat (map (join_requests ns exit_id) ns) @
     concat (map (exception_requests ns) ns) @
     snd (snd (call_pass ns)) @
     data_requests Map.empty ns"

definition control_edges :: "nodes \<Rightarrow> SemanticEdge list \<Rightarrow> string \<Rightarrow> SemanticEdge list" where
  "control_edges ns edges exit_id = foldl add_edge (filter (keeps_edge ns) edges) (all_requests ns exit_id)"

definition reachable_ids :: "nodes \<Rightarrow> SemanticEdge list \<Rightarrow> string \<Rightarrow> string list" where
  "reachable_ids ns es entry_id = mark_handlers ns (bfs es [entry_id] [entry_id])"

definition refine_control_flow ::
  "nodes \<Rightarrow> SemanticEdge list \<Rightarrow> SemanticFinding list \<Rightarrow> string \<Rightarrow> string \<Rightarrow>
   nodes \<times> SemanticEdge list \<times> SemanticFinding list" where
  "refine_control_flow nodes edges findings entry_id exit_id =
     (let ns = source_nodes nodes;
          all_nodes = ns @ fst (snd (call_pass ns));
          unique = renumber 0 [] (control_edges ns edges exit_id);
          reachable = reachable_ids ns unique entry_id;
          findings' = findings @ concat (map (transfer_findings ns exit_id) ns)
      in (map (adjust_node reachable) all_nodes, unique,
          findings' @ unreachable_findings findings' reachable all_nodes))"

section \<open>Tables and ancestors\<close>

abbreviation ids :: "nodes \<Rightarrow> string set" where
  "ids ns \<equiv> node_id ` set ns"

lemma by_id_None_iff: "by_id ns i = None \<longleftrightarrow> i \<notin> ids ns"
  unfolding by_id_def by (auto simp: map_of_eq_None_iff image_iff)

lemma by_id_eq:
  assumes "distinct (map node_id ns)" "n \<in> set ns"
  shows "by_id ns (node_id n) = Some n"
proof -
  obtain m where m: "by_id ns (node_id n) = Some m"
    using assms(2) by_id_None_iff [of ns "node_id n"] by auto
  with assms by_id_Some [OF m] show ?thesis by (auto simp: distinct_map inj_on_def)
qed

lemma position_nth:
  assumes "distinct (map node_id ns)" "i < length ns"
  shows "position ns (node_id (ns ! i)) = i"
proof -
  let ?z = "rev (zip (map node_id ns) [0..<length ns])"
  have "distinct (map fst ?z)" using assms by (simp add: rev_map [symmetric])
  moreover have "(node_id (ns ! i), i) \<in> set ?z" using assms by (auto simp: set_zip intro!: exI [of _ i])
  ultimately have "map_of ?z (node_id (ns ! i)) = Some i" by (rule map_of_is_SomeI)
  then show ?thesis by (simp add: position_def)
qed

lemma position_less:
  assumes "i \<in> ids ns" shows "position ns i < length ns \<and> node_id (ns ! position ns i) = i"
proof -
  let ?z = "rev (zip (map node_id ns) [0..<length ns])"
  have "i \<in> fst ` set ?z" using assms by (simp flip: set_map)
  then obtain p where "map_of ?z i = Some p" using map_of_eq_None_iff [of ?z i] by auto
  then show ?thesis by (auto simp: position_def dest!: map_of_SomeD simp: set_zip)
qed

lemma find_drop_mem: "List.find P (drop k ns) = Some c \<Longrightarrow> c \<in> set ns \<and> P c"
  by (drule find_Some_mem) (auto dest: in_set_dropD)

lemma enclosing_loop_Some:
  assumes "enclosing_loop ns n = Some l"
  shows "l \<in> set ns \<and> node_kind l = LOOP \<and> node_id l \<in> set (ancestry ns (node_id n))"
proof -
  obtain ref where f: "List.find (\<lambda>ref. kind_of ns ref = Some LOOP) (ancestry ns (node_id n)) = Some ref"
    and b: "by_id ns ref = Some l"
    using assms by (auto simp: enclosing_loop_def split: option.splits)
  then show ?thesis using find_Some_mem [OF f] by_id_Some [OF b] by (auto simp: kind_of_def)
qed

text \<open>The ancestors form a chain of parent references without repetition.\<close>

fun parent_chain :: "nodes \<Rightarrow> string option \<Rightarrow> string list \<Rightarrow> bool" where
  "parent_chain ns cur [] = True"
| "parent_chain ns cur (x # xs) = (cur = Some x \<and> x \<noteq> [] \<and> parent_chain ns (parent_of ns x) xs)"

lemma anc_loop_chain:
  assumes "distinct acc"
  shows "\<exists>xs. anc_loop ns cur acc = acc @ xs \<and> distinct (acc @ xs) \<and> parent_chain ns cur xs"
  using assms
proof (induction ns cur acc rule: anc_loop.induct)
  case (2 ns c acc)
  show ?case
  proof (cases "c = [] \<or> c \<in> set acc")
    case False
    with 2 obtain xs where "anc_loop ns (parent_of ns c) (acc @ [c]) = (acc @ [c]) @ xs"
      "distinct ((acc @ [c]) @ xs)" "parent_chain ns (parent_of ns c) xs" by auto
    with False show ?thesis by (intro exI [of _ "c # xs"]) auto
  qed (use 2 in auto)
qed simp

lemma ancestors_chain: "distinct (ancestors ns n) \<and> parent_chain ns (node_parent_ref n) (ancestors ns n)"
  using anc_loop_chain [of "[]" ns "node_parent_ref n"] by (auto simp: ancestors_def)

lemma anc_loop_None: "by_id ns c = None \<Longrightarrow> c \<noteq> [] \<Longrightarrow> c \<notin> set acc \<Longrightarrow> anc_loop ns (Some c) acc = acc @ [c]"
  by (simp add: parent_of_def)

text \<open>Where parents precede their children no chain is cut: the ancestors of a child are its parent and the ancestors of the parent.\<close>

definition parents_precede :: "nodes \<Rightarrow> bool" where
  "parents_precede ns \<longleftrightarrow>
     (\<forall>i < length ns. case node_parent_ref (ns ! i) of
        Some p \<Rightarrow> (\<exists>j < i. node_id (ns ! j) = p) | None \<Rightarrow> True)"

lemma parents_precedeD:
  assumes "parents_precede ns" "i < length ns" "node_parent_ref (ns ! i) = Some p"
  obtains j where "j < i" "node_id (ns ! j) = p"
proof -
  have "case node_parent_ref (ns ! i) of Some p \<Rightarrow> (\<exists>j < i. node_id (ns ! j) = p) | None \<Rightarrow> True"
    using assms(1,2) unfolding parents_precede_def by blast
  then show ?thesis using assms(3) that by auto
qed

lemma disjoint_mono: "A \<inter> B = {} \<Longrightarrow> C \<subseteq> B \<Longrightarrow> A \<inter> C = {}"
  by blast

lemma anc_loop_prefix:
  assumes "distinct (map node_id ns)" "parents_precede ns" "i < length ns"
    and "set acc \<inter> ids (take i ns) = {}"
  shows "anc_loop ns (node_parent_ref (ns ! i)) acc = acc @ anc_loop ns (node_parent_ref (ns ! i)) []"
  using assms(3,4)
proof (induction i arbitrary: acc rule: less_induct)
  case (less i)
  show ?case
  proof (cases "node_parent_ref (ns ! i)")
    case (Some p)
    obtain j where j: "j < i" "node_id (ns ! j) = p"
      using parents_precedeD [OF assms(2) less.prems(1) Some] .
    have jl: "j < length ns" using j less.prems(1) by simp
    then have par: "parent_of ns p = node_parent_ref (ns ! j)"
      using by_id_eq [OF assms(1), of "ns ! j"] j by (simp add: parent_of_def)
    have sub: "ids (take j ns) \<subseteq> ids (take i ns)"
      using j set_take_subset_set_take [of j i ns] by auto
    have new: "p \<notin> ids (take j ns)"
      using assms(1) j jl by (auto simp: distinct_conv_nth in_set_conv_nth)
    have pin: "p \<in> ids (take i ns)" using j less.prems(1) by (auto simp: in_set_conv_nth intro!: image_eqI [of _ _ "ns ! j"] exI [of _ j])
    have step: "anc_loop ns (node_parent_ref (ns ! j)) (b @ [p]) = b @ [p] @ anc_loop ns (node_parent_ref (ns ! j)) []"
      if "set b \<inter> ids (take i ns) = {}" for b
    proof -
      have "set (b @ [p]) \<inter> ids (take j ns) = {}" using disjoint_mono [OF that sub] new by simp
      from less.IH [OF j(1) jl this] show ?thesis by simp
    qed
    have "p \<notin> set acc" using disjoint_iff [THEN iffD1, OF less.prems(2)] pin by metis
    then show ?thesis using step [OF less.prems(2)] step [of "[]"] by (simp add: Some par)
  qed simp
qed

lemma ancestry_parent:
  assumes "distinct (map node_id ns)" "parents_precede ns" "n \<in> set ns"
    and "node_parent_ref n = Some p" "p \<noteq> []"
  shows "ancestry ns (node_id n) = p # ancestry ns p"
proof -
  obtain i where i: "i < length ns" "n = ns ! i" using assms(3) by (auto simp: in_set_conv_nth)
  obtain j where j: "j < i" "node_id (ns ! j) = p"
    using parents_precedeD [OF assms(2) i(1)] assms(4) i(2) by auto
  have jl: "j < length ns" using i j by simp
  have b: "by_id ns p = Some (ns ! j)" using by_id_eq [OF assms(1), of "ns ! j"] jl j by simp
  have "set [p] \<inter> ids (take j ns) = {}" using assms(1) j jl by (auto simp: distinct_conv_nth in_set_conv_nth)
  then have "anc_loop ns (node_parent_ref (ns ! j)) [p] = p # anc_loop ns (node_parent_ref (ns ! j)) []"
    using anc_loop_prefix [OF assms(1,2) jl, of "[p]"] by simp
  then show ?thesis using assms b by (simp add: ancestry_def ancestors_def by_id_eq parent_of_def)
qed

section \<open>Every edge joins nodes of the graph\<close>

definition targets_in :: "nodes \<Rightarrow> string \<Rightarrow> string set" where
  "targets_in ns x = insert x (ids ns)"

definition req_within :: "nodes \<Rightarrow> string \<Rightarrow> edge_req \<Rightarrow> bool" where
  "req_within ns x r = (fst r \<in> ids ns \<and> fst (snd r) \<in> targets_in ns x)"

lemma targets_in_node [simp]: "n \<in> set ns \<Longrightarrow> node_id n \<in> targets_in ns x"
  by (simp add: targets_in_def)

lemma targets_in_exit [simp]: "x \<in> targets_in ns x"
  by (simp add: targets_in_def)

lemma first_after_in [simp]: "first_after ns x i \<in> targets_in ns x"
  by (simp add: first_after_def targets_in_def)

lemma loop_exit_in [simp]: "loop_exit ns x l \<in> targets_in ns x"
  by (simp add: loop_exit_def split: option.split)

lemma handler_candidates_mem: "c \<in> set (handler_candidates ns node b) \<Longrightarrow> snd (snd c) \<in> set (handlers ns)"
  by (auto simp: handler_candidates_def scope_candidates_def Let_def split: if_splits option.splits)

lemma handlers_mem: "h \<in> set (handlers ns) \<longleftrightarrow> h \<in> set ns \<and> node_kind h = ERROR_HANDLER"
  by (auto simp: handlers_def)

lemma applicable_handler_mem:
  assumes "applicable_handler ns node = Some h"
  shows "\<exists>d l. (d, l, h) \<in> set (handler_candidates ns node False)"
proof -
  obtain c cs where c: "handler_candidates ns node False = c # cs"
    "h = snd (snd (first_max (\<lambda>item. fst (snd item)) c cs))"
    using assms by (auto simp: applicable_handler_def split: list.splits)
  then have "first_max (\<lambda>item. fst (snd item)) c cs \<in> set (handler_candidates ns node False)"
    using first_max_mem [of "\<lambda>item. fst (snd item)" c cs] by auto
  with c(2) show ?thesis by (metis prod.collapse)
qed

lemma applicable_handler_in: "applicable_handler ns node = Some h \<Longrightarrow> h \<in> set ns"
  by (drule applicable_handler_mem) (auto simp: handlers_mem dest: handler_candidates_mem)

lemma labels_mem: "labels ns name = Some i \<Longrightarrow> i \<in> ids ns"
  unfolding labels_def by (drule map_of_SomeD) (auto split: if_splits option.splits)

lemma goto_target_mem: "goto_target ns n = Some i \<Longrightarrow> i \<in> targets_in ns x"
  by (auto simp: goto_target_def targets_in_def dest: labels_mem split: if_splits)

lemma find_drop_target [simp]: "List.find P (drop k ns) = Some c \<Longrightarrow> node_id c \<in> targets_in ns x"
  by (auto dest: find_drop_mem)

lemma enclosing_loop_target [simp]: "enclosing_loop ns n = Some l \<Longrightarrow> node_id l \<in> targets_in ns x"
  by (auto dest: enclosing_loop_Some)

lemma declare_requests_within:
  "list_all (\<lambda>r. fst r = node_id h \<and> fst (snd r) \<in> targets_in ns x) (declare_requests ns x h)"
  by (simp add: declare_requests_def Let_def split: option.split)

lemma try_requests_within:
  "list_all (\<lambda>r. \<exists>e \<in> set ns. fst r = node_id e \<and> node_kind e = BLOCK \<and> fst (snd r) \<in> targets_in ns x)
     (try_requests ns x h)"
  by (simp add: try_requests_def Let_def split: option.split) (auto dest!: find_drop_mem)

lemma exception_section_requests_within:
  assumes "h \<in> set ns"
  shows "list_all (\<lambda>r. \<exists>p \<in> set ns. fst r = node_id p \<and> fst (snd r) \<in> targets_in ns x \<and>
    node_kind p \<notin> set terminal_kinds) (exception_section_requests ns h)"
proof -
  let ?k = "position ns (node_id h)"
  have "?k < length ns" using assms position_less by blast
  then have "ns ! (?k - 1) \<in> set ns" by simp
  then show ?thesis by (auto simp add: exception_section_requests_def Let_def split: option.split)
qed

lemma handler_requests_cases:
  assumes "h \<in> set (handlers ns)" "r \<in> set (handler_requests ns x h)"
  shows "\<exists>p \<in> set ns. fst r = node_id p \<and> fst (snd r) \<in> targets_in ns x \<and> node_kind p \<notin> set terminal_kinds"
proof -
  have h: "h \<in> set ns" "node_kind h \<notin> set terminal_kinds" "BLOCK \<notin> set terminal_kinds"
    using assms(1) by (auto simp: handlers_mem terminal_kinds_def)
  consider "r \<in> set (declare_requests ns x h)" | "r \<in> set (try_requests ns x h)"
    | "r \<in> set (exception_section_requests ns h)"
    using assms(2) by (auto simp: handler_requests_def Let_def split: if_splits)
  then show ?thesis
  proof cases
    case 1 then show ?thesis using declare_requests_within [of h ns x] h by (auto simp: list_all_iff)
  next
    case 2 then show ?thesis using try_requests_within [of ns x h] h(3) unfolding list_all_iff by metis
  next
    case 3 then show ?thesis using exception_section_requests_within [OF h(1)] unfolding list_all_iff by blast
  qed
qed

abbreviation from_node :: "nodes \<Rightarrow> string \<Rightarrow> SemanticNode \<Rightarrow> edge_req \<Rightarrow> bool" where
  "from_node ns x n r \<equiv> fst r = node_id n \<and> fst (snd r) \<in> targets_in ns x"

lemma labelled_requests_within: "list_all (from_node ns x n) (labelled_requests ns x n l)"
  by (simp add: labelled_requests_def Let_def split: option.split)

lemma loop_control_requests_within: "list_all (from_node ns x n) (loop_control_requests ns x n)"
  by (simp add: loop_control_requests_def labelled_or_nil_def Let_def labelled_requests_within split: option.split)

lemma transfer_requests_within:
  assumes "n \<in> set ns" shows "list_all (from_node ns x n) (transfer_requests ns x n)"
  using assms
  by (simp add: transfer_requests_def applicable_handler_in goto_target_mem loop_control_requests_within
      split: option.split)

lemma arm_joins_within:
  assumes "r \<in> set (arm_joins ns j k bs)"
  shows "\<exists>n \<in> set ns. r = (node_id n, j, BRANCH, Some ''JOIN'') \<and> node_kind n \<notin> set terminal_kinds \<and>
    node_kind n \<noteq> LOOP_CONTROL"
  using assms
proof (induction ns j k bs rule: arm_joins.induct)
  case (2 ns j k b bs)
  have "last (filter P (nodes_between ns i m)) \<in> set ns" if "filter P (nodes_between ns i m) \<noteq> []" for P i m
    using last_in_set [OF that] by (auto simp: nodes_between_def dest: in_set_takeD in_set_dropD)
  with 2 show ?case by (auto simp: Let_def split: if_splits)
qed simp

lemma join_requests_within:
  assumes "n \<in> set ns" "r \<in> set (join_requests ns x n)" shows "req_within ns x r"
  using assms
  by (auto simp: join_requests_def req_within_def Let_def split: if_splits dest!: arm_joins_within)

lemma exception_requests_within:
  assumes "n \<in> set ns" "r \<in> set (exception_requests ns n)" shows "req_within ns x r"
  using assms
  by (auto simp: exception_requests_def req_within_def handlers_mem split: if_splits
      dest!: handler_candidates_mem)

text \<open>Call targets: each called routine has one node, and every call leads to the node of its target.\<close>

definition call_inv :: "nodes \<Rightarrow> call_state \<Rightarrow> bool" where
  "call_inv ns st = (case st of (targets, added, reqs) \<Rightarrow>
     map snd targets = map (str_nat ''call-target-'') [1..<Suc (length targets)] \<and>
     map node_id added = map snd targets \<and> map node_target_name added = map (Some \<circ> fst) targets \<and>
     distinct (map fst targets) \<and>
     (\<forall>m \<in> set added. node_kind m = CALL_TARGET \<and> (\<exists>n \<in> set ns. node_source_span m = node_source_span n)) \<and>
     (\<forall>r \<in> set reqs. \<exists>n \<in> set ns. \<exists>t. is_call n \<and> node_call_target n = Some t \<and> (t, fst (snd r)) \<in> set targets \<and>
        fst r = node_id n \<and> snd (snd r) = (CALLS, Some t)))"

lemma call_step_inv: "call_inv ns st \<Longrightarrow> call_inv (ns @ [n]) (call_step st n)"
proof -
  assume inv: "call_inv ns st"
  obtain T A R where st: "st = (T, A, R)" by (cases st)
  show ?thesis
  proof (cases "is_call n")
    case False
    with inv st show ?thesis by (fastforce simp: call_inv_def call_step_def)
  next
    case True
    then obtain t where t: "node_call_target n = Some t" "or_str (node_call_target n) [] = t"
      by (auto simp: is_call_def truthy_def or_str_def split: option.splits)
    show ?thesis
    proof (cases "map_of T t")
      case None
      then have "t \<notin> fst ` set T" by (simp add: map_of_eq_None_iff)
      with inv st True t None show ?thesis
        by (fastforce simp: call_inv_def call_step_def Let_def call_target_node_def)
    next
      case (Some i)
      then have "(t, i) \<in> set T" by (rule map_of_SomeD)
      with inv st True t Some show ?thesis by (fastforce simp: call_inv_def call_step_def Let_def)
    qed
  qed
qed

lemma call_pass_inv: "call_inv ns (call_pass ns)"
proof (induction ns rule: rev_induct)
  case (snoc n ns)
  then show ?case using call_step_inv by (simp add: call_pass_def)
qed (simp add: call_pass_def call_inv_def)

abbreviation call_nodes :: "nodes \<Rightarrow> nodes" where
  "call_nodes ns \<equiv> fst (snd (call_pass ns))"

abbreviation call_requests :: "nodes \<Rightarrow> edge_req list" where
  "call_requests ns \<equiv> snd (snd (call_pass ns))"

lemma call_node_ids: "map node_id (call_nodes ns) = map (str_nat ''call-target-'') [1..<Suc (length (call_nodes ns))]"
proof -
  obtain T A R where c: "call_pass ns = (T, A, R)" by (cases "call_pass ns")
  have "length A = length T" using call_pass_inv [of ns] c by (auto simp: call_inv_def dest: map_eq_imp_length_eq)
  then show ?thesis using call_pass_inv [of ns] c by (simp add: call_inv_def)
qed

lemma call_requests_within:
  assumes "r \<in> set (call_requests ns)"
  shows "\<exists>n \<in> set ns. \<exists>m \<in> set (call_nodes ns). \<exists>t. is_call n \<and> node_call_target n = Some t \<and>
    node_target_name m = Some t \<and> r = (node_id n, node_id m, CALLS, Some t)"
proof -
  obtain T A R where c: "call_pass ns = (T, A, R)" by (cases "call_pass ns")
  have inv: "map node_id A = map snd T" "map node_target_name A = map (Some \<circ> fst) T"
    using call_pass_inv [of ns] c by (auto simp: call_inv_def)
  obtain n t where n: "n \<in> set ns" "is_call n" "node_call_target n = Some t" "(t, fst (snd r)) \<in> set T"
    "fst r = node_id n" "snd (snd r) = (CALLS, Some t)"
    using call_pass_inv [of ns] c assms by (fastforce simp: call_inv_def)
  obtain i where i: "i < length T" "T ! i = (t, fst (snd r))" using n(4) by (auto simp: in_set_conv_nth)
  have "length A = length T" using map_eq_imp_length_eq [OF inv(1)] .
  then have "A ! i \<in> set A" "node_id (A ! i) = fst (snd r)" "node_target_name (A ! i) = Some t"
    using i arg_cong [OF inv(1), of "\<lambda>xs. xs ! i"] arg_cong [OF inv(2), of "\<lambda>xs. xs ! i"] by auto
  with n c show ?thesis by (metis fst_conv snd_conv prod.collapse)
qed

section \<open>The edge list\<close>

lemma add_edge_set:
  "set (add_edge es r) \<subseteq> insert (mk_edge ''pending'' r) (set es) \<and> set es \<subseteq> set (add_edge es r)"
  by (cases r) (auto simp: add_edge_def)

lemma edge_key_mk [simp]: "edge_key (mk_edge i r) = r"
  by (cases r) (simp add: edge_key_def mk_edge_def)

lemma foldl_add_edge_keys: "edge_key ` set (foldl add_edge es rs) \<subseteq> edge_key ` set es \<union> set rs"
proof (induction rs arbitrary: es)
  case (Cons r rs)
  have "edge_key ` set (add_edge es r) \<subseteq> insert r (edge_key ` set es)"
    using add_edge_set [of es r] by (auto simp: image_iff)
  then have "edge_key ` set (add_edge es r) \<union> set rs \<subseteq> edge_key ` set es \<union> set (r # rs)" by auto
  with Cons [of "add_edge es r"] show ?case by (simp only: foldl_Cons)
qed simp

lemma foldl_add_edge_kept: "set es \<subseteq> set (foldl add_edge es rs)"
  using add_edge_set by (induction rs arbitrary: es) (simp, fastforce)

definition self_edge :: "edge_req \<Rightarrow> bool" where
  "self_edge r = (fst r = fst (snd r) \<and> fst (snd (snd r)) \<noteq> LOOP_BACK)"

lemma add_edge_adds: "\<not> self_edge r \<Longrightarrow> r \<in> edge_key ` set (add_edge es r)"
  by (cases r) (auto simp: add_edge_def self_edge_def list_ex_iff intro: rev_image_eqI)

lemma foldl_add_edge_adds:
  assumes "r \<in> set rs" "\<not> self_edge r" shows "r \<in> edge_key ` set (foldl add_edge es rs)"
  using assms(1)
proof (induction rs arbitrary: es)
  case (Cons q rs)
  show ?case
  proof (cases "r = q")
    case True
    with add_edge_adds [OF assms(2), of es] foldl_add_edge_kept [of "add_edge es q" rs] show ?thesis by auto
  qed (use Cons in auto)
qed simp

lemma renumber_keys: "edge_key ` set (renumber n seen es) = edge_key ` set es - set seen"
  by (induction n seen es rule: renumber.induct) (auto simp: edge_key_def)

lemma renumber_distinct: "distinct (map edge_key (renumber n seen es))"
proof (induction n seen es rule: renumber.induct)
  case (2 n seen e es)
  have "edge_key e \<notin> edge_key ` set (renumber (n + 1) (edge_key e # seen) es)"
    by (simp add: renumber_keys)
  moreover have "edge_key (e\<lparr>edge_id := i\<rparr>) = edge_key e" for i by (simp add: edge_key_def)
  ultimately show ?case using 2 by simp
qed simp

lemma renumber_ids:
  "map edge_id (renumber n seen es) = map (str_nat ''edge-'') [n + 1..<n + 1 + length (renumber n seen es)]"
proof (induction n seen es rule: renumber.induct)
  case (2 n seen e es)
  have "[Suc n..<Suc (Suc (n + k))] = Suc n # [Suc (Suc n)..<Suc (Suc (n + k))]" for k
    by (rule upt_conv_Cons) simp
  with 2 show ?case by (simp del: upt_Suc)
qed simp

section \<open>Data dependencies lead from the last writer\<close>

definition last_write :: "nodes \<Rightarrow> string \<Rightarrow> nat \<Rightarrow> nat \<Rightarrow> bool" where
  "last_write ns v b a \<longleftrightarrow>
     a < b \<and> v \<in> set (node_variable_writes (ns ! a)) \<and> (\<forall>k. a < k \<and> k < b \<longrightarrow> v \<notin> set (node_variable_writes (ns ! k)))"

lemma write_update_apply:
  "write_update m n v = (if v \<in> set (node_variable_writes n) then Some (node_id n) else m v)"
proof -
  have "foldl (\<lambda>m v. m(v \<mapsto> i)) m vs v = (if v \<in> set vs then Some i else m v)" for vs and i :: string
    by (induction vs arbitrary: m) auto
  then show ?thesis by (simp add: write_update_def)
qed

lemma last_writer_iff:
  "b \<le> length ns \<Longrightarrow> foldl write_update Map.empty (take b ns) v = Some w \<longleftrightarrow>
     (\<exists>a. last_write ns v b a \<and> w = node_id (ns ! a))"
proof (induction b)
  case 0
  then show ?case by (simp add: last_write_def)
next
  case (Suc b)
  then have f: "foldl write_update Map.empty (take (Suc b) ns) =
      write_update (foldl write_update Map.empty (take b ns)) (ns ! b)"
    by (simp add: take_Suc_conv_app_nth)
  show ?case
  proof (cases "v \<in> set (node_variable_writes (ns ! b))")
    case True
    then have "last_write ns v (Suc b) a \<longleftrightarrow> a = b" for a by (auto simp: last_write_def less_Suc_eq)
    with True show ?thesis by (auto simp: f write_update_apply [of _ "ns ! b"])
  next
    case False
    then have "last_write ns v (Suc b) a \<longleftrightarrow> last_write ns v b a" for a
      by (auto simp: last_write_def less_Suc_eq)
    with False Suc show ?thesis by (simp add: f write_update_apply [of _ "ns ! b"])
  qed
qed

lemma data_requests_set:
  "set (data_requests m ns) =
     (\<Union>b < length ns. set (read_requests (foldl write_update m (take b ns)) (ns ! b)))"
proof (induction ns arbitrary: m)
  case (Cons n ns)
  have "{..<length (n # ns)} = insert 0 (Suc ` {..<length ns})" by (simp add: lessThan_Suc_eq_insert_0)
  then show ?case using Cons by simp
qed simp

lemma read_requests_mem:
  "r \<in> set (read_requests m n) \<longleftrightarrow>
     (\<exists>v w. v \<in> set (node_variable_reads n) \<and> m v = Some w \<and> w \<noteq> [] \<and> w \<noteq> node_id n \<and>
        r = (w, node_id n, DATA_DEPENDENCY, Some v))"
  by (fastforce simp: read_requests_def split: option.splits if_splits)

lemma data_requests_mem:
  "r \<in> set (data_requests Map.empty ns) \<longleftrightarrow>
     (\<exists>a b v. b < length ns \<and> last_write ns v b a \<and> v \<in> set (node_variable_reads (ns ! b)) \<and>
        node_id (ns ! a) \<noteq> [] \<and> node_id (ns ! a) \<noteq> node_id (ns ! b) \<and>
        r = (node_id (ns ! a), node_id (ns ! b), DATA_DEPENDENCY, Some v))"
proof -
  have "r \<in> set (data_requests Map.empty ns) \<longleftrightarrow>
    (\<exists>b < length ns. \<exists>v w. v \<in> set (node_variable_reads (ns ! b)) \<and>
       foldl write_update Map.empty (take b ns) v = Some w \<and> w \<noteq> [] \<and> w \<noteq> node_id (ns ! b) \<and>
       r = (w, node_id (ns ! b), DATA_DEPENDENCY, Some v))"
    by (auto simp: data_requests_set read_requests_mem)
  then show ?thesis using last_writer_iff [OF less_imp_le] by (smt (verit, best))
qed

section \<open>Reachability\<close>

definition control_rel :: "SemanticEdge list \<Rightarrow> (string \<times> string) set" where
  "control_rel es = {(edge_source_ref e, edge_target_ref e) | e. e \<in> set es \<and> is_control_edge e}"

lemma successors_rel: "set (successors es s) = control_rel es `` {s}"
  by (auto simp: successors_def control_rel_def)

lemma bfs_sound: "set q \<subseteq> set r \<Longrightarrow> set (bfs es q r) \<subseteq> (control_rel es)\<^sup>* `` set r"
proof (induction es q r rule: bfs.induct)
  case (2 es s q r)
  let ?f = "discover r (successors es s)"
  have "set ?f \<subseteq> (control_rel es)\<^sup>* `` set r"
    using 2(2) by (auto simp: discover_set successors_rel)
  moreover have "set r \<subseteq> (control_rel es)\<^sup>* `` set r" by auto
  ultimately have sub: "set (r @ ?f) \<subseteq> (control_rel es)\<^sup>* `` set r" by simp
  have "set (bfs es (s # q) r) \<subseteq> (control_rel es)\<^sup>* `` set (r @ ?f)" using 2 by (auto simp: Let_def)
  also have "\<dots> \<subseteq> (control_rel es)\<^sup>* `` ((control_rel es)\<^sup>* `` set r)" using sub by (rule Image_mono [OF order_refl])
  also have "\<dots> = (control_rel es)\<^sup>* `` set r" by (auto dest: rtrancl_trans)
  finally show ?case .
qed auto

lemma bfs_closed:
  assumes "set q \<subseteq> set r" "control_rel es `` (set r - set q) \<subseteq> set r"
  shows "set r \<subseteq> set (bfs es q r) \<and> control_rel es `` set (bfs es q r) \<subseteq> set (bfs es q r)"
  using assms
proof (induction es q r rule: bfs.induct)
  case (2 es s q r)
  let ?f = "discover r (successors es s)"
  have "set (q @ ?f) \<subseteq> set (r @ ?f)" using 2(2) by auto
  moreover have "control_rel es `` (set (r @ ?f) - set (q @ ?f)) \<subseteq> set (r @ ?f)"
  proof -
    have "set (r @ ?f) - set (q @ ?f) \<subseteq> insert s (set r - set (s # q))" by auto
    then have "control_rel es `` (set (r @ ?f) - set (q @ ?f)) \<subseteq> control_rel es `` {s} \<union> control_rel es `` (set r - set (s # q))"
      by blast
    also have "\<dots> \<subseteq> set (r @ ?f)" using 2(3) by (auto simp: discover_set successors_rel)
    finally show ?thesis .
  qed
  ultimately show ?case using 2(1) [OF refl] by (auto simp: Let_def)
qed simp

lemma bfs_reachable: "set (bfs es [s] [s]) = (control_rel es)\<^sup>* `` {s}"
proof (rule set_eqI, rule iffI)
  fix x assume "x \<in> set (bfs es [s] [s])"
  then show "x \<in> (control_rel es)\<^sup>* `` {s}" using bfs_sound [of "[s]" "[s]" es] by auto
next
  fix x assume "x \<in> (control_rel es)\<^sup>* `` {s}"
  then have "(s, x) \<in> (control_rel es)\<^sup>*" by simp
  then show "x \<in> set (bfs es [s] [s])"
    using bfs_closed [of "[s]" "[s]" es] by (induction rule: rtrancl_induct) auto
qed

lemma is_descendant_mem: "is_descendant ns a b \<Longrightarrow> a \<in> ids ns"
  by (cases "by_id ns a") (auto simp: is_descendant_def ancestry_def dest: by_id_Some)

lemma ancestry_closed:
  assumes "distinct (map node_id ns)" "parents_precede ns" "i < length ns"
    and "b \<in> set (ancestry ns (node_id (ns ! i)))"
  shows "set (ancestry ns b) \<subseteq> set (ancestry ns (node_id (ns ! i)))"
  using assms(3,4)
proof (induction i rule: less_induct)
  case (less i)
  have a: "ancestry ns (node_id (ns ! i)) = anc_loop ns (node_parent_ref (ns ! i)) []"
    using assms(1) less.prems(1) by (simp add: ancestry_def ancestors_def by_id_eq)
  show ?case
  proof (cases "node_parent_ref (ns ! i)")
    case None
    then show ?thesis using less.prems(2) a by simp
  next
    case (Some p)
    show ?thesis
    proof (cases "p = []")
      case True
      then show ?thesis using less.prems(2) a Some by simp
    next
      case False
      have eq: "ancestry ns (node_id (ns ! i)) = p # ancestry ns p"
        using ancestry_parent [OF assms(1,2) _ Some False] less.prems(1) by simp
      obtain j where j: "j < i" "node_id (ns ! j) = p" using parents_precedeD [OF assms(2) less.prems(1) Some] .
      show ?thesis using less.prems(2) less.IH [OF j(1)] j less.prems(1) eq by auto
    qed
  qed
qed

lemma is_descendant_trans:
  assumes "distinct (map node_id ns)" "parents_precede ns" "is_descendant ns a b" "is_descendant ns b c"
  shows "is_descendant ns a c"
proof -
  obtain i where "i < length ns" "node_id (ns ! i) = a"
    using is_descendant_mem [OF assms(3)] by (auto simp: in_set_conv_nth)
  then show ?thesis using ancestry_closed [OF assms(1,2), of i b] assms(3,4) by (auto simp: is_descendant_def)
qed

text \<open>A handler root counts as reached when a statement below it is.\<close>

definition reached_below :: "nodes \<Rightarrow> string set \<Rightarrow> SemanticNode \<Rightarrow> bool" where
  "reached_below ns R h \<longleftrightarrow>
     node_kind h = ERROR_HANDLER \<and> (\<exists>c \<in> set ns. node_id c \<in> R \<and> is_descendant ns (node_id c) (node_id h))"

lemma reached_below_extend:
  assumes "distinct (map node_id ns)" "parents_precede ns"
  shows "reached_below ns (R \<union> node_id ` {h \<in> H. reached_below ns R h}) h \<longleftrightarrow> reached_below ns R h"
proof
  assume l: "reached_below ns (R \<union> node_id ` {h \<in> H. reached_below ns R h}) h"
  then obtain c where c: "c \<in> set ns" "is_descendant ns (node_id c) (node_id h)"
    "node_id c \<in> R \<or> (\<exists>g \<in> H. reached_below ns R g \<and> node_id c = node_id g)"
    by (auto simp: reached_below_def)
  have k: "node_kind h = ERROR_HANDLER" using l by (simp add: reached_below_def)
  from c(3) show "reached_below ns R h"
  proof
    assume "\<exists>g \<in> H. reached_below ns R g \<and> node_id c = node_id g"
    then obtain d where "d \<in> set ns" "node_id d \<in> R" "is_descendant ns (node_id d) (node_id c)"
      by (auto simp: reached_below_def)
    then show ?thesis using is_descendant_trans [OF assms _ c(2)] k by (auto simp: reached_below_def)
  qed (use c k in \<open>auto simp: reached_below_def\<close>)
qed (auto simp: reached_below_def)

lemma mark_handlers_set:
  assumes "distinct (map node_id ns)" "parents_precede ns"
  shows "set (mark_handlers ns r) = set r \<union> node_id ` {h \<in> set ns. reached_below ns (set r) h}"
proof -
  let ?step = "\<lambda>r node. if node_kind node = ERROR_HANDLER \<and>
      list_ex (\<lambda>c. node_id c \<in> set r \<and> is_descendant ns (node_id c) (node_id node)) ns
    then append_new r (node_id node) else r"
  have "set (foldl ?step r hs) = set r \<union> node_id ` {h \<in> set hs. reached_below ns (set r) h}"
    if "set hs \<subseteq> set ns" for hs using that
  proof (induction hs rule: rev_induct)
    case (snoc h hs)
    let ?r = "foldl ?step r hs"
    have r: "set ?r = set r \<union> node_id ` {h \<in> set hs. reached_below ns (set r) h}" using snoc by simp
    have "reached_below ns (set ?r) h \<longleftrightarrow> reached_below ns (set r) h"
      unfolding r by (rule reached_below_extend [OF assms])
    moreover have "set (?step q h) = (if reached_below ns (set q) h then insert (node_id h) (set q) else set q)" for q
      by (auto simp: reached_below_def list_ex_iff append_new_def)
    ultimately have "set (foldl ?step r (hs @ [h])) =
        (if reached_below ns (set r) h then insert (node_id h) (set ?r) else set ?r)" by simp
    then show ?case unfolding r by auto
  qed simp
  then show ?thesis by (simp add: mark_handlers_def)
qed

section \<open>Sources of the calls\<close>

lemma all_requests_cases:
  assumes "r \<in> set (all_requests ns x)"
  obtains (transfer) n where "n \<in> set ns" "r \<in> set (transfer_requests ns x n)"
  | (flow) p where "p \<in> set ns" "fst r = node_id p" "node_kind p \<notin> set terminal_kinds" "fst (snd r) \<in> targets_in ns x"
  | (call) "r \<in> set (call_requests ns)"
  | (data) "r \<in> set (data_requests Map.empty ns)"
proof -
  have loop: "LOOP \<notin> set terminal_kinds" "CONDITION \<notin> set terminal_kinds" "CASE_K \<notin> set terminal_kinds"
    by (auto simp: terminal_kinds_def)
  consider h where "h \<in> set (handlers ns)" "r \<in> set (handler_requests ns x h)"
    | n where "n \<in> set ns" "r \<in> set (transfer_requests ns x n)"
    | n where "n \<in> set ns" "r \<in> set (loop_exit_requests ns x n)"
    | n where "n \<in> set ns" "r \<in> set (join_requests ns x n)"
    | n where "n \<in> set ns" "r \<in> set (exception_requests ns n)"
    | "r \<in> set (call_requests ns)" | "r \<in> set (data_requests Map.empty ns)"
    using assms unfolding all_requests_def by fastforce
  then show thesis
  proof cases
    case 1
    then show thesis using handler_requests_cases flow by blast
  next
    case 3
    then show thesis using flow [of n] loop by (auto simp: loop_exit_requests_def split: if_splits)
  next
    case 4
    have k: "node_kind n \<notin> set terminal_kinds"
      using 4 loop by (auto simp: join_requests_def is_branch_root_def split: if_splits)
    have "\<exists>p \<in> set ns. fst r = node_id p \<and> node_kind p \<notin> set terminal_kinds \<and> fst (snd r) \<in> targets_in ns x"
      using 4 k by (auto simp: join_requests_def Let_def split: if_splits dest!: arm_joins_within)
    then show thesis using flow by blast
  next
    case 5
    have k: "node_kind n \<notin> set terminal_kinds"
      using 5(2) by (auto simp: exception_requests_def potentially_failing_def terminal_kinds_def split: if_splits)
    show thesis using flow [of n] k 5 exception_requests_within [OF 5, of x]
      by (auto simp: exception_requests_def req_within_def split: if_splits)
  qed (fact transfer call data)+
qed

lemma data_requests_within:
  assumes "r \<in> set (data_requests Map.empty ns)"
  shows "fst r \<in> ids ns \<and> fst (snd r) \<in> ids ns \<and> fst (snd (snd r)) = DATA_DEPENDENCY"
  using assms by (auto simp: data_requests_mem last_write_def)

lemma all_requests_within:
  assumes "r \<in> set (all_requests ns x)"
  shows "fst r \<in> ids ns \<and> fst (snd r) \<in> targets_in ns x \<union> ids (call_nodes ns)"
  using assms
proof (cases rule: all_requests_cases)
  case (transfer n)
  then show ?thesis using transfer_requests_within [OF transfer(1), of x] by (auto simp: list_all_iff)
next
  case call
  then show ?thesis using call_requests_within [OF call] by auto
next
  case data
  then show ?thesis using data_requests_within [OF data] by (auto simp: targets_in_def)
qed auto

section \<open>Properties of the refined graph\<close>

lemma refine_eqs:
  assumes "refine_control_flow nodes edges findings entry_id exit_id = (nodes', edges', findings')"
    and "ns = source_nodes nodes"
  shows "nodes' = map (adjust_node (reachable_ids ns edges' entry_id)) (ns @ call_nodes ns)"
    and "edges' = renumber 0 [] (control_edges ns edges exit_id)"
    and "\<exists>more. findings' = findings @ concat (map (transfer_findings ns exit_id) ns) @ more"
  using assms by (auto simp: refine_control_flow_def Let_def)

lemma adjust_node_id [simp]: "node_id (adjust_node R n) = node_id n"
  by (simp add: adjust_node_def)

lemma adjust_node_ids [simp]: "ids (map (adjust_node R) ns) = ids ns"
  by (auto simp: image_iff)

lemma edge_key_ends: "edge_source_ref e = fst (edge_key e)" "edge_target_ref e = fst (snd (edge_key e))"
  "edge_kind e = fst (snd (snd (edge_key e)))"
  by (simp_all add: edge_key_def)

lemma control_edges_keys:
  "edge_key ` set (control_edges ns edges x) \<subseteq> edge_key ` set (filter (keeps_edge ns) edges) \<union> set (all_requests ns x)"
  unfolding control_edges_def by (rule foldl_add_edge_keys)

lemma edges_resolve_keys:
  "edges_resolve S es \<longleftrightarrow> (\<forall>r \<in> edge_key ` set es. fst r \<in> S \<and> fst (snd r) \<in> S)"
  by (auto simp: edges_resolve_def edge_key_def)

lemma refine_resolve:
  assumes "refine_control_flow nodes edges findings entry_id exit_id = (nodes', edges', findings')"
    and "edges_resolve (ids (source_nodes nodes)) edges"
    and "exit_id \<in> ids (source_nodes nodes)"
  shows "edges_resolve (ids nodes') edges'"
proof -
  let ?ns = "source_nodes nodes"
  have n: "ids nodes' = ids ?ns \<union> ids (call_nodes ?ns)"
    unfolding refine_eqs(1) [OF assms(1) refl] adjust_node_ids by (simp add: image_Un)
  have sub: "edge_key ` set edges' \<subseteq> edge_key ` set edges \<union> set (all_requests ?ns exit_id)"
    using control_edges_keys [of ?ns edges exit_id]
    by (auto simp: refine_eqs(2) [OF assms(1) refl] renumber_keys)
  show ?thesis unfolding edges_resolve_keys n
  proof
    fix r assume "r \<in> edge_key ` set edges'"
    then consider "r \<in> edge_key ` set edges" | "r \<in> set (all_requests ?ns exit_id)" using sub by blast
    then show "fst r \<in> ids ?ns \<union> ids (call_nodes ?ns) \<and> fst (snd r) \<in> ids ?ns \<union> ids (call_nodes ?ns)"
    proof cases
      case 1
      then show ?thesis using assms(2) unfolding edges_resolve_keys by blast
    next
      case 2
      from all_requests_within [OF 2] show ?thesis using assms(3) by (auto simp: targets_in_def)
    qed
  qed
qed

text \<open>
  C7: the refined graph is closed. When the parser's edges and the exit join nodes of the routine,
  every edge of the refined graph, of every class, starts and ends at a node of the refined graph.
\<close>

theorem refine_edges_resolve:
  assumes "refine_control_flow nodes edges findings entry_id exit_id = (nodes', edges', findings')"
    and "edges_resolve (ids (source_nodes nodes)) edges"
    and "exit_id \<in> ids (source_nodes nodes)"
  shows "edges_resolve (ids nodes') edges'"
  using assms by (rule refine_resolve)

text \<open>
  The parser's statements are all preserved. The refined node list is the list of source
  nodes, in order and unchanged but for the modality, followed by one node per distinct call
  target, whose ids are call-target-0001, call-target-0002 and so on.
\<close>

theorem refine_keeps_nodes:
  "let nodes' = fst (refine_control_flow nodes edges findings entry_id exit_id); ns = source_nodes nodes in
   \<exists>targets.
     map (node_modality_update (\<lambda>_. MUST)) nodes' = map (node_modality_update (\<lambda>_. MUST)) (ns @ targets) \<and>
     map node_id targets = map (str_nat ''call-target-'') [1..<Suc (length targets)] \<and>
     distinct (map node_target_name targets)"
proof -
  let ?ns = "source_nodes nodes"
  obtain nodes' edges' findings' where r:
    "refine_control_flow nodes edges findings entry_id exit_id = (nodes', edges', findings')"
    by (cases "refine_control_flow nodes edges findings entry_id exit_id")
  have e: "node_modality_update (\<lambda>_. MUST) (adjust_node R n) = node_modality_update (\<lambda>_. MUST) n" for R n
    by (simp add: adjust_node_def)
  obtain T A Q where c: "call_pass ?ns = (T, A, Q)" by (cases "call_pass ?ns")
  have "distinct (map (Some \<circ> fst) T)" using call_pass_inv [of ?ns] c
    by (auto simp: call_inv_def distinct_map comp_inj_on_iff inj_on_def)
  then have "distinct (map node_target_name (call_nodes ?ns))"
    using call_pass_inv [of ?ns] c by (simp add: call_inv_def)
  then show ?thesis
    using call_node_ids [of ?ns] r refine_eqs(1) [OF r refl]
    by (auto simp: Let_def e intro!: exI [of _ "call_nodes ?ns"])
qed

text \<open>
  The edges are renumbered edge-0001, edge-0002 and so on in order, and no two of them have
  the same ends, kind and condition.
\<close>

theorem refine_edges_numbered:
  "let edges' = fst (snd (refine_control_flow nodes edges findings entry_id exit_id)) in
   map edge_id edges' = map (str_nat ''edge-'') [1..<Suc (length edges')] \<and> distinct (map edge_key edges')"
  using renumber_ids [of 0 "[]" "control_edges (source_nodes nodes) edges exit_id"]
  by (simp add: refine_control_flow_def Let_def renumber_distinct)

lemma keeps_edge_source:
  "keeps_edge ns e \<Longrightarrow> \<exists>n \<in> set ns. edge_source_ref e = node_id n \<and> node_kind n \<notin> set terminal_kinds \<and>
     node_kind n \<noteq> LOOP_CONTROL"
  by (cases "by_id ns (edge_source_ref e)")
    (auto simp: keeps_edge_def split: if_splits dest!: by_id_Some intro!: bexI)

lemma distinct_ids_inj: "distinct (map node_id ns) \<Longrightarrow> a \<in> set ns \<Longrightarrow> b \<in> set ns \<Longrightarrow> node_id a = node_id b \<Longrightarrow> a = b"
  by (auto simp: distinct_map inj_on_def)

lemma refined_key_cases:
  assumes "e \<in> set (renumber 0 [] (control_edges ns edges x))"
  shows "edge_key e \<in> edge_key ` set (filter (keeps_edge ns) edges) \<or> edge_key e \<in> set (all_requests ns x)"
  using assms control_edges_keys [of ns edges x] imageI [OF assms, of edge_key]
  by (auto simp: renumber_keys)

lemma transfer_out_edges:
  assumes "distinct (map node_id ns)" "n \<in> set ns" "node_kind n \<in> set terminal_kinds"
    and "e \<in> set (renumber 0 [] (control_edges ns edges x))" "edge_source_ref e = node_id n" "is_control_edge e"
  shows "edge_key e \<in> set (transfer_requests ns x n)"
proof -
  have src: "fst (edge_key e) = node_id n" using assms(5) by (simp add: edge_key_def)
  have other: False if "p \<in> set ns" "fst (edge_key e) = node_id p" "node_kind p \<notin> set terminal_kinds" for p
    using distinct_ids_inj [OF assms(1,2) that(1)] that src assms(3) by simp
  from refined_key_cases [OF assms(4)] show ?thesis
  proof
    assume "edge_key e \<in> edge_key ` set (filter (keeps_edge ns) edges)"
    then obtain d where d: "edge_key e = edge_key d" "keeps_edge ns d" by auto
    obtain p where "p \<in> set ns" "edge_source_ref d = node_id p" "node_kind p \<notin> set terminal_kinds"
      using keeps_edge_source [OF d(2)] by blast
    then show ?thesis using other [of p] d(1) by (simp add: edge_key_def)
  next
    assume "edge_key e \<in> set (all_requests ns x)"
    then show ?thesis
    proof (cases rule: all_requests_cases)
      case (transfer m)
      then have "node_id m = node_id n" using transfer_requests_within [OF transfer(1), of x] src by (auto simp: list_all_iff)
      then show ?thesis using transfer distinct_ids_inj [OF assms(1) transfer(1) assms(2)] by simp
    next
      case (flow p)
      then show ?thesis using other by blast
    next
      case call
      then show ?thesis using call_requests_within [OF call] assms(6) by (auto simp: is_control_edge_def edge_key_def)
    next
      case data
      then show ?thesis using data_requests_within [OF data] assms(6) by (auto simp: is_control_edge_def edge_key_def)
    qed
  qed
qed

lemma requested_edge_present:
  assumes "r \<in> set (all_requests ns x)" "\<not> self_edge r"
  shows "r \<in> edge_key ` set (renumber 0 [] (control_edges ns edges x))"
  using foldl_add_edge_adds [OF assms] by (simp add: renumber_keys control_edges_def)

lemma transfer_requested: "n \<in> set ns \<Longrightarrow> r \<in> set (transfer_requests ns x n) \<Longrightarrow> r \<in> set (all_requests ns x)"
  by (auto simp: all_requests_def)

lemma applicable_handler_other: "applicable_handler ns n = Some h \<Longrightarrow> node_id h \<noteq> node_id n"
  by (drule applicable_handler_mem)
    (auto simp: handler_candidates_def scope_candidates_def in_scope_def Let_def split: if_splits option.splits)

text \<open>
  C6: no false fall-through from transfers. In a routine with distinct node ids a RETURN has
  exactly one control edge, the BRANCH to the exit, and an error-raising statement exactly one,
  the EXCEPTION edge to the handler that applies or else to the exit.
\<close>

theorem transfer_edges:
  assumes "refine_control_flow nodes edges findings entry_id exit_id = (nodes', edges', findings')"
    and "ns = source_nodes nodes" "distinct (map node_id ns)" "n \<in> set ns" "node_id n \<noteq> exit_id"
    and "node_kind n = RETURN \<or> node_kind n = ERROR_RAISE"
  shows "edge_key ` {e \<in> set edges'. edge_source_ref e = node_id n \<and> is_control_edge e} =
    {if node_kind n = RETURN then (node_id n, exit_id, BRANCH, Some ''RETURN'')
     else (node_id n, (case applicable_handler ns n of Some h \<Rightarrow> node_id h | None \<Rightarrow> exit_id),
           EXCEPTION, Some (or_str (node_error_code n) ''RAISE''))}"
    (is "?L = {?r}")
proof
  define r where "r = ?r"
  have t: "set (transfer_requests ns exit_id n) = {r}"
    using assms(6) by (cases "node_kind n = RETURN") (simp_all add: transfer_requests_def r_def)
  have e: "edges' = renumber 0 [] (control_edges ns edges exit_id)" by (rule refine_eqs(2) [OF assms(1,2)])
  have k: "node_kind n \<in> set terminal_kinds" using assms(6) by (auto simp: terminal_kinds_def)
  have "?L \<subseteq> {r}"
    using transfer_out_edges [OF assms(3,4) k] t unfolding e by blast
  then show "?L \<subseteq> {?r}" by (simp only: r_def)
  have rk: "fst r = node_id n" "fst (snd (snd r)) = (if node_kind n = RETURN then BRANCH else EXCEPTION)"
    by (simp_all add: r_def)
  have "fst (snd r) \<noteq> node_id n"
    using assms(5) applicable_handler_other [of ns n] by (auto simp: r_def split: option.split)
  then have "\<not> self_edge r" using rk by (auto simp: self_edge_def)
  then have "r \<in> edge_key ` set edges'"
    using requested_edge_present [OF transfer_requested [OF assms(4)], of r exit_id edges] t unfolding e by simp
  then obtain d where d: "d \<in> set edges'" "r = edge_key d" by blast
  have "edge_source_ref d = node_id n" using rk d(2) by (simp add: edge_key_ends)
  moreover have "is_control_edge d" using rk(2) d(2) by (simp add: is_control_edge_def edge_key_ends(3))
  ultimately have "r \<in> ?L" using d by blast
  then show "{?r} \<subseteq> ?L" by (simp only: r_def) simp
qed

lemma refined_nodes:
  assumes "refine_control_flow nodes edges findings entry_id exit_id = (nodes', edges', findings')"
    and "ns = source_nodes nodes" "distinct (map node_id ns)" "parents_precede ns"
    and "R = (control_rel edges')\<^sup>* `` {entry_id}"
  shows "nodes' = map (\<lambda>n.
    if node_kind n \<in> {ENTRY, EXIT, CALL_TARGET} \<or> node_id n \<in> R \<or> reached_below ns R n then n
    else n\<lparr>node_modality := UNKNOWN\<rparr>) (ns @ call_nodes ns)"
proof -
  have b: "set (bfs edges' [entry_id] [entry_id]) = R" unfolding assms(5) by (rule bfs_reachable)
  have m: "set (reachable_ids ns edges' entry_id) = R \<union> node_id ` {h \<in> set ns. reached_below ns R h}"
    unfolding reachable_ids_def mark_handlers_set [OF assms(3,4)] b ..
  have ct: "node_kind c = CALL_TARGET" if "c \<in> set (call_nodes ns)" for c
    using that call_pass_inv [of ns] by (cases "call_pass ns") (auto simp: call_inv_def)
  have "adjust_node (reachable_ids ns edges' entry_id) n =
      (if node_kind n \<in> {ENTRY, EXIT, CALL_TARGET} \<or> node_id n \<in> R \<or> reached_below ns R n then n
       else n\<lparr>node_modality := UNKNOWN\<rparr>)" if n: "n \<in> set (ns @ call_nodes ns)" for n
  proof (cases "n \<in> set ns")
    case True
    have "node_id n \<in> node_id ` {h \<in> set ns. reached_below ns R h} \<longleftrightarrow> reached_below ns R n"
      using inj_on_image_mem_iff [of node_id "set ns" n] assms(3) True by (simp add: distinct_map)
    then have "stays_as_is (reachable_ids ns edges' entry_id) n \<longleftrightarrow>
        node_kind n \<in> {ENTRY, EXIT, CALL_TARGET} \<or> node_id n \<in> R \<or> reached_below ns R n"
      unfolding stays_as_is_def m by simp
    then show ?thesis by (simp only: adjust_node_def)
  next
    case False
    then show ?thesis using n ct by (auto simp: adjust_node_def stays_as_is_def)
  qed
  then show ?thesis unfolding refine_eqs(1) [OF assms(1,2)] by (intro map_cong) auto
qed

text \<open>
  The nodes of the result. Every source node and call target is kept as it is when it is an
  entry, exit or call target, when a path of control edges leads to it from the entry, or when it
  is the root of a handler with a reached statement below it; every other node gets the modality
  UNKNOWN and is otherwise unchanged.
\<close>

theorem unknown_iff_unreachable:
  assumes "refine_control_flow nodes edges findings entry_id exit_id = (nodes', edges', findings')"
    and "ns = source_nodes nodes" "distinct (map node_id ns)" "parents_precede ns"
    and "R = (control_rel edges')\<^sup>* `` {entry_id}"
  shows "nodes' = map (\<lambda>n.
    if node_kind n \<in> {ENTRY, EXIT, CALL_TARGET} \<or> node_id n \<in> R \<or> reached_below ns R n then n
    else n\<lparr>node_modality := UNKNOWN\<rparr>) (ns @ call_nodes ns)"
  using assms by (rule refined_nodes)

text \<open>
  Handlers are the innermost ones in scope. Every handler offered for a statement is an error
  handler of the routine whose declaring scope encloses the statement, the statement is not in
  that handler or in any other, and no eligible handler in scope is nested more deeply.
\<close>

theorem handler_candidates_innermost:
  assumes "(d, l, h) \<in> set (handler_candidates ns n conservative)"
  shows "h \<in> set ns \<and> node_kind h = ERROR_HANDLER \<and> in_scope ns n h \<and> \<not> inside_handler ns n \<and>
    specificity n conservative h = Some l \<and> d = length (ancestry ns (node_id h)) \<and>
    (\<forall>g \<in> set ns. node_kind g = ERROR_HANDLER \<and> in_scope ns n g \<and> specificity n conservative g \<noteq> None \<longrightarrow>
       length (ancestry ns (node_id g)) \<le> d)"
proof -
  let ?c = "scope_candidates ns n conservative"
  have mem: "(d, l, h) \<in> set ?c \<longleftrightarrow> h \<in> set (handlers ns) \<and> in_scope ns n h \<and>
      specificity n conservative h = Some l \<and> d = length (ancestry ns (node_id h))" for d l h
    unfolding scope_candidates_def by (fastforce split: option.splits if_splits)
  have c: "\<not> inside_handler ns n" "(d, l, h) \<in> set ?c" "d = Max (set (map fst ?c))"
    using assms by (auto simp: handler_candidates_def Let_def split: if_splits)
  have "length (ancestry ns (node_id g)) \<le> d"
    if "g \<in> set ns" "node_kind g = ERROR_HANDLER" "in_scope ns n g" "specificity n conservative g = Some k" for g k
  proof -
    have "(length (ancestry ns (node_id g)), k, g) \<in> set ?c" using that by (simp add: mem handlers_mem)
    then have "length (ancestry ns (node_id g)) \<in> set (map fst ?c)" by force
    then show ?thesis unfolding c(3) by (rule Max_ge [OF finite_set])
  qed
  then show ?thesis using c(1,2) unfolding mem handlers_mem by blast
qed

text \<open>
  C28: data dependencies are exactly the last-writer pairs. In a routine with distinct non-empty
  ids there is a DATA_DEPENDENCY call for variable v from a to b exactly when b reads v, a is a
  statement before b that writes v, and no statement between them writes v.
\<close>

theorem data_dependency_iff:
  assumes "distinct (map node_id ns)" "[] \<notin> ids ns" "b < length ns" "a < length ns"
  shows "(node_id (ns ! a), node_id (ns ! b), DATA_DEPENDENCY, Some v) \<in> set (data_requests Map.empty ns) \<longleftrightarrow>
    a < b \<and> v \<in> set (node_variable_reads (ns ! b)) \<and> v \<in> set (node_variable_writes (ns ! a)) \<and>
    (\<forall>k. a < k \<and> k < b \<longrightarrow> v \<notin> set (node_variable_writes (ns ! k)))"
    (is "?L \<longleftrightarrow> ?R")
proof
  have idx: "i = j" if "i < length ns" "j < length ns" "node_id (ns ! i) = node_id (ns ! j)" for i j
    using assms(1) that by (simp add: distinct_conv_nth) (metis nth_map length_map)
  show "?L \<Longrightarrow> ?R"
    unfolding data_requests_mem last_write_def
  proof (elim exE conjE)
    fix i j u
    assume "j < length ns" "i < j" "(node_id (ns ! a), node_id (ns ! b), DATA_DEPENDENCY, Some v) =
        (node_id (ns ! i), node_id (ns ! j), DATA_DEPENDENCY, Some u)"
      and r: "u \<in> set (node_variable_reads (ns ! j))" "u \<in> set (node_variable_writes (ns ! i))"
        "\<forall>k. i < k \<and> k < j \<longrightarrow> u \<notin> set (node_variable_writes (ns ! k))"
    then have "a = i" "b = j" "u = v" using idx [of a i] idx [of b j] assms(3,4) by simp_all
    then show ?R using r \<open>i < j\<close> by blast
  qed
  have "node_id (ns ! a) \<noteq> []" using assms(2,4) by (metis imageI nth_mem)
  moreover have "a < b \<Longrightarrow> node_id (ns ! a) \<noteq> node_id (ns ! b)" using idx [of a b] assms(3,4) by auto
  ultimately show "?R \<Longrightarrow> ?L"
    using assms(3) unfolding data_requests_mem last_write_def by blast
qed

text \<open>
  Findings are only added, and every unreachable statement is reported: the findings of the
  parser remain in front, and a node marked UNKNOWN by the pass that is neither a block nor a
  handler has an UNREACHABLE_STATEMENT finding at its start offset.
\<close>

theorem unreachable_reported:
  assumes "refine_control_flow nodes edges findings entry_id exit_id = (nodes', edges', findings')"
    and "n \<in> set (source_nodes nodes)" "\<not> stays_as_is (reachable_ids (source_nodes nodes) edges' entry_id) n"
    and "node_kind n \<noteq> BLOCK" "node_kind n \<noteq> ERROR_HANDLER"
  shows "take (length findings) findings' = findings \<and>
    (\<exists>f \<in> set findings'. finding_code f = ''UNREACHABLE_STATEMENT'' \<and>
       (\<exists>s. finding_source_span f = Some s \<and> span_start_offset s = span_start_offset (node_source_span n)))"
proof -
  let ?ns = "source_nodes nodes" and ?R = "reachable_ids (source_nodes nodes) edges' entry_id"
  let ?fs = "findings @ concat (map (transfer_findings ?ns exit_id) ?ns)"
  have f: "findings' = ?fs @ unreachable_findings ?fs ?R (?ns @ call_nodes ?ns)"
    using assms(1) by (auto simp: refine_control_flow_def Let_def)
  let ?o = "span_start_offset (node_source_span n)"
  let ?P = "\<lambda>f. finding_code f = ''UNREACHABLE_STATEMENT'' \<and>
       (\<exists>s. finding_source_span f = Some s \<and> span_start_offset s = ?o)"
  have "\<exists>f \<in> set findings'. ?P f"
  proof (cases "\<exists>f \<in> set ?fs. ?P f")
    case True
    then show ?thesis unfolding f by auto
  next
    case False
    have "?o \<notin> set (reported_offsets ?fs)"
      using False unfolding reported_offsets_def by (force split: option.splits if_splits)
    then have "unreachable_finding n \<in> set (unreachable_findings ?fs ?R (?ns @ call_nodes ?ns))"
      using assms(2-5) by (auto simp: unreachable_findings_def)
    then have "unreachable_finding n \<in> set findings'" unfolding f by simp
    moreover have "?P (unreachable_finding n)" by (simp add: unreachable_finding_def mk_finding_def)
    ultimately show ?thesis by blast
  qed
  then show ?thesis unfolding f by simp
qed

section \<open>Sample graphs\<close>

definition sample_span :: "nat \<Rightarrow> SourceSpan" where
  "sample_span k = \<lparr>span_start_line = int k + 1, span_start_column = 1, span_end_line = int k + 1,
     span_end_column = 2, span_start_offset = int k, span_end_offset = int k + 1\<rparr>"

definition sample_node :: "nat \<Rightarrow> SemanticNodeKind \<Rightarrow> string \<Rightarrow> nat option \<Rightarrow> SemanticNode" where
  "sample_node k kind t parent =
     \<lparr>node_id = str_nat ''n'' k, node_kind = kind, node_text = t, node_source_span = sample_span k,
      node_parent_ref = map_option (str_nat ''n'') parent, node_condition_text = None, node_target_name = None,
      node_expression_text = None, node_relation_refs = [], node_variable_reads = [], node_variable_writes = [],
      node_call_target = None, node_cursor_name = None, node_error_code = None, node_modality = MUST,
      node_attributes = []\<rparr>"

definition sample_edge :: "nat \<Rightarrow> nat \<Rightarrow> SemanticEdge" where
  "sample_edge i j = mk_edge ''e'' (str_nat ''n'' i, str_nat ''n'' j, NEXT, None)"

definition sample_graph :: nodes where
  "sample_graph = [sample_node 0 ENTRY [] None, sample_node 1 BLOCK ''BEGIN'' None,
     sample_node 2 RETURN ''RETURN;'' (Some 1), sample_node 3 ASSIGNMENT ''SET x = 1;'' (Some 1),
     sample_node 4 EXIT [] None]"

definition sample_edges :: "SemanticEdge list" where
  "sample_edges = [sample_edge 0 1, sample_edge 1 2, sample_edge 2 3, sample_edge 3 4]"

definition handler_graph :: nodes where
  "handler_graph = [sample_node 0 ENTRY [] None, sample_node 1 BLOCK ''BEGIN'' None,
     sample_node 2 ERROR_HANDLER ''DECLARE EXIT HANDLER FOR SQLEXCEPTION'' (Some 1),
     sample_node 3 INSERT ''INSERT INTO t VALUES (1);'' (Some 1), sample_node 4 EXIT [] None]"

definition data_graph :: nodes where
  "data_graph = [(sample_node 0 ASSIGNMENT ''SET x = 1;'' None)\<lparr>node_variable_writes := [''X'']\<rparr>,
     (sample_node 1 ASSIGNMENT ''SET x = 2;'' None)\<lparr>node_variable_writes := [''X'']\<rparr>,
     (sample_node 2 ASSIGNMENT ''SET y = x;'' None)\<lparr>node_variable_reads := [''X''], node_variable_writes := [''Y'']\<rparr>]"

text \<open>
  Two nested loops: the body of the loop \<open>n0001\<close> is \<open>n0002\<close> to \<open>n0005\<close>. The search
  of \<open>loop_end\<close> stops at the first END WHILE below the outer loop, which closes the inner
  one, so the false exit of the outer loop leads to the statement \<open>n0004\<close> of its own body.
\<close>

definition nested_loops :: nodes where
  "nested_loops = [sample_node 0 ENTRY [] None, sample_node 1 LOOP ''WHILE a DO'' None,
     sample_node 2 LOOP ''WHILE b DO'' (Some 1), sample_node 3 BLOCK ''END WHILE;'' (Some 2),
     sample_node 4 ASSIGNMENT ''SET x = 1;'' (Some 1), sample_node 5 BLOCK ''END WHILE;'' (Some 1),
     sample_node 6 EXIT [] None]"

lemma nested_loop_exit_inside:
  "is_descendant nested_loops (str_nat ''n'' 4) (str_nat ''n'' 1) \<and>
   (str_nat ''n'' 1, str_nat ''n'' 4, FALSE_E, Some ''LOOP_EXIT'')
     \<in> set (loop_exit_requests nested_loops (str_nat ''n'' 6) (nested_loops ! 1))"
  by code_simp

text \<open>
  A conditional loop exit, as the classifier reports \<open>EXIT WHEN x > 5;\<close>: every edge out of a
  LOOP_CONTROL node is dropped but the jump, so the assignment after it, which runs whenever the
  condition is false, is left without a path from the entry and is marked UNKNOWN.
\<close>

definition conditional_exit :: nodes where
  "conditional_exit = [sample_node 0 ENTRY [] None, sample_node 1 LOOP ''LOOP'' None,
     (sample_node 2 LOOP_CONTROL ''EXIT WHEN x > 5;'' (Some 1))\<lparr>node_condition_text := Some ''x > 5''\<rparr>,
     sample_node 3 ASSIGNMENT ''x := x + 1;'' (Some 1), sample_node 4 BLOCK ''END LOOP;'' (Some 1),
     sample_node 5 EXIT [] None]"

lemma conditional_exit_loses_fallthrough:
  "map node_modality (fst (refine_control_flow conditional_exit
      [sample_edge 0 1, sample_edge 1 2, sample_edge 2 3, sample_edge 3 4, sample_edge 4 5] []
      (str_nat ''n'' 0) (str_nat ''n'' 5))) = [MUST, MUST, MUST, UNKNOWN, UNKNOWN, MUST]"
  by code_simp

abbreviation sample_result :: "nodes \<times> SemanticEdge list \<times> SemanticFinding list" where
  "sample_result \<equiv> refine_control_flow sample_graph sample_edges [] (str_nat ''n'' 0) (str_nat ''n'' 4)"

lemma sample_result_eq: "sample_result = (fst sample_result, fst (snd sample_result), snd (snd sample_result))"
  by simp

lemma sample_graph_ids: "distinct (map node_id (source_nodes sample_graph))"
  by code_simp

lemma sample_graph_parents: "parents_precede (source_nodes sample_graph)"
  by code_simp

theorem refine_edges_resolve_witness:
  "edges_resolve (ids (source_nodes sample_graph)) sample_edges \<and> str_nat ''n'' 4 \<in> ids (source_nodes sample_graph) \<and>
   edges_resolve (ids (fst sample_result)) (fst (snd sample_result))"
proof -
  have h: "edges_resolve (ids (source_nodes sample_graph)) sample_edges"
    "str_nat ''n'' 4 \<in> ids (source_nodes sample_graph)" by code_simp+
  from refine_edges_resolve [OF sample_result_eq h] h show ?thesis by blast
qed

theorem transfer_edges_witness:
  "edge_key ` {e \<in> set (fst (snd sample_result)). edge_source_ref e = str_nat ''n'' 2 \<and> is_control_edge e} =
     {(str_nat ''n'' 2, str_nat ''n'' 4, BRANCH, Some ''RETURN'')}"
proof -
  let ?n = "sample_node 2 RETURN ''RETURN;'' (Some 1)"
  have h: "?n \<in> set (source_nodes sample_graph)" "node_id ?n \<noteq> str_nat ''n'' 4"
    "node_kind ?n = RETURN" "node_id ?n = str_nat ''n'' 2" by code_simp+
  then show ?thesis using transfer_edges [OF sample_result_eq refl sample_graph_ids h(1,2) disjI1 [OF h(3)]]
    by simp
qed

theorem unknown_iff_unreachable_witness:
  "fst sample_result = map (\<lambda>n.
     if node_kind n \<in> {ENTRY, EXIT, CALL_TARGET} \<or>
        node_id n \<in> (control_rel (fst (snd sample_result)))\<^sup>* `` {str_nat ''n'' 0} \<or>
        reached_below (source_nodes sample_graph) ((control_rel (fst (snd sample_result)))\<^sup>* `` {str_nat ''n'' 0}) n
     then n else n\<lparr>node_modality := UNKNOWN\<rparr>) (source_nodes sample_graph @ call_nodes (source_nodes sample_graph)) \<and>
   map node_modality (fst sample_result) = [MUST, MUST, MUST, UNKNOWN, MUST]"
proof
  show "map node_modality (fst sample_result) = [MUST, MUST, MUST, UNKNOWN, MUST]" by code_simp
qed (rule unknown_iff_unreachable [OF sample_result_eq refl sample_graph_ids sample_graph_parents refl])

theorem handler_candidates_innermost_witness:
  "handler_candidates handler_graph (handler_graph ! 3) True = [(1, 2, handler_graph ! 2)] \<and>
   in_scope handler_graph (handler_graph ! 3) (handler_graph ! 2)"
proof -
  have h: "handler_candidates handler_graph (handler_graph ! 3) True = [(1, 2, handler_graph ! 2)]" by code_simp
  then have "(1, 2, handler_graph ! 2) \<in> set (handler_candidates handler_graph (handler_graph ! 3) True)" by simp
  from handler_candidates_innermost [OF this] h show ?thesis by blast
qed

theorem data_dependency_iff_witness:
  "(node_id (data_graph ! 1), node_id (data_graph ! 2), DATA_DEPENDENCY, Some ''X'')
     \<in> set (data_requests Map.empty data_graph)"
proof -
  have h: "distinct (map node_id data_graph)" "[] \<notin> ids data_graph" "2 < length data_graph" "1 < length data_graph"
    "''X'' \<in> set (node_variable_reads (data_graph ! 2))" "''X'' \<in> set (node_variable_writes (data_graph ! 1))"
    by code_simp+
  then show ?thesis by (subst data_dependency_iff [OF h(1-4)]) auto
qed

theorem unreachable_reported_witness:
  "\<exists>f \<in> set (snd (snd sample_result)). finding_code f = ''UNREACHABLE_STATEMENT'' \<and>
     (\<exists>s. finding_source_span f = Some s \<and> span_start_offset s = 3)"
proof -
  let ?n = "sample_node 3 ASSIGNMENT ''SET x = 1;'' (Some 1)"
  have h: "?n \<in> set (source_nodes sample_graph)"
    "\<not> stays_as_is (reachable_ids (source_nodes sample_graph) (fst (snd sample_result)) (str_nat ''n'' 0)) ?n"
    "node_kind ?n \<noteq> BLOCK" "node_kind ?n \<noteq> ERROR_HANDLER" "span_start_offset (node_source_span ?n) = 3" by code_simp+
  then show ?thesis using unreachable_reported [OF sample_result_eq h(1-4)] by simp
qed

end
