(* ===== verification/Policies.thy ===== *)
theory Policies
  imports Classifier ControlFlow
begin

text \<open>
  The semantic policies of the five vendor packages, \<open>atlas/dialects/<vendor>/semantics.py\<close>, with
  \<open>semantic_support.py\<close>. A policy annotates the nodes of a routine and reports vendor findings.
  What the adapter relies on is the locale \<open>semantic_policy\<close>: a policy keeps every node but its
  attributes, drops no attribute, keeps the rest of the IR and only appends findings. All five
  policies interpret it.
\<close>

section \<open>Support\<close>

definition merge_attributes :: "SemanticNode \<Rightarrow> attrs \<Rightarrow> SemanticNode" where
  "merge_attributes node attributes = node\<lparr>node_attributes := dict_update (node_attributes node) attributes\<rparr>"

definition node_finding :: "string \<Rightarrow> string \<Rightarrow> string \<Rightarrow> SemanticNode \<Rightarrow> SemanticFinding" where
  "node_finding code msg cons node = mk_finding code SEV_ERROR msg (Some (node_source_span node)) cons"

definition squashed_upper :: "SemanticNode \<Rightarrow> string" where
  "squashed_upper node = py_strip (squash_ws (py_upper (node_text node)))"

definition flag :: "string \<Rightarrow> string \<Rightarrow> attr" where
  "flag sub upper = ABool (py_in sub upper)"

type_synonym node_policy = "SemanticNode \<Rightarrow> SemanticNode \<times> SemanticFinding list"

text \<open>The loop over the nodes when the treatment of a node depends on the node alone.\<close>

definition enrich_with :: "node_policy \<Rightarrow> RoutineIR \<Rightarrow> RoutineIR" where
  "enrich_with f ir =
     ir\<lparr>ir_nodes := map (fst \<circ> f) (ir_nodes ir),
        ir_findings := ir_findings ir @ concat (map (snd \<circ> f) (ir_nodes ir))\<rparr>"

section \<open>Db2\<close>

text \<open>\<open>inside_atomic_block\<close>: the walk up the parents ends at a missing parent or a repeated node.\<close>

function atomic_loop :: "SemanticNode list \<Rightarrow> SemanticNode option \<Rightarrow> string list \<Rightarrow> bool" where
  "atomic_loop ns None seen = False"
| "atomic_loop ns (Some n) seen =
     (if node_id n \<in> set seen then False
      else if node_kind n = BLOCK \<and> py_in ''BEGIN ATOMIC'' (py_upper (node_text n)) then True
      else atomic_loop ns
             (case node_parent_ref n of Some p \<Rightarrow> if p = [] then None else by_id ns p | None \<Rightarrow> None)
             (node_id n # seen))"
  by pat_completeness auto

termination atomic_loop
proof (relation "measure (\<lambda>(ns, cur, seen).
    case cur of None \<Rightarrow> 0 | Some n \<Rightarrow> Suc (card (insert (node_id n) (ids ns) - set seen)))")
  fix ns :: "SemanticNode list" and n :: SemanticNode and seen :: "string list"
  assume new: "node_id n \<notin> set seen"
  let ?next = "case node_parent_ref n of Some p \<Rightarrow> if p = [] then None else by_id ns p | None \<Rightarrow> None"
  have "card (insert (node_id m) (ids ns) - set (node_id n # seen)) < card (insert (node_id n) (ids ns) - set seen)"
    if "?next = Some m" for m
  proof -
    have "node_id m \<in> ids ns" using that by (auto split: option.splits if_splits dest: by_id_Some)
    then have "insert (node_id m) (ids ns) - set (node_id n # seen) \<subset> insert (node_id n) (ids ns) - set seen"
      using new by auto
    then show ?thesis by (intro psubset_card_mono) auto
  qed
  then show "((ns, ?next, node_id n # seen), (ns, Some n, seen)) \<in> measure (\<lambda>(ns, cur, seen).
      case cur of None \<Rightarrow> 0 | Some n \<Rightarrow> Suc (card (insert (node_id n) (ids ns) - set seen)))"
    by (cases ?next) auto
qed simp

definition inside_atomic_block :: "SemanticNode list \<Rightarrow> SemanticNode \<Rightarrow> bool" where
  "inside_atomic_block ns node = atomic_loop ns (Some node) []"

definition rx_db2_handler :: rx where
  "rx_db2_handler =
     rseqs [RWordB, lit ''DECLARE'', ws1, RGroup 1 (ralts [lit ''CONTINUE'', lit ''EXIT'', lit
     ''UNDO'']), ws1, lit ''HANDLER'', ws1, lit ''FOR'', ws1, RGroup 2 (rplus_lazy dot), ralts
     [rseqs [ws1, lit ''BEGIN''], rseqs [ws1, lit ''SET''], lit '';'', REos]]"

definition db2_handler :: "SemanticNode list \<Rightarrow> node_policy" where
  "db2_handler ns node =
     (let m = re_search rx_db2_handler (squashed_upper node);
          action = (case m of Some m \<Rightarrow> AStr (m_str m 1)
                    | None \<Rightarrow> (case map_of (node_attributes node) ''handler_action'' of
                        Some v \<Rightarrow> v | None \<Rightarrow> AStr ''HANDLER_BRANCH''));
          condition = (case m of Some m \<Rightarrow> AStr (py_strip (m_str m 2)) | None \<Rightarrow> opt_attr (node_condition_text node));
          node' = merge_attributes node
            [(''handler_semantics'', AStr ''COMPOUND_STATEMENT_CONDITION_HANDLER''), (''handler_action'', action),
             (''handled_condition'', condition), (''scope'', AStr ''DECLARING_COMPOUND_STATEMENT'')]
      in (node', if action = AStr ''UNDO'' \<and> \<not> inside_atomic_block ns node' then
            [node_finding ''DB2_UNDO_HANDLER_REQUIRES_ATOMIC''
               ''An UNDO handler was declared outside a detected ATOMIC compound statement.''
               ''Db2 requires an UNDO handler to be declared in an ATOMIC compound statement.'' node'] else []))"

definition db2_dynamic_mechanism :: "string \<Rightarrow> string" where
  "db2_dynamic_mechanism upper =
     (if py_startswith upper ''EXECUTE IMMEDIATE'' then ''EXECUTE_IMMEDIATE''
      else if py_startswith upper ''PREPARE'' then ''PREPARE''
      else if py_startswith upper ''EXECUTE'' then ''EXECUTE_PREPARED''
      else ''DYNAMIC_SQL'')"

definition db2_kind_policy :: "SemanticNode list \<Rightarrow> RoutineKind \<Rightarrow> node_policy" where
  "db2_kind_policy ns kind node =
     (let upper = squashed_upper node; k = node_kind node in
      if k = ERROR_HANDLER then db2_handler ns node
      else if k = SELECT_INTO then
        (merge_attributes node
          [(''cardinality_semantics'', AStr ''SINGLE_ROW_ASSIGNMENT_WITH_NOT_FOUND_AND_CARDINALITY_CONDITIONS''),
           (''sqlstate_not_found'', AStr ''02000''), (''sqlstate_multiple_rows'', AStr ''21000'')], [])
      else if k = DYNAMIC_SQL then
        (merge_attributes node [(''dynamic_semantics'', AStr (db2_dynamic_mechanism upper)),
           (''supports_using'', flag '' USING '' (padded upper)), (''supports_into'', flag '' INTO '' (padded upper))], [])
      else if k \<in> set [CURSOR_DECLARE, CURSOR_OPEN, CURSOR_FETCH, CURSOR_CLOSE] then
        (merge_attributes node [(''with_hold'', flag ''WITH HOLD'' upper), (''with_return'', flag ''WITH RETURN'' upper),
           (''return_target'', if py_in ''TO CALLER'' upper then AStr ''CALLER''
              else if py_in ''TO CLIENT'' upper then AStr ''CLIENT'' else ANone),
           (''scrollable'', ABool (py_in ''SCROLL'' upper \<and> \<not> py_in ''NO SCROLL'' upper))], [])
      else if k = RESULT_SET then
        (merge_attributes node [(''result_set_semantics'', AStr ''WITH_RETURN_CURSOR_OR_LOCATOR''),
           (''with_return'', flag ''WITH RETURN'' upper)], [])
      else if k = DIAGNOSTICS then (merge_attributes node [(''diagnostics_semantics'', AStr ''DB2_GET_DIAGNOSTICS'')], [])
      else if k = MERGE then (merge_attributes node [(''statement_atomicity'', AStr ''SINGLE_MERGE_STATEMENT'')], [])
      else if k = SAVEPOINT then
        (merge_attributes node [(''retain_cursors'', flag ''RETAIN CURSORS'' upper),
           (''on_rollback_retain_locks'', flag ''ON ROLLBACK RETAIN LOCKS'' upper)], [])
      else if k \<in> set [COMMIT, ROLLBACK, TRANSACTION_BEGIN] then
        (let node' = merge_attributes node [(''transaction_semantics'', AStr ''DB2_UNIT_OF_WORK'')]
         in (node', if kind \<noteq> PROCEDURE then
               [node_finding ''DB2_TRANSACTION_CONTROL_OUTSIDE_PROCEDURE''
                  ''Transaction control was found in a Db2 function or trigger.''
                  ''Transaction-control statements are not admitted in the bounded function/trigger lane.'' node'] else []))
      else (node, []))"

definition db2_node :: "SemanticNode list \<Rightarrow> RoutineKind \<Rightarrow> node_policy" where
  "db2_node ns kind node =
     (let upper = squashed_upper node in
      case db2_kind_policy ns kind node of (node', fs) \<Rightarrow>
        (if py_in ''NEXT VALUE FOR'' upper \<or> py_in ''PREVIOUS VALUE FOR'' upper then
           merge_attributes node' [(''sequence_reference'',
               AStr (if py_in ''NEXT VALUE FOR'' upper then ''NEXT'' else ''PREVIOUS'')),
             (''non_transactional_sequence_effect'', ABool True)]
         else node', fs))"

definition db2_enrich :: "RoutineIR \<Rightarrow> RoutineIR" where
  "db2_enrich ir = enrich_with (db2_node (ir_nodes ir) (ir_routine_kind ir)) ir"

section \<open>Oracle\<close>

definition rx_bare_raise :: rx where
  "rx_bare_raise =
     rseqs [RBos, ws0, kw ''RAISE'', ws0, ROpt (kw '';''), ws0, REos]"

definition oracle_node :: "bool \<Rightarrow> RoutineKind \<Rightarrow> node_policy" where
  "oracle_node autonomous kind node =
     (let upper = py_upper (node_text node); k = node_kind node in
      if k = ERROR_HANDLER then
        (merge_attributes node [(''handler_semantics'', AStr ''EXIT_DECLARING_BLOCK''),
           (''sqlstate_source'', AStr ''SQLCODE_SQLERRM''), (''exception_matching'', AStr ''FIRST_MATCHING_WHEN_ARM'')], [])
      else if k = SELECT_INTO then
        (merge_attributes node [(''cardinality_semantics'', AStr ''EXACTLY_ONE_OR_NO_DATA_FOUND_OR_TOO_MANY_ROWS''),
           (''no_data_exception'', AStr ''NO_DATA_FOUND''), (''multiple_rows_exception'', AStr ''TOO_MANY_ROWS'')], [])
      else if k = DYNAMIC_SQL then
        (merge_attributes node [(''dynamic_semantics'', AStr ''EXECUTE_IMMEDIATE''),
           (''supports_into'', flag '' INTO '' (padded upper)), (''supports_using'', flag '' USING '' (padded upper)),
           (''supports_returning'', flag '' RETURNING '' (padded upper)), (''parse_and_execute_at_runtime'', ABool True)], [])
      else if k = ERROR_RAISE then
        (merge_attributes node [(''reraises_current_exception'', ABool (is_match rx_bare_raise (node_text node))),
           (''raise_application_error'', flag ''RAISE_APPLICATION_ERROR'' upper)], [])
      else if k = PRAGMA then
        (merge_attributes node [(''autonomous_transaction'', flag ''AUTONOMOUS_TRANSACTION'' upper),
           (''exception_init'', flag ''EXCEPTION_INIT'' upper), (''serially_reusable'', flag ''SERIALLY_REUSABLE'' upper)], [])
      else if k = BULK_OPERATION then
        (merge_attributes node [(''bulk_semantics'', AStr (if py_startswith upper ''FORALL'' then ''FORALL'' else ''BULK_COLLECT'')),
           (''save_exceptions'', flag ''SAVE EXCEPTIONS'' upper), (''limit_clause'', flag '' LIMIT '' (padded upper))], [])
      else if k \<in> set [CURSOR_DECLARE, CURSOR_OPEN, CURSOR_FETCH, CURSOR_CLOSE] then
        (merge_attributes node [(''cursor_attributes'', AStrs [''%FOUND'', ''%NOTFOUND'', ''%ROWCOUNT'', ''%ISOPEN'']),
           (''cursor_parameters'', ABool (py_in ''CURSOR'' upper \<and> py_in ''('' (node_text node)))], [])
      else if k \<in> set [INSERT, UPDATE, DELETE, MERGE] then
        (merge_attributes node [(''returning_into'',
           ABool (py_in '' RETURNING '' (padded upper) \<and> py_in '' INTO '' (padded upper)))], [])
      else if k = LOCK then
        (merge_attributes node [(''lock_scope'', AStr ''TRANSACTION''), (''releases_on_commit_or_rollback'', ABool True)], [])
      else if k = RESULT_SET then
        (merge_attributes node [(''result_semantics'',
           AStr (if py_startswith upper ''PIPE ROW'' then ''PIPELINED_ROW'' else ''REF_CURSOR_OR_RETURN_VALUE''))], [])
      else if k \<in> set [COMMIT, ROLLBACK] then
        (let node' = merge_attributes node [(''autonomous_transaction'', ABool autonomous)]
         in (node', if kind = TRIGGER \<and> \<not> autonomous then
               [node_finding ''ORACLE_TRIGGER_TRANSACTION_CONTROL_REQUIRES_AUTONOMOUS_TRANSACTION''
                  ''Transaction control was found in a non-autonomous Oracle trigger.''
                  ''A trigger cannot commit or roll back the caller transaction; an autonomous transaction pragma is required for an independent unit of work.''
                  node'] else []))
      else (node, []))"

definition oracle_enrich :: "RoutineIR \<Rightarrow> RoutineIR" where
  "oracle_enrich ir =
     enrich_with (oracle_node (attr_flag (ir_routine_attributes ir) ''autonomous_transaction_declared'') (ir_routine_kind ir)) ir"

section \<open>SQL Server\<close>

definition rx_bare_throw :: rx where
  "rx_bare_throw =
     rseqs [RBos, ws0, kw ''THROW'', ws0, ROpt (kw '';''), ws0, REos]"

definition rx_table_variable :: rx where
  "rx_table_variable =
     rseqs [RBos, ws0, kw ''DECLARE'', ws1, kw ''@'', rplus any, RWordB, kw ''TABLE'', RWordB]"

definition isolation_level :: "string \<Rightarrow> attr" where
  "isolation_level upper =
     (case py_find upper ''ISOLATION LEVEL'' of
        Some k \<Rightarrow> AStr (no_semi (py_strip (drop (k + length ''ISOLATION LEVEL'') upper)))
      | None \<Rightarrow> ANone)"

definition sqlserver_attributes :: "SemanticNode \<Rightarrow> SemanticNode" where
  "sqlserver_attributes node =
     (let upper = squashed_upper node; k = node_kind node in
      if k = ERROR_HANDLER then
        merge_attributes node [(''handler_semantics'', AStr ''TRY_CATCH''),
          (''diagnostics'', AStrs [''ERROR_NUMBER()'', ''ERROR_SEVERITY()'', ''ERROR_STATE()'', ''ERROR_PROCEDURE()'',
             ''ERROR_LINE()'', ''ERROR_MESSAGE()''])]
      else if k \<in> set [BLOCK, DECLARE_K] then merge_attributes node [(''lexical_scope'', ABool False)]
      else if k \<in> set [TRANSACTION_BEGIN, COMMIT, ROLLBACK, SAVEPOINT] then
        merge_attributes node [(''transaction_registers'', AStrs [''@@TRANCOUNT'', ''XACT_STATE()'']),
          (''nested_transaction_counter'', ABool True)]
      else if k = TRANSACTION_SETTING then
        merge_attributes node [(''xact_abort'', flag ''XACT_ABORT'' upper), (''isolation_level'', isolation_level upper),
          (''session_scoped'', ABool True)]
      else if k = ERROR_RAISE then
        merge_attributes node [(''reraises_current_exception'', ABool (is_match rx_bare_throw (node_text node))),
          (''raise_mechanism'', AStr (if py_startswith upper ''THROW'' then ''THROW'' else ''RAISERROR''))]
      else if k = DYNAMIC_SQL then
        merge_attributes node [(''dynamic_semantics'', AStr ''EXEC_OR_SP_EXECUTESQL''), (''parameterized'', flag ''SP_EXECUTESQL'' upper),
          (''dynamic_scope'', AStr ''SEPARATE_BATCH_SCOPE''), (''local_variable_visibility'', AStr ''PARAMETER_BINDING_REQUIRED'')]
      else if k = SELECT_INTO then
        merge_attributes node [(''assignment_cardinality'', AStr ''LAST_ROW_WINS_OR_UNCHANGED_ON_ZERO_ROWS'')]
      else if k \<in> set [INSERT, UPDATE, DELETE, MERGE] then
        merge_attributes node [(''output_clause'', flag '' OUTPUT '' (padded upper))]
      else if k = TEMP_OBJECT then
        (let table_variable = (attr_flag (node_attributes node) ''table_variable'' \<or> is_match rx_table_variable (node_text node))
         in merge_attributes node [(''temp_scope'', AStr (if table_variable then ''TABLE_VARIABLE_BATCH''
                else if py_in ''##'' (node_text node) then ''GLOBAL_TEMPDB'' else ''SESSION_TEMPDB'')),
              (''table_variable'', ABool table_variable)])
      else if k = GOTO then merge_attributes node [(''transfer_semantics'', AStr ''SAME_BATCH_LABEL'')]
      else node)"

definition sqlserver_function_findings :: "SemanticNode \<Rightarrow> SemanticFinding list" where
  "sqlserver_function_findings node =
     (let k = node_kind node in
      if k = DYNAMIC_SQL then
        [node_finding ''SQLSERVER_FUNCTION_DYNAMIC_SQL_NOT_ALLOWED'' ''Dynamic SQL was found in a T-SQL function.''
           ''T-SQL user-defined functions cannot execute dynamic SQL.'' node]
      else if k = ERROR_HANDLER then
        [node_finding ''SQLSERVER_FUNCTION_TRY_CATCH_NOT_ALLOWED'' ''TRY/CATCH was found in a T-SQL function.''
           ''T-SQL user-defined functions cannot contain TRY/CATCH error handling.'' node]
      else if k \<in> set [TRANSACTION_BEGIN, COMMIT, ROLLBACK, SAVEPOINT] then
        [node_finding ''SQLSERVER_FUNCTION_TRANSACTION_CONTROL_NOT_ALLOWED'' ''Transaction control was found in a T-SQL function.''
           ''T-SQL user-defined functions cannot modify transaction state.'' node]
      else if k = TEMP_OBJECT \<and> \<not> attr_flag (node_attributes node) ''table_variable'' then
        [node_finding ''SQLSERVER_FUNCTION_TEMP_TABLE_NOT_ALLOWED'' ''A temporary table was found in a T-SQL function.''
           ''T-SQL user-defined functions may use table variables but cannot create temporary tables.'' node]
      else if k = ERROR_RAISE then
        [node_finding ''SQLSERVER_FUNCTION_ERROR_RAISE_NOT_ALLOWED'' ''THROW or RAISERROR was found in a T-SQL function.''
           ''T-SQL user-defined functions cannot use side-effecting error-raising operators.'' node]
      else [])"

definition sqlserver_node :: "RoutineKind \<Rightarrow> node_policy" where
  "sqlserver_node kind node =
     (let node' = sqlserver_attributes node
      in (node', if kind = FUNCTION then sqlserver_function_findings node' else []))"

definition sqlserver_enrich :: "RoutineIR \<Rightarrow> RoutineIR" where
  "sqlserver_enrich ir = enrich_with (sqlserver_node (ir_routine_kind ir)) ir"

section \<open>PostgreSQL\<close>

definition found_updaters :: "SemanticNodeKind list" where
  "found_updaters = [QUERY, SELECT_INTO, INSERT, UPDATE, DELETE, MERGE, UPSERT, CURSOR_FETCH, RESULT_SET]"

definition pg_first_attributes :: "SemanticNode \<Rightarrow> SemanticNode" where
  "pg_first_attributes node =
     (if node_kind node = ERROR_HANDLER then
        merge_attributes node [(''handler_semantics'', AStr ''EXCEPTION_BLOCK''),
          (''block_changes_rolled_back_before_handler'', ABool True),
          (''diagnostics'', AStrs [''SQLSTATE'', ''SQLERRM'', ''GET STACKED DIAGNOSTICS''])]
      else if node_kind node = SELECT_INTO then
        merge_attributes node [(''cardinality_semantics'',
          AStr (if py_in '' INTO STRICT '' (padded (squashed_upper node)) then ''STRICT_EXACTLY_ONE''
                else ''FIRST_ROW_OR_NULL_ASSIGNMENT''))]
      else node)"

definition pg_found_attributes :: "SemanticNode \<Rightarrow> SemanticNode" where
  "pg_found_attributes node =
     (if node_kind node \<in> set found_updaters then merge_attributes node [(''updates_found_register'', ABool True)] else node)"

definition pg_kind_attributes :: "SemanticNode \<Rightarrow> SemanticNode" where
  "pg_kind_attributes node =
     (let upper = squashed_upper node; k = node_kind node in
      if k = DYNAMIC_SQL then
        merge_attributes node [(''dynamic_semantics'', AStr ''PLPGSQL_EXECUTE''), (''updates_found_register'', ABool False),
          (''supports_using'', flag '' USING '' (padded upper)), (''supports_into'', flag '' INTO '' (padded upper)),
          (''returns_rows'', ABool (attr_flag (node_attributes node) ''returns_rows'' \<or> py_startswith upper ''RETURN QUERY EXECUTE'')),
          (''opens_refcursor'', ABool (attr_flag (node_attributes node) ''opens_refcursor''))]
      else if k = ASSERT then
        merge_attributes node [(''assertion_failure_sqlstate'', AStr ''P0004''), (''enabled_by'', AStr ''plpgsql.check_asserts'')]
      else if k = RESULT_SET then
        merge_attributes node [(''result_semantics'',
          AStr (if py_startswith upper ''RETURN QUERY'' then ''RETURN_QUERY'' else ''RETURN_NEXT_OR_REFCURSOR''))]
      else if k = DIAGNOSTICS then
        merge_attributes node [(''diagnostics_scope'', AStr (if py_in ''STACKED'' upper then ''STACKED'' else ''CURRENT''))]
      else if k = LOCK then merge_attributes node [(''lock_scope'', AStr ''TRANSACTION'')]
      else if k \<in> set [COMMIT, ROLLBACK] then
        merge_attributes node [(''chain'', flag ''AND CHAIN'' upper),
          (''transaction_control_context'', AStr ''TOP_LEVEL_CALL_OR_DO_REQUIRED'')]
      else node)"

definition postgresql_node :: "RoutineKind \<Rightarrow> node_policy" where
  "postgresql_node kind node =
     (let node' = pg_kind_attributes (pg_found_attributes (pg_first_attributes node))
      in (node', if kind \<noteq> PROCEDURE \<and> node_kind node' \<in> set [COMMIT, ROLLBACK] then
            [node_finding ''POSTGRES_TRANSACTION_CONTROL_OUTSIDE_PROCEDURE''
               ''Transaction control was found in a PL/pgSQL function or trigger.''
               ''COMMIT and ROLLBACK are only admitted for procedures or DO blocks in permitted top-level invocation contexts.''
               node'] else []))"

definition postgresql_enrich :: "RoutineIR \<Rightarrow> RoutineIR" where
  "postgresql_enrich ir = enrich_with (postgresql_node (ir_routine_kind ir)) ir"

section \<open>MySQL\<close>

definition declared_locals :: "SemanticNode list \<Rightarrow> string list" where
  "declared_locals ns =
     concat (map (\<lambda>n. case py_split (node_text n) of
         _ # w # _ \<Rightarrow> if node_kind n = DECLARE_K then [py_upper (py_lstrip_of (in_chars [CHR ''@'', bquote]) w)] else []
       | _ \<Rightarrow> []) ns)"

fun declaration_rank :: "SemanticNodeKind \<Rightarrow> nat option" where
  "declaration_rank DECLARE_K = Some 1"
| "declaration_rank CONDITION_DECLARE = Some 1"
| "declaration_rank CURSOR_DECLARE = Some 2"
| "declaration_rank ERROR_HANDLER = Some 3"
| "declaration_rank _ = None"

definition routine_scope :: string where
  "routine_scope = ''<ROUTINE>''"

function block_loop :: "SemanticNode list \<Rightarrow> string option \<Rightarrow> string list \<Rightarrow> string" where
  "block_loop ns None seen = routine_scope"
| "block_loop ns (Some c) seen =
     (if c = [] \<or> c \<in> set seen then routine_scope
      else case by_id ns c of
        None \<Rightarrow> routine_scope
      | Some current \<Rightarrow>
          (if node_kind current = BLOCK \<and> py_startswith (squashed_upper current) ''BEGIN'' then node_id current
           else block_loop ns (node_parent_ref current) (c # seen)))"
  by pat_completeness auto

termination block_loop
proof (relation "measure (\<lambda>(ns, cur, seen). card (ids ns - set seen))")
  fix ns :: "SemanticNode list" and c :: string and seen :: "string list" and current :: SemanticNode
  assume c: "\<not> (c = [] \<or> c \<in> set seen)" "by_id ns c = Some current"
  then have "ids ns - set (c # seen) \<subset> ids ns - set seen" by (auto dest!: by_id_Some)
  then show "((ns, node_parent_ref current, c # seen), (ns, Some c, seen)) \<in> measure (\<lambda>(ns, cur, seen). card (ids ns - set seen))"
    by (simp add: psubset_card_mono)
qed simp

definition enclosing_block_ref :: "SemanticNode list \<Rightarrow> SemanticNode \<Rightarrow> string" where
  "enclosing_block_ref ns node = block_loop ns (node_parent_ref node) []"

record DeclarationState =
  ds_last_rank :: nat
  ds_executable_seen :: bool

text \<open>\<open>states.setdefault\<close> only adds fresh states, so the dictionary is a function with that default.\<close>

type_synonym decl_states = "string \<Rightarrow> DeclarationState"

definition fresh_state :: DeclarationState where
  "fresh_state = \<lparr>ds_last_rank = 0, ds_executable_seen = False\<rparr>"

definition declaration_step :: "SemanticNode list \<Rightarrow> decl_states \<Rightarrow> SemanticNode \<Rightarrow> decl_states \<times> SemanticFinding list" where
  "declaration_step ns states node =
     (let upper = squashed_upper node; scope = enclosing_block_ref ns node; state = states scope;
          is_begin = (node_kind node = BLOCK \<and> py_startswith upper ''BEGIN'');
          is_end = (node_kind node = BLOCK \<and> py_startswith upper ''END'')
      in if is_begin then
           (if scope \<noteq> node_id node then states(scope := state\<lparr>ds_executable_seen := True\<rparr>) else states, [])
         else case declaration_rank (node_kind node) of
           Some rank \<Rightarrow>
             (states(scope := state\<lparr>ds_last_rank := max (ds_last_rank state) rank\<rparr>),
              (if ds_executable_seen state then
                 [node_finding ''MYSQL_DECLARE_AFTER_EXECUTABLE_STATEMENT''
                    ''A MySQL local declaration appears after an executable statement in the same block.''
                    ''Every BEGIN...END block must place all declarations before its executable statements.'' node] else []) @
              (if rank < ds_last_rank state then
                 [node_finding ''MYSQL_DECLARE_ORDER_INVALID''
                    ''MySQL local declarations are not ordered as variables/conditions, cursors, then handlers.''
                    ''The stored program is not valid under MySQL declaration ordering rules for this block.'' node] else []))
         | None \<Rightarrow>
             (if node_kind node \<notin> set [ENTRY, EXIT, LABEL] \<and> \<not> is_end
              then states(scope := state\<lparr>ds_executable_seen := True\<rparr>) else states, []))"

definition rx_mysql_handler :: rx where
  "rx_mysql_handler =
     rseqs [kw ''DECLARE'', ws1, RGroup 1 (ralts [kw ''CONTINUE'', kw ''EXIT'', kw ''UNDO'']),
     ws1, kw ''HANDLER'', ws1, kw ''FOR'', ws1, RGroup 2 (rplus_lazy any), ralts [rseqs [ws1, kw
     ''BEGIN''], rseqs [ws1, kw ''SET''], kw '';'', REos]]"

definition mysql_kind_policy :: "string list \<Rightarrow> RoutineKind \<Rightarrow> node_policy" where
  "mysql_kind_policy locals kind node =
     (let upper = squashed_upper node; k = node_kind node; restricted = (kind = FUNCTION \<or> kind = TRIGGER) in
      if k = ERROR_HANDLER then
        (let m = re_search rx_mysql_handler (node_text node);
             action = (case m of Some m \<Rightarrow> py_upper (m_str m 1) | None \<Rightarrow> ''HANDLER_BRANCH'');
             node' = merge_attributes node [(''handler_semantics'', AStr ''DECLARED_CONDITION_HANDLER''),
               (''handler_action'', AStr action),
               (''handled_condition'', case m of Some m \<Rightarrow> AStr (py_strip (m_str m 2)) | None \<Rightarrow> opt_attr (node_condition_text node)),
               (''scope'', AStr ''DECLARING_BLOCK'')]
         in (node', if action = ''UNDO'' then
               [node_finding ''MYSQL_UNDO_HANDLER_NOT_SUPPORTED'' ''An UNDO handler was declared.''
                  ''MySQL does not support UNDO handler execution.'' node'] else []))
      else if k \<in> set [CURSOR_DECLARE, CURSOR_OPEN, CURSOR_FETCH, CURSOR_CLOSE] then
        (merge_attributes node [(''cursor_sensitivity'', AStr ''ASENSITIVE''), (''cursor_updatability'', AStr ''READ_ONLY''),
           (''cursor_scrollability'', AStr ''NONSCROLLABLE''), (''cursor_holdability'', AStr ''NONHOLDABLE'')], [])
      else if k = DYNAMIC_SQL then
        (let node' = merge_attributes node [(''dynamic_semantics'', AStr ''SESSION_PREPARED_STATEMENT''),
               (''statement_scope'', AStr ''SESSION''), (''supports_local_prepared_statement_name'', ABool True)]
         in (node',
             (if py_startswith upper ''PREPARE'' \<and>
                 list_ex (\<lambda>name. is_search (rseqs [RWordB, kw name, RWordB]) (node_text node)) locals then
                [node_finding ''MYSQL_PREPARE_REFERENCES_LOCAL_VARIABLE''
                   ''MySQL prepared statement text references a local routine variable.''
                   ''Prepared statement text cannot directly depend on routine-local variable scope; use an admitted expression or user variable.''
                   node'] else []) @
             (if restricted then
                [node_finding ''MYSQL_DYNAMIC_SQL_NOT_ALLOWED_IN_FUNCTION_OR_TRIGGER''
                   ''Dynamic prepared-statement execution was found in a stored function or trigger.''
                   ''Prepared statements are admitted in stored procedures, not stored functions or triggers.'' node'] else [])))
      else if k = CONDITION_DECLARE then (merge_attributes node [(''declaration_semantics'', AStr ''NAMED_CONDITION'')], [])
      else if k = DIAGNOSTICS then
        (merge_attributes node [(''diagnostics_area'', case map_of (node_attributes node) ''diagnostics_area'' of
            Some v \<Rightarrow> v | None \<Rightarrow> AStr (if py_in ''STACKED'' upper then ''STACKED'' else ''CURRENT''))], [])
      else if k \<in> set [COMMIT, ROLLBACK, TRANSACTION_BEGIN] \<and> restricted then
        (node, [node_finding ''MYSQL_TRANSACTION_CONTROL_NOT_ALLOWED_IN_FUNCTION_OR_TRIGGER''
           ''Transaction control was found in a stored function or trigger.''
           ''Stored functions and triggers cannot begin or end explicit transactions.'' node])
      else if k = RESULT_SET \<and> kind = FUNCTION then
        (node, [node_finding ''MYSQL_RESULT_SET_NOT_ALLOWED_IN_FUNCTION''
           ''A result-set-producing SELECT was found in a stored function.''
           ''Stored functions must return a scalar value and cannot return a client result set.'' node])
      else if k = LOCK then (merge_attributes node [(''explicit_table_lock'', ABool True)], [])
      else if k = UPSERT then
        (merge_attributes node [(''affected_rows_semantics'', AStr ''INSERT_OR_UPDATE_PATH''),
           (''alias_or_values_reference_version_sensitive'', ABool True)], [])
      else (node, []))"

fun mysql_loop :: "SemanticNode list \<Rightarrow> string list \<Rightarrow> RoutineKind \<Rightarrow> decl_states \<Rightarrow> SemanticNode list \<Rightarrow>
    (SemanticNode \<times> SemanticFinding list) list" where
  "mysql_loop ns locals kind states [] = []"
| "mysql_loop ns locals kind states (node # rest) =
     (case declaration_step ns states node of (states', fs) \<Rightarrow>
        case mysql_kind_policy locals kind node of (node', gs) \<Rightarrow>
          (node', fs @ gs) # mysql_loop ns locals kind states' rest)"

definition mysql_enrich :: "RoutineIR \<Rightarrow> RoutineIR" where
  "mysql_enrich ir =
     (let r = mysql_loop (ir_nodes ir) (declared_locals (ir_nodes ir)) (ir_routine_kind ir) (\<lambda>_. fresh_state) (ir_nodes ir)
      in ir\<lparr>ir_nodes := map fst r, ir_findings := ir_findings ir @ concat (map snd r)\<rparr>)"

definition policies :: "DialectId \<Rightarrow> RoutineIR \<Rightarrow> RoutineIR" where
  "policies dialect = (case dialect of DB2_SQL_PL \<Rightarrow> db2_enrich | ORACLE_PLSQL \<Rightarrow> oracle_enrich
     | SQLSERVER_TSQL \<Rightarrow> sqlserver_enrich | POSTGRESQL_PLPGSQL \<Rightarrow> postgresql_enrich
     | MYSQL_STORED_PROGRAM \<Rightarrow> mysql_enrich)"

section \<open>The contract of a policy\<close>

definition node_core :: "SemanticNode \<Rightarrow> SemanticNode" where
  "node_core n = n\<lparr>node_attributes := []\<rparr>"

definition ir_frame :: "RoutineIR \<Rightarrow> RoutineIR" where
  "ir_frame ir = ir\<lparr>ir_nodes := [], ir_findings := []\<rparr>"

definition annotates :: "SemanticNode \<Rightarrow> SemanticNode \<Rightarrow> bool" where
  "annotates n n' \<longleftrightarrow> node_core n' = node_core n \<and> fst ` set (node_attributes n) \<subseteq> fst ` set (node_attributes n')"

locale semantic_policy =
  fixes enrich :: "RoutineIR \<Rightarrow> RoutineIR"
  assumes frame: "ir_frame (enrich ir) = ir_frame ir"
    and nodes: "list_all2 annotates (ir_nodes ir) (ir_nodes (enrich ir))"
    and findings: "\<exists>more. ir_findings (enrich ir) = ir_findings ir @ more"
begin

lemma core_nodes: "map node_core (ir_nodes (enrich ir)) = map node_core (ir_nodes ir)"
  using nodes [of ir] by (induction rule: list_all2_induct) (auto simp: annotates_def)

lemma node_ids: "map node_id (ir_nodes (enrich ir)) = map node_id (ir_nodes ir)"
proof -
  have "node_id (node_core n) = node_id n" for n by (simp add: node_core_def)
  then show ?thesis using arg_cong [OF core_nodes, of "map node_id" ir] by (simp add: comp_def)
qed

lemma edges: "ir_edges (enrich ir) = ir_edges ir"
  using arg_cong [OF frame, of ir_edges] by (simp add: ir_frame_def)

lemma refs: "ir_entry_node_ref (enrich ir) = ir_entry_node_ref ir" "ir_exit_node_ref (enrich ir) = ir_exit_node_ref ir"
  using arg_cong [OF frame, of ir_entry_node_ref] arg_cong [OF frame, of ir_exit_node_ref] by (simp_all add: ir_frame_def)

lemma valid: "validate_references (enrich ir) = validate_references ir"
  unfolding validate_references_def by (simp add: node_ids edges refs)

end

lemma annotates_refl [simp]: "annotates n n"
  by (simp add: annotates_def)

lemma annotates_trans: "annotates a b \<Longrightarrow> annotates b c \<Longrightarrow> annotates a c"
  by (auto simp: annotates_def)

lemma keys_dict_update: "fst ` set (dict_update d e) = fst ` set d \<union> fst ` set e"
  unfolding dict_update_def by (induction e arbitrary: d) (auto simp: keys_dict_set)

lemma annotates_merge [simp]: "annotates n (merge_attributes n a)"
  by (auto simp: annotates_def merge_attributes_def node_core_def keys_dict_update)

lemma merge_kind [simp]: "node_kind (merge_attributes n a) = node_kind n"
  by (simp add: merge_attributes_def)

lemma annotates_merge_trans [simp]: "annotates n m \<Longrightarrow> annotates n (merge_attributes m a)"
  using annotates_merge annotates_trans by blast

text \<open>A policy that treats every node by itself satisfies the contract when it annotates every node.\<close>

lemma enrich_with_policy:
  assumes "\<And>ir n. annotates n (fst (f ir n))"
  shows "semantic_policy (\<lambda>ir. enrich_with (f ir) ir)"
proof
  fix ir
  show "ir_frame (enrich_with (f ir) ir) = ir_frame ir" by (simp add: ir_frame_def enrich_with_def)
  show "list_all2 annotates (ir_nodes ir) (ir_nodes (enrich_with (f ir) ir))"
    using assms by (simp add: enrich_with_def list_all2_conv_all_nth)
  show "\<exists>more. ir_findings (enrich_with (f ir) ir) = ir_findings ir @ more" by (simp add: enrich_with_def)
qed

lemma db2_node_annotates: "annotates n (fst (db2_node ns kind n))"
  by (auto simp: db2_node_def db2_kind_policy_def db2_handler_def Let_def split: prod.splits)

lemma oracle_node_annotates: "annotates n (fst (oracle_node autonomous kind n))"
  by (auto simp: oracle_node_def Let_def)

lemma sqlserver_node_annotates: "annotates n (fst (sqlserver_node kind n))"
  by (auto simp: sqlserver_node_def sqlserver_attributes_def Let_def)

lemma pg_annotates:
  "annotates n (pg_first_attributes n)" "annotates n (pg_found_attributes n)" "annotates n (pg_kind_attributes n)"
  by (auto simp: pg_first_attributes_def pg_found_attributes_def pg_kind_attributes_def Let_def)

lemma postgresql_node_annotates: "annotates n (fst (postgresql_node kind n))"
  unfolding postgresql_node_def Let_def fst_conv by (intro annotates_trans [OF _ pg_annotates(3)] annotates_trans [OF pg_annotates(1) pg_annotates(2)])

lemma mysql_kind_annotates: "annotates n (fst (mysql_kind_policy locals kind n))"
  by (auto simp: mysql_kind_policy_def Let_def)

lemma mysql_loop_annotates: "list_all2 annotates rest (map fst (mysql_loop ns locals kind states rest))"
proof (induction ns locals kind states rest rule: mysql_loop.induct)
  case (2 ns locals kind states node rest)
  then show ?case using mysql_kind_annotates [of node locals kind]
    by (cases "declaration_step ns states node"; cases "mysql_kind_policy locals kind node") auto
qed simp

interpretation db2_policy: semantic_policy db2_enrich
  unfolding db2_enrich_def by (rule enrich_with_policy) (rule db2_node_annotates)

interpretation oracle_policy: semantic_policy oracle_enrich
  unfolding oracle_enrich_def by (rule enrich_with_policy) (rule oracle_node_annotates)

interpretation sqlserver_policy: semantic_policy sqlserver_enrich
  unfolding sqlserver_enrich_def by (rule enrich_with_policy) (rule sqlserver_node_annotates)

interpretation postgresql_policy: semantic_policy postgresql_enrich
  unfolding postgresql_enrich_def by (rule enrich_with_policy) (rule postgresql_node_annotates)

interpretation mysql_policy: semantic_policy mysql_enrich
  by unfold_locales
    (simp_all add: mysql_enrich_def ir_frame_def Let_def mysql_loop_annotates)

lemma policies_semantic: "semantic_policy (policies dialect)"
  by (cases dialect)
    (simp_all add: policies_def db2_policy.semantic_policy_axioms oracle_policy.semantic_policy_axioms
      sqlserver_policy.semantic_policy_axioms postgresql_policy.semantic_policy_axioms mysql_policy.semantic_policy_axioms)

interpretation vendor_policy: semantic_policy "policies dialect" for dialect
  by (rule policies_semantic)

text \<open>
  A semantic policy only annotates. For each of the five dialects the enriched routine has the
  same nodes, in order and equal up to attributes, no attribute key is lost, every other part of
  the IR but the findings is the same, and the findings are those of the parser followed by the
  policy's own.
\<close>

theorem policies_only_annotate:
  "ir_frame (policies dialect ir) = ir_frame ir \<and>
   list_all2 annotates (ir_nodes ir) (ir_nodes (policies dialect ir)) \<and>
   take (length (ir_findings ir)) (ir_findings (policies dialect ir)) = ir_findings ir"
  using vendor_policy.frame [of dialect ir] vendor_policy.nodes [of ir dialect] vendor_policy.findings [of dialect ir] by auto

section \<open>Declaration order in MySQL\<close>

text \<open>
  A MySQL declaration is accepted without a finding exactly when no executable statement and
  no declaration of a later rank (variables and conditions, then cursors, then handlers) has been
  recorded for its block; and a declaration never lowers the recorded rank.
\<close>

theorem declaration_order:
  assumes "declaration_rank (node_kind node) = Some rank"
    and "declaration_step ns states node = (states', fs)"
  shows "(fs = [] \<longleftrightarrow> \<not> ds_executable_seen (states (enclosing_block_ref ns node)) \<and>
      ds_last_rank (states (enclosing_block_ref ns node)) \<le> rank) \<and>
    (\<forall>scope. ds_last_rank (states scope) \<le> ds_last_rank (states' scope)) \<and>
    rank \<le> ds_last_rank (states' (enclosing_block_ref ns node))"
proof -
  have nb: "node_kind node \<noteq> BLOCK" using assms(1) by auto
  then show ?thesis using assms unfolding declaration_step_def Let_def
    by (auto simp: not_less split: if_splits)
qed

theorem declaration_order_witness:
  "snd (declaration_step [] (\<lambda>_. \<lparr>ds_last_rank = 2, ds_executable_seen = False\<rparr>)
     (sample_node 0 DECLARE_K ''DECLARE x INT'' None)) \<noteq> []"
proof -
  let ?n = "sample_node 0 DECLARE_K ''DECLARE x INT'' None"
  let ?s = "\<lambda>_. \<lparr>ds_last_rank = 2, ds_executable_seen = False\<rparr>"
  have r: "declaration_rank (node_kind ?n) = Some 1" by (simp add: sample_node_def)
  from declaration_order [OF r surjective_pairing, of "[]" ?s] show ?thesis by simp
qed

end
