(* ===== verification/Structure.thy ===== *)
theory Structure
  imports AtlasModels
begin

text \<open>
  The region tracker of \<open>atlas/dialects/structure.py\<close>: the stack of open procedural regions
  that the adapter consults for the parent of a node and for the source of a branch edge, and
  updates after every node. The stack \<open>self.frames\<close> is a list whose head is
  \<open>frames[-1]\<close>; assigning to a frame found by \<open>nearest\<close> is \<open>update_nearest\<close>. The
  lemmas show that every update closes a segment of the stack and loses no frame, that the
  references the tracker hands out name nodes already emitted, and that a block closes together
  with its owner only.
\<close>

section \<open>Frames\<close>

datatype FrameKind = F_IF | F_CASE | F_LOOP | F_TRY_CATCH | F_HANDLER | F_BLOCK

record RegionFrame =
  frame_kind :: FrameKind
  frame_root_ref :: string
  frame_active_ref :: string
  frame_condition_text :: "string option"
  frame_owner_kind :: "FrameKind option"
  frame_owner_ref :: "string option"
  frame_single_statement :: bool
  frame_statements_seen :: nat

definition mk_frame :: "FrameKind \<Rightarrow> string \<Rightarrow> string option \<Rightarrow> bool \<Rightarrow> RegionFrame" where
  "mk_frame k ref cond single =
     \<lparr>frame_kind = k, frame_root_ref = ref, frame_active_ref = ref, frame_condition_text = cond,
      frame_owner_kind = None, frame_owner_ref = None, frame_single_statement = single,
      frame_statements_seen = 0\<rparr>"

lemma mk_frame_sel [simp]:
  "frame_kind (mk_frame k ref cond single) = k" "frame_root_ref (mk_frame k ref cond single) = ref"
  "frame_active_ref (mk_frame k ref cond single) = ref"
  "frame_owner_kind (mk_frame k ref cond single) = None"
  "frame_owner_ref (mk_frame k ref cond single) = None"
  by (simp_all add: mk_frame_def)

type_synonym frames = "RegionFrame list"

definition current_parent :: "frames \<Rightarrow> string option" where
  "current_parent fs = (case fs of [] \<Rightarrow> None | f # _ \<Rightarrow> Some (frame_active_ref f))"

definition nearest :: "FrameKind list \<Rightarrow> frames \<Rightarrow> RegionFrame option" where
  "nearest kinds fs = List.find (\<lambda>f. frame_kind f \<in> set kinds) fs"

fun update_nearest :: "FrameKind list \<Rightarrow> (RegionFrame \<Rightarrow> RegionFrame) \<Rightarrow> frames \<Rightarrow> frames" where
  "update_nearest kinds g [] = []"
| "update_nearest kinds g (f # fs) =
     (if frame_kind f \<in> set kinds then g f # fs else f # update_nearest kinds g fs)"

definition activate :: "string \<Rightarrow> string option \<Rightarrow> RegionFrame \<Rightarrow> RegionFrame" where
  "activate node cond f =
     f\<lparr>frame_active_ref := node, frame_condition_text := cond, frame_statements_seen := 0\<rparr>"

section \<open>Parents and branch edges\<close>

definition is_else_branch :: "string \<Rightarrow> bool" where
  "is_else_branch branch = (branch \<in> set [''ELSE'', ''ELSIF'', ''ELSEIF''])"

definition branch_kinds :: "string \<Rightarrow> FrameKind list" where
  "branch_kinds branch = (if branch = ''ELSE'' then [F_IF, F_CASE] else [F_IF])"

definition root_or_current :: "frames \<Rightarrow> RegionFrame option \<Rightarrow> string option" where
  "root_or_current fs fo = (case fo of Some f \<Rightarrow> Some (frame_root_ref f) | None \<Rightarrow> current_parent fs)"

definition parent_for :: "frames \<Rightarrow> SemanticNodeKind \<Rightarrow> attrs \<Rightarrow> string \<Rightarrow> string option" where
  "parent_for fs kind attrs upper =
     (let branch = attr_get_str attrs ''branch_kind'' in
      if kind = CONDITION \<and> is_else_branch branch then root_or_current fs (nearest (branch_kinds branch) fs)
      else if kind = CONDITION \<and> branch = ''WHEN'' then root_or_current fs (nearest [F_CASE, F_HANDLER] fs)
      else if kind = ERROR_HANDLER \<and> py_startswith upper ''BEGIN CATCH'' then
        root_or_current fs (nearest [F_TRY_CATCH] fs)
      else if kind = ERROR_HANDLER \<and> py_startswith upper ''WHEN '' then
        root_or_current fs (nearest [F_HANDLER] fs)
      else current_parent fs)"

type_synonym branch_source = "string option \<times> EdgeKind \<times> string option"

definition branch_edge :: "frames \<Rightarrow> SemanticNodeKind \<Rightarrow> attrs \<Rightarrow> string \<Rightarrow> branch_source" where
  "branch_edge fs kind attrs upper =
     (let branch = attr_get_str attrs ''branch_kind'';
          condition = attr_string attrs ''condition_text'';
          none = (None, NEXT, None) in
      if kind = CONDITION \<and> is_else_branch branch then
        (case nearest (branch_kinds branch) fs of
           Some f \<Rightarrow> (Some (frame_active_ref f), (if frame_kind f = F_CASE then BRANCH else FALSE_E),
                      frame_condition_text f)
         | None \<Rightarrow> none)
      else if kind = CONDITION \<and> branch = ''WHEN'' then
        (case nearest [F_CASE, F_HANDLER] fs of
           Some f \<Rightarrow> (Some (frame_root_ref f), (if frame_kind f = F_CASE then BRANCH else EXCEPTION), condition)
         | None \<Rightarrow> none)
      else if kind = ERROR_HANDLER \<and> py_startswith upper ''BEGIN CATCH'' then
        (case nearest [F_TRY_CATCH] fs of
           Some f \<Rightarrow> (Some (frame_root_ref f), EXCEPTION, Some ''CATCH'')
         | None \<Rightarrow> none)
      else if kind = ERROR_HANDLER \<and> py_startswith upper ''WHEN '' then
        (case nearest [F_HANDLER] fs of
           Some f \<Rightarrow> (Some (frame_root_ref f), EXCEPTION,
                      (case condition of Some c \<Rightarrow> Some c | None \<Rightarrow> Some upper))
         | None \<Rightarrow> none)
      else none)"

section \<open>Closing regions\<close>

text \<open>Pops until a frame of the given kind has been popped: the closed frames and the rest.\<close>

fun pop_until :: "FrameKind \<Rightarrow> frames \<Rightarrow> frames \<times> frames" where
  "pop_until k [] = ([], [])"
| "pop_until k (f # fs) =
     (if frame_kind f = k then ([f], fs)
      else (case pop_until k fs of (closed, rest) \<Rightarrow> (f # closed, rest)))"

text \<open>Pops the head if there is one, into the closed frames.\<close>

definition pop_into :: "frames \<Rightarrow> frames \<Rightarrow> frames \<times> frames" where
  "pop_into closed fs = (case fs of [] \<Rightarrow> (closed, []) | f # fs' \<Rightarrow> (closed @ [f], fs'))"

definition owned_by :: "RegionFrame \<Rightarrow> RegionFrame option \<Rightarrow> bool" where
  "owned_by block owner =
     (case owner of None \<Rightarrow> False | Some ow \<Rightarrow> frame_owner_ref block = Some (frame_root_ref ow))"

definition explicit_end :: "string \<Rightarrow> FrameKind option" where
  "explicit_end normalized =
     (if py_startswith normalized ''END IF'' then Some F_IF
      else if py_startswith_any normalized [''END LOOP'', ''END WHILE'', ''END REPEAT''] then Some F_LOOP
      else if py_startswith normalized ''END CASE'' then Some F_CASE
      else if py_startswith normalized ''END CATCH'' then Some F_TRY_CATCH
      else None)"

definition starts_with_opt :: "string option \<Rightarrow> string \<Rightarrow> bool" where
  "starts_with_opt v p = (case v of None \<Rightarrow> False | Some s \<Rightarrow> s \<noteq> [] \<and> py_startswith s p)"

definition close_for_end :: "DialectId \<Rightarrow> frames \<Rightarrow> string \<Rightarrow> string option \<Rightarrow> frames \<times> frames" where
  "close_for_end dialect fs upper next_upper =
     (let normalized = py_strip (py_rstrip_of (in_chars '';$'') upper) in
      case explicit_end normalized of
        Some k \<Rightarrow> pop_until k fs
      | None \<Rightarrow>
          (if py_startswith normalized ''END TRY'' then ([], fs)
           else case fs of
             [] \<Rightarrow> ([], [])
           | block # rest \<Rightarrow>
               (if frame_kind block = F_BLOCK then
                  (if frame_owner_kind block = Some F_HANDLER then
                     (if owned_by block (nearest [F_HANDLER] rest) then pop_into [block] rest
                      else ([block], rest))
                   else case frame_owner_kind block of
                     Some ok \<Rightarrow>
                       (if dialect = SQLSERVER_TSQL \<and> owned_by block (nearest [ok] rest) then
                          (if ok = F_IF \<and> starts_with_opt next_upper ''ELSE'' then ([block], rest)
                           else pop_into [block] rest)
                        else ([block], rest))
                   | None \<Rightarrow> ([block], rest))
                else if frame_kind block = F_HANDLER \<and> rest \<noteq> [] \<and> frame_kind (hd rest) = F_BLOCK
                  then pop_into [block] rest
                else ([block], rest))))"

section \<open>The update after a node\<close>

type_synonym after_result = "EdgeKind \<times> string option \<times> frames \<times> frames"

definition close_single :: "DialectId \<Rightarrow> frames \<Rightarrow> SemanticNodeKind \<Rightarrow> after_result" where
  "close_single dialect fs kind =
     (case fs of
        f # rest \<Rightarrow>
          (if dialect = SQLSERVER_TSQL \<and> frame_single_statement f \<and> kind \<noteq> BLOCK \<and> kind \<noteq> CONDITION
           then (NEXT, None, [f\<lparr>frame_statements_seen := frame_statements_seen f + 1\<rparr>], rest)
           else (NEXT, None, [], fs))
      | [] \<Rightarrow> (NEXT, None, [], fs))"

definition after_condition ::
  "DialectId \<Rightarrow> frames \<Rightarrow> string \<Rightarrow> attrs \<Rightarrow> string option \<Rightarrow> after_result" where
  "after_condition dialect fs node attrs next_upper =
     (let branch = attr_get_str attrs ''branch_kind'';
          condition = attr_string attrs ''condition_text'' in
      if is_else_branch branch then
        (case nearest (branch_kinds branch) fs of
           Some f \<Rightarrow>
             ((if frame_kind f = F_CASE then BRANCH else if branch \<noteq> ''ELSE'' then TRUE_E else NEXT),
              condition, [],
              update_nearest (branch_kinds branch)
                (activate node (or_opt condition (frame_condition_text f))) fs)
         | None \<Rightarrow> close_single dialect fs CONDITION)
      else if branch = ''WHEN'' then
        (case nearest [F_CASE, F_HANDLER] fs of
           Some f \<Rightarrow>
             ((if frame_kind f = F_CASE then BRANCH else EXCEPTION), condition, [],
              update_nearest [F_CASE, F_HANDLER] (activate node condition) fs)
         | None \<Rightarrow> close_single dialect fs CONDITION)
      else
        (TRUE_E, condition, [],
         mk_frame F_IF node condition
           (dialect = SQLSERVER_TSQL \<and> \<not> starts_with_opt next_upper ''BEGIN'') # fs))"

definition after_handler ::
  "DialectId \<Rightarrow> frames \<Rightarrow> string \<Rightarrow> attrs \<Rightarrow> string \<Rightarrow> string option \<Rightarrow> after_result" where
  "after_handler dialect fs node attrs upper next_upper =
     (let condition = attr_string attrs ''condition_text'';
          opened = (EXCEPTION, Some upper, [], mk_frame F_HANDLER node (Some upper) False # fs) in
      if (dialect = MYSQL_STORED_PROGRAM \<or> dialect = DB2_SQL_PL) \<and> py_startswith upper ''DECLARE '' \<and>
         py_in '' HANDLER '' ('' '' @ upper @ '' '') \<and> \<not> starts_with_opt next_upper ''BEGIN''
      then (NEXT, None, [], fs)
      else if py_startswith upper ''BEGIN TRY'' then
        (NEXT, None, [], mk_frame F_TRY_CATCH node (Some ''TRY'') False # fs)
      else if py_startswith upper ''BEGIN CATCH'' \<and> nearest [F_TRY_CATCH] fs \<noteq> None then
        (EXCEPTION, Some ''CATCH'', [], update_nearest [F_TRY_CATCH] (activate node (Some ''CATCH'')) fs)
      else if py_startswith upper ''WHEN '' \<and> nearest [F_HANDLER] fs \<noteq> None then
        (EXCEPTION, condition, [], update_nearest [F_HANDLER] (activate node condition) fs)
      else opened)"

definition after_block ::
  "DialectId \<Rightarrow> frames \<Rightarrow> string \<Rightarrow> string \<Rightarrow> string option \<Rightarrow> after_result" where
  "after_block dialect fs node upper next_upper =
     (if py_startswith upper ''BEGIN'' \<and>
         \<not> py_startswith_any upper [''BEGIN TRY'', ''BEGIN CATCH'', ''BEGIN TRAN''] then
        (NEXT, None, [],
         (mk_frame F_BLOCK node None False)
           \<lparr>frame_owner_kind := (case fs of [] \<Rightarrow> None | ow # _ \<Rightarrow> Some (frame_kind ow)),
            frame_owner_ref := (case fs of [] \<Rightarrow> None | ow # _ \<Rightarrow> Some (frame_root_ref ow))\<rparr> # fs)
      else if py_startswith upper ''END'' then
        (case close_for_end dialect fs upper next_upper of (closed, fs') \<Rightarrow> (NEXT, None, closed, fs'))
      else close_single dialect fs BLOCK)"

definition after_node ::
  "DialectId \<Rightarrow> frames \<Rightarrow> string \<Rightarrow> SemanticNodeKind \<Rightarrow> attrs \<Rightarrow> string \<Rightarrow> string option \<Rightarrow> after_result"
where
  "after_node dialect fs node kind attrs upper next_upper =
     (let condition = attr_string attrs ''condition_text'' in
      if kind = CONDITION then after_condition dialect fs node attrs next_upper
      else if kind = CASE_K then (BRANCH, condition, [], mk_frame F_CASE node condition False # fs)
      else if kind = LOOP then
        (LOOP_BODY, condition, [],
         mk_frame F_LOOP node (Some (or_str condition upper))
           (dialect = SQLSERVER_TSQL \<and> \<not> starts_with_opt next_upper ''BEGIN'') # fs)
      else if kind = ERROR_HANDLER then after_handler dialect fs node attrs upper next_upper
      else if kind = BLOCK then after_block dialect fs node upper next_upper
      else close_single dialect fs kind)"

definition drain :: "frames \<Rightarrow> frames" where
  "drain fs = rev fs"

lemmas after_defs = after_node_def after_condition_def after_handler_def after_block_def
  close_single_def Let_def

section \<open>What an update does to the stack\<close>

text \<open>
  The identity of a frame, which no assignment of the tracker changes: its kind, the node that
  opened it and, for a block, its owner.
\<close>

definition frame_key :: "RegionFrame \<Rightarrow> FrameKind \<times> string \<times> FrameKind option \<times> string option" where
  "frame_key f = (frame_kind f, frame_root_ref f, frame_owner_kind f, frame_owner_ref f)"

lemma frame_key_activate [simp]: "frame_key (activate node cond f) = frame_key f"
  by (simp add: frame_key_def activate_def)

lemma keys_update_nearest [simp]:
  "(\<And>f. frame_key (g f) = frame_key f) \<Longrightarrow> map frame_key (update_nearest kinds g fs) = map frame_key fs"
  by (induction fs) auto

lemma pop_until_append: "fst (pop_until k fs) @ snd (pop_until k fs) = fs"
  by (induction fs) (auto split: prod.splits)

lemma pop_into_append: "fst (pop_into closed fs) @ snd (pop_into closed fs) = closed @ fs"
  by (auto simp: pop_into_def split: list.splits)

lemma close_for_end_append:
  assumes "close_for_end dialect fs upper next_upper = (closed, fs')"
  shows "closed @ fs' = fs"
proof -
  have "fst (close_for_end dialect fs upper next_upper) @ snd (close_for_end dialect fs upper next_upper) = fs"
  proof (cases "explicit_end (py_strip (py_rstrip_of (in_chars '';$'') upper))")
    case None
    then show ?thesis
      by (cases fs) (simp_all add: close_for_end_def Let_def pop_into_append split: option.split)
  next
    case (Some k)
    then show ?thesis by (simp add: close_for_end_def Let_def pop_until_append)
  qed
  with assms show ?thesis by simp
qed

text \<open>
  Stack discipline: an update either pushes one frame, opened by the node itself and active at
  it (a block records the frame below it as its owner), or closes a segment at the top of the
  stack; no frame is lost, duplicated or reordered.
\<close>

definition owner_key :: "frames \<Rightarrow> FrameKind option \<times> string option" where
  "owner_key fs =
     (case fs of [] \<Rightarrow> (None, None) | ow # _ \<Rightarrow> (Some (frame_kind ow), Some (frame_root_ref ow)))"

definition opened_at :: "frames \<Rightarrow> string \<Rightarrow> RegionFrame \<Rightarrow> bool" where
  "opened_at fs node f \<longleftrightarrow> frame_root_ref f = node \<and> frame_active_ref f = node \<and>
     (frame_kind f = F_BLOCK \<longrightarrow> (frame_owner_kind f, frame_owner_ref f) = owner_key fs)"

definition stack_step :: "frames \<Rightarrow> string \<Rightarrow> after_result \<Rightarrow> bool" where
  "stack_step fs node r \<longleftrightarrow>
     (case r of (ek, cond, closed, fs') \<Rightarrow>
        map frame_key closed @ map frame_key fs' = map frame_key fs \<or>
        closed = [] \<and> (\<exists>f. fs' = f # fs \<and> opened_at fs node f))"

lemma stack_step_close: "closed @ fs' = fs \<Longrightarrow> stack_step fs node (ek, cond, closed, fs')"
  by (auto simp: stack_step_def)

lemma stack_step_same [simp]: "stack_step fs node (ek, cond, [], fs)"
  by (simp add: stack_step_def)

lemma stack_step_update [simp]:
  "stack_step fs node (ek, cond, [], update_nearest kinds (activate n c) fs)"
  by (simp add: stack_step_def)

lemma stack_step_push [simp]:
  "k \<noteq> F_BLOCK \<Longrightarrow> stack_step fs node (ek, cond, [], mk_frame k node c b # fs)"
  by (simp add: stack_step_def opened_at_def mk_frame_def)

lemma stack_step_single [simp]: "stack_step fs node (close_single dialect fs kind)"
  by (auto simp: close_single_def stack_step_def frame_key_def split: list.split)

lemma stack_step_condition [simp]: "stack_step fs node (after_condition dialect fs node attrs next_upper)"
  by (simp add: after_condition_def Let_def split: option.split)

lemma stack_step_handler [simp]: "stack_step fs node (after_handler dialect fs node attrs upper next_upper)"
  by (simp add: after_handler_def Let_def)

lemma stack_step_open_block [simp]:
  "stack_step fs node (ek, cond, [],
     (mk_frame F_BLOCK node None False)
       \<lparr>frame_owner_kind := (case fs of [] \<Rightarrow> None | ow # _ \<Rightarrow> Some (frame_kind ow)),
        frame_owner_ref := (case fs of [] \<Rightarrow> None | ow # _ \<Rightarrow> Some (frame_root_ref ow))\<rparr> # fs)"
  by (cases fs) (simp_all add: stack_step_def opened_at_def owner_key_def mk_frame_def)

lemma stack_step_block [simp]: "stack_step fs node (after_block dialect fs node upper next_upper)"
proof (cases "close_for_end dialect fs upper next_upper")
  case (Pair closed fs')
  then show ?thesis
    using stack_step_close [OF close_for_end_append [OF Pair]] by (simp add: after_block_def)
qed

lemma stack_step_after_node: "stack_step fs node (after_node dialect fs node kind attrs upper next_upper)"
  by (simp add: after_node_def Let_def)

section \<open>References\<close>

text \<open>Every reference held by a frame names a node of \<open>ids\<close>.\<close>

definition frames_in :: "string set \<Rightarrow> frames \<Rightarrow> bool" where
  "frames_in ids fs \<longleftrightarrow> (\<forall>f \<in> set fs. frame_root_ref f \<in> ids \<and> frame_active_ref f \<in> ids)"

lemma frames_in_Nil [simp]: "frames_in ids []"
  by (simp add: frames_in_def)

lemma frames_in_mono: "frames_in ids fs \<Longrightarrow> ids \<subseteq> ids' \<Longrightarrow> frames_in ids' fs"
  by (auto simp: frames_in_def)

lemma nearest_Some: "nearest kinds fs = Some f \<Longrightarrow> f \<in> set fs \<and> frame_kind f \<in> set kinds"
  by (auto simp: nearest_def dest: find_Some_mem)

lemma frames_in_nearest: "frames_in ids fs \<Longrightarrow> nearest kinds fs = Some f \<Longrightarrow> frame_root_ref f \<in> ids \<and> frame_active_ref f \<in> ids"
  by (auto simp: frames_in_def dest: nearest_Some)

lemma current_parent_in: "frames_in ids fs \<Longrightarrow> current_parent fs = Some r \<Longrightarrow> r \<in> ids"
  by (auto simp: current_parent_def frames_in_def split: list.splits)

lemma root_or_current_in:
  "frames_in ids fs \<Longrightarrow> root_or_current fs (nearest kinds fs) = Some r \<Longrightarrow> r \<in> ids"
  by (auto simp: root_or_current_def dest: frames_in_nearest current_parent_in split: option.splits)

lemma parent_for_in: "frames_in ids fs \<Longrightarrow> parent_for fs kind attrs upper = Some r \<Longrightarrow> r \<in> ids"
  by (auto simp: parent_for_def Let_def dest: root_or_current_in current_parent_in split: if_splits)

lemma branch_edge_in: "frames_in ids fs \<Longrightarrow> branch_edge fs kind attrs upper = (Some r, ek, c) \<Longrightarrow> r \<in> ids"
  by (auto simp: branch_edge_def Let_def dest: frames_in_nearest split: if_splits option.splits)

lemma frames_in_Cons [simp]:
  "frames_in ids (f # fs) \<longleftrightarrow> frame_root_ref f \<in> ids \<and> frame_active_ref f \<in> ids \<and> frames_in ids fs"
  by (auto simp: frames_in_def)

lemma activate_refs [simp]:
  "frame_root_ref (activate node c f) = frame_root_ref f" "frame_active_ref (activate node c f) = node"
  by (simp_all add: activate_def)

lemma frames_in_update: "frames_in ids fs \<Longrightarrow> node \<in> ids \<Longrightarrow> frames_in ids (update_nearest kinds (activate node c) fs)"
  by (induction fs) simp_all

text \<open>An update keeps the references inside the nodes emitted so far, the new node included.\<close>

definition refs_ok :: "string set \<Rightarrow> after_result \<Rightarrow> bool" where
  "refs_ok ids r \<longleftrightarrow> (case r of (ek, cond, closed, fs') \<Rightarrow> frames_in ids closed \<and> frames_in ids fs')"

lemma refs_ok_tuple [simp]:
  "refs_ok ids (ek, cond, closed, fs') \<longleftrightarrow> frames_in ids closed \<and> frames_in ids fs'"
  by (simp add: refs_ok_def)

lemma refs_ok_single: "frames_in ids fs \<Longrightarrow> refs_ok ids (close_single dialect fs kind)"
  by (cases fs) (simp_all add: close_single_def)

lemma refs_ok_after_node:
  assumes "frames_in ids fs" and "node \<in> ids"
  shows "refs_ok ids (after_node dialect fs node kind attrs upper next_upper)"
proof -
  note ok = assms frames_in_update [OF assms] refs_ok_single [OF assms(1)]
  have end_ok: "frames_in ids (fst (close_for_end dialect fs upper next_upper))"
    "frames_in ids (snd (close_for_end dialect fs upper next_upper))"
    using assms(1) close_for_end_append [OF surjective_pairing]
    unfolding frames_in_def by (metis Un_iff set_append)+
  have "refs_ok ids (after_condition dialect fs node attrs next_upper)"
    by (simp add: after_condition_def Let_def ok split: option.split)
  moreover have "refs_ok ids (after_handler dialect fs node attrs upper next_upper)"
    by (simp add: after_handler_def Let_def ok)
  moreover have "refs_ok ids (after_block dialect fs node upper next_upper)"
    using end_ok
    by (cases "close_for_end dialect fs upper next_upper") (simp add: after_block_def ok)
  ultimately show ?thesis by (simp add: after_node_def Let_def ok)
qed

section \<open>Blocks close with their owner\<close>

text \<open>
  A block frame records the frame below it as its owner. The link is kept by every update, so
  the second frame popped by a generic \<open>END\<close> is the owner the block was opened in.
\<close>

fun linked_keys :: "(FrameKind \<times> string \<times> FrameKind option \<times> string option) list \<Rightarrow> bool" where
  "linked_keys [] = True"
| "linked_keys ((k, r, ok, oref) # ks) =
     ((k = F_BLOCK \<longrightarrow>
        (case ks of [] \<Rightarrow> ok = None \<and> oref = None
         | (k', r', _) # _ \<Rightarrow> ok = Some k' \<and> oref = Some r')) \<and> linked_keys ks)"

definition linked :: "frames \<Rightarrow> bool" where
  "linked fs = linked_keys (map frame_key fs)"

lemma linked_keys_append: "linked_keys (ks @ ks') \<Longrightarrow> linked_keys ks'"
  by (induction ks rule: linked_keys.induct) auto

lemma linked_tl: "linked (f # fs) \<Longrightarrow> linked fs"
  by (simp add: linked_def frame_key_def)

lemma linked_owner:
  "linked (block # ow # fs) \<Longrightarrow> frame_kind block = F_BLOCK \<Longrightarrow>
     frame_owner_kind block = Some (frame_kind ow) \<and> frame_owner_ref block = Some (frame_root_ref ow)"
  by (simp add: linked_def frame_key_def)

definition linked_result :: "after_result \<Rightarrow> bool" where
  "linked_result r \<longleftrightarrow> (case r of (ek, cond, closed, fs') \<Rightarrow> linked fs')"

lemma linked_after_node:
  assumes "linked fs"
  shows "linked_result (after_node dialect fs node kind attrs upper next_upper)"
proof -
  obtain ek cond closed fs' where r:
    "after_node dialect fs node kind attrs upper next_upper = (ek, cond, closed, fs')"
    by (metis prod_cases4)
  then consider "map frame_key closed @ map frame_key fs' = map frame_key fs"
    | f where "fs' = f # fs" "opened_at fs node f"
    using stack_step_after_node [of fs node dialect kind attrs upper next_upper]
    by (auto simp: stack_step_def)
  then have "linked fs'"
  proof cases
    case 1
    then show ?thesis using assms unfolding linked_def by (metis linked_keys_append)
  next
    case 2
    then show ?thesis
      using assms by (cases fs) (auto simp: linked_def frame_key_def opened_at_def owner_key_def)
  qed
  with r show ?thesis by (simp add: linked_result_def)
qed

section \<open>The tracker as a state machine\<close>

text \<open>
  \<open>tracked dialect ids fs\<close>: the tracker has been told of the statements \<open>ids\<close>, the latest
  first, whatever their kinds, texts and attributes, and its stack is \<open>fs\<close>.
\<close>

inductive tracked :: "DialectId \<Rightarrow> string list \<Rightarrow> frames \<Rightarrow> bool" for dialect where
  tracked_start: "tracked dialect [] []"
| tracked_node: "tracked dialect ids fs \<Longrightarrow>
    after_node dialect fs node kind attrs upper next_upper = (ek, cond, closed, fs') \<Longrightarrow>
    tracked dialect (node # ids) fs'"

inductive_cases tracked_NilE: "tracked dialect [] fs"
inductive_cases tracked_ConsE: "tracked dialect (node # ids) fs"

definition tracker_ok :: "string list \<Rightarrow> frames \<Rightarrow> bool" where
  "tracker_ok ids fs \<longleftrightarrow> linked fs \<and> frames_in (set ids) fs \<and> subseq (map frame_root_ref fs) ids"

lemma roots_of_keys: "map frame_root_ref fs = map (fst \<circ> snd) (map frame_key fs)"
  by (simp add: frame_key_def)

lemma roots_after_node:
  assumes "after_node dialect fs node kind attrs upper next_upper = (ek, cond, closed, fs')"
    and "subseq (map frame_root_ref fs) ids"
  shows "subseq (map frame_root_ref fs') (node # ids)"
proof -
  consider "map frame_key closed @ map frame_key fs' = map frame_key fs"
    | f where "fs' = f # fs" "opened_at fs node f"
    using stack_step_after_node [of fs node dialect kind attrs upper next_upper] assms(1)
    by (auto simp: stack_step_def)
  then show ?thesis
  proof cases
    case 1
    then have "map frame_root_ref closed @ map frame_root_ref fs' = map frame_root_ref fs"
      unfolding roots_of_keys by (metis map_append)
    then have "subseq (map frame_root_ref fs') (map frame_root_ref fs)"
      by (metis subseq_drop_many subseq_order.order_refl)
    then show ?thesis using assms(2) by (meson subseq_Cons' subseq_order.order_trans list_emb_Cons)
  next
    case 2
    then show ?thesis using assms(2) by (simp add: opened_at_def)
  qed
qed

lemma tracker_ok_tracked: "tracked dialect ids fs \<Longrightarrow> tracker_ok ids fs"
proof (induction rule: tracked.induct)
  case tracked_start
  then show ?case by (simp add: tracker_ok_def linked_def)
next
  case (tracked_node ids fs node kind attrs upper next_upper ek cond closed fs')
  have "frames_in (set (node # ids)) fs"
    using tracked_node by (auto simp: tracker_ok_def elim: frames_in_mono)
  from refs_ok_after_node [OF this, of node dialect kind attrs upper next_upper] linked_after_node
    [of fs dialect node kind attrs upper next_upper] roots_after_node [OF tracked_node(2)] tracked_node
  show ?case by (simp add: tracker_ok_def linked_result_def)
qed

text \<open>
  C39: the region stack stays well formed. In every state the tracker can reach, each frame's
  references name statements already seen, the frames were opened by distinct statements in source
  order, so there are never more frames than statements, and every block frame records the frame
  directly below it as its owner.
\<close>

theorem tracker_reachable_ok:
  "{(ids, fs). tracked dialect ids fs} \<subseteq>
   {(ids, fs). linked fs \<and> frames_in (set ids) fs \<and> subseq (map frame_root_ref fs) ids \<and> length fs \<le> length ids}"
proof clarify
  fix ids fs assume "tracked dialect ids fs"
  then have ok: "tracker_ok ids fs" by (rule tracker_ok_tracked)
  then have "length (map frame_root_ref fs) \<le> length ids" unfolding tracker_ok_def by (blast intro: list_emb_length)
  with ok show "linked fs \<and> frames_in (set ids) fs \<and> subseq (map frame_root_ref fs) ids \<and> length fs \<le> length ids"
    by (simp add: tracker_ok_def)
qed

text \<open>
  One statement moves the stack by one push or one cut. After any statement either one frame,
  rooted and active at that statement, is on top of the old stack, or the frames reported closed
  followed by the remaining ones are the old stack, frame by frame.
\<close>

theorem tracker_stack_discipline:
  "case after_node dialect fs node kind attrs upper next_upper of (ek, cond, closed, fs') \<Rightarrow>
     map frame_key (closed @ fs') = map frame_key fs \<or>
     closed = [] \<and> (\<exists>f. fs' = f # fs \<and> frame_root_ref f = node \<and> frame_active_ref f = node)"
  using stack_step_after_node [of fs node dialect kind attrs upper next_upper]
  by (auto simp: stack_step_def opened_at_def)

end
