(* ===== verification/Canonical.thy ===== *)
theory Canonical
  imports AtlasModels "HOL-Library.List_Lexorder" "HOL-Library.Char_ord"
begin

text \<open>
  Canonical JSON and content digests: \<open>atlas/core/canonical.py\<close>, with the field order and the
  \<open>exclude_none\<close> rule of pydantic's \<open>model_dump\<close> for the models of \<open>atlas/core/models.py\<close>.
  SHA-256 is the parameter \<open>sha\<close>, a function from text to the hexadecimal digest. The lemmas
  show that normalization sorts every object, is idempotent, and that two payloads that differ in
  the order of their keys have the same digest.
\<close>

text \<open>JSON values as \<open>json.dumps\<close> takes them; a finite float carries the text of its \<open>repr\<close>.\<close>

datatype jval =
  JNull | JBool bool | JInt int | JFloat string | JStr string | JList "jval list" | JObj "(string \<times> jval) list"

section \<open>Normalization and serialization\<close>

fun json_normalize :: "jval \<Rightarrow> jval" where
  "json_normalize (JList vs) = JList (map json_normalize vs)"
| "json_normalize (JObj kvs) = JObj (map (\<lambda>(k, v). (k, json_normalize v)) (sort_key fst kvs))"
| "json_normalize v = v"

definition json_char :: "char \<Rightarrow> string" where
  "json_char c =
     (if c = dquote \<or> c = CHR 0x5C then [CHR 0x5C, c]
      else if c = nl then [CHR 0x5C, CHR ''n'']
      else if c = cr then [CHR 0x5C, CHR ''r'']
      else if c = CHR 0x09 then [CHR 0x5C, CHR ''t'']
      else if c = CHR 0x08 then [CHR 0x5C, CHR ''b'']
      else if c = CHR 0x0C then [CHR 0x5C, CHR ''f'']
      else if code_of c < 32 then
        [CHR 0x5C, CHR ''u'', CHR ''0'', CHR ''0'', hex_digit (code_of c div 16), hex_digit (code_of c mod 16)]
      else [c])"

definition json_string :: "string \<Rightarrow> string" where
  "json_string s = [dquote] @ concat (map json_char s) @ [dquote]"

definition int_dec :: "int \<Rightarrow> string" where
  "int_dec n = (if n < 0 then ''-'' else []) @ nat_dec (nat \<bar>n\<bar>)"

fun json_dumps :: "jval \<Rightarrow> string" where
  "json_dumps JNull = ''null''"
| "json_dumps (JBool b) = (if b then ''true'' else ''false'')"
| "json_dumps (JInt n) = int_dec n"
| "json_dumps (JFloat r) = r"
| "json_dumps (JStr s) = json_string s"
| "json_dumps (JList vs) = ''['' @ py_join '','' (map json_dumps vs) @ '']''"
| "json_dumps (JObj kvs) = ''{'' @ py_join '','' (map (\<lambda>(k, v). json_string k @ '':'' @ json_dumps v) kvs) @ ''}''"

definition canonical_json :: "jval \<Rightarrow> string" where
  "canonical_json v = json_dumps (json_normalize v)"

definition sha256_text :: "(string \<Rightarrow> string) \<Rightarrow> string \<Rightarrow> string" where
  "sha256_text sha s = ''sha256:'' @ sha s"

definition canonical_digest :: "(string \<Rightarrow> string) \<Rightarrow> jval \<Rightarrow> string" where
  "canonical_digest sha v = sha256_text sha (canonical_json v)"

section \<open>Dumps of the models\<close>

text \<open>An object whose \<open>None\<close> fields are left out when \<open>x\<close> (\<open>exclude_none\<close>) holds.\<close>

definition jobj :: "bool \<Rightarrow> (string \<times> jval) list \<Rightarrow> jval" where
  "jobj x kvs = JObj (if x then filter (\<lambda>kv. snd kv \<noteq> JNull) kvs else kvs)"

definition jopt :: "string option \<Rightarrow> jval" where
  "jopt v = (case v of None \<Rightarrow> JNull | Some s \<Rightarrow> JStr s)"

definition jstrs :: "string list \<Rightarrow> jval" where
  "jstrs xs = JList (map JStr xs)"

fun attr_json :: "attr \<Rightarrow> jval" where
  "attr_json ANone = JNull"
| "attr_json (AStr s) = JStr s"
| "attr_json (ABool b) = JBool b"
| "attr_json (AInt n) = JInt n"
| "attr_json (AStrs xs) = jstrs xs"
| "attr_json (APairs ps) = JList (map (\<lambda>(a, b). jstrs [a, b]) ps)"

definition attrs_json :: "attrs \<Rightarrow> jval" where
  "attrs_json a = JObj (map (\<lambda>(k, v). (k, attr_json v)) a)"

fun modality_value :: "EffectModality \<Rightarrow> string" where
  "modality_value MUST = ''MUST''"
| "modality_value MAY = ''MAY''"
| "modality_value CONDITIONAL = ''CONDITIONAL''"
| "modality_value UNKNOWN = ''UNKNOWN''"

fun severity_value :: "Severity \<Rightarrow> string" where
  "severity_value SEV_INFO = ''INFO''"
| "severity_value SEV_WARNING = ''WARNING''"
| "severity_value SEV_ERROR = ''ERROR''"

fun status_value :: "ParseStatus \<Rightarrow> string" where
  "status_value STATUS_COMPLETE = ''COMPLETE''"
| "status_value STATUS_PARTIAL = ''PARTIAL''"
| "status_value STATUS_BLOCKED = ''BLOCKED''"

definition span_json :: "bool \<Rightarrow> SourceSpan \<Rightarrow> jval" where
  "span_json x s = jobj x
     [(''start_line'', JInt (span_start_line s)), (''start_column'', JInt (span_start_column s)),
      (''end_line'', JInt (span_end_line s)), (''end_column'', JInt (span_end_column s)),
      (''start_offset'', JInt (span_start_offset s)), (''end_offset'', JInt (span_end_offset s))]"

definition parameter_json :: "bool \<Rightarrow> RoutineParameter \<Rightarrow> jval" where
  "parameter_json x p = jobj x
     [(''name'', JStr (param_name p)), (''mode'', JStr (mode_value (param_mode p))),
      (''type_text'', JStr (param_type_text p)), (''default_text'', jopt (param_default_text p))]"

definition node_json :: "bool \<Rightarrow> SemanticNode \<Rightarrow> jval" where
  "node_json x n = jobj x
     [(''node_id'', JStr (node_id n)), (''kind'', JStr (node_kind_value (node_kind n))), (''text'', JStr (node_text n)),
      (''source_span'', span_json x (node_source_span n)), (''parent_ref'', jopt (node_parent_ref n)),
      (''condition_text'', jopt (node_condition_text n)), (''target_name'', jopt (node_target_name n)),
      (''expression_text'', jopt (node_expression_text n)), (''relation_refs'', jstrs (node_relation_refs n)),
      (''variable_reads'', jstrs (node_variable_reads n)), (''variable_writes'', jstrs (node_variable_writes n)),
      (''call_target'', jopt (node_call_target n)), (''cursor_name'', jopt (node_cursor_name n)),
      (''error_code'', jopt (node_error_code n)), (''modality'', JStr (modality_value (node_modality n))),
      (''attributes'', attrs_json (node_attributes n))]"

definition edge_json :: "bool \<Rightarrow> SemanticEdge \<Rightarrow> jval" where
  "edge_json x e = jobj x
     [(''edge_id'', JStr (edge_id e)), (''source_ref'', JStr (edge_source_ref e)), (''target_ref'', JStr (edge_target_ref e)),
      (''kind'', JStr (edge_kind_value (edge_kind e))), (''condition_text'', jopt (edge_condition_text e))]"

definition finding_json :: "bool \<Rightarrow> SemanticFinding \<Rightarrow> jval" where
  "finding_json x f = jobj x
     [(''code'', JStr (finding_code f)), (''severity'', JStr (severity_value (finding_severity f))),
      (''message'', JStr (finding_message f)),
      (''source_span'', case finding_source_span f of None \<Rightarrow> JNull | Some s \<Rightarrow> span_json x s),
      (''consequence'', JStr (finding_consequence f))]"

text \<open>The fields of a routine IR but its digest; a payload dictionary keeps \<open>None\<close> at the top level.\<close>

definition ir_fields :: "bool \<Rightarrow> RoutineIR \<Rightarrow> (string \<times> jval) list" where
  "ir_fields x ir =
     [(''schema_version'', JStr ''atlas-routine-ir-1.0''), (''atlas_version'', JStr (ir_atlas_version ir)),
      (''dialect'', JStr (dialect_value (ir_dialect ir))), (''adapter_id'', JStr (ir_adapter_id ir)),
      (''routine_kind'', JStr (routine_kind_value (ir_routine_kind ir))), (''schema_name'', jopt (ir_schema_name ir)),
      (''routine_name'', JStr (ir_routine_name ir)), (''parameters'', JList (map (parameter_json x) (ir_parameters ir))),
      (''routine_attributes'', attrs_json (ir_routine_attributes ir)), (''source_name'', JStr (ir_source_name ir)),
      (''source_digest'', JStr (ir_source_digest ir)), (''body_digest'', JStr (ir_body_digest ir)),
      (''nodes'', JList (map (node_json x) (ir_nodes ir))), (''edges'', JList (map (edge_json x) (ir_edges ir))),
      (''findings'', JList (map (finding_json x) (ir_findings ir))),
      (''entry_node_ref'', JStr (ir_entry_node_ref ir)), (''exit_node_ref'', JStr (ir_exit_node_ref ir))]"

definition ir_json :: "RoutineIR \<Rightarrow> jval" where
  "ir_json ir = jobj True (ir_fields True ir @ [(''content_digest'', JStr (ir_content_digest ir))])"

definition arm_json :: "DecisionArm \<Rightarrow> jval" where
  "arm_json a = JObj
     [(''arm_id'', JStr (arm_id a)), (''precedence'', JInt (int (arm_precedence a))),
      (''predicate_node_ref'', JStr (arm_predicate_node_ref a)), (''condition_text'', JStr (arm_condition_text a)),
      (''effect_node_refs'', jstrs (arm_effect_node_refs a)), (''terminal'', JBool (arm_terminal a))]"

definition effect_json :: "EffectSummary \<Rightarrow> jval" where
  "effect_json e = jobj True
     [(''effect_id'', JStr (effect_id e)), (''node_ref'', JStr (effect_node_ref e)),
      (''kind'', JStr (node_kind_value (effect_kind e))), (''target'', jopt (effect_target e)),
      (''expression'', jopt (effect_expression e)), (''modality'', JStr (modality_value (effect_modality e))),
      (''condition_refs'', jstrs (effect_condition_refs e)), (''relation_refs'', jstrs (effect_relation_refs e))]"

definition report_fields :: "RoutineSemanticReport \<Rightarrow> (string \<times> jval) list" where
  "report_fields r =
     [(''schema_version'', JStr ''atlas-routine-semantic-report-1.0''), (''atlas_version'', JStr (rep_atlas_version r)),
      (''dialect'', JStr (dialect_value (rep_dialect r))), (''routine_ref'', JStr (rep_routine_ref r)),
      (''routine_ir_digest'', JStr (rep_routine_ir_digest r)), (''parse_status'', JStr (status_value (rep_parse_status r))),
      (''decision_arms'', JList (map arm_json (rep_decision_arms r))), (''effects'', JList (map effect_json (rep_effects r))),
      (''call_targets'', jstrs (rep_call_targets r)), (''relation_refs'', jstrs (rep_relation_refs r)),
      (''dynamic_sql_node_refs'', jstrs (rep_dynamic_sql_node_refs r)), (''result_set_node_refs'', jstrs (rep_result_set_node_refs r)),
      (''transaction_node_refs'', jstrs (rep_transaction_node_refs r)), (''handler_node_refs'', jstrs (rep_handler_node_refs r)),
      (''opaque_node_refs'', jstrs (rep_opaque_node_refs r)),
      (''finding_counts'', JObj (map (\<lambda>(c, n). (c, JInt (int n))) (rep_finding_counts r)))]"

definition report_json :: "RoutineSemanticReport \<Rightarrow> jval" where
  "report_json r = JObj (report_fields r @ [(''content_digest'', JStr (rep_content_digest r))])"

definition scenario_json :: "ScenarioCandidate \<Rightarrow> jval" where
  "scenario_json s = JObj
     [(''scenario_id'', JStr (scn_scenario_id s)), (''name'', JStr (scn_name s)), (''given'', jstrs (scn_given s)),
      (''when'', JStr (scn_when s)), (''then'', jstrs (scn_then s)), (''evidence_refs'', jstrs (scn_evidence_refs s)),
      (''authority_scope'', JStr ''NON_AUTHORITATIVE_TECHNICAL_CANDIDATE'')]"

definition batch_fields :: "ScenarioCandidateBatch \<Rightarrow> (string \<times> jval) list" where
  "batch_fields b =
     [(''schema_version'', JStr ''atlas-scenario-candidate-batch-1.0''), (''routine_ref'', JStr (batch_routine_ref b)),
      (''dialect'', JStr (dialect_value (batch_dialect b))), (''scenarios'', JList (map scenario_json (batch_scenarios b))),
      (''source_ir_digest'', JStr (batch_source_ir_digest b))]"

definition batch_json :: "ScenarioCandidateBatch \<Rightarrow> jval" where
  "batch_json b = JObj (batch_fields b @ [(''content_digest'', JStr (batch_content_digest b))])"

definition bundle_fields :: "RoutineAnalysisBundle \<Rightarrow> (string \<times> jval) list" where
  "bundle_fields b =
     [(''schema_version'', JStr ''atlas-routine-analysis-bundle-1.0''), (''routine_ref'', JStr (bundle_routine_ref b)),
      (''routine_ir'', ir_json (bundle_routine_ir b)), (''semantic_report'', report_json (bundle_semantic_report b)),
      (''scenario_candidates'', batch_json (bundle_scenario_candidates b))]"

definition bundle_json :: "RoutineAnalysisBundle \<Rightarrow> jval" where
  "bundle_json b = JObj (bundle_fields b @ [(''content_digest'', JStr (bundle_content_digest b))])"

definition unit_fields :: "SourceUnitAnalysis \<Rightarrow> (string \<times> jval) list" where
  "unit_fields u =
     [(''schema_version'', JStr ''atlas-source-unit-analysis-1.0''), (''atlas_version'', JStr (unit_atlas_version u)),
      (''dialect'', JStr (dialect_value (unit_dialect u))), (''source_name'', JStr (unit_source_name u)),
      (''source_digest'', JStr (unit_source_digest u)), (''routines'', JList (map bundle_json (unit_routines u))),
      (''discovery_findings'', JList (map (finding_json True) (unit_discovery_findings u)))]"

section \<open>Facts\<close>

fun json_sorted :: "jval \<Rightarrow> bool" where
  "json_sorted (JList vs) = list_all json_sorted vs"
| "json_sorted (JObj kvs) = (sorted (map fst kvs) \<and> list_all (\<lambda>kv. json_sorted (snd kv)) kvs)"
| "json_sorted v = True"

lemma fst_pair_map [simp]: "fst \<circ> (\<lambda>(k, v). (k, f v)) = fst"
  by auto

lemma json_normalize_sorted: "json_sorted (json_normalize v)"
proof (induction v rule: json_normalize.induct)
  case (2 kvs)
  then show ?case by (auto simp: list_all_iff)
qed (auto simp: list_all_iff)

lemma json_sorted_normalize: "json_sorted v \<Longrightarrow> json_normalize v = v"
proof (induction v rule: json_sorted.induct)
  case (1 vs)
  then show ?case by (simp add: list_all_iff map_idI)
next
  case (2 kvs)
  then have s: "sort_key fst kvs = kvs" by (simp add: sort_key_id_if_sorted)
  have "map (\<lambda>(k, v). (k, json_normalize v)) kvs = kvs"
    using 2 by (intro map_idI) (auto simp: list_all_iff)
  then show ?case by (simp add: s)
qed auto

text \<open>
  The canonical form of a payload is sorted at every level and canonical forms are their own
  canonical form, so a digest computed from a canonical form is the digest of the payload.
\<close>

theorem canonical_form_stable:
  "json_sorted (json_normalize v) \<and> canonical_digest sha (json_normalize v) = canonical_digest sha v"
  by (simp add: json_normalize_sorted json_sorted_normalize canonical_digest_def canonical_json_def)

lemma sort_key_unique:
  assumes "set kvs = set kvs'" "distinct (map fst kvs)" "distinct (map fst kvs')"
  shows "sort_key fst kvs = sort_key fst kvs'"
proof (rule map_sorted_distinct_set_unique)
  show "inj_on fst (set (sort_key fst kvs) \<union> set (sort_key fst kvs'))"
    using assms by (simp add: distinct_map)
qed (use assms in \<open>auto simp: distinct_map\<close>)

text \<open>
  The digest does not depend on the order in which a payload's keys were inserted: two
  dictionaries with the same entries, in any order, have the same digest.
\<close>

theorem digest_order_independent:
  assumes "set kvs = set kvs'" "distinct (map fst kvs)" "distinct (map fst kvs')"
  shows "canonical_digest sha (JObj kvs) = canonical_digest sha (JObj kvs')"
  using sort_key_unique [OF assms] by (simp add: canonical_digest_def canonical_json_def)

theorem digest_order_independent_witness:
  "canonical_digest (\<lambda>s. s) (JObj [(''b'', JInt 1), (''a'', JNull)]) =
   canonical_digest (\<lambda>s. s) (JObj [(''a'', JNull), (''b'', JInt 1)])"
  by (rule digest_order_independent) auto

end
