(* ===== verification/Adapter.thy ===== *)
theory Adapter
  imports Vendors Policies Structure Canonical
begin

text \<open>
  The procedural adapter of \<open>atlas/dialects/adapter.py\<close> and its five vendor instances. One pass
  over the statements of the body (\<open>parse_step\<close>, the loop body of \<open>parse_text\<close>) emits a
  node and its incoming edge per statement and drives the region tracker; then the control flow
  is refined, the IR validated, the vendor policy applied and the digests computed. \<open>sha\<close> is the
  SHA-256 function. The lemmas show that the loop keeps every reference inside the nodes emitted,
  that the routine IR is always accepted by its validator, and that every statement becomes a node.
\<close>

record Adapter =
  ad_profile :: Profile
  ad_atlas_version :: string
  ad_classifier :: "Statement \<Rightarrow> Profile \<Rightarrow> bool \<Rightarrow> classification"
  ad_semantic_policy :: "RoutineIR \<Rightarrow> RoutineIR"
  ad_normalizer :: Normalizer

section \<open>The statement loop\<close>

record pstate =
  ps_nodes :: "SemanticNode list"
  ps_edges :: "SemanticEdge list"
  ps_findings :: "SemanticFinding list"
  ps_frames :: frames
  ps_previous :: string
  ps_pending_edge :: EdgeKind
  ps_pending_condition :: "string option"
  ps_in_declare :: bool

definition entry_id :: string where "entry_id = ''node-entry''"
definition exit_id :: string where "exit_id = ''node-exit''"

definition normalized_text :: "string \<Rightarrow> string" where
  "normalized_text t = py_rstrip_of (in_chars '';'') (py_strip (squash_ws (py_upper t)))"

definition plain_node :: "string \<Rightarrow> SemanticNodeKind \<Rightarrow> string \<Rightarrow> SourceSpan \<Rightarrow> SemanticNode" where
  "plain_node i k t span =
     \<lparr>node_id = i, node_kind = k, node_text = t, node_source_span = span, node_parent_ref = None,
      node_condition_text = None, node_target_name = None, node_expression_text = None, node_relation_refs = [],
      node_variable_reads = [], node_variable_writes = [], node_call_target = None, node_cursor_name = None,
      node_error_code = None, node_modality = MUST, node_attributes = []\<rparr>"

definition entry_node :: "string \<Rightarrow> SemanticNode" where
  "entry_node routine = plain_node entry_id ENTRY (''ENTRY '' @ routine)
     \<lparr>span_start_line = 1, span_start_column = 1, span_end_line = 1, span_end_column = 1,
      span_start_offset = 0, span_end_offset = 0\<rparr>"

definition exit_node :: "string \<Rightarrow> string \<Rightarrow> SemanticNode" where
  "exit_node routine txt =
     (let line = int (py_count txt nl (length txt)) + 1;
          column = max 1 (int (length txt) - (py_rfind txt nl (length txt) + 1) + 1)
      in plain_node exit_id EXIT (''EXIT '' @ routine)
           \<lparr>span_start_line = line, span_start_column = column, span_end_line = line, span_end_column = column,
            span_start_offset = int (length txt), span_end_offset = int (length txt)\<rparr>)"

definition rx_into_targets :: rx where
  "rx_into_targets =
     rseqs [RWordB, kw ''INTO'', ws1, RGroup 1 (rplus_lazy any), ralts [rseqs [RWordB, kw
     ''FROM'', RWordB], kw '';'', REos]]"

definition statement_writes :: "Normalizer \<Rightarrow> DialectId \<Rightarrow> SemanticNodeKind \<Rightarrow> string \<Rightarrow> string list" where
  "statement_writes nz dialect kind txt =
     (case assignment txt dialect of Some (target, _) \<Rightarrow> [normalize_variable nz target] | None \<Rightarrow> []) @
     (if kind = SELECT_INTO then
        (case re_search rx_into_targets txt of
           Some m \<Rightarrow> map (\<lambda>w. normalize_variable nz (m_text w)) (re_finditer rx_word (m_str m 1))
         | None \<Rightarrow> [])
      else [])"

definition statement_reads :: "Normalizer \<Rightarrow> DialectId \<Rightarrow> string \<Rightarrow> string list" where
  "statement_reads nz dialect txt =
     (case assignment txt dialect of Some (_, expression) \<Rightarrow> variables expression nz | None \<Rightarrow> variables txt nz)"

definition conditional_regions :: "FrameKind list" where
  "conditional_regions = [F_IF, F_CASE, F_LOOP, F_HANDLER, F_TRY_CATCH]"

definition node_columns :: "string list" where
  "node_columns = [''condition_text'', ''target_name'', ''expression_text'', ''call_target'', ''cursor_name'', ''error_code'']"

definition statement_node ::
  "Adapter \<Rightarrow> string \<Rightarrow> frames \<Rightarrow> string \<Rightarrow> string \<Rightarrow> Statement \<Rightarrow> SemanticNodeKind \<Rightarrow> attrs \<Rightarrow> SemanticNode" where
  "statement_node ad txt fs ident upper statement kind attributes =
     (let nz = ad_normalizer ad; dialect = pf_dialect (ad_profile ad) in
      \<lparr>node_id = ident, node_kind = kind, node_text = py_strip (stmt_text statement),
       node_source_span = span_of statement txt,
       node_parent_ref = parent_for fs kind attributes upper,
       node_condition_text = attr_string attributes ''condition_text'',
       node_target_name = map_option (normalize_variable nz) (attr_string attributes ''target_name''),
       node_expression_text = attr_string attributes ''expression_text'',
       node_relation_refs = relations (stmt_text statement) nz,
       node_variable_reads = statement_reads nz dialect (stmt_text statement),
       node_variable_writes = foldl append_new [] (statement_writes nz dialect kind (stmt_text statement)),
       node_call_target = map_option (normalize_identifier nz) (attr_string attributes ''call_target''),
       node_cursor_name = map_option (normalize_identifier nz) (attr_string attributes ''cursor_name''),
       node_error_code = attr_string attributes ''error_code'',
       node_modality = (if list_ex (\<lambda>f. frame_kind f \<in> set conditional_regions) fs then CONDITIONAL else MUST),
       node_attributes = filter (\<lambda>(key, value). key \<notin> set node_columns) attributes\<rparr>)"

text \<open>The classification after the rule that a WHEN inside an EXCEPTION section is a handler.\<close>

definition classify_statement :: "Adapter \<Rightarrow> frames \<Rightarrow> string \<Rightarrow> Statement \<Rightarrow> bool \<Rightarrow> classification" where
  "classify_statement ad fs upper statement in_declare =
     (if py_startswith upper ''WHEN '' \<and> nearest [F_HANDLER] fs \<noteq> None \<and> nearest [F_CASE] fs = None then
        (ERROR_HANDLER, [(''handler_kind'', AStr ''WHEN''), (''condition_text'', opt_attr (condition_text (stmt_text statement)))])
      else ad_classifier ad statement (ad_profile ad) in_declare)"

fun add_loop_back_edges :: "SemanticEdge list \<Rightarrow> string \<Rightarrow> frames \<Rightarrow> SemanticEdge list" where
  "add_loop_back_edges edges closing [] = edges"
| "add_loop_back_edges edges closing (f # fs) =
     add_loop_back_edges
       (if frame_kind f \<noteq> F_LOOP then edges
        else edges @ [mk_edge (str_nat ''edge-'' (length edges + 1))
                        (closing, frame_root_ref f, LOOP_BACK, frame_condition_text f)]) closing fs"

definition opaque_finding :: "DialectId \<Rightarrow> SemanticNode \<Rightarrow> SemanticFinding" where
  "opaque_finding dialect node =
     mk_finding ''DIALECT_STATEMENT_OPAQUE'' SEV_WARNING
       (dialect_value dialect @ '' statement was retained as an opaque semantic node.'') (Some (node_source_span node))
       ''Effects depending on this statement remain conditional or unknown.''"

definition incoming_edge :: "pstate \<Rightarrow> string \<Rightarrow> branch_source \<Rightarrow> SemanticEdge" where
  "incoming_edge st ident override =
     (case override of (source, kind, condition) \<Rightarrow>
        mk_edge (str_nat ''edge-'' (length (ps_edges st) + 1))
          (if truthy source then (or_str source [], ident, kind, condition)
           else (ps_previous st, ident, ps_pending_edge st, ps_pending_condition st)))"

definition parse_step :: "Adapter \<Rightarrow> string \<Rightarrow> nat \<Rightarrow> Statement \<Rightarrow> string option \<Rightarrow> pstate \<Rightarrow> pstate" where
  "parse_step ad txt index statement next_upper st =
     (let upper = normalized_text (stmt_text statement);
          in_declare = (if upper = ''BEGIN'' \<or> py_startswith upper ''BEGIN '' then False else ps_in_declare st);
          fs = ps_frames st;
          (kind, attributes) = classify_statement ad fs upper statement in_declare;
          ident = str_nat ''node-'' index;
          node = statement_node ad txt fs ident upper statement kind attributes;
          edges = ps_edges st @ [incoming_edge st ident (branch_edge fs kind attributes upper)];
          (pending, condition, closed, fs') = after_node (pf_dialect (ad_profile ad)) fs ident kind attributes upper next_upper
      in \<lparr>ps_nodes = ps_nodes st @ [node],
          ps_edges = add_loop_back_edges edges ident closed,
          ps_findings = ps_findings st @ (if kind = OPAQUE then [opaque_finding (pf_dialect (ad_profile ad)) node] else []),
          ps_frames = fs', ps_previous = ident, ps_pending_edge = pending, ps_pending_condition = condition,
          ps_in_declare = in_declare\<rparr>)"

fun parse_loop :: "Adapter \<Rightarrow> string \<Rightarrow> nat \<Rightarrow> Statement list \<Rightarrow> pstate \<Rightarrow> pstate" where
  "parse_loop ad txt index [] st = st"
| "parse_loop ad txt index (s # rest) st =
     parse_loop ad txt (index + 1) rest
       (parse_step ad txt index s
          (case rest of [] \<Rightarrow> None | r # _ \<Rightarrow> Some (normalized_text (stmt_text r))) st)"

definition parse_init :: "Adapter \<Rightarrow> string \<Rightarrow> pstate" where
  "parse_init ad routine =
     \<lparr>ps_nodes = [entry_node routine], ps_edges = [], ps_findings = [], ps_frames = [], ps_previous = entry_id,
      ps_pending_edge = NEXT, ps_pending_condition = None,
      ps_in_declare = pf_initial_declare_section (ad_profile ad)\<rparr>"

definition unclosed_findings :: "frames \<Rightarrow> SemanticFinding list" where
  "unclosed_findings remaining =
     (if remaining = [] then []
      else [mk_finding ''UNCLOSED_PROCEDURAL_REGION'' SEV_ERROR
              (nat_dec (length remaining) @ '' procedural region(s) remained open after parsing.'') None
              ''Control-flow completeness is partial.''])"

text \<open>The graph handed to the control-flow pass.\<close>

definition parsed_graph ::
  "Adapter \<Rightarrow> string \<Rightarrow> string \<Rightarrow> Statement list \<Rightarrow> SemanticNode list \<times> SemanticEdge list \<times> SemanticFinding list" where
  "parsed_graph ad txt routine statements =
     (let st = parse_loop ad txt 1 statements (parse_init ad routine)
      in (ps_nodes st @ [exit_node routine txt],
          ps_edges st @ [mk_edge (str_nat ''edge-'' (length (ps_edges st) + 1)) (ps_previous st, exit_id, NEXT, None)],
          ps_findings st @ unclosed_findings (drain (ps_frames st))))"

section \<open>The adapter\<close>

definition build_ir ::
  "(string \<Rightarrow> string) \<Rightarrow> Adapter \<Rightarrow> string \<Rightarrow> string \<Rightarrow> Header \<Rightarrow> string \<Rightarrow> Statement list \<Rightarrow> RoutineIR" where
  "build_ir sha ad txt source_name header body statements =
     (let (nodes, edges, findings) = parsed_graph ad txt (hd_routine_name header) statements;
          (nodes', edges', findings') = refine_control_flow nodes edges findings entry_id exit_id;
          ir = \<lparr>ir_atlas_version = ad_atlas_version ad, ir_dialect = pf_dialect (ad_profile ad),
            ir_adapter_id = pf_adapter_id (ad_profile ad), ir_routine_kind = hd_routine_kind header,
            ir_schema_name = hd_schema_name header, ir_routine_name = hd_routine_name header,
            ir_parameters = hd_parameters header, ir_routine_attributes = hd_routine_attributes header,
            ir_source_name = source_name, ir_source_digest = sha256_text sha txt, ir_body_digest = sha256_text sha body,
            ir_nodes = nodes', ir_edges = edges', ir_findings = findings',
            ir_entry_node_ref = entry_id, ir_exit_node_ref = exit_id, ir_content_digest = []\<rparr>
      in ir\<lparr>ir_content_digest := canonical_digest sha (JObj (ir_fields True ir))\<rparr>)"

definition statements_of :: "Adapter \<Rightarrow> string \<Rightarrow> nat \<Rightarrow> Statement list" where
  "statements_of ad body body_start =
     expand_inline_control_statements (logical_statements body body_start) (pf_dialect (ad_profile ad))"

definition parse_text :: "(string \<Rightarrow> string) \<Rightarrow> Adapter \<Rightarrow> string \<Rightarrow> string \<Rightarrow> adapter_error + RoutineIR" where
  "parse_text sha ad txt source_name =
     (case extract_header txt (ad_profile ad) (ad_normalizer ad) of
        Inl e \<Rightarrow> Inl e
      | Inr header \<Rightarrow>
          (case extract_body txt header (ad_profile ad) of
             Inl e \<Rightarrow> Inl e
           | Inr (body, body_start) \<Rightarrow>
               (let ir = build_ir sha ad txt source_name header body (statements_of ad body body_start)
                in case validate_references ir of
                     Some msg \<Rightarrow> Inl (ValidationError msg)
                   | None \<Rightarrow>
                       (let enriched = ad_semantic_policy ad ir
                        in Inr (enriched\<lparr>ir_content_digest := canonical_digest sha (JObj (ir_fields False enriched))\<rparr>)))))"

section \<open>The vendor adapters\<close>

definition vendor_adapter :: "string \<Rightarrow> DialectId \<Rightarrow> Adapter" where
  "vendor_adapter atlas_version dialect =
     (case dialect of
        DB2_SQL_PL \<Rightarrow> \<lparr>ad_profile = db2_profile, ad_atlas_version = atlas_version, ad_classifier = db2_classify,
          ad_semantic_policy = db2_enrich, ad_normalizer = db2_normalizer\<rparr>
      | ORACLE_PLSQL \<Rightarrow> \<lparr>ad_profile = oracle_profile, ad_atlas_version = atlas_version, ad_classifier = oracle_classify,
          ad_semantic_policy = oracle_enrich, ad_normalizer = oracle_normalizer\<rparr>
      | SQLSERVER_TSQL \<Rightarrow> \<lparr>ad_profile = sqlserver_profile, ad_atlas_version = atlas_version, ad_classifier = sqlserver_classify,
          ad_semantic_policy = sqlserver_enrich, ad_normalizer = sqlserver_normalizer\<rparr>
      | POSTGRESQL_PLPGSQL \<Rightarrow> \<lparr>ad_profile = postgresql_profile, ad_atlas_version = atlas_version,
          ad_classifier = postgresql_classify, ad_semantic_policy = postgresql_enrich, ad_normalizer = postgresql_normalizer\<rparr>
      | MYSQL_STORED_PROGRAM \<Rightarrow> \<lparr>ad_profile = mysql_profile, ad_atlas_version = atlas_version, ad_classifier = mysql_classify,
          ad_semantic_policy = mysql_enrich, ad_normalizer = mysql_normalizer\<rparr>)"

section \<open>The loop invariant\<close>

lemma mk_edge_sel [simp]:
  "edge_source_ref (mk_edge i r) = fst r" "edge_target_ref (mk_edge i r) = fst (snd r)"
  by (cases r; simp add: mk_edge_def)+

lemma plain_node_sel [simp]:
  "node_id (plain_node i k t s) = i" "node_kind (plain_node i k t s) = k" "node_text (plain_node i k t s) = t"
  "node_source_span (plain_node i k t s) = s" "node_parent_ref (plain_node i k t s) = None"
  by (simp_all add: plain_node_def)

lemma entry_exit_ids [simp]: "node_id (entry_node r) = entry_id" "node_id (exit_node r txt) = exit_id"
  "node_kind (entry_node r) = ENTRY" "node_kind (exit_node r txt) = EXIT"
  "node_parent_ref (entry_node r) = None" "node_parent_ref (exit_node r txt) = None"
  by (simp_all add: entry_node_def exit_node_def Let_def)

lemma node_id_numbered: "str_nat ''node-'' n \<noteq> entry_id" "str_nat ''node-'' n \<noteq> exit_id" "str_nat ''node-'' n \<noteq> []"
proof -
  have "CHR ''e'' \<notin> set (pad4 n)" using pad4_digits [of "CHR ''e''" n] by (auto simp: is_digit_def code_of_def)
  then show "str_nat ''node-'' n \<noteq> entry_id" "str_nat ''node-'' n \<noteq> exit_id" "str_nat ''node-'' n \<noteq> []"
    by (auto simp: str_nat_def entry_id_def exit_id_def dest: arg_cong [of _ _ set])
qed

lemma loop_back_resolve:
  "edges_resolve S edges \<Longrightarrow> closing \<in> S \<Longrightarrow> frames_in S fs \<Longrightarrow> edges_resolve S (add_loop_back_edges edges closing fs)"
  by (induction edges closing fs rule: add_loop_back_edges.induct) auto

definition emitted :: "nat \<Rightarrow> string list" where
  "emitted index = entry_id # map (str_nat ''node-'') [1..<index]"

definition pinv :: "nat \<Rightarrow> pstate \<Rightarrow> bool" where
  "pinv index st \<longleftrightarrow>
     map node_id (ps_nodes st) = emitted index \<and> parents_precede (ps_nodes st) \<and>
     edges_resolve (set (emitted index)) (ps_edges st) \<and> frames_in (set (emitted index)) (ps_frames st) \<and>
     ps_previous st \<in> set (emitted index) \<and> CALL_TARGET \<notin> node_kind ` set (ps_nodes st)"

lemma pinv_init: "pinv 1 (parse_init ad routine)"
  by (simp add: pinv_def parse_init_def emitted_def parents_precede_def)

lemma emitted_Suc: "1 \<le> index \<Longrightarrow> emitted (index + 1) = emitted index @ [str_nat ''node-'' index]"
  by (simp add: emitted_def)

lemma parents_precede_snoc:
  assumes "parents_precede ns" "\<And>p. node_parent_ref n = Some p \<Longrightarrow> p \<in> ids ns"
  shows "parents_precede (ns @ [n])"
  unfolding parents_precede_def
proof (intro allI impI)
  fix i assume i: "i < length (ns @ [n])"
  show "case node_parent_ref ((ns @ [n]) ! i) of Some p \<Rightarrow> \<exists>j < i. node_id ((ns @ [n]) ! j) = p | None \<Rightarrow> True"
  proof (cases "i < length ns")
    case True
    have "case node_parent_ref (ns ! i) of Some p \<Rightarrow> \<exists>j < i. node_id (ns ! j) = p | None \<Rightarrow> True"
      using assms(1) True unfolding parents_precede_def by blast
    moreover have "node_id ((ns @ [n]) ! j) = node_id (ns ! j)" if "j < i" for j
      using that True by (simp add: nth_append)
    ultimately show ?thesis using True
      by (cases "node_parent_ref (ns ! i)") (simp_all add: nth_append [of ns "[n]" i], metis)
  next
    case False
    then have "i = length ns" using i by simp
    moreover have "\<exists>j < length ns. node_id ((ns @ [n]) ! j) = p" if "node_parent_ref n = Some p" for p
      using assms(2) [OF that] by (metis imageE in_set_conv_nth nth_append)
    ultimately show ?thesis by (auto split: option.split)
  qed
qed

text \<open>A classifier that never produces the kind reserved for call targets.\<close>

definition classifier_ok :: "Adapter \<Rightarrow> bool" where
  "classifier_ok ad \<longleftrightarrow> (\<forall>s in_declare. fst (ad_classifier ad s (ad_profile ad) in_declare) \<notin> {CALL_TARGET, ENTRY, EXIT})"

lemma classify_statement_ok:
  "classifier_ok ad \<Longrightarrow> classify_statement ad fs upper s d = (kind, a) \<Longrightarrow> kind \<notin> {CALL_TARGET, ENTRY, EXIT}"
  by (auto simp: classify_statement_def classifier_ok_def split: if_splits) (metis fst_conv)+

lemma statement_node_sel [simp]:
  "node_id (statement_node ad txt fs i u s k a) = i" "node_kind (statement_node ad txt fs i u s k a) = k"
  "node_parent_ref (statement_node ad txt fs i u s k a) = parent_for fs k a u"
  "node_text (statement_node ad txt fs i u s k a) = py_strip (stmt_text s)"
  "node_source_span (statement_node ad txt fs i u s k a) = span_of s txt"
  by (simp_all add: statement_node_def Let_def)

lemma parse_step_pinv:
  assumes inv: "pinv index st" and i: "1 \<le> index" and ok: "classifier_ok ad"
  shows "pinv (index + 1) (parse_step ad txt index s nxt st)"
proof -
  let ?S = "set (emitted index)" and ?id = "str_nat ''node-'' index"
  define upper where "upper = normalized_text (stmt_text s)"
  define in_declare where "in_declare = (if upper = ''BEGIN'' \<or> py_startswith upper ''BEGIN '' then False else ps_in_declare st)"
  obtain kind a where k: "classify_statement ad (ps_frames st) upper s in_declare = (kind, a)" by fastforce
  obtain src ek c where b: "branch_edge (ps_frames st) kind a upper = (src, ek, c)" by (metis prod_cases3)
  obtain pend cond closed fs' where af:
    "after_node (pf_dialect (ad_profile ad)) (ps_frames st) ?id kind a upper nxt = (pend, cond, closed, fs')"
    by (metis prod_cases4)
  have S: "set (emitted (index + 1)) = insert ?id ?S" using emitted_Suc [OF i] by simp
  have fin: "frames_in ?S (ps_frames st)" using inv by (simp add: pinv_def)
  have after: "frames_in (insert ?id ?S) closed" "frames_in (insert ?id ?S) fs'"
    using refs_ok_after_node [OF frames_in_mono [OF fin subset_insertI], of ?id ?id "pf_dialect (ad_profile ad)" kind a upper nxt] af
    by auto
  have ids: "ids (ps_nodes st) = ?S" using inv by (metis pinv_def set_map)
  have src: "(if truthy src then or_str src [] else ps_previous st) \<in> ?S"
    using branch_edge_in [OF fin] b inv by (auto simp: pinv_def truthy_def or_str_def split: option.splits if_splits)
  have "edges_resolve (insert ?id ?S) (ps_edges st @ [incoming_edge st ?id (src, ek, c)])"
    using inv src edges_resolve_mono [of ?S "ps_edges st" "insert ?id ?S"]
    by (auto simp: pinv_def incoming_edge_def split: if_splits)
  then have edges: "edges_resolve (insert ?id ?S) (add_loop_back_edges (ps_edges st @ [incoming_edge st ?id (src, ek, c)]) ?id closed)"
    using after(1) by (intro loop_back_resolve) auto
  let ?n = "statement_node ad txt (ps_frames st) ?id upper s kind a"
  have par: "parents_precede (ps_nodes st @ [?n])"
    using inv parent_for_in [OF fin] ids by (intro parents_precede_snoc) (auto simp: pinv_def)
  have step: "ps_nodes (parse_step ad txt index s nxt st) = ps_nodes st @ [?n]"
    "ps_edges (parse_step ad txt index s nxt st) = add_loop_back_edges (ps_edges st @ [incoming_edge st ?id (src, ek, c)]) ?id closed"
    "ps_frames (parse_step ad txt index s nxt st) = fs'" "ps_previous (parse_step ad txt index s nxt st) = ?id"
    by (simp_all add: parse_step_def Let_def flip: upper_def in_declare_def) (simp_all add: k b af)
  show ?thesis
    unfolding pinv_def step S using inv edges par after(2) classify_statement_ok [OF ok k] emitted_Suc [OF i]
    by (auto simp: pinv_def)
qed

lemma parse_loop_pinv:
  "pinv index st \<Longrightarrow> 1 \<le> index \<Longrightarrow> classifier_ok ad \<Longrightarrow> pinv (index + length ss) (parse_loop ad txt index ss st)"
proof (induction ss arbitrary: index st)
  case (Cons s rest)
  then show ?case using parse_step_pinv [OF Cons.prems] Cons.IH [of "index + 1"] by simp
qed simp

section \<open>The routine IR\<close>

lemma emitted_ids: "distinct (emitted index)" "exit_id \<notin> set (emitted index)" "[] \<notin> set (emitted index)"
proof -
  have "entry_id \<noteq> exit_id" "entry_id \<noteq> []" by (simp_all add: entry_id_def exit_id_def)
  then show "distinct (emitted index)" "exit_id \<notin> set (emitted index)" "[] \<notin> set (emitted index)"
    using node_id_numbered by (auto simp: emitted_def distinct_map inj_on_def dest: sym)
qed

lemma parsed_graph_ok:
  assumes "parsed_graph ad txt routine statements = (nodes, edges, findings)" "classifier_ok ad"
  shows "map node_id nodes = emitted (Suc (length statements)) @ [exit_id]"
    and "edges_resolve (ids nodes) edges" and "parents_precede nodes" and "source_nodes nodes = nodes"
proof -
  define st where "st = parse_loop ad txt 1 statements (parse_init ad routine)"
  have inv: "pinv (Suc (length statements)) st"
    using parse_loop_pinv [OF pinv_init order_refl assms(2)] by (simp add: st_def)
  have eq: "nodes = ps_nodes st @ [exit_node routine txt]"
    "edges = ps_edges st @ [mk_edge (str_nat ''edge-'' (length (ps_edges st) + 1)) (ps_previous st, exit_id, NEXT, None)]"
    using assms(1) by (simp_all add: parsed_graph_def Let_def st_def)
  show ids: "map node_id nodes = emitted (Suc (length statements)) @ [exit_id]"
    using inv by (simp add: eq pinv_def)
  have S: "ids nodes = insert exit_id (set (emitted (Suc (length statements))))"
    using arg_cong [OF ids, of set] by simp
  have "edges_resolve (ids nodes) (ps_edges st)" "ps_previous st \<in> ids nodes" "exit_id \<in> ids nodes"
    unfolding S using inv edges_resolve_mono [OF _ subset_insertI] by (simp_all add: pinv_def)
  then show "edges_resolve (ids nodes) edges" unfolding eq(2) by simp
  show "parents_precede nodes" unfolding eq using inv by (intro parents_precede_snoc) (auto simp: pinv_def)
  show "source_nodes nodes = nodes"
    using inv by (auto simp: source_nodes_def eq pinv_def image_iff intro!: filter_True)
qed

lemma build_ir_sel:
  assumes "parsed_graph ad txt (hd_routine_name header) statements = (nodes, edges, findings)"
    and "refine_control_flow nodes edges findings entry_id exit_id = (nodes', edges', findings')"
    and "ir = build_ir sha ad txt source_name header body statements"
  shows "ir_nodes ir = nodes'" "ir_edges ir = edges'" "ir_findings ir = findings'"
    "ir_entry_node_ref ir = entry_id" "ir_exit_node_ref ir = exit_id"
  using assms by (simp_all add: build_ir_def Let_def)

lemma call_ids_distinct: "str_nat ''call-target-'' k \<notin> insert exit_id (set (emitted n))"
  by (auto simp: emitted_def entry_id_def exit_id_def str_nat_def)

lemma build_ir_valid:
  assumes "classifier_ok ad" "ir = build_ir sha ad txt source_name header body statements"
  shows "validate_references ir = None \<and> distinct (map node_id (ir_nodes ir))"
proof -
  obtain nodes edges findings where g: "parsed_graph ad txt (hd_routine_name header) statements = (nodes, edges, findings)"
    by (metis prod_cases3)
  obtain nodes' edges' findings' where r: "refine_control_flow nodes edges findings entry_id exit_id = (nodes', edges', findings')"
    by (metis prod_cases3)
  note ok = parsed_graph_ok [OF g assms(1)]
  note sel = build_ir_sel [OF g r assms(2)]
  have n': "map node_id nodes' = map node_id nodes @ map (str_nat ''call-target-'') [1..<Suc (length (call_nodes nodes))]"
    using refine_eqs(1) [OF r refl] ok(4) call_node_ids [of nodes] by (simp add: comp_def)
  have S: "ids nodes \<subseteq> ids nodes'" using arg_cong [OF n', of set] by auto
  have en: "entry_id \<in> ids nodes" "exit_id \<in> ids nodes" using arg_cong [OF ok(1), of set] by (auto simp: emitted_def)
  have "edges_resolve (ids nodes') edges'"
    using refine_resolve [OF r] ok(2,4) en(2) by simp
  moreover have "distinct (map node_id nodes')"
    unfolding n' ok(1) using emitted_ids call_ids_distinct
    by (auto simp: distinct_map inj_on_def simp del: upt_Suc dest: sym)
  ultimately show ?thesis using S en unfolding validate_references_None sel by auto
qed

section \<open>The vendor classifiers and headers\<close>

definition ok_kind :: "classification \<Rightarrow> bool" where
  "ok_kind c \<longleftrightarrow> fst c \<notin> {CALL_TARGET, ENTRY, EXIT}"

lemma ok_kind_pair [simp]: "ok_kind (k, a) \<longleftrightarrow> k \<noteq> CALL_TARGET \<and> k \<noteq> ENTRY \<and> k \<noteq> EXIT"
  by (simp add: ok_kind_def)

lemma ok_branch: "pred_option ok_kind (classify_branch x u)"
  by (simp add: classify_branch_def Let_def)

lemma ok_declared: "pred_option ok_kind (classify_declared x u)"
  by (simp add: classify_declared_def Let_def)

lemma ok_session: "pred_option ok_kind (classify_session x u)"
  by (simp add: classify_session_def Let_def)

lemma ok_data: "pred_option ok_kind (classify_data d b x u)"
  by (simp add: classify_data_def Let_def split: option.split)

lemma ok_effect: "ok_kind (classify_effect d x u)"
  by (simp add: classify_effect_def)

lemma ok_or_else: "pred_option P a \<Longrightarrow> pred_option P b \<Longrightarrow> pred_option P (or_else a b)"
  by (cases a) auto

lemma ok_classify_text: "ok_kind (classify_text d b x)"
proof -
  let ?t = "py_strip x" and ?u = "py_strip (squash_ws (py_upper (py_strip x)))"
  let ?o = "or_else (classify_branch ?t ?u) (or_else (classify_declared ?t ?u)
      (or_else (classify_session ?t ?u) (classify_data d b ?t ?u)))"
  have "pred_option ok_kind ?o" by (intro ok_or_else ok_branch ok_declared ok_session ok_data)
  then show ?thesis by (cases ?o) (simp_all add: classify_text_def Let_def ok_effect)
qed

lemma ok_common: "common_classify s p b = (k, a) \<Longrightarrow> ok_kind (k, a)"
  using ok_classify_text by (metis common_classify_def)

lemma vendor_classifier_ok: "classifier_ok (vendor_adapter v d)"
proof -
  have "ok_kind (ad_classifier (vendor_adapter v d) s p b)" for s p b
    using ok_common [of s p b]
    by (cases d) (auto simp: vendor_adapter_def db2_classify_def oracle_classify_def sqlserver_classify_def
        postgresql_classify_def mysql_classify_def Let_def split: prod.split)
  then show ?thesis by (simp add: classifier_ok_def ok_kind_def)
qed

definition unsupported :: "adapter_error \<Rightarrow> bool" where
  "unsupported e \<longleftrightarrow> (\<exists>msg. e = DialectAdapterError (''UNSUPPORTED_SYNTAX: '' @ msg))"

lemma pg_parameter_Inr: "\<exists>r. pg_parameter it = Inr r"
proof -
  obtain index item where it: "it = (index, item)" by (cases it)
  let ?a = "[''IN'', ''OUT'', ''INOUT'', ''VARIADIC'']"
  obtain clean dflt where d: "split_default rx_pg_default (squash_ws (py_strip item)) = (clean, dflt)" by fastforce
  obtain mode ts where m: "pop_mode ?a ''IN'' (py_split clean) = (mode, ts)" by fastforce
  have "mode \<in> set ?a" using pop_mode_allowed [of "''IN''" ?a "py_split clean"] m by simp
  then obtain pm where pm: "mode_of mode = Some pm" by auto
  show ?thesis
    by (simp add: pg_parameter_def it d m pm Let_def mk_parameter_def del: mode_of.simps split: list.split)
qed

lemma vendor_parser_Inr:
  "\<exists>parse. pf_parameter_parser (ad_profile (vendor_adapter v d)) = Some parse \<and> (\<forall>raw rt. \<exists>ps. parse raw rt = Inr ps)"
proof -
  have c: "\<exists>ps. append_return rt (collect_params (map f (enum1 xs))) = Inr ps"
    if "\<And>it. \<exists>r. f it = Inr r" for rt xs and f :: "nat \<times> string \<Rightarrow> adapter_error + RoutineParameter option"
  proof -
    have "\<forall>r \<in> set (map f (enum1 xs)). \<exists>v. r = Inr v" using that by auto
    from collect_params_Inr [OF this] show ?thesis by (auto simp: append_return_def)
  qed
  show ?thesis
    by (cases d) (auto simp: vendor_adapter_def db2_profile_def oracle_profile_def sqlserver_profile_def postgresql_profile_def
        mysql_profile_def db2_parse_parameters_def oracle_parse_parameters_def sqlserver_parse_parameters_def
        postgresql_parse_parameters_def mysql_parse_parameters_def parse_standard_parameters_def parse_sqlserver_parameters_def
        intro!: c standard_parameter_Inr tsql_parameter_Inr pg_parameter_Inr)
qed

lemma header_of_error:
  "header_of txt (ad_profile (vendor_adapter v d)) nz m k n ps pr rt = Inl e \<Longrightarrow> unsupported e"
  using vendor_parser_Inr [of v d]
  by (auto simp: header_of_def qualified_name_def parse_parameters_def unsupported_def Let_def
      split: sum.splits if_splits) (metis sum.simps(4))+

lemma err_unsupported: "err msg = Inl e \<Longrightarrow> unsupported e"
  by (auto simp: err_def unsupported_def)

lemma first_header_error:
  "first_header txt (ad_profile (vendor_adapter v d)) nz cs = Inl e \<Longrightarrow> unsupported e"
  by (induction cs) (auto simp: Let_def dest: header_of_error err_unsupported split: option.splits)

lemma matching_paren_error: "matching_paren x i = Inl e \<Longrightarrow> unsupported e"
  by (auto simp: matching_paren_def unsupported_def split: option.splits)

lemma pg_return_error: "pg_return_type tail = Inl e \<Longrightarrow> unsupported e"
  by (auto simp: pg_return_type_def Let_def dest: err_unsupported split: option.splits if_splits)

lemma map_sum_Inl [simp]: "map_sum id f s = Inl e \<longleftrightarrow> s = Inl e"
  by (cases s) auto

lemma pg_header_error:
  "extract_postgresql_header txt (ad_profile (vendor_adapter v d)) nz = Inl e \<Longrightarrow> unsupported e"
  unfolding extract_postgresql_header_def Let_def
  by (auto dest: err_unsupported matching_paren_error pg_return_error header_of_error
      split: option.splits sum.splits if_splits)

lemma extract_header_error: "extract_header txt (ad_profile (vendor_adapter v d)) nz = Inl e \<Longrightarrow> unsupported e"
  by (auto simp: extract_header_def dest: pg_header_error first_header_error split: if_splits)

lemma extract_body_error: "extract_body txt h p = Inl e \<Longrightarrow> unsupported e"
  by (auto simp: extract_body_def Let_def dest: err_unsupported split: option.splits if_splits)

lemma vendor_policy_adapter: "ad_semantic_policy (vendor_adapter v d) = policies d"
  by (cases d) (simp_all add: vendor_adapter_def policies_def)

lemma validate_digest [simp]: "validate_references (ir\<lparr>ir_content_digest := x\<rparr>) = validate_references ir"
  by (simp add: validate_references_def)

lemma parse_text_Inr:
  assumes "parse_text sha (vendor_adapter v d) txt name = Inr ir"
  obtains header body body_start built where
    "extract_header txt (ad_profile (vendor_adapter v d)) (ad_normalizer (vendor_adapter v d)) = Inr header"
    "extract_body txt header (ad_profile (vendor_adapter v d)) = Inr (body, body_start)"
    "built = build_ir sha (vendor_adapter v d) txt name header body (statements_of (vendor_adapter v d) body body_start)"
    "ir = (policies d built)\<lparr>ir_content_digest := canonical_digest sha (JObj (ir_fields False (policies d built)))\<rparr>"
  using assms that
  by (auto simp: parse_text_def Let_def vendor_policy_adapter split: sum.splits option.splits prod.splits)

section \<open>Properties of the adapter\<close>

text \<open>
  C12: a routine IR is always well formed. Whatever the source text, the vendor adapters either
  return an IR that its validator accepts (entry, exit and both ends of every edge are nodes), with
  distinct node ids, or raise the adapter error for unsupported syntax; the validator and the
  parameter models never raise.
\<close>

theorem parse_text_valid:
  "case parse_text sha (vendor_adapter v d) txt name of
     Inr ir \<Rightarrow> validate_references ir = None \<and> distinct (map node_id (ir_nodes ir))
   | Inl e \<Rightarrow> (\<exists>msg. e = DialectAdapterError (''UNSUPPORTED_SYNTAX: '' @ msg))"
proof (cases "parse_text sha (vendor_adapter v d) txt name")
  case (Inl e)
  have "unsupported e"
    using Inl build_ir_valid [OF vendor_classifier_ok refl, of sha v d "txt" name]
    unfolding parse_text_def Let_def
    by (auto dest: extract_header_error extract_body_error split: sum.splits prod.splits option.splits)
  then show ?thesis using Inl by (simp add: unsupported_def)
next
  case (Inr ir)
  then obtain header body body_start built where
    b: "built = build_ir sha (vendor_adapter v d) txt name header body (statements_of (vendor_adapter v d) body body_start)"
    and ir: "ir = (policies d built)\<lparr>ir_content_digest := canonical_digest sha (JObj (ir_fields False (policies d built)))\<rparr>"
    by (rule parse_text_Inr)
  show ?thesis
    using build_ir_valid [OF vendor_classifier_ok b]
    by (simp add: Inr ir vendor_policy.valid vendor_policy.node_ids)
qed

lemma parse_loop_nodes:
  "map (\<lambda>n. (node_id n, node_text n, node_source_span n)) (ps_nodes (parse_loop ad txt index ss st)) =
   map (\<lambda>n. (node_id n, node_text n, node_source_span n)) (ps_nodes st) @
   map (\<lambda>(i, s). (str_nat ''node-'' i, py_strip (stmt_text s), span_of s txt)) (zip [index..<index + length ss] ss)"
proof (induction ss arbitrary: index st)
  case (Cons s rest)
  have "[index..<index + length (s # rest)] = index # [Suc index..<Suc index + length rest]"
    by (simp add: upt_conv_Cons del: upt_Suc)
  moreover have "map (\<lambda>n. (node_id n, node_text n, node_source_span n)) (ps_nodes (parse_step ad txt index s nxt st)) =
    map (\<lambda>n. (node_id n, node_text n, node_source_span n)) (ps_nodes st) @
    [(str_nat ''node-'' index, py_strip (stmt_text s), span_of s txt)]" for nxt
    by (simp add: parse_step_def Let_def split: prod.split)
  ultimately show ?case using Cons by simp
qed simp


lemma parse_text_succeeds:
  assumes "extract_header txt (ad_profile (vendor_adapter v d)) (ad_normalizer (vendor_adapter v d)) = Inr header"
    and "extract_body txt header (ad_profile (vendor_adapter v d)) = Inr (body, body_start)"
  shows "\<exists>ir. parse_text sha (vendor_adapter v d) txt name = Inr ir"
  using assms build_ir_valid [OF vendor_classifier_ok refl, of sha v d "txt" name header body]
  by (simp add: parse_text_def Let_def)

definition small_procedure :: string where
  "small_procedure = ''CREATE PROCEDURE P() BEGIN RETURN; END''"

lemma small_procedure_parses: "\<exists>ir. parse_text sha (vendor_adapter v DB2_SQL_PL) small_procedure name = Inr ir"
proof -
  have "case extract_header small_procedure db2_profile db2_normalizer of
      Inr h \<Rightarrow> (case extract_body small_procedure h db2_profile of Inr _ \<Rightarrow> True | Inl _ \<Rightarrow> False)
    | Inl _ \<Rightarrow> False"
    by code_simp
  then obtain h b i where "extract_header small_procedure db2_profile db2_normalizer = Inr h"
    "extract_body small_procedure h db2_profile = Inr (b, i)"
    by (auto split: sum.splits)
  then show ?thesis
    by (intro parse_text_succeeds [of _ _ _ h b i]) (simp_all add: vendor_adapter_def)
qed

section \<open>The nodes and findings of a parsed routine\<close>

definition parsed_node_ok :: "DialectId \<Rightarrow> SemanticFinding set \<Rightarrow> SemanticNode \<Rightarrow> bool" where
  "parsed_node_ok d fs n \<longleftrightarrow> node_modality n \<noteq> UNKNOWN \<and> (node_kind n = OPAQUE \<longrightarrow> opaque_finding d n \<in> fs)"

lemma parsed_node_ok_mono: "parsed_node_ok d fs n \<Longrightarrow> fs \<subseteq> gs \<Longrightarrow> parsed_node_ok d gs n"
  by (auto simp: parsed_node_ok_def)

lemma parse_step_node_ok:
  assumes "\<forall>n \<in> set (ps_nodes st). parsed_node_ok (pf_dialect (ad_profile ad)) (set (ps_findings st)) n"
  shows "\<forall>n \<in> set (ps_nodes (parse_step ad txt index s nxt st)).
    parsed_node_ok (pf_dialect (ad_profile ad)) (set (ps_findings (parse_step ad txt index s nxt st))) n"
proof -
  have "node_modality (statement_node ad txt fs i u s k a) \<noteq> UNKNOWN" for fs i u k a
    by (simp add: statement_node_def Let_def)
  then show ?thesis using assms
    by (auto simp: parse_step_def Let_def parsed_node_ok_def split: prod.splits)
qed

lemma parse_loop_node_ok:
  "\<forall>n \<in> set (ps_nodes st). parsed_node_ok (pf_dialect (ad_profile ad)) (set (ps_findings st)) n \<Longrightarrow>
   \<forall>n \<in> set (ps_nodes (parse_loop ad txt index ss st)).
     parsed_node_ok (pf_dialect (ad_profile ad)) (set (ps_findings (parse_loop ad txt index ss st))) n"
proof (induction ss arbitrary: index st)
  case (Cons s rest)
  show ?case unfolding parse_loop.simps by (rule Cons.IH) (rule parse_step_node_ok [OF Cons.prems])
qed simp

lemma parsed_graph_node_ok:
  assumes "parsed_graph ad txt routine ss = (nodes, edges, findings)" "n \<in> set nodes"
  shows "parsed_node_ok (pf_dialect (ad_profile ad)) (set findings) n"
proof -
  have "\<forall>n \<in> set (ps_nodes (parse_init ad routine)). parsed_node_ok (pf_dialect (ad_profile ad)) (set (ps_findings (parse_init ad routine))) n"
    by (simp add: parse_init_def parsed_node_ok_def entry_node_def plain_node_def)
  from parse_loop_node_ok [OF this, of "txt" 1 ss]
  have "\<forall>n \<in> set (ps_nodes (parse_loop ad txt 1 ss (parse_init ad routine))). parsed_node_ok (pf_dialect (ad_profile ad)) (set findings) n"
    using assms(1) by (auto simp: parsed_graph_def Let_def parsed_node_ok_def)
  moreover have "parsed_node_ok (pf_dialect (ad_profile ad)) (set findings) (exit_node routine txt)"
    by (simp add: parsed_node_ok_def exit_node_def plain_node_def Let_def)
  ultimately show ?thesis using assms by (auto simp: parsed_graph_def Let_def)
qed

lemma opaque_finding_core: "opaque_finding d (node_core n) = opaque_finding d n"
  by (simp add: opaque_finding_def node_core_def)

text \<open>The nodes of a parsed routine: what the policy leaves of a refined node of the parsed graph.\<close>

lemma parsed_ir_node:
  assumes "parse_text sha (vendor_adapter v d) txt name = Inr ir" "n \<in> set (ir_nodes ir)"
  obtains m where "node_id n = node_id m" "node_kind n = node_kind m" "node_source_span n = node_source_span m"
    "node_kind m \<noteq> CALL_TARGET \<Longrightarrow> parsed_node_ok d (set (ir_findings ir)) m"
    "node_kind m \<noteq> ERROR_HANDLER \<Longrightarrow> node_modality n =
       (if node_kind m \<in> {ENTRY, EXIT, CALL_TARGET} \<or> node_id m \<in> (control_rel (ir_edges ir))\<^sup>* `` {ir_entry_node_ref ir}
        then node_modality m else UNKNOWN)"
proof -
  let ?ad = "vendor_adapter v d"
  obtain header body body_start built where h:
    "built = build_ir sha ?ad txt name header body (statements_of ?ad body body_start)"
    "ir = (policies d built)\<lparr>ir_content_digest := canonical_digest sha (JObj (ir_fields False (policies d built)))\<rparr>"
    using parse_text_Inr [OF assms(1)] by metis
  let ?ss = "statements_of ?ad body body_start"
  obtain nodes edges findings where g: "parsed_graph ?ad txt (hd_routine_name header) ?ss = (nodes, edges, findings)"
    by (metis prod_cases3)
  obtain nodes' edges' findings' where r: "refine_control_flow nodes edges findings entry_id exit_id = (nodes', edges', findings')"
    by (metis prod_cases3)
  note sel = build_ir_sel [OF g r h(1)] and ok = parsed_graph_ok [OF g vendor_classifier_ok]
  have dist: "distinct (map node_id nodes)" using ok(1) emitted_ids by simp
  have dia: "pf_dialect (ad_profile ?ad) = d" by (cases d) (simp_all add: vendor_adapter_def db2_profile_def oracle_profile_def
    sqlserver_profile_def postgresql_profile_def mysql_profile_def)
  have ed: "ir_edges ir = edges'" "ir_entry_node_ref ir = entry_id"
    using sel h(2) vendor_policy.edges [of d built] vendor_policy.refs [of d built] by simp_all
  have fsub: "set findings \<subseteq> set (ir_findings ir)"
    using vendor_policy.findings [of d built] refine_eqs(3) [OF r refl] sel(3) h(2) by auto
  let ?R = "(control_rel edges')\<^sup>* `` {entry_id}"
  let ?adj = "\<lambda>n. if node_kind n \<in> {ENTRY, EXIT, CALL_TARGET} \<or> node_id n \<in> ?R \<or> reached_below nodes ?R n then n
    else n\<lparr>node_modality := UNKNOWN\<rparr>"
  have "node_core n \<in> node_core ` set (ir_nodes built)"
    using assms(2) arg_cong [OF vendor_policy.core_nodes [of d built], of set] h(2) by auto
  moreover have "nodes' = map ?adj (nodes @ call_nodes nodes)"
    using refined_nodes [OF r refl _ _ refl] dist ok(3,4) by simp
  ultimately obtain m where m: "m \<in> set nodes \<union> set (call_nodes nodes)" "node_core n = node_core (?adj m)"
    unfolding sel(1) by (metis (no_types, lifting) imageE set_map set_append)
  have ct: "m \<in> set (call_nodes nodes) \<Longrightarrow> node_kind m = CALL_TARGET"
    using call_pass_inv [of nodes] by (cases "call_pass nodes") (auto simp: call_inv_def)
  have c: "f n = f (?adj m)" if "\<And>x. f (node_core x) = f x" for f :: "SemanticNode \<Rightarrow> 'z"
    using arg_cong [OF m(2), of f] that by simp
  show thesis
  proof (rule that [of m])
    show "node_id n = node_id m" "node_kind n = node_kind m" "node_source_span n = node_source_span m"
      using c [of node_id] c [of node_kind] c [of node_source_span] by (simp_all add: node_core_def)
    show "node_kind m \<noteq> CALL_TARGET \<Longrightarrow> parsed_node_ok d (set (ir_findings ir)) m"
      using m(1) ct parsed_graph_node_ok [OF g] parsed_node_ok_mono [OF _ fsub] dia by auto
    show "node_kind m \<noteq> ERROR_HANDLER \<Longrightarrow> node_modality n =
       (if node_kind m \<in> {ENTRY, EXIT, CALL_TARGET} \<or> node_id m \<in> (control_rel (ir_edges ir))\<^sup>* `` {ir_entry_node_ref ir}
        then node_modality m else UNKNOWN)"
      using c [of node_modality] unfolding ed by (simp add: node_core_def reached_below_def)
  qed
qed

text \<open>
  Nothing is dropped silently. In the IR of every routine that parses, each statement the
  classifier could not interpret (an OPAQUE node) is reported by a DIALECT_STATEMENT_OPAQUE
  finding with the span of the statement.
\<close>

theorem opaque_statements_reported:
  "case parse_text sha (vendor_adapter v d) txt name of
     Inr ir \<Rightarrow> opaque_finding d ` {n \<in> set (ir_nodes ir). node_kind n = OPAQUE} \<subseteq> set (ir_findings ir)
   | Inl e \<Rightarrow> True"
proof (cases "parse_text sha (vendor_adapter v d) txt name")
  case (Inr ir)
  have "opaque_finding d n \<in> set (ir_findings ir)" if n: "n \<in> set (ir_nodes ir)" "node_kind n = OPAQUE" for n
  proof -
    obtain m where "node_kind n = node_kind m" "node_source_span n = node_source_span m"
      "node_kind m \<noteq> CALL_TARGET \<Longrightarrow> parsed_node_ok d (set (ir_findings ir)) m"
      by (rule parsed_ir_node [OF Inr n(1)]) blast
    then show ?thesis using n(2) by (simp add: parsed_node_ok_def opaque_finding_def)
  qed
  then show ?thesis using Inr by auto
qed simp

text \<open>
  The modality of a parsed routine is decided by reachability. Among the statements that are
  not handler declarations, those with modality UNKNOWN are exactly those that no path of control
  edges of the IR reaches from its entry node.
\<close>

theorem modality_unknown_iff_unreachable:
  "case parse_text sha (vendor_adapter v d) txt name of
     Inr ir \<Rightarrow>
       {n \<in> set (ir_nodes ir). node_kind n \<notin> {ENTRY, EXIT, CALL_TARGET, ERROR_HANDLER} \<and> node_modality n = UNKNOWN} =
       {n \<in> set (ir_nodes ir). node_kind n \<notin> {ENTRY, EXIT, CALL_TARGET, ERROR_HANDLER} \<and>
          node_id n \<notin> (control_rel (ir_edges ir))\<^sup>* `` {ir_entry_node_ref ir}}
   | Inl e \<Rightarrow> True"
proof (cases "parse_text sha (vendor_adapter v d) txt name")
  case (Inr ir)
  let ?R = "(control_rel (ir_edges ir))\<^sup>* `` {ir_entry_node_ref ir}"
  have "node_modality n = UNKNOWN \<longleftrightarrow> node_id n \<notin> ?R"
    if n: "n \<in> set (ir_nodes ir)" "node_kind n \<notin> {ENTRY, EXIT, CALL_TARGET, ERROR_HANDLER}" for n
  proof -
    obtain m where m: "node_id n = node_id m" "node_kind n = node_kind m"
      "node_kind m \<noteq> CALL_TARGET \<Longrightarrow> parsed_node_ok d (set (ir_findings ir)) m"
      "node_kind m \<noteq> ERROR_HANDLER \<Longrightarrow> node_modality n =
         (if node_kind m \<in> {ENTRY, EXIT, CALL_TARGET} \<or> node_id m \<in> ?R then node_modality m else UNKNOWN)"
      by (rule parsed_ir_node [OF Inr n(1)]) blast
    then show ?thesis using n(2) by (auto simp: parsed_node_ok_def)
  qed
  then show ?thesis using Inr by auto
qed simp

end
