(* ===== verification/Registry.thy ===== *)
theory Registry
  imports Adapter
begin

text \<open>
  The dialect registry, \<open>atlas/dialects/registry.py\<close>. The locale \<open>adapter_registry\<close> is the
  contract its clients rely on: a lookup returns what was registered under a key, registering a
  second adapter for a key is refused, and other keys are not affected. It is interpreted on the
  model of the registry; the default registry is then complete.
\<close>

record Registry =
  reg_atlas_version :: string
  reg_adapters :: "(DialectId \<times> Adapter) list"

definition adapter_dialect :: "Adapter \<Rightarrow> DialectId" where
  "adapter_dialect ad = pf_dialect (ad_profile ad)"

definition empty_registry :: "string \<Rightarrow> Registry" where
  "empty_registry atlas_version = \<lparr>reg_atlas_version = atlas_version, reg_adapters = []\<rparr>"

definition register :: "Adapter \<Rightarrow> Registry \<Rightarrow> adapter_error + Registry" where
  "register ad r =
     (if map_of (reg_adapters r) (adapter_dialect ad) \<noteq> None then
        Inl (DialectAdapterError (''Duplicate adapter for '' @ dialect_value (adapter_dialect ad)))
      else Inr (r\<lparr>reg_adapters := dict_set (adapter_dialect ad) ad (reg_adapters r)\<rparr>))"

definition registry_adapter :: "DialectId \<Rightarrow> Registry \<Rightarrow> adapter_error + Adapter" where
  "registry_adapter dialect r =
     (case map_of (reg_adapters r) dialect of
        Some ad \<Rightarrow> Inr ad
      | None \<Rightarrow> Inl (DialectAdapterError (''No Atlas adapter for '' @ dialect_value dialect)))"

definition registry_dialects :: "Registry \<Rightarrow> DialectId list" where
  "registry_dialects r = sort_key dialect_value (map fst (reg_adapters r))"

text \<open>\<open>for adapter in (...): registry.register(adapter)\<close>.\<close>

fun register_all :: "('a \<Rightarrow> 'r \<Rightarrow> 'e + 'r) \<Rightarrow> 'a list \<Rightarrow> 'r \<Rightarrow> 'e + 'r" where
  "register_all reg [] r = Inr r"
| "register_all reg (a # as) r = (case reg a r of Inl e \<Rightarrow> Inl e | Inr r' \<Rightarrow> register_all reg as r')"

definition default_adapters :: "string \<Rightarrow> Adapter list" where
  "default_adapters atlas_version = map (vendor_adapter atlas_version)
     [DB2_SQL_PL, ORACLE_PLSQL, SQLSERVER_TSQL, POSTGRESQL_PLPGSQL, MYSQL_STORED_PROGRAM]"

definition default_registry :: "string \<Rightarrow> adapter_error + Registry" where
  "default_registry atlas_version =
     register_all register (default_adapters atlas_version) (empty_registry atlas_version)"

section \<open>The contract of a registry\<close>

locale adapter_registry =
  fixes key :: "'a \<Rightarrow> 'k"
    and reg :: "'a \<Rightarrow> 'r \<Rightarrow> 'e + 'r"
    and lookup :: "'k \<Rightarrow> 'r \<Rightarrow> 'e + 'a"
  assumes fresh: "lookup (key a) r = Inl e \<Longrightarrow>
      \<exists>r'. reg a r = Inr r' \<and> lookup (key a) r' = Inr a \<and> (\<forall>k. k \<noteq> key a \<longrightarrow> lookup k r' = lookup k r)"
    and duplicate: "lookup (key a) r = Inr b \<Longrightarrow> \<exists>e. reg a r = Inl e"
begin

lemma reg_Inr:
  assumes "reg a r = Inr r'"
  shows "(\<exists>e. lookup (key a) r = Inl e) \<and> lookup (key a) r' = Inr a \<and> (\<forall>k. k \<noteq> key a \<longrightarrow> lookup k r' = lookup k r)"
proof (cases "lookup (key a) r")
  case (Inl e)
  then show ?thesis using fresh [OF Inl] assms by auto
next
  case (Inr b)
  then show ?thesis using duplicate [OF Inr] assms by auto
qed

lemma all_registered:
  assumes "distinct (map key as)" "\<And>a. a \<in> set as \<Longrightarrow> \<exists>e. lookup (key a) r = Inl e"
  shows "\<exists>r'. register_all reg as r = Inr r' \<and> (\<forall>a \<in> set as. lookup (key a) r' = Inr a) \<and>
    (\<forall>k. k \<notin> key ` set as \<longrightarrow> lookup k r' = lookup k r)"
  using assms
proof (induction as arbitrary: r)
  case (Cons a as)
  obtain e where "lookup (key a) r = Inl e" using Cons.prems(2) [of a] by auto
  then obtain r1 where r1: "reg a r = Inr r1" "lookup (key a) r1 = Inr a" "\<forall>k. k \<noteq> key a \<longrightarrow> lookup k r1 = lookup k r"
    using fresh by blast
  have "\<exists>e. lookup (key b) r1 = Inl e" if "b \<in> set as" for b
  proof -
    have "key b \<noteq> key a" using Cons.prems(1) that by (metis distinct.simps(2) image_eqI list.simps(9) set_map)
    then show ?thesis using r1(3) Cons.prems(2) [of b] that by auto
  qed
  then obtain r' where r': "register_all reg as r1 = Inr r'" "\<forall>b \<in> set as. lookup (key b) r' = Inr b"
    "\<forall>k. k \<notin> key ` set as \<longrightarrow> lookup k r' = lookup k r1"
    using Cons.IH [of r1] Cons.prems(1) by auto
  moreover have "lookup (key a) r' = Inr a" using r'(3) r1(2) Cons.prems(1) by auto
  ultimately show ?case using r1 by auto
qed simp

end

interpretation atlas_registry: adapter_registry adapter_dialect register registry_adapter
proof
  show "registry_adapter (adapter_dialect a) r = Inl e \<Longrightarrow> \<exists>r'. register a r = Inr r' \<and>
      registry_adapter (adapter_dialect a) r' = Inr a \<and>
      (\<forall>k. k \<noteq> adapter_dialect a \<longrightarrow> registry_adapter k r' = registry_adapter k r)" for a r e
    by (auto simp: registry_adapter_def register_def split: option.splits)
  show "registry_adapter (adapter_dialect a) r = Inr b \<Longrightarrow> \<exists>e. register a r = Inl e" for a r b
    by (auto simp: registry_adapter_def register_def split: option.splits)
qed

section \<open>Properties of the registry\<close>

lemma vendor_adapter_dialect [simp]: "adapter_dialect (vendor_adapter v d) = d"
  by (cases d) (simp_all add: adapter_dialect_def vendor_adapter_def db2_profile_def oracle_profile_def
      sqlserver_profile_def postgresql_profile_def mysql_profile_def)

lemma default_registry_complete:
  "\<exists>r. default_registry v = Inr r \<and> (\<forall>d. registry_adapter d r = Inr (vendor_adapter v d))"
proof -
  have e: "\<exists>e. registry_adapter (adapter_dialect a) (empty_registry v) = Inl e" for a
    by (simp add: registry_adapter_def empty_registry_def)
  have d: "distinct (map adapter_dialect (default_adapters v))" by (simp add: default_adapters_def)
  obtain r where r: "default_registry v = Inr r"
    "\<forall>a \<in> set (default_adapters v). registry_adapter (adapter_dialect a) r = Inr a"
    using atlas_registry.all_registered [OF d e] unfolding default_registry_def by blast
  have "registry_adapter d r = Inr (vendor_adapter v d)" for d
    using r(2) by (cases d) (simp_all add: default_adapters_def)
  then show ?thesis using r(1) by blast
qed

text \<open>
  The registry refuses duplicates and returns what was registered. Registering an adapter
  either fails because its dialect has one already, or the dialect then resolves to that adapter
  and every other dialect resolves as before.
\<close>

theorem register_lookup:
  "case register ad r of
     Inl e \<Rightarrow> (\<exists>b. registry_adapter (adapter_dialect ad) r = Inr b)
   | Inr r' \<Rightarrow> (\<exists>e. registry_adapter (adapter_dialect ad) r = Inl e) \<and>
       (\<forall>d. registry_adapter d r' = (if d = adapter_dialect ad then Inr ad else registry_adapter d r))"
proof (cases "register ad r")
  case (Inl e)
  then show ?thesis using atlas_registry.fresh [of ad r] by (cases "registry_adapter (adapter_dialect ad) r") auto
next
  case (Inr r')
  then show ?thesis using atlas_registry.reg_Inr [OF Inr] by auto
qed

text \<open>
  The default registry is complete: it can always be built, and it resolves each of the five
  dialects to the adapter of its vendor, which has that dialect.
\<close>

theorem default_registry_resolves:
  "\<exists>r. default_registry v = Inr r \<and>
     (\<forall>d. registry_adapter d r = Inr (vendor_adapter v d) \<and> adapter_dialect (vendor_adapter v d) = d)"
  using default_registry_complete by simp

end
