(* ===== verification/Lexer.thy ===== *)
theory Lexer
  imports AtlasPrelude
begin

text \<open>
  The lexical scanner of Db2 CLP scripts, \<open>atlas/dialects/db2/clp_lexer.py\<close>. The cursor of
  \<open>scan\<close> is the remaining text together with the running line, column and offset; each inner
  \<open>while\<close> loop of the source is one recursive function, and \<open>scan_step\<close> is the body of
  the outer loop. The declarative counterpart is \<open>lexed\<close>: the source text cut into white space,
  comments and tokens, each token at its line, column and offset. The scanner refines it.
\<close>

datatype TokenKind = WORD | STRING | QUOTED_IDENTIFIER | NUMBER | SYMBOL

record Token =
  tok_kind :: TokenKind
  tok_value :: string
  tok_upper :: string
  tok_line :: nat
  tok_column :: nat
  tok_offset :: nat

record LexResult =
  lr_tokens :: "Token list"
  lr_code_lines :: "nat set"
  lr_unterminated_string :: bool
  lr_unterminated_comment :: bool

record cursor =
  cu_line :: nat
  cu_col :: nat
  cu_i :: nat

section \<open>The scanner\<close>

definition advance_char :: "char \<Rightarrow> cursor \<Rightarrow> cursor" where
  "advance_char ch p =
     (if ch = nl then p\<lparr>cu_line := cu_line p + 1, cu_col := 1\<rparr> else p\<lparr>cu_col := cu_col p + 1\<rparr>)"

text \<open>\<open>advance_char(ch); i += 1\<close>.\<close>

definition eat :: "char \<Rightarrow> cursor \<Rightarrow> cursor" where
  "eat ch p = (advance_char ch p)\<lparr>cu_i := cu_i p + 1\<rparr>"

fun skip_line :: "string \<Rightarrow> cursor \<Rightarrow> string \<times> cursor" where
  "skip_line [] p = ([], p)"
| "skip_line (c # s) p = (if c \<noteq> nl then skip_line s (eat c p) else (c # s, p))"

text \<open>The nested block comment: the depth left, the rest of the text and the cursor.\<close>

fun skip_block :: "nat \<Rightarrow> string \<Rightarrow> cursor \<Rightarrow> nat \<times> string \<times> cursor" where
  "skip_block 0 s p = (0, s, p)"
| "skip_block (Suc d) [] p = (Suc d, [], p)"
| "skip_block (Suc d) [cur] p = (Suc d, [], eat cur p)"
| "skip_block (Suc d) (cur # look # s) p =
     (if cur = CHR ''/'' \<and> look = CHR ''*'' then skip_block (Suc (Suc d)) s (eat look (eat cur p))
      else if cur = CHR ''*'' \<and> look = CHR ''/'' then skip_block d s (eat look (eat cur p))
      else skip_block (Suc d) (look # s) (eat cur p))"

text \<open>The inner loop of both quoted forms: the value read, whether it is closed, the rest, the cursor.\<close>

fun quoted :: "char \<Rightarrow> string \<Rightarrow> string \<Rightarrow> cursor \<Rightarrow> string \<times> bool \<times> string \<times> cursor" where
  "quoted q value [] p = (value, False, [], p)"
| "quoted q value [cur] p = (value @ [cur], cur = q, [], eat cur p)"
| "quoted q value (cur # d # s) p =
     (if cur = q then
        (if d = q then quoted q (value @ [cur, d]) s (eat d (eat cur p))
         else (value @ [cur], True, d # s, eat cur p))
      else quoted q (value @ [cur]) (d # s) (eat cur p))"

fun run_of :: "(char \<Rightarrow> bool) \<Rightarrow> string \<Rightarrow> string \<Rightarrow> cursor \<Rightarrow> string \<times> string \<times> cursor" where
  "run_of P value [] p = (value, [], p)"
| "run_of P value (c # s) p = (if P c then run_of P (value @ [c]) s (eat c p) else (value, c # s, p))"

definition word_start :: "char \<Rightarrow> bool" where
  "word_start c = (is_alpha c \<or> c \<in> set ''_#$@'')"

definition word_part :: "char \<Rightarrow> bool" where
  "word_part c = (is_alnum c \<or> c \<in> set ''_#$@'')"

definition number_part :: "char \<Rightarrow> bool" where
  "number_part c = (is_digit c \<or> c \<in> set ''.Ee+-'')"

definition two_char_symbols :: "string list" where
  "two_char_symbols = [''<='', ''>='', ''<>'', ''!='', ''||'', '':='', ''=>'']"

definition mk_token :: "TokenKind \<Rightarrow> string \<Rightarrow> string \<Rightarrow> cursor \<Rightarrow> Token" where
  "mk_token kind value upper p =
     \<lparr>tok_kind = kind, tok_value = value, tok_upper = upper, tok_line = cu_line p, tok_column = cu_col p,
      tok_offset = cu_i p\<rparr>"

definition emit :: "Token \<Rightarrow> bool \<Rightarrow> LexResult \<Rightarrow> LexResult" where
  "emit token closed out = out\<lparr>lr_tokens := lr_tokens out @ [token],
     lr_code_lines := insert (tok_line token) (lr_code_lines out),
     lr_unterminated_string := (lr_unterminated_string out \<or> \<not> closed)\<rparr>"

text \<open>One iteration of the outer loop at the text \<open>ch # s\<close>.\<close>

definition scan_step :: "char \<Rightarrow> string \<Rightarrow> cursor \<Rightarrow> LexResult \<Rightarrow> string \<times> cursor \<times> LexResult" where
  "scan_step ch s p out =
     (let nxt = take 1 s in
      if is_space ch then (s, eat ch p, out)
      else if ch = CHR ''-'' \<and> nxt = ''-'' then
        (case skip_line (ch # s) p of (rest, p') \<Rightarrow> (rest, p', out))
      else if ch = CHR ''/'' \<and> nxt = ''*'' then
        (case skip_block 1 (tl s) (eat (hd s) (eat ch p)) of (depth, rest, p') \<Rightarrow>
           (rest, p', if depth \<noteq> 0 then out\<lparr>lr_unterminated_comment := True,
                         lr_code_lines := insert (cu_line p) (lr_code_lines out)\<rparr> else out))
      else if ch = squote then
        (case quoted squote [ch] s (eat ch p) of (raw, closed, rest, p') \<Rightarrow>
           (rest, p', emit (mk_token STRING raw raw p) closed out))
      else if ch = dquote then
        (case quoted dquote [ch] s (eat ch p) of (raw, closed, rest, p') \<Rightarrow>
           (rest, p', emit (mk_token QUOTED_IDENTIFIER raw (py_upper raw) p) closed out))
      else if word_start ch then
        (case run_of word_part [ch] s (eat ch p) of (raw, rest, p') \<Rightarrow>
           (rest, p', emit (mk_token WORD raw (py_upper raw) p) True out))
      else if is_digit ch then
        (case run_of number_part [ch] s (eat ch p) of (raw, rest, p') \<Rightarrow>
           (rest, p', emit (mk_token NUMBER raw (py_upper raw) p) True out))
      else if ch # nxt \<in> set two_char_symbols then
        (tl s, eat (hd s) (eat ch p), emit (mk_token SYMBOL (ch # nxt) (ch # nxt) p) True out)
      else (s, eat ch p, emit (mk_token SYMBOL [ch] [ch] p) True out))"

section \<open>What an iteration consumes\<close>

abbreviation eats :: "string \<Rightarrow> cursor \<Rightarrow> cursor" where
  "eats v p \<equiv> fold eat v p"

lemma skip_line_eats:
  "skip_line s p = (rest, p') \<Longrightarrow> \<exists>t. s = t @ rest \<and> p' = eats t p \<and> nl \<notin> set t"
proof (induction s p rule: skip_line.induct)
  case (2 c s p)
  show ?case
  proof (cases "c \<noteq> nl")
    case True
    then obtain t where "s = t @ rest" "p' = eats t (eat c p)" "nl \<notin> set t" using 2 by auto
    then show ?thesis using True by (intro exI [of _ "c # t"]) simp
  next
    case False
    then show ?thesis using 2 by (intro exI [of _ "[]"]) simp
  qed
qed simp

text \<open>The text of a block comment after its opener, from one nesting depth to another.\<close>

inductive comment_tail :: "nat \<Rightarrow> string \<Rightarrow> nat \<Rightarrow> bool" where
  tail_stop: "comment_tail d [] d"
| tail_open: "comment_tail (Suc (Suc d)) t e \<Longrightarrow> comment_tail (Suc d) (CHR ''/'' # CHR ''*'' # t) e"
| tail_close: "comment_tail d t e \<Longrightarrow> comment_tail (Suc d) (CHR ''*'' # CHR ''/'' # t) e"
| tail_other: "comment_tail (Suc d) t e \<Longrightarrow> take 2 (c # t) \<noteq> ''/*'' \<Longrightarrow> take 2 (c # t) \<noteq> ''*/'' \<Longrightarrow>
    comment_tail (Suc d) (c # t) e"

lemma skip_block_eats:
  "skip_block d s p = (e, rest, p') \<Longrightarrow>
     \<exists>t. s = t @ rest \<and> p' = eats t p \<and> comment_tail d t e \<and> (e = 0 \<or> rest = [])"
proof (induction d s p rule: skip_block.induct)
  case (1 s p)
  then show ?case by (auto intro: tail_stop)
next
  case (2 d p)
  then show ?case by (auto intro: tail_stop)
next
  case (3 d cur p)
  then show ?case by (auto intro!: tail_other tail_stop)
next
  case (4 d cur look s p)
  consider (op) "cur = CHR ''/''" "look = CHR ''*''" | (cl) "cur = CHR ''*''" "look = CHR ''/''"
    | (other) "\<not> (cur = CHR ''/'' \<and> look = CHR ''*'')" "\<not> (cur = CHR ''*'' \<and> look = CHR ''/'')" by blast
  then show ?case
  proof cases
    case op
    then obtain t where "s = t @ rest" "p' = eats t (eat look (eat cur p))" "comment_tail (Suc (Suc d)) t e" "e = 0 \<or> rest = []"
      using 4 by auto
    then show ?thesis using op by (intro exI [of _ "cur # look # t"]) (simp add: tail_open)
  next
    case cl
    then obtain t where "s = t @ rest" "p' = eats t (eat look (eat cur p))" "comment_tail d t e" "e = 0 \<or> rest = []"
      using 4 by auto
    then show ?thesis using cl by (intro exI [of _ "cur # look # t"]) (simp add: tail_close)
  next
    case other
    then obtain t where t: "look # s = t @ rest" "p' = eats t (eat cur p)" "comment_tail (Suc d) t e" "e = 0 \<or> rest = []"
      using 4 by auto
    have "take 2 (cur # t) \<noteq> ''/*''" "take 2 (cur # t) \<noteq> ''*/''" using other t(1) by (cases t; auto)+
    then show ?thesis using t by (intro exI [of _ "cur # t"]) (simp add: tail_other)
  qed
qed

lemma quoted_eats:
  "quoted q v s p = (raw, closed, rest, p') \<Longrightarrow>
     \<exists>t. raw = v @ t \<and> s = t @ rest \<and> p' = eats t p \<and> closed = odd (count_list t q)"
proof (induction q v s p rule: quoted.induct)
  case (3 q v cur d s p)
  show ?case
  proof (cases "cur = q")
    case eq: True
    show ?thesis
    proof (cases "d = q")
      case True
      with 3 eq obtain t where "raw = (v @ [cur, d]) @ t" "s = t @ rest" "p' = eats t (eat d (eat cur p))"
        "closed = odd (count_list t q)" by auto
      then show ?thesis using True eq by (intro exI [of _ "cur # d # t"]) simp
    next
      case False
      then show ?thesis using 3 eq by (intro exI [of _ "[cur]"]) auto
    qed
  next
    case False
    with 3 obtain t where "raw = (v @ [cur]) @ t" "d # s = t @ rest" "p' = eats t (eat cur p)"
      "closed = odd (count_list t q)" by auto
    then show ?thesis using False by (intro exI [of _ "cur # t"]) simp
  qed
qed auto

lemma run_of_eats:
  "run_of P v s p = (raw, rest, p') \<Longrightarrow>
     \<exists>t. raw = v @ t \<and> s = t @ rest \<and> p' = eats t p \<and> list_all P t \<and> (rest = [] \<or> \<not> P (hd rest))"
proof (induction P v s p rule: run_of.induct)
  case (2 P v c s p)
  show ?case
  proof (cases "P c")
    case True
    with 2 obtain t where "raw = (v @ [c]) @ t" "s = t @ rest" "p' = eats t (eat c p)" "list_all P t" "rest = [] \<or> \<not> P (hd rest)"
      by auto
    then show ?thesis using True by (intro exI [of _ "c # t"]) simp
  next
    case False
    then show ?thesis using 2 by auto
  qed
qed auto

section \<open>The declarative token structure of a text\<close>

text \<open>What lies between tokens: one white-space character, a line comment or a block comment.\<close>

inductive trivia :: "string \<Rightarrow> bool" where
  trivia_space: "is_space c \<Longrightarrow> trivia [c]"
| trivia_line: "nl \<notin> set t \<Longrightarrow> trivia (''--'' @ t)"
| trivia_block: "comment_tail 1 t d \<Longrightarrow> trivia (''/*'' @ t)"

definition token_shape :: "Token \<Rightarrow> bool" where
  "token_shape k = (case tok_kind k of
     WORD \<Rightarrow> tok_value k \<noteq> [] \<and> word_start (hd (tok_value k)) \<and> list_all word_part (tok_value k) \<and>
       tok_upper k = py_upper (tok_value k)
   | STRING \<Rightarrow> take 1 (tok_value k) = [squote] \<and> tok_upper k = tok_value k
   | QUOTED_IDENTIFIER \<Rightarrow> take 1 (tok_value k) = [dquote] \<and> tok_upper k = py_upper (tok_value k)
   | NUMBER \<Rightarrow> tok_value k \<noteq> [] \<and> is_digit (hd (tok_value k)) \<and> list_all number_part (tok_value k) \<and>
       tok_upper k = py_upper (tok_value k)
   | SYMBOL \<Rightarrow> (length (tok_value k) = 1 \<or> tok_value k \<in> set two_char_symbols) \<and> tok_upper k = tok_value k)"

text \<open>A quoted token whose closing quote is missing: its quote characters do not pair up.\<close>

definition unclosed :: "Token \<Rightarrow> bool" where
  "unclosed k = (case tok_kind k of
     STRING \<Rightarrow> odd (count_list (tok_value k) squote)
   | QUOTED_IDENTIFIER \<Rightarrow> odd (count_list (tok_value k) dquote)
   | _ \<Rightarrow> False)"

definition start_cursor :: cursor where
  "start_cursor = \<lparr>cu_line = 1, cu_col = 1, cu_i = 0\<rparr>"

definition token_cursor :: "Token \<Rightarrow> cursor" where
  "token_cursor k = \<lparr>cu_line = tok_line k, cu_col = tok_column k, cu_i = tok_offset k\<rparr>"

text \<open>\<open>lexed u s ks\<close>: after the text \<open>u\<close>, the text \<open>s\<close> is made of trivia and the tokens \<open>ks\<close>.\<close>

inductive lexed :: "string \<Rightarrow> string \<Rightarrow> Token list \<Rightarrow> bool" where
  lexed_end: "lexed u [] []"
| lexed_trivia: "trivia t \<Longrightarrow> lexed (u @ t) s ks \<Longrightarrow> lexed u (t @ s) ks"
| lexed_token: "token_shape k \<Longrightarrow> token_cursor k = eats u start_cursor \<Longrightarrow> lexed (u @ tok_value k) s ks \<Longrightarrow>
    lexed u (tok_value k @ s) (k # ks)"

lemma token_cursor_mk_token [simp]: "token_cursor (mk_token kind v up p) = p"
  by (simp add: token_cursor_def mk_token_def)

lemma mk_token_sel [simp]:
  "tok_kind (mk_token k v up p) = k" "tok_value (mk_token k v up p) = v" "tok_upper (mk_token k v up p) = up"
  by (simp_all add: mk_token_def)

lemma emit_sel [simp]:
  "lr_tokens (emit k b out) = lr_tokens out @ [k]"
  "lr_unterminated_string (emit k b out) = (lr_unterminated_string out \<or> \<not> b)"
  by (simp_all add: emit_def)

text \<open>One iteration either passes over a piece of trivia or emits a token for the text it reads.\<close>

definition passes :: "string \<Rightarrow> cursor \<Rightarrow> LexResult \<Rightarrow> string \<times> cursor \<times> LexResult \<Rightarrow> bool" where
  "passes s p out r = (case r of (rest, p', out') \<Rightarrow> \<exists>t. s = t @ rest \<and> p' = eats t p \<and> trivia t \<and>
     lr_tokens out' = lr_tokens out \<and> lr_unterminated_string out' = lr_unterminated_string out)"

definition emits :: "string \<Rightarrow> cursor \<Rightarrow> LexResult \<Rightarrow> string \<times> cursor \<times> LexResult \<Rightarrow> bool" where
  "emits s p out r = (case r of (rest, p', out') \<Rightarrow> \<exists>k. s = tok_value k @ rest \<and> p' = eats (tok_value k) p \<and>
     token_shape k \<and> token_cursor k = p \<and> lr_tokens out' = lr_tokens out @ [k] \<and>
     lr_unterminated_string out' = (lr_unterminated_string out \<or> unclosed k))"

lemma emitsI:
  assumes "s = v @ rest" "p' = eats v p" "token_shape (mk_token kind v up p)" "unclosed (mk_token kind v up p) \<longleftrightarrow> \<not> closed"
  shows "emits s p out (rest, p', emit (mk_token kind v up p) closed out)"
  using assms by (auto simp: emits_def intro!: exI [of _ "mk_token kind v up p"])

lemma take_1_eq: "take 1 s = [c] \<longleftrightarrow> (\<exists>t. s = c # t)"
  by (cases s) auto

lemma scan_quoted:
  assumes "quoted q [q] s (eat q p) = (raw, closed, rest, p')"
  shows "q # s = raw @ rest" "p' = eats raw p" "take 1 raw = [q]" "closed = even (count_list raw q)"
  using quoted_eats [OF assms] by auto

lemma scan_run:
  assumes "run_of P [c] s (eat c p) = (raw, rest, p')" "P c"
  shows "c # s = raw @ rest" "p' = eats raw p" "raw \<noteq> []" "hd raw = c" "list_all P raw"
  using run_of_eats [OF assms(1)] assms(2) by auto

lemma word_start_part: "word_start c \<Longrightarrow> word_part c"
  by (auto simp: word_start_def word_part_def is_alnum_def)

lemma two_char_split: "c # take 1 s \<in> set two_char_symbols \<Longrightarrow> \<exists>d t. s = d # t"
  by (cases s) (auto simp: two_char_symbols_def)

lemma scan_step_comment:
  assumes "\<not> is_space ch" "ch = CHR ''-'' \<and> take 1 s = ''-'' \<or> ch = CHR ''/'' \<and> take 1 s = ''*''"
  shows "passes (ch # s) p out (scan_step ch s p out)"
proof -
  from assms(2) consider (line) u where "ch = CHR ''-''" "s = CHR ''-'' # u" | (block) u where "ch = CHR ''/''" "s = CHR ''*'' # u"
    unfolding take_1_eq by blast
  then show ?thesis
  proof cases
    case line
    obtain rest p' where r: "skip_line u (eat (CHR ''-'') (eat (CHR ''-'') p)) = (rest, p')" by fastforce
    obtain t where "u = t @ rest" "p' = eats t (eat (CHR ''-'') (eat (CHR ''-'') p))" "nl \<notin> set t"
      using skip_line_eats [OF r] by blast
    moreover from this(3) have "trivia (''--'' @ t)" by (rule trivia_line)
    ultimately show ?thesis using line r assms(1)
      by (auto simp: scan_step_def passes_def intro!: exI [of _ "''--'' @ t"])
  next
    case block
    obtain e rest p' where r: "skip_block 1 u (eat (CHR ''*'') (eat (CHR ''/'') p)) = (e, rest, p')" by (metis prod_cases3)
    obtain t where "u = t @ rest" "p' = eats t (eat (CHR ''*'') (eat (CHR ''/'') p))" "comment_tail 1 t e"
      using skip_block_eats [OF r] by blast
    moreover from this(3) have "trivia (''/*'' @ t)" by (rule trivia_block)
    ultimately show ?thesis using block r assms(1)
      by (auto simp: scan_step_def passes_def intro!: exI [of _ "''/*'' @ t"])
  qed
qed

lemma scan_step_quoted:
  assumes "ch = squote \<or> ch = dquote"
  shows "emits (ch # s) p out (scan_step ch s p out)"
proof -
  obtain raw closed rest p' where r: "quoted ch [ch] s (eat ch p) = (raw, closed, rest, p')" by (metis prod_cases4)
  have ns: "\<not> is_space squote" "\<not> is_space dquote" by (simp_all add: is_space_def code_of_def)
  from assms show ?thesis
  proof
    assume c: "ch = squote"
    then have "scan_step ch s p out = (rest, p', emit (mk_token STRING raw raw p) closed out)"
      using r ns by (simp add: scan_step_def)
    then show ?thesis using scan_quoted [of ch s p raw closed rest p'] r c
      by (simp add: emitsI token_shape_def unclosed_def)
  next
    assume c: "ch = dquote"
    then have "scan_step ch s p out = (rest, p', emit (mk_token QUOTED_IDENTIFIER raw (py_upper raw) p) closed out)"
      using r ns by (simp add: scan_step_def)
    then show ?thesis using scan_quoted [of ch s p raw closed rest p'] r c
      by (simp add: emitsI token_shape_def unclosed_def)
  qed
qed

lemma scan_step_run:
  assumes "\<not> is_space ch" "\<not> (ch = CHR ''-'' \<and> take 1 s = ''-'')" "\<not> (ch = CHR ''/'' \<and> take 1 s = ''*'')"
    "ch \<noteq> squote" "ch \<noteq> dquote" "word_start ch \<or> is_digit ch"
  shows "emits (ch # s) p out (scan_step ch s p out)"
proof (cases "word_start ch")
  case True
  obtain raw rest p' where r: "run_of word_part [ch] s (eat ch p) = (raw, rest, p')" by (metis prod_cases3)
  have "scan_step ch s p out = (rest, p', emit (mk_token WORD raw (py_upper raw) p) True out)"
    unfolding scan_step_def Let_def using assms(1-5) True r by (simp only: if_False if_True simp_thms prod.case)
  then show ?thesis using scan_run [OF r word_start_part [OF True]] True
    by (simp add: emitsI token_shape_def unclosed_def)
next
  case False
  then have d: "is_digit ch" using assms(6) by blast
  obtain raw rest p' where r: "run_of number_part [ch] s (eat ch p) = (raw, rest, p')" by (metis prod_cases3)
  have "scan_step ch s p out = (rest, p', emit (mk_token NUMBER raw (py_upper raw) p) True out)"
    unfolding scan_step_def Let_def using assms(1-5) False d r by (simp only: if_False if_True simp_thms prod.case)
  then show ?thesis using scan_run [OF r] d
    by (simp add: emitsI token_shape_def unclosed_def number_part_def)
qed

lemma scan_step_symbol:
  assumes "\<not> is_space ch" "\<not> (ch = CHR ''-'' \<and> take 1 s = ''-'')" "\<not> (ch = CHR ''/'' \<and> take 1 s = ''*'')"
    "ch \<noteq> squote" "ch \<noteq> dquote" "\<not> word_start ch" "\<not> is_digit ch"
  shows "emits (ch # s) p out (scan_step ch s p out)"
proof (cases "ch # take 1 s \<in> set two_char_symbols")
  case True
  then obtain d t where s: "s = d # t" using two_char_split by blast
  have "scan_step ch s p out = (tl s, eat (hd s) (eat ch p), emit (mk_token SYMBOL (ch # take 1 s) (ch # take 1 s) p) True out)"
    unfolding scan_step_def Let_def using assms True by (simp only: if_False if_True simp_thms)
  then show ?thesis using True s by (auto simp: token_shape_def unclosed_def intro!: emitsI)
next
  case False
  have "scan_step ch s p out = (s, eat ch p, emit (mk_token SYMBOL [ch] [ch] p) True out)"
    unfolding scan_step_def Let_def using assms False by (simp only: if_False if_True simp_thms)
  then show ?thesis by (auto simp: token_shape_def unclosed_def intro!: emitsI)
qed

lemma scan_step_sound: "passes (ch # s) p out (scan_step ch s p out) \<or> emits (ch # s) p out (scan_step ch s p out)"
proof (cases "is_space ch")
  case True
  then have "passes (ch # s) p out (scan_step ch s p out)"
    by (auto simp: scan_step_def passes_def intro!: exI [of _ "[ch]"] trivia_space)
  then show ?thesis ..
next
  case False
  consider "ch = CHR ''-'' \<and> take 1 s = ''-'' \<or> ch = CHR ''/'' \<and> take 1 s = ''*''" | "ch = squote \<or> ch = dquote"
    | "\<not> (ch = CHR ''-'' \<and> take 1 s = ''-'')" "\<not> (ch = CHR ''/'' \<and> take 1 s = ''*'')" "ch \<noteq> squote" "ch \<noteq> dquote"
    by blast
  then show ?thesis
  proof cases
    case 1
    then show ?thesis using scan_step_comment [OF False] by blast
  next
    case 2
    then show ?thesis using scan_step_quoted by blast
  next
    case 3
    then show ?thesis using scan_step_run [OF False 3] scan_step_symbol [OF False 3] by blast
  qed
qed

lemma trivia_nonempty: "trivia t \<Longrightarrow> t \<noteq> []"
  by (induction rule: trivia.induct) auto

lemma token_nonempty: "token_shape k \<Longrightarrow> tok_value k \<noteq> []"
  by (auto simp: token_shape_def two_char_symbols_def split: TokenKind.splits)

lemma scan_step_shrinks:
  assumes "scan_step ch s p out = (rest, p', out')"
  shows "length rest < length (ch # s)"
  using scan_step_sound [of ch s p out] unfolding assms passes_def emits_def
  by (auto dest!: trivia_nonempty token_nonempty arg_cong [of _ _ length])

function scan_loop :: "string \<Rightarrow> cursor \<Rightarrow> LexResult \<Rightarrow> LexResult" where
  "scan_loop [] p out = out"
| "scan_loop (ch # s) p out = (case scan_step ch s p out of (rest, p', out') \<Rightarrow> scan_loop rest p' out')"
  by pat_completeness auto
termination
proof (relation "measure (\<lambda>(s, p, out). length s)")
  fix ch s p out rest r p' out'
  assume "(rest, r) = scan_step ch s p out" "(p', out') = r"
  then have "length rest < length (ch # s)" using scan_step_shrinks [of ch s p out rest p' out'] by simp
  then show "((rest, p', out'), ch # s, p, out) \<in> measure (\<lambda>(s, p, out). length s)" by simp
qed simp

definition scan :: "string \<Rightarrow> LexResult" where
  "scan txt = scan_loop txt start_cursor
     \<lparr>lr_tokens = [], lr_code_lines = {}, lr_unterminated_string = False, lr_unterminated_comment = False\<rparr>"

section \<open>Properties of the scanner\<close>

lemma scan_loop_lexed:
  "p = eats u start_cursor \<Longrightarrow>
   \<exists>ks. lr_tokens (scan_loop s p out) = lr_tokens out @ ks \<and> lexed u s ks \<and>
     lr_unterminated_string (scan_loop s p out) = (lr_unterminated_string out \<or> list_ex unclosed ks)"
proof (induction s p out arbitrary: u rule: scan_loop.induct)
  case (1 p out)
  then show ?case by (intro exI [of _ "[]"]) (simp add: lexed_end)
next
  case (2 ch s p out)
  obtain rest p' out' where r: "scan_step ch s p out = (rest, p', out')" by (metis prod_cases3)
  have loop: "scan_loop (ch # s) p out = scan_loop rest p' out'" by (simp add: r)
  note ih = 2(1) [OF r [symmetric] refl]
  from scan_step_sound [of ch s p out] show ?case
  proof
    assume "passes (ch # s) p out (scan_step ch s p out)"
    then obtain t where t: "ch # s = t @ rest" "p' = eats t p" "trivia t" "lr_tokens out' = lr_tokens out"
      "lr_unterminated_string out' = lr_unterminated_string out" by (auto simp: r passes_def)
    obtain ks where ks: "lr_tokens (scan_loop rest p' out') = lr_tokens out' @ ks" "lexed (u @ t) rest ks"
      "lr_unterminated_string (scan_loop rest p' out') = (lr_unterminated_string out' \<or> list_ex unclosed ks)"
      using ih [of "u @ t"] t(2) 2(2) by auto
    have "lexed u (ch # s) ks" unfolding t(1) using t(3) ks(2) by (rule lexed_trivia)
    then show ?thesis unfolding loop using ks t(4,5) by auto
  next
    assume "emits (ch # s) p out (scan_step ch s p out)"
    then obtain k where k: "ch # s = tok_value k @ rest" "p' = eats (tok_value k) p" "token_shape k" "token_cursor k = p"
      "lr_tokens out' = lr_tokens out @ [k]" "lr_unterminated_string out' = (lr_unterminated_string out \<or> unclosed k)"
      by (auto simp: r emits_def)
    obtain ks where ks: "lr_tokens (scan_loop rest p' out') = lr_tokens out' @ ks" "lexed (u @ tok_value k) rest ks"
      "lr_unterminated_string (scan_loop rest p' out') = (lr_unterminated_string out' \<or> list_ex unclosed ks)"
      using ih [of "u @ tok_value k"] k(2) 2(2) by auto
    have "lexed u (ch # s) (k # ks)" unfolding k(1) using k(3,4) 2(2) ks(2) by (simp add: lexed_token)
    then show ?thesis unfolding loop using ks k(5,6) by (intro exI [of _ "k # ks"]) auto
  qed
qed

text \<open>Where the cursor stands after a text has been read.\<close>

lemma eats_start:
  "cu_i (eats u start_cursor) = length u"
  "cu_line (eats u start_cursor) = Suc (count_list u nl)"
  "cu_col (eats u start_cursor) = Suc (length (takeWhile (\<lambda>c. c \<noteq> nl) (rev u)))"
  by (induction u rule: rev_induct) (auto simp: start_cursor_def eat_def advance_char_def)

lemma py_rfind_from_last:
  "py_rfind_from i r s c = (if c \<in> set s then int (i + length s) - 1 - int (length (takeWhile (\<lambda>d. d \<noteq> c) (rev s))) else r)"
proof (induction s arbitrary: i r)
  case (Cons d s)
  show ?case
  proof (cases "c \<in> set s")
    case True
    then have "takeWhile (\<lambda>d. d \<noteq> c) (rev (d # s)) = takeWhile (\<lambda>d. d \<noteq> c) (rev s)" by (auto simp: takeWhile_append)
    then show ?thesis using Cons True by (simp del: rev.simps)
  next
    case False
    then have "takeWhile (\<lambda>d. d \<noteq> c) (rev s) = rev s" by (auto simp: takeWhile_eq_all_conv)
    then show ?thesis using Cons False by (auto simp: takeWhile_append simp del: takeWhile_eq_all_conv)
  qed
qed simp

definition token_located :: "string \<Rightarrow> Token \<Rightarrow> bool" where
  "token_located txt k =
     (py_slice txt (tok_offset k) (tok_offset k + length (tok_value k)) = tok_value k \<and>
      tok_line k = py_count txt nl (tok_offset k) + 1 \<and>
      int (tok_column k) = int (tok_offset k) - py_rfind txt nl (tok_offset k))"

lemma located_cursor:
  assumes "token_cursor k = eats u start_cursor" "txt = u @ tok_value k @ s"
  shows "token_located txt k"
proof -
  have k: "tok_offset k = length u" "tok_line k = Suc (count_list u nl)"
    "tok_column k = Suc (length (takeWhile (\<lambda>c. c \<noteq> nl) (rev u)))"
    using eats_start [of u] assms(1) by (metis cursor.select_convs token_cursor_def)+
  have "length (takeWhile (\<lambda>c. c \<noteq> nl) (rev u)) = length u" if "nl \<notin> set u"
  proof -
    have "takeWhile (\<lambda>c. c \<noteq> nl) (rev u) = rev u" using that unfolding takeWhile_eq_all_conv by auto
    then show ?thesis by (metis length_rev)
  qed
  then show ?thesis
    by (auto simp: token_located_def k assms(2) py_slice_def py_count_def py_rfind_def py_rfind_from_last)
qed

lemma lexed_located: "lexed u s ks \<Longrightarrow> list_all (token_located (u @ s)) ks"
proof (induction rule: lexed.induct)
  case (lexed_token k u s ks)
  then show ?case using located_cursor [of k u "u @ tok_value k @ s" s] by simp
qed simp_all

lemma lexed_shape: "lexed u s ks \<Longrightarrow> list_all token_shape ks"
  by (induction rule: lexed.induct) simp_all

definition token_before :: "Token \<Rightarrow> Token \<Rightarrow> bool" where
  "token_before a b = (tok_offset a + length (tok_value a) \<le> tok_offset b)"

lemma lexed_offsets: "lexed u s ks \<Longrightarrow> list_all (\<lambda>k. length u \<le> tok_offset k) ks \<and> sorted_wrt token_before ks"
proof (induction rule: lexed.induct)
  case (lexed_token k u s ks)
  have o: "tok_offset k = length u" using eats_start(1) [of u] lexed_token(2) by (metis cursor.select_convs(3) token_cursor_def)
  have "sorted_wrt token_before ks" "\<forall>x \<in> set ks. length u + length (tok_value k) \<le> tok_offset x"
    using lexed_token.IH by (simp_all add: list_all_iff)
  then show ?case by (auto simp: list_all_iff token_before_def [of k] o)
qed (auto simp: list_all_iff)

lemma scan_lexed:
  "lexed [] txt (lr_tokens (scan txt)) \<and> lr_unterminated_string (scan txt) = list_ex unclosed (lr_tokens (scan txt))"
proof -
  let ?out = "\<lparr>lr_tokens = [], lr_code_lines = {}, lr_unterminated_string = False, lr_unterminated_comment = False\<rparr>"
  obtain ks where "lr_tokens (scan_loop txt start_cursor ?out) = lr_tokens ?out @ ks" "lexed [] txt ks"
    "lr_unterminated_string (scan_loop txt start_cursor ?out) = (lr_unterminated_string ?out \<or> list_ex unclosed ks)"
    using scan_loop_lexed [of start_cursor "[]" "txt" ?out] by auto
  then show ?thesis by (simp add: scan_def)
qed


text \<open>
  Tokens are located. The value of every token is the slice of the source at its offset, its
  line and column are those of that offset, and the tokens are in source order without overlap.
\<close>

theorem scan_tokens_located:
  "list_all (token_located txt) (lr_tokens (scan txt)) \<and> sorted_wrt token_before (lr_tokens (scan txt))"
  using scan_lexed [of "txt"] lexed_located [of "[]" "txt"] lexed_offsets [of "[]" "txt"] by simp

end
