(* ===== verification/Clp.thy ===== *)
theory Clp
  imports Lexer ControlFlow Canonical "HOL-Library.Product_Lexorder"
begin

text \<open>
  The segmenter of Db2 CLP scripts, \<open>atlas/dialects/db2/clp.py\<close>: the statement terminator is
  detected, the tokens of \<open>Lexer\<close> are searched for CREATE PROCEDURE, each procedure is
  followed to the END that closes its outer BEGIN, and what lies outside the units is reported.
  Python iterates over the set of candidate terminators in an order that depends on the hash
  seed of the process: \<open>order\<close> is that order. \<open>sha\<close> is SHA-256.
\<close>

record ClpSourceRange =
  rg_start_line :: nat
  rg_start_column :: int
  rg_start_offset :: nat
  rg_end_line :: nat
  rg_end_column :: int
  rg_end_offset :: nat

record Db2ClpSourceUnit =
  un_unit_index :: nat
  un_source_range :: ClpSourceRange
  un_source_text :: string
  un_source_digest :: string
  un_terminator :: string
  un_declared_name :: "string option"

datatype detection = DIRECTIVE | INFERRED | DEFAULT

record Db2ClpScript =
  cs_source_name :: string
  cs_source_digest :: string
  cs_detected_terminator :: string
  cs_terminator_detection :: detection
  cs_expected_source_unit_count :: nat
  cs_discovered_source_unit_count :: nat
  cs_source_units :: "Db2ClpSourceUnit list"
  cs_unclassified_fragment_count :: nat
  cs_unclassified_fragments :: "string list"

section \<open>The terminator\<close>

definition rx_directive :: rx where
  "rx_directive =
     rseqs [RBol, ws0, kw ''--'', ws0, kw ''#SET'', ws1, kw ''TERMINATOR'', ws1, RGroup 1 (rplus
     (RChr (\<lambda>c. \<not> (is_space c))))]"

definition rx_command_hint :: rx where
  "rx_command_hint =
     rseqs [RWordB, kw ''db2'', ws1, kw ''-td'', RGroup 1 (rplus (RChr (\<lambda>c. \<not>
     (is_space c))))]"

definition rx_ending :: rx where
  "rx_ending =
     rseqs [RBol, ws0, kw ''END'', ROpt (rseqs [ws1, icls [AZ, az] ''_#$@'', RStar (icls [AZ,
     az, D09] ''_#$@'')]), ws0, RGroup 1 (ralts [RChr (\<lambda>c. \<not> (is_word c \<or>
     is_space c \<or> c \<in> set '';'')), kw ''@'']), ws0, ROpt (rseqs [kw ''--'', RStar dot]),
     REol]"

text \<open>\<open>max(set(endings), key=endings.count)\<close> over the iteration order of the set.\<close>

definition most_common :: "(string list \<Rightarrow> string list) \<Rightarrow> string list \<Rightarrow> string" where
  "most_common order endings =
     first_max (count_list endings) (hd (order endings)) (tl (order endings))"

definition detect_terminator :: "(string list \<Rightarrow> string list) \<Rightarrow> string \<Rightarrow> string \<times> detection" where
  "detect_terminator order source =
     (case re_search rx_directive source of
        Some m \<Rightarrow> (m_str m 1, DIRECTIVE)
      | None \<Rightarrow>
          (let hint = (case re_search rx_command_hint source of
                         Some m \<Rightarrow> py_strip_of (in_chars [dquote, squote]) (m_str m 1) | None \<Rightarrow> []);
               endings = map (\<lambda>m. m_str m 1) (re_finditer rx_ending source)
           in if hint \<noteq> [] then (hint, INFERRED)
              else if endings \<noteq> [] then (most_common order endings, INFERRED)
              else ('';'', DEFAULT)))"

section \<open>The extent of a procedure\<close>

definition procedure_starts :: "Token list \<Rightarrow> nat list" where
  "procedure_starts tokens =
     filter (\<lambda>i. map tok_upper (take 4 (drop i tokens)) = [''CREATE'', ''OR'', ''REPLACE'', ''PROCEDURE''] \<or>
                 map tok_upper (take 2 (drop i tokens)) = [''CREATE'', ''PROCEDURE'']) [0..<length tokens]"

definition block_kinds :: "string list" where
  "block_kinds = [''BEGIN'', ''IF'', ''CASE'', ''LOOP'', ''WHILE'', ''REPEAT'', ''FOR'']"

definition closer_kinds :: "string list" where
  "closer_kinds = [''IF'', ''CASE'', ''LOOP'', ''WHILE'', ''REPEAT'', ''FOR'']"

definition block_keyword :: "string \<Rightarrow> Token \<Rightarrow> string" where
  "block_keyword terminator token =
     (let value = tok_upper token; candidate = take (length value - length terminator) value in
      if terminator \<noteq> [] \<and> py_endswith value (py_upper terminator) \<and>
         (candidate = ''END'' \<or> candidate \<in> set block_kinds)
      then candidate else value)"

definition is_case_statement_start :: "Token \<Rightarrow> bool" where
  "is_case_statement_start previous =
     (tok_value previous \<in> {'';'', '':''} \<or> tok_upper previous \<in> {''BEGIN'', ''THEN'', ''ELSE'', ''DO''})"

definition is_for_loop_start :: "Token list \<Rightarrow> bool" where
  "is_for_loop_start rest = (let lookahead = map tok_upper (take 9 rest)
     in ''AS'' \<in> set lookahead \<and> ''CURSOR'' \<in> set lookahead)"

text \<open>The stack of open blocks, innermost first; \<open>del stack[reverse:]\<close> on that order.\<close>

definition close_block :: "string \<Rightarrow> string list \<Rightarrow> string list" where
  "close_block expected stack =
     (if expected \<in> set stack then tl (dropWhile (\<lambda>b. b \<noteq> expected) stack) else stack)"

text \<open>What an END at \<open>index\<close> does: \<open>Inl\<close> the procedure ends, \<open>Inr\<close> the stack to go on with.\<close>

definition close_end :: "string \<Rightarrow> nat \<Rightarrow> Token list \<Rightarrow> string list \<Rightarrow> nat + string list" where
  "close_end terminator index rest stack =
     (let following = (case rest of [] \<Rightarrow> [] | t # _ \<Rightarrow> block_keyword terminator t);
          named = following \<in> set closer_kinds
      in if \<not> named \<and> stack \<noteq> [] \<and> hd stack = ''EXPRESSION_CASE'' then Inr (tl stack)
         else
           (let stack' = close_block (if named then following else ''BEGIN'') stack
            in if stack' = [] then
                 Inl (if named then index + 1
                      else if rest \<noteq> [] \<and> tok_kind (hd rest) \<in> {WORD, QUOTED_IDENTIFIER} then index + 1
                      else index)
               else Inr stack'))"

definition open_block :: "string \<Rightarrow> Token \<Rightarrow> Token list \<Rightarrow> string list \<Rightarrow> string list" where
  "open_block keyword previous rest stack =
     (if keyword = ''CASE'' \<and> (''EXPRESSION_CASE'' \<in> set stack \<or> \<not> is_case_statement_start previous)
      then ''EXPRESSION_CASE'' # stack
      else if keyword \<noteq> ''FOR'' \<or> is_for_loop_start rest then keyword # stack
      else stack)"

fun end_loop :: "string \<Rightarrow> Token \<Rightarrow> nat \<Rightarrow> Token list \<Rightarrow> string list \<Rightarrow> nat \<Rightarrow> nat option" where
  "end_loop terminator previous index [] stack depth = None"
| "end_loop terminator previous index (token # rest) stack depth =
     (let keyword = block_keyword terminator token in
      if tok_value token = ''('' then end_loop terminator token (index + 1) rest stack (depth + 1)
      else if tok_value token = '')'' then end_loop terminator token (index + 1) rest stack (depth - 1)
      else if depth \<noteq> 0 then end_loop terminator token (index + 1) rest stack depth
      else if keyword = ''END'' then
        (case close_end terminator index rest stack of
           Inl r \<Rightarrow> Some r
         | Inr stack' \<Rightarrow> end_loop terminator token (index + 1) rest stack' depth)
      else if keyword \<in> set block_kinds \<and> block_keyword terminator previous \<noteq> ''END'' then
        end_loop terminator token (index + 1) rest (open_block keyword previous rest stack) depth
      else end_loop terminator token (index + 1) rest stack depth)"

definition procedure_end :: "Token list \<Rightarrow> nat \<Rightarrow> string \<Rightarrow> nat option" where
  "procedure_end tokens start_index terminator =
     (case List.find (\<lambda>i. tok_upper (tokens ! i) = ''BEGIN'') [start_index..<length tokens] of
        None \<Rightarrow> None
      | Some begin_index \<Rightarrow>
          end_loop terminator (tokens ! begin_index) (begin_index + 1) (drop (begin_index + 1) tokens) [''BEGIN''] 0)"

definition include_terminator :: "string \<Rightarrow> nat \<Rightarrow> string \<Rightarrow> nat" where
  "include_terminator source end_offset terminator =
     (let cursor = end_offset + length (takeWhile is_space (drop end_offset source)) in
      if terminator \<noteq> [] \<and> py_startswith (drop cursor source) terminator then cursor + length terminator
      else if cursor < length source \<and> source ! cursor = CHR '';'' then cursor + 1
      else end_offset)"

definition declared_name :: "Token list \<Rightarrow> nat \<Rightarrow> string option" where
  "declared_name tokens start_index =
     (case List.find (\<lambda>i. tok_upper (tokens ! i) = ''PROCEDURE'') [start_index..<min (start_index + 5) (length tokens)] of
        None \<Rightarrow> None
      | Some proc_index \<Rightarrow>
          (let name_tokens = takeWhile (\<lambda>t. tok_value t \<noteq> ''('') (drop (proc_index + 1) tokens);
               parts = map (\<lambda>t. py_strip_of (in_chars [dquote]) (tok_value t))
                         (filter (\<lambda>t. tok_value t = ''.'' \<or> tok_kind t \<in> {WORD, QUOTED_IDENTIFIER}) name_tokens);
               value = py_upper (py_strip (concat parts))
           in if value = [] then None else Some value))"

definition range_from_offsets :: "string \<Rightarrow> nat \<Rightarrow> nat \<Rightarrow> ClpSourceRange" where
  "range_from_offsets source start_o end_o =
     (let body = py_slice source start_o end_o;
          start_line = py_count source nl start_o + 1;
          start_column = int start_o - py_rfind source nl start_o
      in \<lparr>rg_start_line = start_line, rg_start_column = start_column, rg_start_offset = start_o,
          rg_end_line = start_line + count_list body nl,
          rg_end_column = (if nl \<in> set body then int (length body) - py_rfind body nl (length body)
                           else start_column + int (length body)),
          rg_end_offset = end_o\<rparr>)"

section \<open>What lies outside the units\<close>

definition rx_block_comment :: rx where
  "rx_block_comment =
     rseqs [lit ''/*'', RLazy any, lit ''*/'']"

definition rx_line_comment :: rx where
  "rx_line_comment =
     rseqs [lit ''--'', RStar dot, REol]"

fun residuals_from :: "string \<Rightarrow> nat \<Rightarrow> (nat \<times> nat) list \<Rightarrow> string list" where
  "residuals_from source cursor [] = [drop cursor source]"
| "residuals_from source cursor ((start_o, end_o) # rest) =
     py_slice source cursor start_o # residuals_from source end_o rest"

definition residuals :: "string \<Rightarrow> (nat \<times> nat) list \<Rightarrow> string list" where
  "residuals source covered = (if covered = [] then [source] else residuals_from source 0 (sort covered))"

definition residual_text :: "string \<Rightarrow> string \<Rightarrow> string" where
  "residual_text terminator residual =
     (let stripped = re_sub rx_line_comment '' '' (re_sub rx_block_comment '' '' residual);
          stripped = (if terminator \<noteq> [] then py_replace stripped terminator '' '' else stripped)
      in py_strip (py_replace stripped '';'' '' ''))"

definition unclassified_fragments :: "string \<Rightarrow> (nat \<times> nat) list \<Rightarrow> string \<Rightarrow> string list" where
  "unclassified_fragments source covered terminator =
     map (\<lambda>stripped. take 500 (py_join '' '' (py_split stripped)))
       (filter (\<lambda>stripped. stripped \<noteq> []) (map (residual_text terminator) (residuals source covered)))"

section \<open>The segmenter\<close>

definition unit_span :: "string \<Rightarrow> Token list \<Rightarrow> string \<Rightarrow> nat \<Rightarrow> (nat \<times> nat) option" where
  "unit_span source tokens terminator start_index =
     (case procedure_end tokens start_index terminator of
        None \<Rightarrow> None
      | Some end_index \<Rightarrow>
          Some (tok_offset (tokens ! start_index),
                include_terminator source (tok_offset (tokens ! end_index) + length (tok_value (tokens ! end_index))) terminator))"

definition mk_unit ::
  "(string \<Rightarrow> string) \<Rightarrow> string \<Rightarrow> Token list \<Rightarrow> string \<Rightarrow> nat \<Rightarrow> nat \<Rightarrow> nat \<times> nat \<Rightarrow> Db2ClpSourceUnit" where
  "mk_unit sha source tokens terminator ordinal start_index span =
     (let unit_text = py_slice source (fst span) (snd span) in
      \<lparr>un_unit_index = ordinal, un_source_range = range_from_offsets source (fst span) (snd span),
       un_source_text = unit_text, un_source_digest = sha256_text sha unit_text, un_terminator = terminator,
       un_declared_name = declared_name tokens start_index\<rparr>)"

definition script_units ::
  "(string \<Rightarrow> string) \<Rightarrow> string \<Rightarrow> Token list \<Rightarrow> string \<Rightarrow> nat list \<Rightarrow> (Db2ClpSourceUnit \<times> nat \<times> nat) list" where
  "script_units sha source tokens terminator starts =
     List.map_filter (\<lambda>(ordinal, start_index).
       map_option (\<lambda>span. (mk_unit sha source tokens terminator ordinal start_index span, span))
         (unit_span source tokens terminator start_index))
       (zip [1..<Suc (length starts)] starts)"

definition segment_text ::
  "(string \<Rightarrow> string) \<Rightarrow> (string list \<Rightarrow> string list) \<Rightarrow> string \<Rightarrow> string \<Rightarrow> Db2ClpScript" where
  "segment_text sha order source source_name =
     (let (terminator, detection) = detect_terminator order source;
          tokens = lr_tokens (scan source);
          starts = procedure_starts tokens;
          found = script_units sha source tokens terminator starts;
          fragments = unclassified_fragments source (map snd found) terminator
      in \<lparr>cs_source_name = source_name, cs_source_digest = sha256_text sha source,
          cs_detected_terminator = terminator, cs_terminator_detection = detection,
          cs_expected_source_unit_count = length starts, cs_discovered_source_unit_count = length found,
          cs_source_units = map fst found, cs_unclassified_fragment_count = length fragments,
          cs_unclassified_fragments = fragments\<rparr>)"

section \<open>Where a procedure ends\<close>

text \<open>The END found by the loop is a token of the list, and the unit ends there or one token later.\<close>

lemma close_end_Inl:
  "close_end terminator index rest stack = Inl r \<Longrightarrow> r = index \<or> r = index + 1 \<and> rest \<noteq> []"
  by (cases rest) (auto simp: close_end_def Let_def closer_kinds_def split: if_splits)

lemma end_loop_step:
  "end_loop terminator previous index (token # rest) stack depth = Some r \<Longrightarrow>
   block_keyword terminator token = ''END'' \<and> close_end terminator index rest stack = Inl r \<or>
   (\<exists>st d. end_loop terminator token (index + 1) rest st d = Some r)"
  by (simp only: end_loop.simps Let_def option.inject split: if_split_asm sum.split_asm) blast+

lemma end_loop_Some:
  "end_loop terminator previous index toks stack depth = Some r \<Longrightarrow>
   \<exists>j < length toks. block_keyword terminator (toks ! j) = ''END'' \<and>
     (r = index + j \<or> r = index + j + 1 \<and> j + 1 < length toks)"
proof (induction toks arbitrary: previous index stack depth)
  case (Cons token rest)
  let ?goal = "\<exists>j < length (token # rest). block_keyword terminator ((token # rest) ! j) = ''END'' \<and>
     (r = index + j \<or> r = index + j + 1 \<and> j + 1 < length (token # rest))"
  consider (here) i where "block_keyword terminator token = ''END''" "close_end terminator index rest stack = Inl i" "r = i"
    | (later) st d where "end_loop terminator token (index + 1) rest st d = Some r"
    using end_loop_step [OF Cons.prems] by blast
  then show ?case
  proof cases
    case here
    then show ?thesis using close_end_Inl [OF here(2)] by (intro exI [of _ 0]) auto
  next
    case later
    from Cons.IH [OF this] obtain j where "j < length rest" "block_keyword terminator (rest ! j) = ''END''"
      "r = index + 1 + j \<or> r = index + 1 + j + 1 \<and> j + 1 < length rest" by blast
    then show ?thesis by (intro exI [of _ "Suc j"]) auto
  qed
qed simp

lemma procedure_end_Some:
  assumes "procedure_end tokens start_index terminator = Some r"
  shows "\<exists>b i. start_index \<le> b \<and> b < i \<and> i \<le> r \<and> r \<le> i + 1 \<and> r < length tokens \<and>
    tok_upper (tokens ! b) = ''BEGIN'' \<and> block_keyword terminator (tokens ! i) = ''END''"
proof -
  obtain b where b: "List.find (\<lambda>i. tok_upper (tokens ! i) = ''BEGIN'') [start_index..<length tokens] = Some b"
    and e: "end_loop terminator (tokens ! b) (b + 1) (drop (b + 1) tokens) [''BEGIN''] 0 = Some r"
    using assms by (auto simp: procedure_end_def split: option.splits)
  have b': "start_index \<le> b" "b < length tokens" "tok_upper (tokens ! b) = ''BEGIN''"
    using find_Some_mem [OF b] by auto
  obtain j where j: "j < length (drop (b + 1) tokens)" "block_keyword terminator (drop (b + 1) tokens ! j) = ''END''"
    "r = b + 1 + j \<or> r = b + 1 + j + 1 \<and> j + 1 < length (drop (b + 1) tokens)"
    using end_loop_Some [OF e] by blast
  then show ?thesis using b' by (intro exI [of _ b] exI [of _ "b + 1 + j"]) auto
qed

text \<open>
  A procedure is closed by an END. When the segmenter finds the end of the procedure that
  starts at a token, the end is a token of the script that lies after a BEGIN at or after the
  start, and it is an END (possibly written with the script terminator attached) or the closer
  keyword or label that immediately follows one.
\<close>

theorem procedure_end_closes:
  assumes "procedure_end tokens start_index terminator = Some r"
  shows "\<exists>b i. start_index \<le> b \<and> b < i \<and> i \<le> r \<and> r \<le> i + 1 \<and> r < length tokens \<and>
    tok_upper (tokens ! b) = ''BEGIN'' \<and> block_keyword terminator (tokens ! i) = ''END''"
  using assms by (rule procedure_end_Some)

section \<open>Units are located slices of the script\<close>

lemma include_terminator_bounds:
  assumes "end_offset \<le> length source"
  shows "end_offset \<le> include_terminator source end_offset terminator"
    and "include_terminator source end_offset terminator \<le> length source"
proof -
  let ?w = "takeWhile is_space (drop end_offset source)"
  have w: "end_offset + length ?w \<le> length source"
    using assms length_takeWhile_le [of is_space "drop end_offset source"] by simp
  show "end_offset \<le> include_terminator source end_offset terminator"
    by (simp add: include_terminator_def Let_def)
  show "include_terminator source end_offset terminator \<le> length source"
    using w assms py_startswith_length [of "drop (end_offset + length ?w) source" terminator]
    by (auto simp: include_terminator_def Let_def)
qed

lemma count_list_append': "count_list (xs @ ys) a = count_list xs a + count_list ys a"
  by (induction xs) auto

lemma py_rfind_append:
  assumes "n = length u + length v"
  shows "py_rfind (u @ v @ w) c n =
    (if c \<in> set v then int (length u) + py_rfind v c (length v) else py_rfind (u @ v @ w) c (length u))"
proof -
  have "takeWhile (\<lambda>d. d \<noteq> c) (rev v) = rev v" if "c \<notin> set v" using that unfolding takeWhile_eq_all_conv by auto
  then have t: "length (takeWhile (\<lambda>d. d \<noteq> c) (rev v)) = length v" if "c \<notin> set v" using that by (metis length_rev)
  have k: "takeWhile (\<lambda>d. d \<noteq> c) (rev v @ rev u) =
      (if c \<in> set v then takeWhile (\<lambda>d. d \<noteq> c) (rev v) else rev v @ takeWhile (\<lambda>d. d \<noteq> c) (rev u))"
    by (auto simp: takeWhile_append)
  show ?thesis using assms t
    by (auto simp: py_rfind_def py_rfind_from_last k)
qed

definition range_ok :: "string \<Rightarrow> ClpSourceRange \<Rightarrow> bool" where
  "range_ok source r =
     (rg_start_offset r < rg_end_offset r \<and> rg_end_offset r \<le> length source \<and>
      rg_start_line r = py_count source nl (rg_start_offset r) + 1 \<and>
      rg_start_column r = int (rg_start_offset r) - py_rfind source nl (rg_start_offset r) \<and> 1 \<le> rg_start_column r \<and>
      rg_end_line r = py_count source nl (rg_end_offset r) + 1 \<and>
      rg_end_column r = int (rg_end_offset r) - py_rfind source nl (rg_end_offset r) \<and> 1 \<le> rg_end_column r)"

lemma range_from_offsets_ok:
  assumes "i < j" "j \<le> length source"
  shows "range_ok source (range_from_offsets source i j)"
proof -
  obtain u v w where s: "source = u @ v @ w" "length u = i" "length v = j - i"
  proof (rule that [of "take i source" "take (j - i) (drop i source)" "drop j source"])
    have "drop j source = drop (j - i) (drop i source)" using assms by simp
    then show "source = take i source @ take (j - i) (drop i source) @ drop j source" by (metis append_take_drop_id)
  qed (use assms in auto)
  have body: "py_slice source i j = v" using s by (simp add: py_slice_def)
  have cnt: "py_count source nl j = py_count source nl i + count_list v nl"
    using s assms by (simp add: py_count_def count_list_append')
  have rf: "py_rfind source nl j = (if nl \<in> set v then int i + py_rfind v nl (length v) else py_rfind source nl i)"
    using py_rfind_append [of j u v w nl] s assms by simp
  show ?thesis
    using assms s(2,3) py_rfind_less [of source nl i] py_rfind_less [of source nl j]
    by (auto simp: range_ok_def range_from_offsets_def Let_def body cnt rf)
qed

lemma located_bounds: "token_located source k \<Longrightarrow> tok_value k \<noteq> [] \<Longrightarrow> tok_offset k + length (tok_value k) \<le> length source"
  unfolding token_located_def py_slice_def
  by (metis add.commute add_diff_cancel_left' drop_eq_Nil2 le_add_diff_inverse length_drop length_take
      linorder_le_cases min.absorb1 min_def nat_add_left_cancel_le take_Nil)

text \<open>The facts about the tokens of a script the segmenter relies on.\<close>

lemma script_tokens:
  assumes "tokens = lr_tokens (scan source)" "i < length tokens"
  shows "token_shape (tokens ! i)" "token_located source (tokens ! i)"
    "tok_offset (tokens ! i) + length (tok_value (tokens ! i)) \<le> length source"
    "j < i \<Longrightarrow> tok_offset (tokens ! j) + length (tok_value (tokens ! j)) \<le> tok_offset (tokens ! i)"
proof -
  have l: "lexed [] source tokens" using scan_lexed assms(1) by simp
  show sh: "token_shape (tokens ! i)" using lexed_shape [OF l] assms(2) by (simp add: list_all_length)
  show lo: "token_located source (tokens ! i)" using lexed_located [OF l] assms(2) by (simp add: list_all_length)
  show "tok_offset (tokens ! i) + length (tok_value (tokens ! i)) \<le> length source"
    by (rule located_bounds [OF lo token_nonempty [OF sh]])
  show "tok_offset (tokens ! j) + length (tok_value (tokens ! j)) \<le> tok_offset (tokens ! i)" if "j < i"
    using lexed_offsets [OF l] assms(2) that by (auto simp: token_before_def sorted_wrt_iff_nth_less)
qed

lemma unit_span_bounds:
  assumes "tokens = lr_tokens (scan source)" "unit_span source tokens terminator k = Some (i, j)"
  shows "i < j" "j \<le> length source" "i = tok_offset (tokens ! k)" "k < length tokens"
    "i + length (tok_value (tokens ! k)) \<le> j"
proof -
  obtain e where e: "procedure_end tokens k terminator = Some e"
    and ij: "i = tok_offset (tokens ! k)"
      "j = include_terminator source (tok_offset (tokens ! e) + length (tok_value (tokens ! e))) terminator"
    using assms(2) by (auto simp: unit_span_def split: option.splits)
  have ke: "k < e" "e < length tokens" using procedure_end_Some [OF e] by auto
  then show "i = tok_offset (tokens ! k)" "k < length tokens" using ij by simp_all
  note b = include_terminator_bounds [OF script_tokens(3) [OF assms(1) ke(2)], of terminator]
  have "tok_offset (tokens ! k) + length (tok_value (tokens ! k)) \<le> tok_offset (tokens ! e)"
    using script_tokens(4) [OF assms(1) ke(2,1)] .
  then show le: "i + length (tok_value (tokens ! k)) \<le> j" using b(1) ij by simp
  show "j \<le> length source" using b(2) ij by simp
  show "i < j" using le token_nonempty [OF script_tokens(1) [OF assms(1)], of k] ke by (cases "tok_value (tokens ! k)") auto
qed

lemma starts_at_create: "k \<in> set (procedure_starts tokens) \<Longrightarrow> k < length tokens \<and> tok_upper (tokens ! k) = ''CREATE''"
  by (auto simp: procedure_starts_def) (metis append_Nil2 hd_drop_conv_nth hd_map list.map_disc_iff list.sel(1) list.distinct(1) take_eq_Nil hd_take zero_less_numeral)+

lemma create_value:
  assumes "token_shape k" "tok_upper k = ''CREATE''"
  shows "py_upper (tok_value k) = ''CREATE''"
  using assms
  by (auto simp: token_shape_def two_char_symbols_def py_upper_def take_1_eq upper_char_def is_lower_def code_of_def
      split: TokenKind.splits)

definition unit_ok :: "(string \<Rightarrow> string) \<Rightarrow> string \<Rightarrow> Db2ClpSourceUnit \<Rightarrow> bool" where
  "unit_ok sha source u =
     (let r = un_source_range u in
      range_ok source r \<and> un_source_text u = py_slice source (rg_start_offset r) (rg_end_offset r) \<and>
      py_upper (take 6 (un_source_text u)) = ''CREATE'' \<and> un_source_digest u = sha256_text sha (un_source_text u))"

lemma mk_unit_ok:
  assumes "tokens = lr_tokens (scan source)" "k \<in> set (procedure_starts tokens)"
    and "unit_span source tokens terminator k = Some span"
  shows "unit_ok sha source (mk_unit sha source tokens terminator n k span)"
proof -
  obtain i j where ij: "span = (i, j)" by fastforce
  note b = unit_span_bounds [OF assms(1) assms(3) [unfolded ij]]
  let ?v = "tok_value (tokens ! k)"
  have up: "py_upper ?v = ''CREATE''"
    using create_value [OF script_tokens(1) [OF assms(1)]] starts_at_create [OF assms(2)] by blast
  then have len: "length ?v = 6" using length_py_upper [of ?v] by simp
  have "py_slice source i (i + length ?v) = ?v"
    using script_tokens(2) [OF assms(1) b(4)] b(3) by (simp add: token_located_def)
  then have "take 6 (py_slice source i j) = ?v" using b(5) len by (auto simp: py_slice_def min_def)
  then show ?thesis using range_from_offsets_ok [OF b(1,2)] up
    by (simp add: unit_ok_def mk_unit_def ij Let_def) (simp add: range_from_offsets_def Let_def)
qed

lemma script_units_mem:
  "x \<in> set (script_units sha source tokens terminator starts) \<Longrightarrow>
   \<exists>n k span. k \<in> set starts \<and> unit_span source tokens terminator k = Some span \<and>
     x = (mk_unit sha source tokens terminator n k span, span)"
  unfolding script_units_def map_filter_def by (auto simp del: upt_Suc) (metis set_zip_rightD)

text \<open>
  Every source unit is evidence of the script. Each unit's text is the slice of the source
  between its offsets, which lie in the source and start at a CREATE token; its start and end
  line and column are those of the offsets, and at least 1 as the model of the range demands;
  its digest is the digest of that text.
\<close>

theorem segment_units_located:
  "list_all (unit_ok sha source) (cs_source_units (segment_text sha order source name))"
proof -
  obtain t d where t: "detect_terminator order source = (t, d)" by fastforce
  let ?tokens = "lr_tokens (scan source)"
  have "unit_ok sha source (fst x)"
    if "x \<in> set (script_units sha source ?tokens t (procedure_starts ?tokens))" for x
    using script_units_mem [OF that] mk_unit_ok [OF refl] by auto
  then show ?thesis by (simp add: segment_text_def t Let_def list_all_iff)
qed

section \<open>Nothing of the script is lost\<close>

fun weave :: "string list \<Rightarrow> string list \<Rightarrow> string" where
  "weave (r # rs) (u # us) = r @ u @ weave rs us"
| "weave rs us = concat rs @ concat us"

fun in_order :: "nat \<Rightarrow> nat \<Rightarrow> (nat \<times> nat) list \<Rightarrow> bool" where
  "in_order n cursor [] = (cursor \<le> n)"
| "in_order n cursor ((i, j) # rest) = (cursor \<le> i \<and> i \<le> j \<and> in_order n j rest)"

lemma in_order_bound: "in_order n cursor spans \<Longrightarrow> cursor \<le> n"
  by (induction n cursor spans rule: in_order.induct) auto

lemma residuals_from_weave:
  "in_order (length source) cursor spans \<Longrightarrow>
   weave (residuals_from source cursor spans) (map (\<lambda>(i, j). py_slice source i j) spans) = drop cursor source"
proof (induction spans arbitrary: cursor)
  case (Cons span rest)
  obtain i j where ij: "span = (i, j)" by fastforce
  then have h: "cursor \<le> i" "i \<le> j" "j \<le> length source" "in_order (length source) j rest"
    using Cons.prems in_order_bound [of "length source" j rest] by auto
  have s: "drop cursor source = take (i - cursor) (drop cursor source) @ take (j - i) (drop i source) @ drop j source"
    using h by (metis append_take_drop_id drop_drop le_add_diff_inverse2)
  then show ?case using Cons.IH [OF h(4)] ij by (simp add: py_slice_def)
qed simp

text \<open>
  C30: nothing of the script is lost. When the units, in source order, do not overlap, the script
  is the concatenation of its residuals (the texts examined for unclassified fragments) and the
  unit texts, in alternation.
\<close>

theorem residuals_and_units_tile:
  assumes "spans \<noteq> []" "sort spans = spans" "in_order (length source) 0 spans"
  shows "weave (residuals source spans) (map (\<lambda>(i, j). py_slice source i j) spans) = source"
  using residuals_from_weave [OF assms(3)] assms(1,2) by (simp add: residuals_def)

theorem residuals_and_units_tile_witness:
  "weave (residuals ''ab;cd;e'' [(0, 3), (3, 6)]) [''ab;'', ''cd;''] = ''ab;cd;e''"
proof -
  have h: "[(0, 3), (3, 6)] \<noteq> ([] :: (nat \<times> nat) list)" "sort [(0, 3), (3, 6)] = [(0::nat, 3::nat), (3, 6)]"
    "in_order (length ''ab;cd;e'') 0 [(0, 3), (3, 6)]"
    by code_simp+
  show ?thesis using residuals_and_units_tile [OF h] by (simp add: py_slice_def)
qed

section \<open>Discovery\<close>

lemma length_map_filter: "length (List.map_filter f xs) = length (filter (\<lambda>x. f x \<noteq> None) xs)"
  by (induction xs) (auto simp: map_filter_def split: option.splits)

lemma segment_discovery:
  "let script = segment_text sha order source name; tokens = lr_tokens (scan source);
       terminator = cs_detected_terminator script; starts = procedure_starts tokens
   in cs_expected_source_unit_count script = length starts \<and>
      cs_discovered_source_unit_count script =
        length (filter (\<lambda>k. procedure_end tokens k terminator \<noteq> None) starts) \<and>
      length (cs_source_units script) = cs_discovered_source_unit_count script \<and>
      (cs_expected_source_unit_count script = cs_discovered_source_unit_count script \<longleftrightarrow>
         list_all (\<lambda>k. procedure_end tokens k terminator \<noteq> None) starts)"
proof -
  obtain t d where t: "detect_terminator order source = (t, d)" by fastforce
  let ?tokens = "lr_tokens (scan source)" and ?starts = "procedure_starts (lr_tokens (scan source))"
  let ?P = "\<lambda>k. procedure_end ?tokens k t \<noteq> None"
  have f: "filter (\<lambda>x. (case x of (n, k) \<Rightarrow> map_option (\<lambda>span. (mk_unit sha source ?tokens t n k span, span))
      (unit_span source ?tokens t k)) \<noteq> None) xs = filter (\<lambda>x. ?P (snd x)) xs" for xs
    by (auto simp: unit_span_def intro!: filter_cong split: option.splits)
  have "length (script_units sha source ?tokens t ?starts) = length (filter (\<lambda>x. ?P (snd x)) (zip [1..<Suc (length ?starts)] ?starts))"
    unfolding script_units_def length_map_filter f ..
  also have "\<dots> = length (filter ?P (map snd (zip [1..<Suc (length ?starts)] ?starts)))"
    by (simp add: filter_map comp_def)
  also have "map snd (zip [1..<Suc (length ?starts)] ?starts) = ?starts" by (simp del: upt_Suc)
  finally have n: "length (script_units sha source ?tokens t ?starts) = length (filter ?P ?starts)" .
  have "length (filter P xs) = length xs \<longleftrightarrow> list_all P xs" for P and xs :: "nat list"
    by (metis filter_True length_filter_less list_all_iff nat_neq_iff)
  then have "length ?starts = length (filter ?P ?starts) \<longleftrightarrow> list_all ?P ?starts" by metis
  then show ?thesis by (simp add: segment_text_def t Let_def n)
qed

text \<open>
  The discovery counts are exact. The expected count is the number of tokens at which CREATE
  PROCEDURE or CREATE OR REPLACE PROCEDURE starts, the discovered count the number of those whose
  end is found, so the two differ exactly when some procedure has no end; the script has as many
  units as discovered.
\<close>

theorem segment_counts:
  "let script = segment_text sha order source name; tokens = lr_tokens (scan source);
       terminator = cs_detected_terminator script; starts = procedure_starts tokens
   in cs_expected_source_unit_count script = length starts \<and>
      cs_discovered_source_unit_count script =
        length (filter (\<lambda>k. procedure_end tokens k terminator \<noteq> None) starts) \<and>
      length (cs_source_units script) = cs_discovered_source_unit_count script \<and>
      (cs_expected_source_unit_count script = cs_discovered_source_unit_count script \<longleftrightarrow>
         list_all (\<lambda>k. procedure_end tokens k terminator \<noteq> None) starts)"
  by (rule segment_discovery)

text \<open>
  The inferred terminator is a most frequent ending. Whatever the iteration order of the set
  of candidates, the terminator chosen is one of the endings found and none of them is more
  frequent.
\<close>

theorem inferred_terminator_most_common:
  assumes "set (order endings) = set endings" "endings \<noteq> []"
  shows "most_common order endings \<in> set endings \<and>
    (\<forall>t. count_list endings t \<le> count_list endings (most_common order endings))"
proof -
  obtain b xs where o: "order endings = b # xs" using assms by (cases "order endings") auto
  have mem: "most_common order endings \<in> set endings"
    using first_max_ge [of "count_list endings" b xs] o assms(1) by (auto simp: most_common_def)
  have "count_list endings t \<le> count_list endings (most_common order endings)" for t
  proof (cases "t \<in> set endings")
    case True
    then show ?thesis using first_max_ge [of "count_list endings" b xs] o assms(1) by (auto simp: most_common_def)
  qed simp
  then show ?thesis using mem by blast
qed

theorem inferred_terminator_most_common_witness:
  "most_common remdups [''@'', ''!'', ''@''] \<in> set [''@'', ''!'', ''@''] \<and>
   count_list [''@'', ''!'', ''@''] ''!'' \<le> count_list [''@'', ''!'', ''@''] (most_common remdups [''@'', ''!'', ''@''])"
proof -
  have "set (remdups [''@'', ''!'', ''@'']) = set [''@'', ''!'', ''@'']" "[''@'', ''!'', ''@''] \<noteq> []" by auto
  from inferred_terminator_most_common [of remdups, OF this] show ?thesis by blast
qed

section \<open>Edge cases of the segmenter\<close>

text \<open>On a tie the terminator is the first candidate in the iteration order of the set.\<close>

lemma terminator_tie_depends_on_order:
  "most_common id [''@'', ''!''] = ''@'' \<and> most_common rev [''@'', ''!''] = ''!''"
  by code_simp

text \<open>
  A procedure without a body has no BEGIN of its own, so its unit extends to the END of the next
  procedure: the first unit contains the second.
\<close>

lemma bodyless_procedure_swallows_next:
  "map (\<lambda>k. procedure_end (lr_tokens (scan ''CREATE PROCEDURE A(); CREATE PROCEDURE B() BEGIN END;'')) k '';'')
     (procedure_starts (lr_tokens (scan ''CREATE PROCEDURE A(); CREATE PROCEDURE B() BEGIN END;''))) = [Some 12, Some 12]"
  by code_simp

text \<open>Without a parameter list the name runs on to the next opening parenthesis.\<close>

lemma unparenthesised_name_runs_on:
  "declared_name (lr_tokens (scan ''CREATE PROCEDURE P BEGIN END'')) 0 = Some ''PBEGINEND''"
  by code_simp

theorem procedure_end_closes_witness:
  "\<exists>b i. 0 \<le> b \<and> b < i \<and> i \<le> 4 \<and>
     tok_upper (lr_tokens (scan ''CREATE PROCEDURE P BEGIN END'') ! b) = ''BEGIN'' \<and>
     block_keyword '';'' (lr_tokens (scan ''CREATE PROCEDURE P BEGIN END'') ! i) = ''END''"
proof -
  have "procedure_end (lr_tokens (scan ''CREATE PROCEDURE P BEGIN END'')) 0 '';'' = Some 4" by code_simp
  from procedure_end_closes [OF this] show ?thesis by blast
qed

end
