(* ===== verification/Segmentation.thy ===== *)
theory Segmentation
  imports Clp Vendors
begin

text \<open>
  The source segmenter, \<open>atlas/application/segmentation.py\<close>: a Db2 script is cut by the CLP
  segmenter, a source of another dialect at the matches of its profile's header patterns. The
  lemmas show that the candidates of the pattern lane are in source order and cover the source
  from the first header to its end.
\<close>

record SourceCandidate =
  sc_text :: string
  sc_start_line :: nat
  sc_end_line :: nat

record SourceSegmentation =
  ss_candidates :: "SourceCandidate list"
  ss_findings :: "SemanticFinding list"

section \<open>The Db2 lane\<close>

definition strip_terminator :: "string \<Rightarrow> string \<Rightarrow> string" where
  "strip_terminator source_text terminator =
     (let value = py_rstrip source_text in
      if terminator \<noteq> [] \<and> py_endswith value terminator
      then py_rstrip (take (length value - length terminator) value) else value)"

definition count_finding :: "nat \<Rightarrow> nat \<Rightarrow> SemanticFinding" where
  "count_finding expected discovered =
     mk_finding ''SOURCE_UNIT_COUNT_MISMATCH'' SEV_ERROR
       (''Expected '' @ nat_dec expected @ '' Db2 procedure units but discovered '' @ nat_dec discovered @ ''.'') None
       ''The source unit cannot claim complete routine discovery.''"

definition fragment_finding :: "nat \<Rightarrow> SemanticFinding" where
  "fragment_finding count =
     mk_finding ''SOURCE_UNIT_UNCLASSIFIED_SCRIPT_FRAGMENTS'' SEV_WARNING
       (nat_dec count @ '' non-comment CLP script fragment(s) were not classified.'') None
       ''File-level script behavior outside CREATE PROCEDURE units remains an evidence boundary.''"

definition db2_segmentation ::
  "(string \<Rightarrow> string) \<Rightarrow> (string list \<Rightarrow> string list) \<Rightarrow> string \<Rightarrow> string \<Rightarrow> SourceSegmentation" where
  "db2_segmentation sha order txt source_name =
     (let script = segment_text sha order txt source_name;
          expected = cs_expected_source_unit_count script; discovered = cs_discovered_source_unit_count script
      in \<lparr>ss_candidates = map (\<lambda>u. \<lparr>sc_text = strip_terminator (un_source_text u) (un_terminator u),
             sc_start_line = rg_start_line (un_source_range u), sc_end_line = rg_end_line (un_source_range u)\<rparr>)
             (cs_source_units script),
          ss_findings =
            (if expected \<noteq> discovered then [count_finding expected discovered] else []) @
            (if cs_unclassified_fragment_count script \<noteq> 0 then [fragment_finding (cs_unclassified_fragment_count script)] else [])\<rparr>)"

section \<open>The pattern lane\<close>

definition rx_create_prefix :: rx where
  "rx_create_prefix =
     rseqs [RWordB, kw ''CREATE'', ws1, ROpt (rseqs [kw ''OR'', ws1, kw ''REPLACE'', ws1]),
     REos]"

definition profile_of :: "DialectId \<Rightarrow> Profile" where
  "profile_of dialect = the (List.find (\<lambda>p. pf_dialect p = dialect) all_profiles)"

definition plain_starts :: "string \<Rightarrow> Profile \<Rightarrow> nat list" where
  "plain_starts txt p =
     concat (map (\<lambda>r. map m_start (re_finditer r txt))
       (pf_header_patterns p @ pf_function_patterns p @ pf_trigger_patterns p))"

definition package_starts :: "string \<Rightarrow> Profile \<Rightarrow> nat list" where
  "package_starts txt p =
     concat (map (\<lambda>r. map m_start (filter (\<lambda>m.
         \<not> is_search rx_create_prefix (py_slice txt (m_start m - 80) (m_start m))) (re_finditer r txt)))
       (pf_package_procedure_patterns p @ pf_package_function_patterns p))"

fun spans_from :: "nat \<Rightarrow> nat list \<Rightarrow> (nat \<times> nat) list" where
  "spans_from n [] = []"
| "spans_from n [a] = [(a, n)]"
| "spans_from n (a # b # rest) = (a, b) # spans_from n (b # rest)"

definition spans :: "string \<Rightarrow> DialectId \<Rightarrow> (nat \<times> nat) list" where
  "spans txt dialect =
     (let p = profile_of dialect
      in spans_from (length txt) (sort (remdups (plain_starts txt p @ package_starts txt p))))"

definition segment ::
  "(string \<Rightarrow> string) \<Rightarrow> (string list \<Rightarrow> string list) \<Rightarrow> string \<Rightarrow> string \<Rightarrow> DialectId \<Rightarrow> SourceSegmentation" where
  "segment sha order txt source_name dialect =
     (if dialect = DB2_SQL_PL then db2_segmentation sha order txt source_name
      else \<lparr>ss_candidates = map (\<lambda>(start_o, end_o). \<lparr>sc_text = py_strip (py_slice txt start_o end_o),
              sc_start_line = py_count txt nl start_o + 1, sc_end_line = py_count txt nl end_o + 1\<rparr>) (spans txt dialect),
            ss_findings = []\<rparr>)"

section \<open>The pattern lane covers the source\<close>

lemma finditer_bounds:
  "m \<in> set (finditer_from f r p n s) \<Longrightarrow> n \<le> m_start m \<and> m_end m \<le> n + length s \<and> m_start m \<le> m_end m"
proof (induction f r p n s rule: finditer_from.induct)
  case (2 f r p n s)
  show ?case
  proof (cases "match_at r (p, n, s)")
    case None
    then obtain c s' where s: "s = c # s'" "m \<in> set (finditer_from f r (Some c) (Suc n) s')"
      using 2(4) by (cases s) auto
    then show ?thesis using 2(1) [OF None s] by auto
  next
    case (Some m')
    note b = match_at_Some(1-3) [OF Some]
    consider (this) "m = m'" | (later) "n < m_end m'" "m \<in> set (finditer_from f r (Some (last (m_text m'))) (m_end m') (drop (m_end m' - n) s))"
      | (skip) c s' where "\<not> n < m_end m'" "s = c # s'" "m \<in> set (finditer_from f r (Some c) (Suc n) s')"
      using 2(4) Some by (cases s) (auto split: if_splits)
    then show ?thesis
    proof cases
      case later
      then show ?thesis using 2(2) [OF Some later] b by auto
    next
      case skip
      then show ?thesis using 2(3) [OF Some skip] b by auto
    qed (use b in auto)
  qed
qed simp

lemma re_finditer_bounds: "m \<in> set (re_finditer r s) \<Longrightarrow> m_start m \<le> length s"
  using finditer_bounds [of m "Suc (length s)" r None 0 s] by (auto simp: re_finditer_def)

lemma spans_from_in_order:
  "sorted starts \<Longrightarrow> distinct starts \<Longrightarrow> (\<forall>a \<in> set starts. c \<le> a \<and> a \<le> n) \<Longrightarrow> c \<le> n \<Longrightarrow> in_order n c (spans_from n starts)"
  by (induction n starts arbitrary: c rule: spans_from.induct) auto

lemma map_fst_spans_from [simp]: "map fst (spans_from n starts) = starts"
  by (induction n starts rule: spans_from.induct) auto

lemma spans_from_tile:
  "sorted (a # rest) \<Longrightarrow> \<forall>b \<in> set (a # rest). b \<le> length txt \<Longrightarrow>
   concat (map (\<lambda>(i, j). py_slice txt i j) (spans_from (length txt) (a # rest))) = drop a txt"
proof (induction rest arbitrary: a)
  case Nil
  then show ?case by (simp add: py_slice_def)
next
  case (Cons b rest)
  then have "concat (map (\<lambda>(i, j). py_slice txt i j) (spans_from (length txt) (b # rest))) = drop b txt" "a \<le> b" by auto
  moreover from this(2) have "take (b - a) (drop a txt) @ drop b txt = drop a txt"
    by (metis append_take_drop_id drop_drop le_add_diff_inverse2)
  ultimately show ?case by (simp add: py_slice_def)
qed

text \<open>
  The pattern lane loses nothing after the first header. The spans start at the offsets where
  a routine header of the profile matches, each exactly once and in increasing order; they are
  disjoint, and their texts concatenated are the source from the first header to its end.
\<close>

theorem spans_cover_source:
  "let ss = spans txt dialect; p = profile_of dialect in
   set (map fst ss) = set (plain_starts txt p @ package_starts txt p) \<and> sorted_wrt (<) (map fst ss) \<and>
   in_order (length txt) 0 ss \<and>
   concat (map (\<lambda>(i, j). py_slice txt i j) ss) = (case ss of [] \<Rightarrow> [] | (i, j) # rest \<Rightarrow> drop i txt)"
proof -
  let ?p = "profile_of dialect"
  define starts where "starts = sort (remdups (plain_starts txt ?p @ package_starts txt ?p))"
  have ss: "spans txt dialect = spans_from (length txt) starts" by (simp add: spans_def starts_def Let_def)
  have s: "sorted starts" "distinct starts" "set starts = set (plain_starts txt ?p @ package_starts txt ?p)"
    by (auto simp: starts_def)
  have "\<forall>a \<in> set starts. a \<le> length txt"
    unfolding s(3) plain_starts_def package_starts_def by (auto dest!: re_finditer_bounds)
  then have b: "\<forall>a \<in> set starts. 0 \<le> a \<and> a \<le> length txt" "\<forall>a \<in> set starts. a \<le> length txt" by auto
  have t: "concat (map (\<lambda>(i, j). py_slice txt i j) (spans_from (length txt) starts)) =
      (case spans_from (length txt) starts of [] \<Rightarrow> [] | (i, j) # rest \<Rightarrow> drop i txt)"
  proof (cases starts)
    case (Cons a rest)
    have "\<exists>j more. spans_from (length txt) (a # rest) = (a, j) # more" by (cases rest) auto
    then show ?thesis using spans_from_tile [of a rest "txt"] s(1) b(2) Cons by auto
  qed simp
  have "sorted_wrt (<) (map fst (spans_from (length txt) starts))" using s(1,2) by (simp add: strict_sorted_iff)
  moreover have "set (map fst (spans_from (length txt) starts)) = set (plain_starts txt ?p @ package_starts txt ?p)"
    unfolding map_fst_spans_from by (rule s(3))
  ultimately show ?thesis using spans_from_in_order [OF s(1,2) b(1)] t unfolding ss Let_def by blast
qed

section \<open>The Db2 lane reports what it could not cut\<close>

text \<open>
  Incomplete Db2 discovery is always reported. The segmentation of a Db2 script has no finding
  exactly when every CREATE PROCEDURE has an end and no text outside the units is left
  unclassified, and it has one candidate per procedure whose end was found.
\<close>

theorem db2_segmentation_reports:
  "let tokens = lr_tokens (scan txt); terminator = fst (detect_terminator order txt); starts = procedure_starts tokens;
       result = segment sha order txt name DB2_SQL_PL in
   (ss_findings result = [] \<longleftrightarrow>
      list_all (\<lambda>k. procedure_end tokens k terminator \<noteq> None) starts \<and>
      unclassified_fragments txt (map snd (script_units sha txt tokens terminator starts)) terminator = []) \<and>
   length (ss_candidates result) = length (filter (\<lambda>k. procedure_end tokens k terminator \<noteq> None) starts)"
proof -
  obtain t d where t: "detect_terminator order txt = (t, d)" by fastforce
  have c: "cs_detected_terminator (segment_text sha order txt name) = t"
    "cs_unclassified_fragment_count (segment_text sha order txt name) =
      length (unclassified_fragments txt (map snd (script_units sha txt (lr_tokens (scan txt)) t
        (procedure_starts (lr_tokens (scan txt))))) t)"
    by (simp_all add: segment_text_def t Let_def)
  note d = segment_discovery [of sha order "txt" name, unfolded Let_def c(1)]
  show ?thesis using d c(2) by (auto simp: segment_def db2_segmentation_def Let_def t)
qed

end
