(* ===== verification/Service.thy ===== *)
theory Service
  imports ControlFlow Canonical
begin

text \<open>
  The semantic service, \<open>atlas/application/service.py\<close>: the report of a routine IR (effects
  with their guarding conditions, decision arms, node inventories and the parse status) and the
  scenario candidates derived from it. The single loop of \<open>report\<close> fills independent lists;
  the model has one definition per list. A \<open>KeyError\<close> of \<open>scenarios\<close> is the value
  \<open>None\<close>; the lemmas show that it cannot occur for a routine's own report.
\<close>

section \<open>Routine identity\<close>

definition identity_types :: "RoutineIR \<Rightarrow> string list" where
  "identity_types ir =
     map param_type_text (filter (\<lambda>p. param_mode p \<noteq> MODE_OUT \<and> param_mode p \<noteq> MODE_RETURN) (ir_parameters ir))"

definition base_reference :: "RoutineIR \<Rightarrow> string" where
  "base_reference ir =
     (if truthy (ir_schema_name ir) then or_str (ir_schema_name ir) [] @ ''.'' else []) @ ir_routine_name ir"

definition routine_reference :: "RoutineIR \<Rightarrow> string" where
  "routine_reference ir =
     (case ir_dialect ir of
        POSTGRESQL_PLPGSQL \<Rightarrow> base_reference ir @ ''('' @ py_join '','' (identity_types ir) @ '')''
      | ORACLE_PLSQL \<Rightarrow> base_reference ir @ ''('' @
          py_join '','' (map (\<lambda>p. mode_value (param_mode p) @ '':'' @ param_type_text p)
            (filter (\<lambda>p. param_mode p \<noteq> MODE_RETURN) (ir_parameters ir))) @ '')''
      | _ \<Rightarrow> base_reference ir)"

section \<open>The report\<close>

definition effect_kinds :: "SemanticNodeKind list" where
  "effect_kinds = [ASSIGNMENT, INSERT, UPDATE, DELETE, MERGE, UPSERT, CALL, DYNAMIC_SQL, ERROR_RAISE, RESULT_SET,
     TRANSACTION_BEGIN, COMMIT, ROLLBACK, SAVEPOINT, RETURN, TEMP_OBJECT, SECURITY_CONTEXT]"

function condition_loop :: "nodes \<Rightarrow> string option \<Rightarrow> string list \<Rightarrow> string list \<Rightarrow> string list" where
  "condition_loop ns None seen conditions = conditions"
| "condition_loop ns (Some parent) seen conditions =
     (if parent = [] \<or> parent \<in> set seen then conditions
      else case by_id ns parent of
        None \<Rightarrow> conditions
      | Some parent_node \<Rightarrow>
          condition_loop ns (node_parent_ref parent_node) (parent # seen)
            (if truthy (node_condition_text parent_node) then conditions @ [node_id parent_node] else conditions))"
  by pat_completeness auto

termination condition_loop
proof (relation "measure (\<lambda>(ns, parent, seen, conditions). card (ids ns - set seen))")
  fix ns :: nodes and c :: string and seen conditions :: "string list" and p :: SemanticNode
  assume c: "\<not> (c = [] \<or> c \<in> set seen)" "by_id ns c = Some p"
  then have "ids ns - set (c # seen) \<subset> ids ns - set seen" by (auto dest!: by_id_Some)
  then show "((ns, node_parent_ref p, c # seen, if truthy (node_condition_text p) then conditions @ [node_id p] else conditions),
      (ns, Some c, seen, conditions)) \<in> measure (\<lambda>(ns, parent, seen, conditions). card (ids ns - set seen))"
    by (simp add: psubset_card_mono)
qed simp

definition condition_refs :: "nodes \<Rightarrow> SemanticNode \<Rightarrow> string list" where
  "condition_refs ns node = rev (condition_loop ns (node_parent_ref node) [] [])"

definition effect_of :: "nodes \<Rightarrow> nat \<Rightarrow> SemanticNode \<Rightarrow> EffectSummary" where
  "effect_of ns i node =
     \<lparr>effect_id = str_nat ''effect-'' i, effect_node_ref = node_id node, effect_kind = node_kind node,
      effect_target = or_opt (node_target_name node)
        (case node_relation_refs node of r # _ \<Rightarrow> Some r | [] \<Rightarrow> node_call_target node),
      effect_expression = Some (or_str (node_expression_text node) (node_text node)),
      effect_modality = node_modality node, effect_condition_refs = condition_refs ns node,
      effect_relation_refs = node_relation_refs node\<rparr>"

definition numbered :: "'a list \<Rightarrow> (nat \<times> 'a) list" where
  "numbered xs = zip [1..<Suc (length xs)] xs"

definition effects_of :: "nodes \<Rightarrow> EffectSummary list" where
  "effects_of ns = map (\<lambda>(i, n). effect_of ns i n) (numbered (filter (\<lambda>n. node_kind n \<in> set effect_kinds) ns))"

definition relations_of :: "nodes \<Rightarrow> string list" where
  "relations_of ns = foldl append_new [] (concat (map node_relation_refs ns))"

definition calls_of :: "nodes \<Rightarrow> string list" where
  "calls_of ns = foldl append_new [] (map (\<lambda>n. or_str (node_call_target n) []) (filter (\<lambda>n. truthy (node_call_target n)) ns))"

definition refs_of_kind :: "SemanticNodeKind list \<Rightarrow> nodes \<Rightarrow> string list" where
  "refs_of_kind kinds ns = map node_id (filter (\<lambda>n. node_kind n \<in> set kinds) ns)"

definition condition_nodes :: "nodes \<Rightarrow> nodes" where
  "condition_nodes ns = filter (\<lambda>n. node_kind n = CONDITION \<and> truthy (node_condition_text n)) ns"

definition arm_descendants :: "nodes \<Rightarrow> EffectSummary list \<Rightarrow> SemanticNode \<Rightarrow> string list" where
  "arm_descendants ns effects condition =
     (let guarded = map effect_node_ref (filter (\<lambda>e. node_id condition \<in> set (effect_condition_refs e)) effects)
      in if guarded \<noteq> [] then guarded
         else map node_id (filter (\<lambda>n. node_parent_ref n = Some (node_id condition) \<and> node_kind n \<noteq> CONDITION) ns))"

definition arm_of :: "nodes \<Rightarrow> EffectSummary list \<Rightarrow> nat \<Rightarrow> SemanticNode \<Rightarrow> DecisionArm" where
  "arm_of ns effects precedence condition =
     (let descendants = arm_descendants ns effects condition in
      \<lparr>arm_id = str_nat ''arm-'' precedence, arm_precedence = precedence, arm_predicate_node_ref = node_id condition,
       arm_condition_text = or_str (node_condition_text condition) [], arm_effect_node_refs = descendants,
       arm_terminal = list_ex (\<lambda>n. node_id n \<in> set descendants \<and>
         node_kind n \<in> set [RETURN, ERROR_RAISE, ROLLBACK]) ns\<rparr>)"

definition arms_of :: "nodes \<Rightarrow> DecisionArm list" where
  "arms_of ns = map (\<lambda>(i, c). arm_of ns (effects_of ns) i c) (numbered (condition_nodes ns))"

text \<open>\<open>dict(sorted(Counter(codes).items()))\<close>.\<close>

definition finding_counts :: "SemanticFinding list \<Rightarrow> (string \<times> nat) list" where
  "finding_counts findings =
     (let codes = map finding_code findings in map (\<lambda>c. (c, count_list codes c)) (sort (remdups codes)))"

definition parse_status :: "RoutineIR \<Rightarrow> ParseStatus" where
  "parse_status ir =
     (if ir_nodes ir = [] then STATUS_BLOCKED
      else if list_ex (\<lambda>f. finding_severity f \<in> set [SEV_WARNING, SEV_ERROR]) (ir_findings ir) \<or>
              refs_of_kind [OPAQUE] (ir_nodes ir) \<noteq> [] then STATUS_PARTIAL
      else STATUS_COMPLETE)"

definition report :: "(string \<Rightarrow> string) \<Rightarrow> string \<Rightarrow> RoutineIR \<Rightarrow> RoutineSemanticReport" where
  "report sha atlas_version ir =
     (let ns = ir_nodes ir;
          r = \<lparr>rep_atlas_version = atlas_version, rep_dialect = ir_dialect ir, rep_routine_ref = routine_reference ir,
            rep_routine_ir_digest = ir_content_digest ir, rep_parse_status = parse_status ir,
            rep_decision_arms = arms_of ns, rep_effects = effects_of ns, rep_call_targets = calls_of ns,
            rep_relation_refs = relations_of ns, rep_dynamic_sql_node_refs = refs_of_kind [DYNAMIC_SQL] ns,
            rep_result_set_node_refs = refs_of_kind [RESULT_SET] ns,
            rep_transaction_node_refs = refs_of_kind [TRANSACTION_BEGIN, COMMIT, ROLLBACK, SAVEPOINT] ns,
            rep_handler_node_refs = refs_of_kind [ERROR_HANDLER] ns, rep_opaque_node_refs = refs_of_kind [OPAQUE] ns,
            rep_finding_counts = finding_counts (ir_findings ir), rep_content_digest = []\<rparr>
      in r\<lparr>rep_content_digest := canonical_digest sha (JObj (report_fields r))\<rparr>)"

section \<open>Scenario candidates\<close>

definition py_str_opt :: "string option \<Rightarrow> string" where
  "py_str_opt v = (case v of Some s \<Rightarrow> s | None \<Rightarrow> ''None'')"

definition effect_text :: "SemanticNode \<Rightarrow> string" where
  "effect_text node =
     (if node_kind node = ASSIGNMENT then
        py_str_opt (node_target_name node) @ '' is set to '' @ py_str_opt (node_expression_text node)
      else if node_kind node \<in> set [INSERT, UPDATE, DELETE, MERGE, UPSERT] then
        ''the '' @ py_lower (node_kind_value (node_kind node)) @ '' effect on '' @
        (case node_relation_refs node of r # _ \<Rightarrow> r | [] \<Rightarrow> ''an unresolved relation'') @ '' occurs''
      else if node_kind node = CALL then ''the routine '' @ py_str_opt (node_call_target node) @ '' is called''
      else if node_kind node = ERROR_RAISE then
        ''an error is raised'' @ (if truthy (node_error_code node) then '' with code '' @ or_str (node_error_code node) [] else [])
      else if node_kind node = RESULT_SET then ''a result set is returned or opened''
      else if node_kind node = RETURN then ''the routine returns '' @ or_str (node_expression_text node) ''control''
      else py_rstrip_of (in_chars '';'') (node_text node))"

definition quoted_condition :: "string \<Rightarrow> string" where
  "quoted_condition c = ''the technical condition '' @ [dquote] @ c @ [dquote] @ '' evaluates true''"

definition arm_scenario :: "nodes \<Rightarrow> string \<Rightarrow> nat \<Rightarrow> DecisionArm \<Rightarrow> ScenarioCandidate" where
  "arm_scenario ns routine_ref i arm =
     (let effect_nodes = List.map_filter (by_id ns) (arm_effect_node_refs arm);
          outcomes = map effect_text effect_nodes
      in \<lparr>scn_scenario_id = str_nat ''scenario-'' i,
          scn_name = ''Apply ordered condition '' @ nat_dec (arm_precedence arm) @ '': '' @ take 80 (arm_condition_text arm),
          scn_given = [quoted_condition (arm_condition_text arm)], scn_when = routine_ref @ '' is invoked'',
          scn_then = (if outcomes \<noteq> [] then outcomes else [''the branch completes without a classified observable effect'']),
          scn_evidence_refs = arm_predicate_node_ref arm # arm_effect_node_refs arm\<rparr>)"

definition effect_scenario :: "string \<Rightarrow> nat \<Rightarrow> SemanticNode \<Rightarrow> ScenarioCandidate" where
  "effect_scenario routine_ref i node =
     \<lparr>scn_scenario_id = str_nat ''scenario-'' i,
      scn_name = ''Observe '' @ py_replace (py_lower (node_kind_value (node_kind node))) ''_'' '' '',
      scn_given = [''the preceding statements complete successfully''], scn_when = routine_ref @ '' is invoked'',
      scn_then = [effect_text node], scn_evidence_refs = [node_id node]\<rparr>"

fun effect_scenarios :: "nodes \<Rightarrow> string \<Rightarrow> nat \<Rightarrow> EffectSummary list \<Rightarrow> ScenarioCandidate list option" where
  "effect_scenarios ns routine_ref i [] = Some []"
| "effect_scenarios ns routine_ref i (e # es) =
     (case by_id ns (effect_node_ref e) of
        None \<Rightarrow> None
      | Some node \<Rightarrow> map_option ((#) (effect_scenario routine_ref i node)) (effect_scenarios ns routine_ref (i + 1) es))"

definition scenarios :: "(string \<Rightarrow> string) \<Rightarrow> RoutineIR \<Rightarrow> RoutineSemanticReport \<Rightarrow> ScenarioCandidateBatch option" where
  "scenarios sha ir rep =
     (let ns = ir_nodes ir;
          from_arms = map (\<lambda>(i, arm). arm_scenario ns (rep_routine_ref rep) i arm) (numbered (rep_decision_arms rep));
          mk = (\<lambda>ss. let b = \<lparr>batch_routine_ref = rep_routine_ref rep, batch_dialect = ir_dialect ir, batch_scenarios = ss,
                               batch_source_ir_digest = ir_content_digest ir, batch_content_digest = []\<rparr>
                     in b\<lparr>batch_content_digest := canonical_digest sha (JObj (batch_fields b))\<rparr>)
      in if from_arms \<noteq> [] then Some (mk from_arms)
         else map_option mk (effect_scenarios ns (rep_routine_ref rep) 1 (rep_effects rep)))"

section \<open>Identity is safe for overloads\<close>

lemma comma_split:
  assumes "x @ c # xs = y @ c # ys" "c \<notin> set x" "c \<notin> set y"
  shows "x = y \<and> xs = ys"
proof -
  have t: "takeWhile (\<lambda>d. d \<noteq> c) (u @ c # us) = u" if "c \<notin> set u" for u us
    using that by (induction u) auto
  have "x = y" using arg_cong [OF assms(1), of "takeWhile (\<lambda>d. d \<noteq> c)"] t assms(2,3) by metis
  then show ?thesis using assms(1) by simp
qed

lemma py_join_has_sep: "c \<in> set (py_join [c] (x # y # zs))"
  by simp

lemma py_join_inject:
  assumes "py_join [c] xs = py_join [c] ys"
    and "list_all (\<lambda>x. x \<noteq> [] \<and> c \<notin> set x) xs" "list_all (\<lambda>x. x \<noteq> [] \<and> c \<notin> set x) ys"
  shows "xs = ys"
  using assms
proof (induction xs arbitrary: ys rule: induct_list012)
  case 1
  then show ?case by (cases ys rule: remdups_adj.cases) auto
next
  case (2 x)
  then show ?case using py_join_has_sep [of c] by (cases ys rule: remdups_adj.cases) auto
next
  case (3 x x' xs)
  show ?case
  proof (cases ys rule: remdups_adj.cases)
    case (3 y y' zs)
    then have e: "x @ c # py_join [c] (x' # xs) = y @ c # py_join [c] (y' # zs)" using "3.prems"(1) by simp
    have "x = y \<and> py_join [c] (x' # xs) = py_join [c] (y' # zs)"
      using "3.prems"(2,3) 3 by (intro comma_split [OF e]) auto
    then show ?thesis using "3.IH"(2) [of "y' # zs"] "3.prems"(2,3) 3 by simp
  qed (use "3.prems" py_join_has_sep [of c x x' xs] in auto)
qed

text \<open>
  A PostgreSQL routine reference tells overloads apart. Two routines with the same schema and
  name whose identity types differ have different references, when the type names are non-empty
  and contain no comma.
\<close>

theorem postgresql_reference_overload_safe:
  assumes "ir_dialect a = POSTGRESQL_PLPGSQL" "ir_dialect b = POSTGRESQL_PLPGSQL"
    and "base_reference a = base_reference b"
    and "list_all (\<lambda>t. t \<noteq> [] \<and> CHR '','' \<notin> set t) (identity_types a @ identity_types b)"
    and "identity_types a \<noteq> identity_types b"
  shows "routine_reference a \<noteq> routine_reference b"
  using assms py_join_inject [of "CHR '',''" "identity_types a" "identity_types b"]
  by (auto simp: routine_reference_def)

definition sample_ir :: "DialectId \<Rightarrow> string list \<Rightarrow> nodes \<Rightarrow> RoutineIR" where
  "sample_ir d types ns =
     \<lparr>ir_atlas_version = ''1'', ir_dialect = d, ir_adapter_id = ''a'', ir_routine_kind = FUNCTION, ir_schema_name = Some ''s'',
      ir_routine_name = ''f'', ir_parameters = map (\<lambda>t. \<lparr>param_name = ''p'', param_mode = MODE_IN, param_type_text = t,
        param_default_text = None\<rparr>) types, ir_routine_attributes = [], ir_source_name = ''f.sql'', ir_source_digest = [],
      ir_body_digest = [], ir_nodes = ns, ir_edges = [], ir_findings = [], ir_entry_node_ref = ''n0000'',
      ir_exit_node_ref = ''n0001'', ir_content_digest = []\<rparr>"

theorem postgresql_reference_overload_safe_witness:
  "routine_reference (sample_ir POSTGRESQL_PLPGSQL [''INTEGER''] []) \<noteq> routine_reference (sample_ir POSTGRESQL_PLPGSQL [''TEXT''] [])"
  by (rule postgresql_reference_overload_safe)
    (simp_all add: sample_ir_def base_reference_def identity_types_def)

section \<open>Effects and their conditions\<close>

lemma numbered_Cons: "numbered (x # xs) = (1, x) # map (\<lambda>(i, y). (Suc i, y)) (numbered xs)"
proof -
  have "[1..<Suc (length (x # xs))] = 1 # map Suc [1..<Suc (length xs)]"
    by (simp add: upt_conv_Cons map_Suc_upt del: upt_Suc)
  then show ?thesis by (simp add: numbered_def zip_map1 del: upt_Suc)
qed

lemma map_snd_numbered [simp]: "map (\<lambda>(i, x). f x) (numbered xs) = map f xs"
  by (rule nth_equalityI) (simp_all add: numbered_def del: upt_Suc)

lemma map_fst_numbered [simp]: "map (\<lambda>(i, x). f i) (numbered xs) = map f [1..<Suc (length xs)]"
  by (rule nth_equalityI) (simp_all add: numbered_def del: upt_Suc)

lemma set_numbered: "(i, x) \<in> set (numbered xs) \<Longrightarrow> x \<in> set xs"
  by (auto simp: numbered_def dest: set_zip_rightD)

lemma length_numbered [simp]: "length (numbered xs) = length xs"
  by (simp add: numbered_def del: upt_Suc)

text \<open>
  The condition loop is the ancestor walk of the control-flow pass, restricted to the ancestors
  that carry a condition.
\<close>

definition guards :: "nodes \<Rightarrow> string \<Rightarrow> bool" where
  "guards ns ref = (case by_id ns ref of Some n \<Rightarrow> truthy (node_condition_text n) | None \<Rightarrow> False)"

lemma anc_loop_extends: "\<exists>more. anc_loop ns cur acc = acc @ more"
proof (induction ns cur acc rule: anc_loop.induct)
  case (2 ns c acc)
  then show ?case by (cases "c = [] \<or> c \<in> set acc") auto
qed simp

lemma condition_loop_ancestors:
  "set seen = set acc \<Longrightarrow> conditions = filter (guards ns) acc \<Longrightarrow>
   condition_loop ns cur seen conditions = filter (guards ns) (anc_loop ns cur acc)"
proof (induction ns cur seen conditions arbitrary: acc rule: condition_loop.induct)
  case (2 ns c seen conditions)
  show ?case
  proof (cases "c = [] \<or> c \<in> set seen")
    case True
    then show ?thesis using 2 by auto
  next
    case new: False
    show ?thesis
    proof (cases "by_id ns c")
      case None
      then have "parent_of ns c = None" "\<not> guards ns c" by (simp_all add: parent_of_def guards_def)
      then show ?thesis using new None 2(2,3) by auto
    next
      case (Some n)
      then have "parent_of ns c = node_parent_ref n" "guards ns c = truthy (node_condition_text n)" "node_id n = c"
        by (auto simp: parent_of_def guards_def dest: by_id_Some)
      then show ?thesis using new Some 2(1) [OF _ Some, of "acc @ [c]"] 2(2,3) by auto
    qed
  qed
qed simp

lemma condition_refs_ancestors: "condition_refs ns n = rev (filter (guards ns) (ancestors ns n))"
  using condition_loop_ancestors [of "[]" "[]" "[]" ns "node_parent_ref n"] by (simp add: condition_refs_def ancestors_def)

text \<open>
  The effects of a report are exactly the effect statements of the routine. They are numbered
  effect-0001 and so on in source order, one per node of an effect kind, and the condition
  references of each are the ancestors of the node that carry a condition, outermost first.
\<close>

theorem report_effects:
  "let r = report sha v ir; ns = ir_nodes ir; sel = filter (\<lambda>n. node_kind n \<in> set effect_kinds) ns in
   map effect_node_ref (rep_effects r) = map node_id sel \<and>
   map effect_id (rep_effects r) = map (str_nat ''effect-'') [1..<Suc (length sel)] \<and>
   map effect_condition_refs (rep_effects r) = map (\<lambda>n. rev (filter (guards ns) (ancestors ns n))) sel \<and>
   map effect_modality (rep_effects r) = map node_modality sel"
proof -
  let ?ns = "ir_nodes ir" and ?sel = "filter (\<lambda>n. node_kind n \<in> set effect_kinds) (ir_nodes ir)"
  have a: "map g (effects_of ?ns) = map (\<lambda>(i, n). g (effect_of ?ns i n)) (numbered ?sel)" for g :: "EffectSummary \<Rightarrow> 'z"
    by (simp add: effects_of_def comp_def case_prod_unfold)
  have e: "map effect_node_ref (effects_of ?ns) = map node_id ?sel"
    "map effect_id (effects_of ?ns) = map (str_nat ''effect-'') [1..<Suc (length ?sel)]"
    "map effect_condition_refs (effects_of ?ns) = map (condition_refs ?ns) ?sel"
    "map effect_modality (effects_of ?ns) = map node_modality ?sel"
    unfolding a by (simp_all add: effect_of_def del: upt_Suc)
  show ?thesis using e by (simp add: report_def Let_def condition_refs_ancestors del: upt_Suc cong: map_cong)
qed

text \<open>
  The parse status is COMPLETE exactly when the IR has nodes, no warning or error finding and
  no opaque statement; it is BLOCKED exactly when the IR has no node.
\<close>

theorem report_status:
  "(rep_parse_status (report sha v ir) = STATUS_COMPLETE \<longleftrightarrow>
      ir_nodes ir \<noteq> [] \<and> list_all (\<lambda>f. finding_severity f = SEV_INFO) (ir_findings ir) \<and>
      list_all (\<lambda>n. node_kind n \<noteq> OPAQUE) (ir_nodes ir)) \<and>
   (rep_parse_status (report sha v ir) = STATUS_BLOCKED \<longleftrightarrow> ir_nodes ir = [])"
proof -
  have "finding_severity f \<noteq> SEV_WARNING \<and> finding_severity f \<noteq> SEV_ERROR \<longleftrightarrow> finding_severity f = SEV_INFO" for f
    by (cases "finding_severity f") auto
  then show ?thesis
    by (auto simp: report_def Let_def parse_status_def refs_of_kind_def list_all_iff list_ex_iff filter_empty_conv)
qed

section \<open>Decision arms\<close>

lemma effect_refs_subset: "effect_node_ref ` set (effects_of ns) \<subseteq> ids ns"
  by (auto simp: effects_of_def effect_of_def dest!: set_numbered)

lemma arm_descendants_subset: "set (arm_descendants ns (effects_of ns) c) \<subseteq> ids ns"
  using effect_refs_subset [of ns] by (auto simp: arm_descendants_def Let_def)

text \<open>
  One decision arm per condition, in source order. The arms are numbered from 1 in the order of
  the CONDITION nodes with a text; every effect guarded by the condition is listed in its arm, and
  every reference of an arm is a node of the IR.
\<close>

theorem report_arms:
  "let arms = rep_decision_arms (report sha v ir); ns = ir_nodes ir in
   map arm_predicate_node_ref arms = map node_id (condition_nodes ns) \<and>
   map arm_precedence arms = [1..<Suc (length (condition_nodes ns))] \<and>
   list_all (\<lambda>a. effect_node_ref ` {e \<in> set (effects_of ns). arm_predicate_node_ref a \<in> set (effect_condition_refs e)}
     \<subseteq> set (arm_effect_node_refs a)) arms \<and>
   \<Union> (set ` arm_effect_node_refs ` set arms) \<subseteq> ids ns"
proof -
  let ?ns = "ir_nodes ir"
  have a: "map g (arms_of ?ns) = map (\<lambda>(i, c). g (arm_of ?ns (effects_of ?ns) i c)) (numbered (condition_nodes ?ns))"
    for g :: "DecisionArm \<Rightarrow> 'z"
    by (simp add: arms_of_def comp_def case_prod_unfold)
  have p: "map arm_predicate_node_ref (arms_of ?ns) = map node_id (condition_nodes ?ns)"
    "map arm_precedence (arms_of ?ns) = [1..<Suc (length (condition_nodes ?ns))]"
    unfolding a using map_fst_numbered [of id "condition_nodes ?ns"] by (simp_all add: arm_of_def Let_def del: upt_Suc)
  have g: "list_all (\<lambda>a. effect_node_ref ` {e \<in> set (effects_of ?ns). arm_predicate_node_ref a \<in> set (effect_condition_refs e)}
     \<subseteq> set (arm_effect_node_refs a)) (arms_of ?ns)"
    by (auto simp: list_all_iff arms_of_def arm_of_def arm_descendants_def Let_def filter_empty_conv)
  have "set (arm_effect_node_refs a) \<subseteq> ids ?ns" if "a \<in> set (arms_of ?ns)" for a
    using that by (auto simp: arms_of_def arm_of_def Let_def intro: subsetD [OF arm_descendants_subset])
  then have "\<Union> (set ` arm_effect_node_refs ` set (arms_of ?ns)) \<subseteq> ids ?ns" by blast
  then show ?thesis using p g by (simp add: report_def Let_def)
qed

section \<open>Scenarios\<close>

lemma effect_scenarios_Some:
  "effect_node_ref ` set es \<subseteq> ids ns \<Longrightarrow>
   \<exists>ss. effect_scenarios ns r i es = Some ss \<and> length ss = length es \<and>
     map scn_evidence_refs ss = map (\<lambda>e. [effect_node_ref e]) es"
proof (induction es arbitrary: i)
  case (Cons e es)
  then obtain n where "by_id ns (effect_node_ref e) = Some n" using by_id_None_iff [of ns "effect_node_ref e"] by auto
  moreover from this have "node_id n = effect_node_ref e" by (auto dest: by_id_Some)
  ultimately show ?case using Cons by (fastforce simp: effect_scenario_def)
qed simp

lemma arms_empty: "arms_of ns = [] \<longleftrightarrow> condition_nodes ns = []"
  by (metis arms_of_def length_0_conv length_map length_numbered)

text \<open>
  The scenarios of a routine's own report always exist. There is one per decision arm, or one
  per effect when there is no arm, and all their evidence references are nodes of the routine.
\<close>

theorem scenarios_of_report:
  "\<exists>b. scenarios sha ir (report sha v ir) = Some b \<and>
     length (batch_scenarios b) =
       (let arms = rep_decision_arms (report sha v ir) in
        if arms = [] then length (rep_effects (report sha v ir)) else length arms) \<and>
     \<Union> (set ` scn_evidence_refs ` set (batch_scenarios b)) \<subseteq> ids (ir_nodes ir)"
proof (cases "arms_of (ir_nodes ir) = []")
  case True
  obtain ss where ss: "effect_scenarios (ir_nodes ir) (routine_reference ir) 1 (effects_of (ir_nodes ir)) = Some ss"
    "length ss = length (effects_of (ir_nodes ir))" "map scn_evidence_refs ss = map (\<lambda>e. [effect_node_ref e]) (effects_of (ir_nodes ir))"
    using effect_scenarios_Some [OF effect_refs_subset] by blast
  have "\<Union> (set ` scn_evidence_refs ` set ss) = effect_node_ref ` set (effects_of (ir_nodes ir))"
    using arg_cong [OF ss(3), of "\<lambda>xs. \<Union> (set ` set xs)"] by auto
  then show ?thesis using True ss effect_refs_subset [of "ir_nodes ir"]
    by (simp add: scenarios_def report_def Let_def numbered_def)
next
  case False
  let ?ss = "map (\<lambda>(i, arm). arm_scenario (ir_nodes ir) (routine_reference ir) i arm) (numbered (arms_of (ir_nodes ir)))"
  have n: "?ss \<noteq> []" using False by (metis length_0_conv length_map length_numbered)
  have "set (scn_evidence_refs s) \<subseteq> ids (ir_nodes ir)" if "s \<in> set ?ss" for s
  proof -
    obtain i arm where a: "arm \<in> set (arms_of (ir_nodes ir))" "s = arm_scenario (ir_nodes ir) (routine_reference ir) i arm"
      using \<open>s \<in> set ?ss\<close> by (auto dest: set_numbered)
    then obtain j c where c: "arm = arm_of (ir_nodes ir) (effects_of (ir_nodes ir)) j c" "c \<in> set (condition_nodes (ir_nodes ir))"
      by (auto simp: arms_of_def dest: set_numbered)
    then show ?thesis using a(2) arm_descendants_subset [of "ir_nodes ir" c]
      by (auto simp: arm_scenario_def arm_of_def Let_def condition_nodes_def)
  qed
  then have "\<Union> (set ` scn_evidence_refs ` set ?ss) \<subseteq> ids (ir_nodes ir)" by blast
  then show ?thesis using False n by (simp add: scenarios_def report_def Let_def)
qed

end
