(* ===== verification/SourceUnit.thy ===== *)
theory SourceUnit
  imports Registry Segmentation Service
begin

text \<open>
  The source-unit service, \<open>atlas/application/source_unit.py\<close>: a source text is segmented, every
  candidate is parsed by the adapter of its dialect, and each routine that parses gets a report and
  scenarios; a candidate whose parsing raises is recorded as a finding and the loop goes on. An
  exception that would escape \<open>analyze\<close> is the value \<open>None\<close>; the lemmas show that there is none.
\<close>

definition exception_text :: "adapter_error \<Rightarrow> string" where
  "exception_text e =
     (case e of DialectAdapterError msg \<Rightarrow> msg | ValidationError msg \<Rightarrow> msg | IndexError msg \<Rightarrow> msg)"

definition blocked_finding :: "nat \<Rightarrow> adapter_error \<Rightarrow> SemanticFinding" where
  "blocked_finding index e =
     mk_finding ''SOURCE_UNIT_ROUTINE_ANALYSIS_BLOCKED'' SEV_ERROR
       (''Routine candidate '' @ nat_dec index @ '' could not be analyzed: '' @ exception_text e) None
       ''Other routines remain independently analyzable; this candidate is blocked.''"

definition no_routine_finding :: "DialectId \<Rightarrow> string \<Rightarrow> SemanticFinding" where
  "no_routine_finding dialect source_name =
     mk_finding ''SOURCE_UNIT_NO_ROUTINE_DISCOVERED'' SEV_ERROR
       (''No '' @ dialect_value dialect @ '' routine body was discovered in '' @ source_name @ ''.'') None
       ''The source unit cannot produce routine semantic evidence.''"

definition candidate_name :: "string \<Rightarrow> nat \<Rightarrow> string" where
  "candidate_name source_name index = source_name @ ''#routine-'' @ nat_dec index"

definition routine_bundle :: "(string \<Rightarrow> string) \<Rightarrow> string \<Rightarrow> RoutineIR \<Rightarrow> RoutineAnalysisBundle option" where
  "routine_bundle sha atlas_version ir =
     (let rep = report sha atlas_version ir in
      map_option (\<lambda>batch.
        (let b = \<lparr>bundle_routine_ref = routine_reference ir, bundle_routine_ir = ir, bundle_semantic_report = rep,
                  bundle_scenario_candidates = batch, bundle_content_digest = []\<rparr>
         in b\<lparr>bundle_content_digest := canonical_digest sha (JObj (bundle_fields b))\<rparr>))
        (scenarios sha ir rep))"

fun bundles ::
  "(string \<Rightarrow> string) \<Rightarrow> string \<Rightarrow> Adapter \<Rightarrow> string \<Rightarrow> nat \<Rightarrow> SourceCandidate list \<Rightarrow>
   (RoutineAnalysisBundle list \<times> SemanticFinding list) option" where
  "bundles sha atlas_version ad source_name index [] = Some ([], [])"
| "bundles sha atlas_version ad source_name index (c # cs) =
     (case parse_text sha ad (sc_text c) (candidate_name source_name index) of
        Inl e \<Rightarrow> map_option (\<lambda>(bs, fs). (bs, blocked_finding index e # fs))
                  (bundles sha atlas_version ad source_name (index + 1) cs)
      | Inr ir \<Rightarrow>
          (case routine_bundle sha atlas_version ir of
             None \<Rightarrow> None
           | Some b \<Rightarrow> map_option (\<lambda>(bs, fs). (b # bs, fs)) (bundles sha atlas_version ad source_name (index + 1) cs)))"

definition analyze ::
  "(string \<Rightarrow> string) \<Rightarrow> (string list \<Rightarrow> string list) \<Rightarrow> string \<Rightarrow> string \<Rightarrow> string \<Rightarrow> DialectId \<Rightarrow> SourceUnitAnalysis option" where
  "analyze sha order atlas_version txt source_name dialect =
     (let segmentation = segment sha order txt source_name dialect in
      case default_registry atlas_version of
        Inl e \<Rightarrow> None
      | Inr registry \<Rightarrow>
          (case registry_adapter dialect registry of
             Inl e \<Rightarrow> None
           | Inr ad \<Rightarrow>
               map_option (\<lambda>(bs, fs).
                 (let u = \<lparr>unit_atlas_version = atlas_version, unit_dialect = dialect, unit_source_name = source_name,
                          unit_source_digest = sha256_text sha txt, unit_routines = bs,
                          unit_discovery_findings = ss_findings segmentation @ fs @
                            (if ss_candidates segmentation = [] then [no_routine_finding dialect source_name] else []),
                          unit_content_digest = []\<rparr>
                  in u\<lparr>unit_content_digest := canonical_digest sha (JObj (unit_fields u))\<rparr>))
                 (bundles sha atlas_version ad source_name 1 (ss_candidates segmentation))))"

section \<open>The loop over the candidates\<close>

lemma scenarios_Some: "\<exists>b. scenarios sha ir (report sha v ir) = Some b"
proof (cases "arms_of (ir_nodes ir) = []")
  case True
  then show ?thesis using effect_scenarios_Some [OF effect_refs_subset, of "ir_nodes ir" "routine_reference ir" 1]
    by (auto simp: scenarios_def report_def Let_def numbered_def)
next
  case False
  then have "numbered (arms_of (ir_nodes ir)) \<noteq> []" by (metis length_0_conv length_numbered)
  then show ?thesis by (simp add: scenarios_def report_def Let_def)
qed

lemma routine_bundle_Some:
  "\<exists>b. routine_bundle sha v ir = Some b \<and> bundle_routine_ir b = ir \<and> bundle_routine_ref b = routine_reference ir \<and>
     bundle_semantic_report b = report sha v ir"
  using scenarios_Some [of sha ir v] by (auto simp: routine_bundle_def Let_def)

text \<open>What analysing one candidate on its own gives.\<close>

definition candidate_result ::
  "(string \<Rightarrow> string) \<Rightarrow> string \<Rightarrow> Adapter \<Rightarrow> string \<Rightarrow> nat \<times> SourceCandidate \<Rightarrow> SemanticFinding + RoutineAnalysisBundle" where
  "candidate_result sha v ad source_name ic =
     (case parse_text sha ad (sc_text (snd ic)) (candidate_name source_name (fst ic)) of
        Inl e \<Rightarrow> Inl (blocked_finding (fst ic) e)
      | Inr ir \<Rightarrow> Inr (the (routine_bundle sha v ir)))"

definition lefts :: "('a + 'b) list \<Rightarrow> 'a list" where
  "lefts xs = List.map_filter (\<lambda>x. case x of Inl a \<Rightarrow> Some a | Inr _ \<Rightarrow> None) xs"

definition rights :: "('a + 'b) list \<Rightarrow> 'b list" where
  "rights xs = List.map_filter (\<lambda>x. case x of Inl _ \<Rightarrow> None | Inr b \<Rightarrow> Some b) xs"

lemma lefts_rights_simps [simp]:
  "lefts [] = []" "rights [] = []" "lefts (Inl a # xs) = a # lefts xs" "lefts (Inr b # xs) = lefts xs"
  "rights (Inl a # xs) = rights xs" "rights (Inr b # xs) = b # rights xs"
  by (simp_all add: lefts_def rights_def map_filter_def)

lemma length_lefts_rights: "length (lefts xs) + length (rights xs) = length xs"
proof (induction xs)
  case (Cons x xs)
  then show ?case by (cases x) auto
qed simp

lemma bundles_eq:
  "bundles sha v ad source_name index cs =
     Some (rights (map (candidate_result sha v ad source_name) (zip [index..<index + length cs] cs)),
           lefts (map (candidate_result sha v ad source_name) (zip [index..<index + length cs] cs)))"
proof (induction cs arbitrary: index)
  case (Cons c cs)
  have z: "zip [index..<index + length (c # cs)] (c # cs) = (index, c) # zip [index + 1..<index + 1 + length cs] cs"
    by (simp add: upt_conv_Cons del: upt_Suc)
  show ?case
  proof (cases "parse_text sha ad (sc_text c) (candidate_name source_name index)")
    case (Inl e)
    then show ?thesis using Cons.IH [of "index + 1"] unfolding z by (simp add: candidate_result_def)
  next
    case (Inr ir)
    obtain b where "routine_bundle sha v ir = Some b" using routine_bundle_Some by blast
    then show ?thesis using Cons.IH [of "index + 1"] Inr unfolding z by (simp add: candidate_result_def)
  qed
qed simp

lemma analyze_eq:
  "\<exists>u. analyze sha order v txt name d = Some u \<and>
     (let seg = segment sha order txt name d;
          results = map (candidate_result sha v (vendor_adapter v d) name) (numbered (ss_candidates seg))
      in unit_routines u = rights results \<and>
         unit_discovery_findings u = ss_findings seg @ lefts results @
           (if ss_candidates seg = [] then [no_routine_finding d name] else []))"
proof -
  obtain r where r: "default_registry v = Inr r" "\<forall>d. registry_adapter d r = Inr (vendor_adapter v d)"
    using default_registry_complete by blast
  show ?thesis
    using bundles_eq [of sha v "vendor_adapter v d" name 1 "ss_candidates (segment sha order txt name d)"]
    by (simp add: analyze_def Let_def r numbered_def del: upt_Suc)
qed

section \<open>Properties of the source-unit service\<close>

text \<open>
  C38: the analysis of a source unit never fails and routines are independent. Whatever the text,
  an analysis is returned; its routines are, in order, the bundles of those candidates that parse
  when analysed on their own, and its findings are those of the segmentation, then one per
  candidate that does not parse, then the finding that no routine was discovered when there is no
  candidate.
\<close>

theorem analyze_independent:
  "\<exists>u. analyze sha order v txt name d = Some u \<and>
     (let seg = segment sha order txt name d;
          results = map (candidate_result sha v (vendor_adapter v d) name) (numbered (ss_candidates seg))
      in unit_routines u = rights results \<and>
         unit_discovery_findings u = ss_findings seg @ lefts results @
           (if ss_candidates seg = [] then [no_routine_finding d name] else []))"
  by (rule analyze_eq)

lemma segment_finding_codes:
  "f \<in> set (ss_findings (segment sha order txt name d)) \<Longrightarrow>
   finding_code f \<in> {''SOURCE_UNIT_COUNT_MISMATCH'', ''SOURCE_UNIT_UNCLASSIFIED_SCRIPT_FRAGMENTS''}"
  by (auto simp: segment_def db2_segmentation_def Let_def count_finding_def fragment_finding_def mk_finding_def split: if_splits)

lemma lefts_blocked:
  "list_all (\<lambda>f. finding_code f = ''SOURCE_UNIT_ROUTINE_ANALYSIS_BLOCKED'') (lefts (map (candidate_result sha v ad name) xs))"
proof (induction xs)
  case (Cons x xs)
  then show ?case
    by (cases "parse_text sha ad (sc_text (snd x)) (candidate_name name (fst x))")
      (auto simp: candidate_result_def blocked_finding_def mk_finding_def)
qed simp

text \<open>
  Every candidate is accounted for. The number of routines analysed and the number of blocked
  candidates reported add up to the number of candidates, and the finding that no routine was
  discovered is present exactly when there is none.
\<close>

theorem analyze_accounts_for_candidates:
  "\<exists>u. analyze sha order v txt name d = Some u \<and>
     length (unit_routines u) +
       length (filter (\<lambda>f. finding_code f = ''SOURCE_UNIT_ROUTINE_ANALYSIS_BLOCKED'') (unit_discovery_findings u)) =
       length (ss_candidates (segment sha order txt name d)) \<and>
     (ss_candidates (segment sha order txt name d) = [] \<longleftrightarrow>
       ''SOURCE_UNIT_NO_ROUTINE_DISCOVERED'' \<in> finding_code ` set (unit_discovery_findings u))"
proof -
  let ?B = "\<lambda>f. finding_code f = ''SOURCE_UNIT_ROUTINE_ANALYSIS_BLOCKED''"
  let ?seg = "segment sha order txt name d"
  let ?res = "map (candidate_result sha v (vendor_adapter v d) name) (numbered (ss_candidates ?seg))"
  obtain u where u: "analyze sha order v txt name d = Some u" "unit_routines u = rights ?res"
    "unit_discovery_findings u = ss_findings ?seg @ lefts ?res @ (if ss_candidates ?seg = [] then [no_routine_finding d name] else [])"
    using analyze_eq [of sha order v "txt" name d] unfolding Let_def by blast
  have l: "\<forall>f \<in> set (lefts ?res). ?B f" using lefts_blocked [of sha v "vendor_adapter v d" name] by (simp add: list_all_iff)
  have s: "\<forall>f \<in> set (ss_findings ?seg). \<not> ?B f \<and> finding_code f \<noteq> ''SOURCE_UNIT_NO_ROUTINE_DISCOVERED''"
    using segment_finding_codes [of _ sha order "txt" name d] by fastforce
  have n: "finding_code (no_routine_finding d name) = ''SOURCE_UNIT_NO_ROUTINE_DISCOVERED''"
    by (simp add: no_routine_finding_def mk_finding_def)
  have "filter ?B (unit_discovery_findings u) = lefts ?res"
    using l s n by (simp add: u(3) filter_empty_conv filter_id_conv)
  then have "length (unit_routines u) + length (filter ?B (unit_discovery_findings u)) = length (ss_candidates ?seg)"
    using length_lefts_rights [of ?res] by (simp add: u(2))
  moreover have "''SOURCE_UNIT_NO_ROUTINE_DISCOVERED'' \<in> finding_code ` set (unit_discovery_findings u) \<longleftrightarrow> ss_candidates ?seg = []"
    using l s n by (auto simp: u(3) image_iff)
  ultimately show ?thesis using u(1) by blast
qed

end
