(* ===== verification/Renderers.thy ===== *)
theory Renderers
  imports Service
begin

text \<open>
  The renderers, \<open>atlas/renderers/graph.py\<close> and \<open>atlas/renderers/gherkin.py\<close>: the graph
  payload of a routine IR and the Gherkin text of a scenario batch.
\<close>

section \<open>The graph\<close>

definition graph_node :: "SemanticNode \<Rightarrow> jval" where
  "graph_node node = JObj
     [(''node_id'', JStr (node_id node)), (''kind'', JStr (node_kind_value (node_kind node))),
      (''label'', JStr (take 160 (node_text node))), (''relations'', jstrs (node_relation_refs node)),
      (''source_span'', span_json False (node_source_span node))]"

definition graph_fields :: "RoutineIR \<Rightarrow> (string \<times> jval) list" where
  "graph_fields ir =
     [(''schema_version'', JStr ''atlas-routine-graph-1.0''), (''routine_ref'', JStr (base_reference ir)),
      (''dialect'', JStr (dialect_value (ir_dialect ir))), (''source_ir_digest'', JStr (ir_content_digest ir)),
      (''nodes'', JList (map graph_node (ir_nodes ir))), (''edges'', JList (map (edge_json False) (ir_edges ir)))]"

definition render_graph :: "(string \<Rightarrow> string) \<Rightarrow> RoutineIR \<Rightarrow> jval" where
  "render_graph sha ir =
     JObj (dict_set ''content_digest'' (JStr (canonical_digest sha (JObj (graph_fields ir)))) (graph_fields ir))"

section \<open>Gherkin\<close>

fun steps :: "string \<Rightarrow> string list \<Rightarrow> string list" where
  "steps keyword [] = []"
| "steps keyword (value # vs) =
     (''      '' @ keyword @ '' '' @ value) # map (\<lambda>v. ''      And '' @ v) vs"

definition scenario_lines :: "ScenarioCandidate \<Rightarrow> string list" where
  "scenario_lines s =
     ['''', ''    Scenario: '' @ scn_name s] @ steps ''Given'' (scn_given s) @
     [''      When '' @ scn_when s] @ steps ''Then'' (scn_then s)"

definition gherkin_lines :: "ScenarioCandidateBatch \<Rightarrow> string list" where
  "gherkin_lines batch =
     [''@technical_candidate @non_authoritative @requires_vocabulary_approval'',
      ''Feature: '' @ batch_routine_ref batch @ '' '' @ dialect_value (batch_dialect batch) @ '' behavior candidates'',
      '''', ''  Rule: Extracted ordered behavior''] @ concat (map scenario_lines (batch_scenarios batch))"

definition render_gherkin :: "ScenarioCandidateBatch \<Rightarrow> string" where
  "render_gherkin batch = py_join [nl] (gherkin_lines batch) @ [nl]"

section \<open>Properties of the renderers\<close>

text \<open>The graph as a client reads it back: the values stored under a key, and the strings of a list.\<close>

fun json_get :: "string \<Rightarrow> jval \<Rightarrow> jval option" where
  "json_get k (JObj kvs) = map_of kvs k"
| "json_get k v = None"

fun json_items :: "jval option \<Rightarrow> jval list" where
  "json_items (Some (JList vs)) = vs"
| "json_items v = []"

fun json_text :: "jval option \<Rightarrow> string" where
  "json_text (Some (JStr s)) = s"
| "json_text v = []"

text \<open>
  The rendered graph is complete. Reading the payload back gives the ids and kinds of all nodes
  of the IR in order and the ends of all its edges in order, and the content digest stored in the
  payload is the canonical digest of the payload without it.
\<close>

theorem graph_read_back:
  "let g = render_graph sha ir in
   map (\<lambda>n. (json_text (json_get ''node_id'' n), json_text (json_get ''kind'' n))) (json_items (json_get ''nodes'' g)) =
     map (\<lambda>n. (node_id n, node_kind_value (node_kind n))) (ir_nodes ir) \<and>
   map (\<lambda>e. (json_text (json_get ''source_ref'' e), json_text (json_get ''target_ref'' e))) (json_items (json_get ''edges'' g)) =
     map (\<lambda>e. (edge_source_ref e, edge_target_ref e)) (ir_edges ir) \<and>
   (case g of JObj kvs \<Rightarrow> json_text (json_get ''content_digest'' g) =
      canonical_digest sha (JObj (filter (\<lambda>kv. fst kv \<noteq> ''content_digest'') kvs)) | _ \<Rightarrow> False)"
  by (simp add: render_graph_def graph_fields_def graph_node_def edge_json_def jobj_def Let_def)

text \<open>Splitting a text at its newlines recovers the lines that were joined.\<close>

fun lines_of :: "string \<Rightarrow> string \<Rightarrow> string list" where
  "lines_of cur [] = (if cur = [] then [] else [cur])"
| "lines_of cur (c # s) = (if c = nl then cur # lines_of [] s else lines_of (cur @ [c]) s)"

lemma lines_of_line: "nl \<notin> set l \<Longrightarrow> lines_of cur (l @ nl # s) = (cur @ l) # lines_of [] s"
  by (induction l arbitrary: cur) auto

lemma lines_of_join: "ls \<noteq> [] \<Longrightarrow> list_all (\<lambda>l. nl \<notin> set l) ls \<Longrightarrow> lines_of [] (py_join [nl] ls @ [nl]) = ls"
proof (induction ls rule: induct_list012)
  case (3 x y zs)
  then show ?case using lines_of_line [of x "[]" "py_join [nl] (y # zs) @ [nl]"] by simp
qed (simp_all add: lines_of_line)

text \<open>
  The Gherkin text round-trips to its lines. When no scenario text contains a line break, reading
  the text line by line gives back the header and, per scenario in order, a blank line, its title,
  its Given steps, one When step and its Then steps.
\<close>

theorem gherkin_roundtrip:
  assumes "list_all (\<lambda>l. nl \<notin> set l) (gherkin_lines batch)"
  shows "lines_of [] (render_gherkin batch) = gherkin_lines batch \<and>
    length (lines_of [] (render_gherkin batch)) =
      4 + sum_list (map (\<lambda>s. 3 + length (scn_given s) + length (scn_then s)) (batch_scenarios batch))"
proof -
  have e: "lines_of [] (render_gherkin batch) = gherkin_lines batch"
    unfolding render_gherkin_def by (rule lines_of_join [OF _ assms]) (simp add: gherkin_lines_def)
  have st: "length (steps k vs) = length vs" for k vs by (cases vs) auto
  have "length (concat (map scenario_lines ss)) = sum_list (map (\<lambda>s. 3 + length (scn_given s) + length (scn_then s)) ss)" for ss
    by (induction ss) (simp_all add: scenario_lines_def st)
  then show ?thesis unfolding e by (simp add: gherkin_lines_def)
qed

definition sample_batch :: ScenarioCandidateBatch where
  "sample_batch = \<lparr>batch_routine_ref = ''s.f'', batch_dialect = DB2_SQL_PL,
     batch_scenarios = [\<lparr>scn_scenario_id = ''scenario-0001'', scn_name = ''n'', scn_given = [''g''], scn_when = ''w'',
       scn_then = [''t'', ''u''], scn_evidence_refs = []\<rparr>], batch_source_ir_digest = [], batch_content_digest = []\<rparr>"

theorem gherkin_roundtrip_witness:
  "lines_of [] (render_gherkin sample_batch) = gherkin_lines sample_batch \<and> length (lines_of [] (render_gherkin sample_batch)) = 10"
proof -
  have h: "list_all (\<lambda>l. nl \<notin> set l) (gherkin_lines sample_batch)" by code_simp
  have n: "sum_list (map (\<lambda>s. 3 + length (scn_given s) + length (scn_then s)) (batch_scenarios sample_batch)) = 6"
    by (simp add: sample_batch_def)
  show ?thesis using gherkin_roundtrip [OF h] unfolding n by (elim conjE, intro conjI) simp_all
qed

end
