(* ===== verification/SqlPlAst.thy ===== *)
theory SqlPlAst
  imports AtlasPrelude
begin

text \<open>
  The data of the Db2 behaviour engine: the syntax tree of a procedure
  (\<open>ojas_reconciler/db2_behavior/parsing/models.py\<close>) and the control-flow graph over it
  (\<open>analysis/models.py\<close>). A pydantic model is a record, an enum or a closed set of literals a
  datatype; optional fields are options and tuples are lists. The syntax tree is a flat list of
  nodes that refer to each other by id.
\<close>

section \<open>Enumerations\<close>

datatype ParseOutcome = PARSES_COMPLETE | PARSES_PARTIAL | REFUSES_EXPECTED | REFUSES_UNEXPECTED

datatype NodeKind =
    NK_PROCEDURE | NK_COMPOUND | NK_DECLARE_VARIABLE | NK_DECLARE_CURSOR | NK_DECLARE_CONDITION | NK_SET
  | NK_IF | NK_ELSEIF | NK_ELSE | NK_SELECT_INTO | NK_SIGNAL | NK_RESIGNAL | NK_GET_DIAGNOSTICS | NK_CALL
  | NK_DML | NK_COMMIT | NK_ROLLBACK | NK_SAVEPOINT | NK_RETURN | NK_OPEN_CURSOR | NK_FETCH_CURSOR
  | NK_CLOSE_CURSOR | NK_LEAVE | NK_ITERATE | NK_PREPARE | NK_EXECUTE | NK_EXECUTE_IMMEDIATE
  | NK_HANDLER_REGION | NK_LOOP_REGION | NK_IF_REGION | NK_IF_ARM | NK_OPAQUE

fun kind_value :: "NodeKind \<Rightarrow> string" where
  "kind_value NK_PROCEDURE = ''PROCEDURE''"
| "kind_value NK_COMPOUND = ''COMPOUND''"
| "kind_value NK_DECLARE_VARIABLE = ''DECLARE_VARIABLE''"
| "kind_value NK_DECLARE_CURSOR = ''DECLARE_CURSOR''"
| "kind_value NK_DECLARE_CONDITION = ''DECLARE_CONDITION''"
| "kind_value NK_SET = ''SET''"
| "kind_value NK_IF = ''IF''"
| "kind_value NK_ELSEIF = ''ELSEIF''"
| "kind_value NK_ELSE = ''ELSE''"
| "kind_value NK_SELECT_INTO = ''SELECT_INTO''"
| "kind_value NK_SIGNAL = ''SIGNAL''"
| "kind_value NK_RESIGNAL = ''RESIGNAL''"
| "kind_value NK_GET_DIAGNOSTICS = ''GET_DIAGNOSTICS''"
| "kind_value NK_CALL = ''CALL''"
| "kind_value NK_DML = ''DML''"
| "kind_value NK_COMMIT = ''COMMIT''"
| "kind_value NK_ROLLBACK = ''ROLLBACK''"
| "kind_value NK_SAVEPOINT = ''SAVEPOINT''"
| "kind_value NK_RETURN = ''RETURN''"
| "kind_value NK_OPEN_CURSOR = ''OPEN_CURSOR''"
| "kind_value NK_FETCH_CURSOR = ''FETCH_CURSOR''"
| "kind_value NK_CLOSE_CURSOR = ''CLOSE_CURSOR''"
| "kind_value NK_LEAVE = ''LEAVE''"
| "kind_value NK_ITERATE = ''ITERATE''"
| "kind_value NK_PREPARE = ''PREPARE''"
| "kind_value NK_EXECUTE = ''EXECUTE''"
| "kind_value NK_EXECUTE_IMMEDIATE = ''EXECUTE_IMMEDIATE''"
| "kind_value NK_HANDLER_REGION = ''HANDLER_REGION''"
| "kind_value NK_LOOP_REGION = ''LOOP_REGION''"
| "kind_value NK_IF_REGION = ''IF_REGION''"
| "kind_value NK_IF_ARM = ''IF_ARM''"
| "kind_value NK_OPAQUE = ''OPAQUE''"

datatype HandlerKind = HK_CONTINUE | HK_EXIT | HK_UNDO

datatype Continuation = AFTER_RAISING_STATEMENT | EXIT_DECLARING_COMPOUND | UNDO_AND_EXIT_DECLARING_COMPOUND

datatype ConditionResolution =
    DIRECT_SQLSTATE | BUILTIN_CONDITION | NAMED_CONDITION_RESOLVED | NAMED_CONDITION_UNRESOLVED | CONDITION_CLASS

datatype LoopKind = LK_LOOP | LK_WHILE | LK_REPEAT | LK_FOR

datatype ArmKind = AK_IF | AK_ELSEIF | AK_ELSE

datatype ArityStatus = ARITY_MATCHED | TOO_FEW_PROJECTIONS | TOO_MANY_PROJECTIONS | PROJECTION_COUNT_UNRESOLVED

datatype ExecutionKind = EX_PREPARED | EX_IMMEDIATE

datatype StructureCompleteness = STRUCTURE_COMPLETE | STRUCTURE_PARTIAL

section \<open>The syntax tree\<close>

record SourceRange =
  sr_start_line :: nat
  sr_start_column :: nat
  sr_start_offset :: nat
  sr_end_line :: nat
  sr_end_column :: nat
  sr_end_offset :: nat

record SelectIntoBinding =
  si_target_names :: "string list"
  si_projection_count :: "nat option"
  si_arity_status :: ArityStatus
  si_original_statement_text :: string
  si_residual_query_text :: string
  si_removed_range :: SourceRange

record AssignmentBinding =
  as_target_name :: string
  as_expression_text :: string

record FetchBinding =
  fb_cursor_name :: string
  fb_target_names :: "string list"

record DynamicPrepareBinding =
  dp_statement_name :: string
  dp_source_expression :: string

record DynamicExecuteBinding =
  de_execution_kind :: ExecutionKind
  de_statement_name :: "string option"
  de_source_expression :: "string option"
  de_into_target_names :: "string list"
  de_using_expressions :: "string list"

record ConditionDeclaration =
  cd_condition_name :: string
  cd_sqlstate :: string
  cd_lexical_scope_ref :: string

record CompoundRegion =
  cr_label :: "string option"
  cr_lexical_scope_ref :: string
  cr_body_node_refs :: "string list"
  cr_local_declaration_refs :: "string list"
  cr_condition_declaration_refs :: "string list"
  cr_analysis_completeness :: StructureCompleteness

record HandlerRegion =
  hr_handler_kind :: HandlerKind
  hr_handled_condition_text :: string
  hr_lexical_scope_ref :: string
  hr_named_condition_ref :: "string option"
  hr_resolved_sqlstate :: "string option"
  hr_condition_resolution_status :: ConditionResolution
  hr_body_node_refs :: "string list"
  hr_continuation_semantics :: Continuation
  hr_continuation_target_ref :: "string option"
  hr_state_assignment_refs :: "string list"
  hr_analysis_completeness :: StructureCompleteness

record LoopRegion =
  lp_loop_kind :: LoopKind
  lp_label :: "string option"
  lp_condition_text :: "string option"
  lp_body_node_refs :: "string list"
  lp_analysis_completeness :: StructureCompleteness

record IfArm =
  arm_arm_id :: string
  arm_arm_kind :: ArmKind
  arm_ordered_precedence :: nat
  arm_cond_text :: "string option"
  arm_body_node_refs :: "string list"
  arm_source_range :: SourceRange

record IfRegion =
  if_arms :: "IfArm list"
  if_source_construct :: string
  if_selector_expression :: "string option"
  if_analysis_completeness :: StructureCompleteness

text \<open>The merge structure of a node is not read by the passes modelled here and is left out.\<close>

record AstNode =
  an_node_id :: string
  an_kind :: NodeKind
  an_source_range :: SourceRange
  an_text :: string
  an_child_refs :: "string list"
  an_select_into_binding :: "SelectIntoBinding option"
  an_assignment_binding :: "AssignmentBinding option"
  an_fetch_binding :: "FetchBinding option"
  an_dynamic_prepare_binding :: "DynamicPrepareBinding option"
  an_dynamic_execute_binding :: "DynamicExecuteBinding option"
  an_handler_region :: "HandlerRegion option"
  an_condition_declaration :: "ConditionDeclaration option"
  an_compound_region :: "CompoundRegion option"
  an_lexical_scope_ref :: "string option"
  an_loop_region :: "LoopRegion option"
  an_if_region :: "IfRegion option"
  an_if_arm :: "IfArm option"
  an_opaque_reason :: "string option"

record ProcedureAst =
  pa_node_id :: string
  pa_schema_name :: "string option"
  pa_procedure_name :: string
  pa_commit_on_return :: "string option"
  pa_body_node_refs :: "string list"
  pa_nodes :: "AstNode list"

section \<open>The control-flow graph\<close>

datatype CfgNodeKind = CN_ENTRY | CN_NORMAL_EXIT | CN_EXCEPTIONAL_EXIT | CN_AST | CN_HANDLER_EXIT

datatype CfgEdgeKind =
    CE_ENTRY | CE_SEQUENTIAL | CE_IF_ARM | CE_IF_NO_MATCH | CE_LOOP_BODY | CE_LOOP_EXIT | CE_LOOP_BACK
  | CE_LEAVE | CE_ITERATE | CE_RETURN | CE_SIGNAL | CE_RESIGNAL | CE_HANDLER | CE_HANDLER_BODY
  | CE_HANDLER_FALLTHROUGH

fun edge_value :: "CfgEdgeKind \<Rightarrow> string" where
  "edge_value CE_ENTRY = ''ENTRY''"
| "edge_value CE_SEQUENTIAL = ''SEQUENTIAL''"
| "edge_value CE_IF_ARM = ''IF_ARM''"
| "edge_value CE_IF_NO_MATCH = ''IF_NO_MATCH''"
| "edge_value CE_LOOP_BODY = ''LOOP_BODY''"
| "edge_value CE_LOOP_EXIT = ''LOOP_EXIT''"
| "edge_value CE_LOOP_BACK = ''LOOP_BACK''"
| "edge_value CE_LEAVE = ''LEAVE''"
| "edge_value CE_ITERATE = ''ITERATE''"
| "edge_value CE_RETURN = ''RETURN''"
| "edge_value CE_SIGNAL = ''SIGNAL''"
| "edge_value CE_RESIGNAL = ''RESIGNAL''"
| "edge_value CE_HANDLER = ''HANDLER''"
| "edge_value CE_HANDLER_BODY = ''HANDLER_BODY''"
| "edge_value CE_HANDLER_FALLTHROUGH = ''HANDLER_FALLTHROUGH''"

record CfgNode =
  cn_cfg_node_id :: string
  cn_node_kind :: CfgNodeKind
  cn_ast_node_ref :: "string option"
  cn_label :: string
  cn_source_range :: "SourceRange option"

record CfgEdge =
  ce_edge_id :: string
  ce_source_ref :: string
  ce_target_ref :: string
  ce_edge_kind :: CfgEdgeKind
  ce_condition_text :: "string option"
  ce_branch_index :: "nat option"
  ce_handler_region_ref :: "string option"
  ce_continuation_target_ref :: "string option"

record HandlerFlowBinding =
  hf_binding_id :: string
  hf_source_ast_node_ref :: string
  hf_handler_region_ref :: string
  hf_handled_condition_text :: string
  hf_continuation_semantics :: Continuation
  hf_continuation_target_ref :: string

record ControlFlowGraph =
  cfg_procedure_ast_ref :: string
  cfg_entry_ref :: string
  cfg_normal_exit_ref :: string
  cfg_exceptional_exit_ref :: string
  cfg_nodes :: "CfgNode list"
  cfg_edges :: "CfgEdge list"
  cfg_handler_bindings :: "HandlerFlowBinding list"
  cfg_excluded_declaration_refs :: "string list"

definition cfg_node_ids :: "ControlFlowGraph \<Rightarrow> string set" where
  "cfg_node_ids g = cn_cfg_node_id ` set (cfg_nodes g)"

text \<open>Python's \<open>value or default\<close> on an optional string.\<close>

definition str_or :: "string option \<Rightarrow> string \<Rightarrow> string" where
  "str_or v d = (case v of None \<Rightarrow> d | Some s \<Rightarrow> if s = [] then d else s)"

text \<open>A graph is closed when its entry and its exits are nodes and every edge joins two nodes.\<close>

definition cfg_closed :: "ControlFlowGraph \<Rightarrow> bool" where
  "cfg_closed g \<longleftrightarrow>
     {cfg_entry_ref g, cfg_normal_exit_ref g, cfg_exceptional_exit_ref g} \<subseteq> cfg_node_ids g \<and>
     (\<forall>e \<in> set (cfg_edges g). ce_source_ref e \<in> cfg_node_ids g \<and> ce_target_ref e \<in> cfg_node_ids g)"

text \<open>A node with no bindings and regions, for small trees.\<close>

definition zero_range :: SourceRange where
  "zero_range = \<lparr>sr_start_line = 1, sr_start_column = 1, sr_start_offset = 0, sr_end_line = 1, sr_end_column = 1, sr_end_offset = 0\<rparr>"

definition bare_node :: "string \<Rightarrow> NodeKind \<Rightarrow> AstNode" where
  "bare_node i k = \<lparr>an_node_id = i, an_kind = k, an_source_range = zero_range, an_text = [], an_child_refs = [],
     an_select_into_binding = None, an_assignment_binding = None, an_fetch_binding = None, an_dynamic_prepare_binding = None,
     an_dynamic_execute_binding = None, an_handler_region = None, an_condition_declaration = None, an_compound_region = None,
     an_lexical_scope_ref = None, an_loop_region = None, an_if_region = None, an_if_arm = None, an_opaque_reason = None\<rparr>"

end
