(* ===== verification/Cfg.thy ===== *)
theory Cfg
  imports SqlPlAst PyRegex "HOL-Library.List_Lexorder" "HOL-Library.Char_ord"
begin

text \<open>
  The control-flow graph builder of the Db2 behaviour engine, \<open>analysis/cfg.py\<close>. The dictionaries
  the builder fills are association lists in insertion order, collected in one state record that
  every method returns updated; a missing node is a \<open>KeyError\<close>. The recursion of
  \<open>_build_node\<close> through node references has fuel, and running out of it is the error
  \<open>CfgRecursion\<close>, as a cyclic tree makes Python raise; a tree whose references descend needs
  no more fuel than its height. SHA-256 is the parameter \<open>sha\<close>. The content digest of the graph
  is a function of its other fields that no pass reads and is left out.
\<close>

datatype cfg_error = CfgKeyError string | CfgRecursion

section \<open>Literal conditions\<close>

definition rx_literal_comparison :: rx where
  "rx_literal_comparison =
     rseqs [RBos, ws0, RGroup 1 (ralts [rseqs [ROpt (kw ''-''), rplus dg, ROpt (rseqs [kw ''.'',
     rplus dg])], rseqs [kw [CHR 0x27], RStar (ralts [kw [CHR 0x27, CHR 0x27], ncls [CHR
     0x27]]), kw [CHR 0x27]]]), ws0, RGroup 2 (ralts [kw ''='', kw ''<>'', kw ''!='', kw ''<='',
     kw ''>='', kw ''<'', kw ''>'']), ws0, RGroup 3 (ralts [rseqs [ROpt (kw ''-''), rplus dg,
     ROpt (rseqs [kw ''.'', rplus dg])], rseqs [kw [CHR 0x27], RStar (ralts [kw [CHR 0x27, CHR
     0x27], ncls [CHR 0x27]]), kw [CHR 0x27]]]), ws0, REos]"

text \<open>\<open>Decimal(text)\<close> as a mantissa and a number of decimal places; comparison is exact.\<close>

datatype literal = LText string | LNumber int nat

definition decimal_of :: "string \<Rightarrow> literal" where
  "decimal_of s =
     (let negative = py_startswith s ''-'';
          body = (if negative then tl s else s);
          whole = takeWhile (\<lambda>c. c \<noteq> CHR ''.'') body;
          places = drop (length whole + 1) body;
          value = int (dec_value (whole @ places))
      in LNumber (if negative then - value else value) (length places))"

definition literal_of :: "string \<Rightarrow> literal" where
  "literal_of raw =
     (if py_startswith raw [squote] then LText (py_replace (py_slice raw 1 (length raw - 1)) [squote, squote] [squote])
      else decimal_of raw)"

definition compare_op :: "string \<Rightarrow> bool \<Rightarrow> bool \<Rightarrow> bool option" where
  "compare_op op eq lt =
     (if op = ''='' then Some eq
      else if op = ''<>'' \<or> op = ''!='' then Some (\<not> eq)
      else if op = ''<'' then Some lt
      else if op = ''<='' then Some (lt \<or> eq)
      else if op = ''>'' then Some (\<not> lt \<and> \<not> eq)
      else if op = ''>='' then Some (\<not> lt)
      else None)"

definition literal_condition_truth :: "string option \<Rightarrow> bool option" where
  "literal_condition_truth condition =
     (case condition of
        None \<Rightarrow> None
      | Some text \<Rightarrow>
          (case re_match rx_literal_comparison text of
             None \<Rightarrow> None
           | Some m \<Rightarrow>
               (case (literal_of (m_str m 1), literal_of (m_str m 3)) of
                  (LText l, LText r) \<Rightarrow> compare_op (m_str m 2) (l = r) (l < r)
                | (LNumber l a, LNumber r b) \<Rightarrow>
                    compare_op (m_str m 2) (l * 10 ^ b = r * 10 ^ a) (l * 10 ^ b < r * 10 ^ a)
                | _ \<Rightarrow> None)))"

definition negated_condition :: "string option \<Rightarrow> string option" where
  "negated_condition condition =
     (case condition of None \<Rightarrow> None | Some c \<Rightarrow> if c = [] then None else Some (''NOT ('' @ c @ '')''))"

section \<open>Builder state\<close>

record control_context =
  cc_exit_ref :: string
  cc_label :: "string option"
  cc_loop_header_ref :: "string option"

record cfg_state =
  cb_nodes :: "(string \<times> CfgNode) list"
  cb_edges :: "(string \<times> CfgEdge) list"
  cb_bindings :: "HandlerFlowBinding list"
  cb_excluded :: "string list"

definition cfg_by_id :: "ProcedureAst \<Rightarrow> string \<Rightarrow> AstNode option" where
  "cfg_by_id ast = map_of (dict_update [] (map (\<lambda>n. (an_node_id n, n)) (pa_nodes ast)))"

definition cfg_ref :: "string \<Rightarrow> string" where
  "cfg_ref ast_ref = ''cfg:'' @ ast_ref"

definition cfg_node_for_ast :: "AstNode \<Rightarrow> cfg_state \<Rightarrow> string \<times> cfg_state" where
  "cfg_node_for_ast node st =
     (let ref = cfg_ref (an_node_id node) in
      (ref, if map_of (cb_nodes st) ref \<noteq> None then st
            else st\<lparr>cb_nodes := dict_set ref
              \<lparr>cn_cfg_node_id = ref, cn_node_kind = CN_AST, cn_ast_node_ref = Some (an_node_id node),
               cn_label = kind_value (an_kind node) @ ''@'' @ nat_dec (sr_start_line (an_source_range node)),
               cn_source_range = Some (an_source_range node)\<rparr> (cb_nodes st)\<rparr>))"

definition synthetic_ref :: "(string \<Rightarrow> string) \<Rightarrow> ProcedureAst \<Rightarrow> string \<Rightarrow> string" where
  "synthetic_ref sha ast key = ''cfg-'' @ take 20 (sha (pa_node_id ast @ ''|'' @ key))"

definition synthetic_node ::
  "(string \<Rightarrow> string) \<Rightarrow> ProcedureAst \<Rightarrow> string \<Rightarrow> CfgNodeKind \<Rightarrow> string \<Rightarrow> cfg_state \<Rightarrow> cfg_state" where
  "synthetic_node sha ast key kind label st =
     st\<lparr>cb_nodes := dict_set (synthetic_ref sha ast key)
          \<lparr>cn_cfg_node_id = synthetic_ref sha ast key, cn_node_kind = kind, cn_ast_node_ref = None, cn_label = label,
           cn_source_range = None\<rparr> (cb_nodes st)\<rparr>"

abbreviation normal_exit :: "(string \<Rightarrow> string) \<Rightarrow> ProcedureAst \<Rightarrow> string" where
  "normal_exit sha ast \<equiv> synthetic_ref sha ast ''normal-exit''"

abbreviation exceptional_exit :: "(string \<Rightarrow> string) \<Rightarrow> ProcedureAst \<Rightarrow> string" where
  "exceptional_exit sha ast \<equiv> synthetic_ref sha ast ''exceptional-exit''"

definition or_empty :: "string option \<Rightarrow> string" where
  "or_empty v = (case v of None \<Rightarrow> [] | Some s \<Rightarrow> s)"

definition edge_of :: "(string \<Rightarrow> string) \<Rightarrow> CfgEdge \<Rightarrow> CfgEdge" where
  "edge_of sha e = e\<lparr>ce_edge_id := ''edge-'' @ take 20 (sha (py_join ''|''
     [ce_source_ref e, ce_target_ref e, edge_value (ce_edge_kind e), or_empty (ce_condition_text e),
      (case ce_branch_index e of None \<Rightarrow> [] | Some i \<Rightarrow> nat_dec i), or_empty (ce_handler_region_ref e),
      or_empty (ce_continuation_target_ref e)]))\<rparr>"

definition add_cfg_edge :: "(string \<Rightarrow> string) \<Rightarrow> CfgEdge \<Rightarrow> cfg_state \<Rightarrow> cfg_state" where
  "add_cfg_edge sha e st = st\<lparr>cb_edges := dict_set (ce_edge_id (edge_of sha e)) (edge_of sha e) (cb_edges st)\<rparr>"

definition plain_edge :: "string \<Rightarrow> string \<Rightarrow> CfgEdgeKind \<Rightarrow> CfgEdge" where
  "plain_edge source target kind = \<lparr>ce_edge_id = [], ce_source_ref = source, ce_target_ref = target, ce_edge_kind = kind,
     ce_condition_text = None, ce_branch_index = None, ce_handler_region_ref = None, ce_continuation_target_ref = None\<rparr>"

section \<open>Jumps\<close>

definition jump_label :: "string \<Rightarrow> string option" where
  "jump_label text =
     (let parts = py_split (py_rstrip_of (in_chars '';'') (py_strip text))
      in if 1 < length parts then Some (py_upper (py_strip_of (in_chars [dquote]) (parts ! 1))) else None)"

definition control_candidates :: "AstNode \<Rightarrow> control_context list \<Rightarrow> bool \<Rightarrow> control_context list" where
  "control_candidates node control_stack iter =
     filter (\<lambda>c. (jump_label (an_text node) = None \<or> cc_label c = jump_label (an_text node)) \<and>
                 (\<not> iter \<or> cc_loop_header_ref c \<noteq> None)) (rev control_stack)"

definition resolve_control_target ::
  "(string \<Rightarrow> string) \<Rightarrow> ProcedureAst \<Rightarrow> AstNode \<Rightarrow> control_context list \<Rightarrow> bool \<Rightarrow> string" where
  "resolve_control_target sha ast node control_stack iter =
     (case control_candidates node control_stack iter of
        context # _ \<Rightarrow>
          (case cc_loop_header_ref context of
             Some header \<Rightarrow> if iter then header else cc_exit_ref context
           | None \<Rightarrow> cc_exit_ref context)
      | [] \<Rightarrow> if \<not> iter \<and> jump_label (an_text node) \<noteq> None then normal_exit sha ast else exceptional_exit sha ast)"

definition context_label :: "string option \<Rightarrow> string option" where
  "context_label label = (let l = py_upper (or_empty label) in if l = [] then None else Some l)"

section \<open>Building nodes\<close>

type_synonym builder = "string \<Rightarrow> string \<Rightarrow> control_context list \<Rightarrow> cfg_state \<Rightarrow> cfg_error + (string \<times> cfg_state)"

text \<open>\<open>for ref in reversed(refs): current = self._build_node(ref, current, control_stack)\<close>.\<close>

fun build_sequence :: "builder \<Rightarrow> string list \<Rightarrow> string \<Rightarrow> control_context list \<Rightarrow> cfg_state \<Rightarrow> cfg_error + (string \<times> cfg_state)" where
  "build_sequence build [] continuation_ref control_stack st = Inr (continuation_ref, st)"
| "build_sequence build (ref # refs) continuation_ref control_stack st =
     (case build_sequence build refs continuation_ref control_stack st of
        Inl e \<Rightarrow> Inl e
      | Inr (current, st') \<Rightarrow> build ref current control_stack st')"

definition declaration_kinds :: "NodeKind list" where
  "declaration_kinds = [NK_DECLARE_VARIABLE, NK_DECLARE_CURSOR, NK_DECLARE_CONDITION, NK_HANDLER_REGION]"

text \<open>One arm of an IF: its node, its body and the edge into the body.\<close>

definition build_arm ::
  "(string \<Rightarrow> string) \<Rightarrow> ProcedureAst \<Rightarrow> builder \<Rightarrow> string \<Rightarrow> control_context list \<Rightarrow> IfArm \<Rightarrow> cfg_state \<Rightarrow> cfg_error + (string \<times> cfg_state)" where
  "build_arm sha ast build continuation_ref control_stack arm st =
     (case cfg_by_id ast (arm_arm_id arm) of
        None \<Rightarrow> Inl (CfgKeyError (arm_arm_id arm))
      | Some arm_node \<Rightarrow>
          (let (arm_ref, st') = cfg_node_for_ast arm_node st
           in case build_sequence build (arm_body_node_refs arm) continuation_ref control_stack st' of
                Inl e \<Rightarrow> Inl e
              | Inr (arm_entry, st'') \<Rightarrow> Inr (arm_ref, add_cfg_edge sha (plain_edge arm_ref arm_entry CE_SEQUENTIAL) st'')))"

definition arm_truth :: "IfArm \<Rightarrow> bool option" where
  "arm_truth arm = (if arm_arm_kind arm = AK_ELSE then Some True else literal_condition_truth (arm_cond_text arm))"

definition arm_edge :: "string \<Rightarrow> string \<Rightarrow> nat \<Rightarrow> IfArm \<Rightarrow> CfgEdge" where
  "arm_edge ref arm_ref index arm =
     (plain_edge ref arm_ref CE_IF_ARM)\<lparr>ce_condition_text := arm_cond_text arm, ce_branch_index := Some index\<rparr>"

text \<open>The loop over the arms: the flags \<open>has_else\<close> and \<open>prior_arm_always_taken\<close> and the state.\<close>

fun build_arms ::
  "(string \<Rightarrow> string) \<Rightarrow> ProcedureAst \<Rightarrow> builder \<Rightarrow> string \<Rightarrow> string \<Rightarrow> control_context list \<Rightarrow> nat \<Rightarrow> IfArm list \<Rightarrow>
   bool \<Rightarrow> bool \<Rightarrow> cfg_state \<Rightarrow> cfg_error + (bool \<times> bool \<times> cfg_state)" where
  "build_arms sha ast build ref continuation_ref control_stack index [] has_else taken st = Inr (has_else, taken, st)"
| "build_arms sha ast build ref continuation_ref control_stack index (arm # arms) has_else taken st =
     (case build_arm sha ast build continuation_ref control_stack arm st of
        Inl e \<Rightarrow> Inl e
      | Inr (arm_ref, st') \<Rightarrow>
          (let skipped = (taken \<or> arm_truth arm = Some False)
           in build_arms sha ast build ref continuation_ref control_stack (index + 1) arms
                (has_else \<or> arm_arm_kind arm = AK_ELSE) (if skipped then taken else arm_truth arm = Some True)
                (if skipped then st' else add_cfg_edge sha (arm_edge ref arm_ref index arm) st')))"

definition build_compound :: "(string \<Rightarrow> string) \<Rightarrow> builder \<Rightarrow> string \<Rightarrow> CompoundRegion \<Rightarrow> builder" where
  "build_compound sha build ref region ast_ref continuation_ref control_stack st =
     (case build_sequence build (cr_body_node_refs region) continuation_ref
        (control_stack @ [\<lparr>cc_exit_ref = continuation_ref, cc_label = context_label (cr_label region), cc_loop_header_ref = None\<rparr>]) st of
        Inl e \<Rightarrow> Inl e
      | Inr (body_entry, st') \<Rightarrow> Inr (ref, add_cfg_edge sha (plain_edge ref body_entry CE_SEQUENTIAL) st'))"

definition build_if :: "(string \<Rightarrow> string) \<Rightarrow> ProcedureAst \<Rightarrow> builder \<Rightarrow> string \<Rightarrow> IfRegion \<Rightarrow> builder" where
  "build_if sha ast build ref region ast_ref continuation_ref control_stack st =
     (case build_arms sha ast build ref continuation_ref control_stack 0 (if_arms region) False False st of
        Inl e \<Rightarrow> Inl e
      | Inr (has_else, taken, st') \<Rightarrow>
          Inr (ref, if \<not> has_else \<and> \<not> taken then add_cfg_edge sha (plain_edge ref continuation_ref CE_IF_NO_MATCH) st' else st'))"

definition build_loop :: "(string \<Rightarrow> string) \<Rightarrow> builder \<Rightarrow> string \<Rightarrow> LoopRegion \<Rightarrow> builder" where
  "build_loop sha build ref region ast_ref continuation_ref control_stack st =
     (case build_sequence build (lp_body_node_refs region) ref
        (control_stack @ [\<lparr>cc_exit_ref = continuation_ref, cc_label = context_label (lp_label region), cc_loop_header_ref = Some ref\<rparr>]) st of
        Inl e \<Rightarrow> Inl e
      | Inr (body_entry, st1) \<Rightarrow>
          (let st2 = add_cfg_edge sha ((plain_edge ref body_entry CE_LOOP_BODY)\<lparr>ce_condition_text := lp_condition_text region\<rparr>) st1
           in Inr (ref, if lp_loop_kind region \<noteq> LK_LOOP then
                 add_cfg_edge sha ((plain_edge ref continuation_ref CE_LOOP_EXIT)
                   \<lparr>ce_condition_text := negated_condition (lp_condition_text region)\<rparr>) st2 else st2)))"

text \<open>The statements that do not contain others.\<close>

definition simple_edge :: "(string \<Rightarrow> string) \<Rightarrow> ProcedureAst \<Rightarrow> AstNode \<Rightarrow> string \<Rightarrow> control_context list \<Rightarrow> string \<times> CfgEdgeKind" where
  "simple_edge sha ast node continuation_ref control_stack =
     (case an_kind node of
        NK_RETURN \<Rightarrow> (normal_exit sha ast, CE_RETURN)
      | NK_RESIGNAL \<Rightarrow> (exceptional_exit sha ast, CE_RESIGNAL)
      | NK_SIGNAL \<Rightarrow> (exceptional_exit sha ast, CE_SIGNAL)
      | NK_LEAVE \<Rightarrow> (resolve_control_target sha ast node control_stack False, CE_LEAVE)
      | NK_ITERATE \<Rightarrow> (resolve_control_target sha ast node control_stack True, CE_ITERATE)
      | _ \<Rightarrow> (continuation_ref, CE_SEQUENTIAL))"

definition build_simple :: "(string \<Rightarrow> string) \<Rightarrow> ProcedureAst \<Rightarrow> AstNode \<Rightarrow> string \<Rightarrow> builder" where
  "build_simple sha ast node ref ast_ref continuation_ref control_stack st =
     (case simple_edge sha ast node continuation_ref control_stack of
        (target, kind) \<Rightarrow> Inr (ref, add_cfg_edge sha (plain_edge ref target kind) st))"

definition build_step :: "(string \<Rightarrow> string) \<Rightarrow> ProcedureAst \<Rightarrow> builder \<Rightarrow> builder" where
  "build_step sha ast build ast_ref continuation_ref control_stack st =
     (case cfg_by_id ast ast_ref of
        None \<Rightarrow> Inl (CfgKeyError ast_ref)
      | Some node \<Rightarrow>
          if an_kind node \<in> set declaration_kinds then
            Inr (continuation_ref, st\<lparr>cb_excluded := cb_excluded st @ [ast_ref]\<rparr>)
          else
            (let (ref, st') = cfg_node_for_ast node st in
             case (an_kind node, an_compound_region node, an_if_region node, an_loop_region node) of
               (NK_COMPOUND, Some region, _, _) \<Rightarrow> build_compound sha build ref region ast_ref continuation_ref control_stack st'
             | (NK_IF_REGION, _, Some region, _) \<Rightarrow> build_if sha ast build ref region ast_ref continuation_ref control_stack st'
             | (NK_LOOP_REGION, _, _, Some region) \<Rightarrow> build_loop sha build ref region ast_ref continuation_ref control_stack st'
             | _ \<Rightarrow> build_simple sha ast node ref ast_ref continuation_ref control_stack st'))"

primrec build_node :: "nat \<Rightarrow> (string \<Rightarrow> string) \<Rightarrow> ProcedureAst \<Rightarrow> builder" where
  "build_node 0 sha ast = (\<lambda>ast_ref continuation_ref control_stack st. Inl CfgRecursion)"
| "build_node (Suc fuel) sha ast = build_step sha ast (build_node fuel sha ast)"

section \<open>Handlers\<close>

definition cfg_handlers :: "ProcedureAst \<Rightarrow> (AstNode \<times> HandlerRegion) list" where
  "cfg_handlers ast = List.map_filter (\<lambda>n.
     if an_kind n = NK_HANDLER_REGION then map_option (\<lambda>r. (n, r)) (an_handler_region n) else None) (pa_nodes ast)"

definition handler_exit_key :: "AstNode \<Rightarrow> string" where
  "handler_exit_key node = ''handler-exit:'' @ an_node_id node"

definition handler_fallthrough :: "(string \<Rightarrow> string) \<Rightarrow> ProcedureAst \<Rightarrow> AstNode \<Rightarrow> HandlerRegion \<Rightarrow> string" where
  "handler_fallthrough sha ast node region =
     (if hr_handler_kind region = HK_CONTINUE then synthetic_ref sha ast (handler_exit_key node) else normal_exit sha ast)"

definition handler_enter :: "(string \<Rightarrow> string) \<Rightarrow> ProcedureAst \<Rightarrow> AstNode \<Rightarrow> HandlerRegion \<Rightarrow> cfg_state \<Rightarrow> cfg_state" where
  "handler_enter sha ast node region st =
     synthetic_node sha ast (handler_exit_key node) CN_HANDLER_EXIT (''HANDLER_EXIT '' @ hr_handled_condition_text region)
       (snd (cfg_node_for_ast node st))"

definition handler_edges :: "(string \<Rightarrow> string) \<Rightarrow> string \<Rightarrow> string \<Rightarrow> string \<Rightarrow> cfg_state \<Rightarrow> cfg_state" where
  "handler_edges sha handler_ref fallthrough body_entry st =
     (let st' = add_cfg_edge sha (plain_edge handler_ref body_entry CE_HANDLER_BODY) st
      in if body_entry = fallthrough then add_cfg_edge sha (plain_edge handler_ref fallthrough CE_HANDLER_FALLTHROUGH) st' else st')"

definition build_handler :: "nat \<Rightarrow> (string \<Rightarrow> string) \<Rightarrow> ProcedureAst \<Rightarrow> AstNode \<times> HandlerRegion \<Rightarrow> cfg_state \<Rightarrow> cfg_error + cfg_state" where
  "build_handler fuel sha ast nr st =
     (case nr of (node, region) \<Rightarrow>
        case build_sequence (build_node fuel sha ast) (hr_body_node_refs region) (handler_fallthrough sha ast node region) []
               (handler_enter sha ast node region st) of
          Inl e \<Rightarrow> Inl e
        | Inr (body_entry, st') \<Rightarrow>
            Inr (handler_edges sha (fst (cfg_node_for_ast node st)) (handler_fallthrough sha ast node region) body_entry st'))"

fun build_handler_subgraphs ::
  "nat \<Rightarrow> (string \<Rightarrow> string) \<Rightarrow> ProcedureAst \<Rightarrow> (AstNode \<times> HandlerRegion) list \<Rightarrow> cfg_state \<Rightarrow> cfg_error + cfg_state" where
  "build_handler_subgraphs fuel sha ast [] st = Inr st"
| "build_handler_subgraphs fuel sha ast (h # hs) st =
     (case build_handler fuel sha ast h st of
        Inl e \<Rightarrow> Inl e
      | Inr st' \<Rightarrow> build_handler_subgraphs fuel sha ast hs st')"

section \<open>Scopes\<close>

definition scope_parents :: "ProcedureAst \<Rightarrow> (string \<times> string option) list" where
  "scope_parents ast = foldl (\<lambda>d node.
     (let d' = (case an_compound_region node of
                  Some r \<Rightarrow> dict_set (an_node_id node) (Some (cr_lexical_scope_ref r)) d | None \<Rightarrow> d)
      in case an_handler_region node of
           Some r \<Rightarrow> if map_of d' (an_node_id node) \<noteq> None then d' else dict_set (an_node_id node) (Some (hr_lexical_scope_ref r)) d'
         | None \<Rightarrow> d')) [(''procedure-body'', None)] (pa_nodes ast)"

definition scope_parent :: "(string \<times> string option) list \<Rightarrow> string \<Rightarrow> string option" where
  "scope_parent parents scope = (case map_of parents scope of Some p \<Rightarrow> p | None \<Rightarrow> None)"

lemma scope_parent_Some: "scope_parent parents scope = Some p \<Longrightarrow> scope \<in> fst ` set parents"
  by (auto simp: scope_parent_def split: option.splits dest!: map_of_SomeD intro: rev_image_eqI)

lemma scope_seen_less:
  "scope_parent parents scope = Some p \<Longrightarrow> scope \<notin> set seen \<Longrightarrow>
   card (fst ` set parents - insert scope (set seen)) < card (fst ` set parents - set seen)"
  by (rule psubset_card_mono) (auto dest: scope_parent_Some)

function scope_contains_from :: "(string \<times> string option) list \<Rightarrow> string \<Rightarrow> string \<Rightarrow> string list \<Rightarrow> bool" where
  "scope_contains_from parents handler_scope current seen =
     (if current \<in> set seen then handler_scope = ''procedure-body''
      else if current = handler_scope then True
      else case scope_parent parents current of
        None \<Rightarrow> handler_scope = ''procedure-body''
      | Some parent \<Rightarrow> scope_contains_from parents handler_scope parent (current # seen))"
  by pat_completeness auto

termination scope_contains_from
  by (relation "measure (\<lambda>(parents, h, current, seen). card (fst ` set parents - set seen))") (simp_all add: scope_seen_less)

function scope_depth_from :: "(string \<times> string option) list \<Rightarrow> string \<Rightarrow> string list \<Rightarrow> nat" where
  "scope_depth_from parents current seen =
     (if current \<in> set seen then 0
      else case scope_parent parents current of
        None \<Rightarrow> 0
      | Some parent \<Rightarrow> Suc (scope_depth_from parents parent (current # seen)))"
  by pat_completeness auto

termination scope_depth_from
  by (relation "measure (\<lambda>(parents, current, seen). card (fst ` set parents - set seen))") (simp_all add: scope_seen_less)

declare scope_contains_from.simps [simp del] scope_depth_from.simps [simp del]

definition or_body :: "string option \<Rightarrow> string" where
  "or_body scope = (case scope of Some s \<Rightarrow> if s = [] then ''procedure-body'' else s | None \<Rightarrow> ''procedure-body'')"

definition scope_contains :: "ProcedureAst \<Rightarrow> string \<Rightarrow> string option \<Rightarrow> bool" where
  "scope_contains ast handler_scope source_scope = scope_contains_from (scope_parents ast) handler_scope (or_body source_scope) []"

definition scope_depth :: "ProcedureAst \<Rightarrow> string \<Rightarrow> nat" where
  "scope_depth ast scope = scope_depth_from (scope_parents ast) (or_body (Some scope)) []"

section \<open>Binding handlers\<close>

text \<open>\<open>visit\<close> of \<open>_handler_descendants\<close>, with the references still to visit as a list.\<close>

function descend :: "ProcedureAst \<Rightarrow> string list \<Rightarrow> string list \<Rightarrow> string list" where
  "descend ast [] seen = seen"
| "descend ast (ref # todo) seen =
     (if ref \<in> set seen then descend ast todo seen
      else descend ast ((case cfg_by_id ast ref of None \<Rightarrow> [] | Some child \<Rightarrow> an_child_refs child) @ todo) (ref # seen))"
  by pat_completeness auto

lemma cfg_by_id_Some: "cfg_by_id ast ref = Some n \<Longrightarrow> n \<in> set (pa_nodes ast) \<and> an_node_id n = ref"
  unfolding cfg_by_id_def map_of_dict_update
  by (auto dest!: map_of_SomeD)

termination descend
proof (relation "(\<lambda>(ast, todo, seen). card (an_node_id ` set (pa_nodes ast) - set seen)) <*mlex*>
    measure (\<lambda>(ast, todo, seen). length todo)", goal_cases)
  case (3 ast ref todo seen)
  show ?case
  proof (cases "cfg_by_id ast ref")
    case None
    have "card (an_node_id ` set (pa_nodes ast) - set (ref # seen)) \<le> card (an_node_id ` set (pa_nodes ast) - set seen)"
      by (intro card_mono) auto
    then show ?thesis using None by (auto simp: mlex_prod_def)
  next
    case (Some n)
    then have "an_node_id ` set (pa_nodes ast) - set (ref # seen) \<subset> an_node_id ` set (pa_nodes ast) - set seen"
      using 3 by (auto dest!: cfg_by_id_Some)
    then have "card (an_node_id ` set (pa_nodes ast) - set (ref # seen)) < card (an_node_id ` set (pa_nodes ast) - set seen)"
      by (intro psubset_card_mono) auto
    then show ?thesis by (simp add: mlex_prod_def)
  qed
qed (auto simp: mlex_prod_def wf_mlex)

definition handler_descendants :: "ProcedureAst \<Rightarrow> string list" where
  "handler_descendants ast = descend ast (concat (map (\<lambda>(n, r). an_child_refs n) (cfg_handlers ast))) []"

definition not_found_sources :: "NodeKind list" where
  "not_found_sources = [NK_SELECT_INTO, NK_FETCH_CURSOR]"

definition sql_exception_sources :: "NodeKind list" where
  "sql_exception_sources = [NK_SELECT_INTO, NK_DML, NK_CALL, NK_OPEN_CURSOR, NK_FETCH_CURSOR, NK_CLOSE_CURSOR, NK_PREPARE,
     NK_EXECUTE, NK_EXECUTE_IMMEDIATE, NK_COMMIT, NK_ROLLBACK, NK_GET_DIAGNOSTICS, NK_SIGNAL]"

definition normalized_condition :: "HandlerRegion \<Rightarrow> string" where
  "normalized_condition region = py_join '' '' (py_split (py_upper (hr_handled_condition_text region)))"

definition handler_applies :: "HandlerRegion \<Rightarrow> AstNode \<Rightarrow> bool" where
  "handler_applies region source =
     (let normalized = normalized_condition region in
      if hr_resolved_sqlstate region = Some ''02000'' \<or> normalized = ''NOT FOUND'' then
        an_kind source \<in> set not_found_sources \<or>
        an_kind source = NK_EXECUTE \<and> py_in '' INTO '' ('' '' @ py_upper (an_text source) @ '' '')
      else if normalized = ''SQLEXCEPTION'' \<or> normalized = ''SQLWARNING'' then an_kind source \<in> set sql_exception_sources
      else if hr_resolved_sqlstate region \<noteq> None \<or> py_startswith normalized ''SQLSTATE'' then
        an_kind source \<in> set sql_exception_sources
      else False)"

definition handler_condition_key :: "HandlerRegion \<Rightarrow> string" where
  "handler_condition_key region =
     (case hr_resolved_sqlstate region of Some state \<Rightarrow> ''SQLSTATE:'' @ state | None \<Rightarrow> normalized_condition region)"

definition normal_successors :: "cfg_state \<Rightarrow> string \<Rightarrow> string option" where
  "normal_successors st = map_of (map (\<lambda>(i, e). (ce_source_ref e, ce_target_ref e))
     (filter (\<lambda>(i, e). ce_edge_kind e \<notin> {CE_HANDLER, CE_SIGNAL, CE_RESIGNAL}) (cb_edges st)))"

definition eligible_handlers :: "ProcedureAst \<Rightarrow> AstNode \<Rightarrow> (AstNode \<times> HandlerRegion) list" where
  "eligible_handlers ast source = filter (\<lambda>(n, r).
     scope_contains ast (hr_lexical_scope_ref r) (an_lexical_scope_ref source) \<and> handler_applies r source) (cfg_handlers ast)"

text \<open>The groups of \<open>grouped.values()\<close>: by condition key, in the order the keys are first seen.\<close>

definition grouped_handlers :: "ProcedureAst \<Rightarrow> AstNode \<Rightarrow> (AstNode \<times> HandlerRegion) list list" where
  "grouped_handlers ast source =
     (let hs = eligible_handlers ast source in
      map (\<lambda>k. filter (\<lambda>(n, r). handler_condition_key r = k) hs)
        (foldl append_new [] (map (\<lambda>(n, r). handler_condition_key r) hs)))"

definition select_handler :: "ProcedureAst \<Rightarrow> (AstNode \<times> HandlerRegion) list \<Rightarrow> AstNode \<times> HandlerRegion" where
  "select_handler ast candidates =
     first_max (\<lambda>(n, r). scope_depth ast (hr_lexical_scope_ref r)) (hd candidates) (tl candidates)"

definition condition_label :: "HandlerRegion \<Rightarrow> string" where
  "condition_label region =
     (case hr_resolved_sqlstate region of Some s \<Rightarrow> if s = [] then hr_handled_condition_text region else s
      | None \<Rightarrow> hr_handled_condition_text region)"

definition bind_handler ::
  "(string \<Rightarrow> string) \<Rightarrow> ProcedureAst \<Rightarrow> (string \<Rightarrow> string option) \<Rightarrow> AstNode \<Rightarrow> AstNode \<times> HandlerRegion \<Rightarrow> cfg_state \<Rightarrow> cfg_state" where
  "bind_handler sha ast successors source nr st =
     (case nr of (handler, region) \<Rightarrow>
       (let source_ref = cfg_ref (an_node_id source) in
        if map_of (cb_nodes st) source_ref = None then st
        else
          (let continuation = (if hr_handler_kind region = HK_CONTINUE
                 then (case successors source_ref of Some t \<Rightarrow> t | None \<Rightarrow> normal_exit sha ast) else normal_exit sha ast);
               label = condition_label region;
               binding = \<lparr>hf_binding_id = ''handler-binding-'' @ take 20 (sha (an_node_id source @ ''|'' @ an_node_id handler
                    @ ''|'' @ label @ ''|'' @ continuation)),
                  hf_source_ast_node_ref = an_node_id source, hf_handler_region_ref = an_node_id handler,
                  hf_handled_condition_text = hr_handled_condition_text region,
                  hf_continuation_semantics = hr_continuation_semantics region, hf_continuation_target_ref = continuation\<rparr>
           in add_cfg_edge sha ((plain_edge source_ref (cfg_ref (an_node_id handler)) CE_HANDLER)
                \<lparr>ce_condition_text := Some label, ce_handler_region_ref := Some (an_node_id handler),
                 ce_continuation_target_ref := Some continuation\<rparr>) (st\<lparr>cb_bindings := cb_bindings st @ [binding]\<rparr>))))"

definition bind_source :: "(string \<Rightarrow> string) \<Rightarrow> ProcedureAst \<Rightarrow> (string \<Rightarrow> string option) \<Rightarrow> cfg_state \<Rightarrow> AstNode \<Rightarrow> cfg_state" where
  "bind_source sha ast successors st source =
     (if an_node_id source \<in> set (handler_descendants ast) then st
      else foldl (\<lambda>st candidates. bind_handler sha ast successors source (select_handler ast candidates) st) st
             (grouped_handlers ast source))"

definition bind_handlers :: "(string \<Rightarrow> string) \<Rightarrow> ProcedureAst \<Rightarrow> cfg_state \<Rightarrow> cfg_state" where
  "bind_handlers sha ast st = foldl (bind_source sha ast (normal_successors st)) st (pa_nodes ast)"

section \<open>The builder\<close>

definition cfg_start :: "(string \<Rightarrow> string) \<Rightarrow> ProcedureAst \<Rightarrow> cfg_state" where
  "cfg_start sha ast =
     synthetic_node sha ast ''exceptional-exit'' CN_EXCEPTIONAL_EXIT ''EXCEPTIONAL_EXIT''
       (synthetic_node sha ast ''normal-exit'' CN_NORMAL_EXIT ''NORMAL_EXIT''
         (synthetic_node sha ast ''entry'' CN_ENTRY ''ENTRY''
           \<lparr>cb_nodes = [], cb_edges = [], cb_bindings = [], cb_excluded = []\<rparr>))"

definition cfg_finish :: "(string \<Rightarrow> string) \<Rightarrow> ProcedureAst \<Rightarrow> cfg_state \<Rightarrow> ControlFlowGraph" where
  "cfg_finish sha ast st =
     \<lparr>cfg_procedure_ast_ref = pa_node_id ast, cfg_entry_ref = synthetic_ref sha ast ''entry'',
      cfg_normal_exit_ref = normal_exit sha ast, cfg_exceptional_exit_ref = exceptional_exit sha ast,
      cfg_nodes = sort_key cn_cfg_node_id (map snd (cb_nodes st)), cfg_edges = sort_key ce_edge_id (map snd (cb_edges st)),
      cfg_handler_bindings = sort_key hf_binding_id (cb_bindings st), cfg_excluded_declaration_refs = sort (cb_excluded st)\<rparr>"

definition build_cfg :: "nat \<Rightarrow> (string \<Rightarrow> string) \<Rightarrow> ProcedureAst \<Rightarrow> cfg_error + ControlFlowGraph" where
  "build_cfg fuel sha ast =
     (case build_sequence (build_node fuel sha ast) (pa_body_node_refs ast) (normal_exit sha ast) [] (cfg_start sha ast) of
        Inl e \<Rightarrow> Inl e
      | Inr (top_entry, st1) \<Rightarrow>
          (let st2 = add_cfg_edge sha (plain_edge (synthetic_ref sha ast ''entry'') top_entry CE_ENTRY) st1 in
           case build_handler_subgraphs fuel sha ast (cfg_handlers ast) st2 of
             Inl e \<Rightarrow> Inl e
           | Inr st3 \<Rightarrow> Inr (cfg_finish sha ast (bind_handlers sha ast st3))))"

section \<open>The builder invariant\<close>

definition node_keys :: "cfg_state \<Rightarrow> string set" where
  "node_keys st = fst ` set (cb_nodes st)"

lemma node_keys_update [simp]:
  "node_keys (st\<lparr>cb_nodes := dict_set k n (cb_nodes st)\<rparr>) = insert k (node_keys st)"
  "node_keys (st\<lparr>cb_edges := es\<rparr>) = node_keys st" "node_keys (st\<lparr>cb_bindings := bs\<rparr>) = node_keys st"
  "node_keys (st\<lparr>cb_excluded := xs\<rparr>) = node_keys st"
  by (simp_all add: node_keys_def keys_dict_set)

text \<open>Node ids are distinct and the arms of an IF are nodes of their own kind, as the parser makes them.\<close>

definition ast_ok :: "ProcedureAst \<Rightarrow> bool" where
  "ast_ok ast \<longleftrightarrow> distinct (map an_node_id (pa_nodes ast)) \<and> list_all (\<lambda>n. case an_if_region n of None \<Rightarrow> True
     | Some r \<Rightarrow> list_all (\<lambda>a. case cfg_by_id ast (arm_arm_id a) of Some m \<Rightarrow> an_kind m = NK_IF_ARM | None \<Rightarrow> True) (if_arms r)) (pa_nodes ast)"

definition transfer_target :: "(string \<Rightarrow> string) \<Rightarrow> ProcedureAst \<Rightarrow> NodeKind \<Rightarrow> (string \<times> CfgEdgeKind) option" where
  "transfer_target sha ast k =
     (if k = NK_RETURN then Some (normal_exit sha ast, CE_RETURN)
      else if k = NK_SIGNAL then Some (exceptional_exit sha ast, CE_SIGNAL)
      else if k = NK_RESIGNAL then Some (exceptional_exit sha ast, CE_RESIGNAL) else None)"

definition edge_rule :: "(string \<Rightarrow> string) \<Rightarrow> ProcedureAst \<Rightarrow> CfgEdge \<Rightarrow> bool" where
  "edge_rule sha ast e \<longleftrightarrow>
     (\<forall>r node x. ast_ok ast \<and> cfg_by_id ast r = Some node \<and> ce_source_ref e = cfg_ref r \<and> ce_edge_kind e \<noteq> CE_HANDLER \<and>
        transfer_target sha ast (an_kind node) = Some x \<longrightarrow> (ce_target_ref e, ce_edge_kind e) = x)"

definition cfg_node_ok :: "ProcedureAst \<Rightarrow> string \<times> CfgNode \<Rightarrow> bool" where
  "cfg_node_ok ast kn \<longleftrightarrow> cn_cfg_node_id (snd kn) = fst kn \<and>
     (case cn_ast_node_ref (snd kn) of None \<Rightarrow> True | Some r \<Rightarrow> cfg_by_id ast r \<noteq> None)"

definition cfg_edge_ok :: "(string \<Rightarrow> string) \<Rightarrow> ProcedureAst \<Rightarrow> string set \<Rightarrow> string \<times> CfgEdge \<Rightarrow> bool" where
  "cfg_edge_ok sha ast ns ke \<longleftrightarrow> ce_edge_id (snd ke) = fst ke \<and> ce_source_ref (snd ke) \<in> ns \<and> ce_target_ref (snd ke) \<in> ns \<and>
     edge_rule sha ast (snd ke)"

text \<open>
  Binding: every handler bound is one that was selected for its source, its edge joins two nodes and
  its continuation is a node.
\<close>

definition binding_ok :: "ProcedureAst \<Rightarrow> string set \<Rightarrow> HandlerFlowBinding \<Rightarrow> bool" where
  "binding_ok ast ns b \<longleftrightarrow> hf_continuation_target_ref b \<in> ns \<and>
     (\<exists>source \<in> set (pa_nodes ast). \<exists>candidates \<in> set (grouped_handlers ast source). \<exists>n r.
        select_handler ast candidates = (n, r) \<and> an_node_id source \<notin> set (handler_descendants ast) \<and>
        hf_source_ast_node_ref b = an_node_id source \<and> hf_handler_region_ref b = an_node_id n \<and>
        hf_handled_condition_text b = hr_handled_condition_text r \<and> hf_continuation_semantics b = hr_continuation_semantics r)"

lemma binding_ok_mono: "binding_ok ast ns b \<Longrightarrow> ns \<subseteq> ns' \<Longrightarrow> binding_ok ast ns' b"
  unfolding binding_ok_def by blast

definition cb_ok :: "(string \<Rightarrow> string) \<Rightarrow> ProcedureAst \<Rightarrow> cfg_state \<Rightarrow> bool" where
  "cb_ok sha ast st \<longleftrightarrow>
     distinct (map fst (cb_nodes st)) \<and> distinct (map fst (cb_edges st)) \<and>
     (\<forall>kn \<in> set (cb_nodes st). cfg_node_ok ast kn) \<and> (\<forall>ke \<in> set (cb_edges st). cfg_edge_ok sha ast (node_keys st) ke) \<and>
     (\<forall>b \<in> set (cb_bindings st). binding_ok ast (node_keys st) b) \<and>
     {synthetic_ref sha ast ''entry'', normal_exit sha ast, exceptional_exit sha ast} \<subseteq> node_keys st"

lemma cfg_ref_inj [simp]: "cfg_ref a = cfg_ref b \<longleftrightarrow> a = b"
  by (simp add: cfg_ref_def)

lemma synthetic_not_cfg_ref [simp]: "synthetic_ref sha ast key \<noteq> cfg_ref a" "cfg_ref a \<noteq> synthetic_ref sha ast key"
  by (simp_all add: synthetic_ref_def cfg_ref_def)

lemma edge_of_sel [simp]:
  "ce_source_ref (edge_of sha e) = ce_source_ref e" "ce_target_ref (edge_of sha e) = ce_target_ref e"
  "ce_edge_kind (edge_of sha e) = ce_edge_kind e"
  by (simp_all add: edge_of_def)

lemma edge_rule_edge_of [simp]: "edge_rule sha ast (edge_of sha e) = edge_rule sha ast e"
  by (simp add: edge_rule_def)

lemma add_cfg_edge_sel [simp]:
  "cb_nodes (add_cfg_edge sha e st) = cb_nodes st" "cb_bindings (add_cfg_edge sha e st) = cb_bindings st"
  "cb_excluded (add_cfg_edge sha e st) = cb_excluded st" "node_keys (add_cfg_edge sha e st) = node_keys st"
  by (simp_all add: add_cfg_edge_def)

lemma add_cfg_edge_ok:
  assumes "cb_ok sha ast st" "ce_source_ref e \<in> node_keys st" "ce_target_ref e \<in> node_keys st" "edge_rule sha ast e"
  shows "cb_ok sha ast (add_cfg_edge sha e st)"
proof -
  let ?d = "dict_set (ce_edge_id (edge_of sha e)) (edge_of sha e) (cb_edges st)"
  have "cfg_edge_ok sha ast (node_keys st) (ce_edge_id (edge_of sha e), edge_of sha e)"
    using assms by (simp add: cfg_edge_ok_def)
  then have "\<forall>ke \<in> set ?d. cfg_edge_ok sha ast (node_keys st) ke"
    using assms(1) set_dict_set_subset [of "ce_edge_id (edge_of sha e)" "edge_of sha e" "cb_edges st"]
    unfolding cb_ok_def by blast
  then show ?thesis using assms(1) by (simp add: cb_ok_def add_cfg_edge_def distinct_dict_set)
qed

lemma cfg_edge_ok_mono: "cfg_edge_ok sha ast ns ke \<Longrightarrow> ns \<subseteq> ns' \<Longrightarrow> cfg_edge_ok sha ast ns' ke"
  by (auto simp: cfg_edge_ok_def)

lemma add_node_ok:
  assumes "cb_ok sha ast st" "cfg_node_ok ast (k, n)"
  shows "cb_ok sha ast (st\<lparr>cb_nodes := dict_set k n (cb_nodes st)\<rparr>)"
proof -
  have old: "\<forall>kn \<in> set (cb_nodes st). cfg_node_ok ast kn" "\<forall>ke \<in> set (cb_edges st). cfg_edge_ok sha ast (node_keys st) ke"
    using assms(1) by (simp_all add: cb_ok_def)
  then have "\<forall>kn \<in> set (dict_set k n (cb_nodes st)). cfg_node_ok ast kn"
    using assms(2) set_dict_set_subset [of k n "cb_nodes st"] by blast
  moreover have "\<forall>ke \<in> set (cb_edges st). cfg_edge_ok sha ast (insert k (node_keys st)) ke"
    using old(2) cfg_edge_ok_mono [OF _ subset_insertI] by metis
  moreover have "\<forall>b \<in> set (cb_bindings st). binding_ok ast (insert k (node_keys st)) b"
    using assms(1) binding_ok_mono [OF _ subset_insertI] unfolding cb_ok_def by metis
  moreover have "distinct (map fst (dict_set k n (cb_nodes st)))" "distinct (map fst (cb_edges st))"
    "{synthetic_ref sha ast ''entry'', normal_exit sha ast, exceptional_exit sha ast} \<subseteq> insert k (node_keys st)"
    using assms(1) by (auto simp: cb_ok_def intro: distinct_dict_set)
  ultimately show ?thesis by (simp add: cb_ok_def)
qed

lemma synthetic_node_ok:
  "cb_ok sha ast st \<Longrightarrow> cb_ok sha ast (synthetic_node sha ast key kind label st)"
  "node_keys (synthetic_node sha ast key kind label st) = insert (synthetic_ref sha ast key) (node_keys st)"
  by (simp_all add: synthetic_node_def add_node_ok cfg_node_ok_def)

lemma cfg_node_for_ast_ok:
  assumes "cfg_node_for_ast node st = (ref, st')"
  shows "ref = cfg_ref (an_node_id node)" "node_keys st' = insert ref (node_keys st)"
    and "cb_ok sha ast st \<Longrightarrow> cfg_by_id ast (an_node_id node) \<noteq> None \<Longrightarrow> cb_ok sha ast st'"
proof -
  show ref: "ref = cfg_ref (an_node_id node)" using assms by (simp add: cfg_node_for_ast_def Let_def)
  show "node_keys st' = insert ref (node_keys st)"
  proof (cases "map_of (cb_nodes st) ref")
    case None
    then obtain n where "st' = st\<lparr>cb_nodes := dict_set ref n (cb_nodes st)\<rparr>"
      using assms ref by (auto simp: cfg_node_for_ast_def Let_def)
    then show ?thesis by simp
  next
    case (Some n)
    then have "ref \<in> node_keys st" by (metis map_of_eq_None_iff node_keys_def option.distinct(1))
    then show ?thesis using Some assms ref by (simp add: cfg_node_for_ast_def Let_def insert_absorb)
  qed
  show "cb_ok sha ast st \<Longrightarrow> cfg_by_id ast (an_node_id node) \<noteq> None \<Longrightarrow> cb_ok sha ast st'"
    using assms by (auto simp: cfg_node_for_ast_def Let_def cfg_node_ok_def intro!: add_node_ok)
qed

section \<open>Every builder keeps the invariant\<close>

definition contexts_ok :: "string set \<Rightarrow> control_context list \<Rightarrow> bool" where
  "contexts_ok ns cs \<longleftrightarrow> (\<forall>c \<in> set cs. cc_exit_ref c \<in> ns \<and> (case cc_loop_header_ref c of None \<Rightarrow> True | Some h \<Rightarrow> h \<in> ns))"

lemma contexts_ok_mono: "contexts_ok ns cs \<Longrightarrow> ns \<subseteq> ns' \<Longrightarrow> contexts_ok ns' cs"
  by (fastforce simp: contexts_ok_def split: option.splits)

lemma contexts_ok_snoc [simp]:
  "contexts_ok ns (cs @ [\<lparr>cc_exit_ref = x, cc_label = l, cc_loop_header_ref = h\<rparr>]) \<longleftrightarrow>
   contexts_ok ns cs \<and> x \<in> ns \<and> (case h of None \<Rightarrow> True | Some r \<Rightarrow> r \<in> ns)"
  by (auto simp: contexts_ok_def)

definition ready :: "(string \<Rightarrow> string) \<Rightarrow> ProcedureAst \<Rightarrow> string \<Rightarrow> control_context list \<Rightarrow> cfg_state \<Rightarrow> bool" where
  "ready sha ast continuation_ref control_stack st \<longleftrightarrow>
     cb_ok sha ast st \<and> continuation_ref \<in> node_keys st \<and> contexts_ok (node_keys st) control_stack"

definition builder_ok :: "(string \<Rightarrow> string) \<Rightarrow> ProcedureAst \<Rightarrow> builder \<Rightarrow> bool" where
  "builder_ok sha ast build \<longleftrightarrow>
     (\<forall>r c cs st r' st'. ready sha ast c cs st \<and> build r c cs st = Inr (r', st') \<longrightarrow>
        r' \<in> node_keys st' \<and> cb_ok sha ast st' \<and> node_keys st \<subseteq> node_keys st')"

lemma builder_okD:
  "builder_ok sha ast build \<Longrightarrow> ready sha ast c cs st \<Longrightarrow> build r c cs st = Inr (r', st') \<Longrightarrow>
   r' \<in> node_keys st' \<and> cb_ok sha ast st' \<and> node_keys st \<subseteq> node_keys st'"
  unfolding builder_ok_def by blast

lemma ready_mono:
  "ready sha ast c cs st \<Longrightarrow> cb_ok sha ast st' \<Longrightarrow> node_keys st \<subseteq> node_keys st' \<Longrightarrow> ready sha ast c cs st'"
  unfolding ready_def using contexts_ok_mono by blast

lemma build_sequence_ok:
  assumes "builder_ok sha ast build" "ready sha ast c cs st"
  shows "build_sequence build refs c cs st = Inr (r', st') \<Longrightarrow> r' \<in> node_keys st' \<and> cb_ok sha ast st' \<and> node_keys st \<subseteq> node_keys st'"
proof (induction refs arbitrary: r' st')
  case Nil
  then show ?case using assms(2) by (simp add: ready_def)
next
  case (Cons r refs)
  then obtain r1 st1 where 1: "build_sequence build refs c cs st = Inr (r1, st1)" "build r r1 cs st1 = Inr (r', st')"
    by (auto split: sum.splits prod.splits)
  have "r1 \<in> node_keys st1 \<and> cb_ok sha ast st1 \<and> node_keys st \<subseteq> node_keys st1" by (rule Cons.IH [OF 1(1)])
  then have "ready sha ast r1 cs st1" using assms(2) contexts_ok_mono unfolding ready_def by blast
  from builder_okD [OF assms(1) this 1(2)] show ?case
    using \<open>r1 \<in> node_keys st1 \<and> cb_ok sha ast st1 \<and> node_keys st \<subseteq> node_keys st1\<close> by blast
qed

text \<open>An edge whose source is not a transfer statement obeys the rule for transfers.\<close>

lemma edge_rule_plain:
  "cfg_by_id ast r = Some node \<Longrightarrow> ce_source_ref e = cfg_ref r \<Longrightarrow> transfer_target sha ast (an_kind node) = None \<Longrightarrow> edge_rule sha ast e"
  by (auto simp: edge_rule_def)

lemma edge_rule_arm:
  "(ast_ok ast \<Longrightarrow> an_kind node = NK_IF_ARM) \<Longrightarrow> cfg_by_id ast r = Some node \<Longrightarrow> ce_source_ref e = cfg_ref r \<Longrightarrow> edge_rule sha ast e"
  by (auto simp: edge_rule_def transfer_target_def)

definition arm_kind_ok :: "ProcedureAst \<Rightarrow> IfArm \<Rightarrow> bool" where
  "arm_kind_ok ast a \<longleftrightarrow> (\<forall>m. ast_ok ast \<and> cfg_by_id ast (arm_arm_id a) = Some m \<longrightarrow> an_kind m = NK_IF_ARM)"

lemma arm_kind_okI: "cfg_by_id ast q = Some node \<Longrightarrow> an_if_region node = Some region \<Longrightarrow> a \<in> set (if_arms region) \<Longrightarrow> arm_kind_ok ast a"
  using cfg_by_id_Some [of ast q node] by (auto simp: arm_kind_ok_def ast_ok_def list_all_iff split: option.splits)

lemma build_arm_ok:
  assumes b: "builder_ok sha ast build" and r: "ready sha ast c cs st" and k: "arm_kind_ok ast a"
    and res: "build_arm sha ast build c cs a st = Inr (ar, st')"
  shows "cb_ok sha ast st' \<and> insert ar (node_keys st) \<subseteq> node_keys st'"
proof -
  obtain m where m: "cfg_by_id ast (arm_arm_id a) = Some m"
    using res by (cases "cfg_by_id ast (arm_arm_id a)") (simp_all add: build_arm_def)
  obtain ar' st1 where 1: "cfg_node_for_ast m st = (ar', st1)" by (meson surj_pair)
  obtain en st2 where 2: "build_sequence build (arm_body_node_refs a) c cs st1 = Inr (en, st2)"
    and st': "ar' = ar" "st' = add_cfg_edge sha (plain_edge ar en CE_SEQUENTIAL) st2"
    using res m 1 by (auto simp: build_arm_def split: sum.splits)
  have am: "ar = cfg_ref (arm_arm_id a)" "node_keys st1 = insert ar (node_keys st)"
    using cfg_node_for_ast_ok(1,2) [OF 1] cfg_by_id_Some [OF m] st'(1) by simp_all
  have "cb_ok sha ast st1"
    using r cfg_node_for_ast_ok(3) [OF 1] cfg_by_id_Some [OF m] m by (simp add: ready_def)
  then have "ready sha ast c cs st1" using ready_mono [OF r] am(2) by auto
  from build_sequence_ok [OF b this 2]
  have s2: "en \<in> node_keys st2" "cb_ok sha ast st2" "insert ar (node_keys st) \<subseteq> node_keys st2" using am(2) by auto
  have "edge_rule sha ast (plain_edge ar en CE_SEQUENTIAL)"
    using k m am(1) by (intro edge_rule_arm [of ast m "arm_arm_id a"]) (auto simp: plain_edge_def arm_kind_ok_def)
  then have "cb_ok sha ast st'" using s2 st'(2) by (auto intro!: add_cfg_edge_ok simp: plain_edge_def)
  then show ?thesis using s2 st'(2) by simp
qed

lemma build_arms_ok:
  assumes b: "builder_ok sha ast build" and node: "cfg_by_id ast q = Some node" "an_kind node = NK_IF_REGION" "ref = cfg_ref q"
  shows "ready sha ast c cs st \<Longrightarrow> ref \<in> node_keys st \<Longrightarrow> \<forall>a \<in> set arms. arm_kind_ok ast a \<Longrightarrow>
    build_arms sha ast build ref c cs i arms h t st = Inr (h', t', st') \<Longrightarrow> cb_ok sha ast st' \<and> node_keys st \<subseteq> node_keys st'"
proof (induction arms arbitrary: i h t st)
  case Nil
  then show ?case by (simp add: ready_def)
next
  case (Cons a arms)
  obtain ar st1 where 1: "build_arm sha ast build c cs a st = Inr (ar, st1)"
    using Cons.prems(4) by (auto split: sum.splits)
  have s1: "cb_ok sha ast st1" "insert ar (node_keys st) \<subseteq> node_keys st1"
    using build_arm_ok [OF b Cons.prems(1) _ 1] Cons.prems(3) by auto
  let ?st2 = "if t \<or> arm_truth a = Some False then st1 else add_cfg_edge sha (arm_edge ref ar i a) st1"
  have "edge_rule sha ast (arm_edge ref ar i a)"
    using node by (intro edge_rule_plain [of ast q node]) (auto simp: arm_edge_def plain_edge_def transfer_target_def)
  then have s2: "cb_ok sha ast ?st2"
    using s1 Cons.prems(2) by (auto intro!: add_cfg_edge_ok simp: arm_edge_def plain_edge_def)
  have k: "node_keys ?st2 = node_keys st1" by simp
  have "ready sha ast c cs ?st2" using ready_mono [OF Cons.prems(1) s2] s1 k by auto
  from Cons.IH [OF this] have "cb_ok sha ast st' \<and> node_keys ?st2 \<subseteq> node_keys st'"
    using Cons.prems 1 s1 k by (simp add: Let_def) blast
  then show ?case using s1(2) k by auto
qed

text \<open>
  The four statement builders: called on the node \<open>node\<close> whose graph node \<open>ref\<close> is already there.
\<close>

definition at_node :: "(string \<Rightarrow> string) \<Rightarrow> ProcedureAst \<Rightarrow> AstNode \<Rightarrow> string \<Rightarrow> string \<Rightarrow> control_context list \<Rightarrow> cfg_state \<Rightarrow> bool" where
  "at_node sha ast node ref c cs st \<longleftrightarrow>
     cfg_by_id ast (an_node_id node) = Some node \<and> ref = cfg_ref (an_node_id node) \<and> ref \<in> node_keys st \<and> ready sha ast c cs st"

lemma at_node_edge:
  assumes "at_node sha ast node ref c cs st" "cb_ok sha ast st'" "node_keys st \<subseteq> node_keys st'"
    and "ce_source_ref e = ref" "ce_target_ref e \<in> node_keys st'" "transfer_target sha ast (an_kind node) = None"
  shows "cb_ok sha ast (add_cfg_edge sha e st')"
  using assms by (intro add_cfg_edge_ok edge_rule_plain [of ast "an_node_id node" node]) (auto simp: at_node_def)

lemma build_compound_ok:
  assumes "builder_ok sha ast build" "at_node sha ast node ref c cs st" "an_kind node = NK_COMPOUND"
    and "build_compound sha build ref region r c cs st = Inr (r', st')"
  shows "r' \<in> node_keys st' \<and> cb_ok sha ast st' \<and> node_keys st \<subseteq> node_keys st'"
proof -
  let ?cs = "cs @ [\<lparr>cc_exit_ref = c, cc_label = context_label (cr_label region), cc_loop_header_ref = None\<rparr>]"
  obtain en st1 where 1: "build_sequence build (cr_body_node_refs region) c ?cs st = Inr (en, st1)" "r' = ref"
    "st' = add_cfg_edge sha (plain_edge ref en CE_SEQUENTIAL) st1"
    using assms(4) by (auto simp: build_compound_def split: sum.splits)
  have "ready sha ast c ?cs st" using assms(2) by (simp add: at_node_def ready_def)
  from build_sequence_ok [OF assms(1) this 1(1)]
  have s: "en \<in> node_keys st1" "cb_ok sha ast st1" "node_keys st \<subseteq> node_keys st1" by auto
  have "cb_ok sha ast st'"
    unfolding 1(3) using s assms(3) by (intro at_node_edge [OF assms(2)]) (auto simp: plain_edge_def transfer_target_def)
  then show ?thesis using s 1 assms(2) by (auto simp: at_node_def)
qed

lemma build_loop_ok:
  assumes "builder_ok sha ast build" "at_node sha ast node ref c cs st" "an_kind node = NK_LOOP_REGION"
    and "build_loop sha build ref region r c cs st = Inr (r', st')"
  shows "r' \<in> node_keys st' \<and> cb_ok sha ast st' \<and> node_keys st \<subseteq> node_keys st'"
proof -
  let ?cs = "cs @ [\<lparr>cc_exit_ref = c, cc_label = context_label (lp_label region), cc_loop_header_ref = Some ref\<rparr>]"
  obtain en st1 where 1: "build_sequence build (lp_body_node_refs region) ref ?cs st = Inr (en, st1)"
    using assms(4) by (auto simp: build_loop_def split: sum.splits)
  let ?st2 = "add_cfg_edge sha ((plain_edge ref en CE_LOOP_BODY)\<lparr>ce_condition_text := lp_condition_text region\<rparr>) st1"
  have res: "r' = ref" "st' = (if lp_loop_kind region \<noteq> LK_LOOP then add_cfg_edge sha ((plain_edge ref c CE_LOOP_EXIT)
      \<lparr>ce_condition_text := negated_condition (lp_condition_text region)\<rparr>) ?st2 else ?st2)"
    using assms(4) 1 by (auto simp: build_loop_def Let_def)
  have "ready sha ast ref ?cs st" using assms(2) by (auto simp: at_node_def ready_def)
  from build_sequence_ok [OF assms(1) this 1]
  have s: "en \<in> node_keys st1" "cb_ok sha ast st1" "node_keys st \<subseteq> node_keys st1" by auto
  have 2: "cb_ok sha ast ?st2"
    using s assms(3) by (intro at_node_edge [OF assms(2)]) (auto simp: plain_edge_def transfer_target_def)
  have "c \<in> node_keys st" using assms(2) by (simp add: at_node_def ready_def)
  then have "cb_ok sha ast st'"
    using 2 s assms(3) res(2) by (auto intro!: at_node_edge [OF assms(2)] simp: plain_edge_def transfer_target_def)
  then show ?thesis using s res assms(2) by (auto simp: at_node_def)
qed

lemma build_if_ok:
  assumes "builder_ok sha ast build" "at_node sha ast node ref c cs st" "an_kind node = NK_IF_REGION"
    and "an_if_region node = Some region" "build_if sha ast build ref region r c cs st = Inr (r', st')"
  shows "r' \<in> node_keys st' \<and> cb_ok sha ast st' \<and> node_keys st \<subseteq> node_keys st'"
proof -
  obtain h t st1 where 1: "build_arms sha ast build ref c cs 0 (if_arms region) False False st = Inr (h, t, st1)"
    using assms(5) by (auto simp: build_if_def split: sum.splits)
  have res: "r' = ref" "st' = (if \<not> h \<and> \<not> t then add_cfg_edge sha (plain_edge ref c CE_IF_NO_MATCH) st1 else st1)"
    using assms(5) 1 by (auto simp: build_if_def)
  note n = assms(2) [unfolded at_node_def]
  have arms: "\<forall>a \<in> set (if_arms region). arm_kind_ok ast a" using n arm_kind_okI [OF _ assms(4)] by blast
  have s: "cb_ok sha ast st1" "node_keys st \<subseteq> node_keys st1"
    using build_arms_ok [OF assms(1) _ assms(3) _ _ _ arms 1] n by blast+
  have "c \<in> node_keys st" using n by (simp add: ready_def)
  then have "cb_ok sha ast st'"
    using s assms(3) res(2) by (auto intro!: at_node_edge [OF assms(2)] simp: plain_edge_def transfer_target_def)
  then show ?thesis using s res n by auto
qed

lemma resolve_control_target_mem:
  "cb_ok sha ast st \<Longrightarrow> contexts_ok (node_keys st) cs \<Longrightarrow> resolve_control_target sha ast node cs iter \<in> node_keys st"
proof (cases "control_candidates node cs iter")
  case (Cons x xs)
  assume "contexts_ok (node_keys st) cs"
  moreover have "x \<in> set (control_candidates node cs iter)" by (simp add: Cons)
  then have "x \<in> set cs" by (simp add: control_candidates_def)
  ultimately show ?thesis using Cons by (auto simp: resolve_control_target_def contexts_ok_def split: option.splits)
qed (auto simp: resolve_control_target_def cb_ok_def)

lemma build_simple_ok:
  assumes "at_node sha ast node ref c cs st" "build_simple sha ast node ref r c cs st = Inr (r', st')"
  shows "r' \<in> node_keys st' \<and> cb_ok sha ast st' \<and> node_keys st \<subseteq> node_keys st'"
proof -
  obtain t k where e: "simple_edge sha ast node c cs = (t, k)" by (meson surj_pair)
  note n = assms(1) [unfolded at_node_def ready_def]
  have "t \<in> node_keys st"
    using e n resolve_control_target_mem [of sha ast st cs node]
    by (auto simp: simple_edge_def cb_ok_def split: NodeKind.splits)
  moreover have "edge_rule sha ast (plain_edge ref t k)"
    using e n by (auto simp: edge_rule_def plain_edge_def transfer_target_def simple_edge_def)
  ultimately have "cb_ok sha ast (add_cfg_edge sha (plain_edge ref t k) st)"
    using n by (intro add_cfg_edge_ok) (auto simp: plain_edge_def)
  then show ?thesis using assms(2) n e by (auto simp: build_simple_def)
qed

lemma build_step_eq:
  assumes "cfg_by_id ast r = Some node" "an_kind node \<notin> set declaration_kinds" "cfg_node_for_ast node st = (ref, st1)"
  shows "build_step sha ast build r c cs st =
    (if an_kind node = NK_COMPOUND \<and> an_compound_region node \<noteq> None
     then build_compound sha build ref (the (an_compound_region node)) r c cs st1
     else if an_kind node = NK_IF_REGION \<and> an_if_region node \<noteq> None
     then build_if sha ast build ref (the (an_if_region node)) r c cs st1
     else if an_kind node = NK_LOOP_REGION \<and> an_loop_region node \<noteq> None
     then build_loop sha build ref (the (an_loop_region node)) r c cs st1
     else build_simple sha ast node ref r c cs st1)"
  using assms by (auto simp: build_step_def split: NodeKind.split option.split)

lemma build_step_ok:
  assumes "builder_ok sha ast build"
  shows "builder_ok sha ast (build_step sha ast build)"
  unfolding builder_ok_def
proof (intro allI impI, elim conjE)
  fix r c cs st r' st'
  assume ready: "ready sha ast c cs st" and res: "build_step sha ast build r c cs st = Inr (r', st')"
  obtain node where node: "cfg_by_id ast r = Some node" using res by (cases "cfg_by_id ast r") (simp_all add: build_step_def)
  show "r' \<in> node_keys st' \<and> cb_ok sha ast st' \<and> node_keys st \<subseteq> node_keys st'"
  proof (cases "an_kind node \<in> set declaration_kinds")
    case True
    then show ?thesis using res node ready by (auto simp: build_step_def ready_def cb_ok_def)
  next
    case False
    obtain ref st1 where 1: "cfg_node_for_ast node st = (ref, st1)" by (meson surj_pair)
    have keys: "node_keys st1 = insert ref (node_keys st)" by (rule cfg_node_for_ast_ok(2) [OF 1])
    have "cb_ok sha ast st1"
      using cfg_node_for_ast_ok(3) [OF 1] ready node cfg_by_id_Some [OF node] by (simp add: ready_def)
    then have "at_node sha ast node ref c cs st1"
      using ready_mono [OF ready] keys cfg_node_for_ast_ok(1) [OF 1] node cfg_by_id_Some [OF node] by (auto simp: at_node_def)
    then have "r' \<in> node_keys st' \<and> cb_ok sha ast st' \<and> node_keys st1 \<subseteq> node_keys st'"
      using res build_compound_ok [OF assms] build_loop_ok [OF assms] build_if_ok [OF assms] build_simple_ok
      unfolding build_step_eq [OF node False 1] by (auto split: if_splits)
    then show ?thesis using keys by auto
  qed
qed

lemma build_node_ok: "builder_ok sha ast (build_node fuel sha ast)"
  by (induction fuel) (simp_all add: build_step_ok, simp add: builder_ok_def)

section \<open>Handlers keep the invariant\<close>

lemma cfg_handlers_mem: "(n, r) \<in> set (cfg_handlers ast) \<longleftrightarrow> n \<in> set (pa_nodes ast) \<and> an_kind n = NK_HANDLER_REGION \<and> an_handler_region n = Some r"
  by (force simp: cfg_handlers_def List.map_filter_def)

lemma cfg_by_id_mem: "n \<in> set (pa_nodes ast) \<Longrightarrow> cfg_by_id ast (an_node_id n) \<noteq> None"
proof -
  assume "n \<in> set (pa_nodes ast)"
  then have "an_node_id n \<in> fst ` set (rev (map (\<lambda>n. (an_node_id n, n)) (pa_nodes ast)))" by force
  then show ?thesis unfolding cfg_by_id_def map_of_dict_update by (simp add: map_of_eq_None_iff)
qed

lemma handler_edge_rule:
  assumes "(n, r) \<in> set (cfg_handlers ast)" "ce_source_ref e = cfg_ref (an_node_id n)"
  shows "edge_rule sha ast e"
proof (cases "ast_ok ast")
  case True
  have n: "n \<in> set (pa_nodes ast)" "an_kind n = NK_HANDLER_REGION" using assms(1) by (simp_all add: cfg_handlers_mem)
  obtain m where m: "cfg_by_id ast (an_node_id n) = Some m" using cfg_by_id_mem [OF n(1)] by auto
  then have "m = n" using cfg_by_id_Some [OF m] n(1) True by (auto simp: ast_ok_def distinct_map dest: inj_onD)
  then show ?thesis using m n(2) assms(2) by (intro edge_rule_plain [of ast "an_node_id n" n]) (simp_all add: transfer_target_def)
qed (simp add: edge_rule_def)

lemma handler_enter_ok:
  assumes "cb_ok sha ast st" "n \<in> set (pa_nodes ast)" "st' = handler_enter sha ast n r st"
  shows "cb_ok sha ast st'" "insert (cfg_ref (an_node_id n)) (node_keys st) \<subseteq> node_keys st'" "handler_fallthrough sha ast n r \<in> node_keys st'"
proof -
  obtain ref st1 where 1: "cfg_node_for_ast n st = (ref, st1)" by (meson surj_pair)
  show "cb_ok sha ast st'" "insert (cfg_ref (an_node_id n)) (node_keys st) \<subseteq> node_keys st'" "handler_fallthrough sha ast n r \<in> node_keys st'"
    using cfg_node_for_ast_ok [OF 1] assms(1) cfg_by_id_mem [OF assms(2)] 1
    by (auto simp: assms(3) handler_enter_def synthetic_node_ok handler_fallthrough_def) (simp add: cb_ok_def)
qed

lemma handler_edges_ok:
  assumes "(n, r) \<in> set (cfg_handlers ast)" "ref = cfg_ref (an_node_id n)" "cb_ok sha ast st" "{ref, ft, en} \<subseteq> node_keys st"
  shows "cb_ok sha ast (handler_edges sha ref ft en st)" "node_keys (handler_edges sha ref ft en st) = node_keys st"
proof -
  have rule: "edge_rule sha ast (plain_edge ref t k)" for t k
    using handler_edge_rule [OF assms(1)] assms(2) by (auto simp: plain_edge_def)
  have "cb_ok sha ast (add_cfg_edge sha (plain_edge ref en CE_HANDLER_BODY) st)"
    using assms(3,4) rule by (intro add_cfg_edge_ok) (auto simp: plain_edge_def)
  then show "cb_ok sha ast (handler_edges sha ref ft en st)"
    using assms(3,4) rule by (auto simp: handler_edges_def Let_def plain_edge_def intro!: add_cfg_edge_ok)
  show "node_keys (handler_edges sha ref ft en st) = node_keys st" by (simp add: handler_edges_def Let_def)
qed

lemma build_handler_ok:
  assumes h: "h \<in> set (cfg_handlers ast)" and ok: "cb_ok sha ast st" and res: "build_handler fuel sha ast h st = Inr st'"
  shows "cb_ok sha ast st' \<and> insert (cfg_ref (an_node_id (fst h))) (node_keys st) \<subseteq> node_keys st'"
proof -
  obtain n r where nr: "h = (n, r)" by (cases h)
  let ?ft = "handler_fallthrough sha ast n r" and ?ref = "fst (cfg_node_for_ast n st)"
  obtain en st3 where 3: "build_sequence (build_node fuel sha ast) (hr_body_node_refs r) ?ft [] (handler_enter sha ast n r st) = Inr (en, st3)"
    and st': "st' = handler_edges sha ?ref ?ft en st3"
    using res nr by (auto simp: build_handler_def split: sum.splits)
  have n: "n \<in> set (pa_nodes ast)" using h nr by (simp add: cfg_handlers_mem)
  note s2 = handler_enter_ok [OF ok n refl, of r]
  then have "ready sha ast ?ft [] (handler_enter sha ast n r st)" by (simp add: ready_def contexts_ok_def)
  from build_sequence_ok [OF build_node_ok this 3]
  have s3: "en \<in> node_keys st3" "cb_ok sha ast st3" "node_keys (handler_enter sha ast n r st) \<subseteq> node_keys st3" by auto
  have ref: "?ref = cfg_ref (an_node_id n)" by (simp add: cfg_node_for_ast_def Let_def)
  show ?thesis
    using handler_edges_ok [of n r ast ?ref sha st3 ?ft en] h nr ref s2 s3 st' by auto
qed

lemma build_handler_subgraphs_ok:
  "set hs \<subseteq> set (cfg_handlers ast) \<Longrightarrow> cb_ok sha ast st \<Longrightarrow> build_handler_subgraphs fuel sha ast hs st = Inr st' \<Longrightarrow>
   cb_ok sha ast st' \<and> (cfg_ref \<circ> an_node_id \<circ> fst) ` set hs \<union> node_keys st \<subseteq> node_keys st'"
proof (induction hs arbitrary: st)
  case (Cons h hs)
  obtain st1 where 1: "build_handler fuel sha ast h st = Inr st1" using Cons.prems(3) by (auto split: sum.splits)
  have s1: "cb_ok sha ast st1" "insert (cfg_ref (an_node_id (fst h))) (node_keys st) \<subseteq> node_keys st1"
    using build_handler_ok [OF _ Cons.prems(2) 1] Cons.prems(1) by auto
  show ?case using Cons.IH [of st1] Cons.prems 1 s1 by auto
qed simp

lemma normal_successors_mem: "cb_ok sha ast st \<Longrightarrow> normal_successors st s = Some t \<Longrightarrow> t \<in> node_keys st"
  by (fastforce simp: normal_successors_def cb_ok_def cfg_edge_ok_def dest!: map_of_SomeD)

lemma grouped_eligible:
  "candidates \<in> set (grouped_handlers ast source) \<Longrightarrow> candidates \<noteq> [] \<and> set candidates \<subseteq> set (eligible_handlers ast source)"
  by (auto simp: grouped_handlers_def Let_def filter_empty_conv foldl_append_new_set)

lemma select_handler_mem:
  assumes "candidates \<in> set (grouped_handlers ast source)"
  shows "select_handler ast candidates \<in> set candidates"
proof -
  obtain x xs where "candidates = x # xs" using grouped_eligible [OF assms] by (cases candidates) auto
  then show ?thesis using first_max_mem [of "\<lambda>(n, r). scope_depth ast (hr_lexical_scope_ref r)" x xs] by (simp add: select_handler_def)
qed

lemma select_handler_deepest:
  assumes "candidates \<in> set (grouped_handlers ast source)" "select_handler ast candidates = (n, r)"
    and "(n', r') \<in> set (eligible_handlers ast source)" "handler_condition_key r' = handler_condition_key r"
  shows "scope_depth ast (hr_lexical_scope_ref r') \<le> scope_depth ast (hr_lexical_scope_ref r)"
proof -
  obtain x xs where c: "candidates = x # xs" using grouped_eligible [OF assms(1)] by (cases candidates) auto
  have "(n, r) \<in> set candidates" using select_handler_mem [OF assms(1)] assms(2) by simp
  then have "(n', r') \<in> set candidates" using assms(1,3,4) by (auto simp: grouped_handlers_def Let_def)
  then show ?thesis
    using first_max_ge [of "\<lambda>(n, r). scope_depth ast (hr_lexical_scope_ref r)" x xs] assms(2) c
    by (fastforce simp: select_handler_def)
qed

definition bind_inv :: "(string \<Rightarrow> string) \<Rightarrow> ProcedureAst \<Rightarrow> (string \<Rightarrow> string option) \<Rightarrow> cfg_state \<Rightarrow> bool" where
  "bind_inv sha ast successors st \<longleftrightarrow>
     cb_ok sha ast st \<and> (\<forall>h \<in> set (cfg_handlers ast). cfg_ref (an_node_id (fst h)) \<in> node_keys st) \<and>
     (\<forall>s t. successors s = Some t \<longrightarrow> t \<in> node_keys st)"

lemma add_binding_ok: "cb_ok sha ast st \<Longrightarrow> binding_ok ast (node_keys st) b \<Longrightarrow> cb_ok sha ast (st\<lparr>cb_bindings := cb_bindings st @ [b]\<rparr>)"
  by (simp add: cb_ok_def ball_Un)

lemma bind_handler_inv:
  assumes inv: "bind_inv sha ast successors st" and src: "source \<in> set (pa_nodes ast)" "an_node_id source \<notin> set (handler_descendants ast)"
    and c: "candidates \<in> set (grouped_handlers ast source)"
  shows "bind_inv sha ast successors (bind_handler sha ast successors source (select_handler ast candidates) st)"
proof (cases "map_of (cb_nodes st) (cfg_ref (an_node_id source))")
  case None
  then show ?thesis using inv by (simp add: bind_handler_def split: prod.split)
next
  case (Some x)
  obtain n r where nr: "select_handler ast candidates = (n, r)" by (meson surj_pair)
  define cont where "cont = (if hr_handler_kind r = HK_CONTINUE
    then (case successors (cfg_ref (an_node_id source)) of Some t \<Rightarrow> t | None \<Rightarrow> normal_exit sha ast) else normal_exit sha ast)"
  have "(n, r) \<in> set (cfg_handlers ast)"
    using select_handler_mem [OF c] grouped_eligible [OF c] nr by (auto simp: eligible_handlers_def)
  then have h: "cfg_ref (an_node_id n) \<in> node_keys st" using inv by (force simp: bind_inv_def)
  have s: "cfg_ref (an_node_id source) \<in> node_keys st" using Some unfolding node_keys_def by (metis map_of_eq_None_iff option.distinct(1))
  have k: "cont \<in> node_keys st"
    using inv by (auto simp: cont_def bind_inv_def cb_ok_def split: option.split)
  obtain b e where be: "bind_handler sha ast successors source (n, r) st = add_cfg_edge sha e (st\<lparr>cb_bindings := cb_bindings st @ [b]\<rparr>)"
    "ce_source_ref e = cfg_ref (an_node_id source)" "ce_target_ref e = cfg_ref (an_node_id n)" "ce_edge_kind e = CE_HANDLER"
    "hf_source_ast_node_ref b = an_node_id source" "hf_handler_region_ref b = an_node_id n"
    "hf_handled_condition_text b = hr_handled_condition_text r" "hf_continuation_semantics b = hr_continuation_semantics r"
    "hf_continuation_target_ref b = cont"
    using Some by (simp add: bind_handler_def Let_def plain_edge_def cont_def [symmetric])
  have "binding_ok ast (node_keys st) b" using be k src c nr unfolding binding_ok_def by metis
  then have "cb_ok sha ast (add_cfg_edge sha e (st\<lparr>cb_bindings := cb_bindings st @ [b]\<rparr>))"
    using inv s h be by (intro add_cfg_edge_ok add_binding_ok) (auto simp: bind_inv_def edge_rule_def)
  then show ?thesis using inv nr be(1) by (auto simp: bind_inv_def)
qed

lemma bind_source_inv:
  assumes "bind_inv sha ast successors st" "source \<in> set (pa_nodes ast)"
  shows "bind_inv sha ast successors (bind_source sha ast successors st source)"
proof -
  have "bind_inv sha ast successors (foldl (\<lambda>st c. bind_handler sha ast successors source (select_handler ast c) st) st gs)"
    if "set gs \<subseteq> set (grouped_handlers ast source)" "an_node_id source \<notin> set (handler_descendants ast)" "bind_inv sha ast successors st" for gs st
    using that
  proof (induction gs arbitrary: st)
    case (Cons g gs)
    then show ?case using bind_handler_inv [of sha ast successors st source g] assms(2) by simp
  qed simp
  then show ?thesis using assms by (simp add: bind_source_def)
qed

lemma bind_handlers_inv:
  assumes "bind_inv sha ast (normal_successors st) st"
  shows "bind_inv sha ast (normal_successors st) (bind_handlers sha ast st)"
proof -
  have "bind_inv sha ast succ (foldl (bind_source sha ast succ) st ns)" if "set ns \<subseteq> set (pa_nodes ast)" "bind_inv sha ast succ st" for succ st ns
    using that by (induction ns arbitrary: st) (simp_all add: bind_source_inv)
  then show ?thesis using assms by (simp add: bind_handlers_def)
qed

lemma cfg_start_ok: "cb_ok sha ast (cfg_start sha ast)"
  by (auto simp: cfg_start_def synthetic_node_def cb_ok_def node_keys_def cfg_node_ok_def)

lemma build_cfg_inv:
  assumes "build_cfg fuel sha ast = Inr g"
  obtains st where "cb_ok sha ast st" "g = cfg_finish sha ast st"
proof -
  let ?ne = "normal_exit sha ast" and ?en = "synthetic_ref sha ast ''entry''"
  obtain t st1 where 1: "build_sequence (build_node fuel sha ast) (pa_body_node_refs ast) ?ne [] (cfg_start sha ast) = Inr (t, st1)"
    using assms by (auto simp: build_cfg_def split: sum.splits)
  let ?st2 = "add_cfg_edge sha (plain_edge ?en t CE_ENTRY) st1"
  obtain st3 where 3: "build_handler_subgraphs fuel sha ast (cfg_handlers ast) ?st2 = Inr st3"
    and g: "g = cfg_finish sha ast (bind_handlers sha ast st3)"
    using assms 1 by (auto simp: build_cfg_def Let_def split: sum.splits)
  have "ready sha ast ?ne [] (cfg_start sha ast)" using cfg_start_ok [of sha ast] by (simp add: ready_def contexts_ok_def cb_ok_def)
  from build_sequence_ok [OF build_node_ok this 1] have s1: "t \<in> node_keys st1" "cb_ok sha ast st1" by auto
  then have s2: "cb_ok sha ast ?st2"
    by (intro add_cfg_edge_ok) (auto simp: plain_edge_def edge_rule_def cb_ok_def)
  have s3: "cb_ok sha ast st3" "\<forall>h \<in> set (cfg_handlers ast). cfg_ref (an_node_id (fst h)) \<in> node_keys st3"
    using build_handler_subgraphs_ok [OF _ s2 3] by auto
  then have "bind_inv sha ast (normal_successors st3) st3"
    using normal_successors_mem by (auto simp: bind_inv_def)
  from bind_handlers_inv [OF this] have "cb_ok sha ast (bind_handlers sha ast st3)" by (simp add: bind_inv_def)
  then show thesis using g that by blast
qed

lemma sorted_ids:
  assumes "distinct (map fst kvs)" "\<forall>kv \<in> set kvs. f (snd kv) = fst kv"
  shows "distinct (map f (sort_key f (map snd kvs)))" "f ` set (sort_key f (map snd kvs)) = fst ` set kvs"
proof -
  have "map f (map snd kvs) = map fst kvs" using assms(2) by simp
  then have "distinct (map f (map snd kvs))" using assms(1) by metis
  moreover have "distinct (map f (sort_key f xs))" if "distinct (map f xs)" for xs using that by (simp add: distinct_map)
  ultimately show "distinct (map f (sort_key f (map snd kvs)))" by blast
  show "f ` set (sort_key f (map snd kvs)) = fst ` set kvs" using assms(2) by force
qed

lemma build_cfg_facts:
  assumes "build_cfg fuel sha ast = Inr g"
  shows "cfg_closed g" "distinct (map cn_cfg_node_id (cfg_nodes g))" "distinct (map ce_edge_id (cfg_edges g))"
    and "\<forall>n \<in> set (cfg_nodes g). case cn_ast_node_ref n of None \<Rightarrow> True | Some r \<Rightarrow> cfg_by_id ast r \<noteq> None"
    and "\<forall>b \<in> set (cfg_handler_bindings g). binding_ok ast (cfg_node_ids g) b"
    and "\<forall>e \<in> set (cfg_edges g). edge_rule sha ast e"
proof -
  obtain st where st: "cb_ok sha ast st" "g = cfg_finish sha ast st" by (rule build_cfg_inv [OF assms])
  have n: "distinct (map fst (cb_nodes st))" "\<forall>kn \<in> set (cb_nodes st). cn_cfg_node_id (snd kn) = fst kn"
    and e: "distinct (map fst (cb_edges st))" "\<forall>ke \<in> set (cb_edges st). ce_edge_id (snd ke) = fst ke"
    using st(1) by (simp_all add: cb_ok_def cfg_node_ok_def cfg_edge_ok_def)
  have ids: "cfg_node_ids g = node_keys st"
    using sorted_ids(2) [OF n] st(2) by (simp add: cfg_node_ids_def cfg_finish_def node_keys_def)
  show "distinct (map cn_cfg_node_id (cfg_nodes g))" using sorted_ids(1) [OF n] st(2) by (simp add: cfg_finish_def)
  show "distinct (map ce_edge_id (cfg_edges g))" using sorted_ids(1) [OF e] st(2) by (simp add: cfg_finish_def)
  have "\<forall>x \<in> set (cfg_edges g). \<exists>i. (i, x) \<in> set (cb_edges st)" using st(2) by (auto simp: cfg_finish_def)
  then have edges: "\<forall>x \<in> set (cfg_edges g). ce_source_ref x \<in> node_keys st \<and> ce_target_ref x \<in> node_keys st \<and> edge_rule sha ast x"
    using st(1) by (fastforce simp: cb_ok_def cfg_edge_ok_def)
  then show "\<forall>x \<in> set (cfg_edges g). edge_rule sha ast x" by blast
  show "cfg_closed g" using edges ids st by (simp add: cfg_closed_def cfg_finish_def cb_ok_def)
  show "\<forall>b \<in> set (cfg_handler_bindings g). binding_ok ast (cfg_node_ids g) b"
    using st ids by (simp add: cfg_finish_def cb_ok_def)
  show "\<forall>n \<in> set (cfg_nodes g). case cn_ast_node_ref n of None \<Rightarrow> True | Some r \<Rightarrow> cfg_by_id ast r \<noteq> None"
    using st by (fastforce simp: cfg_finish_def cb_ok_def cfg_node_ok_def)
qed

section \<open>Fuel\<close>

text \<open>More fuel never changes a result.\<close>

definition agrees :: "builder \<Rightarrow> builder \<Rightarrow> bool" where
  "agrees f f' \<longleftrightarrow> (\<forall>r c cs st x. f r c cs st = Inr x \<longrightarrow> f' r c cs st = Inr x)"

lemma build_sequence_agrees:
  "agrees f f' \<Longrightarrow> build_sequence f refs c cs st = Inr x \<Longrightarrow> build_sequence f' refs c cs st = Inr x"
  by (induction refs arbitrary: x) (auto simp: agrees_def split: sum.splits)

lemma build_arm_agrees: "agrees f f' \<Longrightarrow> build_arm sha ast f c cs a st = Inr x \<Longrightarrow> build_arm sha ast f' c cs a st = Inr x"
  by (auto simp: build_arm_def dest: build_sequence_agrees split: option.splits sum.splits prod.splits)

lemma build_arms_agrees:
  "agrees f f' \<Longrightarrow> build_arms sha ast f ref c cs i arms h t st = Inr x \<Longrightarrow> build_arms sha ast f' ref c cs i arms h t st = Inr x"
proof (induction arms arbitrary: i h t st)
  case (Cons a arms)
  obtain y where "build_arm sha ast f c cs a st = Inr y" using Cons.prems(2) by (auto split: sum.splits)
  then show ?case using Cons build_arm_agrees [OF Cons.prems(1)] by (cases y) (fastforce simp: Let_def)
qed simp

lemma build_region_agrees:
  assumes "agrees f f'"
  shows "build_compound sha f ref cregion r c cs st = Inr x \<Longrightarrow> build_compound sha f' ref cregion r c cs st = Inr x"
    and "build_loop sha f ref lregion r c cs st = Inr x \<Longrightarrow> build_loop sha f' ref lregion r c cs st = Inr x"
    and "build_if sha ast f ref iregion r c cs st = Inr x \<Longrightarrow> build_if sha ast f' ref iregion r c cs st = Inr x"
proof -
  show "build_compound sha f ref cregion r c cs st = Inr x \<Longrightarrow> build_compound sha f' ref cregion r c cs st = Inr x"
    by (auto simp: build_compound_def dest: build_sequence_agrees [OF assms] split: sum.splits)
  show "build_loop sha f ref lregion r c cs st = Inr x \<Longrightarrow> build_loop sha f' ref lregion r c cs st = Inr x"
    by (auto simp: build_loop_def dest: build_sequence_agrees [OF assms] split: sum.splits)
  show "build_if sha ast f ref iregion r c cs st = Inr x \<Longrightarrow> build_if sha ast f' ref iregion r c cs st = Inr x"
    by (auto simp: build_if_def dest: build_arms_agrees [OF assms] split: sum.splits)
qed

lemma build_step_agrees:
  assumes "agrees f f'"
  shows "agrees (build_step sha ast f) (build_step sha ast f')"
  unfolding agrees_def
proof (intro allI impI)
  fix r c cs st x
  assume res: "build_step sha ast f r c cs st = Inr x"
  obtain node where node: "cfg_by_id ast r = Some node" using res by (cases "cfg_by_id ast r") (simp_all add: build_step_def)
  obtain ref st1 where 1: "cfg_node_for_ast node st = (ref, st1)" by (meson surj_pair)
  show "build_step sha ast f' r c cs st = Inr x"
  proof (cases "an_kind node \<in> set declaration_kinds")
    case True
    then show ?thesis using res node by (simp add: build_step_def)
  next
    case False
    then show ?thesis
      using res build_region_agrees [OF assms] unfolding build_step_eq [OF node False 1] by (auto split: if_splits)
  qed
qed

lemma build_node_agrees: "n \<le> m \<Longrightarrow> agrees (build_node n sha ast) (build_node m sha ast)"
proof (induction n arbitrary: m)
  case 0
  then show ?case by (simp add: agrees_def)
next
  case (Suc n)
  then obtain k where "m = Suc k" "n \<le> k" by (cases m) auto
  then show ?case using Suc.IH by (simp add: build_step_agrees)
qed

text \<open>A tree whose nested references resolve and descend in height \<open>h\<close>.\<close>

definition region_arms :: "AstNode \<Rightarrow> IfArm list" where
  "region_arms n = (case an_if_region n of Some r \<Rightarrow> if_arms r | None \<Rightarrow> [])"

definition nested_refs :: "AstNode \<Rightarrow> string list" where
  "nested_refs n = (case an_compound_region n of Some r \<Rightarrow> cr_body_node_refs r | None \<Rightarrow> []) @
     concat (map arm_body_node_refs (region_arms n)) @ (case an_loop_region n of Some r \<Rightarrow> lp_body_node_refs r | None \<Rightarrow> [])"

definition well_nested :: "(string \<Rightarrow> nat) \<Rightarrow> ProcedureAst \<Rightarrow> bool" where
  "well_nested h ast = list_all (\<lambda>n.
     list_all (\<lambda>r. cfg_by_id ast r \<noteq> None \<and> h r < h (an_node_id n)) (nested_refs n) \<and>
     list_all (\<lambda>a. cfg_by_id ast (arm_arm_id a) \<noteq> None) (region_arms n)) (pa_nodes ast)"

definition root_refs :: "ProcedureAst \<Rightarrow> string list" where
  "root_refs ast = pa_body_node_refs ast @ concat (map (\<lambda>(n, r). hr_body_node_refs r) (cfg_handlers ast))"

definition returns_on :: "builder \<Rightarrow> string list \<Rightarrow> bool" where
  "returns_on f refs \<longleftrightarrow> (\<forall>r \<in> set refs. \<forall>c cs st. \<exists>x. f r c cs st = Inr x)"

lemma returns_bind: "\<exists>x. s = Inr x \<Longrightarrow> (\<And>p. \<exists>y. f p = Inr y) \<Longrightarrow> \<exists>y. case_sum Inl f s = Inr y"
  by auto

lemma build_sequence_returns: "returns_on f refs \<Longrightarrow> \<exists>x. build_sequence f refs c cs st = Inr x"
proof (induction refs)
  case (Cons r refs)
  then obtain x where x: "build_sequence f refs c cs st = Inr x" by (auto simp: returns_on_def)
  obtain r1 st1 where "x = (r1, st1)" by (cases x)
  then show ?case using Cons.prems x by (auto simp: returns_on_def)
qed simp

lemma build_arms_returns:
  assumes "returns_on f (concat (map arm_body_node_refs arms))" "\<forall>a \<in> set arms. cfg_by_id ast (arm_arm_id a) \<noteq> None"
  shows "\<exists>x. build_arms sha ast f ref c cs i arms h t st = Inr x"
  using assms
proof (induction arms arbitrary: i h t st)
  case (Cons a arms)
  obtain m where m: "cfg_by_id ast (arm_arm_id a) = Some m" using Cons.prems(2) by auto
  obtain ar st1 where 1: "cfg_node_for_ast m st = (ar, st1)" by (meson surj_pair)
  have "returns_on f (arm_body_node_refs a)" using Cons.prems(1) by (simp add: returns_on_def)
  from build_sequence_returns [OF this] obtain y where y: "build_sequence f (arm_body_node_refs a) c cs st1 = Inr y" by blast
  then obtain ar' st2 where "build_arm sha ast f c cs a st = Inr (ar', st2)" using m 1 by (cases y) (simp add: build_arm_def)
  moreover have "returns_on f (concat (map arm_body_node_refs arms))" using Cons.prems(1) by (simp add: returns_on_def)
  ultimately show ?case using Cons.IH Cons.prems(2) by (simp add: Let_def)
qed simp

lemma build_step_returns:
  assumes "cfg_by_id ast r = Some node" "returns_on f (nested_refs node)" "\<forall>a \<in> set (region_arms node). cfg_by_id ast (arm_arm_id a) \<noteq> None"
  shows "\<exists>x. build_step sha ast f r c cs st = Inr x"
proof (cases "an_kind node \<in> set declaration_kinds")
  case True
  then show ?thesis using assms(1) by (simp add: build_step_def)
next
  case False
  obtain ref st1 where 1: "cfg_node_for_ast node st = (ref, st1)" by (meson surj_pair)
  have seq: "\<exists>y. build_sequence f (cr_body_node_refs region) c cs st = Inr y" if "an_compound_region node = Some region" for region c cs st
    using assms(2) that by (intro build_sequence_returns) (auto simp: nested_refs_def returns_on_def)
  have lp: "\<exists>y. build_sequence f (lp_body_node_refs region) c cs st = Inr y" if "an_loop_region node = Some region" for region c cs st
    using assms(2) that by (intro build_sequence_returns) (auto simp: nested_refs_def returns_on_def)
  have ar: "\<exists>y. build_arms sha ast f ref c cs 0 (if_arms region) False False st = Inr y" if "an_if_region node = Some region" for region c cs st
    using assms(2,3) that by (intro build_arms_returns) (auto simp: nested_refs_def returns_on_def region_arms_def)
  have "\<exists>x. build_compound sha f ref region r c cs st1 = Inr x" if "an_compound_region node = Some region" for region
    unfolding build_compound_def by (rule returns_bind [OF seq [OF that]]) auto
  moreover have "\<exists>x. build_loop sha f ref region r c cs st1 = Inr x" if "an_loop_region node = Some region" for region
    unfolding build_loop_def by (rule returns_bind [OF lp [OF that]]) (auto simp: Let_def)
  moreover have "\<exists>x. build_if sha ast f ref region r c cs st1 = Inr x" if "an_if_region node = Some region" for region
    unfolding build_if_def by (rule returns_bind [OF ar [OF that]]) auto
  moreover have "\<exists>x. build_simple sha ast node ref r c cs st1 = Inr x"
    by (simp add: build_simple_def split: prod.split)
  ultimately show ?thesis unfolding build_step_eq [OF assms(1) False 1] by auto
qed

lemma build_node_returns:
  assumes "well_nested h ast"
  shows "cfg_by_id ast r \<noteq> None \<Longrightarrow> h r < n \<Longrightarrow> \<exists>x. build_node n sha ast r c cs st = Inr x"
proof (induction n arbitrary: r c cs st)
  case (Suc n)
  then obtain node where node: "cfg_by_id ast r = Some node" by auto
  then have "node \<in> set (pa_nodes ast)" "an_node_id node = r" using cfg_by_id_Some by auto
  then have w: "\<forall>q \<in> set (nested_refs node). cfg_by_id ast q \<noteq> None \<and> h q < h r"
    "\<forall>a \<in> set (region_arms node). cfg_by_id ast (arm_arm_id a) \<noteq> None"
    using assms by (auto simp: well_nested_def list_all_iff)
  have "returns_on (build_node n sha ast) (nested_refs node)"
    unfolding returns_on_def
  proof (intro ballI allI)
    fix q c cs st assume "q \<in> set (nested_refs node)"
    then have "cfg_by_id ast q \<noteq> None" "h q < n" using w(1) Suc.prems(2) by auto
    then show "\<exists>x. build_node n sha ast q c cs st = Inr x" by (rule Suc.IH)
  qed
  then show ?case using build_step_returns [OF node _ w(2)] by simp
qed simp

lemma build_handlers_returns:
  assumes "\<forall>(n, r) \<in> set hs. returns_on (build_node fuel sha ast) (hr_body_node_refs r)"
  shows "\<exists>st'. build_handler_subgraphs fuel sha ast hs st = Inr st'"
  using assms
proof (induction hs arbitrary: st)
  case (Cons h hs)
  obtain n r where h: "h = (n, r)" by (cases h)
  have ret: "\<exists>x. build_sequence (build_node fuel sha ast) (hr_body_node_refs r) c cs st = Inr x" for c cs st
    using Cons.prems h by (intro build_sequence_returns) simp
  have "\<exists>st1. build_handler fuel sha ast h st = Inr st1"
    unfolding build_handler_def h prod.case by (rule returns_bind [OF ret]) auto
  then show ?case using Cons by auto
qed simp

lemma build_cfg_agrees: "build_cfg n sha ast = Inr g \<Longrightarrow> n \<le> m \<Longrightarrow> build_cfg m sha ast = Inr g"
proof -
  assume res: "build_cfg n sha ast = Inr g" and le: "n \<le> m"
  note ag = build_sequence_agrees [OF build_node_agrees [OF le]]
  have h: "build_handler n sha ast h st = Inr st' \<Longrightarrow> build_handler m sha ast h st = Inr st'" for h st st'
    by (cases h) (auto simp: build_handler_def dest: ag split: sum.splits)
  have hs: "build_handler_subgraphs n sha ast hs st = Inr st' \<Longrightarrow> build_handler_subgraphs m sha ast hs st = Inr st'" for hs st st'
    by (induction hs arbitrary: st) (auto dest: h split: sum.splits)
  obtain t st1 where 1: "build_sequence (build_node n sha ast) (pa_body_node_refs ast) (normal_exit sha ast) [] (cfg_start sha ast) = Inr (t, st1)"
    using res by (auto simp: build_cfg_def split: sum.splits)
  obtain st3 where "build_handler_subgraphs n sha ast (cfg_handlers ast)
      (add_cfg_edge sha (plain_edge (synthetic_ref sha ast ''entry'') t CE_ENTRY) st1) = Inr st3"
    "g = cfg_finish sha ast (bind_handlers sha ast st3)"
    using res 1 by (auto simp: build_cfg_def Let_def split: sum.splits)
  then show ?thesis using ag [OF 1] hs by (simp add: build_cfg_def Let_def)
qed

lemma build_cfg_returns:
  assumes "well_nested h ast" "list_all (\<lambda>r. cfg_by_id ast r \<noteq> None \<and> h r < fuel) (root_refs ast)"
  shows "\<exists>g. build_cfg fuel sha ast = Inr g"
proof -
  have ret: "returns_on (build_node fuel sha ast) refs" if "set refs \<subseteq> set (root_refs ast)" for refs
    using assms(2) that build_node_returns [OF assms(1)] by (auto simp: returns_on_def list_all_iff)
  have "returns_on (build_node fuel sha ast) (pa_body_node_refs ast)" by (rule ret) (simp add: root_refs_def)
  from build_sequence_returns [OF this]
  obtain t st1 where 1: "build_sequence (build_node fuel sha ast) (pa_body_node_refs ast) (normal_exit sha ast) [] (cfg_start sha ast) = Inr (t, st1)"
    by fastforce
  have "\<forall>(n, r) \<in> set (cfg_handlers ast). returns_on (build_node fuel sha ast) (hr_body_node_refs r)"
  proof clarify
    fix n r assume "(n, r) \<in> set (cfg_handlers ast)"
    then have "set (hr_body_node_refs r) \<subseteq> set (root_refs ast)" by (fastforce simp: root_refs_def)
    then show "returns_on (build_node fuel sha ast) (hr_body_node_refs r)" by (rule ret)
  qed
  then show ?thesis
    using build_handlers_returns [of "cfg_handlers ast" fuel sha ast "add_cfg_edge sha (plain_edge (synthetic_ref sha ast ''entry'') t CE_ENTRY) st1"] 1
    by (auto simp: build_cfg_def Let_def)
qed

section \<open>Properties of the builder\<close>

text \<open>
  C10: the graph is closed. Whenever the builder returns a graph, its entry and both exits are nodes,
  every edge joins two nodes, node ids and edge ids are distinct, every node that stands for a
  statement refers to a node of the syntax tree, and every handler binding continues at a node.
\<close>

theorem build_cfg_closed:
  assumes "build_cfg fuel sha ast = Inr g"
  shows "cfg_closed g \<and> distinct (map cn_cfg_node_id (cfg_nodes g)) \<and> distinct (map ce_edge_id (cfg_edges g)) \<and>
    (\<forall>n \<in> set (cfg_nodes g). case cn_ast_node_ref n of None \<Rightarrow> True | Some r \<Rightarrow> cfg_by_id ast r \<noteq> None) \<and>
    (\<forall>b \<in> set (cfg_handler_bindings g). hf_continuation_target_ref b \<in> cfg_node_ids g)"
  using build_cfg_facts [OF assms] binding_ok_def by blast

text \<open>
  C11: building terminates. When the nested references of a syntax tree resolve and descend, a number
  of levels larger than the height of every root is enough recursion: the builder returns a graph,
  and the same graph with any larger bound.
\<close>

theorem build_cfg_total:
  assumes "well_nested h ast" "list_all (\<lambda>r. cfg_by_id ast r \<noteq> None \<and> h r < fuel) (root_refs ast)"
  shows "\<exists>g. \<forall>m \<ge> fuel. build_cfg m sha ast = Inr g"
  using build_cfg_returns [OF assms] build_cfg_agrees by blast

text \<open>
  C31: transfers do not fall through. In the graph of a well-formed syntax tree every edge that leaves
  a RETURN statement, other than one into a handler, goes to the normal exit as a RETURN edge, and
  every edge that leaves a SIGNAL or RESIGNAL statement goes to the exceptional exit, unless a
  handler takes it.
\<close>

theorem build_cfg_transfers:
  assumes "build_cfg fuel sha ast = Inr g" "ast_ok ast" "cfg_by_id ast r = Some node"
    and "an_kind node \<in> {NK_RETURN, NK_SIGNAL, NK_RESIGNAL}"
  shows "{(ce_target_ref e, ce_edge_kind e) | e. e \<in> set (cfg_edges g) \<and> ce_source_ref e = cfg_ref r \<and> ce_edge_kind e \<noteq> CE_HANDLER} \<subseteq>
    {if an_kind node = NK_RETURN then (cfg_normal_exit_ref g, CE_RETURN)
     else (cfg_exceptional_exit_ref g, if an_kind node = NK_SIGNAL then CE_SIGNAL else CE_RESIGNAL)}" (is "?L \<subseteq> ?R")
proof
  fix x assume "x \<in> ?L"
  then obtain e where e: "x = (ce_target_ref e, ce_edge_kind e)" "e \<in> set (cfg_edges g)" "ce_source_ref e = cfg_ref r" "ce_edge_kind e \<noteq> CE_HANDLER"
    by blast
  have refs: "cfg_normal_exit_ref g = normal_exit sha ast" "cfg_exceptional_exit_ref g = exceptional_exit sha ast"
    by (rule build_cfg_inv [OF assms(1)], simp add: cfg_finish_def)+
  have "edge_rule sha ast e" using build_cfg_facts(6) [OF assms(1)] e(2) by blast
  then show "x \<in> ?R" using assms(2-4) e refs by (auto simp: edge_rule_def transfer_target_def)
qed

text \<open>
  Bound handlers are applicable and innermost. Every handler binding of the graph goes from a
  statement outside all handler bodies to a handler whose scope encloses the statement and whose
  condition applies to it, and no applicable handler for the same condition is declared in a deeper
  scope.
\<close>

theorem handler_bindings_innermost:
  assumes "build_cfg fuel sha ast = Inr g" "b \<in> set (cfg_handler_bindings g)"
  shows "\<exists>source \<in> set (pa_nodes ast). \<exists>(n, r) \<in> set (cfg_handlers ast).
    hf_source_ast_node_ref b = an_node_id source \<and> hf_handler_region_ref b = an_node_id n \<and>
    an_node_id source \<notin> set (handler_descendants ast) \<and>
    scope_contains ast (hr_lexical_scope_ref r) (an_lexical_scope_ref source) \<and> handler_applies r source \<and>
    list_all (\<lambda>(n', r'). handler_condition_key r' = handler_condition_key r \<longrightarrow>
      scope_depth ast (hr_lexical_scope_ref r') \<le> scope_depth ast (hr_lexical_scope_ref r)) (eligible_handlers ast source)"
proof -
  have "binding_ok ast (cfg_node_ids g) b" using build_cfg_facts(5) [OF assms(1)] assms(2) by blast
  then obtain source c n r where s: "source \<in> set (pa_nodes ast)" "c \<in> set (grouped_handlers ast source)" "select_handler ast c = (n, r)"
    "an_node_id source \<notin> set (handler_descendants ast)" "hf_source_ast_node_ref b = an_node_id source" "hf_handler_region_ref b = an_node_id n"
    unfolding binding_ok_def by blast
  have "(n, r) \<in> set (eligible_handlers ast source)" using select_handler_mem [OF s(2)] grouped_eligible [OF s(2)] s(3) by auto
  then have "(n, r) \<in> set (cfg_handlers ast)" "scope_contains ast (hr_lexical_scope_ref r) (an_lexical_scope_ref source)" "handler_applies r source"
    by (auto simp: eligible_handlers_def)
  moreover have "list_all (\<lambda>(n', r'). handler_condition_key r' = handler_condition_key r \<longrightarrow>
      scope_depth ast (hr_lexical_scope_ref r') \<le> scope_depth ast (hr_lexical_scope_ref r)) (eligible_handlers ast source)"
    using select_handler_deepest [OF s(2,3)] by (auto simp: list_all_iff)
  ultimately show ?thesis using s by (intro bexI [OF _ s(1)] bexI [of _ "(n, r)"]) simp_all
qed

section \<open>A small procedure\<close>

text \<open>
  \<open>w: WHILE c DO FETCH (f) END WHILE; RETURN (r)\<close> with a CONTINUE handler \<open>h\<close> for NOT FOUND whose body is the
  SIGNAL \<open>s\<close>; the digest function is the identity, which is injective on the keys of this tree.
\<close>

definition small_ast :: ProcedureAst where
  "small_ast = \<lparr>pa_node_id = ''p'', pa_schema_name = None, pa_procedure_name = ''P'', pa_commit_on_return = None,
     pa_body_node_refs = [''h'', ''w'', ''r''], pa_nodes =
       [(bare_node ''h'' NK_HANDLER_REGION)\<lparr>an_child_refs := [''s''], an_handler_region := Some
           \<lparr>hr_handler_kind = HK_CONTINUE, hr_handled_condition_text = ''not found'', hr_lexical_scope_ref = ''procedure-body'',
            hr_named_condition_ref = None, hr_resolved_sqlstate = None, hr_condition_resolution_status = BUILTIN_CONDITION,
            hr_body_node_refs = [''s''], hr_continuation_semantics = AFTER_RAISING_STATEMENT, hr_continuation_target_ref = None,
            hr_state_assignment_refs = [], hr_analysis_completeness = STRUCTURE_COMPLETE\<rparr>\<rparr>,
        bare_node ''s'' NK_SIGNAL,
        (bare_node ''w'' NK_LOOP_REGION)\<lparr>an_loop_region := Some \<lparr>lp_loop_kind = LK_WHILE, lp_label = None,
            lp_condition_text = Some ''c'', lp_body_node_refs = [''f''], lp_analysis_completeness = STRUCTURE_COMPLETE\<rparr>\<rparr>,
        bare_node ''f'' NK_FETCH_CURSOR, bare_node ''r'' NK_RETURN]\<rparr>"

definition small_height :: "string \<Rightarrow> nat" where
  "small_height r = (if r = ''w'' then 1 else 0)"

definition small_cfg :: ControlFlowGraph where
  "small_cfg = projr (build_cfg 2 (\<lambda>s. s) small_ast)"

lemma small_ast_nested:
  "well_nested small_height small_ast" "list_all (\<lambda>r. cfg_by_id small_ast r \<noteq> None \<and> small_height r < 2) (root_refs small_ast)"
  by code_simp+

lemma small_cfg_Inr: "build_cfg 2 (\<lambda>s. s) small_ast = Inr small_cfg"
  using build_cfg_returns [OF small_ast_nested, of "\<lambda>s. s"] by (auto simp: small_cfg_def)

theorem build_cfg_closed_witness: "cfg_closed small_cfg \<and> distinct (map ce_edge_id (cfg_edges small_cfg))"
  using build_cfg_closed [OF small_cfg_Inr] by blast

theorem build_cfg_total_witness: "\<exists>g. \<forall>m \<ge> 2. build_cfg m (\<lambda>s. s) small_ast = Inr g"
  by (rule build_cfg_total [OF small_ast_nested])

theorem build_cfg_transfers_witness:
  "{(ce_target_ref e, ce_edge_kind e) | e. e \<in> set (cfg_edges small_cfg) \<and> ce_source_ref e = cfg_ref ''r'' \<and> ce_edge_kind e \<noteq> CE_HANDLER} \<subseteq>
   {(cfg_normal_exit_ref small_cfg, CE_RETURN)}"
proof -
  have h: "ast_ok small_ast" "cfg_by_id small_ast ''r'' = Some (bare_node ''r'' NK_RETURN)" "an_kind (bare_node ''r'' NK_RETURN) = NK_RETURN"
    by code_simp+
  show ?thesis using build_cfg_transfers [OF small_cfg_Inr h(1,2)] by (simp add: h(3))
qed

text \<open>The binding the builder makes for the fetch, before the graph is sorted.\<close>

definition small_bindings :: "HandlerFlowBinding list" where
  "small_bindings =
     (case build_sequence (build_node 2 (\<lambda>s. s) small_ast) (pa_body_node_refs small_ast) (normal_exit (\<lambda>s. s) small_ast) []
        (cfg_start (\<lambda>s. s) small_ast) of
        Inl e \<Rightarrow> []
      | Inr (t, st1) \<Rightarrow>
          (case build_handler_subgraphs 2 (\<lambda>s. s) small_ast (cfg_handlers small_ast)
                  (add_cfg_edge (\<lambda>s. s) (plain_edge (synthetic_ref (\<lambda>s. s) small_ast ''entry'') t CE_ENTRY) st1) of
             Inl e \<Rightarrow> []
           | Inr st3 \<Rightarrow> cb_bindings (bind_handlers (\<lambda>s. s) small_ast st3)))"

lemma finish_bindings: "cfg_finish sha ast st = g \<Longrightarrow> set (cfg_handler_bindings g) = set (cb_bindings st)"
  by (auto simp: cfg_finish_def)

lemma small_cfg_bindings: "set (cfg_handler_bindings small_cfg) = set small_bindings"
  using small_cfg_Inr unfolding build_cfg_def small_bindings_def Let_def
  by (auto dest!: finish_bindings split: sum.splits)

theorem handler_bindings_innermost_witness:
  "map hf_source_ast_node_ref small_bindings = [''f''] \<and>
   (\<exists>source \<in> set (pa_nodes small_ast). an_node_id source = ''f'' \<and> an_node_id source \<notin> set (handler_descendants small_ast))"
proof -
  have e: "map hf_source_ast_node_ref small_bindings = [''f'']" by code_simp
  then obtain b where b: "small_bindings = [b]" "hf_source_ast_node_ref b = ''f''" by (auto simp only: map_eq_Cons_conv list.map_disc_iff)
  have "b \<in> set (cfg_handler_bindings small_cfg)" unfolding small_cfg_bindings b(1) by simp
  note h = handler_bindings_innermost [OF small_cfg_Inr this]
  obtain source where "source \<in> set (pa_nodes small_ast)" "hf_source_ast_node_ref b = an_node_id source"
    "an_node_id source \<notin> set (handler_descendants small_ast)"
    using h by (elim bexE) (auto split: prod.splits)
  then show ?thesis using e b(2) by auto
qed

end
