(* ===== verification/Reaching.thy ===== *)
theory Reaching
  imports SqlPlAst "HOL-Library.List_Lexorder" "HOL-Library.Char_ord" "HOL-Library.Product_Lexorder"
begin

text \<open>
  Reaching definitions, \<open>analysis/dataflow.py\<close>: a worklist solver that propagates, along the edges
  of a control-flow graph, which node may have defined a variable last. A state of the code, a
  dictionary from symbols to non-empty sets of node ids, is the set of its (symbol, node) pairs. The
  loop of \<open>_solve\<close> is a partial function whose value \<open>None\<close> means that it does not return and
  \<open>Inl\<close> that it raises; the lemmas show that on a closed graph it returns, and that what it
  returns is exactly the definitions that reach a node along some path. The set \<open>reachable\<close>, which
  the code fills and never reads, is left out.
\<close>

datatype df_error = DfKeyError string

type_synonym defs = "(string \<times> string) set"

section \<open>Definition sites\<close>

record DefinitionSite =
  ds_symbol_name :: string
  ds_source_node_ref :: string
  ds_expression_text :: string
  ds_definition_kind :: string

definition indexed :: "'a list \<Rightarrow> (nat \<times> 'a) list" where
  "indexed xs = zip [0..<length xs] xs"

definition into_sites :: "string \<Rightarrow> string \<Rightarrow> string \<Rightarrow> string list \<Rightarrow> DefinitionSite list" where
  "into_sites node_id kind stem targets =
     map (\<lambda>(index, target). \<lparr>ds_symbol_name = py_upper target, ds_source_node_ref = node_id,
            ds_expression_text = stem @ nat_dec (index + 1), ds_definition_kind = kind\<rparr>) (indexed targets)"

definition node_definition_sites :: "AstNode \<Rightarrow> DefinitionSite list" where
  "node_definition_sites node =
     (case an_assignment_binding node of
        None \<Rightarrow> []
      | Some b \<Rightarrow> [\<lparr>ds_symbol_name = py_upper (as_target_name b), ds_source_node_ref = an_node_id node,
                    ds_expression_text = as_expression_text b, ds_definition_kind = ''ASSIGNMENT''\<rparr>]) @
     (case an_select_into_binding node of
        None \<Rightarrow> []
      | Some b \<Rightarrow> into_sites (an_node_id node) ''SELECT_INTO'' ''SELECT_INTO_PROJECTION_'' (si_target_names b)) @
     (case an_fetch_binding node of
        None \<Rightarrow> []
      | Some b \<Rightarrow> into_sites (an_node_id node) ''FETCH'' (''FETCH_'' @ fb_cursor_name b @ ''_COLUMN_'') (fb_target_names b)) @
     (case an_dynamic_execute_binding node of
        None \<Rightarrow> []
      | Some b \<Rightarrow> into_sites (an_node_id node) ''EXECUTE_INTO'' ''EXECUTE_INTO_PROJECTION_'' (de_into_target_names b))"

definition node_by_id :: "ProcedureAst \<Rightarrow> (string \<times> AstNode) list" where
  "node_by_id ast = dict_update [] (map (\<lambda>n. (an_node_id n, n)) (pa_nodes ast))"

definition ast_by_cfg :: "ControlFlowGraph \<Rightarrow> (string \<times> string) list" where
  "ast_by_cfg g =
     dict_update [] (List.map_filter (\<lambda>n. map_option (\<lambda>r. (cn_cfg_node_id n, r)) (cn_ast_node_ref n)) (cfg_nodes g))"

definition cfg_ast_node :: "ProcedureAst \<Rightarrow> ControlFlowGraph \<Rightarrow> string \<Rightarrow> AstNode option" where
  "cfg_ast_node ast g cfg_ref =
     (case map_of (ast_by_cfg g) cfg_ref of None \<Rightarrow> None | Some ast_ref \<Rightarrow> map_of (node_by_id ast) ast_ref)"

text \<open>\<open>_definitions_by_cfg\<close>: every AST reference of the graph is looked up, and an empty list is no entry.\<close>

definition missing_refs :: "ProcedureAst \<Rightarrow> ControlFlowGraph \<Rightarrow> string list" where
  "missing_refs ast g = filter (\<lambda>r. map_of (node_by_id ast) r = None) (map snd (ast_by_cfg g))"

definition definitions_by_cfg :: "ProcedureAst \<Rightarrow> ControlFlowGraph \<Rightarrow> string \<Rightarrow> DefinitionSite list" where
  "definitions_by_cfg ast g cfg_ref =
     (case cfg_ast_node ast g cfg_ref of None \<Rightarrow> [] | Some node \<Rightarrow> node_definition_sites node)"

definition all_definition_sites :: "ProcedureAst \<Rightarrow> ControlFlowGraph \<Rightarrow> DefinitionSite list" where
  "all_definition_sites ast g =
     sort_key (\<lambda>item. (ds_source_node_ref item, ds_symbol_name item))
       (concat (map (\<lambda>(cfg_ref, _). definitions_by_cfg ast g cfg_ref) (ast_by_cfg g)))"

section \<open>Transfer and merge\<close>

definition predecessor_edges :: "ControlFlowGraph \<Rightarrow> string \<Rightarrow> CfgEdge list" where
  "predecessor_edges g n = filter (\<lambda>e. ce_target_ref e = n) (cfg_edges g)"

definition successor_edges :: "ControlFlowGraph \<Rightarrow> string \<Rightarrow> CfgEdge list" where
  "successor_edges g n = filter (\<lambda>e. ce_source_ref e = n) (cfg_edges g)"

definition merge_predecessor_states :: "ControlFlowGraph \<Rightarrow> string \<Rightarrow> (string \<Rightarrow> defs) \<Rightarrow> defs" where
  "merge_predecessor_states g n edge_state = (\<Union>e \<in> set (predecessor_edges g n). edge_state (ce_edge_id e))"

definition binding_can_fail :: "ProcedureAst \<Rightarrow> ControlFlowGraph \<Rightarrow> string \<Rightarrow> bool" where
  "binding_can_fail ast g cfg_ref =
     (case cfg_ast_node ast g cfg_ref of
        None \<Rightarrow> False
      | Some node \<Rightarrow> an_kind node \<in> {NK_SELECT_INTO, NK_FETCH_CURSOR, NK_EXECUTE, NK_EXECUTE_IMMEDIATE})"

definition set_site :: "defs \<Rightarrow> DefinitionSite \<Rightarrow> defs" where
  "set_site state site =
     insert (ds_symbol_name site, ds_source_node_ref site) (Set.filter (\<lambda>p. fst p \<noteq> ds_symbol_name site) state)"

definition transfer_for_edge :: "ProcedureAst \<Rightarrow> ControlFlowGraph \<Rightarrow> string \<Rightarrow> defs \<Rightarrow> CfgEdgeKind \<Rightarrow> defs" where
  "transfer_for_edge ast g cfg_ref incoming kind =
     (if kind = CE_HANDLER \<and> binding_can_fail ast g cfg_ref then incoming
      else foldl set_site incoming (definitions_by_cfg ast g cfg_ref))"

section \<open>The worklist\<close>

record df_state =
  df_in_state :: "string \<Rightarrow> defs"
  df_edge_state :: "string \<Rightarrow> defs"
  df_work :: "string list"
  df_queued :: "string set"
  df_initialized :: "string set"

definition propagate :: "ProcedureAst \<Rightarrow> ControlFlowGraph \<Rightarrow> string \<Rightarrow> defs \<Rightarrow> df_state \<Rightarrow> CfgEdge \<Rightarrow> df_state" where
  "propagate ast g current merged st e =
     (let propagated = transfer_for_edge ast g current merged (ce_edge_kind e) in
      if ce_edge_id e \<in> df_initialized st \<and> propagated = df_edge_state st (ce_edge_id e) then st
      else
        (let st' = st\<lparr>df_initialized := insert (ce_edge_id e) (df_initialized st),
                     df_edge_state := (df_edge_state st)(ce_edge_id e := propagated)\<rparr>
         in if ce_target_ref e \<in> df_queued st' then st'
            else st'\<lparr>df_work := df_work st' @ [ce_target_ref e], df_queued := insert (ce_target_ref e) (df_queued st')\<rparr>))"

definition visit :: "ProcedureAst \<Rightarrow> ControlFlowGraph \<Rightarrow> string \<Rightarrow> df_state \<Rightarrow> df_error + df_state" where
  "visit ast g current st =
     (if current \<notin> cfg_node_ids g then Inl (DfKeyError current)
      else
        (let merged = merge_predecessor_states g current (df_edge_state st);
             st' = (if merged \<noteq> df_in_state st current then st\<lparr>df_in_state := (df_in_state st)(current := merged)\<rparr> else st)
         in Inr (foldl (propagate ast g current merged) st' (successor_edges g current))))"

partial_function (option) solve_loop :: "ProcedureAst \<Rightarrow> ControlFlowGraph \<Rightarrow> df_state \<Rightarrow> (df_error + df_state) option" where
  "solve_loop ast g st =
     (case df_work st of
        [] \<Rightarrow> Some (Inr st)
      | current # work \<Rightarrow>
          (case visit ast g current (st\<lparr>df_work := work, df_queued := df_queued st - {current}\<rparr>) of
             Inl e \<Rightarrow> Some (Inl e)
           | Inr st' \<Rightarrow> solve_loop ast g st'))"

definition df_init :: "ControlFlowGraph \<Rightarrow> df_state" where
  "df_init g = \<lparr>df_in_state = (\<lambda>_. {}), df_edge_state = (\<lambda>_. {}), df_work = [cfg_entry_ref g],
     df_queued = {cfg_entry_ref g}, df_initialized = {}\<rparr>"

text \<open>The constructor of \<open>ReachingDefinitionAnalysis\<close>.\<close>

definition reaching_definitions :: "ProcedureAst \<Rightarrow> ControlFlowGraph \<Rightarrow> (df_error + df_state) option" where
  "reaching_definitions ast g =
     (case missing_refs ast g of r # _ \<Rightarrow> Some (Inl (DfKeyError r)) | [] \<Rightarrow> solve_loop ast g (df_init g))"

definition definitions_at_cfg :: "df_state \<Rightarrow> string \<Rightarrow> string \<Rightarrow> string list" where
  "definitions_at_cfg st cfg_ref symbol_name =
     sorted_list_of_set (snd ` Set.filter (\<lambda>p. fst p = py_upper symbol_name) (df_in_state st cfg_ref))"

definition definitions_before_ast :: "df_state \<Rightarrow> string \<Rightarrow> string \<Rightarrow> string list" where
  "definitions_before_ast st ast_node_ref symbol_name = definitions_at_cfg st (''cfg:'' @ ast_node_ref) symbol_name"

definition definitions_at_normal_exit :: "ControlFlowGraph \<Rightarrow> df_state \<Rightarrow> string \<Rightarrow> string list" where
  "definitions_at_normal_exit g st symbol_name = definitions_at_cfg st (cfg_normal_exit_ref g) symbol_name"

definition definitions_at_exceptional_exit :: "ControlFlowGraph \<Rightarrow> df_state \<Rightarrow> string \<Rightarrow> string list" where
  "definitions_at_exceptional_exit g st symbol_name = definitions_at_cfg st (cfg_exceptional_exit_ref g) symbol_name"

section \<open>The specification\<close>

text \<open>
  The sites an edge establishes, the nodes some path from the entry reaches, and the definitions
  that reach a node: a definition starts on an edge that leaves a reached node and is carried along
  edges that do not redefine its symbol.
\<close>

definition sites_on :: "ProcedureAst \<Rightarrow> ControlFlowGraph \<Rightarrow> CfgEdge \<Rightarrow> DefinitionSite list" where
  "sites_on ast g e =
     (if ce_edge_kind e = CE_HANDLER \<and> binding_can_fail ast g (ce_source_ref e) then []
      else definitions_by_cfg ast g (ce_source_ref e))"

inductive reached :: "ControlFlowGraph \<Rightarrow> string \<Rightarrow> bool" for g where
  reached_entry: "reached g (cfg_entry_ref g)"
| reached_edge: "reached g (ce_source_ref e) \<Longrightarrow> e \<in> set (cfg_edges g) \<Longrightarrow> reached g (ce_target_ref e)"

inductive reaches :: "ProcedureAst \<Rightarrow> ControlFlowGraph \<Rightarrow> string \<Rightarrow> string \<Rightarrow> string \<Rightarrow> bool" for ast g where
  reaches_born: "reached g (ce_source_ref e) \<Longrightarrow> e \<in> set (cfg_edges g) \<Longrightarrow> site \<in> set (sites_on ast g e) \<Longrightarrow>
    reaches ast g (ce_target_ref e) (ds_symbol_name site) (ds_source_node_ref site)"
| reaches_kept: "reaches ast g (ce_source_ref e) s d \<Longrightarrow> e \<in> set (cfg_edges g) \<Longrightarrow>
    s \<notin> ds_symbol_name ` set (sites_on ast g e) \<Longrightarrow> reaches ast g (ce_target_ref e) s d"

abbreviation flow :: "ProcedureAst \<Rightarrow> ControlFlowGraph \<Rightarrow> CfgEdge \<Rightarrow> defs \<Rightarrow> defs" where
  "flow ast g e A \<equiv> transfer_for_edge ast g (ce_source_ref e) A (ce_edge_kind e)"

section \<open>Transfer in closed form\<close>

lemma sites_source: "site \<in> set (node_definition_sites node) \<Longrightarrow> ds_source_node_ref site = an_node_id node"
  by (auto simp: node_definition_sites_def into_sites_def split: option.splits)

lemma foldl_set_site:
  assumes "\<forall>s \<in> set sites. ds_source_node_ref s = r"
  shows "foldl set_site A sites =
    {p \<in> A. fst p \<notin> ds_symbol_name ` set sites} \<union> (\<lambda>s. (ds_symbol_name s, r)) ` set sites"
  using assms
proof (induction sites arbitrary: A)
  case (Cons s sites)
  then show ?case by (auto simp: set_site_def)
qed simp

lemma definitions_source:
  "\<exists>r. \<forall>s \<in> set (definitions_by_cfg ast g n). ds_source_node_ref s = r"
  by (cases "cfg_ast_node ast g n") (auto simp: definitions_by_cfg_def sites_source)

lemma sites_on_source: "\<exists>r. \<forall>s \<in> set (sites_on ast g e). ds_source_node_ref s = r"
  unfolding sites_on_def by (simp add: definitions_source)

lemma flow_eq:
  "flow ast g e A = {p \<in> A. fst p \<notin> ds_symbol_name ` set (sites_on ast g e)} \<union>
     (\<lambda>s. (ds_symbol_name s, ds_source_node_ref s)) ` set (sites_on ast g e)"
proof -
  obtain r where r: "\<forall>s \<in> set (sites_on ast g e). ds_source_node_ref s = r"
    using sites_on_source by blast
  have "flow ast g e A = foldl set_site A (sites_on ast g e)" by (simp add: transfer_for_edge_def sites_on_def)
  also have "\<dots> = {p \<in> A. fst p \<notin> ds_symbol_name ` set (sites_on ast g e)} \<union>
      (\<lambda>s. (ds_symbol_name s, r)) ` set (sites_on ast g e)" by (rule foldl_set_site [OF r])
  finally show ?thesis using r by auto
qed

lemma flow_mono: "A \<subseteq> B \<Longrightarrow> flow ast g e A \<subseteq> flow ast g e B"
  by (auto simp: flow_eq)

lemma merge_mono: "(\<And>i. es i \<subseteq> es' i) \<Longrightarrow> merge_predecessor_states g n es \<subseteq> merge_predecessor_states g n es'"
  by (auto simp: merge_predecessor_states_def)

lemma merge_mem: "p \<in> merge_predecessor_states g n es \<longleftrightarrow> (\<exists>e \<in> set (cfg_edges g). ce_target_ref e = n \<and> p \<in> es (ce_edge_id e))"
  by (auto simp: merge_predecessor_states_def predecessor_edges_def)

section \<open>One visit in closed form\<close>

definition changed :: "ProcedureAst \<Rightarrow> ControlFlowGraph \<Rightarrow> string \<Rightarrow> defs \<Rightarrow> df_state \<Rightarrow> CfgEdge \<Rightarrow> bool" where
  "changed ast g n merged st e \<longleftrightarrow>
     \<not> (ce_edge_id e \<in> df_initialized st \<and> transfer_for_edge ast g n merged (ce_edge_kind e) = df_edge_state st (ce_edge_id e))"

lemma changed_cong:
  "(ce_edge_id e \<in> df_initialized st \<longleftrightarrow> ce_edge_id e \<in> df_initialized st') \<Longrightarrow>
   df_edge_state st (ce_edge_id e) = df_edge_state st' (ce_edge_id e) \<Longrightarrow> changed ast g n m st e = changed ast g n m st' e"
  by (simp add: changed_def)

lemma propagate_sel:
  "df_in_state (propagate ast g n m st e) = df_in_state st"
  "df_initialized (propagate ast g n m st e) = insert (ce_edge_id e) (df_initialized st)"
  "df_edge_state (propagate ast g n m st e) = (df_edge_state st)(ce_edge_id e := transfer_for_edge ast g n m (ce_edge_kind e))"
  "df_queued (propagate ast g n m st e) = df_queued st \<union> {t. t = ce_target_ref e \<and> changed ast g n m st e}"
  "df_queued st = set (df_work st) \<Longrightarrow> set (df_work (propagate ast g n m st e)) = df_queued (propagate ast g n m st e)"
  "df_queued st = set (df_work st) \<Longrightarrow> distinct (df_work st) \<Longrightarrow> distinct (df_work (propagate ast g n m st e))"
  by (auto simp: propagate_def changed_def Let_def)

text \<open>\<open>sent ast g n m es st st'\<close>: what propagating \<open>m\<close> from \<open>n\<close> along the edges \<open>es\<close> makes of \<open>st\<close>.\<close>

definition sent :: "ProcedureAst \<Rightarrow> ControlFlowGraph \<Rightarrow> string \<Rightarrow> defs \<Rightarrow> CfgEdge list \<Rightarrow> df_state \<Rightarrow> df_state \<Rightarrow> bool" where
  "sent ast g n m es st st' \<longleftrightarrow>
     df_in_state st' = df_in_state st \<and>
     df_initialized st' = df_initialized st \<union> ce_edge_id ` set es \<and>
     (\<forall>e \<in> set es. df_edge_state st' (ce_edge_id e) = transfer_for_edge ast g n m (ce_edge_kind e)) \<and>
     (\<forall>i. i \<notin> ce_edge_id ` set es \<longrightarrow> df_edge_state st' i = df_edge_state st i) \<and>
     set (df_work st') = set (df_work st) \<union> ce_target_ref ` {e \<in> set es. changed ast g n m st e} \<and>
     df_queued st' = set (df_work st') \<and> distinct (df_work st')"

lemma propagate_sent:
  "distinct (map ce_edge_id es) \<Longrightarrow> df_queued st = set (df_work st) \<Longrightarrow> distinct (df_work st) \<Longrightarrow>
   sent ast g n m es st (foldl (propagate ast g n m) st es)"
proof (induction es arbitrary: st)
  case (Cons e es)
  let ?s = "propagate ast g n m st e"
  have IH: "sent ast g n m es ?s (foldl (propagate ast g n m) ?s es)"
    using Cons.prems by (intro Cons.IH) (simp_all add: propagate_sel)
  have e: "ce_edge_id e \<notin> ce_edge_id ` set es" using Cons.prems by simp
  have "changed ast g n m ?s x = changed ast g n m st x" if "x \<in> set es" for x
  proof -
    have "ce_edge_id x \<noteq> ce_edge_id e" using e that by (metis imageI)
    then show ?thesis by (intro changed_cong) (simp_all add: propagate_sel)
  qed
  then have ch: "{x \<in> set es. changed ast g n m ?s x} = {x \<in> set es. changed ast g n m st x}" by blast
  have w: "set (df_work ?s) = set (df_work st) \<union> {t. t = ce_target_ref e \<and> changed ast g n m st e}"
    using Cons.prems by (simp add: propagate_sel)
  have "set (df_work (foldl (propagate ast g n m) ?s es)) =
      set (df_work st) \<union> ce_target_ref ` {x \<in> set (e # es). changed ast g n m st x}"
    using IH unfolding sent_def ch w by auto
  then show ?case using IH e by (auto simp: sent_def propagate_sel)
qed (simp add: sent_def)

section \<open>The loop invariant\<close>

abbreviation reaching_at :: "ProcedureAst \<Rightarrow> ControlFlowGraph \<Rightarrow> string \<Rightarrow> defs" where
  "reaching_at ast g n \<equiv> {(s, d). reaches ast g n s d}"

definition settled :: "ProcedureAst \<Rightarrow> ControlFlowGraph \<Rightarrow> df_state \<Rightarrow> string \<Rightarrow> bool" where
  "settled ast g st n \<longleftrightarrow>
     df_in_state st n = merge_predecessor_states g n (df_edge_state st) \<and>
     (\<forall>e \<in> set (cfg_edges g). ce_source_ref e = n \<longrightarrow> ce_edge_id e \<in> df_initialized st \<and>
        df_edge_state st (ce_edge_id e) = flow ast g e (merge_predecessor_states g n (df_edge_state st)))"

definition discovered :: "ControlFlowGraph \<Rightarrow> df_state \<Rightarrow> string \<Rightarrow> bool" where
  "discovered g st n \<longleftrightarrow> n = cfg_entry_ref g \<or>
     (\<exists>e \<in> set (cfg_edges g). ce_edge_id e \<in> df_initialized st \<and> ce_target_ref e = n)"

definition edge_ok :: "ProcedureAst \<Rightarrow> ControlFlowGraph \<Rightarrow> df_state \<Rightarrow> CfgEdge \<Rightarrow> bool" where
  "edge_ok ast g st e \<longleftrightarrow>
     (if ce_edge_id e \<in> df_initialized st then
        reached g (ce_source_ref e) \<and>
        df_edge_state st (ce_edge_id e) \<subseteq> flow ast g e (merge_predecessor_states g (ce_source_ref e) (df_edge_state st)) \<and>
        df_edge_state st (ce_edge_id e) \<subseteq> flow ast g e (reaching_at ast g (ce_source_ref e))
      else df_edge_state st (ce_edge_id e) = {})"

definition df_inv :: "ProcedureAst \<Rightarrow> ControlFlowGraph \<Rightarrow> df_state \<Rightarrow> bool" where
  "df_inv ast g st \<longleftrightarrow>
     df_queued st = set (df_work st) \<and> distinct (df_work st) \<and> (\<forall>n \<in> set (df_work st). reached g n) \<and>
     (\<forall>e \<in> set (cfg_edges g). edge_ok ast g st e) \<and>
     (\<forall>n. discovered g st n \<longrightarrow> n \<in> set (df_work st) \<or> settled ast g st n) \<and>
     (\<forall>n. df_in_state st n \<subseteq> reaching_at ast g n)"

lemma flow_reaching:
  "e \<in> set (cfg_edges g) \<Longrightarrow> reached g (ce_source_ref e) \<Longrightarrow>
   flow ast g e (reaching_at ast g (ce_source_ref e)) \<subseteq> reaching_at ast g (ce_target_ref e)"
  by (auto simp: flow_eq intro: reaches_born reaches_kept)

lemma edge_state_reaching:
  "edge_ok ast g st e \<Longrightarrow> e \<in> set (cfg_edges g) \<Longrightarrow> df_edge_state st (ce_edge_id e) \<subseteq> reaching_at ast g (ce_target_ref e)"
  using flow_reaching [of e g ast] by (auto simp: edge_ok_def split: if_splits)

lemma merge_reaching:
  "\<forall>e \<in> set (cfg_edges g). edge_ok ast g st e \<Longrightarrow> merge_predecessor_states g n (df_edge_state st) \<subseteq> reaching_at ast g n"
  using edge_state_reaching by (fastforce simp: merge_mem)

lemma df_inv_init: "df_inv ast g (df_init g)"
  by (auto simp: df_inv_def df_init_def edge_ok_def discovered_def reached_entry)

lemma reaches_reached: "reaches ast g n s d \<Longrightarrow> reached g n"
  by (induction rule: reaches.induct) (auto intro: reached_edge)

text \<open>When the work list is empty the invariant gives the specification.\<close>

lemma reached_discovered:
  assumes "df_inv ast g st" "df_work st = []" "reached g n"
  shows "settled ast g st n"
  using assms(3)
proof (induction rule: reached.induct)
  case reached_entry
  then show ?case using assms(1,2) by (auto simp: df_inv_def discovered_def)
next
  case (reached_edge e)
  then have "ce_edge_id e \<in> df_initialized st" by (auto simp: settled_def)
  then show ?case using assms(1,2) reached_edge(2) by (auto simp: df_inv_def discovered_def)
qed

lemma reaches_solved:
  assumes "df_inv ast g st" "df_work st = []" "reaches ast g n s d"
  shows "(s, d) \<in> df_in_state st n"
  using assms(3)
proof (induction rule: reaches.induct)
  case (reaches_born e site)
  have src: "settled ast g st (ce_source_ref e)" by (rule reached_discovered [OF assms(1,2) reaches_born(1)])
  have "settled ast g st (ce_target_ref e)"
    by (rule reached_discovered [OF assms(1,2) reached_edge [OF reaches_born(1,2)]])
  then show ?case using src reaches_born by (auto simp: settled_def merge_mem flow_eq)
next
  case (reaches_kept e s d)
  have r: "reached g (ce_source_ref e)" by (rule reaches_reached [OF reaches_kept(1)])
  have src: "settled ast g st (ce_source_ref e)" by (rule reached_discovered [OF assms(1,2) r])
  have tgt: "settled ast g st (ce_target_ref e)" by (rule reached_discovered [OF assms(1,2) reached_edge [OF r reaches_kept(2)]])
  have "(s, d) \<in> flow ast g e (df_in_state st (ce_source_ref e))" using reaches_kept by (simp add: flow_eq)
  then have "(s, d) \<in> df_edge_state st (ce_edge_id e)" using src reaches_kept(2) by (simp add: settled_def)
  then show ?case using tgt reaches_kept(2) by (auto simp: settled_def merge_mem)
qed

lemma df_inv_solved:
  "df_inv ast g st \<Longrightarrow> df_work st = [] \<Longrightarrow> (s, d) \<in> df_in_state st n \<longleftrightarrow> reaches ast g n s d"
  using reaches_solved by (fastforce simp: df_inv_def)

section \<open>A visit keeps the invariant\<close>

text \<open>The state in which the edges of the popped node \<open>n\<close> are processed.\<close>

definition popped :: "ControlFlowGraph \<Rightarrow> string \<Rightarrow> string list \<Rightarrow> df_state \<Rightarrow> df_state" where
  "popped g n w st = st\<lparr>df_work := w, df_queued := df_queued st - {n},
     df_in_state := (df_in_state st)(n := merge_predecessor_states g n (df_edge_state st))\<rparr>"

lemma visit_popped:
  "n \<in> cfg_node_ids g \<Longrightarrow>
   visit ast g n (st\<lparr>df_work := w, df_queued := df_queued st - {n}\<rparr>) =
     Inr (foldl (propagate ast g n (merge_predecessor_states g n (df_edge_state st))) (popped g n w st) (successor_edges g n))"
  by (auto simp: visit_def popped_def Let_def)

lemma changed_popped [simp]: "changed ast g n m (popped g n' w st) e = changed ast g n m st e"
  by (simp add: changed_def popped_def)

definition df_step :: "ProcedureAst \<Rightarrow> ControlFlowGraph \<Rightarrow> df_state \<Rightarrow> string \<Rightarrow> string list \<Rightarrow> df_state \<Rightarrow> bool" where
  "df_step ast g st n w st' \<longleftrightarrow>
     df_inv ast g st \<and> df_work st = n # w \<and> distinct (map ce_edge_id (cfg_edges g)) \<and>
     sent ast g n (merge_predecessor_states g n (df_edge_state st)) (successor_edges g n) (popped g n w st) st'"

abbreviation merged_at :: "ControlFlowGraph \<Rightarrow> string \<Rightarrow> df_state \<Rightarrow> defs" where
  "merged_at g n st \<equiv> merge_predecessor_states g n (df_edge_state st)"

lemma visit_in_state: "df_step ast g st n w st' \<Longrightarrow> df_in_state st' = (df_in_state st)(n := merged_at g n st)"
  by (simp add: df_step_def sent_def popped_def)

lemma visit_initialized:
  "df_step ast g st n w st' \<Longrightarrow> df_initialized st' = df_initialized st \<union> ce_edge_id ` set (successor_edges g n)"
  by (simp add: df_step_def sent_def popped_def)

lemma visit_work:
  "df_step ast g st n w st' \<Longrightarrow>
   set (df_work st') = set w \<union> ce_target_ref ` {e \<in> set (successor_edges g n). changed ast g n (merged_at g n st) st e}"
  by (simp add: df_step_def sent_def) (simp add: popped_def)

lemma out_edge:
  "df_step ast g st n w st' \<Longrightarrow> e \<in> set (cfg_edges g) \<Longrightarrow> ce_source_ref e = n \<Longrightarrow>
   df_edge_state st' (ce_edge_id e) = flow ast g e (merged_at g n st)"
  by (auto simp: df_step_def sent_def successor_edges_def)

lemma edge_id_eq:
  "df_step ast g st n w st' \<Longrightarrow> e \<in> set (cfg_edges g) \<Longrightarrow> e' \<in> set (cfg_edges g) \<Longrightarrow> ce_edge_id e = ce_edge_id e' \<Longrightarrow> e = e'"
  by (auto simp: df_step_def distinct_map dest: inj_onD)

lemma other_edge:
  "df_step ast g st n w st' \<Longrightarrow> e \<in> set (cfg_edges g) \<Longrightarrow> ce_source_ref e \<noteq> n \<Longrightarrow>
   ce_edge_id e \<notin> ce_edge_id ` set (successor_edges g n)"
  by (auto simp: successor_edges_def dest: edge_id_eq)

lemma other_state:
  "df_step ast g st n w st' \<Longrightarrow> e \<in> set (cfg_edges g) \<Longrightarrow> ce_source_ref e \<noteq> n \<Longrightarrow>
   df_edge_state st' (ce_edge_id e) = df_edge_state st (ce_edge_id e)"
  using other_edge [of ast g st n w st' e] by (simp add: df_step_def sent_def popped_def)

lemma step_edge_ok: "df_step ast g st n w st' \<Longrightarrow> e \<in> set (cfg_edges g) \<Longrightarrow> edge_ok ast g st e"
  by (simp add: df_step_def df_inv_def)

lemma grows:
  "df_step ast g st n w st' \<Longrightarrow> e \<in> set (cfg_edges g) \<Longrightarrow>
   df_edge_state st (ce_edge_id e) \<subseteq> df_edge_state st' (ce_edge_id e)"
  using step_edge_ok [of ast g st n w st' e] out_edge [of ast g st n w st' e] other_state [of ast g st n w st' e]
  by (cases "ce_source_ref e = n") (auto simp: edge_ok_def split: if_splits)

lemma merge_grows: "df_step ast g st n w st' \<Longrightarrow> merged_at g k st \<subseteq> merged_at g k st'"
  using grows by (fastforce simp: merge_mem)

lemma step_reached: "df_step ast g st n w st' \<Longrightarrow> reached g n"
  by (simp add: df_step_def df_inv_def)

lemma merged_reaching: "df_step ast g st n w st' \<Longrightarrow> merged_at g n st \<subseteq> reaching_at ast g n"
  by (intro merge_reaching) (simp add: df_step_def df_inv_def)

lemma visit_edge_ok:
  assumes step: "df_step ast g st n w st'" and e: "e \<in> set (cfg_edges g)"
  shows "edge_ok ast g st' e"
proof (cases "ce_source_ref e = n")
  case True
  have "ce_edge_id e \<in> df_initialized st'" using True e by (simp add: visit_initialized [OF step] successor_edges_def)
  moreover have "flow ast g e (merged_at g n st) \<subseteq> flow ast g e (merged_at g n st')"
    by (rule flow_mono [OF merge_grows [OF step]])
  moreover have "flow ast g e (merged_at g n st) \<subseteq> flow ast g e (reaching_at ast g n)"
    by (rule flow_mono [OF merged_reaching [OF step]])
  ultimately show ?thesis using out_edge [OF step e True] step_reached [OF step] True by (simp add: edge_ok_def)
next
  case False
  have "flow ast g e (merged_at g (ce_source_ref e) st) \<subseteq> flow ast g e (merged_at g (ce_source_ref e) st')"
    by (rule flow_mono [OF merge_grows [OF step]])
  moreover have "ce_edge_id e \<in> df_initialized st' \<longleftrightarrow> ce_edge_id e \<in> df_initialized st"
    using other_edge [OF step e False] by (simp add: visit_initialized [OF step])
  ultimately show ?thesis
    using step_edge_ok [OF step e] other_state [OF step e False] unfolding edge_ok_def by (auto split: if_splits)
qed

text \<open>A node that is not in the new work list has the predecessor states it had before.\<close>

lemma unchanged_pred:
  assumes step: "df_step ast g st n w st'" and k: "ce_target_ref e \<notin> set (df_work st')" and e: "e \<in> set (cfg_edges g)"
  shows "df_edge_state st' (ce_edge_id e) = df_edge_state st (ce_edge_id e)"
    and "ce_edge_id e \<in> df_initialized st' \<Longrightarrow> ce_edge_id e \<in> df_initialized st"
proof -
  have ch: "\<not> changed ast g n (merged_at g n st) st e" if "ce_source_ref e = n"
    using k e that visit_work [OF step] by (auto simp: successor_edges_def)
  then show "df_edge_state st' (ce_edge_id e) = df_edge_state st (ce_edge_id e)"
    using out_edge [OF step e] other_state [OF step e] by (auto simp: changed_def)
  show "ce_edge_id e \<in> df_initialized st' \<Longrightarrow> ce_edge_id e \<in> df_initialized st"
    using ch other_edge [OF step e] by (auto simp: changed_def visit_initialized [OF step])
qed

lemma merge_unchanged:
  assumes "df_step ast g st n w st'" "k \<notin> set (df_work st')"
  shows "merged_at g k st' = merged_at g k st"
proof -
  have "\<forall>e \<in> set (cfg_edges g). ce_target_ref e = k \<longrightarrow> df_edge_state st' (ce_edge_id e) = df_edge_state st (ce_edge_id e)"
    using assms unchanged_pred(1) by blast
  then show ?thesis by (simp add: merge_predecessor_states_def predecessor_edges_def)
qed

lemma visit_settled:
  assumes step: "df_step ast g st n w st'" and k: "discovered g st' k" "k \<notin> set (df_work st')"
  shows "settled ast g st' k"
proof (cases "k = n")
  case True
  then show ?thesis
    using merge_unchanged [OF step k(2)] out_edge [OF step]
    by (auto simp: settled_def visit_in_state [OF step] visit_initialized [OF step] successor_edges_def)
next
  case False
  have "discovered g st k" using k unchanged_pred(2) [OF step] by (auto simp: discovered_def)
  moreover have "k \<notin> set (df_work st)" using k(2) False step visit_work [OF step] by (auto simp: df_step_def)
  ultimately have "settled ast g st k" using step by (auto simp: df_step_def df_inv_def)
  then show ?thesis
    using merge_unchanged [OF step k(2)] False other_state [OF step]
    by (auto simp: settled_def visit_in_state [OF step] visit_initialized [OF step])
qed

lemma visit_inv:
  assumes step: "df_step ast g st n w st'"
  shows "df_inv ast g st'"
proof -
  have inv: "df_inv ast g st" "df_work st = n # w" using step by (simp_all add: df_step_def)
  have "\<forall>k \<in> set (df_work st'). reached g k"
    using inv step_reached [OF step]
    by (auto simp: visit_work [OF step] df_inv_def successor_edges_def intro: reached_edge)
  moreover have "\<forall>k. df_in_state st' k \<subseteq> reaching_at ast g k"
    using inv merged_reaching [OF step] by (auto simp: visit_in_state [OF step] df_inv_def)
  moreover have "df_queued st' = set (df_work st')" "distinct (df_work st')" using step by (simp_all add: df_step_def sent_def)
  ultimately show ?thesis using visit_edge_ok [OF step] visit_settled [OF step] unfolding df_inv_def by blast
qed

section \<open>Termination\<close>

text \<open>
  Every state is a subset of the finite set of all definitions, so the space left in the edge states
  and the edges not yet initialised bound the visits that change something.
\<close>

definition all_defs :: "ProcedureAst \<Rightarrow> ControlFlowGraph \<Rightarrow> defs" where
  "all_defs ast g = (\<Union>e \<in> set (cfg_edges g). (\<lambda>s. (ds_symbol_name s, ds_source_node_ref s)) ` set (sites_on ast g e))"

lemma finite_all_defs: "finite (all_defs ast g)"
  by (simp add: all_defs_def)

lemma reaches_all_defs: "reaches ast g n s d \<Longrightarrow> (s, d) \<in> all_defs ast g"
  by (induction rule: reaches.induct) (auto simp: all_defs_def)

lemma edge_ok_all_defs: "edge_ok ast g st e \<Longrightarrow> e \<in> set (cfg_edges g) \<Longrightarrow> df_edge_state st (ce_edge_id e) \<subseteq> all_defs ast g"
  using edge_state_reaching [of ast g st e] reaches_all_defs by blast

definition room :: "ProcedureAst \<Rightarrow> ControlFlowGraph \<Rightarrow> df_state \<Rightarrow> CfgEdge \<Rightarrow> nat" where
  "room ast g st e = (if ce_edge_id e \<in> df_initialized st then 0 else 1) + card (all_defs ast g - df_edge_state st (ce_edge_id e))"

definition total_room :: "ProcedureAst \<Rightarrow> ControlFlowGraph \<Rightarrow> df_state \<Rightarrow> nat" where
  "total_room ast g st = (\<Sum>e \<in> set (cfg_edges g). room ast g st e)"

lemma room_le: "df_step ast g st n w st' \<Longrightarrow> e \<in> set (cfg_edges g) \<Longrightarrow> room ast g st' e \<le> room ast g st e"
  using grows [of ast g st n w st' e] unfolding room_def
  by (intro add_mono card_mono) (auto simp: visit_initialized finite_all_defs)

lemma room_less:
  assumes step: "df_step ast g st n w st'" and e: "e \<in> set (successor_edges g n)" and ch: "changed ast g n (merged_at g n st) st e"
  shows "room ast g st' e < room ast g st e"
proof -
  have e': "e \<in> set (cfg_edges g)" "ce_source_ref e = n" using e by (simp_all add: successor_edges_def)
  have c: "card (all_defs ast g - df_edge_state st' (ce_edge_id e)) \<le> card (all_defs ast g - df_edge_state st (ce_edge_id e))"
    using grows [OF step e'(1)] by (intro card_mono) (auto simp: finite_all_defs)
  have i: "ce_edge_id e \<in> df_initialized st'" using e by (simp add: visit_initialized [OF step])
  show ?thesis
  proof (cases "ce_edge_id e \<in> df_initialized st")
    case True
    then have "df_edge_state st (ce_edge_id e) \<subset> df_edge_state st' (ce_edge_id e)"
      using ch grows [OF step e'(1)] out_edge [OF step e'] e'(2) by (auto simp: changed_def)
    moreover have "df_edge_state st' (ce_edge_id e) \<subseteq> all_defs ast g"
      by (rule edge_ok_all_defs [OF visit_edge_ok [OF step e'(1)] e'(1)])
    ultimately have "all_defs ast g - df_edge_state st' (ce_edge_id e) \<subset> all_defs ast g - df_edge_state st (ce_edge_id e)"
      by blast
    then show ?thesis using True i by (simp add: room_def psubset_card_mono finite_all_defs)
  next
    case False
    then show ?thesis using c i by (simp add: room_def)
  qed
qed

lemma visit_decreases:
  assumes step: "df_step ast g st n w st'"
  shows "total_room ast g st' < total_room ast g st \<or>
    total_room ast g st' = total_room ast g st \<and> length (df_work st') < length (df_work st)"
proof (cases "\<exists>e \<in> set (successor_edges g n). changed ast g n (merged_at g n st) st e")
  case True
  then obtain e where "e \<in> set (cfg_edges g)" "room ast g st' e < room ast g st e"
    using room_less [OF step] by (auto simp: successor_edges_def)
  then have "total_room ast g st' < total_room ast g st"
    unfolding total_room_def using room_le [OF step] by (intro sum_strict_mono_ex1) auto
  then show ?thesis ..
next
  case False
  then have "set (df_work st') = set w" using visit_work [OF step] by auto
  moreover have "distinct (df_work st')" "distinct w" "df_work st = n # w"
    using step by (auto simp: df_step_def sent_def df_inv_def)
  ultimately have "length (df_work st') < length (df_work st)" by (metis distinct_card length_Cons lessI)
  moreover have "total_room ast g st' \<le> total_room ast g st"
    unfolding total_room_def using room_le [OF step] by (intro sum_mono) auto
  ultimately show ?thesis by auto
qed

lemma reached_node: "cfg_closed g \<Longrightarrow> reached g n \<Longrightarrow> n \<in> cfg_node_ids g"
  by (erule reached.cases) (auto simp: cfg_closed_def)

lemma solve_loop_returns:
  assumes "cfg_closed g" "distinct (map ce_edge_id (cfg_edges g))" "df_inv ast g st"
  shows "\<exists>st'. solve_loop ast g st = Some (Inr st') \<and> df_inv ast g st' \<and> df_work st' = []"
  using assms(3)
proof (induction "(total_room ast g st, length (df_work st))" arbitrary: st
    rule: wf_induct_rule [OF wf_lex_prod [OF wf_less_than wf_less_than]])
  case (1 st)
  show ?case
  proof (cases "df_work st")
    case Nil
    then show ?thesis using 1(2) by (subst solve_loop.simps) simp
  next
    case (Cons n w)
    let ?st = "foldl (propagate ast g n (merged_at g n st)) (popped g n w st) (successor_edges g n)"
    have q: "df_queued (popped g n w st) = set (df_work (popped g n w st))" "distinct (df_work (popped g n w st))"
      using 1(2) Cons by (auto simp: df_inv_def popped_def)
    have "distinct (map ce_edge_id (successor_edges g n))"
      unfolding successor_edges_def using assms(2) by (simp add: distinct_map_filter)
    from propagate_sent [OF this q] have step: "df_step ast g st n w ?st"
      using 1(2) Cons assms(2) by (simp add: df_step_def)
    have "\<exists>st'. solve_loop ast g ?st = Some (Inr st') \<and> df_inv ast g st' \<and> df_work st' = []"
      using visit_decreases [OF step] by (intro 1(1) visit_inv [OF step]) auto
    moreover have "n \<in> cfg_node_ids g" by (rule reached_node [OF assms(1) step_reached [OF step]])
    ultimately show ?thesis using Cons by (subst solve_loop.simps) (simp add: visit_popped)
  qed
qed

section \<open>Properties of the analysis\<close>

lemma reaching_definitions_solved:
  assumes "cfg_closed g" "distinct (map ce_edge_id (cfg_edges g))" "missing_refs ast g = []"
  shows "\<exists>st. reaching_definitions ast g = Some (Inr st) \<and>
    (\<forall>n symbol. definitions_at_cfg st n symbol = sorted_list_of_set {d. reaches ast g n (py_upper symbol) d})"
proof -
  obtain st where st: "solve_loop ast g (df_init g) = Some (Inr st)" "df_inv ast g st" "df_work st = []"
    using solve_loop_returns [OF assms(1,2) df_inv_init] by blast
  have "snd ` Set.filter (\<lambda>p. fst p = s) (df_in_state st n) = {d. reaches ast g n s d}" for n s
    using df_inv_solved [OF st(2,3)] by (force simp: image_iff)
  then show ?thesis using st(1) assms(3) by (auto simp: reaching_definitions_def definitions_at_cfg_def)
qed

text \<open>
  C32: the reaching definitions are exact and the solver terminates. On a closed graph with distinct
  edge ids whose AST references resolve, the analysis returns, and the definitions it reports for a
  symbol at a node are, in sorted order, exactly the nodes that define the symbol on some path from
  the entry to that node with no redefinition after them, where the handler edge of a failing query,
  fetch or execute establishes no binding.
\<close>

theorem reaching_definitions_exact:
  assumes "cfg_closed g" "distinct (map ce_edge_id (cfg_edges g))" "missing_refs ast g = []"
  shows "\<exists>st. reaching_definitions ast g = Some (Inr st) \<and>
    (\<forall>n symbol. definitions_at_cfg st n symbol = sorted_list_of_set {d. reaches ast g n (py_upper symbol) d})"
  by (rule reaching_definitions_solved [OF assms])

text \<open>
  An unresolved reference is the only error. The analysis raises exactly when some node of the
  graph refers to a syntax-tree node that does not exist, and then for the first such reference.
\<close>

theorem reaching_definitions_error:
  assumes "cfg_closed g" "distinct (map ce_edge_id (cfg_edges g))"
  shows "(\<exists>e. reaching_definitions ast g = Some (Inl e)) \<longleftrightarrow> missing_refs ast g \<noteq> []"
    and "missing_refs ast g = r # rs \<Longrightarrow> reaching_definitions ast g = Some (Inl (DfKeyError r))"
proof -
  show "missing_refs ast g = r # rs \<Longrightarrow> reaching_definitions ast g = Some (Inl (DfKeyError r))"
    by (simp add: reaching_definitions_def)
  show "(\<exists>e. reaching_definitions ast g = Some (Inl e)) \<longleftrightarrow> missing_refs ast g \<noteq> []"
    using solve_loop_returns [OF assms df_inv_init, of ast]
    by (cases "missing_refs ast g") (auto simp: reaching_definitions_def)
qed

section \<open>A small graph\<close>

text \<open>
  \<open>SET X\<close> at \<open>a\<close>, then \<open>FETCH C INTO X\<close> at \<open>b\<close> with a handler \<open>h\<close>: the fetch binding does
  not reach the handler, the assignment does not survive the normal edge.
\<close>

definition fetch_ast :: ProcedureAst where
  "fetch_ast = \<lparr>pa_node_id = ''p'', pa_schema_name = None, pa_procedure_name = ''P'', pa_commit_on_return = None,
     pa_body_node_refs = [''a'', ''b''], pa_nodes =
       [(bare_node ''a'' NK_SET)\<lparr>an_assignment_binding := Some \<lparr>as_target_name = ''x'', as_expression_text = ''1''\<rparr>\<rparr>,
        (bare_node ''b'' NK_FETCH_CURSOR)\<lparr>an_fetch_binding := Some \<lparr>fb_cursor_name = ''C'', fb_target_names = [''x'']\<rparr>\<rparr>,
        bare_node ''h'' NK_HANDLER_REGION]\<rparr>"

definition small_cfg_node :: "string \<Rightarrow> string option \<Rightarrow> CfgNode" where
  "small_cfg_node i r = \<lparr>cn_cfg_node_id = i, cn_node_kind = (if r = None then CN_ENTRY else CN_AST), cn_ast_node_ref = r,
     cn_label = i, cn_source_range = None\<rparr>"

definition small_cfg_edge :: "string \<Rightarrow> string \<Rightarrow> string \<Rightarrow> CfgEdgeKind \<Rightarrow> CfgEdge" where
  "small_cfg_edge i s t k = \<lparr>ce_edge_id = i, ce_source_ref = s, ce_target_ref = t, ce_edge_kind = k,
     ce_condition_text = None, ce_branch_index = None, ce_handler_region_ref = None, ce_continuation_target_ref = None\<rparr>"

definition fetch_graph :: ControlFlowGraph where
  "fetch_graph = \<lparr>cfg_procedure_ast_ref = ''p'', cfg_entry_ref = ''in'', cfg_normal_exit_ref = ''out'',
     cfg_exceptional_exit_ref = ''bad'',
     cfg_nodes = [small_cfg_node ''in'' None, small_cfg_node ''out'' None, small_cfg_node ''bad'' None,
       small_cfg_node ''cfg:a'' (Some ''a''), small_cfg_node ''cfg:b'' (Some ''b''), small_cfg_node ''cfg:h'' (Some ''h'')],
     cfg_edges = [small_cfg_edge ''1'' ''in'' ''cfg:a'' CE_ENTRY, small_cfg_edge ''2'' ''cfg:a'' ''cfg:b'' CE_SEQUENTIAL,
       small_cfg_edge ''3'' ''cfg:b'' ''out'' CE_SEQUENTIAL, small_cfg_edge ''4'' ''cfg:b'' ''cfg:h'' CE_HANDLER],
     cfg_handler_bindings = [], cfg_excluded_declaration_refs = []\<rparr>"

definition solved_at :: "ProcedureAst \<Rightarrow> ControlFlowGraph \<Rightarrow> string \<Rightarrow> string \<Rightarrow> string list" where
  "solved_at ast g n symbol =
     (case reaching_definitions ast g of Some (Inr st) \<Rightarrow> definitions_at_cfg st n symbol | _ \<Rightarrow> [])"

declare solve_loop.simps [code]

lemma fetch_solved: "solved_at fetch_ast fetch_graph ''cfg:h'' ''x'' = [''a'']" "solved_at fetch_ast fetch_graph ''out'' ''x'' = [''b'']"
  by code_simp+

theorem reaching_definitions_exact_witness:
  "sorted_list_of_set {d. reaches fetch_ast fetch_graph ''cfg:h'' (py_upper ''x'') d} = [''a''] \<and>
   sorted_list_of_set {d. reaches fetch_ast fetch_graph ''out'' (py_upper ''x'') d} = [''b'']"
proof -
  have h: "cfg_closed fetch_graph" "distinct (map ce_edge_id (cfg_edges fetch_graph))" "missing_refs fetch_ast fetch_graph = []"
    by code_simp+
  obtain st where st: "reaching_definitions fetch_ast fetch_graph = Some (Inr st)"
    "\<forall>n symbol. definitions_at_cfg st n symbol = sorted_list_of_set {d. reaches fetch_ast fetch_graph n (py_upper symbol) d}"
    using reaching_definitions_exact [OF h] by blast
  then show ?thesis using fetch_solved by (simp add: solved_at_def)
qed

end
