(* ===== verification/CfgDataflow.thy ===== *)
theory CfgDataflow
  imports Cfg Reaching
begin

text \<open>
  The control-flow graph builder and the reaching-definition analysis composed, the way
  \<open>ReachingDefinitionAnalysis(ast, build_cfg(ast))\<close> is used: what the builder guarantees about its
  graph is what the solver needs to return an exact answer.
\<close>

lemma map_filter_refs: "map snd (List.map_filter (\<lambda>n. map_option (Pair (f n)) (g n)) xs) = List.map_filter g xs"
  by (induction xs) (auto simp: List.map_filter_simps split: option.splits)

lemma ast_by_cfg_refs: "set (map snd (ast_by_cfg g)) \<subseteq> set (List.map_filter cn_ast_node_ref (cfg_nodes g))"
proof -
  have "set (dict_update d es) \<subseteq> set d \<union> set es" for d es :: "(string \<times> string) list"
  proof (induction es arbitrary: d)
    case (Cons kv es)
    have "set (dict_update d (kv # es)) \<subseteq> set (dict_set (fst kv) (snd kv) d) \<union> set es"
      using Cons.IH by (simp add: dict_update_def)
    then show ?case using set_dict_set_subset [of "fst kv" "snd kv" d] by auto
  qed (simp add: dict_update_def)
  from this [of "[]"]
  have "set (ast_by_cfg g) \<subseteq> set (List.map_filter (\<lambda>n. map_option (Pair (cn_cfg_node_id n)) (cn_ast_node_ref n)) (cfg_nodes g))"
    by (simp add: ast_by_cfg_def)
  then have "snd ` set (ast_by_cfg g) \<subseteq> set (map snd (List.map_filter (\<lambda>n. map_option (Pair (cn_cfg_node_id n)) (cn_ast_node_ref n)) (cfg_nodes g)))"
    by auto
  then show ?thesis by (simp only: map_filter_refs set_map)
qed

lemma node_by_id_cfg_by_id: "map_of (node_by_id ast) = cfg_by_id ast"
  by (simp add: node_by_id_def cfg_by_id_def)

lemma built_graph_resolves:
  assumes "build_cfg fuel sha ast = Inr g"
  shows "missing_refs ast g = []"
proof -
  have "cfg_by_id ast r \<noteq> None" if "r \<in> set (List.map_filter cn_ast_node_ref (cfg_nodes g))" for r
    using that build_cfg_facts(4) [OF assms] by (force simp: List.map_filter_def split: option.splits)
  then show ?thesis using ast_by_cfg_refs [of g]
    by (auto simp: missing_refs_def filter_empty_conv node_by_id_cfg_by_id)
qed

text \<open>
  C5: Analysing a procedure goes through from the syntax tree to the data-flow answer. When the
  nested references of the tree resolve and descend, the graph is built, the solver returns on it
  without raising, and the definitions reported before a statement are, in sorted order, exactly the
  nodes whose definition of the symbol reaches that statement along the graph's edges.
\<close>

theorem built_graph_dataflow_exact:
  assumes "well_nested h ast" "list_all (\<lambda>r. cfg_by_id ast r \<noteq> None \<and> h r < fuel) (root_refs ast)"
  shows "\<exists>g st. build_cfg fuel sha ast = Inr g \<and> reaching_definitions ast g = Some (Inr st) \<and>
    (\<forall>n symbol. definitions_before_ast st n symbol = sorted_list_of_set {d. reaches ast g (cfg_ref n) (py_upper symbol) d})"
proof -
  obtain g where g: "build_cfg fuel sha ast = Inr g" using build_cfg_returns [OF assms] by blast
  obtain st where "reaching_definitions ast g = Some (Inr st)"
    "\<forall>n symbol. definitions_at_cfg st n symbol = sorted_list_of_set {d. reaches ast g n (py_upper symbol) d}"
    using reaching_definitions_solved [OF build_cfg_facts(1,3) [OF g] built_graph_resolves [OF g]] by blast
  then show ?thesis using g by (auto simp: definitions_before_ast_def cfg_ref_def)
qed

theorem built_graph_dataflow_exact_witness:
  "\<exists>g st. build_cfg 2 (\<lambda>s. s) small_ast = Inr g \<and> reaching_definitions small_ast g = Some (Inr st)"
  using built_graph_dataflow_exact [OF small_ast_nested, of "\<lambda>s. s"] by blast

end
