(* ===== verification/Decision.thy ===== *)
theory Decision
  imports AtlasPrelude "HOL-Library.Multiset" "HOL-Library.List_Lexorder" "HOL-Library.Char_ord" "HOL-Library.Product_Lexorder"
begin

text \<open>
  Extracted decision models, \<open>decision/models.py\<close> and \<open>decision/evaluator.py\<close>: the builder that
  turns behaviour slices into prioritised rules over predicates, and the evaluator that matches a
  three-valued assignment against them. The JSON documents the builder loads are records whose
  fields are optional where the code uses \<open>get\<close>; SHA-256 and the digest of a whole semantic
  document are parameters. The content digests of the results are functions of the other fields and
  are left out, except the model's, which the evaluator compares.
\<close>

section \<open>Models\<close>

datatype TruthValue = TV_TRUE | TV_FALSE | TV_UNKNOWN

record DecisionPredicate =
  dp_predicate_id :: string
  dp_expression_text :: string
  dp_evidence_refs :: "string list"
  dp_source_line :: "int option"

record DecisionOutput =
  do_target :: string
  do_value_expression :: "string option"
  do_effect_kind :: string
  do_evidence_refs :: "string list"

record DecisionRule =
  dr_rule_id :: string
  dr_priority :: int
  dr_predicate_ids :: "string list"
  dr_outputs :: "DecisionOutput list"
  dr_source_behavior_ref :: string
  dr_completeness :: string

record ExtractedDecisionModel =
  dm_model_id :: string
  dm_procedure_ref :: string
  dm_semantic_digest :: string
  dm_predicates :: "DecisionPredicate list"
  dm_rules :: "DecisionRule list"
  dm_limitations :: "string list"
  dm_content_digest :: string

record DecisionEvaluationRequest =
  rq_model_digest :: string
  rq_predicate_values :: "(string \<times> TruthValue) list"

datatype EvaluationStatus = MATCHED | NOT_MATCHED | INCONCLUSIVE | NO_MATCH

record EvaluatedRule =
  er_rule_id :: string
  er_priority :: int
  er_status :: EvaluationStatus
  er_predicate_values :: "(string \<times> TruthValue) list"

record DecisionEvaluationResult =
  rs_model_digest :: string
  rs_status :: EvaluationStatus
  rs_matched_rule_id :: "string option"
  rs_outputs :: "DecisionOutput list"
  rs_evaluated_rules :: "EvaluatedRule list"
  rs_blockers :: "string list"

datatype decision_error = DecisionModelError string | ModelValueError string

definition list_repr :: "string list \<Rightarrow> string" where
  "list_repr xs = ''['' @ py_join '', '' (map py_repr_str xs) @ '']''"

text \<open>\<open>validate_refs\<close>: \<open>None\<close> when the model is accepted.\<close>

definition missing_predicates :: "ExtractedDecisionModel \<Rightarrow> DecisionRule \<Rightarrow> string set" where
  "missing_predicates m rule = set (dr_predicate_ids rule) - dp_predicate_id ` set (dm_predicates m)"

definition validate_refs :: "ExtractedDecisionModel \<Rightarrow> decision_error option" where
  "validate_refs m =
     (if \<not> distinct (map dr_priority (dm_rules m)) then Some (ModelValueError ''Decision rule priorities must be unique.'')
      else map_option (\<lambda>rule. ModelValueError (''Decision rule references missing predicates: ''
             @ list_repr (sorted_list_of_set (missing_predicates m rule))))
             (List.find (\<lambda>rule. missing_predicates m rule \<noteq> {}) (dm_rules m)))"

section \<open>The builder\<close>

record NodeDoc =
  nd_node_id :: "string option"
  nd_text :: "string option"
  nd_start_line :: "int option"

record EffectDoc =
  ef_effect_id :: "string option"
  ef_target :: "string option"
  ef_kind :: "string option"
  ef_value_expression :: "string option"
  ef_evidence_refs :: "string list"

record BundleDoc =
  bd_bundle_id :: "string option"
  bd_evidence_refs :: "string list"

record SliceDoc =
  sl_slice_id :: "string option"
  sl_bundle_ref :: "string option"
  sl_predicate_refs :: "string list"
  sl_effect_refs :: "string option list"
  sl_completeness :: "string option"

record SemanticDoc =
  sd_content_digest :: "string option"
  sd_effects :: "EffectDoc list"
  sd_bundles :: "BundleDoc list"
  sd_slices :: "SliceDoc list"

record AstDoc =
  ad_schema_name :: "string option"
  ad_procedure_name :: "string option"
  ad_nodes :: "NodeDoc list"

definition doc_str :: "string option \<Rightarrow> string" where
  "doc_str v = (case v of None \<Rightarrow> ''None'' | Some s \<Rightarrow> s)"

definition or_else :: "string option \<Rightarrow> string \<Rightarrow> string" where
  "or_else v d = (case v of None \<Rightarrow> d | Some s \<Rightarrow> if s = [] then d else s)"

definition keyed :: "('a \<Rightarrow> string option) \<Rightarrow> 'a list \<Rightarrow> string \<Rightarrow> 'a option" where
  "keyed f items = map_of (dict_update [] (map (\<lambda>i. (doc_str (f i), i)) items))"

definition far_line :: int where
  "far_line = 10 ^ 9"

definition output_kinds :: "string list" where
  "output_kinds = [''ASSIGNMENT'', ''SIGNAL'', ''CALL'', ''MUTATION'', ''RESULT_SET'']"

definition decision_output :: "EffectDoc \<Rightarrow> DecisionOutput option" where
  "decision_output effect =
     (let target = or_else (ef_target effect) []; kind = or_else (ef_kind effect) ''UNKNOWN''
      in if kind \<notin> set output_kinds \<and> target = [] then None
         else Some \<lparr>do_target = (if target = [] then kind else target), do_value_expression = ef_value_expression effect,
                    do_effect_kind = kind, do_evidence_refs = ef_evidence_refs effect\<rparr>)"

definition slice_outputs :: "SemanticDoc \<Rightarrow> SliceDoc \<Rightarrow> DecisionOutput list" where
  "slice_outputs semantic s =
     List.map_filter (\<lambda>ref. Option.bind (keyed ef_effect_id (sd_effects semantic) (doc_str ref)) decision_output) (sl_effect_refs s)"

definition decision_predicate :: "(string \<Rightarrow> string) \<Rightarrow> AstDoc \<Rightarrow> string \<Rightarrow> DecisionPredicate" where
  "decision_predicate sha ast ref =
     (let node = keyed nd_node_id (ad_nodes ast) ref;
          text = (case node of None \<Rightarrow> ref | Some n \<Rightarrow> or_else (nd_text n) ref)
      in \<lparr>dp_predicate_id = ''predicate-'' @ take 20 (sha (ref @ ''|'' @ text)), dp_expression_text = text, dp_evidence_refs = [ref],
          dp_source_line = (case node of None \<Rightarrow> None | Some n \<Rightarrow> nd_start_line n)\<rparr>)"

text \<open>\<open>predicates.setdefault(predicate_id, ...)\<close>.\<close>

definition add_predicate :: "(string \<times> DecisionPredicate) list \<Rightarrow> DecisionPredicate \<Rightarrow> (string \<times> DecisionPredicate) list" where
  "add_predicate ps p = (if map_of ps (dp_predicate_id p) \<noteq> None then ps else dict_set (dp_predicate_id p) p ps)"

definition evidence_lines :: "SemanticDoc \<Rightarrow> AstDoc \<Rightarrow> string \<Rightarrow> int list" where
  "evidence_lines semantic ast bundle_ref =
     (case keyed bd_bundle_id (sd_bundles semantic) bundle_ref of
        None \<Rightarrow> []
      | Some b \<Rightarrow> List.map_filter (\<lambda>ref. Option.bind (keyed nd_node_id (ad_nodes ast) ref)
          (\<lambda>n. case nd_start_line n of Some l \<Rightarrow> if l = 0 then None else Some l | None \<Rightarrow> None)) (bd_evidence_refs b))"

definition order_line :: "int list \<Rightarrow> int" where
  "order_line lines = (if lines = [] then far_line else Min (set lines))"

definition slice_rule :: "(string \<Rightarrow> string) \<Rightarrow> SemanticDoc \<Rightarrow> AstDoc \<Rightarrow> SliceDoc \<Rightarrow> (int \<times> DecisionRule) option" where
  "slice_rule sha semantic ast s =
     (let outputs = slice_outputs semantic s;
          predicates = map (decision_predicate sha ast) (sl_predicate_refs s);
          bundle_ref = or_else (sl_bundle_ref s) []
      in if outputs = [] \<or> predicates = [] then None
         else Some (order_line (List.map_filter dp_source_line predicates @ evidence_lines semantic ast bundle_ref),
           \<lparr>dr_rule_id = ''rule-'' @ take 20 (sha (doc_str (sl_slice_id s) @ ''|'' @ bundle_ref)), dr_priority = 0,
            dr_predicate_ids = map dp_predicate_id predicates, dr_outputs = outputs,
            dr_source_behavior_ref = or_else (sl_slice_id s) bundle_ref,
            dr_completeness = or_else (sl_completeness s) ''UNKNOWN''\<rparr>))"

definition slice_predicates :: "(string \<Rightarrow> string) \<Rightarrow> SemanticDoc \<Rightarrow> AstDoc \<Rightarrow> SliceDoc \<Rightarrow> DecisionPredicate list" where
  "slice_predicates sha semantic ast s =
     (if slice_outputs semantic s = [] then [] else map (decision_predicate sha ast) (sl_predicate_refs s))"

definition collected_predicates :: "(string \<Rightarrow> string) \<Rightarrow> SemanticDoc \<Rightarrow> AstDoc \<Rightarrow> (string \<times> DecisionPredicate) list" where
  "collected_predicates sha semantic ast =
     foldl add_predicate [] (concat (map (slice_predicates sha semantic ast) (sd_slices semantic)))"

definition ordered_rules :: "(int \<times> DecisionRule) list \<Rightarrow> DecisionRule list" where
  "ordered_rules candidates =
     map (\<lambda>(priority, (line, rule)). rule\<lparr>dr_priority := int priority\<rparr>)
       (zip [1..<Suc (length candidates)] (sort_key (\<lambda>c. (fst c, dr_rule_id (snd c))) candidates))"

definition model_limitations :: "DecisionRule list \<Rightarrow> string list" where
  "model_limitations rules =
     (if list_ex (\<lambda>r. dr_completeness r \<noteq> ''COMPLETE'') rules
      then [''Some decision rules are partial and results remain technical candidates.''] else []) @
     (if rules = [] then [''No predicate-controlled observable decision rules were extracted.''] else [])"

definition decision_model :: "(string \<Rightarrow> string) \<Rightarrow> (SemanticDoc \<Rightarrow> string) \<Rightarrow> SemanticDoc \<Rightarrow> AstDoc \<Rightarrow> ExtractedDecisionModel" where
  "decision_model sha digest_of semantic ast =
     (let procedure_ref = py_join ''.'' (filter (\<lambda>v. v \<noteq> []) [or_else (ad_schema_name ast) [], or_else (ad_procedure_name ast) []]);
          procedure_ref = (if procedure_ref = [] then ''UNKNOWN_PROCEDURE'' else procedure_ref);
          semantic_digest = or_else (sd_content_digest semantic) (digest_of semantic);
          rules = ordered_rules (List.map_filter (slice_rule sha semantic ast) (sd_slices semantic))
      in \<lparr>dm_model_id = ''decision-model-'' @ take 18 (sha (procedure_ref @ ''|'' @ semantic_digest)),
          dm_procedure_ref = procedure_ref, dm_semantic_digest = semantic_digest,
          dm_predicates = sort_key (\<lambda>p. (case dp_source_line p of Some l \<Rightarrow> if l = 0 then far_line else l | None \<Rightarrow> far_line, dp_predicate_id p))
            (map snd (collected_predicates sha semantic ast)),
          dm_rules = rules, dm_limitations = model_limitations rules, dm_content_digest = []\<rparr>)"

definition build_model ::
  "(string \<Rightarrow> string) \<Rightarrow> (SemanticDoc \<Rightarrow> string) \<Rightarrow> (ExtractedDecisionModel \<Rightarrow> string) \<Rightarrow> SemanticDoc \<Rightarrow> AstDoc \<Rightarrow>
   decision_error + ExtractedDecisionModel" where
  "build_model sha digest_of model_digest semantic ast =
     (let m = decision_model sha digest_of semantic ast;
          m' = m\<lparr>dm_content_digest := model_digest m\<rparr>
      in case validate_refs m' of Some e \<Rightarrow> Inl e | None \<Rightarrow> Inr m')"

section \<open>The evaluator\<close>

definition truth_of :: "DecisionEvaluationRequest \<Rightarrow> string \<Rightarrow> TruthValue" where
  "truth_of request pid = (case map_of (rq_predicate_values request) pid of Some v \<Rightarrow> v | None \<Rightarrow> TV_UNKNOWN)"

definition rule_status :: "TruthValue list \<Rightarrow> EvaluationStatus" where
  "rule_status values =
     (if TV_FALSE \<in> set values then NOT_MATCHED
      else if list_all (\<lambda>v. v = TV_TRUE) values then MATCHED
      else INCONCLUSIVE)"

fun evaluate_rules ::
  "DecisionEvaluationRequest \<Rightarrow> DecisionRule list \<Rightarrow> EvaluatedRule list \<times> string set \<times> DecisionRule option" where
  "evaluate_rules request [] = ([], {}, None)"
| "evaluate_rules request (rule # rules) =
     (let values = map (truth_of request) (dr_predicate_ids rule);
          status = rule_status values;
          entry = \<lparr>er_rule_id = dr_rule_id rule, er_priority = dr_priority rule, er_status = status,
                   er_predicate_values = dict_update [] (zip (dr_predicate_ids rule) values)\<rparr>
      in if status = MATCHED then ([entry], {}, Some rule)
         else (case evaluate_rules request rules of (entries, blockers, matched) \<Rightarrow>
           (entry # entries,
            (if status = INCONCLUSIVE then {pid \<in> set (dr_predicate_ids rule). truth_of request pid = TV_UNKNOWN} else {}) \<union> blockers,
            matched)))"

definition evaluate :: "ExtractedDecisionModel \<Rightarrow> DecisionEvaluationRequest \<Rightarrow> decision_error + DecisionEvaluationResult" where
  "evaluate model request =
     (if rq_model_digest request \<noteq> dm_content_digest model
      then Inl (DecisionModelError ''Decision request model_digest does not match the extracted model.'')
      else
        (let unknown_ids = fst ` set (rq_predicate_values request) - dp_predicate_id ` set (dm_predicates model)
         in if unknown_ids \<noteq> {}
            then Inl (DecisionModelError (''Unknown predicate IDs: '' @ list_repr (sorted_list_of_set unknown_ids)))
            else
              (case evaluate_rules request (sort_key dr_priority (dm_rules model)) of (entries, blockers, matched) \<Rightarrow>
                 Inr \<lparr>rs_model_digest = dm_content_digest model,
                  rs_status = (case matched of Some _ \<Rightarrow> MATCHED | None \<Rightarrow> if blockers \<noteq> {} then INCONCLUSIVE else NO_MATCH),
                  rs_matched_rule_id = map_option dr_rule_id matched,
                  rs_outputs = (case matched of Some r \<Rightarrow> dr_outputs r | None \<Rightarrow> []),
                  rs_evaluated_rules = entries, rs_blockers = sorted_list_of_set blockers\<rparr>)))"

section \<open>First match\<close>

definition applies :: "DecisionEvaluationRequest \<Rightarrow> DecisionRule \<Rightarrow> bool" where
  "applies request rule \<longleftrightarrow> list_all (\<lambda>pid. truth_of request pid = TV_TRUE) (dr_predicate_ids rule)"

definition refuted :: "DecisionEvaluationRequest \<Rightarrow> DecisionRule \<Rightarrow> bool" where
  "refuted request rule \<longleftrightarrow> list_ex (\<lambda>pid. truth_of request pid = TV_FALSE) (dr_predicate_ids rule)"

lemma applies_not_refuted: "applies request rule \<Longrightarrow> \<not> refuted request rule"
  by (auto simp: applies_def refuted_def list_all_iff list_ex_iff)

lemma rule_status_iff [simp]:
  "rule_status (map (truth_of request) (dr_predicate_ids rule)) = MATCHED \<longleftrightarrow> applies request rule"
  "rule_status (map (truth_of request) (dr_predicate_ids rule)) = NOT_MATCHED \<longleftrightarrow> refuted request rule"
  "rule_status (map (truth_of request) (dr_predicate_ids rule)) = INCONCLUSIVE \<longleftrightarrow> \<not> applies request rule \<and> \<not> refuted request rule"
  by (auto simp: rule_status_def applies_def refuted_def list_all_iff list_ex_iff image_iff eq_commute [of TV_FALSE])

text \<open>The predicates a rule is still waiting for.\<close>

definition open_predicates :: "DecisionEvaluationRequest \<Rightarrow> DecisionRule \<Rightarrow> string set" where
  "open_predicates request rule =
     (if applies request rule \<or> refuted request rule then {}
      else {pid \<in> set (dr_predicate_ids rule). truth_of request pid = TV_UNKNOWN})"

lemma open_predicates_finite [simp]: "finite (open_predicates request rule)"
  by (simp add: open_predicates_def)

lemma open_predicates_empty: "open_predicates request rule = {} \<longleftrightarrow> applies request rule \<or> refuted request rule"
proof (cases "applies request rule \<or> refuted request rule")
  case False
  then obtain pid where p: "pid \<in> set (dr_predicate_ids rule)" "truth_of request pid \<noteq> TV_TRUE" "truth_of request pid \<noteq> TV_FALSE"
    by (auto simp: applies_def refuted_def list_all_iff list_ex_iff)
  then have "truth_of request pid = TV_UNKNOWN" by (cases "truth_of request pid") auto
  with p False show ?thesis by (auto simp: open_predicates_def)
qed (auto simp: open_predicates_def)

lemma evaluate_rules_spec:
  "evaluate_rules request rules = (entries, blockers, matched) \<Longrightarrow>
     matched = List.find (applies request) rules
     \<and> blockers = (\<Union>r\<in>set (takeWhile (\<lambda>r. \<not> applies request r) rules). open_predicates request r)
     \<and> map er_rule_id entries = map dr_rule_id (take (Suc (length (takeWhile (\<lambda>r. \<not> applies request r) rules))) rules)"
proof (induction rules arbitrary: entries blockers matched)
  case (Cons rule rules)
  obtain es bs m where rec: "evaluate_rules request rules = (es, bs, m)" by (cases "evaluate_rules request rules")
  note IH = Cons.IH [OF rec]
  show ?case
  proof (cases "applies request rule")
    case True
    then show ?thesis using Cons.prems by (auto simp: Let_def)
  next
    case False
    then have "(if rule_status (map (truth_of request) (dr_predicate_ids rule)) = INCONCLUSIVE
        then {pid \<in> set (dr_predicate_ids rule). truth_of request pid = TV_UNKNOWN} else {}) = open_predicates request rule"
      by (simp add: open_predicates_def)
    then show ?thesis using Cons.prems rec IH False by (auto simp: Let_def)
  qed
qed simp

text \<open>What \<open>evaluate\<close> returns once the digest and the predicate ids are accepted.\<close>

abbreviation waiting_rules :: "ExtractedDecisionModel \<Rightarrow> DecisionEvaluationRequest \<Rightarrow> DecisionRule list" where
  "waiting_rules model request \<equiv> takeWhile (\<lambda>r. \<not> applies request r) (sort_key dr_priority (dm_rules model))"

lemma evaluate_facts:
  assumes "evaluate model request = Inr res"
  defines "matched \<equiv> List.find (applies request) (sort_key dr_priority (dm_rules model))"
    and "blockers \<equiv> (\<Union>r\<in>set (waiting_rules model request). open_predicates request r)"
  shows "rs_status res = (case matched of Some _ \<Rightarrow> MATCHED | None \<Rightarrow> if blockers \<noteq> {} then INCONCLUSIVE else NO_MATCH)"
    "rs_matched_rule_id res = map_option dr_rule_id matched"
    "rs_outputs res = (case matched of Some r \<Rightarrow> dr_outputs r | None \<Rightarrow> [])"
    "rs_blockers res = sorted_list_of_set blockers"
proof -
  obtain es bs m where rec: "evaluate_rules request (sort_key dr_priority (dm_rules model)) = (es, bs, m)"
    by (cases "evaluate_rules request (sort_key dr_priority (dm_rules model))")
  note spec = evaluate_rules_spec [OF rec]
  have m: "m = matched" and b: "bs = blockers" using spec by (simp_all add: matched_def blockers_def)
  have "rq_model_digest request = dm_content_digest model"
    "fst ` set (rq_predicate_values request) - dp_predicate_id ` set (dm_predicates model) = {}"
    using assms(1) by (auto simp only: evaluate_def Let_def split: if_split_asm)
  then have "Inr res = evaluate model request \<and> evaluate model request =
      Inr \<lparr>rs_model_digest = dm_content_digest model,
        rs_status = (case matched of Some _ \<Rightarrow> MATCHED | None \<Rightarrow> if blockers \<noteq> {} then INCONCLUSIVE else NO_MATCH),
        rs_matched_rule_id = map_option dr_rule_id matched,
        rs_outputs = (case matched of Some r \<Rightarrow> dr_outputs r | None \<Rightarrow> []),
        rs_evaluated_rules = es, rs_blockers = sorted_list_of_set blockers\<rparr>"
    using assms(1) by (simp only: evaluate_def Let_def rec prod.case m b) simp
  then have "res = \<lparr>rs_model_digest = dm_content_digest model,
        rs_status = (case matched of Some _ \<Rightarrow> MATCHED | None \<Rightarrow> if blockers \<noteq> {} then INCONCLUSIVE else NO_MATCH),
        rs_matched_rule_id = map_option dr_rule_id matched,
        rs_outputs = (case matched of Some r \<Rightarrow> dr_outputs r | None \<Rightarrow> []),
        rs_evaluated_rules = es, rs_blockers = sorted_list_of_set blockers\<rparr>"
    using sum.inject(2) by metis
  then show "rs_status res = (case matched of Some _ \<Rightarrow> MATCHED | None \<Rightarrow> if blockers \<noteq> {} then INCONCLUSIVE else NO_MATCH)"
    "rs_matched_rule_id res = map_option dr_rule_id matched"
    "rs_outputs res = (case matched of Some r \<Rightarrow> dr_outputs r | None \<Rightarrow> [])"
    "rs_blockers res = sorted_list_of_set blockers"
    by simp_all
qed

lemma evaluate_blockers_finite: "finite (\<Union>r\<in>set (waiting_rules model request). open_predicates request r)"
  by (intro finite_UN_I) simp_all

lemma find_none_waiting:
  "List.find P xs = None \<Longrightarrow> takeWhile (\<lambda>x. \<not> P x) xs = xs"
  by (simp add: find_None_iff takeWhile_eq_all_conv)

lemma find_some_mem: "List.find P xs = Some x \<Longrightarrow> x \<in> set xs \<and> P x"
  by (induction xs) (auto split: if_splits)

lemma priorities_inj:
  assumes "validate_refs model = None"
  shows "inj_on dr_priority (set (dm_rules model))"
  using assms by (auto simp: validate_refs_def distinct_map split: if_splits)

lemma find_sorted_first:
  assumes "List.find P (sort_key f xs) = Some r" "inj_on f (set xs)"
  shows "r \<in> set xs" "P r" "\<And>r'. r' \<in> set xs \<Longrightarrow> (f r' :: int) < f r \<Longrightarrow> \<not> P r'"
proof -
  obtain i where i: "i < length (sort_key f xs)" "P (sort_key f xs ! i)" "r = sort_key f xs ! i"
    "\<And>j. j < i \<Longrightarrow> \<not> P (sort_key f xs ! j)"
    using assms(1) by (auto simp: find_Some_iff)
  have set: "set (sort_key f xs) = set xs" by simp
  show "r \<in> set xs" "P r" using i(1-3) set nth_mem by (blast, simp)
  fix r' assume r': "r' \<in> set xs" "f r' < f r"
  obtain j where j: "j < length (sort_key f xs)" "sort_key f xs ! j = r'"
    using r'(1) set by (metis in_set_conv_nth)
  have "sorted (map f (sort_key f xs))" by simp
  then have "\<not> i \<le> j" using sorted_nth_mono [of "map f (sort_key f xs)" i j] j i(3) r'(2) by fastforce
  then show "\<not> P r'" using i(4) [of j] j(2) by simp
qed

lemma evaluate_status_iff:
  assumes "evaluate model request = Inr res"
  shows "rs_status res = MATCHED \<longleftrightarrow> (\<exists>r\<in>set (dm_rules model). applies request r)"
    "rs_status res = NO_MATCH \<longleftrightarrow> (\<forall>r\<in>set (dm_rules model). refuted request r)"
    "rs_status res \<in> {MATCHED, NO_MATCH, INCONCLUSIVE}"
proof -
  let ?m = "List.find (applies request) (sort_key dr_priority (dm_rules model))"
  let ?b = "\<Union>r\<in>set (waiting_rules model request). open_predicates request r"
  have none: "?m = None \<longleftrightarrow> (\<forall>r\<in>set (dm_rules model). \<not> applies request r)"
    by (auto simp: find_None_iff)
  have st: "rs_status res = (case ?m of Some _ \<Rightarrow> MATCHED | None \<Rightarrow> if ?b \<noteq> {} then INCONCLUSIVE else NO_MATCH)"
    by (rule evaluate_facts(1) [OF assms])
  show "rs_status res = MATCHED \<longleftrightarrow> (\<exists>r\<in>set (dm_rules model). applies request r)"
    using st none by (cases ?m) auto
  show "rs_status res \<in> {MATCHED, NO_MATCH, INCONCLUSIVE}" using st by (cases ?m) auto
  show "rs_status res = NO_MATCH \<longleftrightarrow> (\<forall>r\<in>set (dm_rules model). refuted request r)"
  proof (cases ?m)
    case None
    then have "?b = {} \<longleftrightarrow> (\<forall>r\<in>set (dm_rules model). open_predicates request r = {})"
      by (simp add: find_none_waiting)
    then show ?thesis using st None none by (auto simp: open_predicates_empty)
  next
    case (Some r)
    then have "\<not> refuted request r" "r \<in> set (dm_rules model)"
      using applies_not_refuted find_some_mem [OF Some] by simp_all
    then show ?thesis using st Some by auto
  qed
qed


section \<open>Completing an assignment\<close>

text \<open>One request completes another when it only replaces unknown values.\<close>

definition completes :: "DecisionEvaluationRequest \<Rightarrow> DecisionEvaluationRequest \<Rightarrow> bool" where
  "completes later earlier \<longleftrightarrow>
     (\<forall>pid. truth_of earlier pid \<noteq> TV_UNKNOWN \<longrightarrow> truth_of later pid = truth_of earlier pid)"

lemma completes_applies: "completes l e \<Longrightarrow> applies e r \<Longrightarrow> applies l r"
  by (auto simp: completes_def applies_def list_all_iff)

lemma completes_refuted: "completes l e \<Longrightarrow> refuted e r \<Longrightarrow> refuted l r"
  by (auto simp: completes_def refuted_def list_ex_iff) (metis TruthValue.distinct(5))

lemma find_same_first:
  assumes "List.find P xs = Some x" "Q x" "\<forall>y\<in>set (takeWhile (\<lambda>x. \<not> P x) xs). \<not> Q y"
  shows "List.find Q xs = Some x"
  using assms by (induction xs) (auto split: if_splits)

lemma completion_keeps_match:
  assumes "evaluate model e = Inr re" "evaluate model l = Inr rl" "completes l e"
    "rs_status re = MATCHED" "rs_blockers re = []"
  shows "rs_matched_rule_id rl = rs_matched_rule_id re" "rs_outputs rl = rs_outputs re"
proof -
  let ?rules = "sort_key dr_priority (dm_rules model)"
  obtain r where r: "List.find (applies e) ?rules = Some r"
    using evaluate_facts(1) [OF assms(1)] assms(4)
    by (cases "List.find (applies e) ?rules") (auto split: if_splits)
  have empty: "(\<Union>r\<in>set (waiting_rules model e). open_predicates e r) = {}"
    using evaluate_facts(4) [OF assms(1)] assms(5) evaluate_blockers_finite [of e model]
    by (metis sorted_list_of_set_eq_Nil_iff)
  have "\<forall>r\<in>set (waiting_rules model e). refuted e r"
  proof
    fix q assume q: "q \<in> set (waiting_rules model e)"
    then have "open_predicates e q = {}" using empty by blast
    moreover have "\<not> applies e q" using set_takeWhileD [OF q] by simp
    ultimately show "refuted e q" unfolding open_predicates_empty by blast
  qed
  then have "\<forall>r\<in>set (waiting_rules model e). \<not> applies l r"
    using completes_refuted [OF assms(3)] applies_not_refuted by blast
  moreover have "applies l r" using find_some_mem [OF r] completes_applies [OF assms(3)] by simp
  ultimately have "List.find (applies l) ?rules = Some r" by (intro find_same_first [OF r])
  then show "rs_matched_rule_id rl = rs_matched_rule_id re" "rs_outputs rl = rs_outputs re"
    using r evaluate_facts(2,3) [OF assms(1)] evaluate_facts(2,3) [OF assms(2)] by simp_all
qed

text \<open>
  Answering more predicates never overturns a settled result: \<open>NO_MATCH\<close> stays \<open>NO_MATCH\<close>,
  \<open>MATCHED\<close> stays \<open>MATCHED\<close>, and a match reported without blockers keeps its rule and its outputs.
  \<open>match_with_blockers_changes\<close> below shows that the last clause needs the blockers to be empty.
\<close>

theorem evaluate_stable_under_completion:
  assumes "evaluate model earlier = Inr re" "evaluate model later = Inr rl" "completes later earlier"
  shows "(rs_status re = NO_MATCH \<longrightarrow> rs_status rl = NO_MATCH)
    \<and> (rs_status re = MATCHED \<longrightarrow> rs_status rl = MATCHED)
    \<and> (rs_status re = MATCHED \<and> rs_blockers re = [] \<longrightarrow>
         rs_matched_rule_id rl = rs_matched_rule_id re \<and> rs_outputs rl = rs_outputs re)"
  using evaluate_status_iff [OF assms(1)] evaluate_status_iff [OF assms(2)]
    completes_applies [OF assms(3)] completes_refuted [OF assms(3)] completion_keeps_match [OF assms]
  by blast

section \<open>Errors\<close>

text \<open>
  Evaluation is refused exactly for a request made against another model's digest or naming
  predicates the model does not have; the digest is tested first.
\<close>

theorem evaluate_error_iff:
  "(\<exists>e. evaluate model request = Inl e) \<longleftrightarrow>
     rq_model_digest request \<noteq> dm_content_digest model
     \<or> \<not> fst ` set (rq_predicate_values request) \<subseteq> dp_predicate_id ` set (dm_predicates model)"
  by (auto simp: evaluate_def Let_def split: prod.splits)

section \<open>What the builder produces\<close>

lemma add_predicate_keys:
  "fst ` set (foldl add_predicate ps qs) = fst ` set ps \<union> dp_predicate_id ` set qs"
proof (induction qs arbitrary: ps)
  case (Cons q qs)
  have "fst ` set (add_predicate ps q) = insert (dp_predicate_id q) (fst ` set ps)"
    by (auto simp: add_predicate_def keys_dict_set map_of_eq_None_iff)
  then show ?case using Cons by simp
qed simp

lemma add_predicate_distinct:
  "distinct (map fst ps) \<Longrightarrow> (\<forall>kp\<in>set ps. dp_predicate_id (snd kp) = fst kp) \<Longrightarrow>
     distinct (map fst (foldl add_predicate ps qs)) \<and> (\<forall>kp\<in>set (foldl add_predicate ps qs). dp_predicate_id (snd kp) = fst kp)"
proof (induction qs arbitrary: ps)
  case (Cons q qs)
  have "distinct (map fst (add_predicate ps q))" using Cons.prems(1) by (simp add: add_predicate_def distinct_dict_set)
  moreover have "\<forall>kp\<in>set (add_predicate ps q). dp_predicate_id (snd kp) = fst kp"
    using Cons.prems(2) set_dict_set_subset [of "dp_predicate_id q" q ps] by (auto simp: add_predicate_def)
  ultimately show ?case using Cons.IH by simp
qed simp

lemma collected_ids:
  "map dp_predicate_id (map snd (collected_predicates sha semantic ast)) = map fst (collected_predicates sha semantic ast)"
  "distinct (map fst (collected_predicates sha semantic ast))"
  using add_predicate_distinct [of "[]"] by (simp_all add: collected_predicates_def)

lemma slice_rule_ids:
  assumes "slice_rule sha semantic ast s = Some c" "s \<in> set (sd_slices semantic)"
  shows "set (dr_predicate_ids (snd c)) \<subseteq> fst ` set (collected_predicates sha semantic ast)"
    "dr_outputs (snd c) \<noteq> []" "dr_predicate_ids (snd c) \<noteq> []"
proof -
  have c: "slice_outputs semantic s \<noteq> []" "sl_predicate_refs s \<noteq> []" "dr_outputs (snd c) = slice_outputs semantic s"
    "dr_predicate_ids (snd c) = map dp_predicate_id (map (decision_predicate sha ast) (sl_predicate_refs s))"
    using assms(1) by (auto simp: slice_rule_def Let_def split: if_splits)
  then have "set (dr_predicate_ids (snd c)) = dp_predicate_id ` set (slice_predicates sha semantic ast s)"
    by (simp add: slice_predicates_def image_image)
  also have "\<dots> \<subseteq> fst ` set (collected_predicates sha semantic ast)"
    using assms(2) unfolding collected_predicates_def add_predicate_keys by auto
  finally show "set (dr_predicate_ids (snd c)) \<subseteq> fst ` set (collected_predicates sha semantic ast)" .
  show "dr_outputs (snd c) \<noteq> []" "dr_predicate_ids (snd c) \<noteq> []" using c by simp_all
qed

lemma ordered_rules_fields:
  "map dr_priority (ordered_rules cs) = map int [1..<Suc (length cs)]"
  "length (ordered_rules cs) = length cs"
  "(\<And>r p. f (r\<lparr>dr_priority := p\<rparr>) = f r) \<Longrightarrow> mset (map f (ordered_rules cs)) = mset (map (\<lambda>c. f (snd c)) cs)"
proof -
  have "map dr_priority (ordered_rules cs) = map int (map fst (zip [1..<Suc (length cs)] (sort_key (\<lambda>c. (fst c, dr_rule_id (snd c))) cs)))"
    unfolding ordered_rules_def map_map by (rule map_cong) auto
  then show "map dr_priority (ordered_rules cs) = map int [1..<Suc (length cs)]" by (simp del: upt_Suc)
  show "length (ordered_rules cs) = length cs" by (cases cs) (simp_all add: ordered_rules_def del: upt_Suc)
  assume f: "\<And>r p. f (r\<lparr>dr_priority := p\<rparr>) = f r"
  have "map f (ordered_rules cs) = map (\<lambda>c. f (snd c)) (map snd (zip [1..<Suc (length cs)] (sort_key (\<lambda>c. (fst c, dr_rule_id (snd c))) cs)))"
    unfolding ordered_rules_def map_map by (rule map_cong) (auto simp: f)
  then have "map f (ordered_rules cs) = map (\<lambda>c. f (snd c)) (sort_key (\<lambda>c. (fst c, dr_rule_id (snd c))) cs)"
    by (simp del: upt_Suc)
  then show "mset (map f (ordered_rules cs)) = mset (map (\<lambda>c. f (snd c)) cs)"
    by (metis mset_map mset_sort)
qed

text \<open>What a rule says, its priority apart.\<close>

definition rule_content :: "DecisionRule \<Rightarrow> string \<times> string list \<times> DecisionOutput list" where
  "rule_content r = (dr_rule_id r, dr_predicate_ids r, dr_outputs r)"

lemma rule_content_priority [simp]: "rule_content (r\<lparr>dr_priority := p\<rparr>) = rule_content r"
  by (simp add: rule_content_def)

lemma built_rules_content:
  "mset (map rule_content (dm_rules (decision_model sha digest_of semantic ast))) =
   mset (map (\<lambda>c. rule_content (snd c)) (List.map_filter (slice_rule sha semantic ast) (sd_slices semantic)))"
  by (simp add: decision_model_def Let_def ordered_rules_fields(3) del: mset_map)

lemma built_rule_from_slice:
  assumes "r \<in> set (dm_rules (decision_model sha digest_of semantic ast))"
  shows "\<exists>s\<in>set (sd_slices semantic). \<exists>c. slice_rule sha semantic ast s = Some c \<and> rule_content r = rule_content (snd c)"
proof -
  have "rule_content r \<in> set (map (\<lambda>c. rule_content (snd c)) (List.map_filter (slice_rule sha semantic ast) (sd_slices semantic)))"
    using assms built_rules_content [of sha digest_of semantic ast] by (metis image_eqI mset_eq_setD set_map)
  then show ?thesis unfolding List.map_filter_def by force
qed

lemma built_predicate_ids:
  "set (map dp_predicate_id (dm_predicates (decision_model sha digest_of semantic ast))) = fst ` set (collected_predicates sha semantic ast)"
  "distinct (map dp_predicate_id (dm_predicates (decision_model sha digest_of semantic ast)))"
proof -
  let ?ps = "dm_predicates (decision_model sha digest_of semantic ast)"
  have "mset ?ps = mset (map snd (collected_predicates sha semantic ast))" by (simp add: decision_model_def Let_def)
  then have m: "mset (map dp_predicate_id ?ps) = mset (map fst (collected_predicates sha semantic ast))"
    using collected_ids(1) [of sha semantic ast] by (metis mset_map)
  show "set (map dp_predicate_id ?ps) = fst ` set (collected_predicates sha semantic ast)"
    using mset_eq_setD [OF m] by simp
  show "distinct (map dp_predicate_id ?ps)"
    using mset_eq_imp_distinct_iff [OF m] collected_ids(2) by blast
qed

lemma built_validates:
  "validate_refs (decision_model sha digest_of semantic ast\<lparr>dm_content_digest := d\<rparr>) = None"
proof -
  let ?m = "decision_model sha digest_of semantic ast"
  have "missing_predicates (?m\<lparr>dm_content_digest := d\<rparr>) r = {}" if r: "r \<in> set (dm_rules ?m)" for r
  proof -
    obtain s c where "s \<in> set (sd_slices semantic)" "slice_rule sha semantic ast s = Some c" "rule_content r = rule_content (snd c)"
      using built_rule_from_slice [OF r] by blast
    then have "set (dr_predicate_ids r) \<subseteq> set (map dp_predicate_id (dm_predicates ?m))"
      using slice_rule_ids(1) built_predicate_ids(1) by (auto simp: rule_content_def)
    then show ?thesis by (auto simp: missing_predicates_def)
  qed
  moreover have "distinct (map dr_priority (dm_rules ?m))"
    by (simp add: decision_model_def Let_def ordered_rules_fields distinct_map del: upt_Suc)
  ultimately show ?thesis by (auto simp: validate_refs_def find_None_iff)
qed

text \<open>
  The builder always returns a model its own validator accepts: rules are numbered \<open>1..n\<close> in
  order, each has at least one predicate and one output, predicate ids are unique, and the rules
  are, up to order, exactly those of the slices that have an observable effect and a control
  predicate.
\<close>

theorem build_model_valid:
  "\<exists>m. build_model sha digest_of model_digest semantic ast = Inr m
    \<and> validate_refs m = None
    \<and> map dr_priority (dm_rules m) = map int [1..<Suc (length (dm_rules m))]
    \<and> list_all (\<lambda>r. dr_predicate_ids r \<noteq> [] \<and> dr_outputs r \<noteq> []) (dm_rules m)
    \<and> distinct (map dp_predicate_id (dm_predicates m))
    \<and> mset (map rule_content (dm_rules m)) =
        mset (map (\<lambda>c. rule_content (snd c)) (List.map_filter (slice_rule sha semantic ast) (sd_slices semantic)))"
proof -
  let ?m = "decision_model sha digest_of semantic ast"
  have "dr_predicate_ids r \<noteq> [] \<and> dr_outputs r \<noteq> []" if r: "r \<in> set (dm_rules ?m)" for r
  proof -
    obtain s c where "s \<in> set (sd_slices semantic)" "slice_rule sha semantic ast s = Some c" "rule_content r = rule_content (snd c)"
      using built_rule_from_slice [OF r] by blast
    then show ?thesis using slice_rule_ids(2,3) by (simp add: rule_content_def)
  qed
  moreover have "map dr_priority (dm_rules ?m) = map int [1..<Suc (length (dm_rules ?m))]"
    by (simp add: decision_model_def Let_def ordered_rules_fields del: upt_Suc)
  ultimately show ?thesis
    using built_validates built_predicate_ids(2) [of sha digest_of semantic ast] built_rules_content [of sha digest_of semantic ast]
    by (simp add: build_model_def Let_def list_all_iff del: upt_Suc)
qed

section \<open>Witnesses\<close>

definition two_rule_model :: ExtractedDecisionModel where
  "two_rule_model =
     \<lparr>dm_model_id = ''m'', dm_procedure_ref = ''P'', dm_semantic_digest = ''s'',
      dm_predicates = [\<lparr>dp_predicate_id = ''a'', dp_expression_text = ''A > 0'', dp_evidence_refs = [], dp_source_line = Some 3\<rparr>,
                       \<lparr>dp_predicate_id = ''b'', dp_expression_text = ''B > 0'', dp_evidence_refs = [], dp_source_line = Some 5\<rparr>],
      dm_rules = [\<lparr>dr_rule_id = ''first'', dr_priority = 1, dr_predicate_ids = [''a''],
                    dr_outputs = [\<lparr>do_target = ''P_OUT'', do_value_expression = Some ''1'', do_effect_kind = ''ASSIGNMENT'', do_evidence_refs = []\<rparr>],
                    dr_source_behavior_ref = ''s1'', dr_completeness = ''COMPLETE''\<rparr>,
                   \<lparr>dr_rule_id = ''second'', dr_priority = 2, dr_predicate_ids = [''b''],
                    dr_outputs = [\<lparr>do_target = ''P_OUT'', do_value_expression = Some ''2'', do_effect_kind = ''ASSIGNMENT'', do_evidence_refs = []\<rparr>],
                    dr_source_behavior_ref = ''s2'', dr_completeness = ''COMPLETE''\<rparr>],
      dm_limitations = [], dm_content_digest = ''d''\<rparr>"

definition request_for :: "(string \<times> TruthValue) list \<Rightarrow> DecisionEvaluationRequest" where
  "request_for vs = \<lparr>rq_model_digest = ''d'', rq_predicate_values = vs\<rparr>"

definition evaluated :: "ExtractedDecisionModel \<Rightarrow> DecisionEvaluationRequest \<Rightarrow> DecisionEvaluationResult" where
  "evaluated m r = (case evaluate m r of Inr res \<Rightarrow> res | Inl _ \<Rightarrow> undefined)"

lemma two_rule_accepted:
  "validate_refs two_rule_model = None"
  "set (map fst vs) \<subseteq> {''a'', ''b''} \<Longrightarrow> evaluate two_rule_model (request_for vs) = Inr (evaluated two_rule_model (request_for vs))"
proof -
  show "validate_refs two_rule_model = None"
    by (simp add: validate_refs_def two_rule_model_def missing_predicates_def)
  assume "set (map fst vs) \<subseteq> {''a'', ''b''}"
  then have "fst ` set vs \<subseteq> dp_predicate_id ` set (dm_predicates two_rule_model)" by (auto simp: two_rule_model_def)
  then have "\<not> (\<exists>e. evaluate two_rule_model (request_for vs) = Inl e)"
    by (auto simp: evaluate_def Let_def request_for_def two_rule_model_def split: prod.splits)
  then show "evaluate two_rule_model (request_for vs) = Inr (evaluated two_rule_model (request_for vs))"
    by (cases "evaluate two_rule_model (request_for vs)") (auto simp: evaluated_def)
qed


theorem evaluate_stable_under_completion_witness:
  "rs_status (evaluated two_rule_model (request_for [(''a'', TV_TRUE), (''b'', TV_FALSE)])) = MATCHED"
proof -
  have "completes (request_for [(''a'', TV_TRUE), (''b'', TV_FALSE)]) (request_for [(''a'', TV_TRUE)])"
    by (auto simp: completes_def truth_of_def request_for_def)
  note stable = evaluate_stable_under_completion [OF two_rule_accepted(2) [of "[(''a'', TV_TRUE)]"]
      two_rule_accepted(2) [of "[(''a'', TV_TRUE), (''b'', TV_FALSE)]"] this]
  have "rs_status (evaluated two_rule_model (request_for [(''a'', TV_TRUE)])) = MATCHED"
    using evaluate_status_iff(1) [OF two_rule_accepted(2) [of "[(''a'', TV_TRUE)]"]]
    by (simp add: two_rule_model_def applies_def truth_of_def request_for_def)
  then show ?thesis using stable by simp
qed

text \<open>
  A rule of smaller priority may still be waiting for an answer when a later rule matches. The
  evaluator reports \<open>MATCHED\<close> with the later rule's outputs, and answering the open predicate
  replaces the reported rule: the case the blockers flag.
\<close>

lemma match_with_blockers_changes:
  "rs_status (evaluated two_rule_model (request_for [(''b'', TV_TRUE)])) = MATCHED
   \<and> rs_matched_rule_id (evaluated two_rule_model (request_for [(''b'', TV_TRUE)])) = Some ''second''
   \<and> rs_blockers (evaluated two_rule_model (request_for [(''b'', TV_TRUE)])) = [''a'']
   \<and> rs_matched_rule_id (evaluated two_rule_model (request_for [(''a'', TV_TRUE), (''b'', TV_TRUE)])) = Some ''first''"
proof -
  note one = evaluate_facts [OF two_rule_accepted(2) [of "[(''b'', TV_TRUE)]"]]
    and two = evaluate_facts [OF two_rule_accepted(2) [of "[(''a'', TV_TRUE), (''b'', TV_TRUE)]"]]
  show ?thesis
    using one two
    by (simp add: two_rule_model_def applies_def refuted_def truth_of_def request_for_def open_predicates_def sorted_list_of_set_insert_remove cong: conj_cong)
qed

end
