(* ===== verification/Transaction.thy ===== *)
theory Transaction
  imports SqlPlAst "HOL-Library.Multiset" "HOL-Library.List_Lexorder" "HOL-Library.Char_ord" "HOL-Library.Product_Lexorder"
begin

text \<open>
  Transaction survival, \<open>analysis/transaction.py\<close>: for every data change the analyzer looks, along
  the control-flow graph, for the first commit, rollback or exit after it and classifies the change
  by what it finds. The stack of the depth-first search is a list with its top first. SHA-256 is a
  parameter; finding codes are the string values of their enumeration.
\<close>

section \<open>Models\<close>

datatype EffectKind =
    EK_OUT_PARAMETER_ASSIGNMENT | EK_DML | EK_CALL | EK_DYNAMIC_SQL | EK_COMMIT | EK_ROLLBACK | EK_SIGNAL
  | EK_RESIGNAL | EK_SEQUENCE_VALUE_ACQUISITION | EK_RESULT_SET_RETURN | EK_STATE_ASSIGNMENT

datatype EffectObservability =
    EO_INTERMEDIATE_EFFECT | EO_ESCAPING_EFFECT | EO_COMMITTED_EFFECT | EO_ROLLED_BACK_EFFECT
  | EO_OVERWRITTEN_OUTPUT_ASSIGNMENT | EO_HANDLED_CONDITION | EO_UNHANDLED_ESCAPING_CONDITION
  | EO_UNRESOLVED_EFFECT_BOUNDARY | EO_TRANSACTION_SURVIVAL_UNRESOLVED | EO_CONDITIONALLY_COMMITTED_EFFECT

record EffectCandidate =
  ec_effect_id :: string
  ec_effect_kind :: EffectKind
  ec_source_node_ref :: string
  ec_target :: "string option"
  ec_value_expression :: "string option"
  ec_observability :: EffectObservability
  ec_reaches_exit_refs :: "string list"
  ec_evidence_refs :: "string list"
  ec_transaction_analysis_ref :: "string option"

datatype TransactionPathOutcome =
    TP_EXPLICIT_COMMIT | TP_EXPLICIT_ROLLBACK | TP_NORMAL_EXIT_CALLER_CONTROLLED | TP_CALLER_CONTRACT_COMMIT
  | TP_CALLER_CONTRACT_ROLLBACK | TP_COMMIT_ON_RETURN | TP_EXCEPTIONAL_ESCAPE | TP_NO_TERMINAL_PATH

fun outcome_value :: "TransactionPathOutcome \<Rightarrow> string" where
  "outcome_value TP_EXPLICIT_COMMIT = ''EXPLICIT_COMMIT''"
| "outcome_value TP_EXPLICIT_ROLLBACK = ''EXPLICIT_ROLLBACK''"
| "outcome_value TP_NORMAL_EXIT_CALLER_CONTROLLED = ''NORMAL_EXIT_CALLER_CONTROLLED''"
| "outcome_value TP_CALLER_CONTRACT_COMMIT = ''CALLER_CONTRACT_COMMIT''"
| "outcome_value TP_CALLER_CONTRACT_ROLLBACK = ''CALLER_CONTRACT_ROLLBACK''"
| "outcome_value TP_COMMIT_ON_RETURN = ''COMMIT_ON_RETURN''"
| "outcome_value TP_EXCEPTIONAL_ESCAPE = ''EXCEPTIONAL_ESCAPE''"
| "outcome_value TP_NO_TERMINAL_PATH = ''NO_TERMINAL_PATH''"

datatype TransactionSurvivalClassification =
    TC_MUST_COMMIT | TC_MUST_ROLLBACK | TC_CALLER_CONTROLLED | TC_CALLER_CONTRACT_COMMIT | TC_MAY_COMMIT_OR_ROLLBACK
  | TC_MAY_COMMIT_OR_CALLER_CONTROLLED | TC_CALLER_CONTROLLED_OR_EXCEPTIONAL
  | TC_MAY_COMMIT_ROLLBACK_OR_CALLER_CONTROLLED | TC_UNRESOLVED

record CallerTransactionContract =
  ct_contract_id :: string
  ct_schema_name :: "string option"
  ct_procedure_name :: string
  ct_authority_ref :: string
  ct_evidence_refs :: "string list"
  ct_content_digest :: string

record EffectTransactionAnalysis =
  ta_analysis_id :: string
  ta_effect_ref :: string
  ta_transaction_region_ref :: string
  ta_reachable_outcomes :: "TransactionPathOutcome list"
  ta_classification :: TransactionSurvivalClassification
  ta_boundary_node_refs :: "string list"
  ta_complete :: bool
  ta_evidence_refs :: "string list"
  ta_contract_ref :: "string option"
  ta_contract_digest :: "string option"

record TransactionRegion =
  tr_region_id :: string
  tr_procedure_ast_ref :: string
  tr_commit_on_return :: string
  tr_effect_refs :: "string list"
  tr_explicit_commit_refs :: "string list"
  tr_explicit_rollback_refs :: "string list"

record SemanticFinding =
  sf_finding_id :: string
  sf_code :: string
  sf_message :: string
  sf_evidence_node_refs :: "string list"
  sf_source_ranges :: "SourceRange list"
  sf_consequence :: string

section \<open>First boundaries\<close>

definition tx_node :: "ProcedureAst \<Rightarrow> string \<Rightarrow> AstNode option" where
  "tx_node ast = map_of (dict_update [] (map (\<lambda>n. (an_node_id n, n)) (pa_nodes ast)))"

definition cfg_ast :: "ControlFlowGraph \<Rightarrow> string \<Rightarrow> string option" where
  "cfg_ast g = map_of (dict_update [] (List.map_filter (\<lambda>n. map_option (\<lambda>r. (cn_cfg_node_id n, r)) (cn_ast_node_ref n)) (cfg_nodes g)))"

definition cfg_by_ast :: "ControlFlowGraph \<Rightarrow> string \<Rightarrow> string option" where
  "cfg_by_ast g = map_of (dict_update [] (List.map_filter (\<lambda>n. map_option (\<lambda>r. (r, cn_cfg_node_id n)) (cn_ast_node_ref n)) (cfg_nodes g)))"

definition edge_map :: "ControlFlowGraph \<Rightarrow> string \<Rightarrow> (string \<times> CfgEdgeKind) list" where
  "edge_map g source =
     sort_key (\<lambda>(t, k). (edge_value k, t))
       (map (\<lambda>e. (ce_target_ref e, ce_edge_kind e)) (filter (\<lambda>e. ce_source_ref e = source) (cfg_edges g)))"

definition commit_on_return :: "string option \<Rightarrow> string" where
  "commit_on_return v =
     (let normalized = py_upper (str_or v ''UNKNOWN'') in if normalized \<in> {''YES'', ''NO''} then normalized else ''UNKNOWN'')"

text \<open>The outcome a search state stands for and the reference recorded for it.\<close>

definition boundary_at ::
  "ProcedureAst \<Rightarrow> ControlFlowGraph \<Rightarrow> string \<Rightarrow> CallerTransactionContract option \<Rightarrow> string \<Rightarrow> bool \<Rightarrow> (TransactionPathOutcome \<times> string) option" where
  "boundary_at ast g cor contract current is_source =
     (if current = cfg_normal_exit_ref g then
        Some (if cor = ''YES'' then TP_COMMIT_ON_RETURN
              else if contract \<noteq> None then TP_CALLER_CONTRACT_COMMIT else TP_NORMAL_EXIT_CALLER_CONTROLLED, current)
      else if current = cfg_exceptional_exit_ref g then
        Some (if contract \<noteq> None then TP_CALLER_CONTRACT_ROLLBACK else TP_EXCEPTIONAL_ESCAPE, current)
      else if is_source then None
      else
        (case cfg_ast g current of
           None \<Rightarrow> None
         | Some ast_ref \<Rightarrow>
             (case map_option an_kind (tx_node ast ast_ref) of
                Some NK_COMMIT \<Rightarrow> Some (TP_EXPLICIT_COMMIT, ast_ref)
              | Some NK_ROLLBACK \<Rightarrow> Some (TP_EXPLICIT_ROLLBACK, ast_ref)
              | _ \<Rightarrow> None)))"

definition next_states :: "ControlFlowGraph \<Rightarrow> string \<Rightarrow> bool \<Rightarrow> (string \<times> bool) list" where
  "next_states g current is_source =
     map (\<lambda>(t, k). (t, False)) (filter (\<lambda>(t, k). \<not> (is_source \<and> k = CE_HANDLER)) (edge_map g current))"

lemma next_states_targets: "set (next_states g n s) \<subseteq> (\<lambda>e. (ce_target_ref e, False)) ` set (cfg_edges g)"
  by (auto simp: next_states_def edge_map_def)

function first_boundaries_from ::
  "ProcedureAst \<Rightarrow> ControlFlowGraph \<Rightarrow> string \<Rightarrow> CallerTransactionContract option \<Rightarrow> (string \<times> bool) list \<Rightarrow> (string \<times> bool) set \<Rightarrow>
   TransactionPathOutcome set \<times> string set \<Rightarrow> TransactionPathOutcome set \<times> string set" where
  "first_boundaries_from ast g cor contract [] visited acc = acc"
| "first_boundaries_from ast g cor contract ((current, is_source) # stack) visited acc =
     (if (current, is_source) \<in> visited then first_boundaries_from ast g cor contract stack visited acc
      else
        (case boundary_at ast g cor contract current is_source of
           Some (out, b) \<Rightarrow> first_boundaries_from ast g cor contract stack (insert (current, is_source) visited)
             (insert out (fst acc), insert b (snd acc))
         | None \<Rightarrow> first_boundaries_from ast g cor contract (next_states g current is_source @ stack)
             (insert (current, is_source) visited) acc))"
  by pat_completeness auto

text \<open>The states a search can still meet: what is on the stack and the targets of edges.\<close>

definition open_states :: "ControlFlowGraph \<Rightarrow> (string \<times> bool) list \<Rightarrow> (string \<times> bool) set \<Rightarrow> nat" where
  "open_states g stack visited = card ((set stack \<union> (\<lambda>e. (ce_target_ref e, False)) ` set (cfg_edges g)) - visited)"

lemma open_states_pop: "open_states g stack visited \<le> open_states g (x # stack) visited"
  unfolding open_states_def by (rule card_mono) auto

lemma open_states_visit:
  assumes "x \<notin> visited" "set stack' \<subseteq> set stack \<union> (\<lambda>e. (ce_target_ref e, False)) ` set (cfg_edges g)"
  shows "open_states g stack' (insert x visited) < open_states g (x # stack) visited"
  unfolding open_states_def using assms by (intro psubset_card_mono) auto

termination first_boundaries_from
proof (relation "(\<lambda>(ast, g, cor, contract, stack, visited, acc). open_states g stack visited) <*mlex*>
    measure (\<lambda>(ast, g, cor, contract, stack, visited, acc). length stack)", goal_cases)
  case (2 ast g cor contract current is_source stack visited acc)
  then show ?case using open_states_pop [of g stack visited "(current, is_source)"]
    by (auto simp: mlex_prod_def)
next
  case (3 ast g cor contract current is_source stack visited acc)
  then show ?case using open_states_visit [of "(current, is_source)" visited "next_states g current is_source @ stack" stack g]
      next_states_targets [of g current is_source] by (auto simp: mlex_prod_def)
next
  case (4 ast g cor contract current is_source stack visited acc)
  then show ?case using open_states_visit [of "(current, is_source)" visited stack stack g] by (auto simp: mlex_prod_def)
qed (auto simp: wf_mlex)

definition first_boundaries ::
  "ProcedureAst \<Rightarrow> ControlFlowGraph \<Rightarrow> string \<Rightarrow> CallerTransactionContract option \<Rightarrow> string \<Rightarrow> TransactionPathOutcome set \<times> string set" where
  "first_boundaries ast g cor contract source_cfg = first_boundaries_from ast g cor contract [(source_cfg, True)] {} ({}, {})"

section \<open>Classification\<close>

definition classify :: "TransactionPathOutcome set \<Rightarrow> TransactionSurvivalClassification" where
  "classify outcomes =
     (let meaningful = outcomes - {TP_NO_TERMINAL_PATH} in
      if meaningful \<noteq> {} \<and> meaningful \<subseteq> {TP_EXPLICIT_COMMIT, TP_COMMIT_ON_RETURN} then TC_MUST_COMMIT
      else if meaningful = {TP_EXPLICIT_ROLLBACK} then TC_MUST_ROLLBACK
      else if TP_CALLER_CONTRACT_COMMIT \<in> meaningful \<and> meaningful \<subseteq> {TP_CALLER_CONTRACT_COMMIT, TP_CALLER_CONTRACT_ROLLBACK}
        then TC_CALLER_CONTRACT_COMMIT
      else if meaningful = {TP_NORMAL_EXIT_CALLER_CONTROLLED} then TC_CALLER_CONTROLLED
      else if meaningful \<subseteq> {TP_EXPLICIT_COMMIT, TP_COMMIT_ON_RETURN, TP_EXPLICIT_ROLLBACK} \<and> TP_EXPLICIT_ROLLBACK \<in> meaningful
        then TC_MAY_COMMIT_OR_ROLLBACK
      else if meaningful \<subseteq> {TP_EXPLICIT_COMMIT, TP_COMMIT_ON_RETURN, TP_NORMAL_EXIT_CALLER_CONTROLLED}
          \<and> TP_NORMAL_EXIT_CALLER_CONTROLLED \<in> meaningful
        then TC_MAY_COMMIT_OR_CALLER_CONTROLLED
      else if meaningful \<subseteq> {TP_NORMAL_EXIT_CALLER_CONTROLLED, TP_EXCEPTIONAL_ESCAPE} then TC_CALLER_CONTROLLED_OR_EXCEPTIONAL
      else if {TP_EXPLICIT_COMMIT, TP_EXPLICIT_ROLLBACK, TP_NORMAL_EXIT_CALLER_CONTROLLED} \<inter> meaningful \<noteq> {}
        then TC_MAY_COMMIT_ROLLBACK_OR_CALLER_CONTROLLED
      else TC_UNRESOLVED)"

fun observability_of :: "TransactionSurvivalClassification \<Rightarrow> EffectObservability" where
  "observability_of TC_MUST_COMMIT = EO_COMMITTED_EFFECT"
| "observability_of TC_CALLER_CONTRACT_COMMIT = EO_CONDITIONALLY_COMMITTED_EFFECT"
| "observability_of TC_MUST_ROLLBACK = EO_ROLLED_BACK_EFFECT"
| "observability_of _ = EO_TRANSACTION_SURVIVAL_UNRESOLVED"

section \<open>The analyzer\<close>

definition is_data_change :: "EffectCandidate \<Rightarrow> bool" where
  "is_data_change effect \<longleftrightarrow>
     ec_effect_kind effect = EK_DML
     \<or> ec_effect_kind effect = EK_DYNAMIC_SQL \<and> ec_observability effect = EO_TRANSACTION_SURVIVAL_UNRESOLVED"

definition dml_effects :: "EffectCandidate list \<Rightarrow> EffectCandidate list" where
  "dml_effects effects = filter is_data_change effects"

definition transaction_region :: "(string \<Rightarrow> string) \<Rightarrow> ProcedureAst \<Rightarrow> EffectCandidate list \<Rightarrow> TransactionRegion" where
  "transaction_region sha ast effects =
     \<lparr>tr_region_id = ''transaction-region-'' @ take 20 (sha (pa_node_id ast)), tr_procedure_ast_ref = pa_node_id ast,
      tr_commit_on_return = commit_on_return (pa_commit_on_return ast),
      tr_effect_refs = sort (map ec_effect_id (dml_effects effects)),
      tr_explicit_commit_refs = sort (map an_node_id (filter (\<lambda>n. an_kind n = NK_COMMIT) (pa_nodes ast))),
      tr_explicit_rollback_refs = sort (map an_node_id (filter (\<lambda>n. an_kind n = NK_ROLLBACK) (pa_nodes ast)))\<rparr>"

text \<open>Outcomes and boundaries of one effect, before the placeholder for an empty search.\<close>

definition effect_boundaries ::
  "ProcedureAst \<Rightarrow> ControlFlowGraph \<Rightarrow> CallerTransactionContract option \<Rightarrow> EffectCandidate \<Rightarrow> TransactionPathOutcome set \<times> string set" where
  "effect_boundaries ast g contract effect =
     (case cfg_by_ast g (ec_source_node_ref effect) of
        None \<Rightarrow> ({}, {})
      | Some source_cfg \<Rightarrow> first_boundaries ast g (commit_on_return (pa_commit_on_return ast)) contract source_cfg)"

definition all_outcomes :: "TransactionPathOutcome list" where
  "all_outcomes = [TP_CALLER_CONTRACT_COMMIT, TP_CALLER_CONTRACT_ROLLBACK, TP_COMMIT_ON_RETURN, TP_EXCEPTIONAL_ESCAPE,
     TP_EXPLICIT_COMMIT, TP_EXPLICIT_ROLLBACK, TP_NORMAL_EXIT_CALLER_CONTROLLED, TP_NO_TERMINAL_PATH]"

text \<open>\<open>sorted(outcome_set, key=value)\<close>: \<open>all_outcomes\<close> lists the outcomes by their values.\<close>

definition sorted_outcomes :: "TransactionPathOutcome set \<Rightarrow> TransactionPathOutcome list" where
  "sorted_outcomes os = filter (\<lambda>v. v \<in> os) all_outcomes"

definition effect_analysis ::
  "(string \<Rightarrow> string) \<Rightarrow> ProcedureAst \<Rightarrow> ControlFlowGraph \<Rightarrow> CallerTransactionContract option \<Rightarrow> EffectCandidate \<Rightarrow> EffectTransactionAnalysis" where
  "effect_analysis sha ast g contract effect =
     (let (outcome_set, boundary_set) = effect_boundaries ast g contract effect;
          outcomes = (if outcome_set = {} then [TP_NO_TERMINAL_PATH] else sorted_outcomes outcome_set);
          region_id = ''transaction-region-'' @ take 20 (sha (pa_node_id ast))
      in \<lparr>ta_analysis_id = ''transaction-analysis-'' @ take 20 (sha (ec_effect_id effect @ ''|'' @ region_id @ ''|''
              @ py_join ''|'' (map outcome_value outcomes))),
          ta_effect_ref = ec_effect_id effect, ta_transaction_region_ref = region_id, ta_reachable_outcomes = outcomes,
          ta_classification = classify (set outcomes), ta_boundary_node_refs = sorted_list_of_set boundary_set,
          ta_complete = (outcome_set \<noteq> {}),
          ta_evidence_refs = sorted_list_of_set ({ec_source_node_ref effect} \<union> boundary_set
              \<union> (case contract of None \<Rightarrow> {} | Some c \<Rightarrow> set (ct_evidence_refs c))),
          ta_contract_ref = map_option ct_contract_id contract, ta_contract_digest = map_option ct_content_digest contract\<rparr>)"

fun finding_text :: "TransactionSurvivalClassification \<Rightarrow> (string \<times> string \<times> string) option" where
  "finding_text TC_MUST_COMMIT = None"
| "finding_text TC_MUST_ROLLBACK = None"
| "finding_text TC_CALLER_CONTRACT_COMMIT = None"
| "finding_text TC_CALLER_CONTROLLED =
     Some (''DML_CALLER_CONTROLLED'', ''DML reaches procedure exit without an explicit commit in the analyzed procedure.'',
       ''Transaction survival remains controlled by the caller or external transaction context.'')"
| "finding_text TC_CALLER_CONTROLLED_OR_EXCEPTIONAL =
     Some (''DML_CALLER_CONTROLLED'', ''DML reaches procedure exit without an explicit commit in the analyzed procedure.'',
       ''Transaction survival remains controlled by the caller or external transaction context.'')"
| "finding_text TC_UNRESOLVED =
     Some (''DML_TRANSACTION_SURVIVAL_UNRESOLVED'', ''DML transaction survival could not be resolved.'',
       ''The DML is not classified as committed or rolled back.'')"
| "finding_text _ =
     Some (''DML_MAY_COMMIT_OR_ROLLBACK'', ''DML can reach more than one transaction-survival outcome.'',
       ''The effect remains non-definitive and cannot be asserted as committed.'')"

definition finding_for_analysis ::
  "(string \<Rightarrow> string) \<Rightarrow> ProcedureAst \<Rightarrow> EffectCandidate \<Rightarrow> EffectTransactionAnalysis \<Rightarrow> SemanticFinding option" where
  "finding_for_analysis sha ast effect analysis =
     (case tx_node ast (ec_source_node_ref effect) of
        None \<Rightarrow> None
      | Some node \<Rightarrow>
          (case finding_text (ta_classification analysis) of
             None \<Rightarrow> None
           | Some (code, message, consequence) \<Rightarrow>
               (let refs = foldl append_new [] (ec_source_node_ref effect
                      # filter (\<lambda>ref. tx_node ast ref \<noteq> None) (ta_evidence_refs analysis))
                in Some \<lparr>sf_finding_id = ''semantic-finding-'' @ take 20 (sha (code @ ''|'' @ ec_effect_id effect @ ''|'' @ ta_analysis_id analysis)),
                     sf_code = code, sf_message = message, sf_evidence_node_refs = refs,
                     sf_source_ranges = List.map_filter (\<lambda>ref. map_option an_source_range (tx_node ast ref)) refs,
                     sf_consequence = consequence\<rparr>)))"

definition updated_effect :: "(string \<times> EffectTransactionAnalysis) list \<Rightarrow> EffectCandidate \<Rightarrow> EffectCandidate" where
  "updated_effect analysis_by_effect effect =
     (case map_of analysis_by_effect (ec_effect_id effect) of
        None \<Rightarrow> effect
      | Some analysis \<Rightarrow> effect\<lparr>ec_observability := observability_of (ta_classification analysis),
          ec_transaction_analysis_ref := Some (ta_analysis_id analysis)\<rparr>)"

definition analyze_transactions ::
  "(string \<Rightarrow> string) \<Rightarrow> ProcedureAst \<Rightarrow> ControlFlowGraph \<Rightarrow> EffectCandidate list \<Rightarrow> CallerTransactionContract option \<Rightarrow>
   EffectCandidate list \<times> TransactionRegion list \<times> EffectTransactionAnalysis list \<times> SemanticFinding list" where
  "analyze_transactions sha ast g effects contract =
     (let analyses = map (\<lambda>e. (e, effect_analysis sha ast g contract e)) (dml_effects effects);
          by_effect = dict_update [] (map (\<lambda>(e, a). (ec_effect_id e, a)) analyses)
      in (sort_key ec_effect_id (map (updated_effect by_effect) effects),
          [transaction_region sha ast effects],
          sort_key ta_analysis_id (map snd analyses),
          sort_key sf_finding_id (List.map_filter (\<lambda>(e, a). finding_for_analysis sha ast e a) analyses)))"

section \<open>The search is exact\<close>

text \<open>
  The states a path can be in before it met a boundary: it starts at the data change, leaves it by
  an edge other than a handler edge, and goes on along edges as long as no boundary is met.
\<close>

inductive undecided :: "ProcedureAst \<Rightarrow> ControlFlowGraph \<Rightarrow> string \<Rightarrow> CallerTransactionContract option \<Rightarrow> string \<Rightarrow> string \<Rightarrow> bool \<Rightarrow> bool"
  for ast g cor contract source where
  undecided_source: "undecided ast g cor contract source source True"
| undecided_step: "undecided ast g cor contract source n s \<Longrightarrow> boundary_at ast g cor contract n s = None \<Longrightarrow>
    e \<in> set (cfg_edges g) \<Longrightarrow> ce_source_ref e = n \<Longrightarrow> \<not> (s \<and> ce_edge_kind e = CE_HANDLER) \<Longrightarrow>
    undecided ast g cor contract source (ce_target_ref e) False"

definition meets :: "ProcedureAst \<Rightarrow> ControlFlowGraph \<Rightarrow> string \<Rightarrow> CallerTransactionContract option \<Rightarrow> string \<Rightarrow> (TransactionPathOutcome \<times> string) set" where
  "meets ast g cor contract source =
     {ob. \<exists>n s. undecided ast g cor contract source n s \<and> boundary_at ast g cor contract n s = Some ob}"

lemma next_states_iff:
  "(t, f) \<in> set (next_states g n s) \<longleftrightarrow>
     \<not> f \<and> (\<exists>e\<in>set (cfg_edges g). ce_source_ref e = n \<and> ce_target_ref e = t \<and> \<not> (s \<and> ce_edge_kind e = CE_HANDLER))"
  by (auto simp: next_states_def edge_map_def image_iff)

definition search_inv ::
  "ProcedureAst \<Rightarrow> ControlFlowGraph \<Rightarrow> string \<Rightarrow> CallerTransactionContract option \<Rightarrow> string \<Rightarrow> (string \<times> bool) set \<Rightarrow> (string \<times> bool) set \<Rightarrow>
   TransactionPathOutcome set \<times> string set \<Rightarrow> bool" where
  "search_inv ast g cor contract source stack visited acc \<longleftrightarrow>
     (\<forall>(n, s)\<in>stack \<union> visited. undecided ast g cor contract source n s)
     \<and> (source, True) \<in> stack \<union> visited
     \<and> (\<forall>(n, s)\<in>visited. boundary_at ast g cor contract n s = None \<longrightarrow> set (next_states g n s) \<subseteq> stack \<union> visited)
     \<and> fst acc = {out. \<exists>n s b. (n, s) \<in> visited \<and> boundary_at ast g cor contract n s = Some (out, b)}
     \<and> snd acc = {b. \<exists>n s out. (n, s) \<in> visited \<and> boundary_at ast g cor contract n s = Some (out, b)}"

lemma meets_image:
  "fst ` meets ast g cor contract source = {out. \<exists>n s b. undecided ast g cor contract source n s \<and> boundary_at ast g cor contract n s = Some (out, b)}"
  "snd ` meets ast g cor contract source = {b. \<exists>n s out. undecided ast g cor contract source n s \<and> boundary_at ast g cor contract n s = Some (out, b)}"
  unfolding meets_def by (force intro: rev_image_eqI)+

lemma search_done:
  assumes "search_inv ast g cor contract source {} visited acc"
  shows "acc = (fst ` meets ast g cor contract source, snd ` meets ast g cor contract source)"
proof -
  have "(n, s) \<in> visited" if "undecided ast g cor contract source n s" for n s
    using that
  proof induction
    case (undecided_step n s e)
    then have "(ce_target_ref e, False) \<in> set (next_states g n s)" by (auto simp: next_states_iff)
    then show ?case using undecided_step assms by (fastforce simp: search_inv_def)
  qed (use assms in \<open>simp add: search_inv_def\<close>)
  moreover have "undecided ast g cor contract source n s" if "(n, s) \<in> visited" for n s
    using that assms by (auto simp: search_inv_def)
  ultimately have "(n, s) \<in> visited \<longleftrightarrow> undecided ast g cor contract source n s" for n s by blast
  then show ?thesis using assms by (simp add: search_inv_def meets_image prod_eq_iff)
qed

lemma search_skip:
  assumes "search_inv ast g cor contract source (insert x stack) visited acc" "x \<in> visited"
  shows "search_inv ast g cor contract source stack visited acc"
proof -
  have "insert x stack \<union> visited = stack \<union> visited" using assms(2) by blast
  then show ?thesis using assms(1) by (simp add: search_inv_def)
qed

lemma search_boundary:
  assumes "search_inv ast g cor contract source (insert (n, s) stack) visited acc"
    and "boundary_at ast g cor contract n s = Some (out, b)"
  shows "search_inv ast g cor contract source stack (insert (n, s) visited) (insert out (fst acc), insert b (snd acc))"
proof -
  have u: "insert (n, s) stack \<union> visited = stack \<union> insert (n, s) visited" by blast
  note inv = assms(1) [unfolded search_inv_def u]
  have "fst acc = {out. \<exists>n s b. (n, s) \<in> visited \<and> boundary_at ast g cor contract n s = Some (out, b)}"
    "snd acc = {b. \<exists>n s out. (n, s) \<in> visited \<and> boundary_at ast g cor contract n s = Some (out, b)}"
    using inv by blast+
  then have "insert out (fst acc) = {out. \<exists>n' s' b. (n', s') \<in> insert (n, s) visited \<and> boundary_at ast g cor contract n' s' = Some (out, b)}"
    "insert b (snd acc) = {b. \<exists>n' s' out. (n', s') \<in> insert (n, s) visited \<and> boundary_at ast g cor contract n' s' = Some (out, b)}"
    using assms(2) by auto
  moreover have "\<forall>(n', s')\<in>insert (n, s) visited. boundary_at ast g cor contract n' s' = None \<longrightarrow>
      set (next_states g n' s') \<subseteq> stack \<union> insert (n, s) visited"
    using inv assms(2) by auto
  ultimately show ?thesis using inv by (auto simp: search_inv_def)
qed

lemma search_expand:
  assumes "search_inv ast g cor contract source (insert (n, s) stack) visited acc"
    and "boundary_at ast g cor contract n s = None"
  shows "search_inv ast g cor contract source (set (next_states g n s) \<union> stack) (insert (n, s) visited) acc"
proof -
  have u: "insert (n, s) stack \<union> visited = stack \<union> insert (n, s) visited" by blast
  note inv = assms(1) [unfolded search_inv_def u]
  have old: "undecided ast g cor contract source n' s'" if "(n', s') \<in> stack \<union> insert (n, s) visited" for n' s'
    using conjunct1 [OF inv] that by blast
  have un: "undecided ast g cor contract source n s" by (rule old) simp
  have new: "undecided ast g cor contract source t f" if tf: "(t, f) \<in> set (next_states g n s)" for t f
  proof -
    obtain e where "e \<in> set (cfg_edges g)" "ce_source_ref e = n" "ce_target_ref e = t" "\<not> (s \<and> ce_edge_kind e = CE_HANDLER)" "\<not> f"
      using tf unfolding next_states_iff by blast
    then show ?thesis using undecided_step [OF un assms(2), of e] by simp
  qed
  show ?thesis
    unfolding search_inv_def
  proof (intro conjI)
    show "\<forall>(n', s')\<in>(set (next_states g n s) \<union> stack) \<union> insert (n, s) visited. undecided ast g cor contract source n' s'"
      using old new by auto
    show "(source, True) \<in> (set (next_states g n s) \<union> stack) \<union> insert (n, s) visited" using inv by blast
    show "\<forall>(n', s')\<in>insert (n, s) visited. boundary_at ast g cor contract n' s' = None \<longrightarrow>
        set (next_states g n' s') \<subseteq> (set (next_states g n s) \<union> stack) \<union> insert (n, s) visited"
      using inv by fastforce
    show "fst acc = {out. \<exists>n' s' b. (n', s') \<in> insert (n, s) visited \<and> boundary_at ast g cor contract n' s' = Some (out, b)}"
      "snd acc = {b. \<exists>n' s' out. (n', s') \<in> insert (n, s) visited \<and> boundary_at ast g cor contract n' s' = Some (out, b)}"
      using inv assms(2) by auto
  qed
qed

lemma search_exact:
  "search_inv ast g cor contract source (set stack) visited acc \<Longrightarrow>
   first_boundaries_from ast g cor contract stack visited acc = (fst ` meets ast g cor contract source, snd ` meets ast g cor contract source)"
proof (induction ast g cor contract stack visited acc rule: first_boundaries_from.induct)
  case (1 ast g cor contract visited acc)
  then show ?case using search_done by simp
next
  case (2 ast g cor contract current is_source stack visited acc)
  show ?case
  proof (cases "(current, is_source) \<in> visited")
    case True
    then show ?thesis using 2(1) search_skip [OF 2(4) [simplified]] by simp
  next
    case False
    show ?thesis
    proof (cases "boundary_at ast g cor contract current is_source")
      case None
      then show ?thesis using False 2(2) [OF False None] search_expand [OF 2(4) [simplified] None] by simp
    next
      case (Some ob)
      obtain out b where ob: "ob = (out, b)" by (cases ob)
      then show ?thesis using False Some 2(3) [OF False Some ob [symmetric]] search_boundary [OF 2(4) [simplified] Some [unfolded ob]] by simp
    qed
  qed
qed

lemma first_boundaries_meets:
  "first_boundaries ast g cor contract source = (fst ` meets ast g cor contract source, snd ` meets ast g cor contract source)"
  unfolding first_boundaries_def
  by (rule search_exact) (auto simp: search_inv_def intro: undecided_source)

text \<open>
  C9: the boundary search is exact and total: the outcomes and references it collects for a data
  change are precisely those of the commits, rollbacks and exits that some path leaving the change
  by an edge other than a handler edge meets first.
\<close>

theorem first_boundaries_exact:
  "first_boundaries ast g cor contract source =
     ({out. \<exists>n s b. undecided ast g cor contract source n s \<and> boundary_at ast g cor contract n s = Some (out, b)},
      {b. \<exists>n s out. undecided ast g cor contract source n s \<and> boundary_at ast g cor contract n s = Some (out, b)})"
  unfolding first_boundaries_meets meets_image ..

section \<open>What the classification promises\<close>

lemma all_outcomes_sorted: "sorted (map outcome_value all_outcomes)" "set all_outcomes = UNIV"
proof -
  show "sorted (map outcome_value all_outcomes)" by code_simp
  have "x \<in> set all_outcomes" for x by (cases x) (simp_all add: all_outcomes_def)
  then show "set all_outcomes = UNIV" by blast
qed

lemma sorted_outcomes_set [simp]: "set (sorted_outcomes os) = os"
  by (simp add: sorted_outcomes_def all_outcomes_sorted(2))

lemma observability_iff:
  "observability_of (classify os) = EO_COMMITTED_EFFECT \<longleftrightarrow>
     os - {TP_NO_TERMINAL_PATH} \<noteq> {} \<and> os - {TP_NO_TERMINAL_PATH} \<subseteq> {TP_EXPLICIT_COMMIT, TP_COMMIT_ON_RETURN}"
  "observability_of (classify os) = EO_ROLLED_BACK_EFFECT \<longleftrightarrow> os - {TP_NO_TERMINAL_PATH} = {TP_EXPLICIT_ROLLBACK}"
  "observability_of (classify os) = EO_CONDITIONALLY_COMMITTED_EFFECT \<longleftrightarrow>
     TP_CALLER_CONTRACT_COMMIT \<in> os \<and> os - {TP_NO_TERMINAL_PATH} \<subseteq> {TP_CALLER_CONTRACT_COMMIT, TP_CALLER_CONTRACT_ROLLBACK}"
  unfolding classify_def Let_def by auto

lemma boundary_terminal: "boundary_at ast g cor contract n s = Some (out, b) \<Longrightarrow> out \<noteq> TP_NO_TERMINAL_PATH"
  by (auto simp: boundary_at_def split: if_splits option.splits NodeKind.splits)

lemma meets_terminal: "TP_NO_TERMINAL_PATH \<notin> fst ` meets ast g cor contract source"
  by (auto simp: meets_def dest: boundary_terminal)

lemma analysis_classification:
  assumes "cfg_by_ast g (ec_source_node_ref e) = Some c"
  shows "ta_classification (effect_analysis sha ast g contract e) =
    (let met = fst ` meets ast g (commit_on_return (pa_commit_on_return ast)) contract c
     in classify (if met = {} then {TP_NO_TERMINAL_PATH} else met))"
  using assms by (simp add: effect_analysis_def effect_boundaries_def first_boundaries_meets Let_def)

lemma by_effect_lookup:
  assumes "distinct (map ec_effect_id effects)" "e \<in> set effects"
  shows "map_of (dict_update [] (map (\<lambda>(e, a). (ec_effect_id e, a)) (map (\<lambda>e. (e, f e)) (dml_effects effects)))) (ec_effect_id e) =
    (if is_data_change e then Some (f e) else None)"
proof -
  let ?ps = "map (\<lambda>e. (ec_effect_id e, f e)) (dml_effects effects)"
  have eq: "map (\<lambda>(e, a). (ec_effect_id e, a)) (map (\<lambda>e. (e, f e)) (dml_effects effects)) = ?ps" by simp
  have inj: "inj_on ec_effect_id (set effects)" using assms(1) by (simp add: distinct_map)
  have "distinct (map fst (rev ?ps))"
    using assms(1) by (simp add: dml_effects_def o_def rev_map [symmetric] distinct_map_filter)
  note d = this
  show ?thesis
  proof (cases "is_data_change e")
    case True
    then have "(ec_effect_id e, f e) \<in> set (rev ?ps)" using assms(2) by (auto simp: dml_effects_def)
    then show ?thesis using True d unfolding eq map_of_dict_update by (simp add: map_of_is_SomeI)
  next
    case False
    then have "ec_effect_id e \<notin> fst ` set (rev ?ps)" using inj assms(2) by (auto simp: dml_effects_def dest: inj_onD)
    then show ?thesis using False unfolding eq map_of_dict_update by (simp add: map_of_eq_None_iff)
  qed
qed

lemma updated_in_result:
  assumes "distinct (map ec_effect_id effects)" "e \<in> set effects"
  shows "(if is_data_change e then e\<lparr>ec_observability := observability_of (ta_classification (effect_analysis sha ast g contract e)),
            ec_transaction_analysis_ref := Some (ta_analysis_id (effect_analysis sha ast g contract e))\<rparr> else e)
     \<in> set (fst (analyze_transactions sha ast g effects contract))"
  using assms(2) by_effect_lookup [OF assms, of "effect_analysis sha ast g contract"]
  by (auto simp: analyze_transactions_def Let_def updated_effect_def image_iff intro!: bexI [of _ e])

text \<open>
  An effect is reported as committed exactly when some path after the data change meets a
  boundary and every first boundary is a commit or the commit on return; as rolled back exactly when
  every first boundary is a rollback; as committed under the caller's contract exactly when every
  first boundary is an exit the contract covers and one of them is the normal exit.
\<close>

theorem committed_effects_commit:
  assumes "distinct (map ec_effect_id effects)" "e \<in> set effects" "is_data_change e"
    and "cfg_by_ast g (ec_source_node_ref e) = Some c"
  shows "\<exists>e'\<in>set (fst (analyze_transactions sha ast g effects contract)). ec_effect_id e' = ec_effect_id e
    \<and> (let met = fst ` meets ast g (commit_on_return (pa_commit_on_return ast)) contract c in
        (ec_observability e' = EO_COMMITTED_EFFECT \<longleftrightarrow> met \<noteq> {} \<and> met \<subseteq> {TP_EXPLICIT_COMMIT, TP_COMMIT_ON_RETURN})
        \<and> (ec_observability e' = EO_ROLLED_BACK_EFFECT \<longleftrightarrow> met = {TP_EXPLICIT_ROLLBACK})
        \<and> (ec_observability e' = EO_CONDITIONALLY_COMMITTED_EFFECT \<longleftrightarrow>
             TP_CALLER_CONTRACT_COMMIT \<in> met \<and> met \<subseteq> {TP_CALLER_CONTRACT_COMMIT, TP_CALLER_CONTRACT_ROLLBACK}))"
proof -
  let ?M = "fst ` meets ast g (commit_on_return (pa_commit_on_return ast)) contract c"
  have "?M - {TP_NO_TERMINAL_PATH} = ?M" using meets_terminal by blast
  then have *: "(if ?M = {} then {TP_NO_TERMINAL_PATH} else ?M) - {TP_NO_TERMINAL_PATH} = ?M" by simp
  have **: "TP_CALLER_CONTRACT_COMMIT \<in> (if ?M = {} then {TP_NO_TERMINAL_PATH} else ?M) \<longleftrightarrow> TP_CALLER_CONTRACT_COMMIT \<in> ?M" by auto
  let ?e = "e\<lparr>ec_observability := observability_of (ta_classification (effect_analysis sha ast g contract e)),
      ec_transaction_analysis_ref := Some (ta_analysis_id (effect_analysis sha ast g contract e))\<rparr>"
  have mem: "?e \<in> set (fst (analyze_transactions sha ast g effects contract))"
    using updated_in_result [OF assms(1,2), of sha ast g contract] assms(3) by simp
  have "ec_observability ?e = observability_of (classify (if ?M = {} then {TP_NO_TERMINAL_PATH} else ?M))"
    using analysis_classification [OF assms(4), of sha ast contract] by (simp add: Let_def)
  note obs = observability_iff [of "if ?M = {} then {TP_NO_TERMINAL_PATH} else ?M", unfolded * **, folded this]
  show ?thesis unfolding Let_def using mem obs by (intro bexI [OF _ mem]) simp
qed

lemma updated_bare:
  assumes "distinct (map ec_effect_id effects)" "e \<in> set effects"
  shows "(updated_effect (dict_update [] (map (\<lambda>(e, a). (ec_effect_id e, a)) (map (\<lambda>e. (e, f e)) (dml_effects effects)))) e)
      \<lparr>ec_observability := ec_observability e, ec_transaction_analysis_ref := ec_transaction_analysis_ref e\<rparr> = e"
  using by_effect_lookup [OF assms, of f] by (auto simp: updated_effect_def)

text \<open>
  The analyzer only annotates. It returns one effect for every effect it is given, ordered by id;
  an effect that is not a data change comes back unchanged, a data change keeps everything but its
  observability and its analysis reference, and there is exactly one analysis per data change.
\<close>

theorem analyze_only_annotates:
  assumes "distinct (map ec_effect_id effects)"
  shows "\<exists>f. mset (fst (analyze_transactions sha ast g effects contract)) = mset (map f effects)
    \<and> sorted (map ec_effect_id (fst (analyze_transactions sha ast g effects contract)))
    \<and> list_all (\<lambda>e. if is_data_change e
         then (f e)\<lparr>ec_observability := ec_observability e, ec_transaction_analysis_ref := ec_transaction_analysis_ref e\<rparr> = e
         else f e = e) effects
    \<and> mset (map ta_effect_ref (fst (snd (snd (analyze_transactions sha ast g effects contract)))))
        = mset (map ec_effect_id (filter is_data_change effects))"
proof (intro exI conjI)
  let ?by = "dict_update [] (map (\<lambda>(e, a). (ec_effect_id e, a)) (map (\<lambda>e. (e, effect_analysis sha ast g contract e)) (dml_effects effects)))"
  show "mset (fst (analyze_transactions sha ast g effects contract)) = mset (map (updated_effect ?by) effects)"
    by (simp add: analyze_transactions_def Let_def)
  show "sorted (map ec_effect_id (fst (analyze_transactions sha ast g effects contract)))"
    by (simp add: analyze_transactions_def Let_def)
  show "list_all (\<lambda>e. if is_data_change e
         then (updated_effect ?by e)\<lparr>ec_observability := ec_observability e, ec_transaction_analysis_ref := ec_transaction_analysis_ref e\<rparr> = e
         else updated_effect ?by e = e) effects"
    unfolding list_all_iff
  proof
    fix e assume e: "e \<in> set effects"
    show "if is_data_change e
         then (updated_effect ?by e)\<lparr>ec_observability := ec_observability e, ec_transaction_analysis_ref := ec_transaction_analysis_ref e\<rparr> = e
         else updated_effect ?by e = e"
      using updated_bare [OF assms e] by_effect_lookup [OF assms e, of "effect_analysis sha ast g contract"]
      by (simp add: updated_effect_def)
  qed
  let ?as = "map snd (map (\<lambda>e. (e, effect_analysis sha ast g contract e)) (dml_effects effects))"
  have "map ta_effect_ref ?as = map ec_effect_id (filter is_data_change effects)"
    by (simp add: effect_analysis_def Let_def case_prod_unfold dml_effects_def)
  moreover have "mset (map ta_effect_ref (sort_key ta_analysis_id ?as)) = mset (map ta_effect_ref ?as)"
    by (simp only: mset_map mset_sort)
  ultimately show "mset (map ta_effect_ref (fst (snd (snd (analyze_transactions sha ast g effects contract)))))
      = mset (map ec_effect_id (filter is_data_change effects))"
    by (simp only: analyze_transactions_def Let_def fst_conv snd_conv)
qed

text \<open>
  A data change after which no path reaches a boundary is not classified as unresolved: the empty
  set of outcomes passes the test for exits, and the finding says that the change reaches the exit
  of the procedure.
\<close>

lemma no_terminal_path_reads_as_exit:
  "classify {TP_NO_TERMINAL_PATH} = TC_CALLER_CONTROLLED_OR_EXCEPTIONAL"
  by (simp add: classify_def)

section \<open>A small procedure\<close>

text \<open>\<open>UPDATE\<close> at \<open>u\<close>, then \<open>COMMIT\<close> at \<open>c\<close>; the handler edge of the update leads out by error.\<close>

definition commit_ast :: ProcedureAst where
  "commit_ast = \<lparr>pa_node_id = ''p'', pa_schema_name = None, pa_procedure_name = ''P'', pa_commit_on_return = None,
     pa_body_node_refs = [''u'', ''c''], pa_nodes = [bare_node ''u'' NK_DML, bare_node ''c'' NK_COMMIT]\<rparr>"

definition tx_edge :: "string \<Rightarrow> string \<Rightarrow> string \<Rightarrow> CfgEdgeKind \<Rightarrow> CfgEdge" where
  "tx_edge i s t k = \<lparr>ce_edge_id = i, ce_source_ref = s, ce_target_ref = t, ce_edge_kind = k,
     ce_condition_text = None, ce_branch_index = None, ce_handler_region_ref = None, ce_continuation_target_ref = None\<rparr>"

definition commit_graph :: ControlFlowGraph where
  "commit_graph = \<lparr>cfg_procedure_ast_ref = ''p'', cfg_entry_ref = ''in'', cfg_normal_exit_ref = ''out'',
     cfg_exceptional_exit_ref = ''bad'',
     cfg_nodes = map (\<lambda>(i, r). \<lparr>cn_cfg_node_id = i, cn_node_kind = CN_AST, cn_ast_node_ref = r, cn_label = i, cn_source_range = None\<rparr>)
       [(''in'', None), (''out'', None), (''bad'', None), (''cfg:u'', Some ''u''), (''cfg:c'', Some ''c'')],
     cfg_edges = [tx_edge ''1'' ''in'' ''cfg:u'' CE_ENTRY, tx_edge ''2'' ''cfg:u'' ''cfg:c'' CE_SEQUENTIAL,
       tx_edge ''3'' ''cfg:c'' ''out'' CE_SEQUENTIAL, tx_edge ''4'' ''cfg:u'' ''bad'' CE_HANDLER],
     cfg_handler_bindings = [], cfg_excluded_declaration_refs = []\<rparr>"

definition update_effect :: EffectCandidate where
  "update_effect = \<lparr>ec_effect_id = ''e'', ec_effect_kind = EK_DML, ec_source_node_ref = ''u'', ec_target = None,
     ec_value_expression = None, ec_observability = EO_INTERMEDIATE_EFFECT, ec_reaches_exit_refs = [], ec_evidence_refs = [],
     ec_transaction_analysis_ref = None\<rparr>"

lemma commit_graph_boundaries: "first_boundaries commit_ast commit_graph ''UNKNOWN'' None ''cfg:u'' = ({TP_EXPLICIT_COMMIT}, {''c''})"
  by code_simp

theorem committed_effects_commit_witness:
  "\<exists>e'\<in>set (fst (analyze_transactions (\<lambda>s. s) commit_ast commit_graph [update_effect] None)).
     ec_effect_id e' = ''e'' \<and> ec_observability e' = EO_COMMITTED_EFFECT"
proof -
  have c: "cfg_by_ast commit_graph (ec_source_node_ref update_effect) = Some ''cfg:u''" "is_data_change update_effect"
    "commit_on_return (pa_commit_on_return commit_ast) = ''UNKNOWN''" by code_simp+
  have "fst ` meets commit_ast commit_graph ''UNKNOWN'' None ''cfg:u'' = {TP_EXPLICIT_COMMIT}"
    using commit_graph_boundaries by (simp add: first_boundaries_meets)
  then show ?thesis
    using committed_effects_commit [of "[update_effect]" update_effect, OF _ _ c(2,1), of "\<lambda>s. s" commit_ast None]
    by (simp add: c(3)) (auto simp: update_effect_def)
qed

theorem analyze_only_annotates_witness:
  "mset (map ta_effect_ref (fst (snd (snd (analyze_transactions (\<lambda>s. s) commit_ast commit_graph [update_effect] None))))) = {#''e''#}"
  using analyze_only_annotates [of "[update_effect]" "\<lambda>s. s" commit_ast commit_graph None]
  by (auto simp: update_effect_def is_data_change_def)

end
