(* ===== verification/Runtime.thy ===== *)
theory Runtime
  imports Transaction
begin

text \<open>
  Runtime verification: the safety assessment of a procedure (\<open>runtime/safety.py\<close>), the comparison
  of an execution record with a verification plan (\<open>runtime/verify.py\<close>) and the reconciliation of
  a batch of records (\<open>runtime/reconcile.py\<close>), on the models of \<open>runtime/models.py\<close>. The canonical
  digest of a model is a parameter; ids and digests of the results, which are digests of their other
  fields, are left out unless another operation reads them. Fields the operations only copy into
  such ids are left out too.
\<close>

section \<open>Models\<close>

datatype LiveVerificationEligibility = LE_DB2_SANDBOX_ALLOWED | LE_MANUAL_APPROVAL_REQUIRED | LE_PROHIBITED

datatype TransactionOwnership =
  OW_EXECUTOR_OWNED | OW_CALLER_CONTROLLED | OW_PROCEDURE_CONTROLLED | OW_MIXED | OW_UNKNOWN

datatype RollbackContainment =
  RC_ROLLBACK_SAFE | RC_CALLER_ROLLBACK_POSSIBLE | RC_NOT_GUARANTEED | RC_UNKNOWN

datatype RuntimeValueKind =
  RV_NULL | RV_STRING | RV_INTEGER | RV_DECIMAL | RV_BOOLEAN | RV_DATE | RV_TIMESTAMP | RV_RAW

record RuntimeValue =
  rv_value_kind :: RuntimeValueKind
  rv_canonical_value :: "string option"

record RuntimeSafetyAssessment =
  sa_procedure_identity_ref :: string
  sa_internal_commit_present :: bool
  sa_explicit_rollback_present :: bool
  sa_commit_on_return :: string
  sa_unresolved_call_boundaries :: "string list"
  sa_unresolved_dynamic_boundaries :: "string list"
  sa_external_side_effects_status :: string
  sa_transaction_ownership :: TransactionOwnership
  sa_rollback_containment :: RollbackContainment
  sa_live_eligibility :: LiveVerificationEligibility
  sa_reason_codes :: "string list"
  sa_evidence_refs :: "string list"

datatype EffectModality = EM_MUST | EM_MUST_IF_CALLER_CONTRACT_HOLDS | EM_MAY | EM_MUST_NOT | EM_UNKNOWN

datatype RuntimeObservationKind =
  RO_OUT_PARAMETER | RO_DML_EFFECT | RO_CALL_EFFECT | RO_SQLSTATE | RO_RESULT_SET | RO_EFFECT_REFERENCE

record RuntimeExpectedObservation =
  xo_expectation_id :: string
  xo_scenario_effect_ref :: string
  xo_modality :: EffectModality
  xo_observation_kind :: RuntimeObservationKind
  xo_target :: "string option"
  xo_expected_value :: "RuntimeValue option"

datatype RuntimePlanStatus = PS_READY_SCRIPTED | PS_READY_DB2_SANDBOX | PS_MANUAL_APPROVAL_REQUIRED | PS_BLOCKED

text \<open>Of an input requirement the executors read the parameter name only.\<close>

record RuntimeVerificationPlan =
  vp_plan_id :: string
  vp_scenario_spec_ref :: string
  vp_input_requirements :: "string list"
  vp_expected_observations :: "RuntimeExpectedObservation list"
  vp_plan_status :: RuntimePlanStatus
  vp_content_digest :: string

record RuntimeObservedParameter =
  op_parameter_name :: string
  op_value :: RuntimeValue

record RuntimeRowChange =
  rw_relation_name :: string
  rw_effect_ref :: "string option"

datatype TransactionEventKind = TE_BEGIN | TE_COMMIT | TE_ROLLBACK | TE_CALLER_ROLLBACK | TE_UNKNOWN

record RuntimeTransactionEvent =
  te_event_kind :: TransactionEventKind
  te_sequence :: int

datatype RuntimeExecutionMode = XM_SCRIPTED_FIXTURE | XM_DB2_SANDBOX

datatype RuntimeExecutionStatus = ES_SUCCEEDED | ES_FAILED | ES_BLOCKED

record RuntimeExecutionRecord =
  xr_execution_id :: string
  xr_plan_ref :: string
  xr_plan_digest :: string
  xr_execution_mode :: RuntimeExecutionMode
  xr_execution_status :: RuntimeExecutionStatus
  xr_output_parameters :: "RuntimeObservedParameter list"
  xr_sqlstate :: "string option"
  xr_observed_effect_refs :: "string list"
  xr_row_changes :: "RuntimeRowChange list"
  xr_called_routines :: "string list"
  xr_transaction_events :: "RuntimeTransactionEvent list"
  xr_content_digest :: string

datatype RuntimeVerificationStatus = VS_MATCHED | VS_MISMATCH | VS_INCONCLUSIVE | VS_BLOCKED | VS_EXECUTION_FAILED

fun verification_value :: "RuntimeVerificationStatus \<Rightarrow> string" where
  "verification_value VS_MATCHED = ''MATCHED''"
| "verification_value VS_MISMATCH = ''MISMATCH''"
| "verification_value VS_INCONCLUSIVE = ''INCONCLUSIVE''"
| "verification_value VS_BLOCKED = ''BLOCKED''"
| "verification_value VS_EXECUTION_FAILED = ''EXECUTION_FAILED''"

text \<open>The finding codes the verifier uses.\<close>

datatype VerificationFindingCode =
    FC_RUNTIME_PLAN_DIGEST_INVALID | FC_EXECUTION_RECORD_DIGEST_INVALID | FC_PLAN_SCRIPT_MISMATCH
  | FC_MUST_EFFECT_NOT_OBSERVED | FC_MUST_NOT_EFFECT_OBSERVED | FC_OUT_PARAMETER_VALUE_MISMATCH
  | FC_STATIC_RUNTIME_EVIDENCE_CONFLICT | FC_EXECUTION_FAILED | FC_RUNTIME_RESULT_INCONCLUSIVE

fun finding_code_value :: "VerificationFindingCode \<Rightarrow> string" where
  "finding_code_value FC_RUNTIME_PLAN_DIGEST_INVALID = ''RUNTIME_PLAN_DIGEST_INVALID''"
| "finding_code_value FC_EXECUTION_RECORD_DIGEST_INVALID = ''EXECUTION_RECORD_DIGEST_INVALID''"
| "finding_code_value FC_PLAN_SCRIPT_MISMATCH = ''PLAN_SCRIPT_MISMATCH''"
| "finding_code_value FC_MUST_EFFECT_NOT_OBSERVED = ''MUST_EFFECT_NOT_OBSERVED''"
| "finding_code_value FC_MUST_NOT_EFFECT_OBSERVED = ''MUST_NOT_EFFECT_OBSERVED''"
| "finding_code_value FC_OUT_PARAMETER_VALUE_MISMATCH = ''OUT_PARAMETER_VALUE_MISMATCH''"
| "finding_code_value FC_STATIC_RUNTIME_EVIDENCE_CONFLICT = ''STATIC_RUNTIME_EVIDENCE_CONFLICT''"
| "finding_code_value FC_EXECUTION_FAILED = ''EXECUTION_FAILED''"
| "finding_code_value FC_RUNTIME_RESULT_INCONCLUSIVE = ''RUNTIME_RESULT_INCONCLUSIVE''"

fun finding_message :: "VerificationFindingCode \<Rightarrow> string" where
  "finding_message FC_RUNTIME_PLAN_DIGEST_INVALID = ''Runtime verification plan digest is invalid.''"
| "finding_message FC_EXECUTION_RECORD_DIGEST_INVALID = ''Runtime execution record digest is invalid.''"
| "finding_message FC_PLAN_SCRIPT_MISMATCH = ''Runtime execution evidence does not match the verification plan.''"
| "finding_message FC_MUST_EFFECT_NOT_OBSERVED = ''A statically required effect was not observed.''"
| "finding_message FC_MUST_NOT_EFFECT_OBSERVED = ''A statically prohibited effect was observed.''"
| "finding_message FC_OUT_PARAMETER_VALUE_MISMATCH = ''An observed OUT parameter value differs from the statically expected literal value.''"
| "finding_message FC_STATIC_RUNTIME_EVIDENCE_CONFLICT = ''Runtime evidence conflicts with static behavior evidence.''"
| "finding_message FC_EXECUTION_FAILED = ''Runtime execution failed before verification completed.''"
| "finding_message FC_RUNTIME_RESULT_INCONCLUSIVE = ''Runtime evidence is insufficient for a definitive match decision.''"

record RuntimeVerificationFinding =
  vf_finding_id :: string
  vf_code :: VerificationFindingCode
  vf_message :: string
  vf_evidence_refs :: "string list"

record RuntimeExpectationResult =
  xe_expectation_ref :: string
  xe_scenario_effect_ref :: string
  xe_modality :: EffectModality
  xe_matched :: bool
  xe_observed_refs :: "string list"
  xe_finding_refs :: "string list"

record RuntimeVerificationResult =
  vr_scenario_spec_ref :: string
  vr_plan_ref :: string
  vr_execution_record_ref :: string
  vr_verification_status :: RuntimeVerificationStatus
  vr_expectation_results :: "RuntimeExpectationResult list"
  vr_findings :: "RuntimeVerificationFinding list"
  vr_static_runtime_conflict :: bool
  vr_input_digest_set :: "string list"

record RuntimeVerificationPlanBatch =
  pb_plans :: "RuntimeVerificationPlan list"
  pb_content_digest :: string

record RuntimeFalsificationCandidate =
  fc_candidate_id :: string
  fc_verification_result_digest :: string
  fc_scenario_spec_ref :: string
  fc_finding_refs :: "string list"

record RuntimeReconciliationReport =
  rr_plan_batch_digest :: string
  rr_counts_by_status :: "(string \<times> nat) list"
  rr_unmatched_execution_refs :: "string list"
  rr_falsification_candidates :: "RuntimeFalsificationCandidate list"
  rr_automatic_promotion :: bool

datatype runtime_error = RuntimeValueError string | RuntimeReconciliationError string

section \<open>Safety\<close>

datatype DynamicSqlResolutionStatus =
    DR_STATICALLY_RECONSTRUCTED | DR_ENUMERABLE_VARIANTS | DR_PARTIALLY_RECONSTRUCTED | DR_RUNTIME_CAPTURE_REQUIRED
  | DR_UNRESOLVED_DYNAMIC_SQL | DR_DYNAMIC_VARIANT_BUDGET_EXCEEDED

record DynamicSqlSite =
  dy_site_id :: string
  dy_resolution_status :: DynamicSqlResolutionStatus

text \<open>What the assessment reads of the parse result and the semantic result.\<close>

record safety_input =
  si_ast :: "ProcedureAst option"
  si_outcome :: ParseOutcome
  si_effects :: "EffectCandidate list"
  si_dynamic_sql_sites :: "DynamicSqlSite list"

definition refs_of_kind :: "EffectKind \<Rightarrow> EffectCandidate list \<Rightarrow> string list" where
  "refs_of_kind k effects = sort (map ec_source_node_ref (filter (\<lambda>e. ec_effect_kind e = k) effects))"

definition unresolved_calls :: "EffectCandidate list \<Rightarrow> string list" where
  "unresolved_calls effects =
     sort (map ec_effect_id (filter (\<lambda>e. ec_effect_kind e = EK_CALL \<and> ec_observability e = EO_UNRESOLVED_EFFECT_BOUNDARY) effects))"

definition unresolved_dynamic :: "DynamicSqlSite list \<Rightarrow> string list" where
  "unresolved_dynamic sites =
     sort (map dy_site_id (filter (\<lambda>s. dy_resolution_status s \<in>
       {DR_PARTIALLY_RECONSTRUCTED, DR_RUNTIME_CAPTURE_REQUIRED, DR_UNRESOLVED_DYNAMIC_SQL, DR_DYNAMIC_VARIANT_BUDGET_EXCEEDED}) sites))"

definition eligibility :: "bool \<Rightarrow> bool \<Rightarrow> bool \<Rightarrow> LiveVerificationEligibility" where
  "eligibility commits complete unresolved =
     (if commits then LE_PROHIBITED
      else if \<not> complete then LE_PROHIBITED
      else if unresolved then LE_MANUAL_APPROVAL_REQUIRED
      else LE_DB2_SANDBOX_ALLOWED)"

definition ownership :: "bool \<Rightarrow> bool \<Rightarrow> string \<Rightarrow> bool \<Rightarrow> TransactionOwnership" where
  "ownership commit_present rollback_present cor unresolved =
     (if commit_present \<and> rollback_present then OW_MIXED
      else if commit_present \<or> cor = ''YES'' then OW_PROCEDURE_CONTROLLED
      else if cor = ''NO'' \<and> \<not> unresolved then OW_EXECUTOR_OWNED
      else if cor = ''NO'' then OW_CALLER_CONTROLLED
      else OW_UNKNOWN)"

definition containment :: "bool \<Rightarrow> bool \<Rightarrow> TransactionOwnership \<Rightarrow> RollbackContainment" where
  "containment commits unresolved own =
     (if commits then RC_NOT_GUARANTEED
      else if unresolved then RC_UNKNOWN
      else if own = OW_EXECUTOR_OWNED then RC_ROLLBACK_SAFE
      else RC_CALLER_ROLLBACK_POSSIBLE)"

definition reason_codes :: "bool \<Rightarrow> bool \<Rightarrow> string \<Rightarrow> bool \<Rightarrow> bool \<Rightarrow> string list" where
  "reason_codes complete commit_present cor calls dynamic =
     sort ((if complete then [] else [''PARSER_RESULT_INCOMPLETE'']) @
       (if commit_present then [''INTERNAL_COMMIT_PRESENT''] else []) @
       (if cor = ''YES'' then [''COMMIT_ON_RETURN_PRESENT''] else []) @
       (if calls then [''UNRESOLVED_CALL_BOUNDARY''] else []) @
       (if dynamic then [''UNRESOLVED_DYNAMIC_SQL_BOUNDARY''] else []))"

definition assess :: "safety_input \<Rightarrow> string \<Rightarrow> runtime_error + RuntimeSafetyAssessment" where
  "assess inp procedure_identity_ref =
     (case si_ast inp of
        None \<Rightarrow> Inl (RuntimeValueError ''Runtime safety assessment requires a procedure AST.'')
      | Some ast \<Rightarrow>
          (let commit_refs = refs_of_kind EK_COMMIT (si_effects inp);
               rollback_refs = refs_of_kind EK_ROLLBACK (si_effects inp);
               calls = unresolved_calls (si_effects inp);
               dynamic = unresolved_dynamic (si_dynamic_sql_sites inp);
               cor = commit_on_return (pa_commit_on_return ast);
               complete = (si_outcome inp = PARSES_COMPLETE);
               unresolved = (calls \<noteq> [] \<or> dynamic \<noteq> []);
               commits = (commit_refs \<noteq> [] \<or> cor = ''YES'');
               own = ownership (commit_refs \<noteq> []) (rollback_refs \<noteq> []) cor unresolved
           in Inr \<lparr>sa_procedure_identity_ref = procedure_identity_ref, sa_internal_commit_present = (commit_refs \<noteq> []),
                sa_explicit_rollback_present = (rollback_refs \<noteq> []), sa_commit_on_return = cor,
                sa_unresolved_call_boundaries = calls, sa_unresolved_dynamic_boundaries = dynamic,
                sa_external_side_effects_status = (if unresolved then ''POSSIBLE'' else ''ABSENT''),
                sa_transaction_ownership = own, sa_rollback_containment = containment commits unresolved own,
                sa_live_eligibility = eligibility commits complete unresolved,
                sa_reason_codes = reason_codes complete (commit_refs \<noteq> []) cor (calls \<noteq> []) (dynamic \<noteq> []),
                sa_evidence_refs = sorted_list_of_set (set (commit_refs @ rollback_refs @ calls @ dynamic))\<rparr>))"

section \<open>Comparing an execution with its plan\<close>

definition verification_finding :: "(string \<Rightarrow> string) \<Rightarrow> VerificationFindingCode \<Rightarrow> string \<Rightarrow> RuntimeVerificationFinding" where
  "verification_finding sha code evidence_ref =
     \<lparr>vf_finding_id = ''runtime-finding-'' @ take 20 (sha (finding_code_value code @ ''|'' @ evidence_ref)), vf_code = code,
      vf_message = finding_message code, vf_evidence_refs = [evidence_ref]\<rparr>"

text \<open>\<open>_match\<close>. The code declares \<open>bool | None\<close> and never returns \<open>None\<close>.\<close>

definition match_expected :: "RuntimeExpectedObservation \<Rightarrow> RuntimeExecutionRecord \<Rightarrow> bool \<times> string list" where
  "match_expected expected execution =
     (case xo_observation_kind expected of
        RO_OUT_PARAMETER \<Rightarrow>
          (let hits = filter (\<lambda>v. py_upper (op_parameter_name v) = py_upper (str_or (xo_target expected) [])) (xr_output_parameters execution)
           in if hits = [] then (False, [])
              else (case xo_expected_value expected of
                      None \<Rightarrow> (True, map op_parameter_name hits)
                    | Some v \<Rightarrow> (list_ex (\<lambda>h. op_value h = v) hits, map op_parameter_name hits)))
      | RO_SQLSTATE \<Rightarrow> (case xr_sqlstate execution of None \<Rightarrow> (False, []) | Some s \<Rightarrow> (True, [s]))
      | RO_DML_EFFECT \<Rightarrow>
          (let refs = set (xr_observed_effect_refs execution)
                 \<union> set (filter (\<lambda>r. r \<noteq> []) (List.map_filter rw_effect_ref (xr_row_changes execution)))
           in (xo_scenario_effect_ref expected \<in> refs, sorted_list_of_set refs))
      | RO_CALL_EFFECT \<Rightarrow>
          (let target = str_or (xo_target expected) [];
               refs = set (xr_observed_effect_refs execution)
                 \<union> (if target = [] then {} else set (filter (\<lambda>v. py_upper v = py_upper target) (xr_called_routines execution)))
           in (xo_scenario_effect_ref expected \<in> refs \<or> target \<noteq> [] \<and> target \<in> refs, sorted_list_of_set refs))
      | _ \<Rightarrow> (let refs = set (xr_observed_effect_refs execution) in (xo_scenario_effect_ref expected \<in> refs, sorted_list_of_set refs)))"

definition expectation_finding :: "(string \<Rightarrow> string) \<Rightarrow> RuntimeExpectedObservation \<Rightarrow> bool \<Rightarrow> string list \<Rightarrow> RuntimeVerificationFinding option" where
  "expectation_finding sha expected matched observed =
     (if xo_modality expected = EM_MUST \<and> \<not> matched then
        Some (verification_finding sha
          (if xo_observation_kind expected = RO_OUT_PARAMETER \<and> observed \<noteq> [] then FC_OUT_PARAMETER_VALUE_MISMATCH
           else FC_MUST_EFFECT_NOT_OBSERVED) (xo_expectation_id expected))
      else if xo_modality expected = EM_MUST_NOT \<and> matched then
        Some (verification_finding sha FC_MUST_NOT_EFFECT_OBSERVED (xo_expectation_id expected))
      else None)"

text \<open>The loop of \<open>verify\<close>: results and findings so far, and the two flags.\<close>

record verify_state =
  vs_results :: "RuntimeExpectationResult list"
  vs_findings :: "RuntimeVerificationFinding list"
  vs_conflict :: bool
  vs_inconclusive :: bool

definition verify_step :: "(string \<Rightarrow> string) \<Rightarrow> RuntimeExecutionRecord \<Rightarrow> verify_state \<Rightarrow> RuntimeExpectedObservation \<Rightarrow> verify_state" where
  "verify_step sha execution st expected =
     (let (matched, observed) = match_expected expected execution;
          finding = expectation_finding sha expected matched observed;
          new = (case finding of None \<Rightarrow> [] | Some f \<Rightarrow> [f])
      in \<lparr>vs_results = vs_results st @ [\<lparr>xe_expectation_ref = xo_expectation_id expected,
            xe_scenario_effect_ref = xo_scenario_effect_ref expected, xe_modality = xo_modality expected,
            xe_matched = matched, xe_observed_refs = observed, xe_finding_refs = map vf_finding_id new\<rparr>],
          vs_findings = vs_findings st @ new, vs_conflict = (vs_conflict st \<or> finding \<noteq> None),
          vs_inconclusive = (vs_inconclusive st \<or> finding = None \<and> xo_modality expected = EM_UNKNOWN)\<rparr>)"

definition verify_expectations :: "(string \<Rightarrow> string) \<Rightarrow> RuntimeExecutionRecord \<Rightarrow> RuntimeExpectedObservation list \<Rightarrow> verify_state" where
  "verify_expectations sha execution es =
     foldl (verify_step sha execution) \<lparr>vs_results = [], vs_findings = [], vs_conflict = False, vs_inconclusive = False\<rparr> es"

definition verification_result ::
  "RuntimeVerificationPlan \<Rightarrow> RuntimeExecutionRecord \<Rightarrow> RuntimeVerificationStatus \<Rightarrow> RuntimeExpectationResult list \<Rightarrow>
   RuntimeVerificationFinding list \<Rightarrow> bool \<Rightarrow> RuntimeVerificationResult" where
  "verification_result plan execution status results findings conflict =
     \<lparr>vr_scenario_spec_ref = vp_scenario_spec_ref plan, vr_plan_ref = vp_plan_id plan,
      vr_execution_record_ref = xr_execution_id execution, vr_verification_status = status, vr_expectation_results = results,
      vr_findings = findings, vr_static_runtime_conflict = conflict,
      vr_input_digest_set = [vp_content_digest plan, xr_content_digest execution]\<rparr>"

text \<open>The digests of plans and execution records, over everything but the stored digest, are parameters.\<close>

definition integrity_findings ::
  "(string \<Rightarrow> string) \<Rightarrow> (RuntimeVerificationPlan \<Rightarrow> string) \<Rightarrow> (RuntimeExecutionRecord \<Rightarrow> string) \<Rightarrow>
   RuntimeVerificationPlan \<Rightarrow> RuntimeExecutionRecord \<Rightarrow> RuntimeVerificationFinding list" where
  "integrity_findings sha plan_digest exec_digest plan execution =
     (if plan_digest plan \<noteq> vp_content_digest plan then [verification_finding sha FC_RUNTIME_PLAN_DIGEST_INVALID (vp_plan_id plan)] else []) @
     (if exec_digest execution \<noteq> xr_content_digest execution
      then [verification_finding sha FC_EXECUTION_RECORD_DIGEST_INVALID (xr_execution_id execution)] else []) @
     (if xr_plan_ref execution \<noteq> vp_plan_id plan \<or> xr_plan_digest execution \<noteq> vp_content_digest plan
      then [verification_finding sha FC_PLAN_SCRIPT_MISMATCH (xr_execution_id execution)] else [])"

definition verify ::
  "(string \<Rightarrow> string) \<Rightarrow> (RuntimeVerificationPlan \<Rightarrow> string) \<Rightarrow> (RuntimeExecutionRecord \<Rightarrow> string) \<Rightarrow>
   RuntimeVerificationPlan \<Rightarrow> RuntimeExecutionRecord \<Rightarrow> RuntimeVerificationResult" where
  "verify sha plan_digest exec_digest plan execution =
     (let findings = integrity_findings sha plan_digest exec_digest plan execution in
      if findings \<noteq> [] then verification_result plan execution VS_BLOCKED [] findings False
      else if xr_execution_status execution = ES_FAILED then
        verification_result plan execution VS_EXECUTION_FAILED [] [verification_finding sha FC_EXECUTION_FAILED (xr_execution_id execution)] False
      else if xr_execution_status execution = ES_BLOCKED then verification_result plan execution VS_BLOCKED [] [] False
      else
        (let st = verify_expectations sha execution (vp_expected_observations plan) in
         if vs_conflict st then verification_result plan execution VS_MISMATCH (vs_results st)
             (vs_findings st @ [verification_finding sha FC_STATIC_RUNTIME_EVIDENCE_CONFLICT (vp_plan_id plan)]) True
         else if vs_inconclusive st then verification_result plan execution VS_INCONCLUSIVE (vs_results st)
             (vs_findings st @ [verification_finding sha FC_RUNTIME_RESULT_INCONCLUSIVE (vp_plan_id plan)]) False
         else verification_result plan execution VS_MATCHED (vs_results st) (vs_findings st) False))"

definition verify_batch ::
  "(string \<Rightarrow> string) \<Rightarrow> (RuntimeVerificationPlan \<Rightarrow> string) \<Rightarrow> (RuntimeExecutionRecord \<Rightarrow> string) \<Rightarrow>
   (RuntimeVerificationPlan \<times> RuntimeExecutionRecord) list \<Rightarrow> RuntimeVerificationResult list" where
  "verify_batch sha plan_digest exec_digest pairs = map (\<lambda>(p, x). verify sha plan_digest exec_digest p x) pairs"

section \<open>Reconciliation\<close>

definition plans_by_id :: "RuntimeVerificationPlanBatch \<Rightarrow> string \<Rightarrow> RuntimeVerificationPlan option" where
  "plans_by_id batch = map_of (dict_update [] (map (\<lambda>p. (vp_plan_id p, p)) (pb_plans batch)))"

definition matched_pairs :: "RuntimeVerificationPlanBatch \<Rightarrow> RuntimeExecutionRecord list \<Rightarrow> (RuntimeVerificationPlan \<times> RuntimeExecutionRecord) list" where
  "matched_pairs batch records = List.map_filter (\<lambda>x. map_option (\<lambda>p. (p, x)) (plans_by_id batch (xr_plan_ref x))) records"

definition unmatched_refs :: "RuntimeVerificationPlanBatch \<Rightarrow> RuntimeExecutionRecord list \<Rightarrow> string list" where
  "unmatched_refs batch records = map xr_execution_id (filter (\<lambda>x. plans_by_id batch (xr_plan_ref x) = None) records)"

definition all_statuses :: "RuntimeVerificationStatus list" where
  "all_statuses = [VS_BLOCKED, VS_EXECUTION_FAILED, VS_INCONCLUSIVE, VS_MATCHED, VS_MISMATCH]"

text \<open>\<open>dict(sorted(Counter(...).items()))\<close>: \<open>all_statuses\<close> lists the statuses by their values.\<close>

definition status_counts :: "RuntimeVerificationResult list \<Rightarrow> (string \<times> nat) list" where
  "status_counts results =
     List.map_filter (\<lambda>s. let n = length (filter (\<lambda>r. vr_verification_status r = s) results)
       in if n = 0 then None else Some (verification_value s, n)) all_statuses"

definition falsification_candidate :: "(string \<Rightarrow> string) \<Rightarrow> (RuntimeVerificationResult \<Rightarrow> string) \<Rightarrow> RuntimeVerificationResult \<Rightarrow> RuntimeFalsificationCandidate" where
  "falsification_candidate sha result_digest result =
     \<lparr>fc_candidate_id = ''falsification-candidate-'' @ take 20 (sha (result_digest result)),
      fc_verification_result_digest = result_digest result, fc_scenario_spec_ref = vr_scenario_spec_ref result,
      fc_finding_refs = map vf_finding_id (vr_findings result)\<rparr>"

definition reconcile ::
  "(string \<Rightarrow> string) \<Rightarrow> (RuntimeVerificationPlanBatch \<Rightarrow> string) \<Rightarrow> (RuntimeVerificationPlan \<Rightarrow> string) \<Rightarrow> (RuntimeExecutionRecord \<Rightarrow> string) \<Rightarrow>
   (RuntimeVerificationResult \<Rightarrow> string) \<Rightarrow> RuntimeVerificationPlanBatch \<Rightarrow> RuntimeExecutionRecord list \<Rightarrow>
   runtime_error + (RuntimeVerificationResult list \<times> RuntimeReconciliationReport)" where
  "reconcile sha batch_digest plan_digest exec_digest result_digest batch records =
     (if batch_digest batch \<noteq> pb_content_digest batch
      then Inl (RuntimeReconciliationError ''Runtime plan batch digest is invalid.'')
      else
        (let results = verify_batch sha plan_digest exec_digest (matched_pairs batch records)
         in Inr (results,
              \<lparr>rr_plan_batch_digest = pb_content_digest batch, rr_counts_by_status = status_counts results,
               rr_unmatched_execution_refs = sort (unmatched_refs batch records),
               rr_falsification_candidates = map (falsification_candidate sha result_digest)
                 (filter (\<lambda>r. vr_verification_status r = VS_MISMATCH) results),
               rr_automatic_promotion = False\<rparr>)))"

section \<open>What the assessment promises\<close>

lemma sort_empty [simp]: "sort xs = [] \<longleftrightarrow> xs = []"
  by (metis set_empty set_sort)

lemma refs_of_kind_empty: "refs_of_kind k effects = [] \<longleftrightarrow> list_all (\<lambda>e. ec_effect_kind e \<noteq> k) effects"
  by (simp add: refs_of_kind_def filter_empty_conv list_all_iff)

text \<open>A call or a dynamic statement whose effects the analysis could not resolve.\<close>

definition escapes :: "safety_input \<Rightarrow> bool" where
  "escapes inp \<longleftrightarrow>
     list_ex (\<lambda>e. ec_effect_kind e = EK_CALL \<and> ec_observability e = EO_UNRESOLVED_EFFECT_BOUNDARY) (si_effects inp)
     \<or> list_ex (\<lambda>s. dy_resolution_status s \<noteq> DR_STATICALLY_RECONSTRUCTED \<and> dy_resolution_status s \<noteq> DR_ENUMERABLE_VARIANTS)
         (si_dynamic_sql_sites inp)"

lemma unresolved_calls_empty:
  "unresolved_calls es \<noteq> [] \<longleftrightarrow> list_ex (\<lambda>e. ec_effect_kind e = EK_CALL \<and> ec_observability e = EO_UNRESOLVED_EFFECT_BOUNDARY) es"
  by (auto simp: unresolved_calls_def filter_empty_conv list_ex_iff)

lemma unresolved_dynamic_empty:
  "unresolved_dynamic ss \<noteq> [] \<longleftrightarrow>
     list_ex (\<lambda>s. dy_resolution_status s \<noteq> DR_STATICALLY_RECONSTRUCTED \<and> dy_resolution_status s \<noteq> DR_ENUMERABLE_VARIANTS) ss"
proof -
  have "status \<in> {DR_PARTIALLY_RECONSTRUCTED, DR_RUNTIME_CAPTURE_REQUIRED, DR_UNRESOLVED_DYNAMIC_SQL, DR_DYNAMIC_VARIANT_BUDGET_EXCEEDED}
      \<longleftrightarrow> status \<noteq> DR_STATICALLY_RECONSTRUCTED \<and> status \<noteq> DR_ENUMERABLE_VARIANTS" for status by (cases status) auto
  then have "unresolved_dynamic ss = sort (map dy_site_id (filter (\<lambda>s. dy_resolution_status s \<noteq> DR_STATICALLY_RECONSTRUCTED
      \<and> dy_resolution_status s \<noteq> DR_ENUMERABLE_VARIANTS) ss))"
    unfolding unresolved_dynamic_def by presburger
  then show ?thesis by (simp add: filter_empty_conv list_ex_iff)
qed

lemma escapes_iff:
  "escapes inp \<longleftrightarrow> unresolved_calls (si_effects inp) \<noteq> [] \<or> unresolved_dynamic (si_dynamic_sql_sites inp) \<noteq> []"
  unfolding escapes_def unresolved_calls_empty unresolved_dynamic_empty ..

lemma assess_facts:
  assumes "assess inp ref = Inr a" "si_ast inp = Some ast"
  shows "let commits = (\<not> list_all (\<lambda>e. ec_effect_kind e \<noteq> EK_COMMIT) (si_effects inp) \<or> commit_on_return (pa_commit_on_return ast) = ''YES'');
             complete = (si_outcome inp = PARSES_COMPLETE)
    in (sa_live_eligibility a = LE_DB2_SANDBOX_ALLOWED \<longleftrightarrow> complete \<and> \<not> commits \<and> \<not> escapes inp)
     \<and> (sa_live_eligibility a = LE_PROHIBITED \<longleftrightarrow> commits \<or> \<not> complete)
     \<and> (sa_rollback_containment a = RC_ROLLBACK_SAFE \<longleftrightarrow>
          \<not> commits \<and> \<not> escapes inp \<and> commit_on_return (pa_commit_on_return ast) = ''NO'')
     \<and> (sa_transaction_ownership a = OW_EXECUTOR_OWNED \<longleftrightarrow> sa_rollback_containment a = RC_ROLLBACK_SAFE)
     \<and> (sa_external_side_effects_status a = ''ABSENT'' \<longleftrightarrow> \<not> escapes inp)"
proof -
  let ?c = "refs_of_kind EK_COMMIT (si_effects inp) \<noteq> []" and ?cor = "commit_on_return (pa_commit_on_return ast)"
  let ?own = "ownership ?c (refs_of_kind EK_ROLLBACK (si_effects inp) \<noteq> []) ?cor (escapes inp)"
  have "a = projr (assess inp ref)" using assms(1) by simp
  then have sel: "sa_live_eligibility a = eligibility (?c \<or> ?cor = ''YES'') (si_outcome inp = PARSES_COMPLETE) (escapes inp)"
    "sa_rollback_containment a = containment (?c \<or> ?cor = ''YES'') (escapes inp) ?own"
    "sa_transaction_ownership a = ?own" "sa_external_side_effects_status a = (if escapes inp then ''POSSIBLE'' else ''ABSENT'')"
    unfolding assess_def assms(2) option.case Let_def escapes_iff sum.sel by simp_all
  show ?thesis
    unfolding Let_def refs_of_kind_empty [symmetric] sel
    by (auto simp: eligibility_def ownership_def containment_def)
qed

text \<open>
  C25: the safety assessment is never optimistic. A live run is allowed without approval exactly when
  the source parsed completely, no statement and no \<open>COMMIT ON RETURN\<close> commits, and no call or
  dynamic statement is unresolved; it is prohibited exactly when something commits or the parse is
  incomplete; and the unit of work is called rollback safe exactly when nothing commits, nothing is
  unresolved and the procedure declares \<open>COMMIT ON RETURN NO\<close>.
\<close>

theorem assess_never_optimistic:
  assumes "assess inp ref = Inr a" "si_ast inp = Some ast"
  shows "let commits = (\<not> list_all (\<lambda>e. ec_effect_kind e \<noteq> EK_COMMIT) (si_effects inp) \<or> commit_on_return (pa_commit_on_return ast) = ''YES'');
             complete = (si_outcome inp = PARSES_COMPLETE)
    in (sa_live_eligibility a = LE_DB2_SANDBOX_ALLOWED \<longleftrightarrow> complete \<and> \<not> commits \<and> \<not> escapes inp)
     \<and> (sa_live_eligibility a = LE_PROHIBITED \<longleftrightarrow> commits \<or> \<not> complete)
     \<and> (sa_rollback_containment a = RC_ROLLBACK_SAFE \<longleftrightarrow>
          \<not> commits \<and> \<not> escapes inp \<and> commit_on_return (pa_commit_on_return ast) = ''NO'')
     \<and> (sa_transaction_ownership a = OW_EXECUTOR_OWNED \<longleftrightarrow> sa_rollback_containment a = RC_ROLLBACK_SAFE)
     \<and> (sa_external_side_effects_status a = ''ABSENT'' \<longleftrightarrow> \<not> escapes inp)"
  by (rule assess_facts [OF assms])

section \<open>The verdict\<close>

definition violated :: "RuntimeExecutionRecord \<Rightarrow> RuntimeExpectedObservation \<Rightarrow> bool" where
  "violated execution expected \<longleftrightarrow>
     xo_modality expected = EM_MUST \<and> \<not> fst (match_expected expected execution)
     \<or> xo_modality expected = EM_MUST_NOT \<and> fst (match_expected expected execution)"

lemma expectation_finding_iff:
  "expectation_finding sha e (fst (match_expected e x)) obs = None \<longleftrightarrow> \<not> violated x e"
  by (auto simp: expectation_finding_def violated_def)

lemma verify_step_sel:
  "vs_conflict (verify_step sha x st e) \<longleftrightarrow> vs_conflict st \<or> violated x e"
  "vs_inconclusive (verify_step sha x st e) \<longleftrightarrow> vs_inconclusive st \<or> xo_modality e = EM_UNKNOWN"
  "map xe_expectation_ref (vs_results (verify_step sha x st e)) = map xe_expectation_ref (vs_results st) @ [xo_expectation_id e]"
  using expectation_finding_iff [of sha e x "snd (match_expected e x)"]
  by (auto simp: verify_step_def Let_def case_prod_unfold violated_def split: option.splits)

lemma verify_fold:
  "vs_conflict (foldl (verify_step sha x) st es) \<longleftrightarrow> vs_conflict st \<or> list_ex (violated x) es"
  "vs_inconclusive (foldl (verify_step sha x) st es) \<longleftrightarrow> vs_inconclusive st \<or> list_ex (\<lambda>e. xo_modality e = EM_UNKNOWN) es"
  "map xe_expectation_ref (vs_results (foldl (verify_step sha x) st es)) = map xe_expectation_ref (vs_results st) @ map xo_expectation_id es"
  by (induction es arbitrary: st) (simp_all add: verify_step_sel)

lemma integrity_empty:
  "integrity_findings sha pd xd plan x = [] \<longleftrightarrow>
     pd plan = vp_content_digest plan \<and> xd x = xr_content_digest x
     \<and> xr_plan_ref x = vp_plan_id plan \<and> xr_plan_digest x = vp_content_digest plan"
  by (simp add: integrity_findings_def)

lemma verify_status:
  "vr_verification_status (verify sha pd xd plan x) =
     (if \<not> (pd plan = vp_content_digest plan \<and> xd x = xr_content_digest x
             \<and> xr_plan_ref x = vp_plan_id plan \<and> xr_plan_digest x = vp_content_digest plan) then VS_BLOCKED
      else case xr_execution_status x of
        ES_FAILED \<Rightarrow> VS_EXECUTION_FAILED
      | ES_BLOCKED \<Rightarrow> VS_BLOCKED
      | ES_SUCCEEDED \<Rightarrow>
          if list_ex (violated x) (vp_expected_observations plan) then VS_MISMATCH
          else if list_ex (\<lambda>e. xo_modality e = EM_UNKNOWN) (vp_expected_observations plan) then VS_INCONCLUSIVE
          else VS_MATCHED)"
  unfolding verify_def Let_def integrity_empty
  by (cases "xr_execution_status x") (simp_all add: verify_expectations_def verify_fold verification_result_def)

text \<open>
  C26: the verdict on an execution is determined by the evidence. It is blocked when a digest or the
  plan reference does not check, or the execution was blocked; failed when the execution failed;
  otherwise a mismatch exactly when a required effect is missing or a prohibited one was observed,
  inconclusive when none is but an expectation is unknown, and a match only in the remaining case.
  A conflict is flagged exactly for mismatches, and a compared execution has one result per
  expectation, in order.
\<close>

theorem verify_verdict:
  "vr_verification_status (verify sha pd xd plan x) =
     (if \<not> (pd plan = vp_content_digest plan \<and> xd x = xr_content_digest x
             \<and> xr_plan_ref x = vp_plan_id plan \<and> xr_plan_digest x = vp_content_digest plan) then VS_BLOCKED
      else case xr_execution_status x of
        ES_FAILED \<Rightarrow> VS_EXECUTION_FAILED
      | ES_BLOCKED \<Rightarrow> VS_BLOCKED
      | ES_SUCCEEDED \<Rightarrow>
          if list_ex (violated x) (vp_expected_observations plan) then VS_MISMATCH
          else if list_ex (\<lambda>e. xo_modality e = EM_UNKNOWN) (vp_expected_observations plan) then VS_INCONCLUSIVE
          else VS_MATCHED)
   \<and> (vr_static_runtime_conflict (verify sha pd xd plan x) \<longleftrightarrow> vr_verification_status (verify sha pd xd plan x) = VS_MISMATCH)
   \<and> map xe_expectation_ref (vr_expectation_results (verify sha pd xd plan x)) =
       (if vr_verification_status (verify sha pd xd plan x) \<in> {VS_MISMATCH, VS_INCONCLUSIVE, VS_MATCHED}
        then map xo_expectation_id (vp_expected_observations plan) else [])"
  unfolding verify_def Let_def integrity_empty
  by (cases "xr_execution_status x") (simp_all add: verify_expectations_def verify_fold verification_result_def)

section \<open>The batch\<close>

lemma matched_unmatched:
  "map (xr_execution_id \<circ> snd) (matched_pairs batch records) =
     map xr_execution_id (filter (\<lambda>x. plans_by_id batch (xr_plan_ref x) \<noteq> None) records)"
  by (induction records) (auto simp: matched_pairs_def List.map_filter_simps)

lemma mset_map_partition: "mset (map f (filter P xs)) + mset (map f (filter (\<lambda>x. \<not> P x) xs)) = mset (map f xs)"
  by (induction xs) auto

lemma verify_ref [simp]: "vr_execution_record_ref (verify sha pd xd plan x) = xr_execution_id x"
  by (simp add: verify_def verification_result_def Let_def)

lemma counts_total:
  "sum_list (map snd (status_counts results)) = length results"
proof -
  have "sum_list (map snd (List.map_filter (\<lambda>s. let n = f s in if n = 0 then None else Some (g s, n)) ss)) = sum_list (map f ss)"
    for f :: "RuntimeVerificationStatus \<Rightarrow> nat" and g :: "RuntimeVerificationStatus \<Rightarrow> string" and ss
    by (induction ss) (auto simp: List.map_filter_simps Let_def)
  then have "sum_list (map snd (status_counts results)) =
      (\<Sum>s\<leftarrow>all_statuses. length (filter (\<lambda>r. vr_verification_status r = s) results))"
    by (simp only: status_counts_def)
  also have "\<dots> = length results"
  proof (induction results)
    case (Cons r results)
    then show ?case by (cases "vr_verification_status r") (auto simp: all_statuses_def)
  qed (simp add: all_statuses_def)
  finally show ?thesis .
qed

text \<open>
  Reconciliation accounts for every execution record. Each record is either verified against the
  plan it names, in order, or listed as unmatched; the counts add up to the number of results; a
  falsification candidate is raised for exactly the mismatches; and nothing is promoted
  automatically. It is refused exactly for a batch whose digest does not check.
\<close>

theorem reconcile_accounts:
  "case reconcile sha bd pd xd rd batch records of
     Inl _ \<Rightarrow> bd batch \<noteq> pb_content_digest batch
   | Inr (results, report) \<Rightarrow> bd batch = pb_content_digest batch
       \<and> map vr_execution_record_ref results = map xr_execution_id (filter (\<lambda>x. plans_by_id batch (xr_plan_ref x) \<noteq> None) records)
       \<and> mset (map vr_execution_record_ref results) + mset (rr_unmatched_execution_refs report) = mset (map xr_execution_id records)
       \<and> sum_list (map snd (rr_counts_by_status report)) = length results
       \<and> map fc_verification_result_digest (rr_falsification_candidates report) =
           map rd (filter (\<lambda>r. vr_verification_status r = VS_MISMATCH) results)
       \<and> \<not> rr_automatic_promotion report"
proof -
  let ?ok = "\<lambda>x. plans_by_id batch (xr_plan_ref x) \<noteq> None"
  have refs: "map vr_execution_record_ref (verify_batch sha pd xd (matched_pairs batch records)) = map xr_execution_id (filter ?ok records)"
    using matched_unmatched [of batch records] by (simp add: verify_batch_def case_prod_unfold o_def)
  have "mset (map xr_execution_id (filter ?ok records)) + mset (unmatched_refs batch records) = mset (map xr_execution_id records)"
    using mset_map_partition [of xr_execution_id ?ok records] by (simp add: unmatched_refs_def)
  then have "mset (map vr_execution_record_ref (verify_batch sha pd xd (matched_pairs batch records)))
      + mset (sort (unmatched_refs batch records)) = mset (map xr_execution_id records)"
    by (simp only: refs mset_sort)
  with refs counts_total show ?thesis
    by (simp add: reconcile_def Let_def falsification_candidate_def o_def del: mset_map)
qed

section \<open>Witnesses\<close>

text \<open>A procedure that updates, declares \<open>COMMIT ON RETURN NO\<close> and calls nothing.\<close>

definition quiet_input :: safety_input where
  "quiet_input = \<lparr>si_ast = Some (commit_ast\<lparr>pa_commit_on_return := Some ''NO''\<rparr>), si_outcome = PARSES_COMPLETE,
     si_effects = [update_effect], si_dynamic_sql_sites = []\<rparr>"

definition quiet_assessment :: RuntimeSafetyAssessment where
  "quiet_assessment = projr (assess quiet_input ''proc'')"

lemma quiet_assessed: "assess quiet_input ''proc'' = Inr quiet_assessment"
  by (simp add: quiet_assessment_def assess_def quiet_input_def Let_def)

theorem assess_never_optimistic_witness:
  "sa_live_eligibility quiet_assessment = LE_DB2_SANDBOX_ALLOWED \<and> sa_rollback_containment quiet_assessment = RC_ROLLBACK_SAFE"
proof -
  have "si_ast quiet_input = Some (commit_ast\<lparr>pa_commit_on_return := Some ''NO''\<rparr>)" by (simp add: quiet_input_def)
  note facts = assess_never_optimistic [OF quiet_assessed this]
  have "commit_on_return (Some ''NO'') = ''NO''" by code_simp
  with facts show ?thesis by (simp add: quiet_input_def escapes_def update_effect_def Let_def)
qed

text \<open>
  Called routines are collected regardless of case, but the required target is then looked up as it
  is written: a call recorded as \<open>proc\<close> does not satisfy the requirement to call \<open>PROC\<close>.
\<close>

definition call_required :: RuntimeExpectedObservation where
  "call_required = \<lparr>xo_expectation_id = ''x'', xo_scenario_effect_ref = ''e'', xo_modality = EM_MUST,
     xo_observation_kind = RO_CALL_EFFECT, xo_target = Some ''PROC'', xo_expected_value = None\<rparr>"

definition call_record :: "string \<Rightarrow> RuntimeExecutionRecord" where
  "call_record routine = \<lparr>xr_execution_id = ''r'', xr_plan_ref = ''p'', xr_plan_digest = ''d'', xr_execution_mode = XM_SCRIPTED_FIXTURE,
     xr_execution_status = ES_SUCCEEDED, xr_output_parameters = [], xr_sqlstate = None, xr_observed_effect_refs = [],
     xr_row_changes = [], xr_called_routines = [routine], xr_transaction_events = [], xr_content_digest = ''c''\<rparr>"

lemma called_routine_case_sensitive:
  "match_expected call_required (call_record ''PROC'') = (True, [''PROC''])"
  "match_expected call_required (call_record ''proc'') = (False, [''proc''])"
  by code_simp+

end
