(* ===== verification/Executor.thy ===== *)
theory Executor
  imports Runtime PyRegex
begin

text \<open>
  The executors of \<open>runtime/executor.py\<close>: replaying an observation script, and the live run in a
  Db2 sandbox with the gate in front of it. The driver \<open>ibm_db\<close> is a parameter: a record of what
  connecting, the call with its probes, the commit and the two rollbacks do. Ids, digests and time
  stamps of the record are left out; the digests that the executors check are parameters.
\<close>

section \<open>Invocations and scripts\<close>

datatype execution_error = RuntimeExecutionError string

record RuntimeInvocation =
  iv_invocation_id :: string
  iv_parameter_names :: "string list"
  iv_content_digest :: string

record RuntimeObservationScript =
  os_script_id :: string
  os_plan_ref :: string
  os_plan_digest :: string
  os_invocation :: RuntimeInvocation
  os_execution_status :: RuntimeExecutionStatus
  os_output_parameters :: "RuntimeObservedParameter list"
  os_sqlstate :: "string option"
  os_observed_effect_refs :: "string list"
  os_row_changes :: "RuntimeRowChange list"
  os_called_routines :: "string list"
  os_transaction_events :: "RuntimeTransactionEvent list"
  os_content_digest :: string

definition missing_inputs :: "RuntimeVerificationPlan \<Rightarrow> RuntimeInvocation \<Rightarrow> string list" where
  "missing_inputs plan invocation =
     filter (\<lambda>n. py_upper n \<notin> py_upper ` set (iv_parameter_names invocation)) (vp_input_requirements plan)"

definition validate_invocation ::
  "(RuntimeInvocation \<Rightarrow> string) \<Rightarrow> RuntimeVerificationPlan \<Rightarrow> RuntimeInvocation \<Rightarrow> execution_error option" where
  "validate_invocation inv_digest plan invocation =
     (if inv_digest invocation \<noteq> iv_content_digest invocation then Some (RuntimeExecutionError ''Runtime invocation digest is invalid.'')
      else if missing_inputs plan invocation \<noteq> []
      then Some (RuntimeExecutionError (''Missing required runtime inputs: '' @ py_join '', '' (sort (missing_inputs plan invocation))))
      else None)"

text \<open>The last step of both executors: the id and then the digest are computed over what is there so far.\<close>

definition sealed :: "(RuntimeExecutionRecord \<Rightarrow> string) \<Rightarrow> (RuntimeExecutionRecord \<Rightarrow> string) \<Rightarrow> RuntimeExecutionRecord \<Rightarrow> RuntimeExecutionRecord" where
  "sealed id_of exec_digest payload =
     (let named = payload\<lparr>xr_execution_id := id_of payload\<rparr> in named\<lparr>xr_content_digest := exec_digest named\<rparr>)"

definition scripted_payload :: "RuntimeVerificationPlan \<Rightarrow> RuntimeObservationScript \<Rightarrow> RuntimeExecutionRecord" where
  "scripted_payload plan script =
     \<lparr>xr_execution_id = [], xr_plan_ref = vp_plan_id plan, xr_plan_digest = vp_content_digest plan,
      xr_execution_mode = XM_SCRIPTED_FIXTURE, xr_execution_status = os_execution_status script,
      xr_output_parameters = os_output_parameters script, xr_sqlstate = os_sqlstate script,
      xr_observed_effect_refs = sorted_list_of_set (set (os_observed_effect_refs script)),
      xr_row_changes = os_row_changes script,
      xr_called_routines = sorted_list_of_set (set (os_called_routines script)),
      xr_transaction_events = sort_key te_sequence (os_transaction_events script), xr_content_digest = []\<rparr>"

definition execute_script ::
  "(RuntimeObservationScript \<Rightarrow> string) \<Rightarrow> (RuntimeInvocation \<Rightarrow> string) \<Rightarrow> (RuntimeExecutionRecord \<Rightarrow> string) \<Rightarrow>
   (RuntimeExecutionRecord \<Rightarrow> string) \<Rightarrow> RuntimeVerificationPlan \<Rightarrow> RuntimeObservationScript \<Rightarrow> execution_error + RuntimeExecutionRecord" where
  "execute_script script_digest inv_digest id_of exec_digest plan script =
     (if script_digest script \<noteq> os_content_digest script then Inl (RuntimeExecutionError ''Runtime observation script digest is invalid.'')
      else case validate_invocation inv_digest plan (os_invocation script) of
        Some e \<Rightarrow> Inl e
      | None \<Rightarrow>
          if os_plan_ref script \<noteq> vp_plan_id plan \<or> os_plan_digest script \<noteq> vp_content_digest plan
          then Inl (RuntimeExecutionError ''Runtime observation script does not match the verification plan.'')
          else Inr (sealed id_of exec_digest (scripted_payload plan script)))"

section \<open>The live gate\<close>

record Db2SandboxConfig =
  sc_environment_variable :: string
  sc_sandbox_attestation :: string
  sc_manual_approval_ref :: "string option"
  sc_rollback_after_call :: bool
  sc_execute_live :: bool

definition no_rollback_safe :: "RuntimeSafetyAssessment \<Rightarrow> bool" where
  "no_rollback_safe a \<longleftrightarrow>
     \<not> (sa_rollback_containment a \<noteq> RC_ROLLBACK_SAFE \<or> sa_transaction_ownership a \<noteq> OW_EXECUTOR_OWNED
        \<or> sa_internal_commit_present a \<or> sa_commit_on_return a \<noteq> ''NO'' \<or> sa_external_side_effects_status a \<noteq> ''ABSENT'')"

definition live_gate ::
  "(RuntimeInvocation \<Rightarrow> string) \<Rightarrow> RuntimeVerificationPlan \<Rightarrow> RuntimeInvocation \<Rightarrow> Db2SandboxConfig \<Rightarrow>
   RuntimeSafetyAssessment option \<Rightarrow> LiveVerificationEligibility option \<Rightarrow> execution_error option" where
  "live_gate inv_digest plan invocation config assessment given =
     (let elig = (case assessment of Some a \<Rightarrow> Some (sa_live_eligibility a) | None \<Rightarrow> given) in
      if \<not> sc_execute_live config then Some (RuntimeExecutionError ''Live DB2 execution requires execute_live=true.'')
      else if py_strip (sc_sandbox_attestation config) = [] then Some (RuntimeExecutionError ''A sandbox attestation is required.'')
      else if elig = None then Some (RuntimeExecutionError ''A runtime safety assessment or live eligibility is required.'')
      else if elig = Some LE_PROHIBITED
      then Some (RuntimeExecutionError ''Live verification is prohibited by the static safety assessment.'')
      else if elig = Some LE_MANUAL_APPROVAL_REQUIRED \<and> str_or (sc_manual_approval_ref config) [] = []
      then Some (RuntimeExecutionError ''Manual approval is required for this live verification plan.'')
      else if \<not> sc_rollback_after_call config \<and> assessment = None
      then Some (RuntimeExecutionError ''NO_ROLLBACK_PROHIBITED: a complete runtime safety assessment is required.'')
      else if \<not> sc_rollback_after_call config \<and> \<not> no_rollback_safe (the assessment)
      then Some (RuntimeExecutionError (''NO_ROLLBACK_PROHIBITED: rollback may be disabled only for an executor-owned, '' @
        ''rollback-safe unit of work with no internal commit, COMMIT ON RETURN, or external side effects.''))
      else if vp_plan_status plan = PS_BLOCKED then Some (RuntimeExecutionError ''Blocked runtime plans cannot be executed.'')
      else validate_invocation inv_digest plan invocation)"

section \<open>The live session\<close>

text \<open>
  What the driver does: the error of connecting, if any; the output parameters and row changes seen
  up to the end of the call and its probes, with the error that ended it, if any; and the errors of
  the commit, of the rollback after the call and of the rollback in the exception handler.
\<close>

record driver =
  db_connect :: "string option"
  db_outputs :: "RuntimeObservedParameter list"
  db_rows :: "RuntimeRowChange list"
  db_call :: "string option"
  db_commit :: "string option"
  db_rollback :: "string option"
  db_cleanup :: "string option"

definition rx_sqlstate :: rx where
  "rx_sqlstate =
     rseqs [lit ''SQLSTATE'', rplus (RChr (\<lambda>c. is_space c \<or> c \<in> set ''=:'')),
     RGroup 1 (rseqs (replicate 5 (ccls [D09, AZ] [])))]"

definition extract_sqlstate :: "string \<Rightarrow> string option" where
  "extract_sqlstate message = Option.bind (re_search rx_sqlstate (py_upper message)) (\<lambda>m. m_group m 1)"

definition event :: "TransactionEventKind \<Rightarrow> int \<Rightarrow> RuntimeTransactionEvent" where
  "event k i = \<lparr>te_event_kind = k, te_sequence = i\<rparr>"

text \<open>The error that ends the session early, if any, after the connection is made.\<close>

definition session_error :: "driver \<Rightarrow> bool \<Rightarrow> string option" where
  "session_error db rollback_after =
     (case db_call db of Some msg \<Rightarrow> Some msg | None \<Rightarrow> if rollback_after then db_rollback db else db_commit db)"

definition session_events :: "driver \<Rightarrow> bool \<Rightarrow> RuntimeTransactionEvent list" where
  "session_events db rollback_after =
     event TE_BEGIN 0 #
     (if db_connect db \<noteq> None then []
      else case session_error db rollback_after of
        None \<Rightarrow> [event (if rollback_after then TE_CALLER_ROLLBACK else TE_COMMIT) 1]
      | Some _ \<Rightarrow> if db_cleanup db = None then [event TE_CALLER_ROLLBACK 1] else [])"

definition session_failure :: "driver \<Rightarrow> bool \<Rightarrow> string option" where
  "session_failure db rollback_after =
     (case db_connect db of Some msg \<Rightarrow> Some msg | None \<Rightarrow> session_error db rollback_after)"

definition live_payload :: "RuntimeVerificationPlan \<Rightarrow> Db2SandboxConfig \<Rightarrow> driver \<Rightarrow> RuntimeExecutionRecord" where
  "live_payload plan config db =
     (let failure = session_failure db (sc_rollback_after_call config)
      in \<lparr>xr_execution_id = [], xr_plan_ref = vp_plan_id plan, xr_plan_digest = vp_content_digest plan,
          xr_execution_mode = XM_DB2_SANDBOX, xr_execution_status = (if failure = None then ES_SUCCEEDED else ES_FAILED),
          xr_output_parameters = (if db_connect db = None then db_outputs db else []),
          xr_sqlstate = Option.bind failure extract_sqlstate, xr_observed_effect_refs = [],
          xr_row_changes = (if db_connect db = None then db_rows db else []), xr_called_routines = [],
          xr_transaction_events = session_events db (sc_rollback_after_call config), xr_content_digest = []\<rparr>)"

definition execute_db2 ::
  "(RuntimeInvocation \<Rightarrow> string) \<Rightarrow> (RuntimeExecutionRecord \<Rightarrow> string) \<Rightarrow> (RuntimeExecutionRecord \<Rightarrow> string) \<Rightarrow>
   (string \<Rightarrow> string option) \<Rightarrow> driver option \<Rightarrow> RuntimeVerificationPlan \<Rightarrow> RuntimeInvocation \<Rightarrow> Db2SandboxConfig \<Rightarrow>
   RuntimeSafetyAssessment option \<Rightarrow> LiveVerificationEligibility option \<Rightarrow> execution_error + RuntimeExecutionRecord" where
  "execute_db2 inv_digest id_of exec_digest environ ibm_db plan invocation config assessment given =
     (case live_gate inv_digest plan invocation config assessment given of
        Some e \<Rightarrow> Inl e
      | None \<Rightarrow>
          if str_or (environ (sc_environment_variable config)) [] = []
          then Inl (RuntimeExecutionError (''Missing DB2 connection string environment variable: '' @ sc_environment_variable config))
          else case ibm_db of
            None \<Rightarrow> Inl (RuntimeExecutionError ''ibm_db is not installed in the active environment.'')
          | Some db \<Rightarrow> Inr (sealed id_of exec_digest (live_payload plan config db)))"

section \<open>What a live run may commit\<close>

lemma sealed_sel [simp]:
  "xr_plan_ref (sealed id_of exec_digest p) = xr_plan_ref p" "xr_plan_digest (sealed id_of exec_digest p) = xr_plan_digest p"
  "xr_execution_status (sealed id_of exec_digest p) = xr_execution_status p" "xr_sqlstate (sealed id_of exec_digest p) = xr_sqlstate p"
  "xr_transaction_events (sealed id_of exec_digest p) = xr_transaction_events p"
  by (simp_all add: sealed_def Let_def)

lemma sealed_digest:
  assumes "\<And>r d. exec_digest (r\<lparr>xr_content_digest := d\<rparr>) = exec_digest r"
  shows "exec_digest (sealed id_of exec_digest p) = xr_content_digest (sealed id_of exec_digest p)"
  by (simp add: sealed_def Let_def assms)

lemma execute_db2_Inr:
  assumes "execute_db2 inv_digest id_of exec_digest environ ibm_db plan invocation config assessment given = Inr r"
  obtains db where "live_gate inv_digest plan invocation config assessment given = None"
    "r = sealed id_of exec_digest (live_payload plan config db)"
  using assms by (auto simp: execute_db2_def split: option.splits if_splits)

lemma execute_script_Inr:
  assumes "execute_script script_digest inv_digest id_of exec_digest plan script = Inr r"
  shows "r = sealed id_of exec_digest (scripted_payload plan script)"
  using assms by (auto simp: execute_script_def split: option.splits if_splits)

lemma session_commit_iff:
  "TE_COMMIT \<in> te_event_kind ` set (session_events db after) \<longleftrightarrow> session_failure db after = None \<and> \<not> after"
  by (auto simp: session_events_def session_failure_def event_def split: option.splits)

lemma live_gate_no_rollback:
  assumes "live_gate inv_digest plan invocation config assessment given = None" "\<not> sc_rollback_after_call config"
  shows "\<exists>a. assessment = Some a \<and> no_rollback_safe a \<and> sa_live_eligibility a \<noteq> LE_PROHIBITED"
  using assms by (cases assessment) (auto simp: live_gate_def Let_def split: if_splits)

text \<open>
  C8: a live run commits only a unit of work that the static analysis proved contained. If the record
  of a run shows a commit, the run succeeded, rollback was switched off in the configuration, and an
  assessment was given; when that assessment is the one of a procedure, its source parsed completely,
  it contains no commit, declares \<open>COMMIT ON RETURN NO\<close>, and has no unresolved call or dynamic
  statement.
\<close>

theorem live_commit_only_when_contained:
  assumes "execute_db2 inv_digest id_of exec_digest environ ibm_db plan invocation config assessment given = Inr r"
    and "TE_COMMIT \<in> te_event_kind ` set (xr_transaction_events r)"
    and "\<And>a. assessment = Some a \<Longrightarrow> assess inp ref = Inr a"
    and "si_ast inp = Some ast"
  shows "xr_execution_status r = ES_SUCCEEDED \<and> \<not> sc_rollback_after_call config
    \<and> (\<exists>a. assessment = Some a \<and> no_rollback_safe a)
    \<and> si_outcome inp = PARSES_COMPLETE \<and> list_all (\<lambda>e. ec_effect_kind e \<noteq> EK_COMMIT) (si_effects inp)
    \<and> commit_on_return (pa_commit_on_return ast) = ''NO'' \<and> \<not> escapes inp"
proof -
  obtain db where db: "live_gate inv_digest plan invocation config assessment given = None"
    "r = sealed id_of exec_digest (live_payload plan config db)"
    by (rule execute_db2_Inr [OF assms(1)])
  have "xr_transaction_events r = session_events db (sc_rollback_after_call config)"
    unfolding db(2) sealed_sel by (simp add: live_payload_def Let_def)
  then have "session_failure db (sc_rollback_after_call config) = None \<and> \<not> sc_rollback_after_call config"
    using assms(2) session_commit_iff by metis
  then have s: "session_failure db (sc_rollback_after_call config) = None" "\<not> sc_rollback_after_call config" by blast+
  obtain a where a: "assessment = Some a" "no_rollback_safe a" "sa_live_eligibility a \<noteq> LE_PROHIBITED"
    using live_gate_no_rollback [OF db(1) s(2)] by blast
  note facts = assess_facts [OF assms(3) [OF a(1)] assms(4), unfolded Let_def]
  have "sa_rollback_containment a = RC_ROLLBACK_SAFE" using a(2) by (simp add: no_rollback_safe_def)
  then show ?thesis using facts a s by (auto simp: db(2) live_payload_def)
qed

section \<open>Records and the verifier\<close>

text \<open>
  What an executor produces, the verifier accepts as evidence: for a plan whose digest checks, a
  record made by replaying a script or by a live run raises no integrity finding, so the verdict on
  it is never a block for tampering. The digest of a record is taken without its digest field.
\<close>

theorem executed_records_accepted:
  assumes "\<And>r d. exec_digest (r\<lparr>xr_content_digest := d\<rparr>) = exec_digest r"
    and "pd plan = vp_content_digest plan"
    and "execute_script script_digest inv_digest id_of exec_digest plan script = Inr r
      \<or> execute_db2 inv_digest id_of exec_digest environ ibm_db plan invocation config assessment given = Inr r"
  shows "integrity_findings sha pd exec_digest plan r = []
    \<and> (vr_verification_status (verify sha pd exec_digest plan r) = VS_BLOCKED \<longleftrightarrow> xr_execution_status r = ES_BLOCKED)"
proof -
  obtain p where r: "r = sealed id_of exec_digest p" "xr_plan_ref p = vp_plan_id plan" "xr_plan_digest p = vp_content_digest plan"
    using assms(3)
  proof
    assume "execute_script script_digest inv_digest id_of exec_digest plan script = Inr r"
    then show thesis using that [of "scripted_payload plan script"] execute_script_Inr by (auto simp: scripted_payload_def)
  next
    assume "execute_db2 inv_digest id_of exec_digest environ ibm_db plan invocation config assessment given = Inr r"
    then obtain db where "r = sealed id_of exec_digest (live_payload plan config db)" by (rule execute_db2_Inr)
    then show thesis using that [of "live_payload plan config db"] by (simp add: live_payload_def Let_def)
  qed
  have i: "integrity_findings sha pd exec_digest plan r = []"
    unfolding integrity_empty r(1) using sealed_digest [OF assms(1)] assms(2) r(2,3) by simp
  have "vr_verification_status (verify sha pd exec_digest plan r) = VS_BLOCKED \<longleftrightarrow> xr_execution_status r = ES_BLOCKED"
    unfolding verify_def Let_def using i by (cases "xr_execution_status r") (simp_all add: verification_result_def)
  with i show ?thesis by blast
qed

text \<open>
  A live run carries an SQLSTATE only when it failed, and the verifier gives up on failed runs before
  it compares expectations: a scenario that requires a signal is never matched by a live run.
\<close>

lemma live_signal_never_matched:
  assumes "execute_db2 inv_digest id_of exec_digest environ ibm_db plan invocation config assessment given = Inr r"
    and "e \<in> set (vp_expected_observations plan)" "xo_modality e = EM_MUST" "xo_observation_kind e = RO_SQLSTATE"
  shows "vr_verification_status (verify sha pd xd plan r) \<in> {VS_BLOCKED, VS_EXECUTION_FAILED, VS_MISMATCH}"
proof -
  obtain db where db: "r = sealed id_of exec_digest (live_payload plan config db)"
    by (rule execute_db2_Inr [OF assms(1)])
  have "violated r e" if "xr_execution_status r = ES_SUCCEEDED"
    using that assms(3,4) by (auto simp: db live_payload_def Let_def violated_def match_expected_def split: if_splits)
  then have "list_ex (violated r) (vp_expected_observations plan)" if "xr_execution_status r = ES_SUCCEEDED"
    using that assms(2) by (auto simp: list_ex_iff)
  then show ?thesis by (cases "xr_execution_status r") (auto simp: verify_status split: if_splits)
qed

section \<open>Witnesses\<close>

definition plain_plan :: RuntimeVerificationPlan where
  "plain_plan = \<lparr>vp_plan_id = ''p'', vp_scenario_spec_ref = ''s'', vp_input_requirements = [''P_ID''],
     vp_expected_observations = [], vp_plan_status = PS_READY_DB2_SANDBOX, vp_content_digest = ''d''\<rparr>"

definition plain_invocation :: RuntimeInvocation where
  "plain_invocation = \<lparr>iv_invocation_id = ''i'', iv_parameter_names = [''p_id''], iv_content_digest = ''v''\<rparr>"

definition committing_config :: Db2SandboxConfig where
  "committing_config = \<lparr>sc_environment_variable = ''DB'', sc_sandbox_attestation = ''ok'', sc_manual_approval_ref = None,
     sc_rollback_after_call = False, sc_execute_live = True\<rparr>"

definition calm_driver :: driver where
  "calm_driver = \<lparr>db_connect = None, db_outputs = [], db_rows = [], db_call = None, db_commit = None, db_rollback = None, db_cleanup = None\<rparr>"

definition plain_script :: RuntimeObservationScript where
  "plain_script = \<lparr>os_script_id = ''z'', os_plan_ref = ''p'', os_plan_digest = ''d'', os_invocation = plain_invocation,
     os_execution_status = ES_SUCCEEDED, os_output_parameters = [], os_sqlstate = None, os_observed_effect_refs = [],
     os_row_changes = [], os_called_routines = [], os_transaction_events = [], os_content_digest = ''o''\<rparr>"

lemma plain_gate:
  "live_gate iv_content_digest plain_plan plain_invocation committing_config (Some quiet_assessment) None = None"
  by code_simp

lemma committing_run:
  "execute_db2 iv_content_digest xr_plan_ref xr_plan_ref (\<lambda>_. Some ''dsn'') (Some calm_driver) plain_plan plain_invocation
     committing_config (Some quiet_assessment) None =
   Inr (sealed xr_plan_ref xr_plan_ref (live_payload plain_plan committing_config calm_driver))"
  by (simp add: execute_db2_def plain_gate str_or_def)

theorem live_commit_only_when_contained_witness:
  "list_all (\<lambda>e. ec_effect_kind e \<noteq> EK_COMMIT) (si_effects quiet_input) \<and> \<not> escapes quiet_input
   \<and> xr_execution_status (sealed xr_plan_ref xr_plan_ref (live_payload plain_plan committing_config calm_driver)) = ES_SUCCEEDED"
proof -
  have c: "TE_COMMIT \<in> te_event_kind ` set (xr_transaction_events (sealed xr_plan_ref xr_plan_ref (live_payload plain_plan committing_config calm_driver)))"
    by (simp add: live_payload_def Let_def session_events_def session_error_def calm_driver_def committing_config_def event_def)
  have "si_ast quiet_input = Some (commit_ast\<lparr>pa_commit_on_return := Some ''NO''\<rparr>)" by (simp add: quiet_input_def)
  with live_commit_only_when_contained [OF committing_run c, of quiet_input "''proc''"] quiet_assessed show ?thesis by simp
qed

theorem executed_records_accepted_witness:
  "integrity_findings (\<lambda>s. s) vp_content_digest xr_execution_id plain_plan
     (sealed xr_plan_ref xr_execution_id (scripted_payload plain_plan plain_script)) = []"
proof -
  have "execute_script os_content_digest iv_content_digest xr_plan_ref xr_execution_id plain_plan plain_script =
      Inr (sealed xr_plan_ref xr_execution_id (scripted_payload plain_plan plain_script))"
    by code_simp
  with executed_records_accepted [of xr_execution_id vp_content_digest plain_plan os_content_digest iv_content_digest xr_plan_ref plain_script]
  show ?thesis by simp
qed

end
