(* ===== verification/Timestamps.thy ===== *)
theory Timestamps
  imports AtlasPrelude "HOL-Library.List_Lexorder" "HOL-Library.Char_ord"
begin

text \<open>
  Canonical timestamps: \<open>canonical_timestamp\<close> and \<open>timestamp_active\<close> of
  \<open>db2_behavior/bdd/models.py\<close>, which the governance store and the authority resolver call on
  every instant they record. The part of Python's \<open>datetime\<close> that the two use is modelled
  here: \<open>fromisoformat\<close> on calendar dates in the extended and in the basic format (ISO week dates are
  outside the model, which rejects them), \<open>astimezone(timezone.utc)\<close> with its range error, and
  \<open>isoformat(timespec="microseconds")\<close>. The theorems show that a canonical timestamp is a fixed
  point, names the instant of the text it was made from, and that comparing canonical timestamps as
  strings compares instants, which is what the SQL of the store and the validity ranges rely on.
\<close>

section \<open>Calendar dates\<close>

definition is_leap :: "int \<Rightarrow> bool" where
  "is_leap y = (y mod 4 = 0 \<and> (y mod 100 \<noteq> 0 \<or> y mod 400 = 0))"

definition days_in_month :: "int \<Rightarrow> int \<Rightarrow> int" where
  "days_in_month y m =
     (if m = 2 then (if is_leap y then 29 else 28) else if m \<in> {4, 6, 9, 11} then 30 else 31)"

record pydatetime =
  dt_year :: int
  dt_month :: int
  dt_day :: int
  dt_hour :: int
  dt_minute :: int
  dt_second :: int
  dt_microsecond :: int
  dt_offset :: "int option"

text \<open>The checks of the \<open>datetime\<close> constructor; an offset lies strictly within a day.\<close>

definition day_us :: int where
  "day_us = 86400000000"

definition date_ok :: "int \<Rightarrow> int \<Rightarrow> int \<Rightarrow> bool" where
  "date_ok y m d = (1 \<le> y \<and> y \<le> 9999 \<and> 1 \<le> m \<and> m \<le> 12 \<and> 1 \<le> d \<and> d \<le> days_in_month y m)"

definition datetime_ok :: "pydatetime \<Rightarrow> bool" where
  "datetime_ok d =
     (date_ok (dt_year d) (dt_month d) (dt_day d) \<and> 0 \<le> dt_hour d \<and> dt_hour d < 24 \<and> 0 \<le> dt_minute d \<and> dt_minute d < 60
      \<and> 0 \<le> dt_second d \<and> dt_second d < 60 \<and> 0 \<le> dt_microsecond d \<and> dt_microsecond d < 1000000 \<and> (case dt_offset d of None \<Rightarrow> True | Some z \<Rightarrow> \<bar>z\<bar> < day_us))"

section \<open>Reading ISO text\<close>

definition digits_value :: "string \<Rightarrow> int" where
  "digits_value s = foldl (\<lambda>v c. 10 * v + int (code_of c - 48)) 0 s"

definition digits :: "nat \<Rightarrow> string \<Rightarrow> (int \<times> string) option" where
  "digits n s =
     (if n \<le> length s \<and> list_all is_digit (take n s) then Some (digits_value (take n s), drop n s) else None)"

definition next_is :: "char \<Rightarrow> string \<Rightarrow> bool" where
  "next_is c s = (case s of [] \<Rightarrow> False | d # _ \<Rightarrow> d = c)"

definition parse_isoformat_date :: "string \<Rightarrow> ((int \<times> int \<times> int) \<times> string) option" where
  "parse_isoformat_date s =
     (case digits 4 s of None \<Rightarrow> None | Some (y, r) \<Rightarrow>
       (let sep = next_is (CHR ''-'') r in
        case digits 2 (if sep then tl r else r) of None \<Rightarrow> None | Some (m, r2) \<Rightarrow>
          (if next_is (CHR ''-'') r2 \<noteq> sep then None
           else (case digits 2 (if sep then tl r2 else r2) of None \<Rightarrow> None | Some (d, r3) \<Rightarrow> Some ((y, m, d), r3)))))"

text \<open>\<open>HH[:?MM[:?SS[{.,}fff[fff]]]]\<close>: digits of the fraction after the sixth are dropped.\<close>

definition fraction_us :: "string \<Rightarrow> int" where
  "fraction_us ds = digits_value (take 6 ds @ replicate (6 - length ds) (CHR ''0''))"

definition parse_hh_mm_ss_ff :: "string \<Rightarrow> (int \<times> int \<times> int \<times> int) option" where
  "parse_hh_mm_ss_ff t =
     (case digits 2 t of None \<Rightarrow> None | Some (h, r) \<Rightarrow>
       if r = [] then Some (h, 0, 0, 0)
       else (let sep = next_is (CHR '':'') r in
         case digits 2 (if sep then tl r else r) of None \<Rightarrow> None | Some (m, r2) \<Rightarrow>
           if r2 = [] then Some (h, m, 0, 0)
           else if sep \<and> \<not> next_is (CHR '':'') r2 then None
           else (case digits 2 (if sep then tl r2 else r2) of None \<Rightarrow> None | Some (s, r3) \<Rightarrow>
             if r3 = [] then Some (h, m, s, 0)
             else if (next_is (CHR ''.'') r3 \<or> next_is (CHR '','') r3) \<and> tl r3 \<noteq> [] \<and> list_all is_digit (tl r3)
             then Some (h, m, s, fraction_us (tl r3)) else None)))"

definition is_tz_char :: "char \<Rightarrow> bool" where
  "is_tz_char c = (c = CHR ''+'' \<or> c = CHR ''-'' \<or> c = CHR ''Z'')"

definition clock_us :: "int \<Rightarrow> int \<Rightarrow> int \<Rightarrow> int \<Rightarrow> int" where
  "clock_us h m s us = ((h * 60 + m) * 60 + s) * 1000000 + us"

text \<open>The offset text after the sign character; \<open>Z\<close> is only accepted at the very end.\<close>

definition parse_offset :: "string \<Rightarrow> int option option" where
  "parse_offset z =
     (case z of [] \<Rightarrow> Some None
      | c # r \<Rightarrow>
          if c = CHR ''Z'' then (if r = [] then Some (Some 0) else None)
          else if length r \<in> {0, 1, 3} then None
          else (case parse_hh_mm_ss_ff r of None \<Rightarrow> None | Some (h, m, s, us) \<Rightarrow>
            Some (Some (if c = CHR ''-'' then - clock_us h m s us else clock_us h m s us))))"

definition fromisoformat :: "string \<Rightarrow> pydatetime option" where
  "fromisoformat s =
     (case parse_isoformat_date s of None \<Rightarrow> None | Some ((y, m, d), r) \<Rightarrow>
       (let t = drop 1 r; build = (\<lambda>h mi sec us z.
              let dt = \<lparr>dt_year = y, dt_month = m, dt_day = d, dt_hour = h, dt_minute = mi, dt_second = sec,
                        dt_microsecond = us, dt_offset = z\<rparr>
              in if datetime_ok dt then Some dt else None)
        in if t = [] then build 0 0 0 0 None
           else if length t < 2 then None
           else (case parse_hh_mm_ss_ff (takeWhile (\<lambda>c. \<not> is_tz_char c) t) of None \<Rightarrow> None
                 | Some (h, mi, sec, us) \<Rightarrow>
                     (case parse_offset (dropWhile (\<lambda>c. \<not> is_tz_char c) t) of None \<Rightarrow> None
                      | Some z \<Rightarrow> build h mi sec us z))))"

section \<open>Conversion to UTC and printing\<close>

definition next_day :: "int \<times> int \<times> int \<Rightarrow> int \<times> int \<times> int" where
  "next_day t = (case t of (y, m, d) \<Rightarrow>
     if d < days_in_month y m then (y, m, d + 1) else if m < 12 then (y, m + 1, 1) else (y + 1, 1, 1))"

definition prev_day :: "int \<times> int \<times> int \<Rightarrow> int \<times> int \<times> int" where
  "prev_day t = (case t of (y, m, d) \<Rightarrow>
     if 1 < d then (y, m, d - 1) else if 1 < m then (y, m - 1, days_in_month y (m - 1)) else (y - 1, 12, 31))"

datatype ts_error = INVALID_TIMESTAMP | NAIVE_TIMESTAMP | TIMESTAMP_OVERFLOW

text \<open>
  \<open>astimezone(utc)\<close>: a value already in UTC is returned as it is; otherwise the offset, less than
  a day, moves the clock across at most one midnight, and leaving the years 1 to 9999 raises.
\<close>

definition astimezone_utc :: "pydatetime \<Rightarrow> int \<Rightarrow> ts_error + pydatetime" where
  "astimezone_utc d z =
     (if z = 0 then Inr d
      else (let t = clock_us (dt_hour d) (dt_minute d) (dt_second d) (dt_microsecond d) - z;
                date = (dt_year d, dt_month d, dt_day d);
                (y, m, dd) = (if t < 0 then prev_day date else if day_us \<le> t then next_day date else date);
                r = t mod day_us
            in if date_ok y m dd
               then Inr \<lparr>dt_year = y, dt_month = m, dt_day = dd, dt_hour = r div 3600000000,
                         dt_minute = r div 60000000 mod 60, dt_second = r div 1000000 mod 60,
                         dt_microsecond = r mod 1000000, dt_offset = Some 0\<rparr>
               else Inl TIMESTAMP_OVERFLOW))"

text \<open>\<open>%0wd\<close> of a number of at most \<open>w\<close> digits.\<close>

fun pad_dec :: "nat \<Rightarrow> int \<Rightarrow> string" where
  "pad_dec 0 n = []"
| "pad_dec (Suc w) n = pad_dec w (n div 10) @ [digit_char (nat (n mod 10))]"

definition isoformat_utc :: "pydatetime \<Rightarrow> string" where
  "isoformat_utc d =
     pad_dec 4 (dt_year d) @ ''-'' @ pad_dec 2 (dt_month d) @ ''-'' @ pad_dec 2 (dt_day d) @ ''T'' @
     pad_dec 2 (dt_hour d) @ '':'' @ pad_dec 2 (dt_minute d) @ '':'' @ pad_dec 2 (dt_second d) @ ''.'' @
     pad_dec 6 (dt_microsecond d) @ ''+00:00''"

definition parse_instant :: "string \<Rightarrow> pydatetime option" where
  "parse_instant s = fromisoformat (py_replace s ''Z'' ''+00:00'')"

definition canonical_timestamp :: "string \<Rightarrow> ts_error + string" where
  "canonical_timestamp s =
     (case parse_instant (py_strip s) of None \<Rightarrow> Inl INVALID_TIMESTAMP
      | Some d \<Rightarrow>
          (case dt_offset d of None \<Rightarrow> Inl NAIVE_TIMESTAMP
           | Some z \<Rightarrow> map_sum id (\<lambda>u. py_replace (isoformat_utc u) ''+00:00'' ''Z'') (astimezone_utc d z)))"

section \<open>Instants\<close>

text \<open>The microseconds from the start of year 1 to an instant: the order of aware datetimes.\<close>

definition days_before_year :: "int \<Rightarrow> int" where
  "days_before_year y = (y - 1) * 365 + (y - 1) div 4 - (y - 1) div 100 + (y - 1) div 400"

definition days_before_month :: "int \<Rightarrow> int \<Rightarrow> int" where
  "days_before_month y m = sum_list (map (days_in_month y) [1..m - 1])"

definition toordinal :: "int \<Rightarrow> int \<Rightarrow> int \<Rightarrow> int" where
  "toordinal y m d = days_before_year y + days_before_month y m + d"

definition instant :: "pydatetime \<Rightarrow> int" where
  "instant d =
     toordinal (dt_year d) (dt_month d) (dt_day d) * day_us
     + clock_us (dt_hour d) (dt_minute d) (dt_second d) (dt_microsecond d)
     - (case dt_offset d of None \<Rightarrow> 0 | Some z \<Rightarrow> z)"

definition timestamp_active :: "string \<Rightarrow> string \<Rightarrow> string option \<Rightarrow> ts_error + bool" where
  "timestamp_active at valid_from valid_to =
     (case canonical_timestamp at of Inl e \<Rightarrow> Inl e | Inr a \<Rightarrow>
      (case canonical_timestamp valid_from of Inl e \<Rightarrow> Inl e | Inr f \<Rightarrow>
       (case valid_to of
          None \<Rightarrow>
            (case (parse_instant a, parse_instant f) of
               (Some ia, Some st) \<Rightarrow> Inr (instant st \<le> instant ia)
             | _ \<Rightarrow> Inl INVALID_TIMESTAMP)
        | Some v \<Rightarrow>
            (case canonical_timestamp v of Inl e \<Rightarrow> Inl e | Inr t \<Rightarrow>
             (case (parse_instant a, parse_instant f, parse_instant t) of
                (Some ia, Some st, Some en) \<Rightarrow> Inr (instant st \<le> instant ia \<and> instant ia < instant en)
              | _ \<Rightarrow> Inl INVALID_TIMESTAMP)))))"

section \<open>Fixed-width decimals\<close>

lemma length_pad_dec [simp]: "length (pad_dec w n) = w"
  by (induction w n rule: pad_dec.induct) auto

lemma is_digit_digit_char: "d < 10 \<Longrightarrow> is_digit (digit_char d)"
  by (simp add: is_digit_def code_of_digit_char)

lemma pad_dec_digits: "c \<in> set (pad_dec w n) \<Longrightarrow> is_digit c"
  by (induction w n rule: pad_dec.induct) (auto simp: is_digit_digit_char nat_less_iff)

lemma digits_value_append: "digits_value (s @ [c]) = 10 * digits_value s + int (code_of c - 48)"
  by (simp add: digits_value_def)

lemma div10_less: "n < 10 * x \<Longrightarrow> n div (10 :: int) < x"
  by presburger

lemma digits_value_pad_dec: "0 \<le> n \<Longrightarrow> n < 10 ^ w \<Longrightarrow> digits_value (pad_dec w n) = n"
proof (induction w n rule: pad_dec.induct)
  case (1 n)
  then show ?case by (simp add: digits_value_def)
next
  case (2 w n)
  have "n div 10 < 10 ^ w" using 2(3) by (simp add: div10_less)
  then have "digits_value (pad_dec w (n div 10)) = n div 10"
    using 2 by (simp add: pos_imp_zdiv_nonneg_iff)
  moreover have "int (code_of (digit_char (nat (n mod 10))) - 48) = n mod 10"
    by (simp add: code_of_digit_char nat_less_iff)
  ultimately show ?case by (simp add: digits_value_append)
qed

lemma digits_pad_dec [simp]: "0 \<le> n \<Longrightarrow> n < 10 ^ w \<Longrightarrow> digits w (pad_dec w n @ r) = Some (n, r)"
  by (auto simp: digits_def digits_value_pad_dec list_all_iff dest: pad_dec_digits)

lemma append_less_append:
  assumes "length xs = length xs'"
  shows "xs @ ys < xs' @ (ys' :: 'a :: linorder list) \<longleftrightarrow> xs < xs' \<or> xs = xs' \<and> ys < ys'"
  using assms by (induction xs xs' rule: list_induct2) auto

lemma digit_char_less: "d < 10 \<Longrightarrow> e < 10 \<Longrightarrow> digit_char d < digit_char e \<longleftrightarrow> d < e"
  by (simp add: less_char_def code_of_digit_char [unfolded code_of_def])

lemma digit_char_inject: "d < 10 \<Longrightarrow> e < 10 \<Longrightarrow> digit_char d = digit_char e \<longleftrightarrow> d = e"
  by (metis code_of_digit_char add_left_cancel)

lemma pad_dec_inject: "0 \<le> m \<Longrightarrow> m < 10 ^ w \<Longrightarrow> 0 \<le> n \<Longrightarrow> n < 10 ^ w \<Longrightarrow> pad_dec w m = pad_dec w n \<longleftrightarrow> m = n"
  by (metis digits_value_pad_dec)

lemma less_by_div_mod: "m < n \<longleftrightarrow> m div 10 < n div 10 \<or> m div 10 = n div 10 \<and> m mod 10 < n mod 10" for m n :: int
proof -
  have "m = 10 * (m div 10) + m mod 10" "n = 10 * (n div 10) + n mod 10" by simp_all
  moreover have "0 \<le> m mod 10" "m mod 10 < 10" "0 \<le> n mod 10" "n mod 10 < 10" by simp_all
  ultimately show ?thesis by (cases "m div 10" "n div 10" rule: linorder_cases; linarith)
qed

lemma pad_dec_less:
  "0 \<le> m \<Longrightarrow> m < 10 ^ w \<Longrightarrow> 0 \<le> n \<Longrightarrow> n < 10 ^ w \<Longrightarrow> pad_dec w m < pad_dec w n \<longleftrightarrow> m < n"
proof (induction w arbitrary: m n)
  case 0
  then show ?case by simp
next
  case (Suc w)
  have dm: "0 \<le> m div 10" "m div 10 < 10 ^ w" and dn: "0 \<le> n div 10" "n div 10 < 10 ^ w"
    using Suc.prems by (simp_all add: div10_less pos_imp_zdiv_nonneg_iff)
  have "pad_dec (Suc w) m < pad_dec (Suc w) n \<longleftrightarrow>
      m div 10 < n div 10 \<or> m div 10 = n div 10 \<and> m mod 10 < n mod 10"
    using Suc.IH [OF dm dn] pad_dec_inject [OF dm dn] pos_mod_sign [of 10 m]
    by (auto simp: append_less_append digit_char_less nat_less_iff)
  then show ?case by (simp add: less_by_div_mod [symmetric])
qed

section \<open>Canonical text\<close>

definition canon_text :: "pydatetime \<Rightarrow> string" where
  "canon_text d =
     pad_dec 4 (dt_year d) @ ''-'' @ pad_dec 2 (dt_month d) @ ''-'' @ pad_dec 2 (dt_day d) @ ''T'' @
     pad_dec 2 (dt_hour d) @ '':'' @ pad_dec 2 (dt_minute d) @ '':'' @ pad_dec 2 (dt_second d) @ ''.'' @
     pad_dec 6 (dt_microsecond d) @ ''Z''"

abbreviation utc_ok :: "pydatetime \<Rightarrow> bool" where
  "utc_ok d \<equiv> datetime_ok d \<and> dt_offset d = Some 0"

lemma days_in_month_range: "28 \<le> days_in_month y m \<and> days_in_month y m \<le> 31"
  by (simp add: days_in_month_def)

lemma datetime_ok_bounds:
  assumes "datetime_ok d"
  shows "0 \<le> dt_year d" "dt_year d < 10 ^ 4" "0 \<le> dt_month d" "dt_month d < 10 ^ 2" "0 \<le> dt_day d" "dt_day d < 10 ^ 2"
    "0 \<le> dt_hour d" "dt_hour d < 10 ^ 2" "0 \<le> dt_minute d" "dt_minute d < 10 ^ 2"
    "0 \<le> dt_second d" "dt_second d < 10 ^ 2" "0 \<le> dt_microsecond d" "dt_microsecond d < 10 ^ 6"
  using assms days_in_month_range [of "dt_year d" "dt_month d"]
  by (auto simp: datetime_ok_def date_ok_def)

lemma py_replace_fuel_tail:
  assumes "c \<notin> set s" "length s < n"
  shows "py_replace_fuel n (c # old) new (s @ c # old) = s @ new"
  using assms
proof (induction s arbitrary: n)
  case Nil
  then obtain k where "n = Suc k" by (cases n) auto
  then show ?case by (cases k) (simp_all add: py_startswith_def)
next
  case (Cons a s)
  then obtain k where k: "n = Suc k" by (cases n) auto
  then show ?case using Cons by (auto simp: py_startswith_def)
qed

lemma py_replace_tail: "c \<notin> set s \<Longrightarrow> py_replace (s @ c # old) (c # old) new = s @ new"
  by (simp add: py_replace_def py_replace_fuel_tail)

lemma not_in_pad_dec: "\<not> is_digit c \<Longrightarrow> c \<notin> set (pad_dec w n)"
  using pad_dec_digits by blast

lemma canon_not_digit [simp]:
  "\<not> is_digit (CHR ''Z'')" "\<not> is_digit (CHR ''+'')" "\<not> is_digit (CHR ''-'')" "\<not> is_digit (CHR ''T'')"
  "\<not> is_digit (CHR '':'')" "\<not> is_digit (CHR ''.'')"
  by (simp_all add: is_digit_def code_of_def)

lemma canon_text_of_isoformat: "py_replace (isoformat_utc d) ''+00:00'' ''Z'' = canon_text d"
proof -
  let ?s = "pad_dec 4 (dt_year d) @ ''-'' @ pad_dec 2 (dt_month d) @ ''-'' @ pad_dec 2 (dt_day d) @ ''T'' @
     pad_dec 2 (dt_hour d) @ '':'' @ pad_dec 2 (dt_minute d) @ '':'' @ pad_dec 2 (dt_second d) @ ''.'' @
     pad_dec 6 (dt_microsecond d)"
  have "CHR ''+'' \<notin> set ?s" by (auto dest: pad_dec_digits)
  then show ?thesis
    using py_replace_tail [of "CHR ''+''" ?s "''00:00''" "''Z''"] by (simp add: isoformat_utc_def canon_text_def)
qed

lemma replace_canon_text: "py_replace (canon_text d) ''Z'' ''+00:00'' = isoformat_utc d"
proof -
  let ?s = "pad_dec 4 (dt_year d) @ ''-'' @ pad_dec 2 (dt_month d) @ ''-'' @ pad_dec 2 (dt_day d) @ ''T'' @
     pad_dec 2 (dt_hour d) @ '':'' @ pad_dec 2 (dt_minute d) @ '':'' @ pad_dec 2 (dt_second d) @ ''.'' @
     pad_dec 6 (dt_microsecond d)"
  have "CHR ''Z'' \<notin> set ?s" by (auto dest: pad_dec_digits)
  then show ?thesis
    using py_replace_tail [of "CHR ''Z''" ?s "[]" "''+00:00''"] by (simp add: isoformat_utc_def canon_text_def)
qed

lemma strip_canon_text: "py_strip (canon_text d) = canon_text d"
proof -
  obtain c s where c: "pad_dec 4 (dt_year d) = c # s" by (cases "pad_dec 4 (dt_year d)") (auto dest: arg_cong [of _ _ length])
  then have "is_digit c" using pad_dec_digits [of c 4 "dt_year d"] by simp
  then have "\<not> is_space c" by (auto simp: is_digit_def is_space_def Let_def)
  then show ?thesis
    unfolding canon_text_def c py_strip_of_def py_rstrip_of_def py_lstrip_of_def
    by (simp add: is_space_def code_of_def)
qed

lemma take_while_no_tz: "(\<And>c. c \<in> set s \<Longrightarrow> \<not> is_tz_char c) \<Longrightarrow> takeWhile (\<lambda>c. \<not> is_tz_char c) (s @ CHR ''+'' # r) = s \<and> dropWhile (\<lambda>c. \<not> is_tz_char c) (s @ CHR ''+'' # r) = CHR ''+'' # r"
  by (induction s) (auto simp: is_tz_char_def)

lemma digits_pad_dec_end [simp]: "0 \<le> n \<Longrightarrow> n < 10 ^ w \<Longrightarrow> digits w (pad_dec w n) = Some (n, [])"
  using digits_pad_dec [of n w "[]"] by simp

lemma fraction_us_pad: "0 \<le> n \<Longrightarrow> n < 10 ^ 6 \<Longrightarrow> fraction_us (pad_dec 6 n) = n"
  by (simp add: fraction_us_def digits_value_pad_dec)

lemma pad_dec_nonempty [simp]: "0 < w \<Longrightarrow> pad_dec w n \<noteq> []"
  by (metis length_pad_dec list.size(3) less_numeral_extra(3))

lemma parse_clock_text:
  assumes "datetime_ok d"
  shows "parse_hh_mm_ss_ff (pad_dec 2 (dt_hour d) @ '':'' @ pad_dec 2 (dt_minute d) @ '':'' @ pad_dec 2 (dt_second d) @ ''.'' @
     pad_dec 6 (dt_microsecond d)) = Some (dt_hour d, dt_minute d, dt_second d, dt_microsecond d)"
  using datetime_ok_bounds [OF assms]
  by (simp add: parse_hh_mm_ss_ff_def next_is_def fraction_us_pad list_all_iff pad_dec_digits)

lemma parse_date_text:
  assumes "datetime_ok d"
  shows "parse_isoformat_date (pad_dec 4 (dt_year d) @ ''-'' @ pad_dec 2 (dt_month d) @ ''-'' @ pad_dec 2 (dt_day d) @ r) =
    Some ((dt_year d, dt_month d, dt_day d), r)"
  using datetime_ok_bounds [OF assms] by (simp add: parse_isoformat_date_def next_is_def)

lemma parse_zero_offset: "parse_offset ''+00:00'' = Some (Some 0)"
  by (simp add: parse_offset_def parse_hh_mm_ss_ff_def digits_def next_is_def digits_value_def code_of_def is_digit_def
      numeral_eq_Suc clock_us_def)

lemma fromisoformat_isoformat_utc:
  assumes "utc_ok d"
  shows "fromisoformat (isoformat_utc d) = Some d"
proof -
  let ?t = "pad_dec 2 (dt_hour d) @ '':'' @ pad_dec 2 (dt_minute d) @ '':'' @ pad_dec 2 (dt_second d) @ ''.'' @
     pad_dec 6 (dt_microsecond d)"
  have nt: "\<not> is_tz_char c" if "c \<in> set ?t" for c
    using that by (auto simp: is_tz_char_def dest: pad_dec_digits)
  note tz = take_while_no_tz [of ?t "''00:00''", OF nt]
  have date: "parse_isoformat_date (isoformat_utc d) =
      Some ((dt_year d, dt_month d, dt_day d), CHR ''T'' # ?t @ ''+00:00'')"
    using parse_date_text [of d "''T'' @ ?t @ ''+00:00''"] assms by (simp add: isoformat_utc_def)
  let ?d = "\<lparr>dt_year = dt_year d, dt_month = dt_month d, dt_day = dt_day d, dt_hour = dt_hour d, dt_minute = dt_minute d,
      dt_second = dt_second d, dt_microsecond = dt_microsecond d, dt_offset = Some 0\<rparr>"
  have d: "?d = d" using assms by simp
  have "datetime_ok ?d" by (subst d) (use assms in simp)
  then show ?thesis
    unfolding fromisoformat_def date using tz parse_clock_text [of d] parse_zero_offset assms
    by (simp add: Let_def)
qed

lemma parse_canon_text: "utc_ok d \<Longrightarrow> parse_instant (canon_text d) = Some d"
  by (simp add: parse_instant_def replace_canon_text fromisoformat_isoformat_utc)

lemma canonical_timestamp_canon_text: "utc_ok d \<Longrightarrow> canonical_timestamp (canon_text d) = Inr (canon_text d)"
  by (simp add: canonical_timestamp_def strip_canon_text parse_canon_text astimezone_utc_def canon_text_of_isoformat)

section \<open>The order of instants\<close>

lemma days_before_month_1 [simp]: "days_before_month y 1 = 0"
  by (simp add: days_before_month_def)

lemma days_before_month_Suc:
  "1 \<le> m \<Longrightarrow> days_before_month y (m + 1) = days_before_month y m + days_in_month y m"
  by (simp add: days_before_month_def upto_rec2)

lemma days_before_month_mono:
  assumes "m \<le> m'" "1 \<le> m"
  shows "days_before_month y m \<le> days_before_month y m'"
  using assms
proof (induction m' rule: int_ge_induct)
  case (step i)
  then show ?case using days_before_month_Suc [of i y] days_in_month_range [of y i] by linarith
qed simp

lemma days_before_month_step:
  "1 \<le> m \<Longrightarrow> m < m' \<Longrightarrow> days_before_month y m + days_in_month y m \<le> days_before_month y m'"
  using days_before_month_mono [of "m + 1" m' y] days_before_month_Suc [of m y] by simp

lemma upto_12: "[1..12 :: int] = [1, 2, 3, 4, 5, 6, 7, 8, 9, 10, 11, 12]"
  by (simp add: upto_rec1)

lemma days_before_month_13: "days_before_month y 13 = (if is_leap y then 366 else 365)"
  by (simp add: days_before_month_def upto_12 days_in_month_def)

lemma div_Suc_int:
  assumes "0 \<le> x" "0 < k"
  shows "(x + 1) div k = x div k + (if (x + 1) mod k = 0 then 1 else (0 :: int))"
proof -
  have "int (Suc (nat x) div nat k) = int (nat x div nat k) + (if int (Suc (nat x) mod nat k) = 0 then 1 else 0)"
    by (simp add: div_Suc)
  then show ?thesis using assms by (simp add: zdiv_int zmod_int add.commute)
qed

lemma leap_count:
  "(c \<longrightarrow> f) \<Longrightarrow> (g \<longrightarrow> c) \<Longrightarrow>
     (if f then 1 else 0) - (if c then 1 else 0) + (if g then 1 else 0) = (if f \<and> (\<not> c \<or> g) then 1 else (0 :: int))"
  by (cases f; cases c; cases g) simp_all

lemma days_before_year_Suc:
  assumes "1 \<le> y"
  shows "days_before_year (y + 1) = days_before_year y + (if is_leap y then 366 else 365)"
proof -
  have d: "y div k = (y - 1) div k + (if y mod k = 0 then 1 else 0)" if "0 < k" for k
    using div_Suc_int [of "y - 1" k] that assms by simp
  have m: "y mod 100 = 0 \<longrightarrow> y mod 4 = 0" "y mod 400 = 0 \<longrightarrow> y mod 100 = 0"
    using dvd_trans [of 4 100 y] dvd_trans [of 100 400 y] by (simp_all add: dvd_eq_mod_eq_0)
  define a b c where "a = (y - 1) div 4" and "b = (y - 1) div 100" and "c = (y - 1) div 400"
  define i j k where "i = (if y mod 4 = 0 then 1 else (0 :: int))" and "j = (if y mod 100 = 0 then 1 else (0 :: int))"
    and "k = (if y mod 400 = 0 then 1 else (0 :: int))"
  have y1: "y + 1 - 1 = y" by simp
  have "days_before_year (y + 1) = y * 365 + (a + i) - (b + j) + (c + k)"
    unfolding days_before_year_def y1 a_def b_def c_def i_def j_def k_def
    by (subst d [of 4], simp, subst d [of 100], simp, subst d [of 400], simp, rule refl)
  moreover have "days_before_year y = (y - 1) * 365 + a - b + c"
    unfolding days_before_year_def a_def b_def c_def by (rule refl)
  moreover have "i - j + k = (if is_leap y then 1 else 0)"
    unfolding i_def j_def k_def is_leap_def by (rule leap_count [OF m])
  ultimately show ?thesis by (cases "is_leap y") (simp_all add: algebra_simps)
qed

lemma days_before_year_mono:
  assumes "y \<le> y'" "1 \<le> y"
  shows "days_before_year y \<le> days_before_year y'"
  using assms
proof (induction y' rule: int_ge_induct)
  case (step i)
  then show ?case using days_before_year_Suc [of i] by (auto split: if_splits)
qed simp

lemma toordinal_year:
  assumes "date_ok y m d"
  shows "days_before_year y < toordinal y m d" "toordinal y m d \<le> days_before_year (y + 1)"
proof -
  have m: "1 \<le> m" "m < 13" "1 \<le> d" "d \<le> days_in_month y m" "1 \<le> y" using assms by (auto simp: date_ok_def)
  show "days_before_year y < toordinal y m d"
    using m days_before_month_mono [of 1 m y] by (simp add: toordinal_def)
  show "toordinal y m d \<le> days_before_year (y + 1)"
    using m days_before_month_step [of m 13 y] days_before_year_Suc [of y]
    by (simp add: toordinal_def days_before_month_13)
qed

lemma toordinal_less_month:
  assumes "date_ok y m d" "date_ok y m' d'"
  shows "toordinal y m d < toordinal y m' d' \<longleftrightarrow> m < m' \<or> m = m' \<and> d < d'"
  using assms days_before_month_step [of m m' y] days_before_month_step [of m' m y]
  by (cases m m' rule: linorder_cases) (auto simp: toordinal_def date_ok_def)

lemma toordinal_less:
  assumes "date_ok y m d" "date_ok y' m' d'"
  shows "toordinal y m d < toordinal y' m' d' \<longleftrightarrow> y < y' \<or> y = y' \<and> (m < m' \<or> m = m' \<and> d < d')"
proof (cases y y' rule: linorder_cases)
  case less
  then have "days_before_year (y + 1) \<le> days_before_year y'"
    using days_before_year_mono [of "y + 1" y'] assms by (simp add: date_ok_def)
  then show ?thesis using less toordinal_year [OF assms(1)] toordinal_year [OF assms(2)] by linarith
next
  case greater
  then have "days_before_year (y' + 1) \<le> days_before_year y"
    using days_before_year_mono [of "y' + 1" y] assms by (simp add: date_ok_def)
  then show ?thesis using greater toordinal_year [OF assms(1)] toordinal_year [OF assms(2)] by linarith
qed (use toordinal_less_month assms in simp)

lemma toordinal_inject:
  assumes "date_ok y m d" "date_ok y' m' d'"
  shows "toordinal y m d = toordinal y' m' d' \<longleftrightarrow> y = y' \<and> m = m' \<and> d = d'"
  using toordinal_less [OF assms] toordinal_less [OF assms(2,1)] by linarith

lemma radix_less:
  fixes a :: int
  assumes "0 \<le> b" "b < r" "0 \<le> b'" "b' < r"
  shows "a * r + b < a' * r + b' \<longleftrightarrow> a < a' \<or> a = a' \<and> b < b'"
proof (cases a a' rule: linorder_cases)
  case less
  then have "(a + 1) * r \<le> a' * r" using assms by (intro mult_right_mono) auto
  then show ?thesis using less assms by (simp add: algebra_simps)
next
  case greater
  then have "(a' + 1) * r \<le> a * r" using assms by (intro mult_right_mono) auto
  then show ?thesis using greater assms by (simp add: algebra_simps)
qed simp

lemma instant_radix:
  "dt_offset d = Some 0 \<Longrightarrow> instant d =
     (((toordinal (dt_year d) (dt_month d) (dt_day d) * 24 + dt_hour d) * 60 + dt_minute d) * 60 + dt_second d) * 1000000
     + dt_microsecond d"
  by (simp add: instant_def clock_us_def day_us_def)

lemma canon_text_less:
  assumes "utc_ok a" "utc_ok b"
  shows "canon_text a < canon_text b \<longleftrightarrow> instant a < instant b"
proof -
  note A = datetime_ok_bounds [of a, OF conjunct1 [OF assms(1)]] and B = datetime_ok_bounds [of b, OF conjunct1 [OF assms(2)]]
  have c: "0 \<le> dt_hour a" "dt_hour a < 24" "0 \<le> dt_hour b" "dt_hour b < 24" "0 \<le> dt_minute a" "dt_minute a < 60"
    "0 \<le> dt_minute b" "dt_minute b < 60" "0 \<le> dt_second a" "dt_second a < 60" "0 \<le> dt_second b" "dt_second b < 60"
    "0 \<le> dt_microsecond a" "dt_microsecond a < 1000000" "0 \<le> dt_microsecond b" "dt_microsecond b < 1000000"
    "date_ok (dt_year a) (dt_month a) (dt_day a)" "date_ok (dt_year b) (dt_month b) (dt_day b)"
    using assms by (simp_all add: datetime_ok_def)
  have "instant a < instant b \<longleftrightarrow>
      dt_year a < dt_year b \<or> dt_year a = dt_year b \<and> (dt_month a < dt_month b \<or> dt_month a = dt_month b \<and>
      (dt_day a < dt_day b \<or> dt_day a = dt_day b \<and> (dt_hour a < dt_hour b \<or> dt_hour a = dt_hour b \<and>
      (dt_minute a < dt_minute b \<or> dt_minute a = dt_minute b \<and> (dt_second a < dt_second b \<or> dt_second a = dt_second b \<and>
      dt_microsecond a < dt_microsecond b)))))"
  proof -
    have e: "x * r + u = x' * r + u' \<longleftrightarrow> x = x' \<and> u = u'" if "0 \<le> u" "u < r" "0 \<le> u'" "u' < r" for x x' r u u' :: int
      using radix_less [of u r u' x x'] radix_less [of u' r u x' x] that by linarith
    show ?thesis
      by (simp only: instant_radix [OF conjunct2 [OF assms(1)]] instant_radix [OF conjunct2 [OF assms(2)]]
          radix_less e c toordinal_less toordinal_inject) blast
  qed
  moreover have "canon_text a < canon_text b \<longleftrightarrow>
      dt_year a < dt_year b \<or> dt_year a = dt_year b \<and> (dt_month a < dt_month b \<or> dt_month a = dt_month b \<and>
      (dt_day a < dt_day b \<or> dt_day a = dt_day b \<and> (dt_hour a < dt_hour b \<or> dt_hour a = dt_hour b \<and>
      (dt_minute a < dt_minute b \<or> dt_minute a = dt_minute b \<and> (dt_second a < dt_second b \<or> dt_second a = dt_second b \<and>
      dt_microsecond a < dt_microsecond b)))))"
    using A B by (simp add: canon_text_def append_less_append pad_dec_less pad_dec_inject)
  ultimately show ?thesis by simp
qed

section \<open>Conversion to UTC\<close>

lemma next_day_ordinal:
  assumes "date_ok y m d" "next_day (y, m, d) = (y', m', d')"
  shows "toordinal y' m' d' = toordinal y m d + 1"
proof (cases "d < days_in_month y m")
  case True
  then show ?thesis using assms by (auto simp: next_day_def toordinal_def)
next
  case False
  then have d: "d = days_in_month y m" using assms(1) by (simp add: date_ok_def)
  show ?thesis
  proof (cases "m < 12")
    case True
    then show ?thesis using assms d days_before_month_Suc [of m y] by (auto simp: next_day_def toordinal_def date_ok_def)
  next
    case m: False
    then have "m = 12" using assms(1) by (simp add: date_ok_def)
    moreover have "1 \<le> y" using assms(1) by (simp add: date_ok_def)
    ultimately show ?thesis
      using assms d days_before_year_Suc [of y] days_before_month_Suc [of 12 y] days_before_month_13 [of y]
      by (auto simp: next_day_def toordinal_def)
  qed
qed

lemma prev_day_ordinal:
  assumes "date_ok y m d" "prev_day (y, m, d) = (y', m', d')" "1 \<le> y'"
  shows "toordinal y' m' d' = toordinal y m d - 1"
proof (cases "1 < d \<or> 1 < m")
  case True
  then show ?thesis using assms days_before_month_Suc [of "m - 1" y]
    by (auto simp: prev_day_def toordinal_def date_ok_def split: if_splits)
next
  case False
  then have "d = 1" "m = 1" using assms(1) by (auto simp: date_ok_def)
  then have y: "y' = y - 1" "m' = 12" "d' = 31" using assms(2) by (auto simp: prev_day_def)
  have "days_before_month y' 13 = days_before_month y' 12 + 31"
    using days_before_month_Suc [of 12 y'] by (simp add: days_in_month_def)
  then show ?thesis
    using days_before_year_Suc [of y'] assms(3) y \<open>d = 1\<close> \<open>m = 1\<close> days_before_month_13 [of y']
    by (simp add: toordinal_def)
qed

lemma clock_us_split:
  assumes "0 \<le> r"
  shows "clock_us (r div 3600000000) (r div 60000000 mod 60) (r div 1000000 mod 60) (r mod 1000000) = r"
proof -
  have "r div 60000000 = r div 1000000 div 60" "r div 3600000000 = r div 1000000 div 60 div 60"
    by (simp_all add: zdiv_zmult2_eq [symmetric])
  then have "r div 3600000000 * 60 + r div 60000000 mod 60 = r div 1000000 div 60"
    by (metis div_mult_mod_eq)
  then show ?thesis
    using \<open>r div 60000000 = r div 1000000 div 60\<close> unfolding clock_us_def by (metis div_mult_mod_eq)
qed

lemma clock_us_range:
  "datetime_ok d \<Longrightarrow> 0 \<le> clock_us (dt_hour d) (dt_minute d) (dt_second d) (dt_microsecond d)
     \<and> clock_us (dt_hour d) (dt_minute d) (dt_second d) (dt_microsecond d) < day_us"
  by (auto simp: clock_us_def datetime_ok_def day_us_def)

lemma astimezone_utc_ok:
  assumes ok: "datetime_ok d" and z: "dt_offset d = Some z" and r: "astimezone_utc d z = Inr u"
  shows "utc_ok u \<and> instant u = instant d"
proof (cases "z = 0")
  case True
  then show ?thesis using assms by (simp add: astimezone_utc_def)
next
  case False
  define t where "t = clock_us (dt_hour d) (dt_minute d) (dt_second d) (dt_microsecond d) - z"
  obtain y m dd where date: "(if t < 0 then prev_day (dt_year d, dt_month d, dt_day d)
      else if day_us \<le> t then next_day (dt_year d, dt_month d, dt_day d) else (dt_year d, dt_month d, dt_day d)) = (y, m, dd)"
    by (metis prod_cases3)
  define q where "q = t mod day_us"
  have u: "u = \<lparr>dt_year = y, dt_month = m, dt_day = dd, dt_hour = q div 3600000000, dt_minute = q div 60000000 mod 60,
      dt_second = q div 1000000 mod 60, dt_microsecond = q mod 1000000, dt_offset = Some 0\<rparr>" and dok: "date_ok y m dd"
    using r False date by (auto simp: astimezone_utc_def t_def [symmetric] q_def [symmetric] Let_def split: if_splits)
  have q: "0 \<le> q" "q < day_us" by (simp_all add: q_def day_us_def)
  have ok0: "date_ok (dt_year d) (dt_month d) (dt_day d)" using ok by (simp add: datetime_ok_def)
  have zr: "\<bar>z\<bar> < day_us" using ok z by (simp add: datetime_ok_def)
  have tr: "- day_us < t" "t < 2 * day_us" using clock_us_range [OF ok] zr by (auto simp: t_def)
  have shift: "toordinal y m dd * day_us + q = toordinal (dt_year d) (dt_month d) (dt_day d) * day_us + t"
  proof -
    consider "t < 0" | "0 \<le> t" "t < day_us" | "day_us \<le> t" by linarith
    then show ?thesis
    proof cases
      case 1
      then have "q = t + day_us" using tr mod_pos_pos_trivial [of "t + day_us" day_us] by (simp add: q_def)
      moreover have "toordinal y m dd = toordinal (dt_year d) (dt_month d) (dt_day d) - 1"
        using 1 date dok prev_day_ordinal [OF ok0] by (simp add: date_ok_def)
      ultimately show ?thesis by (simp add: left_diff_distrib)
    next
      case 2
      then show ?thesis using date by (simp add: q_def)
    next
      case 3
      then have "q = t - day_us" using tr mod_pos_pos_trivial [of "t - day_us" day_us] by (simp add: q_def)
      moreover have "toordinal y m dd = toordinal (dt_year d) (dt_month d) (dt_day d) + 1"
        using 3 tr date next_day_ordinal [OF ok0] by (simp add: day_us_def)
      ultimately show ?thesis by (simp add: distrib_right)
    qed
  qed
  have "instant u = instant d"
  proof -
    have "instant u = toordinal y m dd * day_us + q" unfolding u instant_def by (simp add: clock_us_split [OF q(1)])
    also have "\<dots> = instant d" unfolding shift instant_def t_def z option.case by (rule add_diff_eq)
    finally show ?thesis .
  qed
  moreover have "utc_ok u"
    using q dok zdiv_mono1 [of q "day_us - 1" 3600000000]
    by (simp add: u datetime_ok_def day_us_def pos_imp_zdiv_nonneg_iff)
  ultimately show ?thesis by simp
qed

section \<open>Canonical timestamps\<close>

lemma fromisoformat_ok: "fromisoformat s = Some d \<Longrightarrow> datetime_ok d"
  by (auto simp: fromisoformat_def Let_def split: option.splits prod.splits if_splits)

lemma map_sum_Inr: "map_sum f g x = Inr y \<Longrightarrow> \<exists>z. x = Inr z \<and> y = g z"
  by (cases x) auto

lemma canonical_timestampE:
  assumes "canonical_timestamp s = Inr t"
  obtains d u where "parse_instant (py_strip s) = Some d" "utc_ok u" "instant u = instant d" "t = canon_text u"
proof -
  from assms obtain d z u where d: "parse_instant (py_strip s) = Some d" "dt_offset d = Some z" "astimezone_utc d z = Inr u"
    "t = canon_text u"
    by (auto simp: canonical_timestamp_def canon_text_of_isoformat split: option.splits dest!: map_sum_Inr)
  have "datetime_ok d" using d(1) by (auto simp: parse_instant_def dest: fromisoformat_ok)
  then show thesis using astimezone_utc_ok [OF _ d(2,3)] d that by blast
qed

text \<open>
  A canonical timestamp is a fixed point of \<open>canonical_timestamp\<close>, so the records that
  revalidate a stored instant keep it byte for byte, and it names the same instant as the text it was
  made from, whatever zone that text used.
\<close>

theorem canonical_timestamp_stable:
  assumes "canonical_timestamp s = Inr t"
  shows "canonical_timestamp t = Inr t
    \<and> map_option instant (parse_instant t) = map_option instant (parse_instant (py_strip s))"
proof -
  from assms obtain d u where d: "parse_instant (py_strip s) = Some d" "utc_ok u" "instant u = instant d" "t = canon_text u"
    by (rule canonical_timestampE)
  then show ?thesis by (simp add: canonical_timestamp_canon_text parse_canon_text)
qed

theorem canonical_timestamp_stable_witness:
  "canonical_timestamp ''2024-03-01T00:30:00+01:00'' = Inr ''2024-02-29T23:30:00.000000Z''
   \<and> canonical_timestamp ''2024-02-29T23:30:00.000000Z'' = Inr ''2024-02-29T23:30:00.000000Z''"
proof -
  have "canonical_timestamp ''2024-03-01T00:30:00+01:00'' = Inr ''2024-02-29T23:30:00.000000Z''" by code_simp
  then show ?thesis using canonical_timestamp_stable by blast
qed

lemma canonical_less:
  assumes "canonical_timestamp s = Inr t" "canonical_timestamp s' = Inr t'"
    and "parse_instant (py_strip s) = Some d" "parse_instant (py_strip s') = Some d'"
  shows "t < t' \<longleftrightarrow> instant d < instant d'"
  using assms by (elim canonical_timestampE) (simp add: canon_text_less)

text \<open>
  C35: comparing two canonical timestamps as strings compares the instants of the texts they were made
  from, in both directions; the validity ranges and the SQL of the store compare them as strings.
\<close>

theorem canonical_order_is_time_order:
  assumes "canonical_timestamp s = Inr t" "canonical_timestamp s' = Inr t'"
    and "parse_instant (py_strip s) = Some d" "parse_instant (py_strip s') = Some d'"
  shows "(t < t' \<longleftrightarrow> instant d < instant d') \<and> (t \<le> t' \<longleftrightarrow> instant d \<le> instant d') \<and> (t = t' \<longleftrightarrow> instant d = instant d')"
proof -
  have lt: "t < t' \<longleftrightarrow> instant d < instant d'" by (rule canonical_less [OF assms])
  have gt: "t' < t \<longleftrightarrow> instant d' < instant d" by (rule canonical_less [OF assms(2,1,4,3)])
  have "t \<le> t' \<longleftrightarrow> instant d \<le> instant d'" using gt by (simp add: linorder_not_less [symmetric])
  moreover have "t = t' \<longleftrightarrow> instant d = instant d'" using lt gt by (metis linorder_neq_iff)
  ultimately show ?thesis using lt by simp
qed

theorem canonical_order_is_time_order_witness:
  "\<exists>d d'. parse_instant ''2024-03-01T00:30:00+01:00'' = Some d \<and> parse_instant ''2024-03-01T00:00:00Z'' = Some d'
     \<and> instant d < instant d'"
proof -
  have c: "canonical_timestamp ''2024-03-01T00:30:00+01:00'' = Inr ''2024-02-29T23:30:00.000000Z''"
    "canonical_timestamp ''2024-03-01T00:00:00Z'' = Inr ''2024-03-01T00:00:00.000000Z''" by code_simp+
  obtain d d' where p: "parse_instant (py_strip ''2024-03-01T00:30:00+01:00'') = Some d"
    "parse_instant (py_strip ''2024-03-01T00:00:00Z'') = Some d'"
    using c by (meson canonical_timestampE)
  have s: "py_strip ''2024-03-01T00:30:00+01:00'' = ''2024-03-01T00:30:00+01:00''"
    "py_strip ''2024-03-01T00:00:00Z'' = ''2024-03-01T00:00:00Z''" by code_simp+
  have "''2024-02-29T23:30:00.000000Z'' < ''2024-03-01T00:00:00.000000Z''" by code_simp
  then have "instant d < instant d'" using canonical_order_is_time_order [OF c p] by simp
  then show ?thesis using p s by simp
qed

text \<open>
  The half-open validity range: a mapping is active from its start on and up to but not at its end,
  decided by comparing the canonical texts.
\<close>

lemma timestamp_active_iff:
  assumes "canonical_timestamp at = Inr a" "canonical_timestamp vf = Inr f"
    and "case vt of None \<Rightarrow> True | Some v \<Rightarrow> canonical_timestamp v = Inr e"
  shows "timestamp_active at vf vt = Inr (f \<le> a \<and> (case vt of None \<Rightarrow> True | Some _ \<Rightarrow> a < e))"
proof -
  from assms(1) obtain x where x: "utc_ok x" "a = canon_text x" by (metis canonical_timestampE)
  from assms(2) obtain y where y: "utc_ok y" "f = canon_text y" by (metis canonical_timestampE)
  have le: "f \<le> a \<longleftrightarrow> instant y \<le> instant x" using x y canon_text_less [of x y] by (simp add: linorder_not_less [symmetric])
  show ?thesis
  proof (cases vt)
    case None
    then show ?thesis using assms x y le by (simp add: timestamp_active_def parse_canon_text)
  next
    case (Some v)
    then obtain z where z: "utc_ok z" "e = canon_text z" using assms(3) by (auto elim: canonical_timestampE)
    then show ?thesis using Some assms x y le by (simp add: timestamp_active_def parse_canon_text canon_text_less)
  qed
qed

end
