(* ===== verification/CanonJson.thy ===== *)
theory CanonJson
  imports Canonical Timestamps
begin

text \<open>
  Canonical JSON of the Db2 engine: \<open>db2_behavior/core/canonical_json.py\<close>. \<open>pyval\<close> is the Python value a
  caller hands in, \<open>py_project\<close> the projection to JSON with its error cases, and \<open>canonical_json_bytes\<close>
  the sorted compact text that is hashed (SHA-256 is the parameter \<open>sha\<close>, from text to hexadecimal digest).
  \<open>json_loads\<close> is Python's \<open>json.loads\<close>, with which the evidence store reads its rows back. On ASCII
  text, the text of this development, Unicode normalization form C is the identity. The theorems: reading
  back the canonical text of a value gives the sorted value, so the canonical text determines the value;
  and a value read back has the digest of the value written.
\<close>

section \<open>Results\<close>

definition bindE :: "'e + 'a \<Rightarrow> ('a \<Rightarrow> 'e + 'b) \<Rightarrow> 'e + 'b" where
  "bindE r f = (case r of Inl e \<Rightarrow> Inl e | Inr a \<Rightarrow> f a)"

definition guardE :: "bool \<Rightarrow> 'e \<Rightarrow> 'e + unit" where
  "guardE b e = (if b then Inr () else Inl e)"

lemma bindE_Inr: "bindE r f = Inr b \<longleftrightarrow> (\<exists>a. r = Inr a \<and> f a = Inr b)"
  by (cases r) (auto simp: bindE_def)

lemma guardE_Inr: "guardE b e = Inr u \<longleftrightarrow> b"
  by (auto simp: guardE_def)

section \<open>Projection\<close>

text \<open>
  The values \<open>_project\<close> distinguishes. A model is its class name and its fields in declaration order
  (\<open>model_dump\<close>); a decimal, a date and a path carry the text of \<open>str\<close>, \<open>isoformat\<close> and
  \<open>as_posix\<close>; a float is finite, with the text of its \<open>repr\<close>, or not.
\<close>

datatype pyval =
  PNone | PBool bool | PInt int | PFloat "string option" | PStr string | PStrEnum string | PEnum pyval
| PDecimal string | PDateTime pydatetime | PDate string | PPath string | PBytes string
| PModel string "(string \<times> pyval) list" | PDict "(pyval \<times> pyval) list"
| PList "pyval list" | PTuple "pyval list" | PSet "pyval list" | POther string

datatype canon_error =
  NAIVE_DATETIME | DATETIME_OVERFLOW | NON_FINITE_FLOAT | NON_STRING_KEY | DUPLICATE_KEY string | UNSUPPORTED_TYPE string

definition b64_char :: "nat \<Rightarrow> char" where
  "b64_char n =
     (if n < 26 then char_of (65 + n) else if n < 52 then char_of (71 + n) else if n < 62 then digit_char (n - 52)
      else if n = 62 then CHR ''+'' else CHR ''/'')"

fun b64encode :: "string \<Rightarrow> string" where
  "b64encode [] = []"
| "b64encode [a] = (let x = code_of a in [b64_char (x div 4), b64_char (x mod 4 * 16), CHR ''='', CHR ''=''])"
| "b64encode [a, b] =
     (let x = code_of a; y = code_of b
      in [b64_char (x div 4), b64_char (x mod 4 * 16 + y div 16), b64_char (y mod 16 * 4), CHR ''=''])"
| "b64encode (a # b # c # s) =
     (let x = code_of a; y = code_of b; z = code_of c
      in [b64_char (x div 4), b64_char (x mod 4 * 16 + y div 16), b64_char (y mod 16 * 4 + z div 64), b64_char (z mod 64)])
     @ b64encode s"

fun seq_results :: "('e + 'a) list \<Rightarrow> 'e + 'a list" where
  "seq_results [] = Inr []"
| "seq_results (Inl e # rs) = Inl e"
| "seq_results (Inr x # rs) = map_sum id (Cons x) (seq_results rs)"

fun key_text :: "pyval \<Rightarrow> string option" where
  "key_text (PStr s) = Some s"
| "key_text (PStrEnum s) = Some s"
| "key_text _ = None"

text \<open>The loop over \<open>value.items()\<close>: the key is checked before the item is projected.\<close>

fun put_items :: "(string \<times> jval) list \<Rightarrow> (pyval \<times> (canon_error + jval)) list \<Rightarrow> canon_error + (string \<times> jval) list" where
  "put_items acc [] = Inr acc"
| "put_items acc ((k, r) # rest) =
     (case key_text k of None \<Rightarrow> Inl NON_STRING_KEY
      | Some n \<Rightarrow>
          if n \<in> fst ` set acc then Inl (DUPLICATE_KEY n)
          else (case r of Inl e \<Rightarrow> Inl e | Inr j \<Rightarrow> put_items (acc @ [(n, j)]) rest))"

definition tagged :: "string \<Rightarrow> string \<Rightarrow> canon_error + jval" where
  "tagged tag text = Inr (JObj [(CHR ''$'' # tag, JStr text)])"

fun py_project :: "pyval \<Rightarrow> canon_error + jval" where
  "py_project PNone = Inr JNull"
| "py_project (PBool b) = Inr (JBool b)"
| "py_project (PInt n) = Inr (JInt n)"
| "py_project (PFloat r) = (case r of None \<Rightarrow> Inl NON_FINITE_FLOAT | Some t \<Rightarrow> Inr (JFloat t))"
| "py_project (PStr s) = Inr (JStr s)"
| "py_project (PStrEnum s) = Inr (JStr s)"
| "py_project (PEnum v) = py_project v"
| "py_project (PDecimal t) = tagged ''decimal'' t"
| "py_project (PDateTime d) =
     (case dt_offset d of None \<Rightarrow> Inl NAIVE_DATETIME
      | Some z \<Rightarrow> (case astimezone_utc d z of Inl _ \<Rightarrow> Inl DATETIME_OVERFLOW
                   | Inr u \<Rightarrow> tagged ''datetime'' (py_replace (isoformat_utc u) ''+00:00'' ''Z'')))"
| "py_project (PDate t) = tagged ''date'' t"
| "py_project (PPath t) = tagged ''path'' t"
| "py_project (PBytes b) = tagged ''bytes'' (b64encode b)"
| "py_project (PModel c fs) = map_sum id JObj (put_items [] (map (\<lambda>(k, v). (PStr k, py_project v)) fs))"
| "py_project (PDict kvs) = map_sum id JObj (put_items [] (map (\<lambda>(k, v). (k, py_project v)) kvs))"
| "py_project (PList vs) = map_sum id JList (seq_results (map py_project vs))"
| "py_project (PTuple vs) = map_sum id JList (seq_results (map py_project vs))"
| "py_project (PSet vs) = map_sum id (\<lambda>js. JList (sort_key canonical_json js)) (seq_results (map py_project vs))"
| "py_project (POther c) = Inl (UNSUPPORTED_TYPE c)"

definition canonical_json_bytes :: "pyval \<Rightarrow> canon_error + string" where
  "canonical_json_bytes v = map_sum id canonical_json (py_project v)"

definition core_digest :: "(string \<Rightarrow> string) \<Rightarrow> pyval \<Rightarrow> canon_error + string" where
  "core_digest sha v = map_sum id (sha256_text sha) (canonical_json_bytes v)"

text \<open>A value that \<open>json.loads\<close> returned, as a Python value.\<close>

fun of_json :: "jval \<Rightarrow> pyval" where
  "of_json JNull = PNone"
| "of_json (JBool b) = PBool b"
| "of_json (JInt n) = PInt n"
| "of_json (JFloat r) = PFloat (Some r)"
| "of_json (JStr s) = PStr s"
| "of_json (JList vs) = PList (map of_json vs)"
| "of_json (JObj kvs) = PDict (map (\<lambda>(k, v). (PStr k, of_json v)) kvs)"

text \<open>A sequence of results returns exactly when every one of them does, with one value for each.\<close>

lemma seq_results_exists: "(\<exists>ys. seq_results xs = Inr ys) \<longleftrightarrow> (\<forall>x \<in> set xs. \<exists>y. x = Inr y)"
proof (induction xs)
  case (Cons x xs)
  then show ?case by (cases x; cases "seq_results xs") auto
qed simp

lemma seq_results_elements: "seq_results xs = Inr ys \<Longrightarrow> map Inr ys = xs"
proof (induction xs arbitrary: ys)
  case (Cons x xs)
  then show ?case by (cases x; cases "seq_results xs") auto
qed simp

lemma map_sum_exists: "(\<exists>y. map_sum f g r = Inr y) \<longleftrightarrow> (\<exists>x. r = Inr x)"
  by (cases r) auto

lemma seq_results_pointwise:
  assumes "seq_results (map f xs) = Inr ys"
  shows "list_all2 (\<lambda>x y. f x = Inr y) xs ys"
  using seq_results_elements [OF assms] by (auto simp: list_all2_conv_all_nth dest: map_eq_imp_length_eq) (metis length_map nth_map)

lemma list_all2_left: "list_all2 P xs ys \<Longrightarrow> x \<in> set xs \<Longrightarrow> \<exists>y \<in> set ys. P x y"
  by (metis in_set_conv_nth list_all2_conv_all_nth)

lemma list_all2_right: "list_all2 P xs ys \<Longrightarrow> y \<in> set ys \<Longrightarrow> \<exists>x \<in> set xs. P x y"
  by (metis in_set_conv_nth list_all2_conv_all_nth)

section \<open>Reading JSON\<close>

definition json_ws :: "char \<Rightarrow> bool" where
  "json_ws c = (c = spc \<or> c = nl \<or> c = cr \<or> c = CHR 0x09)"

definition skip_ws :: "string \<Rightarrow> string" where
  "skip_ws s = dropWhile json_ws s"

definition hex_value :: "char \<Rightarrow> nat option" where
  "hex_value c =
     (let n = code_of c in
      if is_digit c then Some (n - 48) else if 97 \<le> n \<and> n \<le> 102 then Some (n - 87)
      else if 65 \<le> n \<and> n \<le> 70 then Some (n - 55) else None)"

definition unescape :: "char \<Rightarrow> char option" where
  "unescape c =
     (if c = dquote \<or> c = CHR 0x5C \<or> c = CHR ''/'' then Some c
      else if c = CHR ''n'' then Some nl else if c = CHR ''r'' then Some cr else if c = CHR ''t'' then Some (CHR 0x09)
      else if c = CHR ''b'' then Some (CHR 0x08) else if c = CHR ''f'' then Some (CHR 0x0C) else None)"

text \<open>
  The text after an opening quote. Only the escapes of characters below 256 occur in this
  development's text, those with the first two digits zero.
\<close>

fun parse_string :: "string \<Rightarrow> (string \<times> string) option" where
  "parse_string [] = None"
| "parse_string (c # s) =
     (if c = dquote then Some ([], s)
      else if c = CHR 0x5C then
        (case s of [] \<Rightarrow> None
         | d # t \<Rightarrow>
             if d = CHR ''u'' then
               (case t of
                  z1 # z2 # h # l # u \<Rightarrow>
                    (case (hex_value z1, hex_value z2, hex_value h, hex_value l) of
                       (Some 0, Some 0, Some x, Some y) \<Rightarrow>
                         map_option (map_prod (Cons (char_of (16 * x + y))) id) (parse_string u)
                     | _ \<Rightarrow> None)
                | _ \<Rightarrow> None)
             else (case unescape d of None \<Rightarrow> None | Some e \<Rightarrow> map_option (map_prod (Cons e) id) (parse_string t)))
      else if code_of c < 32 then None
      else map_option (map_prod (Cons c) id) (parse_string s))"

text \<open>Python's \<open>NUMBER_RE\<close>: an integer part without leading zeros, a fraction, an exponent.\<close>

definition int_part :: "string \<Rightarrow> (string \<times> string) option" where
  "int_part s =
     (case s of [] \<Rightarrow> None
      | c # r \<Rightarrow> if c = CHR ''0'' then Some ([c], r) else if is_digit c then Some (takeWhile is_digit s, dropWhile is_digit s) else None)"

definition frac_part :: "string \<Rightarrow> string \<times> string" where
  "frac_part s =
     (case s of c # d # r \<Rightarrow>
        if c = CHR ''.'' \<and> is_digit d then (c # takeWhile is_digit (d # r), dropWhile is_digit (d # r)) else ([], s)
      | _ \<Rightarrow> ([], s))"

definition exp_part :: "string \<Rightarrow> string \<times> string" where
  "exp_part s =
     (case s of c # r \<Rightarrow>
        if c = CHR ''e'' \<or> c = CHR ''E'' then
          (let sign = takeWhile (\<lambda>x. x = CHR ''+'' \<or> x = CHR ''-'') (take 1 r); t = drop (length sign) r;
               ds = takeWhile is_digit t
           in if ds = [] then ([], s) else (c # sign @ ds, dropWhile is_digit t))
        else ([], s)
      | _ \<Rightarrow> ([], s))"

definition parse_number :: "string \<Rightarrow> (jval \<times> string) option" where
  "parse_number s =
     (let neg = (case s of c # _ \<Rightarrow> c = CHR ''-'' | [] \<Rightarrow> False); t = (if neg then tl s else s) in
      case int_part t of None \<Rightarrow> None
      | Some (ds, r) \<Rightarrow>
          (let (f, r2) = frac_part r; (e, r3) = exp_part r2 in
           if f = [] \<and> e = [] then Some (JInt (if neg then - int (dec_value ds) else int (dec_value ds)), r3)
           else Some (JFloat ((if neg then ''-'' else []) @ ds @ f @ e), r3)))"

definition literal :: "string \<Rightarrow> jval \<Rightarrow> string \<Rightarrow> (jval \<times> string) option" where
  "literal w v s = (if py_startswith s w then Some (v, drop (length w) s) else None)"

text \<open>
  The recursive descent, with a fuel that twice the length of the text bounds. An object keeps the last of
  equal keys, as a Python dictionary does.
\<close>

fun parse_value :: "nat \<Rightarrow> string \<Rightarrow> (jval \<times> string) option"
  and parse_elems :: "nat \<Rightarrow> string \<Rightarrow> (jval list \<times> string) option"
  and parse_members :: "nat \<Rightarrow> (string \<times> jval) list \<Rightarrow> string \<Rightarrow> ((string \<times> jval) list \<times> string) option" where
  "parse_value 0 s = None"
| "parse_value (Suc n) s =
     (case s of [] \<Rightarrow> None
      | c # t \<Rightarrow>
          if c = CHR ''['' then
            (if next_is (CHR '']'') (skip_ws t) then Some (JList [], tl (skip_ws t))
             else map_option (map_prod JList id) (parse_elems n (skip_ws t)))
          else if c = CHR ''{'' then
            (if next_is (CHR ''}'') (skip_ws t) then Some (JObj [], tl (skip_ws t))
             else map_option (map_prod JObj id) (parse_members n [] (skip_ws t)))
          else if c = dquote then map_option (map_prod JStr id) (parse_string t)
          else if c = CHR ''n'' then literal ''null'' JNull s
          else if c = CHR ''t'' then literal ''true'' (JBool True) s
          else if c = CHR ''f'' then literal ''false'' (JBool False) s
          else parse_number s)"
| "parse_elems 0 s = None"
| "parse_elems (Suc n) s =
     (case parse_value n s of None \<Rightarrow> None
      | Some (v, t) \<Rightarrow>
          (let r = skip_ws t in
           if next_is (CHR '']'') r then Some ([v], tl r)
           else if next_is (CHR '','') r then map_option (map_prod (Cons v) id) (parse_elems n (skip_ws (tl r)))
           else None))"
| "parse_members 0 acc s = None"
| "parse_members (Suc n) acc s =
     (if \<not> next_is dquote s then None
      else (case parse_string (tl s) of None \<Rightarrow> None
        | Some (k, t) \<Rightarrow>
            (let r = skip_ws t in
             if \<not> next_is (CHR '':'') r then None
             else (case parse_value n (skip_ws (tl r)) of None \<Rightarrow> None
               | Some (v, u) \<Rightarrow>
                   (let q = skip_ws u; acc' = dict_set k v acc in
                    if next_is (CHR ''}'') q then Some (acc', tl q)
                    else if next_is (CHR '','') q then parse_members n acc' (skip_ws (tl q))
                    else None)))))"

definition json_loads :: "string \<Rightarrow> jval option" where
  "json_loads s =
     (case parse_value (2 * length s + 2) (skip_ws s) of
        Some (v, r) \<Rightarrow> if skip_ws r = [] then Some v else None
      | None \<Rightarrow> None)"

text \<open>\<open>json.dumps\<close> of a list of strings with the default separators and \<open>ensure_ascii\<close>.\<close>

definition ascii_char :: "char \<Rightarrow> string" where
  "ascii_char c =
     (if code_of c < 127 then json_char c
      else [CHR 0x5C, CHR ''u'', CHR ''0'', CHR ''0'', hex_digit (code_of c div 16), hex_digit (code_of c mod 16)])"

definition dumps_strings :: "string list \<Rightarrow> string" where
  "dumps_strings xs = ''['' @ py_join '', '' (map (\<lambda>s. [dquote] @ concat (map ascii_char s) @ [dquote]) xs) @ '']''"

section \<open>Reading back what was written\<close>

lemma hex_value_hex_digit [simp]: "d < 16 \<Longrightarrow> hex_value (hex_digit d) = Some d"
proof -
  assume d: "d < 16"
  show ?thesis
  proof (cases "d < 10")
    case True
    then show ?thesis by (simp add: hex_value_def hex_digit_def is_digit_def code_of_digit_char)
  next
    case False
    then have "code_of (char_of (87 + d)) = 87 + d" using d by (simp add: code_of_def)
    then show ?thesis using False d by (simp add: hex_value_def hex_digit_def is_digit_def Let_def)
  qed
qed

lemma code_of_less_256 [simp]: "code_of c < 256"
  by (simp add: code_of_def)

lemma char_of_code_of [simp]: "char_of (code_of c) = c"
  by (simp add: code_of_def)

lemma hex_zero [simp]: "hex_value (CHR ''0'') = Some 0"
  by (simp add: hex_value_def is_digit_def code_of_def)

lemma parse_hex_escape:
  "parse_string (CHR 0x5C # CHR ''u'' # CHR ''0'' # CHR ''0'' # hex_digit (code_of c div 16) # hex_digit (code_of c mod 16) # s) =
     map_option (map_prod (Cons c) id) (parse_string s)"
proof -
  have "code_of c div 16 < 16" using code_of_less_256 [of c] by linarith
  then show ?thesis by simp
qed

lemma parse_json_char: "parse_string (json_char c @ s) = map_option (map_prod (Cons c) id) (parse_string s)"
proof (cases "c = dquote \<or> c = CHR 0x5C \<or> c = nl \<or> c = cr \<or> c = CHR 0x09 \<or> c = CHR 0x08 \<or> c = CHR 0x0C")
  case True
  then show ?thesis by (elim disjE) (simp_all add: json_char_def unescape_def)
next
  case False
  then show ?thesis
  proof (cases "code_of c < 32")
    case True
    then have "json_char c = [CHR 0x5C, CHR ''u'', CHR ''0'', CHR ''0'', hex_digit (code_of c div 16), hex_digit (code_of c mod 16)]"
      using False by (simp add: json_char_def)
    then show ?thesis using parse_hex_escape [of c s] by simp
  next
    case big: False
    then have "json_char c = [c]" using False by (simp add: json_char_def)
    then show ?thesis using False big by simp
  qed
qed

lemma parse_ascii_char: "parse_string (ascii_char c @ s) = map_option (map_prod (Cons c) id) (parse_string s)"
  using parse_hex_escape [of c s] by (simp add: ascii_char_def parse_json_char del: parse_string.simps)

lemma parse_string_chars:
  assumes "\<And>c s. parse_string (f c @ s) = map_option (map_prod (Cons c) id) (parse_string s)"
  shows "parse_string (concat (map f t) @ dquote # r) = Some (t, r)"
  by (induction t) (simp_all add: assms)

lemmas parse_json_string = parse_string_chars [of json_char, OF parse_json_char]

definition delim :: "string \<Rightarrow> bool" where
  "delim r = (case r of [] \<Rightarrow> True | c # _ \<Rightarrow> c = CHR '','' \<or> c = CHR '']'' \<or> c = CHR ''}'')"

lemma delim_simps [simp]: "delim []" "delim (CHR '','' # r)" "delim (CHR '']'' # r)" "delim (CHR ''}'' # r)"
  by (simp_all add: delim_def)

lemma nat_dec_nonempty [simp]: "nat_dec n \<noteq> []"
  by (subst nat_dec.simps) simp

lemma digit_char_zero: "d < 10 \<Longrightarrow> digit_char d = CHR ''0'' \<longleftrightarrow> d = 0"
proof -
  have "digit_char 0 = CHR ''0''" by code_simp
  then show "d < 10 \<Longrightarrow> ?thesis" using digit_char_inject [of d 0] by simp
qed

lemma hd_nat_dec: "0 < n \<Longrightarrow> hd (nat_dec n) \<noteq> CHR ''0''"
proof (induction n rule: nat_dec.induct)
  case (1 n)
  then show ?case
    by (subst nat_dec.simps) (auto simp: digit_char_zero)
qed

lemma nat_dec_zero: "nat_dec 0 = ''0''"
  by code_simp

lemma delim_not_number:
  assumes "delim r"
  shows "takeWhile is_digit r = []" "dropWhile is_digit r = r" "frac_part r = ([], r)" "exp_part r = ([], r)"
  using assms by (cases r; auto simp: delim_def is_digit_def code_of_def frac_part_def exp_part_def split: list.splits)+

lemma int_part_nat_dec:
  assumes "delim r"
  shows "int_part (nat_dec n @ r) = Some (nat_dec n, r)"
proof (cases "n = 0")
  case True
  then show ?thesis by (simp add: nat_dec_zero int_part_def)
next
  case False
  then obtain c t where c: "nat_dec n = c # t" by (cases "nat_dec n") auto
  have "c \<noteq> CHR ''0''" using hd_nat_dec [of n] False c by simp
  moreover have d: "x \<in> set (c # t) \<Longrightarrow> is_digit x" for x using nat_dec_digits [of x n] c by simp
  ultimately show ?thesis
    using delim_not_number [OF assms] by (simp add: c int_part_def takeWhile_append2 dropWhile_append2)
qed

lemma parse_number_int_dec:
  assumes "delim r"
  shows "parse_number (int_dec n @ r) = Some (JInt n, r)"
proof (cases "n < 0")
  case True
  then show ?thesis using assms int_part_nat_dec [OF assms, of "nat (- n)"]
    by (simp add: parse_number_def int_dec_def delim_not_number [OF assms])
next
  case False
  obtain c t where c: "nat_dec (nat n) = c # t" by (cases "nat_dec (nat n)") auto
  have "is_digit c" using nat_dec_digits [of c "nat n"] c by simp
  then have "c \<noteq> CHR ''-''" by auto
  then show ?thesis using False int_part_nat_dec [OF assms, of "nat n"] dec_value_nat_dec [of "nat n"]
    by (simp add: parse_number_def int_dec_def delim_not_number [OF assms] c)
qed

text \<open>Values whose objects have distinct keys and that hold no float.\<close>

fun json_ok :: "jval \<Rightarrow> bool" where
  "json_ok (JFloat _) = False"
| "json_ok (JList vs) = list_all json_ok vs"
| "json_ok (JObj kvs) = (distinct (map fst kvs) \<and> list_all (\<lambda>kv. json_ok (snd kv)) kvs)"
| "json_ok _ = True"

lemma is_digit_cases: "is_digit c \<Longrightarrow> \<not> json_ws c \<and> c \<notin> {CHR '']'', CHR ''}'', CHR ''['', CHR ''{'', dquote, CHR ''n'', CHR ''t'', CHR ''f''}"
  by (auto simp: is_digit_def json_ws_def code_of_def)

lemma dumps_start:
  assumes "json_ok v"
  obtains c t where "json_dumps v = c # t" "\<not> json_ws c" "c \<noteq> CHR '']''" "c \<noteq> CHR ''}''"
proof (cases v)
  case (JInt n)
  obtain d u where d: "nat_dec (nat \<bar>n\<bar>) = d # u" by (cases "nat_dec (nat \<bar>n\<bar>)") auto
  then have "is_digit d" using nat_dec_digits [of d "nat \<bar>n\<bar>"] by simp
  then show ?thesis using that JInt d is_digit_cases [of d]
    by (cases "n < 0") (auto simp: int_dec_def json_ws_def)
next
  case (JBool b)
  then show ?thesis using that by (cases b) (auto simp: json_ws_def)
qed (use assms that in \<open>auto simp: json_ws_def json_string_def\<close>)

lemma skip_dumps: "json_ok v \<Longrightarrow> skip_ws (json_dumps v @ r) = json_dumps v @ r"
  by (rule dumps_start [of v]) (auto simp: skip_ws_def)

lemma skip_cons [simp]: "\<not> json_ws c \<Longrightarrow> skip_ws (c # s) = c # s"
  by (simp add: skip_ws_def)

lemma not_ws [simp]: "\<not> json_ws (CHR '','')" "\<not> json_ws (CHR '']'')" "\<not> json_ws (CHR ''}'')" "\<not> json_ws dquote" "\<not> json_ws (CHR '':'')"
  by (simp_all add: json_ws_def)

lemma next_is_cons [simp]: "next_is c (d # s) \<longleftrightarrow> d = c"
  by (simp add: next_is_def)

lemma parse_value_int:
  assumes "delim r"
  shows "parse_value (Suc n) (int_dec i @ r) = Some (JInt i, r)"
proof -
  obtain d u where d: "nat_dec (nat \<bar>i\<bar>) = d # u" by (cases "nat_dec (nat \<bar>i\<bar>)") auto
  then have "is_digit d" using nat_dec_digits [of d "nat \<bar>i\<bar>"] by simp
  note D = is_digit_cases [OF this]
  obtain c t where c: "int_dec i = c # t" and ne: "c \<notin> {CHR ''['', CHR ''{'', dquote, CHR ''n'', CHR ''t'', CHR ''f''}"
  proof (cases "i < 0")
    case True
    then show thesis using that by (simp add: int_dec_def)
  next
    case False
    then show thesis using that d D by (simp add: int_dec_def)
  qed
  have "parse_value (Suc n) (int_dec i @ r) = parse_number (int_dec i @ r)"
    using ne by (simp add: c)
  then show ?thesis using parse_number_int_dec [OF assms] by simp
qed

lemma dict_set_new: "k \<notin> fst ` set acc \<Longrightarrow> dict_set k v acc = acc @ [(k, v)]"
  by (induction acc) auto

definition reads_back :: "jval \<Rightarrow> bool" where
  "reads_back v = (\<forall>n r. delim r \<longrightarrow> 2 * length (json_dumps v) \<le> n \<longrightarrow> parse_value n (json_dumps v @ r) = Some (v, r))"

lemma parse_elems_dumps:
  assumes "vs \<noteq> []" "\<forall>v \<in> set vs. json_ok v \<and> reads_back v"
    and "2 * length (py_join '','' (map json_dumps vs)) + 1 \<le> n"
  shows "parse_elems n (py_join '','' (map json_dumps vs) @ CHR '']'' # r) = Some (vs, r)"
  using assms
proof (induction vs arbitrary: n)
  case (Cons v vs)
  then obtain k where n: "n = Suc k" by (cases n) auto
  show ?case
  proof (cases "vs = []")
    case True
    then have "parse_value k (json_dumps v @ CHR '']'' # r) = Some (v, CHR '']'' # r)"
      using Cons.prems n by (simp add: reads_back_def)
    then show ?thesis using True by (simp add: n)
  next
    case False
    let ?rest = "py_join '','' (map json_dumps vs)"
    have len: "2 * length (json_dumps v) \<le> k" "2 * length ?rest + 1 \<le> k"
      using Cons.prems(3) False by (simp_all add: n py_join_Cons)
    have hd: "parse_value k (json_dumps v @ CHR '','' # ?rest @ CHR '']'' # r) = Some (v, CHR '','' # ?rest @ CHR '']'' # r)"
      using Cons.prems len by (simp add: reads_back_def)
    obtain w ws where w: "vs = w # ws" using False by (cases vs) auto
    have skip: "skip_ws (?rest @ CHR '']'' # r) = ?rest @ CHR '']'' # r"
      using skip_dumps [of w] Cons.prems(2) w by (cases ws) auto
    show ?thesis
      using hd Cons.IH [OF False _ len(2)] Cons.prems(2) False skip
      by (simp add: n py_join_Cons)
  qed
qed simp

definition member_text :: "string \<times> jval \<Rightarrow> string" where
  "member_text kv = json_string (fst kv) @ '':'' @ json_dumps (snd kv)"

lemma parse_members_dumps:
  assumes "kvs \<noteq> []" "\<forall>kv \<in> set kvs. json_ok (snd kv) \<and> reads_back (snd kv)"
    and "distinct (map fst (acc @ kvs))"
    and "2 * length (py_join '','' (map member_text kvs)) + 1 \<le> n"
  shows "parse_members n acc (py_join '','' (map member_text kvs) @ CHR ''}'' # r) = Some (acc @ kvs, r)"
  using assms
proof (induction kvs arbitrary: n acc)
  case (Cons kv kvs)
  then obtain j where n: "n = Suc j" by (cases n) auto
  obtain k v where kv: "kv = (k, v)" by (cases kv)
  have new: "dict_set k v acc = acc @ [(k, v)]" using Cons.prems(3) kv by (intro dict_set_new) auto
  define tail where "tail = (if kvs = [] then CHR ''}'' # r else CHR '','' # py_join '','' (map member_text kvs) @ CHR ''}'' # r)"
  have split: "py_join '','' (map member_text (kv # kvs)) @ CHR ''}'' # r =
      dquote # concat (map json_char k) @ dquote # CHR '':'' # json_dumps v @ tail"
    by (simp add: tail_def member_text_def json_string_def kv py_join_Cons)
  have len1: "2 * length (member_text kv) \<le> j"
    using Cons.prems(4) by (cases "kvs = []") (simp_all add: n py_join_Cons)
  have len: "2 * length (json_dumps v) \<le> j" using len1 by (simp add: kv member_text_def)
  have rest: "2 * length (py_join '','' (map member_text kvs)) + 1 \<le> j" if "kvs \<noteq> []"
    using Cons.prems(4) that by (simp add: n py_join_Cons)
  have "delim tail" by (simp add: tail_def)
  then have val: "parse_value j (json_dumps v @ tail) = Some (v, tail)"
    using Cons.prems(2) len kv by (simp add: reads_back_def)
  have head: "parse_members n acc (dquote # concat (map json_char k) @ dquote # CHR '':'' # json_dumps v @ tail) =
      (if next_is (CHR ''}'') tail then Some (acc @ [(k, v)], tl tail)
       else parse_members j (acc @ [(k, v)]) (skip_ws (tl tail)))"
    using val Cons.prems(2) kv
    by (simp add: n parse_json_string skip_dumps new) (simp add: tail_def)
  show ?case
  proof (cases "kvs = []")
    case True
    then show ?thesis unfolding split head by (simp add: tail_def kv)
  next
    case False
    obtain w ws where w: "kvs = w # ws" using False by (cases kvs) auto
    have "skip_ws (py_join '','' (map member_text kvs) @ CHR ''}'' # r) = py_join '','' (map member_text kvs) @ CHR ''}'' # r"
      using w by (cases ws) (simp_all add: member_text_def json_string_def)
    then show ?thesis
      unfolding split head using Cons.IH [OF False, of "acc @ [(k, v)]" j] Cons.prems rest [OF False] False
      by (simp add: tail_def kv)
  qed
qed simp

lemma dumps_length_pos: "json_ok v \<Longrightarrow> 0 < length (json_dumps v)"
  by (rule dumps_start [of v]) auto

lemma reads_backI:
  assumes "0 < length (json_dumps v)" "\<And>k r. delim r \<Longrightarrow> parse_value (Suc k) (json_dumps v @ r) = Some (v, r)"
  shows "reads_back v"
  unfolding reads_back_def
proof (intro allI impI)
  fix n r assume "delim r" "2 * length (json_dumps v) \<le> n"
  moreover then obtain k where "n = Suc k" using assms(1) by (cases n) auto
  ultimately show "parse_value n (json_dumps v @ r) = Some (v, r)" using assms(2) by simp
qed

lemmas json_ok_induct = json_ok.induct [case_names float elements members null bool int str]

lemma json_ok_reads_back: "json_ok v \<Longrightarrow> reads_back v"
proof (induction v rule: json_ok_induct)
  case (elements vs)
  have all: "\<forall>v \<in> set vs. json_ok v \<and> reads_back v" using elements by (simp add: list_all_iff)
  show ?case
    unfolding reads_back_def
  proof (intro allI impI)
    fix n r assume r: "delim r" "2 * length (json_dumps (JList vs)) \<le> n"
    then obtain k where n: "n = Suc k" by (cases n) auto
    show "parse_value n (json_dumps (JList vs) @ r) = Some (JList vs, r)"
    proof (cases "vs = []")
      case True
      then show ?thesis by (simp add: n)
    next
      case False
      then obtain w ws where w: "vs = w # ws" by (cases vs) auto
      let ?t = "py_join '','' (map json_dumps vs) @ CHR '']'' # r"
      have "json_ok w" using all w by simp
      then obtain c t where c: "json_dumps w = c # t" "\<not> json_ws c" "c \<noteq> CHR '']''" by (rule dumps_start)
      have "skip_ws ?t = ?t \<and> \<not> next_is (CHR '']'') ?t" using c w by (cases ws) simp_all
      moreover have "parse_elems k ?t = Some (vs, r)" using parse_elems_dumps [OF False all] r n by simp
      ultimately show ?thesis by (simp add: n)
    qed
  qed
next
  case (members kvs)
  have all: "\<forall>kv \<in> set kvs. json_ok (snd kv) \<and> reads_back (snd kv)" and dist: "distinct (map fst kvs)"
    using members by (auto simp: list_all_iff)
  have mt: "json_dumps (JObj kvs) = CHR ''{'' # py_join '','' (map member_text kvs) @ ''}''"
    by (simp add: member_text_def [abs_def] split_def)
  show ?case
    unfolding reads_back_def
  proof (intro allI impI)
    fix n r assume r: "delim r" "2 * length (json_dumps (JObj kvs)) \<le> n"
    then obtain k where n: "n = Suc k" by (cases n) auto
    show "parse_value n (json_dumps (JObj kvs) @ r) = Some (JObj kvs, r)"
    proof (cases "kvs = []")
      case True
      then show ?thesis by (simp add: n)
    next
      case False
      then obtain w ws where w: "kvs = w # ws" by (cases kvs) auto
      let ?t = "py_join '','' (map member_text kvs) @ CHR ''}'' # r"
      have "skip_ws ?t = ?t \<and> \<not> next_is (CHR ''}'') ?t" using w by (cases ws) (simp_all add: member_text_def json_string_def)
      moreover have "parse_members k [] ?t = Some (kvs, r)"
        using parse_members_dumps [OF False all, of "[]" k r] dist r n by (simp add: mt del: json_dumps.simps)
      ultimately show ?thesis unfolding mt by (simp add: n)
    qed
  qed
next
  case null
  then show ?case by (intro reads_backI) (simp_all add: literal_def py_startswith_def)
next
  case (bool b)
  then show ?case by (cases b) (auto intro!: reads_backI simp: literal_def py_startswith_def)
next
  case (int i)
  then show ?case using parse_value_int by (intro reads_backI) (simp_all add: int_dec_def)
next
  case (str s)
  then show ?case by (intro reads_backI) (simp_all add: json_string_def parse_json_string)
qed simp

section \<open>Projection and digest of what was read back\<close>

lemma put_items_of_json:
  assumes "distinct (map fst (acc @ kvs))" "\<forall>kv \<in> set kvs. py_project (of_json (snd kv)) = Inr (snd kv)"
  shows "put_items acc (map (\<lambda>(k, v). (k, py_project v)) (map (\<lambda>(k, v). (PStr k, of_json v)) kvs)) = Inr (acc @ kvs)"
  using assms
proof (induction kvs arbitrary: acc)
  case (Cons kv kvs)
  then show ?case using Cons.IH [of "acc @ [kv]"] by (cases kv) auto
qed simp

lemma seq_results_Inr: "(\<And>x. x \<in> set xs \<Longrightarrow> f x = Inr (g x)) \<Longrightarrow> seq_results (map f xs) = Inr (map g xs)"
  by (induction xs) auto

lemma project_of_json: "json_ok v \<Longrightarrow> py_project (of_json v) = Inr v"
proof (induction v rule: json_ok.induct)
  case (2 vs)
  then have "seq_results (map (\<lambda>v. py_project (of_json v)) vs) = Inr (map (\<lambda>v. v) vs)"
    by (intro seq_results_Inr) (auto simp: list_all_iff)
  then show ?case by (simp add: comp_def)
next
  case (3 kvs)
  then have "\<forall>kv \<in> set kvs. py_project (of_json (snd kv)) = Inr (snd kv)" by (auto simp: list_all_iff)
  then show ?case using 3 put_items_of_json [of "[]" kvs] by simp
qed auto

lemma json_ok_normalize: "json_ok v \<Longrightarrow> json_ok (json_normalize v)"
proof (induction v rule: json_normalize.induct)
  case (2 kvs)
  have "distinct (map fst (sort_key fst kvs))" using 2(2) by (simp add: distinct_map)
  then show ?case using 2 by (auto simp: list_all_iff)
qed (auto simp: list_all_iff)

lemma loads_dumps:
  assumes "json_ok v"
  shows "json_loads (json_dumps v) = Some v"
proof -
  have "parse_value (2 * length (json_dumps v) + 2) (json_dumps v @ []) = Some (v, [])"
    using json_ok_reads_back [OF assms] unfolding reads_back_def by (metis delim_simps(1) le_add1)
  then show ?thesis using skip_dumps [OF assms, of "[]"] by (simp add: json_loads_def skip_ws_def)
qed

lemma loads_canonical: "json_ok v \<Longrightarrow> json_loads (canonical_json v) = Some (json_normalize v)"
  by (simp add: canonical_json_def loads_dumps json_ok_normalize)

lemma canonical_json_normalize [simp]: "canonical_json (json_normalize v) = canonical_json v"
  by (simp add: canonical_json_def json_normalize_sorted json_sorted_normalize)

lemma digest_read_back:
  assumes "py_project v = Inr j" "json_ok j"
  shows "core_digest sha (of_json (json_normalize j)) = core_digest sha v"
  using assms by (simp add: core_digest_def canonical_json_bytes_def project_of_json json_ok_normalize)



end
