(* ===== verification/GherkinText.thy ===== *)
theory GherkinText
  imports Canonical
begin

text \<open>
  Canonical Gherkin text and its digest: \<open>db2_behavior/bdd/gherkin.py\<close>. The digest of a Gherkin artifact is
  taken over this text, so the theorem that canonicalization is idempotent is what makes the digest of a
  canonical artifact recomputable.
\<close>

datatype gherkin_error = EMPTY_GHERKIN | NUL_IN_GHERKIN

fun split_char :: "char \<Rightarrow> string \<Rightarrow> string list" where
  "split_char c [] = [[]]"
| "split_char c (d # s) =
     (if d = c then [] # split_char c s
      else (case split_char c s of [] \<Rightarrow> [[d]] | l # ls \<Rightarrow> (d # l) # ls))"

definition unix_newlines :: "string \<Rightarrow> string" where
  "unix_newlines s = py_replace (py_replace s [cr, nl] [nl]) [cr] [nl]"

definition rstrip_blank :: "string \<Rightarrow> string" where
  "rstrip_blank = py_rstrip_of (in_chars [spc, CHR 0x09])"

definition drop_empty_tail :: "string list \<Rightarrow> string list" where
  "drop_empty_tail ls = rev (dropWhile (\<lambda>l. l = []) (rev ls))"

definition canonical_gherkin_text :: "string \<Rightarrow> gherkin_error + string" where
  "canonical_gherkin_text s =
     (let ls = drop_empty_tail (map rstrip_blank (split_char nl (unix_newlines s))) in
      if ls = [] then Inl EMPTY_GHERKIN
      else if list_ex (\<lambda>l. CHR 0x00 \<in> set l) ls then Inl NUL_IN_GHERKIN
      else Inr (py_join [nl] ls @ [nl]))"

definition gherkin_digest :: "(string \<Rightarrow> string) \<Rightarrow> string \<Rightarrow> gherkin_error + string" where
  "gherkin_digest sha s = map_sum id (sha256_text sha) (canonical_gherkin_text s)"

section \<open>Facts\<close>

lemma split_char_nonempty [simp]: "split_char c s \<noteq> []"
  by (induction s) (auto split: list.splits)

lemma split_char_no_sep: "l \<in> set (split_char c s) \<Longrightarrow> c \<notin> set l"
  by (induction s arbitrary: l) (fastforce split: list.splits if_splits)+

lemma split_char_chars: "l \<in> set (split_char c s) \<Longrightarrow> set l \<subseteq> set s"
  by (induction s arbitrary: l) (fastforce split: list.splits if_splits)+

lemma split_char_append: "c \<notin> set l \<Longrightarrow> split_char c (l @ c # s) = l # split_char c s"
  by (induction l) auto

lemma split_char_join:
  assumes "ls \<noteq> []" "\<And>l. l \<in> set ls \<Longrightarrow> c \<notin> set l"
  shows "split_char c (py_join [c] ls @ [c]) = ls @ [[]]"
  using assms
proof (induction ls)
  case (Cons l ls)
  then show ?case
    by (cases ls) (simp_all add: split_char_append)
qed simp

lemma set_py_join: "set (py_join sep ls) \<subseteq> set sep \<union> \<Union> (set ` set ls)"
  by (induction sep ls rule: py_join.induct) auto

lemma replace_absent: "\<not> set old \<subseteq> set s \<Longrightarrow> py_replace_fuel n old new s = s"
proof (induction n old new s rule: py_replace_fuel.induct)
  case (3 n old new c s)
  then have "\<not> py_startswith (c # s) old"
    by (metis py_startswith_iff set_append sup_ge1)
  then show ?case using 3 by auto
qed auto

lemma replace_single_gone: "c \<notin> set new \<Longrightarrow> length s \<le> n \<Longrightarrow> c \<notin> set (py_replace_fuel n [c] new s)"
  by (induction n "[c]" new s rule: py_replace_fuel.induct) (auto simp: py_startswith_def)

lemma unix_newlines_no_cr: "cr \<notin> set (unix_newlines s)"
  by (simp add: unix_newlines_def py_replace_def replace_single_gone)

lemma unix_newlines_id: "cr \<notin> set s \<Longrightarrow> unix_newlines s = s"
  by (simp add: unix_newlines_def py_replace_def replace_absent)

lemma rstrip_blank_idem [simp]: "rstrip_blank (rstrip_blank l) = rstrip_blank l"
proof -
  have "dropWhile p (dropWhile p xs) = dropWhile p xs" for p and xs :: "'a list" by (induction xs) auto
  then show ?thesis by (simp add: rstrip_blank_def py_rstrip_of_def)
qed

lemma rstrip_blank_Nil [simp]: "rstrip_blank [] = []"
  by (simp add: rstrip_blank_def py_rstrip_of_def)

lemma rstrip_blank_chars: "set (rstrip_blank l) \<subseteq> set l"
  by (auto simp: rstrip_blank_def py_rstrip_of_def dest: set_dropWhileD)

lemma drop_empty_tail_subset: "set (drop_empty_tail ls) \<subseteq> set ls"
  by (auto simp: drop_empty_tail_def dest: set_dropWhileD)

lemma drop_empty_tail_last: "drop_empty_tail ls \<noteq> [] \<Longrightarrow> last (drop_empty_tail ls) \<noteq> []"
  using hd_dropWhile [of "\<lambda>l. l = []" "rev ls"] by (simp add: drop_empty_tail_def last_rev)

lemma drop_empty_tail_snoc: "ls \<noteq> [] \<Longrightarrow> last ls \<noteq> [] \<Longrightarrow> drop_empty_tail (ls @ [[]]) = ls"
  by (cases ls rule: rev_cases) (auto simp: drop_empty_tail_def)

lemma canonical_gherkin_fixpoint:
  assumes "canonical_gherkin_text s = Inr t"
  shows "canonical_gherkin_text t = Inr t \<and> cr \<notin> set t"
proof -
  let ?ls = "drop_empty_tail (map rstrip_blank (split_char nl (unix_newlines s)))"
  from assms have ls: "?ls \<noteq> []" "\<not> list_ex (\<lambda>l. CHR 0x00 \<in> set l) ?ls" and t: "t = py_join [nl] ?ls @ [nl]"
    by (auto simp: canonical_gherkin_text_def Let_def split: if_splits)
  have l: "nl \<notin> set l \<and> cr \<notin> set l \<and> rstrip_blank l = l" if "l \<in> set ?ls" for l
  proof -
    from that obtain k where k: "k \<in> set (split_char nl (unix_newlines s))" "l = rstrip_blank k"
      using drop_empty_tail_subset by fastforce
    then show ?thesis
      using split_char_no_sep [OF k(1)] split_char_chars [OF k(1)] unix_newlines_no_cr [of s] rstrip_blank_chars [of k]
      by auto
  qed
  have "cr \<notin> set (py_join [nl] ?ls)" using set_py_join [of "[nl]" ?ls] l by auto
  then have cr: "cr \<notin> set t" by (simp add: t)
  have "split_char nl (unix_newlines t) = ?ls @ [[]]"
    using split_char_join [OF ls(1), of nl] l unix_newlines_id [OF cr] by (simp add: t)
  moreover have "map rstrip_blank ?ls = ?ls" using l by (simp add: map_idI)
  ultimately have "drop_empty_tail (map rstrip_blank (split_char nl (unix_newlines t))) = ?ls"
    using drop_empty_tail_snoc [OF ls(1) drop_empty_tail_last [OF ls(1)]] by simp
  then have "canonical_gherkin_text t = Inr t" using ls t by (simp add: canonical_gherkin_text_def)
  then show ?thesis using cr by simp
qed

text \<open>
  Canonical Gherkin text is its own canonical form: it ends with exactly one line feed after a
  line that is not empty, has no carriage return, and canonicalizing it again returns it unchanged, so a
  stored artifact has the digest of the text it was made from.
\<close>

theorem canonical_gherkin_idempotent:
  assumes "canonical_gherkin_text s = Inr t"
  shows "canonical_gherkin_text t = Inr t \<and> cr \<notin> set t \<and> gherkin_digest sha t = gherkin_digest sha s"
  using assms canonical_gherkin_fixpoint [OF assms] by (simp add: gherkin_digest_def)

theorem canonical_gherkin_idempotent_witness:
  "canonical_gherkin_text (''A  '' @ [cr, nl] @ '' B'' @ [nl, nl]) = Inr (''A'' @ [nl] @ '' B'' @ [nl])
   \<and> canonical_gherkin_text (''A'' @ [nl] @ '' B'' @ [nl]) = Inr (''A'' @ [nl] @ '' B'' @ [nl])"
proof -
  have "canonical_gherkin_text (''A  '' @ [cr, nl] @ '' B'' @ [nl, nl]) = Inr (''A'' @ [nl] @ '' B'' @ [nl])" by code_simp
  then show ?thesis using canonical_gherkin_idempotent by blast
qed

end
