(* ===== verification/GovModels.thy ===== *)
theory GovModels
  imports CanonJson GherkinText
begin

text \<open>
  The data of the evidence store: the models of \<open>governance/models.py\<close>, the tables of
  \<open>governance_migrations/0001_initial.sql\<close> as the record \<open>store\<close>, the errors the store raises, and the
  two ways its operations are composed: results with early exit inside one session, and sessions that
  commit one after the other.
\<close>

section \<open>Models\<close>

datatype GovernanceArtifactType =
  SCENARIO_SPEC_BATCH | SCENARIO_SPEC | CLASSIFICATION_OBSERVATION | EFFECT_CLOSURE | RESOLUTION_VECTOR
| ANALYSIS_BUDGET_REPORT | BDD_COMPILATION_BATCH | CANDIDATE_BDD | TRACEABILITY_MANIFEST | GHERKIN_ARTIFACT
| RUNTIME_VERIFICATION_BATCH | RUNTIME_EXECUTION_RECORD | RUNTIME_VERIFICATION_RESULT | PLATFORM_DECISION
| CERTIFICATION_BINDING

fun artifact_type_value :: "GovernanceArtifactType \<Rightarrow> string" where
  "artifact_type_value SCENARIO_SPEC_BATCH = ''SCENARIO_SPEC_BATCH''"
| "artifact_type_value SCENARIO_SPEC = ''SCENARIO_SPEC''"
| "artifact_type_value CLASSIFICATION_OBSERVATION = ''CLASSIFICATION_OBSERVATION''"
| "artifact_type_value EFFECT_CLOSURE = ''EFFECT_CLOSURE''"
| "artifact_type_value RESOLUTION_VECTOR = ''RESOLUTION_VECTOR''"
| "artifact_type_value ANALYSIS_BUDGET_REPORT = ''ANALYSIS_BUDGET_REPORT''"
| "artifact_type_value BDD_COMPILATION_BATCH = ''BDD_COMPILATION_BATCH''"
| "artifact_type_value CANDIDATE_BDD = ''CANDIDATE_BDD''"
| "artifact_type_value TRACEABILITY_MANIFEST = ''TRACEABILITY_MANIFEST''"
| "artifact_type_value GHERKIN_ARTIFACT = ''GHERKIN_ARTIFACT''"
| "artifact_type_value RUNTIME_VERIFICATION_BATCH = ''RUNTIME_VERIFICATION_BATCH''"
| "artifact_type_value RUNTIME_EXECUTION_RECORD = ''RUNTIME_EXECUTION_RECORD''"
| "artifact_type_value RUNTIME_VERIFICATION_RESULT = ''RUNTIME_VERIFICATION_RESULT''"
| "artifact_type_value PLATFORM_DECISION = ''PLATFORM_DECISION''"
| "artifact_type_value CERTIFICATION_BINDING = ''CERTIFICATION_BINDING''"

datatype LocalEvidenceAuthorityScope = LOCAL_NON_AUTHORITATIVE_EVIDENCE

datatype BaselineComparisonStatus = BASELINE_MATCH | BASELINE_CONFLICT | NO_BASELINE | BASELINE_INCONCLUSIVE

fun comparison_status_value :: "BaselineComparisonStatus \<Rightarrow> string" where
  "comparison_status_value BASELINE_MATCH = ''MATCH''"
| "comparison_status_value BASELINE_CONFLICT = ''CONFLICT''"
| "comparison_status_value NO_BASELINE = ''NO_BASELINE''"
| "comparison_status_value BASELINE_INCONCLUSIVE = ''INCONCLUSIVE''"

datatype GovernanceEventType =
  ARTIFACT_CACHED | REFERENCE_BASELINE_CACHED | BASELINE_RETIRED | BASELINE_COMPARED | REVIEW_AMENDMENT_CACHED
| EXTERNAL_PLATFORM_DECISION_CACHED | EXTERNAL_CERTIFICATION_CACHED | ARTIFACT_ADMITTED | BASELINE_REGISTERED
| ARTIFACT_AMENDED | PLATFORM_DECISION_BOUND | CERTIFICATION_BOUND

fun event_type_value :: "GovernanceEventType \<Rightarrow> string" where
  "event_type_value ARTIFACT_CACHED = ''ARTIFACT_CACHED''"
| "event_type_value REFERENCE_BASELINE_CACHED = ''REFERENCE_BASELINE_CACHED''"
| "event_type_value BASELINE_RETIRED = ''BASELINE_RETIRED''"
| "event_type_value BASELINE_COMPARED = ''BASELINE_COMPARED''"
| "event_type_value REVIEW_AMENDMENT_CACHED = ''REVIEW_AMENDMENT_CACHED''"
| "event_type_value EXTERNAL_PLATFORM_DECISION_CACHED = ''EXTERNAL_PLATFORM_DECISION_CACHED''"
| "event_type_value EXTERNAL_CERTIFICATION_CACHED = ''EXTERNAL_CERTIFICATION_CACHED''"
| "event_type_value ARTIFACT_ADMITTED = ''ARTIFACT_ADMITTED''"
| "event_type_value BASELINE_REGISTERED = ''BASELINE_REGISTERED''"
| "event_type_value ARTIFACT_AMENDED = ''ARTIFACT_AMENDED''"
| "event_type_value PLATFORM_DECISION_BOUND = ''PLATFORM_DECISION_BOUND''"
| "event_type_value CERTIFICATION_BOUND = ''CERTIFICATION_BOUND''"

record StoredArtifactRecord =
  sar_artifact_id :: string
  sar_artifact_type :: GovernanceArtifactType
  sar_artifact_ref :: string
  sar_content_digest :: string
  sar_payload_digest :: string
  sar_behavior_id :: "string option"
  sar_source_symbol_id :: "string option"
  sar_symbol_lineage_id :: "string option"
  sar_artifact_revision_id :: "string option"
  sar_parent_artifact_id :: "string option"
  sar_invalidates :: bool
  sar_platform_governance_ref :: "string option"
  sar_authority_scope :: LocalEvidenceAuthorityScope
  sar_created_at :: string

record BaselineRegistration =
  br_registration_id :: string
  br_artifact_id :: string
  br_behavior_id :: string
  br_authority_ref :: string
  br_effective_from :: string
  br_effective_to :: "string option"
  br_content_digest :: string

record BaselineComparisonResult =
  bc_comparison_id :: string
  bc_candidate_artifact_id :: string
  bc_baseline_artifact_id :: "string option"
  bc_behavior_id :: string
  bc_source_symbol_id :: string
  bc_symbol_lineage_id :: string
  bc_artifact_revision_id :: string
  bc_status :: BaselineComparisonStatus
  bc_candidate_signature :: string
  bc_baseline_signature :: "string option"
  bc_classification :: "string option"
  bc_evidence_refs :: "string list"
  bc_compared_at :: string
  bc_content_digest :: string

record AmendmentRecord =
  am_amendment_id :: string
  am_original_artifact_id :: string
  am_amended_artifact_id :: string
  am_behavior_id :: string
  am_source_symbol_id :: string
  am_symbol_lineage_id :: string
  am_artifact_revision_id :: string
  am_editor_ref :: string
  am_reason :: string
  am_amended_at :: string
  am_content_digest :: string

record PlatformDecisionEnvelope =
  pd_binding_id :: string
  pd_artifact_id :: string
  pd_artifact_digest :: string
  pd_platform_decision_ref :: string
  pd_decision_type :: string
  pd_authority_ref :: string
  pd_effective_at :: string
  pd_evidence_refs :: "string list"
  pd_content_digest :: string

record CertificationEnvelope =
  ce_certification_binding_id :: string
  ce_artifact_id :: string
  ce_artifact_digest :: string
  ce_certification_ref :: string
  ce_certification_type :: string
  ce_authority_ref :: string
  ce_valid_from :: string
  ce_valid_to :: "string option"
  ce_evidence_refs :: "string list"
  ce_content_digest :: string

record GovernanceAuditEvent =
  ev_event_id :: string
  ev_sequence :: int
  ev_event_type :: GovernanceEventType
  ev_artifact_id :: string
  ev_actor_ref :: string
  ev_event_at :: string
  ev_payload_digest :: string
  ev_previous_event_digest :: "string option"
  ev_content_digest :: string

record GovernanceHistory =
  gh_artifact :: StoredArtifactRecord
  gh_baseline_registrations :: "BaselineRegistration list"
  gh_comparisons :: "BaselineComparisonResult list"
  gh_amendments :: "AmendmentRecord list"
  gh_platform_decisions :: "PlatformDecisionEnvelope list"
  gh_certifications :: "CertificationEnvelope list"
  gh_audit_events :: "GovernanceAuditEvent list"
  gh_audit_chain_valid :: bool
  gh_content_digest :: string

section \<open>Tables\<close>

text \<open>A row of \<open>governance_artifacts\<close>; \<open>created_at\<close> is stored as it was passed.\<close>

record ArtifactRow =
  row_record :: StoredArtifactRecord
  row_payload_json :: string

record ComparisonRow =
  cr_comparison_id :: string
  cr_candidate_artifact_id :: string
  cr_baseline_artifact_id :: "string option"
  cr_behavior_id :: string
  cr_status :: BaselineComparisonStatus
  cr_candidate_signature :: string
  cr_baseline_signature :: "string option"
  cr_classification :: "string option"
  cr_evidence_refs_json :: string
  cr_compared_at :: string
  cr_content_digest :: string

record AmendmentRow =
  ar_amendment_id :: string
  ar_original_artifact_id :: string
  ar_amended_artifact_id :: string
  ar_editor_ref :: string
  ar_reason :: string
  ar_amended_at :: string
  ar_content_digest :: string

text \<open>The rows of the two envelope tables keep the evidence references as JSON text.\<close>

record DecisionRow =
  dr_envelope :: PlatformDecisionEnvelope
  dr_evidence_refs_json :: string

record CertificationRow =
  cfr_envelope :: CertificationEnvelope
  cfr_evidence_refs_json :: string

record store =
  artifacts :: "ArtifactRow list"
  baselines :: "BaselineRegistration list"
  comparisons :: "ComparisonRow list"
  amendments :: "AmendmentRow list"
  platform_decisions :: "DecisionRow list"
  certifications :: "CertificationRow list"
  audit_events :: "GovernanceAuditEvent list"

definition empty_store :: store where
  "empty_store = \<lparr>artifacts = [], baselines = [], comparisons = [], amendments = [], platform_decisions = [],
     certifications = [], audit_events = []\<rparr>"

datatype gov_error =
  INVALID_CONTENT_DIGEST | CANONICAL_JSON_ERROR canon_error | GHERKIN_ERROR gherkin_error | TIMESTAMP_ERROR ts_error
| IDENTITY_COLLISION string | UNKNOWN_ARTIFACT string | PAYLOAD_DIGEST_MISMATCH string | PAYLOAD_UNREADABLE string
| BINDING_CONFLICT string | NOT_A_BASELINE_ARTIFACT | NOT_A_CANDIDATE | NOT_A_SCENARIO_SPEC | SCENARIO_NOT_ADMITTED string
| CHANGES_BEHAVIOR_ID | CHANGES_SOURCE_SYMBOL_ID | CHANGES_SYMBOL_LINEAGE_ID | ARTIFACT_DIGEST_MISMATCH
| INTEGRITY_ERROR string | VALIDATION_ERROR string | TYPE_ERROR

section \<open>Results and sessions\<close>

definition canonE :: "canon_error + 'a \<Rightarrow> gov_error + 'a" where
  "canonE r = map_sum CANONICAL_JSON_ERROR id r"

definition stampE :: "string \<Rightarrow> gov_error + string" where
  "stampE s = map_sum TIMESTAMP_ERROR id (canonical_timestamp s)"

type_synonym 'a outcome = "(gov_error + 'a) \<times> store"

definition session :: "(store \<Rightarrow> gov_error + ('a \<times> store)) \<Rightarrow> store \<Rightarrow> 'a outcome" where
  "session body st = (case body st of Inl e \<Rightarrow> (Inl e, st) | Inr (a, st') \<Rightarrow> (Inr a, st'))"

definition then_op :: "'a outcome \<Rightarrow> ('a \<Rightarrow> store \<Rightarrow> 'b outcome) \<Rightarrow> 'b outcome" where
  "then_op o1 f = (case o1 of (Inl e, st) \<Rightarrow> (Inl e, st) | (Inr a, st) \<Rightarrow> f a st)"

definition the_default :: "'a \<Rightarrow> 'a option \<Rightarrow> 'a" where
  "the_default d v = (case v of None \<Rightarrow> d | Some x \<Rightarrow> x)"

end
