(* ===== verification/Governance.thy ===== *)
theory Governance
  imports GovModels
begin

text \<open>
  The append-only evidence store of the Db2 engine: \<open>governance/models.py\<close> and the class
  \<open>GovernanceStore\<close> of \<open>governance/adapters/sqlite.py\<close>. The SQLite database is the record
  \<open>store\<close> of its seven tables in row order, with the primary keys, unique and foreign key constraints of
  \<open>governance_migrations/0001_initial.sql\<close> as error results of the inserts. A \<open>with self.session()\<close>
  block is \<open>session\<close>: it commits its writes together or leaves the store as it was. An operation that opens
  several sessions keeps what the earlier ones committed when a later one fails, so every operation returns
  the store beside its result or error. A model instance is a \<open>pyval\<close> with its class name and fields;
  SHA-256 is the parameter \<open>sha\<close>.

  The theorems: every operation only appends rows; in every store reached with canonical timestamps the
  audit chain checks, identities are unique and every reference resolves; with a collision-free hash the
  digest of the last event determines the whole log; an artifact read back is the one admitted, and
  admitting it again changes nothing; a comparison is made with a latest effective baseline and matches exactly when the
  signatures agree.
\<close>

section \<open>Identity and digests\<close>

definition nul :: string where
  "nul = [CHR 0x00]"

definition short_id :: "(string \<Rightarrow> string) \<Rightarrow> string \<Rightarrow> string list \<Rightarrow> string" where
  "short_id sha pre parts = pre @ take 24 (sha (py_join nul parts))"

definition artifact_id_of :: "(string \<Rightarrow> string) \<Rightarrow> GovernanceArtifactType \<Rightarrow> string \<Rightarrow> string \<Rightarrow> string" where
  "artifact_id_of sha ty r d = short_id sha ''gov-artifact-'' [artifact_type_value ty, r, d]"

definition model_class :: "pyval \<Rightarrow> string" where
  "model_class m = (case m of PModel c _ \<Rightarrow> c | _ \<Rightarrow> [])"

definition model_fields :: "pyval \<Rightarrow> (string \<times> pyval) list" where
  "model_fields m = (case m of PModel _ fs \<Rightarrow> fs | _ \<Rightarrow> [])"

text \<open>\<open>getattr\<close> of a text field, \<open>None\<close> for a field that holds \<open>None\<close> or is absent.\<close>

definition attr_opt :: "pyval \<Rightarrow> string \<Rightarrow> string option" where
  "attr_opt m f = (case map_of (model_fields m) f of Some (PStr s) \<Rightarrow> Some s | Some (PStrEnum s) \<Rightarrow> Some s | _ \<Rightarrow> None)"

definition attr_str :: "pyval \<Rightarrow> string \<Rightarrow> string" where
  "attr_str m f = (case attr_opt m f of Some s \<Rightarrow> s | None \<Rightarrow> [])"

definition attr_models :: "pyval \<Rightarrow> string \<Rightarrow> pyval list" where
  "attr_models m f = (case map_of (model_fields m) f of Some (PTuple ms) \<Rightarrow> ms | Some (PList ms) \<Rightarrow> ms | _ \<Rightarrow> [])"

definition digest_without_content_digest :: "(string \<Rightarrow> string) \<Rightarrow> pyval \<Rightarrow> canon_error + string" where
  "digest_without_content_digest sha m =
     core_digest sha (PModel (model_class m) (filter (\<lambda>kv. fst kv \<noteq> ''content_digest'') (model_fields m)))"

definition validate_content_digest :: "(string \<Rightarrow> string) \<Rightarrow> pyval \<Rightarrow> gov_error + string" where
  "validate_content_digest sha m =
     (case attr_opt m ''content_digest'' of
        None \<Rightarrow> canonE (core_digest sha m)
      | Some d \<Rightarrow>
          bindE (if model_class m = ''GherkinArtifact''
                 then map_sum GHERKIN_ERROR id (gherkin_digest sha (attr_str m ''text''))
                 else canonE (digest_without_content_digest sha m))
            (\<lambda>expected. if expected \<noteq> d then Inl INVALID_CONTENT_DIGEST else Inr d))"

section \<open>Rows and constraints\<close>

abbreviation row_id :: "ArtifactRow \<Rightarrow> string" where
  "row_id r \<equiv> sar_artifact_id (row_record r)"

definition artifact_ids :: "store \<Rightarrow> string list" where
  "artifact_ids st = map row_id (artifacts st)"

definition find_artifact :: "store \<Rightarrow> string \<Rightarrow> ArtifactRow option" where
  "find_artifact st i = List.find (\<lambda>r. row_id r = i) (artifacts st)"

text \<open>\<open>INSERT\<close> into \<open>governance_artifacts\<close>: primary key, unique triple, parent reference.\<close>

definition same_source :: "StoredArtifactRecord \<Rightarrow> StoredArtifactRecord \<Rightarrow> bool" where
  "same_source a b =
     (sar_artifact_type a = sar_artifact_type b \<and> sar_artifact_ref a = sar_artifact_ref b
      \<and> sar_content_digest a = sar_content_digest b)"

definition insert_artifact :: "ArtifactRow \<Rightarrow> store \<Rightarrow> gov_error + store" where
  "insert_artifact row st =
     (if row_id row \<in> set (artifact_ids st) then Inl (INTEGRITY_ERROR ''governance_artifacts.artifact_id'')
      else if list_ex (\<lambda>r. same_source (row_record r) (row_record row)) (artifacts st)
      then Inl (INTEGRITY_ERROR ''governance_artifacts.source'')
      else if (case sar_parent_artifact_id (row_record row) of None \<Rightarrow> False
               | Some p \<Rightarrow> p \<notin> set (artifact_ids st) \<and> p \<noteq> row_id row)
      then Inl (INTEGRITY_ERROR ''FOREIGN KEY'')
      else Inr (st\<lparr>artifacts := artifacts st @ [row]\<rparr>))"

definition refers :: "store \<Rightarrow> string \<Rightarrow> bool" where
  "refers st i = (i \<in> set (artifact_ids st))"

definition insert_baseline :: "BaselineRegistration \<Rightarrow> store \<Rightarrow> gov_error + store" where
  "insert_baseline b st =
     (if br_registration_id b \<in> br_registration_id ` set (baselines st) then Inl (INTEGRITY_ERROR ''governance_baselines'')
      else if \<not> refers st (br_artifact_id b) then Inl (INTEGRITY_ERROR ''FOREIGN KEY'')
      else Inr (st\<lparr>baselines := baselines st @ [b]\<rparr>))"

text \<open>\<open>INSERT OR IGNORE\<close>: a primary key that exists keeps the old row; a foreign key still fails.\<close>

definition insert_or_ignore_comparison :: "ComparisonRow \<Rightarrow> store \<Rightarrow> gov_error + store" where
  "insert_or_ignore_comparison c st =
     (if cr_comparison_id c \<in> cr_comparison_id ` set (comparisons st) then Inr st
      else if \<not> refers st (cr_candidate_artifact_id c)
        \<or> (case cr_baseline_artifact_id c of None \<Rightarrow> False | Some b \<Rightarrow> \<not> refers st b) then Inl (INTEGRITY_ERROR ''FOREIGN KEY'')
      else Inr (st\<lparr>comparisons := comparisons st @ [c]\<rparr>))"

definition insert_amendment :: "AmendmentRow \<Rightarrow> store \<Rightarrow> gov_error + store" where
  "insert_amendment a st =
     (if ar_amendment_id a \<in> ar_amendment_id ` set (amendments st) then Inl (INTEGRITY_ERROR ''governance_amendments'')
      else if \<not> refers st (ar_original_artifact_id a) \<or> \<not> refers st (ar_amended_artifact_id a)
      then Inl (INTEGRITY_ERROR ''FOREIGN KEY'')
      else Inr (st\<lparr>amendments := amendments st @ [a]\<rparr>))"

definition insert_decision :: "DecisionRow \<Rightarrow> store \<Rightarrow> gov_error + store" where
  "insert_decision d st =
     (if pd_binding_id (dr_envelope d) \<in> (\<lambda>r. pd_binding_id (dr_envelope r)) ` set (platform_decisions st)
      then Inl (INTEGRITY_ERROR ''governance_platform_decisions'')
      else if \<not> refers st (pd_artifact_id (dr_envelope d)) then Inl (INTEGRITY_ERROR ''FOREIGN KEY'')
      else Inr (st\<lparr>platform_decisions := platform_decisions st @ [d]\<rparr>))"

definition insert_certification :: "CertificationRow \<Rightarrow> store \<Rightarrow> gov_error + store" where
  "insert_certification c st =
     (if ce_certification_binding_id (cfr_envelope c) \<in> (\<lambda>r. ce_certification_binding_id (cfr_envelope r)) ` set (certifications st)
      then Inl (INTEGRITY_ERROR ''governance_certifications'')
      else if \<not> refers st (ce_artifact_id (cfr_envelope c)) then Inl (INTEGRITY_ERROR ''FOREIGN KEY'')
      else Inr (st\<lparr>certifications := certifications st @ [c]\<rparr>))"

section \<open>The audit log\<close>

definition opt_py :: "string option \<Rightarrow> pyval" where
  "opt_py v = (case v of None \<Rightarrow> PNone | Some s \<Rightarrow> PStr s)"

definition py_dict :: "(string \<times> pyval) list \<Rightarrow> pyval" where
  "py_dict kvs = PDict (map (\<lambda>(k, v). (PStr k, v)) kvs)"

definition event_payload :: "GovernanceAuditEvent \<Rightarrow> pyval" where
  "event_payload e = py_dict
     [(''event_id'', PStr (ev_event_id e)), (''sequence'', PInt (ev_sequence e)),
      (''event_type'', PStrEnum (event_type_value (ev_event_type e))), (''artifact_id'', PStr (ev_artifact_id e)),
      (''actor_ref'', PStr (ev_actor_ref e)), (''event_at'', PStr (ev_event_at e)),
      (''payload_digest'', PStr (ev_payload_digest e)), (''previous_event_digest'', opt_py (ev_previous_event_digest e))]"

definition event_id_of :: "int \<Rightarrow> string" where
  "event_id_of n = ''audit-'' @ replicate (12 - length (int_dec n)) (CHR ''0'') @ int_dec n"

text \<open>The event with the greatest sequence number, \<open>ORDER BY sequence DESC LIMIT 1\<close>.\<close>

definition last_event :: "GovernanceAuditEvent list \<Rightarrow> GovernanceAuditEvent option" where
  "last_event evs = (case sort_key ev_sequence evs of [] \<Rightarrow> None | e # es \<Rightarrow> Some (last (e # es)))"

definition append_event ::
  "(string \<Rightarrow> string) \<Rightarrow> GovernanceEventType \<Rightarrow> string \<Rightarrow> string \<Rightarrow> string \<Rightarrow> string \<Rightarrow> store \<Rightarrow> gov_error + store" where
  "append_event sha ty artifact actor at digest st =
     (let previous = last_event (audit_events st);
          sequence = (case previous of None \<Rightarrow> 1 | Some p \<Rightarrow> ev_sequence p + 1);
          raw = \<lparr>ev_event_id = event_id_of sequence, ev_sequence = sequence, ev_event_type = ty, ev_artifact_id = artifact,
                 ev_actor_ref = actor, ev_event_at = at, ev_payload_digest = digest,
                 ev_previous_event_digest = map_option ev_content_digest previous, ev_content_digest = []\<rparr>
      in bindE (canonE (core_digest sha (event_payload raw))) (\<lambda>d.
         bindE (stampE at) (\<lambda>stamp.
         let event = raw\<lparr>ev_event_at := stamp, ev_content_digest := d\<rparr> in
         if ev_event_id event \<in> ev_event_id ` set (audit_events st) \<or> sequence \<in> ev_sequence ` set (audit_events st)
         then Inl (INTEGRITY_ERROR ''governance_audit_events'')
         else Inr (st\<lparr>audit_events := audit_events st @ [event]\<rparr>))))"

section \<open>Admission\<close>

text \<open>The optional arguments of \<open>_admit_model\<close>.\<close>

record admit_args =
  aa_behavior_id :: "string option"
  aa_source_symbol_id :: "string option"
  aa_symbol_lineage_id :: "string option"
  aa_artifact_revision_id :: "string option"
  aa_parent_artifact_id :: "string option"
  aa_invalidates :: bool
  aa_platform_governance_ref :: "string option"

definition no_args :: admit_args where
  "no_args = \<lparr>aa_behavior_id = None, aa_source_symbol_id = None, aa_symbol_lineage_id = None, aa_artifact_revision_id = None,
     aa_parent_artifact_id = None, aa_invalidates = False, aa_platform_governance_ref = None\<rparr>"

definition artifact_record ::
  "(string \<Rightarrow> string) \<Rightarrow> GovernanceArtifactType \<Rightarrow> string \<Rightarrow> string \<Rightarrow> string \<Rightarrow> admit_args \<Rightarrow> string \<Rightarrow> StoredArtifactRecord" where
  "artifact_record sha ty r cd pd a at =
     \<lparr>sar_artifact_id = artifact_id_of sha ty r cd, sar_artifact_type = ty, sar_artifact_ref = r, sar_content_digest = cd,
      sar_payload_digest = pd, sar_behavior_id = aa_behavior_id a, sar_source_symbol_id = aa_source_symbol_id a,
      sar_symbol_lineage_id = aa_symbol_lineage_id a, sar_artifact_revision_id = aa_artifact_revision_id a,
      sar_parent_artifact_id = aa_parent_artifact_id a, sar_invalidates = aa_invalidates a,
      sar_platform_governance_ref = aa_platform_governance_ref a,
      sar_authority_scope = LOCAL_NON_AUTHORITATIVE_EVIDENCE, sar_created_at = at\<rparr>"

text \<open>Everything before the session: content digest, payload text, payload digest, validated record.\<close>

definition prepare_model ::
  "(string \<Rightarrow> string) \<Rightarrow> pyval \<Rightarrow> GovernanceArtifactType \<Rightarrow> string \<Rightarrow> string \<Rightarrow> admit_args
   \<Rightarrow> gov_error + (StoredArtifactRecord \<times> ArtifactRow)" where
  "prepare_model sha m ty r created_at a =
     bindE (validate_content_digest sha m) (\<lambda>cd.
     bindE (canonE (canonical_json_bytes m)) (\<lambda>pj.
     bindE (canonE (core_digest sha m)) (\<lambda>pd.
     bindE (stampE created_at) (\<lambda>stamp.
       Inr (artifact_record sha ty r cd pd a stamp,
            \<lparr>row_record = artifact_record sha ty r cd pd a created_at, row_payload_json = pj\<rparr>)))))"

definition admit_row ::
  "(string \<Rightarrow> string) \<Rightarrow> string \<Rightarrow> string \<Rightarrow> StoredArtifactRecord \<times> ArtifactRow \<Rightarrow> store
   \<Rightarrow> gov_error + ((StoredArtifactRecord \<times> bool) \<times> store)" where
  "admit_row sha created_at actor p st =
     (case p of (rec, row) \<Rightarrow>
       (case find_artifact st (sar_artifact_id rec) of
          Some old \<Rightarrow>
            if sar_content_digest (row_record old) \<noteq> sar_content_digest rec
              \<or> sar_payload_digest (row_record old) \<noteq> sar_payload_digest rec
            then Inl (IDENTITY_COLLISION (sar_artifact_id rec))
            else Inr ((rec, True), st)
        | None \<Rightarrow>
            bindE (insert_artifact row st) (\<lambda>st1.
            bindE (append_event sha ARTIFACT_CACHED (sar_artifact_id rec) actor created_at (sar_payload_digest rec) st1)
              (\<lambda>st2. Inr ((rec, False), st2)))))"

definition admit_model ::
  "(string \<Rightarrow> string) \<Rightarrow> string \<Rightarrow> string \<Rightarrow> GovernanceArtifactType \<Rightarrow> string \<Rightarrow> admit_args \<Rightarrow> pyval \<Rightarrow> store
   \<Rightarrow> (StoredArtifactRecord \<times> bool) outcome" where
  "admit_model sha created_at actor ty r a m st =
     then_op (prepare_model sha m ty r created_at a, st) (\<lambda>p. session (admit_row sha created_at actor p))"

record AdmissionResult =
  adm_records :: "StoredArtifactRecord list"
  adm_idempotent_artifact_ids :: "string list"

definition add_record :: "AdmissionResult \<Rightarrow> StoredArtifactRecord \<times> bool \<Rightarrow> AdmissionResult" where
  "add_record acc p =
     (case p of (r, idem) \<Rightarrow>
       acc\<lparr>adm_records := adm_records acc @ [r],
           adm_idempotent_artifact_ids := adm_idempotent_artifact_ids acc @ (if idem then [sar_artifact_id r] else [])\<rparr>)"

text \<open>A loop \<open>for item in batch.items: record, idem = self._admit_model(...)\<close>.\<close>

fun admit_each ::
  "(pyval \<Rightarrow> store \<Rightarrow> (StoredArtifactRecord \<times> bool) outcome) \<Rightarrow> pyval list \<Rightarrow> AdmissionResult \<Rightarrow> store \<Rightarrow> AdmissionResult outcome" where
  "admit_each f [] acc st = (Inr acc, st)"
| "admit_each f (m # ms) acc st = then_op (f m st) (\<lambda>p. admit_each f ms (add_record acc p))"

definition child_args :: "StoredArtifactRecord \<Rightarrow> admit_args" where
  "child_args parent = no_args\<lparr>aa_parent_artifact_id := Some (sar_artifact_id parent)\<rparr>"

text \<open>The four identity fields a scenario, a Gherkin artifact and a manifest carry themselves.\<close>

definition identity_args :: "pyval \<Rightarrow> admit_args \<Rightarrow> admit_args" where
  "identity_args m a = a\<lparr>aa_behavior_id := attr_opt m ''behavior_id'', aa_source_symbol_id := attr_opt m ''source_symbol_id'',
     aa_symbol_lineage_id := attr_opt m ''symbol_lineage_id'', aa_artifact_revision_id := attr_opt m ''artifact_revision_id''\<rparr>"

definition spec_args :: "pyval \<Rightarrow> admit_args \<Rightarrow> admit_args" where
  "spec_args m a = (identity_args m a)\<lparr>aa_platform_governance_ref := attr_opt m ''platform_governance_ref''\<rparr>"

definition admit_scenario_batch ::
  "(string \<Rightarrow> string) \<Rightarrow> pyval \<Rightarrow> string \<Rightarrow> string \<Rightarrow> store \<Rightarrow> AdmissionResult outcome" where
  "admit_scenario_batch sha batch created_at actor st =
     then_op (admit_model sha created_at actor SCENARIO_SPEC_BATCH (attr_str batch ''procedure_identity_ref'')
         (no_args\<lparr>aa_source_symbol_id := attr_opt batch ''source_symbol_id'',
                  aa_symbol_lineage_id := attr_opt batch ''symbol_lineage_id''\<rparr>) batch st) (\<lambda>p st1.
       let child = child_args (fst p);
           sub = (\<lambda>ty ref. admit_each (\<lambda>m. admit_model sha created_at actor ty (attr_str m ref) child m))
       in then_op (sub CLASSIFICATION_OBSERVATION ''classification_observation_id''
               (attr_models batch ''classification_observations'')
               (add_record \<lparr>adm_records = [], adm_idempotent_artifact_ids = []\<rparr> p) st1) (\<lambda>acc st2.
          then_op (sub EFFECT_CLOSURE ''effect_closure_id'' (attr_models batch ''effect_closures'') acc st2) (\<lambda>acc st3.
          then_op (sub RESOLUTION_VECTOR ''resolution_vector_id'' (attr_models batch ''resolution_vectors'') acc st3) (\<lambda>acc st4.
          then_op (sub ANALYSIS_BUDGET_REPORT ''budget_report_id'' (attr_models batch ''budget_reports'') acc st4) (\<lambda>acc st5.
          admit_each (\<lambda>m. admit_model sha created_at actor SCENARIO_SPEC (attr_str m ''scenario_spec_id'') (spec_args m child) m)
            (attr_models batch ''scenario_specs'') acc st5)))))"

section \<open>Reading artifacts\<close>

definition get_artifact :: "(string \<Rightarrow> string) \<Rightarrow> store \<Rightarrow> string \<Rightarrow> gov_error + (StoredArtifactRecord \<times> jval)" where
  "get_artifact sha st i =
     (case find_artifact st i of None \<Rightarrow> Inl (UNKNOWN_ARTIFACT i)
      | Some row \<Rightarrow>
          bindE (stampE (sar_created_at (row_record row))) (\<lambda>stamp.
          (case json_loads (row_payload_json row) of None \<Rightarrow> Inl (PAYLOAD_UNREADABLE i)
           | Some payload \<Rightarrow>
               bindE (canonE (core_digest sha (of_json payload))) (\<lambda>d.
               if d \<noteq> sar_payload_digest (row_record row) then Inl (PAYLOAD_DIGEST_MISMATCH i)
               else Inr ((row_record row)\<lparr>sar_created_at := stamp\<rparr>, payload)))))"

text \<open>
  \<open>ORDER BY created_at DESC LIMIT 1\<close> over the text as stored; among equal texts, whose order SQL
  leaves open, the model takes the first row.
\<close>

fun first_latest :: "('a \<Rightarrow> string) \<Rightarrow> 'a list \<Rightarrow> 'a option" where
  "first_latest f [] = None"
| "first_latest f (x # xs) = (case first_latest f xs of None \<Rightarrow> Some x | Some y \<Rightarrow> Some (if f x < f y then y else x))"

definition scenario_identity :: "(string \<Rightarrow> string) \<Rightarrow> store \<Rightarrow> string \<Rightarrow> gov_error + StoredArtifactRecord" where
  "scenario_identity sha st ref =
     (case first_latest (\<lambda>r. sar_created_at (row_record r))
        (filter (\<lambda>r. sar_artifact_type (row_record r) = SCENARIO_SPEC \<and> sar_artifact_ref (row_record r) = ref) (artifacts st)) of
        None \<Rightarrow> Inl (SCENARIO_NOT_ADMITTED ref)
      | Some row \<Rightarrow> bindE (get_artifact sha st (row_id row)) (\<lambda>p. Inr (fst p)))"

text \<open>The dependent artifacts take their identity from the scenario they refer to.\<close>

definition identity_of :: "StoredArtifactRecord \<Rightarrow> admit_args \<Rightarrow> admit_args" where
  "identity_of r a = a\<lparr>aa_behavior_id := sar_behavior_id r, aa_source_symbol_id := sar_source_symbol_id r,
     aa_symbol_lineage_id := sar_symbol_lineage_id r, aa_artifact_revision_id := sar_artifact_revision_id r\<rparr>"

definition admit_dependent ::
  "(string \<Rightarrow> string) \<Rightarrow> string \<Rightarrow> string \<Rightarrow> GovernanceArtifactType \<Rightarrow> string \<Rightarrow> admit_args \<Rightarrow> pyval \<Rightarrow> store
   \<Rightarrow> (StoredArtifactRecord \<times> bool) outcome" where
  "admit_dependent sha created_at actor ty ref child m st =
     then_op (scenario_identity sha st (attr_str m ''scenario_spec_ref''), st) (\<lambda>identity.
       admit_model sha created_at actor ty (attr_str m ref)
         ((identity_of identity child)\<lparr>aa_platform_governance_ref := attr_opt m ''platform_governance_ref''\<rparr>) m)"

definition admit_bdd_batch ::
  "(string \<Rightarrow> string) \<Rightarrow> pyval \<Rightarrow> string \<Rightarrow> string \<Rightarrow> store \<Rightarrow> AdmissionResult outcome" where
  "admit_bdd_batch sha batch created_at actor st =
     then_op (admit_model sha created_at actor BDD_COMPILATION_BATCH (attr_str batch ''scenario_spec_batch_digest'') no_args batch st)
       (\<lambda>p st1.
       let child = child_args (fst p);
           own = (\<lambda>ty ref. admit_each (\<lambda>m. admit_model sha created_at actor ty (attr_str m ref) (identity_args m child) m))
       in then_op (own GHERKIN_ARTIFACT ''artifact_id'' (attr_models batch ''gherkin_artifacts'')
               (add_record \<lparr>adm_records = [], adm_idempotent_artifact_ids = []\<rparr> p) st1) (\<lambda>acc st2.
          then_op (own TRACEABILITY_MANIFEST ''manifest_id'' (attr_models batch ''traceability_manifests'') acc st2) (\<lambda>acc st3.
          admit_each (admit_dependent sha created_at actor CANDIDATE_BDD ''candidate_bdd_id'' child)
            (attr_models batch ''candidate_bdds'') acc st3)))"

definition admit_runtime_batch ::
  "(string \<Rightarrow> string) \<Rightarrow> pyval \<Rightarrow> string \<Rightarrow> string \<Rightarrow> store \<Rightarrow> AdmissionResult outcome" where
  "admit_runtime_batch sha batch created_at actor st =
     then_op (admit_model sha created_at actor RUNTIME_VERIFICATION_BATCH (attr_str batch ''plan_batch_digest'') no_args batch st)
       (\<lambda>p st1.
       let child = child_args (fst p) in
       then_op (admit_each (\<lambda>m. admit_model sha created_at actor RUNTIME_EXECUTION_RECORD (attr_str m ''execution_id'') child m)
           (attr_models batch ''execution_records'')
           (add_record \<lparr>adm_records = [], adm_idempotent_artifact_ids = []\<rparr> p) st1) (\<lambda>acc st2.
         admit_each (admit_dependent sha created_at actor RUNTIME_VERIFICATION_RESULT ''verification_result_id'' child)
           (attr_models batch ''verification_results'') acc st2))"

section \<open>Baselines\<close>

text \<open>\<open>_ensure_idempotent_binding\<close>: the digest stored under a key, if any, must be the new one.\<close>

definition ensure_idempotent_binding :: "string \<Rightarrow> string option \<Rightarrow> string \<Rightarrow> gov_error + bool" where
  "ensure_idempotent_binding key stored digest =
     (case stored of None \<Rightarrow> Inr False | Some d \<Rightarrow> if d \<noteq> digest then Inl (BINDING_CONFLICT key) else Inr True)"

definition has_behavior :: "StoredArtifactRecord \<Rightarrow> bool" where
  "has_behavior r = (case sar_behavior_id r of None \<Rightarrow> False | Some b \<Rightarrow> b \<noteq> [])"

definition registration_payload :: "BaselineRegistration \<Rightarrow> pyval" where
  "registration_payload b = py_dict
     [(''registration_id'', PStr (br_registration_id b)), (''artifact_id'', PStr (br_artifact_id b)),
      (''behavior_id'', PStr (br_behavior_id b)), (''authority_ref'', PStr (br_authority_ref b)),
      (''effective_from'', PStr (br_effective_from b)), (''effective_to'', opt_py (br_effective_to b))]"

definition register_baseline ::
  "(string \<Rightarrow> string) \<Rightarrow> string \<Rightarrow> string \<Rightarrow> string \<Rightarrow> string \<Rightarrow> store \<Rightarrow> BaselineRegistration outcome" where
  "register_baseline sha artifact_id authority_ref effective_from actor st =
     then_op
       (bindE (get_artifact sha st artifact_id) (\<lambda>(rec, _).
        if sar_artifact_type rec \<noteq> SCENARIO_SPEC \<or> \<not> has_behavior rec then Inl NOT_A_BASELINE_ARTIFACT
        else (let raw = \<lparr>br_registration_id = short_id sha ''baseline-'' [artifact_id, authority_ref, effective_from],
                         br_artifact_id = artifact_id, br_behavior_id = the_default [] (sar_behavior_id rec),
                         br_authority_ref = authority_ref, br_effective_from = effective_from, br_effective_to = None,
                         br_content_digest = []\<rparr>
              in bindE (canonE (core_digest sha (registration_payload raw))) (\<lambda>d.
                 bindE (stampE effective_from) (\<lambda>stamp. Inr (raw\<lparr>br_effective_from := stamp, br_content_digest := d\<rparr>))))), st)
       (\<lambda>reg. session (\<lambda>st.
          bindE (ensure_idempotent_binding (br_registration_id reg)
              (map_option br_content_digest (List.find (\<lambda>b. br_registration_id b = br_registration_id reg) (baselines st)))
              (br_content_digest reg)) (\<lambda>present.
          if present then Inr (reg, st)
          else bindE (insert_baseline reg st) (\<lambda>st1.
               bindE (append_event sha REFERENCE_BASELINE_CACHED artifact_id actor (br_effective_from reg) (br_content_digest reg) st1)
                 (\<lambda>st2. Inr (reg, st2))))))"

text \<open>\<open>payload.get(key)\<close> and \<open>payload.get(key, [])\<close> on the JSON object read back.\<close>

definition jget :: "jval \<Rightarrow> string \<Rightarrow> jval" where
  "jget j k = (case j of JObj kvs \<Rightarrow> (case map_of kvs k of Some v \<Rightarrow> v | None \<Rightarrow> JNull) | _ \<Rightarrow> JNull)"

definition jget_list :: "jval \<Rightarrow> string \<Rightarrow> gov_error + jval list" where
  "jget_list j k =
     (case j of JObj kvs \<Rightarrow>
        (case map_of kvs k of None \<Rightarrow> Inr [] | Some (JList vs) \<Rightarrow> Inr vs | Some _ \<Rightarrow> Inl TYPE_ERROR)
      | _ \<Rightarrow> Inl TYPE_ERROR)"

definition precondition_key :: "jval \<Rightarrow> jval" where
  "precondition_key item = JObj
     [(''technical_fact_ref'', jget item ''technical_fact_ref''), (''modality'', jget item ''modality''),
      (''constraint_assessment_ref'', jget item ''constraint_assessment_ref'')]"

definition scenario_signature :: "(string \<Rightarrow> string) \<Rightarrow> jval \<Rightarrow> gov_error + string" where
  "scenario_signature sha p =
     bindE (jget_list p ''preconditions'') (\<lambda>pre.
     bindE (jget_list p ''expected_effects'') (\<lambda>eff.
     bindE (jget_list p ''alternative_or_conditional_effects'') (\<lambda>alt.
     canonE (core_digest sha (of_json (JObj
       [(''behavior_id'', jget p ''behavior_id''), (''procedure_identity_ref'', jget p ''procedure_identity_ref''),
        (''action'', jget p ''action''), (''preconditions'', JList (sort_key canonical_json (map precondition_key pre))),
        (''expected_effects'', JList (sort_key canonical_json eff)),
        (''alternative_or_conditional_effects'', JList (sort_key canonical_json alt))]))))))"

text \<open>
  The effective registrations of a behavior and the one \<open>ORDER BY effective_from DESC\<close> puts first;
  of registrations that start together the model takes the one inserted last, as the reverse scan of
  \<open>idx_governance_baselines_behavior\<close> does.
\<close>

definition effective_baselines :: "store \<Rightarrow> string \<Rightarrow> string \<Rightarrow> BaselineRegistration list" where
  "effective_baselines st behavior compared_at =
     filter (\<lambda>b. br_behavior_id b = behavior \<and> br_effective_from b \<le> compared_at
        \<and> (case br_effective_to b of None \<Rightarrow> True | Some t \<Rightarrow> compared_at < t)) (baselines st)"

definition chosen_baseline :: "store \<Rightarrow> string \<Rightarrow> string \<Rightarrow> BaselineRegistration option" where
  "chosen_baseline st behavior compared_at = first_latest br_effective_from (rev (effective_baselines st behavior compared_at))"

definition comparison_payload :: "BaselineComparisonResult \<Rightarrow> pyval" where
  "comparison_payload c = py_dict
     [(''comparison_id'', PStr (bc_comparison_id c)), (''candidate_artifact_id'', PStr (bc_candidate_artifact_id c)),
      (''baseline_artifact_id'', opt_py (bc_baseline_artifact_id c)), (''behavior_id'', PStr (bc_behavior_id c)),
      (''source_symbol_id'', PStr (bc_source_symbol_id c)), (''symbol_lineage_id'', PStr (bc_symbol_lineage_id c)),
      (''artifact_revision_id'', PStr (bc_artifact_revision_id c)),
      (''status'', PStrEnum (comparison_status_value (bc_status c))),
      (''candidate_signature_digest'', PStr (bc_candidate_signature c)),
      (''baseline_signature_digest'', opt_py (bc_baseline_signature c)),
      (''classification_candidate'', opt_py (bc_classification c)),
      (''evidence_refs'', PTuple (map PStr (bc_evidence_refs c))), (''compared_at'', PStr (bc_compared_at c))]"

definition require_text :: "string \<Rightarrow> string option \<Rightarrow> gov_error + string" where
  "require_text f v = (case v of None \<Rightarrow> Inl (VALIDATION_ERROR f) | Some s \<Rightarrow> Inr s)"

definition text_items :: "jval list \<Rightarrow> gov_error + string list" where
  "text_items vs = seq_results (map (\<lambda>v. case v of JStr s \<Rightarrow> Inr s | _ \<Rightarrow> Inl (VALIDATION_ERROR ''evidence_refs'')) vs)"

text \<open>The outcome of the comparison: baseline artifact, its signature, status and classification.\<close>

definition baseline_verdict ::
  "(string \<Rightarrow> string) \<Rightarrow> store \<Rightarrow> string \<Rightarrow> BaselineRegistration option
   \<Rightarrow> gov_error + (string option \<times> string option \<times> BaselineComparisonStatus \<times> string option)" where
  "baseline_verdict sha st candidate_signature chosen =
     (case chosen of None \<Rightarrow> Inr (None, None, NO_BASELINE, None)
      | Some b \<Rightarrow>
          bindE (get_artifact sha st (br_artifact_id b)) (\<lambda>(_, payload).
          bindE (scenario_signature sha payload) (\<lambda>s.
          Inr (Some (br_artifact_id b), Some s,
               if s = candidate_signature then BASELINE_MATCH else BASELINE_CONFLICT,
               if s = candidate_signature then None else Some ''BASELINE_BEHAVIOR_VIOLATION_CANDIDATE''))))"

definition compute_comparison ::
  "(string \<Rightarrow> string) \<Rightarrow> store \<Rightarrow> string \<Rightarrow> string \<Rightarrow> gov_error + BaselineComparisonResult" where
  "compute_comparison sha st candidate compared_at =
     bindE (get_artifact sha st candidate) (\<lambda>(rec, payload).
     if sar_artifact_type rec \<noteq> SCENARIO_SPEC \<or> \<not> has_behavior rec then Inl NOT_A_CANDIDATE
     else bindE (scenario_signature sha payload) (\<lambda>cs.
     bindE (baseline_verdict sha st cs (chosen_baseline st (the_default [] (sar_behavior_id rec)) compared_at))
       (\<lambda>(base, bs, status, cls).
     bindE (jget_list payload ''evidence_refs'') (\<lambda>refs.
     bindE (text_items refs) (\<lambda>evidence.
     bindE (require_text ''source_symbol_id'' (sar_source_symbol_id rec)) (\<lambda>sym.
     bindE (require_text ''symbol_lineage_id'' (sar_symbol_lineage_id rec)) (\<lambda>lin.
     bindE (require_text ''artifact_revision_id'' (sar_artifact_revision_id rec)) (\<lambda>rev.
     let raw = \<lparr>bc_comparison_id = short_id sha ''comparison-'' [candidate, the_default ''None'' base, compared_at],
                bc_candidate_artifact_id = candidate, bc_baseline_artifact_id = base,
                bc_behavior_id = the_default [] (sar_behavior_id rec), bc_source_symbol_id = sym, bc_symbol_lineage_id = lin,
                bc_artifact_revision_id = rev, bc_status = status, bc_candidate_signature = cs, bc_baseline_signature = bs,
                bc_classification = cls, bc_evidence_refs = evidence, bc_compared_at = compared_at, bc_content_digest = []\<rparr>
     in bindE (canonE (core_digest sha (comparison_payload raw))) (\<lambda>d.
        bindE (stampE compared_at) (\<lambda>stamp. Inr (raw\<lparr>bc_compared_at := stamp, bc_content_digest := d\<rparr>)))))))))))"

definition comparison_row :: "BaselineComparisonResult \<Rightarrow> ComparisonRow" where
  "comparison_row c =
     \<lparr>cr_comparison_id = bc_comparison_id c, cr_candidate_artifact_id = bc_candidate_artifact_id c,
      cr_baseline_artifact_id = bc_baseline_artifact_id c, cr_behavior_id = bc_behavior_id c, cr_status = bc_status c,
      cr_candidate_signature = bc_candidate_signature c, cr_baseline_signature = bc_baseline_signature c,
      cr_classification = bc_classification c, cr_evidence_refs_json = dumps_strings (bc_evidence_refs c),
      cr_compared_at = bc_compared_at c, cr_content_digest = bc_content_digest c\<rparr>"

definition compare_to_baseline ::
  "(string \<Rightarrow> string) \<Rightarrow> string \<Rightarrow> string \<Rightarrow> string \<Rightarrow> store \<Rightarrow> BaselineComparisonResult outcome" where
  "compare_to_baseline sha candidate compared_at actor st =
     then_op (compute_comparison sha st candidate compared_at, st) (\<lambda>c. session (\<lambda>st.
       bindE (insert_or_ignore_comparison (comparison_row c) st) (\<lambda>st1.
       bindE (append_event sha BASELINE_COMPARED candidate actor (bc_compared_at c) (bc_content_digest c) st1)
         (\<lambda>st2. Inr (c, st2)))))"

section \<open>Amendments\<close>

definition amendment_payload :: "AmendmentRecord \<Rightarrow> pyval" where
  "amendment_payload a = py_dict
     [(''amendment_id'', PStr (am_amendment_id a)), (''original_artifact_id'', PStr (am_original_artifact_id a)),
      (''amended_artifact_id'', PStr (am_amended_artifact_id a)), (''behavior_id'', PStr (am_behavior_id a)),
      (''source_symbol_id'', PStr (am_source_symbol_id a)), (''symbol_lineage_id'', PStr (am_symbol_lineage_id a)),
      (''artifact_revision_id'', PStr (am_artifact_revision_id a)), (''editor_ref'', PStr (am_editor_ref a)),
      (''reason'', PStr (am_reason a)), (''invalidates_machine_attestation'', PBool True),
      (''amended_at'', PStr (am_amended_at a))]"

text \<open>The guards on the original before anything is written.\<close>

definition amendment_guard :: "(string \<Rightarrow> string) \<Rightarrow> store \<Rightarrow> string \<Rightarrow> pyval \<Rightarrow> gov_error + unit" where
  "amendment_guard sha st original spec =
     bindE (get_artifact sha st original) (\<lambda>(rec, _).
     bindE (guardE (sar_artifact_type rec = SCENARIO_SPEC) NOT_A_SCENARIO_SPEC) (\<lambda>_.
     bindE (guardE (attr_opt spec ''behavior_id'' = sar_behavior_id rec) CHANGES_BEHAVIOR_ID) (\<lambda>_.
     bindE (guardE (attr_opt spec ''source_symbol_id'' = sar_source_symbol_id rec) CHANGES_SOURCE_SYMBOL_ID) (\<lambda>_.
     guardE (attr_opt spec ''symbol_lineage_id'' = sar_symbol_lineage_id rec) CHANGES_SYMBOL_LINEAGE_ID))))"

definition amendment_row :: "AmendmentRecord \<Rightarrow> AmendmentRow" where
  "amendment_row a =
     \<lparr>ar_amendment_id = am_amendment_id a, ar_original_artifact_id = am_original_artifact_id a,
      ar_amended_artifact_id = am_amended_artifact_id a, ar_editor_ref = am_editor_ref a, ar_reason = am_reason a,
      ar_amended_at = am_amended_at a, ar_content_digest = am_content_digest a\<rparr>"

definition amend_scenario_spec ::
  "(string \<Rightarrow> string) \<Rightarrow> string \<Rightarrow> pyval \<Rightarrow> string \<Rightarrow> string \<Rightarrow> string \<Rightarrow> store \<Rightarrow> (StoredArtifactRecord \<times> AmendmentRecord) outcome" where
  "amend_scenario_spec sha original spec editor reason amended_at st =
     then_op (amendment_guard sha st original spec, st) (\<lambda>_ st.
     then_op (admit_model sha amended_at editor SCENARIO_SPEC (attr_str spec ''scenario_spec_id'')
         ((spec_args spec no_args)\<lparr>aa_parent_artifact_id := Some original, aa_invalidates := True\<rparr>) spec st) (\<lambda>(rec, _) st1.
       let raw = \<lparr>am_amendment_id = short_id sha ''amendment-'' [original, sar_artifact_id rec, editor, amended_at],
                  am_original_artifact_id = original, am_amended_artifact_id = sar_artifact_id rec,
                  am_behavior_id = attr_str spec ''behavior_id'', am_source_symbol_id = attr_str spec ''source_symbol_id'',
                  am_symbol_lineage_id = attr_str spec ''symbol_lineage_id'',
                  am_artifact_revision_id = attr_str spec ''artifact_revision_id'', am_editor_ref = editor,
                  am_reason = reason, am_amended_at = amended_at, am_content_digest = []\<rparr>
       in then_op (bindE (canonE (core_digest sha (amendment_payload raw))) (\<lambda>d.
              bindE (stampE amended_at) (\<lambda>stamp. Inr (raw\<lparr>am_amended_at := stamp, am_content_digest := d\<rparr>))), st1) (\<lambda>a.
          session (\<lambda>st.
            bindE (insert_amendment (amendment_row a) st) (\<lambda>st2.
            bindE (append_event sha REVIEW_AMENDMENT_CACHED (sar_artifact_id rec) editor (am_amended_at a) (am_content_digest a) st2)
              (\<lambda>st3. Inr ((rec, a), st3)))))))"

section \<open>External bindings\<close>

definition decision_model :: "PlatformDecisionEnvelope \<Rightarrow> pyval" where
  "decision_model e = PModel ''PlatformDecisionEnvelope''
     [(''binding_id'', PStr (pd_binding_id e)), (''artifact_id'', PStr (pd_artifact_id e)),
      (''artifact_digest'', PStr (pd_artifact_digest e)), (''platform_decision_ref'', PStr (pd_platform_decision_ref e)),
      (''decision_type'', PStr (pd_decision_type e)), (''authority_ref'', PStr (pd_authority_ref e)),
      (''effective_at'', PStr (pd_effective_at e)), (''evidence_refs'', PTuple (map PStr (pd_evidence_refs e))),
      (''content_digest'', PStr (pd_content_digest e))]"

definition certification_model :: "CertificationEnvelope \<Rightarrow> pyval" where
  "certification_model e = PModel ''CertificationEnvelope''
     [(''certification_binding_id'', PStr (ce_certification_binding_id e)), (''artifact_id'', PStr (ce_artifact_id e)),
      (''artifact_digest'', PStr (ce_artifact_digest e)), (''certification_ref'', PStr (ce_certification_ref e)),
      (''certification_type'', PStr (ce_certification_type e)), (''authority_ref'', PStr (ce_authority_ref e)),
      (''valid_from'', PStr (ce_valid_from e)), (''valid_to'', opt_py (ce_valid_to e)),
      (''evidence_refs'', PTuple (map PStr (ce_evidence_refs e))), (''content_digest'', PStr (ce_content_digest e))]"

definition binding_guard :: "(string \<Rightarrow> string) \<Rightarrow> store \<Rightarrow> pyval \<Rightarrow> string \<Rightarrow> string \<Rightarrow> gov_error + unit" where
  "binding_guard sha st m artifact digest =
     bindE (validate_content_digest sha m) (\<lambda>_.
     bindE (get_artifact sha st artifact) (\<lambda>(rec, _).
     guardE (sar_content_digest rec = digest) ARTIFACT_DIGEST_MISMATCH))"

definition bind_platform_decision :: "(string \<Rightarrow> string) \<Rightarrow> PlatformDecisionEnvelope \<Rightarrow> store \<Rightarrow> unit outcome" where
  "bind_platform_decision sha e st =
     then_op (binding_guard sha st (decision_model e) (pd_artifact_id e) (pd_artifact_digest e), st) (\<lambda>_. session (\<lambda>st.
       bindE (ensure_idempotent_binding (pd_binding_id e)
           (map_option (\<lambda>r. pd_content_digest (dr_envelope r))
             (List.find (\<lambda>r. pd_binding_id (dr_envelope r) = pd_binding_id e) (platform_decisions st)))
           (pd_content_digest e)) (\<lambda>present.
       if present then Inr ((), st)
       else bindE (insert_decision \<lparr>dr_envelope = e, dr_evidence_refs_json = dumps_strings (pd_evidence_refs e)\<rparr> st) (\<lambda>st1.
            bindE (append_event sha EXTERNAL_PLATFORM_DECISION_CACHED (pd_artifact_id e) (pd_authority_ref e) (pd_effective_at e)
                (pd_content_digest e) st1) (\<lambda>st2. Inr ((), st2))))))"

definition bind_certification :: "(string \<Rightarrow> string) \<Rightarrow> CertificationEnvelope \<Rightarrow> store \<Rightarrow> unit outcome" where
  "bind_certification sha e st =
     then_op (binding_guard sha st (certification_model e) (ce_artifact_id e) (ce_artifact_digest e), st) (\<lambda>_. session (\<lambda>st.
       bindE (ensure_idempotent_binding (ce_certification_binding_id e)
           (map_option (\<lambda>r. ce_content_digest (cfr_envelope r))
             (List.find (\<lambda>r. ce_certification_binding_id (cfr_envelope r) = ce_certification_binding_id e) (certifications st)))
           (ce_content_digest e)) (\<lambda>present.
       if present then Inr ((), st)
       else bindE (insert_certification \<lparr>cfr_envelope = e, cfr_evidence_refs_json = dumps_strings (ce_evidence_refs e)\<rparr> st) (\<lambda>st1.
            bindE (append_event sha EXTERNAL_CERTIFICATION_CACHED (ce_artifact_id e) (ce_authority_ref e) (ce_valid_from e)
                (ce_content_digest e) st1) (\<lambda>st2. Inr ((), st2))))))"

section \<open>History\<close>

text \<open>The walk over all events in sequence order, with the digest the next event must name.\<close>

fun chain_valid :: "(string \<Rightarrow> string) \<Rightarrow> string option \<Rightarrow> GovernanceAuditEvent list \<Rightarrow> bool" where
  "chain_valid sha previous [] = True"
| "chain_valid sha previous (e # es) =
     (if ev_previous_event_digest e \<noteq> previous \<or> core_digest sha (event_payload e) \<noteq> Inr (ev_content_digest e) then False
      else chain_valid sha (Some (ev_content_digest e)) es)"

definition audit_chain_valid :: "(string \<Rightarrow> string) \<Rightarrow> store \<Rightarrow> bool" where
  "audit_chain_valid sha st = chain_valid sha None (sort_key ev_sequence (audit_events st))"

definition loads_refs :: "string \<Rightarrow> gov_error + string list" where
  "loads_refs t = (case json_loads t of Some (JList vs) \<Rightarrow> text_items vs | _ \<Rightarrow> Inl TYPE_ERROR)"

text \<open>Each row is validated again as its model: the timestamps are made canonical once more.\<close>

definition stamp_opt :: "string option \<Rightarrow> gov_error + string option" where
  "stamp_opt v = (case v of None \<Rightarrow> Inr None | Some s \<Rightarrow> map_sum id Some (stampE s))"

definition read_baseline :: "BaselineRegistration \<Rightarrow> gov_error + BaselineRegistration" where
  "read_baseline b =
     bindE (stampE (br_effective_from b)) (\<lambda>f.
     bindE (stamp_opt (br_effective_to b)) (\<lambda>t.
     if (case t of None \<Rightarrow> False | Some t \<Rightarrow> t \<le> f) then Inl (VALIDATION_ERROR ''effective_to'')
     else Inr (b\<lparr>br_effective_from := f, br_effective_to := t\<rparr>)))"

definition read_comparison :: "(string \<Rightarrow> string) \<Rightarrow> store \<Rightarrow> ComparisonRow \<Rightarrow> gov_error + BaselineComparisonResult" where
  "read_comparison sha st c =
     bindE (get_artifact sha st (cr_candidate_artifact_id c)) (\<lambda>(identity, _).
     bindE (loads_refs (cr_evidence_refs_json c)) (\<lambda>refs.
     bindE (stampE (cr_compared_at c)) (\<lambda>stamp.
     Inr \<lparr>bc_comparison_id = cr_comparison_id c, bc_candidate_artifact_id = cr_candidate_artifact_id c,
          bc_baseline_artifact_id = cr_baseline_artifact_id c, bc_behavior_id = cr_behavior_id c,
          bc_source_symbol_id = the_default [] (sar_source_symbol_id identity),
          bc_symbol_lineage_id = the_default [] (sar_symbol_lineage_id identity),
          bc_artifact_revision_id = the_default [] (sar_artifact_revision_id identity), bc_status = cr_status c,
          bc_candidate_signature = cr_candidate_signature c, bc_baseline_signature = cr_baseline_signature c,
          bc_classification = cr_classification c, bc_evidence_refs = refs, bc_compared_at = stamp,
          bc_content_digest = cr_content_digest c\<rparr>)))"

definition read_amendment :: "(string \<Rightarrow> string) \<Rightarrow> store \<Rightarrow> AmendmentRow \<Rightarrow> gov_error + AmendmentRecord" where
  "read_amendment sha st a =
     bindE (get_artifact sha st (ar_amended_artifact_id a)) (\<lambda>(identity, _).
     bindE (stampE (ar_amended_at a)) (\<lambda>stamp.
     Inr \<lparr>am_amendment_id = ar_amendment_id a, am_original_artifact_id = ar_original_artifact_id a,
          am_amended_artifact_id = ar_amended_artifact_id a, am_behavior_id = the_default [] (sar_behavior_id identity),
          am_source_symbol_id = the_default [] (sar_source_symbol_id identity),
          am_symbol_lineage_id = the_default [] (sar_symbol_lineage_id identity),
          am_artifact_revision_id = the_default [] (sar_artifact_revision_id identity), am_editor_ref = ar_editor_ref a,
          am_reason = ar_reason a, am_amended_at = stamp, am_content_digest = ar_content_digest a\<rparr>))"

definition read_decision :: "DecisionRow \<Rightarrow> gov_error + PlatformDecisionEnvelope" where
  "read_decision d =
     bindE (loads_refs (dr_evidence_refs_json d)) (\<lambda>refs.
     bindE (stampE (pd_effective_at (dr_envelope d))) (\<lambda>stamp.
     Inr ((dr_envelope d)\<lparr>pd_effective_at := stamp, pd_evidence_refs := refs\<rparr>)))"

definition read_certification :: "CertificationRow \<Rightarrow> gov_error + CertificationEnvelope" where
  "read_certification c =
     bindE (loads_refs (cfr_evidence_refs_json c)) (\<lambda>refs.
     bindE (stampE (ce_valid_from (cfr_envelope c))) (\<lambda>f.
     bindE (stamp_opt (ce_valid_to (cfr_envelope c))) (\<lambda>t.
     Inr ((cfr_envelope c)\<lparr>ce_valid_from := f, ce_valid_to := t, ce_evidence_refs := refs\<rparr>))))"

definition read_event :: "GovernanceAuditEvent \<Rightarrow> gov_error + GovernanceAuditEvent" where
  "read_event e = bindE (stampE (ev_event_at e)) (\<lambda>stamp. Inr (e\<lparr>ev_event_at := stamp\<rparr>))"

definition artifact_model :: "StoredArtifactRecord \<Rightarrow> pyval" where
  "artifact_model r = PModel ''StoredArtifactRecord''
     [(''artifact_id'', PStr (sar_artifact_id r)), (''artifact_type'', PStrEnum (artifact_type_value (sar_artifact_type r))),
      (''artifact_ref'', PStr (sar_artifact_ref r)), (''content_digest'', PStr (sar_content_digest r)),
      (''payload_digest'', PStr (sar_payload_digest r)), (''behavior_id'', opt_py (sar_behavior_id r)),
      (''source_symbol_id'', opt_py (sar_source_symbol_id r)), (''symbol_lineage_id'', opt_py (sar_symbol_lineage_id r)),
      (''artifact_revision_id'', opt_py (sar_artifact_revision_id r)),
      (''parent_artifact_id'', opt_py (sar_parent_artifact_id r)),
      (''invalidates_machine_attestation'', PBool (sar_invalidates r)),
      (''platform_governance_ref'', opt_py (sar_platform_governance_ref r)),
      (''authority_scope'', PStrEnum ''LOCAL_NON_AUTHORITATIVE_EVIDENCE''), (''created_at'', PStr (sar_created_at r))]"

text \<open>The models of the other rows are their payloads with the digest as a last field.\<close>

definition with_digest :: "string \<Rightarrow> pyval \<Rightarrow> string \<Rightarrow> pyval" where
  "with_digest c p d =
     PModel c ((case p of PDict kvs \<Rightarrow> map (\<lambda>(k, v). (the_default [] (key_text k), v)) kvs | _ \<Rightarrow> []) @ [(''content_digest'', PStr d)])"

definition history_payload :: "GovernanceHistory \<Rightarrow> pyval" where
  "history_payload h = py_dict
     [(''artifact'', artifact_model (gh_artifact h)),
      (''baseline_registrations'', PTuple (map (\<lambda>b. with_digest ''BaselineRegistration'' (registration_payload b) (br_content_digest b))
         (gh_baseline_registrations h))),
      (''comparisons'', PTuple (map (\<lambda>c. with_digest ''BaselineComparisonResult'' (comparison_payload c) (bc_content_digest c))
         (gh_comparisons h))),
      (''amendments'', PTuple (map (\<lambda>a. with_digest ''AmendmentRecord'' (amendment_payload a) (am_content_digest a)) (gh_amendments h))),
      (''platform_decisions'', PTuple (map decision_model (gh_platform_decisions h))),
      (''certifications'', PTuple (map certification_model (gh_certifications h))),
      (''audit_events'', PTuple (map (\<lambda>e. with_digest ''GovernanceAuditEvent'' (event_payload e) (ev_content_digest e)) (gh_audit_events h))),
      (''audit_chain_valid'', PBool (gh_audit_chain_valid h))]"

definition history :: "(string \<Rightarrow> string) \<Rightarrow> string \<Rightarrow> store \<Rightarrow> gov_error + GovernanceHistory" where
  "history sha i st =
     bindE (get_artifact sha st i) (\<lambda>(artifact, _).
     bindE (seq_results (map read_baseline (sort_key br_effective_from (filter (\<lambda>b. br_artifact_id b = i) (baselines st))))) (\<lambda>bs.
     bindE (seq_results (map (read_comparison sha st) (sort_key cr_compared_at
         (filter (\<lambda>c. cr_candidate_artifact_id c = i \<or> cr_baseline_artifact_id c = Some i) (comparisons st))))) (\<lambda>cs.
     bindE (seq_results (map (read_amendment sha st) (sort_key ar_amended_at
         (filter (\<lambda>a. ar_original_artifact_id a = i \<or> ar_amended_artifact_id a = i) (amendments st))))) (\<lambda>ams.
     bindE (seq_results (map read_decision (sort_key (\<lambda>r. pd_effective_at (dr_envelope r))
         (filter (\<lambda>r. pd_artifact_id (dr_envelope r) = i) (platform_decisions st))))) (\<lambda>ds.
     bindE (seq_results (map read_certification (sort_key (\<lambda>r. ce_valid_from (cfr_envelope r))
         (filter (\<lambda>r. ce_artifact_id (cfr_envelope r) = i) (certifications st))))) (\<lambda>ces.
     bindE (seq_results (map read_event (sort_key ev_sequence (filter (\<lambda>e. ev_artifact_id e = i) (audit_events st))))) (\<lambda>es.
     let h = \<lparr>gh_artifact = artifact, gh_baseline_registrations = bs, gh_comparisons = cs, gh_amendments = ams,
              gh_platform_decisions = ds, gh_certifications = ces, gh_audit_events = es,
              gh_audit_chain_valid = audit_chain_valid sha st, gh_content_digest = []\<rparr>
     in bindE (canonE (core_digest sha (history_payload h))) (\<lambda>d. Inr (h\<lparr>gh_content_digest := d\<rparr>)))))))))"

end
