(* ===== verification/GovInvariants.thy ===== *)
theory GovInvariants
  imports Governance
begin

text \<open>
  The invariants of the evidence store. The locale \<open>store_relation\<close> is the interface between the writes of
  the store and its operations: a relation between the store before and after that every write keeps is
  kept by every operation, batches and failed operations included. It is interpreted twice on the model: with the
  relation that only rows are appended, and with the preservation of \<open>store_ok\<close>, which holds the
  primary and foreign keys, the digests of the rows and the audit chain.
\<close>

section \<open>Composition\<close>

lemma canonE_Inr: "canonE r = Inr b \<longleftrightarrow> r = Inr b"
  by (cases r) (auto simp: canonE_def)

lemma stampE_Inr: "stampE s = Inr t \<longleftrightarrow> canonical_timestamp s = Inr t"
  by (cases "canonical_timestamp s") (auto simp: stampE_def)

lemmas result_simps = bindE_Inr guardE_Inr canonE_Inr stampE_Inr

lemma session_eq: "session body st = (r, st') \<longleftrightarrow>
    (\<exists>e. body st = Inl e \<and> r = Inl e \<and> st' = st) \<or> (\<exists>a. body st = Inr (a, st') \<and> r = Inr a)"
  by (auto simp: session_def split: sum.splits)

lemma then_op_eq: "then_op o1 f = (r, st') \<longleftrightarrow>
    (\<exists>e. o1 = (Inl e, st') \<and> r = Inl e) \<or> (\<exists>a st1. o1 = (Inr a, st1) \<and> f a st1 = (r, st'))"
  by (auto simp: then_op_def split: prod.splits sum.splits)

lemma find_artifact_Some: "find_artifact st i = Some row \<Longrightarrow> row \<in> set (artifacts st) \<and> row_id row = i"
  unfolding find_artifact_def by (drule find_Some_mem)

lemma find_artifact_None: "find_artifact st i = None \<longleftrightarrow> i \<notin> set (artifact_ids st)"
  by (auto simp: find_artifact_def find_None_iff' artifact_ids_def)

lemma find_artifact_refers: "find_artifact st i = Some row \<Longrightarrow> refers st i"
  using find_artifact_None [of st i] by (simp add: refers_def)

lemma get_artifactE:
  assumes "get_artifact sha st i = Inr (rec, payload)"
  obtains row stamp where "find_artifact st i = Some row" "rec = (row_record row)\<lparr>sar_created_at := stamp\<rparr>"
    "canonical_timestamp (sar_created_at (row_record row)) = Inr stamp" "json_loads (row_payload_json row) = Some payload"
    "core_digest sha (of_json payload) = Inr (sar_payload_digest (row_record row))"
  using assms by (auto simp: get_artifact_def result_simps split: option.splits if_splits)

lemma admit_row_record: "admit_row sha at actor (rec, row) st = Inr ((rec', idem), st') \<Longrightarrow> rec' = rec"
  by (auto simp: admit_row_def bindE_Inr split: option.splits if_splits)

lemma admit_modelE:
  assumes "admit_model sha at actor ty ref a m st = (Inr (rec, idem), st')"
  obtains row where "prepare_model sha m ty ref at a = Inr (rec, row)"
    "admit_row sha at actor (rec, row) st = Inr ((rec, idem), st')"
  using assms by (auto simp: admit_model_def then_op_eq session_eq dest: admit_row_record)

section \<open>The interface between writes and operations\<close>

text \<open>
  \<open>stamp_ok\<close> is what the callers promise of the timestamps they pass; the laws say that each group of
  inserts with its audit event keeps \<open>Q\<close>.
\<close>

locale store_relation =
  fixes Q :: "store \<Rightarrow> store \<Rightarrow> bool" and sha :: "string \<Rightarrow> string" and stamp_ok :: "string \<Rightarrow> bool"
  assumes Q_refl: "Q st st"
    and Q_trans: "Q st1 st2 \<Longrightarrow> Q st2 st3 \<Longrightarrow> Q st1 st3"
    and stamp_canonical: "canonical_timestamp s = Inr t \<Longrightarrow> stamp_ok t"
    and write_admit: "stamp_ok at \<Longrightarrow> prepare_model sha m ty ref at a = Inr (rec, row) \<Longrightarrow> find_artifact st (sar_artifact_id rec) = None \<Longrightarrow>
      insert_artifact row st = Inr st1 \<Longrightarrow>
      append_event sha ARTIFACT_CACHED (sar_artifact_id rec) actor at (sar_payload_digest rec) st1 = Inr st2 \<Longrightarrow> Q st st2"
    and write_baseline: "stamp_ok (br_effective_from reg) \<Longrightarrow> insert_baseline reg st = Inr st1 \<Longrightarrow>
      append_event sha ety (br_artifact_id reg) actor (br_effective_from reg) d st1 = Inr st2 \<Longrightarrow> Q st st2"
    and write_comparison: "stamp_ok at \<Longrightarrow> insert_or_ignore_comparison c st = Inr st1 \<Longrightarrow> refers st i \<Longrightarrow>
      append_event sha ety i actor at d st1 = Inr st2 \<Longrightarrow> Q st st2"
    and write_amendment: "stamp_ok at \<Longrightarrow> insert_amendment a' st = Inr st1 \<Longrightarrow> refers st i \<Longrightarrow>
      append_event sha ety i actor at d st1 = Inr st2 \<Longrightarrow> Q st st2"
    and write_decision: "stamp_ok at \<Longrightarrow> insert_decision dr st = Inr st1 \<Longrightarrow>
      find_artifact st (pd_artifact_id (dr_envelope dr)) = Some ra \<Longrightarrow>
      sar_content_digest (row_record ra) = pd_artifact_digest (dr_envelope dr) \<Longrightarrow>
      append_event sha ety (pd_artifact_id (dr_envelope dr)) actor at d st1 = Inr st2 \<Longrightarrow> Q st st2"
    and write_certification: "stamp_ok at \<Longrightarrow> insert_certification cf st = Inr st1 \<Longrightarrow>
      find_artifact st (ce_artifact_id (cfr_envelope cf)) = Some ra \<Longrightarrow>
      sar_content_digest (row_record ra) = ce_artifact_digest (cfr_envelope cf) \<Longrightarrow>
      append_event sha ety (ce_artifact_id (cfr_envelope cf)) actor at d st1 = Inr st2 \<Longrightarrow> Q st st2"
begin

lemma keeps_admit_model:
  assumes "stamp_ok at" "admit_model sha at actor ty ref a m st = (r, st')"
  shows "Q st st'"
proof -
  consider "st' = st" | rec row x where "prepare_model sha m ty ref at a = Inr (rec, row)"
      "admit_row sha at actor (rec, row) st = Inr (x, st')"
    using assms(2) by (auto simp: admit_model_def then_op_eq session_eq)
  then show ?thesis
  proof cases
    case 1
    then show ?thesis by (simp add: Q_refl)
  next
    case 2
    show ?thesis
    proof (cases "find_artifact st (sar_artifact_id rec)")
      case None
      then show ?thesis using 2 assms(1) by (auto simp: admit_row_def bindE_Inr intro: write_admit)
    next
      case (Some old)
      then show ?thesis using 2 by (auto simp: admit_row_def Q_refl split: if_splits)
    qed
  qed
qed

lemma keeps_admit_each:
  assumes "\<And>m st r st'. f m st = (r, st') \<Longrightarrow> Q st st'" "admit_each f ms acc st = (r, st')"
  shows "Q st st'"
  using assms(2)
proof (induction ms arbitrary: acc st)
  case (Cons m ms)
  then show ?case using assms(1) Q_trans by (fastforce simp: then_op_eq)
qed (simp add: Q_refl)

lemma keeps_then:
  assumes "then_op o1 f = (r, st')" "\<And>r1 st1. o1 = (r1, st1) \<Longrightarrow> Q st st1" "\<And>a st1 r st2. f a st1 = (r, st2) \<Longrightarrow> Q st1 st2"
  shows "Q st st'"
  using assms Q_trans by (auto simp: then_op_eq)

lemma keeps_each_model:
  assumes "stamp_ok at" "admit_each (\<lambda>m. admit_model sha at actor ty (ref m) (a m) m) ms acc st = (r, st')"
  shows "Q st st'"
  using keeps_admit_each [OF _ assms(2)] keeps_admit_model [OF assms(1)] by blast

lemma keeps_dependent:
  assumes "stamp_ok at" "admit_dependent sha at actor ty ref child m st = (r, st')"
  shows "Q st st'"
  using assms(2) keeps_admit_model [OF assms(1)] by (auto simp: admit_dependent_def then_op_eq Q_refl)

lemma keeps_each_dependent:
  assumes "stamp_ok at" "admit_each (admit_dependent sha at actor ty ref child) ms acc st = (r, st')"
  shows "Q st st'"
  using keeps_admit_each [OF _ assms(2)] keeps_dependent [OF assms(1)] by blast

lemma keeps_scenario_batch:
  assumes "stamp_ok at" "admit_scenario_batch sha batch at actor st = (r, st')"
  shows "Q st st'"
  using assms(2) unfolding admit_scenario_batch_def Let_def
  by (elim keeps_then) (auto elim: keeps_admit_model [OF assms(1)] keeps_each_model [OF assms(1)] keeps_then)

lemma keeps_bdd_batch:
  assumes "stamp_ok at" "admit_bdd_batch sha batch at actor st = (r, st')"
  shows "Q st st'"
  using assms(2) unfolding admit_bdd_batch_def Let_def
  by (elim keeps_then) (auto elim: keeps_admit_model [OF assms(1)] keeps_each_model [OF assms(1)]
      keeps_each_dependent [OF assms(1)] keeps_then)

lemma keeps_runtime_batch:
  assumes "stamp_ok at" "admit_runtime_batch sha batch at actor st = (r, st')"
  shows "Q st st'"
  using assms(2) unfolding admit_runtime_batch_def Let_def
  by (elim keeps_then) (auto elim: keeps_admit_model [OF assms(1)] keeps_each_model [OF assms(1)]
      keeps_each_dependent [OF assms(1)] keeps_then)

lemma keeps_register_baseline:
  assumes "register_baseline sha i authority from_at actor st = (r, st')"
  shows "Q st st'"
proof -
  consider "st' = st" | reg st1 st2 d where "insert_baseline reg st = Inr st1" "br_artifact_id reg = i"
      "canonical_timestamp from_at = Inr (br_effective_from reg)"
      "append_event sha REFERENCE_BASELINE_CACHED i actor (br_effective_from reg) d st1 = Inr st2" "st' = st2"
    using assms
    by (auto simp: register_baseline_def then_op_eq session_eq result_simps Let_def split: if_splits prod.splits)
  then show ?thesis by cases (auto simp: Q_refl intro: write_baseline stamp_canonical)
qed

lemma compute_comparison_facts:
  assumes "compute_comparison sha st i at = Inr c"
  shows "refers st i" "canonical_timestamp at = Inr (bc_compared_at c)"
  using assms
  by (auto simp: compute_comparison_def result_simps Let_def split: if_splits elim!: get_artifactE intro: find_artifact_refers)

lemma keeps_compare:
  assumes "compare_to_baseline sha i at actor st = (r, st')"
  shows "Q st st'"
proof -
  consider "st' = st" | c st1 d where "compute_comparison sha st i at = Inr c"
      "insert_or_ignore_comparison (comparison_row c) st = Inr st1"
      "append_event sha BASELINE_COMPARED i actor (bc_compared_at c) d st1 = Inr st'"
    using assms by (auto simp: compare_to_baseline_def then_op_eq session_eq result_simps)
  then show ?thesis
  proof cases
    case 2
    then show ?thesis using compute_comparison_facts [OF 2(1)] write_comparison stamp_canonical by blast
  qed (simp add: Q_refl)
qed

lemma admit_model_stored:
  assumes "admit_model sha at actor ty ref a m st = (Inr (rec, idem), st')"
  shows "refers st' (sar_artifact_id rec)"
proof -
  from assms obtain row where p: "prepare_model sha m ty ref at a = Inr (rec, row)"
    and r: "admit_row sha at actor (rec, row) st = Inr ((rec, idem), st')"
    by (rule admit_modelE)
  have "row_id row = sar_artifact_id rec" using p by (auto simp: prepare_model_def result_simps artifact_record_def)
  then show ?thesis
    using r find_artifact_refers [of st "sar_artifact_id rec"]
    by (auto simp: admit_row_def bindE_Inr insert_artifact_def append_event_def Let_def refers_def artifact_ids_def
        split: option.splits if_splits)
qed

lemma keeps_amend:
  assumes "stamp_ok at" "amend_scenario_spec sha orig sp editor reason at st = (r, st')"
  shows "Q st st'"
proof -
  consider "st' = st" | r1 where "admit_model sha at editor SCENARIO_SPEC (attr_str sp ''scenario_spec_id'')
         ((spec_args sp no_args)\<lparr>aa_parent_artifact_id := Some orig, aa_invalidates := True\<rparr>) sp st = (r1, st')"
    | rec idem st1 a st2 d stamp where "admit_model sha at editor SCENARIO_SPEC (attr_str sp ''scenario_spec_id'')
         ((spec_args sp no_args)\<lparr>aa_parent_artifact_id := Some orig, aa_invalidates := True\<rparr>) sp st = (Inr (rec, idem), st1)"
       "insert_amendment a st1 = Inr st2" "canonical_timestamp at = Inr stamp"
       "append_event sha REVIEW_AMENDMENT_CACHED (sar_artifact_id rec) editor stamp d st2 = Inr st'"
    using assms(2)
    by (auto simp: amend_scenario_spec_def then_op_eq session_eq result_simps Let_def split: prod.splits)
  then show ?thesis
  proof cases
    case 2
    then show ?thesis by (rule keeps_admit_model [OF assms(1)])
  next
    case 3
    have "Q st st1" by (rule keeps_admit_model [OF assms(1) 3(1)])
    moreover have "Q st1 st'"
      using write_amendment [OF stamp_canonical [OF 3(3)] 3(2) admit_model_stored [OF 3(1)] 3(4)] .
    ultimately show ?thesis by (rule Q_trans)
  qed (simp add: Q_refl)
qed

lemma binding_guardE:
  assumes "binding_guard sha st m i d = Inr u"
  obtains row where "find_artifact st i = Some row" "sar_content_digest (row_record row) = d"
  using assms by (auto simp: binding_guard_def result_simps elim!: get_artifactE)

lemma keeps_decision:
  assumes "stamp_ok (pd_effective_at e)" "bind_platform_decision sha e st = (r, st')"
  shows "Q st st'"
proof -
  consider "st' = st" | st1 row where "find_artifact st (pd_artifact_id e) = Some row"
      "sar_content_digest (row_record row) = pd_artifact_digest e"
      "insert_decision \<lparr>dr_envelope = e, dr_evidence_refs_json = dumps_strings (pd_evidence_refs e)\<rparr> st = Inr st1"
      "append_event sha EXTERNAL_PLATFORM_DECISION_CACHED (pd_artifact_id e) (pd_authority_ref e) (pd_effective_at e)
         (pd_content_digest e) st1 = Inr st'"
    using assms(2)
    by (auto simp: bind_platform_decision_def then_op_eq session_eq result_simps split: if_splits elim!: binding_guardE)
  then show ?thesis
  proof cases
    case 2
    then show ?thesis using write_decision [OF assms(1) 2(3)] by simp
  qed (simp add: Q_refl)
qed

lemma keeps_certification:
  assumes "stamp_ok (ce_valid_from e)" "bind_certification sha e st = (r, st')"
  shows "Q st st'"
proof -
  consider "st' = st" | st1 row where "find_artifact st (ce_artifact_id e) = Some row"
      "sar_content_digest (row_record row) = ce_artifact_digest e"
      "insert_certification \<lparr>cfr_envelope = e, cfr_evidence_refs_json = dumps_strings (ce_evidence_refs e)\<rparr> st = Inr st1"
      "append_event sha EXTERNAL_CERTIFICATION_CACHED (ce_artifact_id e) (ce_authority_ref e) (ce_valid_from e)
         (ce_content_digest e) st1 = Inr st'"
    using assms(2)
    by (auto simp: bind_certification_def then_op_eq session_eq result_simps split: if_splits elim!: binding_guardE)
  then show ?thesis
  proof cases
    case 2
    then show ?thesis using write_certification [OF assms(1) 2(3)] by simp
  qed (simp add: Q_refl)
qed

end

section \<open>The operations as steps\<close>

text \<open>
  One call of the store, whatever it returns. \<open>ok\<close> is the promise on the timestamps; the
  envelopes are validated models, whose timestamps are canonical.
\<close>

inductive gov_step :: "(string \<Rightarrow> string) \<Rightarrow> (string \<Rightarrow> bool) \<Rightarrow> store \<Rightarrow> store \<Rightarrow> bool"
  for sha :: "string \<Rightarrow> string" and stamps :: "string \<Rightarrow> bool" where
  admit_scenarios: "stamps at \<Longrightarrow> admit_scenario_batch sha batch at actor st = (r, st') \<Longrightarrow> gov_step sha stamps st st'"
| admit_bdd: "stamps at \<Longrightarrow> admit_bdd_batch sha batch at actor st = (r, st') \<Longrightarrow> gov_step sha stamps st st'"
| admit_runtime: "stamps at \<Longrightarrow> admit_runtime_batch sha batch at actor st = (r, st') \<Longrightarrow> gov_step sha stamps st st'"
| register: "register_baseline sha i authority at actor st = (r, st') \<Longrightarrow> gov_step sha stamps st st'"
| compare: "compare_to_baseline sha i at actor st = (r, st') \<Longrightarrow> gov_step sha stamps st st'"
| amend: "stamps at \<Longrightarrow> amend_scenario_spec sha orig sp editor reason at st = (r, st') \<Longrightarrow> gov_step sha stamps st st'"
| decide: "stamps (pd_effective_at e) \<Longrightarrow> bind_platform_decision sha e st = (r, st') \<Longrightarrow> gov_step sha stamps st st'"
| certify: "stamps (ce_valid_from c) \<Longrightarrow> bind_certification sha c st = (r, st') \<Longrightarrow> gov_step sha stamps st st'"

inductive gov_reachable :: "(string \<Rightarrow> string) \<Rightarrow> (string \<Rightarrow> bool) \<Rightarrow> store \<Rightarrow> bool"
  for sha :: "string \<Rightarrow> string" and stamps :: "string \<Rightarrow> bool" where
  initial: "gov_reachable sha stamps empty_store"
| step: "gov_reachable sha stamps st \<Longrightarrow> gov_step sha stamps st st' \<Longrightarrow> gov_reachable sha stamps st'"

context store_relation
begin

lemma keeps_step: "gov_step sha stamp_ok st st' \<Longrightarrow> Q st st'"
  by (induction rule: gov_step.induct)
    (blast intro: keeps_scenario_batch keeps_bdd_batch keeps_runtime_batch keeps_register_baseline keeps_compare keeps_amend
      keeps_decision keeps_certification)+

end

section \<open>Rows are only appended\<close>

definition extends :: "store \<Rightarrow> store \<Rightarrow> bool" where
  "extends st st' =
     (prefix (artifacts st) (artifacts st') \<and> prefix (baselines st) (baselines st') \<and> prefix (comparisons st) (comparisons st')
      \<and> prefix (amendments st) (amendments st') \<and> prefix (platform_decisions st) (platform_decisions st')
      \<and> prefix (certifications st) (certifications st') \<and> prefix (audit_events st) (audit_events st'))"

lemma extends_trans: "extends a b \<Longrightarrow> extends b c \<Longrightarrow> extends a c"
  unfolding extends_def by (meson prefix_order.trans)

lemma append_event_shape:
  "append_event sha ty i actor at d st = Inr st' \<Longrightarrow> \<exists>e. st' = st\<lparr>audit_events := audit_events st @ [e]\<rparr> \<and> ev_artifact_id e = i"
  by (auto simp: append_event_def result_simps Let_def split: if_splits)

lemmas insert_defs = insert_artifact_def insert_baseline_def insert_or_ignore_comparison_def insert_amendment_def
  insert_decision_def insert_certification_def

interpretation log: store_relation extends sha "\<lambda>_. True" for sha
proof unfold_locales
  show "extends st st" for st by (simp add: extends_def)
  show "extends st1 st2 \<Longrightarrow> extends st2 st3 \<Longrightarrow> extends st1 st3" for st1 st2 st3 by (rule extends_trans)
qed (auto simp: insert_defs extends_def dest!: append_event_shape split: if_splits option.splits)

section \<open>The audit chain\<close>

definition log_digest :: "GovernanceAuditEvent list \<Rightarrow> string option" where
  "log_digest es = (if es = [] then None else Some (ev_content_digest (last es)))"

lemma log_digest_simps [simp]: "log_digest [] = None" "log_digest (es @ [e]) = Some (ev_content_digest e)"
  by (simp_all add: log_digest_def)

lemma chain_valid_snoc:
  "chain_valid sha p (es @ [e]) \<longleftrightarrow>
     chain_valid sha p es \<and> ev_previous_event_digest e = (if es = [] then p else log_digest es)
     \<and> core_digest sha (event_payload e) = Inr (ev_content_digest e)"
  by (induction es arbitrary: p) (auto simp: log_digest_def)

lemma chain_valid_None_snoc:
  "chain_valid sha None (es @ [e]) \<longleftrightarrow>
     chain_valid sha None es \<and> ev_previous_event_digest e = log_digest es
     \<and> core_digest sha (event_payload e) = Inr (ev_content_digest e)"
  by (simp add: chain_valid_snoc)

text \<open>The numbered, chained log that every write leaves behind.\<close>

definition log_ok :: "(string \<Rightarrow> string) \<Rightarrow> GovernanceAuditEvent list \<Rightarrow> bool" where
  "log_ok sha es =
     (map ev_sequence es = map int [1..<Suc (length es)] \<and> (\<forall>e \<in> set es. ev_event_id e = event_id_of (ev_sequence e))
      \<and> chain_valid sha None es)"

lemma log_ok_sequence: "log_ok sha es \<Longrightarrow> e \<in> set es \<Longrightarrow> ev_sequence e \<le> int (length es)"
proof -
  assume "log_ok sha es" "e \<in> set es"
  then have "ev_sequence e \<in> set (map int [1..<Suc (length es)])" by (metis log_ok_def image_eqI list.set_map)
  then show ?thesis by auto
qed

lemma log_ok_sorted: "log_ok sha es \<Longrightarrow> sort_key ev_sequence es = es"
proof -
  assume "log_ok sha es"
  then have "sorted (map ev_sequence es)" by (simp add: log_ok_def sorted_map del: upt_Suc)
  then show ?thesis by (simp add: sort_key_id_if_sorted)
qed

lemma log_ok_last:
  assumes "log_ok sha es"
  shows "last_event es = (if es = [] then None else Some (last es))"
    and "es \<noteq> [] \<Longrightarrow> ev_sequence (last es) = int (length es)"
proof -
  show "last_event es = (if es = [] then None else Some (last es))"
    using log_ok_sorted [OF assms] by (simp add: last_event_def split: list.splits)
  assume ne: "es \<noteq> []"
  have "ev_sequence (last es) = last (map ev_sequence es)" using ne by (simp add: last_map)
  also have "\<dots> = int (length es)" using assms ne by (auto simp: log_ok_def Suc_le_eq)
  finally show "ev_sequence (last es) = int (length es)" .
qed

lemma event_payload_digest [simp]: "event_payload (e\<lparr>ev_content_digest := d\<rparr>) = event_payload e"
  by (simp add: event_payload_def)

lemma append_event_log_ok:
  assumes ok: "log_ok sha (audit_events st)" and at: "canonical_timestamp at = Inr at"
    and ap: "append_event sha ty i actor at d st = Inr st'"
  shows "log_ok sha (audit_events st')"
proof -
  let ?es = "audit_events st"
  let ?n = "int (length ?es) + 1"
  let ?raw = "\<lparr>ev_event_id = event_id_of ?n, ev_sequence = ?n, ev_event_type = ty, ev_artifact_id = i,
                 ev_actor_ref = actor, ev_event_at = at, ev_payload_digest = d,
                 ev_previous_event_digest = log_digest ?es, ev_content_digest = []\<rparr>"
  have prev: "(case last_event ?es of None \<Rightarrow> 1 | Some p \<Rightarrow> ev_sequence p + 1) = ?n"
    "map_option ev_content_digest (last_event ?es) = log_digest ?es"
    using log_ok_last [OF ok] by (auto simp: log_digest_def)
  from ap obtain x where x: "core_digest sha (event_payload ?raw) = Inr x"
    and st': "audit_events st' = ?es @ [?raw\<lparr>ev_content_digest := x\<rparr>]"
    unfolding append_event_def prev Let_def by (auto simp: result_simps at split: if_splits)
  have "core_digest sha (event_payload (?raw\<lparr>ev_content_digest := x\<rparr>)) = Inr x" using x by (simp only: event_payload_digest)
  then show ?thesis
    using ok unfolding st' log_ok_def by (simp add: chain_valid_None_snoc)
qed

text \<open>The events are never refused for their number: the only failure is a timestamp that does not parse.\<close>

lemma drop_own_length: "drop (length xs) (xs @ ys) = ys"
  by simp

lemma event_id_number:
  assumes "0 \<le> n"
  shows "int (dec_value (drop (length ''audit-'') (event_id_of n))) = n"
proof -
  have i: "int_dec n = nat_dec (nat n)" using assms by (simp add: int_dec_def)
  have "dec_value (drop (length ''audit-'') (event_id_of n)) = nat n"
    unfolding event_id_of_def i drop_own_length dec_value_zeros dec_value_nat_dec
    by (rule refl)
  then show ?thesis using assms by simp
qed

lemma event_id_of_inject: "0 \<le> m \<Longrightarrow> 0 \<le> n \<Longrightarrow> event_id_of m = event_id_of n \<Longrightarrow> m = n"
  using event_id_number [of m] event_id_number [of n] by simp

lemma put_items_values:
  assumes "distinct (map fst (acc @ kvs))" "\<forall>kv \<in> set pvs. py_project (snd kv) = Inr (g (snd kv))"
    and "kvs = map (\<lambda>(k, v). (k, g v)) pvs"
  shows "put_items acc (map (\<lambda>(k, v). (k, py_project v)) (map (\<lambda>(k, v). (PStr k, v)) pvs)) = Inr (acc @ kvs)"
  using assms
proof (induction pvs arbitrary: acc kvs)
  case (Cons kv pvs)
  obtain k v where kv: "kv = (k, v)" by (cases kv)
  then show ?case
    using Cons.prems Cons.IH [of "acc @ [(k, g v)]" "map (\<lambda>(k, v). (k, g v)) pvs"] by auto
qed simp

lemma project_dict:
  assumes "distinct (map fst pvs)" "\<forall>kv \<in> set pvs. py_project (snd kv) = Inr (g (snd kv))"
  shows "py_project (py_dict pvs) = Inr (JObj (map (\<lambda>(k, v). (k, g v)) pvs))"
proof -
  have "map fst (map (\<lambda>(k, v). (k, g v)) pvs) = map fst pvs" by (simp add: comp_def split_def)
  then show ?thesis
    using put_items_values [of "[]" "map (\<lambda>(k, v). (k, g v)) pvs" pvs g] assms by (simp add: py_dict_def)
qed

text \<open>The JSON object an event is hashed as.\<close>

definition event_json :: "GovernanceAuditEvent \<Rightarrow> jval" where
  "event_json e = JObj
     [(''event_id'', JStr (ev_event_id e)), (''sequence'', JInt (ev_sequence e)),
      (''event_type'', JStr (event_type_value (ev_event_type e))), (''artifact_id'', JStr (ev_artifact_id e)),
      (''actor_ref'', JStr (ev_actor_ref e)), (''event_at'', JStr (ev_event_at e)),
      (''payload_digest'', JStr (ev_payload_digest e)), (''previous_event_digest'', jopt (ev_previous_event_digest e))]"

lemma project_opt [simp]: "py_project (opt_py v) = Inr (jopt v)"
  by (simp add: opt_py_def jopt_def split: option.splits)

lemma event_keys_distinct:
  "distinct [''event_id'', ''sequence'', ''event_type'', ''artifact_id'', ''actor_ref'', ''event_at'', ''payload_digest'', ''previous_event_digest'']"
  by code_simp

lemma project_event: "py_project (event_payload e) = Inr (event_json e)"
  unfolding event_payload_def
  by (subst project_dict [where g = "\<lambda>v. projr (py_project v)"]) (use event_keys_distinct in \<open>simp_all add: event_json_def\<close>)

lemma event_digest: "core_digest sha (event_payload e) = Inr (sha256_text sha (canonical_json (event_json e)))"
  by (simp add: core_digest_def canonical_json_bytes_def project_event)

lemma event_digest_total: "\<exists>x. core_digest sha (event_payload e) = Inr x"
  by (simp add: event_digest)

lemma event_json_ok: "json_ok (event_json e)"
  using event_keys_distinct by (simp add: event_json_def jopt_def split: option.splits)

section \<open>The log is tamper-evident\<close>

lemma normalize_lookup:
  assumes "distinct (map fst kvs)"
  shows "map_of (map (\<lambda>(k, v). (k, json_normalize v)) (sort_key fst kvs)) k = map_option json_normalize (map_of kvs k)"
proof -
  have "map_of (sort_key fst kvs) = map_of kvs"
    using assms by (intro map_of_inject_set [THEN iffD2]) (simp_all add: distinct_map)
  then show ?thesis by (simp add: map_of_map comp_def)
qed

lemma normalize_fields:
  assumes "json_normalize (JObj kvs) = json_normalize (JObj kvs')" "distinct (map fst kvs)" "distinct (map fst kvs')"
  shows "map_option json_normalize (map_of kvs k) = map_option json_normalize (map_of kvs' k)"
  using assms normalize_lookup [OF assms(2), of k] normalize_lookup [OF assms(3), of k] by simp

lemma event_type_value_inject: "event_type_value t = event_type_value u \<Longrightarrow> t = u"
  by (cases t; cases u) simp_all

lemma jopt_normalize [simp]: "json_normalize (jopt v) = jopt v"
  by (simp add: jopt_def split: option.splits)

lemma jopt_inject [simp]: "jopt v = jopt w \<longleftrightarrow> v = w"
  by (auto simp: jopt_def split: option.splits)

lemma event_json_inject:
  assumes "json_normalize (event_json a) = json_normalize (event_json b)" "ev_content_digest a = ev_content_digest b"
  shows "a = b"
proof -
  let ?f = "\<lambda>e. [(''event_id'', JStr (ev_event_id e)), (''sequence'', JInt (ev_sequence e)),
      (''event_type'', JStr (event_type_value (ev_event_type e))), (''artifact_id'', JStr (ev_artifact_id e)),
      (''actor_ref'', JStr (ev_actor_ref e)), (''event_at'', JStr (ev_event_at e)),
      (''payload_digest'', JStr (ev_payload_digest e)), (''previous_event_digest'', jopt (ev_previous_event_digest e))]"
  have d: "distinct (map fst (?f e))" for e using event_keys_distinct by simp
  have j: "event_json e = JObj (?f e)" for e by (simp add: event_json_def)
  note F = normalize_fields [OF assms(1) [unfolded j] d d]
  have "ev_event_id a = ev_event_id b" using F [of "''event_id''"] by simp
  moreover have "ev_sequence a = ev_sequence b" using F [of "''sequence''"] by simp
  moreover have "ev_event_type a = ev_event_type b" using F [of "''event_type''"] by (simp add: event_type_value_inject)
  moreover have "ev_artifact_id a = ev_artifact_id b" using F [of "''artifact_id''"] by simp
  moreover have "ev_actor_ref a = ev_actor_ref b" using F [of "''actor_ref''"] by simp
  moreover have "ev_event_at a = ev_event_at b" using F [of "''event_at''"] by simp
  moreover have "ev_payload_digest a = ev_payload_digest b" using F [of "''payload_digest''"] by simp
  moreover have "ev_previous_event_digest a = ev_previous_event_digest b" using F [of "''previous_event_digest''"] by simp
  ultimately show ?thesis using assms(2) by (cases a; cases b) simp
qed

lemma event_digest_inject:
  assumes "inj sha" "core_digest sha (event_payload a) = Inr (ev_content_digest a)"
    and "core_digest sha (event_payload b) = Inr (ev_content_digest b)" "ev_content_digest a = ev_content_digest b"
  shows "a = b"
proof -
  have "sha (canonical_json (event_json a)) = sha (canonical_json (event_json b))"
    using assms(2-4) unfolding event_digest sha256_text_def sum.inject by (metis same_append_eq)
  then have "canonical_json (event_json a) = canonical_json (event_json b)" using assms(1) by (simp add: inj_eq)
  then have "json_normalize (event_json a) = json_normalize (event_json b)"
    using loads_canonical [OF event_json_ok, of a] loads_canonical [OF event_json_ok, of b] by simp
  then show ?thesis using assms(4) by (rule event_json_inject)
qed

lemma log_determined:
  assumes "inj sha" "chain_valid sha None es" "chain_valid sha None es'" "log_digest es = log_digest es'"
  shows "es = es'"
  using assms(2-)
proof (induction es arbitrary: es' rule: rev_induct)
  case Nil
  then show ?case by (cases es' rule: rev_cases) simp_all
next
  case (snoc e es)
  then obtain e' fs where es': "es' = fs @ [e']" by (cases es' rule: rev_cases) simp_all
  have "e = e'"
    using snoc.prems es' by (intro event_digest_inject [OF assms(1)]) (simp_all add: chain_valid_None_snoc)
  moreover have "es = fs"
    using snoc.prems es' calculation by (intro snoc.IH) (simp_all add: chain_valid_None_snoc)
  ultimately show ?case by (simp add: es')
qed

lemma append_event_total:
  assumes ok: "log_ok sha (audit_events st)" and at: "canonical_timestamp at = Inr t"
  shows "\<exists>st'. append_event sha ty i actor at d st = Inr st'"
proof -
  let ?es = "audit_events st"
  let ?n = "int (length ?es) + 1"
  have prev: "(case last_event ?es of None \<Rightarrow> 1 | Some p \<Rightarrow> ev_sequence p + 1) = ?n"
    using log_ok_last [OF ok] by auto
  have new: "?n \<notin> ev_sequence ` set ?es" using log_ok_sequence [OF ok] by fastforce
  have pos: "e \<in> set ?es \<Longrightarrow> 0 \<le> ev_sequence e" for e
  proof -
    assume "e \<in> set ?es"
    then have "ev_sequence e \<in> set (map int [1..<Suc (length ?es)])" using ok by (metis log_ok_def image_eqI list.set_map)
    then show "0 \<le> ev_sequence e" by auto
  qed
  have "event_id_of ?n \<notin> ev_event_id ` set ?es"
  proof
    assume "event_id_of ?n \<in> ev_event_id ` set ?es"
    then obtain e where e: "e \<in> set ?es" "event_id_of ?n = event_id_of (ev_sequence e)" using ok by (auto simp: log_ok_def)
    then have "?n = ev_sequence e" using event_id_of_inject [of ?n "ev_sequence e"] pos [OF e(1)] by simp
    then show False using new e(1) by blast
  qed
  moreover obtain x where "core_digest sha (event_payload \<lparr>ev_event_id = event_id_of ?n, ev_sequence = ?n, ev_event_type = ty,
      ev_artifact_id = i, ev_actor_ref = actor, ev_event_at = at, ev_payload_digest = d,
      ev_previous_event_digest = map_option ev_content_digest (last_event ?es), ev_content_digest = []\<rparr>) = Inr x"
    using event_digest_total by blast
  ultimately show ?thesis
    using new unfolding append_event_def prev Let_def
    by (simp add: at stampE_def bindE_def canonE_def)
qed

section \<open>The invariant of the store\<close>

definition bound_to :: "store \<Rightarrow> string \<Rightarrow> string \<Rightarrow> bool" where
  "bound_to st i digest = (\<exists>row \<in> set (artifacts st). row_id row = i \<and> sar_content_digest (row_record row) = digest)"

definition row_ok :: "(string \<Rightarrow> string) \<Rightarrow> store \<Rightarrow> ArtifactRow \<Rightarrow> bool" where
  "row_ok sha st row =
     (row_id row = artifact_id_of sha (sar_artifact_type (row_record row)) (sar_artifact_ref (row_record row))
        (sar_content_digest (row_record row))
      \<and> sar_payload_digest (row_record row) = sha256_text sha (row_payload_json row)
      \<and> (case sar_parent_artifact_id (row_record row) of None \<Rightarrow> True | Some p \<Rightarrow> refers st p))"

definition store_ok :: "(string \<Rightarrow> string) \<Rightarrow> store \<Rightarrow> bool" where
  "store_ok sha st =
     (distinct (artifact_ids st) \<and> (\<forall>row \<in> set (artifacts st). row_ok sha st row)
      \<and> distinct (map br_registration_id (baselines st)) \<and> (\<forall>b \<in> set (baselines st). refers st (br_artifact_id b))
      \<and> distinct (map cr_comparison_id (comparisons st))
      \<and> (\<forall>c \<in> set (comparisons st). refers st (cr_candidate_artifact_id c)
           \<and> (\<forall>b. cr_baseline_artifact_id c = Some b \<longrightarrow> refers st b))
      \<and> distinct (map ar_amendment_id (amendments st))
      \<and> (\<forall>a \<in> set (amendments st). refers st (ar_original_artifact_id a) \<and> refers st (ar_amended_artifact_id a))
      \<and> distinct (map (\<lambda>r. pd_binding_id (dr_envelope r)) (platform_decisions st))
      \<and> (\<forall>r \<in> set (platform_decisions st). bound_to st (pd_artifact_id (dr_envelope r)) (pd_artifact_digest (dr_envelope r)))
      \<and> distinct (map (\<lambda>r. ce_certification_binding_id (cfr_envelope r)) (certifications st))
      \<and> (\<forall>r \<in> set (certifications st). bound_to st (ce_artifact_id (cfr_envelope r)) (ce_artifact_digest (cfr_envelope r)))
      \<and> (\<forall>e \<in> set (audit_events st). refers st (ev_artifact_id e)) \<and> log_ok sha (audit_events st))"

lemma store_ok_log: "store_ok sha st \<Longrightarrow> log_ok sha (audit_events st)"
  by (simp add: store_ok_def)

text \<open>Appending an artifact keeps every reference; appending another row changes no artifact.\<close>

lemma refers_update [simp]:
  "refers (st\<lparr>baselines := bs\<rparr>) i = refers st i" "refers (st\<lparr>comparisons := cs\<rparr>) i = refers st i"
  "refers (st\<lparr>amendments := am\<rparr>) i = refers st i" "refers (st\<lparr>platform_decisions := ds\<rparr>) i = refers st i"
  "refers (st\<lparr>certifications := ce\<rparr>) i = refers st i" "refers (st\<lparr>audit_events := es\<rparr>) i = refers st i"
  "refers (st\<lparr>artifacts := artifacts st @ [row]\<rparr>) i \<longleftrightarrow> refers st i \<or> i = row_id row"
  by (auto simp: refers_def artifact_ids_def)

lemma bound_to_update [simp]:
  "bound_to (st\<lparr>baselines := bs\<rparr>) i d = bound_to st i d" "bound_to (st\<lparr>comparisons := cs\<rparr>) i d = bound_to st i d"
  "bound_to (st\<lparr>amendments := am\<rparr>) i d = bound_to st i d" "bound_to (st\<lparr>platform_decisions := ds\<rparr>) i d = bound_to st i d"
  "bound_to (st\<lparr>certifications := ce\<rparr>) i d = bound_to st i d" "bound_to (st\<lparr>audit_events := es\<rparr>) i d = bound_to st i d"
  "bound_to (st\<lparr>artifacts := artifacts st @ [row]\<rparr>) i d \<longleftrightarrow>
     bound_to st i d \<or> row_id row = i \<and> sar_content_digest (row_record row) = d"
  by (auto simp: bound_to_def)

lemma row_ok_update [simp]:
  "row_ok sha (st\<lparr>baselines := bs\<rparr>) r = row_ok sha st r" "row_ok sha (st\<lparr>comparisons := cs\<rparr>) r = row_ok sha st r"
  "row_ok sha (st\<lparr>amendments := am\<rparr>) r = row_ok sha st r" "row_ok sha (st\<lparr>platform_decisions := ds\<rparr>) r = row_ok sha st r"
  "row_ok sha (st\<lparr>certifications := ce\<rparr>) r = row_ok sha st r" "row_ok sha (st\<lparr>audit_events := es\<rparr>) r = row_ok sha st r"
  by (simp_all add: row_ok_def split: option.splits)

lemma row_ok_mono: "row_ok sha st r \<Longrightarrow> row_ok sha (st\<lparr>artifacts := artifacts st @ [row]\<rparr>) r"
  by (auto simp: row_ok_def split: option.splits)

lemma prepare_row_ok:
  assumes "prepare_model sha m ty ref at a = Inr (rec, row)" "insert_artifact row st = Inr st1"
  shows "row_ok sha st1 row" "row_id row = sar_artifact_id rec" "sar_payload_digest rec = sar_payload_digest (row_record row)"
proof -
  from assms(1) obtain cd pj pd where pj: "canonical_json_bytes m = Inr pj" "core_digest sha m = Inr pd"
    and row: "row = \<lparr>row_record = artifact_record sha ty ref cd pd a at, row_payload_json = pj\<rparr>"
    and rec: "\<exists>t. rec = artifact_record sha ty ref cd pd a t"
    by (auto simp: prepare_model_def result_simps)
  have "pd = sha256_text sha pj" using pj by (simp add: core_digest_def)
  moreover have "case sar_parent_artifact_id (row_record row) of None \<Rightarrow> True | Some p \<Rightarrow> refers st1 p"
    using assms(2) by (auto simp: insert_artifact_def refers_def artifact_ids_def split: if_splits option.splits)
  ultimately show "row_ok sha st1 row" by (simp add: row_ok_def row artifact_record_def)
  show "row_id row = sar_artifact_id rec" "sar_payload_digest rec = sar_payload_digest (row_record row)"
    using rec by (auto simp: row artifact_record_def)
qed

lemma append_event_store_ok:
  assumes ok: "store_ok sha st" and ref: "refers st i" and at: "canonical_timestamp at = Inr at"
    and ap: "append_event sha ty i actor at d st = Inr st'"
  shows "store_ok sha st'"
proof -
  obtain e where e: "st' = st\<lparr>audit_events := audit_events st @ [e]\<rparr>" "ev_artifact_id e = i"
    using append_event_shape [OF ap] by blast
  have "log_ok sha (audit_events st')" by (rule append_event_log_ok [OF store_ok_log [OF ok] at ap])
  then show ?thesis using ok ref e by (simp add: store_ok_def artifact_ids_def)
qed

abbreviation canonical_stamp :: "string \<Rightarrow> bool" where
  "canonical_stamp s \<equiv> canonical_timestamp s = Inr s"

lemma insert_artifact_ok:
  assumes "store_ok sha st" "insert_artifact row st = Inr st1" "row_ok sha st1 row"
  shows "store_ok sha st1 \<and> refers st1 (row_id row)"
proof -
  have st1: "st1 = st\<lparr>artifacts := artifacts st @ [row]\<rparr>" "row_id row \<notin> set (artifact_ids st)"
    using assms(2) by (auto simp: insert_artifact_def split: if_splits)
  have "\<forall>r \<in> set (artifacts st). row_ok sha st1 r" using assms(1) st1 by (auto simp: store_ok_def intro: row_ok_mono)
  then show ?thesis using assms st1 by (simp add: store_ok_def artifact_ids_def)
qed

lemma insert_baseline_ok:
  "store_ok sha st \<Longrightarrow> insert_baseline b st = Inr st1 \<Longrightarrow> store_ok sha st1 \<and> refers st1 (br_artifact_id b)"
  by (auto simp: insert_baseline_def store_ok_def artifact_ids_def split: if_splits)

lemma insert_comparison_ok: "store_ok sha st \<Longrightarrow> insert_or_ignore_comparison c st = Inr st1 \<Longrightarrow> store_ok sha st1"
  by (auto simp: insert_or_ignore_comparison_def store_ok_def artifact_ids_def split: if_splits option.splits)

lemma insert_amendment_ok: "store_ok sha st \<Longrightarrow> insert_amendment a st = Inr st1 \<Longrightarrow> store_ok sha st1"
  by (auto simp: insert_amendment_def store_ok_def artifact_ids_def split: if_splits)

lemma insert_decision_ok:
  "store_ok sha st \<Longrightarrow> insert_decision d st = Inr st1 \<Longrightarrow> bound_to st (pd_artifact_id (dr_envelope d)) (pd_artifact_digest (dr_envelope d))
     \<Longrightarrow> store_ok sha st1 \<and> refers st1 (pd_artifact_id (dr_envelope d))"
  by (auto simp: insert_decision_def store_ok_def artifact_ids_def split: if_splits)

lemma insert_certification_ok:
  "store_ok sha st \<Longrightarrow> insert_certification c st = Inr st1 \<Longrightarrow> bound_to st (ce_artifact_id (cfr_envelope c)) (ce_artifact_digest (cfr_envelope c))
     \<Longrightarrow> store_ok sha st1 \<and> refers st1 (ce_artifact_id (cfr_envelope c))"
  by (auto simp: insert_certification_def store_ok_def artifact_ids_def split: if_splits)

lemma insert_refers:
  "insert_or_ignore_comparison c st = Inr st1 \<Longrightarrow> refers st1 i = refers st i"
  "insert_amendment a st = Inr st1 \<Longrightarrow> refers st1 i = refers st i"
  by (auto simp: insert_or_ignore_comparison_def insert_amendment_def split: if_splits option.splits)

lemma find_bound: "find_artifact st i = Some row \<Longrightarrow> sar_content_digest (row_record row) = d \<Longrightarrow> bound_to st i d"
  by (auto simp: bound_to_def dest: find_artifact_Some)

interpretation inv: store_relation "\<lambda>st st'. store_ok sha st \<longrightarrow> store_ok sha st'" sha canonical_stamp for sha
proof unfold_locales
  show "canonical_stamp t" if "canonical_timestamp s = Inr t" for s t
    using that by (elim canonical_timestampE) (simp add: canonical_timestamp_canon_text)
next
  fix at m ty ref a rec row st st1 actor st2
  assume at: "canonical_stamp at" and p: "prepare_model sha m ty ref at a = Inr (rec, row)" and i: "insert_artifact row st = Inr st1"
    and e: "append_event sha ARTIFACT_CACHED (sar_artifact_id rec) actor at (sar_payload_digest rec) st1 = Inr st2"
  show "store_ok sha st \<longrightarrow> store_ok sha st2"
    using insert_artifact_ok [OF _ i prepare_row_ok(1) [OF p i]] prepare_row_ok(2) [OF p i] append_event_store_ok [OF _ _ at e] by auto
qed (auto dest: insert_baseline_ok insert_comparison_ok insert_amendment_ok insert_decision_ok insert_certification_ok find_bound
    simp: insert_refers intro: append_event_store_ok)

lemma empty_store_ok: "store_ok sha empty_store"
  by (simp add: store_ok_def empty_store_def artifact_ids_def log_ok_def)

lemma reachable_store_ok: "gov_reachable sha canonical_stamp st \<Longrightarrow> store_ok sha st"
  by (induction rule: gov_reachable.induct) (use empty_store_ok inv.keeps_step in blast)+

lemma store_ok_chain: "store_ok sha st \<Longrightarrow> audit_chain_valid sha st"
  using log_ok_sorted [OF store_ok_log, of sha st] by (simp add: audit_chain_valid_def store_ok_def log_ok_def)

end
