(* ===== verification/SemanticModels.thy ===== *)
theory SemanticModels
  imports Runtime
begin

text \<open>
  The analysis models of the Db2 engine that the modality analysis and the scenario compiler read
  (\<open>analysis/models.py\<close>, \<open>parsing/models.py\<close>): effect bundles, obligations, slices, predicate graphs and
  the semantic result. A field of a record that no modelled operation reads is left out of it, as
  the state accesses of the syntax tree and the summaries of windows and queries are.
\<close>

section \<open>Values\<close>

fun effect_kind_value :: "EffectKind \<Rightarrow> string" where
  "effect_kind_value EK_OUT_PARAMETER_ASSIGNMENT = ''OUT_PARAMETER_ASSIGNMENT''"
| "effect_kind_value EK_DML = ''DML''"
| "effect_kind_value EK_CALL = ''CALL''"
| "effect_kind_value EK_DYNAMIC_SQL = ''DYNAMIC_SQL''"
| "effect_kind_value EK_COMMIT = ''COMMIT''"
| "effect_kind_value EK_ROLLBACK = ''ROLLBACK''"
| "effect_kind_value EK_SIGNAL = ''SIGNAL''"
| "effect_kind_value EK_RESIGNAL = ''RESIGNAL''"
| "effect_kind_value EK_SEQUENCE_VALUE_ACQUISITION = ''SEQUENCE_VALUE_ACQUISITION''"
| "effect_kind_value EK_RESULT_SET_RETURN = ''RESULT_SET_RETURN''"
| "effect_kind_value EK_STATE_ASSIGNMENT = ''STATE_ASSIGNMENT''"

fun observability_value :: "EffectObservability \<Rightarrow> string" where
  "observability_value EO_INTERMEDIATE_EFFECT = ''INTERMEDIATE_EFFECT''"
| "observability_value EO_ESCAPING_EFFECT = ''ESCAPING_EFFECT''"
| "observability_value EO_COMMITTED_EFFECT = ''COMMITTED_EFFECT''"
| "observability_value EO_ROLLED_BACK_EFFECT = ''ROLLED_BACK_EFFECT''"
| "observability_value EO_OVERWRITTEN_OUTPUT_ASSIGNMENT = ''OVERWRITTEN_OUTPUT_ASSIGNMENT''"
| "observability_value EO_HANDLED_CONDITION = ''HANDLED_CONDITION''"
| "observability_value EO_UNHANDLED_ESCAPING_CONDITION = ''UNHANDLED_ESCAPING_CONDITION''"
| "observability_value EO_UNRESOLVED_EFFECT_BOUNDARY = ''UNRESOLVED_EFFECT_BOUNDARY''"
| "observability_value EO_TRANSACTION_SURVIVAL_UNRESOLVED = ''TRANSACTION_SURVIVAL_UNRESOLVED''"
| "observability_value EO_CONDITIONALLY_COMMITTED_EFFECT = ''CONDITIONALLY_COMMITTED_EFFECT''"

fun survival_value :: "TransactionSurvivalClassification \<Rightarrow> string" where
  "survival_value TC_MUST_COMMIT = ''MUST_COMMIT''"
| "survival_value TC_MUST_ROLLBACK = ''MUST_ROLLBACK''"
| "survival_value TC_CALLER_CONTROLLED = ''CALLER_CONTROLLED''"
| "survival_value TC_CALLER_CONTRACT_COMMIT = ''CALLER_CONTRACT_COMMIT''"
| "survival_value TC_MAY_COMMIT_OR_ROLLBACK = ''MAY_COMMIT_OR_ROLLBACK''"
| "survival_value TC_MAY_COMMIT_OR_CALLER_CONTROLLED = ''MAY_COMMIT_OR_CALLER_CONTROLLED''"
| "survival_value TC_CALLER_CONTROLLED_OR_EXCEPTIONAL = ''CALLER_CONTROLLED_OR_EXCEPTIONAL''"
| "survival_value TC_MAY_COMMIT_ROLLBACK_OR_CALLER_CONTROLLED = ''MAY_COMMIT_ROLLBACK_OR_CALLER_CONTROLLED''"
| "survival_value TC_UNRESOLVED = ''UNRESOLVED''"

section \<open>Bundles and obligations\<close>

datatype EffectRelationship =
  ER_PRIMARY | ER_REQUIRED_CO_EFFECT | ER_CONDITIONAL_CO_EFFECT | ER_ALTERNATIVE_EFFECT |
  ER_COMPENSATING_EFFECT | ER_AUDIT_EFFECT | ER_ROLLED_BACK_EFFECT

fun relationship_value :: "EffectRelationship \<Rightarrow> string" where
  "relationship_value ER_PRIMARY = ''PRIMARY''"
| "relationship_value ER_REQUIRED_CO_EFFECT = ''REQUIRED_CO_EFFECT''"
| "relationship_value ER_CONDITIONAL_CO_EFFECT = ''CONDITIONAL_CO_EFFECT''"
| "relationship_value ER_ALTERNATIVE_EFFECT = ''ALTERNATIVE_EFFECT''"
| "relationship_value ER_COMPENSATING_EFFECT = ''COMPENSATING_EFFECT''"
| "relationship_value ER_AUDIT_EFFECT = ''AUDIT_EFFECT''"
| "relationship_value ER_ROLLED_BACK_EFFECT = ''ROLLED_BACK_EFFECT''"

datatype BehaviorActionScope =
  BA_PROCEDURE_INVOCATION | BA_CURSOR_ITERATION | BA_HANDLER_ACTIVATION | BA_POST_LOOP_AGGREGATION |
  BA_TRANSACTION_COMPLETION

fun action_scope_value :: "BehaviorActionScope \<Rightarrow> string" where
  "action_scope_value BA_PROCEDURE_INVOCATION = ''PROCEDURE_INVOCATION''"
| "action_scope_value BA_CURSOR_ITERATION = ''CURSOR_ITERATION''"
| "action_scope_value BA_HANDLER_ACTIVATION = ''HANDLER_ACTIVATION''"
| "action_scope_value BA_POST_LOOP_AGGREGATION = ''POST_LOOP_AGGREGATION''"
| "action_scope_value BA_TRANSACTION_COMPLETION = ''TRANSACTION_COMPLETION''"

datatype AnalysisCompleteness = AC_COMPLETE | AC_PARTIAL

record BundleEffectMember =
  be_effect_ref :: string
  be_relationship :: EffectRelationship
  be_condition_ref :: "string option"

record EffectOrderingEdge =
  oe_before_effect_ref :: string
  oe_after_effect_ref :: string
  oe_condition_ref :: "string option"
  oe_atomicity :: string

record BehaviorEffectBundle =
  bb_bundle_id :: string
  bb_primary_effect_ref :: string
  bb_effect_members :: "BundleEffectMember list"
  bb_transaction_region_ref :: string
  bb_controlling_region_ref :: string
  bb_action_scope :: BehaviorActionScope
  bb_action_scope_ref :: "string option"
  bb_ordering_edges :: "EffectOrderingEdge list"
  bb_bundle_completeness :: AnalysisCompleteness
  bb_evidence_refs :: "string list"

record LoopSummaryCandidate =
  ls_loop_summary_id :: string
  ls_loop_region_ref :: string
  ls_analysis_completeness :: AnalysisCompleteness
  ls_evidence_refs :: "string list"

record EffectObligation =
  eo_obligation_id :: string
  eo_bundle_ref :: string
  eo_effect_ref :: string
  eo_relationship :: EffectRelationship
  eo_modality :: Runtime.EffectModality
  eo_reason_codes :: "string list"

section \<open>Predicates and slices\<close>

datatype PredicateNodeKind =
  PN_ATOMIC | PN_AND | PN_OR | PN_NOT | PN_TRUE | PN_FALSE | PN_UNKNOWN

record PredicateExpression =
  pe_expression_id :: string
  pe_node_kind :: PredicateNodeKind
  pe_operand_refs :: "string list"
  pe_technical_expression :: "string option"

record PredicateGraph =
  pg_predicate_graph_id :: string
  pg_controlling_region_ref :: string
  pg_action_scope :: BehaviorActionScope
  pg_action_scope_ref :: "string option"
  pg_root_ref :: string
  pg_expressions :: "PredicateExpression list"
  pg_source_node_refs :: "string list"
  pg_normalization_status :: AnalysisCompleteness

datatype ConstraintAssessmentStatus =
  CS_SYNTACTICALLY_CONSISTENT | CS_OBVIOUS_CONTRADICTION | CS_DATA_STATE_ASSUMPTION_REQUIRED |
  CS_CONFIGURATION_ASSUMPTION_REQUIRED | CS_UNSUPPORTED_CONSTRAINT_THEORY | CS_NOT_ASSESSED

record ConstraintAssessment =
  cst_assessment_id :: string
  cst_predicate_graph_ref :: string
  cst_status :: ConstraintAssessmentStatus
  cst_reason :: string
  cst_evidence_refs :: "string list"

record OrderedDecisionReduction =
  od_reduction_id :: string
  od_controlling_region_ref :: string
  od_preceding_arm_refs :: "string list"
  od_current_arm_ref :: string
  od_evidence_refs :: "string list"

record UnresolvedInfluence =
  ui_influence_id :: string
  ui_code :: string
  ui_detail :: string
  ui_source_node_refs :: "string list"
  ui_related_artifact_refs :: "string list"

record BehaviorSlice =
  bs_slice_id :: string
  bs_bundle_ref :: string
  bs_query_summary_refs :: "string list"
  bs_unresolved_influences :: "UnresolvedInfluence list"
  bs_predicate_graph_ref :: "string option"
  bs_constraint_assessment_refs :: "string list"
  bs_analysis_completeness :: AnalysisCompleteness
  bs_evidence_refs :: "string list"

section \<open>Dynamic statements\<close>

datatype DynamicSqlStatementKind =
  DK_SELECT | DK_INSERT | DK_UPDATE | DK_DELETE | DK_MERGE | DK_CALL | DK_VALUES | DK_UNKNOWN

datatype DynamicIdentifierResolutionStatus =
  DI_RESOLVED_LITERAL | DI_RESOLVED_ENUMERATED | DI_UNRESOLVED_DYNAMIC_IDENTIFIER | DI_NOT_APPLICABLE

datatype DynamicObjectVerificationStatus =
  DV_VERIFIED_CATALOG | DV_VERIFIED_SOURCE | DV_NOT_VERIFIED | DV_NOT_APPLICABLE

text \<open>The site of \<open>Runtime\<close> with the fields the scenario compiler reads.\<close>

record DynamicSiteDetail = DynamicSqlSite +
  dy_execute_node_ref :: string
  dy_statement_kinds :: "DynamicSqlStatementKind list"
  dy_relation_resolution_status :: DynamicIdentifierResolutionStatus
  dy_call_resolution_status :: DynamicIdentifierResolutionStatus

record DynamicCallResolution =
  dc_resolution_id :: string
  dc_site_ref :: string
  dc_call_target :: string
  dc_verification_status :: DynamicObjectVerificationStatus

section \<open>Results\<close>

record ProcedureParameter =
  pp_name :: string
  pp_mode :: string
  pp_type_text :: string

record ProcedureHeader = ProcedureAst +
  pa_specific_name :: "string option"
  pa_routine_version_id :: "string option"
  pa_parameters :: "ProcedureParameter list"

record ProcedureParseResult =
  pr_artifact_revision_id :: string
  pr_source_digest :: string
  pr_outcome :: ParseOutcome
  pr_ast :: "ProcedureHeader option"

record Phase1SemanticResult =
  sem_caller_transaction_contract_ref :: "string option"
  sem_effects :: "EffectCandidate list"
  sem_behavior_bundles :: "BehaviorEffectBundle list"
  sem_loop_summaries :: "LoopSummaryCandidate list"
  sem_dynamic_sql_sites :: "DynamicSiteDetail list"
  sem_dynamic_call_resolutions :: "DynamicCallResolution list"
  sem_predicate_graphs :: "PredicateGraph list"
  sem_constraint_assessments :: "ConstraintAssessment list"
  sem_ordered_decision_reductions :: "OrderedDecisionReduction list"
  sem_effect_obligations :: "EffectObligation list"
  sem_behavior_slices :: "BehaviorSlice list"
  sem_findings :: "SemanticFinding list"
  sem_content_digest :: string

end
