(* ===== verification/Modality.thy ===== *)
theory Modality
  imports SemanticModels CanonJson
begin

text \<open>
  Effect obligations: \<open>analysis/modalities.py\<close>. For every member of every effect bundle the analyzer derives
  how strongly a scenario may claim the effect. The recursion of \<open>visit\<close> follows references that may be
  cyclic, so it takes a depth; running out of it is Python's recursion error. The theorems: a \<open>MUST\<close> is given
  exactly under the conditions that make it safe, and there is one obligation per member.
\<close>

section \<open>Loops around a node\<close>

datatype modality_error = MODALITY_KEY_ERROR string | MODALITY_RECURSION

definition ast_node :: "'a ProcedureAst_scheme \<Rightarrow> string \<Rightarrow> AstNode option" where
  "ast_node ast r = map_of (rev (map (\<lambda>n. (an_node_id n, n)) (pa_nodes ast))) r"

definition region_children :: "AstNode \<Rightarrow> string list" where
  "region_children n =
     (case an_if_region n of Some r \<Rightarrow> concat (map arm_body_node_refs (if_arms r))
      | None \<Rightarrow> (case an_handler_region n of Some h \<Rightarrow> hr_body_node_refs h
               | None \<Rightarrow> (case an_loop_region n of Some l \<Rightarrow> lp_body_node_refs l | None \<Rightarrow> an_child_refs n)))"

text \<open>The pairs of a visited node and a loop around it, the node itself included when it is a loop.\<close>

fun visit_loops :: "nat \<Rightarrow> 'a ProcedureAst_scheme \<Rightarrow> string list \<Rightarrow> string \<Rightarrow> modality_error + (string \<times> string) list" where
  "visit_loops 0 ast loops r = Inl MODALITY_RECURSION"
| "visit_loops (Suc d) ast loops r =
     (case ast_node ast r of None \<Rightarrow> Inl (MODALITY_KEY_ERROR r)
      | Some n \<Rightarrow>
          let current = (if an_kind n = NK_LOOP_REGION then loops @ [an_node_id n] else loops)
          in map_sum id (\<lambda>ps. map (Pair r) current @ concat ps) (seq_results (map (visit_loops d ast current) (region_children n))))"

definition loop_pairs :: "nat \<Rightarrow> 'a ProcedureAst_scheme \<Rightarrow> modality_error + (string \<times> string) list" where
  "loop_pairs d ast = map_sum id concat (seq_results (map (visit_loops d ast []) (pa_body_node_refs ast)))"

definition loop_ancestors :: "(string \<times> string) list \<Rightarrow> string \<Rightarrow> string list" where
  "loop_ancestors ps r = sort (remdups (map snd (filter (\<lambda>p. fst p = r) ps)))"

section \<open>Obligations\<close>

type_synonym graded = "Runtime.EffectModality \<times> string list"

definition base :: "EffectRelationship \<Rightarrow> graded" where
  "base r =
     (if r \<in> {ER_PRIMARY, ER_REQUIRED_CO_EFFECT} then (EM_MUST, [relationship_value r])
      else if r = ER_ROLLED_BACK_EFFECT then (EM_MUST_NOT, [relationship_value r])
      else (EM_MAY, [relationship_value r]))"

definition loop_partial :: "LoopSummaryCandidate list \<Rightarrow> string \<Rightarrow> bool" where
  "loop_partial summaries l =
     (case map_of (rev (map (\<lambda>s. (ls_loop_region_ref s, s)) summaries)) l of
        None \<Rightarrow> True | Some s \<Rightarrow> ls_analysis_completeness s = AC_PARTIAL)"

definition grade_loops :: "BehaviorActionScope \<Rightarrow> LoopSummaryCandidate list \<Rightarrow> string list \<Rightarrow> graded \<Rightarrow> graded" where
  "grade_loops scope summaries loops g =
     (if loops \<noteq> [] \<and> scope \<noteq> BA_CURSOR_ITERATION then
        foldl (\<lambda>(m, rs) l. if loop_partial summaries l then (EM_UNKNOWN, rs @ [''LOOP_SUMMARY_PARTIAL'']) else (m, rs))
          (if fst g = EM_MUST then EM_MAY else fst g, snd g @ [''LOOP_EXECUTION_DATA_DEPENDENT'']) loops
      else if loops \<noteq> [] then (fst g, snd g @ [''ITERATION_SCOPED_BEHAVIOR'']) else g)"

definition grade_bundle :: "AnalysisCompleteness \<Rightarrow> graded \<Rightarrow> graded" where
  "grade_bundle c g = (if c = AC_PARTIAL \<and> fst g = EM_MUST then (EM_UNKNOWN, snd g @ [''BUNDLE_PARTIAL'']) else g)"

definition grade_kind :: "EffectCandidate \<Rightarrow> graded \<Rightarrow> graded" where
  "grade_kind e g =
     (if ec_effect_kind e = EK_CALL then (EM_UNKNOWN, snd g @ [''UNRESOLVED_EFFECT_BOUNDARY''])
      else if ec_effect_kind e = EK_DYNAMIC_SQL \<and> ec_observability e = EO_UNRESOLVED_EFFECT_BOUNDARY
      then (EM_UNKNOWN, snd g @ [''UNRESOLVED_DYNAMIC_SQL_EFFECT_BOUNDARY'']) else g)"

definition grade_observability :: "EffectCandidate \<Rightarrow> graded \<Rightarrow> graded" where
  "grade_observability e g =
     (if ec_observability e \<in> {EO_UNRESOLVED_EFFECT_BOUNDARY, EO_TRANSACTION_SURVIVAL_UNRESOLVED}
      then (EM_UNKNOWN, snd g @ [observability_value (ec_observability e)]) else g)"

definition effect_transaction :: "EffectTransactionAnalysis list \<Rightarrow> EffectCandidate \<Rightarrow> EffectTransactionAnalysis option" where
  "effect_transaction analyses e =
     map_of (rev (map (\<lambda>a. (ta_analysis_id a, a)) analyses))
       (case ec_transaction_analysis_ref e of None \<Rightarrow> [] | Some r \<Rightarrow> r)"

definition grade_transaction :: "EffectTransactionAnalysis option \<Rightarrow> graded \<Rightarrow> graded" where
  "grade_transaction t g =
     (case t of None \<Rightarrow> g
      | Some a \<Rightarrow>
          (case ta_classification a of
             TC_MUST_ROLLBACK \<Rightarrow> (EM_MUST_NOT, snd g @ [''TRANSACTION_MUST_ROLLBACK''])
           | TC_CALLER_CONTRACT_COMMIT \<Rightarrow> (EM_MUST_IF_CALLER_CONTRACT_HOLDS, snd g @ [''CALLER_TRANSACTION_CONTRACT''])
           | TC_MUST_COMMIT \<Rightarrow> g
           | c \<Rightarrow> (EM_UNKNOWN, snd g @ [''TRANSACTION_'' @ survival_value c])))"

definition grade ::
  "EffectTransactionAnalysis list \<Rightarrow> LoopSummaryCandidate list \<Rightarrow> string list \<Rightarrow> BehaviorEffectBundle \<Rightarrow> BundleEffectMember \<Rightarrow> EffectCandidate \<Rightarrow> graded" where
  "grade analyses summaries loops b m e =
     grade_transaction (effect_transaction analyses e)
       (grade_observability e (grade_kind e (grade_bundle (bb_bundle_completeness b)
         (grade_loops (bb_action_scope b) summaries loops (base (be_relationship m))))))"

fun modality_value :: "Runtime.EffectModality \<Rightarrow> string" where
  "modality_value EM_MUST = ''MUST''"
| "modality_value EM_MUST_IF_CALLER_CONTRACT_HOLDS = ''MUST_IF_CALLER_CONTRACT_HOLDS''"
| "modality_value EM_MAY = ''MAY''"
| "modality_value EM_MUST_NOT = ''MUST_NOT''"
| "modality_value EM_UNKNOWN = ''UNKNOWN''"

definition effect_of :: "EffectCandidate list \<Rightarrow> string \<Rightarrow> EffectCandidate option" where
  "effect_of effects r = map_of (rev (map (\<lambda>e. (ec_effect_id e, e)) effects)) r"

definition obligation ::
  "(string \<Rightarrow> string) \<Rightarrow> EffectCandidate list \<Rightarrow> EffectTransactionAnalysis list \<Rightarrow> LoopSummaryCandidate list \<Rightarrow> (string \<times> string) list
   \<Rightarrow> BehaviorEffectBundle \<times> BundleEffectMember \<Rightarrow> modality_error + EffectObligation" where
  "obligation sha effects analyses summaries pairs bm =
     (case bm of (b, m) \<Rightarrow>
       case effect_of effects (be_effect_ref m) of None \<Rightarrow> Inl (MODALITY_KEY_ERROR (be_effect_ref m))
       | Some e \<Rightarrow>
           (case grade analyses summaries (loop_ancestors pairs (ec_source_node_ref e)) b m e of (md, rs) \<Rightarrow>
              let reasons = sort (remdups rs) in
              Inr \<lparr>eo_obligation_id = ''effect-obligation-'' @ take 20 (sha (py_join ''|''
                     [bb_bundle_id b, ec_effect_id e, relationship_value (be_relationship m), modality_value md, py_join ''|'' reasons])),
                   eo_bundle_ref = bb_bundle_id b, eo_effect_ref = ec_effect_id e, eo_relationship = be_relationship m,
                   eo_modality = md, eo_reason_codes = reasons\<rparr>))"

definition bundle_members :: "BehaviorEffectBundle list \<Rightarrow> (BehaviorEffectBundle \<times> BundleEffectMember) list" where
  "bundle_members bundles = concat (map (\<lambda>b. map (Pair b) (bb_effect_members b)) bundles)"

definition analyze_modalities ::
  "(string \<Rightarrow> string) \<Rightarrow> nat \<Rightarrow> 'a ProcedureAst_scheme \<Rightarrow> EffectCandidate list \<Rightarrow> BehaviorEffectBundle list \<Rightarrow> EffectTransactionAnalysis list
   \<Rightarrow> LoopSummaryCandidate list \<Rightarrow> modality_error + EffectObligation list" where
  "analyze_modalities sha d ast effects bundles analyses summaries =
     bindE (loop_pairs d ast) (\<lambda>pairs.
       map_sum id (sort_key eo_obligation_id) (seq_results (map (obligation sha effects analyses summaries pairs) (bundle_members bundles))))"

section \<open>When an effect must happen\<close>

text \<open>What makes an effect certain: required by the bundle, not repeated or skipped by a loop, and its outcome known.\<close>

definition certain ::
  "EffectTransactionAnalysis list \<Rightarrow> string list \<Rightarrow> BehaviorEffectBundle \<Rightarrow> BundleEffectMember \<Rightarrow> EffectCandidate \<Rightarrow> bool" where
  "certain analyses loops b m e =
     (be_relationship m \<in> {ER_PRIMARY, ER_REQUIRED_CO_EFFECT} \<and> bb_bundle_completeness b = AC_COMPLETE
      \<and> (loops = [] \<or> bb_action_scope b = BA_CURSOR_ITERATION) \<and> ec_effect_kind e \<noteq> EK_CALL
      \<and> ec_observability e \<notin> {EO_UNRESOLVED_EFFECT_BOUNDARY, EO_TRANSACTION_SURVIVAL_UNRESOLVED}
      \<and> (case effect_transaction analyses e of None \<Rightarrow> True | Some a \<Rightarrow> ta_classification a = TC_MUST_COMMIT))"

lemma grade_loops_modality:
  "fst (grade_loops scope summaries loops g) =
     (if loops = [] \<or> scope = BA_CURSOR_ITERATION then fst g
      else if list_ex (loop_partial summaries) loops then EM_UNKNOWN else if fst g = EM_MUST then EM_MAY else fst g)"
proof -
  have "fst (foldl (\<lambda>(m, rs) l. if loop_partial summaries l then (EM_UNKNOWN, rs @ [''LOOP_SUMMARY_PARTIAL'']) else (m, rs)) (m, rs) ls)
      = (if list_ex (loop_partial summaries) ls then EM_UNKNOWN else m)" for m rs ls
    by (induction ls arbitrary: m rs) auto
  then show ?thesis by (auto simp: grade_loops_def)
qed

text \<open>Each step keeps a \<open>MUST\<close> only under its own condition and never makes one.\<close>

lemma grade_steps_must:
  "fst (base r) = EM_MUST \<longleftrightarrow> r \<in> {ER_PRIMARY, ER_REQUIRED_CO_EFFECT}"
  "fst (grade_loops scope summaries loops g) = EM_MUST \<longleftrightarrow> fst g = EM_MUST \<and> (loops = [] \<or> scope = BA_CURSOR_ITERATION)"
  "fst (grade_bundle c g) = EM_MUST \<longleftrightarrow> fst g = EM_MUST \<and> c = AC_COMPLETE"
  "fst (grade_kind e g) = EM_MUST \<longleftrightarrow> fst g = EM_MUST \<and> ec_effect_kind e \<noteq> EK_CALL
     \<and> \<not> (ec_effect_kind e = EK_DYNAMIC_SQL \<and> ec_observability e = EO_UNRESOLVED_EFFECT_BOUNDARY)"
  "fst (grade_observability e g) = EM_MUST \<longleftrightarrow>
     fst g = EM_MUST \<and> ec_observability e \<notin> {EO_UNRESOLVED_EFFECT_BOUNDARY, EO_TRANSACTION_SURVIVAL_UNRESOLVED}"
  "fst (grade_transaction t g) = EM_MUST \<longleftrightarrow>
     fst g = EM_MUST \<and> (case t of None \<Rightarrow> True | Some a \<Rightarrow> ta_classification a = TC_MUST_COMMIT)"
proof -
  show "fst (grade_bundle c g) = EM_MUST \<longleftrightarrow> fst g = EM_MUST \<and> c = AC_COMPLETE"
    by (cases c) (auto simp: grade_bundle_def)
  show "fst (grade_transaction t g) = EM_MUST \<longleftrightarrow>
     fst g = EM_MUST \<and> (case t of None \<Rightarrow> True | Some a \<Rightarrow> ta_classification a = TC_MUST_COMMIT)"
    by (auto simp: grade_transaction_def split: option.splits TransactionSurvivalClassification.splits)
qed (auto simp: base_def grade_loops_modality grade_kind_def grade_observability_def)

lemma grade_must: "fst (grade analyses summaries loops b m e) = EM_MUST \<longleftrightarrow> certain analyses loops b m e"
  unfolding grade_def grade_steps_must certain_def by auto

lemma grade_transaction_modality:
  "fst (grade_transaction (Some a) g) =
     (case ta_classification a of TC_MUST_ROLLBACK \<Rightarrow> EM_MUST_NOT | TC_CALLER_CONTRACT_COMMIT \<Rightarrow> EM_MUST_IF_CALLER_CONTRACT_HOLDS
      | TC_MUST_COMMIT \<Rightarrow> fst g | _ \<Rightarrow> EM_UNKNOWN)"
  by (simp add: grade_transaction_def split: TransactionSurvivalClassification.splits)

text \<open>
  The analysis is not conservative about the caller's contract: an effect that the bundle only calls conditional, in a loop whose
  summary is incomplete, is graded as an obligation under the contract.
\<close>

lemma contract_overrides_doubt:
  assumes "effect_transaction analyses e = Some a" "ta_classification a = TC_CALLER_CONTRACT_COMMIT"
  shows "fst (grade analyses summaries loops b m e) = EM_MUST_IF_CALLER_CONTRACT_HOLDS"
  using assms by (simp add: grade_def grade_transaction_modality)

lemma obligation_Inr:
  assumes "obligation sha effects analyses summaries pairs (b, m) = Inr ob"
  obtains e where "effect_of effects (be_effect_ref m) = Some e" "eo_bundle_ref ob = bb_bundle_id b" "eo_effect_ref ob = ec_effect_id e"
    "eo_relationship ob = be_relationship m"
    "eo_modality ob = fst (grade analyses summaries (loop_ancestors pairs (ec_source_node_ref e)) b m e)"
  using assms by (auto simp: obligation_def Let_def split: option.splits prod.splits)

lemma effect_of_id: "effect_of effects r = Some e \<Longrightarrow> ec_effect_id e = r \<and> e \<in> set effects"
  by (auto simp: effect_of_def dest!: map_of_SomeD)

lemma obligation_total:
  "(\<exists>ob. obligation sha effects analyses summaries pairs (b, m) = Inr ob) \<longleftrightarrow> be_effect_ref m \<in> ec_effect_id ` set effects"
proof -
  have "effect_of effects (be_effect_ref m) = None \<longleftrightarrow> be_effect_ref m \<notin> ec_effect_id ` set effects"
    by (simp add: effect_of_def map_of_eq_None_iff image_image)
  then show ?thesis by (auto simp: obligation_def Let_def split: option.splits prod.splits)
qed


section \<open>One obligation per member\<close>

definition obliges ::
  "EffectCandidate list \<Rightarrow> EffectTransactionAnalysis list \<Rightarrow> (string \<times> string) list \<Rightarrow> BehaviorEffectBundle \<times> BundleEffectMember \<Rightarrow> EffectObligation \<Rightarrow> bool" where
  "obliges effects analyses pairs bm ob =
     (\<exists>e. effect_of effects (be_effect_ref (snd bm)) = Some e \<and> eo_bundle_ref ob = bb_bundle_id (fst bm) \<and> eo_effect_ref ob = be_effect_ref (snd bm)
        \<and> eo_relationship ob = be_relationship (snd bm)
        \<and> (eo_modality ob = EM_MUST \<longleftrightarrow> certain analyses (loop_ancestors pairs (ec_source_node_ref e)) (fst bm) (snd bm) e))"

lemma obligation_obliges: "obligation sha effects analyses summaries pairs bm = Inr ob \<Longrightarrow> obliges effects analyses pairs bm ob"
  by (cases bm) (auto simp: obliges_def grade_must dest: effect_of_id elim!: obligation_Inr)

lemma analyze_modalities_obliges:
  assumes "analyze_modalities sha d ast effects bundles analyses summaries = Inr obs"
  shows "\<exists>pairs. loop_pairs d ast = Inr pairs \<and> length obs = length (bundle_members bundles)
    \<and> (\<forall>bm \<in> set (bundle_members bundles). \<exists>ob \<in> set obs. obliges effects analyses pairs bm ob)
    \<and> (\<forall>ob \<in> set obs. \<exists>bm \<in> set (bundle_members bundles). obliges effects analyses pairs bm ob)"
proof -
  from assms obtain pairs os where p: "loop_pairs d ast = Inr pairs"
    and os: "seq_results (map (obligation sha effects analyses summaries pairs) (bundle_members bundles)) = Inr os" "obs = sort_key eo_obligation_id os"
    by (auto simp: analyze_modalities_def bindE_Inr dest!: map_sum_Inr)
  have all: "list_all2 (obliges effects analyses pairs) (bundle_members bundles) os"
    using seq_results_pointwise [OF os(1)] by (rule list_all2_mono) (rule obligation_obliges)
  show ?thesis
    using p list_all2_lengthD [OF all] list_all2_left [OF all] list_all2_right [OF all] by (auto simp: os(2))
qed

text \<open>
  C13: when the analysis returns, there are as many obligations as bundle members; every member of every bundle has
  one, with its bundle, effect and relationship, and every obligation belongs to a member; and the obligation is a \<open>MUST\<close>
  exactly when the effect is certain: the bundle is complete and requires it, no loop around it can skip it unless the bundle is
  scoped to an iteration, it is neither a call nor an unresolved boundary, and the transaction analysis, if there is
  one, says the effect is committed.
\<close>

theorem must_exactly_when_certain:
  assumes "analyze_modalities sha d ast effects bundles analyses summaries = Inr obs"
  shows "\<exists>pairs. loop_pairs d ast = Inr pairs \<and> length obs = length (bundle_members bundles)
    \<and> (\<forall>bm \<in> set (bundle_members bundles). \<exists>ob \<in> set obs. obliges effects analyses pairs bm ob)
    \<and> (\<forall>ob \<in> set obs. \<exists>bm \<in> set (bundle_members bundles). obliges effects analyses pairs bm ob)"
  using assms by (rule analyze_modalities_obliges)

text \<open>A routine that assigns one output before a loop and another inside it.\<close>

definition sample_stmt :: "string \<Rightarrow> AstNode" where
  "sample_stmt n =
     \<lparr>an_node_id = n, an_kind = NK_SET, an_source_range = \<lparr>sr_start_line = 1, sr_start_column = 1, sr_start_offset = 0, sr_end_line = 1,
        sr_end_column = 1, sr_end_offset = 0\<rparr>, an_text = [], an_child_refs = [], an_select_into_binding = None, an_assignment_binding = None,
      an_fetch_binding = None, an_dynamic_prepare_binding = None, an_dynamic_execute_binding = None, an_handler_region = None,
      an_condition_declaration = None, an_compound_region = None, an_lexical_scope_ref = None, an_loop_region = None, an_if_region = None,
      an_if_arm = None, an_opaque_reason = None\<rparr>"

definition sample_loop :: AstNode where
  "sample_loop = (sample_stmt ''l'')\<lparr>an_kind := NK_LOOP_REGION, an_child_refs := [''n'']\<rparr>"

definition sample_routine :: ProcedureHeader where
  "sample_routine =
     \<lparr>pa_node_id = ''r'', pa_schema_name = None, pa_procedure_name = ''P'', pa_commit_on_return = None, pa_body_node_refs = [''k'', ''l''],
      pa_nodes = [sample_stmt ''k'', sample_loop, sample_stmt ''n''], pa_specific_name = None, pa_routine_version_id = None, pa_parameters = []\<rparr>"

definition sample_assignment :: "string \<Rightarrow> string \<Rightarrow> EffectCandidate" where
  "sample_assignment e n =
     \<lparr>ec_effect_id = e, ec_effect_kind = EK_OUT_PARAMETER_ASSIGNMENT, ec_source_node_ref = n, ec_target = Some ''O'', ec_value_expression = Some ''1'',
      ec_observability = EO_ESCAPING_EFFECT, ec_reaches_exit_refs = [], ec_evidence_refs = [n], ec_transaction_analysis_ref = None\<rparr>"

definition sample_bundle :: BehaviorEffectBundle where
  "sample_bundle =
     \<lparr>bb_bundle_id = ''b'', bb_primary_effect_ref = ''e1'',
      bb_effect_members = [\<lparr>be_effect_ref = ''e1'', be_relationship = ER_PRIMARY, be_condition_ref = None\<rparr>,
        \<lparr>be_effect_ref = ''e2'', be_relationship = ER_REQUIRED_CO_EFFECT, be_condition_ref = None\<rparr>],
      bb_transaction_region_ref = ''t'', bb_controlling_region_ref = ''c'', bb_action_scope = BA_PROCEDURE_INVOCATION, bb_action_scope_ref = None, bb_ordering_edges = [],
      bb_bundle_completeness = AC_COMPLETE, bb_evidence_refs = [''k'']\<rparr>"

definition sample_assignments :: "EffectCandidate list" where
  "sample_assignments = [sample_assignment ''e1'' ''k'', sample_assignment ''e2'' ''n'']"

lemma sample_obligations:
  "loop_pairs 9 sample_routine = Inr [(''l'', ''l''), (''n'', ''l'')]"
  "\<not> isl (analyze_modalities (\<lambda>x. x) 9 sample_routine sample_assignments [sample_bundle] [] [])"
  "length (bundle_members [sample_bundle]) = 2"
  "\<forall>bm \<in> set (bundle_members [sample_bundle]). case effect_of sample_assignments (be_effect_ref (snd bm)) of None \<Rightarrow> False
     | Some e \<Rightarrow> certain [] (loop_ancestors [(''l'', ''l''), (''n'', ''l'')] (ec_source_node_ref e)) (fst bm) (snd bm) e \<longleftrightarrow> be_effect_ref (snd bm) = ''e1''"
  by code_simp+

theorem must_exactly_when_certain_witness:
  "\<exists>obs. analyze_modalities (\<lambda>x. x) 9 sample_routine sample_assignments [sample_bundle] [] [] = Inr obs \<and> length obs = 2
    \<and> (\<forall>ob \<in> set obs. eo_modality ob = EM_MUST \<longleftrightarrow> eo_effect_ref ob = ''e1'')"
proof -
  obtain obs where obs: "analyze_modalities (\<lambda>x. x) 9 sample_routine sample_assignments [sample_bundle] [] [] = Inr obs"
    using sample_obligations(2) by (cases "analyze_modalities (\<lambda>x. x) 9 sample_routine sample_assignments [sample_bundle] [] []") auto
  note facts = must_exactly_when_certain [OF obs, unfolded sample_obligations]
  have "eo_modality ob = EM_MUST \<longleftrightarrow> eo_effect_ref ob = ''e1''" if "ob \<in> set obs" for ob
  proof -
    from facts that obtain bm where "bm \<in> set (bundle_members [sample_bundle])"
      "obliges sample_assignments [] [(''l'', ''l''), (''n'', ''l'')] bm ob" by auto
    then show ?thesis using sample_obligations(4) by (fastforce simp: obliges_def)
  qed
  with obs facts show ?thesis by blast
qed

end
