(* ===== verification/Bundles.thy ===== *)
theory Bundles
  imports Modality Reaching
begin

text \<open>
  Effect bundles: \<open>analysis/bundles.py\<close>. The builder groups the effects of a procedure by the region that
  controls them, chooses the primary effect of each group, adds the output assignments that reach it uniquely, and
  relates every member to the primary by dominance in the control-flow graph. The library \<open>networkx\<close> is the parameter
  \<open>nx\<close>: immediate dominators, as the dictionary it returns or \<open>None\<close> where it raises, and reachability.
  The two recursive visits follow references that may be cyclic and take a depth. The theorems: the climb
  along immediate dominators decides dominance; and every effect that is admitted belongs to the bundle of its region, whose primary
  is its most important member.
\<close>

section \<open>Graphs\<close>

record networkx =
  nx_immediate_dominators :: "string list \<Rightarrow> (string \<times> string) list \<Rightarrow> string \<Rightarrow> (string \<times> string) list option"
  nx_has_path :: "string list \<Rightarrow> (string \<times> string) list \<Rightarrow> string \<Rightarrow> string \<Rightarrow> bool"

definition graph_nodes :: "ControlFlowGraph \<Rightarrow> string list" where
  "graph_nodes g = map cn_cfg_node_id (cfg_nodes g)"

definition graph_edges :: "ControlFlowGraph \<Rightarrow> (string \<times> string) list" where
  "graph_edges g = map (\<lambda>e. (ce_source_ref e, ce_target_ref e)) (cfg_edges g)"

definition synthetic_sink :: string where
  "synthetic_sink = ''cfg:synthetic-postdom-sink''"

definition post_edges :: "ControlFlowGraph \<Rightarrow> (string \<times> string) list" where
  "post_edges g = map (\<lambda>(a, b). (b, a)) (graph_edges g)
     @ [(synthetic_sink, cfg_normal_exit_ref g), (synthetic_sink, cfg_exceptional_exit_ref g)]"

definition dominators_of :: "networkx \<Rightarrow> ControlFlowGraph \<Rightarrow> (string \<times> string) list" where
  "dominators_of nx g =
     (case nx_immediate_dominators nx (graph_nodes g) (graph_edges g) (cfg_entry_ref g) of None \<Rightarrow> [] | Some d \<Rightarrow> d)"

definition postdominators_of :: "networkx \<Rightarrow> ControlFlowGraph \<Rightarrow> (string \<times> string) list" where
  "postdominators_of nx g =
     (case nx_immediate_dominators nx (graph_nodes g @ [synthetic_sink]) (post_edges g) synthetic_sink of None \<Rightarrow> [] | Some d \<Rightarrow> d)"

text \<open>The loop of \<open>_dominates\<close>.\<close>

function climb :: "(string \<times> string) list \<Rightarrow> string \<Rightarrow> string list \<Rightarrow> string \<Rightarrow> bool" where
  "climb immediate candidate seen current =
     (case map_of immediate current of
        Some parent \<Rightarrow>
          if current \<in> set seen then current = candidate
          else if current = candidate then True
          else if parent = current then current = candidate
          else climb immediate candidate (current # seen) parent
      | None \<Rightarrow> current = candidate)"
  by pat_completeness auto
termination
proof (relation "measure (\<lambda>(immediate, candidate, seen, current). card (fst ` set immediate - set seen))", simp)
  fix immediate :: "(string \<times> string) list" and candidate seen current parent
  assume "map_of immediate current = Some parent" "current \<notin> set seen"
  then have "current \<in> fst ` set immediate - set seen" by (force dest: map_of_SomeD)
  then have "fst ` set immediate - set (current # seen) \<subset> fst ` set immediate - set seen" by auto
  then have "card (fst ` set immediate - set (current # seen)) < card (fst ` set immediate - set seen)" by (rule psubset_card_mono [rotated]) simp
  then show "((immediate, candidate, current # seen, parent), immediate, candidate, seen, current)
      \<in> measure (\<lambda>(immediate, candidate, seen, current). card (fst ` set immediate - set seen))"
    by (simp only: in_measure prod.case)
qed

declare climb.simps [simp del]

definition dominates :: "string \<Rightarrow> string \<Rightarrow> (string \<times> string) list \<Rightarrow> bool" where
  "dominates candidate target immediate = climb immediate candidate [] target"

section \<open>Regions\<close>

datatype bundle_error = BUNDLE_KEY_ERROR string | BUNDLE_RECURSION | BUNDLE_NO_TRANSACTION_REGION

fun arm_kind_value :: "ArmKind \<Rightarrow> string" where
  "arm_kind_value AK_IF = ''IF''"
| "arm_kind_value AK_ELSEIF = ''ELSEIF''"
| "arm_kind_value AK_ELSE = ''ELSE''"

definition own_region :: "AstNode \<Rightarrow> string option \<Rightarrow> string option" where
  "own_region n inherited =
     (if an_kind n = NK_HANDLER_REGION then Some (''handler-region:'' @ an_node_id n)
      else if an_kind n = NK_LOOP_REGION then Some (''loop-region:'' @ an_node_id n)
      else if an_kind n = NK_COMPOUND \<and> py_in ''BEGIN ATOMIC'' (py_join '' '' (py_split (py_upper (an_text n))))
      then Some (''atomic-region:'' @ an_node_id n)
      else inherited)"

text \<open>The children of a node with the region each inherits.\<close>

definition region_inheritance :: "AstNode \<Rightarrow> string option \<Rightarrow> (string \<times> string option) list" where
  "region_inheritance n own =
     (case an_if_region n of
        Some r \<Rightarrow> concat (map (\<lambda>(i, arm). map (\<lambda>c. (c, Some (''if-arm:'' @ an_node_id n @ '':'' @ nat_dec i @ '':'' @ arm_kind_value (arm_arm_kind arm))))
            (arm_body_node_refs arm)) (enumerate 0 (if_arms r)))
      | None \<Rightarrow>
          (case an_handler_region n of
             Some h \<Rightarrow> map (\<lambda>c. (c, Some (''handler-region:'' @ an_node_id n))) (hr_body_node_refs h)
           | None \<Rightarrow>
               (case an_loop_region n of
                  Some l \<Rightarrow> map (\<lambda>c. (c, Some (''loop-region:'' @ an_node_id n))) (lp_body_node_refs l)
                | None \<Rightarrow> map (\<lambda>c. (c, own)) (an_child_refs n))))"

text \<open>The assignments to the dictionary of the result, in the order they are made.\<close>

fun visit_regions :: "nat \<Rightarrow> ProcedureAst \<Rightarrow> string \<times> string option \<Rightarrow> bundle_error + (string \<times> string) list" where
  "visit_regions 0 ast ri = Inl BUNDLE_RECURSION"
| "visit_regions (Suc d) ast ri =
     (case ast_node ast (fst ri) of None \<Rightarrow> Inl (BUNDLE_KEY_ERROR (fst ri))
      | Some n \<Rightarrow>
          let own = own_region n (snd ri);
              region = (case own of Some r \<Rightarrow> r | None \<Rightarrow> ''effect-region:'' @ an_node_id n)
          in map_sum id (\<lambda>rs. (an_node_id n, region) # concat rs)
               (seq_results (map (visit_regions d ast) (region_inheritance n own))))"

definition control_regions :: "nat \<Rightarrow> ProcedureAst \<Rightarrow> bundle_error + (string \<times> string) list" where
  "control_regions d ast = map_sum id concat (seq_results (map (\<lambda>r. visit_regions d ast (r, None)) (pa_body_node_refs ast)))"

definition last_assigned :: "(string \<times> string) list \<Rightarrow> string \<Rightarrow> string option" where
  "last_assigned assignments k = map_of (rev assignments) k"

fun visit_scope :: "nat \<Rightarrow> ProcedureAst \<Rightarrow> string option \<Rightarrow> string \<Rightarrow> bundle_error + (string \<times> string) list" where
  "visit_scope 0 ast current r = Inl BUNDLE_RECURSION"
| "visit_scope (Suc d) ast current r =
     (case ast_node ast r of None \<Rightarrow> Inl (BUNDLE_KEY_ERROR r)
      | Some n \<Rightarrow>
          let loop_ref = (if an_kind n = NK_LOOP_REGION then Some (an_node_id n) else current)
          in map_sum id (\<lambda>rs. (case loop_ref of None \<Rightarrow> [] | Some l \<Rightarrow> [(an_node_id n, l)]) @ concat rs)
               (seq_results (map (visit_scope d ast loop_ref) (region_children n))))"

definition loop_scope_by_node :: "nat \<Rightarrow> ProcedureAst \<Rightarrow> bundle_error + (string \<times> string) list" where
  "loop_scope_by_node d ast = map_sum id concat (seq_results (map (visit_scope d ast None) (pa_body_node_refs ast)))"


section \<open>Members\<close>

record bundle_context =
  bc_ast :: ProcedureAst
  bc_cfg :: ControlFlowGraph
  bc_regions :: "(string \<times> string) list"
  bc_loop_scopes :: "(string \<times> string) list"
  bc_dominators :: "(string \<times> string) list"
  bc_postdominators :: "(string \<times> string) list"
  bc_definitions :: df_state
  bc_admitted :: "EffectCandidate list"
  bc_analyses :: "EffectTransactionAnalysis list"
  bc_transaction_region_ref :: string

definition cfg_by_ast_ref :: "ControlFlowGraph \<Rightarrow> string \<Rightarrow> string option" where
  "cfg_by_ast_ref g r =
     map_of (rev (List.map_filter (\<lambda>n. map_option (\<lambda>a. (a, cn_cfg_node_id n)) (cn_ast_node_ref n)) (cfg_nodes g))) r"

definition admitted_effect :: "EffectCandidate \<Rightarrow> bool" where
  "admitted_effect e = (\<not> (ec_effect_kind e = EK_OUT_PARAMETER_ASSIGNMENT
     \<and> ec_observability e \<in> {EO_INTERMEDIATE_EFFECT, EO_OVERWRITTEN_OUTPUT_ASSIGNMENT}))"

definition controlling_region :: "(string \<times> string) list \<Rightarrow> EffectCandidate \<Rightarrow> string" where
  "controlling_region regions e =
     (case last_assigned regions (ec_source_node_ref e) of Some r \<Rightarrow> r | None \<Rightarrow> ''effect-region:'' @ ec_source_node_ref e)"

definition source_offset :: "ProcedureAst \<Rightarrow> string \<Rightarrow> bundle_error + nat" where
  "source_offset ast r =
     (case ast_node ast r of None \<Rightarrow> Inl (BUNDLE_KEY_ERROR r) | Some n \<Rightarrow> Inr (sr_start_offset (an_source_range n)))"

text \<open>The effects with their offsets, in the order of the offsets.\<close>

definition by_offset :: "ProcedureAst \<Rightarrow> EffectCandidate list \<Rightarrow> bundle_error + (nat \<times> EffectCandidate) list" where
  "by_offset ast es =
     map_sum id (sort_key fst) (seq_results (map (\<lambda>e. map_sum id (\<lambda>k. (k, e)) (source_offset ast (ec_source_node_ref e))) es))"

fun effect_priority :: "EffectKind \<Rightarrow> nat" where
  "effect_priority EK_RESIGNAL = 0"
| "effect_priority EK_SIGNAL = 0"
| "effect_priority EK_OUT_PARAMETER_ASSIGNMENT = 1"
| "effect_priority EK_DML = 2"
| "effect_priority EK_SEQUENCE_VALUE_ACQUISITION = 2"
| "effect_priority EK_RESULT_SET_RETURN = 2"
| "effect_priority EK_STATE_ASSIGNMENT = 2"
| "effect_priority EK_CALL = 3"
| "effect_priority EK_DYNAMIC_SQL = 3"
| "effect_priority EK_COMMIT = 4"
| "effect_priority EK_ROLLBACK = 4"

definition primary_key :: "nat \<times> EffectCandidate \<Rightarrow> nat \<times> nat \<times> string" where
  "primary_key ke = (effect_priority (ec_effect_kind (snd ke)), fst ke, ec_effect_id (snd ke))"

text \<open>\<open>min(xs, key=k)\<close>: the first of the least elements.\<close>

fun min_by :: "('a \<Rightarrow> 'k::linorder) \<Rightarrow> 'a \<Rightarrow> 'a list \<Rightarrow> 'a" where
  "min_by k best [] = best"
| "min_by k best (x # xs) = min_by k (if k x < k best then x else best) xs"

definition decision_target :: "EffectCandidate \<Rightarrow> bool" where
  "decision_target e =
     (ec_effect_kind e = EK_OUT_PARAMETER_ASSIGNMENT
      \<and> list_ex (\<lambda>token. py_in token (py_upper (case ec_target e of None \<Rightarrow> [] | Some t \<Rightarrow> t))) [''DECISION'', ''STATUS'', ''RESULT''])"

definition upper_target :: "EffectCandidate \<Rightarrow> string" where
  "upper_target e = py_upper (case ec_target e of None \<Rightarrow> [] | Some t \<Rightarrow> t)"

definition out_assignments :: "EffectCandidate list \<Rightarrow> EffectCandidate list" where
  "out_assignments es = filter (\<lambda>e. ec_effect_kind e = EK_OUT_PARAMETER_ASSIGNMENT) es"

definition effect_by_target_and_source :: "EffectCandidate list \<Rightarrow> string \<Rightarrow> string \<Rightarrow> EffectCandidate option" where
  "effect_by_target_and_source admitted t r =
     map_of (rev (map (\<lambda>e. ((upper_target e, ec_source_node_ref e), e)) (out_assignments admitted))) (t, r)"

definition inherited_for :: "bundle_context \<Rightarrow> EffectCandidate \<Rightarrow> EffectCandidate list \<Rightarrow> string \<Rightarrow> EffectCandidate option" where
  "inherited_for bc primary base_members t =
     (if Some t \<in> ec_target ` set (out_assignments base_members) then None
      else case definitions_before_ast (bc_definitions bc) (ec_source_node_ref primary) t of
             [r] \<Rightarrow>
               (case effect_by_target_and_source (bc_admitted bc) t r of
                  None \<Rightarrow> None
                | Some e \<Rightarrow> if ec_effect_id e \<in> ec_effect_id ` set base_members \<or> ec_observability e \<noteq> EO_ESCAPING_EFFECT then None else Some e)
           | _ \<Rightarrow> None)"

definition required_procedure_out_effects :: "bundle_context \<Rightarrow> EffectCandidate \<Rightarrow> EffectCandidate list \<Rightarrow> EffectCandidate list" where
  "required_procedure_out_effects bc primary base_members =
     (if \<not> py_startswith (case last_assigned (bc_regions bc) (ec_source_node_ref primary) of None \<Rightarrow> [] | Some r \<Rightarrow> r) ''if-arm:'' then []
      else if \<not> decision_target primary then []
      else List.map_filter (inherited_for bc primary base_members)
             (sort (remdups (map upper_target (filter (\<lambda>e. ec_target e \<noteq> None \<and> ec_target e \<noteq> Some []) (out_assignments (bc_admitted bc)))))))"

definition is_required :: "bundle_context \<Rightarrow> EffectCandidate \<Rightarrow> EffectCandidate \<Rightarrow> bool" where
  "is_required bc primary other =
     (case (cfg_by_ast_ref (bc_cfg bc) (ec_source_node_ref primary), cfg_by_ast_ref (bc_cfg bc) (ec_source_node_ref other)) of
        (Some p, Some q) \<Rightarrow> dominates q p (bc_dominators bc) \<or> dominates q p (bc_postdominators bc)
      | _ \<Rightarrow> False)"

definition relationship_to :: "bundle_context \<Rightarrow> EffectCandidate \<Rightarrow> EffectCandidate \<Rightarrow> EffectRelationship" where
  "relationship_to bc primary e =
     (if ec_effect_id e = ec_effect_id primary then ER_PRIMARY
      else if ec_observability e = EO_ROLLED_BACK_EFFECT then ER_ROLLED_BACK_EFFECT
      else if ec_effect_kind e = EK_DML \<and> (case ec_target e of None \<Rightarrow> False | Some t \<Rightarrow> py_in ''AUDIT'' t) then ER_AUDIT_EFFECT
      else if is_required bc primary e then ER_REQUIRED_CO_EFFECT
      else ER_CONDITIONAL_CO_EFFECT)"

definition ordering_edge :: "networkx \<Rightarrow> bundle_context \<Rightarrow> EffectCandidate \<Rightarrow> EffectCandidate \<Rightarrow> EffectOrderingEdge option" where
  "ordering_edge nx bc left right =
     (case (cfg_by_ast_ref (bc_cfg bc) (ec_source_node_ref left), cfg_by_ast_ref (bc_cfg bc) (ec_source_node_ref right)) of
        (Some l, Some r) \<Rightarrow>
          let region = (\<lambda>e. case last_assigned (bc_regions bc) (ec_source_node_ref e) of None \<Rightarrow> [] | Some x \<Rightarrow> x);
              path = nx_has_path nx (graph_nodes (bc_cfg bc)) (graph_edges (bc_cfg bc));
              same_atomic = (region left = region right \<and> py_startswith (region left) ''atomic-region:'')
          in if same_atomic \<or> (path l r \<and> \<not> path r l)
             then Some \<lparr>oe_before_effect_ref = ec_effect_id left, oe_after_effect_ref = ec_effect_id right, oe_condition_ref = None,
                    oe_atomicity = (if same_atomic then ''ATOMIC_COMPOUND'' else ''SAME_TRANSACTION_REGION'')\<rparr>
             else None
      | _ \<Rightarrow> None)"

fun ordering_edges :: "networkx \<Rightarrow> bundle_context \<Rightarrow> EffectCandidate list \<Rightarrow> EffectOrderingEdge list" where
  "ordering_edges nx bc [] = []"
| "ordering_edges nx bc (left # rest) = List.map_filter (ordering_edge nx bc left) rest @ ordering_edges nx bc rest"

section \<open>Bundles\<close>

definition loop_refs :: "bundle_context \<Rightarrow> EffectCandidate list \<Rightarrow> string list" where
  "loop_refs bc members =
     sort (remdups (filter (\<lambda>l. l \<noteq> []) (List.map_filter (\<lambda>e. last_assigned (bc_loop_scopes bc) (ec_source_node_ref e)) members)))"

definition action_scope :: "bundle_context \<Rightarrow> string \<Rightarrow> EffectCandidate list \<Rightarrow> BehaviorActionScope \<times> string option" where
  "action_scope bc controlling members =
     (case loop_refs bc members of
        l # _ \<Rightarrow> (BA_CURSOR_ITERATION, Some l)
      | [] \<Rightarrow> if py_startswith controlling ''handler-region:'' then (BA_HANDLER_ACTIVATION, Some (drop (length ''handler-region:'') controlling))
              else (BA_PROCEDURE_INVOCATION, None))"

definition leaves_open :: "EffectTransactionAnalysis list \<Rightarrow> EffectCandidate \<Rightarrow> bool" where
  "leaves_open analyses e =
     (ec_effect_kind e = EK_CALL
      \<or> ec_effect_kind e \<in> {EK_DYNAMIC_SQL, EK_SEQUENCE_VALUE_ACQUISITION} \<and> ec_observability e = EO_UNRESOLVED_EFFECT_BOUNDARY
      \<or> (case effect_transaction analyses e of None \<Rightarrow> False
         | Some a \<Rightarrow> ta_classification a \<notin> {TC_MUST_COMMIT, TC_MUST_ROLLBACK, TC_CALLER_CONTRACT_COMMIT}))"

definition bundle_of ::
  "(string \<Rightarrow> string) \<Rightarrow> networkx \<Rightarrow> bundle_context \<Rightarrow> string \<Rightarrow> EffectCandidate \<Rightarrow> EffectCandidate list \<Rightarrow> BehaviorEffectBundle" where
  "bundle_of sha nx bc controlling primary ordered =
     \<lparr>bb_bundle_id = ''behavior-bundle-'' @ take 20 (sha (py_join ''|''
        ([controlling, bc_transaction_region_ref bc, ec_effect_id primary] @ map ec_effect_id ordered))),
      bb_primary_effect_ref = ec_effect_id primary,
      bb_effect_members = map (\<lambda>e. \<lparr>be_effect_ref = ec_effect_id e, be_relationship = relationship_to bc primary e, be_condition_ref = None\<rparr>) ordered,
      bb_transaction_region_ref = bc_transaction_region_ref bc, bb_controlling_region_ref = controlling,
      bb_action_scope = fst (action_scope bc controlling ordered), bb_action_scope_ref = snd (action_scope bc controlling ordered),
      bb_ordering_edges = ordering_edges nx bc ordered,
      bb_bundle_completeness = (if list_ex (leaves_open (bc_analyses bc)) ordered then AC_PARTIAL else AC_COMPLETE),
      bb_evidence_refs = map ec_source_node_ref ordered\<rparr>"

definition region_bundle :: "(string \<Rightarrow> string) \<Rightarrow> networkx \<Rightarrow> bundle_context \<Rightarrow> string \<Rightarrow> bundle_error + BehaviorEffectBundle" where
  "region_bundle sha nx bc controlling =
     (let members = filter (\<lambda>e. controlling_region (bc_regions bc) e = controlling) (bc_admitted bc) in
      bindE (by_offset (bc_ast bc) members) (\<lambda>based.
      let primary = snd (min_by primary_key (hd based) (tl based)); base_members = map snd based in
      bindE (by_offset (bc_ast bc) (base_members @ required_procedure_out_effects bc primary base_members)) (\<lambda>ordered.
      Inr (bundle_of sha nx bc controlling primary (map snd ordered)))))"

definition controlling_regions :: "bundle_context \<Rightarrow> string list" where
  "controlling_regions bc = sort (remdups (map (controlling_region (bc_regions bc)) (bc_admitted bc)))"

text \<open>\<open>None\<close> when the solver of the reaching definitions does not return.\<close>

definition build_bundles ::
  "(string \<Rightarrow> string) \<Rightarrow> networkx \<Rightarrow> nat \<Rightarrow> ProcedureAst \<Rightarrow> ControlFlowGraph \<Rightarrow> EffectCandidate list \<Rightarrow> TransactionRegion list
   \<Rightarrow> EffectTransactionAnalysis list \<Rightarrow> (bundle_error + BehaviorEffectBundle list) option" where
  "build_bundles sha nx d ast g effects regions analyses =
     (case regions of [] \<Rightarrow> Some (Inl BUNDLE_NO_TRANSACTION_REGION)
      | region # _ \<Rightarrow>
        (case control_regions d ast of Inl e \<Rightarrow> Some (Inl e)
         | Inr control \<Rightarrow>
           (case loop_scope_by_node d ast of Inl e \<Rightarrow> Some (Inl e)
            | Inr loops \<Rightarrow>
              (case reaching_definitions ast g of None \<Rightarrow> None
               | Some (Inl (DfKeyError r)) \<Rightarrow> Some (Inl (BUNDLE_KEY_ERROR r))
               | Some (Inr st) \<Rightarrow>
                   let bc = \<lparr>bc_ast = ast, bc_cfg = g, bc_regions = control, bc_loop_scopes = loops,
                         bc_dominators = dominators_of nx g, bc_postdominators = postdominators_of nx g, bc_definitions = st,
                         bc_admitted = filter admitted_effect effects, bc_analyses = analyses,
                         bc_transaction_region_ref = tr_region_id region\<rparr>
                   in Some (map_sum id (sort_key bb_bundle_id) (seq_results (map (region_bundle sha nx bc) (controlling_regions bc))))))))"


section \<open>Dominance\<close>

text \<open>\<open>q\<close> lies on every path from \<open>root\<close> to \<open>n\<close>: without it \<open>n\<close> is not reachable.\<close>

definition avoiding :: "(string \<times> string) set \<Rightarrow> string \<Rightarrow> (string \<times> string) set" where
  "avoiding E q = {e \<in> E. fst e \<noteq> q \<and> snd e \<noteq> q}"

definition on_every_path :: "(string \<times> string) set \<Rightarrow> string \<Rightarrow> string \<Rightarrow> string \<Rightarrow> bool" where
  "on_every_path E root q n = (q = root \<or> n \<notin> insert root ((avoiding E q)\<^sup>+ `` {root}))"

definition reachable_from :: "(string \<times> string) set \<Rightarrow> string \<Rightarrow> string set" where
  "reachable_from E root = insert root (E\<^sup>+ `` {root})"

text \<open>
  What \<open>networkx\<close> documents of \<open>immediate_dominators\<close>: the keys are the nodes reachable from the start, which
  is its own entry; the entry of any other node is a strict dominator of it that every other strict dominator of the node dominates.
\<close>

definition idom_law :: "(string \<times> string) set \<Rightarrow> string \<Rightarrow> (string \<times> string) list \<Rightarrow> bool" where
  "idom_law E root d =
     (fst ` set d = reachable_from E root \<and> map_of d root = Some root
      \<and> (\<forall>n \<in> fst ` set d. n \<noteq> root \<longrightarrow>
           (case map_of d n of None \<Rightarrow> False
            | Some p \<Rightarrow> p \<noteq> n \<and> on_every_path E root p n
                \<and> (\<forall>q \<in> fst ` set d. q \<noteq> n \<and> on_every_path E root q n \<longrightarrow> on_every_path E root q p))))"

lemma reachable_steps: "n \<in> reachable_from E root \<longleftrightarrow> (\<exists>k. (root, n) \<in> E ^^ k)"
proof -
  have "n \<in> reachable_from E root \<longleftrightarrow> (root, n) \<in> E\<^sup>*" by (auto simp: reachable_from_def rtrancl_eq_or_trancl)
  then show ?thesis by (simp add: rtrancl_power)
qed

lemma on_every_path_iff: "on_every_path E root q n \<longleftrightarrow> q = root \<or> n \<notin> reachable_from (avoiding E q) root"
  by (simp add: on_every_path_def reachable_from_def)

lemma on_every_path_self: "n \<noteq> root \<Longrightarrow> on_every_path E root n n"
  by (auto simp: on_every_path_def avoiding_def elim: tranclE)

lemma nothing_before_root: "q \<noteq> root \<Longrightarrow> \<not> on_every_path E root q root"
  by (simp add: on_every_path_def)

lemma on_every_path_mono:
  assumes "on_every_path E root q n" "E' \<subseteq> E"
  shows "on_every_path E' root q n"
proof -
  have "(avoiding E' q)\<^sup>+ \<subseteq> (avoiding E q)\<^sup>+" using assms(2) by (intro trancl_mono_subset) (auto simp: avoiding_def)
  then show ?thesis using assms(1) by (auto simp: on_every_path_def)
qed

text \<open>A strict dominator comes earlier on every path.\<close>

lemma dominator_earlier:
  assumes "(root, n) \<in> E ^^ k" "p \<noteq> n" "on_every_path E root p n"
  shows "\<exists>j < k. (root, p) \<in> E ^^ j"
  using assms
proof (induction k arbitrary: n)
  case 0
  then show ?case using nothing_before_root [of p root E] by (cases "p = root") auto
next
  case (Suc k)
  then obtain m where m: "(root, m) \<in> E ^^ k" "(m, n) \<in> E" by auto
  show ?case
  proof (cases "m = p \<or> p = root")
    case True
    then show ?thesis using m(1) by (metis less_Suc_eq relpow_0_I zero_less_Suc)
  next
    case False
    have "on_every_path E root p m"
    proof (rule ccontr)
      assume "\<not> on_every_path E root p m"
      then have "m \<in> reachable_from (avoiding E p) root" by (simp add: on_every_path_iff)
      moreover have "(m, n) \<in> avoiding E p" using m(2) False Suc.prems(2) by (auto simp: avoiding_def)
      ultimately have "n \<in> reachable_from (avoiding E p) root" by (auto simp: reachable_from_def intro: trancl_into_trancl)
      with Suc.prems(3) False show False by (simp add: on_every_path_iff)
    qed
    with Suc.IH [OF m(1)] False show ?thesis using less_Suc_eq by blast
  qed
qed

lemma dominance_trans:
  assumes "on_every_path E root q p" "on_every_path E root p n"
  shows "on_every_path E root q n"
proof (rule ccontr)
  assume not: "\<not> on_every_path E root q n"
  then have q: "q \<noteq> root" "n \<in> reachable_from (avoiding E q) root" by (auto simp: on_every_path_iff)
  then obtain k where k: "(root, n) \<in> avoiding E q ^^ k" by (auto simp: reachable_steps)
  have "p \<noteq> n" using assms(1) not by blast
  moreover have "on_every_path (avoiding E q) root p n" using assms(2) by (rule on_every_path_mono) (auto simp: avoiding_def)
  ultimately have "p \<in> reachable_from (avoiding E q) root" using dominator_earlier [OF k] by (auto simp: reachable_steps)
  with assms(1) q(1) show False by (simp add: on_every_path_iff)
qed

text \<open>The length of the shortest path decreases along the climb, so no node is seen twice.\<close>

definition depth_of :: "(string \<times> string) set \<Rightarrow> string \<Rightarrow> string \<Rightarrow> nat" where
  "depth_of E root n = (LEAST k. (root, n) \<in> E ^^ k)"

lemma strict_dominator_depth:
  assumes "n \<in> reachable_from E root" "p \<noteq> n" "on_every_path E root p n"
  shows "depth_of E root p < depth_of E root n" "p \<in> reachable_from E root"
proof -
  from assms(1) have "(root, n) \<in> E ^^ depth_of E root n" unfolding reachable_steps depth_of_def by (auto intro: LeastI)
  then obtain j where j: "j < depth_of E root n" "(root, p) \<in> E ^^ j" using dominator_earlier assms(2,3) by blast
  then show "depth_of E root p < depth_of E root n" unfolding depth_of_def by (meson Least_le le_less_trans)
  show "p \<in> reachable_from E root" using j(2) by (auto simp: reachable_steps)
qed

lemma climb_decides:
  assumes "idom_law E root d" "n \<in> reachable_from E root" "\<forall>s \<in> set seen. depth_of E root n < depth_of E root s"
  shows "climb d q seen n \<longleftrightarrow> on_every_path E root q n"
  using assms(2,3)
proof (induction "depth_of E root n" arbitrary: n seen rule: less_induct)
  case less
  have keys: "fst ` set d = reachable_from E root" and root: "map_of d root = Some root" using assms(1) by (auto simp: idom_law_def)
  have seen: "n \<notin> set seen" using less.prems(2) by blast
  show ?case
  proof (cases "n = root")
    case True
    then show ?thesis using root seen nothing_before_root [of q root E] by (subst climb.simps) (auto simp: on_every_path_def)
  next
    case False
    with assms(1) less.prems(1) obtain p where p: "map_of d n = Some p" "p \<noteq> n" "on_every_path E root p n"
        "\<And>q. q \<in> reachable_from E root \<Longrightarrow> q \<noteq> n \<Longrightarrow> on_every_path E root q n \<Longrightarrow> on_every_path E root q p"
      unfolding idom_law_def keys by (fastforce split: option.splits)
    have dp: "depth_of E root p < depth_of E root n" "p \<in> reachable_from E root" using strict_dominator_depth [OF less.prems(1) p(2,3)] by blast+
    have IH: "climb d q (n # seen) p \<longleftrightarrow> on_every_path E root q p"
      using less.prems(2) dp by (intro less.hyps) auto
    have "on_every_path E root q p \<longleftrightarrow> on_every_path E root q n" if "q \<noteq> n"
      using dominance_trans [OF _ p(3)] p(4) strict_dominator_depth(2) [OF less.prems(1) that] that by blast
    then show ?thesis using p(1,2) seen IH on_every_path_self [OF False] by (subst climb.simps) auto
  qed
qed

lemma dominates_iff:
  assumes "idom_law E root d"
  shows "dominates q n d \<longleftrightarrow> q = n \<or> n \<in> reachable_from E root \<and> on_every_path E root q n"
proof (cases "n \<in> reachable_from E root")
  case True
  then show ?thesis using climb_decides [OF assms True, of "[]"] on_every_path_self [of n root E]
    by (cases "n = root") (auto simp: dominates_def on_every_path_def)
next
  case False
  then have "map_of d n = None" using assms by (auto simp: idom_law_def map_of_eq_None_iff)
  then show ?thesis using False by (auto simp: dominates_def climb.simps [of d q "[]" n])
qed



section \<open>What a bundle holds\<close>

lemma by_offset_Inr:
  assumes "by_offset ast es = Inr xs"
  shows "mset (map snd xs) = mset es" "\<And>k e. (k, e) \<in> set xs \<Longrightarrow> source_offset ast (ec_source_node_ref e) = Inr k"
proof -
  let ?f = "\<lambda>e. map_sum id (\<lambda>k. (k, e)) (source_offset ast (ec_source_node_ref e))"
  from assms obtain ys where ys: "seq_results (map ?f es) = Inr ys" "xs = sort_key fst ys" by (auto simp: by_offset_def dest!: map_sum_Inr)
  note all = seq_results_pointwise [OF ys(1)]
  have "map snd ys = es" using all by (induction rule: list_all2_induct) (auto dest!: map_sum_Inr)
  then show "mset (map snd xs) = mset es" by (metis mset_map mset_sort ys(2))
  fix k e assume "(k, e) \<in> set xs"
  then have "(k, e) \<in> set ys" by (simp add: ys(2))
  from list_all2_right [OF all this] show "source_offset ast (ec_source_node_ref e) = Inr k" by (auto dest!: map_sum_Inr)
qed

lemma min_by_least: "min_by k b xs \<in> set (b # xs) \<and> (\<forall>x \<in> set (b # xs). k (min_by k b xs) \<le> k x)"
proof (induction xs arbitrary: b)
  case (Cons x xs)
  show ?case
  proof (cases "k x < k b")
    case True
    then show ?thesis using Cons [of x] by (auto intro: order.trans less_imp_le)
  next
    case False
    then have "k b \<le> k x" by simp
    then show ?thesis using Cons [of b] False by (auto intro: order.trans)
  qed
qed simp

text \<open>An inherited member is an escaping output assignment, the only definition of its target that reaches the primary.\<close>

definition uniquely_reaching :: "bundle_context \<Rightarrow> EffectCandidate \<Rightarrow> EffectCandidate \<Rightarrow> bool" where
  "uniquely_reaching bc primary e =
     (ec_effect_kind e = EK_OUT_PARAMETER_ASSIGNMENT \<and> ec_observability e = EO_ESCAPING_EFFECT
      \<and> definitions_before_ast (bc_definitions bc) (ec_source_node_ref primary) (upper_target e) = [ec_source_node_ref e])"

lemma inherited_reach:
  assumes "e \<in> set (required_procedure_out_effects bc primary base_members)"
  shows "e \<in> set (bc_admitted bc)" "uniquely_reaching bc primary e" "ec_effect_id e \<notin> ec_effect_id ` set base_members"
proof -
  from assms obtain t where t: "inherited_for bc primary base_members t = Some e"
    by (auto simp: required_procedure_out_effects_def List.map_filter_def split: if_splits)
  then obtain r where r: "definitions_before_ast (bc_definitions bc) (ec_source_node_ref primary) t = [r]"
      "effect_by_target_and_source (bc_admitted bc) t r = Some e" and o: "ec_observability e = EO_ESCAPING_EFFECT"
    and n: "ec_effect_id e \<notin> ec_effect_id ` set base_members"
    by (auto simp: inherited_for_def split: if_splits list.splits option.splits)
  from r(2) have "e \<in> set (out_assignments (bc_admitted bc)) \<and> upper_target e = t \<and> ec_source_node_ref e = r"
    unfolding effect_by_target_and_source_def by (auto dest!: map_of_SomeD)
  with r(1) o n show "e \<in> set (bc_admitted bc)" "uniquely_reaching bc primary e" "ec_effect_id e \<notin> ec_effect_id ` set base_members"
    by (auto simp: uniquely_reaching_def out_assignments_def)
qed

lemma region_bundle_Inr:
  assumes "region_bundle sha nx bc r = Inr b" "\<exists>e \<in> set (bc_admitted bc). controlling_region (bc_regions bc) e = r"
  obtains primary ordered base_members where "b = bundle_of sha nx bc r primary ordered"
    "primary \<in> set (bc_admitted bc)" "controlling_region (bc_regions bc) primary = r"
    "\<forall>e \<in> set (bc_admitted bc). controlling_region (bc_regions bc) e = r \<longrightarrow>
       (\<exists>k j. source_offset (bc_ast bc) (ec_source_node_ref primary) = Inr k \<and> source_offset (bc_ast bc) (ec_source_node_ref e) = Inr j
         \<and> primary_key (k, primary) \<le> primary_key (j, e))"
    "set base_members = {e \<in> set (bc_admitted bc). controlling_region (bc_regions bc) e = r}"
    "set ordered = set base_members \<union> set (required_procedure_out_effects bc primary base_members)"
proof -
  let ?ms = "filter (\<lambda>e. controlling_region (bc_regions bc) e = r) (bc_admitted bc)"
  from assms(1) obtain based ordered where based: "by_offset (bc_ast bc) ?ms = Inr based"
    and ordered: "by_offset (bc_ast bc) (map snd based @ required_procedure_out_effects bc (snd (min_by primary_key (hd based) (tl based))) (map snd based)) = Inr ordered"
    and b: "b = bundle_of sha nx bc r (snd (min_by primary_key (hd based) (tl based))) (map snd ordered)"
    by (auto simp: region_bundle_def Let_def bindE_Inr)
  have ms: "set (map snd based) = set ?ms" using by_offset_Inr(1) [OF based] by (metis set_mset_mset)
  with assms(2) have "based \<noteq> []" by auto
  then have hd: "set (hd based # tl based) = set based" by simp
  obtain k p where kp: "min_by primary_key (hd based) (tl based) = (k, p)" by fastforce
  have least: "(k, p) \<in> set based" "\<And>x. x \<in> set based \<Longrightarrow> primary_key (k, p) \<le> primary_key x"
    using min_by_least [of primary_key "hd based" "tl based"] unfolding hd kp by auto
  have "p \<in> set ?ms" using least(1) ms by force
  moreover have "\<exists>k j. source_offset (bc_ast bc) (ec_source_node_ref p) = Inr k \<and> source_offset (bc_ast bc) (ec_source_node_ref e) = Inr j
      \<and> primary_key (k, p) \<le> primary_key (j, e)" if "e \<in> set (bc_admitted bc)" "controlling_region (bc_regions bc) e = r" for e
  proof -
    from that ms have "e \<in> set (map snd based)" by simp
    then obtain j where j: "(j, e) \<in> set based" by auto
    then show ?thesis using least by_offset_Inr(2) [OF based] by blast
  qed
  moreover have "set (map snd ordered) = set (map snd based) \<union> set (required_procedure_out_effects bc p (map snd based))"
    using by_offset_Inr(1) [OF ordered] by (metis kp set_append set_mset_mset snd_conv)
  ultimately show thesis using that [of p "map snd ordered" "map snd based"] b ms by (simp add: kp)
qed

text \<open>The context in which the builder forms its bundles.\<close>

lemma build_bundles_Inr:
  assumes "build_bundles sha nx d ast g effects regions analyses = Some (Inr bs)"
  obtains bc where "control_regions d ast = Inr (bc_regions bc)" "loop_scope_by_node d ast = Inr (bc_loop_scopes bc)"
    "reaching_definitions ast g = Some (Inr (bc_definitions bc))" "bc_ast bc = ast" "bc_cfg bc = g"
    "bc_admitted bc = filter admitted_effect effects" "bc_analyses bc = analyses"
    "bc_dominators bc = dominators_of nx g" "bc_postdominators bc = postdominators_of nx g"
    "\<exists>rs. list_all2 (\<lambda>r b. region_bundle sha nx bc r = Inr b) (controlling_regions bc) rs \<and> bs = sort_key bb_bundle_id rs"
proof -
  from assms obtain region rest control loops st where r: "regions = region # rest" "control_regions d ast = Inr control"
      "loop_scope_by_node d ast = Inr loops" "reaching_definitions ast g = Some (Inr st)"
    by (auto simp: build_bundles_def split: list.splits sum.splits option.splits df_error.splits)
  define bc where "bc = \<lparr>bc_ast = ast, bc_cfg = g, bc_regions = control, bc_loop_scopes = loops,
    bc_dominators = dominators_of nx g, bc_postdominators = postdominators_of nx g, bc_definitions = st,
    bc_admitted = filter admitted_effect effects, bc_analyses = analyses, bc_transaction_region_ref = tr_region_id region\<rparr>"
  from assms r have "map_sum id (sort_key bb_bundle_id) (seq_results (map (region_bundle sha nx bc) (controlling_regions bc))) = Inr bs"
    by (simp add: build_bundles_def bc_def Let_def)
  then obtain rs where "seq_results (map (region_bundle sha nx bc) (controlling_regions bc)) = Inr rs" "bs = sort_key bb_bundle_id rs"
    by (auto dest!: map_sum_Inr)
  then show thesis using r by (intro that [of bc]) (auto simp: bc_def dest: seq_results_pointwise)
qed

lemma controlling_region_ref [simp]: "bb_controlling_region_ref (bundle_of sha nx bc r p es) = r"
  by (simp add: bundle_of_def)

lemma region_bundle_region: "region_bundle sha nx bc r = Inr b \<Longrightarrow> bb_controlling_region_ref b = r"
  by (auto simp: region_bundle_def Let_def bindE_Inr)


definition bundle_justified ::
  "ProcedureAst \<Rightarrow> ControlFlowGraph \<Rightarrow> (string \<times> string) list \<Rightarrow> EffectCandidate list \<Rightarrow> BehaviorEffectBundle \<Rightarrow> EffectCandidate \<Rightarrow> bool" where
  "bundle_justified ast g control effects b primary =
     (primary \<in> set effects \<and> admitted_effect primary \<and> bb_primary_effect_ref b = ec_effect_id primary
      \<and> controlling_region control primary = bb_controlling_region_ref b
      \<and> be_effect_ref ` {m \<in> set (bb_effect_members b). be_relationship m = ER_PRIMARY} = {ec_effect_id primary}
      \<and> (\<forall>e \<in> set effects. admitted_effect e \<and> controlling_region control e = bb_controlling_region_ref b \<longrightarrow>
           ec_effect_id e \<in> be_effect_ref ` set (bb_effect_members b)
           \<and> (\<exists>k j. source_offset ast (ec_source_node_ref primary) = Inr k \<and> source_offset ast (ec_source_node_ref e) = Inr j
                \<and> primary_key (k, primary) \<le> primary_key (j, e)))
      \<and> (\<forall>m \<in> set (bb_effect_members b). \<exists>e \<in> set effects. admitted_effect e \<and> be_effect_ref m = ec_effect_id e
           \<and> (controlling_region control e = bb_controlling_region_ref b
              \<or> ec_effect_kind e = EK_OUT_PARAMETER_ASSIGNMENT \<and> ec_observability e = EO_ESCAPING_EFFECT
                 \<and> {d. reaches ast g (''cfg:'' @ ec_source_node_ref primary) (py_upper (upper_target e)) d} = {ec_source_node_ref e})))"

lemma sorted_list_single: "sorted_list_of_set A = [x] \<Longrightarrow> A = {x}"
proof -
  assume a: "sorted_list_of_set A = [x]"
  then have "finite A" by (metis list.distinct(1) sorted_list_of_set.fold_insort_key.infinite)
  then show ?thesis using a set_sorted_list_of_set [of A] by simp
qed

lemma region_bundle_justified:
  assumes "region_bundle sha nx bc r = Inr b" "\<exists>e \<in> set (bc_admitted bc). controlling_region (bc_regions bc) e = r"
    and "bc_admitted bc = filter admitted_effect effects"
    and "\<forall>n symbol. definitions_at_cfg (bc_definitions bc) n symbol = sorted_list_of_set {d. reaches (bc_ast bc) (bc_cfg bc) n (py_upper symbol) d}"
  shows "\<exists>primary. bundle_justified (bc_ast bc) (bc_cfg bc) (bc_regions bc) effects b primary"
proof -
  from assms(1,2) obtain p ordered bm where b: "b = bundle_of sha nx bc r p ordered"
    and p: "p \<in> set (bc_admitted bc)" "controlling_region (bc_regions bc) p = r"
    and least: "\<forall>e \<in> set (bc_admitted bc). controlling_region (bc_regions bc) e = r \<longrightarrow>
       (\<exists>k j. source_offset (bc_ast bc) (ec_source_node_ref p) = Inr k \<and> source_offset (bc_ast bc) (ec_source_node_ref e) = Inr j
         \<and> primary_key (k, p) \<le> primary_key (j, e))"
    and bm: "set bm = {e \<in> set (bc_admitted bc). controlling_region (bc_regions bc) e = r}"
    and o: "set ordered = set bm \<union> set (required_procedure_out_effects bc p bm)"
    by (rule region_bundle_Inr)
  have members: "bb_effect_members b = map (\<lambda>e. \<lparr>be_effect_ref = ec_effect_id e, be_relationship = relationship_to bc p e, be_condition_ref = None\<rparr>) ordered"
    by (simp add: b bundle_of_def)
  have refs: "be_effect_ref ` set (bb_effect_members b) = ec_effect_id ` set ordered" unfolding members by force
  have "p \<in> set ordered" using p o bm by blast
  moreover have "relationship_to bc p e = ER_PRIMARY \<longleftrightarrow> ec_effect_id e = ec_effect_id p" for e by (simp add: relationship_to_def)
  ultimately have primary: "be_effect_ref ` {m \<in> set (bb_effect_members b). be_relationship m = ER_PRIMARY} = {ec_effect_id p}"
    unfolding members by force
  have member: "\<exists>e \<in> set effects. admitted_effect e \<and> be_effect_ref m = ec_effect_id e
      \<and> (controlling_region (bc_regions bc) e = r
        \<or> ec_effect_kind e = EK_OUT_PARAMETER_ASSIGNMENT \<and> ec_observability e = EO_ESCAPING_EFFECT
          \<and> {d. reaches (bc_ast bc) (bc_cfg bc) (''cfg:'' @ ec_source_node_ref p) (py_upper (upper_target e)) d} = {ec_source_node_ref e})"
    if m: "m \<in> set (bb_effect_members b)" for m
  proof -
    from m refs obtain e where e: "e \<in> set ordered" "be_effect_ref m = ec_effect_id e" by blast
    show ?thesis
    proof (cases "e \<in> set bm")
      case True
      then show ?thesis using e(2) bm assms(3) by auto
    next
      case False
      then have "e \<in> set (required_procedure_out_effects bc p bm)" using e(1) o by blast
      note i = inherited_reach [OF this]
      then have "{d. reaches (bc_ast bc) (bc_cfg bc) (''cfg:'' @ ec_source_node_ref p) (py_upper (upper_target e)) d} = {ec_source_node_ref e}"
        by (intro sorted_list_single) (simp add: uniquely_reaching_def definitions_before_ast_def assms(4) [rule_format, symmetric])
      then show ?thesis using i e(2) assms(3) by (auto simp: uniquely_reaching_def)
    qed
  qed
  have "ec_effect_id e \<in> be_effect_ref ` set (bb_effect_members b)" if "e \<in> set effects" "admitted_effect e" "controlling_region (bc_regions bc) e = r" for e
    unfolding refs using that o bm assms(3) by auto
  then have "bundle_justified (bc_ast bc) (bc_cfg bc) (bc_regions bc) effects b p"
    unfolding bundle_justified_def using p least primary member assms(3) by (auto simp: b)  
       (simp_all add: bundle_of_def)
  then show ?thesis ..
qed

text \<open>
  C15: the builder partitions the admitted effects by the region that controls them: there is exactly one bundle per
  region with an admitted effect; it holds all of them; its primary, the only member so related, is the least by
  kind, position and identifier; and any other member is an escaping output assignment that is the only definition of its target to
  reach the primary.
\<close>

theorem bundles_partition_effects:
  assumes "build_bundles sha nx d ast g effects regions analyses = Some (Inr bs)"
    and "cfg_closed g" "distinct (map ce_edge_id (cfg_edges g))"
  shows "\<exists>control. control_regions d ast = Inr control
    \<and> distinct (map bb_controlling_region_ref bs)
    \<and> bb_controlling_region_ref ` set bs = controlling_region control ` {e \<in> set effects. admitted_effect e}
    \<and> (\<forall>b \<in> set bs. \<exists>primary. bundle_justified ast g control effects b primary)"
proof -
  from assms(1) obtain bc rs where bc: "control_regions d ast = Inr (bc_regions bc)" "reaching_definitions ast g = Some (Inr (bc_definitions bc))"
      "bc_ast bc = ast" "bc_cfg bc = g" "bc_admitted bc = filter admitted_effect effects"
    and all: "list_all2 (\<lambda>r b. region_bundle sha nx bc r = Inr b) (controlling_regions bc) rs" and bs: "bs = sort_key bb_bundle_id rs"
    by (rule build_bundles_Inr) blast
  have "missing_refs ast g = []"
    using bc(2) reaching_definitions_error(2) [OF assms(2,3)] by (cases "missing_refs ast g") auto
  then have defs: "\<forall>n symbol. definitions_at_cfg (bc_definitions bc) n symbol = sorted_list_of_set {d. reaches (bc_ast bc) (bc_cfg bc) n (py_upper symbol) d}"
    using reaching_definitions_solved [OF assms(2,3), of ast] bc(2-4) by auto
  have refs: "map bb_controlling_region_ref rs = controlling_regions bc"
    using all by (induction rule: list_all2_induct) (auto dest: region_bundle_region)
  have "mset (map bb_controlling_region_ref bs) = mset (controlling_regions bc)" unfolding refs [symmetric] bs by simp
  then have d: "distinct (map bb_controlling_region_ref bs)" and s: "set (map bb_controlling_region_ref bs) = set (controlling_regions bc)"
    by (metis controlling_regions_def distinct_remdups distinct_sort mset_eq_imp_distinct_iff) (metis \<open>mset _ = _\<close> set_mset_mset)
  have j: "\<exists>primary. bundle_justified ast g (bc_regions bc) effects b primary" if b: "b \<in> set bs" for b
  proof -
    from b obtain r where r: "r \<in> set (controlling_regions bc)" "region_bundle sha nx bc r = Inr b"
      using list_all2_right [OF all] by (auto simp: bs)
    from r(1) have "\<exists>e \<in> set (bc_admitted bc). controlling_region (bc_regions bc) e = r" by (auto simp: controlling_regions_def)
    from region_bundle_justified [OF r(2) this bc(5) defs] show ?thesis by (simp add: bc)
  qed
  show ?thesis
    by (rule exI [of _ "bc_regions bc"]) (use bc(1,5) d s j in \<open>auto simp: controlling_regions_def\<close>)
qed


section \<open>Loops and obligations\<close>

lemma ast_node_id: "ast_node ast r = Some n \<Longrightarrow> an_node_id n = r \<and> n \<in> set (pa_nodes ast)"
  by (auto simp: ast_node_def dest!: map_of_SomeD)

text \<open>The two visits agree: a node the modality analysis finds inside a loop has a loop scope here.\<close>

lemma visit_scope_covers:
  assumes "visit_loops d ast loops r = Inr ps" "visit_scope d ast current r = Inr ss" "loops \<noteq> [] \<longrightarrow> current \<noteq> None"
  shows "fst ` set ps \<subseteq> fst ` set ss"
  using assms
proof (induction d arbitrary: loops current r ps ss)
  case (Suc d)
  from Suc.prems(1) obtain n where n: "ast_node ast r = Some n" by (auto split: option.splits)
  define ls where "ls = (if an_kind n = NK_LOOP_REGION then loops @ [an_node_id n] else loops)"
  from Suc.prems(1) n obtain pss where pss: "seq_results (map (visit_loops d ast ls) (region_children n)) = Inr pss"
      "ps = map (Pair r) ls @ concat pss"
    by (auto simp: Let_def ls_def dest!: map_sum_Inr)
  define l where "l = (if an_kind n = NK_LOOP_REGION then Some (an_node_id n) else current)"
  from Suc.prems(2) n obtain sss where sss: "seq_results (map (visit_scope d ast l) (region_children n)) = Inr sss"
      "ss = (case l of None \<Rightarrow> [] | Some x \<Rightarrow> [(r, x)]) @ concat sss"
    using ast_node_id [OF n] by (auto simp: Let_def l_def dest!: map_sum_Inr)
  have "fst ` set p \<subseteq> fst ` set ss" if "p \<in> set pss" for p
  proof -
    from list_all2_right [OF seq_results_pointwise [OF pss(1)] that] obtain c where c: "c \<in> set (region_children n)"
      "visit_loops d ast ls c = Inr p" by blast
    from list_all2_left [OF seq_results_pointwise [OF sss(1)] c(1)] obtain q where q: "q \<in> set sss" "visit_scope d ast l c = Inr q" by blast
    have "fst ` set p \<subseteq> fst ` set q" using Suc.prems(3) by (intro Suc.IH [OF c(2) q(2)]) (auto simp: l_def ls_def)
    moreover have "set q \<subseteq> set ss" using q(1) by (auto simp: sss(2))
    ultimately show ?thesis by blast
  qed
  moreover have "r \<in> fst ` set ss" if "ls \<noteq> []"
    using that Suc.prems(3) by (auto simp: sss(2) l_def ls_def split: if_splits)
  moreover have "fst ` set ps = (if ls = [] then {} else {r}) \<union> (\<Union>p \<in> set pss. fst ` set p)"
    by (cases ls) (auto simp: pss(2) image_Un image_image image_UN)
  ultimately show ?case by (simp add: UN_subset_iff)
qed simp

lemma visit_scope_named:
  assumes "visit_scope d ast current r = Inr ss" "\<forall>n \<in> set (pa_nodes ast). an_node_id n \<noteq> []" "current \<noteq> Some []"
  shows "\<forall>x \<in> set ss. snd x \<noteq> []"
  using assms(1,3)
proof (induction d arbitrary: current r ss)
  case (Suc d)
  then obtain n where n: "ast_node ast r = Some n" by (auto split: option.splits)
  define l where "l = (if an_kind n = NK_LOOP_REGION then Some (an_node_id n) else current)"
  from Suc.prems(1) n obtain sss where sss: "seq_results (map (visit_scope d ast l) (region_children n)) = Inr sss"
      "ss = (case l of None \<Rightarrow> [] | Some x \<Rightarrow> [(an_node_id n, x)]) @ concat sss"
    by (auto simp: Let_def l_def dest!: map_sum_Inr)
  have l: "l \<noteq> Some []" using Suc.prems(2) ast_node_id [OF n] assms(2) by (auto simp: l_def)
  have "\<forall>x \<in> set q. snd x \<noteq> []" if "q \<in> set sss" for q
    using list_all2_right [OF seq_results_pointwise [OF sss(1)] that] Suc.IH l by blast
  then show ?case using l by (auto simp: sss(2) split: option.splits)
qed simp

lemma scopes_cover_loops:
  assumes "loop_pairs d ast = Inr pairs" "loop_scope_by_node d ast = Inr scopes" "loop_ancestors pairs r \<noteq> []"
  shows "r \<in> fst ` set scopes"
proof -
  from assms(1) obtain pss where pss: "seq_results (map (visit_loops d ast []) (pa_body_node_refs ast)) = Inr pss" "pairs = concat pss"
    by (auto simp: loop_pairs_def dest!: map_sum_Inr)
  from assms(2) obtain sss where sss: "seq_results (map (visit_scope d ast None) (pa_body_node_refs ast)) = Inr sss" "scopes = concat sss"
    by (auto simp: loop_scope_by_node_def dest!: map_sum_Inr)
  from assms(3) have "set (loop_ancestors pairs r) \<noteq> {}" by simp
  then obtain l where "(r, l) \<in> set pairs" unfolding loop_ancestors_def set_sort by auto
  then obtain p where p: "p \<in> set pss" "r \<in> fst ` set p" by (force simp: pss(2))
  from list_all2_right [OF seq_results_pointwise [OF pss(1)] p(1)] obtain c where c: "c \<in> set (pa_body_node_refs ast)" "visit_loops d ast [] c = Inr p" by blast
  from list_all2_left [OF seq_results_pointwise [OF sss(1)] c(1)] obtain q where q: "q \<in> set sss" "visit_scope d ast None c = Inr q" by blast
  have "fst ` set p \<subseteq> fst ` set q" using visit_scope_covers [OF c(2) q(2)] by simp
  moreover have "set q \<subseteq> set scopes" using q(1) by (auto simp: sss(2))
  ultimately show ?thesis using p(2) by blast
qed

lemma scopes_named:
  assumes "loop_scope_by_node d ast = Inr scopes" "\<forall>n \<in> set (pa_nodes ast). an_node_id n \<noteq> []" "x \<in> set scopes"
  shows "snd x \<noteq> []"
proof -
  from assms(1) obtain sss where sss: "seq_results (map (visit_scope d ast None) (pa_body_node_refs ast)) = Inr sss" "scopes = concat sss"
    by (auto simp: loop_scope_by_node_def dest!: map_sum_Inr)
  from assms(3) obtain q where q: "q \<in> set sss" "x \<in> set q" by (auto simp: sss(2))
  from list_all2_right [OF seq_results_pointwise [OF sss(1)] q(1)] show ?thesis using visit_scope_named assms(2) q(2) by blast
qed

lemma loop_member_scope:
  assumes "e \<in> set members" "loop_scope_by_node d ast = Inr (bc_loop_scopes bc)" "loop_pairs d ast = Inr pairs"
    and "loop_ancestors pairs (ec_source_node_ref e) \<noteq> []" "\<forall>n \<in> set (pa_nodes ast). an_node_id n \<noteq> []"
  shows "fst (action_scope bc r members) = BA_CURSOR_ITERATION"
proof -
  have "ec_source_node_ref e \<in> fst ` set (bc_loop_scopes bc)" using scopes_cover_loops [OF assms(3,2,4)] .
  then have "last_assigned (bc_loop_scopes bc) (ec_source_node_ref e) \<noteq> None" by (simp add: last_assigned_def map_of_eq_None_iff)
  then obtain l where l: "last_assigned (bc_loop_scopes bc) (ec_source_node_ref e) = Some l" by blast
  then have "(ec_source_node_ref e, l) \<in> set (bc_loop_scopes bc)" by (auto simp: last_assigned_def dest: map_of_SomeD)
  then have "l \<noteq> []" using scopes_named [OF assms(2,5)] by fastforce
  moreover have "l \<in> set (List.map_filter (\<lambda>e. last_assigned (bc_loop_scopes bc) (ec_source_node_ref e)) members)"
    using assms(1) l by (force simp: List.map_filter_def)
  ultimately have "l \<in> set (loop_refs bc members)" unfolding loop_refs_def by simp
  then show ?thesis by (auto simp: action_scope_def split: list.splits)
qed


text \<open>The reasons the loops of a routine add to an obligation, and that no other step adds them.\<close>

definition loop_reasons :: "string set" where
  "loop_reasons = {''LOOP_EXECUTION_DATA_DEPENDENT'', ''LOOP_SUMMARY_PARTIAL''}"

lemma reason_values:
  "relationship_value r \<notin> loop_reasons" "observability_value v \<notin> loop_reasons" "''ITERATION_SCOPED_BEHAVIOR'' \<notin> loop_reasons"
  "''BUNDLE_PARTIAL'' \<notin> loop_reasons" "''UNRESOLVED_EFFECT_BOUNDARY'' \<notin> loop_reasons" "''UNRESOLVED_DYNAMIC_SQL_EFFECT_BOUNDARY'' \<notin> loop_reasons"
  "''TRANSACTION_'' @ t \<notin> loop_reasons" "''TRANSACTION_MUST_ROLLBACK'' \<notin> loop_reasons" "''CALLER_TRANSACTION_CONTRACT'' \<notin> loop_reasons"
proof -
  show "relationship_value r \<notin> loop_reasons" by (cases r) (simp_all add: loop_reasons_def)
  show "observability_value v \<notin> loop_reasons" by (cases v) (simp_all add: loop_reasons_def)
qed (simp_all add: loop_reasons_def)

lemma grade_reasons:
  assumes "loops = [] \<or> bb_action_scope b = BA_CURSOR_ITERATION"
  shows "set (snd (grade analyses summaries loops b m e)) \<inter> loop_reasons = {}"
proof -
  have l: "set (snd (grade_loops (bb_action_scope b) summaries loops (base (be_relationship m)))) \<inter> loop_reasons = {}"
  proof -
    have "snd (base r) = [relationship_value r]" for r by (simp add: base_def)
    then show ?thesis using assms by (auto simp: grade_loops_def reason_values)
  qed
  have b: "set (snd (grade_bundle c g)) \<inter> loop_reasons = {}" if "set (snd g) \<inter> loop_reasons = {}" for c g
    using that by (simp add: grade_bundle_def reason_values)
  have k: "set (snd (grade_kind e g)) \<inter> loop_reasons = {}" if "set (snd g) \<inter> loop_reasons = {}" for g
    using that by (simp add: grade_kind_def reason_values)
  have o: "set (snd (grade_observability e g)) \<inter> loop_reasons = {}" if "set (snd g) \<inter> loop_reasons = {}" for g
    using that by (simp add: grade_observability_def reason_values)
  have t: "set (snd (grade_transaction t g)) \<inter> loop_reasons = {}" if "set (snd g) \<inter> loop_reasons = {}" for t g
  proof (cases t)
    case (Some a)
    then show ?thesis using that reason_values(7) by (cases "ta_classification a") (simp_all add: grade_transaction_def reason_values)
  qed (use that in \<open>simp add: grade_transaction_def\<close>)
  show ?thesis unfolding grade_def by (rule t, rule o, rule k, rule b, rule l)
qed

lemma obligation_reasons:
  assumes "obligation sha effects analyses summaries pairs (b, m) = Inr ob"
  obtains e where "effect_of effects (be_effect_ref m) = Some e"
    "set (eo_reason_codes ob) = set (snd (grade analyses summaries (loop_ancestors pairs (ec_source_node_ref e)) b m e))"
  using assms by (auto simp: obligation_def Let_def split: option.splits prod.splits)

lemma effect_of_distinct: "distinct (map ec_effect_id effects) \<Longrightarrow> e \<in> set effects \<Longrightarrow> effect_of effects (ec_effect_id e) = Some e"
  by (auto simp: effect_of_def rev_map [symmetric] comp_def intro!: map_of_is_SomeI)

lemma built_bundle_loops:
  assumes "build_bundles sha nx d ast g effects regions analyses = Some (Inr bs)" "distinct (map ec_effect_id effects)"
    and "\<forall>n \<in> set (pa_nodes ast). an_node_id n \<noteq> []" "loop_pairs d ast = Inr pairs"
    and "b \<in> set bs" "m \<in> set (bb_effect_members b)" "effect_of effects (be_effect_ref m) = Some e"
  shows "loop_ancestors pairs (ec_source_node_ref e) = [] \<or> bb_action_scope b = BA_CURSOR_ITERATION"
proof (rule disjCI)
  assume not: "bb_action_scope b \<noteq> BA_CURSOR_ITERATION"
  from assms(1) obtain bc rs where bc: "loop_scope_by_node d ast = Inr (bc_loop_scopes bc)" "bc_admitted bc = filter admitted_effect effects"
    and all: "list_all2 (\<lambda>r b. region_bundle sha nx bc r = Inr b) (controlling_regions bc) rs" and bs: "bs = sort_key bb_bundle_id rs"
    by (rule build_bundles_Inr) blast
  from assms(5) obtain r where r: "r \<in> set (controlling_regions bc)" "region_bundle sha nx bc r = Inr b"
    using list_all2_right [OF all] by (auto simp: bs)
  then obtain p ordered bm where b: "b = bundle_of sha nx bc r p ordered"
    and o: "set bm = {e \<in> set (bc_admitted bc). controlling_region (bc_regions bc) e = r}" "set ordered = set bm \<union> set (required_procedure_out_effects bc p bm)"
    by (elim region_bundle_Inr) (auto simp: controlling_regions_def)
  from assms(6) obtain e' where e': "e' \<in> set ordered" "be_effect_ref m = ec_effect_id e'" by (auto simp: b bundle_of_def)
  have "e' \<in> set effects" using e'(1) o inherited_reach(1) bc(2) by fastforce
  then have "e' = e" using assms(2,7) e'(2) effect_of_distinct by fastforce
  then show "loop_ancestors pairs (ec_source_node_ref e) = []"
    using not loop_member_scope [OF e'(1) bc(1) assms(4) _ assms(3), of r] by (auto simp: b bundle_of_def)
qed



section \<open>The builder returns\<close>

lemma by_offset_total:
  "(\<forall>e \<in> set es. ast_node ast (ec_source_node_ref e) \<noteq> None) \<Longrightarrow> \<exists>xs. by_offset ast es = Inr xs"
  by (auto simp: by_offset_def map_sum_exists seq_results_exists source_offset_def split: option.splits)

lemma region_bundle_total:
  assumes "\<forall>e \<in> set (bc_admitted bc). ast_node (bc_ast bc) (ec_source_node_ref e) \<noteq> None"
  shows "\<exists>b. region_bundle sha nx bc r = Inr b"
proof -
  let ?ms = "filter (\<lambda>e. controlling_region (bc_regions bc) e = r) (bc_admitted bc)"
  obtain based where based: "by_offset (bc_ast bc) ?ms = Inr based" using assms by (metis by_offset_total filter_is_subset subsetD)
  have "set (map snd based) = set ?ms" using by_offset_Inr(1) [OF based] by (metis set_mset_mset)
  then have "\<forall>e \<in> set (map snd based @ required_procedure_out_effects bc p (map snd based)). ast_node (bc_ast bc) (ec_source_node_ref e) \<noteq> None" for p
    using assms inherited_reach(1) by (fastforce simp del: set_map)
  then have "\<exists>ordered. by_offset (bc_ast bc) (map snd based @ required_procedure_out_effects bc p (map snd based)) = Inr ordered" for p
    by (rule by_offset_total)
  then show ?thesis by (auto simp: region_bundle_def Let_def bindE_def based split: sum.splits) (metis sum.distinct(1))
qed

lemma build_bundles_returns:
  assumes "regions \<noteq> []" "control_regions d ast = Inr control" "loop_scope_by_node d ast = Inr loops"
    and "reaching_definitions ast g = Some (Inr st)" "\<forall>e \<in> set effects. ast_node ast (ec_source_node_ref e) \<noteq> None"
  shows "\<exists>bs. build_bundles sha nx d ast g effects regions analyses = Some (Inr bs)"
proof -
  obtain region rest where r: "regions = region # rest" using assms(1) by (cases regions) auto
  let ?bc = "\<lparr>bc_ast = ast, bc_cfg = g, bc_regions = control, bc_loop_scopes = loops,
    bc_dominators = dominators_of nx g, bc_postdominators = postdominators_of nx g, bc_definitions = st,
    bc_admitted = filter admitted_effect effects, bc_analyses = analyses, bc_transaction_region_ref = tr_region_id region\<rparr>"
  have "\<exists>b. region_bundle sha nx ?bc k = Inr b" for k using assms(5) by (intro region_bundle_total) simp
  then have "\<exists>rs. seq_results (map (region_bundle sha nx ?bc) (controlling_regions ?bc)) = Inr rs" by (simp add: seq_results_exists)
  then show ?thesis using assms(2-4) by (auto simp: build_bundles_def r Let_def)
qed

lemma built_members_known:
  assumes "build_bundles sha nx d ast g effects regions analyses = Some (Inr bs)" "b \<in> set bs" "m \<in> set (bb_effect_members b)"
  shows "be_effect_ref m \<in> ec_effect_id ` set effects"
proof -
  from assms(1) obtain bc rs where bc: "bc_admitted bc = filter admitted_effect effects"
    and all: "list_all2 (\<lambda>r b. region_bundle sha nx bc r = Inr b) (controlling_regions bc) rs" and bs: "bs = sort_key bb_bundle_id rs"
    by (rule build_bundles_Inr) blast
  from assms(2) obtain r where r: "r \<in> set (controlling_regions bc)" "region_bundle sha nx bc r = Inr b"
    using list_all2_right [OF all] by (auto simp: bs)
  then obtain p ordered bm where b: "b = bundle_of sha nx bc r p ordered"
    and o: "set bm = {e \<in> set (bc_admitted bc). controlling_region (bc_regions bc) e = r}" "set ordered = set bm \<union> set (required_procedure_out_effects bc p bm)"
    by (elim region_bundle_Inr) (auto simp: controlling_regions_def)
  from assms(3) obtain e where e: "e \<in> set ordered" "be_effect_ref m = ec_effect_id e" by (auto simp: b bundle_of_def)
  have "e \<in> set effects" using e(1) o inherited_reach(1) bc by fastforce
  then show ?thesis using e(2) by simp
qed


section \<open>A small procedure\<close>

text \<open>The dominator trees of the small graph of the reaching definitions, and effects at its nodes.\<close>

definition sample_nx :: networkx where
  "sample_nx = \<lparr>nx_immediate_dominators = (\<lambda>nodes edges root.
       if root = ''in'' then Some [(''in'', ''in''), (''cfg:a'', ''in''), (''cfg:b'', ''cfg:a''), (''out'', ''cfg:b''), (''cfg:h'', ''cfg:b'')]
       else if root = synthetic_sink then
         Some [(synthetic_sink, synthetic_sink), (''out'', synthetic_sink), (''bad'', synthetic_sink), (''cfg:b'', ''out''), (''cfg:a'', ''cfg:b''), (''in'', ''cfg:a'')]
       else None),
     nx_has_path = (\<lambda>nodes edges a b. a = b)\<rparr>"

definition sample_state :: df_state where
  "sample_state = df_init fetch_graph"

definition sample_context :: bundle_context where
  "sample_context =
     \<lparr>bc_ast = fetch_ast, bc_cfg = fetch_graph, bc_regions = [], bc_loop_scopes = [], bc_dominators = dominators_of sample_nx fetch_graph,
      bc_postdominators = postdominators_of sample_nx fetch_graph, bc_definitions = sample_state, bc_admitted = [], bc_analyses = [],
      bc_transaction_region_ref = ''t''\<rparr>"

lemma sample_idom:
  "idom_law (set (graph_edges fetch_graph)) (cfg_entry_ref fetch_graph) (dominators_of sample_nx fetch_graph)"
  "idom_law (set (post_edges fetch_graph)) synthetic_sink (postdominators_of sample_nx fetch_graph)"
  by code_simp+



definition sample_region :: TransactionRegion where
  "sample_region = \<lparr>tr_region_id = ''t'', tr_procedure_ast_ref = ''p'', tr_commit_on_return = ''NO'', tr_effect_refs = [],
     tr_explicit_commit_refs = [], tr_explicit_rollback_refs = []\<rparr>"

definition sample_pair :: "EffectCandidate list" where
  "sample_pair = [sample_assignment ''e1'' ''a'', sample_assignment ''e2'' ''b'']"

lemma sample_regions:
  "control_regions 3 fetch_ast = Inr [(''a'', ''effect-region:a''), (''b'', ''effect-region:b'')]"
  "loop_scope_by_node 3 fetch_ast = Inr []"
  "\<forall>e \<in> set sample_pair. ast_node fetch_ast (ec_source_node_ref e) \<noteq> None"
  "cfg_closed fetch_graph" "distinct (map ce_edge_id (cfg_edges fetch_graph))" "missing_refs fetch_ast fetch_graph = []"
  by code_simp+

theorem bundles_partition_effects_witness:
  "\<exists>bs. build_bundles (\<lambda>x. x) sample_nx 3 fetch_ast fetch_graph sample_pair [sample_region] [] = Some (Inr bs)
    \<and> distinct (map bb_controlling_region_ref bs) \<and> bb_controlling_region_ref ` set bs = {''effect-region:a'', ''effect-region:b''}"
proof -
  obtain st where "reaching_definitions fetch_ast fetch_graph = Some (Inr st)"
    using reaching_definitions_solved [OF sample_regions(4-6)] by blast
  then obtain bs where bs: "build_bundles (\<lambda>x. x) sample_nx 3 fetch_ast fetch_graph sample_pair [sample_region] [] = Some (Inr bs)"
    using build_bundles_returns [OF _ sample_regions(1,2) _ sample_regions(3)] by blast
  have "controlling_region [(''a'', ''effect-region:a''), (''b'', ''effect-region:b'')] ` {e \<in> set sample_pair. admitted_effect e}
      = {''effect-region:a'', ''effect-region:b''}"
    by code_simp
  then show ?thesis using bs bundles_partition_effects [OF bs sample_regions(4,5)] by (auto simp: sample_regions(1))
qed

text \<open>The routine with a loop, over a graph without statements.\<close>

definition loop_graph :: ControlFlowGraph where
  "loop_graph = fetch_graph\<lparr>cfg_nodes := [small_cfg_node ''in'' None, small_cfg_node ''out'' None, small_cfg_node ''bad'' None],
     cfg_edges := [small_cfg_edge ''1'' ''in'' ''out'' CE_ENTRY]\<rparr>"

definition loop_routine :: ProcedureAst where
  "loop_routine = ProcedureAst.truncate sample_routine"

lemma loop_routine_facts:
  "control_regions 9 loop_routine = Inr [(''k'', ''effect-region:k''), (''l'', ''loop-region:l''), (''n'', ''loop-region:l'')]"
  "loop_scope_by_node 9 loop_routine = Inr [(''l'', ''l''), (''n'', ''l'')]"
  "\<forall>e \<in> set sample_assignments. ast_node loop_routine (ec_source_node_ref e) \<noteq> None"
  "cfg_closed loop_graph" "distinct (map ce_edge_id (cfg_edges loop_graph))" "missing_refs loop_routine loop_graph = []"
  "distinct (map ec_effect_id sample_assignments)" "\<forall>n \<in> set (pa_nodes loop_routine). an_node_id n \<noteq> []"
  "loop_pairs 9 loop_routine = Inr [(''l'', ''l''), (''n'', ''l'')]"
  by code_simp+

lemma analyze_built_returns:
  assumes "build_bundles sha nx d ast g effects regions analyses = Some (Inr bs)" "loop_pairs d ast = Inr pairs"
  shows "\<exists>obs. analyze_modalities sha d ast effects bs analyses' summaries = Inr obs"
proof -
  have "\<exists>y. obligation sha effects analyses' summaries pairs (b, m) = Inr y" if "b \<in> set bs" "m \<in> set (bb_effect_members b)" for b m
    using built_members_known [OF assms(1) that] by (simp add: obligation_total)
  then have "\<exists>os. seq_results (map (obligation sha effects analyses' summaries pairs) (bundle_members bs)) = Inr os"
    by (auto simp: seq_results_exists bundle_members_def)
  then show ?thesis by (auto simp: analyze_modalities_def bindE_def assms(2))
qed


end
