(* ===== verification/BddModels.thy ===== *)
theory BddModels
  imports CanonJson GherkinText Runtime
begin

text \<open>
  The models of the behaviour compiler: scenario specifications (\<open>bdd/scenario_models.py\<close>), authority
  snapshots, Gherkin artifacts and compilation results (\<open>bdd/models.py\<close>), and authority requirements and
  validation results (\<open>bdd/authority_models.py\<close>). Each class is a record; a field whose type is a single
  literal is a constant of the dump. \<open>dump_\<close> functions are pydantic's \<open>model_dump\<close> with the
  fields in declaration order, which the content digests hash.
\<close>

section \<open>Values\<close>

definition opt_str :: "string option \<Rightarrow> pyval" where
  "opt_str v = (case v of None \<Rightarrow> PNone | Some s \<Rightarrow> PStr s)"

definition str_tuple :: "string list \<Rightarrow> pyval" where
  "str_tuple xs = PTuple (map PStr xs)"

fun effect_modality_value :: "Runtime.EffectModality \<Rightarrow> string" where
  "effect_modality_value EM_MUST = ''MUST''"
| "effect_modality_value EM_MUST_IF_CALLER_CONTRACT_HOLDS = ''MUST_IF_CALLER_CONTRACT_HOLDS''"
| "effect_modality_value EM_MAY = ''MAY''"
| "effect_modality_value EM_MUST_NOT = ''MUST_NOT''"
| "effect_modality_value EM_UNKNOWN = ''UNKNOWN''"

datatype ScenarioCompilationStatus =
  SCS_SUCCEEDED | SCS_BLOCKED | SCS_FAILED

fun scenario_compilation_status_value :: "ScenarioCompilationStatus \<Rightarrow> string" where
  "scenario_compilation_status_value SCS_SUCCEEDED = ''SUCCEEDED''"
| "scenario_compilation_status_value SCS_BLOCKED = ''BLOCKED''"
| "scenario_compilation_status_value SCS_FAILED = ''FAILED''"

datatype ScenarioBlockerCode =
  SB_PARSER_RESULT_INCOMPLETE | SB_BEHAVIOR_BUNDLE_PARTIAL | SB_BEHAVIOR_SLICE_PARTIAL |
  SB_ORDERED_DECISION_NEGATED_ARM_DEPENDENCY_PARTIAL | SB_UNDECLARED_SYMBOL_REFERENCE |
  SB_PREDICATE_NORMALIZATION_PARTIAL | SB_OBVIOUS_PREDICATE_CONTRADICTION | SB_UNKNOWN_EFFECT_MODALITY |
  SB_UNRESOLVED_EFFECT_OBSERVABILITY | SB_TRANSACTION_SURVIVAL_UNRESOLVED | SB_MISSING_PRIMARY_EFFECT_OBLIGATION |
  SB_COMPILATION_BUDGET_EXCEEDED | SB_EVIDENCE_BINDING_INCOMPLETE | SB_SEMANTIC_RESULT_DIGEST_INVALID

fun scenario_blocker_code_value :: "ScenarioBlockerCode \<Rightarrow> string" where
  "scenario_blocker_code_value SB_PARSER_RESULT_INCOMPLETE = ''PARSER_RESULT_INCOMPLETE''"
| "scenario_blocker_code_value SB_BEHAVIOR_BUNDLE_PARTIAL = ''BEHAVIOR_BUNDLE_PARTIAL''"
| "scenario_blocker_code_value SB_BEHAVIOR_SLICE_PARTIAL = ''BEHAVIOR_SLICE_PARTIAL''"
| "scenario_blocker_code_value SB_ORDERED_DECISION_NEGATED_ARM_DEPENDENCY_PARTIAL = ''ORDERED_DECISION_NEGATED_ARM_DEPENDENCY_PARTIAL''"
| "scenario_blocker_code_value SB_UNDECLARED_SYMBOL_REFERENCE = ''UNDECLARED_SYMBOL_REFERENCE''"
| "scenario_blocker_code_value SB_PREDICATE_NORMALIZATION_PARTIAL = ''PREDICATE_NORMALIZATION_PARTIAL''"
| "scenario_blocker_code_value SB_OBVIOUS_PREDICATE_CONTRADICTION = ''OBVIOUS_PREDICATE_CONTRADICTION''"
| "scenario_blocker_code_value SB_UNKNOWN_EFFECT_MODALITY = ''UNKNOWN_EFFECT_MODALITY''"
| "scenario_blocker_code_value SB_UNRESOLVED_EFFECT_OBSERVABILITY = ''UNRESOLVED_EFFECT_OBSERVABILITY''"
| "scenario_blocker_code_value SB_TRANSACTION_SURVIVAL_UNRESOLVED = ''TRANSACTION_SURVIVAL_UNRESOLVED''"
| "scenario_blocker_code_value SB_MISSING_PRIMARY_EFFECT_OBLIGATION = ''MISSING_PRIMARY_EFFECT_OBLIGATION''"
| "scenario_blocker_code_value SB_COMPILATION_BUDGET_EXCEEDED = ''COMPILATION_BUDGET_EXCEEDED''"
| "scenario_blocker_code_value SB_EVIDENCE_BINDING_INCOMPLETE = ''EVIDENCE_BINDING_INCOMPLETE''"
| "scenario_blocker_code_value SB_SEMANTIC_RESULT_DIGEST_INVALID = ''SEMANTIC_RESULT_DIGEST_INVALID''"

datatype ClassificationAuthorityStatus =
  CAS_APPROVED | CAS_UNAPPROVED

fun classification_authority_status_value :: "ClassificationAuthorityStatus \<Rightarrow> string" where
  "classification_authority_status_value CAS_APPROVED = ''APPROVED''"
| "classification_authority_status_value CAS_UNAPPROVED = ''UNAPPROVED''"

datatype EffectClosureCompleteness =
  ECC_DIRECT_EFFECT_ONLY | ECC_PARTIAL_TRANSITIVE_CLOSURE | ECC_CLOSED_WITHIN_SCOPE | ECC_UNKNOWN

fun effect_closure_completeness_value :: "EffectClosureCompleteness \<Rightarrow> string" where
  "effect_closure_completeness_value ECC_DIRECT_EFFECT_ONLY = ''DIRECT_EFFECT_ONLY''"
| "effect_closure_completeness_value ECC_PARTIAL_TRANSITIVE_CLOSURE = ''PARTIAL_TRANSITIVE_CLOSURE''"
| "effect_closure_completeness_value ECC_CLOSED_WITHIN_SCOPE = ''CLOSED_WITHIN_SCOPE''"
| "effect_closure_completeness_value ECC_UNKNOWN = ''UNKNOWN''"

datatype ResolutionStatus =
  RS_RESOLVED | RS_RESOLVED_SOURCE_ONLY | RS_NOT_APPLICABLE | RS_NOT_ASSESSED | RS_UNRESOLVED

fun resolution_status_value :: "ResolutionStatus \<Rightarrow> string" where
  "resolution_status_value RS_RESOLVED = ''RESOLVED''"
| "resolution_status_value RS_RESOLVED_SOURCE_ONLY = ''RESOLVED_SOURCE_ONLY''"
| "resolution_status_value RS_NOT_APPLICABLE = ''NOT_APPLICABLE''"
| "resolution_status_value RS_NOT_ASSESSED = ''NOT_ASSESSED''"
| "resolution_status_value RS_UNRESOLVED = ''UNRESOLVED''"

datatype AuthorityScope =
  AS_TEST_FIXTURE_ONLY | AS_PLATFORM

fun authority_scope_value :: "AuthorityScope \<Rightarrow> string" where
  "authority_scope_value AS_TEST_FIXTURE_ONLY = ''TEST_FIXTURE_ONLY''"
| "authority_scope_value AS_PLATFORM = ''PLATFORM''"

datatype MappingKind =
  MK_EXACT_APPROVED_MAPPING | MK_STRUCTURAL_APPROVED_MAPPING | MK_SYMBOL_BOUND_APPROVED_MAPPING |
  MK_MANUALLY_APPROVED_MAPPING | MK_MAPPING_CANDIDATE_ONLY

fun mapping_kind_value :: "MappingKind \<Rightarrow> string" where
  "mapping_kind_value MK_EXACT_APPROVED_MAPPING = ''EXACT_APPROVED_MAPPING''"
| "mapping_kind_value MK_STRUCTURAL_APPROVED_MAPPING = ''STRUCTURAL_APPROVED_MAPPING''"
| "mapping_kind_value MK_SYMBOL_BOUND_APPROVED_MAPPING = ''SYMBOL_BOUND_APPROVED_MAPPING''"
| "mapping_kind_value MK_MANUALLY_APPROVED_MAPPING = ''MANUALLY_APPROVED_MAPPING''"
| "mapping_kind_value MK_MAPPING_CANDIDATE_ONLY = ''MAPPING_CANDIDATE_ONLY''"

datatype BddCompilationStatus =
  BCS_SUCCEEDED | BCS_BLOCKED | BCS_FAILED

fun bdd_compilation_status_value :: "BddCompilationStatus \<Rightarrow> string" where
  "bdd_compilation_status_value BCS_SUCCEEDED = ''SUCCEEDED''"
| "bdd_compilation_status_value BCS_BLOCKED = ''BLOCKED''"
| "bdd_compilation_status_value BCS_FAILED = ''FAILED''"

datatype BddBlockerCode =
  BB_SCENARIO_SPEC_BATCH_DIGEST_INVALID | BB_SCENARIO_SPEC_DIGEST_INVALID |
  BB_SCENARIO_NESTED_ARTIFACT_DIGEST_INVALID | BB_VOCABULARY_SNAPSHOT_DIGEST_INVALID |
  BB_CLASSIFICATION_SNAPSHOT_DIGEST_INVALID | BB_AUTHORITY_SCOPE_MISMATCH | BB_MISSING_CLASSIFICATION_APPROVAL |
  BB_AMBIGUOUS_CLASSIFICATION_APPROVAL | BB_CLASSIFICATION_CANDIDATE_MISMATCH |
  BB_CLASSIFICATION_OBSERVATION_DIGEST_MISMATCH | BB_CLASSIFICATION_APPROVAL_NOT_EFFECTIVE |
  BB_NO_APPROVED_BUSINESS_TERM | BB_AMBIGUOUS_APPROVED_BUSINESS_TERM | BB_MAPPING_NOT_EFFECTIVE |
  BB_MAPPING_REQUIREMENT_MISMATCH | BB_MAPPING_KIND_SEMANTICS_INVALID | BB_NON_PROMOTABLE_MAPPING_KIND |
  BB_PLACEHOLDER_BINDING_INVALID | BB_MODALITY_NOT_APPROVED_BY_MAPPING | BB_NON_DEFINITIVE_EFFECT |
  BB_EFFECT_CLOSURE_INSUFFICIENT | BB_DEPENDENCY_RESOLUTION_INCOMPLETE | BB_TRACEABILITY_MANIFEST_FAILED |
  BB_GHERKIN_STRUCTURE_INVALID | BB_COMPILATION_INTERNAL_ERROR

fun bdd_blocker_code_value :: "BddBlockerCode \<Rightarrow> string" where
  "bdd_blocker_code_value BB_SCENARIO_SPEC_BATCH_DIGEST_INVALID = ''SCENARIO_SPEC_BATCH_DIGEST_INVALID''"
| "bdd_blocker_code_value BB_SCENARIO_SPEC_DIGEST_INVALID = ''SCENARIO_SPEC_DIGEST_INVALID''"
| "bdd_blocker_code_value BB_SCENARIO_NESTED_ARTIFACT_DIGEST_INVALID = ''SCENARIO_NESTED_ARTIFACT_DIGEST_INVALID''"
| "bdd_blocker_code_value BB_VOCABULARY_SNAPSHOT_DIGEST_INVALID = ''VOCABULARY_SNAPSHOT_DIGEST_INVALID''"
| "bdd_blocker_code_value BB_CLASSIFICATION_SNAPSHOT_DIGEST_INVALID = ''CLASSIFICATION_SNAPSHOT_DIGEST_INVALID''"
| "bdd_blocker_code_value BB_AUTHORITY_SCOPE_MISMATCH = ''AUTHORITY_SCOPE_MISMATCH''"
| "bdd_blocker_code_value BB_MISSING_CLASSIFICATION_APPROVAL = ''MISSING_CLASSIFICATION_APPROVAL''"
| "bdd_blocker_code_value BB_AMBIGUOUS_CLASSIFICATION_APPROVAL = ''AMBIGUOUS_CLASSIFICATION_APPROVAL''"
| "bdd_blocker_code_value BB_CLASSIFICATION_CANDIDATE_MISMATCH = ''CLASSIFICATION_CANDIDATE_MISMATCH''"
| "bdd_blocker_code_value BB_CLASSIFICATION_OBSERVATION_DIGEST_MISMATCH = ''CLASSIFICATION_OBSERVATION_DIGEST_MISMATCH''"
| "bdd_blocker_code_value BB_CLASSIFICATION_APPROVAL_NOT_EFFECTIVE = ''CLASSIFICATION_APPROVAL_NOT_EFFECTIVE''"
| "bdd_blocker_code_value BB_NO_APPROVED_BUSINESS_TERM = ''NO_APPROVED_BUSINESS_TERM''"
| "bdd_blocker_code_value BB_AMBIGUOUS_APPROVED_BUSINESS_TERM = ''AMBIGUOUS_APPROVED_BUSINESS_TERM''"
| "bdd_blocker_code_value BB_MAPPING_NOT_EFFECTIVE = ''MAPPING_NOT_EFFECTIVE''"
| "bdd_blocker_code_value BB_MAPPING_REQUIREMENT_MISMATCH = ''MAPPING_REQUIREMENT_MISMATCH''"
| "bdd_blocker_code_value BB_MAPPING_KIND_SEMANTICS_INVALID = ''MAPPING_KIND_SEMANTICS_INVALID''"
| "bdd_blocker_code_value BB_NON_PROMOTABLE_MAPPING_KIND = ''NON_PROMOTABLE_MAPPING_KIND''"
| "bdd_blocker_code_value BB_PLACEHOLDER_BINDING_INVALID = ''PLACEHOLDER_BINDING_INVALID''"
| "bdd_blocker_code_value BB_MODALITY_NOT_APPROVED_BY_MAPPING = ''MODALITY_NOT_APPROVED_BY_MAPPING''"
| "bdd_blocker_code_value BB_NON_DEFINITIVE_EFFECT = ''NON_DEFINITIVE_EFFECT''"
| "bdd_blocker_code_value BB_EFFECT_CLOSURE_INSUFFICIENT = ''EFFECT_CLOSURE_INSUFFICIENT''"
| "bdd_blocker_code_value BB_DEPENDENCY_RESOLUTION_INCOMPLETE = ''DEPENDENCY_RESOLUTION_INCOMPLETE''"
| "bdd_blocker_code_value BB_TRACEABILITY_MANIFEST_FAILED = ''TRACEABILITY_MANIFEST_FAILED''"
| "bdd_blocker_code_value BB_GHERKIN_STRUCTURE_INVALID = ''GHERKIN_STRUCTURE_INVALID''"
| "bdd_blocker_code_value BB_COMPILATION_INTERNAL_ERROR = ''COMPILATION_INTERNAL_ERROR''"

datatype VocabularySlotKind =
  SK_FEATURE_TITLE | SK_SCENARIO_NAME | SK_ACTION | SK_PRECONDITION | SK_EFFECT

fun vocabulary_slot_kind_value :: "VocabularySlotKind \<Rightarrow> string" where
  "vocabulary_slot_kind_value SK_FEATURE_TITLE = ''FEATURE_TITLE''"
| "vocabulary_slot_kind_value SK_SCENARIO_NAME = ''SCENARIO_NAME''"
| "vocabulary_slot_kind_value SK_ACTION = ''ACTION''"
| "vocabulary_slot_kind_value SK_PRECONDITION = ''PRECONDITION''"
| "vocabulary_slot_kind_value SK_EFFECT = ''EFFECT''"

datatype AuthorityValidationIssueCode =
  AI_VOCABULARY_SNAPSHOT_DIGEST_INVALID | AI_CLASSIFICATION_SNAPSHOT_DIGEST_INVALID | AI_MAPPING_DIGEST_INVALID |
  AI_CLASSIFICATION_APPROVAL_DIGEST_INVALID | AI_AUTHORITY_SCOPE_MISMATCH | AI_DUPLICATE_MAPPING_ID |
  AI_DUPLICATE_APPROVAL_ID | AI_DUPLICATE_ACTIVE_MAPPING_BINDING | AI_DUPLICATE_CLASSIFICATION_APPROVAL |
  AI_NON_PROMOTABLE_PLATFORM_MAPPING | AI_MAPPING_KIND_SEMANTICS_INVALID | AI_INVALID_VALIDITY_INTERVAL |
  AI_MAPPING_NOT_EFFECTIVE_AT_SNAPSHOT | AI_APPROVAL_NOT_EFFECTIVE_AT_SNAPSHOT | AI_EMPTY_APPROVAL_REFERENCE |
  AI_EMPTY_MAPPING_EVIDENCE | AI_EMPTY_CLASSIFICATION_EVIDENCE

fun authority_validation_issue_code_value :: "AuthorityValidationIssueCode \<Rightarrow> string" where
  "authority_validation_issue_code_value AI_VOCABULARY_SNAPSHOT_DIGEST_INVALID = ''VOCABULARY_SNAPSHOT_DIGEST_INVALID''"
| "authority_validation_issue_code_value AI_CLASSIFICATION_SNAPSHOT_DIGEST_INVALID = ''CLASSIFICATION_SNAPSHOT_DIGEST_INVALID''"
| "authority_validation_issue_code_value AI_MAPPING_DIGEST_INVALID = ''MAPPING_DIGEST_INVALID''"
| "authority_validation_issue_code_value AI_CLASSIFICATION_APPROVAL_DIGEST_INVALID = ''CLASSIFICATION_APPROVAL_DIGEST_INVALID''"
| "authority_validation_issue_code_value AI_AUTHORITY_SCOPE_MISMATCH = ''AUTHORITY_SCOPE_MISMATCH''"
| "authority_validation_issue_code_value AI_DUPLICATE_MAPPING_ID = ''DUPLICATE_MAPPING_ID''"
| "authority_validation_issue_code_value AI_DUPLICATE_APPROVAL_ID = ''DUPLICATE_APPROVAL_ID''"
| "authority_validation_issue_code_value AI_DUPLICATE_ACTIVE_MAPPING_BINDING = ''DUPLICATE_ACTIVE_MAPPING_BINDING''"
| "authority_validation_issue_code_value AI_DUPLICATE_CLASSIFICATION_APPROVAL = ''DUPLICATE_CLASSIFICATION_APPROVAL''"
| "authority_validation_issue_code_value AI_NON_PROMOTABLE_PLATFORM_MAPPING = ''NON_PROMOTABLE_PLATFORM_MAPPING''"
| "authority_validation_issue_code_value AI_MAPPING_KIND_SEMANTICS_INVALID = ''MAPPING_KIND_SEMANTICS_INVALID''"
| "authority_validation_issue_code_value AI_INVALID_VALIDITY_INTERVAL = ''INVALID_VALIDITY_INTERVAL''"
| "authority_validation_issue_code_value AI_MAPPING_NOT_EFFECTIVE_AT_SNAPSHOT = ''MAPPING_NOT_EFFECTIVE_AT_SNAPSHOT''"
| "authority_validation_issue_code_value AI_APPROVAL_NOT_EFFECTIVE_AT_SNAPSHOT = ''APPROVAL_NOT_EFFECTIVE_AT_SNAPSHOT''"
| "authority_validation_issue_code_value AI_EMPTY_APPROVAL_REFERENCE = ''EMPTY_APPROVAL_REFERENCE''"
| "authority_validation_issue_code_value AI_EMPTY_MAPPING_EVIDENCE = ''EMPTY_MAPPING_EVIDENCE''"
| "authority_validation_issue_code_value AI_EMPTY_CLASSIFICATION_EVIDENCE = ''EMPTY_CLASSIFICATION_EVIDENCE''"

datatype AuthorityValidationStatus =
  AVS_VALID | AVS_INVALID

fun authority_validation_status_value :: "AuthorityValidationStatus \<Rightarrow> string" where
  "authority_validation_status_value AVS_VALID = ''VALID''"
| "authority_validation_status_value AVS_INVALID = ''INVALID''"

section \<open>Records and dumps\<close>

record ClassificationObservation =
  obs_classification_observation_id :: string
  obs_candidate :: string
  obs_method :: string
  obs_method_version :: string
  obs_ranking_score :: "string option"
  obs_score_semantics :: "string option"
  obs_classification_evidence_refs :: "string list"
  obs_authority_ref :: "string option"
  obs_authority_status :: ClassificationAuthorityStatus

definition dump_classification_observation :: "ClassificationObservation \<Rightarrow> pyval" where
  "dump_classification_observation m = PModel ''ClassificationObservation''
     [(''classification_observation_id'', PStr (obs_classification_observation_id m)),
     (''candidate'', PStr (obs_candidate m)), (''method'', PStr (obs_method m)),
     (''method_version'', PStr (obs_method_version m)),
     (''ranking_score'', (case obs_ranking_score m of None \<Rightarrow> PNone | Some r \<Rightarrow> PFloat (Some r))),
     (''score_semantics'', opt_str (obs_score_semantics m)),
     (''classification_evidence_refs'', str_tuple (obs_classification_evidence_refs m)),
     (''authority_ref'', opt_str (obs_authority_ref m)),
     (''authority_status'', PStrEnum (classification_authority_status_value (obs_authority_status m)))]"

record ScenarioAction =
  act_action_kind :: string
  act_procedure_identity_ref :: string
  act_invocation_contract_ref :: string
  act_action_scope_ref :: "string option"
  act_evidence_refs :: "string list"

definition dump_scenario_action :: "ScenarioAction \<Rightarrow> pyval" where
  "dump_scenario_action m = PModel ''ScenarioAction''
     [(''action_kind'', PStr (act_action_kind m)), (''procedure_identity_ref'', PStr (act_procedure_identity_ref m)),
     (''invocation_contract_ref'', PStr (act_invocation_contract_ref m)),
     (''action_scope_ref'', opt_str (act_action_scope_ref m)), (''evidence_refs'', str_tuple (act_evidence_refs m))]"

record ScenarioPrecondition =
  pre_precondition_id :: string
  pre_technical_fact_ref :: string
  pre_constraint_assessment_ref :: "string option"
  pre_classification_observation_ref :: "string option"
  pre_evidence_refs :: "string list"

definition dump_scenario_precondition :: "ScenarioPrecondition \<Rightarrow> pyval" where
  "dump_scenario_precondition m = PModel ''ScenarioPrecondition''
     [(''precondition_id'', PStr (pre_precondition_id m)), (''technical_fact_ref'', PStr (pre_technical_fact_ref m)),
     (''modality'', PStr ''MUST''), (''constraint_assessment_ref'', opt_str (pre_constraint_assessment_ref m)),
     (''classification_observation_ref'', opt_str (pre_classification_observation_ref m)),
     (''evidence_refs'', str_tuple (pre_evidence_refs m))]"

record ScenarioEffect =
  eff_effect_ref :: string
  eff_modality :: Runtime.EffectModality
  eff_evidence_refs :: "string list"
  eff_caller_transaction_contract_ref :: "string option"

definition dump_scenario_effect :: "ScenarioEffect \<Rightarrow> pyval" where
  "dump_scenario_effect m = PModel ''ScenarioEffect''
     [(''effect_ref'', PStr (eff_effect_ref m)), (''modality'', PStrEnum (effect_modality_value (eff_modality m))),
     (''evidence_refs'', str_tuple (eff_evidence_refs m)),
     (''caller_transaction_contract_ref'', opt_str (eff_caller_transaction_contract_ref m))]"

record EffectClosureArtifact =
  ecl_effect_closure_id :: string
  ecl_completeness :: EffectClosureCompleteness
  ecl_included_effect_refs :: "string list"
  ecl_unresolved_effect_refs :: "string list"
  ecl_evidence_refs :: "string list"
  ecl_content_digest :: string

definition dump_effect_closure_artifact :: "EffectClosureArtifact \<Rightarrow> pyval" where
  "dump_effect_closure_artifact m = PModel ''EffectClosureArtifact''
     [(''effect_closure_id'', PStr (ecl_effect_closure_id m)), (''scope'', PStr ''ANALYZED_DEPENDENCIES''),
     (''completeness'', PStrEnum (effect_closure_completeness_value (ecl_completeness m))),
     (''included_effect_refs'', str_tuple (ecl_included_effect_refs m)),
     (''unresolved_effect_refs'', str_tuple (ecl_unresolved_effect_refs m)),
     (''evidence_refs'', str_tuple (ecl_evidence_refs m)), (''content_digest'', PStr (ecl_content_digest m))]"

record ResolutionVectorArtifact =
  rv_resolution_vector_id :: string
  rv_routine_resolution :: ResolutionStatus
  rv_view_resolution :: ResolutionStatus
  rv_udf_resolution :: ResolutionStatus
  rv_trigger_resolution :: ResolutionStatus
  rv_constraint_resolution :: ResolutionStatus
  rv_dynamic_relation_resolution :: ResolutionStatus
  rv_evidence_refs :: "string list"
  rv_content_digest :: string

definition dump_resolution_vector_artifact :: "ResolutionVectorArtifact \<Rightarrow> pyval" where
  "dump_resolution_vector_artifact m = PModel ''ResolutionVectorArtifact''
     [(''resolution_vector_id'', PStr (rv_resolution_vector_id m)),
     (''routine_resolution'', PStrEnum (resolution_status_value (rv_routine_resolution m))),
     (''view_resolution'', PStrEnum (resolution_status_value (rv_view_resolution m))),
     (''udf_resolution'', PStrEnum (resolution_status_value (rv_udf_resolution m))),
     (''trigger_resolution'', PStrEnum (resolution_status_value (rv_trigger_resolution m))),
     (''constraint_resolution'', PStrEnum (resolution_status_value (rv_constraint_resolution m))),
     (''dynamic_relation_resolution'', PStrEnum (resolution_status_value (rv_dynamic_relation_resolution m))),
     (''evidence_refs'', str_tuple (rv_evidence_refs m)), (''content_digest'', PStr (rv_content_digest m))]"

record ScenarioCompilerBudgetReport =
  bud_budget_report_id :: string
  bud_configured_limits :: "(string \<times> int) list"
  bud_consumed :: "(string \<times> int) list"
  bud_exceeded_limits :: "string list"
  bud_analysis_result :: string
  bud_content_digest :: string

definition dump_scenario_compiler_budget_report :: "ScenarioCompilerBudgetReport \<Rightarrow> pyval" where
  "dump_scenario_compiler_budget_report m = PModel ''ScenarioCompilerBudgetReport''
     [(''budget_report_id'', PStr (bud_budget_report_id m)),
     (''configured_limits'', PDict (map (\<lambda>(k, n). (PStr k, PInt n)) (bud_configured_limits m))),
     (''consumed'', PDict (map (\<lambda>(k, n). (PStr k, PInt n)) (bud_consumed m))),
     (''exceeded_limits'', str_tuple (bud_exceeded_limits m)), (''reporting_integrity'', PStr ''COMPLETE''),
     (''analysis_result'', PStr (bud_analysis_result m)), (''content_digest'', PStr (bud_content_digest m))]"

record ScenarioSpec =
  spec_scenario_spec_id :: string
  spec_behavior_id :: string
  spec_source_symbol_id :: string
  spec_symbol_lineage_id :: string
  spec_procedure_identity_ref :: string
  spec_artifact_revision_id :: string
  spec_behavior_effect_bundle_ref :: string
  spec_behavior_slice_ref :: string
  spec_predicate_graph_ref :: "string option"
  spec_action :: ScenarioAction
  spec_preconditions :: "ScenarioPrecondition list"
  spec_expected_effects :: "ScenarioEffect list"
  spec_alternative_or_conditional_effects :: "ScenarioEffect list"
  spec_effect_closure_ref :: string
  spec_resolution_vector_ref :: string
  spec_summary_refs :: "string list"
  spec_ordered_decision_reduction_refs :: "string list"
  spec_caller_transaction_contract_refs :: "string list"
  spec_analysis_budget_report_ref :: string
  spec_finding_refs :: "string list"
  spec_evidence_refs :: "string list"
  spec_required_classification_slots :: "string list"
  spec_required_vocabulary_slots :: "string list"
  spec_platform_governance_ref :: "string option"
  spec_content_digest :: string

definition dump_scenario_spec :: "ScenarioSpec \<Rightarrow> pyval" where
  "dump_scenario_spec m = PModel ''ScenarioSpec''
     [(''scenario_spec_id'', PStr (spec_scenario_spec_id m)), (''schema_version'', PStr ''1.1''),
     (''behavior_id'', PStr (spec_behavior_id m)), (''source_symbol_id'', PStr (spec_source_symbol_id m)),
     (''symbol_lineage_id'', PStr (spec_symbol_lineage_id m)),
     (''procedure_identity_ref'', PStr (spec_procedure_identity_ref m)),
     (''artifact_revision_id'', PStr (spec_artifact_revision_id m)),
     (''behavior_effect_bundle_ref'', PStr (spec_behavior_effect_bundle_ref m)),
     (''behavior_slice_ref'', PStr (spec_behavior_slice_ref m)),
     (''predicate_graph_ref'', opt_str (spec_predicate_graph_ref m)),
     (''action'', dump_scenario_action (spec_action m)),
     (''preconditions'', PTuple (map dump_scenario_precondition (spec_preconditions m))),
     (''expected_effects'', PTuple (map dump_scenario_effect (spec_expected_effects m))),
     (''alternative_or_conditional_effects'', PTuple (map dump_scenario_effect (spec_alternative_or_conditional_effects m))),
     (''effect_closure_ref'', PStr (spec_effect_closure_ref m)),
     (''resolution_vector_ref'', PStr (spec_resolution_vector_ref m)),
     (''summary_refs'', str_tuple (spec_summary_refs m)),
     (''ordered_decision_reduction_refs'', str_tuple (spec_ordered_decision_reduction_refs m)),
     (''caller_transaction_contract_refs'', str_tuple (spec_caller_transaction_contract_refs m)),
     (''analysis_budget_report_ref'', PStr (spec_analysis_budget_report_ref m)),
     (''finding_refs'', str_tuple (spec_finding_refs m)), (''evidence_refs'', str_tuple (spec_evidence_refs m)),
     (''required_classification_slots'', str_tuple (spec_required_classification_slots m)),
     (''required_vocabulary_slots'', str_tuple (spec_required_vocabulary_slots m)),
     (''platform_governance_ref'', opt_str (spec_platform_governance_ref m)),
     (''created_by_compiler_version'', PStr ''scenario-compiler-1.5''),
     (''content_digest'', PStr (spec_content_digest m))]"

record ScenarioSpecCompilationResult =
  scr_compilation_status :: ScenarioCompilationStatus
  scr_behavior_effect_bundle_ref :: string
  scr_behavior_slice_ref :: "string option"
  scr_scenario_spec_ref :: "string option"
  scr_blockers :: "ScenarioBlockerCode list"
  scr_finding_refs :: "string list"
  scr_blocker_details :: "string list"
  scr_input_digest_set :: "string list"
  scr_compiler_configuration_digest :: string
  scr_output_digest :: "string option"

definition dump_scenario_spec_compilation_result :: "ScenarioSpecCompilationResult \<Rightarrow> pyval" where
  "dump_scenario_spec_compilation_result m = PModel ''ScenarioSpecCompilationResult''
     [(''compilation_status'', PStrEnum (scenario_compilation_status_value (scr_compilation_status m))),
     (''behavior_effect_bundle_ref'', PStr (scr_behavior_effect_bundle_ref m)),
     (''behavior_slice_ref'', opt_str (scr_behavior_slice_ref m)),
     (''scenario_spec_ref'', opt_str (scr_scenario_spec_ref m)),
     (''blockers'', PTuple (map (\<lambda>v. PStrEnum (scenario_blocker_code_value v)) (scr_blockers m))),
     (''finding_refs'', str_tuple (scr_finding_refs m)), (''blocker_details'', str_tuple (scr_blocker_details m)),
     (''input_digest_set'', str_tuple (scr_input_digest_set m)),
     (''compiler_version'', PStr ''scenario-compiler-1.5''),
     (''compiler_configuration_digest'', PStr (scr_compiler_configuration_digest m)),
     (''output_digest'', opt_str (scr_output_digest m))]"

record ScenarioSpecBatchResult =
  ssb_parser_result_digest :: string
  ssb_semantic_result_digest :: string
  ssb_procedure_identity_ref :: string
  ssb_source_symbol_id :: string
  ssb_symbol_lineage_id :: string
  ssb_classification_observations :: "ClassificationObservation list"
  ssb_effect_closures :: "EffectClosureArtifact list"
  ssb_resolution_vectors :: "ResolutionVectorArtifact list"
  ssb_budget_reports :: "ScenarioCompilerBudgetReport list"
  ssb_scenario_specs :: "ScenarioSpec list"
  ssb_compilation_results :: "ScenarioSpecCompilationResult list"
  ssb_content_digest :: string

definition dump_scenario_spec_batch_result :: "ScenarioSpecBatchResult \<Rightarrow> pyval" where
  "dump_scenario_spec_batch_result m = PModel ''ScenarioSpecBatchResult''
     [(''schema_version'', PStr ''scenario-spec-batch-0.1''),
     (''parser_result_digest'', PStr (ssb_parser_result_digest m)),
     (''semantic_result_digest'', PStr (ssb_semantic_result_digest m)),
     (''procedure_identity_ref'', PStr (ssb_procedure_identity_ref m)),
     (''source_symbol_id'', PStr (ssb_source_symbol_id m)), (''symbol_lineage_id'', PStr (ssb_symbol_lineage_id m)),
     (''classification_observations'', PTuple (map dump_classification_observation (ssb_classification_observations m))),
     (''effect_closures'', PTuple (map dump_effect_closure_artifact (ssb_effect_closures m))),
     (''resolution_vectors'', PTuple (map dump_resolution_vector_artifact (ssb_resolution_vectors m))),
     (''budget_reports'', PTuple (map dump_scenario_compiler_budget_report (ssb_budget_reports m))),
     (''scenario_specs'', PTuple (map dump_scenario_spec (ssb_scenario_specs m))),
     (''compilation_results'', PTuple (map dump_scenario_spec_compilation_result (ssb_compilation_results m))),
     (''content_digest'', PStr (ssb_content_digest m))]"

record PlaceholderContract =
  plc_placeholder :: string
  plc_required :: bool

definition dump_placeholder_contract :: "PlaceholderContract \<Rightarrow> pyval" where
  "dump_placeholder_contract m = PModel ''PlaceholderContract''
     [(''placeholder'', PStr (plc_placeholder m)), (''required'', PBool (plc_required m))]"

record VocabularyMapping =
  vm_mapping_id :: string
  vm_mapping_version :: string
  vm_mapping_kind :: MappingKind
  vm_normalized_technical_pattern_ref :: string
  vm_structural_context_digest :: "string option"
  vm_symbol_binding_refs :: "string list"
  vm_manual_requirement_ref :: "string option"
  vm_phrase_template :: string
  vm_placeholder_contract :: "PlaceholderContract list"
  vm_supported_modalities :: "Runtime.EffectModality list"
  vm_approval_ref :: string
  vm_authority_scope :: AuthorityScope
  vm_valid_from :: string
  vm_valid_to :: "string option"
  vm_evidence_refs :: "string list"
  vm_content_digest :: string

definition dump_vocabulary_mapping :: "VocabularyMapping \<Rightarrow> pyval" where
  "dump_vocabulary_mapping m = PModel ''VocabularyMapping''
     [(''mapping_id'', PStr (vm_mapping_id m)), (''mapping_version'', PStr (vm_mapping_version m)),
     (''mapping_kind'', PStrEnum (mapping_kind_value (vm_mapping_kind m))),
     (''normalized_technical_pattern_ref'', PStr (vm_normalized_technical_pattern_ref m)),
     (''structural_context_digest'', opt_str (vm_structural_context_digest m)),
     (''symbol_binding_refs'', str_tuple (vm_symbol_binding_refs m)),
     (''manual_requirement_ref'', opt_str (vm_manual_requirement_ref m)),
     (''phrase_template'', PStr (vm_phrase_template m)),
     (''placeholder_contract'', PTuple (map dump_placeholder_contract (vm_placeholder_contract m))),
     (''supported_modalities'', PTuple (map (\<lambda>v. PStrEnum (effect_modality_value v)) (vm_supported_modalities m))),
     (''approval_ref'', PStr (vm_approval_ref m)),
     (''authority_scope'', PStrEnum (authority_scope_value (vm_authority_scope m))),
     (''valid_from'', PStr (vm_valid_from m)), (''valid_to'', opt_str (vm_valid_to m)),
     (''evidence_refs'', str_tuple (vm_evidence_refs m)), (''content_digest'', PStr (vm_content_digest m))]"

record VocabularySnapshot =
  vs_snapshot_id :: string
  vs_registry_version :: string
  vs_effective_timestamp :: string
  vs_authority_scope :: AuthorityScope
  vs_mappings :: "VocabularyMapping list"
  vs_content_digest :: string

definition dump_vocabulary_snapshot :: "VocabularySnapshot \<Rightarrow> pyval" where
  "dump_vocabulary_snapshot m = PModel ''VocabularySnapshot''
     [(''schema_version'', PStr ''vocabulary-snapshot-1.1''), (''snapshot_id'', PStr (vs_snapshot_id m)),
     (''registry_version'', PStr (vs_registry_version m)),
     (''effective_timestamp'', PStr (vs_effective_timestamp m)),
     (''authority_scope'', PStrEnum (authority_scope_value (vs_authority_scope m))),
     (''mappings'', PTuple (map dump_vocabulary_mapping (vs_mappings m))),
     (''content_digest'', PStr (vs_content_digest m))]"

record ClassificationApproval =
  ca_approval_id :: string
  ca_classification_observation_ref :: string
  ca_classification_observation_digest :: string
  ca_approved_candidate :: string
  ca_approval_ref :: string
  ca_authority_scope :: AuthorityScope
  ca_valid_from :: string
  ca_valid_to :: "string option"
  ca_evidence_refs :: "string list"
  ca_content_digest :: string

definition dump_classification_approval :: "ClassificationApproval \<Rightarrow> pyval" where
  "dump_classification_approval m = PModel ''ClassificationApproval''
     [(''approval_id'', PStr (ca_approval_id m)),
     (''classification_observation_ref'', PStr (ca_classification_observation_ref m)),
     (''classification_observation_digest'', PStr (ca_classification_observation_digest m)),
     (''approved_candidate'', PStr (ca_approved_candidate m)), (''approval_ref'', PStr (ca_approval_ref m)),
     (''authority_scope'', PStrEnum (authority_scope_value (ca_authority_scope m))),
     (''valid_from'', PStr (ca_valid_from m)), (''valid_to'', opt_str (ca_valid_to m)),
     (''evidence_refs'', str_tuple (ca_evidence_refs m)), (''content_digest'', PStr (ca_content_digest m))]"

record ClassificationSnapshot =
  cls_snapshot_id :: string
  cls_registry_version :: string
  cls_effective_timestamp :: string
  cls_authority_scope :: AuthorityScope
  cls_approvals :: "ClassificationApproval list"
  cls_content_digest :: string

definition dump_classification_snapshot :: "ClassificationSnapshot \<Rightarrow> pyval" where
  "dump_classification_snapshot m = PModel ''ClassificationSnapshot''
     [(''schema_version'', PStr ''classification-snapshot-1.1''), (''snapshot_id'', PStr (cls_snapshot_id m)),
     (''registry_version'', PStr (cls_registry_version m)),
     (''effective_timestamp'', PStr (cls_effective_timestamp m)),
     (''authority_scope'', PStrEnum (authority_scope_value (cls_authority_scope m))),
     (''approvals'', PTuple (map dump_classification_approval (cls_approvals m))),
     (''content_digest'', PStr (cls_content_digest m))]"

record GherkinArtifact =
  ga_artifact_id :: string
  ga_behavior_id :: string
  ga_source_symbol_id :: string
  ga_symbol_lineage_id :: string
  ga_artifact_revision_id :: string
  ga_text :: string
  ga_content_digest :: string

definition dump_gherkin_artifact :: "GherkinArtifact \<Rightarrow> pyval" where
  "dump_gherkin_artifact m = PModel ''GherkinArtifact''
     [(''artifact_id'', PStr (ga_artifact_id m)), (''behavior_id'', PStr (ga_behavior_id m)),
     (''source_symbol_id'', PStr (ga_source_symbol_id m)), (''symbol_lineage_id'', PStr (ga_symbol_lineage_id m)),
     (''artifact_revision_id'', PStr (ga_artifact_revision_id m)), (''dialect'', PStr ''en''),
     (''text'', PStr (ga_text m)), (''content_digest'', PStr (ga_content_digest m))]"

record GherkinElementBinding =
  geb_element_id :: string
  geb_element_kind :: string
  geb_scenario_spec_element_refs :: "string list"
  geb_authority_requirement_ref :: string
  geb_mapping_ref :: string
  geb_effect_or_precondition_refs :: "string list"
  geb_evidence_refs :: "string list"

definition dump_gherkin_element_binding :: "GherkinElementBinding \<Rightarrow> pyval" where
  "dump_gherkin_element_binding m = PModel ''GherkinElementBinding''
     [(''element_id'', PStr (geb_element_id m)), (''element_kind'', PStr (geb_element_kind m)),
     (''scenario_spec_element_refs'', str_tuple (geb_scenario_spec_element_refs m)),
     (''authority_requirement_ref'', PStr (geb_authority_requirement_ref m)),
     (''mapping_ref'', PStr (geb_mapping_ref m)),
     (''effect_or_precondition_refs'', str_tuple (geb_effect_or_precondition_refs m)),
     (''evidence_refs'', str_tuple (geb_evidence_refs m))]"

record TraceabilityManifest =
  tm_manifest_id :: string
  tm_behavior_id :: string
  tm_source_symbol_id :: string
  tm_symbol_lineage_id :: string
  tm_artifact_revision_id :: string
  tm_scenario_spec_ref :: string
  tm_gherkin_artifact_ref :: string
  tm_element_bindings :: "GherkinElementBinding list"
  tm_input_digest_set :: "string list"
  tm_content_digest :: string

definition dump_traceability_manifest :: "TraceabilityManifest \<Rightarrow> pyval" where
  "dump_traceability_manifest m = PModel ''TraceabilityManifest''
     [(''manifest_id'', PStr (tm_manifest_id m)), (''behavior_id'', PStr (tm_behavior_id m)),
     (''source_symbol_id'', PStr (tm_source_symbol_id m)), (''symbol_lineage_id'', PStr (tm_symbol_lineage_id m)),
     (''artifact_revision_id'', PStr (tm_artifact_revision_id m)),
     (''scenario_spec_ref'', PStr (tm_scenario_spec_ref m)),
     (''gherkin_artifact_ref'', PStr (tm_gherkin_artifact_ref m)),
     (''element_bindings'', PTuple (map dump_gherkin_element_binding (tm_element_bindings m))),
     (''input_digest_set'', str_tuple (tm_input_digest_set m)), (''content_digest'', PStr (tm_content_digest m))]"

record CandidateBdd =
  cb_candidate_bdd_id :: string
  cb_behavior_id :: string
  cb_source_symbol_id :: string
  cb_symbol_lineage_id :: string
  cb_artifact_revision_id :: string
  cb_scenario_spec_ref :: string
  cb_gherkin_artifact_ref :: string
  cb_traceability_manifest_ref :: string
  cb_authority_requirements_digest :: string
  cb_vocabulary_snapshot_digest :: string
  cb_classification_snapshot_digest :: string
  cb_authority_scope :: AuthorityScope
  cb_platform_governance_ref :: "string option"
  cb_content_digest :: string

definition dump_candidate_bdd :: "CandidateBdd \<Rightarrow> pyval" where
  "dump_candidate_bdd m = PModel ''CandidateBdd''
     [(''candidate_bdd_id'', PStr (cb_candidate_bdd_id m)), (''schema_version'', PStr ''candidate-bdd-1.2''),
     (''behavior_id'', PStr (cb_behavior_id m)), (''source_symbol_id'', PStr (cb_source_symbol_id m)),
     (''symbol_lineage_id'', PStr (cb_symbol_lineage_id m)),
     (''artifact_revision_id'', PStr (cb_artifact_revision_id m)),
     (''scenario_spec_ref'', PStr (cb_scenario_spec_ref m)),
     (''gherkin_artifact_ref'', PStr (cb_gherkin_artifact_ref m)),
     (''traceability_manifest_ref'', PStr (cb_traceability_manifest_ref m)),
     (''authority_requirements_digest'', PStr (cb_authority_requirements_digest m)),
     (''vocabulary_snapshot_digest'', PStr (cb_vocabulary_snapshot_digest m)),
     (''classification_snapshot_digest'', PStr (cb_classification_snapshot_digest m)),
     (''compiler_version'', PStr ''bdd-compiler-1.4''),
     (''authority_scope'', PStrEnum (authority_scope_value (cb_authority_scope m))),
     (''platform_governance_ref'', opt_str (cb_platform_governance_ref m)),
     (''content_digest'', PStr (cb_content_digest m))]"

record BddCompilationResult =
  bcr_compilation_status :: BddCompilationStatus
  bcr_scenario_spec_ref :: string
  bcr_candidate_bdd_ref :: "string option"
  bcr_blockers :: "BddBlockerCode list"
  bcr_mapping_refs :: "string list"
  bcr_classification_approval_refs :: "string list"
  bcr_finding_refs :: "string list"
  bcr_input_scenario_spec_digest :: string
  bcr_authority_requirements_digest :: string
  bcr_vocabulary_snapshot_digest :: string
  bcr_classification_snapshot_digest :: string
  bcr_compiler_configuration_digest :: string
  bcr_effective_timestamp :: string
  bcr_output_digest :: "string option"

definition dump_bdd_compilation_result :: "BddCompilationResult \<Rightarrow> pyval" where
  "dump_bdd_compilation_result m = PModel ''BddCompilationResult''
     [(''compilation_status'', PStrEnum (bdd_compilation_status_value (bcr_compilation_status m))),
     (''scenario_spec_ref'', PStr (bcr_scenario_spec_ref m)),
     (''candidate_bdd_ref'', opt_str (bcr_candidate_bdd_ref m)),
     (''blockers'', PTuple (map (\<lambda>v. PStrEnum (bdd_blocker_code_value v)) (bcr_blockers m))),
     (''mapping_refs'', str_tuple (bcr_mapping_refs m)),
     (''classification_approval_refs'', str_tuple (bcr_classification_approval_refs m)),
     (''finding_refs'', str_tuple (bcr_finding_refs m)),
     (''input_scenario_spec_digest'', PStr (bcr_input_scenario_spec_digest m)),
     (''authority_requirements_digest'', PStr (bcr_authority_requirements_digest m)),
     (''vocabulary_snapshot_digest'', PStr (bcr_vocabulary_snapshot_digest m)),
     (''classification_snapshot_digest'', PStr (bcr_classification_snapshot_digest m)),
     (''compiler_version'', PStr ''bdd-compiler-1.4''),
     (''compiler_configuration_digest'', PStr (bcr_compiler_configuration_digest m)),
     (''effective_timestamp'', PStr (bcr_effective_timestamp m)), (''output_digest'', opt_str (bcr_output_digest m))]"

record BddCompilationBatch =
  bcb_scenario_spec_batch_digest :: string
  bcb_authority_requirements_ref :: string
  bcb_authority_requirements_digest :: string
  bcb_vocabulary_snapshot_ref :: string
  bcb_vocabulary_snapshot_digest :: string
  bcb_classification_snapshot_ref :: string
  bcb_classification_snapshot_digest :: string
  bcb_authority_scope :: AuthorityScope
  bcb_gherkin_artifacts :: "GherkinArtifact list"
  bcb_traceability_manifests :: "TraceabilityManifest list"
  bcb_candidate_bdds :: "CandidateBdd list"
  bcb_compilation_results :: "BddCompilationResult list"
  bcb_content_digest :: string

definition dump_bdd_compilation_batch :: "BddCompilationBatch \<Rightarrow> pyval" where
  "dump_bdd_compilation_batch m = PModel ''BddCompilationBatch''
     [(''schema_version'', PStr ''bdd-compilation-batch-1.1''),
     (''scenario_spec_batch_digest'', PStr (bcb_scenario_spec_batch_digest m)),
     (''authority_requirements_ref'', PStr (bcb_authority_requirements_ref m)),
     (''authority_requirements_digest'', PStr (bcb_authority_requirements_digest m)),
     (''vocabulary_snapshot_ref'', PStr (bcb_vocabulary_snapshot_ref m)),
     (''vocabulary_snapshot_digest'', PStr (bcb_vocabulary_snapshot_digest m)),
     (''classification_snapshot_ref'', PStr (bcb_classification_snapshot_ref m)),
     (''classification_snapshot_digest'', PStr (bcb_classification_snapshot_digest m)),
     (''authority_scope'', PStrEnum (authority_scope_value (bcb_authority_scope m))),
     (''gherkin_artifacts'', PTuple (map dump_gherkin_artifact (bcb_gherkin_artifacts m))),
     (''traceability_manifests'', PTuple (map dump_traceability_manifest (bcb_traceability_manifests m))),
     (''candidate_bdds'', PTuple (map dump_candidate_bdd (bcb_candidate_bdds m))),
     (''compilation_results'', PTuple (map dump_bdd_compilation_result (bcb_compilation_results m))),
     (''content_digest'', PStr (bcb_content_digest m))]"

record PlaceholderValue =
  plv_placeholder :: string
  plv_value :: string

definition dump_placeholder_value :: "PlaceholderValue \<Rightarrow> pyval" where
  "dump_placeholder_value m = PModel ''PlaceholderValue''
     [(''placeholder'', PStr (plv_placeholder m)), (''value'', PStr (plv_value m))]"

record VocabularyRequirement =
  vreq_requirement_id :: string
  vreq_scenario_spec_ref :: string
  vreq_slot_id :: string
  vreq_slot_kind :: VocabularySlotKind
  vreq_source_ref :: string
  vreq_normalized_technical_pattern_ref :: string
  vreq_structural_context_digest :: string
  vreq_symbol_binding_refs :: "string list"
  vreq_placeholder_values :: "PlaceholderValue list"
  vreq_required_modality :: "Runtime.EffectModality option"
  vreq_evidence_refs :: "string list"

definition dump_vocabulary_requirement :: "VocabularyRequirement \<Rightarrow> pyval" where
  "dump_vocabulary_requirement m = PModel ''VocabularyRequirement''
     [(''requirement_id'', PStr (vreq_requirement_id m)), (''scenario_spec_ref'', PStr (vreq_scenario_spec_ref m)),
     (''slot_id'', PStr (vreq_slot_id m)), (''slot_kind'', PStrEnum (vocabulary_slot_kind_value (vreq_slot_kind m))),
     (''source_ref'', PStr (vreq_source_ref m)),
     (''normalized_technical_pattern_ref'', PStr (vreq_normalized_technical_pattern_ref m)),
     (''structural_context_digest'', PStr (vreq_structural_context_digest m)),
     (''symbol_binding_refs'', str_tuple (vreq_symbol_binding_refs m)),
     (''placeholder_values'', PTuple (map dump_placeholder_value (vreq_placeholder_values m))),
     (''required_modality'', (case vreq_required_modality m of None \<Rightarrow> PNone | Some v \<Rightarrow> PStrEnum (effect_modality_value v))),
     (''evidence_refs'', str_tuple (vreq_evidence_refs m))]"

record ClassificationRequirement =
  creq_requirement_id :: string
  creq_scenario_spec_refs :: "string list"
  creq_classification_observation_ref :: string
  creq_classification_observation_digest :: string
  creq_candidate :: string
  creq_method :: string
  creq_method_version :: string
  creq_classification_evidence_refs :: "string list"

definition dump_classification_requirement :: "ClassificationRequirement \<Rightarrow> pyval" where
  "dump_classification_requirement m = PModel ''ClassificationRequirement''
     [(''requirement_id'', PStr (creq_requirement_id m)),
     (''scenario_spec_refs'', str_tuple (creq_scenario_spec_refs m)),
     (''classification_observation_ref'', PStr (creq_classification_observation_ref m)),
     (''classification_observation_digest'', PStr (creq_classification_observation_digest m)),
     (''candidate'', PStr (creq_candidate m)), (''method'', PStr (creq_method m)),
     (''method_version'', PStr (creq_method_version m)),
     (''classification_evidence_refs'', str_tuple (creq_classification_evidence_refs m))]"

record AuthorityRequirementsManifest =
  arm_manifest_id :: string
  arm_scenario_spec_batch_digest :: string
  arm_procedure_identity_ref :: string
  arm_vocabulary_requirements :: "VocabularyRequirement list"
  arm_classification_requirements :: "ClassificationRequirement list"
  arm_content_digest :: string

definition dump_authority_requirements_manifest :: "AuthorityRequirementsManifest \<Rightarrow> pyval" where
  "dump_authority_requirements_manifest m = PModel ''AuthorityRequirementsManifest''
     [(''schema_version'', PStr ''authority-requirements-1.1''), (''manifest_id'', PStr (arm_manifest_id m)),
     (''scenario_spec_batch_digest'', PStr (arm_scenario_spec_batch_digest m)),
     (''procedure_identity_ref'', PStr (arm_procedure_identity_ref m)),
     (''required_authority_scope'', PStr ''PLATFORM''),
     (''vocabulary_requirements'', PTuple (map dump_vocabulary_requirement (arm_vocabulary_requirements m))),
     (''classification_requirements'', PTuple (map dump_classification_requirement (arm_classification_requirements m))),
     (''content_digest'', PStr (arm_content_digest m))]"

record AuthorityValidationIssue =
  avi_code :: AuthorityValidationIssueCode
  avi_artifact_ref :: string
  avi_message :: string

definition dump_authority_validation_issue :: "AuthorityValidationIssue \<Rightarrow> pyval" where
  "dump_authority_validation_issue m = PModel ''AuthorityValidationIssue''
     [(''code'', PStrEnum (authority_validation_issue_code_value (avi_code m))),
     (''artifact_ref'', PStr (avi_artifact_ref m)), (''message'', PStr (avi_message m))]"

record AuthoritySnapshotValidationResult =
  asv_validation_status :: AuthorityValidationStatus
  asv_vocabulary_snapshot_ref :: string
  asv_vocabulary_snapshot_digest :: string
  asv_classification_snapshot_ref :: string
  asv_classification_snapshot_digest :: string
  asv_authority_scope :: "AuthorityScope option"
  asv_issues :: "AuthorityValidationIssue list"
  asv_content_digest :: string

definition dump_authority_snapshot_validation_result :: "AuthoritySnapshotValidationResult \<Rightarrow> pyval" where
  "dump_authority_snapshot_validation_result m = PModel ''AuthoritySnapshotValidationResult''
     [(''schema_version'', PStr ''authority-validation-1.1''),
     (''validation_status'', PStrEnum (authority_validation_status_value (asv_validation_status m))),
     (''vocabulary_snapshot_ref'', PStr (asv_vocabulary_snapshot_ref m)),
     (''vocabulary_snapshot_digest'', PStr (asv_vocabulary_snapshot_digest m)),
     (''classification_snapshot_ref'', PStr (asv_classification_snapshot_ref m)),
     (''classification_snapshot_digest'', PStr (asv_classification_snapshot_digest m)),
     (''authority_scope'', (case asv_authority_scope m of None \<Rightarrow> PNone | Some v \<Rightarrow> PStrEnum (authority_scope_value v))),
     (''issues'', PTuple (map dump_authority_validation_issue (asv_issues m))),
     (''content_digest'', PStr (asv_content_digest m))]"

end
