(* ===== verification/Authority.thy ===== *)
theory Authority
  imports BddModels
begin

text \<open>
  Authority requirements and snapshot validation: \<open>bdd/authority.py\<close> and the validators of the
  snapshot models in \<open>bdd/models.py\<close>. The exporter derives from a scenario batch the vocabulary and
  classification requirements an authority has to answer; the validator decides whether a pair of
  snapshots is admissible. SHA-256 is the parameter \<open>sha\<close>. The theorems characterize the verdict of the validator
  by the admissibility of the snapshots, and the exported requirements by the slots of the scenarios.
\<close>

section \<open>Digests and identifiers\<close>

definition digest_text :: "(string \<Rightarrow> string) \<Rightarrow> pyval \<Rightarrow> string" where
  "digest_text sha v = (case core_digest sha v of Inl _ \<Rightarrow> [] | Inr d \<Rightarrow> d)"

definition without_digest :: "pyval \<Rightarrow> pyval" where
  "without_digest m =
     (case m of PModel c fs \<Rightarrow> PModel c (filter (\<lambda>kv. fst kv \<noteq> ''content_digest'') fs) | v \<Rightarrow> v)"

definition digest_valid :: "(string \<Rightarrow> string) \<Rightarrow> pyval \<Rightarrow> string \<Rightarrow> bool" where
  "digest_valid sha m d = (core_digest sha (without_digest m) = Inr d)"

definition stable_id :: "(string \<Rightarrow> string) \<Rightarrow> string \<Rightarrow> string list \<Rightarrow> string" where
  "stable_id sha pre parts = pre @ ''-'' @ take 20 (sha (py_join ''|'' parts))"

definition str_dict :: "(string \<times> pyval) list \<Rightarrow> pyval" where
  "str_dict kvs = PDict (map (\<lambda>(k, v). (PStr k, v)) kvs)"

section \<open>Digests never fail\<close>

text \<open>
  A value built of the types the models use, with distinct field names: its projection succeeds, so its digest exists.
\<close>

fun plain :: "pyval \<Rightarrow> bool" where
  "plain (PEnum v) = plain v"
| "plain (PModel c fs) = (distinct (map fst fs) \<and> (\<forall>kv \<in> set fs. plain (snd kv)))"
| "plain (PTuple vs) = (\<forall>v \<in> set vs. plain v)"
| "plain (PList vs) = (\<forall>v \<in> set vs. plain v)"
| "plain (PDict kvs) = (distinct (map fst kvs) \<and> (\<forall>kv \<in> set kvs. (\<exists>s. fst kv = PStr s) \<and> plain (snd kv)))"
| "plain (PFloat r) = (r \<noteq> None)"
| "plain v = (v = PNone \<or> (\<exists>b. v = PBool b) \<or> (\<exists>n. v = PInt n) \<or> (\<exists>s. v = PStr s) \<or> (\<exists>s. v = PStrEnum s))"

lemma put_items_total:
  assumes "\<forall>kv \<in> set fs. \<exists>j. f (snd kv) = Inr j" "distinct (map fst acc @ map fst fs)"
  shows "\<exists>kvs. put_items acc (map (\<lambda>(k, v). (PStr k, f v)) fs) = Inr kvs"
  using assms
proof (induction fs arbitrary: acc)
  case (Cons kv fs)
  obtain j where "f (snd kv) = Inr j" using Cons.prems(1) by auto
  then show ?case using Cons.IH [of "acc @ [(fst kv, j)]"] Cons.prems by (auto simp: case_prod_beta)
qed simp

lemma put_dict_total:
  assumes "\<forall>kv \<in> set kvs. (\<exists>s. fst kv = PStr s) \<and> (\<exists>j. f (snd kv) = Inr j)" "distinct (map fst kvs)"
  shows "\<exists>js. put_items [] (map (\<lambda>(k, v). (k, f v)) kvs) = Inr js"
proof -
  define fs where "fs = map (\<lambda>kv. ((THE s. fst kv = PStr s), snd kv)) kvs"
  have kv: "PStr (THE s. fst kv = PStr s) = fst kv" if "kv \<in> set kvs" for kv using that assms(1) by fastforce
  then have kvs: "map (\<lambda>(k, v). (k, f v)) kvs = map (\<lambda>(k, v). (PStr k, f v)) fs"
    by (auto simp: fs_def case_prod_beta)
  have "map PStr (map fst fs) = map fst kvs" using kv by (simp add: fs_def comp_def)
  then have "distinct (map fst fs)" using assms(2) by (metis distinct_map)
  then show ?thesis unfolding kvs using assms(1) by (intro put_items_total) (auto simp: fs_def)
qed

lemma plain_projects: "plain v \<Longrightarrow> \<exists>j. py_project v = Inr j"
proof (induction v rule: plain.induct)
  case (2 c fs)
  then obtain kvs where "put_items [] (map (\<lambda>(k, v). (PStr k, py_project v)) fs) = Inr kvs"
    using put_items_total [of fs py_project "[]"] by auto
  then show ?case by simp
next
  case (3 vs)
  then obtain js where "seq_results (map py_project vs) = Inr js" using seq_results_exists [of "map py_project vs"] by auto
  then show ?case by simp
next
  case (4 vs)
  then obtain js where "seq_results (map py_project vs) = Inr js" using seq_results_exists [of "map py_project vs"] by auto
  then show ?case by simp
next
  case (5 kvs)
  then obtain js where "put_items [] (map (\<lambda>(k, v). (k, py_project v)) kvs) = Inr js"
    using put_dict_total [of kvs py_project] by auto
  then show ?case by simp
qed auto

lemma plain_without_digest: "plain v \<Longrightarrow> plain (without_digest v)"
  by (cases v) (auto simp: without_digest_def distinct_map_filter)

lemma plain_leaf [simp]: "plain (opt_str v)" "plain (str_tuple ss)"
  by (simp_all add: opt_str_def str_tuple_def split: option.splits)

lemma plain_classification_observation [simp]: "plain (dump_classification_observation m)"
  by (simp add: dump_classification_observation_def split: option.splits)

lemma plain_scenario_action [simp]: "plain (dump_scenario_action m)"
  by (simp add: dump_scenario_action_def)

lemma plain_scenario_precondition [simp]: "plain (dump_scenario_precondition m)"
  by (simp add: dump_scenario_precondition_def)

lemma plain_scenario_effect [simp]: "plain (dump_scenario_effect m)"
  by (simp add: dump_scenario_effect_def)

lemma plain_effect_closure_artifact [simp]: "plain (dump_effect_closure_artifact m)"
  by (simp add: dump_effect_closure_artifact_def)

lemma plain_resolution_vector_artifact [simp]: "plain (dump_resolution_vector_artifact m)"
  by (simp add: dump_resolution_vector_artifact_def)

lemma plain_scenario_compiler_budget_report [simp]:
  "distinct (map fst (bud_configured_limits m)) \<Longrightarrow> distinct (map fst (bud_consumed m))
   \<Longrightarrow> plain (dump_scenario_compiler_budget_report m)"
  by (auto simp: dump_scenario_compiler_budget_report_def comp_def case_prod_beta distinct_map inj_on_def)

lemma plain_scenario_spec [simp]: "plain (dump_scenario_spec m)"
  by (simp add: dump_scenario_spec_def)

lemma plain_scenario_spec_compilation_result [simp]: "plain (dump_scenario_spec_compilation_result m)"
  by (simp add: dump_scenario_spec_compilation_result_def)

lemma plain_scenario_spec_batch_result [simp]:
  "\<forall>g \<in> set (ssb_budget_reports m). distinct (map fst (bud_configured_limits g)) \<and> distinct (map fst (bud_consumed g))
   \<Longrightarrow> plain (dump_scenario_spec_batch_result m)"
  by (simp add: dump_scenario_spec_batch_result_def)

lemma plain_placeholder_contract [simp]: "plain (dump_placeholder_contract m)"
  by (simp add: dump_placeholder_contract_def)

lemma plain_vocabulary_mapping [simp]: "plain (dump_vocabulary_mapping m)"
  by (simp add: dump_vocabulary_mapping_def)

lemma plain_vocabulary_snapshot [simp]: "plain (dump_vocabulary_snapshot m)"
  by (simp add: dump_vocabulary_snapshot_def)

lemma plain_classification_approval [simp]: "plain (dump_classification_approval m)"
  by (simp add: dump_classification_approval_def)

lemma plain_classification_snapshot [simp]: "plain (dump_classification_snapshot m)"
  by (simp add: dump_classification_snapshot_def)

lemma plain_gherkin_artifact [simp]: "plain (dump_gherkin_artifact m)"
  by (simp add: dump_gherkin_artifact_def)

lemma plain_gherkin_element_binding [simp]: "plain (dump_gherkin_element_binding m)"
  by (simp add: dump_gherkin_element_binding_def)

lemma plain_traceability_manifest [simp]: "plain (dump_traceability_manifest m)"
  by (simp add: dump_traceability_manifest_def)

lemma plain_candidate_bdd [simp]: "plain (dump_candidate_bdd m)"
  by (simp add: dump_candidate_bdd_def)

lemma plain_bdd_compilation_result [simp]: "plain (dump_bdd_compilation_result m)"
  by (simp add: dump_bdd_compilation_result_def)

lemma plain_bdd_compilation_batch [simp]: "plain (dump_bdd_compilation_batch m)"
  by (simp add: dump_bdd_compilation_batch_def)

lemma plain_placeholder_value [simp]: "plain (dump_placeholder_value m)"
  by (simp add: dump_placeholder_value_def)

lemma plain_vocabulary_requirement [simp]: "plain (dump_vocabulary_requirement m)"
  by (simp add: dump_vocabulary_requirement_def split: option.splits)

lemma plain_classification_requirement [simp]: "plain (dump_classification_requirement m)"
  by (simp add: dump_classification_requirement_def)

lemma plain_authority_requirements_manifest [simp]: "plain (dump_authority_requirements_manifest m)"
  by (simp add: dump_authority_requirements_manifest_def)

lemma plain_authority_validation_issue [simp]: "plain (dump_authority_validation_issue m)"
  by (simp add: dump_authority_validation_issue_def)

lemma plain_authority_snapshot_validation_result [simp]: "plain (dump_authority_snapshot_validation_result m)"
  by (simp add: dump_authority_snapshot_validation_result_def split: option.splits)

text \<open>A digest computed from the content of a model is the one its check expects.\<close>

lemma digest_of_plain: "plain v \<Longrightarrow> core_digest sha v = Inr (digest_text sha v)"
  using plain_projects [of v] by (auto simp: digest_text_def core_digest_def canonical_json_bytes_def)

lemma fresh_digest_valid:
  "plain m \<Longrightarrow> digest_valid sha m (digest_text sha (without_digest m))"
  by (simp add: digest_valid_def digest_of_plain plain_without_digest)

section \<open>Requirements\<close>

datatype export_error = EXPORT_KEY_ERROR string

text \<open>A dictionary built by a comprehension: the last value of a key wins, at the place of the first.\<close>

definition dict_of :: "('k \<times> 'v) list \<Rightarrow> ('k \<times> 'v) list" where
  "dict_of kvs = foldl (\<lambda>d kv. dict_set (fst kv) (snd kv) d) [] kvs"

definition lookup_key :: "(string \<times> 'v) list \<Rightarrow> string \<Rightarrow> export_error + 'v" where
  "lookup_key d k = (case map_of d k of None \<Rightarrow> Inl (EXPORT_KEY_ERROR k) | Some v \<Rightarrow> Inr v)"

text \<open>\<open>slot.rsplit(":", 1)[-1]\<close>.\<close>

definition after_last_colon :: "string \<Rightarrow> string" where
  "after_last_colon s = rev (takeWhile (\<lambda>c. c \<noteq> CHR '':'') (rev s))"

definition spec_effects :: "ScenarioSpec \<Rightarrow> ScenarioEffect list" where
  "spec_effects s = spec_expected_effects s @ spec_alternative_or_conditional_effects s"

text \<open>The slot, its kind, its source, the modality of an effect, and the evidence.\<close>

record slot_definition =
  sd_slot :: string
  sd_kind :: VocabularySlotKind
  sd_source_ref :: string
  sd_modality :: "Runtime.EffectModality option"
  sd_evidence_refs :: "string list"

definition fixed_slots :: "ScenarioSpec \<Rightarrow> slot_definition list" where
  "fixed_slots s =
     [\<lparr>sd_slot = spec_scenario_spec_id s @ '':FEATURE_TITLE'', sd_kind = SK_FEATURE_TITLE,
       sd_source_ref = spec_procedure_identity_ref s, sd_modality = None, sd_evidence_refs = spec_evidence_refs s\<rparr>,
      \<lparr>sd_slot = spec_scenario_spec_id s @ '':SCENARIO_NAME'', sd_kind = SK_SCENARIO_NAME,
       sd_source_ref = spec_scenario_spec_id s, sd_modality = None, sd_evidence_refs = spec_evidence_refs s\<rparr>,
      \<lparr>sd_slot = spec_scenario_spec_id s @ '':ACTION'', sd_kind = SK_ACTION,
       sd_source_ref = act_action_kind (spec_action s) @ '':'' @
         (case act_action_scope_ref (spec_action s) of
            Some r \<Rightarrow> if r = [] then act_procedure_identity_ref (spec_action s) else r
          | None \<Rightarrow> act_procedure_identity_ref (spec_action s)),
       sd_modality = None, sd_evidence_refs = act_evidence_refs (spec_action s)\<rparr>]"

definition required_slot :: "ScenarioSpec \<Rightarrow> string \<Rightarrow> export_error + slot_definition list" where
  "required_slot s slot =
     (if py_in '':PRECONDITION:'' slot then
        bindE (lookup_key (dict_of (map (\<lambda>p. (pre_precondition_id p, p)) (spec_preconditions s))) (after_last_colon slot)) (\<lambda>p.
        Inr [\<lparr>sd_slot = slot, sd_kind = SK_PRECONDITION, sd_source_ref = pre_technical_fact_ref p, sd_modality = None,
              sd_evidence_refs = pre_evidence_refs p\<rparr>])
      else if py_in '':EFFECT:'' slot then
        bindE (lookup_key (dict_of (map (\<lambda>e. (eff_effect_ref e, e)) (spec_effects s))) (after_last_colon slot)) (\<lambda>e.
        Inr [\<lparr>sd_slot = slot, sd_kind = SK_EFFECT, sd_source_ref = eff_effect_ref e, sd_modality = Some (eff_modality e),
              sd_evidence_refs = spec_evidence_refs s\<rparr>])
      else Inr [])"

definition slot_definitions :: "ScenarioSpec \<Rightarrow> export_error + slot_definition list" where
  "slot_definitions s =
     map_sum id (\<lambda>dss. fixed_slots s @ concat dss) (seq_results (map (required_slot s) (spec_required_vocabulary_slots s)))"

definition vocabulary_requirement :: "(string \<Rightarrow> string) \<Rightarrow> ScenarioSpec \<Rightarrow> slot_definition \<Rightarrow> VocabularyRequirement" where
  "vocabulary_requirement sha s d =
     \<lparr>vreq_requirement_id = stable_id sha ''vocabulary-requirement''
        [spec_scenario_spec_id s, vocabulary_slot_kind_value (sd_kind d), sd_source_ref d],
      vreq_scenario_spec_ref = spec_scenario_spec_id s, vreq_slot_id = sd_slot d, vreq_slot_kind = sd_kind d,
      vreq_source_ref = sd_source_ref d,
      vreq_normalized_technical_pattern_ref = stable_id sha ''technical-pattern''
        [vocabulary_slot_kind_value (sd_kind d), sd_source_ref d],
      vreq_structural_context_digest = digest_text sha (str_dict
        [(''slot_kind'', PStr (vocabulary_slot_kind_value (sd_kind d))), (''source_ref'', PStr (sd_source_ref d)),
         (''modality'', opt_str (map_option effect_modality_value (sd_modality d)))]),
      vreq_symbol_binding_refs = [sd_source_ref d], vreq_placeholder_values = [],
      vreq_required_modality = sd_modality d, vreq_evidence_refs = sort (sd_evidence_refs d)\<rparr>"

definition vocabulary_requirements :: "(string \<Rightarrow> string) \<Rightarrow> ScenarioSpec \<Rightarrow> export_error + VocabularyRequirement list" where
  "vocabulary_requirements sha s = map_sum id (map (vocabulary_requirement sha s)) (slot_definitions s)"

definition observations_of :: "ScenarioSpecBatchResult \<Rightarrow> (string \<times> ClassificationObservation) list" where
  "observations_of b = dict_of (map (\<lambda>v. (obs_classification_observation_id v, v)) (ssb_classification_observations b))"

text \<open>\<open>classification_usage\<close>: per observation the scenarios with a precondition that names it.\<close>

definition sorted_specs :: "ScenarioSpecBatchResult \<Rightarrow> ScenarioSpec list" where
  "sorted_specs b = sort_key spec_scenario_spec_id (ssb_scenario_specs b)"

definition spec_observations :: "ScenarioSpec \<Rightarrow> string list" where
  "spec_observations s = List.map_filter pre_classification_observation_ref (spec_preconditions s)"

definition used_observations :: "ScenarioSpecBatchResult \<Rightarrow> string list" where
  "used_observations b =
     sort (remdups (filter (\<lambda>r. r \<in> fst ` set (observations_of b)) (concat (map spec_observations (sorted_specs b)))))"

definition classification_requirement ::
  "(string \<Rightarrow> string) \<Rightarrow> ScenarioSpecBatchResult \<Rightarrow> string \<Rightarrow> ClassificationObservation \<Rightarrow> ClassificationRequirement" where
  "classification_requirement sha b r v =
     \<lparr>creq_requirement_id = stable_id sha ''classification-requirement'' [r],
      creq_scenario_spec_refs = sort (remdups (map spec_scenario_spec_id
        (filter (\<lambda>s. r \<in> set (spec_observations s)) (sorted_specs b)))),
      creq_classification_observation_ref = r, creq_classification_observation_digest = digest_text sha (dump_classification_observation v),
      creq_candidate = obs_candidate v, creq_method = obs_method v, creq_method_version = obs_method_version v,
      creq_classification_evidence_refs = obs_classification_evidence_refs v\<rparr>"

definition classification_requirements :: "(string \<Rightarrow> string) \<Rightarrow> ScenarioSpecBatchResult \<Rightarrow> ClassificationRequirement list" where
  "classification_requirements sha b =
     List.map_filter (\<lambda>r. map_option (classification_requirement sha b r) (map_of (observations_of b) r)) (used_observations b)"

definition export :: "(string \<Rightarrow> string) \<Rightarrow> ScenarioSpecBatchResult \<Rightarrow> export_error + AuthorityRequirementsManifest" where
  "export sha b =
     map_sum id (\<lambda>rss.
       let m = \<lparr>arm_manifest_id = stable_id sha ''authority-requirements'' [ssb_content_digest b, ''authority-requirements-exporter-1.1''],
                arm_scenario_spec_batch_digest = ssb_content_digest b, arm_procedure_identity_ref = ssb_procedure_identity_ref b,
                arm_vocabulary_requirements = sort_key vreq_requirement_id (concat rss),
                arm_classification_requirements = sort_key creq_requirement_id (classification_requirements sha b),
                arm_content_digest = []\<rparr>
       in m\<lparr>arm_content_digest := digest_text sha (without_digest (dump_authority_requirements_manifest m))\<rparr>)
     (seq_results (map (vocabulary_requirements sha) (sorted_specs b)))"

section \<open>Validators of the snapshot models\<close>

definition placeholder_ok :: "string \<Rightarrow> bool" where
  "placeholder_ok s =
     (let t = py_strip s; u = filter (\<lambda>c. c \<noteq> CHR ''_'') t
      in t \<noteq> [] \<and> u \<noteq> [] \<and> list_all is_alnum u \<and> \<not> is_digit (hd t))"

definition truthy :: "string option \<Rightarrow> bool" where
  "truthy v = (case v of None \<Rightarrow> False | Some s \<Rightarrow> s \<noteq> [])"

definition interval_ok :: "string \<Rightarrow> string option \<Rightarrow> bool" where
  "interval_ok f t = (case t of None \<Rightarrow> True | Some e \<Rightarrow> f < e)"

definition canonical_at :: "string \<Rightarrow> bool" where
  "canonical_at s = (canonical_timestamp s = Inr s)"

text \<open>A mapping that its validators accepted and normalized.\<close>

definition mapping_validated :: "VocabularyMapping \<Rightarrow> bool" where
  "mapping_validated m =
     (list_all (\<lambda>c. placeholder_ok (plc_placeholder c) \<and> py_strip (plc_placeholder c) = plc_placeholder c) (vm_placeholder_contract m)
      \<and> distinct (map plc_placeholder (vm_placeholder_contract m))
      \<and> vm_phrase_template m \<noteq> [] \<and> py_strip (vm_phrase_template m) = vm_phrase_template m
      \<and> nl \<notin> set (vm_phrase_template m) \<and> cr \<notin> set (vm_phrase_template m)
      \<and> canonical_at (vm_valid_from m) \<and> (case vm_valid_to m of None \<Rightarrow> True | Some t \<Rightarrow> canonical_at t)
      \<and> (vm_mapping_kind m = MK_STRUCTURAL_APPROVED_MAPPING \<longrightarrow> truthy (vm_structural_context_digest m))
      \<and> (vm_mapping_kind m = MK_SYMBOL_BOUND_APPROVED_MAPPING \<longrightarrow> vm_symbol_binding_refs m \<noteq> [])
      \<and> (vm_mapping_kind m = MK_MANUALLY_APPROVED_MAPPING \<longrightarrow> truthy (vm_manual_requirement_ref m))
      \<and> interval_ok (vm_valid_from m) (vm_valid_to m))"

definition approval_validated :: "ClassificationApproval \<Rightarrow> bool" where
  "approval_validated a =
     (canonical_at (ca_valid_from a) \<and> (case ca_valid_to a of None \<Rightarrow> True | Some t \<Rightarrow> canonical_at t)
      \<and> interval_ok (ca_valid_from a) (ca_valid_to a))"

definition vocabulary_validated :: "VocabularySnapshot \<Rightarrow> bool" where
  "vocabulary_validated v = (canonical_at (vs_effective_timestamp v) \<and> list_all mapping_validated (vs_mappings v))"

definition classification_validated :: "ClassificationSnapshot \<Rightarrow> bool" where
  "classification_validated c = (canonical_at (cls_effective_timestamp c) \<and> list_all approval_validated (cls_approvals c))"

section \<open>Snapshot validation\<close>

definition issue :: "AuthorityValidationIssueCode \<Rightarrow> string \<Rightarrow> string \<Rightarrow> AuthorityValidationIssue" where
  "issue c r msg = \<lparr>avi_code = c, avi_artifact_ref = r, avi_message = msg\<rparr>"

definition when_issue :: "bool \<Rightarrow> AuthorityValidationIssueCode \<Rightarrow> string \<Rightarrow> string \<Rightarrow> AuthorityValidationIssue list" where
  "when_issue b c r msg = (if b then [issue c r msg] else [])"

definition mapping_binding_key :: "(string \<Rightarrow> string) \<Rightarrow> VocabularyMapping \<Rightarrow> string" where
  "mapping_binding_key sha m = digest_text sha (str_dict
     [(''kind'', PStr (mapping_kind_value (vm_mapping_kind m))), (''pattern'', PStr (vm_normalized_technical_pattern_ref m)),
      (''structural'', opt_str (vm_structural_context_digest m)), (''symbols'', str_tuple (vm_symbol_binding_refs m)),
      (''manual'', opt_str (vm_manual_requirement_ref m))])"

definition mapping_issues :: "(string \<Rightarrow> string) \<Rightarrow> VocabularySnapshot \<Rightarrow> VocabularyMapping \<Rightarrow> ts_error + AuthorityValidationIssue list" where
  "mapping_issues sha v m =
     bindE (timestamp_active (vs_effective_timestamp v) (vm_valid_from m) (vm_valid_to m)) (\<lambda>active. Inr (
       when_issue (vm_authority_scope m \<noteq> vs_authority_scope v) AI_AUTHORITY_SCOPE_MISMATCH (vm_mapping_id m)
         ''Vocabulary mapping authority scope differs from its snapshot.'' @
       when_issue (\<not> digest_valid sha (dump_vocabulary_mapping m) (vm_content_digest m)) AI_MAPPING_DIGEST_INVALID (vm_mapping_id m)
         ''Vocabulary mapping digest does not match canonical content.'' @
       when_issue (py_strip (vm_approval_ref m) = []) AI_EMPTY_APPROVAL_REFERENCE (vm_mapping_id m)
         ''Vocabulary mapping has no approval reference.'' @
       when_issue (vm_evidence_refs m = []) AI_EMPTY_MAPPING_EVIDENCE (vm_mapping_id m)
         ''Vocabulary mapping has no evidence reference.'' @
       when_issue (vs_authority_scope v = AS_PLATFORM \<and> vm_mapping_kind m = MK_MAPPING_CANDIDATE_ONLY)
         AI_NON_PROMOTABLE_PLATFORM_MAPPING (vm_mapping_id m) ''A PLATFORM snapshot cannot contain candidate-only mappings.'' @
       when_issue (\<not> active) AI_MAPPING_NOT_EFFECTIVE_AT_SNAPSHOT (vm_mapping_id m)
         ''Vocabulary mapping is not effective at the snapshot timestamp.''))"

text \<open>\<open>for key, count in Counter(keys).items()\<close>: the keys in the order of their first occurrence.\<close>

definition duplicates :: "string list \<Rightarrow> (string \<times> nat) list" where
  "duplicates ks = filter (\<lambda>p. 1 < snd p) (map (\<lambda>k. (k, count_list ks k)) (rev (remdups (rev ks))))"

definition duplicate_issues ::
  "AuthorityValidationIssueCode \<Rightarrow> string \<Rightarrow> string \<Rightarrow> string list \<Rightarrow> AuthorityValidationIssue list" where
  "duplicate_issues c before after ks = map (\<lambda>(k, n). issue c k (before @ nat_dec n @ after)) (duplicates ks)"

definition promotable_keys :: "(string \<Rightarrow> string) \<Rightarrow> VocabularySnapshot \<Rightarrow> string list" where
  "promotable_keys sha v =
     map (mapping_binding_key sha) (filter (\<lambda>m. vm_mapping_kind m \<noteq> MK_MAPPING_CANDIDATE_ONLY) (vs_mappings v))"

definition validate_vocabulary :: "(string \<Rightarrow> string) \<Rightarrow> VocabularySnapshot \<Rightarrow> ts_error + AuthorityValidationIssue list" where
  "validate_vocabulary sha v =
     map_sum id (\<lambda>iss.
       when_issue (\<not> digest_valid sha (dump_vocabulary_snapshot v) (vs_content_digest v)) AI_VOCABULARY_SNAPSHOT_DIGEST_INVALID
         (vs_snapshot_id v) ''Vocabulary snapshot digest does not match canonical content.'' @ concat iss @
       duplicate_issues AI_DUPLICATE_MAPPING_ID ''Mapping ID appears '' '' times.'' (map vm_mapping_id (vs_mappings v)) @
       duplicate_issues AI_DUPLICATE_ACTIVE_MAPPING_BINDING ''Mapping binding has '' '' active mappings.'' (promotable_keys sha v))
     (seq_results (map (mapping_issues sha v) (vs_mappings v)))"

definition approval_issues ::
  "(string \<Rightarrow> string) \<Rightarrow> ClassificationSnapshot \<Rightarrow> ClassificationApproval \<Rightarrow> ts_error + AuthorityValidationIssue list" where
  "approval_issues sha c a =
     bindE (timestamp_active (cls_effective_timestamp c) (ca_valid_from a) (ca_valid_to a)) (\<lambda>active. Inr (
       when_issue (ca_authority_scope a \<noteq> cls_authority_scope c) AI_AUTHORITY_SCOPE_MISMATCH (ca_approval_id a)
         ''Classification approval authority scope differs from its snapshot.'' @
       when_issue (\<not> digest_valid sha (dump_classification_approval a) (ca_content_digest a)) AI_CLASSIFICATION_APPROVAL_DIGEST_INVALID
         (ca_approval_id a) ''Classification approval digest does not match canonical content.'' @
       when_issue (py_strip (ca_approval_ref a) = []) AI_EMPTY_APPROVAL_REFERENCE (ca_approval_id a)
         ''Classification approval has no approval reference.'' @
       when_issue (ca_evidence_refs a = []) AI_EMPTY_CLASSIFICATION_EVIDENCE (ca_approval_id a)
         ''Classification approval has no evidence reference.'' @
       when_issue (\<not> active) AI_APPROVAL_NOT_EFFECTIVE_AT_SNAPSHOT (ca_approval_id a)
         ''Classification approval is not effective at the snapshot timestamp.''))"

definition validate_classification :: "(string \<Rightarrow> string) \<Rightarrow> ClassificationSnapshot \<Rightarrow> ts_error + AuthorityValidationIssue list" where
  "validate_classification sha c =
     map_sum id (\<lambda>iss.
       when_issue (\<not> digest_valid sha (dump_classification_snapshot c) (cls_content_digest c)) AI_CLASSIFICATION_SNAPSHOT_DIGEST_INVALID
         (cls_snapshot_id c) ''Classification snapshot digest does not match canonical content.'' @ concat iss @
       duplicate_issues AI_DUPLICATE_APPROVAL_ID ''Approval ID appears '' '' times.'' (map ca_approval_id (cls_approvals c)) @
       duplicate_issues AI_DUPLICATE_CLASSIFICATION_APPROVAL ''Classification observation has '' '' active approvals.''
         (map ca_classification_observation_ref (cls_approvals c)))
     (seq_results (map (approval_issues sha c) (cls_approvals c)))"

definition issue_key :: "AuthorityValidationIssue \<Rightarrow> string \<times> string" where
  "issue_key i = (authority_validation_issue_code_value (avi_code i), avi_artifact_ref i)"

definition validate ::
  "(string \<Rightarrow> string) \<Rightarrow> VocabularySnapshot \<Rightarrow> ClassificationSnapshot \<Rightarrow> ts_error + AuthoritySnapshotValidationResult" where
  "validate sha v c =
     bindE (validate_vocabulary sha v) (\<lambda>vi. bindE (validate_classification sha c) (\<lambda>ci.
       let issues = sort_key issue_key (vi @ ci @
             when_issue (vs_authority_scope v \<noteq> cls_authority_scope c) AI_AUTHORITY_SCOPE_MISMATCH
               (vs_snapshot_id v @ ''|'' @ cls_snapshot_id c)
               ''Vocabulary and classification snapshots use different authority scopes.'');
           r = \<lparr>asv_validation_status = (if issues = [] then AVS_VALID else AVS_INVALID),
                asv_vocabulary_snapshot_ref = vs_snapshot_id v, asv_vocabulary_snapshot_digest = vs_content_digest v,
                asv_classification_snapshot_ref = cls_snapshot_id c, asv_classification_snapshot_digest = cls_content_digest c,
                asv_authority_scope = (if vs_authority_scope v = cls_authority_scope c then Some (vs_authority_scope v) else None),
                asv_issues = issues, asv_content_digest = []\<rparr>
       in Inr (r\<lparr>asv_content_digest := digest_text sha (without_digest (dump_authority_snapshot_validation_result r))\<rparr>)))"

section \<open>A sample authority\<close>

text \<open>
  One scenario with a precondition and an effect, its observation, and the snapshots that approve it, for evaluating
  the theorems. The sample hash maps the text of every JSON object to one digest and any other text to itself.
\<close>

definition sample_sha :: "string \<Rightarrow> string" where
  "sample_sha s = (if take 1 s = ''{'' then ''0'' else s)"

definition sample_digest :: string where
  "sample_digest = ''sha256:0''"

definition sample_at :: string where
  "sample_at = ''2026-01-01T00:00:00.000000Z''"

definition sample_observation :: ClassificationObservation where
  "sample_observation =
     \<lparr>obs_classification_observation_id = ''o'', obs_candidate = ''rule'', obs_method = ''m'', obs_method_version = ''1'',
      obs_ranking_score = None, obs_score_semantics = None, obs_classification_evidence_refs = [], obs_authority_ref = None,
      obs_authority_status = CAS_APPROVED\<rparr>"

definition sample_spec :: ScenarioSpec where
  "sample_spec =
     \<lparr>spec_scenario_spec_id = ''s'', spec_behavior_id = ''b'', spec_source_symbol_id = ''y'', spec_symbol_lineage_id = ''l'',
      spec_procedure_identity_ref = ''p'', spec_artifact_revision_id = ''r'', spec_behavior_effect_bundle_ref = ''u'',
      spec_behavior_slice_ref = ''c'', spec_predicate_graph_ref = None,
      spec_action = \<lparr>act_action_kind = ''CALL'', act_procedure_identity_ref = ''p'', act_invocation_contract_ref = ''i'',
        act_action_scope_ref = None, act_evidence_refs = []\<rparr>,
      spec_preconditions = [\<lparr>pre_precondition_id = ''q'', pre_technical_fact_ref = ''f'', pre_constraint_assessment_ref = None,
        pre_classification_observation_ref = Some ''o'', pre_evidence_refs = []\<rparr>],
      spec_expected_effects = [\<lparr>eff_effect_ref = ''e'', eff_modality = EM_MUST, eff_evidence_refs = [],
        eff_caller_transaction_contract_ref = None\<rparr>],
      spec_alternative_or_conditional_effects = [], spec_effect_closure_ref = ''k'', spec_resolution_vector_ref = ''v'',
      spec_summary_refs = [], spec_ordered_decision_reduction_refs = [], spec_caller_transaction_contract_refs = [],
      spec_analysis_budget_report_ref = ''g'', spec_finding_refs = [], spec_evidence_refs = [], spec_required_classification_slots = [],
      spec_required_vocabulary_slots = [''s:PRECONDITION:q'', ''s:EFFECT:e''], spec_platform_governance_ref = None,
      spec_content_digest = sample_digest\<rparr>"

definition sample_batch :: ScenarioSpecBatchResult where
  "sample_batch =
     \<lparr>ssb_parser_result_digest = ''p'', ssb_semantic_result_digest = ''q'', ssb_procedure_identity_ref = ''p'', ssb_source_symbol_id = ''y'',
      ssb_symbol_lineage_id = ''l'', ssb_classification_observations = [sample_observation],
      ssb_effect_closures = [\<lparr>ecl_effect_closure_id = ''k'', ecl_completeness = ECC_CLOSED_WITHIN_SCOPE, ecl_included_effect_refs = [],
        ecl_unresolved_effect_refs = [], ecl_evidence_refs = [], ecl_content_digest = sample_digest\<rparr>],
      ssb_resolution_vectors = [\<lparr>rv_resolution_vector_id = ''v'', rv_routine_resolution = RS_RESOLVED, rv_view_resolution = RS_NOT_APPLICABLE,
        rv_udf_resolution = RS_NOT_APPLICABLE, rv_trigger_resolution = RS_NOT_APPLICABLE, rv_constraint_resolution = RS_NOT_APPLICABLE,
        rv_dynamic_relation_resolution = RS_NOT_APPLICABLE, rv_evidence_refs = [], rv_content_digest = sample_digest\<rparr>],
      ssb_budget_reports = [\<lparr>bud_budget_report_id = ''g'', bud_configured_limits = [], bud_consumed = [], bud_exceeded_limits = [],
        bud_analysis_result = ''COMPLETE'', bud_content_digest = sample_digest\<rparr>],
      ssb_scenario_specs = [sample_spec], ssb_compilation_results = [], ssb_content_digest = sample_digest\<rparr>"

definition sample_mapping :: "string \<Rightarrow> string \<Rightarrow> string \<Rightarrow> VocabularyMapping" where
  "sample_mapping n pattern phrase =
     \<lparr>vm_mapping_id = n, vm_mapping_version = ''1'', vm_mapping_kind = MK_EXACT_APPROVED_MAPPING,
      vm_normalized_technical_pattern_ref = ''technical-pattern-'' @ pattern, vm_structural_context_digest = None, vm_symbol_binding_refs = [],
      vm_manual_requirement_ref = None, vm_phrase_template = phrase, vm_placeholder_contract = [], vm_supported_modalities = [EM_MUST],
      vm_approval_ref = ''a'', vm_authority_scope = AS_PLATFORM, vm_valid_from = sample_at, vm_valid_to = None,
      vm_evidence_refs = [''v''], vm_content_digest = sample_digest\<rparr>"

definition sample_vocabulary :: "VocabularyMapping list \<Rightarrow> VocabularySnapshot" where
  "sample_vocabulary ms =
     \<lparr>vs_snapshot_id = ''vs'', vs_registry_version = ''1'', vs_effective_timestamp = sample_at, vs_authority_scope = AS_PLATFORM,
      vs_mappings = ms, vs_content_digest = sample_digest\<rparr>"

definition sample_classification :: ClassificationSnapshot where
  "sample_classification =
     \<lparr>cls_snapshot_id = ''cs'', cls_registry_version = ''1'', cls_effective_timestamp = sample_at, cls_authority_scope = AS_PLATFORM,
      cls_approvals = [\<lparr>ca_approval_id = ''ap'', ca_classification_observation_ref = ''o'', ca_classification_observation_digest = sample_digest,
        ca_approved_candidate = ''rule'', ca_approval_ref = ''a'', ca_authority_scope = AS_PLATFORM, ca_valid_from = sample_at,
        ca_valid_to = None, ca_evidence_refs = [''v''], ca_content_digest = sample_digest\<rparr>],
      cls_content_digest = sample_digest\<rparr>"

lemmas sample_defs = sample_observation_def sample_spec_def sample_batch_def sample_mapping_def sample_vocabulary_def sample_classification_def

lemma sample_at_canonical [simp]: "canonical_at sample_at"
  unfolding canonical_at_def sample_at_def by code_simp

definition is_object :: "pyval \<Rightarrow> bool" where
  "is_object v = (case v of PModel _ _ \<Rightarrow> True | PDict _ \<Rightarrow> True | _ \<Rightarrow> False)"

lemma object_digest: "plain v \<Longrightarrow> is_object v \<Longrightarrow> core_digest sample_sha v = Inr sample_digest"
  using plain_projects [of v]
  by (cases v) (auto simp: is_object_def core_digest_def canonical_json_bytes_def canonical_json_def sample_sha_def sample_digest_def
      sha256_text_def dest!: map_sum_Inr)

lemma sample_digest_text: "plain v \<Longrightarrow> is_object v \<Longrightarrow> digest_text sample_sha v = sample_digest"
  by (simp add: digest_text_def object_digest)

lemma sample_digest_valid: "plain v \<Longrightarrow> is_object v \<Longrightarrow> digest_valid sample_sha v d \<longleftrightarrow> d = sample_digest"
  using object_digest [OF plain_without_digest [of v]]
  by (cases v) (auto simp: digest_valid_def without_digest_def is_object_def)

lemma is_object_dump [simp]:
  "is_object (dump_classification_observation m0)" "is_object (dump_effect_closure_artifact m1)" "is_object (dump_resolution_vector_artifact m2)" "is_object (dump_scenario_compiler_budget_report m3)" "is_object (dump_scenario_spec m4)" "is_object (dump_scenario_spec_batch_result m5)" "is_object (dump_vocabulary_mapping m6)" "is_object (dump_vocabulary_snapshot m7)" "is_object (dump_classification_approval m8)" "is_object (dump_classification_snapshot m9)" "is_object (dump_traceability_manifest m10)" "is_object (dump_candidate_bdd m11)"
  by (simp_all add: is_object_def dump_classification_observation_def dump_effect_closure_artifact_def dump_resolution_vector_artifact_def dump_scenario_compiler_budget_report_def dump_scenario_spec_def dump_scenario_spec_batch_result_def dump_vocabulary_mapping_def dump_vocabulary_snapshot_def dump_classification_approval_def dump_classification_snapshot_def dump_traceability_manifest_def dump_candidate_bdd_def)

lemmas sample_digests = sample_digest_valid sample_digest_text

section \<open>The verdict of the validator\<close>

text \<open>What an admissible pair of snapshots is.\<close>

definition active_at :: "string \<Rightarrow> string \<Rightarrow> string option \<Rightarrow> bool" where
  "active_at t f e = (f \<le> t \<and> (case e of None \<Rightarrow> True | Some x \<Rightarrow> t < x))"

definition mapping_admissible :: "(string \<Rightarrow> string) \<Rightarrow> VocabularySnapshot \<Rightarrow> VocabularyMapping \<Rightarrow> bool" where
  "mapping_admissible sha v m =
     (vm_authority_scope m = vs_authority_scope v \<and> digest_valid sha (dump_vocabulary_mapping m) (vm_content_digest m)
      \<and> py_strip (vm_approval_ref m) \<noteq> [] \<and> vm_evidence_refs m \<noteq> []
      \<and> \<not> (vs_authority_scope v = AS_PLATFORM \<and> vm_mapping_kind m = MK_MAPPING_CANDIDATE_ONLY)
      \<and> active_at (vs_effective_timestamp v) (vm_valid_from m) (vm_valid_to m))"

definition approval_admissible :: "(string \<Rightarrow> string) \<Rightarrow> ClassificationSnapshot \<Rightarrow> ClassificationApproval \<Rightarrow> bool" where
  "approval_admissible sha c a =
     (ca_authority_scope a = cls_authority_scope c \<and> digest_valid sha (dump_classification_approval a) (ca_content_digest a)
      \<and> py_strip (ca_approval_ref a) \<noteq> [] \<and> ca_evidence_refs a \<noteq> []
      \<and> active_at (cls_effective_timestamp c) (ca_valid_from a) (ca_valid_to a))"

definition snapshots_admissible :: "(string \<Rightarrow> string) \<Rightarrow> VocabularySnapshot \<Rightarrow> ClassificationSnapshot \<Rightarrow> bool" where
  "snapshots_admissible sha v c =
     (digest_valid sha (dump_vocabulary_snapshot v) (vs_content_digest v)
      \<and> digest_valid sha (dump_classification_snapshot c) (cls_content_digest c)
      \<and> (\<forall>m \<in> set (vs_mappings v). mapping_admissible sha v m) \<and> (\<forall>a \<in> set (cls_approvals c). approval_admissible sha c a)
      \<and> distinct (map vm_mapping_id (vs_mappings v)) \<and> distinct (promotable_keys sha v)
      \<and> distinct (map ca_approval_id (cls_approvals c)) \<and> distinct (map ca_classification_observation_ref (cls_approvals c))
      \<and> vs_authority_scope v = cls_authority_scope c)"

lemma count_list_distinct: "distinct ks \<longleftrightarrow> (\<forall>k \<in> set ks. count_list ks k \<le> 1)"
proof (induction ks)
  case (Cons k ks)
  show ?case
  proof (cases "k \<in> set ks")
    case True
    then have "count_list ks k \<noteq> 0" by (simp add: count_list_0_iff)
    then show ?thesis using True by auto
  next
    case False
    then have "count_list ks k = 0" by (simp add: count_list_0_iff)
    moreover have "(\<forall>x \<in> set ks. count_list (k # ks) x \<le> 1) \<longleftrightarrow> (\<forall>x \<in> set ks. count_list ks x \<le> 1)"
      using False by (intro ball_cong) auto
    ultimately show ?thesis using False Cons.IH by simp
  qed
qed simp

lemma duplicates_Nil: "duplicates ks = [] \<longleftrightarrow> distinct ks"
  by (auto simp: duplicates_def filter_empty_conv count_list_distinct not_less)

lemma duplicate_issues_Nil: "duplicate_issues c b a ks = [] \<longleftrightarrow> distinct ks"
  by (simp add: duplicate_issues_def duplicates_Nil)

lemma when_issue_Nil [simp]: "when_issue b c r m = [] \<longleftrightarrow> \<not> b"
  by (simp add: when_issue_def)

lemma active_canonical:
  assumes "canonical_at t" "canonical_at f" "case e of None \<Rightarrow> True | Some x \<Rightarrow> canonical_at x"
  shows "timestamp_active t f e = Inr (active_at t f e)"
proof (cases e)
  case None
  then show ?thesis using assms timestamp_active_iff [where at = t and a = t and vf = f and f = f and vt = None] by (simp add: canonical_at_def active_at_def)
next
  case (Some x)
  then show ?thesis using assms timestamp_active_iff [where at = t and a = t and vf = f and f = f and vt = e and e = x] by (simp add: canonical_at_def active_at_def)
qed

lemma mapping_issues_admissible:
  assumes "vocabulary_validated v" "m \<in> set (vs_mappings v)"
  shows "\<exists>iss. mapping_issues sha v m = Inr iss \<and> (iss = [] \<longleftrightarrow> mapping_admissible sha v m)"
proof -
  have "timestamp_active (vs_effective_timestamp v) (vm_valid_from m) (vm_valid_to m)
      = Inr (active_at (vs_effective_timestamp v) (vm_valid_from m) (vm_valid_to m))"
    using assms by (intro active_canonical) (auto simp: vocabulary_validated_def mapping_validated_def list_all_iff)
  then show ?thesis by (auto simp: mapping_issues_def bindE_def mapping_admissible_def)
qed

lemma approval_issues_admissible:
  assumes "classification_validated c" "a \<in> set (cls_approvals c)"
  shows "\<exists>iss. approval_issues sha c a = Inr iss \<and> (iss = [] \<longleftrightarrow> approval_admissible sha c a)"
proof -
  have "timestamp_active (cls_effective_timestamp c) (ca_valid_from a) (ca_valid_to a)
      = Inr (active_at (cls_effective_timestamp c) (ca_valid_from a) (ca_valid_to a))"
    using assms by (intro active_canonical) (auto simp: classification_validated_def approval_validated_def list_all_iff)
  then show ?thesis by (auto simp: approval_issues_def bindE_def approval_admissible_def)
qed

text \<open>Issue lists of a loop over items: one list per item, all empty exactly when every item is admissible.\<close>

lemma seq_issue_lists:
  assumes "\<And>x. x \<in> set xs \<Longrightarrow> \<exists>iss. f x = Inr iss \<and> (iss = [] \<longleftrightarrow> ok x)"
  obtains ys where "seq_results (map f xs) = Inr ys" "concat ys = [] \<longleftrightarrow> (\<forall>x \<in> set xs. ok x)"
proof -
  obtain ys where ys: "seq_results (map f xs) = Inr ys" using assms seq_results_exists [of "map f xs"] by fastforce
  then have "map Inr ys = map f xs" by (rule seq_results_elements)
  then have "Inr ` set ys = f ` set xs" by (metis list.set_map)
  then have "(\<forall>y \<in> set ys. y = []) \<longleftrightarrow> (\<forall>x \<in> set xs. ok x)"
    using assms by (metis (no_types, lifting) Inr_inject image_iff)
  then show thesis using that ys by simp
qed

lemma validate_vocabulary_verdict:
  assumes "vocabulary_validated v"
  shows "\<exists>iss. validate_vocabulary sha v = Inr iss \<and> (iss = [] \<longleftrightarrow>
      digest_valid sha (dump_vocabulary_snapshot v) (vs_content_digest v) \<and> (\<forall>m \<in> set (vs_mappings v). mapping_admissible sha v m)
      \<and> distinct (map vm_mapping_id (vs_mappings v)) \<and> distinct (promotable_keys sha v))"
proof -
  obtain ys where "seq_results (map (mapping_issues sha v) (vs_mappings v)) = Inr ys"
    "concat ys = [] \<longleftrightarrow> (\<forall>m \<in> set (vs_mappings v). mapping_admissible sha v m)"
    using seq_issue_lists [of "vs_mappings v" "mapping_issues sha v" "mapping_admissible sha v"] mapping_issues_admissible [OF assms] by blast
  then show ?thesis by (auto simp: validate_vocabulary_def duplicate_issues_Nil)
qed

lemma validate_classification_verdict:
  assumes "classification_validated c"
  shows "\<exists>iss. validate_classification sha c = Inr iss \<and> (iss = [] \<longleftrightarrow>
      digest_valid sha (dump_classification_snapshot c) (cls_content_digest c)
      \<and> (\<forall>a \<in> set (cls_approvals c). approval_admissible sha c a)
      \<and> distinct (map ca_approval_id (cls_approvals c)) \<and> distinct (map ca_classification_observation_ref (cls_approvals c)))"
proof -
  obtain ys where "seq_results (map (approval_issues sha c) (cls_approvals c)) = Inr ys"
    "concat ys = [] \<longleftrightarrow> (\<forall>a \<in> set (cls_approvals c). approval_admissible sha c a)"
    using seq_issue_lists [of "cls_approvals c" "approval_issues sha c" "approval_admissible sha c"] approval_issues_admissible [OF assms] by blast
  then show ?thesis by (auto simp: validate_classification_def duplicate_issues_Nil)
qed

lemma sort_key_Nil_iff: "sort_key f xs = [] \<longleftrightarrow> xs = []"
  by (metis length_0_conv length_sort)

text \<open>
  C24: on snapshots that passed their model validators the authority validator always returns, reports
  \<open>VALID\<close> exactly when the pair is admissible (digests, scopes, approvals, evidence, no candidate-only mapping
  under platform authority, everything in force at the snapshot's instant, no duplicate identity or binding),
  and names a scope only when both snapshots agree on it.
\<close>

theorem validate_verdict:
  assumes "vocabulary_validated v" "classification_validated c"
  shows "\<exists>r. validate sha v c = Inr r \<and> (asv_validation_status r = AVS_VALID \<longleftrightarrow> snapshots_admissible sha v c)
    \<and> (asv_issues r = [] \<longleftrightarrow> snapshots_admissible sha v c)
    \<and> (asv_authority_scope r = Some x \<longrightarrow> vs_authority_scope v = x \<and> cls_authority_scope c = x)"
proof -
  obtain vi where vi: "validate_vocabulary sha v = Inr vi" "vi = [] \<longleftrightarrow>
      digest_valid sha (dump_vocabulary_snapshot v) (vs_content_digest v) \<and> (\<forall>m \<in> set (vs_mappings v). mapping_admissible sha v m)
      \<and> distinct (map vm_mapping_id (vs_mappings v)) \<and> distinct (promotable_keys sha v)"
    using validate_vocabulary_verdict [OF assms(1)] by blast
  obtain ci where ci: "validate_classification sha c = Inr ci" "ci = [] \<longleftrightarrow>
      digest_valid sha (dump_classification_snapshot c) (cls_content_digest c)
      \<and> (\<forall>a \<in> set (cls_approvals c). approval_admissible sha c a)
      \<and> distinct (map ca_approval_id (cls_approvals c)) \<and> distinct (map ca_classification_observation_ref (cls_approvals c))"
    using validate_classification_verdict [OF assms(2)] by blast
  have adm: "snapshots_admissible sha v c \<longleftrightarrow> vi = [] \<and> ci = [] \<and> vs_authority_scope v = cls_authority_scope c"
    using vi(2) ci(2) by (auto simp: snapshots_admissible_def)
  show ?thesis
    unfolding validate_def vi(1) ci(1) bindE_def Let_def adm by (simp add: sort_key_Nil_iff)
qed

theorem validate_verdict_witness:
  "\<exists>r. validate sample_sha (sample_vocabulary [sample_mapping ''m'' ''x'' ''pays'']) sample_classification = Inr r
     \<and> asv_validation_status r = AVS_VALID \<and> asv_issues r = []"
proof -
  have "vocabulary_validated (sample_vocabulary [sample_mapping ''m'' ''x'' ''pays''])" "classification_validated sample_classification"
    by code_simp+
  moreover have "py_strip ''a'' \<noteq> []" by code_simp
  then have "snapshots_admissible sample_sha (sample_vocabulary [sample_mapping ''m'' ''x'' ''pays'']) sample_classification"
    by (simp add: sample_defs snapshots_admissible_def mapping_admissible_def approval_admissible_def sample_digests promotable_keys_def
        active_at_def)
  ultimately show ?thesis using validate_verdict by blast
qed

section \<open>The exported requirements\<close>

definition slot_resolves :: "ScenarioSpec \<Rightarrow> string \<Rightarrow> bool" where
  "slot_resolves s slot =
     (if py_in '':PRECONDITION:'' slot then after_last_colon slot \<in> pre_precondition_id ` set (spec_preconditions s)
      else if py_in '':EFFECT:'' slot then after_last_colon slot \<in> eff_effect_ref ` set (spec_effects s) else True)"

lemma map_of_dict_of: "map_of (dict_of kvs) = map_of (rev kvs)"
  using map_of_dict_update [of "[]" kvs] by (simp add: dict_of_def dict_update_def)

lemma lookup_dict_of: "(\<exists>v. lookup_key (dict_of (map (\<lambda>x. (f x, x)) xs)) k = Inr v) \<longleftrightarrow> k \<in> f ` set xs"
proof -
  have "map_of (rev (map (\<lambda>x. (f x, x)) xs)) k = None \<longleftrightarrow> k \<notin> f ` set xs"
    by (simp add: map_of_eq_None_iff image_image)
  then show ?thesis by (auto simp: lookup_key_def map_of_dict_of split: option.splits)
qed

lemma lookup_dict_value: "lookup_key (dict_of (map (\<lambda>x. (f x, x)) xs)) k = Inr v \<Longrightarrow> v \<in> set xs \<and> f v = k"
  by (auto simp: lookup_key_def map_of_dict_of split: option.splits dest: map_of_SomeD)

lemma required_slot_total: "(\<exists>ds. required_slot s slot = Inr ds) \<longleftrightarrow> slot_resolves s slot"
  using lookup_dict_of [of pre_precondition_id "spec_preconditions s" "after_last_colon slot"]
    lookup_dict_of [of eff_effect_ref "spec_effects s" "after_last_colon slot"]
  by (auto simp: required_slot_def slot_resolves_def bindE_Inr)

lemma vocabulary_requirements_total:
  "(\<exists>rs. vocabulary_requirements sha s = Inr rs) \<longleftrightarrow> (\<forall>slot \<in> set (spec_required_vocabulary_slots s). slot_resolves s slot)"
  by (simp add: vocabulary_requirements_def slot_definitions_def map_sum_exists seq_results_exists required_slot_total)

lemma slot_definitions_Inr:
  assumes "slot_definitions s = Inr ds"
  shows "\<exists>dss. ds = fixed_slots s @ concat dss \<and> map Inr dss = map (required_slot s) (spec_required_vocabulary_slots s)"
  using assms by (auto simp: slot_definitions_def dest!: map_sum_Inr seq_results_elements)

lemma export_Inr:
  assumes "export sha b = Inr m"
  obtains rss where "map Inr rss = map (vocabulary_requirements sha) (sorted_specs b)"
    "arm_vocabulary_requirements m = sort_key vreq_requirement_id (concat rss)"
    "arm_classification_requirements m = sort_key creq_requirement_id (classification_requirements sha b)"
    "arm_content_digest m = digest_text sha (without_digest (dump_authority_requirements_manifest (m\<lparr>arm_content_digest := []\<rparr>)))"
    "arm_scenario_spec_batch_digest m = ssb_content_digest b"
  using assms by (auto simp: export_def Let_def dest!: map_sum_Inr seq_results_elements)

lemma export_total:
  "(\<exists>m. export sha b = Inr m) \<longleftrightarrow>
     (\<forall>s \<in> set (ssb_scenario_specs b). \<forall>slot \<in> set (spec_required_vocabulary_slots s). slot_resolves s slot)"
  by (simp add: export_def map_sum_exists seq_results_exists vocabulary_requirements_total sorted_specs_def)

lemma export_members:
  assumes "export sha b = Inr m"
  shows "r \<in> set (arm_vocabulary_requirements m) \<longleftrightarrow>
    (\<exists>s \<in> set (ssb_scenario_specs b). \<exists>ds. slot_definitions s = Inr ds \<and> r \<in> vocabulary_requirement sha s ` set ds)"
proof -
  from assms obtain rss where rss: "map Inr rss = map (vocabulary_requirements sha) (sorted_specs b)"
    and m: "arm_vocabulary_requirements m = sort_key vreq_requirement_id (concat rss)"
    by (rule export_Inr)
  have "Inr ` set rss = vocabulary_requirements sha ` set (ssb_scenario_specs b)"
    using rss by (metis list.set_map set_sort sorted_specs_def)
  then have mem: "rs \<in> set rss \<longleftrightarrow> (\<exists>s \<in> set (ssb_scenario_specs b). vocabulary_requirements sha s = Inr rs)" for rs
    by (metis (no_types, opaque_lifting) Inr_inject image_iff)
  have vr: "vocabulary_requirements sha s = Inr rs \<longleftrightarrow> (\<exists>ds. slot_definitions s = Inr ds \<and> rs = map (vocabulary_requirement sha s) ds)" for s rs
    by (auto simp: vocabulary_requirements_def dest!: map_sum_Inr)
  have "r \<in> set (arm_vocabulary_requirements m) \<longleftrightarrow> (\<exists>rs. rs \<in> set rss \<and> r \<in> set rs)" by (auto simp: m)
  also have "\<dots> \<longleftrightarrow> (\<exists>rs. \<exists>s \<in> set (ssb_scenario_specs b). \<exists>ds. slot_definitions s = Inr ds
      \<and> rs = map (vocabulary_requirement sha s) ds \<and> r \<in> set rs)" unfolding mem vr by blast
  also have "\<dots> \<longleftrightarrow> (\<exists>s \<in> set (ssb_scenario_specs b). \<exists>ds. slot_definitions s = Inr ds \<and> r \<in> vocabulary_requirement sha s ` set ds)"
    unfolding set_map [symmetric] by blast
  finally show ?thesis .
qed

lemma export_sorted: "export sha b = Inr m \<Longrightarrow> sorted (map vreq_requirement_id (arm_vocabulary_requirements m))"
  by (erule export_Inr) simp

text \<open>
  The exporter fails exactly when some scenario requires a vocabulary slot whose precondition or
  effect it does not have; otherwise the requirements are sorted by identifier, and the requirements of each scenario are
  exactly those of its title, name and action slots and of the slots it requires. No requirement ever carries a
  placeholder value.
\<close>

theorem export_exact:
  "((\<exists>m. export sha b = Inr m) \<longleftrightarrow>
      (\<forall>s \<in> set (ssb_scenario_specs b). \<forall>slot \<in> set (spec_required_vocabulary_slots s). slot_resolves s slot))
   \<and> (\<forall>m. export sha b = Inr m \<longrightarrow>
      sorted (map vreq_requirement_id (arm_vocabulary_requirements m))
      \<and> (\<forall>r. r \<in> set (arm_vocabulary_requirements m) \<longleftrightarrow>
           (\<exists>s \<in> set (ssb_scenario_specs b). \<exists>ds. slot_definitions s = Inr ds \<and> r \<in> vocabulary_requirement sha s ` set ds))
      \<and> (\<forall>r \<in> set (arm_vocabulary_requirements m). vreq_placeholder_values r = []))"
  using export_total [of sha b] export_members export_sorted by (auto simp: vocabulary_requirement_def)

theorem export_exact_witness:
  "(\<exists>m. export sample_sha sample_batch = Inr m \<and> arm_vocabulary_requirements m \<noteq> [])
   \<and> \<not> (\<exists>m. export sample_sha (sample_batch\<lparr>ssb_scenario_specs := [sample_spec\<lparr>spec_preconditions := []\<rparr>]\<rparr>) = Inr m)"
proof -
  have "\<forall>s \<in> set (ssb_scenario_specs sample_batch). \<forall>slot \<in> set (spec_required_vocabulary_slots s). slot_resolves s slot"
    by (simp add: sample_defs) code_simp
  then obtain m where m: "export sample_sha sample_batch = Inr m" using export_exact by blast
  have "slot_definitions sample_spec = Inr ds \<Longrightarrow> ds \<noteq> []" for ds by (auto dest: slot_definitions_Inr simp: fixed_slots_def)
  moreover have "isl (slot_definitions sample_spec) = False" by code_simp
  then obtain es where "slot_definitions sample_spec = Inr es" by (cases "slot_definitions sample_spec") auto
  ultimately obtain ds d where "slot_definitions sample_spec = Inr ds" "d \<in> set ds" by (metis list.set_sel(1))
  moreover have "sample_spec \<in> set (ssb_scenario_specs sample_batch)" by (simp add: sample_batch_def)
  ultimately have "vocabulary_requirement sample_sha sample_spec d \<in> set (arm_vocabulary_requirements m)"
    using m export_exact [of sample_sha sample_batch] by blast
  then have "arm_vocabulary_requirements m \<noteq> []" by auto
  moreover have "\<not> slot_resolves (sample_spec\<lparr>spec_preconditions := []\<rparr>) ''s:PRECONDITION:q''" by code_simp
  then have "\<not> (\<exists>m. export sample_sha (sample_batch\<lparr>ssb_scenario_specs := [sample_spec\<lparr>spec_preconditions := []\<rparr>]\<rparr>) = Inr m)"
    using export_exact [of sample_sha "sample_batch\<lparr>ssb_scenario_specs := [sample_spec\<lparr>spec_preconditions := []\<rparr>]\<rparr>"]
    by (auto simp: sample_spec_def)
  ultimately show ?thesis using m by blast
qed

text \<open>
  The exported manifest does not depend on the order in which the batch lists its scenarios.
\<close>

theorem export_order_independent:
  assumes "distinct (map spec_scenario_spec_id (ssb_scenario_specs b))" "set specs = set (ssb_scenario_specs b)"
    and "distinct (map spec_scenario_spec_id specs)"
  shows "export sha (b\<lparr>ssb_scenario_specs := specs\<rparr>) = export sha b"
proof -
  have "sort_key spec_scenario_spec_id specs = sort_key spec_scenario_spec_id (ssb_scenario_specs b)"
  proof (rule map_sorted_distinct_set_unique)
    show "inj_on spec_scenario_spec_id
        (set (sort_key spec_scenario_spec_id specs) \<union> set (sort_key spec_scenario_spec_id (ssb_scenario_specs b)))"
      using assms by (simp add: distinct_map)
  qed (use assms in \<open>auto simp: distinct_map\<close>)
  then have s: "sorted_specs (b\<lparr>ssb_scenario_specs := specs\<rparr>) = sorted_specs b" by (simp add: sorted_specs_def)
  moreover have o: "observations_of (b\<lparr>ssb_scenario_specs := specs\<rparr>) = observations_of b" by (simp add: observations_of_def)
  moreover have "classification_requirement sha (b\<lparr>ssb_scenario_specs := specs\<rparr>) = classification_requirement sha b"
    by (intro ext) (simp add: classification_requirement_def s)
  ultimately have "classification_requirements sha (b\<lparr>ssb_scenario_specs := specs\<rparr>) = classification_requirements sha b"
    by (simp add: classification_requirements_def used_observations_def)
  then show ?thesis using s by (simp add: export_def)
qed

theorem export_order_independent_witness:
  "export sample_sha (sample_batch\<lparr>ssb_scenario_specs := [sample_spec, sample_spec\<lparr>spec_scenario_spec_id := ''t''\<rparr>]\<rparr>)
   = export sample_sha (sample_batch\<lparr>ssb_scenario_specs := [sample_spec\<lparr>spec_scenario_spec_id := ''t''\<rparr>, sample_spec]\<rparr>)"
  using export_order_independent [of "sample_batch\<lparr>ssb_scenario_specs := [sample_spec\<lparr>spec_scenario_spec_id := ''t''\<rparr>, sample_spec]\<rparr>"
      "[sample_spec, sample_spec\<lparr>spec_scenario_spec_id := ''t''\<rparr>]" sample_sha]
  by (auto simp: sample_spec_def)

end
