(* ===== verification/BddCompile.thy ===== *)
theory BddCompile
  imports Authority
begin

text \<open>
  The behaviour compiler: \<open>compiler/bdd.py\<close>. For every scenario of a batch it runs the digest,
  dependency, classification and vocabulary gates against a pair of authority snapshots, and only when no gate
  blocks renders Gherkin text with a traceability manifest and emits a candidate. The part of Python's
  \<open>str.format\<close> the templates use is modelled by \<open>formatter_parse\<close>. A raise that leaves
  \<open>compile_all\<close> is a \<open>compile_error\<close>; the ones the compiler catches become a \<open>FAILED\<close> result with the
  blocker it derives from the message. The theorems: a candidate is emitted only for a scenario that passes
  every gate, stated independently of the code's blocker sets; the three artifacts are emitted together, one triple
  per succeeded result and one result per scenario; and every emitted text is canonical and fully traced.
\<close>

section \<open>Templates\<close>

datatype format_field = Field string "char option" string

text \<open>The name of a field, up to a closing brace, a colon or an exclamation mark; brackets are skipped over.\<close>

fun field_name :: "string \<Rightarrow> (string \<times> char \<times> string) option"
  and in_brackets :: "string \<Rightarrow> (string \<times> char \<times> string) option" where
  "field_name [] = None"
| "field_name (c # s) =
     (if c = CHR ''{'' then None
      else if c = CHR ''}'' \<or> c = CHR '':'' \<or> c = CHR ''!'' then Some ([], c, s)
      else if c = CHR ''['' then map_option (\<lambda>(n, t, r). (c # n, t, r)) (in_brackets s)
      else map_option (\<lambda>(n, t, r). (c # n, t, r)) (field_name s))"
| "in_brackets [] = None"
| "in_brackets (c # s) =
     (if c = CHR '']'' then map_option (\<lambda>(n, t, r). (c # n, t, r)) (field_name s)
      else map_option (\<lambda>(n, t, r). (c # n, t, r)) (in_brackets s))"

text \<open>The format specification up to the brace that closes the field.\<close>

fun format_spec :: "nat \<Rightarrow> string \<Rightarrow> (string \<times> string) option" where
  "format_spec d [] = None"
| "format_spec d (c # s) =
     (if c = CHR ''}'' then (if d = 0 then Some ([], s) else map_option (map_prod (Cons c) id) (format_spec (d - 1) s))
      else map_option (map_prod (Cons c) id) (format_spec (if c = CHR ''{'' then Suc d else d) s))"

definition parse_field :: "string \<Rightarrow> (format_field \<times> string) option" where
  "parse_field s =
     (case field_name s of None \<Rightarrow> None
      | Some (n, t, r) \<Rightarrow>
          if t = CHR ''}'' then Some (Field n None [], r)
          else if t = CHR '':'' then map_option (\<lambda>(sp, u). (Field n None sp, u)) (format_spec 0 r)
          else (case r of [] \<Rightarrow> None
                | k # u \<Rightarrow>
                    (case u of [] \<Rightarrow> None
                     | e # w \<Rightarrow>
                         if e = CHR ''}'' then Some (Field n (Some k) [], w)
                         else if e = CHR '':'' then map_option (\<lambda>(sp, x). (Field n (Some k) sp, x)) (format_spec 0 w)
                         else None)))"

text \<open>
  \<open>Formatter().parse\<close>: pieces of literal text and fields, \<open>None\<close> for a \<open>ValueError\<close>. Each step
  consumes a character, so the length of the template bounds the fuel.
\<close>

datatype piece = Lit char | Fld format_field

fun parse_pieces :: "nat \<Rightarrow> string \<Rightarrow> piece list option" where
  "parse_pieces n [] = Some []"
| "parse_pieces 0 (c # s) = None"
| "parse_pieces (Suc n) (c # s) =
     (if c = CHR ''{'' then
        (case s of [] \<Rightarrow> None
         | d # t \<Rightarrow>
             if d = CHR ''{'' then map_option (Cons (Lit c)) (parse_pieces n t)
             else (case parse_field s of None \<Rightarrow> None
                   | Some (f, r) \<Rightarrow> map_option (Cons (Fld f)) (parse_pieces n r)))
      else if c = CHR ''}'' then
        (case s of [] \<Rightarrow> None
         | d # t \<Rightarrow> if d = CHR ''}'' then map_option (Cons (Lit c)) (parse_pieces n t) else None)
      else map_option (Cons (Lit c)) (parse_pieces n s))"

definition formatter_parse :: "string \<Rightarrow> piece list option" where
  "formatter_parse t = parse_pieces (length t) t"

fun piece_fields :: "piece list \<Rightarrow> string list" where
  "piece_fields [] = []"
| "piece_fields (Lit _ # ps) = piece_fields ps"
| "piece_fields (Fld (Field n _ _) # ps) = n # piece_fields ps"

section \<open>Errors\<close>

datatype compile_error = COMPILE_EXPORT export_error | COMPILE_TIMESTAMP ts_error | COMPILE_TEMPLATE string

definition stampC :: "ts_error + 'a \<Rightarrow> compile_error + 'a" where
  "stampC r = map_sum COMPILE_TIMESTAMP id r"

section \<open>Gates\<close>

definition batch_blockers :: "(string \<Rightarrow> string) \<Rightarrow> ScenarioSpecBatchResult \<Rightarrow> BddBlockerCode list" where
  "batch_blockers sha b =
     (if \<not> digest_valid sha (dump_scenario_spec_batch_result b) (ssb_content_digest b) then [BB_SCENARIO_SPEC_BATCH_DIGEST_INVALID] else []) @
     (if list_ex (\<lambda>s. \<not> digest_valid sha (dump_scenario_spec s) (spec_content_digest s)) (ssb_scenario_specs b)
       \<or> list_ex (\<lambda>e. \<not> digest_valid sha (dump_effect_closure_artifact e) (ecl_content_digest e)) (ssb_effect_closures b)
       \<or> list_ex (\<lambda>r. \<not> digest_valid sha (dump_resolution_vector_artifact r) (rv_content_digest r)) (ssb_resolution_vectors b)
       \<or> list_ex (\<lambda>g. \<not> digest_valid sha (dump_scenario_compiler_budget_report g) (bud_content_digest g)) (ssb_budget_reports b)
      then [BB_SCENARIO_NESTED_ARTIFACT_DIGEST_INVALID] else [])"

definition allow_test_fixture_authority :: bool where
  "allow_test_fixture_authority = True"

definition snapshot_blockers :: "(string \<Rightarrow> string) \<Rightarrow> VocabularySnapshot \<Rightarrow> ClassificationSnapshot \<Rightarrow> BddBlockerCode list" where
  "snapshot_blockers sha v c =
     (if \<not> digest_valid sha (dump_vocabulary_snapshot v) (vs_content_digest v)
       \<or> list_ex (\<lambda>m. \<not> digest_valid sha (dump_vocabulary_mapping m) (vm_content_digest m)) (vs_mappings v)
      then [BB_VOCABULARY_SNAPSHOT_DIGEST_INVALID] else []) @
     (if \<not> digest_valid sha (dump_classification_snapshot c) (cls_content_digest c)
       \<or> list_ex (\<lambda>a. \<not> digest_valid sha (dump_classification_approval a) (ca_content_digest a)) (cls_approvals c)
      then [BB_CLASSIFICATION_SNAPSHOT_DIGEST_INVALID] else []) @
     (if vs_authority_scope v \<noteq> cls_authority_scope c then [BB_AUTHORITY_SCOPE_MISMATCH] else []) @
     (if vs_authority_scope v = AS_TEST_FIXTURE_ONLY \<and> \<not> allow_test_fixture_authority then [BB_AUTHORITY_SCOPE_MISMATCH] else [])"

definition resolution_values :: "ResolutionVectorArtifact \<Rightarrow> ResolutionStatus list" where
  "resolution_values r = [rv_routine_resolution r, rv_view_resolution r, rv_udf_resolution r, rv_trigger_resolution r,
     rv_constraint_resolution r, rv_dynamic_relation_resolution r]"

definition resolution_sufficient :: "ResolutionVectorArtifact \<Rightarrow> AuthorityScope \<Rightarrow> bool" where
  "resolution_sufficient r scope =
     (if RS_UNRESOLVED \<in> set (resolution_values r) then False
      else (case scope of
              AS_PLATFORM \<Rightarrow> list_all (\<lambda>v. v \<in> {RS_RESOLVED, RS_RESOLVED_SOURCE_ONLY, RS_NOT_APPLICABLE}) (resolution_values r)
            | AS_TEST_FIXTURE_ONLY \<Rightarrow> True))"

text \<open>\<open>[value for value in values if timestamp_active(...)]\<close>.\<close>

definition filter_active :: "string \<Rightarrow> ('a \<Rightarrow> string) \<Rightarrow> ('a \<Rightarrow> string option) \<Rightarrow> 'a list \<Rightarrow> compile_error + 'a list" where
  "filter_active at f t xs =
     map_sum id (\<lambda>bs. map snd (filter fst (zip bs xs))) (seq_results (map (\<lambda>x. stampC (timestamp_active at (f x) (t x))) xs))"

definition approvals_for :: "ClassificationSnapshot \<Rightarrow> string \<Rightarrow> ClassificationApproval list" where
  "approvals_for c r = sort_key ca_approval_id (filter (\<lambda>a. ca_classification_observation_ref a = r) (cls_approvals c))"

definition precondition_gate ::
  "(string \<Rightarrow> string) \<Rightarrow> ScenarioSpecBatchResult \<Rightarrow> ClassificationSnapshot \<Rightarrow> string \<Rightarrow> ScenarioPrecondition
   \<Rightarrow> compile_error + (ClassificationApproval list \<times> BddBlockerCode list)" where
  "precondition_gate sha b c at p =
     (case pre_classification_observation_ref p of
        None \<Rightarrow> Inr ([], [BB_MISSING_CLASSIFICATION_APPROVAL])
      | Some r \<Rightarrow>
          bindE (filter_active at ca_valid_from ca_valid_to (approvals_for c r)) (\<lambda>active.
          case map_of (observations_of b) r of
            None \<Rightarrow> Inr ([], [BB_MISSING_CLASSIFICATION_APPROVAL])
          | Some v \<Rightarrow>
              if approvals_for c r = [] then Inr ([], [BB_MISSING_CLASSIFICATION_APPROVAL])
              else (case active of
                  [] \<Rightarrow> Inr ([], [BB_CLASSIFICATION_APPROVAL_NOT_EFFECTIVE])
                | [a] \<Rightarrow> Inr ([a],
                    (if ca_authority_scope a \<noteq> cls_authority_scope c then [BB_AUTHORITY_SCOPE_MISMATCH] else []) @
                    (if ca_approved_candidate a \<noteq> obs_candidate v then [BB_CLASSIFICATION_CANDIDATE_MISMATCH] else []) @
                    (if ca_classification_observation_digest a \<noteq> digest_text sha (dump_classification_observation v)
                     then [BB_CLASSIFICATION_OBSERVATION_DIGEST_MISMATCH] else []))
                | _ \<Rightarrow> Inr ([], [BB_AMBIGUOUS_CLASSIFICATION_APPROVAL]))))"

definition classification_gate ::
  "(string \<Rightarrow> string) \<Rightarrow> ScenarioSpecBatchResult \<Rightarrow> ClassificationSnapshot \<Rightarrow> string \<Rightarrow> ScenarioSpec
   \<Rightarrow> compile_error + (ClassificationApproval list \<times> BddBlockerCode list)" where
  "classification_gate sha b c at s =
     map_sum id (\<lambda>rs. (sort_key ca_approval_id (concat (map fst rs)), concat (map snd rs)))
       (seq_results (map (precondition_gate sha b c at) (spec_preconditions s)))"

definition mapping_matches :: "VocabularyRequirement \<Rightarrow> VocabularyMapping \<Rightarrow> bool" where
  "mapping_matches r m =
     (let same = (vm_normalized_technical_pattern_ref m = vreq_normalized_technical_pattern_ref r) in
      case vm_mapping_kind m of
        MK_EXACT_APPROVED_MAPPING \<Rightarrow> same
      | MK_STRUCTURAL_APPROVED_MAPPING \<Rightarrow> same \<and> vm_structural_context_digest m = Some (vreq_structural_context_digest r)
      | MK_SYMBOL_BOUND_APPROVED_MAPPING \<Rightarrow> same \<and> sort (vm_symbol_binding_refs m) = sort (vreq_symbol_binding_refs r)
      | MK_MANUALLY_APPROVED_MAPPING \<Rightarrow> vm_manual_requirement_ref m = Some (vreq_requirement_id r)
      | MK_MAPPING_CANDIDATE_ONLY \<Rightarrow> same)"

definition placeholder_bindings_valid :: "VocabularyMapping \<Rightarrow> VocabularyRequirement \<Rightarrow> compile_error + bool" where
  "placeholder_bindings_valid m r =
     (case formatter_parse (vm_phrase_template m) of None \<Rightarrow> Inl (COMPILE_TEMPLATE (vm_phrase_template m))
      | Some ps \<Rightarrow>
          (let contract = set (map plc_placeholder (vm_placeholder_contract m));
               vals = set (map plv_placeholder (vreq_placeholder_values r));
               required = set (map plc_placeholder (filter plc_required (vm_placeholder_contract m)))
           in Inr (set (piece_fields ps) = contract \<and> required \<subseteq> vals \<and> vals \<subseteq> contract)))"

definition requirement_gate ::
  "VocabularySnapshot \<Rightarrow> string \<Rightarrow> ScenarioSpec \<Rightarrow> VocabularyRequirement
   \<Rightarrow> compile_error + ((VocabularyRequirement \<times> VocabularyMapping) list \<times> BddBlockerCode list)" where
  "requirement_gate v at s r =
     (let semantic = filter (mapping_matches r) (vs_mappings v) in
      bindE (filter_active at vm_valid_from vm_valid_to semantic) (\<lambda>active.
      if semantic = [] then Inr ([], [BB_NO_APPROVED_BUSINESS_TERM])
      else if active = [] then Inr ([], [BB_MAPPING_NOT_EFFECTIVE])
      else (case filter (\<lambda>m. vm_mapping_kind m \<noteq> MK_MAPPING_CANDIDATE_ONLY) active of
              [] \<Rightarrow> Inr ([], [BB_NON_PROMOTABLE_MAPPING_KIND])
            | [m] \<Rightarrow>
                bindE (placeholder_bindings_valid m r) (\<lambda>ok. Inr ([(r, m)],
                  (if vm_authority_scope m \<noteq> vs_authority_scope v then [BB_AUTHORITY_SCOPE_MISMATCH] else []) @
                  (if vreq_slot_kind r = SK_EFFECT \<and>
                     (case map_of (dict_of (map (\<lambda>e. (eff_effect_ref e, eff_modality e)) (spec_effects s))) (vreq_source_ref r) of
                        None \<Rightarrow> True | Some md \<Rightarrow> md \<notin> set (vm_supported_modalities m))
                   then [BB_MODALITY_NOT_APPROVED_BY_MAPPING] else []) @
                  (if \<not> ok then [BB_PLACEHOLDER_BINDING_INVALID] else [])))
            | _ \<Rightarrow> Inr ([], [BB_AMBIGUOUS_APPROVED_BUSINESS_TERM]))))"

definition mapping_gate ::
  "VocabularySnapshot \<Rightarrow> string \<Rightarrow> ScenarioSpec \<Rightarrow> VocabularyRequirement list
   \<Rightarrow> compile_error + ((VocabularyRequirement \<times> VocabularyMapping) list \<times> BddBlockerCode list)" where
  "mapping_gate v at s rs =
     map_sum id (\<lambda>gs. (sort_key (\<lambda>p. vreq_requirement_id (fst p)) (concat (map fst gs)), concat (map snd gs)))
       (seq_results (map (requirement_gate v at s) rs))"

definition nested_blockers :: "(string \<Rightarrow> string) \<Rightarrow> ScenarioSpecBatchResult \<Rightarrow> AuthorityScope \<Rightarrow> ScenarioSpec \<Rightarrow> BddBlockerCode list" where
  "nested_blockers sha b scope s =
     (case (map_of (dict_of (map (\<lambda>x. (ecl_effect_closure_id x, x)) (ssb_effect_closures b))) (spec_effect_closure_ref s),
            map_of (dict_of (map (\<lambda>x. (rv_resolution_vector_id x, x)) (ssb_resolution_vectors b))) (spec_resolution_vector_ref s),
            map_of (dict_of (map (\<lambda>x. (bud_budget_report_id x, x)) (ssb_budget_reports b))) (spec_analysis_budget_report_ref s)) of
        (Some e, Some r, Some g) \<Rightarrow>
          (if \<not> digest_valid sha (dump_effect_closure_artifact e) (ecl_content_digest e)
             \<or> \<not> digest_valid sha (dump_resolution_vector_artifact r) (rv_content_digest r)
             \<or> \<not> digest_valid sha (dump_scenario_compiler_budget_report g) (bud_content_digest g)
           then [BB_SCENARIO_NESTED_ARTIFACT_DIGEST_INVALID] else []) @
          (if ecl_completeness e \<noteq> ECC_CLOSED_WITHIN_SCOPE then [BB_EFFECT_CLOSURE_INSUFFICIENT] else []) @
          (if \<not> resolution_sufficient r scope then [BB_DEPENDENCY_RESOLUTION_INCOMPLETE] else [])
      | _ \<Rightarrow> [BB_SCENARIO_NESTED_ARTIFACT_DIGEST_INVALID])"

definition effect_blockers :: "ScenarioSpec \<Rightarrow> BddBlockerCode list" where
  "effect_blockers s =
     (if list_ex (\<lambda>e. eff_modality e \<notin> {EM_MUST, EM_MUST_NOT, EM_MUST_IF_CALLER_CONTRACT_HOLDS}) (spec_expected_effects s)
      then [BB_NON_DEFINITIVE_EFFECT] else []) @
     (if spec_expected_effects s = [] then [BB_GHERKIN_STRUCTURE_INVALID] else [])"

section \<open>Rendering\<close>

text \<open>
  \<open>phrase_template.format(**values)\<close>: a field without a value raises. A value is inserted as it is when
  the field has no conversion or format specification, the only fields whose values a requirement could carry.
\<close>

fun render_pieces :: "(string \<times> string) list \<Rightarrow> piece list \<Rightarrow> string option" where
  "render_pieces vals [] = Some []"
| "render_pieces vals (Lit c # ps) = map_option (Cons c) (render_pieces vals ps)"
| "render_pieces vals (Fld (Field n k sp) # ps) =
     (case map_of vals n of None \<Rightarrow> None
      | Some t \<Rightarrow> if sp = [] \<and> (k = None \<or> k = Some (CHR ''s'')) then map_option (append t) (render_pieces vals ps) else None)"

text \<open>The errors the compiler catches, as the text of the exception.\<close>

type_synonym 'a rendered = "string + 'a"

definition render_phrase :: "VocabularyMapping \<Rightarrow> VocabularyRequirement \<Rightarrow> string rendered" where
  "render_phrase m r =
     (case formatter_parse (vm_phrase_template m) of None \<Rightarrow> Inl ''Placeholder rendering failed.''
      | Some ps \<Rightarrow>
          (case render_pieces (dict_of (map (\<lambda>p. (plv_placeholder p, plv_value p)) (vreq_placeholder_values r))) ps of
             None \<Rightarrow> Inl ''Placeholder rendering failed.'' | Some t \<Rightarrow> Inr t))"

definition need_key :: "(string \<times> 'v) list \<Rightarrow> string \<Rightarrow> 'v rendered" where
  "need_key d k = (case map_of d k of None \<Rightarrow> Inl (py_repr_str k) | Some v \<Rightarrow> Inr v)"

definition single_requirement :: "VocabularyRequirement list \<Rightarrow> VocabularySlotKind \<Rightarrow> VocabularyRequirement rendered" where
  "single_requirement rs k =
     (case filter (\<lambda>r. vreq_slot_kind r = k) rs of
        [r] \<Rightarrow> Inr r
      | vs \<Rightarrow> Inl (''Expected exactly one '' @ vocabulary_slot_kind_value k @ '' requirement, found '' @ nat_dec (length vs) @ ''.''))"

definition binding_of ::
  "(string \<Rightarrow> string) \<Rightarrow> ScenarioSpec \<Rightarrow> nat \<Rightarrow> string \<Rightarrow> VocabularyRequirement \<Rightarrow> VocabularyMapping \<Rightarrow> string list \<Rightarrow> string list
   \<Rightarrow> string list \<Rightarrow> GherkinElementBinding" where
  "binding_of sha s i k r m elements evidence refs =
     \<lparr>geb_element_id = stable_id sha ''gherkin-element'' [spec_scenario_spec_id s, nat_dec i, vreq_requirement_id r, vm_mapping_id m],
      geb_element_kind = k, geb_scenario_spec_element_refs = elements, geb_authority_requirement_ref = vreq_requirement_id r,
      geb_mapping_ref = vm_mapping_id m, geb_effect_or_precondition_refs = refs, geb_evidence_refs = sort evidence\<rparr>"

text \<open>One rendered element: its line and its binding.\<close>

definition element ::
  "(string \<Rightarrow> string) \<Rightarrow> ScenarioSpec \<Rightarrow> (string \<times> VocabularyMapping) list \<Rightarrow> nat \<Rightarrow> string \<Rightarrow> string \<Rightarrow> VocabularyRequirement
   \<Rightarrow> string list \<Rightarrow> string list \<Rightarrow> string list \<Rightarrow> (string \<times> GherkinElementBinding) rendered" where
  "element sha s mappings i lead k r elements evidence refs =
     bindE (need_key mappings (vreq_requirement_id r)) (\<lambda>m.
     bindE (render_phrase m r) (\<lambda>t. Inr (lead @ t, binding_of sha s i k r m elements evidence refs)))"

definition by_source :: "VocabularyRequirement list \<Rightarrow> VocabularySlotKind \<Rightarrow> (string \<times> VocabularyRequirement) list" where
  "by_source rs k = dict_of (map (\<lambda>r. (vreq_source_ref r, r)) (filter (\<lambda>r. vreq_slot_kind r = k) rs))"

definition precondition_element ::
  "(string \<Rightarrow> string) \<Rightarrow> ScenarioSpec \<Rightarrow> (string \<times> VocabularyMapping) list \<Rightarrow> VocabularyRequirement list \<Rightarrow> nat \<times> ScenarioPrecondition
   \<Rightarrow> (string \<times> GherkinElementBinding) rendered" where
  "precondition_element sha s mappings rs ip =
     (case ip of (i, p) \<Rightarrow>
       bindE (need_key (by_source rs SK_PRECONDITION) (pre_technical_fact_ref p)) (\<lambda>r.
       element sha s mappings (2 + i) (if i = 0 then ''    Given '' else ''    And '') (if i = 0 then ''GIVEN'' else ''AND'') r
         [pre_precondition_id p] (pre_evidence_refs p) [pre_technical_fact_ref p]))"

definition effect_element ::
  "(string \<Rightarrow> string) \<Rightarrow> ScenarioSpec \<Rightarrow> (string \<times> VocabularyMapping) list \<Rightarrow> VocabularyRequirement list \<Rightarrow> nat \<times> ScenarioEffect
   \<Rightarrow> (string \<times> GherkinElementBinding) rendered" where
  "effect_element sha s mappings rs ie =
     (case ie of (i, e) \<Rightarrow>
       bindE (need_key (by_source rs SK_EFFECT) (eff_effect_ref e)) (\<lambda>r.
       element sha s mappings (3 + length (spec_preconditions s) + i) (if i = 0 then ''    Then '' else ''    And '')
         (if i = 0 then ''THEN'' else ''AND'') r [eff_effect_ref e] (eff_evidence_refs e) [eff_effect_ref e]))"

definition render_elements ::
  "(string \<Rightarrow> string) \<Rightarrow> ScenarioSpec \<Rightarrow> VocabularyRequirement list \<Rightarrow> (string \<times> VocabularyMapping) list
   \<Rightarrow> ((string \<times> GherkinElementBinding) list) rendered" where
  "render_elements sha s rs mappings =
     bindE (single_requirement rs SK_FEATURE_TITLE) (\<lambda>fr.
     bindE (single_requirement rs SK_SCENARIO_NAME) (\<lambda>nr.
     bindE (single_requirement rs SK_ACTION) (\<lambda>ar.
     bindE (element sha s mappings 0 ''Feature: '' ''FEATURE'' fr [spec_procedure_identity_ref s] (spec_evidence_refs s) []) (\<lambda>fe.
     bindE (element sha s mappings 1 ''  Scenario: '' ''SCENARIO_NAME'' nr [spec_scenario_spec_id s] (spec_evidence_refs s) []) (\<lambda>ne.
     bindE (seq_results (map (precondition_element sha s mappings rs) (enumerate 0 (spec_preconditions s)))) (\<lambda>ps.
     bindE (element sha s mappings (2 + length (spec_preconditions s)) ''    When '' ''WHEN'' ar
         [act_invocation_contract_ref (spec_action s)] (act_evidence_refs (spec_action s)) []) (\<lambda>ae.
     bindE (seq_results (map (effect_element sha s mappings rs) (enumerate 0 (spec_expected_effects s)))) (\<lambda>es.
     Inr (fe # ne # ps @ ae # es)))))))))"

definition gherkin_lines :: "(string \<times> GherkinElementBinding) list \<Rightarrow> string list" where
  "gherkin_lines els = (case map fst els of [] \<Rightarrow> [] | f # ls \<Rightarrow> f # [] # ls)"

definition gherkin_message :: "gherkin_error \<Rightarrow> string" where
  "gherkin_message e =
     (case e of EMPTY_GHERKIN \<Rightarrow> ''Gherkin artifact cannot be empty.'' | NUL_IN_GHERKIN \<Rightarrow> ''Gherkin artifact contains a NUL character.'')"

definition render ::
  "(string \<Rightarrow> string) \<Rightarrow> ScenarioSpec \<Rightarrow> VocabularyRequirement list \<Rightarrow> (string \<times> VocabularyMapping) list \<Rightarrow> ClassificationApproval list
   \<Rightarrow> string \<Rightarrow> string \<Rightarrow> (GherkinArtifact \<times> TraceabilityManifest) rendered" where
  "render sha s rs mappings approvals vd cd =
     bindE (render_elements sha s rs mappings) (\<lambda>els.
     bindE (map_sum gherkin_message id (canonical_gherkin_text (py_join [nl] (gherkin_lines els)))) (\<lambda>text.
     bindE (map_sum gherkin_message id (gherkin_digest sha text)) (\<lambda>d.
       let a = \<lparr>ga_artifact_id = stable_id sha ''gherkin-artifact'' [spec_scenario_spec_id s, d], ga_behavior_id = spec_behavior_id s,
                ga_source_symbol_id = spec_source_symbol_id s, ga_symbol_lineage_id = spec_symbol_lineage_id s,
                ga_artifact_revision_id = spec_artifact_revision_id s, ga_text = text, ga_content_digest = d\<rparr>;
           m = \<lparr>tm_manifest_id = stable_id sha ''traceability-manifest'' [spec_scenario_spec_id s, d],
                tm_behavior_id = spec_behavior_id s, tm_source_symbol_id = spec_source_symbol_id s,
                tm_symbol_lineage_id = spec_symbol_lineage_id s, tm_artifact_revision_id = spec_artifact_revision_id s,
                tm_scenario_spec_ref = spec_scenario_spec_id s, tm_gherkin_artifact_ref = ga_artifact_id a,
                tm_element_bindings = map snd els,
                tm_input_digest_set = sort (remdups ([spec_content_digest s, vd, cd] @ map (\<lambda>p. vm_content_digest (snd p)) mappings
                  @ map ca_content_digest approvals)),
                tm_content_digest = []\<rparr>
       in Inr (a, m\<lparr>tm_content_digest := digest_text sha (without_digest (dump_traceability_manifest m))\<rparr>))))"

section \<open>Compilation\<close>

text \<open>What \<open>compile_all\<close> computes once for the batch.\<close>

record compile_context =
  cx_batch :: ScenarioSpecBatchResult
  cx_vocabulary :: VocabularySnapshot
  cx_classification :: ClassificationSnapshot
  cx_requirements :: AuthorityRequirementsManifest
  cx_at :: string

definition configuration_digest :: "(string \<Rightarrow> string) \<Rightarrow> string" where
  "configuration_digest sha = digest_text sha (str_dict
     [(''dialect'', PStr ''en''), (''allow_test_fixture_authority'', PBool True),
      (''platform_requires_full_dependency_resolution'', PBool True), (''unicode_normalization'', PStr ''NFC''), (''newline'', PStr ''LF'')])"

definition compilation_result ::
  "(string \<Rightarrow> string) \<Rightarrow> compile_context \<Rightarrow> ScenarioSpec \<Rightarrow> BddCompilationStatus \<Rightarrow> BddBlockerCode list
   \<Rightarrow> (VocabularyRequirement \<times> VocabularyMapping) list \<Rightarrow> ClassificationApproval list \<Rightarrow> string option \<Rightarrow> string option \<Rightarrow> BddCompilationResult" where
  "compilation_result sha cx s status blockers mappings approvals candidate output =
     \<lparr>bcr_compilation_status = status, bcr_scenario_spec_ref = spec_scenario_spec_id s, bcr_candidate_bdd_ref = candidate,
      bcr_blockers = sort_key bdd_blocker_code_value (remdups blockers),
      bcr_mapping_refs = sort (map (\<lambda>p. vm_mapping_id (snd p)) mappings),
      bcr_classification_approval_refs = sort (map ca_approval_id approvals), bcr_finding_refs = spec_finding_refs s,
      bcr_input_scenario_spec_digest = spec_content_digest s,
      bcr_authority_requirements_digest = arm_content_digest (cx_requirements cx),
      bcr_vocabulary_snapshot_digest = vs_content_digest (cx_vocabulary cx),
      bcr_classification_snapshot_digest = cls_content_digest (cx_classification cx),
      bcr_compiler_configuration_digest = configuration_digest sha, bcr_effective_timestamp = cx_at cx, bcr_output_digest = output\<rparr>"

definition candidate_of ::
  "(string \<Rightarrow> string) \<Rightarrow> compile_context \<Rightarrow> ScenarioSpec \<Rightarrow> GherkinArtifact \<Rightarrow> TraceabilityManifest \<Rightarrow> CandidateBdd" where
  "candidate_of sha cx s a m =
     (let c = \<lparr>cb_candidate_bdd_id = stable_id sha ''candidate-bdd''
                 [spec_content_digest s, arm_content_digest (cx_requirements cx), vs_content_digest (cx_vocabulary cx),
                  cls_content_digest (cx_classification cx), ga_content_digest a, tm_content_digest m, configuration_digest sha],
               cb_behavior_id = spec_behavior_id s, cb_source_symbol_id = spec_source_symbol_id s,
               cb_symbol_lineage_id = spec_symbol_lineage_id s, cb_artifact_revision_id = spec_artifact_revision_id s,
               cb_scenario_spec_ref = spec_scenario_spec_id s, cb_gherkin_artifact_ref = ga_artifact_id a,
               cb_traceability_manifest_ref = tm_manifest_id m,
               cb_authority_requirements_digest = arm_content_digest (cx_requirements cx),
               cb_vocabulary_snapshot_digest = vs_content_digest (cx_vocabulary cx),
               cb_classification_snapshot_digest = cls_content_digest (cx_classification cx),
               cb_authority_scope = vs_authority_scope (cx_vocabulary cx), cb_platform_governance_ref = None, cb_content_digest = []\<rparr>
      in c\<lparr>cb_content_digest := digest_text sha (without_digest (dump_candidate_bdd c))\<rparr>)"

text \<open>The \<open>try\<close> block: the checks after rendering and the candidate.\<close>

definition emit ::
  "(string \<Rightarrow> string) \<Rightarrow> compile_context \<Rightarrow> ScenarioSpec \<Rightarrow> VocabularyRequirement list \<Rightarrow> (VocabularyRequirement \<times> VocabularyMapping) list
   \<Rightarrow> ClassificationApproval list \<Rightarrow> (GherkinArtifact \<times> TraceabilityManifest \<times> CandidateBdd) rendered" where
  "emit sha cx s rs mappings approvals =
     bindE (render sha s (map snd (dict_of (map (\<lambda>r. (vreq_requirement_id r, r)) rs)))
         (dict_of (map (\<lambda>(r, m). (vreq_requirement_id r, m)) mappings)) approvals
         (vs_content_digest (cx_vocabulary cx)) (cls_content_digest (cx_classification cx))) (\<lambda>(a, m).
     if \<not> digest_valid sha (dump_traceability_manifest m) (tm_content_digest m) \<or> gherkin_digest sha (ga_text a) \<noteq> Inr (ga_content_digest a)
     then Inl ''Generated artifact or traceability digest did not validate.''
     else if length (tm_element_bindings m) \<noteq> 3 + length (spec_preconditions s) + length (spec_expected_effects s)
     then Inl ''Traceability manifest does not cover every rendered element.''
     else (let c = candidate_of sha cx s a m in
           if \<not> digest_valid sha (dump_candidate_bdd c) (cb_content_digest c) then Inl ''CandidateBDD digest did not validate.''
           else Inr (a, m, c)))"

definition spec_requirements :: "compile_context \<Rightarrow> ScenarioSpec \<Rightarrow> VocabularyRequirement list" where
  "spec_requirements cx s =
     sort_key vreq_requirement_id (filter (\<lambda>r. vreq_scenario_spec_ref r = spec_scenario_spec_id s)
       (arm_vocabulary_requirements (cx_requirements cx)))"

definition failure_blocker :: "string \<Rightarrow> BddBlockerCode" where
  "failure_blocker msg =
     (if py_in ''traceability'' (py_lower msg) then BB_TRACEABILITY_MANIFEST_FAILED else BB_COMPILATION_INTERNAL_ERROR)"

type_synonym compiled = "BddCompilationResult \<times> (GherkinArtifact \<times> TraceabilityManifest \<times> CandidateBdd) option"

definition compile_spec :: "(string \<Rightarrow> string) \<Rightarrow> compile_context \<Rightarrow> ScenarioSpec \<Rightarrow> compile_error + compiled" where
  "compile_spec sha cx s =
     bindE (classification_gate sha (cx_batch cx) (cx_classification cx) (cx_at cx) s) (\<lambda>(approvals, cb).
     bindE (mapping_gate (cx_vocabulary cx) (cx_at cx) s (spec_requirements cx s)) (\<lambda>(mappings, mb).
       let blockers = batch_blockers sha (cx_batch cx) @ snapshot_blockers sha (cx_vocabulary cx) (cx_classification cx) @
             (if \<not> digest_valid sha (dump_scenario_spec s) (spec_content_digest s) then [BB_SCENARIO_SPEC_DIGEST_INVALID] else []) @
             nested_blockers sha (cx_batch cx) (vs_authority_scope (cx_vocabulary cx)) s @ cb @ mb @ effect_blockers s
       in Inr (if blockers \<noteq> [] then (compilation_result sha cx s BCS_BLOCKED blockers mappings approvals None None, None)
               else (case emit sha cx s (spec_requirements cx s) mappings approvals of
                       Inl msg \<Rightarrow> (compilation_result sha cx s BCS_FAILED [failure_blocker msg] mappings approvals None None, None)
                     | Inr (a, m, c) \<Rightarrow>
                         (compilation_result sha cx s BCS_SUCCEEDED [] mappings approvals (Some (cb_candidate_bdd_id c))
                            (Some (cb_content_digest c)), Some (a, m, c))))))"

definition compile_at :: "string option \<Rightarrow> VocabularySnapshot \<Rightarrow> ClassificationSnapshot \<Rightarrow> compile_error + string" where
  "compile_at t v c =
     stampC (canonical_timestamp (case t of
       Some x \<Rightarrow> if x = [] then max (vs_effective_timestamp v) (cls_effective_timestamp c) else x
     | None \<Rightarrow> max (vs_effective_timestamp v) (cls_effective_timestamp c)))"

definition compile_all ::
  "(string \<Rightarrow> string) \<Rightarrow> ScenarioSpecBatchResult \<Rightarrow> VocabularySnapshot \<Rightarrow> ClassificationSnapshot \<Rightarrow> string option
   \<Rightarrow> compile_error + BddCompilationBatch" where
  "compile_all sha b v c t =
     bindE (map_sum COMPILE_EXPORT id (export sha b)) (\<lambda>rq.
     bindE (compile_at t v c) (\<lambda>at.
     let cx = \<lparr>cx_batch = b, cx_vocabulary = v, cx_classification = c, cx_requirements = rq, cx_at = at\<rparr> in
     bindE (seq_results (map (compile_spec sha cx) (sorted_specs b))) (\<lambda>rs.
     let out = List.map_filter snd rs;
         r = \<lparr>bcb_scenario_spec_batch_digest = ssb_content_digest b, bcb_authority_requirements_ref = arm_manifest_id rq,
              bcb_authority_requirements_digest = arm_content_digest rq, bcb_vocabulary_snapshot_ref = vs_snapshot_id v,
              bcb_vocabulary_snapshot_digest = vs_content_digest v, bcb_classification_snapshot_ref = cls_snapshot_id c,
              bcb_classification_snapshot_digest = cls_content_digest c, bcb_authority_scope = vs_authority_scope v,
              bcb_gherkin_artifacts = sort_key ga_artifact_id (map fst out),
              bcb_traceability_manifests = sort_key tm_manifest_id (map (\<lambda>x. fst (snd x)) out),
              bcb_candidate_bdds = sort_key cb_candidate_bdd_id (map (\<lambda>x. snd (snd x)) out),
              bcb_compilation_results = sort_key bcr_scenario_spec_ref (map fst rs), bcb_content_digest = []\<rparr>
     in Inr (r\<lparr>bcb_content_digest := digest_text sha (without_digest (dump_bdd_compilation_batch r))\<rparr>))))"

section \<open>The gates, stated over the snapshots\<close>

definition in_force :: "string \<Rightarrow> string \<Rightarrow> string option \<Rightarrow> bool" where
  "in_force at f e = (timestamp_active at f e = Inr True)"

text \<open>A precondition whose observation has exactly one approval in force, which approves what was observed.\<close>

definition approval_ok ::
  "(string \<Rightarrow> string) \<Rightarrow> ScenarioSpecBatchResult \<Rightarrow> ClassificationSnapshot \<Rightarrow> string \<Rightarrow> ScenarioPrecondition \<Rightarrow> bool" where
  "approval_ok sha b c at p =
     (\<exists>r v a. pre_classification_observation_ref p = Some r \<and> map_of (observations_of b) r = Some v
      \<and> filter (\<lambda>a. ca_classification_observation_ref a = r \<and> in_force at (ca_valid_from a) (ca_valid_to a)) (cls_approvals c) = [a]
      \<and> ca_authority_scope a = cls_authority_scope c \<and> ca_approved_candidate a = obs_candidate v
      \<and> ca_classification_observation_digest a = digest_text sha (dump_classification_observation v))"

text \<open>A requirement with exactly one promotable mapping in force, whose template its placeholders fit.\<close>

definition mapping_ok :: "VocabularySnapshot \<Rightarrow> string \<Rightarrow> ScenarioSpec \<Rightarrow> VocabularyRequirement \<Rightarrow> VocabularyMapping \<Rightarrow> bool" where
  "mapping_ok v at s r m =
     (filter (\<lambda>m. mapping_matches r m \<and> in_force at (vm_valid_from m) (vm_valid_to m) \<and> vm_mapping_kind m \<noteq> MK_MAPPING_CANDIDATE_ONLY)
        (vs_mappings v) = [m]
      \<and> vm_authority_scope m = vs_authority_scope v
      \<and> (vreq_slot_kind r = SK_EFFECT \<longrightarrow> (\<exists>md. map_of (dict_of (map (\<lambda>e. (eff_effect_ref e, eff_modality e)) (spec_effects s)))
            (vreq_source_ref r) = Some md \<and> md \<in> set (vm_supported_modalities m)))
      \<and> placeholder_bindings_valid m r = Inr True)"

definition closed_and_resolved :: "(string \<Rightarrow> string) \<Rightarrow> ScenarioSpecBatchResult \<Rightarrow> AuthorityScope \<Rightarrow> ScenarioSpec \<Rightarrow> bool" where
  "closed_and_resolved sha b scope s =
     (\<exists>e r g. map_of (dict_of (map (\<lambda>x. (ecl_effect_closure_id x, x)) (ssb_effect_closures b))) (spec_effect_closure_ref s) = Some e
      \<and> map_of (dict_of (map (\<lambda>x. (rv_resolution_vector_id x, x)) (ssb_resolution_vectors b))) (spec_resolution_vector_ref s) = Some r
      \<and> map_of (dict_of (map (\<lambda>x. (bud_budget_report_id x, x)) (ssb_budget_reports b))) (spec_analysis_budget_report_ref s) = Some g
      \<and> digest_valid sha (dump_effect_closure_artifact e) (ecl_content_digest e)
      \<and> digest_valid sha (dump_resolution_vector_artifact r) (rv_content_digest r)
      \<and> digest_valid sha (dump_scenario_compiler_budget_report g) (bud_content_digest g)
      \<and> ecl_completeness e = ECC_CLOSED_WITHIN_SCOPE \<and> RS_UNRESOLVED \<notin> set (resolution_values r)
      \<and> (scope = AS_PLATFORM \<longrightarrow> set (resolution_values r) \<subseteq> {RS_RESOLVED, RS_RESOLVED_SOURCE_ONLY, RS_NOT_APPLICABLE}))"

definition batch_intact :: "(string \<Rightarrow> string) \<Rightarrow> ScenarioSpecBatchResult \<Rightarrow> bool" where
  "batch_intact sha b =
     (digest_valid sha (dump_scenario_spec_batch_result b) (ssb_content_digest b)
      \<and> (\<forall>s \<in> set (ssb_scenario_specs b). digest_valid sha (dump_scenario_spec s) (spec_content_digest s))
      \<and> (\<forall>e \<in> set (ssb_effect_closures b). digest_valid sha (dump_effect_closure_artifact e) (ecl_content_digest e))
      \<and> (\<forall>r \<in> set (ssb_resolution_vectors b). digest_valid sha (dump_resolution_vector_artifact r) (rv_content_digest r))
      \<and> (\<forall>g \<in> set (ssb_budget_reports b). digest_valid sha (dump_scenario_compiler_budget_report g) (bud_content_digest g)))"

definition snapshots_intact :: "(string \<Rightarrow> string) \<Rightarrow> VocabularySnapshot \<Rightarrow> ClassificationSnapshot \<Rightarrow> bool" where
  "snapshots_intact sha v c =
     (digest_valid sha (dump_vocabulary_snapshot v) (vs_content_digest v)
      \<and> (\<forall>m \<in> set (vs_mappings v). digest_valid sha (dump_vocabulary_mapping m) (vm_content_digest m))
      \<and> digest_valid sha (dump_classification_snapshot c) (cls_content_digest c)
      \<and> (\<forall>a \<in> set (cls_approvals c). digest_valid sha (dump_classification_approval a) (ca_content_digest a))
      \<and> vs_authority_scope v = cls_authority_scope c)"

definition effects_definitive :: "ScenarioSpec \<Rightarrow> bool" where
  "effects_definitive s =
     (spec_expected_effects s \<noteq> []
      \<and> (\<forall>e \<in> set (spec_expected_effects s). eff_modality e \<in> {EM_MUST, EM_MUST_NOT, EM_MUST_IF_CALLER_CONTRACT_HOLDS}))"

definition gates_pass :: "(string \<Rightarrow> string) \<Rightarrow> compile_context \<Rightarrow> ScenarioSpec \<Rightarrow> bool" where
  "gates_pass sha cx s =
     (batch_intact sha (cx_batch cx) \<and> snapshots_intact sha (cx_vocabulary cx) (cx_classification cx)
      \<and> digest_valid sha (dump_scenario_spec s) (spec_content_digest s)
      \<and> closed_and_resolved sha (cx_batch cx) (vs_authority_scope (cx_vocabulary cx)) s
      \<and> (\<forall>p \<in> set (spec_preconditions s). approval_ok sha (cx_batch cx) (cx_classification cx) (cx_at cx) p)
      \<and> (\<forall>r \<in> set (spec_requirements cx s). \<exists>m. mapping_ok (cx_vocabulary cx) (cx_at cx) s r m)
      \<and> effects_definitive s)"

lemma filter_active_Inr:
  assumes "filter_active at f t xs = Inr ys"
  shows "ys = filter (\<lambda>x. in_force at (f x) (t x)) xs"
proof -
  from assms obtain bs where bs: "seq_results (map (\<lambda>x. stampC (timestamp_active at (f x) (t x))) xs) = Inr bs"
    and ys: "ys = map snd (filter fst (zip bs xs))" by (auto simp: filter_active_def dest!: map_sum_Inr)
  from seq_results_elements [OF bs] show ?thesis unfolding ys
  proof (induction xs arbitrary: bs)
    case (Cons x xs)
    then obtain b bs' where "bs = b # bs'" "stampC (timestamp_active at (f x) (t x)) = Inr b"
      "map Inr bs' = map (\<lambda>x. stampC (timestamp_active at (f x) (t x))) xs" by (cases bs) auto
    moreover from this have "in_force at (f x) (t x) = b" by (auto simp: stampC_def in_force_def dest!: map_sum_Inr)
    ultimately show ?case using Cons.IH [of bs'] by simp
  qed simp
qed

lemma sort_key_single: "sort_key f xs = [a] \<longleftrightarrow> xs = [a]"
  by (metis mset_sort mset_single_iff mset_single_iff_right sort_key_simps)

text \<open>Each gate blocks exactly when its condition fails.\<close>

lemma precondition_gate_verdict:
  assumes "precondition_gate sha b c at p = Inr (as, bl)"
  shows "bl = [] \<longleftrightarrow> approval_ok sha b c at p"
proof (cases "pre_classification_observation_ref p")
  case None
  then show ?thesis using assms by (auto simp: precondition_gate_def approval_ok_def)
next
  case (Some r)
  let ?fs = "filter (\<lambda>a. ca_classification_observation_ref a = r \<and> in_force at (ca_valid_from a) (ca_valid_to a)) (cls_approvals c)"
  obtain active where act: "filter_active at ca_valid_from ca_valid_to (approvals_for c r) = Inr active"
    using assms Some by (auto simp: precondition_gate_def bindE_Inr)
  then have "active = sort_key ca_approval_id ?fs"
    unfolding filter_active_Inr [OF act] by (simp add: approvals_for_def filter_sort [symmetric] conj_commute)
  then have one: "?fs = [a] \<longleftrightarrow> active = [a]" for a by (simp add: sort_key_single)
  have "approvals_for c r = [] \<Longrightarrow> active = []" using filter_active_Inr [OF act] by simp
  then show ?thesis using assms Some act one
    by (auto simp: precondition_gate_def approval_ok_def bindE_def split: option.splits list.splits if_splits)
qed

lemma requirement_gate_verdict:
  assumes "requirement_gate v at s r = Inr (ms, bl)"
  shows "(bl = [] \<longleftrightarrow> (\<exists>m. mapping_ok v at s r m)) \<and> (bl = [] \<longrightarrow> (\<exists>m. ms = [(r, m)] \<and> mapping_ok v at s r m))"
proof -
  let ?sem = "filter (mapping_matches r) (vs_mappings v)"
  obtain active where act: "filter_active at vm_valid_from vm_valid_to ?sem = Inr active"
    using assms by (auto simp: requirement_gate_def Let_def bindE_Inr)
  define prom where "prom = filter (\<lambda>m. vm_mapping_kind m \<noteq> MK_MAPPING_CANDIDATE_ONLY) active"
  have ok: "mapping_ok v at s r m \<longleftrightarrow> prom = [m] \<and> vm_authority_scope m = vs_authority_scope v
      \<and> (vreq_slot_kind r = SK_EFFECT \<longrightarrow> (\<exists>md. map_of (dict_of (map (\<lambda>e. (eff_effect_ref e, eff_modality e)) (spec_effects s)))
            (vreq_source_ref r) = Some md \<and> md \<in> set (vm_supported_modalities m)))
      \<and> placeholder_bindings_valid m r = Inr True" for m
    unfolding mapping_ok_def prom_def filter_active_Inr [OF act] by (simp add: conj_ac)
  show ?thesis
  proof (cases "\<exists>m. prom = [m]")
    case True
    then obtain m where m: "prom = [m]" by blast
    then have "active \<noteq> []" by (auto simp: prom_def)
    then have ne: "active \<noteq> []" "?sem \<noteq> []" using filter_active_Inr [OF act] by (auto simp: filter_empty_conv)
    from assms m ne obtain b where "placeholder_bindings_valid m r = Inr b" "ms = [(r, m)]"
      "bl = (if vm_authority_scope m \<noteq> vs_authority_scope v then [BB_AUTHORITY_SCOPE_MISMATCH] else []) @
                  (if vreq_slot_kind r = SK_EFFECT \<and>
                     (case map_of (dict_of (map (\<lambda>e. (eff_effect_ref e, eff_modality e)) (spec_effects s))) (vreq_source_ref r) of
                        None \<Rightarrow> True | Some md \<Rightarrow> md \<notin> set (vm_supported_modalities m))
                   then [BB_MODALITY_NOT_APPROVED_BY_MAPPING] else []) @
                  (if \<not> b then [BB_PLACEHOLDER_BINDING_INVALID] else [])"
      unfolding requirement_gate_def Let_def bindE_Inr act prom_def [symmetric] by (auto simp: prom_def [symmetric] bindE_Inr)
    then show ?thesis by (auto simp: ok m split: option.splits)
  next
    case False
    then have "bl \<noteq> []" using assms unfolding requirement_gate_def Let_def bindE_Inr act
      by (auto simp: prom_def [symmetric] split: list.splits if_splits)
    then show ?thesis using False by (auto simp: ok)
  qed
qed

lemma snapshot_blockers_Nil: "snapshot_blockers sha v c = [] \<longleftrightarrow> snapshots_intact sha v c"
  by (auto simp: snapshot_blockers_def snapshots_intact_def allow_test_fixture_authority_def list_ex_iff)

lemma batch_blockers_Nil: "batch_blockers sha b = [] \<longleftrightarrow> batch_intact sha b"
  by (auto simp: batch_blockers_def batch_intact_def list_ex_iff)

lemma effect_blockers_Nil: "effect_blockers s = [] \<longleftrightarrow> effects_definitive s"
  by (auto simp: effect_blockers_def effects_definitive_def list_ex_iff)

lemma resolution_sufficient_iff:
  "resolution_sufficient r scope \<longleftrightarrow> RS_UNRESOLVED \<notin> set (resolution_values r)
     \<and> (scope = AS_PLATFORM \<longrightarrow> set (resolution_values r) \<subseteq> {RS_RESOLVED, RS_RESOLVED_SOURCE_ONLY, RS_NOT_APPLICABLE})"
  by (cases scope) (auto simp: resolution_sufficient_def list_all_iff)

lemma nested_blockers_Nil: "nested_blockers sha b scope s = [] \<longleftrightarrow> closed_and_resolved sha b scope s"
  by (auto simp: nested_blockers_def closed_and_resolved_def resolution_sufficient_iff split: option.splits)

lemma classification_gate_verdict:
  assumes "classification_gate sha b c at s = Inr (as, bl)"
  shows "bl = [] \<longleftrightarrow> (\<forall>p \<in> set (spec_preconditions s). approval_ok sha b c at p)"
proof -
  from assms obtain rs where rs: "seq_results (map (precondition_gate sha b c at) (spec_preconditions s)) = Inr rs"
    and bl: "bl = concat (map snd rs)" by (auto simp: classification_gate_def dest!: map_sum_Inr)
  have "list_all2 (\<lambda>p y. snd y = [] \<longleftrightarrow> approval_ok sha b c at p) (spec_preconditions s) rs"
    using seq_results_pointwise [OF rs] by (rule list_all2_mono) (metis precondition_gate_verdict prod.collapse)
  then show ?thesis unfolding bl by (induction rule: list_all2_induct) auto
qed

lemma mapping_gate_verdict:
  assumes "mapping_gate v at s rs = Inr (ms, bl)"
  shows "bl = [] \<longleftrightarrow> (\<forall>r \<in> set rs. \<exists>m. mapping_ok v at s r m)"
proof -
  from assms obtain gs where gs: "seq_results (map (requirement_gate v at s) rs) = Inr gs"
    and bl: "bl = concat (map snd gs)" by (auto simp: mapping_gate_def dest!: map_sum_Inr)
  have "list_all2 (\<lambda>r y. snd y = [] \<longleftrightarrow> (\<exists>m. mapping_ok v at s r m)) rs gs"
    using seq_results_pointwise [OF gs] by (rule list_all2_mono) (metis requirement_gate_verdict prod.collapse)
  then show ?thesis unfolding bl by (induction rule: list_all2_induct) auto
qed

lemmas blockers_Nil = snapshot_blockers_Nil batch_blockers_Nil effect_blockers_Nil nested_blockers_Nil

lemma compile_spec_cases:
  assumes "compile_spec sha cx s = Inr (r, out)"
  obtains (blocked) "\<not> gates_pass sha cx s" "out = None" "bcr_compilation_status r = BCS_BLOCKED" "bcr_candidate_bdd_ref r = None"
      "bcr_blockers r \<noteq> []" "bcr_scenario_spec_ref r = spec_scenario_spec_id s"
  | (failed) "gates_pass sha cx s" "out = None" "bcr_compilation_status r = BCS_FAILED" "bcr_candidate_bdd_ref r = None"
      "bcr_blockers r \<noteq> []" "bcr_scenario_spec_ref r = spec_scenario_spec_id s"
  | (succeeded) a m c ms as where "gates_pass sha cx s" "out = Some (a, m, c)" "emit sha cx s (spec_requirements cx s) ms as = Inr (a, m, c)"
      "bcr_compilation_status r = BCS_SUCCEEDED" "bcr_candidate_bdd_ref r = Some (cb_candidate_bdd_id c)" "bcr_blockers r = []"
      "bcr_scenario_spec_ref r = spec_scenario_spec_id s" "bcr_output_digest r = Some (cb_content_digest c)"
proof -
  from assms obtain as cb ms mb where c: "classification_gate sha (cx_batch cx) (cx_classification cx) (cx_at cx) s = Inr (as, cb)"
    and m: "mapping_gate (cx_vocabulary cx) (cx_at cx) s (spec_requirements cx s) = Inr (ms, mb)"
    by (auto simp: compile_spec_def bindE_Inr)
  define bs where "bs = batch_blockers sha (cx_batch cx) @ snapshot_blockers sha (cx_vocabulary cx) (cx_classification cx) @
             (if \<not> digest_valid sha (dump_scenario_spec s) (spec_content_digest s) then [BB_SCENARIO_SPEC_DIGEST_INVALID] else []) @
             nested_blockers sha (cx_batch cx) (vs_authority_scope (cx_vocabulary cx)) s @ cb @ mb @ effect_blockers s"
  have g: "bs = [] \<longleftrightarrow> gates_pass sha cx s"
    using classification_gate_verdict [OF c] mapping_gate_verdict [OF m] by (auto simp: bs_def gates_pass_def blockers_Nil)
  have nb: "sort_key bdd_blocker_code_value (remdups bs) = [] \<longleftrightarrow> bs = []" for bs :: "BddBlockerCode list"
    by (simp add: sort_key_Nil_iff)
  have r: "(r, out) = (if bs \<noteq> [] then (compilation_result sha cx s BCS_BLOCKED bs ms as None None, None)
      else (case emit sha cx s (spec_requirements cx s) ms as of
              Inl msg \<Rightarrow> (compilation_result sha cx s BCS_FAILED [failure_blocker msg] ms as None None, None)
            | Inr (a, m, c) \<Rightarrow> (compilation_result sha cx s BCS_SUCCEEDED [] ms as (Some (cb_candidate_bdd_id c))
                (Some (cb_content_digest c)), Some (a, m, c))))"
    using assms unfolding compile_spec_def c m bindE_def Let_def bs_def by simp
  show thesis
  proof (cases "bs = []")
    case False
    then show thesis using r g blocked nb [of bs] by (simp add: compilation_result_def)
  next
    case True
    show thesis
    proof (cases "emit sha cx s (spec_requirements cx s) ms as")
      case (Inl msg)
      then show thesis using r g True failed by (simp add: compilation_result_def)
    next
      case (Inr x)
      obtain a m c where "x = (a, m, c)" by (cases x)
      then show thesis using r g True Inr succeeded [of a m c ms as] by (simp add: compilation_result_def)
    qed
  qed
qed

section \<open>Rendering always validates\<close>

lemma need_key_Inr: "need_key d k = Inr v \<longleftrightarrow> map_of d k = Some v"
  by (simp add: need_key_def split: option.splits)

lemma element_kind: "element sha s mappings i lead k r elements evidence refs = Inr x \<Longrightarrow> geb_element_kind (snd x) = k"
  by (auto simp: element_def bindE_Inr binding_of_def)

definition step_kinds :: "string \<Rightarrow> nat \<Rightarrow> string list" where
  "step_kinds k n = map (\<lambda>i. if i = 0 then k else ''AND'') [0..<n]"

lemma step_kinds_of:
  assumes "seq_results (map f (enumerate 0 xs)) = Inr ys"
    and "\<And>i x y. f (i, x) = Inr y \<Longrightarrow> g y = (if i = 0 then k else ''AND'')"
  shows "map g ys = step_kinds k (length xs)"
proof (rule nth_equalityI)
  have all: "list_all2 (\<lambda>ix y. f ix = Inr y) (enumerate 0 xs) ys" using assms(1) by (rule seq_results_pointwise)
  then have len: "length ys = length xs" by (simp add: list_all2_lengthD [symmetric])
  then show "length (map g ys) = length (step_kinds k (length xs))" by (simp add: step_kinds_def)
  fix i assume "i < length (map g ys)"
  then show "map g ys ! i = step_kinds k (length xs) ! i"
    using list_all2_nthD [OF all, of i] len assms(2) [of i "xs ! i" "ys ! i"] by (simp add: step_kinds_def nth_enumerate_eq)
qed

lemma render_elements_kinds:
  assumes "render_elements sha s rs mappings = Inr els"
  shows "map (\<lambda>x. geb_element_kind (snd x)) els = [''FEATURE'', ''SCENARIO_NAME''] @ step_kinds ''GIVEN'' (length (spec_preconditions s))
    @ [''WHEN''] @ step_kinds ''THEN'' (length (spec_expected_effects s))"
proof -
  from assms obtain fr nr ar fe ne ps ae es where els: "els = fe # ne # ps @ ae # es"
    and fe: "element sha s mappings 0 ''Feature: '' ''FEATURE'' fr [spec_procedure_identity_ref s] (spec_evidence_refs s) [] = Inr fe"
    and ne: "element sha s mappings 1 ''  Scenario: '' ''SCENARIO_NAME'' nr [spec_scenario_spec_id s] (spec_evidence_refs s) [] = Inr ne"
    and ps: "seq_results (map (precondition_element sha s mappings rs) (enumerate 0 (spec_preconditions s))) = Inr ps"
    and ae: "element sha s mappings (2 + length (spec_preconditions s)) ''    When '' ''WHEN'' ar
         [act_invocation_contract_ref (spec_action s)] (act_evidence_refs (spec_action s)) [] = Inr ae"
    and es: "seq_results (map (effect_element sha s mappings rs) (enumerate 0 (spec_expected_effects s))) = Inr es"
    unfolding render_elements_def bindE_Inr by auto
  have "map (\<lambda>x. geb_element_kind (snd x)) ps = step_kinds ''GIVEN'' (length (spec_preconditions s))"
    using ps by (rule step_kinds_of) (auto simp: precondition_element_def bindE_Inr dest!: element_kind)
  moreover have "map (\<lambda>x. geb_element_kind (snd x)) es = step_kinds ''THEN'' (length (spec_expected_effects s))"
    using es by (rule step_kinds_of) (auto simp: effect_element_def bindE_Inr dest!: element_kind)
  ultimately show ?thesis using element_kind [OF fe] element_kind [OF ne] element_kind [OF ae] by (simp add: els)
qed

text \<open>What a successful rendering returns.\<close>

lemma render_facts:
  assumes "render sha s rs mappings approvals vd cd = Inr (a, m)"
  shows "canonical_gherkin_text (ga_text a) = Inr (ga_text a)" "gherkin_digest sha (ga_text a) = Inr (ga_content_digest a)"
    "digest_valid sha (dump_traceability_manifest m) (tm_content_digest m)"
    "map geb_element_kind (tm_element_bindings m) = [''FEATURE'', ''SCENARIO_NAME''] @ step_kinds ''GIVEN'' (length (spec_preconditions s))
      @ [''WHEN''] @ step_kinds ''THEN'' (length (spec_expected_effects s))"
    "tm_scenario_spec_ref m = spec_scenario_spec_id s" "tm_gherkin_artifact_ref m = ga_artifact_id a"
proof -
  from assms obtain els body where els: "render_elements sha s rs mappings = Inr els"
    and tx: "canonical_gherkin_text (py_join [nl] (gherkin_lines els)) = Inr body"
    and d: "gherkin_digest sha body = Inr (ga_content_digest a)" and a: "ga_text a = body" "tm_gherkin_artifact_ref m = ga_artifact_id a"
    and m: "tm_element_bindings m = map snd els" "tm_scenario_spec_ref m = spec_scenario_spec_id s"
    and md: "tm_content_digest m = digest_text sha (without_digest (dump_traceability_manifest (m\<lparr>tm_content_digest := []\<rparr>)))"
    unfolding render_def bindE_Inr Let_def by (auto dest!: map_sum_Inr)
  show "canonical_gherkin_text (ga_text a) = Inr (ga_text a)" using canonical_gherkin_fixpoint [OF tx] by (simp add: a)
  show "gherkin_digest sha (ga_text a) = Inr (ga_content_digest a)" using d by (simp add: a)
  have "without_digest (dump_traceability_manifest (m\<lparr>tm_content_digest := []\<rparr>)) = without_digest (dump_traceability_manifest m)"
    by (simp add: without_digest_def dump_traceability_manifest_def)
  then show "digest_valid sha (dump_traceability_manifest m) (tm_content_digest m)"
    by (simp add: md fresh_digest_valid)
  show "map geb_element_kind (tm_element_bindings m) = [''FEATURE'', ''SCENARIO_NAME''] @ step_kinds ''GIVEN'' (length (spec_preconditions s))
      @ [''WHEN''] @ step_kinds ''THEN'' (length (spec_expected_effects s))"
    using render_elements_kinds [OF els] by (simp add: m comp_def)
qed (use assms in \<open>auto simp: render_def bindE_Inr Let_def\<close>)

lemma candidate_digest_valid: "digest_valid sha (dump_candidate_bdd (candidate_of sha cx s a m)) (cb_content_digest (candidate_of sha cx s a m))"
proof -
  define c where "c = candidate_of sha cx s a m"
  have "without_digest (dump_candidate_bdd (c\<lparr>cb_content_digest := []\<rparr>)) = without_digest (dump_candidate_bdd c)"
    by (simp add: without_digest_def dump_candidate_bdd_def)
  moreover have "cb_content_digest c = digest_text sha (without_digest (dump_candidate_bdd (c\<lparr>cb_content_digest := []\<rparr>)))"
    by (simp add: c_def candidate_of_def Let_def)
  ultimately show ?thesis using fresh_digest_valid [of "dump_candidate_bdd c" sha] by (simp add: c_def [symmetric])
qed

lemma emit_Inr:
  "emit sha cx s rs ms as = Inr (a, m, c) \<longleftrightarrow>
     render sha s (map snd (dict_of (map (\<lambda>r. (vreq_requirement_id r, r)) rs))) (dict_of (map (\<lambda>(r, m). (vreq_requirement_id r, m)) ms)) as
       (vs_content_digest (cx_vocabulary cx)) (cls_content_digest (cx_classification cx)) = Inr (a, m)
     \<and> c = candidate_of sha cx s a m" (is "_ \<longleftrightarrow> ?render = Inr (a, m) \<and> _")
proof -
  have ok: "length (tm_element_bindings m) = 3 + length (spec_preconditions s) + length (spec_expected_effects s)"
    "digest_valid sha (dump_traceability_manifest m) (tm_content_digest m)" "gherkin_digest sha (ga_text a) = Inr (ga_content_digest a)"
    if "?render = Inr (a, m)" for a m
    using arg_cong [OF render_facts(4) [OF that], of length] render_facts(2,3) [OF that] by (simp_all add: step_kinds_def)
  show ?thesis
  proof (cases ?render)
    case (Inr x)
    obtain a' m' where x: "x = (a', m')" by (cases x)
    show ?thesis using ok [OF Inr [unfolded x]] by (auto simp: emit_def bindE_def Inr x candidate_digest_valid Let_def)
  qed (simp add: emit_def bindE_def)
qed

lemma candidate_refs [simp]:
  "cb_scenario_spec_ref (candidate_of sha cx s a m) = spec_scenario_spec_id s"
  "cb_gherkin_artifact_ref (candidate_of sha cx s a m) = ga_artifact_id a"
  "cb_traceability_manifest_ref (candidate_of sha cx s a m) = tm_manifest_id m"
  "cb_authority_scope (candidate_of sha cx s a m) = vs_authority_scope (cx_vocabulary cx)"
  by (simp_all add: candidate_of_def Let_def)

lemma compile_all_Inr:
  assumes "compile_all sha b v c t = Inr out"
  obtains rq at rs where "export sha b = Inr rq" "compile_at t v c = Inr at"
    "list_all2 (\<lambda>s r. compile_spec sha \<lparr>cx_batch = b, cx_vocabulary = v, cx_classification = c, cx_requirements = rq, cx_at = at\<rparr> s = Inr r)
       (sorted_specs b) rs"
    "bcb_gherkin_artifacts out = sort_key ga_artifact_id (map fst (List.map_filter snd rs))"
    "bcb_traceability_manifests out = sort_key tm_manifest_id (map (\<lambda>x. fst (snd x)) (List.map_filter snd rs))"
    "bcb_candidate_bdds out = sort_key cb_candidate_bdd_id (map (\<lambda>x. snd (snd x)) (List.map_filter snd rs))"
    "bcb_compilation_results out = sort_key bcr_scenario_spec_ref (map fst rs)"
proof -
  from assms obtain rq at rs where e: "export sha b = Inr rq" "compile_at t v c = Inr at"
    and rs: "seq_results (map (compile_spec sha \<lparr>cx_batch = b, cx_vocabulary = v, cx_classification = c, cx_requirements = rq, cx_at = at\<rparr>)
        (sorted_specs b)) = Inr rs"
    and out: "bcb_gherkin_artifacts out = sort_key ga_artifact_id (map fst (List.map_filter snd rs))"
      "bcb_traceability_manifests out = sort_key tm_manifest_id (map (\<lambda>x. fst (snd x)) (List.map_filter snd rs))"
      "bcb_candidate_bdds out = sort_key cb_candidate_bdd_id (map (\<lambda>x. snd (snd x)) (List.map_filter snd rs))"
      "bcb_compilation_results out = sort_key bcr_scenario_spec_ref (map fst rs)"
    unfolding compile_all_def bindE_Inr Let_def by (auto dest!: map_sum_Inr)
  show thesis using that [OF e seq_results_pointwise [OF rs] out] .
qed

lemma set_map_filter: "set (List.map_filter f xs) = {y. \<exists>x \<in> set xs. f x = Some y}"
  by (auto simp: List.map_filter_def) force

section \<open>Compiled batches\<close>

text \<open>
  C2: the compiler emits a candidate only for a scenario of the batch that passes every gate: intact
  digests throughout, agreeing authority scopes, closed effects, sufficient dependency resolution, one matching approval in force
  per precondition, one promotable mapping in force per vocabulary requirement, and definitive effects; and
  a scenario is reported \<open>BLOCKED\<close> exactly when some gate fails.
\<close>

theorem candidate_only_through_gates:
  assumes "compile_all sha b v c t = Inr out"
  shows "\<exists>rq at. export sha b = Inr rq \<and> compile_at t v c = Inr at
    \<and> (\<forall>k \<in> set (bcb_candidate_bdds out). \<exists>s \<in> set (ssb_scenario_specs b). cb_scenario_spec_ref k = spec_scenario_spec_id s
         \<and> gates_pass sha \<lparr>cx_batch = b, cx_vocabulary = v, cx_classification = c, cx_requirements = rq, cx_at = at\<rparr> s)
    \<and> (\<forall>s \<in> set (ssb_scenario_specs b). \<exists>r \<in> set (bcb_compilation_results out). bcr_scenario_spec_ref r = spec_scenario_spec_id s
         \<and> (bcr_compilation_status r = BCS_BLOCKED \<longleftrightarrow>
              \<not> gates_pass sha \<lparr>cx_batch = b, cx_vocabulary = v, cx_classification = c, cx_requirements = rq, cx_at = at\<rparr> s))"
proof -
  from assms obtain rq at rs where e: "export sha b = Inr rq" "compile_at t v c = Inr at"
    and all: "list_all2 (\<lambda>s r. compile_spec sha \<lparr>cx_batch = b, cx_vocabulary = v, cx_classification = c, cx_requirements = rq, cx_at = at\<rparr> s = Inr r)
       (sorted_specs b) rs" (is "list_all2 (\<lambda>s r. compile_spec sha ?cx s = Inr r) _ _")
    and cands: "bcb_candidate_bdds out = sort_key cb_candidate_bdd_id (map (\<lambda>x. snd (snd x)) (List.map_filter snd rs))"
    and res: "bcb_compilation_results out = sort_key bcr_scenario_spec_ref (map fst rs)"
    by (rule compile_all_Inr)
  have "\<exists>s \<in> set (ssb_scenario_specs b). cb_scenario_spec_ref k = spec_scenario_spec_id s \<and> gates_pass sha ?cx s"
    if k: "k \<in> set (bcb_candidate_bdds out)" for k
  proof -
    from k obtain r a m where "(r, Some (a, m, k)) \<in> set rs" by (auto simp: cands set_map_filter)
    then obtain s where s: "s \<in> set (ssb_scenario_specs b)" and "compile_spec sha ?cx s = Inr (r, Some (a, m, k))"
      using list_all2_right [OF all] by (auto simp: sorted_specs_def)
    from this(2) show ?thesis by (rule compile_spec_cases) (use s in \<open>auto simp: emit_Inr\<close>)
  qed
  moreover have "\<exists>r \<in> set (bcb_compilation_results out). bcr_scenario_spec_ref r = spec_scenario_spec_id s
      \<and> (bcr_compilation_status r = BCS_BLOCKED \<longleftrightarrow> \<not> gates_pass sha ?cx s)" if s: "s \<in> set (ssb_scenario_specs b)" for s
  proof -
    obtain r o' where "(r, o') \<in> set rs" and c: "compile_spec sha ?cx s = Inr (r, o')"
      using list_all2_left [OF all, of s] s by (auto simp: sorted_specs_def)
    moreover from c have "bcr_scenario_spec_ref r = spec_scenario_spec_id s
      \<and> (bcr_compilation_status r = BCS_BLOCKED \<longleftrightarrow> \<not> gates_pass sha ?cx s)" by (rule compile_spec_cases) auto
    ultimately show ?thesis by (force simp: res)
  qed
  ultimately show ?thesis using e by blast
qed

text \<open>
  C20: emission is atomic: there is one result per scenario, in the order of the scenario identifiers; as many texts,
  manifests and candidates as there are succeeded results; and every candidate comes with its text and its manifest, which
  names that text, and with the succeeded result that names it. A result names a candidate exactly when it succeeded,
  and lists a blocker exactly when it did not.
\<close>

theorem emission_atomic:
  assumes "compile_all sha b v c t = Inr out"
  shows "map bcr_scenario_spec_ref (bcb_compilation_results out) = sort (map spec_scenario_spec_id (ssb_scenario_specs b))
    \<and> length (bcb_gherkin_artifacts out) = length (filter (\<lambda>r. bcr_compilation_status r = BCS_SUCCEEDED) (bcb_compilation_results out))
    \<and> length (bcb_traceability_manifests out) = length (bcb_gherkin_artifacts out)
    \<and> length (bcb_candidate_bdds out) = length (bcb_gherkin_artifacts out)
    \<and> (\<forall>k \<in> set (bcb_candidate_bdds out). \<exists>a \<in> set (bcb_gherkin_artifacts out). \<exists>m \<in> set (bcb_traceability_manifests out).
         \<exists>r \<in> set (bcb_compilation_results out). cb_gherkin_artifact_ref k = ga_artifact_id a \<and> cb_traceability_manifest_ref k = tm_manifest_id m
           \<and> tm_gherkin_artifact_ref m = ga_artifact_id a \<and> bcr_candidate_bdd_ref r = Some (cb_candidate_bdd_id k)
           \<and> bcr_output_digest r = Some (cb_content_digest k) \<and> bcr_compilation_status r = BCS_SUCCEEDED)
    \<and> (\<forall>r \<in> set (bcb_compilation_results out). (bcr_candidate_bdd_ref r \<noteq> None \<longleftrightarrow> bcr_compilation_status r = BCS_SUCCEEDED)
         \<and> (bcr_blockers r = [] \<longleftrightarrow> bcr_compilation_status r = BCS_SUCCEEDED))"
proof -
  from assms obtain rq at rs
    where all: "list_all2 (\<lambda>s r. compile_spec sha \<lparr>cx_batch = b, cx_vocabulary = v, cx_classification = c, cx_requirements = rq, cx_at = at\<rparr> s = Inr r)
       (sorted_specs b) rs" (is "list_all2 (\<lambda>s r. compile_spec sha ?cx s = Inr r) _ _")
    and out: "bcb_gherkin_artifacts out = sort_key ga_artifact_id (map fst (List.map_filter snd rs))"
      "bcb_traceability_manifests out = sort_key tm_manifest_id (map (\<lambda>x. fst (snd x)) (List.map_filter snd rs))"
      "bcb_candidate_bdds out = sort_key cb_candidate_bdd_id (map (\<lambda>x. snd (snd x)) (List.map_filter snd rs))"
      "bcb_compilation_results out = sort_key bcr_scenario_spec_ref (map fst rs)"
    by (rule compile_all_Inr)
  have refs: "map (\<lambda>r. bcr_scenario_spec_ref (fst r)) rs = map spec_scenario_spec_id (sorted_specs b)"
    using all by (induction rule: list_all2_induct) (auto elim: compile_spec_cases)
  have one: "(snd x \<noteq> None \<longleftrightarrow> bcr_compilation_status (fst x) = BCS_SUCCEEDED)
      \<and> (bcr_candidate_bdd_ref (fst x) \<noteq> None \<longleftrightarrow> bcr_compilation_status (fst x) = BCS_SUCCEEDED)
      \<and> (bcr_blockers (fst x) = [] \<longleftrightarrow> bcr_compilation_status (fst x) = BCS_SUCCEEDED)" if "x \<in> set rs" for x
    using list_all2_right [OF all that] by (cases x) (auto elim!: compile_spec_cases)
  have "length (List.map_filter snd rs) = length (filter (\<lambda>x. bcr_compilation_status (fst x) = BCS_SUCCEEDED) rs)"
    using one by (simp add: List.map_filter_def cong: filter_cong)
  then have len: "length (List.map_filter snd rs) = length (filter (\<lambda>r. bcr_compilation_status r = BCS_SUCCEEDED) (bcb_compilation_results out))"
    by (simp add: out filter_sort filter_map comp_def)
  have "\<exists>a \<in> set (bcb_gherkin_artifacts out). \<exists>m \<in> set (bcb_traceability_manifests out).
         \<exists>r \<in> set (bcb_compilation_results out). cb_gherkin_artifact_ref k = ga_artifact_id a \<and> cb_traceability_manifest_ref k = tm_manifest_id m
           \<and> tm_gherkin_artifact_ref m = ga_artifact_id a \<and> bcr_candidate_bdd_ref r = Some (cb_candidate_bdd_id k)
           \<and> bcr_output_digest r = Some (cb_content_digest k) \<and> bcr_compilation_status r = BCS_SUCCEEDED"
    if k: "k \<in> set (bcb_candidate_bdds out)" for k
  proof -
    from k obtain r a m where x: "(r, Some (a, m, k)) \<in> set rs" by (auto simp: out set_map_filter)
    then have "a \<in> set (bcb_gherkin_artifacts out)" "m \<in> set (bcb_traceability_manifests out)" "r \<in> set (bcb_compilation_results out)"
      by (force simp: out set_map_filter)+
    moreover obtain s where "compile_spec sha ?cx s = Inr (r, Some (a, m, k))" using list_all2_right [OF all x] by auto
    then have "cb_gherkin_artifact_ref k = ga_artifact_id a \<and> cb_traceability_manifest_ref k = tm_manifest_id m
           \<and> tm_gherkin_artifact_ref m = ga_artifact_id a \<and> bcr_candidate_bdd_ref r = Some (cb_candidate_bdd_id k)
           \<and> bcr_output_digest r = Some (cb_content_digest k) \<and> bcr_compilation_status r = BCS_SUCCEEDED"
      by (rule compile_spec_cases) (auto simp: emit_Inr dest: render_facts(6))
    ultimately show ?thesis by blast
  qed
  moreover have "map bcr_scenario_spec_ref (bcb_compilation_results out) = sort (map spec_scenario_spec_id (ssb_scenario_specs b))"
    using arg_cong [OF refs, of mset]
    by (auto simp: out sorted_specs_def multiset.map_comp comp_def intro!: properties_for_sort [symmetric])
  ultimately show ?thesis using len one by (auto simp: out)
qed


text \<open>
  A scenario that passes every gate succeeds exactly when its text can be rendered: the digest and
  coverage checks that follow the rendering never fail.
\<close>

theorem only_rendering_fails:
  assumes "compile_spec sha cx s = Inr (r, out)" "gates_pass sha cx s"
    and "mapping_gate (cx_vocabulary cx) (cx_at cx) s (spec_requirements cx s) = Inr (ms, mb)"
    and "classification_gate sha (cx_batch cx) (cx_classification cx) (cx_at cx) s = Inr (as, cb)"
  shows "bcr_compilation_status r = BCS_SUCCEEDED \<longleftrightarrow>
    (\<exists>a m. render sha s (map snd (dict_of (map (\<lambda>r. (vreq_requirement_id r, r)) (spec_requirements cx s))))
       (dict_of (map (\<lambda>(r, m). (vreq_requirement_id r, m)) ms)) as
       (vs_content_digest (cx_vocabulary cx)) (cls_content_digest (cx_classification cx)) = Inr (a, m))"
proof -
  have b: "cb = []" "mb = []" using assms(2) classification_gate_verdict [OF assms(4)] mapping_gate_verdict [OF assms(3)]
    by (auto simp: gates_pass_def)
  have "(r, out) = (case emit sha cx s (spec_requirements cx s) ms as of
              Inl msg \<Rightarrow> (compilation_result sha cx s BCS_FAILED [failure_blocker msg] ms as None None, None)
            | Inr (a, m, c) \<Rightarrow> (compilation_result sha cx s BCS_SUCCEEDED [] ms as (Some (cb_candidate_bdd_id c))
                (Some (cb_content_digest c)), Some (a, m, c)))"
    using assms(1,2) unfolding compile_spec_def assms(3,4) bindE_def Let_def b by (simp add: gates_pass_def blockers_Nil [symmetric])
  then have "bcr_compilation_status r = BCS_SUCCEEDED \<longleftrightarrow> (\<exists>a m c. emit sha cx s (spec_requirements cx s) ms as = Inr (a, m, c))"
    by (auto simp: compilation_result_def split: sum.splits)
  then show ?thesis by (simp add: emit_Inr)
qed

section \<open>When compilation returns\<close>

lemma compile_at_canonical:
  assumes "canonical_at (vs_effective_timestamp v)" "canonical_at (cls_effective_timestamp c)"
    and "case t of None \<Rightarrow> True | Some x \<Rightarrow> \<exists>y. canonical_timestamp x = Inr y"
  shows "\<exists>at. compile_at t v c = Inr at \<and> canonical_at at"
proof -
  have "canonical_at (max (vs_effective_timestamp v) (cls_effective_timestamp c))" using assms by (simp add: max_def)
  then have "\<exists>y. canonical_timestamp (case t of
       Some x \<Rightarrow> if x = [] then max (vs_effective_timestamp v) (cls_effective_timestamp c) else x
     | None \<Rightarrow> max (vs_effective_timestamp v) (cls_effective_timestamp c)) = Inr y"
    using assms(3) by (cases t) (auto simp: canonical_at_def)
  then obtain y where "canonical_timestamp (case t of
       Some x \<Rightarrow> if x = [] then max (vs_effective_timestamp v) (cls_effective_timestamp c) else x
     | None \<Rightarrow> max (vs_effective_timestamp v) (cls_effective_timestamp c)) = Inr y" ..
  moreover from this have "canonical_at y" by (auto elim!: canonical_timestampE simp: canonical_at_def canonical_timestamp_canon_text)
  ultimately show ?thesis by (simp add: compile_at_def stampC_def)
qed

lemma filter_active_total:
  assumes "canonical_at at" "\<forall>x \<in> set xs. canonical_at (f x) \<and> (case e x of None \<Rightarrow> True | Some y \<Rightarrow> canonical_at y)"
  shows "\<exists>ys. filter_active at f e xs = Inr ys"
proof -
  have "\<forall>x \<in> set xs. timestamp_active at (f x) (e x) = Inr (active_at at (f x) (e x))" using assms active_canonical by blast
  then have "\<exists>bs. seq_results (map (\<lambda>x. stampC (timestamp_active at (f x) (e x))) xs) = Inr bs"
    by (simp add: seq_results_exists stampC_def)
  then show ?thesis by (auto simp: filter_active_def)
qed

lemma precondition_gate_total:
  assumes "canonical_at at" "classification_validated c"
  shows "\<exists>y. precondition_gate sha b c at p = Inr y"
proof (cases "pre_classification_observation_ref p")
  case (Some r)
  obtain ys where "filter_active at ca_valid_from ca_valid_to (approvals_for c r) = Inr ys"
    using assms filter_active_total [of at "approvals_for c r" ca_valid_from ca_valid_to]
    by (auto simp: classification_validated_def approval_validated_def approvals_for_def list_all_iff)
  then show ?thesis using Some by (auto simp: precondition_gate_def bindE_def split: option.splits list.splits)
qed (simp add: precondition_gate_def)

lemma requirement_gate_total:
  assumes "canonical_at at" "vocabulary_validated v" "\<forall>m \<in> set (vs_mappings v). formatter_parse (vm_phrase_template m) \<noteq> None"
  shows "\<exists>y. requirement_gate v at s r = Inr y"
proof -
  let ?sem = "filter (mapping_matches r) (vs_mappings v)"
  obtain ys where ys: "filter_active at vm_valid_from vm_valid_to ?sem = Inr ys"
    using assms filter_active_total [of at ?sem vm_valid_from vm_valid_to]
    by (auto simp: vocabulary_validated_def mapping_validated_def list_all_iff)
  define prom where "prom = filter (\<lambda>m. vm_mapping_kind m \<noteq> MK_MAPPING_CANDIDATE_ONLY) ys"
  have "\<exists>z. placeholder_bindings_valid m r = Inr z" if "m \<in> set prom" for m
    using that assms(3) filter_active_Inr [OF ys] by (auto simp: prom_def placeholder_bindings_valid_def Let_def)
  then show ?thesis
    by (cases prom; cases "tl prom") (auto simp: requirement_gate_def Let_def bindE_def ys prom_def [symmetric] split: sum.splits)
qed

lemma compile_returns:
  assumes "vocabulary_validated v" "classification_validated c" "\<forall>m \<in> set (vs_mappings v). formatter_parse (vm_phrase_template m) \<noteq> None"
    and "\<forall>s \<in> set (ssb_scenario_specs b). \<forall>slot \<in> set (spec_required_vocabulary_slots s). slot_resolves s slot"
    and "case t of None \<Rightarrow> True | Some x \<Rightarrow> \<exists>y. canonical_timestamp x = Inr y"
  shows "\<exists>out. compile_all sha b v c t = Inr out"
proof -
  obtain rq where rq: "export sha b = Inr rq"
    using assms(4) export_total by blast
  obtain at where at: "compile_at t v c = Inr at" "canonical_at at"
    using compile_at_canonical [of v c t] assms by (auto simp: vocabulary_validated_def classification_validated_def)
  let ?cx = "\<lparr>cx_batch = b, cx_vocabulary = v, cx_classification = c, cx_requirements = rq, cx_at = at\<rparr>"
  have "\<exists>y. compile_spec sha ?cx s = Inr y" for s
  proof -
    have "\<exists>rs. seq_results (map (precondition_gate sha b c at) (spec_preconditions s)) = Inr rs"
      using precondition_gate_total [OF at(2) assms(2)] by (simp add: seq_results_exists)
    then have "\<exists>y. classification_gate sha b c at s = Inr y" by (auto simp: classification_gate_def)
    moreover have "\<exists>gs. seq_results (map (requirement_gate v at s) (spec_requirements ?cx s)) = Inr gs"
      using requirement_gate_total [OF at(2) assms(1,3)] by (simp add: seq_results_exists)
    then have "\<exists>y. mapping_gate v at s (spec_requirements ?cx s) = Inr y" by (auto simp: mapping_gate_def)
    ultimately show ?thesis by (auto simp: compile_spec_def bindE_def Let_def)
  qed
  then have "\<exists>rs. seq_results (map (compile_spec sha ?cx) (sorted_specs b)) = Inr rs" by (simp add: seq_results_exists)
  then show ?thesis using rq at(1) by (auto simp: compile_all_def bindE_def Let_def)
qed

text \<open>
  On snapshots their models accept, with templates that parse, for a batch whose required slots resolve and a
  parsable instant if one is given, the compiler always returns a batch: every failed gate or rendering is a result, never an
  exception.
\<close>

theorem compile_total:
  assumes "vocabulary_validated v" "classification_validated c" "\<forall>m \<in> set (vs_mappings v). formatter_parse (vm_phrase_template m) \<noteq> None"
    and "\<forall>s \<in> set (ssb_scenario_specs b). \<forall>slot \<in> set (spec_required_vocabulary_slots s). slot_resolves s slot"
    and "case t of None \<Rightarrow> True | Some x \<Rightarrow> \<exists>y. canonical_timestamp x = Inr y"
  shows "\<exists>out. compile_all sha b v c t = Inr out"
  using assms by (rule compile_returns)

text \<open>
  A malformed template aborts the whole batch: the check of the placeholders runs before any result is recorded.
\<close>

lemma malformed_template_aborts:
  assumes "formatter_parse (vm_phrase_template m) = None"
    and "filter (mapping_matches r) (vs_mappings v) = [m]" "filter_active at vm_valid_from vm_valid_to [m] = Inr [m]"
    and "vm_mapping_kind m \<noteq> MK_MAPPING_CANDIDATE_ONLY"
  shows "requirement_gate v at s r = Inl (COMPILE_TEMPLATE (vm_phrase_template m))"
  using assms by (simp add: requirement_gate_def bindE_def placeholder_bindings_valid_def)

text \<open>A template with a placeholder never renders, because the exporter gives no requirement a value.\<close>

lemma render_pieces_without_values: "render_pieces [] ps = Some t \<Longrightarrow> piece_fields ps = []"
  by (induction "[] :: (string \<times> string) list" ps arbitrary: t rule: render_pieces.induct) auto

lemma placeholder_never_renders:
  assumes "vreq_placeholder_values r = []" "formatter_parse (vm_phrase_template m) = Some ps" "piece_fields ps \<noteq> []"
  shows "render_phrase m r = Inl ''Placeholder rendering failed.''"
  using assms render_pieces_without_values [of ps] by (cases "render_pieces [] ps") (auto simp: render_phrase_def dict_of_def)

section \<open>A compiled sample\<close>

definition sample_terms :: VocabularySnapshot where
  "sample_terms = sample_vocabulary
     [sample_mapping ''f'' ''FEATURE_TITLE|p'' ''Payments'', sample_mapping ''n'' ''SCENARIO_NAME|s'' ''Transfer'',
      sample_mapping ''a'' ''ACTION|CALL:p'' ''the transfer runs'', sample_mapping ''q'' ''PRECONDITION|f'' ''funds exist'',
      sample_mapping ''e'' ''EFFECT|e'' ''the balance falls'']"

lemma sample_mapping_validated:
  "t \<noteq> [] \<Longrightarrow> py_strip t = t \<Longrightarrow> nl \<notin> set t \<Longrightarrow> cr \<notin> set t \<Longrightarrow> mapping_validated (sample_mapping n p t)"
  by (simp add: mapping_validated_def sample_mapping_def interval_ok_def)

lemma sample_terms_validated: "vocabulary_validated sample_terms"
proof -
  have "list_all (\<lambda>t. t \<noteq> [] \<and> py_strip t = t \<and> nl \<notin> set t \<and> cr \<notin> set t)
      [''Payments'', ''Transfer'', ''the transfer runs'', ''funds exist'', ''the balance falls'']" by code_simp
  then show ?thesis by (simp add: vocabulary_validated_def sample_terms_def sample_vocabulary_def sample_mapping_validated)
qed

lemma sample_terms_parse: "\<forall>m \<in> set (vs_mappings sample_terms). formatter_parse (vm_phrase_template m) = Some (map Lit (vm_phrase_template m))"
  by code_simp

lemma sample_classification_validated: "classification_validated sample_classification"
  by (simp add: classification_validated_def approval_validated_def sample_classification_def interval_ok_def)

lemma sample_slots_resolve:
  "\<forall>s \<in> set (ssb_scenario_specs sample_batch). \<forall>slot \<in> set (spec_required_vocabulary_slots s). slot_resolves s slot"
  by code_simp

theorem compile_total_witness: "\<exists>out. compile_all sample_sha sample_batch sample_terms sample_classification None = Inr out"
  using compile_total [OF sample_terms_validated sample_classification_validated _ sample_slots_resolve, of None] sample_terms_parse
  by simp

lemma sample_slots:
  "slot_definitions sample_spec = Inr
     [\<lparr>sd_slot = ''s:FEATURE_TITLE'', sd_kind = SK_FEATURE_TITLE, sd_source_ref = ''p'', sd_modality = None, sd_evidence_refs = []\<rparr>,
      \<lparr>sd_slot = ''s:SCENARIO_NAME'', sd_kind = SK_SCENARIO_NAME, sd_source_ref = ''s'', sd_modality = None, sd_evidence_refs = []\<rparr>,
      \<lparr>sd_slot = ''s:ACTION'', sd_kind = SK_ACTION, sd_source_ref = ''CALL:p'', sd_modality = None, sd_evidence_refs = []\<rparr>,
      \<lparr>sd_slot = ''s:PRECONDITION:q'', sd_kind = SK_PRECONDITION, sd_source_ref = ''f'', sd_modality = None, sd_evidence_refs = []\<rparr>,
      \<lparr>sd_slot = ''s:EFFECT:e'', sd_kind = SK_EFFECT, sd_source_ref = ''e'', sd_modality = Some EM_MUST, sd_evidence_refs = []\<rparr>]"
  by code_simp

lemma sample_in_force [simp]: "in_force sample_at sample_at None"
  using active_canonical [of sample_at sample_at None] by (simp add: in_force_def active_at_def)

lemma piece_fields_literal [simp]: "piece_fields (map Lit s) = []"
  by (induction s) simp_all

lemma sample_usable:
  "mapping_matches (vocabulary_requirement sample_sha sample_spec d) (sample_mapping n p t)
     \<and> in_force sample_at (vm_valid_from (sample_mapping n p t)) (vm_valid_to (sample_mapping n p t))
     \<and> vm_mapping_kind (sample_mapping n p t) \<noteq> MK_MAPPING_CANDIDATE_ONLY \<longleftrightarrow>
   p = take 20 (sample_sha (vocabulary_slot_kind_value (sd_kind d) @ ''|'' @ sd_source_ref d))"
  by (auto simp: mapping_matches_def sample_mapping_def vocabulary_requirement_def stable_id_def)

lemma sample_mapping_ok:
  assumes "filter (\<lambda>m. mapping_matches (vocabulary_requirement sample_sha sample_spec d) m \<and> in_force sample_at (vm_valid_from m) (vm_valid_to m)
        \<and> vm_mapping_kind m \<noteq> MK_MAPPING_CANDIDATE_ONLY) (vs_mappings sample_terms) = [sample_mapping n p t]"
    and "sd_kind d = SK_EFFECT \<longrightarrow> sd_source_ref d = ''e''"
  shows "mapping_ok sample_terms sample_at sample_spec (vocabulary_requirement sample_sha sample_spec d) (sample_mapping n p t)"
proof -
  have "sample_mapping n p t \<in> set (vs_mappings sample_terms)" using arg_cong [OF assms(1), of set] by auto
  then have "formatter_parse t = Some (map Lit t)" using sample_terms_parse by (fastforce simp: sample_mapping_def)
  moreover have "dict_of (map (\<lambda>e. (eff_effect_ref e, eff_modality e)) (spec_effects sample_spec)) = [(''e'', EM_MUST)]"
    by code_simp
  ultimately show ?thesis using assms
    by (auto simp: mapping_ok_def placeholder_bindings_valid_def vocabulary_requirement_def sample_mapping_def sample_terms_def sample_vocabulary_def)
qed

lemma sample_requirements_ok:
  assumes "d \<in> set (projr (slot_definitions sample_spec))"
  shows "\<exists>m. mapping_ok sample_terms sample_at sample_spec (vocabulary_requirement sample_sha sample_spec d) m"
proof -
  have "\<exists>n p t. filter (\<lambda>m. mapping_matches (vocabulary_requirement sample_sha sample_spec d) m \<and> in_force sample_at (vm_valid_from m) (vm_valid_to m)
        \<and> vm_mapping_kind m \<noteq> MK_MAPPING_CANDIDATE_ONLY) (vs_mappings sample_terms) = [sample_mapping n p t]"
    using assms unfolding sample_slots sum.sel list.set insert_iff empty_iff simp_thms
    by (elim disjE) (simp_all add: sample_terms_def sample_vocabulary_def sample_usable sample_sha_def, blast+)
  moreover have "sd_kind d = SK_EFFECT \<longrightarrow> sd_source_ref d = ''e''" using assms by (auto simp: sample_slots)
  ultimately show ?thesis using sample_mapping_ok by blast
qed

lemma sample_gates:
  assumes "export sample_sha sample_batch = Inr rq"
  shows "gates_pass sample_sha \<lparr>cx_batch = sample_batch, cx_vocabulary = sample_terms, cx_classification = sample_classification,
      cx_requirements = rq, cx_at = sample_at\<rparr> sample_spec"
proof -
  have "r \<in> vocabulary_requirement sample_sha sample_spec ` set (projr (slot_definitions sample_spec))"
    if "r \<in> set (arm_vocabulary_requirements rq)" for r
    using that export_members [OF assms] by (auto simp: sample_batch_def)
  then have "\<exists>m. mapping_ok sample_terms sample_at sample_spec r m" if "r \<in> set (arm_vocabulary_requirements rq)" for r
    using that sample_requirements_ok by blast
  moreover have "map_of (observations_of sample_batch) ''o'' = Some sample_observation"
    by (simp add: observations_of_def dict_of_def sample_batch_def sample_observation_def)
  ultimately show ?thesis
    by (simp add: gates_pass_def batch_intact_def snapshots_intact_def closed_and_resolved_def approval_ok_def effects_definitive_def
        spec_requirements_def sample_digests sample_terms_def sample_vocabulary_def)
       (simp add: sample_batch_def sample_spec_def sample_classification_def sample_mapping_def dict_of_def resolution_values_def
        sample_observation_def sample_digests)
qed

lemma sample_compile_at: "compile_at None sample_terms sample_classification = Inr sample_at"
  using sample_at_canonical
  by (simp add: compile_at_def stampC_def canonical_at_def sample_terms_def sample_vocabulary_def sample_classification_def)

lemma sample_compiles: "\<exists>out. compile_all sample_sha sample_batch sample_terms sample_classification None = Inr out"
  using compile_returns [OF sample_terms_validated sample_classification_validated _ sample_slots_resolve, of None] sample_terms_parse
  by simp

lemma sample_spec_compiles:
  assumes "export sample_sha sample_batch = Inr rq"
  shows "\<exists>y. compile_spec sample_sha \<lparr>cx_batch = sample_batch, cx_vocabulary = sample_terms, cx_classification = sample_classification,
    cx_requirements = rq, cx_at = sample_at\<rparr> sample_spec = Inr y"
proof -
  obtain out where "compile_all sample_sha sample_batch sample_terms sample_classification None = Inr out" using sample_compiles by blast
  then obtain at rs where "compile_at None sample_terms sample_classification = Inr at"
    "list_all2 (\<lambda>s r. compile_spec sample_sha \<lparr>cx_batch = sample_batch, cx_vocabulary = sample_terms, cx_classification = sample_classification,
      cx_requirements = rq, cx_at = at\<rparr> s = Inr r) (sorted_specs sample_batch) rs"
    using assms by (elim compile_all_Inr) auto
  then show ?thesis using sample_compile_at list_all2_left [of _ "sorted_specs sample_batch" rs sample_spec]
    by (fastforce simp: sorted_specs_def sample_batch_def)
qed

theorem candidate_only_through_gates_witness:
  "\<exists>out. compile_all sample_sha sample_batch sample_terms sample_classification None = Inr out
     \<and> (\<exists>r \<in> set (bcb_compilation_results out). bcr_scenario_spec_ref r = ''s'' \<and> bcr_compilation_status r \<noteq> BCS_BLOCKED)"
proof -
  obtain out where out: "compile_all sample_sha sample_batch sample_terms sample_classification None = Inr out"
    using sample_compiles by blast
  have "sample_spec \<in> set (ssb_scenario_specs sample_batch)" "spec_scenario_spec_id sample_spec = ''s''"
    by (simp_all add: sample_batch_def sample_spec_def)
  then show ?thesis
    using candidate_only_through_gates [OF out] sample_gates sample_compile_at out by (metis Inr_inject)
qed

theorem emission_atomic_witness:
  "\<exists>out. compile_all sample_sha sample_batch sample_terms sample_classification None = Inr out
     \<and> map bcr_scenario_spec_ref (bcb_compilation_results out) = [''s'']"
proof -
  obtain out where out: "compile_all sample_sha sample_batch sample_terms sample_classification None = Inr out"
    using sample_compiles by blast
  have "sort (map spec_scenario_spec_id (ssb_scenario_specs sample_batch)) = [''s'']" by (simp add: sample_batch_def sample_spec_def)
  then show ?thesis using emission_atomic [OF out] out by auto
qed


theorem only_rendering_fails_witness:
  "\<exists>rq r x (ms :: (VocabularyRequirement \<times> VocabularyMapping) list) as. export sample_sha sample_batch = Inr rq
     \<and> compile_spec sample_sha \<lparr>cx_batch = sample_batch, cx_vocabulary = sample_terms, cx_classification = sample_classification,
          cx_requirements = rq, cx_at = sample_at\<rparr> sample_spec = Inr (r, x)
     \<and> (bcr_compilation_status r = BCS_SUCCEEDED \<longleftrightarrow>
          (\<exists>a m. render sample_sha sample_spec (map snd (dict_of (map (\<lambda>r. (vreq_requirement_id r, r))
             (spec_requirements \<lparr>cx_batch = sample_batch, cx_vocabulary = sample_terms, cx_classification = sample_classification,
                cx_requirements = rq, cx_at = sample_at\<rparr> sample_spec))))
             (dict_of (map (\<lambda>(r, m). (vreq_requirement_id r, m)) ms)) as sample_digest sample_digest = Inr (a, m)))"
proof -
  obtain rq where rq: "export sample_sha sample_batch = Inr rq" using export_total sample_slots_resolve by blast
  define cx where "cx = \<lparr>cx_batch = sample_batch, cx_vocabulary = sample_terms, cx_classification = sample_classification,
          cx_requirements = rq, cx_at = sample_at\<rparr>"
  obtain r x where c: "compile_spec sample_sha cx sample_spec = Inr (r, x)" using sample_spec_compiles [OF rq] by (auto simp: cx_def)
  then obtain as cb ms mb where "classification_gate sample_sha (cx_batch cx) (cx_classification cx) (cx_at cx) sample_spec = Inr (as, cb)"
    "mapping_gate (cx_vocabulary cx) (cx_at cx) sample_spec (spec_requirements cx sample_spec) = Inr (ms, mb)"
    by (auto simp: compile_spec_def bindE_Inr)
  then have b: "bcr_compilation_status r = BCS_SUCCEEDED \<longleftrightarrow>
      (\<exists>a m. render sample_sha sample_spec (map snd (dict_of (map (\<lambda>r. (vreq_requirement_id r, r)) (spec_requirements cx sample_spec))))
         (dict_of (map (\<lambda>(r, m). (vreq_requirement_id r, m)) ms)) as
         (vs_content_digest (cx_vocabulary cx)) (cls_content_digest (cx_classification cx)) = Inr (a, m))"
    using only_rendering_fails [OF c] sample_gates [OF rq] by (simp add: cx_def)
  have d: "vs_content_digest (cx_vocabulary cx) = sample_digest" "cls_content_digest (cx_classification cx) = sample_digest"
    by (simp_all add: cx_def sample_terms_def sample_vocabulary_def sample_classification_def)
  show ?thesis
    by (rule exI [of _ rq], rule exI [of _ r], rule exI [of _ x], rule exI [of _ ms], rule exI [of _ as])
      (use rq c b in \<open>simp add: d cx_def [symmetric]\<close>)
qed

end
