(* ===== verification/ScenarioCompile.thy ===== *)
theory ScenarioCompile
  imports BddCompile Modality
begin

text \<open>
  The scenario compiler: \<open>compiler/scenario_spec.py\<close>. It turns the effect bundles of a semantic result into
  scenario specifications, or into a result that lists the blockers. SHA-256 is the parameter \<open>sha\<close>; the
  digests of the parse result and of the analysis models are the functions of \<open>model_digests\<close>. A missing
  effect is Python's \<open>KeyError\<close>. The theorems: a specification is emitted exactly for the bundles no condition
  blocks, and the emitted batch is what the behaviour compiler needs: intact digests, resolvable references and slots, and
  definitive expected effects, so the two compilers compose.
\<close>

section \<open>Lookups\<close>

record model_digests =
  dg_parse_result :: "ProcedureParseResult \<Rightarrow> string"
  dg_semantic_payload :: "Phase1SemanticResult \<Rightarrow> string"
  dg_bundle :: "BehaviorEffectBundle \<Rightarrow> string"
  dg_slice :: "BehaviorSlice \<Rightarrow> string"
  dg_predicate :: "PredicateGraph \<Rightarrow> string"

datatype scenario_error = SCENARIO_NO_AST | SCENARIO_KEY_ERROR string | SCENARIO_ASSERTION

definition scenario_stable_id :: "(string \<Rightarrow> string) \<Rightarrow> string \<Rightarrow> string list \<Rightarrow> string" where
  "scenario_stable_id sha pre parts = pre @ ''-'' @ take 20 (sha (py_join ''|'' (pre # parts)))"

definition need_effect :: "EffectCandidate list \<Rightarrow> string \<Rightarrow> scenario_error + EffectCandidate" where
  "need_effect effects r = (case effect_of effects r of None \<Rightarrow> Inl (SCENARIO_KEY_ERROR r) | Some e \<Rightarrow> Inr e)"

definition slice_of :: "Phase1SemanticResult \<Rightarrow> string \<Rightarrow> BehaviorSlice option" where
  "slice_of sem b = map_of (rev (map (\<lambda>s. (bs_bundle_ref s, s)) (sem_behavior_slices sem))) b"

definition predicate_of :: "Phase1SemanticResult \<Rightarrow> string \<Rightarrow> PredicateGraph option" where
  "predicate_of sem r = map_of (rev (map (\<lambda>p. (pg_predicate_graph_id p, p)) (sem_predicate_graphs sem))) r"

definition constraint_of :: "Phase1SemanticResult \<Rightarrow> string \<Rightarrow> ConstraintAssessment option" where
  "constraint_of sem r = map_of (rev (map (\<lambda>c. (cst_assessment_id c, c)) (sem_constraint_assessments sem))) r"

definition reduction_of :: "Phase1SemanticResult \<Rightarrow> string \<Rightarrow> OrderedDecisionReduction option" where
  "reduction_of sem r = map_of (rev (map (\<lambda>d. (od_controlling_region_ref d, d)) (sem_ordered_decision_reductions sem))) r"

definition obligations_of :: "Phase1SemanticResult \<Rightarrow> string \<Rightarrow> EffectObligation list" where
  "obligations_of sem b = sort_key eo_obligation_id (filter (\<lambda>v. eo_bundle_ref v = b) (sem_effect_obligations sem))"

definition slice_evidence :: "BehaviorSlice option \<Rightarrow> string list" where
  "slice_evidence sl = (case sl of None \<Rightarrow> [] | Some s \<Rightarrow> bs_evidence_refs s)"

definition bundle_finding_refs :: "Phase1SemanticResult \<Rightarrow> BehaviorEffectBundle \<Rightarrow> string list" where
  "bundle_finding_refs sem b =
     (let evidence = set (bb_evidence_refs b) \<union> set (slice_evidence (slice_of sem (bb_bundle_id b)))
      in sort (map sf_finding_id (filter (\<lambda>f. set (sf_evidence_node_refs f) \<inter> evidence \<noteq> {}) (sem_findings sem))))"

definition finding_refs_of :: "Phase1SemanticResult \<Rightarrow> string \<Rightarrow> string list" where
  "finding_refs_of sem r =
     (case map_of (rev (map (\<lambda>b. (bb_bundle_id b, bundle_finding_refs sem b)) (sem_behavior_bundles sem))) r of
        None \<Rightarrow> [] | Some fs \<Rightarrow> fs)"

definition bundle_effects :: "BehaviorEffectBundle \<Rightarrow> EffectCandidate list \<Rightarrow> scenario_error + EffectCandidate list" where
  "bundle_effects b effects = seq_results (map (\<lambda>m. need_effect effects (be_effect_ref m)) (bb_effect_members b))"

definition summary_refs :: "BehaviorEffectBundle \<Rightarrow> Phase1SemanticResult \<Rightarrow> string list" where
  "summary_refs b sem =
     (let refs = set (map be_effect_ref (bb_effect_members b));
          sources = set (map ec_source_node_ref (filter (\<lambda>e. ec_effect_id e \<in> refs) (sem_effects sem)))
      in sort (map ls_loop_summary_id (filter (\<lambda>s. set (ls_evidence_refs s) \<inter> sources \<noteq> {}) (sem_loop_summaries sem))))"

section \<open>Sealing\<close>

text \<open>A model constructed with the digest of its other fields.\<close>

definition seal_spec :: "(string \<Rightarrow> string) \<Rightarrow> ScenarioSpec \<Rightarrow> ScenarioSpec" where
  "seal_spec sha r = r\<lparr>spec_content_digest := digest_text sha (without_digest (dump_scenario_spec r))\<rparr>"

definition seal_closure :: "(string \<Rightarrow> string) \<Rightarrow> EffectClosureArtifact \<Rightarrow> EffectClosureArtifact" where
  "seal_closure sha r = r\<lparr>ecl_content_digest := digest_text sha (without_digest (dump_effect_closure_artifact r))\<rparr>"

definition seal_resolution :: "(string \<Rightarrow> string) \<Rightarrow> ResolutionVectorArtifact \<Rightarrow> ResolutionVectorArtifact" where
  "seal_resolution sha r = r\<lparr>rv_content_digest := digest_text sha (without_digest (dump_resolution_vector_artifact r))\<rparr>"

definition seal_budget :: "(string \<Rightarrow> string) \<Rightarrow> ScenarioCompilerBudgetReport \<Rightarrow> ScenarioCompilerBudgetReport" where
  "seal_budget sha r = r\<lparr>bud_content_digest := digest_text sha (without_digest (dump_scenario_compiler_budget_report r))\<rparr>"

definition seal_batch :: "(string \<Rightarrow> string) \<Rightarrow> ScenarioSpecBatchResult \<Rightarrow> ScenarioSpecBatchResult" where
  "seal_batch sha r = r\<lparr>ssb_content_digest := digest_text sha (without_digest (dump_scenario_spec_batch_result r))\<rparr>"

section \<open>Blockers\<close>

definition unresolved_observability :: "EffectObservability \<Rightarrow> bool" where
  "unresolved_observability v = (v \<in> {EO_UNRESOLVED_EFFECT_BOUNDARY, EO_TRANSACTION_SURVIVAL_UNRESOLVED})"

definition has_influence :: "string \<Rightarrow> BehaviorSlice \<Rightarrow> bool" where
  "has_influence code s = list_ex (\<lambda>i. ui_code i = code) (bs_unresolved_influences s)"

definition when_blocked :: "bool \<Rightarrow> 'b \<Rightarrow> 'b list" where
  "when_blocked c b = (if c then [b] else [])"

definition slice_blockers :: "Phase1SemanticResult \<Rightarrow> BehaviorSlice \<Rightarrow> ScenarioBlockerCode list" where
  "slice_blockers sem s =
     when_blocked (has_influence ''ORDERED_DECISION_NEGATED_ARM_DEPENDENCY_PARTIAL'' s) SB_ORDERED_DECISION_NEGATED_ARM_DEPENDENCY_PARTIAL @
     when_blocked (has_influence ''UNDECLARED_SYMBOL_REFERENCE'' s) SB_UNDECLARED_SYMBOL_REFERENCE @
     (case bs_predicate_graph_ref s of None \<Rightarrow> []
      | Some r \<Rightarrow> when_blocked (case predicate_of sem r of None \<Rightarrow> True | Some p \<Rightarrow> pg_normalization_status p \<noteq> AC_COMPLETE)
                    SB_PREDICATE_NORMALIZATION_PARTIAL) @
     when_blocked (list_ex (\<lambda>r. case constraint_of sem r of None \<Rightarrow> False | Some c \<Rightarrow> cst_status c = CS_OBVIOUS_CONTRADICTION)
       (bs_constraint_assessment_refs s)) SB_OBVIOUS_PREDICATE_CONTRADICTION"

definition obligation_blockers :: "EffectCandidate list \<Rightarrow> EffectObligation \<Rightarrow> scenario_error + ScenarioBlockerCode list" where
  "obligation_blockers effects v =
     bindE (need_effect effects (eo_effect_ref v)) (\<lambda>e. Inr (
       when_blocked (unresolved_observability (ec_observability e)) SB_UNRESOLVED_EFFECT_OBSERVABILITY @
       when_blocked (ec_effect_kind e \<in> {EK_DML, EK_DYNAMIC_SQL} \<and> ec_observability e = EO_TRANSACTION_SURVIVAL_UNRESOLVED
           \<and> ec_transaction_analysis_ref e = None) SB_TRANSACTION_SURVIVAL_UNRESOLVED))"

definition primary_refs :: "BehaviorEffectBundle \<Rightarrow> string set" where
  "primary_refs b = be_effect_ref ` {m \<in> set (bb_effect_members b). be_relationship m = ER_PRIMARY}"

definition scenario_blockers ::
  "model_digests \<Rightarrow> ProcedureParseResult \<Rightarrow> Phase1SemanticResult \<Rightarrow> BehaviorEffectBundle \<Rightarrow> scenario_error + ScenarioBlockerCode list" where
  "scenario_blockers dg pr sem b =
     (let sl = slice_of sem (bb_bundle_id b); obs = obligations_of sem (bb_bundle_id b) in
      map_sum id (\<lambda>bs.
        when_blocked (dg_semantic_payload dg sem \<noteq> sem_content_digest sem) SB_SEMANTIC_RESULT_DIGEST_INVALID @
        when_blocked (pr_outcome pr \<noteq> PARSES_COMPLETE) SB_PARSER_RESULT_INCOMPLETE @
        when_blocked (bb_bundle_completeness b \<noteq> AC_COMPLETE) SB_BEHAVIOR_BUNDLE_PARTIAL @
        when_blocked (case sl of None \<Rightarrow> True | Some s \<Rightarrow> bs_analysis_completeness s \<noteq> AC_COMPLETE) SB_BEHAVIOR_SLICE_PARTIAL @
        (case sl of None \<Rightarrow> [] | Some s \<Rightarrow> slice_blockers sem s) @
        when_blocked (obs = []) SB_MISSING_PRIMARY_EFFECT_OBLIGATION @
        when_blocked (list_ex (\<lambda>v. eo_modality v = EM_UNKNOWN) obs) SB_UNKNOWN_EFFECT_MODALITY @
        when_blocked (\<not> list_ex (\<lambda>v. eo_effect_ref v \<in> primary_refs b) obs) SB_MISSING_PRIMARY_EFFECT_OBLIGATION @
        concat bs @
        when_blocked (pr_artifact_revision_id pr = [] \<or> pr_source_digest pr = []) SB_EVIDENCE_BINDING_INCOMPLETE)
      (seq_results (map (obligation_blockers (sem_effects sem)) obs)))"

section \<open>Budget\<close>

definition max_preconditions :: int where "max_preconditions = 64"
definition max_effects :: int where "max_effects = 32"
definition max_evidence_refs :: int where "max_evidence_refs = 512"

definition budget_report ::
  "(string \<Rightarrow> string) \<Rightarrow> BehaviorEffectBundle \<Rightarrow> BehaviorSlice option \<Rightarrow> EffectObligation list \<Rightarrow> ScenarioCompilerBudgetReport" where
  "budget_report sha b sl obs =
     (let limits = [(''preconditions'', max_preconditions), (''effects'', max_effects), (''evidence_refs'', max_evidence_refs)];
          consumed = [(''preconditions'', if (\<exists>s. sl = Some s \<and> bs_predicate_graph_ref s \<noteq> None) then 1 else 0),
                      (''effects'', int (length obs)),
                      (''evidence_refs'', int (length (remdups (bb_evidence_refs b @ slice_evidence sl))))];
          exceeded = sort (map (fst \<circ> fst) (filter (\<lambda>(c, l). snd l < snd c) (zip consumed limits)));
          r = \<lparr>bud_budget_report_id = scenario_stable_id sha ''scenario-budget'' [bb_bundle_id b], bud_configured_limits = limits,
               bud_consumed = consumed, bud_exceeded_limits = exceeded,
               bud_analysis_result = (if exceeded \<noteq> [] then ''PARTIAL'' else ''COMPLETE''), bud_content_digest = []\<rparr>
      in seal_budget sha r)"

section \<open>Preconditions\<close>

text \<open>A classification observation with the precondition that rests on it.\<close>

definition fact_precondition ::
  "(string \<Rightarrow> string) \<Rightarrow> BehaviorEffectBundle \<Rightarrow> string \<Rightarrow> string \<Rightarrow> string \<Rightarrow> string \<Rightarrow> string \<Rightarrow> string option \<Rightarrow> string list \<Rightarrow> string option
   \<Rightarrow> ClassificationAuthorityStatus \<Rightarrow> ClassificationObservation \<times> ScenarioPrecondition" where
  "fact_precondition sha b f tag candidate method version assessment evidence authority status =
     (let oid = scenario_stable_id sha ''classification-observation'' [f, tag] in
      (\<lparr>obs_classification_observation_id = oid, obs_candidate = candidate, obs_method = method, obs_method_version = version,
        obs_ranking_score = None, obs_score_semantics = None, obs_classification_evidence_refs = evidence,
        obs_authority_ref = authority, obs_authority_status = status\<rparr>,
       \<lparr>pre_precondition_id = scenario_stable_id sha ''precondition'' [bb_bundle_id b, f], pre_technical_fact_ref = f,
        pre_constraint_assessment_ref = assessment, pre_classification_observation_ref = Some oid, pre_evidence_refs = evidence\<rparr>))"

definition preconditions_of ::
  "(string \<Rightarrow> string) \<Rightarrow> BehaviorEffectBundle \<Rightarrow> BehaviorSlice \<Rightarrow> PredicateGraph option \<Rightarrow> OrderedDecisionReduction option \<Rightarrow> string option
   \<Rightarrow> (ClassificationObservation \<times> ScenarioPrecondition) list" where
  "preconditions_of sha b s predicate reduction contract =
     (case predicate of None \<Rightarrow> []
      | Some p \<Rightarrow> [fact_precondition sha b (pg_predicate_graph_id p) ''unclassified'' ''UNCLASSIFIED_TECHNICAL_PREDICATE''
          ''NO_CLASSIFIER_EXECUTED'' ''classification-observation-0.1''
          (case bs_constraint_assessment_refs s of [] \<Rightarrow> None | r # _ \<Rightarrow> Some r) (pg_source_node_refs p) None CAS_UNAPPROVED]) @
     (case reduction of None \<Rightarrow> []
      | Some d \<Rightarrow> [fact_precondition sha b (od_reduction_id d) ''ordered-decision'' ''ORDERED_DECISION_PRECEDENCE''
          ''DETERMINISTIC_ORDERED_DECISION_REDUCTION'' ''ordered-decision-reducer-1.0'' None (od_evidence_refs d) None CAS_UNAPPROVED]) @
     (case contract of None \<Rightarrow> []
      | Some c \<Rightarrow> [fact_precondition sha b c ''caller-contract'' ''CALLER_TRANSACTION_CONTRACT'' ''AUTHORITY_BOUND_INPUT_FACT''
          ''caller-transaction-contract-1.0'' None [c] (Some c) CAS_APPROVED])"

section \<open>Effects, closure and resolution\<close>

definition definitive :: "Runtime.EffectModality \<Rightarrow> bool" where
  "definitive m = (m \<in> {EM_MUST, EM_MUST_NOT, EM_MUST_IF_CALLER_CONTRACT_HOLDS})"

definition scenario_effect :: "EffectCandidate list \<Rightarrow> string option \<Rightarrow> EffectObligation \<Rightarrow> scenario_error + ScenarioEffect" where
  "scenario_effect effects contract v =
     bindE (need_effect effects (eo_effect_ref v)) (\<lambda>e. Inr
       \<lparr>eff_effect_ref = eo_effect_ref v, eff_modality = eo_modality v,
        eff_evidence_refs = (if ec_evidence_refs e = [] then [ec_source_node_ref e] else ec_evidence_refs e),
        eff_caller_transaction_contract_ref = (if eo_modality v = EM_MUST_IF_CALLER_CONTRACT_HOLDS then contract else None)\<rparr>)"

definition scenario_effects ::
  "EffectObligation list \<Rightarrow> EffectCandidate list \<Rightarrow> string option \<Rightarrow> scenario_error + (ScenarioEffect list \<times> ScenarioEffect list)" where
  "scenario_effects obs effects contract =
     map_sum id (partition (\<lambda>e. definitive (eff_modality e)))
       (seq_results (map (scenario_effect effects contract) (sort_key eo_obligation_id obs)))"

definition effect_closure :: "(string \<Rightarrow> string) \<Rightarrow> BehaviorEffectBundle \<Rightarrow> EffectCandidate list \<Rightarrow> scenario_error + EffectClosureArtifact" where
  "effect_closure sha b effects =
     map_sum id (\<lambda>es.
       let included = sort (map be_effect_ref (bb_effect_members b));
           unresolved = sort (map ec_effect_id (filter (\<lambda>e. unresolved_observability (ec_observability e)) es));
           r = \<lparr>ecl_effect_closure_id = scenario_stable_id sha ''effect-closure'' (bb_bundle_id b # included),
                ecl_completeness = (if unresolved = [] then ECC_CLOSED_WITHIN_SCOPE else ECC_PARTIAL_TRANSITIVE_CLOSURE),
                ecl_included_effect_refs = included, ecl_unresolved_effect_refs = unresolved, ecl_evidence_refs = bb_evidence_refs b,
                ecl_content_digest = []\<rparr>
       in seal_closure sha r)
     (bundle_effects b effects)"

definition site_of :: "Phase1SemanticResult \<Rightarrow> EffectCandidate \<Rightarrow> DynamicSiteDetail option" where
  "site_of sem e = map_of (rev (map (\<lambda>s. (dy_execute_node_ref s, s)) (sem_dynamic_sql_sites sem))) (ec_source_node_ref e)"

definition dynamic_resolution :: "Phase1SemanticResult \<Rightarrow> EffectCandidate list \<Rightarrow> ResolutionStatus" where
  "dynamic_resolution sem dynamic =
     (let statuses = map dy_relation_resolution_status (List.map_filter (site_of sem) dynamic) in
      if dynamic = [] then RS_NOT_APPLICABLE
      else if statuses \<noteq> [] \<and> list_all (\<lambda>st. st \<in> {DI_RESOLVED_LITERAL, DI_RESOLVED_ENUMERATED, DI_NOT_APPLICABLE}) statuses
      then RS_RESOLVED_SOURCE_ONLY else RS_UNRESOLVED)"

definition routine_resolution :: "Phase1SemanticResult \<Rightarrow> EffectCandidate list \<Rightarrow> EffectCandidate list \<Rightarrow> ResolutionStatus" where
  "routine_resolution sem es dynamic =
     (let sites = filter (\<lambda>s. DK_CALL \<in> set (dy_statement_kinds s)) (List.map_filter (site_of sem) dynamic);
          records = filter (\<lambda>r. list_ex (\<lambda>s. dc_site_ref r = dy_site_id s) sites) (sem_dynamic_call_resolutions sem)
      in if list_ex (\<lambda>e. ec_effect_kind e = EK_CALL) es then RS_UNRESOLVED
         else if sites = [] then RS_NOT_APPLICABLE
         else if list_ex (\<lambda>s. dy_call_resolution_status s = DI_UNRESOLVED_DYNAMIC_IDENTIFIER) sites then RS_UNRESOLVED
         else if records \<noteq> [] \<and> list_all (\<lambda>r. dc_verification_status r \<in> {DV_VERIFIED_CATALOG, DV_VERIFIED_SOURCE}) records
         then RS_RESOLVED else RS_RESOLVED_SOURCE_ONLY)"

definition resolution_vector ::
  "(string \<Rightarrow> string) \<Rightarrow> BehaviorEffectBundle \<Rightarrow> BehaviorSlice \<Rightarrow> Phase1SemanticResult \<Rightarrow> scenario_error + ResolutionVectorArtifact" where
  "resolution_vector sha b s sem =
     map_sum id (\<lambda>es.
       let dynamic = filter (\<lambda>e. ec_effect_kind e = EK_DYNAMIC_SQL) es;
           has_dml = (list_ex (\<lambda>e. ec_effect_kind e = EK_DML) es \<or> list_ex (\<lambda>e. ec_target e \<noteq> None) dynamic);
           assessed = (if has_dml then RS_NOT_ASSESSED else RS_NOT_APPLICABLE);
           r = \<lparr>rv_resolution_vector_id = scenario_stable_id sha ''resolution-vector'' [bb_bundle_id b],
                rv_routine_resolution = routine_resolution sem es dynamic,
                rv_view_resolution = (if bs_query_summary_refs s \<noteq> [] then RS_RESOLVED_SOURCE_ONLY else RS_NOT_APPLICABLE),
                rv_udf_resolution = RS_NOT_APPLICABLE, rv_trigger_resolution = assessed, rv_constraint_resolution = assessed,
                rv_dynamic_relation_resolution = dynamic_resolution sem dynamic, rv_evidence_refs = bb_evidence_refs b,
                rv_content_digest = []\<rparr>
       in seal_resolution sha r)
     (bundle_effects b (sem_effects sem))"

section \<open>Identity\<close>

definition str_default :: "string option \<Rightarrow> string \<Rightarrow> string" where
  "str_default v d = (case v of None \<Rightarrow> d | Some s \<Rightarrow> if s = [] then d else s)"

text \<open>\<open>procedure_identity_ref\<close>, \<open>source_symbol_id\<close>, \<open>symbol_lineage_id\<close>.\<close>

definition identity_refs :: "(string \<Rightarrow> string) \<Rightarrow> ProcedureParseResult \<Rightarrow> ProcedureHeader \<Rightarrow> string \<times> string \<times> string" where
  "identity_refs sha pr ast =
     (let schema = str_default (pa_schema_name ast) ''<UNQUALIFIED>'';
          signature = py_join ''|'' (map (\<lambda>p. pp_mode p @ '':'' @ py_upper (pp_type_text p)) (pa_parameters ast));
          symbol = scenario_stable_id sha ''source-symbol'' [py_upper schema, py_upper (pa_procedure_name ast), signature];
          lineage = scenario_stable_id sha ''symbol-lineage'' [py_upper schema, py_upper (pa_procedure_name ast)];
          identity = scenario_stable_id sha ''procedure-identity'' [symbol, str_default (pa_specific_name ast) [],
            str_default (pa_routine_version_id ast) [], pr_artifact_revision_id pr]
      in (identity, symbol, lineage))"

definition effect_signature :: "EffectCandidate \<Rightarrow> string" where
  "effect_signature e = py_join ''|'' [effect_kind_value (ec_effect_kind e), str_default (ec_target e) [],
     str_default (ec_value_expression e) [], observability_value (ec_observability e)]"

definition behavior_id_of :: "(string \<Rightarrow> string) \<Rightarrow> model_digests \<Rightarrow> string \<Rightarrow> EffectCandidate list \<Rightarrow> PredicateGraph option \<Rightarrow> string" where
  "behavior_id_of sha dg lineage es predicate =
     scenario_stable_id sha ''behavior'' (lineage # sort (map effect_signature es) @
       [case predicate of None \<Rightarrow> ''sha256:no-predicate'' | Some p \<Rightarrow> dg_predicate dg p])"

definition vocabulary_slots :: "string \<Rightarrow> ScenarioPrecondition list \<Rightarrow> ScenarioEffect list \<Rightarrow> string list" where
  "vocabulary_slots sid ps es =
     sort ([sid @ '':ACTION'', sid @ '':SCENARIO_NAME''] @ map (\<lambda>p. sid @ '':PRECONDITION:'' @ pre_precondition_id p) ps
       @ map (\<lambda>e. sid @ '':EFFECT:'' @ eff_effect_ref e) es)"

section \<open>Compilation\<close>

record bundle_output =
  bo_observations :: "ClassificationObservation list"
  bo_closure :: EffectClosureArtifact
  bo_resolution :: ResolutionVectorArtifact
  bo_spec :: ScenarioSpec

definition scenario_configuration_digest :: "(string \<Rightarrow> string) \<Rightarrow> string" where
  "scenario_configuration_digest sha = digest_text sha (str_dict
     [(''max_preconditions'', PInt max_preconditions), (''max_effects'', PInt max_effects),
      (''max_evidence_refs'', PInt max_evidence_refs), (''allow_may_effects'', PBool True)])"

definition make_spec ::
  "(string \<Rightarrow> string) \<Rightarrow> model_digests \<Rightarrow> ProcedureParseResult \<Rightarrow> ProcedureHeader \<Rightarrow> Phase1SemanticResult \<Rightarrow> BehaviorEffectBundle \<Rightarrow> BehaviorSlice
   \<Rightarrow> ScenarioCompilerBudgetReport \<Rightarrow> scenario_error + bundle_output" where
  "make_spec sha dg pr ast sem b s budget =
     (case identity_refs sha pr ast of (identity, symbol, lineage) \<Rightarrow>
      let contract = sem_caller_transaction_contract_ref sem;
          predicate = predicate_of sem (str_default (bs_predicate_graph_ref s) []);
          reduction = reduction_of sem (bb_controlling_region_ref b);
          ops = preconditions_of sha b s predicate reduction contract
      in bindE (scenario_effects (obligations_of sem (bb_bundle_id b)) (sem_effects sem) contract) (\<lambda>(expected, alternatives).
         bindE (effect_closure sha b (sem_effects sem)) (\<lambda>closure.
         bindE (resolution_vector sha b s sem) (\<lambda>resolution.
         bindE (bundle_effects b (sem_effects sem)) (\<lambda>es.
         let behavior = behavior_id_of sha dg lineage es predicate;
             sid = scenario_stable_id sha ''scenario-spec'' [behavior, pr_artifact_revision_id pr, bb_bundle_id b];
             r = \<lparr>spec_scenario_spec_id = sid, spec_behavior_id = behavior, spec_source_symbol_id = symbol, spec_symbol_lineage_id = lineage,
                  spec_procedure_identity_ref = identity, spec_artifact_revision_id = pr_artifact_revision_id pr,
                  spec_behavior_effect_bundle_ref = bb_bundle_id b, spec_behavior_slice_ref = bs_slice_id s,
                  spec_predicate_graph_ref = bs_predicate_graph_ref s,
                  spec_action = \<lparr>act_action_kind = action_scope_value (bb_action_scope b), act_procedure_identity_ref = identity,
                    act_invocation_contract_ref = scenario_stable_id sha ''invocation-contract'' [identity],
                    act_action_scope_ref = bb_action_scope_ref b, act_evidence_refs = [pa_node_id ast]\<rparr>,
                  spec_preconditions = map snd ops, spec_expected_effects = expected, spec_alternative_or_conditional_effects = alternatives,
                  spec_effect_closure_ref = ecl_effect_closure_id closure, spec_resolution_vector_ref = rv_resolution_vector_id resolution,
                  spec_summary_refs = summary_refs b sem,
                  spec_ordered_decision_reduction_refs = (case reduction of None \<Rightarrow> [] | Some d \<Rightarrow> [od_reduction_id d]),
                  spec_caller_transaction_contract_refs = (case contract of None \<Rightarrow> [] | Some c \<Rightarrow> [c]),
                  spec_analysis_budget_report_ref = bud_budget_report_id budget, spec_finding_refs = finding_refs_of sem (bb_bundle_id b),
                  spec_evidence_refs = sort (remdups (bb_evidence_refs b @ bs_evidence_refs s @ map ec_source_node_ref es)),
                  spec_required_classification_slots = map (\<lambda>op. pre_precondition_id (snd op)) ops,
                  spec_required_vocabulary_slots = vocabulary_slots sid (map snd ops) expected, spec_platform_governance_ref = None,
                  spec_content_digest = []\<rparr>
         in Inr \<lparr>bo_observations = map fst ops, bo_closure = closure, bo_resolution = resolution,
                 bo_spec = seal_spec sha r\<rparr>)))))"

definition bundle_input_digests ::
  "(string \<Rightarrow> string) \<Rightarrow> model_digests \<Rightarrow> ProcedureParseResult \<Rightarrow> Phase1SemanticResult \<Rightarrow> BehaviorEffectBundle \<Rightarrow> string list" where
  "bundle_input_digests sha dg pr sem b =
     [dg_parse_result dg pr, sem_content_digest sem, dg_bundle dg b,
      case slice_of sem (bb_bundle_id b) of None \<Rightarrow> ''sha256:missing-slice'' | Some s \<Rightarrow> dg_slice dg s, scenario_configuration_digest sha]"

definition compile_bundle ::
  "(string \<Rightarrow> string) \<Rightarrow> model_digests \<Rightarrow> ProcedureParseResult \<Rightarrow> ProcedureHeader \<Rightarrow> Phase1SemanticResult \<Rightarrow> BehaviorEffectBundle
   \<Rightarrow> scenario_error + (ScenarioCompilerBudgetReport \<times> ScenarioSpecCompilationResult \<times> bundle_output option)" where
  "compile_bundle sha dg pr ast sem b =
     bindE (scenario_blockers dg pr sem b) (\<lambda>bs.
     let sl = slice_of sem (bb_bundle_id b);
         budget = budget_report sha b sl (obligations_of sem (bb_bundle_id b));
         blockers = bs @ when_blocked (bud_exceeded_limits budget \<noteq> []) SB_COMPILATION_BUDGET_EXCEEDED;
         result = \<lparr>scr_compilation_status = SCS_BLOCKED, scr_behavior_effect_bundle_ref = bb_bundle_id b,
                   scr_behavior_slice_ref = map_option bs_slice_id sl, scr_scenario_spec_ref = None,
                   scr_blockers = sort_key scenario_blocker_code_value (remdups blockers), scr_finding_refs = finding_refs_of sem (bb_bundle_id b),
                   scr_blocker_details = (case sl of None \<Rightarrow> [] | Some s \<Rightarrow> map ui_detail (bs_unresolved_influences s)),
                   scr_input_digest_set = bundle_input_digests sha dg pr sem b,
                   scr_compiler_configuration_digest = scenario_configuration_digest sha, scr_output_digest = None\<rparr>
     in if blockers \<noteq> [] then Inr (budget, result, None)
        else (case sl of None \<Rightarrow> Inl SCENARIO_ASSERTION
              | Some s \<Rightarrow>
                  bindE (make_spec sha dg pr ast sem b s budget) (\<lambda>out.
                  Inr (budget, result\<lparr>scr_compilation_status := SCS_SUCCEEDED, scr_scenario_spec_ref := Some (spec_scenario_spec_id (bo_spec out)),
                         scr_blocker_details := [], scr_output_digest := Some (spec_content_digest (bo_spec out))\<rparr>, Some out))))"

definition scenario_batch ::
  "(string \<Rightarrow> string) \<Rightarrow> model_digests \<Rightarrow> ProcedureParseResult \<Rightarrow> ProcedureHeader \<Rightarrow> Phase1SemanticResult
   \<Rightarrow> (ScenarioCompilerBudgetReport \<times> ScenarioSpecCompilationResult \<times> bundle_output option) list \<Rightarrow> ScenarioSpecBatchResult" where
  "scenario_batch sha dg pr ast sem rs =
     (let outs = List.map_filter (\<lambda>x. snd (snd x)) rs in
      seal_batch sha
        \<lparr>ssb_parser_result_digest = dg_parse_result dg pr, ssb_semantic_result_digest = sem_content_digest sem,
         ssb_procedure_identity_ref = fst (identity_refs sha pr ast), ssb_source_symbol_id = fst (snd (identity_refs sha pr ast)),
         ssb_symbol_lineage_id = snd (snd (identity_refs sha pr ast)),
         ssb_classification_observations = sort_key obs_classification_observation_id (concat (map bo_observations outs)),
         ssb_effect_closures = sort_key ecl_effect_closure_id (map bo_closure outs),
         ssb_resolution_vectors = sort_key rv_resolution_vector_id (map bo_resolution outs),
         ssb_budget_reports = sort_key bud_budget_report_id (map fst rs),
         ssb_scenario_specs = sort_key spec_scenario_spec_id (map bo_spec outs),
         ssb_compilation_results = sort_key scr_behavior_effect_bundle_ref (map (\<lambda>x. fst (snd x)) rs),
         ssb_content_digest = []\<rparr>)"

definition compile_scenarios ::
  "(string \<Rightarrow> string) \<Rightarrow> model_digests \<Rightarrow> ProcedureParseResult \<Rightarrow> Phase1SemanticResult \<Rightarrow> scenario_error + ScenarioSpecBatchResult" where
  "compile_scenarios sha dg pr sem =
     (case pr_ast pr of None \<Rightarrow> Inl SCENARIO_NO_AST
      | Some ast \<Rightarrow>
          map_sum id (scenario_batch sha dg pr ast sem)
            (seq_results (map (compile_bundle sha dg pr ast sem) (sort_key bb_bundle_id (sem_behavior_bundles sem)))))"

section \<open>Emitted artifacts are intact\<close>

lemma seal_spec_fields [simp]:
  "spec_scenario_spec_id (seal_spec sha r) = spec_scenario_spec_id r"
  "spec_behavior_id (seal_spec sha r) = spec_behavior_id r"
  "spec_source_symbol_id (seal_spec sha r) = spec_source_symbol_id r"
  "spec_symbol_lineage_id (seal_spec sha r) = spec_symbol_lineage_id r"
  "spec_procedure_identity_ref (seal_spec sha r) = spec_procedure_identity_ref r"
  "spec_artifact_revision_id (seal_spec sha r) = spec_artifact_revision_id r"
  "spec_behavior_effect_bundle_ref (seal_spec sha r) = spec_behavior_effect_bundle_ref r"
  "spec_behavior_slice_ref (seal_spec sha r) = spec_behavior_slice_ref r"
  "spec_predicate_graph_ref (seal_spec sha r) = spec_predicate_graph_ref r"
  "spec_action (seal_spec sha r) = spec_action r"
  "spec_preconditions (seal_spec sha r) = spec_preconditions r"
  "spec_expected_effects (seal_spec sha r) = spec_expected_effects r"
  "spec_alternative_or_conditional_effects (seal_spec sha r) = spec_alternative_or_conditional_effects r"
  "spec_effect_closure_ref (seal_spec sha r) = spec_effect_closure_ref r"
  "spec_resolution_vector_ref (seal_spec sha r) = spec_resolution_vector_ref r"
  "spec_summary_refs (seal_spec sha r) = spec_summary_refs r"
  "spec_ordered_decision_reduction_refs (seal_spec sha r) = spec_ordered_decision_reduction_refs r"
  "spec_caller_transaction_contract_refs (seal_spec sha r) = spec_caller_transaction_contract_refs r"
  "spec_analysis_budget_report_ref (seal_spec sha r) = spec_analysis_budget_report_ref r"
  "spec_finding_refs (seal_spec sha r) = spec_finding_refs r"
  "spec_evidence_refs (seal_spec sha r) = spec_evidence_refs r"
  "spec_required_classification_slots (seal_spec sha r) = spec_required_classification_slots r"
  "spec_required_vocabulary_slots (seal_spec sha r) = spec_required_vocabulary_slots r"
  "spec_platform_governance_ref (seal_spec sha r) = spec_platform_governance_ref r"
  by (simp_all add: seal_spec_def)

lemma seal_closure_fields [simp]:
  "ecl_effect_closure_id (seal_closure sha r) = ecl_effect_closure_id r"
  "ecl_completeness (seal_closure sha r) = ecl_completeness r"
  "ecl_included_effect_refs (seal_closure sha r) = ecl_included_effect_refs r"
  "ecl_unresolved_effect_refs (seal_closure sha r) = ecl_unresolved_effect_refs r"
  "ecl_evidence_refs (seal_closure sha r) = ecl_evidence_refs r"
  by (simp_all add: seal_closure_def)

lemma seal_resolution_fields [simp]:
  "rv_resolution_vector_id (seal_resolution sha r) = rv_resolution_vector_id r"
  "rv_routine_resolution (seal_resolution sha r) = rv_routine_resolution r"
  "rv_view_resolution (seal_resolution sha r) = rv_view_resolution r"
  "rv_udf_resolution (seal_resolution sha r) = rv_udf_resolution r"
  "rv_trigger_resolution (seal_resolution sha r) = rv_trigger_resolution r"
  "rv_constraint_resolution (seal_resolution sha r) = rv_constraint_resolution r"
  "rv_dynamic_relation_resolution (seal_resolution sha r) = rv_dynamic_relation_resolution r"
  "rv_evidence_refs (seal_resolution sha r) = rv_evidence_refs r"
  by (simp_all add: seal_resolution_def)

lemma seal_budget_fields [simp]:
  "bud_budget_report_id (seal_budget sha r) = bud_budget_report_id r"
  "bud_configured_limits (seal_budget sha r) = bud_configured_limits r"
  "bud_consumed (seal_budget sha r) = bud_consumed r"
  "bud_exceeded_limits (seal_budget sha r) = bud_exceeded_limits r"
  "bud_analysis_result (seal_budget sha r) = bud_analysis_result r"
  by (simp_all add: seal_budget_def)

lemma seal_batch_fields [simp]:
  "ssb_parser_result_digest (seal_batch sha r) = ssb_parser_result_digest r"
  "ssb_semantic_result_digest (seal_batch sha r) = ssb_semantic_result_digest r"
  "ssb_procedure_identity_ref (seal_batch sha r) = ssb_procedure_identity_ref r"
  "ssb_source_symbol_id (seal_batch sha r) = ssb_source_symbol_id r"
  "ssb_symbol_lineage_id (seal_batch sha r) = ssb_symbol_lineage_id r"
  "ssb_classification_observations (seal_batch sha r) = ssb_classification_observations r"
  "ssb_effect_closures (seal_batch sha r) = ssb_effect_closures r"
  "ssb_resolution_vectors (seal_batch sha r) = ssb_resolution_vectors r"
  "ssb_budget_reports (seal_batch sha r) = ssb_budget_reports r"
  "ssb_scenario_specs (seal_batch sha r) = ssb_scenario_specs r"
  "ssb_compilation_results (seal_batch sha r) = ssb_compilation_results r"
  by (simp_all add: seal_batch_def)

text \<open>
  The contract of a sealed artifact: sealing changes nothing but the digest, and makes it the digest of the rest. It is what the
  compiler that reads the artifact relies on, whatever the artifact is.
\<close>

locale sealed_artifact =
  fixes sha :: "string \<Rightarrow> string" and dump :: "'r \<Rightarrow> pyval" and digest_of :: "'r \<Rightarrow> string" and seal :: "'r \<Rightarrow> 'r" and wf :: "'r \<Rightarrow> bool"
  assumes dump_plain: "wf r \<Longrightarrow> plain (dump r)"
    and seal_wf: "wf r \<Longrightarrow> wf (seal r)"
    and seal_content: "without_digest (dump (seal r)) = without_digest (dump r)"
    and seal_digest: "digest_of (seal r) = digest_text sha (without_digest (dump r))"
begin

lemma seal_valid: "wf r \<Longrightarrow> digest_valid sha (dump (seal r)) (digest_of (seal r))"
  using fresh_digest_valid [OF dump_plain [OF seal_wf]] by (simp add: seal_content seal_digest)

lemma only_the_seal_is_valid: "wf r \<Longrightarrow> digest_valid sha (dump r) d \<longleftrightarrow> d = digest_of (seal r)"
  by (auto simp: digest_valid_def seal_digest digest_of_plain plain_without_digest dump_plain)

lemma sealed_once: "digest_of (seal (seal r)) = digest_of (seal r)"
  by (simp add: seal_digest seal_content)

end

definition budget_keyed :: "ScenarioCompilerBudgetReport \<Rightarrow> bool" where
  "budget_keyed g = (distinct (map fst (bud_configured_limits g)) \<and> distinct (map fst (bud_consumed g)))"

interpretation sp: sealed_artifact sha dump_scenario_spec spec_content_digest "seal_spec sha" "\<lambda>_. True" for sha
  by unfold_locales (simp_all add: seal_spec_def without_digest_def dump_scenario_spec_def)

interpretation ecl: sealed_artifact sha dump_effect_closure_artifact ecl_content_digest "seal_closure sha" "\<lambda>_. True" for sha
  by unfold_locales (simp_all add: seal_closure_def without_digest_def dump_effect_closure_artifact_def)

interpretation rv: sealed_artifact sha dump_resolution_vector_artifact rv_content_digest "seal_resolution sha" "\<lambda>_. True" for sha
  by unfold_locales (simp_all add: seal_resolution_def without_digest_def dump_resolution_vector_artifact_def)

interpretation bud: sealed_artifact sha dump_scenario_compiler_budget_report bud_content_digest "seal_budget sha" budget_keyed for sha
proof unfold_locales
  show "plain (dump_scenario_compiler_budget_report g)" if "budget_keyed g" for g using that by (simp add: budget_keyed_def)
qed (simp_all add: budget_keyed_def seal_budget_def without_digest_def dump_scenario_compiler_budget_report_def)

interpretation ssb: sealed_artifact sha dump_scenario_spec_batch_result ssb_content_digest "seal_batch sha"
    "\<lambda>r. \<forall>g \<in> set (ssb_budget_reports r). budget_keyed g" for sha
  by unfold_locales (simp_all add: budget_keyed_def seal_batch_def without_digest_def dump_scenario_spec_batch_result_def)

lemma budget_report_keyed: "budget_keyed (budget_report sha b sl obs)"
  by (simp add: budget_keyed_def budget_report_def Let_def)

lemma budget_intact:
  "digest_valid sha (dump_scenario_compiler_budget_report (budget_report sha b sl obs)) (bud_content_digest (budget_report sha b sl obs))"
  unfolding budget_report_def Let_def by (rule bud.seal_valid) (simp add: budget_keyed_def)

lemma effect_closure_intact:
  "effect_closure sha b effects = Inr e \<Longrightarrow> digest_valid sha (dump_effect_closure_artifact e) (ecl_content_digest e)"
  using ecl.seal_valid by (auto simp: effect_closure_def Let_def dest!: map_sum_Inr)

lemma resolution_vector_intact:
  "resolution_vector sha b s sem = Inr r \<Longrightarrow> digest_valid sha (dump_resolution_vector_artifact r) (rv_content_digest r)"
  unfolding resolution_vector_def Let_def using rv.seal_valid by (blast dest!: map_sum_Inr)

text \<open>What a successful \<open>make_spec\<close> returns.\<close>

lemma make_spec_Inr:
  assumes "make_spec sha dg pr ast sem b s budget = Inr out"
  obtains expected alternatives ops where
    "scenario_effects (obligations_of sem (bb_bundle_id b)) (sem_effects sem) (sem_caller_transaction_contract_ref sem) = Inr (expected, alternatives)"
    "effect_closure sha b (sem_effects sem) = Inr (bo_closure out)" "resolution_vector sha b s sem = Inr (bo_resolution out)"
    "ops = preconditions_of sha b s (predicate_of sem (str_default (bs_predicate_graph_ref s) [])) (reduction_of sem (bb_controlling_region_ref b))
       (sem_caller_transaction_contract_ref sem)"
    "bo_observations out = map fst ops" "spec_preconditions (bo_spec out) = map snd ops"
    "spec_expected_effects (bo_spec out) = expected" "spec_alternative_or_conditional_effects (bo_spec out) = alternatives"
    "spec_behavior_effect_bundle_ref (bo_spec out) = bb_bundle_id b"
    "spec_effect_closure_ref (bo_spec out) = ecl_effect_closure_id (bo_closure out)"
    "spec_resolution_vector_ref (bo_spec out) = rv_resolution_vector_id (bo_resolution out)"
    "spec_analysis_budget_report_ref (bo_spec out) = bud_budget_report_id budget"
    "\<exists>parts. spec_scenario_spec_id (bo_spec out) = scenario_stable_id sha ''scenario-spec'' parts"
    "spec_required_vocabulary_slots (bo_spec out) = vocabulary_slots (spec_scenario_spec_id (bo_spec out)) (map snd ops) expected"
    "digest_valid sha (dump_scenario_spec (bo_spec out)) (spec_content_digest (bo_spec out))"
proof -
  obtain identity symbol lineage where i: "identity_refs sha pr ast = (identity, symbol, lineage)" by (cases "identity_refs sha pr ast")
  from assms obtain expected alternatives closure resolution es where
    e: "scenario_effects (obligations_of sem (bb_bundle_id b)) (sem_effects sem) (sem_caller_transaction_contract_ref sem) = Inr (expected, alternatives)"
    and c: "effect_closure sha b (sem_effects sem) = Inr closure" and r: "resolution_vector sha b s sem = Inr resolution"
    and es: "bundle_effects b (sem_effects sem) = Inr es"
    by (auto simp: make_spec_def i Let_def bindE_Inr)
  show thesis
    by (rule that [OF e _ _ refl])
      (use assms in \<open>auto simp: make_spec_def i Let_def bindE_def e c r es sp.seal_valid\<close>)
qed

section \<open>Eligible bundles\<close>

definition slice_clear :: "Phase1SemanticResult \<Rightarrow> BehaviorSlice \<Rightarrow> bool" where
  "slice_clear sem s =
     (bs_analysis_completeness s = AC_COMPLETE
      \<and> (\<forall>i \<in> set (bs_unresolved_influences s). ui_code i \<notin> {''ORDERED_DECISION_NEGATED_ARM_DEPENDENCY_PARTIAL'', ''UNDECLARED_SYMBOL_REFERENCE''})
      \<and> (\<forall>r. bs_predicate_graph_ref s = Some r \<longrightarrow> (\<exists>p. predicate_of sem r = Some p \<and> pg_normalization_status p = AC_COMPLETE))
      \<and> (\<forall>r \<in> set (bs_constraint_assessment_refs s). \<forall>c. constraint_of sem r = Some c \<longrightarrow> cst_status c \<noteq> CS_OBVIOUS_CONTRADICTION))"

definition eligible :: "model_digests \<Rightarrow> ProcedureParseResult \<Rightarrow> Phase1SemanticResult \<Rightarrow> BehaviorEffectBundle \<Rightarrow> bool" where
  "eligible dg pr sem b =
     (dg_semantic_payload dg sem = sem_content_digest sem \<and> pr_outcome pr = PARSES_COMPLETE
      \<and> pr_artifact_revision_id pr \<noteq> [] \<and> pr_source_digest pr \<noteq> [] \<and> bb_bundle_completeness b = AC_COMPLETE
      \<and> (\<exists>s. slice_of sem (bb_bundle_id b) = Some s \<and> slice_clear sem s \<and> card (set (bb_evidence_refs b) \<union> set (bs_evidence_refs s)) \<le> 512)
      \<and> length (obligations_of sem (bb_bundle_id b)) \<le> 32
      \<and> (\<exists>v \<in> set (obligations_of sem (bb_bundle_id b)). eo_effect_ref v \<in> primary_refs b)
      \<and> (\<forall>v \<in> set (obligations_of sem (bb_bundle_id b)). eo_modality v \<noteq> EM_UNKNOWN
           \<and> (\<forall>e. effect_of (sem_effects sem) (eo_effect_ref v) = Some e \<longrightarrow> \<not> unresolved_observability (ec_observability e))))"

lemma when_blocked_Nil [simp]: "when_blocked c b = [] \<longleftrightarrow> \<not> c"
  by (simp add: when_blocked_def)

lemma obligation_blockers_Nil:
  assumes "obligation_blockers effects v = Inr bl"
  shows "bl = [] \<longleftrightarrow> (\<forall>e. effect_of effects (eo_effect_ref v) = Some e \<longrightarrow> \<not> unresolved_observability (ec_observability e))"
  using assms by (auto simp: obligation_blockers_def bindE_Inr need_effect_def unresolved_observability_def split: option.splits)

lemma slice_blockers_Nil: "slice_blockers sem s = [] \<and> bs_analysis_completeness s = AC_COMPLETE \<longleftrightarrow> slice_clear sem s"
  by (auto simp: slice_blockers_def slice_clear_def has_influence_def list_ex_iff split: option.splits)

lemma budget_within:
  "bud_exceeded_limits (budget_report sha b sl obs) = [] \<longleftrightarrow>
     length obs \<le> 32 \<and> card (set (bb_evidence_refs b) \<union> set (slice_evidence sl)) \<le> 512"
  by (auto simp: budget_report_def Let_def max_preconditions_def max_effects_def max_evidence_refs_def length_remdups_card_conv
      simp del: length_remdups_leq)

lemma scenario_blockers_Nil:
  assumes "scenario_blockers dg pr sem b = Inr bs"
  shows "bs = [] \<and> bud_exceeded_limits (budget_report sha b (slice_of sem (bb_bundle_id b)) (obligations_of sem (bb_bundle_id b))) = []
    \<longleftrightarrow> eligible dg pr sem b"
proof -
  let ?obs = "obligations_of sem (bb_bundle_id b)"
  from assms obtain rs where rs: "seq_results (map (obligation_blockers (sem_effects sem)) ?obs) = Inr rs"
    by (auto simp: scenario_blockers_def Let_def dest!: map_sum_Inr)
  have "list_all2 (\<lambda>v bl. bl = [] \<longleftrightarrow> (\<forall>e. effect_of (sem_effects sem) (eo_effect_ref v) = Some e \<longrightarrow> \<not> unresolved_observability (ec_observability e))) ?obs rs"
    using seq_results_pointwise [OF rs] by (rule list_all2_mono) (rule obligation_blockers_Nil)
  then have obs: "concat rs = [] \<longleftrightarrow>
      (\<forall>v \<in> set ?obs. \<forall>e. effect_of (sem_effects sem) (eo_effect_ref v) = Some e \<longrightarrow> \<not> unresolved_observability (ec_observability e))"
    by (induction rule: list_all2_induct) auto
  show ?thesis
  proof (cases "slice_of sem (bb_bundle_id b)")
    case None
    then show ?thesis using assms by (auto simp: scenario_blockers_def Let_def rs eligible_def)
  next
    case (Some s)
    have "bs = [] \<longleftrightarrow> dg_semantic_payload dg sem = sem_content_digest sem \<and> pr_outcome pr = PARSES_COMPLETE
      \<and> bb_bundle_completeness b = AC_COMPLETE \<and> slice_clear sem s \<and> ?obs \<noteq> [] \<and> \<not> list_ex (\<lambda>v. eo_modality v = EM_UNKNOWN) ?obs
      \<and> list_ex (\<lambda>v. eo_effect_ref v \<in> primary_refs b) ?obs \<and> concat rs = [] \<and> pr_artifact_revision_id pr \<noteq> [] \<and> pr_source_digest pr \<noteq> []"
      using assms slice_blockers_Nil [of sem s] by (auto simp: scenario_blockers_def Let_def rs Some)
    then show ?thesis unfolding budget_within eligible_def obs
      by (auto simp: Some slice_evidence_def list_ex_iff)
  qed
qed

lemma compile_bundle_cases:
  assumes "compile_bundle sha dg pr ast sem b = Inr (budget, r, out)"
  obtains (blocked) "\<not> eligible dg pr sem b" "out = None" "scr_compilation_status r = SCS_BLOCKED" "scr_blockers r \<noteq> []"
      "scr_scenario_spec_ref r = None" "scr_behavior_effect_bundle_ref r = bb_bundle_id b"
      "budget = budget_report sha b (slice_of sem (bb_bundle_id b)) (obligations_of sem (bb_bundle_id b))"
  | (succeeded) s bo where "eligible dg pr sem b" "out = Some bo" "slice_of sem (bb_bundle_id b) = Some s"
      "make_spec sha dg pr ast sem b s budget = Inr bo" "scr_compilation_status r = SCS_SUCCEEDED" "scr_blockers r = []"
      "scr_scenario_spec_ref r = Some (spec_scenario_spec_id (bo_spec bo))" "scr_output_digest r = Some (spec_content_digest (bo_spec bo))"
      "scr_behavior_effect_bundle_ref r = bb_bundle_id b"
      "budget = budget_report sha b (slice_of sem (bb_bundle_id b)) (obligations_of sem (bb_bundle_id b))"
proof -
  from assms obtain bs where bs: "scenario_blockers dg pr sem b = Inr bs" by (auto simp: compile_bundle_def bindE_Inr)
  define g where "g = budget_report sha b (slice_of sem (bb_bundle_id b)) (obligations_of sem (bb_bundle_id b))"
  note el = scenario_blockers_Nil [OF bs, of sha, folded g_def]
  have Nil: "sort_key scenario_blocker_code_value (remdups xs) = [] \<longleftrightarrow> xs = []" for xs :: "ScenarioBlockerCode list"
    by (simp add: sort_key_Nil_iff)
  show thesis
  proof (cases "eligible dg pr sem b")
    case False
    then have "bs @ when_blocked (bud_exceeded_limits g \<noteq> []) SB_COMPILATION_BUDGET_EXCEEDED \<noteq> []" using el by auto
    with assms bs False show thesis
      by (intro blocked) (auto simp: compile_bundle_def bindE_def Let_def g_def [symmetric] Nil)
  next
    case True
    then obtain s where s: "slice_of sem (bb_bundle_id b) = Some s" by (auto simp: eligible_def)
    from True el have e: "bs = []" "bud_exceeded_limits g = []" by auto
    have gs: "budget_report sha b (Some s) (obligations_of sem (bb_bundle_id b)) = g" by (simp add: g_def s)
    from assms bs obtain bo where bo: "make_spec sha dg pr ast sem b s g = Inr bo" "out = Some bo" "budget = g"
      by (auto simp: compile_bundle_def bindE_Inr Let_def gs e s)
    with assms bs True s e gs show thesis
      by (intro succeeded [of bo s]) (auto simp: compile_bundle_def bindE_def Let_def when_blocked_def)
  qed
qed

lemma scenario_batch_fields [simp]:
  "ssb_effect_closures (scenario_batch sha dg pr ast sem rs) = sort_key ecl_effect_closure_id (map bo_closure (List.map_filter (\<lambda>x. snd (snd x)) rs))"
  "ssb_resolution_vectors (scenario_batch sha dg pr ast sem rs) = sort_key rv_resolution_vector_id (map bo_resolution (List.map_filter (\<lambda>x. snd (snd x)) rs))"
  "ssb_budget_reports (scenario_batch sha dg pr ast sem rs) = sort_key bud_budget_report_id (map fst rs)"
  "ssb_scenario_specs (scenario_batch sha dg pr ast sem rs) = sort_key spec_scenario_spec_id (map bo_spec (List.map_filter (\<lambda>x. snd (snd x)) rs))"
  "ssb_compilation_results (scenario_batch sha dg pr ast sem rs) = sort_key scr_behavior_effect_bundle_ref (map (\<lambda>x. fst (snd x)) rs)"
  "ssb_classification_observations (scenario_batch sha dg pr ast sem rs)
     = sort_key obs_classification_observation_id (concat (map bo_observations (List.map_filter (\<lambda>x. snd (snd x)) rs)))"
  by (simp_all add: scenario_batch_def Let_def)

lemma compile_scenarios_Inr:
  assumes "compile_scenarios sha dg pr sem = Inr out"
  obtains ast rs where "pr_ast pr = Some ast" "out = scenario_batch sha dg pr ast sem rs"
    "list_all2 (\<lambda>b r. compile_bundle sha dg pr ast sem b = Inr r) (sort_key bb_bundle_id (sem_behavior_bundles sem)) rs"
  using assms by (auto simp: compile_scenarios_def split: option.splits dest!: map_sum_Inr seq_results_pointwise)


section \<open>The compiler returns\<close>

text \<open>Every effect a bundle of the result or one of its obligations names is an effect of the result.\<close>

definition effects_known :: "Phase1SemanticResult \<Rightarrow> bool" where
  "effects_known sem =
     (\<forall>b \<in> set (sem_behavior_bundles sem).
        (\<forall>m \<in> set (bb_effect_members b). be_effect_ref m \<in> ec_effect_id ` set (sem_effects sem))
        \<and> (\<forall>v \<in> set (sem_effect_obligations sem). eo_bundle_ref v = bb_bundle_id b \<longrightarrow> eo_effect_ref v \<in> ec_effect_id ` set (sem_effects sem)))"

lemma need_effect_total: "(\<exists>e. need_effect effects r = Inr e) \<longleftrightarrow> r \<in> ec_effect_id ` set effects"
proof -
  have "effect_of effects r = None \<longleftrightarrow> r \<notin> ec_effect_id ` set effects"
    by (simp add: effect_of_def map_of_eq_None_iff image_image)
  then show ?thesis by (auto simp: need_effect_def split: option.splits)
qed

lemma obligations_of_set: "set (obligations_of sem r) = {v \<in> set (sem_effect_obligations sem). eo_bundle_ref v = r}"
  by (simp add: obligations_of_def)

lemma bundle_effects_total:
  "\<forall>m \<in> set (bb_effect_members b). be_effect_ref m \<in> ec_effect_id ` set effects \<Longrightarrow> \<exists>es. bundle_effects b effects = Inr es"
  by (simp add: bundle_effects_def seq_results_exists need_effect_total)

lemma obligation_effects_total:
  assumes "\<forall>v \<in> set obs. eo_effect_ref v \<in> ec_effect_id ` set effects"
  shows "\<exists>rs. seq_results (map (obligation_blockers effects) obs) = Inr rs"
    "\<exists>es. scenario_effects obs effects contract = Inr es"
proof -
  have n: "\<exists>e. need_effect effects (eo_effect_ref v) = Inr e" if "v \<in> set obs" for v
    using assms that by (simp add: need_effect_total)
  show "\<exists>rs. seq_results (map (obligation_blockers effects) obs) = Inr rs"
    using n by (fastforce simp: seq_results_exists obligation_blockers_def bindE_Inr)
  have "\<exists>es. seq_results (map (scenario_effect effects contract) (sort_key eo_obligation_id obs)) = Inr es"
    using n by (fastforce simp: seq_results_exists scenario_effect_def bindE_Inr)
  then show "\<exists>es. scenario_effects obs effects contract = Inr es" by (auto simp: scenario_effects_def)
qed

lemma compile_bundle_total:
  assumes "effects_known sem" "b \<in> set (sem_behavior_bundles sem)"
  shows "\<exists>r. compile_bundle sha dg pr ast sem b = Inr r"
proof -
  have m: "\<forall>m \<in> set (bb_effect_members b). be_effect_ref m \<in> ec_effect_id ` set (sem_effects sem)"
    and v: "\<forall>v \<in> set (obligations_of sem (bb_bundle_id b)). eo_effect_ref v \<in> ec_effect_id ` set (sem_effects sem)"
    using assms by (auto simp: effects_known_def obligations_of_set)
  obtain es where es: "bundle_effects b (sem_effects sem) = Inr es" using bundle_effects_total [OF m] by blast
  obtain rs where rs: "seq_results (map (obligation_blockers (sem_effects sem)) (obligations_of sem (bb_bundle_id b))) = Inr rs"
    using obligation_effects_total(1) [OF v] by blast
  obtain x where x: "scenario_effects (obligations_of sem (bb_bundle_id b)) (sem_effects sem) (sem_caller_transaction_contract_ref sem) = Inr x"
    using obligation_effects_total(2) [OF v] by blast
  have "\<exists>out. make_spec sha dg pr ast sem b s g = Inr out" for s g
    by (cases x; cases "identity_refs sha pr ast")
      (simp add: make_spec_def bindE_def Let_def x es effect_closure_def resolution_vector_def)
  then show ?thesis
    by (auto simp: compile_bundle_def scenario_blockers_def rs bindE_def Let_def split: option.splits sum.splits)
       (metis sum.distinct(1) sum.inject(2))+
qed

lemma compile_scenarios_returns:
  assumes "pr_ast pr = Some ast" "effects_known sem"
  shows "\<exists>out. compile_scenarios sha dg pr sem = Inr out"
proof -
  have "\<exists>rs. seq_results (map (compile_bundle sha dg pr ast sem) (sort_key bb_bundle_id (sem_behavior_bundles sem))) = Inr rs"
    using compile_bundle_total [OF assms(2)] by (simp add: seq_results_exists)
  then show ?thesis by (auto simp: compile_scenarios_def assms(1))
qed

section \<open>One result per bundle\<close>

definition bundle_settled ::
  "model_digests \<Rightarrow> ProcedureParseResult \<Rightarrow> Phase1SemanticResult \<Rightarrow> ScenarioSpecBatchResult \<Rightarrow> BehaviorEffectBundle \<Rightarrow> ScenarioSpecCompilationResult \<Rightarrow> bool" where
  "bundle_settled dg pr sem out b r =
     (scr_behavior_effect_bundle_ref r = bb_bundle_id b
      \<and> (if eligible dg pr sem b
         then scr_compilation_status r = SCS_SUCCEEDED \<and> scr_blockers r = []
           \<and> (\<exists>s \<in> set (ssb_scenario_specs out). scr_scenario_spec_ref r = Some (spec_scenario_spec_id s)
                \<and> scr_output_digest r = Some (spec_content_digest s) \<and> spec_behavior_effect_bundle_ref s = bb_bundle_id b)
         else scr_compilation_status r = SCS_BLOCKED \<and> scr_blockers r \<noteq> [] \<and> scr_scenario_spec_ref r = None))"

lemma set_outputs: "x \<in> set (List.map_filter (\<lambda>x. snd (snd x)) rs) \<longleftrightarrow> (\<exists>g r. (g, r, Some x) \<in> set rs)"
  by (force simp: set_map_filter)

lemma bundle_spec_listed:
  assumes "(g, r, Some bo) \<in> set rs"
  shows "bo_spec bo \<in> set (ssb_scenario_specs (scenario_batch sha dg pr ast sem rs))"
  using assms set_outputs [of bo rs] by auto

lemma compile_bundle_settled:
  assumes "compile_bundle sha dg pr ast sem b = Inr (g, r, o')" "(g, r, o') \<in> set rs"
  shows "bundle_settled dg pr sem (scenario_batch sha dg pr ast sem rs) b r"
  using assms(1)
proof (cases rule: compile_bundle_cases)
  case blocked
  then show ?thesis by (simp add: bundle_settled_def)
next
  case (succeeded s bo)
  with assms(2) have "bo_spec bo \<in> set (ssb_scenario_specs (scenario_batch sha dg pr ast sem rs))"
    by (intro bundle_spec_listed) simp
  moreover from succeeded(4) have "spec_behavior_effect_bundle_ref (bo_spec bo) = bb_bundle_id b" by (rule make_spec_Inr)
  ultimately show ?thesis using succeeded by (auto simp: bundle_settled_def)
qed


text \<open>
  C3: the compiler accounts for every effect bundle: there is exactly one result per bundle; a bundle that no
  condition blocks succeeds, with a specification of the batch that the result names and whose digest it records; any other is
  reported blocked, with at least one blocker and no specification; and no specification comes from a blocked bundle.
\<close>

theorem scenario_per_bundle:
  assumes "compile_scenarios sha dg pr sem = Inr out"
  shows "map scr_behavior_effect_bundle_ref (ssb_compilation_results out) = sort (map bb_bundle_id (sem_behavior_bundles sem))
    \<and> (\<forall>b \<in> set (sem_behavior_bundles sem). \<exists>r \<in> set (ssb_compilation_results out). bundle_settled dg pr sem out b r)
    \<and> (\<forall>r \<in> set (ssb_compilation_results out). \<exists>b \<in> set (sem_behavior_bundles sem). bundle_settled dg pr sem out b r)
    \<and> length (ssb_scenario_specs out) = length (filter (eligible dg pr sem) (sem_behavior_bundles sem))
    \<and> (\<forall>s \<in> set (ssb_scenario_specs out). \<exists>b \<in> set (sem_behavior_bundles sem). eligible dg pr sem b \<and> spec_behavior_effect_bundle_ref s = bb_bundle_id b)"
proof -
  from assms obtain ast rs where out: "out = scenario_batch sha dg pr ast sem rs"
    and all: "list_all2 (\<lambda>b r. compile_bundle sha dg pr ast sem b = Inr r) (sort_key bb_bundle_id (sem_behavior_bundles sem)) rs"
    by (rule compile_scenarios_Inr)
  have settled: "bundle_settled dg pr sem out b (fst (snd x))" if "compile_bundle sha dg pr ast sem b = Inr x" "x \<in> set rs" for b x
    using that by (cases x) (auto simp: out intro: compile_bundle_settled)
  have results: "set (ssb_compilation_results out) = (\<lambda>x. fst (snd x)) ` set rs" by (simp add: out)
  have refs: "map (\<lambda>x. scr_behavior_effect_bundle_ref (fst (snd x))) rs = map bb_bundle_id (sort_key bb_bundle_id (sem_behavior_bundles sem))"
    using all by (induction rule: list_all2_induct) (auto elim: compile_bundle_cases)
  have "map scr_behavior_effect_bundle_ref (ssb_compilation_results out) = sort (map bb_bundle_id (sem_behavior_bundles sem))"
    using arg_cong [OF refs, of mset] by (auto simp: out multiset.map_comp comp_def intro!: properties_for_sort [symmetric])
  moreover have "\<forall>b \<in> set (sem_behavior_bundles sem). \<exists>r \<in> set (ssb_compilation_results out). bundle_settled dg pr sem out b r"
    unfolding results bex_simps(7) using list_all2_left [OF all] settled by (metis set_sort)
  moreover have "\<forall>r \<in> set (ssb_compilation_results out). \<exists>b \<in> set (sem_behavior_bundles sem). bundle_settled dg pr sem out b r"
    unfolding results ball_simps(9) using list_all2_right [OF all] settled by (metis set_sort)
  moreover have "length (List.map_filter (\<lambda>x. snd (snd x)) rs) = length (filter (eligible dg pr sem) (sort_key bb_bundle_id (sem_behavior_bundles sem)))"
    using all by (induction rule: list_all2_induct) (auto simp: List.map_filter_simps elim!: compile_bundle_cases)
  then have "length (ssb_scenario_specs out) = length (filter (eligible dg pr sem) (sem_behavior_bundles sem))"
    by (simp add: out filter_sort)
  moreover have "\<exists>b \<in> set (sem_behavior_bundles sem). eligible dg pr sem b \<and> spec_behavior_effect_bundle_ref s = bb_bundle_id b"
    if s: "s \<in> set (ssb_scenario_specs out)" for s
  proof -
    from s obtain g r bo where x: "(g, r, Some bo) \<in> set rs" and bo: "s = bo_spec bo" by (auto simp: out set_outputs)
    from list_all2_right [OF all x] obtain b where b: "b \<in> set (sem_behavior_bundles sem)" "compile_bundle sha dg pr ast sem b = Inr (g, r, Some bo)"
      by auto
    from b(2) have "eligible dg pr sem b \<and> spec_behavior_effect_bundle_ref s = bb_bundle_id b"
      by (rule compile_bundle_cases) (auto simp: bo elim: make_spec_Inr)
    with b(1) show ?thesis by blast
  qed
  ultimately show ?thesis by blast
qed

section \<open>Slots of a compiled specification\<close>

lemma after_last_colon_append: "CHR '':'' \<notin> set t \<Longrightarrow> after_last_colon (s @ CHR '':'' # t) = t"
  by (simp add: after_last_colon_def takeWhile_tail takeWhile_append takeWhile_eq_all_conv)

lemma first_colon: "c \<notin> set a \<Longrightarrow> c \<notin> set s \<Longrightarrow> a @ c # x = s @ c # y \<longleftrightarrow> a = s \<and> x = y"
  by (induction a arbitrary: s; case_tac s) auto

text \<open>A slot of colon-free parts reads back as its parts.\<close>

lemma slot_parts:
  assumes "CHR '':'' \<notin> set sid \<union> set k \<union> set l \<union> set ref" "sid @ CHR '':'' # k @ CHR '':'' # ref = a @ CHR '':'' # l @ CHR '':'' # b"
  shows "k = l"
proof -
  have "count_list (sid @ CHR '':'' # k @ CHR '':'' # ref) CHR '':'' = 2" using assms(1) by simp
  then have "count_list a CHR '':'' = 0" unfolding assms(2) by simp
  then have "CHR '':'' \<notin> set a" by (simp add: count_list_0_iff)
  then show ?thesis using assms by (simp add: first_colon)
qed

lemma two_colons: "py_in (CHR '':'' # k @ '':'') s \<Longrightarrow> 2 \<le> count_list s CHR '':''"
  by (auto simp: py_in_parts)

lemma slot_kinds:
  assumes "CHR '':'' \<notin> set sid"
  shows "CHR '':'' \<notin> set ref \<Longrightarrow> \<not> py_in '':PRECONDITION:'' (sid @ '':EFFECT:'' @ ref)"
    "\<not> py_in '':PRECONDITION:'' (sid @ '':ACTION'')" "\<not> py_in '':EFFECT:'' (sid @ '':ACTION'')"
    "\<not> py_in '':PRECONDITION:'' (sid @ '':SCENARIO_NAME'')" "\<not> py_in '':EFFECT:'' (sid @ '':SCENARIO_NAME'')"
proof -
  show "\<not> py_in '':PRECONDITION:'' (sid @ '':EFFECT:'' @ ref)" if "CHR '':'' \<notin> set ref"
    using slot_parts [of sid "''EFFECT''" "''PRECONDITION''" ref] assms that by (fastforce simp: py_in_parts)
  have one: "count_list (sid @ '':ACTION'') CHR '':'' = 1" "count_list (sid @ '':SCENARIO_NAME'') CHR '':'' = 1"
    using assms by simp_all
  show "\<not> py_in '':PRECONDITION:'' (sid @ '':ACTION'')" "\<not> py_in '':PRECONDITION:'' (sid @ '':SCENARIO_NAME'')"
    using two_colons [of "''PRECONDITION''"] one by fastforce+
  show "\<not> py_in '':EFFECT:'' (sid @ '':ACTION'')" "\<not> py_in '':EFFECT:'' (sid @ '':SCENARIO_NAME'')"
    using two_colons [of "''EFFECT''"] one by fastforce+
qed

lemma stable_id_colon: "\<forall>x. CHR '':'' \<notin> set (sha x) \<Longrightarrow> CHR '':'' \<notin> set pre \<Longrightarrow> CHR '':'' \<notin> set (scenario_stable_id sha pre parts)"
  by (auto simp: scenario_stable_id_def dest: in_set_takeD)


lemma scenario_effect_ref: "scenario_effect effects contract v = Inr e \<Longrightarrow> eff_effect_ref e = eo_effect_ref v \<and> eff_effect_ref e \<in> ec_effect_id ` set effects"
  using need_effect_total [of effects "eo_effect_ref v"] by (auto simp: scenario_effect_def bindE_Inr)

lemma scenario_effects_Inr:
  assumes "scenario_effects obs effects contract = Inr (expected, alternatives)"
  shows "\<forall>e \<in> set expected. definitive (eff_modality e)" "\<forall>e \<in> set alternatives. \<not> definitive (eff_modality e)"
    "eff_effect_ref ` set (expected @ alternatives) = eo_effect_ref ` set obs"
    "\<forall>e \<in> set (expected @ alternatives). eff_effect_ref e \<in> ec_effect_id ` set effects"
proof -
  from assms obtain es where es: "seq_results (map (scenario_effect effects contract) (sort_key eo_obligation_id obs)) = Inr es"
    and p: "expected = filter (\<lambda>e. definitive (eff_modality e)) es" "alternatives = filter (\<lambda>e. \<not> definitive (eff_modality e)) es"
    by (auto simp: scenario_effects_def comp_def dest!: map_sum_Inr)
  note all = seq_results_pointwise [OF es]
  have s: "set (expected @ alternatives) = set es" by (auto simp: p)
  show "\<forall>e \<in> set expected. definitive (eff_modality e)" "\<forall>e \<in> set alternatives. \<not> definitive (eff_modality e)" by (auto simp: p)
  have "map eff_effect_ref es = map eo_effect_ref (sort_key eo_obligation_id obs)"
    using all by (induction rule: list_all2_induct) (auto dest: scenario_effect_ref)
  then have "set (map eff_effect_ref es) = set (map eo_effect_ref (sort_key eo_obligation_id obs))" by simp
  then show "eff_effect_ref ` set (expected @ alternatives) = eo_effect_ref ` set obs" unfolding s by simp
  show "\<forall>e \<in> set (expected @ alternatives). eff_effect_ref e \<in> ec_effect_id ` set effects"
    unfolding s using list_all2_right [OF all] by (blast dest: scenario_effect_ref)
qed

lemma precondition_ids:
  "p \<in> snd ` set (preconditions_of sha b s predicate reduction contract) \<Longrightarrow> \<exists>parts. pre_precondition_id p = scenario_stable_id sha ''precondition'' parts"
  by (auto simp: preconditions_of_def fact_precondition_def Let_def split: option.splits)

lemma make_spec_slots:
  assumes "make_spec sha dg pr ast sem b s g = Inr bo" "\<forall>x. CHR '':'' \<notin> set (sha x)" "\<forall>e \<in> set (sem_effects sem). CHR '':'' \<notin> set (ec_effect_id e)"
    and "slot \<in> set (spec_required_vocabulary_slots (bo_spec bo))"
  shows "slot_resolves (bo_spec bo) slot"
proof -
  from assms(1) obtain expected alternatives ops parts where
    e: "scenario_effects (obligations_of sem (bb_bundle_id b)) (sem_effects sem) (sem_caller_transaction_contract_ref sem) = Inr (expected, alternatives)"
    and ops: "ops = preconditions_of sha b s (predicate_of sem (str_default (bs_predicate_graph_ref s) [])) (reduction_of sem (bb_controlling_region_ref b))
       (sem_caller_transaction_contract_ref sem)"
    and sp: "spec_preconditions (bo_spec bo) = map snd ops" "spec_expected_effects (bo_spec bo) = expected"
    and sid: "spec_scenario_spec_id (bo_spec bo) = scenario_stable_id sha ''scenario-spec'' parts"
    and sl: "spec_required_vocabulary_slots (bo_spec bo) = vocabulary_slots (spec_scenario_spec_id (bo_spec bo)) (map snd ops) expected"
    by (rule make_spec_Inr) blast
  let ?sid = "spec_scenario_spec_id (bo_spec bo)"
  have free: "CHR '':'' \<notin> set ?sid" unfolding sid using assms(2) by (rule stable_id_colon) simp
  have p: "CHR '':'' \<notin> set (pre_precondition_id p)" if "p \<in> snd ` set ops" for p
    using precondition_ids that stable_id_colon [OF assms(2), of "''precondition''"] by (fastforce simp: ops)
  have f: "CHR '':'' \<notin> set (eff_effect_ref v)" if "v \<in> set expected" for v
  proof -
    from that have "eff_effect_ref v \<in> ec_effect_id ` set (sem_effects sem)" using scenario_effects_Inr(4) [OF e] by simp
    with assms(3) show ?thesis by auto
  qed
  have last: "after_last_colon (?sid @ '':PRECONDITION:'' @ t) = t" "after_last_colon (?sid @ '':EFFECT:'' @ t) = t" if "CHR '':'' \<notin> set t" for t
    using after_last_colon_append [OF that, of "?sid @ '':PRECONDITION''"] after_last_colon_append [OF that, of "?sid @ '':EFFECT''"] by simp_all
  from assms(4) consider "slot = ?sid @ '':ACTION''" | "slot = ?sid @ '':SCENARIO_NAME''"
    | q where "q \<in> snd ` set ops" "slot = ?sid @ '':PRECONDITION:'' @ pre_precondition_id q"
    | v where "v \<in> set expected" "slot = ?sid @ '':EFFECT:'' @ eff_effect_ref v"
    unfolding sl vocabulary_slots_def set_sort by auto
  then show ?thesis
  proof cases
    case 3
    then show ?thesis using py_in_within [of "'':PRECONDITION:''" ?sid] last(1) [OF p] by (simp add: slot_resolves_def sp)
  next
    case 4
    then show ?thesis using slot_kinds(1) [OF free f] last(2) [OF f] by (auto simp: slot_resolves_def sp spec_effects_def)
  qed (simp_all add: slot_resolves_def slot_kinds [OF free])
qed


section \<open>The batch is ready for the behaviour compiler\<close>

lemma dict_of_found: "x \<in> set xs \<Longrightarrow> \<exists>y. map_of (dict_of (map (\<lambda>x. (f x, x)) xs)) (f x) = Some y \<and> y \<in> set xs"
proof -
  assume "x \<in> set xs"
  then have "map_of (rev (map (\<lambda>x. (f x, x)) xs)) (f x) \<noteq> None" by (simp add: map_of_eq_None_iff image_image)
  then obtain y where "map_of (rev (map (\<lambda>x. (f x, x)) xs)) (f x) = Some y" by blast
  then show ?thesis using map_of_SomeD [of "rev (map (\<lambda>x. (f x, x)) xs)" "f x" y] by (auto simp: map_of_dict_of)
qed

lemma compile_bundle_intact:
  assumes "compile_bundle sha dg pr ast sem b = Inr (g, r, o')"
  shows "digest_valid sha (dump_scenario_compiler_budget_report g) (bud_content_digest g)"
    "budget_keyed g"
    "o' = Some bo \<Longrightarrow> digest_valid sha (dump_scenario_spec (bo_spec bo)) (spec_content_digest (bo_spec bo))
       \<and> digest_valid sha (dump_effect_closure_artifact (bo_closure bo)) (ecl_content_digest (bo_closure bo))
       \<and> digest_valid sha (dump_resolution_vector_artifact (bo_resolution bo)) (rv_content_digest (bo_resolution bo))"
proof -
  from assms have g: "g = budget_report sha b (slice_of sem (bb_bundle_id b)) (obligations_of sem (bb_bundle_id b))"
    by (rule compile_bundle_cases)
  then show "digest_valid sha (dump_scenario_compiler_budget_report g) (bud_content_digest g)"
    "budget_keyed g"
    by (simp_all add: budget_intact budget_report_keyed)
  assume o: "o' = Some bo"
  from assms obtain s where "make_spec sha dg pr ast sem b s g = Inr bo" by (rule compile_bundle_cases) (simp_all add: o)
  then show "digest_valid sha (dump_scenario_spec (bo_spec bo)) (spec_content_digest (bo_spec bo))
       \<and> digest_valid sha (dump_effect_closure_artifact (bo_closure bo)) (ecl_content_digest (bo_closure bo))
       \<and> digest_valid sha (dump_resolution_vector_artifact (bo_resolution bo)) (rv_content_digest (bo_resolution bo))"
    by (rule make_spec_Inr) (simp add: effect_closure_intact resolution_vector_intact)
qed

lemma scenario_batch_intact:
  assumes "list_all2 (\<lambda>b r. compile_bundle sha dg pr ast sem b = Inr r) bs rs"
  shows "batch_intact sha (scenario_batch sha dg pr ast sem rs)"
proof -
  let ?out = "scenario_batch sha dg pr ast sem rs"
  have b: "\<exists>b. compile_bundle sha dg pr ast sem b = Inr (g, r, o')" if "(g, r, o') \<in> set rs" for g r o'
    using list_all2_right [OF assms that] by blast
  have g: "digest_valid sha (dump_scenario_compiler_budget_report g) (bud_content_digest g)"
    "budget_keyed g" if "g \<in> fst ` set rs" for g
    using b that compile_bundle_intact(1,2) by (fastforce)+
  have n: "digest_valid sha (dump_scenario_spec (bo_spec bo)) (spec_content_digest (bo_spec bo))
       \<and> digest_valid sha (dump_effect_closure_artifact (bo_closure bo)) (ecl_content_digest (bo_closure bo))
       \<and> digest_valid sha (dump_resolution_vector_artifact (bo_resolution bo)) (rv_content_digest (bo_resolution bo))"
    if "bo \<in> set (List.map_filter (\<lambda>x. snd (snd x)) rs)" for bo
    using b that compile_bundle_intact(3) unfolding set_outputs by blast
  have "digest_valid sha (dump_scenario_spec_batch_result ?out) (ssb_content_digest ?out)"
    unfolding scenario_batch_def Let_def by (rule ssb.seal_valid) (simp add: g(2))
  then show ?thesis unfolding batch_intact_def scenario_batch_fields using g(1) n by simp
qed

lemma compile_scenarios_spec:
  assumes "compile_scenarios sha dg pr sem = Inr out" "s \<in> set (ssb_scenario_specs out)"
  obtains ast b sl g bo where "b \<in> set (sem_behavior_bundles sem)" "make_spec sha dg pr ast sem b sl g = Inr bo" "s = bo_spec bo"
    "bo_closure bo \<in> set (ssb_effect_closures out)" "bo_resolution bo \<in> set (ssb_resolution_vectors out)" "g \<in> set (ssb_budget_reports out)"
proof -
  from assms(1) obtain ast rs where out: "out = scenario_batch sha dg pr ast sem rs"
    and all: "list_all2 (\<lambda>b r. compile_bundle sha dg pr ast sem b = Inr r) (sort_key bb_bundle_id (sem_behavior_bundles sem)) rs"
    by (rule compile_scenarios_Inr)
  from assms(2) obtain bo where bo: "s = bo_spec bo" "bo \<in> set (List.map_filter (\<lambda>x. snd (snd x)) rs)" by (auto simp: out)
  then obtain g r where x: "(g, r, Some bo) \<in> set rs" unfolding set_outputs by blast
  from list_all2_right [OF all x] obtain b where b: "b \<in> set (sem_behavior_bundles sem)" "compile_bundle sha dg pr ast sem b = Inr (g, r, Some bo)"
    by auto
  from b(2) obtain sl where m: "make_spec sha dg pr ast sem b sl g = Inr bo" by (rule compile_bundle_cases) simp_all
  have "g \<in> fst ` set rs" using x by force
  then show thesis using that [OF b(1) m bo(1)] bo(2) unfolding out scenario_batch_fields by simp
qed

text \<open>
  C22: what the scenario compiler emits never trips the integrity gates of the behaviour compiler: no digest of the
  batch or of a nested artifact is invalid, every closure, vector and report that a specification names is in the batch, and
  every expected effect is definitive. Only an open closure, an incomplete resolution or an empty list of expected effects is left to stop
  a specification there.
\<close>

theorem compiled_batch_ready:
  assumes "compile_scenarios sha dg pr sem = Inr out"
  shows "batch_blockers sha out = []
    \<and> (\<forall>s \<in> set (ssb_scenario_specs out). digest_valid sha (dump_scenario_spec s) (spec_content_digest s)
         \<and> set (nested_blockers sha out scope s) \<subseteq> {BB_EFFECT_CLOSURE_INSUFFICIENT, BB_DEPENDENCY_RESOLUTION_INCOMPLETE}
         \<and> set (effect_blockers s) \<subseteq> {BB_GHERKIN_STRUCTURE_INVALID})"
proof -
  have ok: "batch_intact sha out"
    using assms scenario_batch_intact by (auto elim!: compile_scenarios_Inr)
  moreover have "set (nested_blockers sha out scope s) \<subseteq> {BB_EFFECT_CLOSURE_INSUFFICIENT, BB_DEPENDENCY_RESOLUTION_INCOMPLETE}
      \<and> set (effect_blockers s) \<subseteq> {BB_GHERKIN_STRUCTURE_INVALID}" if s: "s \<in> set (ssb_scenario_specs out)" for s
  proof -
    from assms s obtain ast b sl g bo where m: "make_spec sha dg pr ast sem b sl g = Inr bo" "s = bo_spec bo"
      and l: "bo_closure bo \<in> set (ssb_effect_closures out)" "bo_resolution bo \<in> set (ssb_resolution_vectors out)" "g \<in> set (ssb_budget_reports out)"
      by (rule compile_scenarios_spec)
    from m(1) obtain ex al where e: "scenario_effects (obligations_of sem (bb_bundle_id b)) (sem_effects sem) (sem_caller_transaction_contract_ref sem) = Inr (ex, al)"
      and r: "spec_expected_effects s = ex" "spec_effect_closure_ref s = ecl_effect_closure_id (bo_closure bo)"
        "spec_resolution_vector_ref s = rv_resolution_vector_id (bo_resolution bo)" "spec_analysis_budget_report_ref s = bud_budget_report_id g"
      unfolding m(2) by (rule make_spec_Inr)
    obtain x y z where look: "map_of (dict_of (map (\<lambda>x. (ecl_effect_closure_id x, x)) (ssb_effect_closures out))) (spec_effect_closure_ref s) = Some x"
      "map_of (dict_of (map (\<lambda>x. (rv_resolution_vector_id x, x)) (ssb_resolution_vectors out))) (spec_resolution_vector_ref s) = Some y"
      "map_of (dict_of (map (\<lambda>x. (bud_budget_report_id x, x)) (ssb_budget_reports out))) (spec_analysis_budget_report_ref s) = Some z"
      and "x \<in> set (ssb_effect_closures out)" "y \<in> set (ssb_resolution_vectors out)" "z \<in> set (ssb_budget_reports out)"
      using dict_of_found [OF l(1), of ecl_effect_closure_id] dict_of_found [OF l(2), of rv_resolution_vector_id]
        dict_of_found [OF l(3), of bud_budget_report_id] unfolding r by blast
    with ok have "digest_valid sha (dump_effect_closure_artifact x) (ecl_content_digest x)"
      "digest_valid sha (dump_resolution_vector_artifact y) (rv_content_digest y)"
      "digest_valid sha (dump_scenario_compiler_budget_report z) (bud_content_digest z)" unfolding batch_intact_def by blast+
    then have "set (nested_blockers sha out scope s) \<subseteq> {BB_EFFECT_CLOSURE_INSUFFICIENT, BB_DEPENDENCY_RESOLUTION_INCOMPLETE}"
      by (auto simp: nested_blockers_def look)
    moreover have "\<forall>v \<in> set (spec_expected_effects s). definitive (eff_modality v)" using scenario_effects_Inr(1) [OF e] by (simp add: r)
    then have "set (effect_blockers s) \<subseteq> {BB_GHERKIN_STRUCTURE_INVALID}" by (auto simp: effect_blockers_def definitive_def list_ex_iff)
    ultimately show ?thesis ..
  qed
  ultimately show ?thesis by (simp add: batch_blockers_Nil batch_intact_def)
qed

text \<open>
  C23: the two compilers compose: with digests in hexadecimal, effect identifiers without a colon and all effects
  known, the scenario compiler returns a batch, and on that batch, snapshots their models accept and templates that parse, the
  behaviour compiler returns too.
\<close>

theorem scenario_pipeline_returns:
  assumes "pr_ast pr = Some ast" "effects_known sem"
    and "\<forall>x. CHR '':'' \<notin> set (sha x)" "\<forall>e \<in> set (sem_effects sem). CHR '':'' \<notin> set (ec_effect_id e)"
    and "vocabulary_validated v" "classification_validated c" "\<forall>m \<in> set (vs_mappings v). formatter_parse (vm_phrase_template m) \<noteq> None"
    and "case t of None \<Rightarrow> True | Some x \<Rightarrow> \<exists>y. canonical_timestamp x = Inr y"
  shows "\<exists>batch out. compile_scenarios sha dg pr sem = Inr batch \<and> compile_all sha batch v c t = Inr out"
proof -
  obtain batch where b: "compile_scenarios sha dg pr sem = Inr batch" using compile_scenarios_returns [OF assms(1,2)] by blast
  have "\<forall>s \<in> set (ssb_scenario_specs batch). \<forall>slot \<in> set (spec_required_vocabulary_slots s). slot_resolves s slot"
    using compile_scenarios_spec [OF b] make_spec_slots [OF _ assms(3,4)] by metis
  then show ?thesis using compile_returns [OF assms(5-7) _ assms(8)] b by blast
qed

text \<open>
  A specification with a data change never has a sufficient resolution at platform scope: its triggers and constraints
  are never assessed.
\<close>

lemma data_change_not_platform:
  assumes "resolution_vector sha b s sem = Inr r" "bundle_effects b (sem_effects sem) = Inr es" "\<exists>e \<in> set es. ec_effect_kind e = EK_DML"
  shows "\<not> resolution_sufficient r AS_PLATFORM"
proof -
  from assms(3) have "list_ex (\<lambda>e. ec_effect_kind e = EK_DML) es" by (simp add: list_ex_iff)
  with assms(1,2) have "rv_trigger_resolution r = RS_NOT_ASSESSED" unfolding resolution_vector_def Let_def by auto
  then show ?thesis by (simp add: resolution_sufficient_def resolution_values_def)
qed


section \<open>A sample result\<close>

text \<open>The routine of the modality analysis with its complete bundle, and a second bundle that has no slice.\<close>

definition sample_digests :: model_digests where
  "sample_digests = \<lparr>dg_parse_result = (\<lambda>_. ''p''), dg_semantic_payload = (\<lambda>_. ''d''), dg_bundle = bb_bundle_id, dg_slice = bs_slice_id,
     dg_predicate = pg_predicate_graph_id\<rparr>"

definition sample_parse :: ProcedureParseResult where
  "sample_parse = \<lparr>pr_artifact_revision_id = ''a'', pr_source_digest = ''s'', pr_outcome = PARSES_COMPLETE, pr_ast = Some sample_routine\<rparr>"

definition sample_open_bundle :: BehaviorEffectBundle where
  "sample_open_bundle = sample_bundle\<lparr>bb_bundle_id := ''c''\<rparr>"

definition sample_semantic :: Phase1SemanticResult where
  "sample_semantic =
     \<lparr>sem_caller_transaction_contract_ref = None, sem_effects = sample_assignments, sem_behavior_bundles = [sample_open_bundle, sample_bundle],
      sem_loop_summaries = [], sem_dynamic_sql_sites = [], sem_dynamic_call_resolutions = [], sem_predicate_graphs = [],
      sem_constraint_assessments = [], sem_ordered_decision_reductions = [],
      sem_effect_obligations = [\<lparr>eo_obligation_id = ''o1'', eo_bundle_ref = ''b'', eo_effect_ref = ''e1'', eo_relationship = ER_PRIMARY,
          eo_modality = EM_MUST, eo_reason_codes = [''PRIMARY'']\<rparr>,
        \<lparr>eo_obligation_id = ''o2'', eo_bundle_ref = ''b'', eo_effect_ref = ''e2'', eo_relationship = ER_REQUIRED_CO_EFFECT,
          eo_modality = EM_MAY, eo_reason_codes = [''LOOP_EXECUTION_DATA_DEPENDENT'']\<rparr>],
      sem_behavior_slices = [\<lparr>bs_slice_id = ''i'', bs_bundle_ref = ''b'', bs_query_summary_refs = [], bs_unresolved_influences = [],
          bs_predicate_graph_ref = None, bs_constraint_assessment_refs = [], bs_analysis_completeness = AC_COMPLETE, bs_evidence_refs = [''k'']\<rparr>],
      sem_findings = [], sem_content_digest = ''d''\<rparr>"

lemmas sample_scenario_defs = sample_semantic_def sample_parse_def sample_digests_def sample_open_bundle_def sample_bundle_def sample_assignments_def
  sample_assignment_def

lemma sample_effects_known: "effects_known sample_semantic"
  by (simp add: effects_known_def sample_scenario_defs)

lemma sample_primary: "primary_refs sample_bundle = {''e1''}"
proof -
  have "primary_refs sample_bundle = set (map be_effect_ref (filter (\<lambda>m. be_relationship m = ER_PRIMARY) (bb_effect_members sample_bundle)))"
    by (auto simp: primary_refs_def)
  then show ?thesis by (simp add: sample_bundle_def)
qed

lemma sample_eligible: "eligible sample_digests sample_parse sample_semantic sample_bundle" "\<not> eligible sample_digests sample_parse sample_semantic sample_open_bundle"
proof -
  show "eligible sample_digests sample_parse sample_semantic sample_bundle"
    unfolding eligible_def sample_primary
    by (simp add: sample_scenario_defs slice_of_def slice_clear_def obligations_of_def effect_of_def unresolved_observability_def)
  show "\<not> eligible sample_digests sample_parse sample_semantic sample_open_bundle"
    by (simp add: eligible_def sample_scenario_defs slice_of_def)
qed

lemma sample_scenarios_compile: "\<exists>out. compile_scenarios sha sample_digests sample_parse sample_semantic = Inr out"
  by (rule compile_scenarios_returns [OF _ sample_effects_known]) (simp add: sample_parse_def)

theorem scenario_per_bundle_witness:
  "\<exists>out. compile_scenarios (\<lambda>_. ''0'') sample_digests sample_parse sample_semantic = Inr out \<and> length (ssb_scenario_specs out) = 1
    \<and> length (ssb_compilation_results out) = 2
    \<and> (\<exists>r \<in> set (ssb_compilation_results out). scr_behavior_effect_bundle_ref r = ''b'' \<and> scr_compilation_status r = SCS_SUCCEEDED)
    \<and> (\<exists>r \<in> set (ssb_compilation_results out). scr_behavior_effect_bundle_ref r = ''c'' \<and> scr_compilation_status r = SCS_BLOCKED)"
proof -
  obtain out where out: "compile_scenarios (\<lambda>_. ''0'') sample_digests sample_parse sample_semantic = Inr out"
    using sample_scenarios_compile by blast
  note facts = scenario_per_bundle [OF out]
  have b: "sem_behavior_bundles sample_semantic = [sample_open_bundle, sample_bundle]" "bb_bundle_id sample_bundle = ''b''" "bb_bundle_id sample_open_bundle = ''c''"
    by (simp_all add: sample_scenario_defs)
  have "length (map scr_behavior_effect_bundle_ref (ssb_compilation_results out)) = 2" using facts by (simp add: b)
  moreover have "length (ssb_scenario_specs out) = 1" using facts by (simp add: b sample_eligible)
  moreover have "\<exists>r \<in> set (ssb_compilation_results out). bundle_settled sample_digests sample_parse sample_semantic out sample_bundle r"
    "\<exists>r \<in> set (ssb_compilation_results out). bundle_settled sample_digests sample_parse sample_semantic out sample_open_bundle r"
    using facts by (simp_all add: b)
  ultimately show ?thesis using out by (auto simp: bundle_settled_def sample_eligible b)
qed

theorem compiled_batch_ready_witness:
  "\<exists>out. compile_scenarios (\<lambda>_. ''0'') sample_digests sample_parse sample_semantic = Inr out \<and> batch_blockers (\<lambda>_. ''0'') out = []
    \<and> (\<forall>s \<in> set (ssb_scenario_specs out). BB_NON_DEFINITIVE_EFFECT \<notin> set (effect_blockers s))"
proof -
  obtain out where out: "compile_scenarios (\<lambda>_. ''0'') sample_digests sample_parse sample_semantic = Inr out"
    using sample_scenarios_compile by blast
  show ?thesis using out compiled_batch_ready [OF out] by (fastforce)
qed

theorem scenario_pipeline_returns_witness:
  "\<exists>batch out. compile_scenarios (\<lambda>_. ''0'') sample_digests sample_parse sample_semantic = Inr batch
     \<and> compile_all (\<lambda>_. ''0'') batch sample_terms sample_classification None = Inr out"
proof (rule scenario_pipeline_returns [OF _ sample_effects_known])
  show "pr_ast sample_parse = Some sample_routine" by (simp add: sample_parse_def)
  show "\<forall>e \<in> set (sem_effects sample_semantic). CHR '':'' \<notin> set (ec_effect_id e)" by (simp add: sample_scenario_defs)
  show "\<forall>m \<in> set (vs_mappings sample_terms). formatter_parse (vm_phrase_template m) \<noteq> None" using sample_terms_parse by simp
qed (simp_all add: sample_terms_validated sample_classification_validated)

end
