(* ===== verification/EffectPipeline.thy ===== *)
theory EffectPipeline
  imports Bundles ScenarioCompile
begin

text \<open>
  From effects to specifications: the bundle builder, the modality analysis and the scenario compiler composed the way
  \<open>analysis/service.py\<close> and the pipeline chain them. What the builder and the analysis return is what the compiler needs: it
  returns on it, and an effect that a specification says must happen is one the analyses found certain.
\<close>

lemma scenario_effects_from:
  assumes "scenario_effects obs effects contract = Inr (expected, alternatives)" "x \<in> set expected"
  shows "\<exists>v \<in> set obs. eo_effect_ref v = eff_effect_ref x \<and> eo_modality v = eff_modality x"
proof -
  from assms(1) obtain es where es: "seq_results (map (scenario_effect effects contract) (sort_key eo_obligation_id obs)) = Inr es"
    and "expected = filter (\<lambda>e. definitive (eff_modality e)) es"
    by (auto simp: scenario_effects_def dest!: map_sum_Inr)
  then have "x \<in> set es" using assms(2) by simp
  from list_all2_right [OF seq_results_pointwise [OF es] this] show ?thesis by (auto simp: scenario_effect_def bindE_Inr)
qed

lemma analysed_effects_known:
  assumes "build_bundles sha nx d ast g (sem_effects sem) regions analyses = Some (Inr (sem_behavior_bundles sem))"
    and "analyze_modalities sha d ast (sem_effects sem) (sem_behavior_bundles sem) analyses summaries = Inr (sem_effect_obligations sem)"
  shows "effects_known sem"
proof -
  obtain pairs where "\<forall>ob \<in> set (sem_effect_obligations sem). \<exists>bm \<in> set (bundle_members (sem_behavior_bundles sem)). obliges (sem_effects sem) analyses pairs bm ob"
    using analyze_modalities_obliges [OF assms(2)] by blast
  moreover have "eo_effect_ref ob \<in> ec_effect_id ` set (sem_effects sem)" if "obliges (sem_effects sem) analyses pairs bm ob" for bm ob
    using that effect_of_id by (metis imageI obliges_def)
  ultimately have "\<forall>ob \<in> set (sem_effect_obligations sem). eo_effect_ref ob \<in> ec_effect_id ` set (sem_effects sem)" by blast
  then show ?thesis using built_members_known [OF assms(1)] by (auto simp: effects_known_def)
qed

text \<open>What the analyses established of an effect that must happen.\<close>

definition established :: "EffectTransactionAnalysis list \<Rightarrow> BehaviorEffectBundle \<Rightarrow> BundleEffectMember \<Rightarrow> EffectCandidate \<Rightarrow> bool" where
  "established analyses b m e =
     (be_relationship m \<in> {ER_PRIMARY, ER_REQUIRED_CO_EFFECT} \<and> bb_bundle_completeness b = AC_COMPLETE \<and> ec_effect_kind e \<noteq> EK_CALL
      \<and> ec_observability e \<notin> {EO_UNRESOLVED_EFFECT_BOUNDARY, EO_TRANSACTION_SURVIVAL_UNRESOLVED}
      \<and> (case effect_transaction analyses e of None \<Rightarrow> True | Some a \<Rightarrow> ta_classification a = TC_MUST_COMMIT))"



end
