(* ===== verification/Spec2Isabelle.thy ===== *)
theory Spec2Isabelle
  imports SourceUnit Renderers CfgDataflow Decision Executor GovProperties EffectPipeline
begin

text \<open>
  Atlas Procedure Intelligence: stored procedures to semantic evidence.

  The program reads SQL stored procedures of five dialects (Db2 SQL PL, Oracle PL/SQL, SQL Server
  T-SQL, PostgreSQL PL/pgSQL, MySQL) and produces, per routine, an intermediate representation (a
  control-flow graph of classified statements with findings), a semantic report (effects, decision
  arms, references) and scenario candidates, each sealed by a digest over its canonical JSON form.
  The code is the package \<open>src/src/atlas\<close>. Beside it \<open>src/src/ojas_reconciler/db2_behavior\<close> is the
  engine for Db2 procedures: it analyses a typed syntax tree of one procedure (control-flow graph,
  reaching definitions, transaction survival, effect obligations), extracts a decision model that can be
  evaluated, compiles the effects into scenario specifications and these, under the approvals of an
  authority, into Gherkin candidates, verifies them against executions, and keeps all of it in an
  append-only evidence store.

  How the parts interact. \<open>AtlasSourceUnitService.analyze\<close> cuts a source text into routine
  candidates (\<open>application/segmentation.py\<close>; for Db2 through the CLP segmenter
  \<open>dialects/db2/clp.py\<close> and its lexer \<open>clp_lexer.py\<close>), asks the registry
  (\<open>dialects/registry.py\<close>) for the adapter of the dialect, and parses every candidate
  (\<open>dialects/adapter.py\<close>). An adapter finds the header (\<open>syntax.py\<close>, vendor profiles), splits the
  body into logical statements (\<open>scanner.py\<close>), classifies each (\<open>classifier.py\<close>, vendor
  classifiers), keeps the stack of open regions (\<open>structure.py\<close>), refines the graph
  (\<open>control_flow.py\<close>), applies the vendor policy (\<open>semantics.py\<close> and the vendor
  \<open>semantics.py\<close> files), validates references (\<open>core/models.py\<close>) and computes the digest
  (\<open>core/canonical.py\<close>). The semantic service (\<open>application/service.py\<close>) derives report and
  scenarios, the renderers (\<open>renderers\<close>) print them.

  In the Db2 engine the graph builder feeds the definitions solver and the transaction analyzer, whose
  classification grades the obligations of the effect bundles the builder forms; the scenario compiler reads bundles,
  slices and obligations and emits a batch of specifications; the behaviour compiler takes that batch
  with a vocabulary and a classification snapshot; the runtime assessor and executors run a plan and the
  verifier compares the record with it; the store admits any of these artifacts by digest.

  Theories and what they model:

  \<^item> \<open>AtlasPrelude\<close>: Python's string operations, dict and list idioms, decimal printing, and the
    lemmas on them the components share.
  \<^item> \<open>PyRegex\<close>: Python's \<open>re\<close> as a backtracking matcher with groups, look-around,
    case folding and multi-line anchors; the patterns of the code are written as terms of its
    syntax, named \<open>rx_...\<close>.
  \<^item> \<open>AtlasModels\<close> and \<open>Canonical\<close>: \<open>core/models.py\<close> and \<open>core/canonical.py\<close>. SHA-256
    is a parameter \<open>sha\<close> of every definition that needs it.
  \<^item> \<open>Scanner\<close>, \<open>Structure\<close>, \<open>ControlFlow\<close>, \<open>Normalization\<close>, \<open>Syntax\<close>,
    \<open>Classifier\<close>, \<open>Vendors\<close>, \<open>Policies\<close>, \<open>Adapter\<close>: the files of \<open>dialects\<close>
    with the corresponding names, \<open>Vendors\<close> for the profiles and classifiers of the five
    vendor packages and \<open>Policies\<close> for their semantic policies.
  \<^item> \<open>Lexer\<close> and \<open>Clp\<close>: \<open>db2/clp_lexer.py\<close> and \<open>db2/clp.py\<close>.
  \<^item> \<open>Registry\<close>, \<open>Segmentation\<close>, \<open>Service\<close>, \<open>SourceUnit\<close>, \<open>Renderers\<close>: the
    registry, the application layer and the renderers.

  \<^item> \<open>SqlPlAst\<close>: the syntax tree of the Db2 engine (\<open>parsing/models.py\<close>) and its
    control-flow graphs (\<open>analysis/models.py\<close>).
  \<^item> \<open>Cfg\<close>, \<open>Reaching\<close>, \<open>CfgDataflow\<close>: the graph builder \<open>analysis/cfg.py\<close>, the solver
    \<open>analysis/dataflow.py\<close>, and the two composed.
  \<^item> \<open>Decision\<close>: \<open>decision/models.py\<close> and \<open>decision/evaluator.py\<close>, the decision model builder
    and evaluator.
  \<^item> \<open>Transaction\<close>: \<open>analysis/transaction.py\<close>, what becomes of a data change on every path.
  \<^item> \<open>SemanticModels\<close> and \<open>Modality\<close>: the analysis models and \<open>analysis/modalities.py\<close>, how
    strongly a scenario may claim an effect.
  \<^item> \<open>Bundles\<close>: \<open>analysis/bundles.py\<close>, which groups effects and relates them by dominance; the graph
    library \<open>networkx\<close> is a parameter.
  \<^item> \<open>ScenarioCompile\<close> and \<open>EffectPipeline\<close>: \<open>compiler/scenario_spec.py\<close>, the scenario compiler, and its
    composition with the builder and the modality analysis.
  \<^item> \<open>CanonJson\<close>, \<open>Timestamps\<close>, \<open>GherkinText\<close>: the canonical forms of
    \<open>core/canonical_json.py\<close>, \<open>bdd/models.py\<close> and \<open>bdd/gherkin.py\<close> that every digest is taken over.
  \<^item> \<open>BddModels\<close>, \<open>Authority\<close>, \<open>BddCompile\<close>: the models of \<open>bdd\<close>, the requirements and
    validation of \<open>bdd/authority.py\<close>, and the behaviour compiler \<open>compiler/bdd.py\<close>.
  \<^item> \<open>Runtime\<close> and \<open>Executor\<close>: \<open>runtime/safety.py\<close>, \<open>verify.py\<close>, \<open>reconcile.py\<close> and
    \<open>executor.py\<close>; the database driver is a parameter.
  \<^item> \<open>GovModels\<close>, \<open>Governance\<close>, \<open>GovInvariants\<close>, \<open>GovProperties\<close>: the evidence store
    \<open>governance/adapters/sqlite.py\<close> over its tables, with the constraints of the schema as errors of the
    inserts; its invariants; what it promises its callers.

  State and errors. The code's dataclasses and pydantic models are records; its loops over a
  mutable cursor or stack are functions on the record of that state; exceptions are the left
  summand of \<open>adapter_error + 'a\<close> (\<open>None\<close> where one escapes a service). Characters are 8-bit
  \<open>char\<close>; the character classes of the code agree with Python's on ASCII, which is the text
  the patterns distinguish.

  What the lemmas show. The scanner and both lexers lose nothing: statements, tokens, units and
  residual fragments are located in, ordered by and tile their source. The region stack obeys a
  stack discipline in every reachable state. The refined graph is closed, numbered, and its
  transfers, handlers, data dependencies, reachability and modalities are exactly those the
  source determines. Parsing either reports a documented error or returns a valid IR in which
  every statement is a node; policies only annotate. Reports, arms and scenarios are exact
  projections of the IR; the analysis of a source unit is total and analyses every candidate
  independently; canonical forms are stable under reordering of keys. In the Db2 engine, the graph builder
  returns a closed graph whose transfers and handler bindings follow the source, the worklist
  solver returns exactly the definitions that reach a node along some path, and the decision
  evaluator is first match, stable under answering more predicates. The transaction analyzer finds
  exactly the first boundaries along the paths of the graph; the bundles partition the effects, and a
  co-effect is required exactly when no path avoids it; a \<open>MUST\<close> obligation is given exactly when
  the effect is certain, and a specification only claims such effects; the scenario compiler emits one result per bundle and a specification exactly
  for the bundles no condition blocks, and its batches pass the integrity gates of the behaviour
  compiler, so the two compose; a candidate is emitted only through every gate, with its text, its
  manifest and its result or not at all. The live executor commits only contained units of work, and
  the assessor, verifier and reconciler are never optimistic. Every reachable store satisfies its keys
  and its audit chain, only grows, and reads back what was admitted. Canonical bytes determine the JSON
  value, and canonical timestamps compare as instants.

  Interfaces. The contracts between components are locales interpreted on the model: \<open>adapter_registry\<close> (what a
  lookup returns after a registration), \<open>semantic_policy\<close> (a vendor policy only annotates),
  \<open>sealed_artifact\<close> (sealing changes nothing but the digest, the contract between the two compilers) and
  \<open>store_relation\<close> (what every write of the store keeps, which gives append-only growth and validity from
  one induction over the operations).

  Termination and bounds. Every loop is a total function: structural recursion, or \<open>function\<close>
  with a measure (the text left to scan, the ancestors not yet seen). The regex matcher bounds the
  iterations of a star by the length of the text left, which is enough because an iteration that
  consumes nothing ends the star. The inline expansion runs at most the twelve rounds the code runs.
  The graph builder recurses along references that may be cyclic and takes the recursion depth as
  fuel; a depth above the nesting of the tree is shown to be enough. The worklist loop is a partial
  function shown to return on closed graphs.

  Not modelled: reading files and decoding them (\<open>parse\<close>, \<open>segment_file\<close>), the command
  line, the Flask application and the release tooling of Atlas; of the Db2 engine, the parser
  on a Lark grammar and the semantic passes that read its trees and the text of embedded queries
  (effects, slices, predicates, loop and query summaries, dynamic statements), whose results are
  the inputs here; readable phrasing and its quality scores; the catalog, identity, graph and database adapters,
  the commercial workflows and user interfaces, the test kit, and the queries of the store that only list rows.
\<close>

end
